(* ===== verification/Prelude.thy ===== *)
theory Prelude
  imports Main "HOL-Library.Word" "HOL-Library.Monad_Syntax"
begin

text \<open>
  Shared vocabulary of the development.

  \<^item> \<^emph>\<open>C strings\<close> are lists of characters without a NUL; the terminating NUL is the end of the
    list. \<open>cval\<close> reads a character as the unsigned byte the C code compares, and the character
    classes are those of the "C" locale.
  \<^item> \<^emph>\<open>Pointers\<close> are \<open>addr option\<close> (\<open>None\<close> is \<open>NULL\<close>) and \<^emph>\<open>heaps\<close> are partial maps from
    addresses. A computation over a heap returns an \<open>option\<close>: \<open>None\<close> means that the C code would
    read freed or unallocated memory, or would not return. Loops over heap lists use the
    monadic iterators \<open>foldM\<close> and \<open>allM\<close> declared here with the monotonicity rules
    that let recursive heap functions call themselves inside a loop body.
\<close>

section \<open>Theorem collections\<close>

named_theorems ctype_defs "definitions of the character classes"
named_theorems cstr_simps "computation rules for C string operations"

section \<open>Characters as bytes\<close>

type_synonym cstring = string
type_synonym addr = nat
type_synonym ptr = "addr option"

definition cval :: "char \<Rightarrow> nat" where
  "cval c = of_char c"

lemma cval_less [simp]: "cval c < 256"
  by (simp add: cval_def)

lemma cval_inject [simp]: "cval c = cval d \<longleftrightarrow> c = d"
  by (simp add: cval_def)

lemma cval_char_of [simp]: "n < 256 \<Longrightarrow> cval (char_of n) = n"
  by (simp add: cval_def of_char_of)

lemma char_of_cval [simp]: "char_of (cval c) = c"
  by (simp add: cval_def)

abbreviation NUL :: char where
  "NUL \<equiv> CHR 0x00"

abbreviation LF :: char where
  "LF \<equiv> CHR 0x0A"

abbreviation CR :: char where
  "CR \<equiv> CHR 0x0D"

definition isspace :: "char \<Rightarrow> bool" where
  "isspace c \<longleftrightarrow> cval c = 32 \<or> 9 \<le> cval c \<and> cval c \<le> 13"

definition isdigit :: "char \<Rightarrow> bool" where
  "isdigit c \<longleftrightarrow> 48 \<le> cval c \<and> cval c \<le> 57"

definition isupper :: "char \<Rightarrow> bool" where
  "isupper c \<longleftrightarrow> 65 \<le> cval c \<and> cval c \<le> 90"

definition islower :: "char \<Rightarrow> bool" where
  "islower c \<longleftrightarrow> 97 \<le> cval c \<and> cval c \<le> 122"

definition isalpha :: "char \<Rightarrow> bool" where
  "isalpha c \<longleftrightarrow> isupper c \<or> islower c"

definition isalnum :: "char \<Rightarrow> bool" where
  "isalnum c \<longleftrightarrow> isalpha c \<or> isdigit c"

definition isprint :: "char \<Rightarrow> bool" where
  "isprint c \<longleftrightarrow> 32 \<le> cval c \<and> cval c \<le> 126"

definition tolower :: "char \<Rightarrow> char" where
  "tolower c = (if isupper c then char_of (cval c + 32) else c)"

lemmas ctype_basic [ctype_defs] =
  isspace_def isdigit_def isupper_def islower_def isalpha_def isalnum_def isprint_def tolower_def

lemma isdigit_not_isalpha [simp]: "isdigit c \<Longrightarrow> \<not> isalpha c"
  by (simp add: ctype_basic)

lemma isalpha_not_isdigit [simp]: "isalpha c \<Longrightarrow> \<not> isdigit c"
  by (auto simp: ctype_basic)

lemma isdigit_not_isspace [simp]: "isdigit c \<Longrightarrow> \<not> isspace c"
  by (auto simp: ctype_basic)

lemma tolower_idem [simp]: "tolower (tolower c) = tolower c"
  by (auto simp: tolower_def isupper_def)

section \<open>Generic list facts\<close>

lemma takeWhile_all: "(\<And>x. x \<in> set xs \<Longrightarrow> P x) \<Longrightarrow> takeWhile P xs = xs"
  by (simp add: takeWhile_eq_all_conv)

lemma dropWhile_all: "(\<And>x. x \<in> set xs \<Longrightarrow> P x) \<Longrightarrow> dropWhile P xs = []"
  by simp

lemma takeWhile_append_stop:
  "(\<And>x. x \<in> set xs \<Longrightarrow> P x) \<Longrightarrow> \<not> P y \<Longrightarrow> takeWhile P (xs @ y # ys) = xs"
  by (induction xs) auto

lemma dropWhile_append_stop:
  "(\<And>x. x \<in> set xs \<Longrightarrow> P x) \<Longrightarrow> \<not> P y \<Longrightarrow> dropWhile P (xs @ y # ys) = y # ys"
  by (induction xs) auto

lemma hd_dropWhile_not: "dropWhile P xs = y # ys \<Longrightarrow> \<not> P y"
  by (induction xs) (auto split: if_splits)

lemma set_dropWhile_subset: "x \<in> set (dropWhile P xs) \<Longrightarrow> x \<in> set xs"
  by (rule set_dropWhileD)

lemma length_dropWhile_tl: "dropWhile P xs = y # ys \<Longrightarrow> length ys < length xs"
  using length_dropWhile_le [of P xs] by simp

section \<open>Monadic iteration\<close>

text \<open>
  \<open>foldM f xs s\<close> runs \<open>f\<close> on each element, threading the state. \<open>allM f xs s\<close> also lets the
  body stop the loop: the body returns \<open>False\<close> for an early \<open>return false\<close>.
\<close>

fun foldM :: "('x \<Rightarrow> 's \<Rightarrow> 's option) \<Rightarrow> 'x list \<Rightarrow> 's \<Rightarrow> 's option" where
  "foldM f [] s = Some s"
| "foldM f (x # xs) s = Option.bind (f x s) (foldM f xs)"

fun allM :: "('x \<Rightarrow> 's \<Rightarrow> (bool \<times> 's) option) \<Rightarrow> 'x list \<Rightarrow> 's \<Rightarrow> (bool \<times> 's) option" where
  "allM f [] s = Some (True, s)"
| "allM f (x # xs) s =
     Option.bind (f x s) (\<lambda>(ok, s). if ok then allM f xs s else Some (False, s))"

lemma foldM_mono [partial_function_mono]:
  assumes "\<And>x s. mono_option (\<lambda>f. F f x s)"
  shows "mono_option (\<lambda>f. foldM (F f) xs s)"
proof (induction xs arbitrary: s)
  case Nil
  then show ?case by (simp add: monotone_def flat_ord_def fun_ord_def)
next
  case (Cons x xs)
  show ?case by (simp, rule bind_mono [OF assms Cons])
qed

lemma allM_mono [partial_function_mono]:
  assumes "\<And>x s. mono_option (\<lambda>f. F f x s)"
  shows "mono_option (\<lambda>f. allM (F f) xs s)"
proof (induction xs arbitrary: s)
  case Nil
  then show ?case by (simp add: monotone_def flat_ord_def fun_ord_def)
next
  case (Cons x xs)
  have "mono_option (\<lambda>f. case p of (ok, s) \<Rightarrow> if ok then allM (F f) xs s else Some (False, s))"
    for p
    using Cons [of "snd p"]
    by (cases p, cases "fst p") (simp_all add: monotone_def flat_ord_def fun_ord_def)
  then show ?case by (simp, intro bind_mono [OF assms]) simp
qed

lemma foldM_append: "foldM f (xs @ ys) s = Option.bind (foldM f xs s) (foldM f ys)"
  by (induction xs arbitrary: s) (auto simp: bind_eq_None_conv split: Option.bind_split)

lemma foldM_Some_fold: "(\<And>x s. x \<in> set xs \<Longrightarrow> f x s = Some (g x s)) \<Longrightarrow> foldM f xs s = Some (fold g xs s)"
  by (induction xs arbitrary: s) auto

text \<open>Elimination for chains of conditionals that are too long to be split.\<close>

lemma if_result: "(if b then x else y) = r \<Longrightarrow> (x = r \<Longrightarrow> P) \<Longrightarrow> (y = r \<Longrightarrow> P) \<Longrightarrow> P"
  by (simp split: if_splits)

end
