(* ===== verification/CLib.thy ===== *)
theory CLib
  imports Prelude
begin

text \<open>
  The C library functions the loader's sources call, on NUL-free character lists: the string
  comparisons return the difference of the first two differing bytes (the value newlib returns),
  searches return the suffix that starts at the match (a pointer into the string), and the
  number parsers return the value, the unparsed suffix and whether \<open>errno\<close> becomes \<open>ERANGE\<close>.
  The printing of decimal numbers and its round trip through the parsers are shared by the
  configuration writers and by the path syntax.
\<close>

section \<open>Comparison\<close>

fun strcmp :: "cstring \<Rightarrow> cstring \<Rightarrow> int" where
  "strcmp [] [] = 0"
| "strcmp [] (d # t) = - int (cval d)"
| "strcmp (c # s) [] = int (cval c)"
| "strcmp (c # s) (d # t) = (if c = d then strcmp s t else int (cval c) - int (cval d))"

fun strncmp :: "cstring \<Rightarrow> cstring \<Rightarrow> nat \<Rightarrow> int" where
  "strncmp s t 0 = 0"
| "strncmp [] [] (Suc n) = 0"
| "strncmp [] (d # t) (Suc n) = - int (cval d)"
| "strncmp (c # s) [] (Suc n) = int (cval c)"
| "strncmp (c # s) (d # t) (Suc n) =
     (if c = d then strncmp s t n else int (cval c) - int (cval d))"

definition strcasecmp :: "cstring \<Rightarrow> cstring \<Rightarrow> int" where
  "strcasecmp s t = strcmp (map tolower s) (map tolower t)"

definition strncasecmp :: "cstring \<Rightarrow> cstring \<Rightarrow> nat \<Rightarrow> int" where
  "strncasecmp s t n = strncmp (map tolower s) (map tolower t) n"

text \<open>A character list is a C string when no NUL ends it early.\<close>

definition cstr :: "cstring \<Rightarrow> bool" where
  "cstr s \<longleftrightarrow> NUL \<notin> set s"

lemma cval_NUL [simp]: "cval NUL = 0"
  by (simp add: cval_def)

lemma NUL_iff: "c = NUL \<longleftrightarrow> cval c = 0"
  by (metis cval_NUL cval_inject)

lemma cval_pos: "c \<noteq> NUL \<Longrightarrow> 0 < cval c"
  by (simp add: NUL_iff)

lemma cstr_simps1 [simp]:
  "cstr []" "cstr (c # s) \<longleftrightarrow> c \<noteq> NUL \<and> cstr s" "cstr (s @ t) \<longleftrightarrow> cstr s \<and> cstr t"
  by (auto simp: cstr_def)

lemma strcmp_refl [simp]: "strcmp s s = 0"
  by (induction s) auto

lemma strcmp_sym: "strcmp t s = - strcmp s t"
  by (induction s t rule: strcmp.induct) auto

lemma strcmp_0_iff: "cstr s \<Longrightarrow> cstr t \<Longrightarrow> strcmp s t = 0 \<longleftrightarrow> s = t"
  by (induction s t rule: strcmp.induct) (auto dest: cval_pos)

lemma strncmp_take: "strncmp s t n = strcmp (take n s) (take n t)"
  by (induction s t n rule: strncmp.induct) auto

lemma cval_tolower: "cval (tolower c) = (if isupper c then cval c + 32 else cval c)"
  by (simp add: tolower_def isupper_def)

lemma tolower_eq_NUL [simp]: "tolower c = NUL \<longleftrightarrow> c = NUL"
  by (simp add: NUL_iff cval_tolower isupper_def)

lemma tolower_NUL [simp]: "tolower NUL = NUL"
  by simp

lemma cstr_tolower [simp]: "cstr (map tolower s) \<longleftrightarrow> cstr s"
  by (induction s) auto

lemma strcasecmp_refl [simp]: "strcasecmp s s = 0"
  by (simp add: strcasecmp_def)

lemma strcasecmp_sym: "strcasecmp t s = - strcasecmp s t"
  unfolding strcasecmp_def by (rule strcmp_sym)

lemma strcasecmp_0_iff:
  "cstr s \<Longrightarrow> cstr t \<Longrightarrow> strcasecmp s t = 0 \<longleftrightarrow> map tolower s = map tolower t"
  by (simp add: strcasecmp_def strcmp_0_iff)

text \<open>
  The sign of \<open>strcmp\<close> orders strings lexicographically by byte value.
\<close>

lemma strcmp_trans:
  "strcmp s t \<le> 0 \<Longrightarrow> strcmp t u \<le> 0 \<Longrightarrow> cstr s \<Longrightarrow> cstr t \<Longrightarrow> cstr u \<Longrightarrow> strcmp s u \<le> 0"
proof (induction s t arbitrary: u rule: strcmp.induct)
  case (1 u)
  then show ?case by (cases u) auto
next
  case (2 d t u)
  then show ?case by (cases u) auto
next
  case (3 c s u)
  then show ?case by (auto dest: cval_pos)
next
  case (4 c s d t)
  then show ?case by (cases u) (auto split: if_splits)
qed

section \<open>Searching\<close>

fun strchr :: "cstring \<Rightarrow> char \<Rightarrow> cstring option" where
  "strchr [] c = None"
| "strchr (x # xs) c = (if x = c then Some (x # xs) else strchr xs c)"

fun strrchr :: "cstring \<Rightarrow> char \<Rightarrow> cstring option" where
  "strrchr [] c = None"
| "strrchr (x # xs) c =
     (case strrchr xs c of Some r \<Rightarrow> Some r | None \<Rightarrow> if x = c then Some (x # xs) else None)"

fun strpbrk :: "cstring \<Rightarrow> cstring \<Rightarrow> cstring option" where
  "strpbrk [] cs = None"
| "strpbrk (x # xs) cs = (if x \<in> set cs then Some (x # xs) else strpbrk xs cs)"

fun is_prefix :: "'a list \<Rightarrow> 'a list \<Rightarrow> bool" where
  "is_prefix [] ys = True"
| "is_prefix (x # xs) [] = False"
| "is_prefix (x # xs) (y # ys) = (x = y \<and> is_prefix xs ys)"

fun strstr :: "cstring \<Rightarrow> cstring \<Rightarrow> cstring option" where
  "strstr [] p = (if p = [] then Some [] else None)"
| "strstr (x # xs) p = (if is_prefix p (x # xs) then Some (x # xs) else strstr xs p)"

definition strcasestr :: "cstring \<Rightarrow> cstring \<Rightarrow> bool" where
  "strcasestr s p \<longleftrightarrow> strstr (map tolower s) (map tolower p) \<noteq> None"

lemma is_prefix_iff: "is_prefix p s \<longleftrightarrow> (\<exists>r. s = p @ r)"
  by (induction p s rule: is_prefix.induct) auto

lemma is_prefix_append [simp]: "is_prefix p (p @ r)"
  by (simp add: is_prefix_iff)

lemma strstr_Some: "strstr s p = Some r \<Longrightarrow> \<exists>a b. s = a @ p @ b \<and> r = p @ b"
proof (induction s)
  case (Cons x xs)
  show ?case
  proof (cases "is_prefix p (x # xs)")
    case True
    with Cons.prems show ?thesis
      by (metis append_Nil is_prefix_iff option.inject strstr.simps(2))
  next
    case False
    with Cons show ?thesis by (metis append_Cons strstr.simps(2))
  qed
qed (auto split: if_splits)

lemma strstr_None: "strstr s p = None \<longleftrightarrow> (\<nexists>a b. s = a @ p @ b)"
proof (induction s)
  case (Cons x xs)
  have "(\<exists>a b. x # xs = a @ p @ b) \<longleftrightarrow> is_prefix p (x # xs) \<or> (\<exists>a b. xs = a @ p @ b)"
    by (auto simp: is_prefix_iff Cons_eq_append_conv)
  with Cons show ?case by auto
qed auto

lemma strchr_split: "strchr s c = Some r \<Longrightarrow> s = takeWhile (\<lambda>x. x \<noteq> c) s @ r \<and> hd r = c \<and> r \<noteq> []"
  by (induction s) (auto split: if_splits)

lemma strchr_None [simp]: "strchr s c = None \<longleftrightarrow> c \<notin> set s"
  by (induction s) auto

lemma strpbrk_None [simp]: "strpbrk s cs = None \<longleftrightarrow> set s \<inter> set cs = {}"
  by (induction s) auto

lemma strpbrk_append [simp]: "set s \<inter> set cs = {} \<Longrightarrow> strpbrk (s @ r) cs = strpbrk r cs"
  by (induction s) auto

lemma strchr_append [simp]: "c \<notin> set s \<Longrightarrow> strchr (s @ r) c = strchr r c"
  by (induction s) auto

lemma strpbrk_length: "strpbrk s cs = Some r \<Longrightarrow> length r \<le> length s"
  by (induction s) (auto split: if_splits)

lemma strchr_length: "strchr s c = Some r \<Longrightarrow> length r \<le> length s"
  by (induction s) (auto split: if_splits)

section \<open>Bounded concatenation\<close>

text \<open>\<open>strlcat\<close> on a buffer of \<open>len\<close> bytes: the text is cut so that the NUL fits.\<close>

definition strlcat :: "cstring \<Rightarrow> cstring \<Rightarrow> nat \<Rightarrow> cstring" where
  "strlcat buff s len = (if length buff \<ge> len then buff else buff @ take (len - length buff - 1) s)"

lemma strlcat_fits:
  "length buff + length s < len \<Longrightarrow> strlcat buff s len = buff @ s"
  by (simp add: strlcat_def)

lemma strlcat_length: "length buff < len \<Longrightarrow> length (strlcat buff s len) < len"
  by (auto simp: strlcat_def)

end
