(* ===== verification/CNum.thy ===== *)
theory CNum
  imports CLib
begin

text \<open>
  Numbers and their text: \<open>strtoll\<close>, \<open>strtoull\<close> and \<open>strtol\<close> with the bases the sources use
  (0, 10 and 16), the 64-bit bounds they clamp to, and decimal printing (\<open>%d\<close>, \<open>%u\<close>, \<open>%lld\<close>).
  The number parsers share one scanner, \<open>strto_scan\<close>, which follows the C standard: white
  space, an optional sign, an optional prefix, the longest run of digits of the base.
\<close>

definition SIZE_MAX :: nat where
  "SIZE_MAX = 18446744073709551615"

definition INT64_MAX :: int where
  "INT64_MAX = 9223372036854775807"

definition INT64_MIN :: int where
  "INT64_MIN = - 9223372036854775808"

definition INT_MAX :: int where
  "INT_MAX = 2147483647"

definition INT_MIN :: int where
  "INT_MIN = - 2147483648"

definition UINT32_MAX :: nat where
  "UINT32_MAX = 4294967295"

lemmas c_limits = SIZE_MAX_def INT64_MAX_def INT64_MIN_def INT_MAX_def INT_MIN_def UINT32_MAX_def

section \<open>Scanning\<close>

definition dval :: "char \<Rightarrow> nat" where
  "dval c = (if isdigit c then cval c - 48
             else if islower c then cval c - 87
             else if isupper c then cval c - 55
             else 36)"

fun digits_value :: "nat \<Rightarrow> nat \<Rightarrow> cstring \<Rightarrow> nat" where
  "digits_value b v [] = v"
| "digits_value b v (c # cs) = digits_value b (v * b + dval c) cs"

fun scan_sign :: "cstring \<Rightarrow> bool \<times> cstring" where
  "scan_sign [] = (False, [])"
| "scan_sign (c # cs) =
     (if c = CHR ''-'' then (True, cs) else if c = CHR ''+'' then (False, cs) else (False, c # cs))"

fun scan_base :: "nat \<Rightarrow> cstring \<Rightarrow> nat \<times> cstring" where
  "scan_base b (z # x # d # cs) =
     (if (b = 0 \<or> b = 16) \<and> z = CHR ''0'' \<and> (x = CHR ''x'' \<or> x = CHR ''X'') \<and> dval d < 16
      then (16, d # cs)
      else if b = 0 then (if z = CHR ''0'' then 8 else 10, z # x # d # cs)
      else (b, z # x # d # cs))"
| "scan_base b (z # cs) = (if b = 0 then (if z = CHR ''0'' then 8 else 10) else b, z # cs)"
| "scan_base b [] = (if b = 0 then 10 else b, [])"

text \<open>\<open>None\<close>: no conversion. Otherwise the sign, the magnitude and the unparsed suffix.\<close>

definition strto_scan :: "nat \<Rightarrow> cstring \<Rightarrow> (bool \<times> nat \<times> cstring) option" where
  "strto_scan b s =
     (let (neg, s1) = scan_sign (dropWhile isspace s);
          (b', s2) = scan_base b s1;
          ds = takeWhile (\<lambda>c. dval c < b') s2
      in if ds = [] then None
         else Some (neg, digits_value b' 0 ds, dropWhile (\<lambda>c. dval c < b') s2))"

text \<open>
  The result of a conversion: the value, the end pointer (the string itself when there was no
  conversion) and the \<open>ERANGE\<close> flag.
\<close>

record strto_result =
  sr_val :: int
  sr_end :: cstring
  sr_range :: bool

definition strto_clamp :: "int \<Rightarrow> int \<Rightarrow> nat \<Rightarrow> cstring \<Rightarrow> strto_result" where
  "strto_clamp lo hi b s =
     (case strto_scan b s of
        None \<Rightarrow> \<lparr>sr_val = 0, sr_end = s, sr_range = False\<rparr>
      | Some (neg, m, r) \<Rightarrow>
          (let v = (if neg then - int m else int m)
           in if v < lo then \<lparr>sr_val = lo, sr_end = r, sr_range = True\<rparr>
              else if hi < v then \<lparr>sr_val = hi, sr_end = r, sr_range = True\<rparr>
              else \<lparr>sr_val = v, sr_end = r, sr_range = False\<rparr>))"

definition strtoll :: "nat \<Rightarrow> cstring \<Rightarrow> strto_result" where
  "strtoll b s = strto_clamp INT64_MIN INT64_MAX b s"

text \<open>
  \<open>strtoull\<close> accepts a minus sign and negates modulo \<open>2 ^ 64\<close>; only a magnitude beyond
  \<open>2 ^ 64 - 1\<close> is out of range.
\<close>

definition strtoull :: "nat \<Rightarrow> cstring \<Rightarrow> strto_result" where
  "strtoull b s =
     (case strto_scan b s of
        None \<Rightarrow> \<lparr>sr_val = 0, sr_end = s, sr_range = False\<rparr>
      | Some (neg, m, r) \<Rightarrow>
          if m > SIZE_MAX then \<lparr>sr_val = int SIZE_MAX, sr_end = r, sr_range = True\<rparr>
          else \<lparr>sr_val = (if neg then - int m else int m) mod (int SIZE_MAX + 1),
                sr_end = r, sr_range = False\<rparr>)"

section \<open>Printing\<close>

definition digit_char :: "nat \<Rightarrow> char" where
  "digit_char d = char_of (48 + d)"

fun nat_dec :: "nat \<Rightarrow> cstring" where
  "nat_dec n = (if n < 10 then [digit_char n] else nat_dec (n div 10) @ [digit_char (n mod 10)])"

declare nat_dec.simps [simp del]

definition int_dec :: "int \<Rightarrow> cstring" where
  "int_dec v = (if v < 0 then CHR ''-'' # nat_dec (nat (- v)) else nat_dec (nat v))"

section \<open>Printing and scanning agree\<close>

lemma cval_digit_char [simp]: "d < 10 \<Longrightarrow> cval (digit_char d) = 48 + d"
  by (simp add: digit_char_def)

lemma isdigit_digit_char [simp]: "d < 10 \<Longrightarrow> isdigit (digit_char d)"
  by (simp add: isdigit_def)

lemma dval_digit_char [simp]: "d < 10 \<Longrightarrow> dval (digit_char d) = d"
  by (simp add: dval_def isdigit_def)

lemma digits_value_append:
  "digits_value b v (xs @ ys) = digits_value b (digits_value b v xs) ys"
  by (induction xs arbitrary: v) auto

lemma nat_dec_digits: "c \<in> set (nat_dec n) \<Longrightarrow> isdigit c"
proof (induction n rule: nat_dec.induct)
  case (1 n)
  from "1.prems" have "c \<in> set (if n < 10 then [digit_char n] else nat_dec (n div 10) @ [digit_char (n mod 10)])"
    by (simp add: nat_dec.simps [of n])
  with "1.IH" show ?case by (auto split: if_splits)
qed

lemma nat_dec_not_Nil [simp]: "nat_dec n \<noteq> []"
  by (subst nat_dec.simps) simp

lemma nat_dec_value: "digits_value 10 0 (nat_dec n) = n"
proof (induction n rule: nat_dec.induct)
  case (1 n)
  show ?case
  proof (cases "n < 10")
    case True
    then show ?thesis by (subst nat_dec.simps) simp
  next
    case False
    with 1 have "digits_value 10 0 (nat_dec (n div 10)) = n div 10" by simp
    with False show ?thesis by (subst nat_dec.simps) (simp add: digits_value_append)
  qed
qed

lemma dval_less_10_iff: "dval c < 10 \<longleftrightarrow> isdigit c"
  by (auto simp: dval_def ctype_basic)

lemma nat_dec_dval: "c \<in> set (nat_dec n) \<Longrightarrow> dval c < 10"
  by (simp add: dval_less_10_iff nat_dec_digits)

lemma scan_base_10 [simp]: "scan_base 10 s = (10, s)"
  by (cases "(10::nat, s)" rule: scan_base.cases) auto

lemma scan_sign_digit: "isdigit c \<Longrightarrow> scan_sign (c # cs) = (False, c # cs)"
  by (auto simp: isdigit_def cval_def)

lemma dropWhile_isspace_digit: "isdigit c \<Longrightarrow> dropWhile isspace (c # cs) = c # cs"
  by simp

lemma nat_dec_Cons: obtains c cs where "nat_dec n = c # cs" "isdigit c"
  using nat_dec_digits [of _ n] nat_dec_not_Nil [of n] by (cases "nat_dec n") auto

text \<open>A string that no decimal digit continues.\<close>

definition no_digit_head :: "cstring \<Rightarrow> bool" where
  "no_digit_head r \<longleftrightarrow> (case r of [] \<Rightarrow> True | c # _ \<Rightarrow> \<not> isdigit c)"

lemma no_digit_head_simps [simp]:
  "no_digit_head []" "no_digit_head (c # r) \<longleftrightarrow> \<not> isdigit c"
  by (auto simp: no_digit_head_def)

lemma takeWhile_nat_dec:
  assumes "no_digit_head r"
  shows "takeWhile (\<lambda>c. dval c < 10) (nat_dec n @ r) = nat_dec n"
    and "dropWhile (\<lambda>c. dval c < 10) (nat_dec n @ r) = r"
proof -
  have "takeWhile (\<lambda>c. dval c < 10) r = [] \<and> dropWhile (\<lambda>c. dval c < 10) r = r"
    using assms by (cases r) (auto simp: dval_less_10_iff)
  then show "takeWhile (\<lambda>c. dval c < 10) (nat_dec n @ r) = nat_dec n"
    and "dropWhile (\<lambda>c. dval c < 10) (nat_dec n @ r) = r"
    by (simp_all add: takeWhile_append2 dropWhile_append2 nat_dec_dval)
qed

lemma strto_scan_nat_dec:
  assumes "no_digit_head r"
  shows "strto_scan 10 (nat_dec n @ r) = Some (False, n, r)"
proof -
  obtain c cs where c: "nat_dec n = c # cs" "isdigit c" by (rule nat_dec_Cons)
  then have "scan_sign (dropWhile isspace (nat_dec n @ r)) = (False, nat_dec n @ r)"
    by (simp only: append_Cons dropWhile_isspace_digit scan_sign_digit)
  with assms show ?thesis
    by (simp add: strto_scan_def takeWhile_nat_dec nat_dec_value)
qed

lemma strto_scan_int_dec:
  assumes "no_digit_head r"
  shows "strto_scan 10 (int_dec v @ r) = Some (v < 0, nat \<bar>v\<bar>, r)"
proof (cases "v < 0")
  case True
  have "scan_sign (dropWhile isspace (CHR ''-'' # nat_dec (nat (- v)) @ r)) =
      (True, nat_dec (nat (- v)) @ r)"
    by (simp add: isspace_def cval_def)
  with True assms show ?thesis
    by (simp add: int_dec_def strto_scan_def takeWhile_nat_dec nat_dec_value)
next
  case False
  with assms show ?thesis by (simp add: int_dec_def strto_scan_nat_dec)
qed

lemma strtoll_int_dec:
  assumes "INT64_MIN \<le> v" "v \<le> INT64_MAX"
  shows "strtoll 10 (int_dec v) = \<lparr>sr_val = v, sr_end = [], sr_range = False\<rparr>"
  using assms strto_scan_int_dec [of "[]" v]
  by (simp add: strtoll_def strto_clamp_def Let_def)

lemma strto_scan_end: "strto_scan b s = Some (neg, m, r) \<Longrightarrow> length r < length s"
proof -
  assume a: "strto_scan b s = Some (neg, m, r)"
  obtain n1 s1 where s1: "scan_sign (dropWhile isspace s) = (n1, s1)" by fastforce
  obtain b2 s2 where s2: "scan_base b s1 = (b2, s2)" by fastforce
  have l1: "length s1 \<le> length s"
  proof -
    have "scan_sign x = (n1, s1) \<Longrightarrow> length s1 \<le> length x" for x
      by (cases x) (auto split: if_splits)
    with s1 have "length s1 \<le> length (dropWhile isspace s)" by blast
    then show ?thesis using length_dropWhile_le [of isspace s] by linarith
  qed
  have l2: "length s2 \<le> length s1"
    using s2 by (cases "(b, s1)" rule: scan_base.cases) (auto split: if_splits)
  have "takeWhile (\<lambda>c. dval c < b2) s2 \<noteq> [] \<and> r = dropWhile (\<lambda>c. dval c < b2) s2"
    using a s1 s2 by (simp add: strto_scan_def Let_def split: if_splits)
  then have "length r < length s2"
    by (metis (no_types, lifting) add_less_same_cancel2 append_Nil length_append
        length_greater_0_conv less_add_same_cancel2 takeWhile_dropWhile_id)
  with l1 l2 show ?thesis by linarith
qed

lemma strtoll_bounds:
  "INT64_MIN \<le> sr_val (strtoll b s) \<and> sr_val (strtoll b s) \<le> INT64_MAX"
  by (auto simp: strtoll_def strto_clamp_def c_limits Let_def split: option.splits)

lemma strtoull_bounds:
  "0 \<le> sr_val (strtoull b s) \<and> sr_val (strtoull b s) \<le> int SIZE_MAX"
proof -
  have "x mod (int SIZE_MAX + 1) \<le> int SIZE_MAX" for x
    using pos_mod_bound [of "int SIZE_MAX + 1" x] by (simp add: SIZE_MAX_def)
  then show ?thesis
    by (auto simp: strtoull_def SIZE_MAX_def split: option.splits)
qed

end
