(* ===== verification/StrUtils.thy ===== *)
theory StrUtils
  imports CNum
begin

text \<open>
  \<open>src/lib/str-utils.c\<close>: boolean words, prefix and suffix tests, trimming and the shell-like
  splitter. A \<open>const char *\<close> that the code tests for \<open>NULL\<close> is a \<open>cstring option\<close>; a pointer with
  a length is the character list that starts at the pointer (it may run past the length). The
  in-place operations return the new content of the buffer.
\<close>

section \<open>Matching\<close>

definition stringn_equals :: "cstring option \<Rightarrow> nat \<Rightarrow> cstring option \<Rightarrow> bool" where
  "stringn_equals str len expected =
     (case (str, expected) of
        (Some s, Some e) \<Rightarrow> len = length e \<and> strncasecmp s e len = 0
      | _ \<Rightarrow> False)"

definition stringn_is_true :: "cstring option \<Rightarrow> nat \<Rightarrow> bool" where
  "stringn_is_true s len \<longleftrightarrow>
     stringn_equals s len (Some ''y'') \<or>
     stringn_equals s len (Some ''ok'') \<or>
     stringn_equals s len (Some ''on'') \<or>
     stringn_equals s len (Some ''yes'') \<or>
     stringn_equals s len (Some ''true'') \<or>
     stringn_equals s len (Some ''always'') \<or>
     stringn_equals s len (Some ''enable'') \<or>
     stringn_equals s len (Some ''enabled'')"

definition stringn_is_false :: "cstring option \<Rightarrow> nat \<Rightarrow> bool" where
  "stringn_is_false s len \<longleftrightarrow>
     stringn_equals s len (Some ''n'') \<or>
     stringn_equals s len (Some ''no'') \<or>
     stringn_equals s len (Some ''off'') \<or>
     stringn_equals s len (Some ''false'') \<or>
     stringn_equals s len (Some ''never'') \<or>
     stringn_equals s len (Some ''disable'') \<or>
     stringn_equals s len (Some ''disabled'')"

definition string_is_true :: "cstring option \<Rightarrow> bool" where
  "string_is_true str = (case str of None \<Rightarrow> False | Some s \<Rightarrow> stringn_is_true (Some s) (length s))"

definition string_is_false :: "cstring option \<Rightarrow> bool" where
  "string_is_false str = (case str of None \<Rightarrow> False | Some s \<Rightarrow> stringn_is_false (Some s) (length s))"

definition str_match :: "cstring option \<Rightarrow> nat \<Rightarrow> cstring option \<Rightarrow> bool" where
  "str_match str len expected =
     (case (str, expected) of
        (Some s, Some e) \<Rightarrow> len = length e \<and> strncmp s e len = 0
      | _ \<Rightarrow> False)"

definition str_case_match :: "cstring option \<Rightarrow> nat \<Rightarrow> cstring option \<Rightarrow> bool" where
  "str_case_match str len expected =
     (case (str, expected) of
        (Some s, Some e) \<Rightarrow> len = length e \<and> strncasecmp s e len = 0
      | _ \<Rightarrow> False)"

text \<open>Reading \<open>str[0]\<close>: the terminating NUL when the string is empty.\<close>

definition hdc :: "cstring \<Rightarrow> char" where
  "hdc s = (case s of [] \<Rightarrow> NUL | c # _ \<Rightarrow> c)"

lemma hdc_simps [simp]: "hdc [] = NUL" "hdc (c # s) = c"
  by (simp_all add: hdc_def)

definition startwith :: "cstring option \<Rightarrow> char \<Rightarrow> bool" where
  "startwith str c = (case str of None \<Rightarrow> False | Some s \<Rightarrow> hdc s = c)"

definition startwiths :: "cstring option \<Rightarrow> cstring option \<Rightarrow> bool" where
  "startwiths str p =
     (case (str, p) of (Some s, Some e) \<Rightarrow> strncmp s e (length e) = 0 | _ \<Rightarrow> False)"

definition startnwith :: "cstring option \<Rightarrow> nat \<Rightarrow> char \<Rightarrow> bool" where
  "startnwith str len c = (case str of None \<Rightarrow> False | Some s \<Rightarrow> 0 < len \<and> hdc s = c)"

definition startnwiths :: "cstring option \<Rightarrow> nat \<Rightarrow> cstring option \<Rightarrow> bool" where
  "startnwiths str len p =
     (case (str, p) of
        (Some s, Some e) \<Rightarrow> 0 < len \<and> length e \<le> len \<and> strncmp s e (length e) = 0
      | _ \<Rightarrow> False)"

definition endwith :: "cstring option \<Rightarrow> char \<Rightarrow> bool" where
  "endwith str c =
     (case str of None \<Rightarrow> False | Some s \<Rightarrow> 0 < length s \<and> s ! (length s - 1) = c)"

definition endwiths :: "cstring option \<Rightarrow> cstring option \<Rightarrow> bool" where
  "endwiths str p =
     (case (str, p) of
        (Some s, Some e) \<Rightarrow>
          if length e = 0 then True
          else if length e > length s then False
          else strncmp (drop (length s - length e) s) e (length e) = 0
      | _ \<Rightarrow> False)"

definition endnwith :: "cstring option \<Rightarrow> nat \<Rightarrow> char \<Rightarrow> bool" where
  "endnwith str len c =
     (case str of
        None \<Rightarrow> False
      | Some s \<Rightarrow> 0 < len \<and> (let l = min (length s) len in 0 < l \<and> s ! (l - 1) = c))"

definition endnwiths :: "cstring option \<Rightarrow> nat \<Rightarrow> cstring \<Rightarrow> bool" where
  "endnwiths str len e =
     (case str of
        None \<Rightarrow> False
      | Some s \<Rightarrow>
          0 < len \<and>
          (let ll = min (length s) len; rl = length e
           in if rl = 0 then True
              else if rl > ll then False
              else strncmp (drop (ll - rl) s) e rl = 0))"

definition endwithsi :: "cstring option \<Rightarrow> nat \<Rightarrow> cstring option \<Rightarrow> bool" where
  "endwithsi str len suffix =
     (case (str, suffix) of
        (Some s, Some e) \<Rightarrow>
          length e \<le> len \<and> strncasecmp (drop (len - length e) s) e (length e) = 0
      | _ \<Rightarrow> False)"

section \<open>Trimming in place\<close>

definition removeend :: "cstring \<Rightarrow> char \<Rightarrow> bool \<times> cstring" where
  "removeend s c =
     (let l = length s; r = (0 < l \<and> s ! (l - 1) = c)
      in (r, if r then take (l - 1) s else s))"

definition removeends :: "cstring \<Rightarrow> cstring \<Rightarrow> bool \<times> cstring" where
  "removeends s e =
     (let ll = length s; rl = length e
      in if rl = 0 then (True, s)
         else if rl > ll then (False, s)
         else let r = (strncmp (drop (ll - rl) s) e rl = 0)
              in (r, if r then take (ll - rl) s else s))"

definition trimleft :: "cstring \<Rightarrow> cstring" where
  "trimleft s = (if s = [] then s else dropWhile isspace s)"

fun trimright_end :: "cstring \<Rightarrow> nat \<Rightarrow> nat" where
  "trimright_end s 0 = 0"
| "trimright_end s (Suc n) = (if isspace (s ! n) then trimright_end s n else Suc n)"

definition trimright :: "cstring \<Rightarrow> cstring" where
  "trimright s = (if s = [] then s else take (trimright_end s (length s)) s)"

definition trim :: "cstring \<Rightarrow> cstring" where
  "trim s = (if s = [] then s else trimleft (trimright s))"

text \<open>
  \<open>scprintf\<close> appends formatted text to a buffer of \<open>sz\<close> bytes, cut so that the terminating NUL
  fits; the formatting itself is the argument \<open>text\<close>. The result is the number of characters the
  text has, or 0 when the buffer has no terminator.
\<close>

definition vscprintf :: "cstring \<Rightarrow> nat \<Rightarrow> cstring \<Rightarrow> nat \<times> cstring" where
  "vscprintf buf sz text =
     (if length buf \<ge> sz then (0, buf)
      else (length text, buf @ take (sz - length buf - 1) text))"

section \<open>Splitting at white space with quotes\<close>

text \<open>
  \<open>string_to_list_by_space\<close>: one pass over the characters with the item built so far and the
  three flags. An item is added when it has at least one character.
\<close>

declare length_dropWhile_le [termination_simp]

fun split_loop ::
  "cstring \<Rightarrow> cstring \<Rightarrow> bool \<Rightarrow> bool \<Rightarrow> bool \<Rightarrow> cstring list \<Rightarrow> cstring list" where
  "split_loop [] cur sq dq esc acc = (if cur \<noteq> [] then acc @ [cur] else acc)"
| "split_loop (c # p) cur sq dq esc acc =
     (if esc then split_loop p (cur @ [c]) sq dq False acc
      else if c = CHR 0x5C \<and> \<not> sq then split_loop p cur sq dq True acc
      else if c = CHR 0x27 \<and> \<not> dq then split_loop p cur (\<not> sq) dq esc acc
      else if c = CHR 0x22 \<and> \<not> sq then split_loop p cur sq (\<not> dq) esc acc
      else if isspace c \<and> \<not> sq \<and> \<not> dq then
        split_loop (dropWhile isspace p) [] sq dq esc (if cur \<noteq> [] then acc @ [cur] else acc)
      else split_loop p (cur @ [c]) sq dq esc acc)"

definition string_to_list_by_space :: "cstring option \<Rightarrow> cstring list" where
  "string_to_list_by_space str =
     (case str of None \<Rightarrow> [] | Some s \<Rightarrow> split_loop s [] False False False [])"

section \<open>Joining\<close>

text \<open>\<open>list_to_string\<close> on the strings themselves: the non-empty ones, joined.\<close>

fun join_sep :: "cstring \<Rightarrow> cstring list \<Rightarrow> cstring" where
  "join_sep sep [] = []"
| "join_sep sep [x] = x"
| "join_sep sep (x # y # xs) = x @ sep @ join_sep sep (y # xs)"

definition strings_to_string :: "cstring \<Rightarrow> cstring list \<Rightarrow> cstring option" where
  "strings_to_string sep xs =
     (let ys = filter (\<lambda>x. x \<noteq> []) xs
      in if ys = [] \<or> length (join_sep sep ys) \<ge> SIZE_MAX then None else Some (join_sep sep ys))"

section \<open>Facts\<close>

lemma strncasecmp_len_0:
  assumes "cstr s" "cstr e" "length s = length e"
  shows "strncasecmp s e (length e) = 0 \<longleftrightarrow> map tolower s = map tolower e"
  using assms by (simp add: strncasecmp_def strncmp_take strcmp_0_iff)

lemma stringn_equals_iff:
  "cstr s \<Longrightarrow> cstr e \<Longrightarrow> length s = len \<Longrightarrow>
   stringn_equals (Some s) len (Some e) \<longleftrightarrow> map tolower s = map tolower e"
  using strncasecmp_len_0 [of s e] map_eq_imp_length_eq [of tolower s tolower e]
  by (cases "length s = length e") (auto simp: stringn_equals_def)

definition true_words :: "cstring list" where
  "true_words = [''y'', ''ok'', ''on'', ''yes'', ''true'', ''always'', ''enable'', ''enabled'']"

definition false_words :: "cstring list" where
  "false_words = [''n'', ''no'', ''off'', ''false'', ''never'', ''disable'', ''disabled'']"

lemma map_tolower_words [simp]:
  "w \<in> set true_words \<union> set false_words \<Longrightarrow> map tolower w = w"
  by (auto simp: true_words_def false_words_def tolower_def isupper_def cval_def)

lemma cstr_words [simp]: "w \<in> set true_words \<union> set false_words \<Longrightarrow> cstr w"
  by (auto simp: true_words_def false_words_def)

lemma string_is_true_iff:
  assumes "cstr s"
  shows "string_is_true (Some s) \<longleftrightarrow> map tolower s \<in> set true_words"
proof -
  have "stringn_equals (Some s) (length s) (Some w) \<longleftrightarrow> map tolower s = w" if "w \<in> set true_words" for w
    using stringn_equals_iff [OF assms, of w] that by simp
  then show ?thesis
    unfolding string_is_true_def stringn_is_true_def by (simp add: true_words_def) 
qed

lemma string_is_false_iff:
  assumes "cstr s"
  shows "string_is_false (Some s) \<longleftrightarrow> map tolower s \<in> set false_words"
proof -
  have "stringn_equals (Some s) (length s) (Some w) \<longleftrightarrow> map tolower s = w" if "w \<in> set false_words" for w
    using stringn_equals_iff [OF assms, of w] that by simp
  then show ?thesis
    unfolding string_is_false_def stringn_is_false_def by (simp add: false_words_def)
qed

lemma true_false_words_disjoint: "set true_words \<inter> set false_words = {}"
  by (simp add: true_words_def false_words_def)

lemma trimright_end_le: "trimright_end s n \<le> n"
  by (induction n) auto

lemma trimright_end_spaces:
  "trimright_end s n \<le> i \<Longrightarrow> i < n \<Longrightarrow> isspace (s ! i)"
  by (induction n) (auto split: if_splits simp: less_Suc_eq)

lemma trimright_end_last:
  "0 < trimright_end s n \<Longrightarrow> \<not> isspace (s ! (trimright_end s n - 1))"
  by (induction n) (auto split: if_splits)

lemma trimright_split:
  obtains w where "s = trimright s @ w" "\<forall>c \<in> set w. isspace c"
proof
  let ?n = "trimright_end s (length s)"
  show "s = trimright s @ drop (length (trimright s)) s"
    by (simp add: trimright_def min_absorb2 trimright_end_le)
  show "\<forall>c \<in> set (drop (length (trimright s)) s). isspace c"
    using trimright_end_le [of s "length s"]
    by (auto simp: trimright_def min_absorb2 in_set_conv_nth intro!: trimright_end_spaces [where n = "length s"])
qed

lemma trimright_last: "trimright s \<noteq> [] \<Longrightarrow> \<not> isspace (last (trimright s))"
proof -
  assume a: "trimright s \<noteq> []"
  let ?n = "trimright_end s (length s)"
  from a have n: "0 < ?n" "?n \<le> length s"
    by (auto simp: trimright_def trimright_end_le split: if_splits)
  then have "last (trimright s) = s ! (?n - 1)"
    by (auto simp: trimright_def last_conv_nth min_absorb2)
  with trimright_end_last [OF n(1)] show ?thesis by simp
qed

lemma trim_split:
  obtains u w where "s = u @ trim s @ w" "\<forall>c \<in> set u. isspace c" "\<forall>c \<in> set w. isspace c"
proof -
  obtain w where w: "s = trimright s @ w" "\<forall>c \<in> set w. isspace c" by (rule trimright_split)
  show thesis
  proof (rule that [of "takeWhile isspace (trimright s)" w])
    show "s = takeWhile isspace (trimright s) @ trim s @ w"
    proof (cases "trimright s = []")
      case True
      with w(1) show ?thesis by (simp add: trim_def trimleft_def)
    next
      case False
      then have "trim s = dropWhile isspace (trimright s)"
        by (auto simp: trim_def trimleft_def trimright_def)
      then have "s = (takeWhile isspace (trimright s) @ trim s) @ w"
        using w(1) by simp
      then show ?thesis by simp
    qed
    show "\<forall>c \<in> set (takeWhile isspace (trimright s)). isspace c"
      by (auto dest: set_takeWhileD)
  qed (use w in auto)
qed

lemma trim_ends:
  assumes "trim s \<noteq> []"
  shows "\<not> isspace (hd (trim s))" and "\<not> isspace (last (trim s))"
proof -
  from assms have t: "trim s = dropWhile isspace (trimright s)" "trimright s \<noteq> []"
    by (auto simp: trim_def trimleft_def split: if_splits)
  with assms show "\<not> isspace (hd (trim s))"
    by (metis hd_dropWhile)
  have "last (trim s) = last (trimright s)"
    using assms t by (metis last_appendR takeWhile_dropWhile_id)
  with t(2) show "\<not> isspace (last (trim s))"
    by (simp add: trimright_last)
qed

end
