(* ===== verification/Dbl.thy ===== *)
theory Dbl
  imports CNum
begin

text \<open>
  Doubles as the 64 bits the configuration values carry: the classification, the truncation to an
  integer, the conversion of a 64-bit integer (round to nearest, ties to even) and the text the
  \<open>%f\<close> conversion prints, all computed from sign, exponent and fraction.
\<close>

definition dbl_sign :: "64 word \<Rightarrow> bool" where
  "dbl_sign f \<longleftrightarrow> uint f div 2 ^ 63 = 1"

definition dbl_exp :: "64 word \<Rightarrow> nat" where
  "dbl_exp f = nat (uint f div 2 ^ 52 mod 2 ^ 11)"

definition dbl_frac :: "64 word \<Rightarrow> nat" where
  "dbl_frac f = nat (uint f mod 2 ^ 52)"

definition dbl_finite :: "64 word \<Rightarrow> bool" where
  "dbl_finite f \<longleftrightarrow> dbl_exp f \<noteq> 2047"

text \<open>The value is \<open>\<plusminus> dbl_mant f * 2 ^ dbl_pow f / 2 ^ 1074\<close>.\<close>

definition dbl_mant :: "64 word \<Rightarrow> nat" where
  "dbl_mant f = (if dbl_exp f = 0 then dbl_frac f else 2 ^ 52 + dbl_frac f)"

definition dbl_pow :: "64 word \<Rightarrow> nat" where
  "dbl_pow f = (if dbl_exp f = 0 then 0 else dbl_exp f - 1)"

definition dbl_is_zero :: "64 word \<Rightarrow> bool" where
  "dbl_is_zero f \<longleftrightarrow> dbl_exp f = 0 \<and> dbl_frac f = 0"

definition dbl_trunc :: "64 word \<Rightarrow> int" where
  "dbl_trunc f = (let m = int (dbl_mant f * 2 ^ dbl_pow f div 2 ^ 1074) in if dbl_sign f then - m else m)"

definition dbl_make :: "bool \<Rightarrow> nat \<Rightarrow> nat \<Rightarrow> 64 word" where
  "dbl_make sign ex frac = word_of_int ((if sign then 2 ^ 63 else 0) + int ex * 2 ^ 52 + int frac)"

definition dbl_zero :: "64 word" where
  "dbl_zero = 0"

definition dbl_one :: "64 word" where
  "dbl_one = dbl_make False 1023 0"

fun bit_len :: "nat \<Rightarrow> nat" where
  "bit_len n = (if n = 0 then 0 else Suc (bit_len (n div 2)))"

declare bit_len.simps [simp del]

text \<open>\<open>n / d\<close> rounded to the nearest integer, ties to even.\<close>

definition div_round_even :: "nat \<Rightarrow> nat \<Rightarrow> nat" where
  "div_round_even n d =
     (let q = n div d; r = n mod d
      in if 2 * r > d \<or> 2 * r = d \<and> odd q then q + 1 else q)"

definition dbl_of_int :: "int \<Rightarrow> 64 word" where
  "dbl_of_int i =
     (if i = 0 then 0
      else let m = nat \<bar>i\<bar>; k = bit_len m;
               q = (if k \<le> 53 then m * 2 ^ (53 - k) else div_round_even m (2 ^ (k - 53)));
               (q, k) = (if q = 2 ^ 53 then (2 ^ 52, k + 1) else (q, k))
           in dbl_make (i < 0) (1022 + k) (q - 2 ^ 52))"

fun pad_zeros :: "nat \<Rightarrow> cstring \<Rightarrow> cstring" where
  "pad_zeros w s = replicate (w - length s) (CHR ''0'') @ s"

definition dbl_print_f :: "64 word \<Rightarrow> cstring" where
  "dbl_print_f f =
     (if dbl_sign f then ''-'' else '''') @
     (if dbl_exp f = 2047 then (if dbl_frac f = 0 then ''inf'' else ''nan'')
      else let n = div_round_even (dbl_mant f * 2 ^ dbl_pow f * 1000000) (2 ^ 1074)
           in nat_dec (n div 1000000) @ ''.'' @ pad_zeros 6 (nat_dec (n mod 1000000)))"

section \<open>Reading a double\<close>

text \<open>The double nearest to \<open>num / den\<close> (ties to even) and whether it is out of range.\<close>

definition dbl_round :: "bool \<Rightarrow> nat \<Rightarrow> nat \<Rightarrow> 64 word \<times> bool" where
  "dbl_round sign num den =
     (if num = 0 then (dbl_make sign 0 0, False)
      else let k = int (bit_len num) - int (bit_len den);
               scaled = (\<lambda>p. if 0 \<le> p then (num * 2 ^ nat p, den) else (num, den * 2 ^ nat (- p)));
               p = 53 - k;
               p = (if fst (scaled p) \<ge> snd (scaled p) * 2 ^ 53 then p - 1 else p);
               p = min p 1074;
               q = div_round_even (fst (scaled p)) (snd (scaled p));
               bits = (1074 - p) * 2 ^ 52 + int q
           in if bits \<ge> 2047 * 2 ^ 52 then (dbl_make sign 2047 0, True)
              else (dbl_make sign 0 (nat bits), q = 0))"

definition dbl_scale :: "bool \<Rightarrow> nat \<Rightarrow> nat \<Rightarrow> int \<Rightarrow> 64 word \<times> bool" where
  "dbl_scale sign m base ex =
     (if 0 \<le> ex then dbl_round sign (m * base ^ nat ex) 1
      else dbl_round sign m (base ^ nat (- ex)))"

text \<open>An optional exponent behind one of the characters \<open>es\<close>.\<close>

definition scan_exp :: "cstring \<Rightarrow> cstring \<Rightarrow> int \<times> cstring" where
  "scan_exp es s =
     (case s of
        [] \<Rightarrow> (0, s)
      | c # r \<Rightarrow>
          if c \<in> set es then
            (let (neg, t) = scan_sign r; ds = takeWhile isdigit t
             in if ds = [] then (0, s)
                else ((if neg then - 1 else 1) * int (digits_value 10 0 ds), dropWhile isdigit t))
          else (0, s))"

text \<open>
  Digits with an optional point: all the digits, the number of them behind the point, the rest.
\<close>

definition scan_point :: "(char \<Rightarrow> bool) \<Rightarrow> cstring \<Rightarrow> cstring \<times> nat \<times> cstring" where
  "scan_point P s =
     (let ds = takeWhile P s; r = dropWhile P s
      in case r of
           [] \<Rightarrow> (ds, 0, r)
         | c # t \<Rightarrow>
             if c = CHR ''.'' then (ds @ takeWhile P t, length (takeWhile P t), dropWhile P t)
             else (ds, 0, r))"

definition scan_word :: "cstring \<Rightarrow> cstring \<Rightarrow> cstring option" where
  "scan_word w s = (if is_prefix w (map tolower s) then Some (drop (length w) s) else None)"

text \<open>\<open>strtod\<close>: the value, the unparsed suffix (the string itself: no conversion), \<open>ERANGE\<close>.\<close>

definition strtod :: "cstring \<Rightarrow> 64 word \<times> cstring \<times> bool" where
  "strtod s =
     (let (neg, t) = scan_sign (dropWhile isspace s)
      in case scan_word ''infinity'' t of Some r \<Rightarrow> (dbl_make neg 2047 0, r, False)
         | None \<Rightarrow>
      (case scan_word ''inf'' t of Some r \<Rightarrow> (dbl_make neg 2047 0, r, False)
         | None \<Rightarrow>
      (case scan_word ''nan'' t of Some r \<Rightarrow> (dbl_make neg 2047 (2 ^ 51), r, False)
         | None \<Rightarrow>
      (let hex = (case scan_word ''0x'' t of None \<Rightarrow> ([], 0, []) | Some r \<Rightarrow> scan_point (\<lambda>c. dval c < 16) r)
       in if fst hex \<noteq> [] then
            (let (ds, n, r) = hex; (ex, r) = scan_exp ''pP'' r;
                 (f, range) = dbl_scale neg (digits_value 16 0 ds) 2 (ex - 4 * int n)
             in (f, r, range))
          else
            (let (ds, n, r) = scan_point isdigit t
             in if ds = [] then (0, s, False)
                else let (ex, r) = scan_exp ''eE'' r;
                         (f, range) = dbl_scale neg (digits_value 10 0 ds) 10 (ex - int n)
                     in (f, r, range))))))"

section \<open>Facts\<close>

lemma div_round_even_exact [simp]: "0 < d \<Longrightarrow> div_round_even (q * d) d = q"
  by (simp add: div_round_even_def)

lemma div_round_even_near:
  assumes "0 < d"
  shows "2 * \<bar>int (div_round_even n d) * int d - int n\<bar> \<le> int d"
proof -
  have n: "int n = int (n div d) * int d + int (n mod d)"
    by (metis div_mult_mod_eq of_nat_add of_nat_mult)
  show ?thesis
  proof (cases "2 * (n mod d) > d \<or> 2 * (n mod d) = d \<and> odd (n div d)")
    case True
    then have "int (div_round_even n d) * int d - int n = int d - int (n mod d)"
      using n by (simp add: div_round_even_def Let_def algebra_simps)
    with True mod_less_divisor [OF assms, of n] show ?thesis by auto
  next
    case False
    then have "int (div_round_even n d) * int d - int n = - int (n mod d)"
      using n by (auto simp: div_round_even_def Let_def)
    with False show ?thesis by auto
  qed
qed

end
