(* ===== verification/Config.thy ===== *)
theory Config
  imports StrUtils Dbl
begin

text \<open>
  The configuration tree of \<open>src/configfile/\<close> on an explicit heap: \<open>node.c\<close>, \<open>map.c\<close>, \<open>array.c\<close>,
  \<open>merge.c\<close>, \<open>value.c\<close> (constructors) and \<open>path.c\<close>. A node is the C structure; its list of children is
  the list of their addresses (the cells of \<open>list.c\<close> carry nothing else). The state holds the
  nodes, the next fresh address and the allocation oracle with the number of allocations made. A
  computation is \<open>None\<close> when it would use a freed node or would not return.
\<close>

section \<open>Nodes and state\<close>

datatype ntype = TYPE_NULL | TYPE_VALUE | TYPE_ARRAY | TYPE_MAP

text \<open>A value: a string pointer, a 64-bit integer, the bits of a double, or a boolean.\<close>

datatype vdata = VString "cstring option" | VInt int | VFloat "64 word" | VBool bool

record cvalue =
  cv_v :: vdata
  cv_len :: nat

record cnode =
  cn_parent :: ptr
  cn_key :: "cstring option"
  cn_index :: int
  cn_type :: ntype
  cn_items :: "addr list"
  cn_value :: cvalue

record cstate =
  nodes :: "addr \<Rightarrow> cnode option"
  cnxt :: addr
  coom :: "nat \<Rightarrow> bool"
  ctick :: nat

definition node_at :: "cstate \<Rightarrow> addr \<Rightarrow> cnode option" where
  "node_at s a = nodes s a"

definition put_node :: "addr \<Rightarrow> cnode \<Rightarrow> cstate \<Rightarrow> cstate" where
  "put_node a n s = s\<lparr>nodes := (nodes s)(a \<mapsto> n)\<rparr>"

definition upd_node :: "addr \<Rightarrow> (cnode \<Rightarrow> cnode) \<Rightarrow> cstate \<Rightarrow> cstate option" where
  "upd_node a f s = do { n \<leftarrow> node_at s a; Some (put_node a (f n) s) }"

definition del_node :: "addr \<Rightarrow> cstate \<Rightarrow> cstate" where
  "del_node a s = s\<lparr>nodes := (nodes s)(a := None)\<rparr>"

text \<open>One \<open>malloc\<close> or \<open>strdup\<close>: whether it succeeds.\<close>

definition alloc :: "cstate \<Rightarrow> bool \<times> cstate" where
  "alloc s = (\<not> coom s (ctick s), s\<lparr>ctick := Suc (ctick s)\<rparr>)"

definition zero_value :: cvalue where
  "zero_value = \<lparr>cv_v = VString None, cv_len = 0\<rparr>"

definition fresh_node :: cnode where
  "fresh_node = \<lparr>cn_parent = None, cn_key = None, cn_index = -1, cn_type = TYPE_NULL,
     cn_items = [], cn_value = zero_value\<rparr>"

section \<open>node.c\<close>

definition confignode_get_type :: "ptr \<Rightarrow> cstate \<Rightarrow> ntype option" where
  "confignode_get_type node s =
     (case node of None \<Rightarrow> Some TYPE_NULL | Some a \<Rightarrow> map_option cn_type (node_at s a))"

definition confignode_is_type :: "ptr \<Rightarrow> ntype \<Rightarrow> cstate \<Rightarrow> bool option" where
  "confignode_is_type node ty s =
     (case node of None \<Rightarrow> Some False | Some a \<Rightarrow> map_option (\<lambda>n. cn_type n = ty) (node_at s a))"

definition confignode_get_key :: "ptr \<Rightarrow> cstate \<Rightarrow> cstring option option" where
  "confignode_get_key node s =
     (case node of None \<Rightarrow> Some None | Some a \<Rightarrow> map_option cn_key (node_at s a))"

definition confignode_get_index :: "ptr \<Rightarrow> cstate \<Rightarrow> int option" where
  "confignode_get_index node s =
     (case node of None \<Rightarrow> Some (-1) | Some a \<Rightarrow> map_option cn_index (node_at s a))"

definition confignode_is_empty :: "ptr \<Rightarrow> cstate \<Rightarrow> bool option" where
  "confignode_is_empty node s =
     (case node of
        None \<Rightarrow> Some True
      | Some a \<Rightarrow> do {
          n \<leftarrow> node_at s a;
          Some (case cn_type n of
                  TYPE_MAP \<Rightarrow> cn_items n = []
                | TYPE_ARRAY \<Rightarrow> cn_items n = []
                | TYPE_VALUE \<Rightarrow>
                    (case cv_v (cn_value n) of
                       VString str \<Rightarrow> str = None \<or> str = Some []
                     | VInt i \<Rightarrow> i = 0
                     | VFloat f \<Rightarrow> dbl_is_zero f
                     | VBool b \<Rightarrow> \<not> b)
                | TYPE_NULL \<Rightarrow> True)
        })"

definition confignode_parent :: "ptr \<Rightarrow> cstate \<Rightarrow> ptr option" where
  "confignode_parent node s =
     (case node of None \<Rightarrow> Some None | Some a \<Rightarrow> map_option cn_parent (node_at s a))"

partial_function (option) root_loop :: "addr \<Rightarrow> cstate \<Rightarrow> addr option" where
  "root_loop n s = do {
     c \<leftarrow> node_at s n;
     (case cn_parent c of None \<Rightarrow> Some n | Some p \<Rightarrow> root_loop p s)
   }"

definition confignode_root :: "ptr \<Rightarrow> cstate \<Rightarrow> ptr option" where
  "confignode_root node s =
     (case node of None \<Rightarrow> Some None | Some a \<Rightarrow> map_option Some (root_loop a s))"

definition confignode_new :: "cstate \<Rightarrow> ptr \<times> cstate" where
  "confignode_new s =
     (let (ok, s) = alloc s
      in if ok then (Some (cnxt s), put_node (cnxt s) fresh_node (s\<lparr>cnxt := Suc (cnxt s)\<rparr>))
         else (None, s))"

definition confignode_set_key :: "ptr \<Rightarrow> cstring option \<Rightarrow> cstate \<Rightarrow> (bool \<times> cstate) option" where
  "confignode_set_key node key s =
     (case node of
        None \<Rightarrow> Some (False, s)
      | Some a \<Rightarrow>
          let (ok, s) = (if key = None then (True, s) else alloc s)
          in if \<not> ok then Some (False, s)
             else do { s \<leftarrow> upd_node a (\<lambda>n. n\<lparr>cn_key := key\<rparr>) s; Some (True, s) })"

text \<open>\<open>configfile_array_fixup\<close>: the children of an array get their positions as index.\<close>

fun fixup_loop :: "addr \<Rightarrow> int \<Rightarrow> addr list \<Rightarrow> cstate \<Rightarrow> cstate option" where
  "fixup_loop node index [] s = Some s"
| "fixup_loop node index (p # ps) s = do {
     n \<leftarrow> node_at s p;
     (if cn_parent n \<noteq> Some node then fixup_loop node index ps s
      else fixup_loop node (index + 1) ps (put_node p (n\<lparr>cn_index := index\<rparr>) s))
   }"

definition configfile_array_fixup :: "addr \<Rightarrow> cstate \<Rightarrow> cstate option" where
  "configfile_array_fixup node s = do {
     n \<leftarrow> node_at s node;
     (if cn_type n \<noteq> TYPE_ARRAY then Some s else fixup_loop node 0 (cn_items n) s)
   }"

text \<open>
  \<open>confignode_clean\<close>. The child loop keeps the successor of the list cell before it cleans the
  child, which removes its own cell from the list, so it runs over the items the node had.
\<close>

partial_function (option) confignode_clean :: "addr \<Rightarrow> cstate \<Rightarrow> cstate option" where
  "confignode_clean node s = do {
     n \<leftarrow> node_at s node;
     s \<leftarrow> (case cn_parent n of
             None \<Rightarrow> Some s
           | Some p \<Rightarrow> do {
               s \<leftarrow> upd_node p (\<lambda>m. m\<lparr>cn_items := remove1 node (cn_items m)\<rparr>) s;
               configfile_array_fixup p s
             });
     n \<leftarrow> node_at s node;
     s \<leftarrow> foldM (\<lambda>i s. do {
             c \<leftarrow> node_at s i;
             (if cn_parent c \<noteq> Some node then Some s else confignode_clean i s)
           }) (cn_items n) s;
     Some (del_node node s)
   }"

section \<open>value.c: values\<close>

definition confignode_value_set :: "ptr \<Rightarrow> cvalue option \<Rightarrow> cstate \<Rightarrow> (bool \<times> cstate) option" where
  "confignode_value_set node value s =
     (case (node, value) of
        (Some a, Some v) \<Rightarrow> do {
          n \<leftarrow> node_at s a;
          (if cn_type n \<noteq> TYPE_VALUE then Some (False, s)
           else case cv_v v of
             VString None \<Rightarrow> Some (False, s)
           | VString (Some _) \<Rightarrow>
               (let (ok, s) = alloc s
                in if ok then Some (True, put_node a (n\<lparr>cn_value := v\<rparr>) s) else Some (False, s))
           | _ \<Rightarrow> Some (True, put_node a (n\<lparr>cn_value := v\<rparr>) s))
        }
      | _ \<Rightarrow> Some (False, s))"

definition new_typed :: "ntype \<Rightarrow> cstate \<Rightarrow> (ptr \<times> cstate) option" where
  "new_typed ty s =
     (let (n, s) = confignode_new s
      in case n of
           None \<Rightarrow> Some (None, s)
         | Some a \<Rightarrow> do { s \<leftarrow> upd_node a (\<lambda>n. n\<lparr>cn_type := ty\<rparr>) s; Some (Some a, s) })"

definition confignode_new_value :: "cvalue option \<Rightarrow> cstate \<Rightarrow> (ptr \<times> cstate) option" where
  "confignode_new_value value s =
     (if value = None then Some (None, s)
      else do {
        (n, s) \<leftarrow> new_typed TYPE_VALUE s;
        (case n of
           None \<Rightarrow> Some (None, s)
         | Some a \<Rightarrow> do {
             (ok, s) \<leftarrow> confignode_value_set n value s;
             (if ok then Some (n, s) else do { s \<leftarrow> confignode_clean a s; Some (None, s) })
           })
      })"

definition confignode_new_map :: "cstate \<Rightarrow> (ptr \<times> cstate) option" where
  "confignode_new_map s = new_typed TYPE_MAP s"

definition confignode_new_array :: "cstate \<Rightarrow> (ptr \<times> cstate) option" where
  "confignode_new_array s = new_typed TYPE_ARRAY s"

section \<open>map.c\<close>

text \<open>The loops that look for a child: the first item that satisfies the test.\<close>

fun find_item :: "(addr \<Rightarrow> cnode \<Rightarrow> bool) \<Rightarrow> addr list \<Rightarrow> cstate \<Rightarrow> ptr option" where
  "find_item P [] s = Some None"
| "find_item P (p # ps) s = do {
     n \<leftarrow> node_at s p;
     (if P p n then Some (Some p) else find_item P ps s)
   }"

definition is_key_child :: "addr \<Rightarrow> cstring \<Rightarrow> addr \<Rightarrow> cnode \<Rightarrow> bool" where
  "is_key_child node key p n \<longleftrightarrow> cn_parent n = Some node \<and>
     (case cn_key n of None \<Rightarrow> False | Some k \<Rightarrow> strcmp key k = 0)"

definition confignode_map_get :: "ptr \<Rightarrow> cstring option \<Rightarrow> cstate \<Rightarrow> ptr option" where
  "confignode_map_get node key s =
     (case (node, key) of
        (Some a, Some k) \<Rightarrow> do {
          n \<leftarrow> node_at s a;
          (if cn_type n \<noteq> TYPE_MAP then Some None
           else find_item (is_key_child a k) (cn_items n) s)
        }
      | _ \<Rightarrow> Some None)"

text \<open>\<open>p->data = sub\<close> for the list cell that holds \<open>q\<close>.\<close>

fun replace_item :: "addr \<Rightarrow> addr \<Rightarrow> addr list \<Rightarrow> addr list" where
  "replace_item q b [] = []"
| "replace_item q b (p # ps) = (if p = q then b # ps else p # replace_item q b ps)"

definition confignode_map_set ::
  "ptr \<Rightarrow> cstring option \<Rightarrow> ptr \<Rightarrow> cstate \<Rightarrow> (bool \<times> cstate) option" where
  "confignode_map_set node key sub s =
     (case (node, key, sub) of
        (Some a, Some k, Some b) \<Rightarrow> do {
          sn \<leftarrow> node_at s b;
          n \<leftarrow> node_at s a;
          (if cn_parent sn \<noteq> None \<or> cn_type n \<noteq> TYPE_MAP then Some (False, s)
           else let (ok, s) = alloc s
             in if \<not> ok then Some (False, s)
                else do {
                  old \<leftarrow> find_item (is_key_child a k) (cn_items n) s;
                  (case old of
                     Some q \<Rightarrow> do {
                       s \<leftarrow> upd_node a (\<lambda>n. n\<lparr>cn_items := replace_item q b (cn_items n)\<rparr>) s;
                       s \<leftarrow> upd_node b (\<lambda>n. n\<lparr>cn_key := Some k, cn_parent := Some a\<rparr>) s;
                       s \<leftarrow> upd_node q (\<lambda>n. n\<lparr>cn_parent := None\<rparr>) s;
                       s \<leftarrow> confignode_clean q s;
                       Some (True, s)
                     }
                   | None \<Rightarrow>
                       let (ok, s) = alloc s
                       in if \<not> ok then Some (False, s)
                          else do {
                            s \<leftarrow> upd_node a (\<lambda>n. n\<lparr>cn_items := cn_items n @ [b]\<rparr>) s;
                            s \<leftarrow> upd_node b (\<lambda>n. n\<lparr>cn_key := Some k, cn_parent := Some a\<rparr>) s;
                            Some (True, s)
                          })
                })
        }
      | _ \<Rightarrow> Some (False, s))"

section \<open>array.c\<close>

definition is_index_child :: "addr \<Rightarrow> nat \<Rightarrow> addr \<Rightarrow> cnode \<Rightarrow> bool" where
  "is_index_child node index p n \<longleftrightarrow>
     cn_parent n = Some node \<and> 0 \<le> cn_index n \<and> cn_index n = int index"

definition confignode_array_get :: "ptr \<Rightarrow> nat \<Rightarrow> cstate \<Rightarrow> ptr option" where
  "confignode_array_get node index s =
     (case node of
        None \<Rightarrow> Some None
      | Some a \<Rightarrow> do {
          n \<leftarrow> node_at s a;
          (if cn_type n \<noteq> TYPE_ARRAY then Some None
           else find_item (is_index_child a index) (cn_items n) s)
        })"

definition items_count :: "addr list \<Rightarrow> nat" where
  "items_count items = (if int (length items) > INT_MAX then 0 else length items)"

definition confignode_array_len :: "ptr \<Rightarrow> cstate \<Rightarrow> nat option" where
  "confignode_array_len node s =
     (case node of
        None \<Rightarrow> Some 0
      | Some a \<Rightarrow> do {
          n \<leftarrow> node_at s a;
          Some (if cn_type n \<noteq> TYPE_ARRAY then 0 else items_count (cn_items n))
        })"

definition confignode_array_append :: "ptr \<Rightarrow> ptr \<Rightarrow> cstate \<Rightarrow> (bool \<times> cstate) option" where
  "confignode_array_append node sub s =
     (case (node, sub) of
        (Some a, Some b) \<Rightarrow> do {
          sn \<leftarrow> node_at s b;
          n \<leftarrow> node_at s a;
          (if cn_parent sn \<noteq> None \<or> cn_type n \<noteq> TYPE_ARRAY then Some (False, s)
           else let (ok, s) = alloc s
             in if \<not> ok then Some (False, s)
                else do {
                  s \<leftarrow> upd_node a (\<lambda>n. n\<lparr>cn_items := cn_items n @ [b]\<rparr>) s;
                  s \<leftarrow> upd_node b (\<lambda>n. n\<lparr>cn_parent := Some a\<rparr>) s;
                  s \<leftarrow> configfile_array_fixup a s;
                  Some (True, s)
                })
        }
      | _ \<Rightarrow> Some (False, s))"

text \<open>Inserting before the list cell that holds \<open>q\<close>.\<close>

fun insert_before :: "addr \<Rightarrow> addr \<Rightarrow> addr list \<Rightarrow> addr list" where
  "insert_before b q [] = []"
| "insert_before b q (p # ps) = (if p = q then b # p # ps else p # insert_before b q ps)"

definition confignode_array_insert ::
  "ptr \<Rightarrow> nat \<Rightarrow> ptr \<Rightarrow> cstate \<Rightarrow> (bool \<times> cstate) option" where
  "confignode_array_insert node index sub s =
     (case (node, sub) of
        (Some a, Some b) \<Rightarrow> do {
          sn \<leftarrow> node_at s b;
          n \<leftarrow> node_at s a;
          (if cn_parent sn \<noteq> None \<or> cn_type n \<noteq> TYPE_ARRAY then Some (False, s)
           else do {
             place \<leftarrow> (if index = 0 then Some (Some (b # cn_items n))
                      else do {
                        q \<leftarrow> find_item (is_index_child a index) (cn_items n) s;
                        Some (map_option (\<lambda>q. insert_before b q (cn_items n)) q)
                      });
             (case place of
                None \<Rightarrow> Some (False, s)
              | Some items \<Rightarrow>
                  let (ok, s) = alloc s
                  in if \<not> ok then Some (False, s)
                     else do {
                       s \<leftarrow> upd_node a (\<lambda>n. n\<lparr>cn_items := items\<rparr>) s;
                       s \<leftarrow> upd_node b (\<lambda>n. n\<lparr>cn_parent := Some a\<rparr>) s;
                       s \<leftarrow> configfile_array_fixup a s;
                       Some (True, s)
                     })
           })
        }
      | _ \<Rightarrow> Some (False, s))"

text \<open>\<open>confignode_replace\<close>: the variable that holds the node goes in and comes out.\<close>

definition confignode_replace :: "ptr \<Rightarrow> ptr \<Rightarrow> cstate \<Rightarrow> (bool \<times> ptr \<times> cstate) option" where
  "confignode_replace node new s =
     (case (node, new) of
        (Some old, Some b) \<Rightarrow> do {
          oc \<leftarrow> node_at s old;
          nc \<leftarrow> node_at s b;
          (case cn_parent oc of
             None \<Rightarrow> Some (False, node, s)
           | Some parent \<Rightarrow>
               if cn_parent nc \<noteq> None then Some (False, node, s)
               else do {
                 pc \<leftarrow> node_at s parent;
                 (if cn_type pc \<noteq> TYPE_MAP \<and> cn_type pc \<noteq> TYPE_ARRAY then Some (False, node, s)
                  else if old \<notin> set (cn_items pc) then Some (False, node, s)
                  else do {
                    (ok, s) \<leftarrow>
                      (if cn_type pc = TYPE_MAP then
                         (if cn_key oc = None then Some (False, s)
                          else do {
                            (ok, s) \<leftarrow> confignode_set_key new (cn_key oc) s;
                            (if \<not> ok then Some (False, s)
                             else do { s \<leftarrow> upd_node b (\<lambda>n. n\<lparr>cn_index := -1\<rparr>) s; Some (True, s) })
                          })
                       else do {
                         (ok, s) \<leftarrow> confignode_set_key new None s;
                         (if \<not> ok then Some (False, s)
                          else do { s \<leftarrow> upd_node b (\<lambda>n. n\<lparr>cn_index := cn_index oc\<rparr>) s; Some (True, s) })
                       });
                    (if \<not> ok then Some (False, node, s)
                     else do {
                       s \<leftarrow> upd_node parent (\<lambda>n. n\<lparr>cn_items := replace_item old b (cn_items n)\<rparr>) s;
                       s \<leftarrow> upd_node b (\<lambda>n. n\<lparr>cn_parent := Some parent\<rparr>) s;
                       s \<leftarrow> upd_node old (\<lambda>n. n\<lparr>cn_parent := None\<rparr>) s;
                       s \<leftarrow> confignode_clean old s;
                       Some (True, new, s)
                     })
                  })
               })
        }
      | _ \<Rightarrow> Some (False, node, s))"

text \<open>The \<open>for\<close> loop of \<open>confignode_array_extend\<close>: \<open>n\<close> more elements.\<close>

fun extend_for :: "addr \<Rightarrow> nat \<Rightarrow> cstate \<Rightarrow> (bool \<times> cstate) option" where
  "extend_for node 0 s = Some (True, s)"
| "extend_for node (Suc n) s =
     (let (sub, s) = confignode_new s
      in case sub of
           None \<Rightarrow> Some (False, s)
         | Some b \<Rightarrow> do {
             (ok, s) \<leftarrow> confignode_array_append (Some node) sub s;
             (if \<not> ok then do { s \<leftarrow> confignode_clean b s; Some (False, s) }
              else extend_for node n s)
           })"

partial_function (option) extend_while :: "addr \<Rightarrow> nat \<Rightarrow> nat \<Rightarrow> cstate \<Rightarrow> (bool \<times> cstate) option" where
  "extend_while node nlen len s =
     (if nlen > len then do {
        (ok, s) \<leftarrow> extend_for node (nlen - len) s;
        (if \<not> ok then Some (False, s)
         else do { len \<leftarrow> confignode_array_len (Some node) s; extend_while node nlen len s })
      }
      else Some (True, s))"

definition confignode_array_extend :: "ptr \<Rightarrow> nat \<Rightarrow> cstate \<Rightarrow> (bool \<times> cstate) option" where
  "confignode_array_extend node nlen s =
     (case node of
        None \<Rightarrow> Some (False, s)
      | Some a \<Rightarrow> do {
          n \<leftarrow> node_at s a;
          (if cn_type n \<noteq> TYPE_ARRAY then Some (False, s)
           else do {
             len \<leftarrow> confignode_array_len node s;
             (ok, s) \<leftarrow> extend_while a nlen len s;
             (if \<not> ok then Some (False, s)
              else do { s \<leftarrow> configfile_array_fixup a s; Some (True, s) })
           })
        })"

definition confignode_array_set ::
  "ptr \<Rightarrow> nat \<Rightarrow> ptr \<Rightarrow> cstate \<Rightarrow> (bool \<times> cstate) option" where
  "confignode_array_set node index sub s =
     (case (node, sub) of
        (Some a, Some b) \<Rightarrow> do {
          sn \<leftarrow> node_at s b;
          n \<leftarrow> node_at s a;
          (if cn_parent sn \<noteq> None \<or> cn_type n \<noteq> TYPE_ARRAY then Some (False, s)
           else do {
             (ok, s) \<leftarrow> confignode_array_extend node (index + 1) s;
             (if \<not> ok then Some (False, s)
              else do {
                len \<leftarrow> confignode_array_len node s;
                (if index = len then confignode_array_append node sub s
                 else do {
                   n \<leftarrow> confignode_array_get node index s;
                   (if n = None then Some (False, s)
                    else do { (ok, _, s) \<leftarrow> confignode_replace n sub s; Some (ok, s) })
                 })
              })
           })
        }
      | _ \<Rightarrow> Some (False, s))"

section \<open>merge.c\<close>

partial_function (option) confignode_copy :: "addr \<Rightarrow> cstate \<Rightarrow> (ptr \<times> cstate) option" where
  "confignode_copy node s = do {
     n \<leftarrow> node_at s node;
     (case cn_type n of
        TYPE_NULL \<Rightarrow> Some (confignode_new s)
      | TYPE_VALUE \<Rightarrow> confignode_new_value (Some (cn_value n)) s
      | TYPE_ARRAY \<Rightarrow> do {
          (a, s) \<leftarrow> confignode_new_array s;
          (case a of
             None \<Rightarrow> Some (None, s)
           | Some a' \<Rightarrow> do {
               (ok, s) \<leftarrow> allM (\<lambda>i s. do {
                   c \<leftarrow> node_at s i;
                   (if cn_parent c \<noteq> Some node then Some (False, s)
                    else do {
                      (cp, s) \<leftarrow> confignode_copy i s;
                      (case cp of
                         None \<Rightarrow> Some (False, s)
                       | Some cp' \<Rightarrow> do {
                           (r, s) \<leftarrow> confignode_array_append a cp s;
                           (if r then Some (True, s)
                            else do { s \<leftarrow> confignode_clean cp' s; Some (False, s) })
                         })
                    })
                 }) (cn_items n) s;
               (if ok then Some (a, s) else do { s \<leftarrow> confignode_clean a' s; Some (None, s) })
             })
        }
      | TYPE_MAP \<Rightarrow> do {
          (m, s) \<leftarrow> confignode_new_map s;
          (case m of
             None \<Rightarrow> Some (None, s)
           | Some m' \<Rightarrow> do {
               (ok, s) \<leftarrow> allM (\<lambda>i s. do {
                   c \<leftarrow> node_at s i;
                   (if cn_parent c \<noteq> Some node \<or> cn_key c = None then Some (False, s)
                    else do {
                      (cp, s) \<leftarrow> confignode_copy i s;
                      (case cp of
                         None \<Rightarrow> Some (False, s)
                       | Some cp' \<Rightarrow> do {
                           (r, s) \<leftarrow> confignode_map_set m (cn_key c) cp s;
                           (if r then Some (True, s)
                            else do { s \<leftarrow> confignode_clean cp' s; Some (False, s) })
                         })
                    })
                 }) (cn_items n) s;
               (if ok then Some (m, s) else do { s \<leftarrow> confignode_clean m' s; Some (None, s) })
             })
        })
   }"

definition confignode_reparent_children :: "addr \<Rightarrow> cstate \<Rightarrow> cstate option" where
  "confignode_reparent_children node s = do {
     n \<leftarrow> node_at s node;
     foldM (\<lambda>c s. upd_node c (\<lambda>n. n\<lparr>cn_parent := Some node\<rparr>) s) (cn_items n) s
   }"

definition confignode_replace_contents :: "addr \<Rightarrow> addr \<Rightarrow> cstate \<Rightarrow> (bool \<times> cstate) option" where
  "confignode_replace_contents node replacement s = do {
     rn \<leftarrow> node_at s replacement;
     (if cn_parent rn \<noteq> None then Some (False, s)
      else do {
        temporary \<leftarrow> node_at s node;
        let s = put_node node (rn\<lparr>cn_parent := cn_parent temporary, cn_key := cn_key temporary,
                                 cn_index := cn_index temporary\<rparr>) s;
        let s = put_node replacement (temporary\<lparr>cn_parent := None, cn_key := cn_key rn,
                                        cn_index := -1\<rparr>) s;
        s \<leftarrow> confignode_reparent_children node s;
        s \<leftarrow> confignode_reparent_children replacement s;
        s \<leftarrow> confignode_clean replacement s;
        Some (True, s)
      })
   }"

partial_function (option) confignode_merge_in_place ::
  "addr \<Rightarrow> addr \<Rightarrow> cstate \<Rightarrow> (bool \<times> cstate) option" where
  "confignode_merge_in_place node new s =
     (if node = new then Some (True, s)
      else do {
        n \<leftarrow> node_at s node;
        w \<leftarrow> node_at s new;
        (if cn_type n \<noteq> cn_type w \<or> cn_type n \<noteq> TYPE_MAP \<and> cn_type n \<noteq> TYPE_ARRAY then do {
           (copy, s) \<leftarrow> confignode_copy new s;
           (case copy of
              None \<Rightarrow> Some (False, s)
            | Some c \<Rightarrow> do {
                (r, s) \<leftarrow> confignode_replace_contents node c s;
                (if r then Some (True, s) else do { s \<leftarrow> confignode_clean c s; Some (False, s) })
              })
         }
         else allM (\<lambda>i s. do {
             c \<leftarrow> node_at s i;
             (if cn_parent c \<noteq> Some new then Some (True, s)
              else if cn_type n = TYPE_ARRAY then do {
                (copy, s) \<leftarrow> confignode_copy i s;
                (case copy of
                   None \<Rightarrow> Some (False, s)
                 | Some d \<Rightarrow> do {
                     (r, s) \<leftarrow> confignode_array_append (Some node) copy s;
                     (if r then Some (True, s) else do { s \<leftarrow> confignode_clean d s; Some (False, s) })
                   })
              }
              else if cn_key c = None then Some (False, s)
              else do {
                sub \<leftarrow> confignode_map_get (Some node) (cn_key c) s;
                (case sub of
                   Some b \<Rightarrow> confignode_merge_in_place b i s
                 | None \<Rightarrow> do {
                     (copy, s) \<leftarrow> confignode_copy i s;
                     (case copy of
                        None \<Rightarrow> Some (False, s)
                      | Some d \<Rightarrow> do {
                          (r, s) \<leftarrow> confignode_map_set (Some node) (cn_key c) copy s;
                          (if r then Some (True, s)
                           else do { s \<leftarrow> confignode_clean d s; Some (False, s) })
                        })
                   })
              })
           }) (cn_items w) s)
      })"

definition confignode_merge :: "ptr \<Rightarrow> ptr \<Rightarrow> cstate \<Rightarrow> (bool \<times> cstate) option" where
  "confignode_merge node new s =
     (case (node, new) of
        (Some a, Some b) \<Rightarrow>
          if a = b then Some (True, s)
          else do {
            (working, s) \<leftarrow> confignode_copy a s;
            (case working of
               None \<Rightarrow> Some (False, s)
             | Some w \<Rightarrow> do {
                 (ok, s) \<leftarrow> confignode_merge_in_place w b s;
                 (if \<not> ok then do { s \<leftarrow> confignode_clean w s; Some (False, s) }
                  else do {
                    (result, s) \<leftarrow> confignode_replace_contents a w s;
                    (if \<not> result then do { s \<leftarrow> confignode_clean w s; Some (False, s) }
                     else Some (True, s))
                  })
               })
          }
      | _ \<Rightarrow> Some (False, s))"

end
