(* ===== verification/ConfigPath.thy ===== *)
theory ConfigPath
  imports Config
begin

text \<open>
  \<open>src/configfile/path.c\<close>: the path syntax, the lookup that can create missing nodes, the path of
  a node and the value operations at a path. A pointer into the path is the suffix it points at.
\<close>

section \<open>Path syntax\<close>

fun index_digits :: "cstring \<Rightarrow> nat \<Rightarrow> nat option" where
  "index_digits [] value = Some value"
| "index_digits (p # ps) value =
     (if cval p < cval (CHR ''0'') \<or> cval p > cval (CHR ''9'') then None
      else let digit = cval p - cval (CHR ''0'')
           in if value > (SIZE_MAX - digit) div 10 then None
              else index_digits ps (value * 10 + digit))"

text \<open>\<open>confignode_path_parse_index start end\<close> on the characters between the two pointers.\<close>

definition confignode_path_parse_index :: "cstring \<Rightarrow> nat option" where
  "confignode_path_parse_index s =
     (if s = [] then None
      else case index_digits s 0 of
             None \<Rightarrow> None
           | Some value \<Rightarrow> if value > SIZE_MAX div 2 then None else Some value)"

lemma strchr_suffix_length [termination_simp]:
  "strchr s c = Some r \<Longrightarrow> length (drop 1 r) < Suc (length s)"
  using strchr_length [of s c r] by simp

function path_valid :: "cstring \<Rightarrow> bool" where
  "path_valid path =
     (if path = [] then True
      else if hdc path = CHR ''['' then
        (case strchr (tl path) (CHR '']'') of
           None \<Rightarrow> False
         | Some close \<Rightarrow>
             if confignode_path_parse_index (takeWhile (\<lambda>c. c \<noteq> CHR '']'') (tl path)) = None then False
             else let nxt = tl close
                  in if nxt = [] then True
                     else if hdc nxt = CHR ''.'' then
                       (if tl nxt = [] then False else path_valid (tl nxt))
                     else if hdc nxt \<noteq> CHR ''['' then False
                     else path_valid nxt)
      else
        (case strpbrk path ''.['' of
           None \<Rightarrow> True
         | Some delim \<Rightarrow>
             if length delim = length path then False
             else let nxt = (if hdc delim = CHR ''['' then delim else tl delim)
                  in nxt \<noteq> [] \<and> path_valid nxt))"
  by pat_completeness auto

termination
proof (relation "measure length", goal_cases)
  case 1
  show ?case by simp
next
  case (2 path close nxt)
  have "length close \<le> length (tl path)" by (rule strchr_length [OF 2(3)])
  with 2 show ?case by (cases path) auto
next
  case (3 path close nxt)
  have "length close \<le> length (tl path)" by (rule strchr_length [OF 3(3)])
  with 3 show ?case by (cases path; cases close) auto
next
  case (4 path delim nxt)
  have "length delim \<le> length path" by (rule strpbrk_length [OF 4(3)])
  with 4 show ?case by (cases delim) (auto split: if_splits)
qed

declare path_valid.simps [simp del]

definition confignode_path_validate :: "cstring option \<Rightarrow> bool" where
  "confignode_path_validate path = (case path of None \<Rightarrow> False | Some p \<Rightarrow> path_valid p)"

section \<open>Lookup\<close>

definition confignode_path_require_type ::
  "addr \<Rightarrow> ntype \<Rightarrow> bool \<Rightarrow> cstate \<Rightarrow> (bool \<times> addr \<times> cstate) option" where
  "confignode_path_require_type node ty create s = do {
     n \<leftarrow> node_at s node;
     (if cn_type n = ty then Some (True, node, s)
      else if \<not> create \<or> cn_parent n = None then Some (False, node, s)
      else do {
        (r, s) \<leftarrow> (if ty = TYPE_ARRAY then confignode_new_array s else confignode_new_map s);
        (case r of
           None \<Rightarrow> Some (False, node, s)
         | Some b \<Rightarrow> do {
             (ok, n, s) \<leftarrow> confignode_replace (Some node) r s;
             (if \<not> ok then do { s \<leftarrow> confignode_clean b s; Some (False, node, s) }
              else case n of None \<Rightarrow> None | Some a \<Rightarrow> Some (True, a, s))
           })
      })
   }"

text \<open>
  The two kinds of step: the child the path's first component names and the rest of the path
  (\<open>[]\<close> for a \<open>NULL next_path\<close>).
\<close>

definition lookup_index_step ::
  "addr \<Rightarrow> nat \<Rightarrow> bool \<Rightarrow> cstate \<Rightarrow> (ptr \<times> cstate) option" where
  "lookup_index_step node index create s = do {
     (ok, node, s) \<leftarrow> confignode_path_require_type node TYPE_ARRAY create s;
     (if \<not> ok then Some (None, s)
      else do {
        nxt \<leftarrow> confignode_array_get (Some node) index s;
        (if nxt \<noteq> None then Some (nxt, s)
         else if \<not> create \<or> index = SIZE_MAX then Some (None, s)
         else do {
           (ok, s) \<leftarrow> confignode_array_extend (Some node) (index + 1) s;
           (if \<not> ok then Some (None, s)
            else do { nxt \<leftarrow> confignode_array_get (Some node) index s; Some (nxt, s) })
         })
      })
   }"

definition lookup_key_step ::
  "addr \<Rightarrow> cstring \<Rightarrow> bool \<Rightarrow> cstate \<Rightarrow> (ptr \<times> cstate) option" where
  "lookup_key_step node key create s = do {
     (ok, node, s) \<leftarrow> confignode_path_require_type node TYPE_MAP create s;
     (if \<not> ok then Some (None, s)
      else do {
        nxt \<leftarrow> confignode_map_get (Some node) (Some key) s;
        (if nxt \<noteq> None \<or> \<not> create then Some (nxt, s)
         else let (n, s) = confignode_new s
           in case n of
                None \<Rightarrow> Some (None, s)
              | Some b \<Rightarrow> do {
                  (ok, s) \<leftarrow> confignode_map_set (Some node) (Some key) n s;
                  (if ok then Some (n, s)
                   else do { s \<leftarrow> confignode_clean b s; Some (None, s) })
                })
      })
   }"

partial_function (option) path_lookup ::
  "addr \<Rightarrow> cstring \<Rightarrow> bool \<Rightarrow> cstate \<Rightarrow> (ptr \<times> cstate) option" where
  "path_lookup node path create s =
     (if \<not> path_valid path then Some (None, s)
      else if path = [] then Some (Some node, s)
      else if hdc path = CHR ''['' then
        (case strchr (tl path) (CHR '']'') of
           None \<Rightarrow> Some (None, s)
         | Some close \<Rightarrow>
             (case confignode_path_parse_index (takeWhile (\<lambda>c. c \<noteq> CHR '']'') (tl path)) of
                None \<Rightarrow> Some (None, s)
              | Some index \<Rightarrow>
                  let next_path = tl close in
                  if hdc next_path = CHR ''.'' \<and> tl next_path = [] then Some (None, s)
                  else if next_path \<noteq> [] \<and> hdc next_path \<noteq> CHR ''.'' \<and> hdc next_path \<noteq> CHR ''[''
                  then Some (None, s)
                  else do {
                    let next_path = (if hdc next_path = CHR ''.'' then tl next_path else next_path);
                    (nxt, s) \<leftarrow> lookup_index_step node index create s;
                    (case nxt of
                       None \<Rightarrow> Some (None, s)
                     | Some n \<Rightarrow>
                         if next_path = [] then Some (nxt, s) else path_lookup n next_path create s)
                  }))
      else
        (let delim = strpbrk path ''.['';
             key = (case delim of None \<Rightarrow> path | Some d \<Rightarrow> take (length path - length d) path)
         in if key = [] then Some (None, s)
            else let (ok, s) = alloc s
            in if \<not> ok then Some (None, s)
            else let next_path = (case delim of None \<Rightarrow> []
                                  | Some d \<Rightarrow> if hdc d = CHR ''['' then d else tl d)
            in if delim \<noteq> None \<and> next_path = [] then Some (None, s)
            else do {
              (nxt, s) \<leftarrow> lookup_key_step node key create s;
              (case nxt of
                 None \<Rightarrow> Some (None, s)
               | Some n \<Rightarrow>
                   if next_path = [] then Some (nxt, s) else path_lookup n next_path create s)
            }))"

definition confignode_path_lookup ::
  "ptr \<Rightarrow> cstring option \<Rightarrow> bool \<Rightarrow> cstate \<Rightarrow> (ptr \<times> cstate) option" where
  "confignode_path_lookup node path create s =
     (case (node, path) of
        (Some a, Some p) \<Rightarrow> path_lookup a p create s
      | _ \<Rightarrow> Some (None, s))"

section \<open>The path of a node\<close>

partial_function (option) path_get_rec :: "addr \<Rightarrow> cstring \<Rightarrow> nat \<Rightarrow> cstate \<Rightarrow> cstring option" where
  "path_get_rec node buff sz s = do {
     n \<leftarrow> node_at s node;
     (case cn_parent n of
        None \<Rightarrow> Some buff
      | Some p \<Rightarrow> do {
          buff \<leftarrow> path_get_rec p buff sz s;
          pn \<leftarrow> node_at s p;
          (case cn_type pn of
             TYPE_MAP \<Rightarrow> do {
               k \<leftarrow> cn_key n;
               Some (strlcat (if buff \<noteq> [] then strlcat buff ''.'' sz else buff) k sz)
             }
           | TYPE_ARRAY \<Rightarrow> Some (strlcat buff (''['' @ int_dec (cn_index n) @ '']'') sz)
           | _ \<Rightarrow> Some buff)
        })
   }"

definition confignode_path_get :: "ptr \<Rightarrow> nat \<Rightarrow> cstate \<Rightarrow> cstring option option" where
  "confignode_path_get node sz s =
     (case node of
        None \<Rightarrow> Some None
      | Some a \<Rightarrow> if sz = 0 then Some None else map_option Some (path_get_rec a [] sz s))"

section \<open>Values at a path\<close>

definition confignode_value_get :: "ptr \<Rightarrow> cstate \<Rightarrow> (cvalue option \<times> cstate) option" where
  "confignode_value_get node s =
     (case node of
        None \<Rightarrow> Some (None, s)
      | Some a \<Rightarrow> do {
          n \<leftarrow> node_at s a;
          (if cn_type n \<noteq> TYPE_VALUE then Some (None, s)
           else case cv_v (cn_value n) of
             VString None \<Rightarrow> None
           | VString (Some _) \<Rightarrow>
               (let (ok, s) = alloc s in Some (if ok then Some (cn_value n) else None, s))
           | _ \<Rightarrow> Some (Some (cn_value n), s))
        })"

definition confignode_path_set_value ::
  "ptr \<Rightarrow> cstring option \<Rightarrow> cvalue option \<Rightarrow> cstate \<Rightarrow> (bool \<times> cstate) option" where
  "confignode_path_set_value node path value s = do {
     (n, s) \<leftarrow> confignode_path_lookup node path True s;
     (case n of
        None \<Rightarrow> Some (False, s)
      | Some a \<Rightarrow> do {
          c \<leftarrow> node_at s a;
          (if cn_type c = TYPE_VALUE \<and> value \<noteq> None then confignode_value_set n value s
           else do {
             (r, s) \<leftarrow> (if value \<noteq> None then confignode_new_value value s else Some (confignode_new s));
             (case r of
                None \<Rightarrow> Some (False, s)
              | Some b \<Rightarrow> do {
                  (ok, _, s) \<leftarrow> confignode_replace n r s;
                  (if \<not> ok then do { s \<leftarrow> confignode_clean b s; Some (False, s) }
                   else Some (True, s))
                })
           })
        })
   }"

definition confignode_path_get_value ::
  "ptr \<Rightarrow> cstring option \<Rightarrow> cstate \<Rightarrow> (cvalue option \<times> cstate) option" where
  "confignode_path_get_value node path s = do {
     (n, s) \<leftarrow> confignode_path_lookup node path False s;
     (if n = None then Some (None, s) else confignode_value_get n s)
   }"

definition confignode_path_map_set ::
  "ptr \<Rightarrow> cstring option \<Rightarrow> ptr \<Rightarrow> cstate \<Rightarrow> (bool \<times> cstate) option" where
  "confignode_path_map_set node path sub s =
     (case (node, sub) of
        (Some a, Some b) \<Rightarrow> do {
          sn \<leftarrow> node_at s b;
          (if cn_parent sn \<noteq> None then Some (False, s)
           else do {
             (n, s) \<leftarrow> confignode_path_lookup node path True s;
             (if n = None then Some (False, s)
              else do { (ok, _, s) \<leftarrow> confignode_replace n sub s; Some (ok, s) })
           })
        }
      | _ \<Rightarrow> Some (False, s))"

end
