(* ===== verification/ConfigValue.thy ===== *)
theory ConfigValue
  imports ConfigPath
begin

text \<open>
  \<open>src/configfile/value.c\<close> (typed reads), \<open>iter.c\<close> and \<open>wrapper.c\<close>. A typed read returns the value
  and the success flag the C code stores through \<open>ok\<close>; the \<open>strdup\<close> of a returned string is taken
  to succeed. A \<open>printf\<close>-style argument is the formatted text.
\<close>

section \<open>Typed reads\<close>

definition confignode_value_get_string ::
  "ptr \<Rightarrow> cstring option \<Rightarrow> cstate \<Rightarrow> (cstring option \<times> bool) option" where
  "confignode_value_get_string node def s =
     (case node of
        None \<Rightarrow> Some (def, False)
      | Some a \<Rightarrow> do {
          n \<leftarrow> node_at s a;
          Some (if cn_type n \<noteq> TYPE_VALUE then (def, False)
                else case cv_v (cn_value n) of
                  VString None \<Rightarrow> (def, False)
                | VString (Some t) \<Rightarrow> (Some t, True)
                | VInt i \<Rightarrow> (Some (int_dec i), True)
                | VFloat f \<Rightarrow> (Some (dbl_print_f f), True)
                | VBool b \<Rightarrow> (Some (if b then ''true'' else ''false''), True))
        })"

definition confignode_value_get_int :: "ptr \<Rightarrow> int \<Rightarrow> cstate \<Rightarrow> (int \<times> bool) option" where
  "confignode_value_get_int node def s =
     (case node of
        None \<Rightarrow> Some (def, False)
      | Some a \<Rightarrow> do {
          n \<leftarrow> node_at s a;
          Some (if cn_type n \<noteq> TYPE_VALUE then (def, False)
                else case cv_v (cn_value n) of
                  VInt i \<Rightarrow> (i, True)
                | VString None \<Rightarrow> (def, False)
                | VString (Some t) \<Rightarrow>
                    (let r = strtoll 10 t
                     in if sr_end r = t \<or> sr_end r \<noteq> [] \<or> sr_range r then (def, False)
                        else (sr_val r, True))
                | VFloat f \<Rightarrow>
                    (if \<not> dbl_finite f \<or> dbl_trunc f < INT64_MIN \<or> dbl_trunc f > INT64_MAX
                     then (def, False) else (dbl_trunc f, True))
                | VBool b \<Rightarrow> (if b then 1 else 0, True))
        })"

definition confignode_value_get_float :: "ptr \<Rightarrow> 64 word \<Rightarrow> cstate \<Rightarrow> (64 word \<times> bool) option" where
  "confignode_value_get_float node def s =
     (case node of
        None \<Rightarrow> Some (def, False)
      | Some a \<Rightarrow> do {
          n \<leftarrow> node_at s a;
          Some (if cn_type n \<noteq> TYPE_VALUE then (def, False)
                else case cv_v (cn_value n) of
                  VFloat f \<Rightarrow> (f, True)
                | VString None \<Rightarrow> (def, False)
                | VString (Some t) \<Rightarrow>
                    (let (f, r, range) = strtod t
                     in if r = t \<or> r \<noteq> [] \<or> range then (def, False) else (f, True))
                | VInt i \<Rightarrow> (dbl_of_int i, True)
                | VBool b \<Rightarrow> (if b then dbl_one else dbl_zero, True))
        })"

definition confignode_value_get_bool :: "ptr \<Rightarrow> bool \<Rightarrow> cstate \<Rightarrow> (bool \<times> bool) option" where
  "confignode_value_get_bool node def s =
     (case node of
        None \<Rightarrow> Some (def, False)
      | Some a \<Rightarrow> do {
          n \<leftarrow> node_at s a;
          Some (if cn_type n \<noteq> TYPE_VALUE then (def, False)
                else case cv_v (cn_value n) of
                  VBool b \<Rightarrow> (b, True)
                | VString None \<Rightarrow> (def, False)
                | VString (Some t) \<Rightarrow>
                    (let is_yes = string_is_true (Some t); is_no = string_is_false (Some t)
                     in if \<not> is_yes \<and> \<not> is_no then (def, False) else (is_yes, True))
                | VInt i \<Rightarrow> (i \<noteq> 0, True)
                | VFloat f \<Rightarrow> (\<not> dbl_is_zero f, True))
        })"

section \<open>Iteration\<close>

text \<open>
  The iterator keeps the list cell it stands at; here that is the position in the item list
  (\<open>None\<close> before the first call).
\<close>

record citer =
  it_root :: ptr
  it_cur :: "nat option"
  it_node :: ptr
  it_name :: "cstring option"
  it_index :: int

definition zero_iter :: citer where
  "zero_iter = \<lparr>it_root = None, it_cur = None, it_node = None, it_name = None, it_index = 0\<rparr>"

definition iter_end :: "citer \<Rightarrow> citer" where
  "iter_end it = it\<lparr>it_index := -1, it_name := None, it_node := None\<rparr>"

definition confignode_iter_next :: "citer \<Rightarrow> cstate \<Rightarrow> (bool \<times> citer) option" where
  "confignode_iter_next it s =
     (case it_root it of
        None \<Rightarrow> Some (False, it)
      | Some r \<Rightarrow> do {
          n \<leftarrow> node_at s r;
          let nxt = (case it_cur it of None \<Rightarrow> 0 | Some i \<Rightarrow> Suc i);
          (if nxt \<ge> length (cn_items n) then Some (False, iter_end it)
           else do {
             c \<leftarrow> node_at s (cn_items n ! nxt);
             Some (True, it\<lparr>it_cur := Some nxt, it_node := Some (cn_items n ! nxt),
                            it_index := it_index it + 1, it_name := cn_key c\<rparr>)
           })
        })"

definition confignode_iter_start :: "citer \<Rightarrow> ptr \<Rightarrow> cstate \<Rightarrow> (bool \<times> citer) option" where
  "confignode_iter_start it node s =
     (case node of
        None \<Rightarrow> Some (False, it)
      | Some a \<Rightarrow> do {
          n \<leftarrow> node_at s a;
          (if cn_type n \<noteq> TYPE_MAP \<and> cn_type n \<noteq> TYPE_ARRAY then Some (False, it)
           else confignode_iter_next
                  (it\<lparr>it_root := node, it_cur := None, it_node := None, it_index := -1, it_name := None\<rparr>) s)
        })"

definition confignode_iter_start_ret :: "ptr \<Rightarrow> cstate \<Rightarrow> citer option" where
  "confignode_iter_start_ret node s = map_option snd (confignode_iter_start zero_iter node s)"

definition confignode_path_iter_start ::
  "ptr \<Rightarrow> cstring option \<Rightarrow> cstate \<Rightarrow> (bool \<times> citer \<times> cstate) option" where
  "confignode_path_iter_start node path s = do {
     (n, s) \<leftarrow> confignode_path_lookup node path False s;
     (if n = None then Some (False, zero_iter, s)
      else do { (ok, it) \<leftarrow> confignode_iter_start zero_iter n s; Some (ok, it, s) })
   }"

definition confignode_iter_reset :: "citer \<Rightarrow> citer" where
  "confignode_iter_reset it = (if it_root it = None then it else it\<lparr>it_cur := None, it_node := None\<rparr>)"

text \<open>\<open>confignode_foreach\<close>: the body runs while the iterator has a node.\<close>

partial_function (option) foreach_loop ::
  "(citer \<Rightarrow> 'a \<Rightarrow> 'a option) \<Rightarrow> citer \<Rightarrow> cstate \<Rightarrow> 'a \<Rightarrow> 'a option" where
  "foreach_loop body it s x =
     (if it_node it = None then Some x
      else do {
        x \<leftarrow> body it x;
        (_, it) \<leftarrow> confignode_iter_next it s;
        foreach_loop body it s x
      })"

definition confignode_foreach ::
  "(citer \<Rightarrow> 'a \<Rightarrow> 'a option) \<Rightarrow> ptr \<Rightarrow> cstate \<Rightarrow> 'a \<Rightarrow> 'a option" where
  "confignode_foreach body node s x = do {
     it \<leftarrow> confignode_iter_start_ret node s;
     foreach_loop body it s x
   }"

section \<open>Strings of a value, an array or a map\<close>

text \<open>
  The list is \<open>None\<close> for \<open>NULL\<close>. In the loop \<open>Inl\<close> is the error exit that frees the list built so
  far.
\<close>

definition gather_strings :: "cstate \<Rightarrow> citer \<Rightarrow> cstring list option \<Rightarrow> cstring list option option" where
  "gather_strings s it l =
     (case l of
        None \<Rightarrow> Some None
      | Some xs \<Rightarrow> do {
          isv \<leftarrow> confignode_is_type (it_node it) TYPE_VALUE s;
          (if \<not> isv then Some l
           else do {
             (str, ok) \<leftarrow> confignode_value_get_string (it_node it) None s;
             Some (case str of None \<Rightarrow> None | Some t \<Rightarrow> if ok then Some (xs @ [t]) else None)
           })
        })"

definition confignode_value_get_string_or_list_to_list ::
  "ptr \<Rightarrow> cstate \<Rightarrow> (cstring list \<times> bool) option" where
  "confignode_value_get_string_or_list_to_list node s =
     (case node of
        None \<Rightarrow> Some ([], False)
      | Some a \<Rightarrow> do {
          n \<leftarrow> node_at s a;
          (case cn_type n of
             TYPE_VALUE \<Rightarrow> do {
               (str, ok) \<leftarrow> confignode_value_get_string node None s;
               Some (case str of None \<Rightarrow> ([], False) | Some t \<Rightarrow> if ok then ([t], True) else ([], False))
             }
           | TYPE_NULL \<Rightarrow> Some ([], False)
           | _ \<Rightarrow> do {
               l \<leftarrow> confignode_foreach (gather_strings s) node s (Some []);
               Some (case l of None \<Rightarrow> ([], False) | Some xs \<Rightarrow> (xs, True))
             })
        })"

definition confignode_value_get_string_or_list ::
  "ptr \<Rightarrow> cstring \<Rightarrow> cstate \<Rightarrow> (cstring option \<times> bool) option" where
  "confignode_value_get_string_or_list node sep s = do {
     (l, nok) \<leftarrow> confignode_value_get_string_or_list_to_list node s;
     Some (if \<not> nok then (None, False)
           else if l = [] then (None, True)
           else let ret = strings_to_string sep l in (ret, ret \<noteq> None))
   }"

section \<open>wrapper.c\<close>

definition string_value :: "cstring option \<Rightarrow> cvalue" where
  "string_value str = \<lparr>cv_v = VString str, cv_len = (case str of None \<Rightarrow> 0 | Some t \<Rightarrow> length t)\<rparr>"

definition int_value :: "int \<Rightarrow> cvalue" where
  "int_value i = \<lparr>cv_v = VInt i, cv_len = 8\<rparr>"

definition float_value :: "64 word \<Rightarrow> cvalue" where
  "float_value f = \<lparr>cv_v = VFloat f, cv_len = 8\<rparr>"

definition bool_value :: "bool \<Rightarrow> cvalue" where
  "bool_value b = \<lparr>cv_v = VBool b, cv_len = 1\<rparr>"

definition confignode_new_string :: "cstring option \<Rightarrow> cstate \<Rightarrow> (ptr \<times> cstate) option" where
  "confignode_new_string str s = confignode_new_value (Some (string_value str)) s"

definition confignode_new_int :: "int \<Rightarrow> cstate \<Rightarrow> (ptr \<times> cstate) option" where
  "confignode_new_int i s = confignode_new_value (Some (int_value i)) s"

definition confignode_new_float :: "64 word \<Rightarrow> cstate \<Rightarrow> (ptr \<times> cstate) option" where
  "confignode_new_float f s = confignode_new_value (Some (float_value f)) s"

definition confignode_new_bool :: "bool \<Rightarrow> cstate \<Rightarrow> (ptr \<times> cstate) option" where
  "confignode_new_bool b s = confignode_new_value (Some (bool_value b)) s"

definition confignode_value_set_string :: "ptr \<Rightarrow> cstring option \<Rightarrow> cstate \<Rightarrow> (bool \<times> cstate) option" where
  "confignode_value_set_string node str s = confignode_value_set node (Some (string_value str)) s"

definition confignode_value_set_stringn ::
  "ptr \<Rightarrow> cstring option \<Rightarrow> nat \<Rightarrow> cstate \<Rightarrow> (bool \<times> cstate) option" where
  "confignode_value_set_stringn node str len s =
     confignode_value_set node
       (Some \<lparr>cv_v = VString str, cv_len = (if str = None then 0 else len)\<rparr>) s"

definition confignode_value_set_int :: "ptr \<Rightarrow> int \<Rightarrow> cstate \<Rightarrow> (bool \<times> cstate) option" where
  "confignode_value_set_int node i s = confignode_value_set node (Some (int_value i)) s"

definition confignode_value_set_float :: "ptr \<Rightarrow> 64 word \<Rightarrow> cstate \<Rightarrow> (bool \<times> cstate) option" where
  "confignode_value_set_float node f s = confignode_value_set node (Some (float_value f)) s"

definition confignode_value_set_bool :: "ptr \<Rightarrow> bool \<Rightarrow> cstate \<Rightarrow> (bool \<times> cstate) option" where
  "confignode_value_set_bool node b s = confignode_value_set node (Some (bool_value b)) s"

definition confignode_path_set_string ::
  "ptr \<Rightarrow> cstring option \<Rightarrow> cstring option \<Rightarrow> cstate \<Rightarrow> (bool \<times> cstate) option" where
  "confignode_path_set_string node path str s =
     confignode_path_set_value node path (Some (string_value str)) s"

definition confignode_path_set_int :: "ptr \<Rightarrow> cstring option \<Rightarrow> int \<Rightarrow> cstate \<Rightarrow> (bool \<times> cstate) option" where
  "confignode_path_set_int node path i s = confignode_path_set_value node path (Some (int_value i)) s"

definition confignode_path_set_float ::
  "ptr \<Rightarrow> cstring option \<Rightarrow> 64 word \<Rightarrow> cstate \<Rightarrow> (bool \<times> cstate) option" where
  "confignode_path_set_float node path f s = confignode_path_set_value node path (Some (float_value f)) s"

definition confignode_path_set_bool :: "ptr \<Rightarrow> cstring option \<Rightarrow> bool \<Rightarrow> cstate \<Rightarrow> (bool \<times> cstate) option" where
  "confignode_path_set_bool node path b s = confignode_path_set_value node path (Some (bool_value b)) s"

text \<open>The common head of the array operations at a path: the node, made an array if need be.\<close>

definition path_array :: "ptr \<Rightarrow> cstring option \<Rightarrow> cstate \<Rightarrow> (ptr \<times> cstate) option" where
  "path_array node path s = do {
     (n, s) \<leftarrow> confignode_path_lookup node path True s;
     (case n of
        None \<Rightarrow> Some (None, s)
      | Some a \<Rightarrow> do {
          c \<leftarrow> node_at s a;
          (if cn_type c = TYPE_ARRAY then Some (n, s)
           else if cn_parent c = None then Some (None, s)
           else do {
             (r, s) \<leftarrow> confignode_new_array s;
             (case r of
                None \<Rightarrow> Some (None, s)
              | Some b \<Rightarrow> do {
                  (ok, n, s) \<leftarrow> confignode_replace n r s;
                  (if \<not> ok then do { s \<leftarrow> confignode_clean b s; Some (None, s) } else Some (n, s))
                })
           })
        })
   }"

definition confignode_path_array_append ::
  "ptr \<Rightarrow> cstring option \<Rightarrow> ptr \<Rightarrow> cstate \<Rightarrow> (bool \<times> cstate) option" where
  "confignode_path_array_append node path sub s = do {
     (n, s) \<leftarrow> path_array node path s;
     (if n = None then Some (False, s) else confignode_array_append n sub s)
   }"

definition confignode_path_array_set ::
  "ptr \<Rightarrow> cstring option \<Rightarrow> nat \<Rightarrow> ptr \<Rightarrow> cstate \<Rightarrow> (bool \<times> cstate) option" where
  "confignode_path_array_set node path index sub s = do {
     (n, s) \<leftarrow> path_array node path s;
     (if n = None then Some (False, s) else confignode_array_set n index sub s)
   }"

definition confignode_path_array_insert ::
  "ptr \<Rightarrow> cstring option \<Rightarrow> nat \<Rightarrow> ptr \<Rightarrow> cstate \<Rightarrow> (bool \<times> cstate) option" where
  "confignode_path_array_insert node path index sub s = do {
     (n, s) \<leftarrow> path_array node path s;
     (if n = None then Some (False, s) else confignode_array_insert n index sub s)
   }"

definition confignode_path_array_len :: "ptr \<Rightarrow> cstring option \<Rightarrow> cstate \<Rightarrow> (nat \<times> cstate) option" where
  "confignode_path_array_len node path s = do {
     (n, s) \<leftarrow> confignode_path_lookup node path False s;
     (case n of
        None \<Rightarrow> Some (0, s)
      | Some a \<Rightarrow> do { len \<leftarrow> confignode_array_len n s; Some (len, s) })
   }"

definition confignode_path_get_string ::
  "ptr \<Rightarrow> cstring option \<Rightarrow> cstring option \<Rightarrow> cstate \<Rightarrow> ((cstring option \<times> bool) \<times> cstate) option" where
  "confignode_path_get_string node path def s = do {
     (n, s) \<leftarrow> confignode_path_lookup node path False s;
     (if n = None then Some ((def, False), s)
      else do { r \<leftarrow> confignode_value_get_string n def s; Some (r, s) })
   }"

definition confignode_path_get_int ::
  "ptr \<Rightarrow> cstring option \<Rightarrow> int \<Rightarrow> cstate \<Rightarrow> ((int \<times> bool) \<times> cstate) option" where
  "confignode_path_get_int node path def s = do {
     (n, s) \<leftarrow> confignode_path_lookup node path False s;
     (if n = None then Some ((def, False), s)
      else do { r \<leftarrow> confignode_value_get_int n def s; Some (r, s) })
   }"

definition confignode_path_get_float ::
  "ptr \<Rightarrow> cstring option \<Rightarrow> 64 word \<Rightarrow> cstate \<Rightarrow> ((64 word \<times> bool) \<times> cstate) option" where
  "confignode_path_get_float node path def s = do {
     (n, s) \<leftarrow> confignode_path_lookup node path False s;
     (if n = None then Some ((def, False), s)
      else do { r \<leftarrow> confignode_value_get_float n def s; Some (r, s) })
   }"

definition confignode_path_get_bool ::
  "ptr \<Rightarrow> cstring option \<Rightarrow> bool \<Rightarrow> cstate \<Rightarrow> ((bool \<times> bool) \<times> cstate) option" where
  "confignode_path_get_bool node path def s = do {
     (n, s) \<leftarrow> confignode_path_lookup node path False s;
     (if n = None then Some ((def, False), s)
      else do { r \<leftarrow> confignode_value_get_bool n def s; Some (r, s) })
   }"

definition confignode_path_get_string_or_list_to_list ::
  "ptr \<Rightarrow> cstring option \<Rightarrow> cstate \<Rightarrow> ((cstring list \<times> bool) \<times> cstate) option" where
  "confignode_path_get_string_or_list_to_list node path s = do {
     (n, s) \<leftarrow> confignode_path_lookup node path False s;
     (if n = None then Some (([], False), s)
      else do { r \<leftarrow> confignode_value_get_string_or_list_to_list n s; Some (r, s) })
   }"

definition confignode_path_get_string_or_list ::
  "ptr \<Rightarrow> cstring option \<Rightarrow> cstring \<Rightarrow> cstate \<Rightarrow> ((cstring option \<times> bool) \<times> cstate) option" where
  "confignode_path_get_string_or_list node path sep s = do {
     (n, s) \<leftarrow> confignode_path_lookup node path False s;
     (if n = None then Some ((None, False), s)
      else do { r \<leftarrow> confignode_value_get_string_or_list n sep s; Some (r, s) })
   }"

definition confignode_path_is_type ::
  "ptr \<Rightarrow> cstring option \<Rightarrow> ntype \<Rightarrow> cstate \<Rightarrow> (bool \<times> cstate) option" where
  "confignode_path_is_type node path ty s = do {
     (n, s) \<leftarrow> confignode_path_lookup node path False s;
     (if n = None then Some (False, s)
      else do { b \<leftarrow> confignode_is_type n ty s; Some (b, s) })
   }"

end
