(* ===== verification/DblPrint.thy ===== *)
theory DblPrint
  imports Dbl
begin

text \<open>
  \<open>printf("%.*g")\<close> on a double: the exact value rounded to the given number of significant digits
  (ties to even), in fixed or exponent notation, without trailing zeros.
\<close>

function small_exp :: "nat \<Rightarrow> nat \<Rightarrow> nat" where
  "small_exp num den = (if den \<le> num \<or> num = 0 then 0 else Suc (small_exp (num * 10) den))"
  by pat_completeness auto
termination
  by (relation "measure (\<lambda>(num, den). den - num)") auto

text \<open>The decimal exponent of \<open>num / den\<close>.\<close>

definition dec_exp :: "nat \<Rightarrow> nat \<Rightarrow> int" where
  "dec_exp num den =
     (if den \<le> num then int (length (nat_dec (num div den))) - 1 else - int (small_exp num den))"

text \<open>\<open>prec\<close> significant digits and the exponent of the first.\<close>

definition dec_digits :: "nat \<Rightarrow> nat \<Rightarrow> nat \<Rightarrow> cstring \<times> int" where
  "dec_digits prec num den =
     (let x = dec_exp num den; k = int prec - 1 - x;
          d = (if 0 \<le> k then div_round_even (num * 10 ^ nat k) den
               else div_round_even num (den * 10 ^ nat (- k)))
      in if d = 10 ^ prec then (nat_dec (10 ^ (prec - 1)), x + 1) else (nat_dec d, x))"

definition trim_zeros :: "cstring \<Rightarrow> cstring" where
  "trim_zeros s = rev (dropWhile (\<lambda>c. c = CHR ''0'') (rev s))"

definition with_point :: "cstring \<Rightarrow> cstring \<Rightarrow> cstring" where
  "with_point ip fp = (if trim_zeros fp = [] then ip else ip @ ''.'' @ trim_zeros fp)"

definition print_g_digits :: "nat \<Rightarrow> cstring \<Rightarrow> int \<Rightarrow> cstring" where
  "print_g_digits prec ds x =
     (if x < - 4 \<or> x \<ge> int prec then
        with_point (take 1 ds) (drop 1 ds) @ ''e'' @ (if x < 0 then ''-'' else ''+'') @
        pad_zeros 2 (nat_dec (nat \<bar>x\<bar>))
      else if x < 0 then with_point ''0'' (replicate (nat (- x) - 1) (CHR ''0'') @ ds)
      else with_point (take (nat x + 1) ds) (drop (nat x + 1) ds))"

definition dbl_print_g :: "nat \<Rightarrow> 64 word \<Rightarrow> cstring" where
  "dbl_print_g prec f =
     (if dbl_sign f then ''-'' else '''') @
     (if dbl_exp f = 2047 then (if dbl_frac f = 0 then ''inf'' else ''nan'')
      else if dbl_is_zero f then ''0''
      else let (ds, x) = dec_digits prec (dbl_mant f * 2 ^ dbl_pow f) (2 ^ 1074)
           in print_g_digits prec ds x)"

end
