(* ===== verification/Conf.thy ===== *)
theory Conf
  imports ConfigValue DblPrint
begin

text \<open>
  \<open>src/configfile/conf.c\<close>: the \<open>key = value\<close> format, parsed into and printed from the configuration
  heap. A line or a value given by a pointer and a length is the character list it covers.
\<close>

section \<open>Parsing\<close>

definition rstrip :: "cstring \<Rightarrow> cstring" where
  "rstrip s = rev (dropWhile isspace (rev s))"

definition conf_int_base :: "cstring \<Rightarrow> nat" where
  "conf_int_base valstr =
     (let digits = (case valstr of c # r \<Rightarrow> if c = CHR ''+'' \<or> c = CHR ''-'' then r else valstr | [] \<Rightarrow> [])
      in case digits of z # x # _ \<Rightarrow> if z = CHR ''0'' \<and> (x = CHR ''x'' \<or> x = CHR ''X'') then 16 else 10
                      | _ \<Rightarrow> 10)"

definition conf_parse_value :: "cstring \<Rightarrow> cstate \<Rightarrow> cvalue option \<times> cstate" where
  "conf_parse_value valstr s =
     (let i = strtoll (conf_int_base valstr) valstr in
      if sr_end i \<noteq> valstr \<and> sr_end i = [] then
        (if sr_range i then (None, s) else (Some \<lparr>cv_v = VInt (sr_val i), cv_len = 8\<rparr>, s))
      else let (f, r, range) = strtod valstr in
      if r \<noteq> valstr \<and> r = [] then
        (if range \<and> (dbl_is_zero f \<or> \<not> dbl_finite f) then (None, s)
         else (Some \<lparr>cv_v = VFloat f, cv_len = 8\<rparr>, s))
      else if string_is_true (Some valstr) then (Some \<lparr>cv_v = VBool True, cv_len = 1\<rparr>, s)
      else if string_is_false (Some valstr) then (Some \<lparr>cv_v = VBool False, cv_len = 1\<rparr>, s)
      else let (ok, s) = alloc s
           in (if ok then Some \<lparr>cv_v = VString (Some valstr), cv_len = length valstr\<rparr> else None, s))"

text \<open>The key and the value of a line: \<open>None\<close> is a malformed line, \<open>Some None\<close> one without content.\<close>

definition conf_split_line :: "cstring \<Rightarrow> (cstring \<times> bool \<times> cstring) option option" where
  "conf_split_line text =
     (let line = dropWhile isspace (rstrip text) in
      if line = [] \<or> hd line = CHR ''#'' then Some None
      else if CHR ''='' \<notin> set line then None
      else let key = rstrip (takeWhile (\<lambda>c. c \<noteq> CHR ''='') line);
               val = dropWhile isspace (tl (dropWhile (\<lambda>c. c \<noteq> CHR ''='') line))
           in if key = [] \<or> val = [] then None
              else if hd val = CHR 0x22 then
                (if length val < 2 \<or> last val \<noteq> CHR 0x22 then None
                 else Some (Some (key, True, butlast (tl val))))
              else Some (Some (key, False, val)))"

definition conf_parse_line :: "ptr \<Rightarrow> cstring \<Rightarrow> cstate \<Rightarrow> (bool \<times> cstate) option" where
  "conf_parse_line node line s =
     (if node = None \<or> line = [] then Some (False, s)
      else case conf_split_line line of
        None \<Rightarrow> Some (False, s)
      | Some None \<Rightarrow> Some (True, s)
      | Some (Some (key, quoted, val)) \<Rightarrow>
          let (ok, s) = alloc s in
          if \<not> ok then Some (False, s)
          else let (ok, s) = alloc s in
          if \<not> ok then Some (False, s)
          else let (value, s) =
                 (if quoted then
                    (let (ok, s) = alloc s
                     in (if ok then Some \<lparr>cv_v = VString (Some val), cv_len = length val\<rparr> else None, s))
                  else conf_parse_value val s)
               in case value of
                    None \<Rightarrow> Some (False, s)
                  | Some v \<Rightarrow> confignode_path_set_value node (Some key) (Some v) s)"

definition line_end :: "char \<Rightarrow> bool" where
  "line_end c \<longleftrightarrow> c = LF \<or> c = CR"

lemma next_line_shorter:
  "cur \<noteq> [] \<Longrightarrow> length (dropWhile line_end (dropWhile (\<lambda>c. \<not> line_end c) cur)) < length cur"
proof -
  assume "cur \<noteq> []"
  then obtain c r where c: "cur = c # r" by (cases cur) auto
  have d: "length (dropWhile line_end (dropWhile (\<lambda>c. \<not> line_end c) xs)) \<le> length xs" for xs
    using length_dropWhile_le [of line_end "dropWhile (\<lambda>c. \<not> line_end c) xs"]
      length_dropWhile_le [of "\<lambda>c. \<not> line_end c" xs] by linarith
  show ?thesis
    using d [of r] length_dropWhile_le [of line_end r] c by (cases "line_end c") auto
qed

function conf_load_loop :: "ptr \<Rightarrow> cstring \<Rightarrow> cstate \<Rightarrow> (bool \<times> cstate) option" where
  "conf_load_loop root cur s =
     (if cur = [] then Some (True, s)
      else let line = takeWhile (\<lambda>c. \<not> line_end c) cur;
               next = dropWhile line_end (dropWhile (\<lambda>c. \<not> line_end c) cur)
           in do {
             (ok, s) \<leftarrow> (if line = [] then Some (True, s) else conf_parse_line root line s);
             (if \<not> ok then Some (False, s) else conf_load_loop root next s)
           })"
  by pat_completeness auto
termination
  by (relation "measure (\<lambda>(root, cur, s). length cur)") (auto simp: next_line_shorter)

definition configfile_conf_load_string :: "cstring option \<Rightarrow> cstate \<Rightarrow> (ptr \<times> cstate) option" where
  "configfile_conf_load_string buff s =
     (case buff of
        None \<Rightarrow> Some (None, s)
      | Some text \<Rightarrow> do {
          (root, s) \<leftarrow> confignode_new_map s;
          (case root of
             None \<Rightarrow> Some (None, s)
           | Some r \<Rightarrow> do {
               (ok, s) \<leftarrow> conf_load_loop root text s;
               (if ok then Some (root, s) else do { s \<leftarrow> confignode_clean r s; Some (None, s) })
             })
        })"

section \<open>Printing\<close>

text \<open>The growing buffer: its text (so \<open>pos\<close> is the length) and its size.\<close>

record cbuf =
  cb_text :: cstring
  cb_size :: nat

function grow_size :: "nat \<Rightarrow> nat \<Rightarrow> nat" where
  "grow_size new_size needed =
     (if new_size < needed \<and> 0 < new_size then
        (if new_size > SIZE_MAX div 2 then needed else grow_size (new_size * 2) needed)
      else new_size)"
  by pat_completeness auto
termination
  by (relation "measure (\<lambda>(n, m). m - n)") auto

definition conf_append_string :: "cstring \<Rightarrow> cbuf \<times> cstate \<Rightarrow> bool \<times> cbuf \<times> cstate" where
  "conf_append_string str bs =
     (let (b, s) = bs; pos = length (cb_text b); len = length str in
      if pos = SIZE_MAX \<or> len > SIZE_MAX - pos - 1 then (False, b, s)
      else let needed = pos + len + 1 in
      if needed > cb_size b then
        (let (ok, s) = alloc s
         in if ok then (True, \<lparr>cb_text = cb_text b @ str,
                cb_size = grow_size (if cb_size b = 0 then 1 else cb_size b) needed\<rparr>, s)
            else (False, b, s))
      else (True, b\<lparr>cb_text := cb_text b @ str\<rparr>, s))"

text \<open>Appending several strings, stopping at the first failure (\<open>\<and>\<and>\<close> in the source).\<close>

fun conf_append_all :: "cstring list \<Rightarrow> cbuf \<times> cstate \<Rightarrow> bool \<times> cbuf \<times> cstate" where
  "conf_append_all [] bs = (True, bs)"
| "conf_append_all (x # xs) bs =
     (let (ok, bs) = conf_append_string x bs in if ok then conf_append_all xs bs else (False, bs))"

definition conf_key_is_serializable :: "cstring \<Rightarrow> bool \<Rightarrow> bool" where
  "conf_key_is_serializable key root \<longleftrightarrow>
     \<not> (key = [] \<or> strpbrk key [CHR ''.'', CHR ''='', CHR ''['', CR, LF] \<noteq> None) \<and>
     \<not> (isspace (hd key) \<or> isspace (last key) \<or> root \<and> hd key = CHR ''#'')"

text \<open>The pieces printed for a value between \<open>" = "\<close> and the line end: \<open>None\<close> when it cannot be printed.\<close>

definition conf_print_float :: "64 word \<Rightarrow> cstring option" where
  "conf_print_float f =
     (let temp = dbl_print_g 17 f; len = length temp in
      if len = 0 \<or> len \<ge> 64 then None
      else if dbl_finite f \<and> strpbrk temp ''.eE'' = None then
        (if len > 64 - 3 then None else Some (temp @ ''.0''))
      else Some temp)"

definition conf_value_pieces :: "vdata \<Rightarrow> cstring list option" where
  "conf_value_pieces v =
     (case v of
        VString None \<Rightarrow> None
      | VString (Some t) \<Rightarrow> if strpbrk t [CR, LF] \<noteq> None then None else Some [[CHR 0x22], t, [CHR 0x22]]
      | VInt i \<Rightarrow> Some [int_dec i]
      | VFloat f \<Rightarrow> map_option (\<lambda>t. [t]) (conf_print_float f)
      | VBool b \<Rightarrow> Some [if b then ''true'' else ''false''])"

definition conf_save_value :: "cvalue \<Rightarrow> cstring \<Rightarrow> cbuf \<times> cstate \<Rightarrow> bool \<times> cbuf \<times> cstate" where
  "conf_save_value v pre bs =
     (let (ok, bs) = conf_append_all [pre, '' = ''] bs in
      if \<not> ok then (False, bs)
      else case conf_value_pieces (cv_v v) of
        None \<Rightarrow> (False, bs)
      | Some xs \<Rightarrow>
          let (ok, bs) = conf_append_all xs bs in
          if ok then conf_append_string [LF] bs else (False, bs))"

partial_function (option) conf_save_node ::
  "addr \<Rightarrow> cstring \<Rightarrow> cbuf \<times> cstate \<Rightarrow> (bool \<times> cbuf \<times> cstate) option" where
  "conf_save_node node pre bs = do {
     n \<leftarrow> node_at (snd bs) node;
     (case cn_type n of
        TYPE_VALUE \<Rightarrow> do {
          (v, s) \<leftarrow> confignode_value_get (Some node) (snd bs);
          Some (case v of None \<Rightarrow> (False, fst bs, s) | Some v \<Rightarrow> conf_save_value v pre (fst bs, s))
        }
      | TYPE_MAP \<Rightarrow>
          if cn_items n = [] then Some (pre = [], bs)
          else allM (\<lambda>i bs. do {
            c \<leftarrow> node_at (snd bs) i;
            (case cn_key c of
               None \<Rightarrow> Some (False, bs)
             | Some key \<Rightarrow>
                 if cn_parent c \<noteq> Some node \<or> \<not> conf_key_is_serializable key (pre = []) then Some (False, bs)
                 else if pre \<noteq> [] \<and> length pre > SIZE_MAX - length key - 2 then Some (False, bs)
                 else let (ok, s) = alloc (snd bs)
                      in if ok then conf_save_node i (if pre = [] then key else pre @ ''.'' @ key) (fst bs, s)
                         else Some (False, fst bs, s))
          }) (cn_items n) bs
      | TYPE_ARRAY \<Rightarrow>
          if cn_items n = [] then Some (False, bs)
          else allM (\<lambda>i bs. do {
            c \<leftarrow> node_at (snd bs) i;
            (let idx = ''['' @ int_dec (cn_index c) @ '']'' in
             if cn_parent c \<noteq> Some node \<or> cn_index c < 0 then Some (False, bs)
             else if length idx \<ge> 32 then Some (False, bs)
             else if length pre > SIZE_MAX - length idx - 1 then Some (False, bs)
             else let (ok, s) = alloc (snd bs)
                  in if ok then conf_save_node i (pre @ idx) (fst bs, s)
                     else Some (False, fst bs, s))
          }) (cn_items n) bs
      | TYPE_NULL \<Rightarrow> Some (False, bs))
   }"

definition configfile_conf_save_string :: "ptr \<Rightarrow> cstate \<Rightarrow> (cstring option \<times> cstate) option" where
  "configfile_conf_save_string node s =
     (case node of
        None \<Rightarrow> Some (None, s)
      | Some a \<Rightarrow> do {
          n \<leftarrow> node_at s a;
          (if cn_type n \<noteq> TYPE_MAP then Some (None, s)
           else let (ok, s) = alloc s in
             if \<not> ok then Some (None, s)
             else do {
               (ok, b, s) \<leftarrow> conf_save_node a [] (\<lparr>cb_text = [], cb_size = 1024\<rparr>, s);
               Some (if ok then Some (cb_text b) else None, s)
             })
        })"

end
