(* ===== verification/ConfigTree.thy ===== *)
theory ConfigTree
  imports ConfigValue
begin

text \<open>
  Trees in the configuration heap. \<open>holds N par t\<close> says that the nodes \<open>N\<close> contain, below the parent
  \<open>par\<close>, exactly the tree \<open>t\<close>; \<open>erase\<close> forgets the addresses and is the configuration the tree
  stands for. Here: the framing rules, the effect of the index fix-up, and \<open>confignode_clean\<close>.
\<close>

section \<open>Trees\<close>

datatype atree = AT (at_addr: addr) (at_node: cnode) (at_kids: "atree list")

fun taddrs :: "atree \<Rightarrow> addr list" where
  "taddrs (AT a n ks) = a # concat (map taddrs ks)"

fun holds :: "(addr \<Rightarrow> cnode option) \<Rightarrow> ptr \<Rightarrow> atree \<Rightarrow> bool" where
  "holds N par (AT a n ks) \<longleftrightarrow>
     N a = Some n \<and> cn_parent n = par \<and> cn_items n = map at_addr ks \<and> (\<forall>k \<in> set ks. holds N (Some a) k)"

text \<open>The links alone, whatever the other fields are.\<close>

fun linked :: "(addr \<Rightarrow> cnode option) \<Rightarrow> ptr \<Rightarrow> atree \<Rightarrow> bool" where
  "linked N par (AT a n ks) \<longleftrightarrow>
     (\<exists>c. N a = Some c \<and> cn_parent c = par \<and> cn_items c = map at_addr ks) \<and>
     (\<forall>k \<in> set ks. linked N (Some a) k)"

datatype ctree = CNull | CVal cvalue | CArr "ctree list" | CMap "(cstring \<times> ctree) list"

abbreviation at_key :: "atree \<Rightarrow> cstring option" where
  "at_key t \<equiv> cn_key (at_node t)"

abbreviation at_index :: "atree \<Rightarrow> int" where
  "at_index t \<equiv> cn_index (at_node t)"

fun erase :: "atree \<Rightarrow> ctree" where
  "erase (AT a n ks) =
     (case cn_type n of
        TYPE_NULL \<Rightarrow> CNull
      | TYPE_VALUE \<Rightarrow> CVal (cn_value n)
      | TYPE_ARRAY \<Rightarrow> CArr (map erase ks)
      | TYPE_MAP \<Rightarrow> CMap (map (\<lambda>k. (the (at_key k), erase k)) ks))"

text \<open>
  Well-formed trees: an array's elements carry their positions, a map's entries have distinct keys,
  a leaf has no children and a string value has a string.
\<close>

definition kids_ok :: "cnode \<Rightarrow> atree list \<Rightarrow> bool" where
  "kids_ok n ks \<longleftrightarrow>
     (case cn_type n of
        TYPE_NULL \<Rightarrow> ks = []
      | TYPE_VALUE \<Rightarrow> ks = [] \<and> cv_v (cn_value n) \<noteq> VString None
      | TYPE_ARRAY \<Rightarrow> map at_index ks = map int [0..<length ks]
      | TYPE_MAP \<Rightarrow> (\<forall>k \<in> set ks. \<exists>s. at_key k = Some s \<and> cstr s) \<and> distinct (map at_key ks))"

fun twf :: "atree \<Rightarrow> bool" where
  "twf (AT a n ks) \<longleftrightarrow> kids_ok n ks \<and> (\<forall>k \<in> set ks. twf k)"

lemma taddrs_root: "at_addr t \<in> set (taddrs t)"
  by (cases t) simp

lemma taddrs_unfold: "taddrs t = at_addr t # concat (map taddrs (at_kids t))"
  by (cases t) simp

lemma kid_addr_in: "k \<in> set ks \<Longrightarrow> at_addr k \<in> set (concat (map taddrs ks))"
  using taddrs_root by auto

lemma distinct_kids:
  "distinct (concat (map taddrs ks)) \<Longrightarrow> distinct (map at_addr ks)"
proof (induction ks)
  case (Cons k ks)
  have "at_addr k \<notin> set (map at_addr ks)"
  proof
    assume "at_addr k \<in> set (map at_addr ks)"
    then obtain j where "j \<in> set ks" "at_addr j = at_addr k" by auto
    then have "at_addr k \<in> set (concat (map taddrs ks))" using kid_addr_in [of j ks] by simp
    with Cons.prems taddrs_root [of k] show False by auto
  qed
  with Cons show ?case by simp
qed simp

section \<open>Framing\<close>

lemma holds_cong:
  "(\<And>x. x \<in> set (taddrs t) \<Longrightarrow> M x = N x) \<Longrightarrow> holds M par t = holds N par t"
proof (induction t arbitrary: par)
  case (AT a n ks)
  have "holds M (Some a) k = holds N (Some a) k" if "k \<in> set ks" for k
    using AT.IH [OF that, of "Some a"] AT.prems that by auto
  with AT.prems show ?case by simp
qed

lemma linked_cong:
  "(\<And>x. x \<in> set (taddrs t) \<Longrightarrow>
      M x = N x \<or> (\<exists>c i. N x = Some c \<and> M x = Some (c\<lparr>cn_index := i\<rparr>))) \<Longrightarrow>
   linked N par t \<Longrightarrow> linked M par t"
proof (induction t arbitrary: par)
  case (AT a n ks)
  have "linked M (Some a) k" if "k \<in> set ks" for k
    using AT.IH [OF that, of "Some a"] AT.prems that by auto
  moreover have "M a = N a \<or> (\<exists>c i. N a = Some c \<and> M a = Some (c\<lparr>cn_index := i\<rparr>))"
    using AT.prems(1) by simp
  ultimately show ?case using AT.prems(2) by auto
qed

lemma holds_linked: "holds N par t \<Longrightarrow> linked N par t"
  by (induction t arbitrary: par) auto

lemma linked_node: "linked N par t \<Longrightarrow> x \<in> set (taddrs t) \<Longrightarrow> \<exists>c. N x = Some c"
  by (induction t arbitrary: par) auto

lemma linked_root: "linked N par t \<Longrightarrow> \<exists>c. N (at_addr t) = Some c \<and> cn_parent c = par"
  by (cases t) auto

lemma holds_root: "holds N par t \<Longrightarrow> N (at_addr t) = Some (at_node t) \<and> cn_parent (at_node t) = par"
  by (cases t) auto

text \<open>Replacing the record of the root.\<close>

lemma holds_reroot:
  assumes "holds N par (AT a n ks)" "a \<notin> set (concat (map taddrs ks))"
    and "cn_parent m = par'" "cn_items m = cn_items n" "M a = Some m"
    and "\<And>x. x \<in> set (concat (map taddrs ks)) \<Longrightarrow> M x = N x"
  shows "holds M par' (AT a m ks)"
proof -
  have "holds M (Some a) k = holds N (Some a) k" if "k \<in> set ks" for k
    by (rule holds_cong) (use assms(6) that in auto)
  with assms show ?thesis by simp
qed

section \<open>The index fix-up\<close>

lemma node_at_put [simp]: "node_at (put_node a n s) x = (if x = a then Some n else node_at s x)"
  by (simp add: node_at_def put_node_def)

lemma nodes_put [simp]: "nodes (put_node a n s) = (nodes s)(a \<mapsto> n)"
  by (simp add: put_node_def)

lemma put_fields [simp]:
  "cnxt (put_node a n s) = cnxt s" "coom (put_node a n s) = coom s" "ctick (put_node a n s) = ctick s"
  by (simp_all add: put_node_def)

lemma upd_node_eq: "nodes s a = Some n \<Longrightarrow> upd_node a f s = Some (put_node a (f n) s)"
  by (simp add: upd_node_def node_at_def)

text \<open>Nothing changes but some of the indices of the nodes \<open>A\<close>.\<close>

definition idx_only :: "addr set \<Rightarrow> cstate \<Rightarrow> cstate \<Rightarrow> bool" where
  "idx_only A s s' \<longleftrightarrow>
     (\<forall>x. x \<notin> A \<longrightarrow> nodes s' x = nodes s x) \<and>
     (\<forall>x \<in> A. \<exists>c i. nodes s x = Some c \<and> nodes s' x = Some (c\<lparr>cn_index := i\<rparr>)) \<and>
     cnxt s' = cnxt s \<and> coom s' = coom s \<and> ctick s' = ctick s"

lemma idx_only_empty [simp]: "idx_only {} s s"
  by (simp add: idx_only_def)

lemma fixup_loop_idx:
  assumes "\<forall>x \<in> set items. nodes s x \<noteq> None" "distinct items"
  shows "\<exists>s'. fixup_loop a i items s = Some s' \<and> idx_only (set items) s s'"
  using assms
proof (induction items arbitrary: i s)
  case (Cons p ps)
  then obtain c where c: "nodes s p = Some c" by auto
  show ?case
  proof (cases "cn_parent c = Some a")
    case True
    let ?s = "put_node p (c\<lparr>cn_index := i\<rparr>) s"
    have "\<forall>x \<in> set ps. nodes ?s x \<noteq> None" using Cons.prems by auto
    from Cons.IH [OF this] Cons.prems obtain s' where s':
      "fixup_loop a (i + 1) ps ?s = Some s'" "idx_only (set ps) ?s s'" by auto
    then have "idx_only (set (p # ps)) s s'"
      using c Cons.prems by (fastforce simp: idx_only_def split: if_splits)
    with s' True c show ?thesis by (auto simp: node_at_def)
  next
    case False
    from Cons.IH [of s i] Cons.prems obtain s' where s':
      "fixup_loop a i ps s = Some s'" "idx_only (set ps) s s'" by auto
    then have "idx_only (set (p # ps)) s s'"
      using c Cons.prems by (auto simp: idx_only_def intro!: exI [of _ c] exI [of _ "cn_index c"])
    with s' False c show ?thesis by (auto simp: node_at_def)
  qed
qed simp

lemma array_fixup_idx:
  assumes "nodes s a = Some n" "\<forall>x \<in> set (cn_items n). nodes s x \<noteq> None" "distinct (cn_items n)"
  shows "\<exists>s' A. configfile_array_fixup a s = Some s' \<and> idx_only A s s' \<and> A \<subseteq> set (cn_items n)"
proof (cases "cn_type n = TYPE_ARRAY")
  case True
  with assms fixup_loop_idx [OF assms(2,3), of a 0] show ?thesis
    by (auto simp: configfile_array_fixup_def node_at_def)
next
  case False
  with assms show ?thesis
    by (auto simp: configfile_array_fixup_def node_at_def intro: exI [of _ "{}"])
qed

text \<open>The exact effect when the items are children of the array.\<close>

lemma fixup_loop_exact:
  assumes "\<And>x. x \<in> set items \<Longrightarrow> \<exists>c. nodes s x = Some c \<and> cn_parent c = Some a" "distinct items"
  shows "fixup_loop a i items s = Some (s\<lparr>nodes := \<lambda>x. case map_of (zip items [0..<length items]) x of
     None \<Rightarrow> nodes s x
   | Some j \<Rightarrow> map_option (\<lambda>c. c\<lparr>cn_index := i + int j\<rparr>) (nodes s x)\<rparr>)"
  using assms
proof (induction items arbitrary: i s)
  case (Cons p ps)
  then obtain c where c: "nodes s p = Some c" "cn_parent c = Some a" by force
  let ?s = "put_node p (c\<lparr>cn_index := i\<rparr>) s"
  have "\<exists>c. nodes ?s x = Some c \<and> cn_parent c = Some a" if "x \<in> set ps" for x
    using Cons.prems that by (auto simp: c)
  note IH = Cons.IH [OF this, of "i + 1"]
  have z: "map_of (zip (p # ps) [0..<Suc (length ps)]) x =
      (if x = p then Some 0 else map_option Suc (map_of (zip ps [0..<length ps]) x))" for x
  proof -
    have "[0..<Suc (length ps)] = 0 # map Suc [0..<length ps]"
      by (simp add: upt_conv_Cons map_Suc_upt del: upt_Suc)
    moreover have "map_of (zip ps (map Suc js)) x = map_option Suc (map_of (zip ps js) x)" for js
      by (simp add: zip_map2 map_of_map)
    ultimately show ?thesis by (simp del: upt_Suc)
  qed
  have p: "map_of (zip ps [0..<length ps]) p = None"
    using Cons.prems(2) by (simp add: map_of_zip_is_None)
  have "fixup_loop a i (p # ps) s = fixup_loop a (i + 1) ps ?s"
    using c by (simp add: node_at_def)
  also have "\<dots> = Some (?s\<lparr>nodes := \<lambda>x. case map_of (zip ps [0..<length ps]) x of
     None \<Rightarrow> nodes ?s x
   | Some j \<Rightarrow> map_option (\<lambda>c. c\<lparr>cn_index := i + 1 + int j\<rparr>) (nodes ?s x)\<rparr>)"
    using IH Cons.prems(2) by simp
  also have "\<dots> = Some (s\<lparr>nodes := \<lambda>x. case map_of (zip (p # ps) [0..<length (p # ps)]) x of
     None \<Rightarrow> nodes s x
   | Some j \<Rightarrow> map_option (\<lambda>c. c\<lparr>cn_index := i + int j\<rparr>) (nodes s x)\<rparr>)"
    by (intro arg_cong [where f = Some] cstate.equality)
      (auto simp: z fun_eq_iff c p put_node_def add.assoc simp del: upt_Suc map_of_zip_is_None
        split: option.splits)
  finally show ?case .
qed simp

section \<open>Cleaning\<close>

definition clean_pre :: "ptr \<Rightarrow> atree \<Rightarrow> cstate \<Rightarrow> bool" where
  "clean_pre par t s \<longleftrightarrow>
     (case par of
        None \<Rightarrow> True
      | Some p \<Rightarrow> p \<notin> set (taddrs t) \<and> (\<exists>pc. nodes s p = Some pc \<and> distinct (cn_items pc) \<and>
          p \<notin> set (cn_items pc) \<and> set (cn_items pc) \<inter> set (taddrs t) \<subseteq> {at_addr t} \<and>
          (\<forall>i \<in> set (cn_items pc). nodes s i \<noteq> None)))"

definition same_rest :: "cstate \<Rightarrow> cstate \<Rightarrow> bool" where
  "same_rest s s' \<longleftrightarrow> cnxt s' = cnxt s \<and> coom s' = coom s \<and> ctick s' = ctick s"

lemma same_rest_refl [simp]: "same_rest s s"
  by (simp add: same_rest_def)

lemma same_rest_trans: "same_rest s s' \<Longrightarrow> same_rest s' s'' \<Longrightarrow> same_rest s s''"
  by (simp add: same_rest_def)

text \<open>What cleaning the tree \<open>t\<close> below \<open>par\<close> does.\<close>

definition cleaned :: "ptr \<Rightarrow> atree \<Rightarrow> cstate \<Rightarrow> cstate \<Rightarrow> bool" where
  "cleaned par t s s' \<longleftrightarrow> same_rest s s' \<and> (\<forall>x \<in> set (taddrs t). nodes s' x = None) \<and>
     (case par of
        None \<Rightarrow> \<forall>x. x \<notin> set (taddrs t) \<longrightarrow> nodes s' x = nodes s x
      | Some p \<Rightarrow> \<forall>pc. nodes s p = Some pc \<longrightarrow>
          nodes s' p = Some (pc\<lparr>cn_items := remove1 (at_addr t) (cn_items pc)\<rparr>) \<and>
          (\<forall>x. x \<notin> set (taddrs t) \<longrightarrow> x \<noteq> p \<longrightarrow> nodes s' x = nodes s x \<or>
             x \<in> set (cn_items pc) \<and>
             (\<exists>c i. nodes s x = Some c \<and> nodes s' x = Some (c\<lparr>cn_index := i\<rparr>))))"

definition clean_kid :: "addr \<Rightarrow> addr \<Rightarrow> cstate \<Rightarrow> cstate option" where
  "clean_kid a i s = do {
     c \<leftarrow> node_at s i;
     (if cn_parent c \<noteq> Some a then Some s else confignode_clean i s)
   }"

text \<open>The child loop, given that each child can be cleaned.\<close>

lemma clean_kids_loop:
  assumes "\<And>k s. k \<in> set ks \<Longrightarrow> linked (nodes s) (Some a) k \<Longrightarrow> distinct (taddrs k) \<Longrightarrow>
      clean_pre (Some a) k s \<Longrightarrow> \<exists>s'. confignode_clean (at_addr k) s = Some s' \<and> cleaned (Some a) k s s'"
    and "nodes s a = Some c" "cn_items c = map at_addr ks"
    and "\<forall>k \<in> set ks. linked (nodes s) (Some a) k"
    and "distinct (a # concat (map taddrs ks))"
  shows "\<exists>s'. foldM (clean_kid a) (map at_addr ks) s = Some s' \<and> same_rest s s' \<and>
     nodes s' = (\<lambda>x. if x \<in> set (concat (map taddrs ks)) then None
                    else if x = a then Some (c\<lparr>cn_items := []\<rparr>) else nodes s x)"
  using assms
proof (induction ks arbitrary: s c)
  case Nil
  then show ?case by (auto simp: fun_eq_iff)
next
  case (Cons k ks)
  have dk: "distinct (map at_addr (k # ks))"
    by (rule distinct_kids) (use Cons.prems(5) in simp)
  have ak: "at_addr j \<in> set (concat (map taddrs ks))" if "j \<in> set ks" for j
    using kid_addr_in [OF that] .
  have ne: "nodes s i \<noteq> None" if "i \<in> set (cn_items c)" for i
  proof -
    from that Cons.prems(3) obtain j where "j \<in> set (k # ks)" "at_addr j = i" by auto
    with Cons.prems(4) linked_root [of "nodes s" "Some a" j] show ?thesis by auto
  qed
  have root: "nodes s (at_addr k) \<noteq> None" "\<exists>d. nodes s (at_addr k) = Some d \<and> cn_parent d = Some a"
    using Cons.prems(4) linked_root [of "nodes s" "Some a" k] by auto
  have pre: "clean_pre (Some a) k s"
    using Cons.prems(2,3,5) ne ak taddrs_root [of k] by (auto simp: clean_pre_def dk [simplified])
  have "linked (nodes s) (Some a) k" "distinct (taddrs k)" using Cons.prems(4,5) by auto
  from Cons.prems(1) [OF _ this pre] obtain s1 where
    s1: "confignode_clean (at_addr k) s = Some s1" "cleaned (Some a) k s s1" by auto
  let ?c = "c\<lparr>cn_items := map at_addr ks\<rparr>"
  have a1: "nodes s1 a = Some ?c"
    using s1(2) Cons.prems(2,3) by (auto simp: cleaned_def)
  have other: "nodes s1 x = nodes s x \<or>
      (x \<in> set (map at_addr ks) \<and> (\<exists>d i. nodes s x = Some d \<and> nodes s1 x = Some (d\<lparr>cn_index := i\<rparr>)))"
    if "x \<notin> set (taddrs k)" "x \<noteq> a" for x
    using s1(2) Cons.prems(2,3) that taddrs_root [of k] by (auto simp: cleaned_def)
  have "linked (nodes s1) (Some a) j" if j: "j \<in> set ks" for j
  proof (rule linked_cong)
    show "linked (nodes s) (Some a) j" using Cons.prems(4) j by simp
    fix x assume "x \<in> set (taddrs j)"
    with j Cons.prems(5) have "x \<notin> set (taddrs k)" "x \<noteq> a" by auto
    from other [OF this]
    show "nodes s1 x = nodes s x \<or> (\<exists>c i. nodes s x = Some c \<and> nodes s1 x = Some (c\<lparr>cn_index := i\<rparr>))"
      by blast
  qed
  with Cons.IH [of s1 ?c] Cons.prems(1,5) a1 obtain s2 where s2:
    "foldM (clean_kid a) (map at_addr ks) s1 = Some s2" "same_rest s1 s2"
    "nodes s2 = (\<lambda>x. if x \<in> set (concat (map taddrs ks)) then None
                    else if x = a then Some (?c\<lparr>cn_items := []\<rparr>) else nodes s1 x)" by auto
  have "nodes s2 x = (if x \<in> set (concat (map taddrs (k # ks))) then None
                    else if x = a then Some (c\<lparr>cn_items := []\<rparr>) else nodes s x)" for x
  proof (cases "x \<in> set (taddrs k)")
    case True
    with s1(2) Cons.prems(5) s2(3) show ?thesis by (auto simp: cleaned_def)
  next
    case False
    with other [of x] s2(3) ak show ?thesis by auto
  qed
  moreover have "foldM (clean_kid a) (map at_addr (k # ks)) s = Some s2"
    using s1(1) s2(1) root by (auto simp: clean_kid_def node_at_def)
  moreover have "same_rest s s2"
    using s1(2) s2(2) same_rest_trans by (auto simp: cleaned_def)
  ultimately show ?case by (auto simp: fun_eq_iff)
qed

lemma clean_linked:
  assumes "linked (nodes s) par t" "distinct (taddrs t)" "clean_pre par t s"
  shows "\<exists>s'. confignode_clean (at_addr t) s = Some s' \<and> cleaned par t s s'"
  using assms
proof (induction t arbitrary: par s)
  case (AT a n ks)
  have unfold: "confignode_clean a s = do {
     n \<leftarrow> node_at s a;
     s \<leftarrow> (case cn_parent n of
             None \<Rightarrow> Some s
           | Some p \<Rightarrow> do {
               s \<leftarrow> upd_node p (\<lambda>m. m\<lparr>cn_items := remove1 a (cn_items m)\<rparr>) s;
               configfile_array_fixup p s
             });
     n \<leftarrow> node_at s a;
     s \<leftarrow> foldM (clean_kid a) (cn_items n) s;
     Some (del_node a s)
   }" for s
    by (subst confignode_clean.simps) (simp add: clean_kid_def [abs_def])
  from AT.prems(1) obtain c where c: "nodes s a = Some c" "cn_parent c = par" "cn_items c = map at_addr ks"
    by auto
  have dk: "distinct (a # concat (map taddrs ks))" using AT.prems(2) by simp
  have loop: "\<exists>s'. foldM (clean_kid a) (map at_addr ks) r = Some s' \<and> same_rest r s' \<and>
     nodes s' = (\<lambda>x. if x \<in> set (concat (map taddrs ks)) then None
                    else if x = a then Some (c\<lparr>cn_items := []\<rparr>) else nodes r x)"
    if r: "\<And>x. x \<in> set (taddrs (AT a n ks)) \<Longrightarrow> nodes r x = nodes s x" for r
  proof (rule clean_kids_loop [OF AT.IH _ c(3) _ dk])
    show "nodes r a = Some c" using r [of a] c(1) by simp
    show "\<forall>k \<in> set ks. linked (nodes r) (Some a) k"
    proof
      fix k assume k: "k \<in> set ks"
      show "linked (nodes r) (Some a) k"
        by (rule linked_cong [of _ _ "nodes s"]) (use k r AT.prems(1) in auto)
    qed
  qed auto
  show ?case
  proof (cases par)
    case None
    from loop [of s] obtain s1 where s1: "foldM (clean_kid a) (map at_addr ks) s = Some s1"
      "same_rest s s1" "nodes s1 = (\<lambda>x. if x \<in> set (concat (map taddrs ks)) then None
                    else if x = a then Some (c\<lparr>cn_items := []\<rparr>) else nodes s x)" by auto
    then have "cleaned par (AT a n ks) s (del_node a s1)"
      using None by (auto simp: cleaned_def del_node_def same_rest_def)
    moreover have "confignode_clean a s = Some (del_node a s1)"
      using c None s1(1) by (subst unfold) (simp add: node_at_def)
    ultimately show ?thesis by simp
  next
    case (Some p)
    with AT.prems(3) obtain pc where pc: "nodes s p = Some pc" "distinct (cn_items pc)"
      "p \<notin> set (cn_items pc)" "set (cn_items pc) \<inter> set (taddrs (AT a n ks)) \<subseteq> {a}"
      "\<forall>i \<in> set (cn_items pc). nodes s i \<noteq> None" "p \<notin> set (taddrs (AT a n ks))"
      by (auto simp: clean_pre_def)
    let ?pc = "pc\<lparr>cn_items := remove1 a (cn_items pc)\<rparr>"
    let ?s = "put_node p ?pc s"
    have "\<forall>x \<in> set (cn_items ?pc). nodes ?s x \<noteq> None" "distinct (cn_items ?pc)"
      using pc(2,3,5) by (auto dest: notin_set_remove1)
    from array_fixup_idx [of ?s p ?pc, OF _ this] obtain s2 A where s2:
      "configfile_array_fixup p ?s = Some s2" "idx_only A ?s s2" "A \<subseteq> set (cn_items pc) - {a}"
      using pc(2) by auto
    have same: "nodes s2 x = nodes s x" if "x \<in> set (taddrs (AT a n ks))" for x
    proof -
      have "x \<notin> A" "x \<noteq> p" using that s2(3) pc(4,6) by auto
      with s2(2) show ?thesis by (simp add: idx_only_def)
    qed
    from loop [OF same] obtain s3 where s3: "foldM (clean_kid a) (map at_addr ks) s2 = Some s3"
      "same_rest s2 s3" "nodes s3 = (\<lambda>x. if x \<in> set (concat (map taddrs ks)) then None
                    else if x = a then Some (c\<lparr>cn_items := []\<rparr>) else nodes s2 x)" by auto
    have p2: "nodes s2 p = Some ?pc"
      using s2(2,3) pc(3) by (auto simp: idx_only_def)
    have a2: "nodes s2 a = Some c" using same [of a] c(1) by simp
    have "confignode_clean a s = Some (del_node a s3)"
      using c Some pc(1) s2(1) s3(1) a2
      by (subst unfold) (simp add: node_at_def upd_node_def put_node_def)
    moreover have "nodes (del_node a s3) x = nodes s x \<or> x \<in> set (cn_items pc) \<and>
             (\<exists>c i. nodes s x = Some c \<and> nodes (del_node a s3) x = Some (c\<lparr>cn_index := i\<rparr>))"
      if "x \<notin> set (taddrs (AT a n ks))" "x \<noteq> p" for x
    proof -
      have "nodes (del_node a s3) x = nodes s2 x" using that s3(3) by (auto simp: del_node_def)
      moreover have "nodes s2 x = nodes s x" if "x \<notin> A"
        using that s2(2) \<open>x \<noteq> p\<close> by (simp add: idx_only_def)
      moreover have "\<exists>c i. nodes s x = Some c \<and> nodes s2 x = Some (c\<lparr>cn_index := i\<rparr>)" if "x \<in> A"
      proof -
        from that s2(2) obtain c i where "nodes ?s x = Some c" "nodes s2 x = Some (c\<lparr>cn_index := i\<rparr>)"
          unfolding idx_only_def by blast
        with \<open>x \<noteq> p\<close> show ?thesis by auto
      qed
      ultimately show ?thesis using s2(3) by (cases "x \<in> A") auto
    qed
    moreover have "nodes (del_node a s3) p = Some ?pc"
      using p2 pc(6) s3(3) by (auto simp: del_node_def)
    moreover have "same_rest s (del_node a s3)"
      using s2(2) s3(2) by (auto simp: del_node_def same_rest_def idx_only_def)
    moreover have "\<forall>x \<in> set (taddrs (AT a n ks)). nodes (del_node a s3) x = None"
      using s3(3) by (auto simp: del_node_def)
    ultimately show ?thesis using Some pc(1) by (auto simp: cleaned_def)
  qed
qed

text \<open>Cleaning a tree without a parent removes exactly its nodes.\<close>

lemma clean_root:
  assumes "holds (nodes s) None t" "distinct (taddrs t)"
  shows "confignode_clean (at_addr t) s =
     Some (s\<lparr>nodes := \<lambda>x. if x \<in> set (taddrs t) then None else nodes s x\<rparr>)"
proof -
  from clean_linked [OF holds_linked [OF assms(1)] assms(2)] obtain s' where
    s': "confignode_clean (at_addr t) s = Some s'" "cleaned None t s s'" by (auto simp: clean_pre_def)
  then have "s' = s\<lparr>nodes := \<lambda>x. if x \<in> set (taddrs t) then None else nodes s x\<rparr>"
    by (intro cstate.equality) (auto simp: cleaned_def same_rest_def fun_eq_iff)
  with s' show ?thesis by simp
qed

end
