(* ===== verification/ConfigCopy.thy ===== *)
theory ConfigCopy
  imports ConfigTree
begin

text \<open>
  \<open>confignode_copy\<close>: on every well-formed tree it returns; it either returns a new tree with the same
  content in freshly allocated nodes, or \<open>NULL\<close> after a failed allocation with the heap as it was.
  The step lemmas for appending to an array and setting a map entry are shared with the merge.
\<close>

section \<open>Allocation\<close>

definition wf_state :: "cstate \<Rightarrow> bool" where
  "wf_state s \<longleftrightarrow> (\<forall>a \<ge> cnxt s. nodes s a = None)"

definition failed :: "cstate \<Rightarrow> cstate \<Rightarrow> bool" where
  "failed s s' \<longleftrightarrow> (\<exists>t. ctick s \<le> t \<and> t < ctick s' \<and> coom s t)"

text \<open>The counters only grow, and the state stays well-formed.\<close>

definition progress :: "cstate \<Rightarrow> cstate \<Rightarrow> bool" where
  "progress s s' \<longleftrightarrow> cnxt s \<le> cnxt s' \<and> ctick s \<le> ctick s' \<and> coom s' = coom s \<and> wf_state s'"

lemma progress_trans: "progress s s' \<Longrightarrow> progress s' s'' \<Longrightarrow> progress s s''"
  by (auto simp: progress_def)

lemma progress_refl: "wf_state s \<Longrightarrow> progress s s"
  by (simp add: progress_def)

lemma failed_mono:
  "failed s' s'' \<Longrightarrow> progress s s' \<Longrightarrow> progress s'' s''' \<Longrightarrow> failed s s'''"
  by (auto simp: failed_def progress_def) (meson le_trans less_le_trans)

lemma failed_left: "failed s s' \<Longrightarrow> progress s' s'' \<Longrightarrow> failed s s''"
  by (fastforce simp: failed_def progress_def)

lemma failed_right: "failed s' s'' \<Longrightarrow> progress s s' \<Longrightarrow> failed s s''"
  by (auto simp: failed_def progress_def) (meson le_trans)

definition tick :: "cstate \<Rightarrow> cstate" where
  "tick s = s\<lparr>ctick := Suc (ctick s)\<rparr>"

lemma tick_simps [simp]:
  "nodes (tick s) = nodes s" "cnxt (tick s) = cnxt s" "coom (tick s) = coom s" "ctick (tick s) = Suc (ctick s)"
  by (simp_all add: tick_def)

lemma alloc_tick: "alloc s = (\<not> coom s (ctick s), tick s)"
  by (simp add: alloc_def tick_def)

lemma progress_tick: "wf_state s \<Longrightarrow> progress s (tick s)"
  by (simp add: progress_def wf_state_def)

lemma failed_tick: "coom s (ctick s) \<Longrightarrow> failed s (tick s)"
  by (auto simp: failed_def)

definition fresh_of :: "ntype \<Rightarrow> cstate \<Rightarrow> cstate" where
  "fresh_of ty s = put_node (cnxt s) (fresh_node\<lparr>cn_type := ty\<rparr>) ((tick s)\<lparr>cnxt := Suc (cnxt s)\<rparr>)"

lemma fresh_of_simps [simp]:
  "nodes (fresh_of ty s) = (nodes s)(cnxt s \<mapsto> fresh_node\<lparr>cn_type := ty\<rparr>)"
  "cnxt (fresh_of ty s) = Suc (cnxt s)" "coom (fresh_of ty s) = coom s" "ctick (fresh_of ty s) = Suc (ctick s)"
  by (simp_all add: fresh_of_def)

lemma confignode_new_eq:
  "confignode_new s = (if coom s (ctick s) then (None, tick s) else (Some (cnxt s), fresh_of TYPE_NULL s))"
  by (simp add: confignode_new_def alloc_tick fresh_of_def fresh_node_def)

lemma new_typed_eq:
  "new_typed ty s = Some (if coom s (ctick s) then (None, tick s) else (Some (cnxt s), fresh_of ty s))"
  by (simp add: new_typed_def confignode_new_eq upd_node_def node_at_def put_node_def fresh_of_def)

lemma wf_fresh_of: "wf_state s \<Longrightarrow> wf_state (fresh_of ty s)"
  by (simp add: wf_state_def)

lemma progress_fresh_of: "wf_state s \<Longrightarrow> progress s (fresh_of ty s)"
  by (simp add: progress_def wf_fresh_of)

section \<open>Trees built since a state\<close>

definition built :: "cstate \<Rightarrow> cstate \<Rightarrow> atree \<Rightarrow> bool" where
  "built s0 s t \<longleftrightarrow> holds (nodes s) None t \<and> twf t \<and> distinct (taddrs t) \<and>
     set (taddrs t) \<subseteq> {cnxt s0..<cnxt s} \<and> (\<forall>x. x \<notin> set (taddrs t) \<longrightarrow> nodes s x = nodes s0 x)"

text \<open>The result of a copy.\<close>

definition copied :: "cstate \<Rightarrow> ctree \<Rightarrow> ptr \<Rightarrow> cstate \<Rightarrow> bool" where
  "copied s0 c r s \<longleftrightarrow> progress s0 s \<and>
     (case r of
        None \<Rightarrow> nodes s = nodes s0 \<and> failed s0 s
      | Some a \<Rightarrow> \<exists>t. at_addr t = a \<and> built s0 s t \<and> erase t = c)"

lemma fresh_built:
  "wf_state s \<Longrightarrow> ty = TYPE_NULL \<or> ty = TYPE_ARRAY \<or> ty = TYPE_MAP \<Longrightarrow>
   built s (fresh_of ty s) (AT (cnxt s) (fresh_node\<lparr>cn_type := ty\<rparr>) [])"
  by (auto simp: built_def kids_ok_def fresh_node_def)

text \<open>Cleaning what was built gives the heap back.\<close>

lemma clean_built:
  assumes "built s0 s t" "wf_state s0"
  shows "confignode_clean (at_addr t) s = Some (s\<lparr>nodes := nodes s0\<rparr>)"
proof -
  have "(\<lambda>x. if x \<in> set (taddrs t) then None else nodes s x) = nodes s0"
    using assms by (auto simp: built_def wf_state_def fun_eq_iff subset_iff)
  with clean_root [of s t] assms show ?thesis by (simp add: built_def)
qed

lemma progress_reset:
  "progress s0 s \<Longrightarrow> wf_state s0 \<Longrightarrow> progress s0 (s\<lparr>nodes := nodes s0\<rparr>)"
  by (simp add: progress_def wf_state_def)

lemma failed_reset: "failed s0 s \<Longrightarrow> failed s0 (s\<lparr>nodes := N\<rparr>)"
  by (simp add: failed_def)

section \<open>Appending and setting\<close>

lemma append_holds:
  assumes "holds N par (AT a n ds)" "holds N None (AT b m js)"
    and "distinct (taddrs (AT a n ds) @ taddrs (AT b m js))"
    and "cn_parent m' = Some a" "cn_items m' = cn_items m"
  shows "holds (N(a \<mapsto> n\<lparr>cn_items := cn_items n @ [b]\<rparr>, b \<mapsto> m')) par
     (AT a (n\<lparr>cn_items := cn_items n @ [b]\<rparr>) (ds @ [AT b m' js]))"
proof -
  let ?M = "N(a \<mapsto> n\<lparr>cn_items := cn_items n @ [b]\<rparr>, b \<mapsto> m')"
  have "holds ?M (Some a) d" if "d \<in> set ds" for d
  proof -
    have "holds ?M (Some a) d = holds N (Some a) d"
      by (rule holds_cong) (use assms(3) that in auto)
    with assms(1) that show ?thesis by simp
  qed
  moreover have "holds ?M (Some a) (AT b m' js)"
    by (rule holds_reroot [OF assms(2)]) (use assms(3,4,5) in auto)
  moreover have "a \<noteq> b" using assms(3) by auto
  ultimately show ?thesis using assms(1,2) by auto
qed

lemma array_append_step:
  assumes "holds (nodes s) par (AT a n ds)" "holds (nodes s) None (AT b m js)"
    and "distinct (taddrs (AT a n ds) @ taddrs (AT b m js))"
    and "cn_type n = TYPE_ARRAY" "map at_index ds = map int [0..<length ds]"
  shows "confignode_array_append (Some a) (Some b) s = Some
     (if coom s (ctick s) then (False, tick s)
      else (True, (tick s)\<lparr>nodes := (nodes s)(a \<mapsto> n\<lparr>cn_items := cn_items n @ [b]\<rparr>,
              b \<mapsto> m\<lparr>cn_parent := Some a, cn_index := int (length ds)\<rparr>)\<rparr>))"
proof (cases "coom s (ctick s)")
  case True
  with assms show ?thesis
    by (simp add: confignode_array_append_def node_at_def alloc_tick)
next
  case False
  let ?n = "n\<lparr>cn_items := cn_items n @ [b]\<rparr>" and ?m = "m\<lparr>cn_parent := Some a\<rparr>"
  let ?s = "put_node b ?m (put_node a ?n (tick s))"
  have ab: "a \<noteq> b" using assms(3) by auto
  have items: "cn_items ?n = map at_addr ds @ [b]" using assms(1) by simp
  have node: "nodes ?s (at_addr d) = Some (at_node d) \<and> cn_parent (at_node d) = Some a \<and>
      at_addr d \<noteq> b \<and> at_addr d \<noteq> a" if "d \<in> set ds" for d
  proof -
    have "holds (nodes s) (Some a) d" using assms(1) that by simp
    moreover have "at_addr d \<noteq> b" "at_addr d \<noteq> a"
      using assms(3) that taddrs_root [of d] by auto
    ultimately show ?thesis using holds_root [of "nodes s" "Some a" d] by simp
  qed
  have par: "\<exists>c. nodes ?s x = Some c \<and> cn_parent c = Some a" if "x \<in> set (cn_items ?n)" for x
  proof -
    from that have "x = b \<or> (\<exists>d \<in> set ds. x = at_addr d)" unfolding items by auto
    then show ?thesis
    proof (elim disjE bexE)
      fix d assume "d \<in> set ds" "x = at_addr d"
      with node [OF this(1)] show ?thesis by blast
    qed simp
  qed
  have "distinct (map at_addr ds)" by (rule distinct_kids) (use assms(3) in simp)
  then have dist: "distinct (cn_items ?n)"
    unfolding items using node by auto
  define zz where "zz = map_of (zip (cn_items ?n) [0..<length (cn_items ?n)])"
  have z: "(case zz x of None \<Rightarrow> nodes ?s x
        | Some j \<Rightarrow> map_option (\<lambda>c. c\<lparr>cn_index := 0 + int j\<rparr>) (nodes ?s x)) =
      ((nodes s)(a \<mapsto> ?n, b \<mapsto> m\<lparr>cn_parent := Some a, cn_index := int (length ds)\<rparr>)) x" for x
  proof (cases "zz x")
    case None
    then have "x \<noteq> b" by (auto simp: zz_def split: if_splits)
    with None show ?thesis by simp
  next
    case (Some j)
    then have j: "j < length (cn_items ?n)" "x = cn_items ?n ! j"
      by (auto dest!: map_of_SomeD simp: in_set_zip zz_def simp del: cnode.simps upt_Suc)
    show ?thesis
    proof (cases "j < length ds")
      case True
      with j have x: "x = at_addr (ds ! j)" by (simp add: items nth_append del: cnode.simps)
      have "at_index (ds ! j) = int j"
        using arg_cong [OF assms(5), of "\<lambda>l. l ! j"] True by simp
      then have "(at_node (ds ! j))\<lparr>cn_index := int j\<rparr> = at_node (ds ! j)" by simp
      moreover have "nodes s x = Some (at_node (ds ! j))" "x \<noteq> b" "x \<noteq> a"
        using node [of "ds ! j"] True x by (auto split: if_splits)
      ultimately show ?thesis using Some ab by simp
    next
      case False
      with j have "j = length ds" "x = b" by (auto simp: nth_append items simp del: cnode.simps)
      with Some ab show ?thesis by simp
    qed
  qed
  let ?N = "(nodes s)(a \<mapsto> ?n, b \<mapsto> m\<lparr>cn_parent := Some a, cn_index := int (length ds)\<rparr>)"
  have "fixup_loop a 0 (cn_items ?n) ?s = Some (?s\<lparr>nodes := ?N\<rparr>)"
    using fixup_loop_exact [OF par dist, of 0] unfolding zz_def [symmetric] ext [OF z] .
  moreover have "?s\<lparr>nodes := ?N\<rparr> = (tick s)\<lparr>nodes := ?N\<rparr>" by (simp add: put_node_def)
  ultimately have "configfile_array_fixup a ?s = Some ((tick s)\<lparr>nodes := ?N\<rparr>)"
    using ab assms(4) by (simp add: configfile_array_fixup_def)
  with assms False ab show ?thesis
    by (simp add: confignode_array_append_def node_at_def alloc_tick upd_node_def)
qed

lemma find_item_kids:
  assumes "\<And>d. d \<in> set ds \<Longrightarrow> nodes s (at_addr d) = Some (at_node d)"
  shows "find_item P (map at_addr ds) s = Some (map_option at_addr (find (\<lambda>d. P (at_addr d) (at_node d)) ds))"
  using assms by (induction ds) (auto simp: node_at_def)

lemma find_cong_set: "(\<And>d. d \<in> set ds \<Longrightarrow> P d = Q d) \<Longrightarrow> find P ds = find Q ds"
  by (induction ds) auto

lemma map_find_child:
  assumes "holds (nodes s) par (AT a n ds)" "cn_type n = TYPE_MAP" "kids_ok n ds" "cstr k"
  shows "find_item (is_key_child a k) (cn_items n) s =
     Some (map_option at_addr (find (\<lambda>d. at_key d = Some k) ds))"
proof -
  have d: "nodes s (at_addr d) = Some (at_node d) \<and> cn_parent (at_node d) = Some a" if "d \<in> set ds" for d
    using assms(1) that holds_root [of "nodes s" "Some a" d] by auto
  have "is_key_child a k (at_addr d) (at_node d) \<longleftrightarrow> at_key d = Some k" if "d \<in> set ds" for d
  proof -
    from assms(2,3) that obtain j where "at_key d = Some j" "cstr j" by (auto simp: kids_ok_def)
    with d [OF that] assms(4) show ?thesis
      by (auto simp: is_key_child_def strcmp_0_iff)
  qed
  then have "find (\<lambda>d. is_key_child a k (at_addr d) (at_node d)) ds = find (\<lambda>d. at_key d = Some k) ds"
    by (rule find_cong_set)
  with find_item_kids [of ds s "is_key_child a k"] d assms(1) show ?thesis by simp
qed

lemma map_get_child:
  assumes "holds (nodes s) par (AT a n ds)" "cn_type n = TYPE_MAP" "kids_ok n ds" "cstr k"
  shows "confignode_map_get (Some a) (Some k) s = Some (map_option at_addr (find (\<lambda>d. at_key d = Some k) ds))"
  using map_find_child [OF assms] assms(1,2) by (simp add: confignode_map_get_def node_at_def)

lemma find_item_tick [simp]: "find_item P ps (tick s) = find_item P ps s"
  by (induction ps) (simp_all add: node_at_def cong: if_cong)

lemma map_set_step:
  assumes "holds (nodes s) par (AT a n ds)" "holds (nodes s) None (AT b m js)"
    and "distinct (taddrs (AT a n ds) @ taddrs (AT b m js))"
    and "cn_type n = TYPE_MAP" "kids_ok n ds" "cstr k" "\<forall>d \<in> set ds. at_key d \<noteq> Some k"
  shows "confignode_map_set (Some a) (Some k) (Some b) s = Some
     (if coom s (ctick s) then (False, tick s)
      else if coom s (Suc (ctick s)) then (False, tick (tick s))
      else (True, (tick (tick s))\<lparr>nodes := (nodes s)(a \<mapsto> n\<lparr>cn_items := cn_items n @ [b]\<rparr>,
              b \<mapsto> m\<lparr>cn_key := Some k, cn_parent := Some a\<rparr>)\<rparr>))"
proof -
  have "find (\<lambda>d. at_key d = Some k) ds = None"
    using assms(7) by (auto simp: find_None_iff)
  with map_find_child [OF assms(1,4,5,6)]
  have f: "find_item (is_key_child a k) (cn_items n) s = Some None" by simp
  have "a \<noteq> b" using assms(3) by auto
  with f assms show ?thesis
    by (auto simp: confignode_map_set_def node_at_def alloc_tick upd_node_def put_node_def)
qed

section \<open>The copy\<close>

definition copy_item_array :: "addr \<Rightarrow> addr \<Rightarrow> addr \<Rightarrow> cstate \<Rightarrow> (bool \<times> cstate) option" where
  "copy_item_array node a i s = do {
     c \<leftarrow> node_at s i;
     (if cn_parent c \<noteq> Some node then Some (False, s)
      else do {
        (cp, s) \<leftarrow> confignode_copy i s;
        (case cp of
           None \<Rightarrow> Some (False, s)
         | Some cp' \<Rightarrow> do {
             (r, s) \<leftarrow> confignode_array_append (Some a) cp s;
             (if r then Some (True, s)
              else do { s \<leftarrow> confignode_clean cp' s; Some (False, s) })
           })
      })
   }"

definition copy_item_map :: "addr \<Rightarrow> addr \<Rightarrow> addr \<Rightarrow> cstate \<Rightarrow> (bool \<times> cstate) option" where
  "copy_item_map node m i s = do {
     c \<leftarrow> node_at s i;
     (if cn_parent c \<noteq> Some node \<or> cn_key c = None then Some (False, s)
      else do {
        (cp, s) \<leftarrow> confignode_copy i s;
        (case cp of
           None \<Rightarrow> Some (False, s)
         | Some cp' \<Rightarrow> do {
             (r, s) \<leftarrow> confignode_map_set (Some m) (cn_key c) cp s;
             (if r then Some (True, s)
              else do { s \<leftarrow> confignode_clean cp' s; Some (False, s) })
           })
      })
   }"

definition copy_loop :: "(addr \<Rightarrow> cstate \<Rightarrow> (bool \<times> cstate) option) \<Rightarrow> addr \<Rightarrow> addr list \<Rightarrow>
    cstate \<Rightarrow> (ptr \<times> cstate) option" where
  "copy_loop body a items s = do {
     (ok, s) \<leftarrow> allM body items s;
     (if ok then Some (Some a, s) else do { s \<leftarrow> confignode_clean a s; Some (None, s) })
   }"

lemma confignode_copy_array:
  assumes "nodes s node = Some n" "cn_type n = TYPE_ARRAY"
  shows "confignode_copy node s =
     (if coom s (ctick s) then Some (None, tick s)
      else copy_loop (copy_item_array node (cnxt s)) (cnxt s) (cn_items n) (fresh_of TYPE_ARRAY s))"
  using assms
  by (subst confignode_copy.simps)
    (simp add: node_at_def confignode_new_array_def new_typed_eq copy_loop_def
      copy_item_array_def [abs_def])

lemma confignode_copy_map:
  assumes "nodes s node = Some n" "cn_type n = TYPE_MAP"
  shows "confignode_copy node s =
     (if coom s (ctick s) then Some (None, tick s)
      else copy_loop (copy_item_map node (cnxt s)) (cnxt s) (cn_items n) (fresh_of TYPE_MAP s))"
  using assms
  by (subst confignode_copy.simps)
    (simp add: node_at_def confignode_new_map_def new_typed_eq copy_loop_def
      copy_item_map_def [abs_def])

text \<open>One tree joins another that is being built.\<close>

lemma built_join:
  assumes "built s0 s (AT a n ds)" "built s s1 (AT b m js)" "wf_state s0" "wf_state s"
    and "cn_parent m' = Some a" "cn_items m' = cn_items m" "cn_type m' = cn_type m" "cn_value m' = cn_value m"
    and "nodes s2 = (nodes s1)(a \<mapsto> n\<lparr>cn_items := cn_items n @ [b]\<rparr>, b \<mapsto> m')" "cnxt s1 \<le> cnxt s2"
    and "cnxt s0 \<le> cnxt s" "cnxt s \<le> cnxt s1"
    and "kids_ok (n\<lparr>cn_items := cn_items n @ [b]\<rparr>) (ds @ [AT b m' js])"
  shows "built s0 s2 (AT a (n\<lparr>cn_items := cn_items n @ [b]\<rparr>) (ds @ [AT b m' js]))"
proof -
  let ?A = "AT a n ds" and ?B = "AT b m js"
  have sep: "set (taddrs ?A) \<inter> set (taddrs ?B) = {}"
    using assms(1,2) by (fastforce simp: built_def)
  have "holds (nodes s1) None ?A"
  proof -
    have "holds (nodes s1) None ?A = holds (nodes s) None ?A"
    proof (rule holds_cong)
      fix x assume "x \<in> set (taddrs ?A)"
      with sep have "x \<notin> set (taddrs ?B)" by blast
      with assms(2) show "nodes s1 x = nodes s x" unfolding built_def by blast
    qed
    with assms(1) show ?thesis by (simp add: built_def)
  qed
  moreover have dist: "distinct (taddrs ?A @ taddrs ?B)"
    using assms(1,2) sep by (simp add: built_def del: taddrs.simps)
  ultimately have "holds (nodes s2) None (AT a (n\<lparr>cn_items := cn_items n @ [b]\<rparr>) (ds @ [AT b m' js]))"
    using append_holds [of "nodes s1" None a n ds b m js m'] assms(2,5,6,9) by (simp add: built_def)
  moreover have "twf (AT a (n\<lparr>cn_items := cn_items n @ [b]\<rparr>) (ds @ [AT b m' js]))"
    using assms(1,2,7,8,13) by (auto simp: built_def kids_ok_def split: ntype.splits)
  moreover have "distinct (taddrs (AT a (n\<lparr>cn_items := cn_items n @ [b]\<rparr>) (ds @ [AT b m' js])))"
    using dist by auto
  moreover have "set (taddrs (AT a (n\<lparr>cn_items := cn_items n @ [b]\<rparr>) (ds @ [AT b m' js]))) \<subseteq> {cnxt s0..<cnxt s2}"
    using assms(1,2,10,11,12) by (fastforce simp: built_def)
  moreover have "nodes s2 x = nodes s0 x"
    if "x \<notin> set (taddrs (AT a (n\<lparr>cn_items := cn_items n @ [b]\<rparr>) (ds @ [AT b m' js])))" for x
  proof -
    have "nodes s2 x = nodes s1 x" using that assms(9) by auto
    also have "\<dots> = nodes s x" using that assms(2) by (auto simp: built_def)
    also have "\<dots> = nodes s0 x" using that assms(1) by (auto simp: built_def)
    finally show ?thesis .
  qed
  ultimately show ?thesis by (simp add: built_def)
qed

text \<open>An element \<open>d\<close> of the new container stands for the element \<open>k\<close> of the source.\<close>

definition copyrel :: "ntype \<Rightarrow> atree \<Rightarrow> atree \<Rightarrow> bool" where
  "copyrel ty k d \<longleftrightarrow> erase d = erase k \<and> (ty = TYPE_MAP \<longrightarrow> at_key d = at_key k)"

definition source_ok :: "cstate \<Rightarrow> addr \<Rightarrow> atree \<Rightarrow> bool" where
  "source_ok s0 node k \<longleftrightarrow> holds (nodes s0) (Some node) k \<and> twf k \<and> set (taddrs k) \<subseteq> {..<cnxt s0}"

definition copies :: "atree \<Rightarrow> bool" where
  "copies k \<longleftrightarrow> (\<forall>s par. wf_state s \<longrightarrow> holds (nodes s) par k \<longrightarrow>
     (\<exists>r s'. confignode_copy (at_addr k) s = Some (r, s') \<and> copied s (erase k) r s'))"

text \<open>What one turn of a copying loop does to the container \<open>AT a n ds\<close>.\<close>

definition turn_ok :: "cstate \<Rightarrow> addr \<Rightarrow> ntype \<Rightarrow> atree list \<Rightarrow> cstate \<Rightarrow> bool \<times> cstate \<Rightarrow> (atree \<Rightarrow> bool) \<Rightarrow> bool" where
  "turn_ok s0 a ty ds s res good \<longleftrightarrow>
     (case res of (ok, s') \<Rightarrow> progress s s' \<and>
        (\<exists>n'. cn_type n' = ty \<and>
           (if ok then \<exists>d. good d \<and> built s0 s' (AT a n' (ds @ [d]))
            else built s0 s' (AT a n' ds) \<and> failed s s')))"

lemma source_now:
  assumes "built s0 s t" "source_ok s0 node k"
  shows "holds (nodes s) (Some node) k"
proof -
  have "holds (nodes s) (Some node) k = holds (nodes s0) (Some node) k"
  proof (rule holds_cong)
    fix x assume "x \<in> set (taddrs k)"
    with assms have "x \<notin> set (taddrs t)" by (fastforce simp: built_def source_ok_def)
    with assms(1) show "nodes s x = nodes s0 x" by (simp add: built_def)
  qed
  with assms(2) show ?thesis by (simp add: source_ok_def)
qed

lemma built_after_fail:
  assumes "built s0 s t" "nodes s' = nodes s" "cnxt s \<le> cnxt s'"
  shows "built s0 s' t"
  using assms by (fastforce simp: built_def)

text \<open>Dropping a finished copy \<open>b\<close> after the container refused it.\<close>

lemma drop_copy:
  assumes "built s s1 (AT b m js)" "progress s s1" "wf_state s" "s2 = tick s1 \<or> s2 = tick (tick s1)" "failed s s2"
  shows "\<exists>s3. confignode_clean b s2 = Some s3 \<and> nodes s3 = nodes s \<and> progress s s3 \<and> failed s s3"
proof -
  have "built s s2 (AT b m js)" using assms(1,4) by (auto simp: built_def)
  from clean_built [OF this assms(3)] have "confignode_clean b s2 = Some (s2\<lparr>nodes := nodes s\<rparr>)" by simp
  moreover have "progress s s2" using assms(2,4) by (auto simp: progress_def wf_state_def)
  ultimately show ?thesis
    using progress_reset [OF _ assms(3)] failed_reset [OF assms(5)] by auto
qed

lemma copy_turn_array:
  assumes "copies k" "source_ok s0 node k" "built s0 s (AT a n ds)" "cn_type n = TYPE_ARRAY"
    and "progress s0 s" "wf_state s0"
  shows "\<exists>res. copy_item_array node a (at_addr k) s = Some res \<and>
     turn_ok s0 a TYPE_ARRAY ds s res (copyrel TYPE_ARRAY k)"
proof -
  have wf: "wf_state s" using assms(5) by (simp add: progress_def)
  have src: "holds (nodes s) (Some node) k" by (rule source_now [OF assms(3,2)])
  with assms(1) wf obtain r s1 where r: "confignode_copy (at_addr k) s = Some (r, s1)" "copied s (erase k) r s1"
    unfolding copies_def by blast
  have p1: "progress s s1" using r(2) by (simp add: copied_def)
  from src have c: "node_at s (at_addr k) = Some (at_node k)" "cn_parent (at_node k) = Some node"
    using holds_root [OF src] by (simp_all add: node_at_def)
  show ?thesis
  proof (cases r)
    case None
    with r(2) have "nodes s1 = nodes s" "failed s s1" by (auto simp: copied_def)
    with built_after_fail [OF assms(3)] p1 assms(4) have "turn_ok s0 a TYPE_ARRAY ds s (False, s1) (copyrel TYPE_ARRAY k)"
      by (auto simp: turn_ok_def progress_def)
    with r c None show ?thesis by (auto simp: copy_item_array_def)
  next
    case (Some b)
    with r(2) obtain u where u: "at_addr u = b" "built s s1 u" "erase u = erase k"
      by (auto simp: copied_def)
    obtain m js where "u = AT b m js" using u(1) by (cases u) auto
    with u have b: "built s s1 (AT b m js)" "erase (AT b m js) = erase k" by simp_all
    have sep: "set (taddrs (AT a n ds)) \<inter> set (taddrs (AT b m js)) = {}"
      using assms(3) b(1) by (fastforce simp: built_def)
    have hA: "holds (nodes s1) None (AT a n ds)"
    proof -
      have "holds (nodes s1) None (AT a n ds) = holds (nodes s) None (AT a n ds)"
      proof (rule holds_cong)
        fix x assume "x \<in> set (taddrs (AT a n ds))"
        with sep have "x \<notin> set (taddrs (AT b m js))" by blast
        with b(1) show "nodes s1 x = nodes s x" unfolding built_def by blast
      qed
      with assms(3) show ?thesis by (simp add: built_def)
    qed
    have dist: "distinct (taddrs (AT a n ds) @ taddrs (AT b m js))"
      using assms(3) b(1) sep by (simp add: built_def del: taddrs.simps)
    have hB: "holds (nodes s1) None (AT b m js)" using b(1) by (simp add: built_def)
    have idx: "map at_index ds = map int [0..<length ds]"
      using assms(3,4) by (simp add: built_def kids_ok_def)
    note step = array_append_step [OF hA hB dist assms(4) idx]
    show ?thesis
    proof (cases "coom s1 (ctick s1)")
      case True
      then have "failed s (tick s1)"
        using failed_right [OF failed_tick [OF True] p1] by simp
      from drop_copy [OF b(1) p1 wf _ this] obtain s3 where s3: "confignode_clean b (tick s1) = Some s3"
        "nodes s3 = nodes s" "progress s s3" "failed s s3" by auto
      with built_after_fail [OF assms(3)] assms(4) have "turn_ok s0 a TYPE_ARRAY ds s (False, s3) (copyrel TYPE_ARRAY k)"
        by (auto simp: turn_ok_def progress_def)
      with r c Some step True s3(1) show ?thesis by (auto simp: copy_item_array_def)
    next
      case False
      let ?n = "n\<lparr>cn_items := cn_items n @ [b]\<rparr>"
      let ?m = "m\<lparr>cn_parent := Some a, cn_index := int (length ds)\<rparr>"
      let ?s = "(tick s1)\<lparr>nodes := (nodes s1)(a \<mapsto> ?n, b \<mapsto> ?m)\<rparr>"
      have "built s0 ?s (AT a ?n (ds @ [AT b ?m js]))"
        by (rule built_join [OF assms(3) b(1) assms(6) wf])
          (use assms(4,5) p1 idx in \<open>auto simp: progress_def kids_ok_def\<close>)
      moreover have "copyrel TYPE_ARRAY k (AT b ?m js)"
        using b(2) by (simp add: copyrel_def cong: ntype.case_cong)
      moreover have "progress s ?s"
        using p1 hA hB assms(3) b(1) by (auto simp: progress_def wf_state_def built_def)
      ultimately have "turn_ok s0 a TYPE_ARRAY ds s (True, ?s) (copyrel TYPE_ARRAY k)"
        using assms(4) unfolding turn_ok_def by (auto intro!: exI [of _ ?n])
      with r c Some step False show ?thesis by (auto simp: copy_item_array_def)
    qed
  qed
qed

lemma copy_turn_map:
  assumes "copies k" "source_ok s0 node k" "built s0 s (AT a n ds)" "cn_type n = TYPE_MAP"
    and "progress s0 s" "wf_state s0" "at_key k = Some key" "cstr key" "\<forall>d \<in> set ds. at_key d \<noteq> Some key"
  shows "\<exists>res. copy_item_map node a (at_addr k) s = Some res \<and>
     turn_ok s0 a TYPE_MAP ds s res (copyrel TYPE_MAP k)"
proof -
  have wf: "wf_state s" using assms(5) by (simp add: progress_def)
  have src: "holds (nodes s) (Some node) k" by (rule source_now [OF assms(3,2)])
  with assms(1) wf obtain r s1 where r: "confignode_copy (at_addr k) s = Some (r, s1)" "copied s (erase k) r s1"
    unfolding copies_def by blast
  have p1: "progress s s1" using r(2) by (simp add: copied_def)
  from src have c: "node_at s (at_addr k) = Some (at_node k)" "cn_parent (at_node k) = Some node"
    using holds_root [OF src] by (simp_all add: node_at_def)
  show ?thesis
  proof (cases r)
    case None
    with r(2) have "nodes s1 = nodes s" "failed s s1" by (auto simp: copied_def)
    with built_after_fail [OF assms(3)] p1 assms(4) have "turn_ok s0 a TYPE_MAP ds s (False, s1) (copyrel TYPE_MAP k)"
      by (auto simp: turn_ok_def progress_def)
    with r c None assms(7) show ?thesis by (auto simp: copy_item_map_def)
  next
    case (Some b)
    with r(2) obtain u where u: "at_addr u = b" "built s s1 u" "erase u = erase k"
      by (auto simp: copied_def)
    obtain m js where "u = AT b m js" using u(1) by (cases u) auto
    with u have b: "built s s1 (AT b m js)" "erase (AT b m js) = erase k" by simp_all
    have sep: "set (taddrs (AT a n ds)) \<inter> set (taddrs (AT b m js)) = {}"
      using assms(3) b(1) by (fastforce simp: built_def)
    have hA: "holds (nodes s1) None (AT a n ds)"
    proof -
      have "holds (nodes s1) None (AT a n ds) = holds (nodes s) None (AT a n ds)"
      proof (rule holds_cong)
        fix x assume "x \<in> set (taddrs (AT a n ds))"
        with sep have "x \<notin> set (taddrs (AT b m js))" by blast
        with b(1) show "nodes s1 x = nodes s x" unfolding built_def by blast
      qed
      with assms(3) show ?thesis by (simp add: built_def)
    qed
    have dist: "distinct (taddrs (AT a n ds) @ taddrs (AT b m js))"
      using assms(3) b(1) sep by (simp add: built_def del: taddrs.simps)
    have hB: "holds (nodes s1) None (AT b m js)" using b(1) by (simp add: built_def)
    have kids: "kids_ok n ds" using assms(3) by (simp add: built_def)
    note step = map_set_step [OF hA hB dist assms(4) kids assms(8,9)]
    let ?s2 = "if coom s1 (ctick s1) then tick s1 else tick (tick s1)"
    show ?thesis
    proof (cases "coom s1 (ctick s1) \<or> coom s1 (Suc (ctick s1))")
      case True
      then have "failed s1 ?s2"
        by (auto simp: failed_def intro: exI [of _ "ctick s1"] exI [of _ "Suc (ctick s1)"])
      then have "failed s ?s2" by (rule failed_right [OF _ p1])
      have "?s2 = tick s1 \<or> ?s2 = tick (tick s1)" by simp
      from drop_copy [OF b(1) p1 wf this \<open>failed s ?s2\<close>] obtain s3 where
        s3: "confignode_clean b ?s2 = Some s3" "nodes s3 = nodes s" "progress s s3" "failed s s3" by blast
      with built_after_fail [OF assms(3)] assms(4) have "turn_ok s0 a TYPE_MAP ds s (False, s3) (copyrel TYPE_MAP k)"
        by (auto simp: turn_ok_def progress_def)
      with r c Some step True s3(1) assms(7) show ?thesis
        by (auto simp: copy_item_map_def split: if_splits)
    next
      case False
      let ?n = "n\<lparr>cn_items := cn_items n @ [b]\<rparr>"
      let ?m = "m\<lparr>cn_key := Some key, cn_parent := Some a\<rparr>"
      let ?s = "(tick (tick s1))\<lparr>nodes := (nodes s1)(a \<mapsto> ?n, b \<mapsto> ?m)\<rparr>"
      have "built s0 ?s (AT a ?n (ds @ [AT b ?m js]))"
        by (rule built_join [OF assms(3) b(1) assms(6) wf])
          (use assms(4,5,8,9) p1 kids in \<open>auto simp: progress_def kids_ok_def\<close>)
      moreover have "copyrel TYPE_MAP k (AT b ?m js)"
        using b(2) assms(7) by (simp add: copyrel_def cong: ntype.case_cong)
      moreover have "progress s ?s"
        using p1 hA hB assms(3) b(1) by (auto simp: progress_def wf_state_def built_def)
      ultimately have "turn_ok s0 a TYPE_MAP ds s (True, ?s) (copyrel TYPE_MAP k)"
        using assms(4) unfolding turn_ok_def by (auto intro!: exI [of _ ?n])
      with r c Some step False assms(7) show ?thesis by (auto simp: copy_item_map_def)
    qed
  qed
qed

lemma copy_items_loop:
  assumes turn: "\<And>pre k suf ds s n. whole = pre @ k # suf \<Longrightarrow> built s0 s (AT a n ds) \<Longrightarrow> cn_type n = ty \<Longrightarrow>
      progress s0 s \<Longrightarrow> list_all2 (copyrel ty) pre ds \<Longrightarrow>
      \<exists>res. body (at_addr k) s = Some res \<and> turn_ok s0 a ty ds s res (copyrel ty k)"
    and "whole = pre @ ks" "built s0 s (AT a n ds)" "cn_type n = ty" "progress s0 s"
    and "list_all2 (copyrel ty) pre ds"
  shows "\<exists>ok s'. allM body (map at_addr ks) s = Some (ok, s') \<and> progress s s' \<and>
     (\<exists>n' ds'. cn_type n' = ty \<and> built s0 s' (AT a n' ds') \<and>
        (ok \<longrightarrow> list_all2 (copyrel ty) whole ds') \<and> (\<not> ok \<longrightarrow> failed s s'))"
  using assms(2-)
proof (induction ks arbitrary: pre s n ds)
  case Nil
  then show ?case by (auto simp: progress_def intro!: exI [of _ n] exI [of _ ds])
next
  case (Cons k ks)
  from turn [OF Cons.prems(1-5)] obtain ok s1 where t:
    "body (at_addr k) s = Some (ok, s1)" "turn_ok s0 a ty ds s (ok, s1) (copyrel ty k)" by auto
  then have p1: "progress s s1" by (simp add: turn_ok_def)
  show ?case
  proof (cases ok)
    case False
    with t show ?thesis by (auto simp: turn_ok_def)
  next
    case True
    with t obtain n' d where d: "cn_type n' = ty" "copyrel ty k d" "built s0 s1 (AT a n' (ds @ [d]))"
      by (auto simp: turn_ok_def)
    have "whole = (pre @ [k]) @ ks" "list_all2 (copyrel ty) (pre @ [k]) (ds @ [d])"
      using Cons.prems(1,5) d(2) by (auto intro: list_all2_appendI)
    from Cons.IH [OF this(1) d(3,1) progress_trans [OF Cons.prems(4) p1] this(2)]
    obtain ok2 s2 n2 ds2 where u: "allM body (map at_addr ks) s1 = Some (ok2, s2)" "progress s1 s2"
      "cn_type n2 = ty" "built s0 s2 (AT a n2 ds2)" "ok2 \<longrightarrow> list_all2 (copyrel ty) whole ds2"
      "\<not> ok2 \<longrightarrow> failed s1 s2" by auto
    have "\<not> ok2 \<longrightarrow> failed s s2" using u(6) failed_right [OF _ p1] by blast
    moreover have "allM body (map at_addr (k # ks)) s = Some (ok2, s2)"
      using t(1) True u(1) by simp
    ultimately show ?thesis using progress_trans [OF p1 u(2)] u(3-5) by blast
  qed
qed

lemma copy_container:
  assumes "\<And>pre k suf ds s n. whole = pre @ k # suf \<Longrightarrow> built s0 s (AT (cnxt s0) n ds) \<Longrightarrow> cn_type n = ty \<Longrightarrow>
      progress s0 s \<Longrightarrow> list_all2 (copyrel ty) pre ds \<Longrightarrow>
      \<exists>res. body (at_addr k) s = Some res \<and> turn_ok s0 (cnxt s0) ty ds s res (copyrel ty k)"
    and "wf_state s0" "ty = TYPE_ARRAY \<or> ty = TYPE_MAP"
    and c: "\<And>n ds. cn_type n = ty \<Longrightarrow> list_all2 (copyrel ty) whole ds \<Longrightarrow> erase (AT (cnxt s0) n ds) = c"
  shows "\<exists>r s'. copy_loop body (cnxt s0) (map at_addr whole) (fresh_of ty s0) = Some (r, s') \<and> copied s0 c r s'"
proof -
  let ?f = "fresh_of ty s0"
  have b: "built s0 ?f (AT (cnxt s0) (fresh_node\<lparr>cn_type := ty\<rparr>) [])"
    by (rule fresh_built [OF assms(2)]) (use assms(3) in blast)
  have pf: "progress s0 ?f" by (rule progress_fresh_of [OF assms(2)])
  have "\<exists>ok s'. allM body (map at_addr whole) ?f = Some (ok, s') \<and> progress ?f s' \<and>
     (\<exists>n' ds'. cn_type n' = ty \<and> built s0 s' (AT (cnxt s0) n' ds') \<and>
        (ok \<longrightarrow> list_all2 (copyrel ty) whole ds') \<and> (\<not> ok \<longrightarrow> failed ?f s'))"
  proof (rule copy_items_loop [where whole = whole and pre = "[]"])
    fix pre k suf ds s n
    assume "whole = pre @ k # suf" "built s0 s (AT (cnxt s0) n ds)" "cn_type n = ty"
      "progress s0 s" "list_all2 (copyrel ty) pre ds"
    then show "\<exists>res. body (at_addr k) s = Some res \<and> turn_ok s0 (cnxt s0) ty ds s res (copyrel ty k)"
      by (rule assms(1))
  qed (use b pf in auto)
  then obtain ok s1 n ds where l:
    "allM body (map at_addr whole) ?f = Some (ok, s1)" "progress ?f s1" "cn_type n = ty"
    "built s0 s1 (AT (cnxt s0) n ds)" "ok \<longrightarrow> list_all2 (copyrel ty) whole ds" "\<not> ok \<longrightarrow> failed ?f s1"
    by blast
  have p1: "progress s0 s1" by (rule progress_trans [OF pf l(2)])
  show ?thesis
  proof (cases ok)
    case True
    with l c p1 have "copied s0 c (Some (cnxt s0)) s1"
      by (auto simp: copied_def simp del: erase.simps intro!: exI [of _ "AT (cnxt s0) n ds"])
    with l(1) True show ?thesis by (auto simp: copy_loop_def)
  next
    case False
    with l(6) have "failed s0 s1" using failed_right [OF _ pf] by blast
    with p1 have "copied s0 c None (s1\<lparr>nodes := nodes s0\<rparr>)"
      by (auto simp: copied_def progress_reset [OF _ assms(2)] failed_reset)
    with l(1) False clean_built [OF l(4) assms(2)] show ?thesis by (auto simp: copy_loop_def)
  qed
qed

lemma tick_copied: "wf_state s \<Longrightarrow> coom s (ctick s) \<Longrightarrow> copied s c None (tick s)"
  by (simp add: copied_def progress_tick failed_tick)

lemma new_value_copied:
  assumes "wf_state s" "cv_v v \<noteq> VString None"
  shows "\<exists>r s'. confignode_new_value (Some v) s = Some (r, s') \<and> copied s (CVal v) r s'"
proof (cases "coom s (ctick s)")
  case True
  with tick_copied [OF assms(1) True] show ?thesis
    by (auto simp: confignode_new_value_def new_typed_eq)
next
  case False
  let ?f = "fresh_of TYPE_VALUE s"
  let ?n = "fresh_node\<lparr>cn_type := TYPE_VALUE\<rparr>"
  have pf: "progress s ?f" by (rule progress_fresh_of [OF assms(1)])
  have put: "copied s (CVal v) (Some (cnxt s)) (put_node (cnxt s) (?n\<lparr>cn_value := v\<rparr>) r)"
    if "r = ?f \<or> r = tick ?f" for r
  proof -
    let ?t = "AT (cnxt s) (?n\<lparr>cn_value := v\<rparr>) []"
    have "built s (put_node (cnxt s) (?n\<lparr>cn_value := v\<rparr>) r) ?t"
      using that assms(2) by (auto simp: built_def kids_ok_def fresh_node_def)
    moreover have "progress s (put_node (cnxt s) (?n\<lparr>cn_value := v\<rparr>) r)"
      using that pf by (auto simp: progress_def wf_state_def)
    ultimately show ?thesis by (auto simp: copied_def intro!: exI [of _ ?t])
  qed
  show ?thesis
  proof (cases "\<exists>t. cv_v v = VString (Some t) \<and> coom s (Suc (ctick s))")
    case True
    let ?t = "AT (cnxt s) ?n []"
    have "confignode_clean (cnxt s) (tick ?f) = Some ((tick ?f)\<lparr>nodes := nodes s\<rparr>)"
    proof -
      have "holds (nodes (tick ?f)) None ?t" by (simp add: fresh_node_def)
      from clean_root [OF this] have "confignode_clean (cnxt s) (tick ?f) =
          Some ((tick ?f)\<lparr>nodes := \<lambda>x. if x \<in> {cnxt s} then None else nodes (tick ?f) x\<rparr>)" by simp
      moreover have "(\<lambda>x. if x \<in> {cnxt s} then None else nodes (tick ?f) x) = nodes s"
        using assms(1) by (auto simp: wf_state_def fun_eq_iff)
      ultimately show ?thesis by simp
    qed
    moreover have "copied s (CVal v) None ((tick ?f)\<lparr>nodes := nodes s\<rparr>)"
      using True assms(1) by (auto simp: copied_def progress_def wf_state_def failed_def intro!: exI [of _ "Suc (ctick s)"])
    ultimately show ?thesis
      using False True
      by (auto simp: confignode_new_value_def new_typed_eq confignode_value_set_def node_at_def alloc_tick)
  next
    case ok: False
    have "\<exists>r. confignode_new_value (Some v) s = Some (Some (cnxt s), put_node (cnxt s) (?n\<lparr>cn_value := v\<rparr>) r)
        \<and> (r = ?f \<or> r = tick ?f)"
    proof (cases "cv_v v")
      case (VString u)
      with assms(2) obtain t where "u = Some t" by (cases u) auto
      with VString False ok show ?thesis
        by (auto simp: confignode_new_value_def new_typed_eq confignode_value_set_def node_at_def alloc_tick)
    qed (use False ok in \<open>auto simp: confignode_new_value_def new_typed_eq confignode_value_set_def
        node_at_def alloc_tick\<close>)
    with put show ?thesis by blast
  qed
qed

lemma list_all2_map_eq: "list_all2 (\<lambda>k d. f d = g k) ks ds \<Longrightarrow> map f ds = map g ks"
  by (induction rule: list_all2_induct) auto

lemma copyrel_array: "list_all2 (copyrel TYPE_ARRAY) ks ds \<Longrightarrow> map erase ds = map erase ks"
  by (rule list_all2_map_eq) (erule list_all2_mono, simp add: copyrel_def)

lemma copyrel_map:
  "list_all2 (copyrel TYPE_MAP) ks ds \<Longrightarrow>
   map (\<lambda>k. (the (at_key k), erase k)) ds = map (\<lambda>k. (the (at_key k), erase k)) ks"
  by (rule list_all2_map_eq) (erule list_all2_mono, simp add: copyrel_def)

lemma copyrel_keys: "list_all2 (copyrel TYPE_MAP) ks ds \<Longrightarrow> map at_key ds = map at_key ks"
  by (rule list_all2_map_eq) (erule list_all2_mono, simp add: copyrel_def)

lemma twf_copies: "twf t \<Longrightarrow> copies t"
proof (induction t)
  case (AT a n ks)
  have kids: "copies k" if "k \<in> set ks" for k using AT that by simp
  have wfk: "kids_ok n ks" "\<forall>k \<in> set ks. twf k" using AT.prems by auto
  have "\<exists>r s'. confignode_copy a s = Some (r, s') \<and> copied s (erase (AT a n ks)) r s'"
    if s: "wf_state s" "holds (nodes s) par (AT a n ks)" for s par
  proof -
    have n: "nodes s a = Some n" "cn_items n = map at_addr ks" using s(2) by auto
    have src: "source_ok s a k" if "k \<in> set ks" for k
    proof -
      have "holds (nodes s) (Some a) k" using s(2) that by simp
      moreover have "set (taddrs k) \<subseteq> {..<cnxt s}"
        using linked_node [OF holds_linked [OF \<open>holds (nodes s) (Some a) k\<close>]] s(1)
        by (force simp: wf_state_def not_le [symmetric])
      ultimately show ?thesis using wfk(2) that by (simp add: source_ok_def)
    qed
    show ?thesis
    proof (cases "cn_type n")
      case TYPE_NULL
      have "copied s CNull (fst (confignode_new s)) (snd (confignode_new s))"
      proof (cases "coom s (ctick s)")
        case True
        with tick_copied [OF s(1)] show ?thesis by (simp add: confignode_new_eq)
      next
        case False
        with fresh_built [OF s(1), of TYPE_NULL] progress_fresh_of [OF s(1), of TYPE_NULL] show ?thesis
          by (auto simp: confignode_new_eq copied_def fresh_node_def
              intro!: exI [of _ "AT (cnxt s) (fresh_node\<lparr>cn_type := TYPE_NULL\<rparr>) []"])
      qed
      with TYPE_NULL n show ?thesis
        by (subst confignode_copy.simps) (cases "confignode_new s", auto simp: node_at_def)
    next
      case TYPE_VALUE
      with wfk have "cv_v (cn_value n) \<noteq> VString None" by (simp add: kids_ok_def)
      from new_value_copied [OF s(1) this] TYPE_VALUE n show ?thesis
        by (subst confignode_copy.simps) (auto simp: node_at_def)
    next
      case TYPE_ARRAY
      show ?thesis
      proof (cases "coom s (ctick s)")
        case True
        with tick_copied [OF s(1) True] TYPE_ARRAY n show ?thesis
          by (auto simp: confignode_copy_array)
      next
        case False
        have "\<exists>r s'. copy_loop (copy_item_array a (cnxt s)) (cnxt s) (map at_addr ks) (fresh_of TYPE_ARRAY s) =
            Some (r, s') \<and> copied s (erase (AT a n ks)) r s'"
        proof (rule copy_container [OF _ s(1)])
          fix pre k suf ds s1 n1
          assume "ks = pre @ k # suf" "built s s1 (AT (cnxt s) n1 ds)" "cn_type n1 = TYPE_ARRAY" "progress s s1"
          then show "\<exists>res. copy_item_array a (cnxt s) (at_addr k) s1 = Some res \<and>
              turn_ok s (cnxt s) TYPE_ARRAY ds s1 res (copyrel TYPE_ARRAY k)"
            using kids src s(1) by (intro copy_turn_array) auto
        qed (use TYPE_ARRAY copyrel_array in auto)
        with False TYPE_ARRAY n show ?thesis by (simp add: confignode_copy_array)
      qed
    next
      case TYPE_MAP
      show ?thesis
      proof (cases "coom s (ctick s)")
        case True
        with tick_copied [OF s(1) True] TYPE_MAP n show ?thesis
          by (auto simp: confignode_copy_map)
      next
        case False
        have keys: "\<forall>k \<in> set ks. \<exists>s. at_key k = Some s \<and> cstr s" "distinct (map at_key ks)"
          using wfk(1) TYPE_MAP by (auto simp: kids_ok_def)
        have "\<exists>r s'. copy_loop (copy_item_map a (cnxt s)) (cnxt s) (map at_addr ks) (fresh_of TYPE_MAP s) =
            Some (r, s') \<and> copied s (erase (AT a n ks)) r s'"
        proof (rule copy_container [OF _ s(1)])
          fix pre k suf ds s1 n1
          assume *: "ks = pre @ k # suf" "built s s1 (AT (cnxt s) n1 ds)" "cn_type n1 = TYPE_MAP"
            "progress s s1" "list_all2 (copyrel TYPE_MAP) pre ds"
          then obtain key where key: "at_key k = Some key" "cstr key" using keys(1) by auto
          have "\<forall>d \<in> set ds. at_key d \<noteq> Some key"
          proof
            fix d assume "d \<in> set ds"
            then have "at_key d \<in> set (map at_key pre)"
              using copyrel_keys [OF *(5)] by (metis imageI image_set)
            with keys(2) *(1) key(1) show "at_key d \<noteq> Some key" by auto
          qed
          with * key show "\<exists>res. copy_item_map a (cnxt s) (at_addr k) s1 = Some res \<and>
              turn_ok s (cnxt s) TYPE_MAP ds s1 res (copyrel TYPE_MAP k)"
            using kids src s(1) by (intro copy_turn_map) auto
        qed (use TYPE_MAP copyrel_map in auto)
        with False TYPE_MAP n show ?thesis by (simp add: confignode_copy_map)
      qed
    qed
  qed
  then show ?case by (auto simp: copies_def)
qed

lemma confignode_copy_tree:
  assumes "wf_state s" "holds (nodes s) par t" "twf t"
  shows "\<exists>r s'. confignode_copy (at_addr t) s = Some (r, s') \<and> copied s (erase t) r s'"
  using twf_copies [OF assms(3)] assms(1,2) unfolding copies_def by blast

end
