(* ===== verification/ConfigLookup.thy ===== *)
theory ConfigLookup
  imports ConfigTree
begin

text \<open>
  Paths: the text of a list of components, the parser's acceptance of it, and the proof that a
  lookup without creation finds exactly the node the components lead to in the tree, and that
  \<open>confignode_path_get\<close> prints those components.
\<close>

section \<open>Components\<close>

datatype pcomp = PKey cstring | PIdx nat

fun rest_text :: "pcomp list \<Rightarrow> cstring" where
  "rest_text [] = []"
| "rest_text (PKey k # cs) = CHR ''.'' # k @ rest_text cs"
| "rest_text (PIdx i # cs) = CHR ''['' # nat_dec i @ CHR '']'' # rest_text cs"

definition path_text :: "pcomp list \<Rightarrow> cstring" where
  "path_text cs = (case cs of PKey k # r \<Rightarrow> k @ rest_text r | _ \<Rightarrow> rest_text cs)"

lemma path_text_simps [simp]:
  "path_text [] = []" "path_text (PKey k # cs) = k @ rest_text cs"
  "path_text (PIdx i # cs) = CHR ''['' # nat_dec i @ CHR '']'' # rest_text cs"
  by (simp_all add: path_text_def)

definition good_comp :: "pcomp \<Rightarrow> bool" where
  "good_comp c \<longleftrightarrow>
     (case c of
        PKey k \<Rightarrow> k \<noteq> [] \<and> cstr k \<and> CHR ''.'' \<notin> set k \<and> CHR ''['' \<notin> set k
      | PIdx i \<Rightarrow> i \<le> SIZE_MAX div 2)"

text \<open>The part of the tree the components lead to.\<close>

fun tree_at :: "atree \<Rightarrow> pcomp list \<Rightarrow> atree option" where
  "tree_at t [] = Some t"
| "tree_at t (PKey k # cs) =
     (if cn_type (at_node t) = TYPE_MAP then
        (case find (\<lambda>d. at_key d = Some k) (at_kids t) of None \<Rightarrow> None | Some d \<Rightarrow> tree_at d cs)
      else None)"
| "tree_at t (PIdx i # cs) =
     (if cn_type (at_node t) = TYPE_ARRAY \<and> i < length (at_kids t) then tree_at (at_kids t ! i) cs else None)"

section \<open>The index parser\<close>

lemma index_digits_append:
  "index_digits (xs @ ys) v = (case index_digits xs v of None \<Rightarrow> None | Some w \<Rightarrow> index_digits ys w)"
  by (induction xs arbitrary: v) (auto simp: Let_def)

lemma cval_0: "cval (CHR ''0'') = 48" "cval (CHR ''9'') = 57"
  by (simp_all add: cval_def)

lemma index_digits_nat_dec: "n \<le> SIZE_MAX \<Longrightarrow> index_digits (nat_dec n) 0 = Some n"
proof (induction n rule: nat_dec.induct)
  case (1 n)
  have d: "\<not> v > (SIZE_MAX - d) div 10 \<longleftrightarrow> v * 10 + d \<le> SIZE_MAX" if "d < 10" for v d
    using that by (auto simp: SIZE_MAX_def)
  show ?case
  proof (cases "n < 10")
    case True
    with d [of n 0] "1.prems" show ?thesis
      by (subst nat_dec.simps) (simp add: cval_0 SIZE_MAX_def)
  next
    case False
    then have "index_digits (nat_dec (n div 10)) 0 = Some (n div 10)"
      using 1 by simp
    moreover have "n div 10 * 10 + n mod 10 = n" by simp
    ultimately show ?thesis
      using False d [of "n mod 10" "n div 10"] "1.prems"
      by (subst nat_dec.simps) (simp add: index_digits_append cval_0)
  qed
qed

lemma parse_index_nat_dec: "i \<le> SIZE_MAX div 2 \<Longrightarrow> confignode_path_parse_index (nat_dec i) = Some i"
  using index_digits_nat_dec [of i] by (simp add: confignode_path_parse_index_def)

lemma nat_dec_no_bracket: "CHR '']'' \<notin> set (nat_dec i)"
  using nat_dec_digits [of "CHR '']''" i] by (auto simp: isdigit_def cval_def)

lemma strchr_close: "strchr (nat_dec i @ CHR '']'' # r) (CHR '']'') = Some (CHR '']'' # r)"
  using nat_dec_no_bracket [of i] by simp

lemma take_close: "takeWhile (\<lambda>c. c \<noteq> CHR '']'') (nat_dec i @ CHR '']'' # r) = nat_dec i"
  using nat_dec_no_bracket [of i] by (intro takeWhile_append_stop) auto

section \<open>Valid paths\<close>

lemma path_text_ne: "c # cs \<noteq> [] \<Longrightarrow> good_comp c \<Longrightarrow> path_text (c # cs) \<noteq> []"
  by (cases c) (auto simp: good_comp_def)

lemma rest_text_head:
  assumes "cs \<noteq> []"
  shows "(hdc (rest_text cs) = CHR ''.'' \<and> tl (rest_text cs) = path_text cs) \<or>
     (hdc (rest_text cs) = CHR ''['' \<and> rest_text cs = path_text cs)"
  using assms by (cases cs rule: rest_text.cases) auto

lemma rest_text_ne: "cs \<noteq> [] \<Longrightarrow> rest_text cs \<noteq> []"
  by (cases cs rule: rest_text.cases) auto

lemma key_delim:
  assumes "good_comp (PKey k)"
  shows "strpbrk (k @ rest_text cs) ''.['' = (if cs = [] then None else Some (rest_text cs))"
proof -
  have "set k \<inter> set ''.['' = {}" using assms by (auto simp: good_comp_def)
  then have "strpbrk (k @ rest_text cs) ''.['' = strpbrk (rest_text cs) ''.[''" by (rule strpbrk_append)
  also have "\<dots> = (if cs = [] then None else Some (rest_text cs))"
    by (cases cs rule: rest_text.cases) auto
  finally show ?thesis .
qed

lemma key_head: "good_comp (PKey k) \<Longrightarrow> hdc (k @ r) \<noteq> CHR ''[''"
  by (cases k) (auto simp: good_comp_def)

lemma path_valid_text: "\<forall>c \<in> set cs. good_comp c \<Longrightarrow> path_valid (path_text cs)"
proof (induction cs)
  case Nil
  then show ?case by (subst path_valid.simps) simp
next
  case (Cons c cs)
  then have IH: "path_valid (path_text cs)" by simp
  have ne: "cs \<noteq> [] \<Longrightarrow> path_text cs \<noteq> []"
    using Cons.prems path_text_ne by (cases cs) auto
  show ?case
  proof (cases c)
    case (PKey k)
    with Cons.prems have k: "good_comp (PKey k)" by simp
    then have kn: "k \<noteq> []" by (simp add: good_comp_def)
    show ?thesis
    proof (cases "cs = []")
      case True
      with key_delim [OF k, of "[]"] key_head [OF k, of "[]"] PKey kn show ?thesis
        by (subst path_valid.simps) (simp del: strpbrk_None)
    next
      case False
      from rest_text_head [OF this] key_delim [OF k, of cs] key_head [OF k, of "rest_text cs"] PKey kn False IH ne
      show ?thesis by (subst path_valid.simps) auto
    qed
  next
    case (PIdx i)
    with Cons.prems have i: "confignode_path_parse_index (nat_dec i) = Some i"
      by (simp add: good_comp_def parse_index_nat_dec)
    show ?thesis
    proof (cases "cs = []")
      case True
      with PIdx i strchr_close [of i "[]"] take_close [of i "[]"] show ?thesis
        by (subst path_valid.simps) simp
    next
      case False
      from rest_text_head [OF this] PIdx i strchr_close [of i "rest_text cs"] take_close [of i "rest_text cs"]
        rest_text_ne [OF False] IH ne [OF False]
      show ?thesis by (subst path_valid.simps) auto
    qed
  qed
qed

section \<open>Lookup\<close>

definition no_oom :: "cstate \<Rightarrow> bool" where
  "no_oom s \<longleftrightarrow> (\<forall>t \<ge> ctick s. \<not> coom s t)"

lemma alloc_ok: "no_oom s \<Longrightarrow> alloc s = (True, s\<lparr>ctick := Suc (ctick s)\<rparr>)"
  by (simp add: alloc_def no_oom_def)

lemma no_oom_tick: "no_oom s \<Longrightarrow> no_oom (s\<lparr>ctick := Suc (ctick s)\<rparr>)"
  by (simp add: no_oom_def)

lemma find_item_kids_at:
  assumes "\<And>d. d \<in> set ds \<Longrightarrow> nodes s (at_addr d) = Some (at_node d)"
  shows "find_item P (map at_addr ds) s = Some (map_option at_addr (find (\<lambda>d. P (at_addr d) (at_node d)) ds))"
  using assms by (induction ds) (auto simp: node_at_def)

lemma kid_node:
  "holds N par (AT a n ds) \<Longrightarrow> d \<in> set ds \<Longrightarrow> N (at_addr d) = Some (at_node d) \<and> cn_parent (at_node d) = Some a"
  using holds_root [of N "Some a" d] by auto

lemma find_cong: "(\<And>d. d \<in> set ds \<Longrightarrow> P d = Q d) \<Longrightarrow> find P ds = find Q ds"
  by (induction ds) auto

lemma lookup_key_step_eq:
  assumes "holds (nodes s) par (AT a n ds)" "kids_ok n ds" "cstr k"
  shows "lookup_key_step a k False s = Some
     (if cn_type n = TYPE_MAP then map_option at_addr (find (\<lambda>d. at_key d = Some k) ds) else None, s)"
proof (cases "cn_type n = TYPE_MAP")
  case True
  have "is_key_child a k (at_addr d) (at_node d) \<longleftrightarrow> at_key d = Some k" if "d \<in> set ds" for d
  proof -
    from assms(2) True that obtain j where "at_key d = Some j" "cstr j" by (auto simp: kids_ok_def)
    with kid_node [OF assms(1) that] assms(3) show ?thesis by (auto simp: is_key_child_def strcmp_0_iff)
  qed
  then have "find (\<lambda>d. is_key_child a k (at_addr d) (at_node d)) ds = find (\<lambda>d. at_key d = Some k) ds"
    by (rule find_cong)
  moreover have "find_item (is_key_child a k) (map at_addr ds) s =
      Some (map_option at_addr (find (\<lambda>d. is_key_child a k (at_addr d) (at_node d)) ds))"
    by (rule find_item_kids_at) (use kid_node [OF assms(1)] in blast)
  ultimately show ?thesis
    using True assms(1)
    by (simp add: lookup_key_step_def confignode_path_require_type_def confignode_map_get_def node_at_def)
next
  case False
  with assms(1) show ?thesis
    by (simp add: lookup_key_step_def confignode_path_require_type_def node_at_def)
qed

lemma find_index:
  assumes "map at_index ds = map int [0..<length ds]"
  shows "find (\<lambda>d. at_index d = int i) ds = (if i < length ds then Some (ds ! i) else None)"
proof -
  have nth: "at_index (ds ! j) = int j" if "j < length ds" for j
    using arg_cong [OF assms, of "\<lambda>l. l ! j"] that by simp
  show ?thesis
  proof (cases "i < length ds")
    case True
    then have "find (\<lambda>d. at_index d = int i) ds = Some (ds ! i)"
      unfolding find_Some_iff using nth by (intro exI [of _ i]) auto
    with True show ?thesis by simp
  next
    case False
    have "find (\<lambda>d. at_index d = int i) ds = None"
      unfolding find_None_iff using nth False by (auto simp: in_set_conv_nth)
    with False show ?thesis by simp
  qed
qed

lemma lookup_index_step_eq:
  assumes "holds (nodes s) par (AT a n ds)" "kids_ok n ds"
  shows "lookup_index_step a i False s = Some
     (if cn_type n = TYPE_ARRAY \<and> i < length ds then Some (at_addr (ds ! i)) else None, s)"
proof (cases "cn_type n = TYPE_ARRAY")
  case True
  have "find (\<lambda>d. is_index_child a i (at_addr d) (at_node d)) ds = find (\<lambda>d. at_index d = int i) ds"
    by (rule find_cong) (use kid_node [OF assms(1)] in \<open>auto simp: is_index_child_def\<close>)
  also have "\<dots> = (if i < length ds then Some (ds ! i) else None)"
    by (rule find_index) (use assms(2) True in \<open>simp add: kids_ok_def\<close>)
  finally have f: "find (\<lambda>d. is_index_child a i (at_addr d) (at_node d)) ds =
      (if i < length ds then Some (ds ! i) else None)" .
  moreover have "find_item (is_index_child a i) (map at_addr ds) s =
      Some (map_option at_addr (find (\<lambda>d. is_index_child a i (at_addr d) (at_node d)) ds))"
    by (rule find_item_kids_at) (use kid_node [OF assms(1)] in blast)
  ultimately show ?thesis
    using True assms(1)
    by (simp add: lookup_index_step_def confignode_path_require_type_def confignode_array_get_def node_at_def)
next
  case False
  with assms(1) show ?thesis
    by (simp add: lookup_index_step_def confignode_path_require_type_def node_at_def)
qed

lemma path_lookup_tree:
  assumes "holds (nodes s) par t" "twf t" "\<forall>c \<in> set cs. good_comp c" "no_oom s"
  shows "\<exists>s'. path_lookup (at_addr t) (path_text cs) False s = Some (map_option at_addr (tree_at t cs), s') \<and>
     nodes s' = nodes s"
  using assms
proof (induction cs arbitrary: t par s)
  case Nil
  then show ?case using path_valid_text [of "[]"] by (subst path_lookup.simps) simp
next
  case (Cons c cs)
  obtain a n ks where t: "t = AT a n ks" by (cases t)
  have valid: "path_valid (path_text (c # cs))" by (rule path_valid_text [OF Cons.prems(3)])
  have ne: "path_text (c # cs) \<noteq> []" using Cons.prems(3) path_text_ne by auto
  have ne2: "cs \<noteq> [] \<Longrightarrow> path_text cs \<noteq> []" using Cons.prems(3) path_text_ne by (cases cs) auto
  have kids: "kids_ok n ks" using Cons.prems(2) t by simp
  have sub: "holds (nodes s) (Some a) d" "twf d" if "d \<in> set ks" for d
    using Cons.prems(1,2) t that by auto
  show ?case
  proof (cases c)
    case (PKey k)
    have k: "good_comp (PKey k)" using Cons.prems(3) PKey by simp
    then have kn: "k \<noteq> []" "cstr k" by (simp_all add: good_comp_def)
    let ?s = "s\<lparr>ctick := Suc (ctick s)\<rparr>"
    have h: "holds (nodes ?s) par (AT a n ks)" using Cons.prems(1) t by simp
    note step = lookup_key_step_eq [OF h kids kn(2)]
    let ?f = "find (\<lambda>d. at_key d = Some k) ks"
    have go: "path_lookup a (path_text (c # cs)) False s =
      (case (if cn_type n = TYPE_MAP then map_option at_addr ?f else None) of
         None \<Rightarrow> Some (None, ?s)
       | Some x \<Rightarrow> if cs = [] then Some (Some x, ?s) else path_lookup x (path_text cs) False ?s)"
    proof (cases "cs = []")
      case True
      with key_delim [OF k, of "[]"] key_head [OF k, of "[]"] PKey kn valid step alloc_ok [OF Cons.prems(4)]
      show ?thesis
        by (subst path_lookup.simps) (simp del: strpbrk_None split: option.splits)
    next
      case False
      from rest_text_head [OF this] key_delim [OF k, of cs] key_head [OF k, of "rest_text cs"] PKey kn False
        valid step alloc_ok [OF Cons.prems(4)] ne2 rest_text_ne [OF False]
      show ?thesis
        by (subst path_lookup.simps) (auto simp del: strpbrk_None split: option.splits)
    qed
    show ?thesis
    proof (cases "cn_type n = TYPE_MAP \<and> (\<exists>d. ?f = Some d)")
      case False
      with go t PKey show ?thesis by (auto split: option.splits)
    next
      case True
      then obtain d where d1: "?f = Some d" by blast
      then have d: "?f = Some d" "d \<in> set ks" by (auto simp: find_Some_iff)
      from Cons.IH [of ?s "Some a" d] sub [OF d(2)] Cons.prems(3) no_oom_tick [OF Cons.prems(4)]
      obtain s' where "path_lookup (at_addr d) (path_text cs) False ?s = Some (map_option at_addr (tree_at d cs), s')"
        "nodes s' = nodes s" by auto
      with go t PKey True d show ?thesis by (cases "cs = []") auto
    qed
  next
    case (PIdx i)
    have pi: "confignode_path_parse_index (nat_dec i) = Some i"
      using Cons.prems(3) PIdx by (simp add: good_comp_def parse_index_nat_dec)
    have h: "holds (nodes s) par (AT a n ks)" using Cons.prems(1) t by simp
    note step = lookup_index_step_eq [OF h kids, of i]
    have go: "path_lookup a (path_text (c # cs)) False s =
      (if cn_type n = TYPE_ARRAY \<and> i < length ks then
         if cs = [] then Some (Some (at_addr (ks ! i)), s) else path_lookup (at_addr (ks ! i)) (path_text cs) False s
       else Some (None, s))"
    proof (cases "cs = []")
      case True
      with PIdx pi valid step strchr_close [of i "[]"] take_close [of i "[]"] show ?thesis
        by (subst path_lookup.simps) simp
    next
      case False
      from rest_text_head [OF this] PIdx pi valid step strchr_close [of i "rest_text cs"]
        take_close [of i "rest_text cs"] ne2 rest_text_ne [OF False] False
      show ?thesis by (subst path_lookup.simps) auto
    qed
    show ?thesis
    proof (cases "cn_type n = TYPE_ARRAY \<and> i < length ks")
      case False
      with go t PIdx show ?thesis by auto
    next
      case True
      then have d: "ks ! i \<in> set ks" by simp
      from Cons.IH [of s "Some a" "ks ! i"] sub [OF d] Cons.prems(3,4)
      obtain s' where "path_lookup (at_addr (ks ! i)) (path_text cs) False s =
          Some (map_option at_addr (tree_at (ks ! i) cs), s')" "nodes s' = nodes s" by auto
      with go t PIdx True show ?thesis by (cases "cs = []") auto
    qed
  qed
qed

section \<open>The path of a node\<close>

lemma strlcat_two:
  "length p + 1 + length k < sz \<Longrightarrow> strlcat (strlcat p ''.'' sz) k sz = p @ CHR ''.'' # k"
  by (simp add: strlcat_def)

lemma path_get_rec_tree:
  assumes "holds (nodes s) par t" "tree_at t cs = Some u" "\<forall>c \<in> set cs. good_comp c"
    and "path_get_rec (at_addr t) [] sz s = Some p"
    and "length (p @ (if p = [] then path_text cs else rest_text cs)) < sz" "twf t"
  shows "path_get_rec (at_addr u) [] sz s = Some (p @ (if p = [] then path_text cs else rest_text cs))"
  using assms
proof (induction cs arbitrary: t par p)
  case Nil
  then show ?case by simp
next
  case (Cons c cs)
  obtain a n ks where t: "t = AT a n ks" by (cases t)
  have na: "nodes s a = Some n" "path_get_rec a [] sz s = Some p" using Cons.prems(1,4) t by simp_all
  have kids: "kids_ok n ks" using Cons.prems(6) t by simp
  have child: "path_get_rec (at_addr d) [] sz s = do {
      k \<leftarrow> Some (at_node d);
      (case cn_type n of
             TYPE_MAP \<Rightarrow> do {
               k \<leftarrow> cn_key k;
               Some (strlcat (if p \<noteq> [] then strlcat p ''.'' sz else p) k sz)
             }
           | TYPE_ARRAY \<Rightarrow> Some (strlcat p (''['' @ int_dec (cn_index k) @ '']'') sz)
           | _ \<Rightarrow> Some p) }" if "d \<in> set ks" for d
    using kid_node [of "nodes s" par a n ks d] Cons.prems(1) t that na
    by (subst path_get_rec.simps) (simp add: node_at_def)
  show ?case
  proof (cases c)
    case (PKey k)
    with Cons.prems(2) t obtain d where d: "cn_type n = TYPE_MAP" "find (\<lambda>d. at_key d = Some k) ks = Some d"
      "tree_at d cs = Some u" by (auto split: if_splits option.splits)
    then have dk: "d \<in> set ks" "at_key d = Some k" by (auto simp: find_Some_iff)
    have kn: "k \<noteq> []" using Cons.prems(3) PKey by (simp add: good_comp_def)
    let ?p = "p @ (if p = [] then k else CHR ''.'' # k)"
    have len: "length ?p < sz" using Cons.prems(5) PKey by (auto split: if_splits)
    have "path_get_rec (at_addr d) [] sz s = Some ?p"
      using child [OF dk(1)] d(1) dk(2) len by (auto simp: strlcat_two strlcat_fits)
    from Cons.IH [OF _ d(3) _ this] Cons.prems(1,3,5,6) t dk(1) kn PKey show ?thesis
      by (auto split: if_splits)
  next
    case (PIdx i)
    with Cons.prems(2) t have d: "cn_type n = TYPE_ARRAY" "i < length ks" "tree_at (ks ! i) cs = Some u"
      by (auto split: if_splits)
    then have dk: "ks ! i \<in> set ks" by simp
    have "map at_index ks = map int [0..<length ks]" using kids d(1) by (simp add: kids_ok_def)
    from arg_cong [OF this, of "\<lambda>l. l ! i"] d(2) have ix: "at_index (ks ! i) = int i" by simp
    let ?p = "p @ CHR ''['' # nat_dec i @ '']''"
    have len: "length ?p < sz" using Cons.prems(5) PIdx by (auto split: if_splits)
    have "path_get_rec (at_addr (ks ! i)) [] sz s = Some ?p"
      using child [OF dk] d(1) ix len by (simp add: strlcat_fits int_dec_def)
    from Cons.IH [OF _ d(3) _ this] Cons.prems(1,3,5,6) t dk PIdx show ?thesis
      by (auto split: if_splits)
  qed
qed

lemma path_get_tree:
  assumes "holds (nodes s) None t" "twf t" "tree_at t cs = Some u" "\<forall>c \<in> set cs. good_comp c"
    and "length (path_text cs) < sz"
  shows "confignode_path_get (Some (at_addr u)) sz s = Some (Some (path_text cs))"
proof -
  have "path_get_rec (at_addr t) [] sz s = Some []"
    using assms(1) by (cases t) (subst path_get_rec.simps, simp add: node_at_def)
  from path_get_rec_tree [OF assms(1,3,4) this] assms(2,5) show ?thesis
    by (simp add: confignode_path_get_def)
qed

end
