(* ===== verification/ConfFacts.thy ===== *)
theory ConfFacts
  imports Conf ConfigCopy ConfigLookup
begin

text \<open>
  The printer and the parser of the \<open>key = value\<close> format against the tree: the lines of a
  configuration are its leaves with their paths, saving prints exactly these lines, and parsing a
  printed line sets the path it was printed from to the value it was printed from.
\<close>

section \<open>The lines of a configuration\<close>

definition index_text :: "nat \<Rightarrow> cstring" where
  "index_text i = ''['' @ int_dec (int i) @ '']''"

definition sub_prefix :: "cstring \<Rightarrow> cstring \<Rightarrow> cstring" where
  "sub_prefix pre key = (if pre = [] then key else pre @ ''.'' @ key)"

text \<open>The leaves with their paths; \<open>None\<close> when the format cannot express the configuration.\<close>

definition opt_append :: "'a list option \<Rightarrow> 'a list option \<Rightarrow> 'a list option" where
  "opt_append a b = (case a of None \<Rightarrow> None | Some xs \<Rightarrow> map_option (\<lambda>ys. xs @ ys) b)"

lemma opt_append_Some [simp]: "opt_append a b = Some zs \<longleftrightarrow> (\<exists>xs ys. a = Some xs \<and> b = Some ys \<and> zs = xs @ ys)"
  by (cases a; cases b) (auto simp: opt_append_def)

fun tleaves :: "cstring \<Rightarrow> ctree \<Rightarrow> (cstring \<times> cvalue) list option"
  and arr_leaves :: "cstring \<Rightarrow> nat \<Rightarrow> ctree list \<Rightarrow> (cstring \<times> cvalue) list option"
  and map_leaves :: "cstring \<Rightarrow> (cstring \<times> ctree) list \<Rightarrow> (cstring \<times> cvalue) list option" where
  "tleaves pre CNull = None"
| "tleaves pre (CVal v) = (if conf_value_pieces (cv_v v) = None then None else Some [(pre, v)])"
| "tleaves pre (CArr xs) = (if xs = [] then None else arr_leaves pre 0 xs)"
| "tleaves pre (CMap xs) =
     (if xs = [] then (if pre = [] then Some [] else None) else map_leaves pre xs)"
| "arr_leaves pre i [] = Some []"
| "arr_leaves pre i (x # xs) = opt_append (tleaves (pre @ index_text i) x) (arr_leaves pre (Suc i) xs)"
| "map_leaves pre [] = Some []"
| "map_leaves pre ((k, x) # xs) =
     (if conf_key_is_serializable k (pre = [])
      then opt_append (tleaves (sub_prefix pre k) x) (map_leaves pre xs) else None)"

definition value_text :: "cvalue \<Rightarrow> cstring" where
  "value_text v = concat (the (conf_value_pieces (cv_v v)))"

definition leaf_text :: "cstring \<times> cvalue \<Rightarrow> cstring" where
  "leaf_text l = fst l @ '' = '' @ value_text (snd l)"

definition leaf_line :: "cstring \<times> cvalue \<Rightarrow> cstring" where
  "leaf_line l = leaf_text l @ [LF]"

section \<open>How long a line is\<close>

lemma nat_dec_length: "n < 10 ^ k \<Longrightarrow> 0 < k \<Longrightarrow> length (nat_dec n) \<le> k"
proof (induction k arbitrary: n)
  case (Suc k)
  show ?case
  proof (cases "n < 10")
    case True
    then show ?thesis by (simp add: nat_dec.simps [of n])
  next
    case False
    then have "n div 10 < 10 ^ k" "0 < k" using Suc.prems by (cases k; auto)+
    from Suc.IH [OF this] False show ?thesis by (simp add: nat_dec.simps [of n])
  qed
qed simp

lemma index_text_length: "i < SIZE_MAX \<Longrightarrow> length (index_text i) < 32"
  using nat_dec_length [of i 20] by (simp add: index_text_def int_dec_def SIZE_MAX_def)

lemma sub_prefix_ne: "key \<noteq> [] \<Longrightarrow> sub_prefix pre key \<noteq> []"
  by (simp add: sub_prefix_def)

lemma key_ne: "conf_key_is_serializable key root \<Longrightarrow> key \<noteq> []"
  by (simp add: conf_key_is_serializable_def)

lemma leaves_below:
  "tleaves pre c = Some ls \<Longrightarrow> pre \<noteq> [] \<Longrightarrow> ls \<noteq> [] \<and> (\<forall>l \<in> set ls. \<exists>r. fst l = pre @ r)"
  "arr_leaves pre i cs = Some ls \<Longrightarrow> (cs \<noteq> [] \<longrightarrow> ls \<noteq> []) \<and> (\<forall>l \<in> set ls. \<exists>r. fst l = pre @ r)"
  "map_leaves pre kcs = Some ls \<Longrightarrow> (kcs \<noteq> [] \<longrightarrow> ls \<noteq> []) \<and> (pre \<noteq> [] \<longrightarrow> (\<forall>l \<in> set ls. \<exists>r. fst l = pre @ r))"
proof (induction pre c and pre i cs and pre kcs arbitrary: ls and ls and ls rule: tleaves_arr_leaves_map_leaves.induct)
  case (6 pre i x xs)
  then obtain a b where ab: "tleaves (pre @ index_text i) x = Some a" "arr_leaves pre (Suc i) xs = Some b" "ls = a @ b" by auto
  have "pre @ index_text i \<noteq> []" by (simp add: index_text_def)
  from "6.IH"(1) [OF ab(1) this] "6.IH"(2) [OF ab(2)] ab(3) show ?case by fastforce
next
  case (8 pre k x xs)
  then obtain a b where ab: "conf_key_is_serializable k (pre = [])" "tleaves (sub_prefix pre k) x = Some a"
    "map_leaves pre xs = Some b" "ls = a @ b" by (auto split: if_splits)
  from "8.IH"(1) [OF ab(1,2) sub_prefix_ne [OF key_ne [OF ab(1)]]] "8.IH"(2) [OF ab(1,3)] ab(4)
  show ?case by (auto simp: sub_prefix_def)
qed (auto split: if_splits)

lemma lines_length:
  assumes "tleaves pre c = Some ls" "pre \<noteq> []"
  shows "length pre + 4 \<le> length (concat (map leaf_line ls))"
proof -
  from leaves_below(1) [OF assms] obtain l r ls' where "ls = l # ls'" "fst l = pre @ r" by (cases ls) auto
  then show ?thesis by (simp add: leaf_line_def leaf_text_def)
qed

section \<open>Printing\<close>

lemma append_string_result:
  assumes "no_oom s"
  shows "\<exists>ok b' s'. conf_append_string x (b, s) = (ok, b', s') \<and> nodes s' = nodes s \<and> no_oom s' \<and>
     (length (cb_text b) + length x < SIZE_MAX \<longrightarrow> ok) \<and> (ok \<longrightarrow> cb_text b' = cb_text b @ x)"
proof -
  let ?fail = "length (cb_text b) = SIZE_MAX \<or> SIZE_MAX - length (cb_text b) - 1 < length x"
  let ?grow = "cb_size b < length (cb_text b) + length x + 1"
  have room: "\<not> ?fail" if "length (cb_text b) + length x < SIZE_MAX" using that by linarith
  have tick: "no_oom (s\<lparr>ctick := Suc (ctick s)\<rparr>)" using assms by (simp add: no_oom_def)
  have run: "conf_append_string x (b, s) = (if ?fail then (False, b, s)
      else if ?grow then (True, \<lparr>cb_text = cb_text b @ x,
        cb_size = grow_size (if cb_size b = 0 then 1 else cb_size b) (length (cb_text b) + length x + 1)\<rparr>,
        s\<lparr>ctick := Suc (ctick s)\<rparr>)
      else (True, b\<lparr>cb_text := cb_text b @ x\<rparr>, s))"
    by (simp only: conf_append_string_def Let_def prod.case alloc_ok [OF assms] if_True)
  consider "?fail" | "\<not> ?fail" "?grow" | "\<not> ?fail" "\<not> ?grow" by blast
  then show ?thesis
  proof cases
    case 1
    with run have "conf_append_string x (b, s) = (False, b, s)" by (simp only: if_True)
    with 1 room assms show ?thesis by blast
  next
    case 2
    show ?thesis unfolding run if_not_P [OF 2(1)] if_P [OF 2(2)] using tick by auto
  next
    case 3
    show ?thesis unfolding run if_not_P [OF 3(1)] if_not_P [OF 3(2)] using assms by auto
  qed
qed

lemma append_all_result:
  assumes "no_oom s"
  shows "\<exists>ok b' s'. conf_append_all xs (b, s) = (ok, b', s') \<and> nodes s' = nodes s \<and> no_oom s' \<and>
     (length (cb_text b) + length (concat xs) < SIZE_MAX \<longrightarrow> ok) \<and> (ok \<longrightarrow> cb_text b' = cb_text b @ concat xs)"
  using assms
proof (induction xs arbitrary: b s)
  case (Cons x xs)
  obtain ok b1 s1 where a: "conf_append_string x (b, s) = (ok, b1, s1)" "nodes s1 = nodes s" "no_oom s1"
    "length (cb_text b) + length x < SIZE_MAX \<longrightarrow> ok" "ok \<longrightarrow> cb_text b1 = cb_text b @ x"
    using append_string_result [OF Cons.prems, of x b] by blast
  show ?case
  proof (cases ok)
    case False
    with a show ?thesis by auto
  next
    case True
    from Cons.IH [OF a(3), of b1] a True show ?thesis by auto
  qed
qed auto

text \<open>What a save does: it succeeds on every configuration with lines, if they fit, and prints the lines.\<close>

definition saved :: "(cstring \<times> cvalue) list option \<Rightarrow> cbuf \<times> cstate \<Rightarrow> bool \<times> cbuf \<times> cstate \<Rightarrow> bool" where
  "saved lines bs r \<longleftrightarrow> (case (bs, r) of ((b, s), (ok, b', s')) \<Rightarrow> nodes s' = nodes s \<and> no_oom s' \<and>
     (ok \<longrightarrow> (\<exists>ls. lines = Some ls \<and> cb_text b' = cb_text b @ concat (map leaf_line ls))) \<and>
     (\<forall>ls. lines = Some ls \<and> length (cb_text b) + length (concat (map leaf_line ls)) < SIZE_MAX \<longrightarrow> ok))"

lemma save_value_result:
  assumes "no_oom s"
  shows "saved (if conf_value_pieces (cv_v v) = None then None else Some [(pre, v)]) (b, s) (conf_save_value v pre (b, s))"
proof -
  obtain ok b1 s1 where a: "conf_append_all [pre, '' = ''] (b, s) = (ok, b1, s1)" "nodes s1 = nodes s" "no_oom s1"
    "length (cb_text b) + length (concat [pre, '' = '']) < SIZE_MAX \<longrightarrow> ok" "ok \<longrightarrow> cb_text b1 = cb_text b @ concat [pre, '' = '']"
    using append_all_result [OF assms, of "[pre, '' = '']" b] by blast
  show ?thesis
  proof (cases "ok \<and> conf_value_pieces (cv_v v) \<noteq> None")
    case False
    with a show ?thesis
      by (auto simp: conf_save_value_def saved_def leaf_line_def leaf_text_def split: option.splits)
  next
    case True
    then obtain xs where xs: "conf_value_pieces (cv_v v) = Some xs" by blast
    obtain ok2 b2 s2 where b: "conf_append_all xs (b1, s1) = (ok2, b2, s2)" "nodes s2 = nodes s1" "no_oom s2"
      "length (cb_text b1) + length (concat xs) < SIZE_MAX \<longrightarrow> ok2" "ok2 \<longrightarrow> cb_text b2 = cb_text b1 @ concat xs"
      using append_all_result [OF a(3), of xs b1] by blast
    obtain ok3 b3 s3 where c: "conf_append_string [LF] (b2, s2) = (ok3, b3, s3)" "nodes s3 = nodes s2" "no_oom s3"
      "length (cb_text b2) + length [LF] < SIZE_MAX \<longrightarrow> ok3" "ok3 \<longrightarrow> cb_text b3 = cb_text b2 @ [LF]"
      using append_string_result [OF b(3), of "[LF]" b2] by blast
    have r: "conf_save_value v pre (b, s) = (if ok2 then (ok3, b3, s3) else (False, b2, s2))"
      using True xs a(1) b(1) c(1) by (simp add: conf_save_value_def)
    have t: "concat (map leaf_line [(pre, v)]) = pre @ '' = '' @ concat xs @ [LF]"
      using xs by (simp add: leaf_line_def leaf_text_def value_text_def)
    show ?thesis unfolding r using a b c True xs t by (auto simp: saved_def)
  qed
qed

lemma saved_bind:
  assumes "saved A (b, s) (ok, b1, s1)" "ok \<Longrightarrow> saved B (b1, s1) r"
  shows "saved (opt_append A B) (b, s) (if ok then r else (False, b1, s1))"
proof (cases ok)
  case False
  with assms(1) show ?thesis by (auto simp: saved_def)
next
  case True
  obtain ok2 b2 s2 where r: "r = (ok2, b2, s2)" by (cases r)
  from True assms(1) obtain ls where a: "A = Some ls" "cb_text b1 = cb_text b @ concat (map leaf_line ls)" "nodes s1 = nodes s"
    by (auto simp: saved_def)
  from assms(2) [OF True] show ?thesis unfolding r using a True by (auto simp: saved_def)
qed

lemma saved_tick: "saved A (b, s\<lparr>ctick := n\<rparr>) r \<longleftrightarrow> saved A (b, s) r"
  by (simp add: saved_def split: prod.splits)

lemma saved_fail: "no_oom s \<Longrightarrow> (\<And>ls. A = Some ls \<Longrightarrow> SIZE_MAX \<le> length (cb_text b) + length (concat (map leaf_line ls))) \<Longrightarrow>
   saved A (b, s) (False, b, s)"
  by (fastforce simp: saved_def)

lemma opt_append_None [simp]: "opt_append A None = None" "opt_append None A = None"
  by (simp_all add: opt_append_def split: option.splits)

text \<open>The two loops over the children, for children on which saving is known to work.\<close>

definition saves :: "ptr \<Rightarrow> atree \<Rightarrow> bool" where
  "saves par t \<longleftrightarrow> (\<forall>pre b s. holds (nodes s) par t \<and> twf t \<and> no_oom s \<longrightarrow>
     (\<exists>r. conf_save_node (at_addr t) pre (b, s) = Some r \<and> saved (tleaves pre (erase t)) (b, s) r))"

lemma savesD:
  "saves par t \<Longrightarrow> holds (nodes s) par t \<Longrightarrow> twf t \<Longrightarrow> no_oom s \<Longrightarrow>
   \<exists>r. conf_save_node (at_addr t) pre (b, s) = Some r \<and> saved (tleaves pre (erase t)) (b, s) r"
  unfolding saves_def by blast

definition map_body :: "addr \<Rightarrow> cstring \<Rightarrow> addr \<Rightarrow> cbuf \<times> cstate \<Rightarrow> (bool \<times> cbuf \<times> cstate) option" where
  "map_body node pre i bs = do {
     c \<leftarrow> node_at (snd bs) i;
     (case cn_key c of
        None \<Rightarrow> Some (False, bs)
      | Some key \<Rightarrow>
          if cn_parent c \<noteq> Some node \<or> \<not> conf_key_is_serializable key (pre = []) then Some (False, bs)
          else if pre \<noteq> [] \<and> length pre > SIZE_MAX - length key - 2 then Some (False, bs)
          else let (ok, s) = alloc (snd bs)
               in if ok then conf_save_node i (sub_prefix pre key) (fst bs, s)
                  else Some (False, fst bs, s))
   }"

definition arr_body :: "addr \<Rightarrow> cstring \<Rightarrow> addr \<Rightarrow> cbuf \<times> cstate \<Rightarrow> (bool \<times> cbuf \<times> cstate) option" where
  "arr_body node pre i bs = do {
     c \<leftarrow> node_at (snd bs) i;
     (let idx = ''['' @ int_dec (cn_index c) @ '']'' in
      if cn_parent c \<noteq> Some node \<or> cn_index c < 0 then Some (False, bs)
      else if length idx \<ge> 32 then Some (False, bs)
      else if length pre > SIZE_MAX - length idx - 1 then Some (False, bs)
      else let (ok, s) = alloc (snd bs)
           in if ok then conf_save_node i (pre @ idx) (fst bs, s)
              else Some (False, fst bs, s))
   }"

lemma map_body_saved:
  assumes "saves (Some a) k" "holds (nodes s) (Some a) k" "twf k" "no_oom s" "at_key k = Some key"
  shows "\<exists>r. map_body a pre (at_addr k) (b, s) = Some r \<and> saved (map_leaves pre [(key, erase k)]) (b, s) r"
proof -
  have n: "node_at s (at_addr k) = Some (at_node k)" "cn_parent (at_node k) = Some a"
    using holds_root [OF assms(2)] by (simp_all add: node_at_def)
  let ?s = "s\<lparr>ctick := Suc (ctick s)\<rparr>"
  have oo: "no_oom ?s" using assms(4) by (simp add: no_oom_def)
  from savesD [OF assms(1), of ?s "sub_prefix pre key" b] assms(2,3) oo obtain r where
    r: "conf_save_node (at_addr k) (sub_prefix pre key) (b, ?s) = Some r" "saved (tleaves (sub_prefix pre key) (erase k)) (b, s) r"
    unfolding saved_tick by auto
  consider "\<not> conf_key_is_serializable key (pre = [])"
    | "conf_key_is_serializable key (pre = [])" "pre \<noteq> [] \<and> length pre > SIZE_MAX - length key - 2"
    | "conf_key_is_serializable key (pre = [])" "\<not> (pre \<noteq> [] \<and> length pre > SIZE_MAX - length key - 2)" by blast
  then show ?thesis
  proof cases
    case 1
    then have "map_body a pre (at_addr k) (b, s) = Some (False, b, s)" "map_leaves pre [(key, erase k)] = None"
      using n assms(5) by (simp_all add: map_body_def)
    with saved_fail [OF assms(4), of None b] show ?thesis by simp
  next
    case 2
    have "saved (map_leaves pre [(key, erase k)]) (b, s) (False, b, s)"
    proof (rule saved_fail [OF assms(4)])
      fix ls assume "map_leaves pre [(key, erase k)] = Some ls"
      then have "tleaves (sub_prefix pre key) (erase k) = Some ls" using 2(1) by auto
      from lines_length [OF this sub_prefix_ne [OF key_ne [OF 2(1)]]] 2(2)
      show "SIZE_MAX \<le> length (cb_text b) + length (concat (map leaf_line ls))"
        unfolding sub_prefix_def by (auto simp: less_diff_conv)
    qed
    moreover have "map_body a pre (at_addr k) (b, s) = Some (False, b, s)" using 2 n assms(5) by (simp add: map_body_def)
    ultimately show ?thesis by blast
  next
    case 3
    then have "map_body a pre (at_addr k) (b, s) = Some r"
      using n assms(5) r(1) by (auto simp: map_body_def alloc_ok [OF assms(4)])
    moreover have "map_leaves pre [(key, erase k)] = tleaves (sub_prefix pre key) (erase k)"
      using 3(1) by (simp add: opt_append_def split: option.splits)
    ultimately show ?thesis using r(2) by simp
  qed
qed

lemma map_loop_saved:
  assumes "\<forall>k \<in> set ks. saves (Some a) k \<and> holds (nodes s) (Some a) k \<and> twf k \<and> at_key k \<noteq> None" "no_oom s"
  shows "\<exists>r. allM (map_body a pre) (map at_addr ks) (b, s) = Some r \<and>
     saved (map_leaves pre (map (\<lambda>k. (the (at_key k), erase k)) ks)) (b, s) r"
  using assms
proof (induction ks arbitrary: b s)
  case Nil
  then show ?case by (simp add: saved_def)
next
  case (Cons k ks)
  then obtain key where key: "at_key k = Some key" by auto
  from map_body_saved [of a k s key pre b] Cons.prems key obtain ok b1 s1 where
    r: "map_body a pre (at_addr k) (b, s) = Some (ok, b1, s1)" "saved (map_leaves pre [(key, erase k)]) (b, s) (ok, b1, s1)"
    by auto
  then have s1: "nodes s1 = nodes s" "no_oom s1" by (simp_all add: saved_def)
  have "\<forall>k \<in> set ks. saves (Some a) k \<and> holds (nodes s1) (Some a) k \<and> twf k \<and> at_key k \<noteq> None"
    using Cons.prems(1) s1(1) by simp
  from Cons.IH [OF this s1(2), of b1] obtain r' where
    r': "allM (map_body a pre) (map at_addr ks) (b1, s1) = Some r'"
    "saved (map_leaves pre (map (\<lambda>k. (the (at_key k), erase k)) ks)) (b1, s1) r'" by blast
  have e: "map_leaves pre (map (\<lambda>k. (the (at_key k), erase k)) (k # ks)) =
      opt_append (map_leaves pre [(key, erase k)]) (map_leaves pre (map (\<lambda>k. (the (at_key k), erase k)) ks))"
    using key by (simp add: opt_append_def split: option.split)
  have "allM (map_body a pre) (map at_addr (k # ks)) (b, s) = Some (if ok then r' else (False, b1, s1))"
    using r(1) r'(1) by simp
  then show ?case unfolding e using saved_bind [OF r(2), OF r'(2)] by blast
qed

lemma arr_body_saved:
  assumes "saves (Some a) k" "holds (nodes s) (Some a) k" "twf k" "no_oom s" "at_index k = int i" "i \<le> length (cb_text b)"
  shows "\<exists>r. arr_body a pre (at_addr k) (b, s) = Some r \<and> saved (tleaves (pre @ index_text i) (erase k)) (b, s) r"
proof -
  have n: "node_at s (at_addr k) = Some (at_node k)" "cn_parent (at_node k) = Some a"
    using holds_root [OF assms(2)] by (simp_all add: node_at_def)
  let ?s = "s\<lparr>ctick := Suc (ctick s)\<rparr>"
  have oo: "no_oom ?s" using assms(4) by (simp add: no_oom_def)
  from savesD [OF assms(1), of ?s "pre @ index_text i" b] assms(2,3) oo obtain r where
    r: "conf_save_node (at_addr k) (pre @ index_text i) (b, ?s) = Some r" "saved (tleaves (pre @ index_text i) (erase k)) (b, s) r"
    unfolding saved_tick by auto
  have idx: "''['' @ int_dec (int i) @ '']'' = index_text i" "pre @ index_text i \<noteq> []" by (simp_all add: index_text_def)
  have run: "arr_body a pre (at_addr k) (b, s) =
      (if length (index_text i) \<ge> 32 \<or> length pre > SIZE_MAX - length (index_text i) - 1 then Some (False, b, s) else Some r)"
    using n assms(5) r(1) idx(1) by (auto simp: arr_body_def Let_def alloc_ok [OF assms(4)])
  show ?thesis
  proof (cases "length (index_text i) \<ge> 32 \<or> length pre > SIZE_MAX - length (index_text i) - 1")
    case False
    with run r(2) show ?thesis by auto
  next
    case True
    have "saved (tleaves (pre @ index_text i) (erase k)) (b, s) (False, b, s)"
    proof (rule saved_fail [OF assms(4)])
      fix ls assume "tleaves (pre @ index_text i) (erase k) = Some ls"
      from lines_length [OF this idx(2)] have l: "length pre + length (index_text i) + 4 \<le> length (concat (map leaf_line ls))" by simp
      show "SIZE_MAX \<le> length (cb_text b) + length (concat (map leaf_line ls))"
        using True
      proof
        assume "length (index_text i) \<ge> 32"
        then have "SIZE_MAX \<le> i" using index_text_length [of i] by linarith
        with assms(6) show ?thesis by linarith
      next
        assume "length pre > SIZE_MAX - length (index_text i) - 1"
        with l show ?thesis by linarith
      qed
    qed
    with run True show ?thesis by auto
  qed
qed

lemma arr_loop_saved:
  assumes "\<forall>k \<in> set ks. saves (Some a) k \<and> holds (nodes s) (Some a) k \<and> twf k" "no_oom s"
    and "map at_index ks = map int [i..<i + length ks]" "i \<le> length (cb_text b)"
  shows "\<exists>r. allM (arr_body a pre) (map at_addr ks) (b, s) = Some r \<and>
     saved (arr_leaves pre i (map erase ks)) (b, s) r"
  using assms
proof (induction ks arbitrary: b s i)
  case Nil
  then show ?case by (simp add: saved_def)
next
  case (Cons k ks)
  have "[i..<i + length (k # ks)] = i # [Suc i..<Suc i + length ks]" by (subst upt_rec) simp
  from Cons.prems(3) [unfolded this] have ix: "at_index k = int i" "map at_index ks = map int [Suc i..<Suc i + length ks]"
    unfolding list.map by simp_all
  from arr_body_saved [OF _ _ _ Cons.prems(2) ix(1) Cons.prems(4), of a pre] Cons.prems(1) obtain ok b1 s1 where
    r: "arr_body a pre (at_addr k) (b, s) = Some (ok, b1, s1)" "saved (tleaves (pre @ index_text i) (erase k)) (b, s) (ok, b1, s1)"
    by auto
  then have s1: "nodes s1 = nodes s" "no_oom s1" by (simp_all add: saved_def)
  show ?case
  proof (cases ok)
    case False
    have f: "saved None (b1, s1) (False, b1, s1)" using s1 by (simp add: saved_def)
    have "allM (arr_body a pre) (map at_addr (k # ks)) (b, s) = Some (False, b1, s1)" using r(1) False by simp
    moreover have "saved (arr_leaves pre i (map erase (k # ks))) (b, s) (False, b1, s1)"
      using saved_bind [OF r(2), of "arr_leaves pre (Suc i) (map erase ks)" undefined] False by simp
    ultimately show ?thesis by blast
  next
    case True
    with r(2) obtain ls where "tleaves (pre @ index_text i) (erase k) = Some ls" "cb_text b1 = cb_text b @ concat (map leaf_line ls)"
      by (auto simp: saved_def)
    moreover have "pre @ index_text i \<noteq> []" by (simp add: index_text_def)
    ultimately have "Suc i \<le> length (cb_text b1)" using lines_length Cons.prems(4) by fastforce
    moreover have "\<forall>k \<in> set ks. saves (Some a) k \<and> holds (nodes s1) (Some a) k \<and> twf k" using Cons.prems(1) s1(1) by simp
    ultimately obtain r' where r': "allM (arr_body a pre) (map at_addr ks) (b1, s1) = Some r'"
      "saved (arr_leaves pre (Suc i) (map erase ks)) (b1, s1) r'"
      using Cons.IH [OF _ s1(2) ix(2)] by blast
    have "allM (arr_body a pre) (map at_addr (k # ks)) (b, s) = Some (if ok then r' else (False, b1, s1))"
      using r(1) r'(1) True by simp
    moreover have "arr_leaves pre i (map erase (k # ks)) =
        opt_append (tleaves (pre @ index_text i) (erase k)) (arr_leaves pre (Suc i) (map erase ks))" by simp
    ultimately show ?thesis using saved_bind [OF r(2), OF r'(2)] by metis
  qed
qed

lemma conf_save_node_unfold:
  "conf_save_node node pre bs = do {
     n \<leftarrow> node_at (snd bs) node;
     (case cn_type n of
        TYPE_VALUE \<Rightarrow> do {
          (v, s) \<leftarrow> confignode_value_get (Some node) (snd bs);
          Some (case v of None \<Rightarrow> (False, fst bs, s) | Some v \<Rightarrow> conf_save_value v pre (fst bs, s))
        }
      | TYPE_MAP \<Rightarrow> if cn_items n = [] then Some (pre = [], bs) else allM (map_body node pre) (cn_items n) bs
      | TYPE_ARRAY \<Rightarrow> if cn_items n = [] then Some (False, bs) else allM (arr_body node pre) (cn_items n) bs
      | TYPE_NULL \<Rightarrow> Some (False, bs))
   }"
  unfolding map_body_def [abs_def] arr_body_def [abs_def] sub_prefix_def by (subst conf_save_node.simps) (rule refl)

lemma saves_all: "saves par t"
proof (induction t arbitrary: par)
  case (AT a n ks)
  show ?case
    unfolding saves_def
  proof (intro allI impI)
    fix pre b s assume a: "holds (nodes s) par (AT a n ks) \<and> twf (AT a n ks) \<and> no_oom s"
    then have n: "node_at s a = Some n" "cn_items n = map at_addr ks" "kids_ok n ks"
      and ks: "\<forall>k \<in> set ks. saves (Some a) k \<and> holds (nodes s) (Some a) k \<and> twf k" and oo: "no_oom s"
      using AT.IH by (auto simp: node_at_def)
    show "\<exists>r. conf_save_node (at_addr (AT a n ks)) pre (b, s) = Some r \<and> saved (tleaves pre (erase (AT a n ks))) (b, s) r"
    proof (cases "cn_type n")
      case TYPE_NULL
      then have "conf_save_node a pre (b, s) = Some (False, b, s)" using n by (simp add: conf_save_node_unfold)
      with TYPE_NULL oo show ?thesis by (simp add: saved_def)
    next
      case TYPE_VALUE
      obtain v s1 where v: "confignode_value_get (Some a) s = Some (v, s1)" "nodes s1 = nodes s" "no_oom s1" "v = Some (cn_value n)"
        using n TYPE_VALUE oo
        by (cases "cn_value n"; cases "cv_v (cn_value n)") (auto simp: confignode_value_get_def kids_ok_def alloc_ok no_oom_def)
      then have "conf_save_node a pre (b, s) = Some (conf_save_value (cn_value n) pre (b, s1))"
        using n TYPE_VALUE by (simp add: conf_save_node_unfold)
      moreover from save_value_result [OF v(3), of "cn_value n" pre b]
      have "saved (tleaves pre (erase (AT a n ks))) (b, s) (conf_save_value (cn_value n) pre (b, s1))"
        using TYPE_VALUE v(2) by (simp add: saved_def split: prod.splits)
      ultimately show ?thesis by simp
    next
      case TYPE_ARRAY
      show ?thesis
      proof (cases "ks = []")
        case True
        with TYPE_ARRAY n oo show ?thesis by (simp add: conf_save_node_unfold saved_def)
      next
        case False
        have "map at_index ks = map int [0..<0 + length ks]" using n(3) TYPE_ARRAY by (simp add: kids_ok_def)
        from arr_loop_saved [OF ks oo this, of b pre] TYPE_ARRAY n False show ?thesis by (simp add: conf_save_node_unfold)
      qed
    next
      case TYPE_MAP
      show ?thesis
      proof (cases "ks = []")
        case True
        with TYPE_MAP n oo show ?thesis by (auto simp: conf_save_node_unfold saved_def)
      next
        case False
        have "\<forall>k \<in> set ks. saves (Some a) k \<and> holds (nodes s) (Some a) k \<and> twf k \<and> at_key k \<noteq> None"
          using ks n(3) TYPE_MAP by (auto simp: kids_ok_def)
        from map_loop_saved [OF this oo, of pre b] TYPE_MAP n False show ?thesis by (simp add: conf_save_node_unfold)
      qed
    qed
  qed
qed

lemma save_string_lines:
  assumes "holds (nodes s) None t" "twf t" "no_oom s" "cn_type (at_node t) = TYPE_MAP"
    and "\<forall>ls. tleaves [] (erase t) = Some ls \<longrightarrow> length (concat (map leaf_line ls)) < SIZE_MAX"
  shows "\<exists>s'. configfile_conf_save_string (Some (at_addr t)) s =
     Some (map_option (\<lambda>ls. concat (map leaf_line ls)) (tleaves [] (erase t)), s') \<and> nodes s' = nodes s"
proof -
  let ?s = "s\<lparr>ctick := Suc (ctick s)\<rparr>" and ?b = "\<lparr>cb_text = [], cb_size = 1024\<rparr>"
  have "no_oom ?s" using assms(3) by (simp add: no_oom_def)
  from savesD [OF saves_all, of ?s None t "[]" ?b] assms(1,2) this obtain ok b' s' where
    r: "conf_save_node (at_addr t) [] (?b, ?s) = Some (ok, b', s')" "saved (tleaves [] (erase t)) (?b, s) (ok, b', s')"
    unfolding saved_tick by auto
  have "node_at s (at_addr t) = Some (at_node t)" using holds_root [OF assms(1)] by (simp add: node_at_def)
  then have "configfile_conf_save_string (Some (at_addr t)) s = Some (if ok then Some (cb_text b') else None, s')"
    using r(1) assms(4) by (simp add: configfile_conf_save_string_def alloc_ok [OF assms(3)])
  then show ?thesis using r(2) assms(5) by (cases "tleaves [] (erase t)") (auto simp: saved_def)
qed

section \<open>Reading a printed line\<close>

definition path_ok :: "cstring \<Rightarrow> bool" where
  "path_ok p \<longleftrightarrow> p \<noteq> [] \<and> CHR ''='' \<notin> set p \<and> \<not> isspace (hd p) \<and> \<not> isspace (last p) \<and> hd p \<noteq> CHR ''#'' \<and>
     (\<forall>c \<in> set p. \<not> line_end c)"

text \<open>Values whose text is exact: everything but doubles.\<close>

definition exact_value :: "cvalue \<Rightarrow> bool" where
  "exact_value v \<longleftrightarrow> (case cv_v v of
       VString None \<Rightarrow> False
     | VString (Some t) \<Rightarrow> cv_len v = length t \<and> (\<forall>c \<in> set t. \<not> line_end c)
     | VInt i \<Rightarrow> cv_len v = 8 \<and> INT64_MIN \<le> i \<and> i \<le> INT64_MAX
     | VFloat f \<Rightarrow> False
     | VBool b \<Rightarrow> cv_len v = 1)"

lemma rstrip_id: "s \<noteq> [] \<Longrightarrow> \<not> isspace (last s) \<Longrightarrow> rstrip s = s"
  by (cases s rule: rev_cases) (simp_all add: rstrip_def)

lemma rstrip_blank: "isspace c \<Longrightarrow> rstrip (s @ [c]) = rstrip s"
  by (simp add: rstrip_def)

lemma dropWhile_hd: "s \<noteq> [] \<Longrightarrow> \<not> P (hd s) \<Longrightarrow> dropWhile P s = s"
  by (cases s) auto

lemma split_leaf:
  assumes "path_ok p" "v \<noteq> []" "\<not> isspace (hd v)" "\<not> isspace (last v)"
  shows "conf_split_line (p @ '' = '' @ v) =
     (if hd v = CHR 0x22 then
        (if length v < 2 \<or> last v \<noteq> CHR 0x22 then None else Some (Some (p, True, butlast (tl v))))
      else Some (Some (p, False, v)))"
proof -
  have p: "p \<noteq> []" "CHR ''='' \<notin> set p" "\<not> isspace (hd p)" "\<not> isspace (last p)" "hd p \<noteq> CHR ''#''"
    using assms(1) by (simp_all add: path_ok_def)
  let ?line = "p @ '' = '' @ v"
  have sp: "isspace (CHR '' '')" by (simp add: isspace_def cval_def)
  have "rstrip ?line = ?line" using assms(2,4) by (intro rstrip_id) auto
  then have line: "dropWhile isspace (rstrip ?line) = ?line" using p by (simp add: dropWhile_hd)
  have key: "rstrip (takeWhile (\<lambda>c. c \<noteq> CHR ''='') ?line) = p"
  proof -
    have "takeWhile (\<lambda>c. c \<noteq> CHR ''='') ?line = p @ '' ''"
      using p(2) by (induction p) auto
    then show ?thesis using rstrip_blank [OF sp, of p] rstrip_id [OF p(1,4)] by simp
  qed
  have dw: "dropWhile (\<lambda>c. c \<noteq> CHR ''='') ?line = CHR ''='' # '' '' @ v"
    using p(2) by (induction p) auto
  have val: "dropWhile isspace (tl (dropWhile (\<lambda>c. c \<noteq> CHR ''='') ?line)) = v"
    unfolding dw using assms(2,3) sp by (simp add: dropWhile_hd)
  have "?line \<noteq> []" "hd ?line \<noteq> CHR ''#''" "CHR ''='' \<in> set ?line" using p by auto
  then show ?thesis
    unfolding conf_split_line_def line key val Let_def using p(1) assms(2) by simp
qed

fun allocs :: "nat \<Rightarrow> cstate \<Rightarrow> bool \<times> cstate" where
  "allocs 0 s = (True, s)"
| "allocs (Suc n) s = (let (ok, s) = alloc s in if ok then allocs n s else (False, s))"

text \<open>The assignment a line stands for: the copies of key and value, then the setter.\<close>

definition assign :: "ptr \<Rightarrow> cstring \<times> cvalue \<Rightarrow> cstate \<Rightarrow> (bool \<times> cstate) option" where
  "assign root l s =
     (let (ok, s) = allocs (case cv_v (snd l) of VString t \<Rightarrow> 3 | _ \<Rightarrow> 2) s
      in if ok then confignode_path_set_value root (Some (fst l)) (Some (snd l)) s else Some (False, s))"

lemma conf_base_dec: "conf_int_base (int_dec i) = 10"
proof -
  have d: "c \<noteq> CHR ''x'' \<and> c \<noteq> CHR ''X'' \<and> c \<noteq> CHR ''+'' \<and> c \<noteq> CHR ''-''" if "c \<in> set (nat_dec n)" for c n
    using nat_dec_digits [OF that] by (auto simp: isdigit_def cval_def)
  obtain c r where n: "nat_dec (nat \<bar>i\<bar>) = c # r" by (metis nat_dec_Cons)
  show ?thesis using d [of _ "nat \<bar>i\<bar>"] n
    by (cases "i < 0"; cases r) (auto simp: conf_int_base_def int_dec_def)
qed

lemma parse_int_text:
  assumes "INT64_MIN \<le> i" "i \<le> INT64_MAX"
  shows "conf_parse_value (int_dec i) s = (Some \<lparr>cv_v = VInt i, cv_len = 8\<rparr>, s)"
proof -
  have "int_dec i \<noteq> []" by (simp add: int_dec_def)
  then show ?thesis
    unfolding conf_parse_value_def conf_base_dec Let_def strtoll_int_dec [OF assms] by simp
qed

lemma parse_bool_text:
  "conf_parse_value (if b then ''true'' else ''false'') s = (Some \<lparr>cv_v = VBool b, cv_len = 1\<rparr>, s)"
proof -
  have "strtoll 10 ''true'' = \<lparr>sr_val = 0, sr_end = ''true'', sr_range = False\<rparr>"
    "strtoll 10 ''false'' = \<lparr>sr_val = 0, sr_end = ''false'', sr_range = False\<rparr>" by code_simp+
  moreover have "fst (snd (strtod ''true'')) = ''true''" "fst (snd (strtod ''false'')) = ''false''" by code_simp+
  then obtain f1 r1 f2 r2 where "strtod ''true'' = (f1, ''true'', r1)" "strtod ''false'' = (f2, ''false'', r2)"
    by (metis prod.collapse)
  moreover have "conf_int_base ''true'' = 10" "conf_int_base ''false'' = 10" by (simp_all add: conf_int_base_def)
  moreover have "string_is_true (Some ''true'')" "\<not> string_is_true (Some ''false'')" "string_is_false (Some ''false'')" by code_simp+
  ultimately show ?thesis by (cases b) (simp_all add: conf_parse_value_def)
qed

lemma not_isspace_dec [simp]: "\<not> isspace (hd (int_dec i))" "\<not> isspace (last (int_dec i))" "hd (int_dec i) \<noteq> CHR 0x22"
  "c \<in> set (int_dec i) \<Longrightarrow> \<not> line_end c"
proof -
  have c: "\<not> isspace c \<and> c \<noteq> CHR 0x22 \<and> \<not> line_end c" if "c \<in> set (int_dec i)" for c
  proof -
    have "isdigit c \<or> c = CHR ''-''" using that nat_dec_digits by (auto simp: int_dec_def split: if_splits)
    then show ?thesis by (auto simp: isdigit_def isspace_def cval_def line_end_def)
  qed
  have "int_dec i \<noteq> []" by (simp add: int_dec_def)
  then show "\<not> isspace (hd (int_dec i))" "\<not> isspace (last (int_dec i))" "hd (int_dec i) \<noteq> CHR 0x22"
    using c hd_in_set last_in_set by blast+
  show "c \<in> set (int_dec i) \<Longrightarrow> \<not> line_end c" using c by blast
qed

text \<open>The text of an exact value starts and ends with a visible character and has no line end.\<close>

lemma value_text_shape:
  assumes "exact_value v"
  shows "value_text v \<noteq> [] \<and> \<not> isspace (hd (value_text v)) \<and> \<not> isspace (last (value_text v)) \<and>
     (\<forall>c \<in> set (value_text v). \<not> line_end c) \<and> conf_value_pieces (cv_v v) \<noteq> None"
proof (cases "cv_v v")
  case (VInt i)
  have "int_dec i \<noteq> []" by (simp add: int_dec_def)
  with VInt show ?thesis by (simp add: value_text_def conf_value_pieces_def)
next
  case (VString t)
  with assms obtain u where u: "t = Some u" "\<forall>c \<in> set u. \<not> line_end c" by (auto simp: exact_value_def split: option.splits)
  then have "set u \<inter> {CR, LF} = {}" by (auto simp: line_end_def)
  then show ?thesis using VString u by (simp add: value_text_def conf_value_pieces_def isspace_def cval_def line_end_def)
next
  case (VBool b)
  then show ?thesis by (cases b) (auto simp: value_text_def conf_value_pieces_def isspace_def cval_def line_end_def)
qed (use assms in \<open>simp add: exact_value_def\<close>)

lemma parse_leaf:
  assumes "path_ok p" "exact_value v"
  shows "conf_parse_line (Some r) (leaf_text (p, v)) s = assign (Some r) (p, v) s"
proof -
  from value_text_shape [OF assms(2)] have vt: "value_text v \<noteq> []" "\<not> isspace (hd (value_text v))"
    "\<not> isspace (last (value_text v))" "conf_value_pieces (cv_v v) \<noteq> None" by simp_all
  note sp = split_leaf [OF assms(1) vt(1-3)]
  have ne: "leaf_text (p, v) \<noteq> []" using assms(1) by (simp add: leaf_text_def path_ok_def)
  show ?thesis
  proof (cases "\<exists>u. cv_v v = VString (Some u)")
    case True
    then obtain u where u: "cv_v v = VString (Some u)" by blast
    with assms(2) have len: "v = \<lparr>cv_v = VString (Some u), cv_len = length u\<rparr>"
      by (simp add: exact_value_def)
    have t: "value_text v = CHR 0x22 # u @ [CHR 0x22]"
      using u vt(4) by (auto simp: value_text_def conf_value_pieces_def split: if_splits)
    have "conf_split_line (leaf_text (p, v)) = Some (Some (p, True, u))"
      using sp by (simp add: t leaf_text_def)
    then show ?thesis using ne
      by (simp add: conf_parse_line_def assign_def len alloc_def eval_nat_numeral Let_def)
  next
    case False
    have pv: "conf_parse_value (value_text v) s' = (Some v, s')" for s'
    proof (cases "cv_v v")
      case (VInt i)
      then show ?thesis using assms(2) parse_int_text [of i s']
        by (simp add: exact_value_def value_text_def conf_value_pieces_def)
    next
      case (VBool b)
      then show ?thesis using assms(2) parse_bool_text [of b s']
        by (simp add: exact_value_def value_text_def conf_value_pieces_def)
    next
      case (VString t)
      with False assms(2) show ?thesis by (cases t) (simp_all add: exact_value_def)
    qed (use assms(2) in \<open>simp add: exact_value_def\<close>)
    have "hd (value_text v) \<noteq> CHR 0x22"
      using False assms(2)
      by (cases "cv_v v"; cases "cv_v v = VBool True")
        (auto simp: exact_value_def value_text_def conf_value_pieces_def split: option.splits)
    then have "conf_split_line (leaf_text (p, v)) = Some (Some (p, False, value_text v))"
      using sp by (simp add: leaf_text_def)
    moreover have "(case cv_v v of VString t \<Rightarrow> 3 | _ \<Rightarrow> 2) = (2 :: nat)"
      using False assms(2) by (auto simp: exact_value_def split: vdata.splits option.splits)
    ultimately show ?thesis using ne pv
      by (simp add: conf_parse_line_def assign_def alloc_def eval_nat_numeral Let_def)
  qed
qed

lemma sub_prefix_ok:
  assumes "conf_key_is_serializable key (pre = [])" "pre = [] \<or> path_ok pre"
  shows "path_ok (sub_prefix pre key)"
proof -
  have k: "key \<noteq> []" "set key \<inter> {CHR ''.'', CHR ''='', CHR ''['', CR, LF} = {}" "\<not> isspace (hd key)" "\<not> isspace (last key)"
    "pre = [] \<Longrightarrow> hd key \<noteq> CHR ''#''"
    using assms(1) by (auto simp: conf_key_is_serializable_def)
  have c: "\<forall>c \<in> set key. \<not> line_end c \<and> c \<noteq> CHR ''=''" using k(2) by (auto simp: line_end_def)
  show ?thesis
  proof (cases "pre = []")
    case True
    with k c show ?thesis by (auto simp: sub_prefix_def path_ok_def)
  next
    case False
    with k c assms(2) show ?thesis by (auto simp: sub_prefix_def path_ok_def line_end_def)
  qed
qed

lemma index_prefix_ok: "path_ok pre \<Longrightarrow> path_ok (pre @ index_text i)"
proof -
  assume p: "path_ok pre"
  have d: "c \<noteq> CHR ''=''" if "c \<in> set (int_dec (int i))" for c
    using that by (auto simp: int_dec_def isdigit_def cval_def dest!: nat_dec_digits)
  have t: "CHR ''='' \<notin> set (index_text i)" "last (index_text i) = CHR '']''" "index_text i \<noteq> []"
    using d by (auto simp: index_text_def)
  have le: "\<forall>c \<in> set (index_text i). \<not> line_end c"
  proof
    fix c assume "c \<in> set (index_text i)"
    then consider "c = CHR ''[''" | "c = CHR '']''" | "c \<in> set (int_dec (int i))" by (auto simp: index_text_def)
    then show "\<not> line_end c" by cases (simp add: line_end_def, simp add: line_end_def, rule not_isspace_dec(4))
  qed
  have "\<not> isspace (CHR '']'')" by (simp add: isspace_def cval_def)
  with p t le show ?thesis unfolding path_ok_def
    by (metis Un_iff append_is_Nil_conv hd_append2 last_append set_append)
qed

lemma leaves_paths:
  "tleaves pre c = Some ls \<Longrightarrow> path_ok pre \<or> pre = [] \<and> (\<exists>xs. c = CMap xs) \<Longrightarrow> \<forall>l \<in> set ls. path_ok (fst l)"
  "arr_leaves pre i cs = Some ls \<Longrightarrow> path_ok pre \<Longrightarrow> \<forall>l \<in> set ls. path_ok (fst l)"
  "map_leaves pre kcs = Some ls \<Longrightarrow> pre = [] \<or> path_ok pre \<Longrightarrow> \<forall>l \<in> set ls. path_ok (fst l)"
proof (induction pre c and pre i cs and pre kcs arbitrary: ls and ls and ls rule: tleaves_arr_leaves_map_leaves.induct)
  case (6 pre i x xs)
  then obtain a b where ab: "tleaves (pre @ index_text i) x = Some a" "arr_leaves pre (Suc i) xs = Some b" "ls = a @ b" by auto
  from "6.IH"(1) [OF ab(1)] "6.IH"(2) [OF ab(2) "6.prems"(2)] index_prefix_ok [OF "6.prems"(2)] ab(3) show ?case by auto
next
  case (8 pre k x xs)
  then obtain a b where ab: "conf_key_is_serializable k (pre = [])" "tleaves (sub_prefix pre k) x = Some a"
    "map_leaves pre xs = Some b" "ls = a @ b" by (auto split: if_splits)
  from "8.IH"(1) [OF ab(1,2)] "8.IH"(2) [OF ab(1,3) "8.prems"(2)] sub_prefix_ok [OF ab(1) "8.prems"(2)] ab(4)
  show ?case by auto
qed (auto split: if_splits)

section \<open>Reading what was printed\<close>

declare conf_load_loop.simps [simp del]

fun replay :: "ptr \<Rightarrow> (cstring \<times> cvalue) list \<Rightarrow> cstate \<Rightarrow> (bool \<times> cstate) option" where
  "replay root [] s = Some (True, s)"
| "replay root (l # ls) s = do {
     (ok, s) \<leftarrow> assign root l s;
     (if ok then replay root ls s else Some (False, s))
   }"

lemma load_lines:
  assumes "\<forall>l \<in> set ls. path_ok (fst l) \<and> exact_value (snd l)"
  shows "conf_load_loop (Some r) (concat (map leaf_line ls)) s = replay (Some r) ls s"
  using assms
proof (induction ls arbitrary: s)
  case Nil
  then show ?case by (subst conf_load_loop.simps) simp
next
  case (Cons l ls)
  have l: "path_ok (fst l)" "exact_value (snd l)" using Cons.prems by auto
  have clean: "\<forall>c \<in> set (leaf_text m). \<not> line_end c" "leaf_text m \<noteq> []" if "path_ok (fst m)" "exact_value (snd m)" for m
    using that value_text_shape [OF that(2)] by (auto simp: leaf_text_def path_ok_def line_end_def)
  let ?rest = "concat (map leaf_line ls)"
  have lf: "line_end LF" by (simp add: line_end_def)
  have cur: "concat (map leaf_line (l # ls)) = leaf_text l @ LF # ?rest" by (simp add: leaf_line_def)
  have tw: "takeWhile (\<lambda>c. \<not> line_end c) (leaf_text l @ LF # ?rest) = leaf_text l"
    and dw: "dropWhile (\<lambda>c. \<not> line_end c) (leaf_text l @ LF # ?rest) = LF # ?rest"
    using clean [OF l] lf by (simp_all add: takeWhile_append2 dropWhile_append2)
  have "dropWhile line_end ?rest = ?rest"
  proof (cases ls)
    case (Cons m ms)
    with Cons.prems clean [of m] have "?rest \<noteq> []" "\<not> line_end (hd ?rest)" by (auto simp: leaf_line_def)
    then show ?thesis by (rule dropWhile_hd)
  qed simp
  then have next_line: "dropWhile line_end (LF # ?rest) = ?rest" using lf by simp
  have ne: "leaf_text l @ LF # ?rest \<noteq> []" by simp
  have pl: "conf_parse_line (Some r) (leaf_text l) s = assign (Some r) l s" using parse_leaf [OF l, of r s] by simp
  have IH: "conf_load_loop (Some r) ?rest s = replay (Some r) ls s" for s using Cons.IH Cons.prems by simp
  have "conf_load_loop (Some r) (leaf_text l @ LF # ?rest) s = do {
      (ok, s) \<leftarrow> assign (Some r) l s; (if \<not> ok then Some (False, s) else replay (Some r) ls s) }"
    by (subst conf_load_loop.simps) (simp only: ne if_False tw dw next_line Let_def pl IH clean [OF l])
  also have "\<dots> = replay (Some r) (l # ls) s" by (cases "assign (Some r) l s") auto
  finally show ?case unfolding cur .
qed

text \<open>Saving a configuration and loading the text: the same assignments, in the order of the leaves.\<close>

lemma save_load:
  assumes "holds (nodes s) None t" "twf t" "no_oom s" "cn_type (at_node t) = TYPE_MAP"
    and "tleaves [] (erase t) = Some ls" "\<forall>l \<in> set ls. exact_value (snd l)"
    and "length (concat (map leaf_line ls)) < SIZE_MAX"
  shows "\<exists>text s'. configfile_conf_save_string (Some (at_addr t)) s = Some (Some text, s') \<and> nodes s' = nodes s \<and>
     (\<forall>r s0. conf_load_loop (Some r) text s0 = replay (Some r) ls s0)"
proof -
  have m: "\<exists>xs. erase t = CMap xs" using assms(4) by (cases t) auto
  have p: "\<forall>l \<in> set ls. path_ok (fst l) \<and> exact_value (snd l)"
    using leaves_paths(1) [OF assms(5)] m assms(6) by blast
  from save_string_lines [OF assms(1-4)] assms(5,7) load_lines [OF p] show ?thesis by auto
qed

end
