(* ===== verification/ConfigMerge.thy ===== *)
theory ConfigMerge
  imports ConfigCopy "HOL-Library.AList"
begin

text \<open>
  \<open>confignode_merge\<close>: the abstract merge of two configurations, and the proof that the heap code
  implements it: it returns; on success the target keeps its address, parent, key and index and
  stands for the merged configuration, and on failure (an allocation failed) the heap is as before.
\<close>

section \<open>The abstract merge\<close>

fun tmerge :: "ctree \<Rightarrow> ctree \<Rightarrow> ctree" and tmerge_all :: "(cstring \<times> ctree) list \<Rightarrow> (cstring \<times> ctree) list \<Rightarrow>
    (cstring \<times> ctree) list" where
  "tmerge a (CMap ys) = (case a of CMap xs \<Rightarrow> CMap (tmerge_all xs ys) | _ \<Rightarrow> CMap ys)"
| "tmerge a (CArr ys) = (case a of CArr xs \<Rightarrow> CArr (xs @ ys) | _ \<Rightarrow> CArr ys)"
| "tmerge a (CVal v) = CVal v"
| "tmerge a CNull = CNull"
| "tmerge_all xs [] = xs"
| "tmerge_all xs ((k, v) # ys) =
     tmerge_all (AList.update k (case map_of xs k of None \<Rightarrow> v | Some u \<Rightarrow> tmerge u v) xs) ys"

section \<open>Growing a tree in place\<close>

text \<open>
  \<open>w'\<close> is what became of the tree \<open>w\<close> between two states: same root, nodes taken from \<open>w\<close> and from
  fresh memory, nothing else touched, and nothing of \<open>w\<close> left behind.
\<close>

definition grown :: "ptr \<Rightarrow> cstate \<Rightarrow> atree \<Rightarrow> cstate \<Rightarrow> atree \<Rightarrow> bool" where
  "grown par s w s' w' \<longleftrightarrow>
     at_addr w' = at_addr w \<and> at_key w' = at_key w \<and> at_index w' = at_index w \<and>
     holds (nodes s') par w' \<and> twf w' \<and> distinct (taddrs w') \<and>
     set (taddrs w') \<subseteq> set (taddrs w) \<union> {cnxt s..<cnxt s'} \<and>
     (\<forall>x. x \<notin> set (taddrs w) \<longrightarrow> x \<notin> set (taddrs w') \<longrightarrow> nodes s' x = nodes s x) \<and>
     (\<forall>x \<in> set (taddrs w) - set (taddrs w'). nodes s' x = None)"

lemma grown_refl:
  "holds (nodes s) par w \<Longrightarrow> twf w \<Longrightarrow> distinct (taddrs w) \<Longrightarrow> nodes s' = nodes s \<Longrightarrow> cnxt s \<le> cnxt s' \<Longrightarrow>
   grown par s w s' w"
  by (auto simp: grown_def)

lemma grown_trans:
  assumes "grown par s w s1 w1" "grown par s1 w1 s2 w2" "wf_state s" "cnxt s \<le> cnxt s1" "cnxt s1 \<le> cnxt s2"
  shows "grown par s w s2 w2"
proof -
  have sub: "set (taddrs w2) \<subseteq> set (taddrs w) \<union> {cnxt s..<cnxt s2}"
    using assms(1,2,4,5) by (fastforce simp: grown_def)
  moreover have "nodes s2 x = nodes s x" if "x \<notin> set (taddrs w)" "x \<notin> set (taddrs w2)" for x
  proof (cases "x \<in> set (taddrs w1)")
    case True
    then have "nodes s2 x = None" using assms(2) that(2) by (auto simp: grown_def)
    moreover have "cnxt s \<le> x" using True assms(1) that(1) by (auto simp: grown_def)
    ultimately show ?thesis using assms(3) by (simp add: wf_state_def)
  next
    case False
    with assms(1,2) that show ?thesis by (auto simp: grown_def)
  qed
  moreover have "nodes s2 x = None" if "x \<in> set (taddrs w)" "x \<notin> set (taddrs w2)" for x
  proof (cases "x \<in> set (taddrs w1)")
    case True
    with assms(2) that show ?thesis by (auto simp: grown_def)
  next
    case False
    then have "nodes s1 x = None" using assms(1) that by (auto simp: grown_def)
    with False assms(2) that show ?thesis by (auto simp: grown_def)
  qed
  ultimately show ?thesis using assms(1,2) by (simp add: grown_def)
qed

text \<open>Anything away from the growing tree stays what it was.\<close>

lemma grown_frame:
  assumes "grown par s w s' w'" "holds (nodes s) q t" "set (taddrs t) \<inter> set (taddrs w) = {}" "wf_state s"
  shows "holds (nodes s') q t" "set (taddrs t) \<inter> set (taddrs w') = {}"
proof -
  have below: "x < cnxt s" if "x \<in> set (taddrs t)" for x
    using linked_node [OF holds_linked [OF assms(2)] that] assms(4)
    by (auto simp: wf_state_def not_le [symmetric])
  have sep: "x \<notin> set (taddrs w')" if "x \<in> set (taddrs t)" for x
    using below [OF that] that assms(1,3) by (fastforce simp: grown_def)
  then show "set (taddrs t) \<inter> set (taddrs w') = {}" by blast
  have "holds (nodes s') q t = holds (nodes s) q t"
  proof (rule holds_cong)
    fix x assume x: "x \<in> set (taddrs t)"
    with assms(3) have "x \<notin> set (taddrs w)" by blast
    with sep [OF x] assms(1) show "nodes s' x = nodes s x" by (simp add: grown_def)
  qed
  with assms(2) show "holds (nodes s') q t" by simp
qed

section \<open>Replacing the contents of a node\<close>

fun reparent :: "addr \<Rightarrow> atree \<Rightarrow> atree" where
  "reparent p (AT a n ks) = AT a (n\<lparr>cn_parent := Some p\<rparr>) ks"

lemma reparent_simps [simp]:
  "at_addr (reparent p t) = at_addr t" "taddrs (reparent p t) = taddrs t"
  "at_key (reparent p t) = at_key t" "at_index (reparent p t) = at_index t"
  "at_node (reparent p t) = (at_node t)\<lparr>cn_parent := Some p\<rparr>"
  by (cases t; simp)+

lemma erase_reparent [simp]: "erase (reparent p t) = erase t"
  by (cases t) (simp cong: ntype.case_cong)

lemma kids_ok_parent [simp]: "kids_ok (n\<lparr>cn_parent := q\<rparr>) ks = kids_ok n ks"
  by (simp add: kids_ok_def cong: ntype.case_cong)

lemma twf_reparent [simp]: "twf (reparent p t) = twf t"
  by (cases t) simp

lemma holds_reparent:
  assumes "holds N q t" "distinct (taddrs t)"
    and "M (at_addr t) = Some ((at_node t)\<lparr>cn_parent := Some p\<rparr>)"
    and "\<And>x. x \<in> set (taddrs t) \<Longrightarrow> x \<noteq> at_addr t \<Longrightarrow> M x = N x"
  shows "holds M (Some p) (reparent p t)"
proof (cases t)
  case (AT a n ks)
  show ?thesis
    unfolding AT reparent.simps
    by (rule holds_reroot [of N q a n ks]) (use assms AT in auto)
qed

lemma reparent_loop:
  assumes "\<forall>x \<in> set xs. nodes s x \<noteq> None" "distinct xs"
  shows "foldM (\<lambda>c s. upd_node c f s) xs s =
     Some (s\<lparr>nodes := \<lambda>x. if x \<in> set xs then map_option f (nodes s x) else nodes s x\<rparr>)"
  using assms
proof (induction xs arbitrary: s)
  case (Cons a xs)
  then obtain n where n: "nodes s a = Some n" by auto
  have "\<forall>x \<in> set xs. nodes (put_node a (f n) s) x \<noteq> None" using Cons.prems by auto
  from Cons.IH [OF this] Cons.prems n show ?case
    by (auto simp: upd_node_def node_at_def put_node_def fun_eq_iff intro!: cstate.equality)
qed simp

lemma distinct_kid: "distinct (concat (map taddrs ks)) \<Longrightarrow> k \<in> set ks \<Longrightarrow> distinct (taddrs k)"
  by (induction ks) auto

lemma twf_kid: "twf (AT a n ks) \<Longrightarrow> k \<in> set ks \<Longrightarrow> twf k"
  by simp

text \<open>The node that takes over the contents of \<open>m\<close>.\<close>

definition takeover :: "cnode \<Rightarrow> cnode \<Rightarrow> cnode" where
  "takeover n m = m\<lparr>cn_parent := cn_parent n, cn_key := cn_key n, cn_index := cn_index n\<rparr>"

lemma takeover_simps [simp]:
  "cn_parent (takeover n m) = cn_parent n" "cn_key (takeover n m) = cn_key n"
  "cn_index (takeover n m) = cn_index n" "cn_type (takeover n m) = cn_type m"
  "cn_items (takeover n m) = cn_items m" "cn_value (takeover n m) = cn_value m"
  by (simp_all add: takeover_def)

lemma kids_ok_cong:
  "cn_type n = cn_type m \<Longrightarrow> cn_value n = cn_value m \<Longrightarrow> map at_index ks = map at_index js \<Longrightarrow>
   map at_key ks = map at_key js \<Longrightarrow> kids_ok n ks = kids_ok m js"
proof -
  assume a: "cn_type n = cn_type m" "cn_value n = cn_value m" "map at_index ks = map at_index js"
    "map at_key ks = map at_key js"
  have l: "length ks = length js" using a(4) by (rule map_eq_imp_length_eq)
  have "(\<forall>k \<in> set ks. \<exists>s. at_key k = Some s \<and> cstr s) \<longleftrightarrow> (\<forall>k \<in> set js. \<exists>s. at_key k = Some s \<and> cstr s)"
    using arg_cong [OF a(4), of "\<lambda>l. \<forall>k \<in> set l. \<exists>s. k = Some s \<and> cstr s"] by simp
  with a l show ?thesis
    by (auto simp: kids_ok_def split: ntype.splits)
qed

lemma replace_contents_step:
  assumes w: "holds (nodes s) par (AT a n ks)" and r: "holds (nodes s) None (AT b m js)"
    and d: "distinct (taddrs (AT a n ks) @ taddrs (AT b m js))"
  shows "confignode_replace_contents a b s = Some (True, s\<lparr>nodes := \<lambda>x.
     if x = a then Some (takeover n m)
     else if x \<in> at_addr ` set js then map_option (\<lambda>c. c\<lparr>cn_parent := Some a\<rparr>) (nodes s x)
     else if x = b \<or> x \<in> set (concat (map taddrs ks)) then None
     else nodes s x\<rparr>)"
proof -
  let ?n = "n\<lparr>cn_parent := None, cn_key := cn_key m, cn_index := -1\<rparr>"
  let ?s1 = "put_node b ?n (put_node a (takeover n m) s)"
  have ab: "a \<noteq> b" using d by auto
  have nd: "nodes s a = Some n" "nodes s b = Some m" "cn_parent m = None"
    "cn_items n = map at_addr ks" "cn_items m = map at_addr js" using w r by auto
  have kin: "at_addr k \<in> set (concat (map taddrs ks))" if "k \<in> set ks" for k
    using kid_addr_in [OF that] .
  have jin: "at_addr k \<in> set (concat (map taddrs js))" if "k \<in> set js" for k
    using kid_addr_in [OF that] .
  have d': "a \<notin> set (concat (map taddrs ks))" "a \<notin> set (concat (map taddrs js))"
    "b \<notin> set (concat (map taddrs ks))" "b \<notin> set (concat (map taddrs js))"
    "set (concat (map taddrs ks)) \<inter> set (concat (map taddrs js)) = {}"
    "distinct (concat (map taddrs ks))" "distinct (concat (map taddrs js))"
    using d by auto
  have da: "distinct (map at_addr ks)" "distinct (map at_addr js)"
    by (rule distinct_kids, rule d'(6), rule distinct_kids, rule d'(7))
  have kk: "\<exists>c. nodes s (at_addr k) = Some c" if "k \<in> set ks" for k
    using w that holds_root [of "nodes s" "Some a" k] by auto
  have jj: "\<exists>c. nodes s (at_addr k) = Some c" if "k \<in> set js" for k
    using r that holds_root [of "nodes s" "Some b" k] by auto
  let ?f = "\<lambda>p (c::cnode). c\<lparr>cn_parent := Some p\<rparr>"
  let ?s2 = "?s1\<lparr>nodes := \<lambda>x. if x \<in> set (map at_addr js) then map_option (?f a) (nodes ?s1 x) else nodes ?s1 x\<rparr>"
  let ?s3 = "?s2\<lparr>nodes := \<lambda>x. if x \<in> set (map at_addr ks) then map_option (?f b) (nodes ?s2 x) else nodes ?s2 x\<rparr>"
  have "\<forall>x \<in> set (map at_addr js). nodes ?s1 x \<noteq> None" using jj by auto
  note l1 = reparent_loop [OF this da(2), of "?f a"]
  have "\<forall>x \<in> set (map at_addr ks). nodes ?s2 x \<noteq> None" using kk by auto
  note l2 = reparent_loop [OF this da(1), of "?f b"]
  have r1: "confignode_reparent_children a ?s1 = Some ?s2"
    using l1 ab nd by (simp add: confignode_reparent_children_def node_at_def)
  have b2: "nodes ?s2 b = Some ?n" using jin d'(4) by auto
  have r2: "confignode_reparent_children b ?s2 = Some ?s3"
    using l2 b2 nd by (simp add: confignode_reparent_children_def node_at_def)
  have "holds (nodes ?s3) None (AT b ?n (map (reparent b) ks))"
  proof -
    have "nodes ?s3 b = Some ?n" using b2 kin d'(3) by auto
    moreover have "holds (nodes ?s3) (Some b) (reparent b k)" if k: "k \<in> set ks" for k
    proof (rule holds_reparent [of "nodes s" "Some a"])
      show "holds (nodes s) (Some a) k" using w k by simp
      show "distinct (taddrs k)" by (rule distinct_kid [OF d'(6) k])
      have ne: "at_addr k \<noteq> a" "at_addr k \<noteq> b" "at_addr k \<notin> at_addr ` set js"
        using kin [OF k] jin d' by auto
      with k w holds_root [of "nodes s" "Some a" k]
      show "nodes ?s3 (at_addr k) = Some ((at_node k)\<lparr>cn_parent := Some b\<rparr>)" by auto
      fix x assume x: "x \<in> set (taddrs k)" "x \<noteq> at_addr k"
      have xin: "x \<in> set (concat (map taddrs ks))" using x(1) k by auto
      have "x \<notin> at_addr ` set ks"
      proof
        assume "x \<in> at_addr ` set ks"
        then obtain k2 where k2: "k2 \<in> set ks" "x = at_addr k2" by blast
        obtain us vs where ks: "ks = us @ k # vs" using split_list [OF k] by blast
        with k2 x(2) have "k2 \<in> set us \<or> k2 \<in> set vs" by auto
        with k2 x(1) d'(6) ks taddrs_root [of k2] show False by auto
      qed
      moreover have "x \<noteq> a" "x \<noteq> b" "x \<notin> at_addr ` set js" using xin jin d' by auto
      ultimately show "nodes ?s3 x = nodes s x" by auto
    qed
    ultimately show ?thesis using nd by simp
  qed
  from clean_root [OF this] d' have cl: "confignode_clean b ?s3 = Some (?s3\<lparr>nodes := \<lambda>x.
      if x = b \<or> x \<in> set (concat (map taddrs ks)) then None else nodes ?s3 x\<rparr>)"
    by (simp add: comp_def cong: map_cong)
  have "confignode_replace_contents a b s = Some (True, ?s3\<lparr>nodes := \<lambda>x.
      if x = b \<or> x \<in> set (concat (map taddrs ks)) then None else nodes ?s3 x\<rparr>)"
    using nd ab r1 r2 cl
    by (simp add: confignode_replace_contents_def node_at_def takeover_def)
  also have "\<dots> = Some (True, s\<lparr>nodes := \<lambda>x.
     if x = a then Some (takeover n m)
     else if x \<in> at_addr ` set js then map_option (\<lambda>c. c\<lparr>cn_parent := Some a\<rparr>) (nodes s x)
     else if x = b \<or> x \<in> set (concat (map taddrs ks)) then None
     else nodes s x\<rparr>)"
  proof -
    have "(if x = b \<or> x \<in> set (concat (map taddrs ks)) then None else nodes ?s3 x) =
     (if x = a then Some (takeover n m)
     else if x \<in> at_addr ` set js then map_option (\<lambda>c. c\<lparr>cn_parent := Some a\<rparr>) (nodes s x)
     else if x = b \<or> x \<in> set (concat (map taddrs ks)) then None
     else nodes s x)" for x
    proof -
      consider "x = a" | "x = b" | j where "j \<in> set js" "x = at_addr j" | "x \<in> set (concat (map taddrs ks))"
        | "x \<noteq> a" "x \<noteq> b" "x \<notin> at_addr ` set js" "x \<notin> set (concat (map taddrs ks))" by blast
      moreover have im: "at_addr ` set ks \<subseteq> set (concat (map taddrs ks))"
        "at_addr ` set js \<subseteq> set (concat (map taddrs js))" using kin jin by blast+
      moreover have out: "a \<notin> at_addr ` set ks" "a \<notin> at_addr ` set js" "b \<notin> at_addr ` set ks"
        "b \<notin> at_addr ` set js" using im d' by blast+
      ultimately show ?thesis
      proof cases
        case 3
        then have "x \<in> at_addr ` set js" "x \<notin> set (concat (map taddrs ks))" "x \<noteq> a" "x \<noteq> b"
          using im d' by blast+
        moreover from this im have "x \<notin> at_addr ` set ks" by blast
        ultimately show ?thesis by simp
      next
        case 4
        then have "x \<noteq> a" "x \<notin> at_addr ` set js" using im d' by blast+
        with 4 show ?thesis by simp
      next
        case 5
        with im have "x \<notin> at_addr ` set ks" by blast
        with 5 show ?thesis by simp
      qed (use ab out d'(1-4) in simp_all)
    qed
    then show ?thesis
      by (intro arg_cong [where f = "\<lambda>f. Some (True, f)"] cstate.equality) (auto simp: put_node_def)
  qed
  finally show ?thesis .
qed

lemma built_frame:
  assumes "built s s1 u" "holds (nodes s) par w" "wf_state s"
  shows "holds (nodes s1) par w" "set (taddrs w) \<inter> set (taddrs u) = {}"
proof -
  have sep: "x \<notin> set (taddrs u)" if "x \<in> set (taddrs w)" for x
    using linked_node [OF holds_linked [OF assms(2)] that] assms(1,3)
    by (force simp: built_def wf_state_def)
  then show "set (taddrs w) \<inter> set (taddrs u) = {}" by blast
  have "holds (nodes s1) par w = holds (nodes s) par w"
    by (rule holds_cong) (use sep assms(1) in \<open>auto simp: built_def\<close>)
  with assms(2) show "holds (nodes s1) par w" by simp
qed

lemma replace_grown:
  assumes w: "holds (nodes s) par (AT a n ks)" "distinct (taddrs (AT a n ks))"
    and c: "built s s1 (AT b m js)" and wf: "wf_state s" and p: "progress s s1"
  shows "\<exists>s2. confignode_replace_contents a b s1 = Some (True, s2) \<and> progress s s2 \<and>
     grown par s (AT a n ks) s2 (AT a (takeover n m) (map (reparent a) js)) \<and>
     erase (AT a (takeover n m) (map (reparent a) js)) = erase (AT b m js)"
proof -
  let ?W = "AT a n ks" and ?C = "AT b m js" and ?w = "AT a (takeover n m) (map (reparent a) js)"
  note fr = built_frame [OF c w(1) wf]
  have hc: "holds (nodes s1) None ?C" and tc: "twf ?C" and dc: "distinct (taddrs ?C)"
    using c by (auto simp only: built_def)
  have d: "distinct (taddrs ?W @ taddrs ?C)" using w(2) dc fr(2) by (simp del: taddrs.simps)
  let ?N = "\<lambda>x. if x = a then Some (takeover n m)
     else if x \<in> at_addr ` set js then map_option (\<lambda>c. c\<lparr>cn_parent := Some a\<rparr>) (nodes s1 x)
     else if x = b \<or> x \<in> set (concat (map taddrs ks)) then None
     else nodes s1 x"
  let ?s2 = "s1\<lparr>nodes := ?N\<rparr>"
  have st: "confignode_replace_contents a b s1 = Some (True, ?s2)"
    by (rule replace_contents_step [OF fr(1) hc d])
  have jin: "at_addr ` set js \<subseteq> set (concat (map taddrs js))" using kid_addr_in by blast
  have d': "a \<notin> set (concat (map taddrs js))" "b \<notin> set (concat (map taddrs js))"
    "set (concat (map taddrs ks)) \<inter> set (concat (map taddrs js)) = {}" "distinct (concat (map taddrs js))"
    "a \<noteq> b" "a \<notin> set (concat (map taddrs ks))"
    using d by auto
  have ta: "taddrs ?w = a # concat (map taddrs js)" by (simp add: comp_def)
  have par: "cn_parent n = par" using w(1) by simp
  have "holds ?N (Some a) (reparent a j)" if j: "j \<in> set js" for j
  proof (rule holds_reparent [of "nodes s1" "Some b"])
    show hj: "holds (nodes s1) (Some b) j" using hc j by simp
    show "distinct (taddrs j)" by (rule distinct_kid [OF d'(4) j])
    have "at_addr j \<noteq> a" using j jin d'(1) by blast
    with j holds_root [OF hj] show "?N (at_addr j) = Some ((at_node j)\<lparr>cn_parent := Some a\<rparr>)" by simp
    fix x assume x: "x \<in> set (taddrs j)" "x \<noteq> at_addr j"
    then have xin: "x \<in> set (concat (map taddrs js))" using j by auto
    have "x \<notin> at_addr ` set js"
    proof
      assume "x \<in> at_addr ` set js"
      then obtain j2 where j2: "j2 \<in> set js" "x = at_addr j2" by blast
      obtain us vs where js: "js = us @ j # vs" using split_list [OF j] by blast
      with j2 x(2) have "j2 \<in> set us \<or> j2 \<in> set vs" by auto
      with j2 x(1) d'(4) js taddrs_root [of j2] show False by auto
    qed
    moreover have "x \<noteq> a" "x \<noteq> b" "x \<notin> set (concat (map taddrs ks))" using xin d' by blast+
    ultimately show "?N x = nodes s1 x" by simp
  qed
  then have "holds ?N par ?w" using par hc by (simp add: comp_def)
  moreover have "twf ?w"
  proof -
    have "kids_ok (takeover n m) (map (reparent a) js) = kids_ok m js"
      by (rule kids_ok_cong) (simp_all add: comp_def)
    with tc show ?thesis by simp
  qed
  moreover have "distinct (taddrs ?w)" unfolding ta using d'(1,4) by simp
  moreover have sub: "set (taddrs ?w) \<subseteq> set (taddrs ?W) \<union> {cnxt s..<cnxt s1}"
    using c unfolding ta by (auto simp: built_def)
  moreover have "?N x = nodes s x" if "x \<notin> set (taddrs ?W)" "x \<notin> set (taddrs ?w)" for x
  proof -
    have ne: "x \<noteq> a" "x \<notin> at_addr ` set js" "x \<notin> set (concat (map taddrs ks))"
      using that jin unfolding ta by auto
    show ?thesis
    proof (cases "x = b")
      case True
      moreover have "cnxt s \<le> b" using c by (auto simp: built_def)
      ultimately show ?thesis using ne wf by (simp add: wf_state_def)
    next
      case False
      with that c have "nodes s1 x = nodes s x" unfolding ta by (auto simp: built_def)
      with ne False show ?thesis by simp
    qed
  qed
  moreover have "?N x = None" if "x \<in> set (taddrs ?W) - set (taddrs ?w)" for x
  proof -
    from that have "x \<noteq> a" "x \<notin> at_addr ` set js" "x \<in> set (concat (map taddrs ks))"
      using jin unfolding ta by auto
    then show ?thesis by simp
  qed
  ultimately have "grown par s ?W ?s2 ?w" unfolding grown_def by (simp del: taddrs.simps twf.simps holds.simps)
  moreover have "progress s ?s2"
  proof -
    have "a < cnxt s1"
      using linked_node [OF holds_linked [OF fr(1)] taddrs_root] p by (force simp: progress_def wf_state_def not_le [symmetric])
    with p show ?thesis by (auto simp: progress_def wf_state_def)
  qed
  moreover have "erase ?w = erase ?C" by (simp add: comp_def cong: ntype.case_cong)
  ultimately show ?thesis using st by blast
qed

section \<open>One entry\<close>

lemma grown_append:
  assumes w: "holds (nodes s) par (AT a n ds)" "twf (AT a n ds)" "distinct (taddrs (AT a n ds))"
    and u: "built s s1 (AT b m js)" and wf: "wf_state s"
    and m': "cn_parent m' = Some a" "cn_items m' = cn_items m" "cn_type m' = cn_type m" "cn_value m' = cn_value m"
    and s2: "nodes s2 = (nodes s1)(a \<mapsto> n\<lparr>cn_items := cn_items n @ [b]\<rparr>, b \<mapsto> m')" "cnxt s1 \<le> cnxt s2"
    and k: "kids_ok n (ds @ [AT b m' js])"
  shows "grown par s (AT a n ds) s2 (AT a (n\<lparr>cn_items := cn_items n @ [b]\<rparr>) (ds @ [AT b m' js]))"
proof -
  let ?A = "AT a n ds" and ?B = "AT b m js" and ?R = "AT a (n\<lparr>cn_items := cn_items n @ [b]\<rparr>) (ds @ [AT b m' js])"
  note fr = built_frame [OF u w(1) wf]
  have b: "holds (nodes s1) None ?B" "twf ?B" "distinct (taddrs ?B)" using u by (auto simp only: built_def)
  have dist: "distinct (taddrs ?A @ taddrs ?B)" using w(3) b(3) fr(2) by (simp del: taddrs.simps)
  have ta: "set (taddrs ?R) = set (taddrs ?A) \<union> set (taddrs ?B)" by auto
  have "holds (nodes s2) par ?R"
    unfolding s2(1) by (rule append_holds [OF fr(1) b(1) dist m'(1,2)])
  moreover have "twf ?R"
  proof -
    have "kids_ok (n\<lparr>cn_items := cn_items n @ [b]\<rparr>) (ds @ [AT b m' js])"
      using k by (simp add: kids_ok_def cong: ntype.case_cong)
    moreover have "kids_ok m' js" using b(2) m'(3,4) by (simp add: kids_ok_def cong: ntype.case_cong)
    ultimately show ?thesis using w(2) b(2) by auto
  qed
  moreover have "distinct (taddrs ?R)" using dist by auto
  moreover have "set (taddrs ?R) \<subseteq> set (taddrs ?A) \<union> {cnxt s..<cnxt s2}"
    using u s2(2) unfolding ta by (fastforce simp: built_def)
  moreover have "nodes s2 x = nodes s x" if "x \<notin> set (taddrs ?A)" "x \<notin> set (taddrs ?R)" for x
  proof -
    have "x \<notin> set (taddrs ?B)" "x \<noteq> a" "x \<noteq> b" using that unfolding ta by auto
    then show ?thesis using u s2(1) by (simp add: built_def)
  qed
  moreover have "nodes s2 x = None" if "x \<in> set (taddrs ?A) - set (taddrs ?R)" for x
    using that unfolding ta by blast
  ultimately show ?thesis unfolding grown_def
    by (simp del: taddrs.simps holds.simps twf.simps)
qed

lemma grown_kid:
  assumes w: "holds (nodes s) par (AT a n (us @ d # vs))" "twf (AT a n (us @ d # vs))"
      "distinct (taddrs (AT a n (us @ d # vs)))"
    and g: "grown (Some a) s d s' d'" and wf: "wf_state s"
  shows "grown par s (AT a n (us @ d # vs)) s' (AT a n (us @ d' # vs))"
proof -
  let ?W = "AT a n (us @ d # vs)" and ?R = "AT a n (us @ d' # vs)"
  have below: "x < cnxt s" if "x \<in> set (taddrs ?W)" for x
    using linked_node [OF holds_linked [OF w(1)] that] wf by (auto simp: wf_state_def not_le [symmetric])
  have sub: "set (taddrs d') \<subseteq> set (taddrs d) \<union> {cnxt s..<cnxt s'}" using g by (simp add: grown_def)
  have "a < cnxt s" by (rule below) simp
  then have a: "a \<notin> set (taddrs d')" "a \<notin> set (taddrs d)" using sub w(3) by auto
  have na: "nodes s' a = Some n"
    using g a w(1) by (auto simp: grown_def)
  have other: "holds (nodes s') (Some a) k \<and> set (taddrs k) \<inter> set (taddrs d') = {}"
    if "k \<in> set us \<union> set vs" for k
  proof -
    have "holds (nodes s) (Some a) k" "set (taddrs k) \<inter> set (taddrs d) = {}"
      using w(1,3) that by auto
    from grown_frame [OF g this wf] show ?thesis by blast
  qed
  have g': "at_addr d' = at_addr d" "at_key d' = at_key d" "at_index d' = at_index d"
    "holds (nodes s') (Some a) d'" "twf d'" "distinct (taddrs d')"
    "\<And>x. x \<notin> set (taddrs d) \<Longrightarrow> x \<notin> set (taddrs d') \<Longrightarrow> nodes s' x = nodes s x"
    "\<And>x. x \<in> set (taddrs d) - set (taddrs d') \<Longrightarrow> nodes s' x = None"
    using g by (simp_all add: grown_def)
  have "holds (nodes s') par ?R" using na w(1) other g'(1,4) by auto
  moreover have "twf ?R"
  proof -
    have "kids_ok n (us @ d' # vs) = kids_ok n (us @ d # vs)"
      by (rule kids_ok_cong) (simp_all add: g')
    with w(2) g'(5) show ?thesis by auto
  qed
  moreover have "distinct (taddrs ?R)"
  proof -
    have "set (concat (map taddrs us)) \<inter> set (taddrs d') = {}" "set (concat (map taddrs vs)) \<inter> set (taddrs d') = {}"
      using other by auto
    with w(3) g'(6) a(1) show ?thesis by (auto simp: Int_commute)
  qed
  moreover have "set (taddrs ?R) \<subseteq> set (taddrs ?W) \<union> {cnxt s..<cnxt s'}" using sub by auto
  moreover have "nodes s' x = nodes s x" if "x \<notin> set (taddrs ?W)" "x \<notin> set (taddrs ?R)" for x
    by (rule g'(7)) (use that in auto)
  moreover have "nodes s' x = None" if "x \<in> set (taddrs ?W) - set (taddrs ?R)" for x
    by (rule g'(8)) (use that in auto)
  ultimately show ?thesis unfolding grown_def
    by (simp del: taddrs.simps holds.simps twf.simps)
qed

text \<open>The body of the loop of \<open>confignode_merge_in_place\<close>.\<close>

definition merge_append :: "addr \<Rightarrow> addr \<Rightarrow> cstate \<Rightarrow> (bool \<times> cstate) option" where
  "merge_append node i s = do {
     (copy, s) \<leftarrow> confignode_copy i s;
     (case copy of
        None \<Rightarrow> Some (False, s)
      | Some d \<Rightarrow> do {
          (r, s) \<leftarrow> confignode_array_append (Some node) copy s;
          (if r then Some (True, s) else do { s \<leftarrow> confignode_clean d s; Some (False, s) })
        })
   }"

definition merge_add :: "addr \<Rightarrow> cstring option \<Rightarrow> addr \<Rightarrow> cstate \<Rightarrow> (bool \<times> cstate) option" where
  "merge_add node key i s = do {
     (copy, s) \<leftarrow> confignode_copy i s;
     (case copy of
        None \<Rightarrow> Some (False, s)
      | Some d \<Rightarrow> do {
          (r, s) \<leftarrow> confignode_map_set (Some node) key copy s;
          (if r then Some (True, s) else do { s \<leftarrow> confignode_clean d s; Some (False, s) })
        })
   }"

definition merge_item :: "addr \<Rightarrow> addr \<Rightarrow> ntype \<Rightarrow> addr \<Rightarrow> cstate \<Rightarrow> (bool \<times> cstate) option" where
  "merge_item node new ty i s = do {
     c \<leftarrow> node_at s i;
     (if cn_parent c \<noteq> Some new then Some (True, s)
      else if ty = TYPE_ARRAY then merge_append node i s
      else if cn_key c = None then Some (False, s)
      else do {
        sub \<leftarrow> confignode_map_get (Some node) (cn_key c) s;
        (case sub of
           Some b \<Rightarrow> confignode_merge_in_place b i s
         | None \<Rightarrow> merge_add node (cn_key c) i s)
      })
   }"

lemma merge_in_place_container:
  assumes "a \<noteq> b" "nodes s a = Some n" "nodes s b = Some w" "cn_type n = cn_type w"
    "cn_type n = TYPE_MAP \<or> cn_type n = TYPE_ARRAY"
  shows "confignode_merge_in_place a b s = allM (merge_item a b (cn_type n)) (cn_items w) s"
  using assms(1-3,5) assms(4) [symmetric]
  unfolding merge_item_def merge_append_def merge_add_def
  by (subst confignode_merge_in_place.simps [of a b s]) (auto simp: node_at_def)

lemma merge_in_place_leaf:
  assumes "a \<noteq> b" "nodes s a = Some n" "nodes s b = Some w"
    "cn_type n \<noteq> cn_type w \<or> cn_type n \<noteq> TYPE_MAP \<and> cn_type n \<noteq> TYPE_ARRAY"
  shows "confignode_merge_in_place a b s = do {
     (copy, s) \<leftarrow> confignode_copy b s;
     (case copy of
        None \<Rightarrow> Some (False, s)
      | Some c \<Rightarrow> do {
          (r, s) \<leftarrow> confignode_replace_contents a c s;
          (if r then Some (True, s) else do { s \<leftarrow> confignode_clean c s; Some (False, s) })
        })
   }"
  using assms by (subst confignode_merge_in_place.simps) (auto simp: node_at_def)

text \<open>What one step or a whole merge does to the target \<open>w\<close>: the result stands for \<open>c\<close>.\<close>

definition merged :: "ptr \<Rightarrow> cstate \<Rightarrow> atree \<Rightarrow> ctree \<Rightarrow> bool \<Rightarrow> cstate \<Rightarrow> atree \<Rightarrow> bool" where
  "merged par s w c ok s' w' \<longleftrightarrow>
     progress s s' \<and> grown par s w s' w' \<and> (if ok then erase w' = c else failed s s')"

lemma copied_cases:
  assumes "copied s c r s1"
  obtains (oom) "r = None" "nodes s1 = nodes s" "failed s s1" "progress s s1"
  | (ok) b m js where "r = Some b" "built s s1 (AT b m js)" "erase (AT b m js) = c" "progress s s1"
proof (cases r)
  case None
  with assms oom show thesis by (auto simp: copied_def)
next
  case (Some b)
  with assms obtain u where u: "at_addr u = b" "built s s1 u" "erase u = c" "progress s s1"
    by (auto simp: copied_def)
  obtain m js where "u = AT b m js" using u(1) by (cases u) auto
  with u Some show thesis by (intro ok [of b m js]) simp_all
qed

lemma merged_fail:
  assumes "holds (nodes s) par w" "twf w" "distinct (taddrs w)" "nodes s' = nodes s" "progress s s'" "failed s s'"
  shows "merged par s w c False s' w"
  using assms grown_refl [of s par w s'] by (simp add: merged_def progress_def)

lemma merge_turnI:
  "f = Some (ok, s') \<Longrightarrow> cn_type n' = ty \<Longrightarrow> merged par s w c ok s' (AT a n' ds') \<Longrightarrow>
   \<exists>ok s' n' ds'. f = Some (ok, s') \<and> cn_type n' = ty \<and> merged par s w c ok s' (AT a n' ds')"
  by blast

lemma merge_append_step:
  assumes w: "holds (nodes s) par (AT a n ds)" "twf (AT a n ds)" "distinct (taddrs (AT a n ds))"
    and ty: "cn_type n = TYPE_ARRAY" and wf: "wf_state s" and k: "twf k" "holds (nodes s) q k"
  shows "\<exists>ok s' n' ds'. merge_append a (at_addr k) s = Some (ok, s') \<and> cn_type n' = TYPE_ARRAY \<and>
     merged par s (AT a n ds) (CArr (map erase ds @ [erase k])) ok s' (AT a n' ds')"
proof -
  from confignode_copy_tree [OF wf k(2,1)] obtain r s1 where
    c: "confignode_copy (at_addr k) s = Some (r, s1)" "copied s (erase k) r s1" by blast
  from c(2) show ?thesis
  proof (cases rule: copied_cases)
    case oom
    have "merge_append a (at_addr k) s = Some (False, s1)" using c oom(1) by (simp add: merge_append_def)
    then show ?thesis by (rule merge_turnI [OF _ ty merged_fail [OF w oom(2,4,3)]])
  next
    case (ok b m js)
    note fr = built_frame [OF ok(2) w(1) wf]
    have B: "holds (nodes s1) None (AT b m js)" "distinct (taddrs (AT b m js))"
      using ok(2) by (auto simp only: built_def)
    have dist: "distinct (taddrs (AT a n ds) @ taddrs (AT b m js))"
      using w(3) B(2) fr(2) by (simp del: taddrs.simps)
    have idx: "map at_index ds = map int [0..<length ds]" using w(2) ty by (simp add: kids_ok_def)
    note step = array_append_step [OF fr(1) B(1) dist ty idx]
    show ?thesis
    proof (cases "coom s1 (ctick s1)")
      case True
      then have "failed s (tick s1)" using failed_right [OF failed_tick [OF True] ok(4)] by simp
      from drop_copy [OF ok(2,4) wf _ this] obtain s3 where s3: "confignode_clean b (tick s1) = Some s3"
        "nodes s3 = nodes s" "progress s s3" "failed s s3" by auto
      have "merge_append a (at_addr k) s = Some (False, s3)"
        using c ok(1) step True s3(1) by (simp add: merge_append_def)
      then show ?thesis by (rule merge_turnI [OF _ ty merged_fail [OF w s3(2-4)]])
    next
      case False
      let ?n = "n\<lparr>cn_items := cn_items n @ [b]\<rparr>"
      let ?m = "m\<lparr>cn_parent := Some a, cn_index := int (length ds)\<rparr>"
      let ?s = "(tick s1)\<lparr>nodes := (nodes s1)(a \<mapsto> ?n, b \<mapsto> ?m)\<rparr>"
      have "grown par s (AT a n ds) ?s (AT a ?n (ds @ [AT b ?m js]))"
        by (rule grown_append [OF w ok(2) wf]) (use ty idx in \<open>auto simp: kids_ok_def\<close>)
      moreover have "progress s ?s"
        using ok(4) fr(1) B(1) by (auto simp: progress_def wf_state_def)
      moreover have "erase (AT a ?n (ds @ [AT b ?m js])) = CArr (map erase ds @ [erase k])"
        using ty ok(3) by (simp cong: ntype.case_cong)
      ultimately have m: "merged par s (AT a n ds) (CArr (map erase ds @ [erase k])) True ?s (AT a ?n (ds @ [AT b ?m js]))"
        unfolding merged_def by simp
      have st: "merge_append a (at_addr k) s = Some (True, ?s)"
        using c ok(1) step False by (simp add: merge_append_def)
      have ty': "cn_type ?n = TYPE_ARRAY" using ty by simp
      show ?thesis by (rule merge_turnI [OF st ty' m])
    qed
  qed
qed

lemma merge_add_step:
  assumes w: "holds (nodes s) par (AT a n ds)" "twf (AT a n ds)" "distinct (taddrs (AT a n ds))"
    and ty: "cn_type n = TYPE_MAP" and wf: "wf_state s" and k: "twf k" "holds (nodes s) q k"
    and key: "cstr key" "\<forall>d \<in> set ds. at_key d \<noteq> Some key"
  shows "\<exists>ok s' n' ds'. merge_add a (Some key) (at_addr k) s = Some (ok, s') \<and> cn_type n' = TYPE_MAP \<and>
     merged par s (AT a n ds) (CMap (map (\<lambda>d. (the (at_key d), erase d)) ds @ [(key, erase k)])) ok s' (AT a n' ds')"
proof -
  from confignode_copy_tree [OF wf k(2,1)] obtain r s1 where
    c: "confignode_copy (at_addr k) s = Some (r, s1)" "copied s (erase k) r s1" by blast
  from c(2) show ?thesis
  proof (cases rule: copied_cases)
    case oom
    have "merge_add a (Some key) (at_addr k) s = Some (False, s1)" using c oom(1) by (simp add: merge_add_def)
    then show ?thesis by (rule merge_turnI [OF _ ty merged_fail [OF w oom(2,4,3)]])
  next
    case (ok b m js)
    note fr = built_frame [OF ok(2) w(1) wf]
    have B: "holds (nodes s1) None (AT b m js)" "distinct (taddrs (AT b m js))"
      using ok(2) by (auto simp only: built_def)
    have dist: "distinct (taddrs (AT a n ds) @ taddrs (AT b m js))"
      using w(3) B(2) fr(2) by (simp del: taddrs.simps)
    have kids: "kids_ok n ds" using w(2) by simp
    note step = map_set_step [OF fr(1) B(1) dist ty kids key]
    let ?s2 = "if coom s1 (ctick s1) then tick s1 else tick (tick s1)"
    show ?thesis
    proof (cases "coom s1 (ctick s1) \<or> coom s1 (Suc (ctick s1))")
      case True
      then have "failed s1 ?s2"
        by (auto simp: failed_def intro: exI [of _ "ctick s1"] exI [of _ "Suc (ctick s1)"])
      then have "failed s ?s2" by (rule failed_right [OF _ ok(4)])
      have "?s2 = tick s1 \<or> ?s2 = tick (tick s1)" by simp
      from drop_copy [OF ok(2,4) wf this \<open>failed s ?s2\<close>] obtain s3 where
        s3: "confignode_clean b ?s2 = Some s3" "nodes s3 = nodes s" "progress s s3" "failed s s3" by blast
      have "merge_add a (Some key) (at_addr k) s = Some (False, s3)"
        using c ok(1) step True s3(1) by (auto simp: merge_add_def split: if_splits)
      then show ?thesis by (rule merge_turnI [OF _ ty merged_fail [OF w s3(2-4)]])
    next
      case False
      let ?n = "n\<lparr>cn_items := cn_items n @ [b]\<rparr>"
      let ?m = "m\<lparr>cn_key := Some key, cn_parent := Some a\<rparr>"
      let ?s = "(tick (tick s1))\<lparr>nodes := (nodes s1)(a \<mapsto> ?n, b \<mapsto> ?m)\<rparr>"
      let ?c = "CMap (map (\<lambda>d. (the (at_key d), erase d)) ds @ [(key, erase k)])"
      have "grown par s (AT a n ds) ?s (AT a ?n (ds @ [AT b ?m js]))"
        by (rule grown_append [OF w ok(2) wf]) (use ty kids key in \<open>auto simp: kids_ok_def\<close>)
      moreover have "progress s ?s"
        using ok(4) fr(1) B(1) by (auto simp: progress_def wf_state_def)
      moreover have "erase (AT a ?n (ds @ [AT b ?m js])) = ?c"
        using ty ok(3) by (simp cong: ntype.case_cong)
      ultimately have m: "merged par s (AT a n ds) ?c True ?s (AT a ?n (ds @ [AT b ?m js]))"
        unfolding merged_def by simp
      have st: "merge_add a (Some key) (at_addr k) s = Some (True, ?s)"
        using c ok(1) step False by (simp add: merge_add_def)
      have ty': "cn_type ?n = TYPE_MAP" using ty by simp
      show ?thesis by (rule merge_turnI [OF st ty' m])
    qed
  qed
qed

section \<open>The whole merge\<close>

definition merges :: "atree \<Rightarrow> bool" where
  "merges t \<longleftrightarrow> (\<forall>s par w q. wf_state s \<longrightarrow> holds (nodes s) par w \<longrightarrow> twf w \<longrightarrow> distinct (taddrs w) \<longrightarrow>
     holds (nodes s) q t \<longrightarrow> set (taddrs t) \<inter> set (taddrs w) = {} \<longrightarrow>
     (\<exists>ok s' w'. confignode_merge_in_place (at_addr w) (at_addr t) s = Some (ok, s') \<and>
        merged par s w (tmerge (erase w) (erase t)) ok s' w'))"

lemma update_mid:
  "k \<notin> fst ` set xs \<Longrightarrow> AList.update k v (xs @ (k, u) # ys) = xs @ (k, v) # ys"
  by (induction xs) auto

lemma update_new: "k \<notin> fst ` set xs \<Longrightarrow> AList.update k v xs = xs @ [(k, v)]"
  by (induction xs) auto

lemma map_of_mid: "k \<notin> fst ` set xs \<Longrightarrow> map_of (xs @ (k, u) # ys) k = Some u"
  by (induction xs) auto

definition entries :: "atree list \<Rightarrow> (cstring \<times> ctree) list" where
  "entries ds = map (\<lambda>d. (the (at_key d), erase d)) ds"

lemma entries_simps [simp]:
  "entries [] = []" "entries (d # ds) = (the (at_key d), erase d) # entries ds"
  "entries (ds @ es) = entries ds @ entries es"
  by (simp_all add: entries_def)

text \<open>The turn for a map entry, whether the key is already there or not.\<close>

lemma merge_map_turn:
  assumes w: "holds (nodes s) par (AT a n ds)" "twf (AT a n ds)" "distinct (taddrs (AT a n ds))"
    and ty: "cn_type n = TYPE_MAP" and wf: "wf_state s"
    and k: "merges k" "twf k" "holds (nodes s) (Some b) k" "set (taddrs k) \<inter> set (taddrs (AT a n ds)) = {}"
    and key: "at_key k = Some key" "cstr key"
  shows "\<exists>ok s' n' ds'. merge_item a b TYPE_MAP (at_addr k) s = Some (ok, s') \<and> cn_type n' = TYPE_MAP \<and>
     merged par s (AT a n ds) (CMap (tmerge_all (entries ds) [(key, erase k)])) ok s' (AT a n' ds')"
proof -
  have kids: "kids_ok n ds" using w(2) by simp
  have rk: "node_at s (at_addr k) = Some (at_node k)" "cn_parent (at_node k) = Some b"
    using holds_root [OF k(3)] by (simp_all add: node_at_def)
  note get = map_get_child [OF w(1) ty kids key(2)]
  have ks: "\<forall>d \<in> set ds. \<exists>x. at_key d = Some x" "distinct (map at_key ds)"
    using kids ty by (auto simp: kids_ok_def)
  show ?thesis
  proof (cases "find (\<lambda>d. at_key d = Some key) ds")
    case None
    then have no: "\<forall>d \<in> set ds. at_key d \<noteq> Some key" by (auto simp: find_None_iff)
    with ks(1) have nok: "key \<notin> fst ` set (entries ds)" by (fastforce simp: entries_def)
    then have "map_of (entries ds) key = None" by (simp add: map_of_eq_None_iff)
    with nok have "tmerge_all (entries ds) [(key, erase k)] = entries ds @ [(key, erase k)]"
      by (simp add: update_new)
    moreover have "merge_item a b TYPE_MAP (at_addr k) s = merge_add a (Some key) (at_addr k) s"
      using rk get None key(1) by (simp add: merge_item_def)
    ultimately show ?thesis
      using merge_add_step [OF w ty wf k(2,3) key(2) no] by (simp add: entries_def)
  next
    case (Some d)
    then obtain us vs where ds: "ds = us @ d # vs" and d: "at_key d = Some key" "d \<in> set ds"
      by (auto simp: find_Some_iff in_set_conv_nth) (metis id_take_nth_drop)
    let ?e = "(key, tmerge (erase d) (erase k))"
    have W: "holds (nodes s) (Some a) d" "twf d" "distinct (taddrs d)" "set (taddrs k) \<inter> set (taddrs d) = {}"
      using w k(4) ds by auto
    from k(1) wf W(1-3) k(3) W(4) obtain ok s' d' where m:
      "confignode_merge_in_place (at_addr d) (at_addr k) s = Some (ok, s')"
      "merged (Some a) s d (tmerge (erase d) (erase k)) ok s' d'"
      unfolding merges_def by blast
    then have p: "progress s s'" "grown (Some a) s d s' d'" by (simp_all add: merged_def)
    have g: "grown par s (AT a n ds) s' (AT a n (us @ d' # vs))"
      unfolding ds by (rule grown_kid [OF _ _ _ p(2) wf]) (use w ds in simp_all)
    have nus: "key \<notin> fst ` set (entries us)"
      using ks d(1) ds by (force simp: entries_def)
    have ent: "tmerge_all (entries ds) [(key, erase k)] = entries us @ ?e # entries vs"
    proof -
      have ed: "entries ds = entries us @ (key, erase d) # entries vs" using d(1) ds by simp
      show ?thesis
        unfolding ed by (simp only: tmerge_all.simps map_of_mid [OF nus] update_mid [OF nus] option.case)
    qed
    have "at_key d' = Some key" using p(2) d(1) by (simp add: grown_def)
    then have "ok \<Longrightarrow> erase (AT a n (us @ d' # vs)) = CMap (entries us @ ?e # entries vs)"
      using m(2) ty by (simp add: merged_def entries_def)
    then have "merged par s (AT a n ds) (CMap (tmerge_all (entries ds) [(key, erase k)])) ok s' (AT a n (us @ d' # vs))"
      using p(1) g m(2) unfolding ent by (auto simp: merged_def)
    moreover have "merge_item a b TYPE_MAP (at_addr k) s = Some (ok, s')"
      using rk get Some key(1) m(1) by (simp add: merge_item_def)
    ultimately show ?thesis by (intro merge_turnI [OF _ ty])
  qed
qed

lemma merge_array_turn:
  assumes w: "holds (nodes s) par (AT a n ds)" "twf (AT a n ds)" "distinct (taddrs (AT a n ds))"
    and ty: "cn_type n = TYPE_ARRAY" and wf: "wf_state s"
    and k: "twf k" "holds (nodes s) (Some b) k"
  shows "\<exists>ok s' n' ds'. merge_item a b TYPE_ARRAY (at_addr k) s = Some (ok, s') \<and> cn_type n' = TYPE_ARRAY \<and>
     merged par s (AT a n ds) (CArr (map erase ds @ [erase k])) ok s' (AT a n' ds')"
proof -
  have "node_at s (at_addr k) = Some (at_node k)" "cn_parent (at_node k) = Some b"
    using holds_root [OF k(2)] by (simp_all add: node_at_def)
  then have "merge_item a b TYPE_ARRAY (at_addr k) s = merge_append a (at_addr k) s"
    by (simp add: merge_item_def)
  with merge_append_step [OF w ty wf k] show ?thesis by simp
qed

lemma tmerge_all_append: "tmerge_all xs (ys @ zs) = tmerge_all (tmerge_all xs ys) zs"
  by (induction ys arbitrary: xs) auto

text \<open>The content of a container after one and after all the entries.\<close>

definition cont :: "ntype \<Rightarrow> atree list \<Rightarrow> ctree" where
  "cont ty ds = (if ty = TYPE_MAP then CMap (entries ds) else CArr (map erase ds))"

definition cont_add :: "ntype \<Rightarrow> ctree \<Rightarrow> atree list \<Rightarrow> ctree" where
  "cont_add ty c ks = tmerge c (if ty = TYPE_MAP then CMap (entries ks) else CArr (map erase ks))"

lemma erase_cont:
  "cn_type n = ty \<Longrightarrow> ty = TYPE_MAP \<or> ty = TYPE_ARRAY \<Longrightarrow> erase (AT a n ds) = cont ty ds"
  by (auto simp: cont_def entries_def)

lemma cont_add_Cons:
  assumes "ty = TYPE_MAP \<or> ty = TYPE_ARRAY"
  shows "cont_add ty (cont_add ty (cont ty ds) [k]) ks = cont_add ty (cont ty ds) (k # ks)"
  using assms tmerge_all_append [of "entries ds" "entries [k]" "entries ks"]
  by (auto simp: cont_def cont_add_def)

lemma cont_add_is_cont:
  assumes "ty = TYPE_MAP \<or> ty = TYPE_ARRAY" "erase (AT a n ds') = cont_add ty (cont ty ds) ks" "cn_type n = ty"
  shows "cont ty ds' = cont_add ty (cont ty ds) ks"
  using assms erase_cont [of n ty a ds'] by simp

lemma merge_items_loop:
  assumes "holds (nodes s) par (AT a n ds)" "twf (AT a n ds)" "distinct (taddrs (AT a n ds))"
    and "cn_type n = ty" "ty = TYPE_MAP \<or> ty = TYPE_ARRAY" "wf_state s"
    and "\<forall>k \<in> set ks. merges k \<and> twf k \<and> holds (nodes s) (Some b) k \<and>
        set (taddrs k) \<inter> set (taddrs (AT a n ds)) = {}"
    and "ty = TYPE_MAP \<longrightarrow> (\<forall>k \<in> set ks. \<exists>key. at_key k = Some key \<and> cstr key)"
  shows "\<exists>ok s' n' ds'. allM (merge_item a b ty) (map at_addr ks) s = Some (ok, s') \<and> cn_type n' = ty \<and>
     merged par s (AT a n ds) (cont_add ty (cont ty ds) ks) ok s' (AT a n' ds')"
  using assms
proof (induction ks arbitrary: s n ds)
  case Nil
  have "merged par s (AT a n ds) (cont_add ty (cont ty ds) []) True s (AT a n ds)"
    using Nil erase_cont [of n ty a ds] progress_refl [of s]
    by (auto simp: merged_def cont_add_def cont_def simp del: taddrs.simps holds.simps twf.simps erase.simps
        intro!: grown_refl)
  with Nil show ?case by (intro merge_turnI) simp_all
next
  case (Cons k ks)
  have "\<exists>ok s' n' ds'. merge_item a b ty (at_addr k) s = Some (ok, s') \<and> cn_type n' = ty \<and>
     merged par s (AT a n ds) (cont_add ty (cont ty ds) [k]) ok s' (AT a n' ds')"
  proof (cases "ty = TYPE_MAP")
    case True
    with Cons.prems(8) obtain key where "at_key k = Some key" "cstr key" by auto
    with True Cons.prems merge_map_turn [OF Cons.prems(1-3) _ Cons.prems(6), of k b key] show ?thesis
      by (simp add: cont_add_def cont_def)
  next
    case False
    with Cons.prems merge_array_turn [OF Cons.prems(1-3) _ Cons.prems(6), of k b] show ?thesis
      by (auto simp: cont_add_def cont_def)
  qed
  then obtain ok s1 n1 ds1 where t: "merge_item a b ty (at_addr k) s = Some (ok, s1)" "cn_type n1 = ty"
    "merged par s (AT a n ds) (cont_add ty (cont ty ds) [k]) ok s1 (AT a n1 ds1)" by blast
  then have p1: "progress s s1" and g1: "grown par s (AT a n ds) s1 (AT a n1 ds1)"
    by (simp_all add: merged_def)
  show ?case
  proof (cases ok)
    case False
    with t(1) have "allM (merge_item a b ty) (map at_addr (k # ks)) s = Some (False, s1)" by simp
    moreover have "merged par s (AT a n ds) (cont_add ty (cont ty ds) (k # ks)) False s1 (AT a n1 ds1)"
      using t(3) False by (simp add: merged_def)
    ultimately show ?thesis by (intro merge_turnI [OF _ t(2)])
  next
    case True
    have H: "holds (nodes s1) par (AT a n1 ds1)" "twf (AT a n1 ds1)" "distinct (taddrs (AT a n1 ds1))"
      using g1 by (simp_all only: grown_def)
    have wf1: "wf_state s1" using p1 by (simp add: progress_def)
    have src: "\<forall>k \<in> set ks. merges k \<and> twf k \<and> holds (nodes s1) (Some b) k \<and>
        set (taddrs k) \<inter> set (taddrs (AT a n1 ds1)) = {}"
    proof
      fix j assume "j \<in> set ks"
      with Cons.prems(7) have j: "merges j" "twf j" "holds (nodes s) (Some b) j"
        "set (taddrs j) \<inter> set (taddrs (AT a n ds)) = {}" by simp_all
      from grown_frame [OF g1 j(3,4) Cons.prems(6)] j show "merges j \<and> twf j \<and> holds (nodes s1) (Some b) j \<and>
        set (taddrs j) \<inter> set (taddrs (AT a n1 ds1)) = {}" by blast
    qed
    have key1: "ty = TYPE_MAP \<longrightarrow> (\<forall>k \<in> set ks. \<exists>key. at_key k = Some key \<and> cstr key)"
      using Cons.prems(8) by simp
    from Cons.IH [OF H t(2) Cons.prems(5) wf1 src key1] obtain ok2 s2 n2 ds2 where u:
      "allM (merge_item a b ty) (map at_addr ks) s1 = Some (ok2, s2)" "cn_type n2 = ty"
      "merged par s1 (AT a n1 ds1) (cont_add ty (cont ty ds1) ks) ok2 s2 (AT a n2 ds2)" by blast
    have e1: "cont ty ds1 = cont_add ty (cont ty ds) [k]"
      using t(3) True by (intro cont_add_is_cont [OF Cons.prems(5) _ t(2)]) (simp add: merged_def)
    have e: "cont_add ty (cont ty ds1) ks = cont_add ty (cont ty ds) (k # ks)"
      unfolding e1 by (rule cont_add_Cons [OF Cons.prems(5)])
    have p2: "progress s1 s2" and g2: "grown par s1 (AT a n1 ds1) s2 (AT a n2 ds2)"
      using u(3) by (simp_all add: merged_def)
    have "grown par s (AT a n ds) s2 (AT a n2 ds2)"
      by (rule grown_trans [OF g1 g2 Cons.prems(6)]) (use p1 p2 in \<open>auto simp: progress_def\<close>)
    moreover have "\<not> ok2 \<Longrightarrow> failed s s2" using u(3) failed_right [OF _ p1] by (simp add: merged_def)
    ultimately have "merged par s (AT a n ds) (cont_add ty (cont ty ds) (k # ks)) ok2 s2 (AT a n2 ds2)"
      using u(3) progress_trans [OF p1 p2] unfolding e by (auto simp: merged_def)
    moreover have "allM (merge_item a b ty) (map at_addr (k # ks)) s = Some (ok2, s2)"
      using t(1) True u(1) by simp
    ultimately show ?thesis by (intro merge_turnI [OF _ u(2)])
  qed
qed

lemma tmerge_other:
  "(\<forall>xs ys. \<not> (a = CMap xs \<and> c = CMap ys)) \<Longrightarrow> (\<forall>xs ys. \<not> (a = CArr xs \<and> c = CArr ys)) \<Longrightarrow> tmerge a c = c"
  by (cases c) (auto split: ctree.splits)

lemma twf_merges: "twf t \<Longrightarrow> merges t"
proof (induction t)
  case (AT b m ks)
  have "\<exists>ok s' w'. confignode_merge_in_place (at_addr w) b s = Some (ok, s') \<and>
      merged par s w (tmerge (erase w) (erase (AT b m ks))) ok s' w'"
    if a: "wf_state s" "holds (nodes s) par w" "twf w" "distinct (taddrs w)" "holds (nodes s) q (AT b m ks)"
      "set (taddrs (AT b m ks)) \<inter> set (taddrs w) = {}" for s par w q
  proof -
    obtain x n ds where w: "w = AT x n ds" by (cases w)
    have ne: "x \<noteq> b" and nx: "nodes s x = Some n" and nb: "nodes s b = Some m" "cn_items m = map at_addr ks"
      using a w by auto
    show ?thesis
    proof (cases "cn_type n = cn_type m \<and> (cn_type n = TYPE_MAP \<or> cn_type n = TYPE_ARRAY)")
      case True
      let ?ty = "cn_type n"
      have src: "\<forall>k \<in> set ks. merges k \<and> twf k \<and> holds (nodes s) (Some b) k \<and>
          set (taddrs k) \<inter> set (taddrs (AT x n ds)) = {}"
        using AT a(5,6) w by auto
      have keys: "?ty = TYPE_MAP \<longrightarrow> (\<forall>k \<in> set ks. \<exists>key. at_key k = Some key \<and> cstr key)"
        using AT.prems True by (auto simp: kids_ok_def)
      from merge_items_loop [of s par x n ds, OF _ _ _ refl _ a(1) src keys] a(2-4) w True
      obtain ok s' n' ds' where r: "allM (merge_item x b ?ty) (map at_addr ks) s = Some (ok, s')"
        "merged par s (AT x n ds) (cont_add ?ty (cont ?ty ds) ks) ok s' (AT x n' ds')" by blast
      have "cont_add ?ty (cont ?ty ds) ks = tmerge (erase (AT x n ds)) (erase (AT b m ks))"
        using True by (auto simp: cont_add_def cont_def entries_def)
      moreover have "confignode_merge_in_place x b s = Some (ok, s')"
        using merge_in_place_container [OF ne nx nb(1)] True r(1) nb(2) by auto
      ultimately show ?thesis using r(2) w by auto
    next
      case False
      have other: "tmerge (erase w) (erase (AT b m ks)) = erase (AT b m ks)"
        by (rule tmerge_other) (use False w in \<open>auto split: ntype.splits\<close>)
      have leaf: "cn_type n \<noteq> cn_type m \<or> cn_type n \<noteq> TYPE_MAP \<and> cn_type n \<noteq> TYPE_ARRAY"
        using False by blast
      note st = merge_in_place_leaf [OF ne nx nb(1) leaf]
      from confignode_copy_tree [OF a(1,5) AT.prems] obtain r s1 where
        c: "confignode_copy b s = Some (r, s1)" "copied s (erase (AT b m ks)) r s1" by auto
      from c(2) show ?thesis
      proof (cases rule: copied_cases)
        case oom
        with st c have "confignode_merge_in_place x b s = Some (False, s1)" by simp
        with merged_fail [OF a(2-4) oom(2,4,3)] w show ?thesis by fastforce
      next
        case (ok b' m' js)
        have W: "holds (nodes s) par (AT x n ds)" "distinct (taddrs (AT x n ds))" using a(2,4) w by simp_all
        from replace_grown [OF W ok(2) a(1) ok(4)] obtain s2 where
          s2: "confignode_replace_contents x b' s1 = Some (True, s2)" "progress s s2"
            "grown par s (AT x n ds) s2 (AT x (takeover n m') (map (reparent x) js))"
            "erase (AT x (takeover n m') (map (reparent x) js)) = erase (AT b' m' js)" by blast
        have "confignode_merge_in_place x b s = Some (True, s2)" using st c ok(1) s2(1) by simp
        moreover have "merged par s w (tmerge (erase w) (erase (AT b m ks))) True s2
            (AT x (takeover n m') (map (reparent x) js))"
          using s2 ok(3) w unfolding other merged_def by simp
        moreover have "at_addr w = x" using w by simp
        ultimately show ?thesis by blast
      qed
    qed
  qed
  then show ?case unfolding merges_def by simp
qed

lemma built_grown:
  assumes "built s s1 C" "grown None s1 C s2 C'" "wf_state s" "cnxt s \<le> cnxt s1" "cnxt s1 \<le> cnxt s2"
  shows "built s s2 C'"
proof -
  have "set (taddrs C') \<subseteq> {cnxt s..<cnxt s2}"
    using assms by (fastforce simp: built_def grown_def)
  moreover have "nodes s2 x = nodes s x" if "x \<notin> set (taddrs C')" for x
  proof (cases "x \<in> set (taddrs C)")
    case True
    then have "nodes s2 x = None" "cnxt s \<le> x" using that assms(1,2) by (auto simp: built_def grown_def)
    with assms(3) show ?thesis by (simp add: wf_state_def)
  next
    case False
    with that assms(1,2) show ?thesis by (simp add: built_def grown_def)
  qed
  ultimately show ?thesis using assms(2) by (simp add: built_def grown_def)
qed

text \<open>The result of \<open>confignode_merge\<close> on two separate trees.\<close>

lemma confignode_merge_tree:
  assumes wf: "wf_state s"
    and t: "holds (nodes s) par t" "twf t" "distinct (taddrs t)"
    and u: "holds (nodes s) q u" "twf u" "set (taddrs u) \<inter> set (taddrs t) = {}"
  shows "\<exists>ok s'. confignode_merge (Some (at_addr t)) (Some (at_addr u)) s = Some (ok, s') \<and> progress s s' \<and>
     (if ok then \<exists>t'. grown par s t s' t' \<and> erase t' = tmerge (erase t) (erase u)
      else nodes s' = nodes s \<and> failed s s')"
proof -
  obtain a n ds where ta: "t = AT a n ds" by (cases t)
  have ne: "at_addr t \<noteq> at_addr u" by (metis disjoint_iff taddrs_root u(3))
  from confignode_copy_tree [OF wf t(1,2)] obtain r s1 where
    c: "confignode_copy (at_addr t) s = Some (r, s1)" "copied s (erase t) r s1" by blast
  from c(2) show ?thesis
  proof (cases rule: copied_cases)
    case oom
    with c ne show ?thesis by (auto simp: confignode_merge_def)
  next
    case (ok b m js)
    let ?C = "AT b m js"
    have wf1: "wf_state s1" using ok(4) by (simp add: progress_def)
    note fu = built_frame [OF ok(2) u(1) wf]
    have C: "holds (nodes s1) None ?C" "twf ?C" "distinct (taddrs ?C)" using ok(2) by (simp_all only: built_def)
    from twf_merges [OF u(2), unfolded merges_def, rule_format, OF wf1 C fu] obtain r2 s2 C' where
      m: "confignode_merge_in_place b (at_addr u) s1 = Some (r2, s2)"
        "merged None s1 ?C (tmerge (erase ?C) (erase u)) r2 s2 C'"
      unfolding atree.sel by blast
    then have p2: "progress s1 s2" and g: "grown None s1 ?C s2 C'" by (simp_all add: merged_def)
    have ps: "progress s s2" by (rule progress_trans [OF ok(4) p2])
    have b: "built s s2 C'"
      by (rule built_grown [OF ok(2) g wf]) (use ok(4) p2 in \<open>simp_all add: progress_def\<close>)
    have ac: "at_addr C' = b" using g by (simp add: grown_def)
    show ?thesis
    proof (cases r2)
      case False
      have "failed s s2" using m(2) False failed_right [OF _ ok(4)] by (simp add: merged_def)
      moreover have "confignode_merge (Some (at_addr t)) (Some (at_addr u)) s = Some (False, s2\<lparr>nodes := nodes s\<rparr>)"
        using c ne ok(1) m(1) False clean_built [OF b wf] ac by (simp add: confignode_merge_def)
      ultimately show ?thesis
        using progress_reset [OF ps wf] failed_reset [of s s2] by auto
    next
      case True
      obtain m' js' where C': "C' = AT b m' js'" using ac by (cases C') auto
      have W: "holds (nodes s) par (AT a n ds)" "distinct (taddrs (AT a n ds))" using t ta by simp_all
      from replace_grown [OF W b [unfolded C'] wf ps] obtain s3 where
        s3: "confignode_replace_contents a b s2 = Some (True, s3)" "progress s s3"
          "grown par s (AT a n ds) s3 (AT a (takeover n m') (map (reparent a) js'))"
          "erase (AT a (takeover n m') (map (reparent a) js')) = erase C'" unfolding C' by blast
      have "erase C' = tmerge (erase t) (erase u)"
        using m(2) True ok(3) by (simp add: merged_def)
      with s3(3,4) have "\<exists>t'. grown par s t s3 t' \<and> erase t' = tmerge (erase t) (erase u)"
        unfolding ta by metis
      moreover have "confignode_merge (Some (at_addr t)) (Some (at_addr u)) s = Some (True, s3)"
        using c ne ok(1) m(1) True s3(1) ta by (simp add: confignode_merge_def)
      ultimately show ?thesis using s3(2) by auto
    qed
  qed
qed

end
