(* ===== verification/Efi.thy ===== *)
theory Efi
  imports Prelude
begin

text \<open>
  UEFI status codes and memory types as the sources name them, and the tables of
  \<open>src/lib/string.c\<close> that print them. Codes the sources do not name are \<open>EFI_OTHER\<close>. Warnings are
  statuses that \<open>EFI_ERROR\<close> does not count as errors.
\<close>

datatype efi_status =
    EFI_SUCCESS | EFI_WARN_UNKNOWN_GLYPH | EFI_WARN_DELETE_FAILURE | EFI_WARN_WRITE_FAILURE
    | EFI_WARN_BUFFER_TOO_SMALL | EFI_WARN_STALE_DATA | EFI_LOAD_ERROR | EFI_INVALID_PARAMETER
    | EFI_UNSUPPORTED | EFI_BAD_BUFFER_SIZE | EFI_BUFFER_TOO_SMALL | EFI_NOT_READY
    | EFI_DEVICE_ERROR | EFI_WRITE_PROTECTED | EFI_OUT_OF_RESOURCES | EFI_VOLUME_CORRUPTED
    | EFI_VOLUME_FULL | EFI_NO_MEDIA | EFI_MEDIA_CHANGED | EFI_NOT_FOUND | EFI_ACCESS_DENIED
    | EFI_NO_RESPONSE | EFI_NO_MAPPING | EFI_TIMEOUT | EFI_NOT_STARTED | EFI_ALREADY_STARTED
    | EFI_ABORTED | EFI_ICMP_ERROR | EFI_TFTP_ERROR | EFI_PROTOCOL_ERROR
    | EFI_INCOMPATIBLE_VERSION | EFI_SECURITY_VIOLATION | EFI_CRC_ERROR | EFI_END_OF_MEDIA
    | EFI_END_OF_FILE | EFI_INVALID_LANGUAGE | EFI_COMPROMISED_DATA | EFI_OTHER nat

datatype efi_memory_type =
    EfiReservedMemoryType | EfiLoaderCode | EfiLoaderData | EfiBootServicesCode
    | EfiBootServicesData | EfiRuntimeServicesCode | EfiRuntimeServicesData
    | EfiConventionalMemory | EfiUnusableMemory | EfiACPIReclaimMemory | EfiACPIMemoryNVS
    | EfiMemoryMappedIO | EfiMemoryMappedIOPortSpace | EfiPalCode | EfiPersistentMemory
    | EfiMaxMemoryType | EfiOtherMemory nat

definition efi_warnings :: "efi_status list" where
  "efi_warnings = [EFI_WARN_UNKNOWN_GLYPH, EFI_WARN_DELETE_FAILURE, EFI_WARN_WRITE_FAILURE,
     EFI_WARN_BUFFER_TOO_SMALL, EFI_WARN_STALE_DATA]"

text \<open>\<open>EFI_ERROR(st)\<close>: the high bit of the code. \<open>EFI_OTHER\<close> stands for error codes.\<close>

definition EFI_ERROR :: "efi_status \<Rightarrow> bool" where
  "EFI_ERROR st \<longleftrightarrow> st \<noteq> EFI_SUCCESS \<and> st \<notin> set efi_warnings"

lemma EFI_ERROR_simps [simp]:
  "\<not> EFI_ERROR EFI_SUCCESS" "\<not> EFI_ERROR EFI_WARN_UNKNOWN_GLYPH" "EFI_ERROR EFI_OUT_OF_RESOURCES"
  "EFI_ERROR EFI_INVALID_PARAMETER" "EFI_ERROR EFI_NOT_FOUND" "EFI_ERROR EFI_UNSUPPORTED"
  by (simp_all add: EFI_ERROR_def efi_warnings_def)

section \<open>Names\<close>

fun efi_status_to_string :: "efi_status \<Rightarrow> cstring" where
  "efi_status_to_string EFI_SUCCESS = ''Success''"
| "efi_status_to_string EFI_WARN_UNKNOWN_GLYPH = ''Unknown Glyph''"
| "efi_status_to_string EFI_WARN_DELETE_FAILURE = ''Delete Failure''"
| "efi_status_to_string EFI_WARN_WRITE_FAILURE = ''Write Failure''"
| "efi_status_to_string EFI_WARN_BUFFER_TOO_SMALL = ''Buffer Too Small''"
| "efi_status_to_string EFI_WARN_STALE_DATA = ''Stale Data''"
| "efi_status_to_string EFI_LOAD_ERROR = ''Load Error''"
| "efi_status_to_string EFI_INVALID_PARAMETER = ''Invalid Parameter''"
| "efi_status_to_string EFI_UNSUPPORTED = ''Unsupported''"
| "efi_status_to_string EFI_BAD_BUFFER_SIZE = ''Bad Buffer Size''"
| "efi_status_to_string EFI_BUFFER_TOO_SMALL = ''Buffer Too Small''"
| "efi_status_to_string EFI_NOT_READY = ''Not Ready''"
| "efi_status_to_string EFI_DEVICE_ERROR = ''Device Error''"
| "efi_status_to_string EFI_WRITE_PROTECTED = ''Write Protected''"
| "efi_status_to_string EFI_OUT_OF_RESOURCES = ''Out of Resources''"
| "efi_status_to_string EFI_VOLUME_CORRUPTED = ''Volume Corrupt''"
| "efi_status_to_string EFI_VOLUME_FULL = ''Volume Full''"
| "efi_status_to_string EFI_NO_MEDIA = ''No Media''"
| "efi_status_to_string EFI_MEDIA_CHANGED = ''Media changed''"
| "efi_status_to_string EFI_NOT_FOUND = ''Not Found''"
| "efi_status_to_string EFI_ACCESS_DENIED = ''Access Denied''"
| "efi_status_to_string EFI_NO_RESPONSE = ''No Response''"
| "efi_status_to_string EFI_NO_MAPPING = ''No mapping''"
| "efi_status_to_string EFI_TIMEOUT = ''Time out''"
| "efi_status_to_string EFI_NOT_STARTED = ''Not started''"
| "efi_status_to_string EFI_ALREADY_STARTED = ''Already started''"
| "efi_status_to_string EFI_ABORTED = ''Aborted''"
| "efi_status_to_string EFI_ICMP_ERROR = ''ICMP Error''"
| "efi_status_to_string EFI_TFTP_ERROR = ''TFTP Error''"
| "efi_status_to_string EFI_PROTOCOL_ERROR = ''Protocol Error''"
| "efi_status_to_string EFI_INCOMPATIBLE_VERSION = ''Incompatible Version''"
| "efi_status_to_string EFI_SECURITY_VIOLATION = ''Security Violation''"
| "efi_status_to_string EFI_CRC_ERROR = ''CRC Error''"
| "efi_status_to_string EFI_END_OF_MEDIA = ''End of Media''"
| "efi_status_to_string EFI_END_OF_FILE = ''End of File''"
| "efi_status_to_string EFI_INVALID_LANGUAGE = ''Invalid Language''"
| "efi_status_to_string EFI_COMPROMISED_DATA = ''Compromised Data''"
| "efi_status_to_string (EFI_OTHER n) = ''Unknown''"

fun efi_status_to_short_string :: "efi_status \<Rightarrow> cstring" where
  "efi_status_to_short_string EFI_SUCCESS = ''success''"
| "efi_status_to_short_string EFI_WARN_UNKNOWN_GLYPH = ''warn-unknown-glyph''"
| "efi_status_to_short_string EFI_WARN_DELETE_FAILURE = ''warn-delete-failure''"
| "efi_status_to_short_string EFI_WARN_WRITE_FAILURE = ''warn-write-failure''"
| "efi_status_to_short_string EFI_WARN_BUFFER_TOO_SMALL = ''warn-buffer-too-small''"
| "efi_status_to_short_string EFI_WARN_STALE_DATA = ''warn-stale-data''"
| "efi_status_to_short_string EFI_LOAD_ERROR = ''load-error''"
| "efi_status_to_short_string EFI_INVALID_PARAMETER = ''invalid-parameter''"
| "efi_status_to_short_string EFI_UNSUPPORTED = ''unsupported''"
| "efi_status_to_short_string EFI_BAD_BUFFER_SIZE = ''bad-buffer-size''"
| "efi_status_to_short_string EFI_BUFFER_TOO_SMALL = ''buffer-too-small''"
| "efi_status_to_short_string EFI_NOT_READY = ''not-ready''"
| "efi_status_to_short_string EFI_DEVICE_ERROR = ''device-error''"
| "efi_status_to_short_string EFI_WRITE_PROTECTED = ''write-protected''"
| "efi_status_to_short_string EFI_OUT_OF_RESOURCES = ''out-of-resources''"
| "efi_status_to_short_string EFI_VOLUME_CORRUPTED = ''volume-corrupted''"
| "efi_status_to_short_string EFI_VOLUME_FULL = ''volume-full''"
| "efi_status_to_short_string EFI_NO_MEDIA = ''no-media''"
| "efi_status_to_short_string EFI_MEDIA_CHANGED = ''media-changed''"
| "efi_status_to_short_string EFI_NOT_FOUND = ''not-found''"
| "efi_status_to_short_string EFI_ACCESS_DENIED = ''access-denied''"
| "efi_status_to_short_string EFI_NO_RESPONSE = ''no-response''"
| "efi_status_to_short_string EFI_NO_MAPPING = ''no-mapping''"
| "efi_status_to_short_string EFI_TIMEOUT = ''timeout''"
| "efi_status_to_short_string EFI_NOT_STARTED = ''not-started''"
| "efi_status_to_short_string EFI_ALREADY_STARTED = ''already-started''"
| "efi_status_to_short_string EFI_ABORTED = ''aborted''"
| "efi_status_to_short_string EFI_ICMP_ERROR = ''icmp-error''"
| "efi_status_to_short_string EFI_TFTP_ERROR = ''tftp-error''"
| "efi_status_to_short_string EFI_PROTOCOL_ERROR = ''protocol-error''"
| "efi_status_to_short_string EFI_INCOMPATIBLE_VERSION = ''incompatible-version''"
| "efi_status_to_short_string EFI_SECURITY_VIOLATION = ''security-violation''"
| "efi_status_to_short_string EFI_CRC_ERROR = ''crc-error''"
| "efi_status_to_short_string EFI_END_OF_MEDIA = ''end-of-media''"
| "efi_status_to_short_string EFI_END_OF_FILE = ''end-of-file''"
| "efi_status_to_short_string EFI_INVALID_LANGUAGE = ''invalid-language''"
| "efi_status_to_short_string EFI_COMPROMISED_DATA = ''compromised-data''"
| "efi_status_to_short_string (EFI_OTHER n) = ''unknown''"

fun efi_memory_type_to_string :: "efi_memory_type \<Rightarrow> cstring" where
  "efi_memory_type_to_string EfiReservedMemoryType = ''Reserved''"
| "efi_memory_type_to_string EfiLoaderCode = ''Loader Code''"
| "efi_memory_type_to_string EfiLoaderData = ''Loader Data''"
| "efi_memory_type_to_string EfiBootServicesCode = ''Boot Services Code''"
| "efi_memory_type_to_string EfiBootServicesData = ''Boot Services Data''"
| "efi_memory_type_to_string EfiRuntimeServicesCode = ''Runtime Services Code''"
| "efi_memory_type_to_string EfiRuntimeServicesData = ''Runtime Services Data''"
| "efi_memory_type_to_string EfiConventionalMemory = ''Conventional''"
| "efi_memory_type_to_string EfiUnusableMemory = ''Unusable''"
| "efi_memory_type_to_string EfiACPIReclaimMemory = ''ACPI Reclaim''"
| "efi_memory_type_to_string EfiACPIMemoryNVS = ''ACPI Memory NVS''"
| "efi_memory_type_to_string EfiMemoryMappedIO = ''MMIO''"
| "efi_memory_type_to_string EfiMemoryMappedIOPortSpace = ''MMIO Port Space''"
| "efi_memory_type_to_string EfiPalCode = ''Pal Code''"
| "efi_memory_type_to_string EfiPersistentMemory = ''Persistent''"
| "efi_memory_type_to_string EfiMaxMemoryType = ''Max''"
| "efi_memory_type_to_string (EfiOtherMemory n) = ''Unknown''"

text \<open>The short names tell all named codes apart; the long names do not.\<close>

definition named_statuses :: "efi_status list" where
  "named_statuses = [
    EFI_SUCCESS, EFI_WARN_UNKNOWN_GLYPH, EFI_WARN_DELETE_FAILURE, EFI_WARN_WRITE_FAILURE
   , EFI_WARN_BUFFER_TOO_SMALL, EFI_WARN_STALE_DATA, EFI_LOAD_ERROR, EFI_INVALID_PARAMETER
   , EFI_UNSUPPORTED, EFI_BAD_BUFFER_SIZE, EFI_BUFFER_TOO_SMALL, EFI_NOT_READY, EFI_DEVICE_ERROR
   , EFI_WRITE_PROTECTED, EFI_OUT_OF_RESOURCES, EFI_VOLUME_CORRUPTED, EFI_VOLUME_FULL
   , EFI_NO_MEDIA, EFI_MEDIA_CHANGED, EFI_NOT_FOUND, EFI_ACCESS_DENIED, EFI_NO_RESPONSE
   , EFI_NO_MAPPING, EFI_TIMEOUT, EFI_NOT_STARTED, EFI_ALREADY_STARTED, EFI_ABORTED
   , EFI_ICMP_ERROR, EFI_TFTP_ERROR, EFI_PROTOCOL_ERROR, EFI_INCOMPATIBLE_VERSION
   , EFI_SECURITY_VIOLATION, EFI_CRC_ERROR, EFI_END_OF_MEDIA, EFI_END_OF_FILE
   , EFI_INVALID_LANGUAGE, EFI_COMPROMISED_DATA]"

lemma named_statuses_all: "st \<in> set named_statuses \<or> (\<exists>n. st = EFI_OTHER n)"
  by (cases st) (simp_all add: named_statuses_def)

lemma short_names_distinct: "distinct (map efi_status_to_short_string named_statuses)"
  by (simp add: named_statuses_def)

lemma short_name_inj:
  assumes "efi_status_to_short_string a = efi_status_to_short_string b" "a \<in> set named_statuses" "b \<in> set named_statuses"
  shows "a = b"
  using assms short_names_distinct by (auto simp: distinct_map dest: inj_onD)

lemma short_name_known: "a \<in> set named_statuses \<Longrightarrow> efi_status_to_short_string a \<noteq> ''unknown''"
  by (auto simp: named_statuses_def)

lemma long_names_clash:
  "efi_status_to_string EFI_WARN_BUFFER_TOO_SMALL = efi_status_to_string EFI_BUFFER_TOO_SMALL"
  by simp

end
