(* ===== verification/SdbootTypes.thy ===== *)
theory SdbootTypes
  imports ConfigValue Efi
begin

text \<open>
  \<open>src/sdboot/types.c\<close>: the value parsers of the systemd-boot configuration files. A pointer with a
  length is the character list it covers, which may hold NUL characters; an output pointer is the
  old content of the variable, returned as it is afterwards. Allocations are steps of the oracle of
  the configuration state. A list variable is the list of its data, as \<open>list_obj_add_new_rep\<close>
  shows for the heap lists.
\<close>

section \<open>Values\<close>

datatype sdboot_console_mode =
  MODE_UEFI_80_25 | MODE_UEFI_80_50 | MODE_FIRMWARE_FIRST | MODE_AUTO | MODE_MAX | MODE_KEEP

datatype sdboot_secureboot_enroll = ENROLL_OFF | ENROLL_MANUAL | ENROLL_IF_SAFE | ENROLL_FORCE

datatype embloader_arch =
  ARCH_UNKNOWN | ARCH_ARM | ARCH_ARM64 | ARCH_X86 | ARCH_X86_64 | ARCH_RISCV64 | ARCH_LOONGARCH64

datatype sdboot_parse_status =
  SDBOOT_PARSE_SUCCESS | SDBOOT_PARSE_INVALID | SDBOOT_PARSE_OUT_OF_RESOURCES

text \<open>\<open>strndup\<close> stops at a NUL; one \<open>malloc\<close>.\<close>

definition text_of :: "cstring \<Rightarrow> cstring" where
  "text_of str = takeWhile (\<lambda>c. c \<noteq> NUL) str"

definition strndup :: "cstring \<Rightarrow> cstate \<Rightarrow> cstring option \<times> cstate" where
  "strndup str s = (let (ok, s) = alloc s in (if ok then Some (text_of str) else None, s))"

text \<open>\<open>str_match\<close> and \<open>str_case_match\<close> of a slice against a literal.\<close>

abbreviation is_word :: "cstring \<Rightarrow> cstring \<Rightarrow> bool" where
  "is_word str w \<equiv> str_match (Some str) (length str) (Some w)"

abbreviation is_case_word :: "cstring \<Rightarrow> cstring \<Rightarrow> bool" where
  "is_case_word str w \<equiv> str_case_match (Some str) (length str) (Some w)"

section \<open>Parsers\<close>

definition sdboot_parse_bool :: "cstring \<Rightarrow> bool \<Rightarrow> bool \<times> bool" where
  "sdboot_parse_bool str out =
     (if str = [] then (False, out)
      else if stringn_is_true (Some str) (length str) \<or> is_word str ''1'' then (True, True)
      else if stringn_is_false (Some str) (length str) \<or> is_word str ''0'' then (True, False)
      else (False, out))"

definition sdboot_parse_int_status ::
  "cstring \<Rightarrow> int \<Rightarrow> cstate \<Rightarrow> sdboot_parse_status \<times> int \<times> cstate" where
  "sdboot_parse_int_status str out s =
     (if str = [] then (SDBOOT_PARSE_INVALID, out, s)
      else let (value, s) = strndup str s
           in case value of
                None \<Rightarrow> (SDBOOT_PARSE_OUT_OF_RESOURCES, out, s)
              | Some v \<Rightarrow>
                  let r = strtoll 0 v;
                      used = length v - length (sr_end r)
                  in if used \<noteq> 0 \<and> used = length str \<and> sr_end r = [] \<and> \<not> sr_range r \<and>
                       INT_MIN \<le> sr_val r \<and> sr_val r \<le> INT_MAX
                     then (SDBOOT_PARSE_SUCCESS, sr_val r, s) else (SDBOOT_PARSE_INVALID, out, s))"

definition sdboot_parse_int :: "cstring \<Rightarrow> int \<Rightarrow> cstate \<Rightarrow> bool \<times> int \<times> cstate" where
  "sdboot_parse_int str out s =
     (let (st, out, s) = sdboot_parse_int_status str out s in (st = SDBOOT_PARSE_SUCCESS, out, s))"

definition sdboot_parse_console_mode ::
  "cstring \<Rightarrow> sdboot_console_mode \<Rightarrow> bool \<times> sdboot_console_mode" where
  "sdboot_parse_console_mode str out =
     (if str = [] then (False, out)
      else if is_word str ''0'' then (True, MODE_UEFI_80_25)
      else if is_word str ''1'' then (True, MODE_UEFI_80_50)
      else if is_word str ''2'' then (True, MODE_FIRMWARE_FIRST)
      else if is_case_word str ''auto'' then (True, MODE_AUTO)
      else if is_case_word str ''max'' then (True, MODE_MAX)
      else if is_case_word str ''keep'' then (True, MODE_KEEP)
      else (False, out))"

definition sdboot_parse_secureboot_enroll ::
  "cstring \<Rightarrow> sdboot_secureboot_enroll \<Rightarrow> bool \<times> sdboot_secureboot_enroll" where
  "sdboot_parse_secureboot_enroll str out =
     (if str = [] then (False, out)
      else if is_case_word str ''off'' then (True, ENROLL_OFF)
      else if is_case_word str ''manual'' then (True, ENROLL_MANUAL)
      else if is_case_word str ''if-safe'' then (True, ENROLL_IF_SAFE)
      else if is_case_word str ''force'' then (True, ENROLL_FORCE)
      else (False, out))"

definition sdboot_parse_arch :: "cstring \<Rightarrow> embloader_arch \<Rightarrow> bool \<times> embloader_arch" where
  "sdboot_parse_arch str out =
     (if str = [] then (False, out)
      else if is_case_word str ''x64'' then (True, ARCH_X86_64)
      else if is_case_word str ''aa64'' then (True, ARCH_ARM64)
      else if is_case_word str ''arm'' then (True, ARCH_ARM)
      else if is_case_word str ''ia32'' then (True, ARCH_X86)
      else if is_case_word str ''riscv64'' then (True, ARCH_RISCV64)
      else if is_case_word str ''loongarch64'' then (True, ARCH_LOONGARCH64)
      else (False, out))"

definition sdboot_parse_string_status ::
  "cstring \<Rightarrow> cstring option \<Rightarrow> cstate \<Rightarrow> sdboot_parse_status \<times> cstring option \<times> cstate" where
  "sdboot_parse_string_status str out s =
     (if str = [] then (SDBOOT_PARSE_INVALID, out, s)
      else let (value, s) = strndup str s
           in case value of
                None \<Rightarrow> (SDBOOT_PARSE_OUT_OF_RESOURCES, out, s)
              | Some v \<Rightarrow> (SDBOOT_PARSE_SUCCESS, Some v, s))"

definition sdboot_parse_string :: "cstring \<Rightarrow> cstring option \<Rightarrow> cstate \<Rightarrow> bool \<times> cstring option \<times> cstate" where
  "sdboot_parse_string str out s =
     (let (st, out, s) = sdboot_parse_string_status str out s in (st = SDBOOT_PARSE_SUCCESS, out, s))"

text \<open>\<open>list_obj_add_new_strndup\<close>: the duplicate, then the cell.\<close>

definition list_obj_add_new_strndup :: "cstring list \<Rightarrow> cstring \<Rightarrow> cstate \<Rightarrow> bool \<times> cstring list \<times> cstate" where
  "list_obj_add_new_strndup xs str s =
     (let (dup, s) = strndup str s
      in case dup of
           None \<Rightarrow> (False, xs, s)
         | Some d \<Rightarrow> let (ok, s) = alloc s in (ok, if ok then xs @ [d] else xs, s))"

lemma rest_shorter:
  "dropWhile isspace str \<noteq> [] \<Longrightarrow>
   length (dropWhile (\<lambda>c. \<not> isspace c) (dropWhile isspace str)) < length str"
proof -
  assume "dropWhile isspace str \<noteq> []"
  then obtain c r where e: "dropWhile isspace str = c # r" by (cases "dropWhile isspace str") auto
  then have "\<not> isspace c" by (rule hd_dropWhile_not)
  then have "length (dropWhile (\<lambda>c. \<not> isspace c) (c # r)) \<le> length r"
    by (simp add: length_dropWhile_le)
  also have "\<dots> < length str" using length_dropWhile_tl [OF e] .
  finally show ?thesis by (simp only: e)
qed

function token_loop :: "cstring \<Rightarrow> cstring list \<Rightarrow> cstate \<Rightarrow> cstring list option \<times> cstate" where
  "token_loop str values s =
     (let str = dropWhile isspace str in
      if str = [] then (Some values, s)
      else let tok = takeWhile (\<lambda>c. \<not> isspace c) str; rest = dropWhile (\<lambda>c. \<not> isspace c) str;
               (ok, values, s) = list_obj_add_new_strndup values tok s
           in if ok then token_loop rest values s else (None, s))"
  by pat_completeness auto
termination
  by (relation "measure (\<lambda>(str, values, s). length str)") (auto simp: rest_shorter)

definition sdboot_parse_string_list_status ::
  "cstring \<Rightarrow> cstring list \<Rightarrow> cstate \<Rightarrow> sdboot_parse_status \<times> cstring list \<times> cstate" where
  "sdboot_parse_string_list_status str out s =
     (if str = [] then (SDBOOT_PARSE_INVALID, out, s)
      else let (values, s) = token_loop str [] s
           in case values of
                None \<Rightarrow> (SDBOOT_PARSE_OUT_OF_RESOURCES, out, s)
              | Some vs \<Rightarrow>
                  if vs = [] then (SDBOOT_PARSE_INVALID, out, s) else (SDBOOT_PARSE_SUCCESS, out @ vs, s))"

definition sdboot_parse_string_list ::
  "cstring \<Rightarrow> cstring list \<Rightarrow> cstate \<Rightarrow> bool \<times> cstring list \<times> cstate" where
  "sdboot_parse_string_list str out s =
     (let (st, out, s) = sdboot_parse_string_list_status str out s
      in (st = SDBOOT_PARSE_SUCCESS, out, s))"

definition sdboot_parse_timeout_status ::
  "cstring \<Rightarrow> int \<Rightarrow> cstate \<Rightarrow> sdboot_parse_status \<times> int \<times> cstate" where
  "sdboot_parse_timeout_status str out s =
     (if is_case_word str ''menu-force'' then (SDBOOT_PARSE_SUCCESS, -1, s)
      else if is_case_word str ''menu-hidden'' then (SDBOOT_PARSE_SUCCESS, 0, s)
      else if is_case_word str ''menu-disabled'' then (SDBOOT_PARSE_SUCCESS, 0, s)
      else let (st, out, s) = sdboot_parse_int_status str out s
           in if st \<noteq> SDBOOT_PARSE_SUCCESS then (st, out, s)
              else if out < 0 then (SDBOOT_PARSE_INVALID, out, s)
              else (SDBOOT_PARSE_SUCCESS, out, s))"

definition sdboot_parse_timeout :: "cstring \<Rightarrow> int \<Rightarrow> cstate \<Rightarrow> bool \<times> int \<times> cstate" where
  "sdboot_parse_timeout str out s =
     (let (st, out, s) = sdboot_parse_timeout_status str out s in (st = SDBOOT_PARSE_SUCCESS, out, s))"

section \<open>The strings of a list value\<close>

function tokens :: "cstring \<Rightarrow> cstring list" where
  "tokens str =
     (case dropWhile isspace str of [] \<Rightarrow> []
      | c # r \<Rightarrow> takeWhile (\<lambda>c. \<not> isspace c) (c # r) # tokens (dropWhile (\<lambda>c. \<not> isspace c) (c # r)))"
  by pat_completeness auto
termination
proof (relation "measure length", simp)
  fix str :: cstring and c r
  assume "dropWhile isspace str = c # r"
  with rest_shorter [of str] show "(dropWhile (\<lambda>c. \<not> isspace c) (c # r), str) \<in> measure length" by simp
qed

declare tokens.simps [simp del] token_loop.simps [simp del]

end
