(* ===== verification/ConfigFile.thy ===== *)
theory ConfigFile
  imports Conf ConfigMerge SdbootTypes
begin

text \<open>
  \<open>src/configfile/file.c\<close>, \<open>src/main/config.c\<close> and \<open>src/main/cmdline.c\<close>: which parser a file gets, how
  the files of the loader's folder are merged into the configuration one after the other, and the
  kernel arguments of \<open>cmdline.txt\<close>. The JSON and YAML parsers wrap external libraries and are
  parameters, as is reading a file: \<open>fs\<close> gives the status of opening, the status of reading and the
  content of a path.
\<close>

section \<open>file.c\<close>

datatype configfile_type =
  CONFIGFILE_TYPE_UNKNOWN | CONFIGFILE_TYPE_JSON | CONFIGFILE_TYPE_YAML | CONFIGFILE_TYPE_CONF

type_synonym config_loader = "cstring option \<Rightarrow> cstate \<Rightarrow> (ptr \<times> cstate) option"
type_synonym config_saver = "ptr \<Rightarrow> cstate \<Rightarrow> (cstring option \<times> cstate) option"

definition configfile_load_string ::
  "config_loader \<Rightarrow> config_loader \<Rightarrow> configfile_type \<Rightarrow> config_loader" where
  "configfile_load_string json yaml ty buff s =
     (case ty of
        CONFIGFILE_TYPE_JSON \<Rightarrow> json buff s
      | CONFIGFILE_TYPE_YAML \<Rightarrow> yaml buff s
      | CONFIGFILE_TYPE_CONF \<Rightarrow> configfile_conf_load_string buff s
      | CONFIGFILE_TYPE_UNKNOWN \<Rightarrow> Some (None, s))"

definition configfile_save_string ::
  "config_saver \<Rightarrow> config_saver \<Rightarrow> configfile_type \<Rightarrow> config_saver" where
  "configfile_save_string json yaml ty node s =
     (case ty of
        CONFIGFILE_TYPE_JSON \<Rightarrow> json node s
      | CONFIGFILE_TYPE_YAML \<Rightarrow> yaml node s
      | CONFIGFILE_TYPE_CONF \<Rightarrow> configfile_conf_save_string node s
      | CONFIGFILE_TYPE_UNKNOWN \<Rightarrow> Some (None, s))"

definition configfile_type_from_ext :: "cstring option \<Rightarrow> configfile_type" where
  "configfile_type_from_ext ext =
     (case ext of
        None \<Rightarrow> CONFIGFILE_TYPE_UNKNOWN
      | Some e \<Rightarrow>
          if strcasecmp e ''json'' = 0 \<or> strcasecmp e ''jsn'' = 0 then CONFIGFILE_TYPE_JSON
          else if strcasecmp e ''yaml'' = 0 \<or> strcasecmp e ''yml'' = 0 then CONFIGFILE_TYPE_YAML
          else if strcasecmp e ''conf'' = 0 then CONFIGFILE_TYPE_CONF
          else CONFIGFILE_TYPE_UNKNOWN)"

definition configfile_type_guess :: "cstring option \<Rightarrow> configfile_type" where
  "configfile_type_guess filename =
     (case filename of
        None \<Rightarrow> CONFIGFILE_TYPE_UNKNOWN
      | Some f \<Rightarrow>
          (case strrchr f (CHR ''.'') of
             None \<Rightarrow> CONFIGFILE_TYPE_UNKNOWN
           | Some ext \<Rightarrow>
               if length ext = length f then CONFIGFILE_TYPE_UNKNOWN
               else configfile_type_from_ext (Some (tl ext))))"

text \<open>Opening a path, then reading the file.\<close>

type_synonym filesys = "cstring \<Rightarrow> efi_status \<times> efi_status \<times> cstring option"

definition configfile_load_efi_file ::
  "config_loader \<Rightarrow> config_loader \<Rightarrow> configfile_type \<Rightarrow> efi_status \<times> cstring option \<Rightarrow> cstate \<Rightarrow>
   (ptr \<times> cstate) option" where
  "configfile_load_efi_file json yaml ty file s =
     (let (status, data) = file
      in if EFI_ERROR status \<or> data = None then Some (None, s)
         else configfile_load_string json yaml ty (map_option text_of data) s)"

definition configfile_load_efi_file_path ::
  "config_loader \<Rightarrow> config_loader \<Rightarrow> configfile_type \<Rightarrow> filesys \<Rightarrow> cstring \<Rightarrow> cstate \<Rightarrow>
   (ptr \<times> cstate) option" where
  "configfile_load_efi_file_path json yaml ty fs path s =
     (let (status, file) = fs path
      in if EFI_ERROR status then Some (None, s) else configfile_load_efi_file json yaml ty file s)"

section \<open>config.c\<close>

definition embloader_load_config_one ::
  "config_loader \<Rightarrow> config_loader \<Rightarrow> filesys option \<Rightarrow> ptr \<Rightarrow> cstring \<Rightarrow> cstate \<Rightarrow> (bool \<times> cstate) option" where
  "embloader_load_config_one json yaml dir config name s =
     (case dir of
        None \<Rightarrow> Some (False, s)
      | Some fs \<Rightarrow>
          if EFI_ERROR (fst (fs name)) then Some (False, s)
          else let ty = configfile_type_guess (Some name) in
          if ty = CONFIGFILE_TYPE_UNKNOWN then Some (False, s)
          else do {
            (newcfg, s) \<leftarrow> configfile_load_efi_file_path json yaml ty fs name s;
            (case newcfg of
               None \<Rightarrow> Some (False, s)
             | Some n \<Rightarrow> do {
                 (ok, s) \<leftarrow> confignode_merge config newcfg s;
                 s \<leftarrow> confignode_clean n s;
                 Some (ok, s)
               })
          })"

text \<open>The roots of a fresh loader: the system information and the configuration.\<close>

definition embloader_init :: "cstate \<Rightarrow> ((ptr \<times> ptr) option \<times> cstate) option" where
  "embloader_init s = do {
     (sysinfo, s) \<leftarrow> confignode_new_map s;
     (case sysinfo of
        None \<Rightarrow> Some (None, s)
      | Some i \<Rightarrow> do {
          (config, s) \<leftarrow> confignode_new_map s;
          (case config of
             None \<Rightarrow> do { s \<leftarrow> confignode_clean i s; Some (None, s) }
           | Some c \<Rightarrow> Some (Some (sysinfo, config), s))
        })
   }"

text \<open>The kernel type of the first active profile that has one.\<close>

fun ktype_of :: "ptr \<Rightarrow> cstring list \<Rightarrow> cstate \<Rightarrow> (cstring option \<times> cstate) option" where
  "ktype_of np [] s = Some (None, s)"
| "ktype_of np (profile # ps) s = do {
     cp \<leftarrow> confignode_map_get np (Some profile) s;
     (if cp = None then ktype_of np ps s
      else do {
        ((ktype, _), s) \<leftarrow> confignode_path_get_string cp (Some ''ktype'') None s;
        (if ktype = None then ktype_of np ps s else Some (ktype, s))
      })
   }"

definition embloader_load_ktype :: "ptr \<Rightarrow> cstring list \<Rightarrow> cstate \<Rightarrow> (cstring option \<times> cstate) option" where
  "embloader_load_ktype config profiles s = do {
     np \<leftarrow> confignode_map_get config (Some ''profiles'') s;
     (if np = None then Some (None, s) else ktype_of np profiles s)
   }"

section \<open>cmdline.c\<close>

function cmdline_params :: "cstring \<Rightarrow> ptr \<Rightarrow> cstate \<Rightarrow> (bool \<times> cstate) option" where
  "cmdline_params line array_node s =
     (let start = dropWhile isspace line in
      if start = [] then Some (True, s)
      else let (param, s) = strndup (takeWhile (\<lambda>c. \<not> isspace c) start) s;
               rest = dropWhile (\<lambda>c. \<not> isspace c) start
           in if param = None then Some (False, s)
              else do {
                (val, s) \<leftarrow> confignode_new_string param s;
                (case val of
                   None \<Rightarrow> Some (False, s)
                 | Some v \<Rightarrow> do {
                     (ok, s) \<leftarrow> confignode_array_append array_node val s;
                     (if ok then cmdline_params rest array_node s
                      else do { s \<leftarrow> confignode_clean v s; Some (False, s) })
                   })
              })"
  by pat_completeness auto
termination
  by (relation "measure (\<lambda>(line, n, s). length line)") (simp_all add: rest_shorter)

declare cmdline_params.simps [simp del]

definition parse_cmdline_line :: "cstring \<Rightarrow> ptr \<Rightarrow> cstate \<Rightarrow> (bool \<times> cstate) option" where
  "parse_cmdline_line line array_node s =
     (if array_node = None \<or> line = [] then Some (False, s)
      else let line = dropWhile isspace line in
      if line = [] \<or> hd line = CHR ''#'' then Some (True, s)
      else cmdline_params line array_node s)"

function cmdline_loop :: "cstring \<Rightarrow> ptr \<Rightarrow> cstate \<Rightarrow> (bool \<times> cstate) option" where
  "cmdline_loop cur bootargs s =
     (if cur = [] then Some (True, s)
      else let line = takeWhile (\<lambda>c. \<not> line_end c) cur;
               next = dropWhile line_end (dropWhile (\<lambda>c. \<not> line_end c) cur)
           in do {
             (ok, s) \<leftarrow> (if line = [] then Some (True, s) else parse_cmdline_line line bootargs s);
             (if ok then cmdline_loop next bootargs s else Some (False, s))
           })"
  by pat_completeness auto
termination
  by (relation "measure (\<lambda>(cur, b, s). length cur)") (simp_all add: next_line_shorter)

declare cmdline_loop.simps [simp del]

definition cmdline_fail :: "addr \<Rightarrow> cstate \<Rightarrow> (efi_status \<times> cstate) option" where
  "cmdline_fail menu s = do { s \<leftarrow> confignode_clean menu s; Some (EFI_OUT_OF_RESOURCES, s) }"

text \<open>The array the arguments go to; \<open>None\<close> is the error exit.\<close>

definition cmdline_bootargs :: "ptr \<Rightarrow> cstate \<Rightarrow> (ptr \<times> cstate) option" where
  "cmdline_bootargs menu s = do {
     bootargs \<leftarrow> confignode_map_get menu (Some ''bootargs'') s;
     isarr \<leftarrow> confignode_is_type bootargs TYPE_ARRAY s;
     (if bootargs \<noteq> None \<and> isarr then Some (bootargs, s)
      else do {
        (replacement, s) \<leftarrow> confignode_new_array s;
        (case replacement of
           None \<Rightarrow> Some (None, s)
         | Some r \<Rightarrow> do {
             (ok, s) \<leftarrow> confignode_map_set menu (Some ''bootargs'') replacement s;
             (if ok then Some (replacement, s)
              else do { s \<leftarrow> confignode_clean r s; Some (None, s) })
           })
      })
   }"

definition embloader_load_cmdline_config :: "ptr \<Rightarrow> cstring option \<Rightarrow> cstate \<Rightarrow> (efi_status \<times> cstate) option" where
  "embloader_load_cmdline_config node buffer s =
     (if node = None \<or> buffer = None then Some (EFI_INVALID_PARAMETER, s)
      else do {
        old_menu \<leftarrow> confignode_map_get node (Some ''menu'') s;
        ismap \<leftarrow> confignode_is_type old_menu TYPE_MAP s;
        (menu, s) \<leftarrow> (case old_menu of
            Some o' \<Rightarrow> if ismap then confignode_copy o' s else confignode_new_map s
          | None \<Rightarrow> confignode_new_map s);
        (case menu of
           None \<Rightarrow> Some (EFI_OUT_OF_RESOURCES, s)
         | Some m \<Rightarrow> do {
             (bootargs, s) \<leftarrow> cmdline_bootargs menu s;
             (if bootargs = None then cmdline_fail m s
              else do {
                (ok, s) \<leftarrow> cmdline_loop (the buffer) bootargs s;
                (if \<not> ok then cmdline_fail m s
                 else do {
                   (ok, s) \<leftarrow> (if old_menu \<noteq> None
                      then do { (ok, _, s) \<leftarrow> confignode_replace old_menu menu s; Some (ok, s) }
                      else confignode_map_set node (Some ''menu'') menu s);
                   (if ok then Some (EFI_SUCCESS, s) else cmdline_fail m s)
                 })
              })
           })
      })"

definition embloader_load_cmdline_config_path ::
  "ptr \<Rightarrow> filesys option \<Rightarrow> cstring option \<Rightarrow> cstate \<Rightarrow> (efi_status \<times> cstate) option" where
  "embloader_load_cmdline_config_path node base path s =
     (case (base, path) of
        (Some fs, Some p) \<Rightarrow>
          (let (opened, got, content) = fs p in
           if EFI_ERROR opened then Some (opened, s)
           else if EFI_ERROR got then Some (got, s)
           else embloader_load_cmdline_config node (map_option text_of content) s)
      | _ \<Rightarrow> Some (EFI_INVALID_PARAMETER, s))"

end
