(* ===== verification/ConfigReads.thy ===== *)
theory ConfigReads
  imports ConfigValue
begin

text \<open>
  Reading never writes: an operation that looks a path up without creating it leaves every node,
  the next address and the oracle as they are, whatever the heap holds and whether or not the
  allocations on the way succeed.
\<close>

definition reads_only :: "cstate \<Rightarrow> cstate \<Rightarrow> bool" where
  "reads_only s s' \<longleftrightarrow> (\<exists>k. s' = s\<lparr>ctick := ctick s + k\<rparr>)"

named_theorems reads "operations that only read"

lemma reads_only_refl [simp, intro]: "reads_only s s"
  by (simp add: reads_only_def exI [of _ 0])

lemma reads_only_trans [trans]: "reads_only s s' \<Longrightarrow> reads_only s' s'' \<Longrightarrow> reads_only s s''"
  by (force simp: reads_only_def add.assoc)

lemma reads_only_nodes: "reads_only s s' \<Longrightarrow> nodes s' = nodes s \<and> cnxt s' = cnxt s \<and> coom s' = coom s \<and> ctick s \<le> ctick s'"
  by (auto simp: reads_only_def)

lemma alloc_reads [reads]: "alloc s = (ok, s') \<Longrightarrow> reads_only s s'"
  by (auto simp: alloc_def reads_only_def intro: exI [of _ 1])

lemma require_type_reads:
  "confignode_path_require_type node ty False s = Some (ok, a, s') \<Longrightarrow> s' = s \<and> a = node"
  by (auto simp: confignode_path_require_type_def split: bind_splits if_splits)

lemma lookup_index_step_reads: "lookup_index_step node i False s = Some (r, s') \<Longrightarrow> s' = s"
  by (auto simp: lookup_index_step_def split: bind_splits if_splits dest: require_type_reads)

lemma lookup_key_step_reads: "lookup_key_step node key False s = Some (r, s') \<Longrightarrow> s' = s"
  by (auto simp: lookup_key_step_def split: bind_splits if_splits dest: require_type_reads)

lemma path_lookup_reads:
  assumes "path_lookup node path create s = Some rs" "\<not> create"
  shows "reads_only s (snd rs)"
proof -
  have "\<not> create \<longrightarrow> reads_only s (snd rs)"
  proof (rule path_lookup.raw_induct [OF _ assms(1), where P = "\<lambda>node path create s rs. \<not> create \<longrightarrow> reads_only s (snd rs)"],
      goal_cases)
    case (1 f node path create s y)
    note b = 1(2)
    have IH: "reads_only s (snd y)" if "f node path False s = Some y" for node path s y
      using 1(1) [OF that] by simp
    show "\<not> create \<longrightarrow> reads_only s (snd y)"
    proof
      assume c: "\<not> create"
      show "reads_only s (snd y)"
      proof (cases "\<not> path_valid path \<or> path = [] \<or> hdc path = CHR ''[''")
        case True
        with b c show ?thesis
          by (auto simp: Let_def split: if_splits option.splits bind_splits
              dest!: lookup_index_step_reads dest: IH)
      next
        case False
        obtain ok s1 where a: "alloc s = (ok, s1)" by (cases "alloc s")
        note s1 = alloc_reads [OF a]
        define delim where "delim = strpbrk path ''.[''"
        define key where "key = (case delim of None \<Rightarrow> path | Some d \<Rightarrow> take (length path - length d) path)"
        define rest where "rest = (case delim of None \<Rightarrow> [] | Some d \<Rightarrow> if hdc d = CHR ''['' then d else tl d)"
        have "(if key = [] then Some (None, s) else if \<not> ok then Some (None, s1)
            else if delim \<noteq> None \<and> rest = [] then Some (None, s1)
            else do {
              (nxt, s) \<leftarrow> lookup_key_step node key create s1;
              (case nxt of
                 None \<Rightarrow> Some (None, s)
               | Some n \<Rightarrow> if rest = [] then Some (nxt, s) else f n rest create s)
            }) = Some y"
          using b False unfolding Let_def delim_def [symmetric] key_def [symmetric] rest_def [symmetric] a prod.case by simp
        with c s1 show ?thesis
          by (auto split: if_splits option.splits bind_splits dest!: lookup_key_step_reads)
            (meson IH reads_only_trans)+
      qed
    qed
  qed
  with assms(2) show ?thesis by simp
qed

lemma confignode_path_lookup_reads [reads]:
  "confignode_path_lookup node path False s = Some (r, s') \<Longrightarrow> reads_only s s'"
  using path_lookup_reads [of _ _ False s "(r, s')"]
  by (auto simp: confignode_path_lookup_def split: option.splits)

lemma get_string_reads [reads]:
  "confignode_path_get_string node path def s = Some (r, s') \<Longrightarrow> reads_only s s'"
  by (auto simp: confignode_path_get_string_def split: bind_splits if_splits dest: reads)

lemma get_int_reads [reads]:
  "confignode_path_get_int node path def s = Some (r, s') \<Longrightarrow> reads_only s s'"
  by (auto simp: confignode_path_get_int_def split: bind_splits if_splits dest: reads)

lemma get_bool_reads [reads]:
  "confignode_path_get_bool node path def s = Some (r, s') \<Longrightarrow> reads_only s s'"
  by (auto simp: confignode_path_get_bool_def split: bind_splits if_splits dest: reads)

lemma get_float_reads [reads]:
  "confignode_path_get_float node path def s = Some (r, s') \<Longrightarrow> reads_only s s'"
  by (auto simp: confignode_path_get_float_def split: bind_splits if_splits dest: reads)

lemma get_list_reads [reads]:
  "confignode_path_get_string_or_list node path sep s = Some (r, s') \<Longrightarrow> reads_only s s'"
  by (auto simp: confignode_path_get_string_or_list_def split: bind_splits if_splits dest: reads)

lemma iter_start_reads [reads]:
  "confignode_path_iter_start node path s = Some (ok, it, s') \<Longrightarrow> reads_only s s'"
  by (auto simp: confignode_path_iter_start_def split: bind_splits if_splits dest: reads)

lemma is_type_reads [reads]:
  "confignode_path_is_type node path ty s = Some (r, s') \<Longrightarrow> reads_only s s'"
  by (auto simp: confignode_path_is_type_def split: bind_splits if_splits dest: reads)

lemma array_len_reads [reads]:
  "confignode_path_array_len node path s = Some (r, s') \<Longrightarrow> reads_only s s'"
  by (auto simp: confignode_path_array_len_def split: bind_splits if_splits option.splits dest: reads)

lemma value_get_reads [reads]:
  "confignode_value_get node s = Some (r, s') \<Longrightarrow> reads_only s s'"
  by (auto simp: confignode_value_get_def alloc_def reads_only_def intro: exI [of _ 0] exI [of _ "1::nat"]
      split: bind_splits if_splits option.splits vdata.splits)

lemma get_value_reads [reads]:
  assumes "confignode_path_get_value node path s = Some (r, s')"
  shows "reads_only s s'"
proof -
  obtain n s1 where l: "confignode_path_lookup node path False s = Some (n, s1)"
    using assms by (auto simp: confignode_path_get_value_def split: bind_splits)
  have "reads_only s1 s'"
    using assms l by (cases n) (auto simp: confignode_path_get_value_def dest: value_get_reads)
  with confignode_path_lookup_reads [OF l] show ?thesis by (rule reads_only_trans)
qed

end
