(* ===== verification/Crc32.thy ===== *)
theory Crc32
  imports Main "HOL-Library.Word"
begin

text \<open>
  \<open>src/lib/crc32.c\<close>: the table-driven CRC-32. The reference is the bit-at-a-time remainder with the
  reflected polynomial \<open>0xEDB88320\<close>; the table holds its value for every byte, and the byte step
  is eight bit steps because the bit step is linear.
\<close>

unbundle bit_operations_syntax

definition crc_table :: "32 word list" where
  "crc_table = [
   0x00000000, 0x77073096, 0xEE0E612C, 0x990951BA, 0x076DC419, 0x706AF48F,
   0xE963A535, 0x9E6495A3, 0x0EDB8832, 0x79DCB8A4, 0xE0D5E91E, 0x97D2D988,
   0x09B64C2B, 0x7EB17CBD, 0xE7B82D07, 0x90BF1D91, 0x1DB71064, 0x6AB020F2,
   0xF3B97148, 0x84BE41DE, 0x1ADAD47D, 0x6DDDE4EB, 0xF4D4B551, 0x83D385C7,
   0x136C9856, 0x646BA8C0, 0xFD62F97A, 0x8A65C9EC, 0x14015C4F, 0x63066CD9,
   0xFA0F3D63, 0x8D080DF5, 0x3B6E20C8, 0x4C69105E, 0xD56041E4, 0xA2677172,
   0x3C03E4D1, 0x4B04D447, 0xD20D85FD, 0xA50AB56B, 0x35B5A8FA, 0x42B2986C,
   0xDBBBC9D6, 0xACBCF940, 0x32D86CE3, 0x45DF5C75, 0xDCD60DCF, 0xABD13D59,
   0x26D930AC, 0x51DE003A, 0xC8D75180, 0xBFD06116, 0x21B4F4B5, 0x56B3C423,
   0xCFBA9599, 0xB8BDA50F, 0x2802B89E, 0x5F058808, 0xC60CD9B2, 0xB10BE924,
   0x2F6F7C87, 0x58684C11, 0xC1611DAB, 0xB6662D3D, 0x76DC4190, 0x01DB7106,
   0x98D220BC, 0xEFD5102A, 0x71B18589, 0x06B6B51F, 0x9FBFE4A5, 0xE8B8D433,
   0x7807C9A2, 0x0F00F934, 0x9609A88E, 0xE10E9818, 0x7F6A0DBB, 0x086D3D2D,
   0x91646C97, 0xE6635C01, 0x6B6B51F4, 0x1C6C6162, 0x856530D8, 0xF262004E,
   0x6C0695ED, 0x1B01A57B, 0x8208F4C1, 0xF50FC457, 0x65B0D9C6, 0x12B7E950,
   0x8BBEB8EA, 0xFCB9887C, 0x62DD1DDF, 0x15DA2D49, 0x8CD37CF3, 0xFBD44C65,
   0x4DB26158, 0x3AB551CE, 0xA3BC0074, 0xD4BB30E2, 0x4ADFA541, 0x3DD895D7,
   0xA4D1C46D, 0xD3D6F4FB, 0x4369E96A, 0x346ED9FC, 0xAD678846, 0xDA60B8D0,
   0x44042D73, 0x33031DE5, 0xAA0A4C5F, 0xDD0D7CC9, 0x5005713C, 0x270241AA,
   0xBE0B1010, 0xC90C2086, 0x5768B525, 0x206F85B3, 0xB966D409, 0xCE61E49F,
   0x5EDEF90E, 0x29D9C998, 0xB0D09822, 0xC7D7A8B4, 0x59B33D17, 0x2EB40D81,
   0xB7BD5C3B, 0xC0BA6CAD, 0xEDB88320, 0x9ABFB3B6, 0x03B6E20C, 0x74B1D29A,
   0xEAD54739, 0x9DD277AF, 0x04DB2615, 0x73DC1683, 0xE3630B12, 0x94643B84,
   0x0D6D6A3E, 0x7A6A5AA8, 0xE40ECF0B, 0x9309FF9D, 0x0A00AE27, 0x7D079EB1,
   0xF00F9344, 0x8708A3D2, 0x1E01F268, 0x6906C2FE, 0xF762575D, 0x806567CB,
   0x196C3671, 0x6E6B06E7, 0xFED41B76, 0x89D32BE0, 0x10DA7A5A, 0x67DD4ACC,
   0xF9B9DF6F, 0x8EBEEFF9, 0x17B7BE43, 0x60B08ED5, 0xD6D6A3E8, 0xA1D1937E,
   0x38D8C2C4, 0x4FDFF252, 0xD1BB67F1, 0xA6BC5767, 0x3FB506DD, 0x48B2364B,
   0xD80D2BDA, 0xAF0A1B4C, 0x36034AF6, 0x41047A60, 0xDF60EFC3, 0xA867DF55,
   0x316E8EEF, 0x4669BE79, 0xCB61B38C, 0xBC66831A, 0x256FD2A0, 0x5268E236,
   0xCC0C7795, 0xBB0B4703, 0x220216B9, 0x5505262F, 0xC5BA3BBE, 0xB2BD0B28,
   0x2BB45A92, 0x5CB36A04, 0xC2D7FFA7, 0xB5D0CF31, 0x2CD99E8B, 0x5BDEAE1D,
   0x9B64C2B0, 0xEC63F226, 0x756AA39C, 0x026D930A, 0x9C0906A9, 0xEB0E363F,
   0x72076785, 0x05005713, 0x95BF4A82, 0xE2B87A14, 0x7BB12BAE, 0x0CB61B38,
   0x92D28E9B, 0xE5D5BE0D, 0x7CDCEFB7, 0x0BDBDF21, 0x86D3D2D4, 0xF1D4E242,
   0x68DDB3F8, 0x1FDA836E, 0x81BE16CD, 0xF6B9265B, 0x6FB077E1, 0x18B74777,
   0x88085AE6, 0xFF0F6A70, 0x66063BCA, 0x11010B5C, 0x8F659EFF, 0xF862AE69,
   0x616BFFD3, 0x166CCF45, 0xA00AE278, 0xD70DD2EE, 0x4E048354, 0x3903B3C2,
   0xA7672661, 0xD06016F7, 0x4969474D, 0x3E6E77DB, 0xAED16A4A, 0xD9D65ADC,
   0x40DF0B66, 0x37D83BF0, 0xA9BCAE53, 0xDEBB9EC5, 0x47B2CF7F, 0x30B5FFE9,
   0xBDBDF21C, 0xCABAC28A, 0x53B39330, 0x24B4A3A6, 0xBAD03605, 0xCDD70693,
   0x54DE5729, 0x23D967BF, 0xB3667A2E, 0xC4614AB8, 0x5D681B02, 0x2A6F2B94,
   0xB40BBE37, 0xC30C8EA1, 0x5A05DF1B, 0x2D02EF8D]"

definition crc_byte :: "32 word \<Rightarrow> 8 word \<Rightarrow> 32 word" where
  "crc_byte crc b = drop_bit 8 crc XOR crc_table ! unat ((ucast crc :: 8 word) XOR b)"

definition s_crc32 :: "8 word list \<Rightarrow> 32 word" where
  "s_crc32 buffer = foldl crc_byte 0xFFFFFFFF buffer XOR 0xFFFFFFFF"

section \<open>Bit at a time\<close>

definition crc_bit :: "32 word \<Rightarrow> 32 word" where
  "crc_bit x = (if bit x 0 then drop_bit 1 x XOR 0xEDB88320 else drop_bit 1 x)"

definition crc_bits8 :: "32 word \<Rightarrow> 32 word" where
  "crc_bits8 x = crc_bit (crc_bit (crc_bit (crc_bit (crc_bit (crc_bit (crc_bit (crc_bit x)))))))"

definition crc_byte_ref :: "32 word \<Rightarrow> 8 word \<Rightarrow> 32 word" where
  "crc_byte_ref crc b = crc_bits8 (crc XOR ucast b)"

definition crc32_ref :: "8 word list \<Rightarrow> 32 word" where
  "crc32_ref buffer = foldl crc_byte_ref 0xFFFFFFFF buffer XOR 0xFFFFFFFF"

lemma crc_bit_alt: "crc_bit x = drop_bit 1 x XOR of_bool (odd x) * 0xEDB88320"
  by (simp add: crc_bit_def bit_0)

lemma odd_xor_word: "odd (x XOR y) = (odd x \<noteq> odd (y :: 32 word))"
  using bit_xor_iff [of x y 0] by (simp only: bit_0)

lemma crc_bit_xor: "crc_bit (x XOR y) = crc_bit x XOR crc_bit y"
  by (cases "odd x"; cases "odd y")
     (simp_all add: crc_bit_alt drop_bit_xor odd_xor_word ac_simps)

lemma crc_bits8_xor: "crc_bits8 (x XOR y) = crc_bits8 x XOR crc_bits8 y"
  by (simp add: crc_bits8_def crc_bit_xor)

lemma crc_bit_shift: "even x \<Longrightarrow> crc_bit x = drop_bit 1 x"
  by (simp add: crc_bit_alt)

section \<open>The table\<close>

lemma crc_entries_0:
   "crc_bits8 0 = 0x00000000"
   "crc_bits8 1 = 0x77073096"
   "crc_bits8 2 = 0xEE0E612C"
   "crc_bits8 3 = 0x990951BA"
   "crc_bits8 4 = 0x076DC419"
   "crc_bits8 5 = 0x706AF48F"
   "crc_bits8 6 = 0xE963A535"
   "crc_bits8 7 = 0x9E6495A3"
   "crc_bits8 8 = 0x0EDB8832"
   "crc_bits8 9 = 0x79DCB8A4"
   "crc_bits8 10 = 0xE0D5E91E"
   "crc_bits8 11 = 0x97D2D988"
   "crc_bits8 12 = 0x09B64C2B"
   "crc_bits8 13 = 0x7EB17CBD"
   "crc_bits8 14 = 0xE7B82D07"
   "crc_bits8 15 = 0x90BF1D91"
   "crc_bits8 16 = 0x1DB71064"
   "crc_bits8 17 = 0x6AB020F2"
   "crc_bits8 18 = 0xF3B97148"
   "crc_bits8 19 = 0x84BE41DE"
   "crc_bits8 20 = 0x1ADAD47D"
   "crc_bits8 21 = 0x6DDDE4EB"
   "crc_bits8 22 = 0xF4D4B551"
   "crc_bits8 23 = 0x83D385C7"
   "crc_bits8 24 = 0x136C9856"
   "crc_bits8 25 = 0x646BA8C0"
   "crc_bits8 26 = 0xFD62F97A"
   "crc_bits8 27 = 0x8A65C9EC"
   "crc_bits8 28 = 0x14015C4F"
   "crc_bits8 29 = 0x63066CD9"
   "crc_bits8 30 = 0xFA0F3D63"
   "crc_bits8 31 = 0x8D080DF5"
   "crc_bits8 32 = 0x3B6E20C8"
   "crc_bits8 33 = 0x4C69105E"
   "crc_bits8 34 = 0xD56041E4"
   "crc_bits8 35 = 0xA2677172"
   "crc_bits8 36 = 0x3C03E4D1"
   "crc_bits8 37 = 0x4B04D447"
   "crc_bits8 38 = 0xD20D85FD"
   "crc_bits8 39 = 0xA50AB56B"
   "crc_bits8 40 = 0x35B5A8FA"
   "crc_bits8 41 = 0x42B2986C"
   "crc_bits8 42 = 0xDBBBC9D6"
   "crc_bits8 43 = 0xACBCF940"
   "crc_bits8 44 = 0x32D86CE3"
   "crc_bits8 45 = 0x45DF5C75"
   "crc_bits8 46 = 0xDCD60DCF"
   "crc_bits8 47 = 0xABD13D59"
   "crc_bits8 48 = 0x26D930AC"
   "crc_bits8 49 = 0x51DE003A"
   "crc_bits8 50 = 0xC8D75180"
   "crc_bits8 51 = 0xBFD06116"
   "crc_bits8 52 = 0x21B4F4B5"
   "crc_bits8 53 = 0x56B3C423"
   "crc_bits8 54 = 0xCFBA9599"
   "crc_bits8 55 = 0xB8BDA50F"
   "crc_bits8 56 = 0x2802B89E"
   "crc_bits8 57 = 0x5F058808"
   "crc_bits8 58 = 0xC60CD9B2"
   "crc_bits8 59 = 0xB10BE924"
   "crc_bits8 60 = 0x2F6F7C87"
   "crc_bits8 61 = 0x58684C11"
   "crc_bits8 62 = 0xC1611DAB"
   "crc_bits8 63 = 0xB6662D3D"
  by (simp_all add: crc_bits8_def crc_bit_def)

lemma crc_entries_1:
   "crc_bits8 64 = 0x76DC4190"
   "crc_bits8 65 = 0x01DB7106"
   "crc_bits8 66 = 0x98D220BC"
   "crc_bits8 67 = 0xEFD5102A"
   "crc_bits8 68 = 0x71B18589"
   "crc_bits8 69 = 0x06B6B51F"
   "crc_bits8 70 = 0x9FBFE4A5"
   "crc_bits8 71 = 0xE8B8D433"
   "crc_bits8 72 = 0x7807C9A2"
   "crc_bits8 73 = 0x0F00F934"
   "crc_bits8 74 = 0x9609A88E"
   "crc_bits8 75 = 0xE10E9818"
   "crc_bits8 76 = 0x7F6A0DBB"
   "crc_bits8 77 = 0x086D3D2D"
   "crc_bits8 78 = 0x91646C97"
   "crc_bits8 79 = 0xE6635C01"
   "crc_bits8 80 = 0x6B6B51F4"
   "crc_bits8 81 = 0x1C6C6162"
   "crc_bits8 82 = 0x856530D8"
   "crc_bits8 83 = 0xF262004E"
   "crc_bits8 84 = 0x6C0695ED"
   "crc_bits8 85 = 0x1B01A57B"
   "crc_bits8 86 = 0x8208F4C1"
   "crc_bits8 87 = 0xF50FC457"
   "crc_bits8 88 = 0x65B0D9C6"
   "crc_bits8 89 = 0x12B7E950"
   "crc_bits8 90 = 0x8BBEB8EA"
   "crc_bits8 91 = 0xFCB9887C"
   "crc_bits8 92 = 0x62DD1DDF"
   "crc_bits8 93 = 0x15DA2D49"
   "crc_bits8 94 = 0x8CD37CF3"
   "crc_bits8 95 = 0xFBD44C65"
   "crc_bits8 96 = 0x4DB26158"
   "crc_bits8 97 = 0x3AB551CE"
   "crc_bits8 98 = 0xA3BC0074"
   "crc_bits8 99 = 0xD4BB30E2"
   "crc_bits8 100 = 0x4ADFA541"
   "crc_bits8 101 = 0x3DD895D7"
   "crc_bits8 102 = 0xA4D1C46D"
   "crc_bits8 103 = 0xD3D6F4FB"
   "crc_bits8 104 = 0x4369E96A"
   "crc_bits8 105 = 0x346ED9FC"
   "crc_bits8 106 = 0xAD678846"
   "crc_bits8 107 = 0xDA60B8D0"
   "crc_bits8 108 = 0x44042D73"
   "crc_bits8 109 = 0x33031DE5"
   "crc_bits8 110 = 0xAA0A4C5F"
   "crc_bits8 111 = 0xDD0D7CC9"
   "crc_bits8 112 = 0x5005713C"
   "crc_bits8 113 = 0x270241AA"
   "crc_bits8 114 = 0xBE0B1010"
   "crc_bits8 115 = 0xC90C2086"
   "crc_bits8 116 = 0x5768B525"
   "crc_bits8 117 = 0x206F85B3"
   "crc_bits8 118 = 0xB966D409"
   "crc_bits8 119 = 0xCE61E49F"
   "crc_bits8 120 = 0x5EDEF90E"
   "crc_bits8 121 = 0x29D9C998"
   "crc_bits8 122 = 0xB0D09822"
   "crc_bits8 123 = 0xC7D7A8B4"
   "crc_bits8 124 = 0x59B33D17"
   "crc_bits8 125 = 0x2EB40D81"
   "crc_bits8 126 = 0xB7BD5C3B"
   "crc_bits8 127 = 0xC0BA6CAD"
  by (simp_all add: crc_bits8_def crc_bit_def)

lemma crc_entries_2:
   "crc_bits8 128 = 0xEDB88320"
   "crc_bits8 129 = 0x9ABFB3B6"
   "crc_bits8 130 = 0x03B6E20C"
   "crc_bits8 131 = 0x74B1D29A"
   "crc_bits8 132 = 0xEAD54739"
   "crc_bits8 133 = 0x9DD277AF"
   "crc_bits8 134 = 0x04DB2615"
   "crc_bits8 135 = 0x73DC1683"
   "crc_bits8 136 = 0xE3630B12"
   "crc_bits8 137 = 0x94643B84"
   "crc_bits8 138 = 0x0D6D6A3E"
   "crc_bits8 139 = 0x7A6A5AA8"
   "crc_bits8 140 = 0xE40ECF0B"
   "crc_bits8 141 = 0x9309FF9D"
   "crc_bits8 142 = 0x0A00AE27"
   "crc_bits8 143 = 0x7D079EB1"
   "crc_bits8 144 = 0xF00F9344"
   "crc_bits8 145 = 0x8708A3D2"
   "crc_bits8 146 = 0x1E01F268"
   "crc_bits8 147 = 0x6906C2FE"
   "crc_bits8 148 = 0xF762575D"
   "crc_bits8 149 = 0x806567CB"
   "crc_bits8 150 = 0x196C3671"
   "crc_bits8 151 = 0x6E6B06E7"
   "crc_bits8 152 = 0xFED41B76"
   "crc_bits8 153 = 0x89D32BE0"
   "crc_bits8 154 = 0x10DA7A5A"
   "crc_bits8 155 = 0x67DD4ACC"
   "crc_bits8 156 = 0xF9B9DF6F"
   "crc_bits8 157 = 0x8EBEEFF9"
   "crc_bits8 158 = 0x17B7BE43"
   "crc_bits8 159 = 0x60B08ED5"
   "crc_bits8 160 = 0xD6D6A3E8"
   "crc_bits8 161 = 0xA1D1937E"
   "crc_bits8 162 = 0x38D8C2C4"
   "crc_bits8 163 = 0x4FDFF252"
   "crc_bits8 164 = 0xD1BB67F1"
   "crc_bits8 165 = 0xA6BC5767"
   "crc_bits8 166 = 0x3FB506DD"
   "crc_bits8 167 = 0x48B2364B"
   "crc_bits8 168 = 0xD80D2BDA"
   "crc_bits8 169 = 0xAF0A1B4C"
   "crc_bits8 170 = 0x36034AF6"
   "crc_bits8 171 = 0x41047A60"
   "crc_bits8 172 = 0xDF60EFC3"
   "crc_bits8 173 = 0xA867DF55"
   "crc_bits8 174 = 0x316E8EEF"
   "crc_bits8 175 = 0x4669BE79"
   "crc_bits8 176 = 0xCB61B38C"
   "crc_bits8 177 = 0xBC66831A"
   "crc_bits8 178 = 0x256FD2A0"
   "crc_bits8 179 = 0x5268E236"
   "crc_bits8 180 = 0xCC0C7795"
   "crc_bits8 181 = 0xBB0B4703"
   "crc_bits8 182 = 0x220216B9"
   "crc_bits8 183 = 0x5505262F"
   "crc_bits8 184 = 0xC5BA3BBE"
   "crc_bits8 185 = 0xB2BD0B28"
   "crc_bits8 186 = 0x2BB45A92"
   "crc_bits8 187 = 0x5CB36A04"
   "crc_bits8 188 = 0xC2D7FFA7"
   "crc_bits8 189 = 0xB5D0CF31"
   "crc_bits8 190 = 0x2CD99E8B"
   "crc_bits8 191 = 0x5BDEAE1D"
  by (simp_all add: crc_bits8_def crc_bit_def)

lemma crc_entries_3:
   "crc_bits8 192 = 0x9B64C2B0"
   "crc_bits8 193 = 0xEC63F226"
   "crc_bits8 194 = 0x756AA39C"
   "crc_bits8 195 = 0x026D930A"
   "crc_bits8 196 = 0x9C0906A9"
   "crc_bits8 197 = 0xEB0E363F"
   "crc_bits8 198 = 0x72076785"
   "crc_bits8 199 = 0x05005713"
   "crc_bits8 200 = 0x95BF4A82"
   "crc_bits8 201 = 0xE2B87A14"
   "crc_bits8 202 = 0x7BB12BAE"
   "crc_bits8 203 = 0x0CB61B38"
   "crc_bits8 204 = 0x92D28E9B"
   "crc_bits8 205 = 0xE5D5BE0D"
   "crc_bits8 206 = 0x7CDCEFB7"
   "crc_bits8 207 = 0x0BDBDF21"
   "crc_bits8 208 = 0x86D3D2D4"
   "crc_bits8 209 = 0xF1D4E242"
   "crc_bits8 210 = 0x68DDB3F8"
   "crc_bits8 211 = 0x1FDA836E"
   "crc_bits8 212 = 0x81BE16CD"
   "crc_bits8 213 = 0xF6B9265B"
   "crc_bits8 214 = 0x6FB077E1"
   "crc_bits8 215 = 0x18B74777"
   "crc_bits8 216 = 0x88085AE6"
   "crc_bits8 217 = 0xFF0F6A70"
   "crc_bits8 218 = 0x66063BCA"
   "crc_bits8 219 = 0x11010B5C"
   "crc_bits8 220 = 0x8F659EFF"
   "crc_bits8 221 = 0xF862AE69"
   "crc_bits8 222 = 0x616BFFD3"
   "crc_bits8 223 = 0x166CCF45"
   "crc_bits8 224 = 0xA00AE278"
   "crc_bits8 225 = 0xD70DD2EE"
   "crc_bits8 226 = 0x4E048354"
   "crc_bits8 227 = 0x3903B3C2"
   "crc_bits8 228 = 0xA7672661"
   "crc_bits8 229 = 0xD06016F7"
   "crc_bits8 230 = 0x4969474D"
   "crc_bits8 231 = 0x3E6E77DB"
   "crc_bits8 232 = 0xAED16A4A"
   "crc_bits8 233 = 0xD9D65ADC"
   "crc_bits8 234 = 0x40DF0B66"
   "crc_bits8 235 = 0x37D83BF0"
   "crc_bits8 236 = 0xA9BCAE53"
   "crc_bits8 237 = 0xDEBB9EC5"
   "crc_bits8 238 = 0x47B2CF7F"
   "crc_bits8 239 = 0x30B5FFE9"
   "crc_bits8 240 = 0xBDBDF21C"
   "crc_bits8 241 = 0xCABAC28A"
   "crc_bits8 242 = 0x53B39330"
   "crc_bits8 243 = 0x24B4A3A6"
   "crc_bits8 244 = 0xBAD03605"
   "crc_bits8 245 = 0xCDD70693"
   "crc_bits8 246 = 0x54DE5729"
   "crc_bits8 247 = 0x23D967BF"
   "crc_bits8 248 = 0xB3667A2E"
   "crc_bits8 249 = 0xC4614AB8"
   "crc_bits8 250 = 0x5D681B02"
   "crc_bits8 251 = 0x2A6F2B94"
   "crc_bits8 252 = 0xB40BBE37"
   "crc_bits8 253 = 0xC30C8EA1"
   "crc_bits8 254 = 0x5A05DF1B"
   "crc_bits8 255 = 0x2D02EF8D"
  by (simp_all add: crc_bits8_def crc_bit_def)

lemmas crc_entries = crc_entries_0 crc_entries_1 crc_entries_2 crc_entries_3

lemma crc_table_map: "crc_table = map (\<lambda>i. crc_bits8 (of_nat i)) [0..<256]"
  by (simp add: crc_table_def upt_conv_Cons crc_entries del: upt_Suc)

lemma crc_table_nth: "crc_table ! unat (b :: 8 word) = crc_bits8 (ucast b)"
proof -
  have "unat b < 256" using unsigned_less [of b, where ?'a = nat] by simp
  then have "crc_table ! unat b = crc_bits8 (of_nat (unat b))" by (simp add: crc_table_map)
  then show ?thesis by simp
qed

section \<open>The two agree\<close>

lemma crc_bits8_high:
  assumes "take_bit 8 x = 0"
  shows "crc_bits8 x = drop_bit 8 x"
proof -
  have e: "even (drop_bit n x)" if "n < 8" for n
  proof -
    have "\<not> bit (take_bit 8 x) n" using assms by simp
    with that have "\<not> bit x n" by (simp add: bit_take_bit_iff)
    then show ?thesis by (simp add: bit_iff_odd_drop_bit)
  qed
  have "crc_bit (drop_bit n x) = drop_bit (Suc n) x" if "n < 8" for n
    using crc_bit_shift [OF e [OF that]] by simp
  from this [of 0] this [of 1] this [of 2] this [of 3] this [of 4] this [of 5] this [of 6] this [of 7]
  show ?thesis by (simp add: crc_bits8_def flip: numeral_2_eq_2)
qed

lemma crc_byte_eq: "crc_byte crc b = crc_byte_ref crc b"
proof -
  let ?y = "crc XOR ucast b"
  let ?lo = "take_bit 8 ?y" and ?hi = "?y XOR take_bit 8 ?y"
  have "?y = ?hi XOR ?lo" by (simp add: xor.assoc)
  then have "crc_bits8 ?y = crc_bits8 ?hi XOR crc_bits8 ?lo" by (metis crc_bits8_xor)
  moreover have "crc_bits8 ?hi = drop_bit 8 ?hi"
    by (rule crc_bits8_high) (simp add: take_bit_xor)
  moreover have "drop_bit 8 ?hi = drop_bit 8 crc"
    by (rule bit_word_eqI) (auto simp: bit_drop_bit_eq bit_xor_iff bit_take_bit_iff bit_ucast_iff dest: bit_imp_le_length)
  moreover have "?lo = ucast (ucast crc XOR b :: 8 word)"
    by (rule bit_word_eqI) (auto simp: bit_xor_iff bit_take_bit_iff bit_ucast_iff dest: bit_imp_le_length)
  ultimately show ?thesis
    by (simp add: crc_byte_def crc_byte_ref_def crc_table_nth)
qed

lemma s_crc32_eq: "s_crc32 buffer = crc32_ref buffer"
proof -
  have "crc_byte = crc_byte_ref" by (intro ext) (rule crc_byte_eq)
  then show ?thesis by (simp add: s_crc32_def crc32_ref_def)
qed

end
