(* ===== verification/Overlays.thy ===== *)
theory Overlays
  imports ConfigFile
begin

text \<open>
  \<open>src/main/dtbo.c\<close>: the lines of \<open>dtbo.txt\<close>, which set device-tree overlays and their parameters in a
  copy of the \<open>devicetree\<close> map that replaces it only when every line was read.
\<close>

datatype dtoverlay_parse_result =
  DTOVERLAY_PARSE_IGNORED | DTOVERLAY_PARSE_SUCCESS | DTOVERLAY_PARSE_SYNTAX_ERROR
  | DTOVERLAY_PARSE_WRITE_ERROR

section \<open>Parameters\<close>

text \<open>One parameter: its name, its value when it has one, and the rest of the text.\<close>

definition overlay_param :: "cstring \<Rightarrow> cstring \<times> cstring option \<times> cstring" where
  "overlay_param str =
     (let name = rstrip (takeWhile (\<lambda>c. c \<noteq> CHR '','' \<and> c \<noteq> CHR ''='') str);
          start = dropWhile isspace (drop (length name) str)
      in if start \<noteq> [] \<and> hd start = CHR ''='' then
           (let start = dropWhile isspace (tl start)
            in (name, Some (rstrip (takeWhile (\<lambda>c. c \<noteq> CHR '','') start)), dropWhile (\<lambda>c. c \<noteq> CHR '','') start))
         else (name, None, start))"

lemma overlay_param_shorter:
  assumes "overlay_param str = (name, val, rest)" "name \<noteq> []" "str \<noteq> []"
  shows "length rest < length str"
proof -
  let ?s = "dropWhile isspace (drop (length name) str)"
  have n: "name = rstrip (takeWhile (\<lambda>c. c \<noteq> CHR '','' \<and> c \<noteq> CHR ''='') str)"
    using assms(1) by (auto simp: overlay_param_def Let_def split: if_splits)
  have "length rest \<le> length ?s"
  proof (cases "?s \<noteq> [] \<and> hd ?s = CHR ''=''")
    case True
    then have "rest = dropWhile (\<lambda>c. c \<noteq> CHR '','') (dropWhile isspace (tl ?s))"
      using assms(1) unfolding overlay_param_def Let_def n [symmetric] by (simp only: if_True prod.inject simp_thms)
    then show ?thesis
      using length_dropWhile_le [of "\<lambda>c. c \<noteq> CHR '',''" "dropWhile isspace (tl ?s)"]
        length_dropWhile_le [of isspace "tl ?s"] by simp
  next
    case False
    then have "rest = ?s" using assms(1) unfolding overlay_param_def Let_def n [symmetric] by (simp only: if_False prod.inject)
    then show ?thesis by simp
  qed
  also have "\<dots> \<le> length (drop (length name) str)" by (rule length_dropWhile_le)
  also have "\<dots> < length str"
    using assms(2,3) by (cases name; cases str) auto
  finally show ?thesis .
qed

function overlay_params :: "cstring \<Rightarrow> ptr \<Rightarrow> cstate \<Rightarrow> (dtoverlay_parse_result \<times> cstate) option" where
  "overlay_params str params_node s =
     (if str = [] then Some (DTOVERLAY_PARSE_SUCCESS, s)
      else let (name, val, rest) = overlay_param str
           in if name = [] then Some (DTOVERLAY_PARSE_SYNTAX_ERROR, s)
              else let (param_name, s) = strndup name s
                   in if param_name = None then Some (DTOVERLAY_PARSE_WRITE_ERROR, s)
                      else do {
                        (ok, s) \<leftarrow> (case val of
                            None \<Rightarrow> confignode_path_set_string params_node param_name (Some []) s
                          | Some v \<Rightarrow>
                              (let (dup, s) = strndup v s
                               in if dup = None then Some (False, s)
                                  else confignode_path_set_string params_node param_name dup s));
                        (if \<not> ok then Some (DTOVERLAY_PARSE_WRITE_ERROR, s)
                         else if rest \<noteq> [] \<and> hd rest = CHR '','' then
                           (let next = dropWhile isspace (tl rest)
                            in if next = [] then Some (DTOVERLAY_PARSE_SYNTAX_ERROR, s)
                               else overlay_params next params_node s)
                         else overlay_params (dropWhile isspace rest) params_node s)
                      })"
  by pat_completeness auto
termination
proof (relation "measure (\<lambda>(str, p, s). length str)", simp, goal_cases)
  case (1 str p s x name y v rest)
  then have "length rest < length str" using overlay_param_shorter by metis
  moreover have "length (dropWhile isspace (tl rest)) \<le> length (tl rest)" by (rule length_dropWhile_le)
  ultimately show ?case using 1 by simp
next
  case (2 str p s x name y v rest)
  then have "length rest < length str" using overlay_param_shorter by metis
  moreover have "length (dropWhile isspace rest) \<le> length rest" by (rule length_dropWhile_le)
  ultimately show ?case by simp
qed

declare overlay_params.simps [simp del]

definition parse_overlay_params :: "cstring \<Rightarrow> ptr \<Rightarrow> cstate \<Rightarrow> (dtoverlay_parse_result \<times> cstate) option" where
  "parse_overlay_params params overlay_node s =
     (if overlay_node = None then Some (DTOVERLAY_PARSE_WRITE_ERROR, s)
      else if params = [] then Some (DTOVERLAY_PARSE_SYNTAX_ERROR, s)
      else do {
        (params_node, s) \<leftarrow> confignode_path_lookup overlay_node (Some ''params'') True s;
        (if params_node = None then Some (DTOVERLAY_PARSE_WRITE_ERROR, s)
         else do {
           ismap \<leftarrow> confignode_is_type params_node TYPE_MAP s;
           (params_node, s) \<leftarrow>
             (if ismap then Some (params_node, s)
              else do {
                (replacement, s) \<leftarrow> confignode_new_map s;
                (case replacement of
                   None \<Rightarrow> Some (None, s)
                 | Some r \<Rightarrow> do {
                     (ok, n, s) \<leftarrow> confignode_replace params_node replacement s;
                     (if ok then Some (n, s)
                      else do { s \<leftarrow> confignode_clean r s; Some (None, s) })
                   })
              });
           (if params_node = None then Some (DTOVERLAY_PARSE_WRITE_ERROR, s)
            else let text = rstrip (dropWhile isspace params)
                 in if text = [] then Some (DTOVERLAY_PARSE_SYNTAX_ERROR, s)
                    else overlay_params text params_node s)
         })
      })"

section \<open>Lines\<close>

text \<open>
  The text after the word \<open>dtoverlay\<close>: the profile after a dot, the overlay and its parameters.
  \<open>None\<close> is a syntax error.
\<close>

definition overlay_head :: "cstring \<Rightarrow> (cstring option \<times> cstring) option" where
  "overlay_head line =
     (if line \<noteq> [] \<and> hd line = CHR ''.'' then
        (let prof = takeWhile (\<lambda>c. c \<noteq> CHR ''='' \<and> \<not> isspace c) (tl line)
         in if prof = [] then None else Some (Some prof, drop (length prof) (tl line)))
      else Some (None, line))"

definition overlay_tail :: "cstring \<Rightarrow> (cstring \<times> cstring option) option" where
  "overlay_tail line =
     (let line = dropWhile isspace line
      in if line = [] \<or> hd line \<noteq> CHR ''='' then None
         else let line = dropWhile isspace (tl line);
                  raw = takeWhile (\<lambda>c. c \<noteq> CHR '','') line;
                  rest = dropWhile (\<lambda>c. c \<noteq> CHR '','') line
              in if rstrip raw = [] then None
                 else Some (rstrip raw, if rest = [] then None else Some (tl rest)))"

definition drop_overlay ::
  "dtoverlay_parse_result \<Rightarrow> addr \<Rightarrow> cstate \<Rightarrow> (dtoverlay_parse_result \<times> cstate) option" where
  "drop_overlay r node s = do { s \<leftarrow> confignode_clean node s; Some (r, s) }"

text \<open>Filling and storing the overlay node: what the line does once its parts are known.\<close>

definition store_overlay ::
  "cstring \<Rightarrow> cstring option \<Rightarrow> cstring option \<Rightarrow> ptr \<Rightarrow> cstate \<Rightarrow> (dtoverlay_parse_result \<times> cstate) option" where
  "store_overlay overlay_name prof params dtree_node s = do {
     existing \<leftarrow> confignode_map_get dtree_node (Some overlay_name) s;
     ismap \<leftarrow> confignode_is_type existing TYPE_MAP s;
     (overlay_node, s) \<leftarrow> (case existing of
         Some e \<Rightarrow> if ismap then confignode_copy e s else confignode_new_map s
       | None \<Rightarrow> confignode_new_map s);
     (case overlay_node of
        None \<Rightarrow> Some (DTOVERLAY_PARSE_WRITE_ERROR, s)
      | Some node \<Rightarrow> do {
          (ok, s) \<leftarrow> confignode_path_set_bool overlay_node (Some ''enabled'') True s;
          (if \<not> ok then drop_overlay DTOVERLAY_PARSE_WRITE_ERROR node s
           else do {
             (ok, s) \<leftarrow> (if prof = None then Some (True, s)
                else confignode_path_set_string overlay_node (Some ''profile'') prof s);
             (if \<not> ok then drop_overlay DTOVERLAY_PARSE_WRITE_ERROR node s
              else do {
                (result, s) \<leftarrow> (case params of
                    None \<Rightarrow> Some (DTOVERLAY_PARSE_SUCCESS, s)
                  | Some p \<Rightarrow> parse_overlay_params p overlay_node s);
                (if result \<noteq> DTOVERLAY_PARSE_SUCCESS then drop_overlay result node s
                 else do {
                   (ok, s) \<leftarrow> (if existing \<noteq> None
                      then do { (ok, _, s) \<leftarrow> confignode_replace existing overlay_node s; Some (ok, s) }
                      else confignode_map_set dtree_node (Some overlay_name) overlay_node s);
                   (if ok then Some (DTOVERLAY_PARSE_SUCCESS, s)
                    else drop_overlay DTOVERLAY_PARSE_WRITE_ERROR node s)
                 })
              })
           })
        })
   }"

definition parse_dtoverlay_line ::
  "cstring \<Rightarrow> cstring option \<Rightarrow> ptr \<Rightarrow> cstate \<Rightarrow> (dtoverlay_parse_result \<times> cstate) option" where
  "parse_dtoverlay_line line profile dtree_node s =
     (if dtree_node = None then Some (DTOVERLAY_PARSE_WRITE_ERROR, s)
      else let line = dropWhile isspace line in
      if line = [] \<or> hd line = CHR ''#'' then Some (DTOVERLAY_PARSE_IGNORED, s)
      else if length line < 9 \<or> strncasecmp line ''dtoverlay'' 9 \<noteq> 0 then Some (DTOVERLAY_PARSE_IGNORED, s)
      else let line = drop 9 line in
      if line \<noteq> [] \<and> hd line \<noteq> CHR ''.'' \<and> hd line \<noteq> CHR ''='' \<and> \<not> isspace (hd line)
      then Some (DTOVERLAY_PARSE_IGNORED, s)
      else case overlay_head line of
        None \<Rightarrow> Some (DTOVERLAY_PARSE_SYNTAX_ERROR, s)
      | Some (prof, line) \<Rightarrow>
          let (cur_profile, s) = (case prof of None \<Rightarrow> (None, s) | Some p \<Rightarrow> strndup p s) in
          if prof \<noteq> None \<and> cur_profile = None then Some (DTOVERLAY_PARSE_WRITE_ERROR, s)
          else case overlay_tail line of
            None \<Rightarrow> Some (DTOVERLAY_PARSE_SYNTAX_ERROR, s)
          | Some (name, params) \<Rightarrow>
              let (overlay_name, s) = strndup name s
              in case overlay_name of
                   None \<Rightarrow> Some (DTOVERLAY_PARSE_WRITE_ERROR, s)
                 | Some n \<Rightarrow>
                     store_overlay n (if cur_profile \<noteq> None then cur_profile else profile) params dtree_node s)"

text \<open>One line of the file: a \<open>[profile]\<close> header or an overlay. \<open>Inl\<close> is the error exit.\<close>

definition dtbo_line ::
  "cstring \<Rightarrow> cstring option \<Rightarrow> ptr \<Rightarrow> cstate \<Rightarrow> ((efi_status + cstring option) \<times> cstate) option" where
  "dtbo_line line profile overlays s =
     (let trimmed = rstrip (dropWhile isspace line) in
      if trimmed \<noteq> [] \<and> hd trimmed = CHR ''['' then
        (if length trimmed \<le> 2 \<or> last trimmed \<noteq> CHR '']'' then Some (Inl EFI_COMPROMISED_DATA, s)
         else let (new_profile, s) = strndup (butlast (tl trimmed)) s
              in Some (if new_profile = None then Inl EFI_OUT_OF_RESOURCES else Inr new_profile, s))
      else if trimmed \<noteq> [] then do {
        (result, s) \<leftarrow> parse_dtoverlay_line trimmed profile overlays s;
        Some (case result of
                DTOVERLAY_PARSE_SYNTAX_ERROR \<Rightarrow> Inl EFI_COMPROMISED_DATA
              | DTOVERLAY_PARSE_WRITE_ERROR \<Rightarrow> Inl EFI_OUT_OF_RESOURCES
              | _ \<Rightarrow> Inr profile, s)
      }
      else Some (Inr profile, s))"

function dtbo_loop :: "cstring \<Rightarrow> cstring option \<Rightarrow> ptr \<Rightarrow> cstate \<Rightarrow> (efi_status \<times> cstate) option" where
  "dtbo_loop cur profile overlays s =
     (if cur = [] then Some (EFI_SUCCESS, s)
      else let line = takeWhile (\<lambda>c. \<not> line_end c) cur;
               next = dropWhile line_end (dropWhile (\<lambda>c. \<not> line_end c) cur)
           in do {
             (r, s) \<leftarrow> dtbo_line line profile overlays s;
             (case r of Inl status \<Rightarrow> Some (status, s) | Inr profile \<Rightarrow> dtbo_loop next profile overlays s)
           })"
  by pat_completeness auto
termination
  by (relation "measure (\<lambda>(cur, p, o', s). length cur)") (simp_all add: next_line_shorter)

declare dtbo_loop.simps [simp del]

definition dtbo_fail :: "efi_status \<Rightarrow> addr \<Rightarrow> cstate \<Rightarrow> (efi_status \<times> cstate) option" where
  "dtbo_fail status node s = do { s \<leftarrow> confignode_clean node s; Some (status, s) }"

definition dtbo_overlays :: "ptr \<Rightarrow> cstate \<Rightarrow> (ptr \<times> cstate) option" where
  "dtbo_overlays dtree_node s = do {
     overlays \<leftarrow> confignode_map_get dtree_node (Some ''overlays'') s;
     ismap \<leftarrow> confignode_is_type overlays TYPE_MAP s;
     (if overlays \<noteq> None \<and> ismap then Some (overlays, s)
      else do {
        (replacement, s) \<leftarrow> confignode_new_map s;
        (case replacement of
           None \<Rightarrow> Some (None, s)
         | Some r \<Rightarrow> do {
             (ok, s) \<leftarrow> confignode_map_set dtree_node (Some ''overlays'') replacement s;
             (if ok then Some (replacement, s)
              else do { s \<leftarrow> confignode_clean r s; Some (None, s) })
           })
      })
   }"

definition embloader_load_dtbo_config :: "ptr \<Rightarrow> cstring option \<Rightarrow> cstate \<Rightarrow> (efi_status \<times> cstate) option" where
  "embloader_load_dtbo_config node buffer s = do {
     ismap \<leftarrow> confignode_is_type node TYPE_MAP s;
     (if node = None \<or> buffer = None \<or> \<not> ismap then Some (EFI_INVALID_PARAMETER, s)
      else do {
        old_dtree \<leftarrow> confignode_map_get node (Some ''devicetree'') s;
        oldmap \<leftarrow> confignode_is_type old_dtree TYPE_MAP s;
        (dtree_node, s) \<leftarrow> (case old_dtree of
            Some d \<Rightarrow> if oldmap then confignode_copy d s else confignode_new_map s
          | None \<Rightarrow> confignode_new_map s);
        (case dtree_node of
           None \<Rightarrow> Some (EFI_OUT_OF_RESOURCES, s)
         | Some d \<Rightarrow> do {
             (overlays, s) \<leftarrow> dtbo_overlays dtree_node s;
             (if overlays = None then dtbo_fail EFI_OUT_OF_RESOURCES d s
              else do {
                (status, s) \<leftarrow> dtbo_loop (the buffer) None overlays s;
                (if EFI_ERROR status then dtbo_fail status d s
                 else do {
                   (ok, s) \<leftarrow> (if old_dtree \<noteq> None
                      then do { (ok, _, s) \<leftarrow> confignode_replace old_dtree dtree_node s; Some (ok, s) }
                      else confignode_map_set node (Some ''devicetree'') dtree_node s);
                   (if ok then Some (EFI_SUCCESS, s) else dtbo_fail EFI_OUT_OF_RESOURCES d s)
                 })
              })
           })
      })
   }"

definition embloader_load_dtbo_config_path ::
  "ptr \<Rightarrow> filesys option \<Rightarrow> cstring option \<Rightarrow> cstate \<Rightarrow> (efi_status \<times> cstate) option" where
  "embloader_load_dtbo_config_path node base path s =
     (case (base, path) of
        (Some fs, Some p) \<Rightarrow>
          (let (opened, got, content) = fs p in
           if EFI_ERROR opened then Some (opened, s)
           else if EFI_ERROR got then Some (got, s)
           else embloader_load_dtbo_config node (map_option text_of content) s)
      | _ \<Rightarrow> Some (EFI_INVALID_PARAMETER, s))"

section \<open>The files of the loader's folder\<close>

text \<open>\<open>embloader_load_configs\<close> counts the files that were loaded; each step keeps what it could.\<close>

fun load_steps :: "(cstate \<Rightarrow> (bool \<times> cstate) option) list \<Rightarrow> nat \<Rightarrow> cstate \<Rightarrow> (nat \<times> cstate) option" where
  "load_steps [] cnt s = Some (cnt, s)"
| "load_steps (f # fs) cnt s = do {
     (ok, s) \<leftarrow> f s;
     load_steps fs (if ok then Suc cnt else cnt) s
   }"

definition embloader_load_configs ::
  "config_loader \<Rightarrow> config_loader \<Rightarrow> filesys option \<Rightarrow> ptr \<Rightarrow> cstate \<Rightarrow> (bool \<times> cstate) option" where
  "embloader_load_configs json yaml dir config s = do {
     (cnt, s) \<leftarrow> load_steps
       [embloader_load_config_one json yaml dir config ''config.static.yaml'',
        embloader_load_config_one json yaml dir config ''config.static.yml'',
        embloader_load_config_one json yaml dir config ''config.static.json'',
        embloader_load_config_one json yaml dir config ''config.static.conf'',
        \<lambda>s. do { (st, s) \<leftarrow> embloader_load_dtbo_config_path config dir (Some ''dtbo.txt'') s;
                Some (\<not> EFI_ERROR st, s) },
        \<lambda>s. do { (st, s) \<leftarrow> embloader_load_cmdline_config_path config dir (Some ''cmdline.txt'') s;
                Some (\<not> EFI_ERROR st, s) },
        embloader_load_config_one json yaml dir config ''config.dynamic.yaml'',
        embloader_load_config_one json yaml dir config ''config.dynamic.yml'',
        embloader_load_config_one json yaml dir config ''config.dynamic.json'',
        embloader_load_config_one json yaml dir config ''config.dynamic.conf''] 0 s;
     Some (0 < cnt, s)
   }"

end
