(* ===== verification/Sdboot.thy ===== *)
theory Sdboot
  imports SdbootTypes
begin

text \<open>
  \<open>include/sdboot.h\<close>, \<open>src/sdboot/base.c\<close> and \<open>src/sdboot/parser.c\<close>: the settings of the
  systemd-boot menu, its entries, and the parser that fills one or the other from the lines of a
  file. \<open>free\<close> and \<open>log_*\<close> have no counterpart; an EFI handle and an open EFI file are numbers.
\<close>

section \<open>Structures\<close>

record sdboot_boot_menu =
  sm_default_entry :: "cstring option"
  sm_timeout :: int
  sm_disabled :: bool
  sm_console_mode :: sdboot_console_mode
  sm_editor :: bool
  sm_auto_entries :: bool
  sm_auto_firmware :: bool
  sm_auto_reboot :: bool
  sm_auto_poweroff :: bool
  sm_beep :: bool
  sm_secureboot_enroll :: sdboot_secureboot_enroll
  sm_reboot_for_bitlocker :: bool

record sdboot_boot_loader =
  sl_root_handle :: nat
  sl_root :: "nat option"
  sl_root_owned :: bool
  sl_name :: "cstring option"
  sl_title :: "cstring option"
  sl_version :: "cstring option"
  sl_machine_id :: "cstring option"
  sl_sort_key :: "cstring option"
  sl_kernel :: "cstring option"
  sl_efi :: "cstring option"
  sl_initramfs :: "cstring list"
  sl_options :: "cstring list"
  sl_devicetree :: "cstring option"
  sl_dtoverlay :: "cstring list"
  sl_arch :: embloader_arch
  sl_item :: "addr option"

text \<open>A menu with its entries, each with its address.\<close>

record sdboot_menu =
  sd_menu :: sdboot_boot_menu
  sd_loaders :: "(addr \<times> sdboot_boot_loader) list"

section \<open>base.c\<close>

text \<open>\<open>sdboot_get_current_arch\<close> is chosen when the loader is compiled: the parameter \<open>arch\<close>.\<close>

definition zero_boot_menu :: sdboot_boot_menu where
  "zero_boot_menu = \<lparr>sm_default_entry = None, sm_timeout = 0, sm_disabled = False,
     sm_console_mode = MODE_UEFI_80_25, sm_editor = False, sm_auto_entries = False,
     sm_auto_firmware = False, sm_auto_reboot = False, sm_auto_poweroff = False, sm_beep = False,
     sm_secureboot_enroll = ENROLL_OFF, sm_reboot_for_bitlocker = False\<rparr>"

definition zero_boot_loader :: sdboot_boot_loader where
  "zero_boot_loader = \<lparr>sl_root_handle = 0, sl_root = None, sl_root_owned = False, sl_name = None,
     sl_title = None, sl_version = None, sl_machine_id = None, sl_sort_key = None, sl_kernel = None,
     sl_efi = None, sl_initramfs = [], sl_options = [], sl_devicetree = None, sl_dtoverlay = [],
     sl_arch = ARCH_UNKNOWN, sl_item = None\<rparr>"

definition sdboot_boot_menu_init :: sdboot_boot_menu where
  "sdboot_boot_menu_init = zero_boot_menu\<lparr>sm_default_entry := None, sm_timeout := 0,
     sm_console_mode := MODE_KEEP, sm_editor := True, sm_auto_entries := True,
     sm_auto_firmware := True, sm_auto_reboot := False, sm_auto_poweroff := False, sm_beep := False,
     sm_secureboot_enroll := ENROLL_IF_SAFE, sm_reboot_for_bitlocker := False\<rparr>"

definition sdboot_boot_loader_init :: "embloader_arch \<Rightarrow> sdboot_boot_loader" where
  "sdboot_boot_loader_init arch = zero_boot_loader\<lparr>sl_arch := arch\<rparr>"

definition sdboot_menu_init :: sdboot_menu where
  "sdboot_menu_init = \<lparr>sd_menu = sdboot_boot_menu_init, sd_loaders = []\<rparr>"

text \<open>Cleaning resets the structure; an owned root volume is closed, and the closed files are returned.\<close>

definition sdboot_boot_menu_clean :: "sdboot_boot_menu \<Rightarrow> sdboot_boot_menu" where
  "sdboot_boot_menu_clean menu = zero_boot_menu"

definition sdboot_boot_loader_clean :: "sdboot_boot_loader \<Rightarrow> nat list \<times> sdboot_boot_loader" where
  "sdboot_boot_loader_clean l =
     (case sl_root l of
        Some r \<Rightarrow> (if sl_root_owned l then [r] else [], zero_boot_loader)
      | None \<Rightarrow> ([], zero_boot_loader))"

definition sdboot_menu_clean :: "sdboot_menu \<Rightarrow> nat list \<times> sdboot_menu" where
  "sdboot_menu_clean m =
     (concat (map (\<lambda>(a, l). fst (sdboot_boot_loader_clean l)) (sd_loaders m)),
      \<lparr>sd_menu = zero_boot_menu, sd_loaders = []\<rparr>)"

definition sdboot_boot_loader_new :: "embloader_arch \<Rightarrow> cstate \<Rightarrow> sdboot_boot_loader option \<times> cstate" where
  "sdboot_boot_loader_new arch s =
     (let (ok, s) = alloc s in (if ok then Some (sdboot_boot_loader_init arch) else None, s))"

definition sdboot_menu_new :: "cstate \<Rightarrow> sdboot_menu option \<times> cstate" where
  "sdboot_menu_new s = (let (ok, s) = alloc s in (if ok then Some sdboot_menu_init else None, s))"

definition sdboot_boot_menu_new :: "cstate \<Rightarrow> sdboot_boot_menu option \<times> cstate" where
  "sdboot_boot_menu_new s = (let (ok, s) = alloc s in (if ok then Some sdboot_boot_menu_init else None, s))"

definition sdboot_boot_loader_check :: "sdboot_boot_loader option \<Rightarrow> bool" where
  "sdboot_boot_loader_check loader =
     (case loader of
        None \<Rightarrow> False
      | Some l \<Rightarrow>
          if sl_name l = None then False
          else if sl_kernel l \<noteq> None \<and> sl_efi l \<noteq> None then False
          else if sl_kernel l = None \<and> sl_efi l = None then False
          else True)"

section \<open>parser.c: one setting\<close>

definition ok_or_invalid :: "bool \<Rightarrow> sdboot_parse_status" where
  "ok_or_invalid b = (if b then SDBOOT_PARSE_SUCCESS else SDBOOT_PARSE_INVALID)"

definition sdboot_boot_parse_menu_one ::
  "sdboot_boot_menu \<Rightarrow> cstring \<Rightarrow> cstring \<Rightarrow> cstate \<Rightarrow> sdboot_parse_status \<times> sdboot_boot_menu \<times> cstate" where
  "sdboot_boot_parse_menu_one m key val s =
     (if is_case_word key ''default'' then
        (let (st, v, s) = sdboot_parse_string_status val (sm_default_entry m) s
         in (st, m\<lparr>sm_default_entry := v\<rparr>, s))
      else if is_case_word key ''timeout'' then
        (let (st, v, s) = sdboot_parse_timeout_status val (sm_timeout m) s;
             m = m\<lparr>sm_timeout := v\<rparr>
         in (st, if st = SDBOOT_PARSE_SUCCESS then m\<lparr>sm_disabled := is_case_word val ''menu-disabled''\<rparr> else m, s))
      else if is_case_word key ''console-mode'' then
        (let (ok, v) = sdboot_parse_console_mode val (sm_console_mode m)
         in (ok_or_invalid ok, m\<lparr>sm_console_mode := v\<rparr>, s))
      else if is_case_word key ''editor'' then
        (let (ok, v) = sdboot_parse_bool val (sm_editor m) in (ok_or_invalid ok, m\<lparr>sm_editor := v\<rparr>, s))
      else if is_case_word key ''auto-entries'' then
        (let (ok, v) = sdboot_parse_bool val (sm_auto_entries m)
         in (ok_or_invalid ok, m\<lparr>sm_auto_entries := v\<rparr>, s))
      else if is_case_word key ''auto-firmware'' then
        (let (ok, v) = sdboot_parse_bool val (sm_auto_firmware m)
         in (ok_or_invalid ok, m\<lparr>sm_auto_firmware := v\<rparr>, s))
      else if is_case_word key ''auto-reboot'' then
        (let (ok, v) = sdboot_parse_bool val (sm_auto_reboot m)
         in (ok_or_invalid ok, m\<lparr>sm_auto_reboot := v\<rparr>, s))
      else if is_case_word key ''auto-poweroff'' then
        (let (ok, v) = sdboot_parse_bool val (sm_auto_poweroff m)
         in (ok_or_invalid ok, m\<lparr>sm_auto_poweroff := v\<rparr>, s))
      else if is_case_word key ''beep'' then
        (let (ok, v) = sdboot_parse_bool val (sm_beep m) in (ok_or_invalid ok, m\<lparr>sm_beep := v\<rparr>, s))
      else if is_case_word key ''secureboot-enroll'' then
        (let (ok, v) = sdboot_parse_secureboot_enroll val (sm_secureboot_enroll m)
         in (ok_or_invalid ok, m\<lparr>sm_secureboot_enroll := v\<rparr>, s))
      else if is_case_word key ''reboot-for-bitlocker'' then
        (let (ok, v) = sdboot_parse_bool val (sm_reboot_for_bitlocker m)
         in (ok_or_invalid ok, m\<lparr>sm_reboot_for_bitlocker := v\<rparr>, s))
      else (SDBOOT_PARSE_SUCCESS, m, s))"

text \<open>A string field and a list field of an entry.\<close>

definition put_string ::
  "cstring \<Rightarrow> (sdboot_boot_loader \<Rightarrow> cstring option) \<Rightarrow> (cstring option \<Rightarrow> sdboot_boot_loader) \<Rightarrow>
   sdboot_boot_loader \<Rightarrow> cstate \<Rightarrow> sdboot_parse_status \<times> sdboot_boot_loader \<times> cstate" where
  "put_string val get put l s =
     (let (st, v, s) = sdboot_parse_string_status val (get l) s in (st, put v, s))"

definition put_list ::
  "cstring \<Rightarrow> (sdboot_boot_loader \<Rightarrow> cstring list) \<Rightarrow> (cstring list \<Rightarrow> sdboot_boot_loader) \<Rightarrow>
   sdboot_boot_loader \<Rightarrow> cstate \<Rightarrow> sdboot_parse_status \<times> sdboot_boot_loader \<times> cstate" where
  "put_list val get put l s =
     (let (st, v, s) = sdboot_parse_string_list_status val (get l) s in (st, put v, s))"

definition sdboot_boot_parse_loader_one ::
  "sdboot_boot_loader \<Rightarrow> cstring \<Rightarrow> cstring \<Rightarrow> cstate \<Rightarrow> sdboot_parse_status \<times> sdboot_boot_loader \<times> cstate" where
  "sdboot_boot_parse_loader_one l key val s =
     (if is_case_word key ''title'' then put_string val sl_title (\<lambda>v. l\<lparr>sl_title := v\<rparr>) l s
      else if is_case_word key ''version'' then put_string val sl_version (\<lambda>v. l\<lparr>sl_version := v\<rparr>) l s
      else if is_case_word key ''machine-id'' then put_string val sl_machine_id (\<lambda>v. l\<lparr>sl_machine_id := v\<rparr>) l s
      else if is_case_word key ''sort-key'' then put_string val sl_sort_key (\<lambda>v. l\<lparr>sl_sort_key := v\<rparr>) l s
      else if is_case_word key ''linux'' then put_string val sl_kernel (\<lambda>v. l\<lparr>sl_kernel := v\<rparr>) l s
      else if is_case_word key ''initrd'' then put_list val sl_initramfs (\<lambda>v. l\<lparr>sl_initramfs := v\<rparr>) l s
      else if is_case_word key ''efi'' then put_string val sl_efi (\<lambda>v. l\<lparr>sl_efi := v\<rparr>) l s
      else if is_case_word key ''options'' then put_list val sl_options (\<lambda>v. l\<lparr>sl_options := v\<rparr>) l s
      else if is_case_word key ''devicetree'' then put_string val sl_devicetree (\<lambda>v. l\<lparr>sl_devicetree := v\<rparr>) l s
      else if is_case_word key ''devicetree-overlay'' then put_list val sl_dtoverlay (\<lambda>v. l\<lparr>sl_dtoverlay := v\<rparr>) l s
      else if is_case_word key ''architecture'' then
        (let (ok, v) = sdboot_parse_arch val (sl_arch l) in (ok_or_invalid ok, l\<lparr>sl_arch := v\<rparr>, s))
      else (SDBOOT_PARSE_SUCCESS, l, s))"

section \<open>parser.c: lines and files\<close>

text \<open>
  The scanning of \<open>sdboot_boot_parse_line\<close>: \<open>None\<close> is a malformed line, \<open>Some None\<close> a line without
  content, otherwise the key and the value.
\<close>

definition sdboot_split_line :: "cstring \<Rightarrow> (cstring \<times> cstring) option option" where
  "sdboot_split_line text =
     (let line = dropWhile isspace (rev (dropWhile isspace (rev text))) in
      if line = [] \<or> hd line = CHR ''#'' then Some None
      else let key = takeWhile (\<lambda>c. \<not> isspace c) line;
               sep = dropWhile (\<lambda>c. \<not> isspace c) line
           in if sep = [] then None
              else let val = dropWhile isspace sep
                   in if val = [] then None
                      else let val = rev (dropWhile isspace (rev (takeWhile (\<lambda>c. c \<noteq> CHR ''#'') val)))
                           in if key = [] \<or> val = [] then None else Some (Some (key, val)))"

type_synonym sdboot_target = "sdboot_boot_menu option \<times> sdboot_boot_loader option"

definition sdboot_boot_parse_line ::
  "cstring option \<Rightarrow> sdboot_target \<Rightarrow> cstate \<Rightarrow> sdboot_parse_status \<times> sdboot_target \<times> cstate" where
  "sdboot_boot_parse_line line target s =
     (case line of
        None \<Rightarrow> (SDBOOT_PARSE_INVALID, target, s)
      | Some text \<Rightarrow>
          if text = [] then (SDBOOT_PARSE_SUCCESS, target, s)
          else case target of
            (Some m, None) \<Rightarrow>
              (case sdboot_split_line text of
                 None \<Rightarrow> (SDBOOT_PARSE_INVALID, target, s)
               | Some None \<Rightarrow> (SDBOOT_PARSE_SUCCESS, target, s)
               | Some (Some (key, val)) \<Rightarrow>
                   let (st, m, s) = sdboot_boot_parse_menu_one m key val s in (st, (Some m, None), s))
          | (None, Some l) \<Rightarrow>
              (case sdboot_split_line text of
                 None \<Rightarrow> (SDBOOT_PARSE_INVALID, target, s)
               | Some None \<Rightarrow> (SDBOOT_PARSE_SUCCESS, target, s)
               | Some (Some (key, val)) \<Rightarrow>
                   let (st, l, s) = sdboot_boot_parse_loader_one l key val s in (st, (None, Some l), s))
          | _ \<Rightarrow> (SDBOOT_PARSE_INVALID, target, s))"

lemma next_content:
  assumes "content \<noteq> []"
  shows "length (dropWhile P content) - Suc 0 < length content"
proof -
  have "0 < length content" using assms by blast
  with length_dropWhile_le [of P content] show ?thesis by linarith
qed

function content_loop ::
  "cstring \<Rightarrow> bool \<Rightarrow> sdboot_target \<Rightarrow> cstate \<Rightarrow> efi_status \<times> sdboot_target \<times> cstate" where
  "content_loop content have_success target s =
     (if content = [] then (if have_success then EFI_SUCCESS else EFI_LOAD_ERROR, target, s)
      else let line = takeWhile (\<lambda>c. c \<noteq> LF) content;
               rest = dropWhile (\<lambda>c. c \<noteq> LF) content;
               (result, target, s) = sdboot_boot_parse_line (Some line) target s
           in if result = SDBOOT_PARSE_OUT_OF_RESOURCES then (EFI_OUT_OF_RESOURCES, target, s)
              else content_loop (tl rest) (have_success \<or> result \<noteq> SDBOOT_PARSE_INVALID) target s)"
  by pat_completeness auto
termination
  by (relation "measure (\<lambda>(content, b, t, s). length content)") (simp_all add: next_content)

declare content_loop.simps [simp del]

definition sdboot_boot_parse_content_into ::
  "cstring \<Rightarrow> sdboot_target \<Rightarrow> cstate \<Rightarrow> efi_status \<times> sdboot_target \<times> cstate" where
  "sdboot_boot_parse_content_into content target s = content_loop content False target s"

text \<open>The content of a file: its settings go to a copy of the menu, or straight to the entry.\<close>

definition sdboot_boot_parse_content ::
  "cstring option \<Rightarrow> cstring option \<Rightarrow> sdboot_target \<Rightarrow> cstate \<Rightarrow> efi_status \<times> sdboot_target \<times> cstate" where
  "sdboot_boot_parse_content fname content target s =
     (if fname = None \<or> content = None then (EFI_INVALID_PARAMETER, target, s)
      else if the content = [] then (EFI_LOAD_ERROR, target, s)
      else case target of
        (None, Some l) \<Rightarrow> sdboot_boot_parse_content_into (the content) target s
      | (Some menu, None) \<Rightarrow>
          (let (ok, s) = (if sm_default_entry menu = None then (True, s) else alloc s) in
           if \<not> ok then (EFI_OUT_OF_RESOURCES, target, s)
           else let (status, staged, s) =
                      sdboot_boot_parse_content_into (the content) (Some menu, None) s
                in if EFI_ERROR status then (status, target, s) else (EFI_SUCCESS, staged, s))
      | _ \<Rightarrow> (EFI_INVALID_PARAMETER, target, s))"

end
