(* ===== verification/Vercmp.thy ===== *)
theory Vercmp
  imports StrUtils "HOL-Library.List_Lexorder"
begin

text \<open>
  \<open>src/lib/str-utils.c\<close>, \<open>verncmp\<close> and \<open>vercmp\<close>: the version order used to sort boot entries. The
  loop state is the two suffixes the pointers \<open>p1\<close> and \<open>p2\<close> have reached and the counter
  \<open>pos1\<close>. The specification is a key: a version is a list of tokens (a tilde, a number without
  its leading zeros, a word), and versions compare as the lists of the tokens' keys.
\<close>

section \<open>The comparison loop\<close>

definition ver_sep :: "char \<Rightarrow> bool" where
  "ver_sep c \<longleftrightarrow> \<not> isalnum c \<and> c \<noteq> CHR ''~''"

text \<open>\<open>while (*p == '0' && isdigit(*(p + 1))) p++\<close>: the last digit stays.\<close>

fun skip_zeros :: "cstring \<Rightarrow> cstring" where
  "skip_zeros (z # d # p) =
     (if z = CHR ''0'' \<and> isdigit d then skip_zeros (d # p) else z # d # p)"
| "skip_zeros p = p"

lemma skip_zeros_length: "length (skip_zeros p) \<le> length p"
  by (induction p rule: skip_zeros.induct) auto

text \<open>One run of digits or letters: the run and what follows it.\<close>

abbreviation run_of :: "(char \<Rightarrow> bool) \<Rightarrow> cstring \<Rightarrow> cstring \<times> cstring" where
  "run_of P p \<equiv> (takeWhile P p, dropWhile P p)"

lemma skip_zeros_digit: "isdigit c \<Longrightarrow> \<exists>d r. skip_zeros (c # p) = d # r \<and> isdigit d"
  by (induction "c # p" arbitrary: c p rule: skip_zeros.induct) auto

lemma digit_step_length:
  "isdigit c \<Longrightarrow> length (dropWhile isdigit (skip_zeros (c # p))) \<le> length p"
  using skip_zeros_digit [of c p] skip_zeros_length [of "c # p"]
    length_dropWhile_le [of isdigit "tl (skip_zeros (c # p))"] by auto

lemma isalpha_not_tilde [simp]: "\<not> isalpha (CHR ''~'')" "\<not> isdigit (CHR ''~'')"
  "\<not> isalpha NUL" "\<not> isdigit NUL"
  by (auto simp: ctype_basic cval_def)

lemma drop_takeWhile_length: "drop (length (takeWhile P p)) p = dropWhile P p"
  by (induction p) auto

lemma alnum_neq_tilde [simp]: "isalpha c \<Longrightarrow> c \<noteq> CHR ''~''" "isdigit c \<Longrightarrow> c \<noteq> CHR ''~''"
  by auto

lemma hdc_tilde: "hdc q = CHR ''~'' \<Longrightarrow> \<exists>r. q = CHR ''~'' # r"
  by (cases q) auto

function ver_loop :: "nat \<Rightarrow> cstring \<Rightarrow> cstring \<Rightarrow> nat \<Rightarrow> int" where
  "ver_loop len p1 p2 pos1 =
     (if p1 = [] \<and> p2 = [] then 0
      else if 0 < len \<and> len \<le> pos1 then 0
      else
        let q1 = dropWhile ver_sep p1;
            pos1 = pos1 + (length p1 - length q1);
            q2 = dropWhile ver_sep p2
        in if hdc q1 = CHR ''~'' \<and> hdc q2 \<noteq> CHR ''~'' then -1
           else if hdc q1 \<noteq> CHR ''~'' \<and> hdc q2 = CHR ''~'' then 1
           else if hdc q1 = CHR ''~'' \<and> hdc q2 = CHR ''~'' then
             ver_loop len (tl q1) (tl q2) (pos1 + 1)
           else if q1 = [] \<and> q2 = [] then 0
           else if q1 = [] then -1
           else if q2 = [] then 1
           else if isdigit (hdc q1) \<and> isdigit (hdc q2) then
             let n1 = skip_zeros q1;
                 n2 = skip_zeros q2;
                 len1 = length (takeWhile isdigit n1);
                 len2 = length (takeWhile isdigit n2);
                 cmp = strncmp n1 n2 len1
             in if len1 \<noteq> len2 then (if len1 < len2 then -1 else 1)
                else if cmp \<noteq> 0 then cmp
                else ver_loop len (drop len1 n1) (drop len2 n2)
                       (pos1 + (length q1 - length n1) + len1)
           else if isalpha (hdc q1) \<and> isalpha (hdc q2) then
             let len1 = length (takeWhile isalpha q1);
                 len2 = length (takeWhile isalpha q2);
                 min_len = (if len1 < len2 then len1 else len2);
                 cmp = strncmp q1 q2 min_len
             in if cmp \<noteq> 0 then cmp
                else if len1 \<noteq> len2 then (if len1 < len2 then -1 else 1)
                else ver_loop len (drop len1 q1) (drop len2 q2) (pos1 + len1)
           else if isdigit (hdc q1) then 1
           else if isdigit (hdc q2) then -1
           else ver_loop len (tl q1) (tl q2) (pos1 + 1))"
  by pat_completeness auto

termination
proof (relation "measure (\<lambda>(len, p1, p2, pos1). length p1)", goal_cases)
  case 1
  show ?case by simp
next
  case (2 len p1 p2 pos1 q1 pos q2)
  then obtain r where q: "q1 = CHR ''~'' # r" using hdc_tilde by blast
  then have "length r < length p1" using 2(3) by (metis length_dropWhile_tl)
  with q show ?case by simp
next
  case (3 len p1 p2 pos1 q1 pos q2 n1 n2 len1 len2 cmp)
  from 3 have "isdigit (hdc q1)" by simp
  then obtain c r where q: "q1 = c # r" "isdigit c" by (cases q1) auto
  have "length r < length p1" using 3(3) q(1) by (metis length_dropWhile_tl)
  moreover have "length (drop len1 n1) \<le> length r"
    using q digit_step_length [of c r]
    by (simp add: \<open>len1 = length (takeWhile isdigit n1)\<close> \<open>n1 = skip_zeros q1\<close> drop_takeWhile_length)
  ultimately show ?case by simp
next
  case (4 len p1 p2 pos1 q1 pos q2 len1 len2 min_len cmp)
  from 4 have "isalpha (hdc q1)" by simp
  then obtain c r where q: "q1 = c # r" "isalpha c" by (cases q1) auto
  have "length r < length p1" using 4(3) q(1) by (metis length_dropWhile_tl)
  moreover have "length (drop len1 q1) \<le> length r"
    using q
    by (simp add: \<open>len1 = length (takeWhile isalpha q1)\<close> drop_takeWhile_length length_dropWhile_le)
  ultimately show ?case by simp
next
  case (5 len p1 p2 pos1 q1 pos q2)
  from 5 have "q1 \<noteq> []" by blast
  then obtain c r where q: "q1 = c # r" by (cases q1) auto
  then have "length r < length p1" using 5(3) by (metis length_dropWhile_tl)
  with q show ?case by simp
qed

declare ver_loop.simps [simp del]

definition verncmp :: "cstring option \<Rightarrow> cstring option \<Rightarrow> nat \<Rightarrow> int" where
  "verncmp ver1 ver2 len =
     (case (ver1, ver2) of
        (None, None) \<Rightarrow> 0
      | (None, Some _) \<Rightarrow> -1
      | (Some _, None) \<Rightarrow> 1
      | (Some p1, Some p2) \<Rightarrow> ver_loop len p1 p2 0)"

definition vercmp :: "cstring option \<Rightarrow> cstring option \<Rightarrow> int" where
  "vercmp ver1 ver2 = verncmp ver1 ver2 0"

section \<open>The order by keys\<close>

text \<open>
  The key of a version: one list of numbers per token, ended by \<open>[1]\<close>. A tilde is below the end
  of the string, the end is below a word, a word is below a number; numbers compare by the length of
  their stripped digits first, words byte by byte.
\<close>

function ver_key :: "cstring \<Rightarrow> nat list list" where
  "ver_key p =
     (case dropWhile ver_sep p of
        [] \<Rightarrow> [[1]]
      | c # r \<Rightarrow>
          if c = CHR ''~'' then [0] # ver_key r
          else if isdigit c then
            (let n = skip_zeros (c # r); ds = takeWhile isdigit n
             in (3 # length ds # map cval ds) # ver_key (dropWhile isdigit n))
          else (2 # map cval (takeWhile isalpha (c # r))) # ver_key (dropWhile isalpha r))"
  by pat_completeness auto

termination
proof (relation "measure length", goal_cases)
  case 1
  show ?case by simp
next
  case (2 p c r)
  then show ?case by (metis in_measure length_dropWhile_tl)
next
  case (3 p c r n ds)
  then have "length (dropWhile isdigit n) \<le> length r" by (simp add: digit_step_length)
  moreover have "length r < length p" using 3(1) by (metis length_dropWhile_tl)
  ultimately show ?case by simp
next
  case (4 p c r)
  then have "length r < length p" by (metis length_dropWhile_tl)
  then show ?case using length_dropWhile_le [of isalpha r] by simp
qed

declare ver_key.simps [simp del]

definition cmp3 :: "'a::linorder \<Rightarrow> 'a \<Rightarrow> int" where
  "cmp3 a b = (if a < b then -1 else if a = b then 0 else 1)"

lemma cmp3_Cons: "cmp3 (a # x) (b # y) = (if a = b then cmp3 x y else cmp3 a b)"
  by (auto simp: cmp3_def)

lemma cmp3_simps [simp]: "cmp3 a a = 0" "a < b \<Longrightarrow> cmp3 a b = -1" "b < a \<Longrightarrow> cmp3 a b = 1"
  by (auto simp: cmp3_def)

text \<open>The two run comparisons as comparisons of keys.\<close>

lemma sgn_run_cmp:
  "sgn (let c = strncmp (xs @ r) (ys @ r') (min (length xs) (length ys))
        in if c \<noteq> 0 then c
           else if length xs \<noteq> length ys then if length xs < length ys then -1 else 1 else 0)
   = cmp3 (map cval xs) (map cval ys)"
proof (induction xs ys rule: list_induct2')
  case (4 x xs y ys)
  show ?case
  proof (cases "x = y")
    case True
    with 4 show ?thesis
      by (cases "length xs" "length ys" rule: linorder_cases)
        (auto simp: cmp3_Cons Let_def split: if_splits)
  next
    case False
    then have "cval x \<noteq> cval y" by simp
    with False show ?thesis by (auto simp: cmp3_Cons Let_def sgn_if cmp3_def)
  qed
qed (simp_all add: cmp3_def)

lemma sgn_run_cmp_eq:
  assumes "length xs = length ys"
  shows "sgn (strncmp (xs @ r) (ys @ r') (length xs)) = cmp3 (map cval xs) (map cval ys)"
  using sgn_run_cmp [of xs r ys r'] assms by (auto simp: Let_def split: if_splits)

lemma hdc_alpha_cases: "\<not> ver_sep c \<Longrightarrow> c \<noteq> CHR ''~'' \<Longrightarrow> \<not> isdigit c \<Longrightarrow> isalpha c"
  by (simp add: ver_sep_def isalnum_def)

text \<open>The keys of a string by its first token.\<close>

lemma ver_key_Nil: "dropWhile ver_sep p = [] \<Longrightarrow> ver_key p = [[1]]"
  by (simp only: ver_key.simps [of p] list.case)

lemma ver_key_tilde: "dropWhile ver_sep p = CHR ''~'' # r \<Longrightarrow> ver_key p = [0] # ver_key r"
  by (subst ver_key.simps) simp

lemma ver_key_digit:
  "dropWhile ver_sep p = c # r \<Longrightarrow> isdigit c \<Longrightarrow> n = skip_zeros (c # r) \<Longrightarrow>
   ver_key p = (3 # length (takeWhile isdigit n) # map cval (takeWhile isdigit n))
               # ver_key (dropWhile isdigit n)"
  by (subst ver_key.simps) (auto simp: Let_def)

lemma ver_key_alpha:
  "dropWhile ver_sep p = c # r \<Longrightarrow> isalpha c \<Longrightarrow>
   ver_key p = (2 # map cval (takeWhile isalpha (c # r))) # ver_key (dropWhile isalpha (c # r))"
  by (subst ver_key.simps) auto

lemmas ver_key_intros = ver_key_Nil ver_key_tilde ver_key_digit ver_key_alpha

lemma not_sep_head: "dropWhile ver_sep p = c # r \<Longrightarrow> c = CHR ''~'' \<or> isdigit c \<or> isalpha c"
  using hd_dropWhile_not [of ver_sep p c r] hdc_alpha_cases by blast

lemma cmp3_lists: "x \<noteq> y \<Longrightarrow> cmp3 (x # a) (y # b) = cmp3 x y"
  by (simp add: cmp3_Cons)

text \<open>Every turn of the loop compares the first keys and goes on when they are equal.\<close>

lemma ver_loop_turn:
  assumes "dropWhile ver_sep p1 = q1" "dropWhile ver_sep p2 = q2"
  shows "ver_loop 0 p1 p2 pos = (if p1 = [] \<and> p2 = [] then 0 else
    let pos1 = pos + (length p1 - length q1) in
      if hdc q1 = CHR ''~'' \<and> hdc q2 \<noteq> CHR ''~'' then -1
      else if hdc q1 \<noteq> CHR ''~'' \<and> hdc q2 = CHR ''~'' then 1
      else if hdc q1 = CHR ''~'' \<and> hdc q2 = CHR ''~'' then ver_loop 0 (tl q1) (tl q2) (pos1 + 1)
      else if q1 = [] \<and> q2 = [] then 0
      else if q1 = [] then -1
      else if q2 = [] then 1
      else if isdigit (hdc q1) \<and> isdigit (hdc q2) then
        let n1 = skip_zeros q1; n2 = skip_zeros q2;
            len1 = length (takeWhile isdigit n1); len2 = length (takeWhile isdigit n2);
            cmp = strncmp n1 n2 len1
        in if len1 \<noteq> len2 then (if len1 < len2 then -1 else 1)
           else if cmp \<noteq> 0 then cmp
           else ver_loop 0 (dropWhile isdigit n1) (dropWhile isdigit n2)
                  (pos1 + (length q1 - length n1) + len1)
      else if isalpha (hdc q1) \<and> isalpha (hdc q2) then
        let len1 = length (takeWhile isalpha q1); len2 = length (takeWhile isalpha q2);
            cmp = strncmp q1 q2 (min len1 len2)
        in if cmp \<noteq> 0 then cmp
           else if len1 \<noteq> len2 then (if len1 < len2 then -1 else 1)
           else ver_loop 0 (dropWhile isalpha q1) (dropWhile isalpha q2) (pos1 + len1)
      else if isdigit (hdc q1) then 1
      else if isdigit (hdc q2) then -1
      else ver_loop 0 (tl q1) (tl q2) (pos1 + 1))"
proof -
  have m: "(if a < b then a else b) = min a b" for a b :: nat
    by simp
  have d: "drop (length (takeWhile P p)) p = dropWhile P p" for P :: "char \<Rightarrow> bool" and p
    by (rule drop_takeWhile_length)
  show ?thesis
    unfolding ver_loop.simps [of 0 p1 p2 pos] assms Let_def m d
    by (simp add: d cong: if_cong)
qed

lemma ver_loop_key: "sgn (ver_loop 0 p1 p2 pos) = cmp3 (ver_key p1) (ver_key p2)"
proof (induction "length p1" arbitrary: p1 p2 pos rule: less_induct)
  case less
  show ?case
  proof (cases "dropWhile ver_sep p1"; cases "dropWhile ver_sep p2")
    assume "dropWhile ver_sep p1 = []" "dropWhile ver_sep p2 = []"
    then show ?thesis
      by (simp add: ver_loop_turn ver_key_Nil del: dropWhile_eq_Nil_conv)
  next
    fix c r assume q: "dropWhile ver_sep p1 = []" "dropWhile ver_sep p2 = c # r"
    then have "p2 \<noteq> []" by auto
    with q not_sep_head [OF q(2)] show ?thesis
      by (auto simp: ver_loop_turn [OF q] ver_key_Nil [OF q(1)] ver_key_tilde [of p2]
          ver_key_digit [of p2] ver_key_alpha [of p2] cmp3_lists cmp3_Cons Let_def)
  next
    fix c r assume q: "dropWhile ver_sep p1 = c # r" "dropWhile ver_sep p2 = []"
    then have "p1 \<noteq> []" by auto
    with q not_sep_head [OF q(1)] show ?thesis
      by (auto simp: ver_loop_turn [OF q] ver_key_Nil [OF q(2)] ver_key_tilde [of p1]
          ver_key_digit [of p1] ver_key_alpha [of p1] cmp3_lists cmp3_Cons Let_def)
  next
    fix c r d q assume q: "dropWhile ver_sep p1 = c # r" "dropWhile ver_sep p2 = d # q"
    then have ne: "p1 \<noteq> []" "length r < length p1" by (auto intro: length_dropWhile_tl)
    consider "c = CHR ''~''" "d = CHR ''~''" | "c = CHR ''~''" "d \<noteq> CHR ''~''"
      | "c \<noteq> CHR ''~''" "d = CHR ''~''" | "isdigit c" "isalpha d" | "isalpha c" "isdigit d"
      | "isdigit c" "isdigit d" | "isalpha c" "isalpha d"
      using not_sep_head [OF q(1)] not_sep_head [OF q(2)] by blast
    then show ?thesis
    proof cases
      case 1
      with q ne less [of r] show ?thesis
        by (simp add: ver_loop_turn [OF q] ver_key_tilde cmp3_Cons Let_def)
    next
      case 2
      with not_sep_head [OF q(2)] q ne show ?thesis
        by (auto simp: ver_loop_turn [OF q] ver_key_tilde [of p1]
          ver_key_digit [of p2] ver_key_alpha [of p2] cmp3_lists cmp3_Cons Let_def)
    next
      case 3
      with not_sep_head [OF q(1)] q ne show ?thesis
        by (auto simp: ver_loop_turn [OF q] ver_key_tilde [of p2]
          ver_key_digit [of p1] ver_key_alpha [of p1] cmp3_lists cmp3_Cons Let_def)
    next
      case 4
      with q ne show ?thesis
        by (auto simp: ver_loop_turn [OF q] ver_key_digit [of p1] ver_key_alpha [of p2] cmp3_Cons Let_def)
    next
      case 5
      with q ne show ?thesis
        by (auto simp: ver_loop_turn [OF q] ver_key_digit [of p2] ver_key_alpha [of p1] cmp3_Cons Let_def)
    next
      case 6
      define n1 where "n1 = skip_zeros (c # r)"
      define n2 where "n2 = skip_zeros (d # q)"
      define ds where "ds = takeWhile isdigit n1"
      define es where "es = takeWhile isdigit n2"
      have n: "n1 = ds @ dropWhile isdigit n1" "n2 = es @ dropWhile isdigit n2"
        by (simp_all add: ds_def es_def)
      have k: "ver_key p1 = (3 # length ds # map cval ds) # ver_key (dropWhile isdigit n1)"
        "ver_key p2 = (3 # length es # map cval es) # ver_key (dropWhile isdigit n2)"
        using 6 q by (simp_all add: ver_key_digit n1_def n2_def ds_def es_def)
      have "length (dropWhile isdigit n1) < length p1"
        using digit_step_length [OF 6(1), of r] ne(2) by (simp add: n1_def)
      note IH = less [OF this]
      show ?thesis
      proof (cases "length ds = length es")
        case False
        with 6 ne show ?thesis
          unfolding ver_loop_turn [OF q] k
          by (simp add: Let_def cmp3_Cons cmp3_def n1_def n2_def ds_def es_def)
      next
        case True
        have "sgn (strncmp n1 n2 (length ds)) = cmp3 (map cval ds) (map cval es)"
          using sgn_run_cmp_eq [OF True] n by metis
        moreover from this have "strncmp n1 n2 (length ds) = 0 \<longleftrightarrow> map cval ds = map cval es"
          by (auto simp: cmp3_def sgn_if split: if_splits)
        ultimately show ?thesis
          using 6 ne True IH
          unfolding ver_loop_turn [OF q] k n1_def [symmetric] n2_def [symmetric]
            ds_def [symmetric] es_def [symmetric]
          by (simp add: Let_def cmp3_Cons flip: n1_def n2_def ds_def es_def)
      qed
    next
      case 7
      define ds where "ds = takeWhile isalpha (c # r)"
      define es where "es = takeWhile isalpha (d # q)"
      have n: "c # r = ds @ dropWhile isalpha r" "d # q = es @ dropWhile isalpha q"
        using 7 by (simp_all add: ds_def es_def)
      have k: "ver_key p1 = (2 # map cval ds) # ver_key (dropWhile isalpha r)"
        "ver_key p2 = (2 # map cval es) # ver_key (dropWhile isalpha q)"
        using 7 q by (simp_all add: ver_key_alpha ds_def es_def)
      have "length (dropWhile isalpha r) < length p1"
        using length_dropWhile_le [of isalpha r] ne(2) by linarith
      note IH = less [OF this]
      have "sgn (let c = strncmp (c # r) (d # q) (min (length ds) (length es))
          in if c \<noteq> 0 then c
             else if length ds \<noteq> length es then if length ds < length es then -1 else 1 else 0)
          = cmp3 (map cval ds) (map cval es)"
        using sgn_run_cmp [of ds _ es] n by metis
      note run = this
      define C where "C = strncmp (c # r) (d # q) (min (length ds) (length es))"
      have turn: "ver_loop 0 p1 p2 pos = (if C \<noteq> 0 then C
          else if length ds \<noteq> length es then (if length ds < length es then -1 else 1)
          else ver_loop 0 (dropWhile isalpha r) (dropWhile isalpha q)
                 (pos + (length p1 - length (c # r)) + length ds))"
        using 7 ne unfolding ver_loop_turn [OF q]
        by (simp add: Let_def C_def ds_def es_def)
      consider "C \<noteq> 0" | "C = 0" "length ds \<noteq> length es" | "C = 0" "length ds = length es" by blast
      then show ?thesis
      proof cases
        case 1
        with run have "sgn C = cmp3 (map cval ds) (map cval es)" by (simp add: C_def Let_def)
        with 1 show ?thesis unfolding turn k by (auto simp: cmp3_Cons sgn_if split: if_splits)
      next
        case 2
        with run have "cmp3 (map cval ds) (map cval es) = (if length ds < length es then -1 else 1)"
          by (auto simp: C_def Let_def split: if_splits)
        moreover from this 2 have "map cval ds \<noteq> map cval es"
          by (auto split: if_splits)
        ultimately show ?thesis using 2 unfolding turn k by (simp add: cmp3_Cons)
      next
        case 3
        with run have "cmp3 (map cval ds) (map cval es) = 0" by (simp add: C_def Let_def)
        then have "map cval ds = map cval es" by (auto simp: cmp3_def split: if_splits)
        with 3 IH show ?thesis unfolding turn k by (simp add: cmp3_Cons)
      qed
    qed
  qed
qed

lemma vercmp_key: "sgn (vercmp (Some s) (Some t)) = cmp3 (ver_key s) (ver_key t)"
  by (simp add: vercmp_def verncmp_def ver_loop_key)

end
