(* ===== verification/Loader.thy ===== *)
theory Loader
  imports Overlays Sdboot Vercmp
begin

text \<open>
  The loader's global state (\<open>include/embloader.h\<close>, \<open>include/bootmenu.h\<close>) and the components that read
  it: matching of hardware fields (\<open>src/main/match.c\<close>, \<open>device.c\<close>), loader entries
  (\<open>src/loader/loader.c\<close>, \<open>src/loader/type/reboot.c\<close>) and path variables (\<open>src/main/resolve.c\<close>).
  A list of entries is the list of the entries with their addresses, so two pointers are equal when
  the addresses are.
\<close>

section \<open>State\<close>

datatype embloader_loader_type =
  LOADER_NONE | LOADER_EFISETUP | LOADER_REBOOT | LOADER_EFI | LOADER_LINUX_EFI | LOADER_LINUX | LOADER_SDBOOT

record embloader_loader =
  ll_name :: "cstring option"
  ll_title :: "cstring option"
  ll_version :: "cstring option"
  ll_type :: embloader_loader_type
  ll_complete :: bool
  ll_editor :: bool
  ll_priority :: int
  ll_node :: ptr
  ll_bootargs :: "cstring option"
  ll_extra :: ptr

type_synonym entry = "addr \<times> embloader_loader"

record embloader_menu =
  mn_title :: "cstring option"
  mn_timeout :: int
  mn_disabled :: bool
  mn_save_default :: bool
  mn_default_entry :: "cstring option"
  mn_loaders :: "entry list"

record embloader =
  g_cs :: cstate
  g_next :: addr
  g_config :: ptr
  g_sysinfo :: ptr
  g_ktype :: "cstring option"
  g_device_name :: "cstring option"
  g_profiles :: "cstring list"
  g_menu :: "embloader_menu option"
  g_sdboot :: "sdboot_menu option"

definition zero_loader :: embloader_loader where
  "zero_loader = \<lparr>ll_name = None, ll_title = None, ll_version = None, ll_type = LOADER_NONE,
     ll_complete = False, ll_editor = False, ll_priority = 0, ll_node = None, ll_bootargs = None,
     ll_extra = None\<rparr>"

definition zero_menu :: embloader_menu where
  "zero_menu = \<lparr>mn_title = None, mn_timeout = 0, mn_disabled = False, mn_save_default = False,
     mn_default_entry = None, mn_loaders = []\<rparr>"

text \<open>A configuration operation and an allocation on the global state.\<close>

definition on_cs :: "(cstate \<Rightarrow> ('a \<times> cstate) option) \<Rightarrow> embloader \<Rightarrow> ('a \<times> embloader) option" where
  "on_cs f g = do { (r, s) \<leftarrow> f (g_cs g); Some (r, g\<lparr>g_cs := s\<rparr>) }"

definition galloc :: "embloader \<Rightarrow> bool \<times> embloader" where
  "galloc g = (let (ok, s) = alloc (g_cs g) in (ok, g\<lparr>g_cs := s\<rparr>))"

definition gstrdup :: "cstring option \<Rightarrow> embloader \<Rightarrow> cstring option \<times> embloader" where
  "gstrdup str g =
     (case str of None \<Rightarrow> (None, g) | Some t \<Rightarrow> let (ok, g) = galloc g in (if ok then Some t else None, g))"

text \<open>
  \<open>confignode_foreach\<close> with a body that may leave the loop: the body returns whether to go on, and
  the result says whether every element was visited.
\<close>

partial_function (option) iter_loop ::
  "(citer \<Rightarrow> embloader \<Rightarrow> (bool \<times> embloader) option) \<Rightarrow> citer \<Rightarrow> embloader \<Rightarrow> (bool \<times> embloader) option" where
  "iter_loop body it g =
     (if it_node it = None then Some (True, g)
      else do {
        (go, g) \<leftarrow> body it g;
        (if \<not> go then Some (False, g)
         else do {
           (_, it) \<leftarrow> confignode_iter_next it (g_cs g);
           iter_loop body it g
         })
      })"

definition foreach_g ::
  "(citer \<Rightarrow> embloader \<Rightarrow> (bool \<times> embloader) option) \<Rightarrow> ptr \<Rightarrow> embloader \<Rightarrow> (bool \<times> embloader) option" where
  "foreach_g body node g = do {
     it \<leftarrow> confignode_iter_start_ret node (g_cs g);
     iter_loop body it g
   }"

definition path_foreach_g ::
  "(citer \<Rightarrow> embloader \<Rightarrow> (bool \<times> embloader) option) \<Rightarrow> ptr \<Rightarrow> cstring \<Rightarrow> embloader \<Rightarrow>
   (bool \<times> embloader) option" where
  "path_foreach_g body node path g = do {
     (_, it, s) \<leftarrow> confignode_path_iter_start node (Some path) (g_cs g);
     iter_loop body it (g\<lparr>g_cs := s\<rparr>)
   }"

section \<open>match.c\<close>

text \<open>\<open>regexp_match(value, field, REG_ICASE)\<close> of the bundled regular-expression library is a parameter.\<close>

definition match_oper :: "(cstring \<Rightarrow> cstring \<Rightarrow> int) \<Rightarrow> cstring \<Rightarrow> cstring \<Rightarrow> cstring \<Rightarrow> bool" where
  "match_oper regexp oper field_value val =
     (if strcasecmp oper ''equals'' = 0 then strcasecmp field_value val = 0
      else if strcasecmp oper ''noteq'' = 0 then strcasecmp field_value val \<noteq> 0
      else if strcasecmp oper ''contains'' = 0 then strcasestr field_value val
      else if strcasecmp oper ''regexp'' = 0 then regexp val field_value = 1
      else if strcasecmp oper ''greater'' = 0 then strcasecmp field_value val > 0
      else if strcasecmp oper ''less'' = 0 then strcasecmp field_value val < 0
      else if strcasecmp oper ''greater-equals'' = 0 then strcasecmp field_value val \<ge> 0
      else if strcasecmp oper ''less-equals'' = 0 then strcasecmp field_value val \<le> 0
      else if strcasecmp oper ''older'' = 0 then vercmp (Some field_value) (Some val) < 0
      else if strcasecmp oper ''newer'' = 0 then vercmp (Some field_value) (Some val) > 0
      else False)"

definition embloader_try_match ::
  "(cstring \<Rightarrow> cstring \<Rightarrow> int) \<Rightarrow> ptr \<Rightarrow> embloader \<Rightarrow> (bool \<times> embloader) option" where
  "embloader_try_match regexp node g = do {
     ismap \<leftarrow> confignode_is_type node TYPE_MAP (g_cs g);
     (if \<not> ismap then Some (False, g)
      else do {
        ((field, _), g) \<leftarrow> on_cs (confignode_path_get_string node (Some ''field'') None) g;
        ((oper, _), g) \<leftarrow> on_cs (confignode_path_get_string node (Some ''oper'') None) g;
        ((val, _), g) \<leftarrow> on_cs (confignode_path_get_string node (Some ''value'') None) g;
        (if field = None \<or> oper = None \<or> val = None \<or> g_sysinfo g = None then Some (False, g)
         else do {
           ((field_value, _), g) \<leftarrow> on_cs (confignode_path_get_string (g_sysinfo g) field None) g;
           Some (case field_value of
                   None \<Rightarrow> False
                 | Some f \<Rightarrow> match_oper regexp (the oper) f (the val), g)
         })
      })
   }"

definition embloader_try_matches ::
  "(cstring \<Rightarrow> cstring \<Rightarrow> int) \<Rightarrow> ptr \<Rightarrow> embloader \<Rightarrow> (bool \<times> embloader) option" where
  "embloader_try_matches regexp node g = do {
     isarr \<leftarrow> confignode_is_type node TYPE_ARRAY (g_cs g);
     (if \<not> isarr then Some (False, g)
      else foreach_g (\<lambda>it g. embloader_try_match regexp (it_node it) g) node g)
   }"

section \<open>device.c\<close>

text \<open>The profiles of a device, collected in order; \<open>None\<close> is the error exit.\<close>

definition gather_profiles ::
  "citer \<Rightarrow> cstring list option \<times> embloader \<Rightarrow> (bool \<times> cstring list option \<times> embloader) option" where
  "gather_profiles it x =
     (let (profiles, g) = x in do {
        isv \<leftarrow> confignode_is_type (it_node it) TYPE_VALUE (g_cs g);
        (if \<not> isv then Some (True, profiles, g)
         else do {
           (v, ok) \<leftarrow> confignode_value_get_string (it_node it) None (g_cs g);
           (if \<not> ok \<or> v = None then Some (False, None, g)
            else let (added, g) = galloc g
                 in Some (if added then (True, map_option (\<lambda>ps. ps @ [the v]) profiles, g)
                          else (False, None, g)))
         })
      })"

partial_function (option) profiles_loop ::
  "citer \<Rightarrow> cstring list option \<times> embloader \<Rightarrow> (cstring list option \<times> embloader) option" where
  "profiles_loop it x =
     (if it_node it = None then Some x
      else do {
        (go, x) \<leftarrow> gather_profiles it x;
        (if \<not> go then Some x
         else do {
           (_, it) \<leftarrow> confignode_iter_next it (g_cs (snd x));
           profiles_loop it x
         })
      })"

definition embloader_match_device ::
  "(cstring \<Rightarrow> cstring \<Rightarrow> int) \<Rightarrow> ptr \<Rightarrow> embloader \<Rightarrow> (bool \<times> embloader) option" where
  "embloader_match_device regexp node g =
     (if node = None then Some (False, g)
      else do {
        ((name, ok), g) \<leftarrow> on_cs (confignode_path_get_string node (Some ''name'') None) g;
        (if \<not> ok \<or> name = None then Some (False, g)
         else do {
           (match, g) \<leftarrow> on_cs (confignode_path_lookup node (Some ''match'') False) g;
           (fits, g) \<leftarrow> (if match = None then Some (True, g) else embloader_try_matches regexp match g);
           (if \<not> fits then Some (False, g)
            else do {
              (profiles, g) \<leftarrow> on_cs (confignode_path_lookup node (Some ''profiles'') False) g;
              it \<leftarrow> confignode_iter_start_ret profiles (g_cs g);
              (new, g) \<leftarrow> profiles_loop it (Some [], g);
              Some (case new of
                      None \<Rightarrow> (False, g)
                    | Some ps \<Rightarrow> (True, g\<lparr>g_device_name := name, g_profiles := ps\<rparr>))
            })
         })
      })"

definition embloader_choose_device ::
  "(cstring \<Rightarrow> cstring \<Rightarrow> int) \<Rightarrow> embloader \<Rightarrow> (bool \<times> embloader) option" where
  "embloader_choose_device regexp g = do {
     (devices, g) \<leftarrow> on_cs (confignode_path_lookup (g_config g) (Some ''devices'') False) g;
     (if devices = None then Some (False, g)
      else do {
        (all, g) \<leftarrow> foreach_g (\<lambda>it g. do {
                     (found, g) \<leftarrow> embloader_match_device regexp (it_node it) g;
                     Some (\<not> found, g)
                   }) devices g;
        Some (\<not> all, g)
      })
   }"

section \<open>loader.c and reboot.c\<close>

definition embloader_loader_funcs :: "(cstring \<times> embloader_loader_type) list" where
  "embloader_loader_funcs =
     [(''efisetup'', LOADER_EFISETUP), (''reboot'', LOADER_REBOOT), (''efi'', LOADER_EFI),
      (''linux-efi'', LOADER_LINUX_EFI), (''linux'', LOADER_LINUX), (''sdboot'', LOADER_SDBOOT)]"

definition embloader_menu_get_loader_type :: "cstring option \<Rightarrow> embloader_loader_type" where
  "embloader_menu_get_loader_type type_str =
     (case type_str of
        None \<Rightarrow> LOADER_NONE
      | Some t \<Rightarrow> (case find (\<lambda>f. strcasecmp t (fst f) = 0) embloader_loader_funcs of
                    None \<Rightarrow> LOADER_NONE
                  | Some f \<Rightarrow> snd f))"

definition embloader_find_loader :: "cstring option \<Rightarrow> embloader \<Rightarrow> entry option" where
  "embloader_find_loader name g =
     (case (name, g_menu g) of
        (Some n, Some menu) \<Rightarrow>
          find (\<lambda>e. case ll_name (snd e) of None \<Rightarrow> False | Some m \<Rightarrow> strcasecmp n m = 0) (mn_loaders menu)
      | _ \<Rightarrow> None)"

definition reboot_mode ::
  "cstring list \<Rightarrow> embloader_loader \<Rightarrow> embloader \<Rightarrow> (bool \<times> embloader) option" where
  "reboot_mode modes l g =
     (if ll_type l \<noteq> LOADER_REBOOT \<or> ll_node l = None then Some (False, g)
      else do {
        ((mode, _), g) \<leftarrow> on_cs (confignode_path_get_string (ll_node l) (Some ''mode'') (Some ''reboot'')) g;
        Some (case mode of None \<Rightarrow> False | Some m \<Rightarrow> \<exists>w \<in> set modes. strcasecmp m w = 0, g)
      })"

definition embloader_loader_is_reboot :: "embloader_loader \<Rightarrow> embloader \<Rightarrow> (bool \<times> embloader) option" where
  "embloader_loader_is_reboot = reboot_mode [''reboot'', ''reboot-cold'', ''reboot-warm'', ''reboot-with'']"

definition embloader_loader_is_shutdown :: "embloader_loader \<Rightarrow> embloader \<Rightarrow> (bool \<times> embloader) option" where
  "embloader_loader_is_shutdown = reboot_mode [''shutdown'', ''poweroff'']"

datatype efi_reset_type = EfiResetCold | EfiResetWarm | EfiResetShutdown | EfiResetPlatformSpecific

text \<open>The reset requested from the firmware, when the call comes back it is reported as not found.\<close>

definition embloader_loader_boot_reboot ::
  "embloader_loader \<Rightarrow> embloader \<Rightarrow> ((efi_status \<times> (efi_reset_type \<times> cstring option) option) \<times> embloader) option" where
  "embloader_loader_boot_reboot l g =
     (if ll_node l = None then Some ((EFI_INVALID_PARAMETER, None), g)
      else do {
        ((mode, _), g) \<leftarrow> on_cs (confignode_path_get_string (ll_node l) (Some ''mode'') (Some ''reboot'')) g;
        (case mode of
           None \<Rightarrow> Some ((EFI_INVALID_PARAMETER, None), g)
         | Some m \<Rightarrow> do {
             ((data, _), g) \<leftarrow> on_cs (confignode_path_get_string (ll_node l) (Some ''data'') None) g;
             (let reset = (\<lambda>ty. Some ((EFI_NOT_FOUND, Some (ty, data)), g)) in
              if strcasecmp m ''reboot'' = 0 then reset EfiResetCold
              else if strcasecmp m ''reboot-cold'' = 0 then reset EfiResetCold
              else if strcasecmp m ''reboot-warm'' = 0 then reset EfiResetWarm
              else if strcasecmp m ''shutdown'' = 0 then reset EfiResetShutdown
              else if strcasecmp m ''poweroff'' = 0 then reset EfiResetShutdown
              else if strcasecmp m ''reboot-with'' = 0 then reset EfiResetPlatformSpecific
              else Some ((EFI_INVALID_PARAMETER, None), g))
           })
      })"

text \<open>Booting an entry: the handlers of the entry types are the parameter \<open>funcs\<close>.\<close>

definition embloader_loader_boot ::
  "(embloader_loader_type \<Rightarrow> entry \<Rightarrow> embloader \<Rightarrow> (efi_status \<times> embloader) option) \<Rightarrow>
   entry option \<Rightarrow> embloader \<Rightarrow> (efi_status \<times> embloader) option" where
  "embloader_loader_boot funcs loader g =
     (case loader of
        None \<Rightarrow> Some (EFI_INVALID_PARAMETER, g)
      | Some e \<Rightarrow>
          if ll_name (snd e) = None then Some (EFI_INVALID_PARAMETER, g)
          else do {
            g \<leftarrow> (if ll_node (snd e) = None then Some g
                  else do {
                    ((ktype, _), g) \<leftarrow> on_cs (confignode_path_get_string (ll_node (snd e)) (Some ''ktype'') None) g;
                    Some (if ktype = None then g else g\<lparr>g_ktype := ktype\<rparr>)
                  });
            (if ll_type (snd e) \<in> snd ` set embloader_loader_funcs then funcs (ll_type (snd e)) e g
             else Some (EFI_UNSUPPORTED, g))
          })"

end
