(* ===== verification/Menu.thy ===== *)
theory Menu
  imports Loader
begin

text \<open>
  \<open>src/menu/menu.c\<close>: which entries of the configuration become menu entries, the order of the menu,
  the choice of the entry to boot and what happens when booting fails. The menu front ends, the
  handlers that boot an entry, the keyboard and the callbacks are the fields of \<open>menu_env\<close>: they act
  on a state \<open>'w\<close> of their own and, where the C code lets them, on the loader's state.
\<close>

section \<open>Entries\<close>

definition embloader_menu_is_complete :: "embloader \<Rightarrow> bool" where
  "embloader_menu_is_complete g =
     (case g_menu g of None \<Rightarrow> False | Some m \<Rightarrow> \<exists>e \<in> set (mn_loaders m). ll_complete (snd e))"

definition loader_filter_profiles :: "ptr \<Rightarrow> cstring \<Rightarrow> bool \<Rightarrow> embloader \<Rightarrow> (bool \<times> embloader) option" where
  "loader_filter_profiles node path dir g =
     path_foreach_g (\<lambda>it g. do {
       isv \<leftarrow> confignode_is_type (it_node it) TYPE_VALUE (g_cs g);
       (if \<not> isv then Some (True, g)
        else do {
          (prof, ok) \<leftarrow> confignode_value_get_string (it_node it) None (g_cs g);
          Some (case prof of
                  None \<Rightarrow> (False, g)
                | Some p \<Rightarrow> (ok \<and> (p \<in> set (g_profiles g)) = dir, g))
        })
     }) node path g"

text \<open>\<open>efi_is_setup_supported\<close> asks the firmware: the parameter \<open>setup\<close>.\<close>

definition loader_is_valid ::
  "(cstring \<Rightarrow> cstring \<Rightarrow> int) \<Rightarrow> bool \<Rightarrow> embloader_loader \<Rightarrow> embloader \<Rightarrow> (bool \<times> embloader) option" where
  "loader_is_valid regexp setup l g =
     (if ll_name l = None \<or> ll_title l = None then Some (False, g)
      else if ll_type l = LOADER_NONE then Some (False, g)
      else if ll_type l = LOADER_SDBOOT \<and> ll_extra l = None then Some (False, g)
      else if ll_type l = LOADER_EFISETUP \<and> \<not> setup then Some (False, g)
      else if ll_node l = None then Some (True, g)
      else do {
        (match, g) \<leftarrow> on_cs (confignode_path_lookup (ll_node l) (Some ''match'') False) g;
        (ok, g) \<leftarrow> (if match = None then Some (True, g) else embloader_try_matches regexp match g);
        (if \<not> ok then Some (False, g)
         else do {
           (ok, g) \<leftarrow> loader_filter_profiles (ll_node l) ''profiles.allowed'' True g;
           (if \<not> ok then Some (False, g)
            else loader_filter_profiles (ll_node l) ''profiles.disallowed'' False g)
         })
      })"

definition same_title :: "cstring \<Rightarrow> entry \<Rightarrow> bool" where
  "same_title title e = (case ll_title (snd e) of None \<Rightarrow> False | Some t \<Rightarrow> strcmp t title = 0)"

definition loader_title_is_repeated :: "embloader_loader option \<Rightarrow> embloader \<Rightarrow> bool" where
  "loader_title_is_repeated loader g =
     (case (loader, g_menu g) of
        (Some l, Some m) \<Rightarrow>
          (case ll_title l of
             None \<Rightarrow> False
           | Some title \<Rightarrow> length (filter (same_title title) (mn_loaders m)) > 1)
      | _ \<Rightarrow> False)"

definition embloader_loader_display_title ::
  "embloader_loader option \<Rightarrow> embloader \<Rightarrow> cstring option \<times> embloader" where
  "embloader_loader_display_title loader g =
     (let title = (case loader of None \<Rightarrow> ''(unnamed)'' | Some l \<Rightarrow>
                     (case ll_title l of None \<Rightarrow> ''(unnamed)'' | Some t \<Rightarrow> t));
          version = (case loader of None \<Rightarrow> None | Some l \<Rightarrow> ll_version l)
      in if \<not> loader_title_is_repeated loader g \<or> version = None \<or> version = Some []
         then gstrdup (Some title) g
         else gstrdup (Some (title @ '' ('' @ the version @ '')'')) g)"

text \<open>The flag of a read is not used; the error exit of \<open>embloader_load_loader\<close> drops the entry.\<close>

definition gget_string :: "ptr \<Rightarrow> cstring \<Rightarrow> cstring option \<Rightarrow> embloader \<Rightarrow> (cstring option \<times> embloader) option" where
  "gget_string node path def g = do {
     ((r, _), g) \<leftarrow> on_cs (confignode_path_get_string node (Some path) def) g; Some (r, g) }"

definition gget_int :: "ptr \<Rightarrow> cstring \<Rightarrow> int \<Rightarrow> embloader \<Rightarrow> (int \<times> embloader) option" where
  "gget_int node path def g = do {
     ((r, _), g) \<leftarrow> on_cs (confignode_path_get_int node (Some path) def) g; Some (r, g) }"

definition gget_bool :: "ptr \<Rightarrow> cstring \<Rightarrow> bool \<Rightarrow> embloader \<Rightarrow> (bool \<times> embloader) option" where
  "gget_bool node path def g = do {
     ((r, _), g) \<leftarrow> on_cs (confignode_path_get_bool node (Some path) def) g; Some (r, g) }"

definition add_entry :: "embloader_loader \<Rightarrow> embloader \<Rightarrow> bool \<times> embloader" where
  "add_entry l g =
     (let (ok, g) = galloc g
      in case g_menu g of
           Some m \<Rightarrow>
             if ok then (True, g\<lparr>g_menu := Some (m\<lparr>mn_loaders := mn_loaders m @ [(g_next g, l)]\<rparr>),
                               g_next := Suc (g_next g)\<rparr>)
             else (False, g)
         | None \<Rightarrow> (False, g))"

text \<open>The boot arguments of an entry and whether it may be edited; \<open>None\<close> is the error exit.\<close>

definition entry_bootargs :: "embloader_loader \<Rightarrow> embloader \<Rightarrow> (embloader_loader option \<times> embloader) option" where
  "entry_bootargs l g =
     (if ll_type l \<notin> {LOADER_EFI, LOADER_LINUX_EFI, LOADER_LINUX} then Some (Some l, g)
      else let path = (if ll_type l = LOADER_EFI then ''cmdline'' else ''bootargs'') in do {
        (ed, g) \<leftarrow> gget_bool (ll_node l) ''editor'' (ll_type l \<noteq> LOADER_EFI) g;
        (let l = l\<lparr>ll_editor := ed\<rparr> in do {
          (found, g) \<leftarrow> on_cs (confignode_path_lookup (ll_node l) (Some path) False) g;
          (if found = None then Some (Some l, g)
           else do {
             ((args, ok), g) \<leftarrow> on_cs (confignode_path_get_string_or_list (ll_node l) (Some path) '' '') g;
             Some (if ok then Some (l\<lparr>ll_bootargs := args\<rparr>) else None, g)
           })
        })
      })"

definition embloader_load_loader ::
  "(cstring \<Rightarrow> cstring \<Rightarrow> int) \<Rightarrow> bool \<Rightarrow> ptr \<Rightarrow> embloader \<Rightarrow> embloader option" where
  "embloader_load_loader regexp setup node g = do {
     ismap \<leftarrow> confignode_is_type node TYPE_MAP (g_cs g);
     key \<leftarrow> confignode_get_key node (g_cs g);
     (if node = None \<or> \<not> ismap \<or> key = None then Some g
      else let (ok, g) = galloc g in
      if \<not> ok then Some g
      else let (name, g) = gstrdup key g in do {
        (title, g) \<leftarrow> gget_string node ''title'' None g;
        (version, g) \<leftarrow> gget_string node ''version'' None g;
        (type_str, g) \<leftarrow> gget_string node ''type'' None g;
        (complete, g) \<leftarrow> gget_bool node ''complete'' True g;
        m \<leftarrow> g_menu g;
        (priority, g) \<leftarrow> gget_int node ''priority'' (int (length (mn_loaders m)) + 1) g;
        (let l = zero_loader\<lparr>ll_name := name, ll_title := title, ll_version := version,
                   ll_type := embloader_menu_get_loader_type type_str, ll_complete := complete,
                   ll_priority := priority, ll_node := node\<rparr>
         in do {
           (valid, g) \<leftarrow> loader_is_valid regexp setup l g;
           (if \<not> valid then Some g
            else do {
              (l, g) \<leftarrow> entry_bootargs l g;
              Some (case l of None \<Rightarrow> g | Some l \<Rightarrow> snd (add_entry l g))
            })
         })
      })
   }"

text \<open>\<open>list_sort\<close> with \<open>loaders_sorter\<close>: the stable sort by priority (\<open>list_sort_stable\<close>).\<close>

definition embloader_sort_menu_loaders :: "embloader \<Rightarrow> embloader" where
  "embloader_sort_menu_loaders g =
     (case g_menu g of
        None \<Rightarrow> g
      | Some m \<Rightarrow> g\<lparr>g_menu := Some (m\<lparr>mn_loaders := sort_key (\<lambda>e. ll_priority (snd e)) (mn_loaders m)\<rparr>)\<rparr>)"

definition load_loaders ::
  "(cstring \<Rightarrow> cstring \<Rightarrow> int) \<Rightarrow> bool \<Rightarrow> cstring \<Rightarrow> embloader \<Rightarrow> embloader option" where
  "load_loaders regexp setup path g = do {
     (_, g) \<leftarrow> path_foreach_g (\<lambda>it g. do {
         g \<leftarrow> embloader_load_loader regexp setup (it_node it) g; Some (True, g) }) (g_config g) path g;
     Some g
   }"

definition embloader_load_menu ::
  "(cstring \<Rightarrow> cstring \<Rightarrow> int) \<Rightarrow> bool \<Rightarrow> embloader \<Rightarrow> embloader option" where
  "embloader_load_menu regexp setup g =
     (let cfg = g_config g;
          (ok, g) = (case g_menu g of
              Some m \<Rightarrow> (True, g)
            | None \<Rightarrow> let (ok, g) = galloc g in (ok, if ok then g\<lparr>g_menu := Some zero_menu\<rparr> else g))
      in if \<not> ok then Some g
         else do {
           (timeout, g) \<leftarrow> gget_int cfg ''menu.timeout'' 10 g;
           (save, g) \<leftarrow> gget_bool cfg ''menu.save-default'' False g;
           (def, g) \<leftarrow> gget_string cfg ''menu.default'' None g;
           (title, g) \<leftarrow> gget_string cfg ''menu.title'' (Some []) g;
           m \<leftarrow> g_menu g;
           g \<leftarrow> load_loaders regexp setup ''loaders''
                 (g\<lparr>g_menu := Some (m\<lparr>
                    mn_timeout := (if timeout < INT_MIN \<or> timeout > INT_MAX then 10 else timeout),
                    mn_disabled := False, mn_save_default := save, mn_default_entry := def,
                    mn_title := title\<rparr>)\<rparr>);
           Some (embloader_sort_menu_loaders g)
         })"

section \<open>Environment\<close>

datatype menu_front = FRONT_TEXT | FRONT_TUI | FRONT_HII | FRONT_GUI

text \<open>\<open>flags\<close> is the pair of the flags \<open>EMBLOADER_FLAG_AUTOBOOT\<close> and the others.\<close>

record menu_flags =
  fl_autoboot :: bool
  fl_userselect :: bool
  fl_edited :: bool

definition no_flags :: menu_flags where
  "no_flags = \<lparr>fl_autoboot = False, fl_userselect = False, fl_edited = False\<rparr>"

record 'w menu_env =
  env_front :: "menu_front \<Rightarrow> embloader \<times> 'w \<Rightarrow> (efi_status \<times> entry option \<times> menu_flags) \<times> embloader \<times> 'w"
  env_boot :: "entry \<Rightarrow> embloader \<times> 'w \<Rightarrow> (efi_status \<times> embloader \<times> 'w) option"
  env_selected :: "entry \<Rightarrow> 'w \<Rightarrow> 'w"
  env_before :: "'w \<Rightarrow> 'w"
  env_read_key :: "'w \<Rightarrow> efi_status \<times> 'w"
  env_stall :: "'w \<Rightarrow> 'w"
  env_wait_key :: "'w \<Rightarrow> 'w"
  env_prepare :: "embloader \<times> 'w \<Rightarrow> efi_status \<times> embloader \<times> 'w"

section \<open>Choosing and booting\<close>

text \<open>The front ends in the order they are tried; the first that is supported decides.\<close>

fun try_fronts ::
  "'w menu_env \<Rightarrow> menu_front list \<Rightarrow> embloader \<times> 'w \<Rightarrow>
   (efi_status \<times> entry option \<times> menu_flags) \<times> embloader \<times> 'w" where
  "try_fronts env [] x = ((EFI_UNSUPPORTED, None, no_flags), x)"
| "try_fronts env (f # fs) x =
     (let ((status, sel, flags), x) = env_front env f x
      in if status \<noteq> EFI_UNSUPPORTED then ((status, sel, flags), x) else try_fronts env fs x)"

definition embloader_menu_start ::
  "'w menu_env \<Rightarrow> embloader \<times> 'w \<Rightarrow> ((efi_status \<times> entry option \<times> menu_flags) \<times> embloader \<times> 'w) option" where
  "embloader_menu_start env x = do {
     (menu, g) \<leftarrow> gget_string (g_config (fst x)) ''menu.type'' None (fst x);
     (let x = (g, snd x)
      in Some (case menu of
           None \<Rightarrow> try_fronts env [FRONT_GUI, FRONT_HII, FRONT_TUI, FRONT_TEXT] x
         | Some t \<Rightarrow>
             if strcasecmp t ''text'' = 0 then env_front env FRONT_TEXT x
             else if strcasecmp t ''tui'' = 0 then env_front env FRONT_TUI x
             else if strcasecmp t ''hii'' = 0 then env_front env FRONT_HII x
             else if strcasecmp t ''gui'' = 0 then env_front env FRONT_GUI x
             else ((EFI_UNSUPPORTED, None, no_flags), x)))
   }"

text \<open>The first complete entry after the given one.\<close>

fun next_complete :: "addr \<Rightarrow> bool \<Rightarrow> entry list \<Rightarrow> entry option" where
  "next_complete current found [] = None"
| "next_complete current found (e # es) =
     (if found \<and> ll_complete (snd e) then Some e
      else next_complete current (found \<or> fst e = current) es)"

definition embloader_get_next_loader :: "entry \<Rightarrow> embloader \<Rightarrow> (entry option \<times> embloader) option" where
  "embloader_get_next_loader current g =
     (case g_menu g of
        None \<Rightarrow> Some (None, g)
      | Some m \<Rightarrow>
          let (rescue, g) =
            (case ll_name (snd current) of
               None \<Rightarrow> (None, g)
             | Some n \<Rightarrow>
                 if endwiths (Some n) (Some ''-rescue'') then (None, g)
                 else let (nname, g) = gstrdup (Some (n @ ''-rescue'')) g
                      in (embloader_find_loader nname g, g))
          in if rescue \<noteq> None then Some (rescue, g)
             else do {
               (try_next, g) \<leftarrow> gget_bool (g_config g) ''menu.try-next-on-failure'' False g;
               Some (if try_next then next_complete (fst current) False (mn_loaders m) else None, g)
             })"

partial_function (option) embloader_try_boot ::
  "'w menu_env \<Rightarrow> entry \<Rightarrow> menu_flags \<Rightarrow> embloader \<times> 'w \<Rightarrow> (efi_status \<times> embloader \<times> 'w) option" where
  "embloader_try_boot env loader flags x = do {
     (status, g, w) \<leftarrow> env_boot env loader (fst x, env_selected env loader (snd x));
     (if EFI_ERROR status \<and> fl_autoboot flags then do {
        (nxt, g) \<leftarrow> embloader_get_next_loader loader g;
        (case nxt of
           None \<Rightarrow> Some (status, g, w)
         | Some l \<Rightarrow> embloader_try_boot env l flags (g, w))
      }
      else Some (status, g, w))
   }"

definition embloader_get_default_loader :: "embloader \<Rightarrow> entry option" where
  "embloader_get_default_loader g =
     (case g_menu g of
        None \<Rightarrow> None
      | Some m \<Rightarrow>
          (case embloader_find_loader (mn_default_entry m) g of
             Some l \<Rightarrow> Some l
           | None \<Rightarrow> (case mn_loaders m of [] \<Rightarrow> None | e # _ \<Rightarrow> Some e)))"

text \<open>A key pressed (or a broken keyboard) during the ten polls asks for the hidden menu.\<close>

fun poll_keys :: "'w menu_env \<Rightarrow> nat \<Rightarrow> 'w \<Rightarrow> bool \<times> 'w" where
  "poll_keys env 0 w = (False, w)"
| "poll_keys env (Suc n) w =
     (let (status, w) = env_read_key env w
      in if \<not> EFI_ERROR status then (True, w)
         else if status \<noteq> EFI_NOT_READY then (True, w)
         else poll_keys env n (env_stall env w))"

definition embloader_hidden_menu_requested :: "'w menu_env \<Rightarrow> 'w \<Rightarrow> bool \<times> 'w" where
  "embloader_hidden_menu_requested env w = poll_keys env 10 w"

definition set_menu_timeout :: "int \<Rightarrow> embloader \<Rightarrow> embloader" where
  "set_menu_timeout t g = g\<lparr>g_menu := map_option (\<lambda>m. m\<lparr>mn_timeout := t\<rparr>) (g_menu g)\<rparr>"

definition set_menu_disabled :: "bool \<Rightarrow> embloader \<Rightarrow> embloader" where
  "set_menu_disabled b g = g\<lparr>g_menu := map_option (\<lambda>m. m\<lparr>mn_disabled := b\<rparr>) (g_menu g)\<rparr>"

text \<open>
  One turn of the loop of \<open>embloader_show_menu\<close>: \<open>Inl\<close> is the status it returns, \<open>Inr\<close> the entry to
  boot, if there is one.
\<close>

definition menu_turn ::
  "'w menu_env \<Rightarrow> embloader \<times> 'w \<Rightarrow> ((efi_status + (entry \<times> menu_flags) option) \<times> embloader \<times> 'w) option" where
  "menu_turn env x =
     (let (g, w) = x in do {
        m \<leftarrow> g_menu g;
        (let (hidden, w) =
           (if mn_timeout m = 0 then
              (if mn_disabled m then (True, w)
               else let (req, w) = embloader_hidden_menu_requested env w in (\<not> req, w))
            else (False, w))
         in if hidden then
              Some (case embloader_get_default_loader g of
                      None \<Rightarrow> (Inl EFI_NOT_FOUND, g, w)
                    | Some l \<Rightarrow> (Inr (Some (l, no_flags\<lparr>fl_autoboot := True\<rparr>)), g, w))
            else
              let g = (if mn_timeout m = 0 then set_menu_timeout (- 1) g else g);
                  w = env_before env w
              in do {
                ((status, sel, flags), g, w) \<leftarrow> embloader_menu_start env (g, w);
                Some (if EFI_ERROR status then (Inl status, g, w)
                      else case sel of
                        None \<Rightarrow> (Inr None, g, w)
                      | Some l \<Rightarrow> (Inr (Some (l, flags)), g, w))
              })
      })"

partial_function (option) embloader_show_menu ::
  "'w menu_env \<Rightarrow> embloader \<times> 'w \<Rightarrow> (efi_status \<times> embloader \<times> 'w) option" where
  "embloader_show_menu env x = do {
     (ktype, s) \<leftarrow> embloader_load_ktype (g_config (fst x)) (g_profiles (fst x)) (g_cs (fst x));
     (let g = (fst x)\<lparr>g_cs := s, g_ktype := ktype\<rparr>; w = snd x
      in if embloader_menu_is_complete g then do {
           (r, g, w) \<leftarrow> menu_turn env (g, w);
           (case r of
              Inl status \<Rightarrow> Some (status, g, w)
            | Inr None \<Rightarrow> embloader_show_menu env (g, w)
            | Inr (Some (l, flags)) \<Rightarrow> do {
                (_, g, w) \<leftarrow> embloader_try_boot env l flags (g, w);
                embloader_show_menu env
                  (set_menu_disabled False (set_menu_timeout (- 1) g), env_wait_key env w)
              })
         }
         else let (status, g, w) = env_prepare env (g, w)
              in Some (if EFI_ERROR status then status else EFI_NOT_STARTED, g, w))
   }"

end
