(* ===== verification/LinuxInfo.thy ===== *)
theory LinuxInfo
  imports Menu
begin

text \<open>
  \<open>src/linux/bootinfo.c\<close> and \<open>bootargs.c\<close>: what an entry of the menu says about the kernel to boot, and the
  kernel's command line.
\<close>

section \<open>Loops over nodes\<close>

text \<open>
  \<open>confignode_foreach\<close> with a body that changes a state of its own and may leave the loop: the body
  returns whether to go on.
\<close>

partial_function (option) each_loop ::
  "(citer \<Rightarrow> 'a \<times> embloader \<Rightarrow> (bool \<times> 'a \<times> embloader) option) \<Rightarrow> citer \<Rightarrow> 'a \<times> embloader \<Rightarrow> ('a \<times> embloader) option" where
  "each_loop body it x =
     (if it_node it = None then Some x
      else do {
        (go, x) \<leftarrow> body it x;
        (if \<not> go then Some x
         else do {
           (_, it) \<leftarrow> confignode_iter_next it (g_cs (snd x));
           each_loop body it x
         })
      })"

definition each_node ::
  "(citer \<Rightarrow> 'a \<times> embloader \<Rightarrow> (bool \<times> 'a \<times> embloader) option) \<Rightarrow> ptr \<Rightarrow> 'a \<times> embloader \<Rightarrow> ('a \<times> embloader) option" where
  "each_node body node x = do {
     it \<leftarrow> confignode_iter_start_ret node (g_cs (snd x));
     each_loop body it x
   }"

definition each_path_node ::
  "(citer \<Rightarrow> 'a \<times> embloader \<Rightarrow> (bool \<times> 'a \<times> embloader) option) \<Rightarrow> ptr \<Rightarrow> cstring \<Rightarrow> 'a \<times> embloader \<Rightarrow> ('a \<times> embloader) option" where
  "each_path_node body node path x = do {
     (_, it, s) \<leftarrow> confignode_path_iter_start node (Some path) (g_cs (snd x));
     each_loop body it (fst x, (snd x)\<lparr>g_cs := s\<rparr>)
   }"

definition glookup :: "ptr \<Rightarrow> cstring \<Rightarrow> embloader \<Rightarrow> (ptr \<times> embloader) option" where
  "glookup node path = on_cs (confignode_path_lookup node (Some path) False)"

section \<open>bootargs.c\<close>

text \<open>\<open>list_duplicate_chars\<close>: a cell and a string for each element; \<open>[]\<close> is \<open>NULL\<close>.\<close>

fun dup_chars :: "cstring list \<Rightarrow> embloader \<Rightarrow> cstring list option \<times> embloader" where
  "dup_chars [] g = (Some [], g)"
| "dup_chars (x # xs) g =
     (let (str, g) = gstrdup (Some x) g
      in if str = None then (None, g)
         else let (cell, g) = galloc g
              in if \<not> cell then (None, g)
                 else let (rest, g) = dup_chars xs g in (map_option (\<lambda>r. x # r) rest, g))"

text \<open>The list with the values of a node behind it, and whether the values could be read.\<close>

definition append_config_bootargs ::
  "cstring list \<Rightarrow> ptr \<Rightarrow> cstring \<Rightarrow> embloader \<Rightarrow> ((bool \<times> cstring list) \<times> embloader) option" where
  "append_config_bootargs bootargs node path g = do {
     (configured, g) \<leftarrow> glookup node path g;
     (if configured = None then Some ((True, bootargs), g)
      else do {
        (vals, ok) \<leftarrow> confignode_value_get_string_or_list_to_list configured (g_cs g);
        Some (if ok then (True, bootargs @ vals) else (False, bootargs), g)
      })
   }"

fun profile_bootargs ::
  "ptr \<Rightarrow> cstring list \<Rightarrow> cstring list \<Rightarrow> embloader \<Rightarrow> ((bool \<times> cstring list) \<times> embloader) option" where
  "profile_bootargs np [] bootargs g = Some ((True, bootargs), g)"
| "profile_bootargs np (profile # ps) bootargs g = do {
     cp \<leftarrow> confignode_map_get np (Some profile) (g_cs g);
     (if cp = None then profile_bootargs np ps bootargs g
      else do {
        ((ok, bootargs), g) \<leftarrow> append_config_bootargs bootargs cp ''bootargs'' g;
        (if ok then profile_bootargs np ps bootargs g else Some ((False, bootargs), g))
      })
   }"

text \<open>The text of the collected arguments.\<close>

definition join_bootargs :: "cstring list \<Rightarrow> embloader \<Rightarrow> cstring option \<times> embloader" where
  "join_bootargs bootargs g =
     (if bootargs = [] then gstrdup (Some []) g
      else let (result, g) = gstrdup (strings_to_string '' '' bootargs) g
           in if result = None \<and> (\<forall>v \<in> set bootargs. v = []) then gstrdup (Some []) g else (result, g))"

definition linux_prepare_bootargs :: "cstring list \<Rightarrow> embloader \<Rightarrow> (cstring option \<times> embloader) option" where
  "linux_prepare_bootargs def_bootargs g = do {
     np \<leftarrow> confignode_map_get (g_config g) (Some ''profiles'') (g_cs g);
     ((ok, bootargs), g) \<leftarrow>
       (if np = None then Some ((True, []), g) else profile_bootargs np (rev (g_profiles g)) [] g);
     (if \<not> ok then Some (None, g)
      else do {
        ((ok, bootargs), g) \<leftarrow> append_config_bootargs bootargs (g_config g) ''menu.bootargs'' g;
        (if \<not> ok then Some (None, g)
         else let (dup, g) = dup_chars def_bootargs g
              in Some (case dup of
                         None \<Rightarrow> (None, g)
                       | Some n \<Rightarrow> join_bootargs (bootargs @ n) g))
      })
   }"

definition linux_prepare_bootargs_string :: "cstring option \<Rightarrow> embloader \<Rightarrow> (cstring option \<times> embloader) option" where
  "linux_prepare_bootargs_string def_bootargs g =
     (case def_bootargs of
        None \<Rightarrow> linux_prepare_bootargs [] g
      | Some d \<Rightarrow>
          let (dup, g) = dup_chars [d] g
          in case dup of None \<Rightarrow> Some (None, g) | Some l \<Rightarrow> linux_prepare_bootargs l g)"

section \<open>bootinfo.c\<close>

record linux_overlay =
  lo_path :: cstring
  lo_params :: ptr

text \<open>\<open>li_root\<close> is the volume the paths are on; \<open>'r\<close> is what the firmware knows about it.\<close>

record 'r linux_bootinfo =
  li_root :: "'r option"
  li_kernel :: "cstring option"
  li_initramfs :: "cstring list"
  li_bootargs :: "cstring list"
  li_bootargs_override :: "cstring option"
  li_devicetree :: "cstring option"
  li_dtoverlay :: "linux_overlay list"
  li_loader :: embloader_loader

definition zero_bootinfo :: "embloader_loader \<Rightarrow> 'r linux_bootinfo" where
  "zero_bootinfo loader = \<lparr>li_root = None, li_kernel = None, li_initramfs = [], li_bootargs = [],
     li_bootargs_override = None, li_devicetree = None, li_dtoverlay = [], li_loader = loader\<rparr>"

definition linux_bootinfo_prepare_bootargs :: "'r linux_bootinfo option \<Rightarrow> embloader \<Rightarrow> (cstring option \<times> embloader) option" where
  "linux_bootinfo_prepare_bootargs info =
     linux_prepare_bootargs (case info of None \<Rightarrow> [] | Some i \<Rightarrow> li_bootargs i)"

text \<open>The string under a path: \<open>None\<close> is the failure, \<open>Some None\<close> an absent value.\<close>

definition copy_optional_string :: "ptr \<Rightarrow> cstring \<Rightarrow> embloader \<Rightarrow> (cstring option option \<times> embloader) option" where
  "copy_optional_string node path g = do {
     (val, g) \<leftarrow> glookup node path g;
     (if val = None then Some (Some None, g)
      else do {
        (copy, ok) \<leftarrow> confignode_value_get_string val None (g_cs g);
        Some (if \<not> ok \<or> copy = None then None else Some copy, g)
      })
   }"

definition append_config_string ::
  "cstring list \<Rightarrow> ptr \<Rightarrow> embloader \<Rightarrow> (cstring list option \<times> embloader) option" where
  "append_config_string items node g = do {
     (val, ok) \<leftarrow> confignode_value_get_string node None (g_cs g);
     (case val of
        Some v \<Rightarrow> if \<not> ok then Some (None, g)
                  else let (cell, g) = galloc g in Some (if cell then Some (items @ [v]) else None, g)
      | None \<Rightarrow> Some (None, g))
   }"

text \<open>The strings of a value, an array or a map; \<open>None\<close> is the failure.\<close>

definition copy_config_string_list :: "ptr \<Rightarrow> embloader \<Rightarrow> (cstring list option \<times> embloader) option" where
  "copy_config_string_list node g = do {
     isv \<leftarrow> confignode_is_type node TYPE_VALUE (g_cs g);
     isa \<leftarrow> confignode_is_type node TYPE_ARRAY (g_cs g);
     ism \<leftarrow> confignode_is_type node TYPE_MAP (g_cs g);
     (if isv then append_config_string [] node g
      else if isa \<or> ism then
        each_node (\<lambda>it (items, g). do {
          isv \<leftarrow> confignode_is_type (it_node it) TYPE_VALUE (g_cs g);
          (if \<not> isv then Some (True, items, g)
           else do {
             (items, g) \<leftarrow> append_config_string (the items) (it_node it) g;
             Some (items \<noteq> None, items, g)
           })
        }) node (Some [], g)
      else Some (None, g))
   }"

definition copy_optional_string_list :: "ptr \<Rightarrow> cstring \<Rightarrow> embloader \<Rightarrow> (cstring list option \<times> embloader) option" where
  "copy_optional_string_list node path g = do {
     (val, g) \<leftarrow> glookup node path g;
     (if val = None then Some (Some [], g) else copy_config_string_list val g)
   }"

text \<open>One overlay: \<open>None\<close> is the failure, \<open>Some None\<close> a node that is not an overlay.\<close>

definition parse_overlay :: "ptr \<Rightarrow> embloader \<Rightarrow> (linux_overlay option option \<times> embloader) option" where
  "parse_overlay node g = do {
     isv \<leftarrow> confignode_is_type node TYPE_VALUE (g_cs g);
     ism \<leftarrow> confignode_is_type node TYPE_MAP (g_cs g);
     (if isv then do {
        (val, ok) \<leftarrow> confignode_value_get_string node None (g_cs g);
        Some (case val of
                Some v \<Rightarrow> if ok then Some (Some \<lparr>lo_path = v, lo_params = None\<rparr>) else None
              | None \<Rightarrow> None, g)
      }
      else if ism then do {
        (params, g) \<leftarrow> glookup node ''params'' g;
        (path, g) \<leftarrow> glookup node ''path'' g;
        name \<leftarrow> confignode_get_key node (g_cs g);
        (opath, g) \<leftarrow>
          (if path \<noteq> None then do {
             (val, ok) \<leftarrow> confignode_value_get_string path None (g_cs g);
             Some (if ok then val else None, g)
           }
           else Some (gstrdup name g));
        (case opath of
           None \<Rightarrow> Some (None, g)
         | Some p \<Rightarrow>
             (case params of
                None \<Rightarrow> Some (Some (Some \<lparr>lo_path = p, lo_params = None\<rparr>), g)
              | Some n \<Rightarrow> do {
                  (copy, g) \<leftarrow> on_cs (confignode_copy n) g;
                  Some (if copy = None then None else Some (Some \<lparr>lo_path = p, lo_params = copy\<rparr>), g)
                }))
      }
      else Some (Some None, g))
   }"

text \<open>Freeing an overlay that did not make it into the list.\<close>

definition dtoverlay_clean :: "linux_overlay \<Rightarrow> embloader \<Rightarrow> embloader option" where
  "dtoverlay_clean ovl g =
     (case lo_params ovl of
        None \<Rightarrow> Some g
      | Some n \<Rightarrow> do { s \<leftarrow> confignode_clean n (g_cs g); Some (g\<lparr>g_cs := s\<rparr>) })"

fun clean_overlays :: "linux_overlay list \<Rightarrow> embloader \<Rightarrow> embloader option" where
  "clean_overlays [] g = Some g"
| "clean_overlays (o1 # os) g = do { g \<leftarrow> dtoverlay_clean o1 g; clean_overlays os g }"

definition linux_bootinfo_clean :: "'r linux_bootinfo \<Rightarrow> embloader \<Rightarrow> embloader option" where
  "linux_bootinfo_clean info g = clean_overlays (li_dtoverlay info) g"

text \<open>The loop body over \<open>overlays\<close>: the overlays so far and whether all went well.\<close>

definition overlay_step ::
  "citer \<Rightarrow> (bool \<times> linux_overlay list) \<times> embloader \<Rightarrow> (bool \<times> (bool \<times> linux_overlay list) \<times> embloader) option" where
  "overlay_step it x =
     (let ((_, ovls), g) = x in do {
        (r, g) \<leftarrow> parse_overlay (it_node it) g;
        (case r of
           None \<Rightarrow> Some (False, (False, ovls), g)
         | Some None \<Rightarrow> Some (True, (True, ovls), g)
         | Some (Some ovl) \<Rightarrow>
             let (copy, g) = galloc g; (cell, g) = (if copy then galloc g else (False, g))
             in if cell then Some (True, (True, ovls @ [ovl]), g)
                else do { g \<leftarrow> dtoverlay_clean ovl g; Some (False, (False, ovls), g) })
      })"

definition bootinfo_fail :: "'r linux_bootinfo \<Rightarrow> embloader \<Rightarrow> ('r linux_bootinfo option \<times> embloader) option" where
  "bootinfo_fail info g = do { g \<leftarrow> linux_bootinfo_clean info g; Some (None, g) }"

definition linux_bootinfo_parse ::
  "embloader_loader option \<Rightarrow> embloader \<Rightarrow> ('r linux_bootinfo option \<times> embloader) option" where
  "linux_bootinfo_parse loader g =
     (case loader of
        None \<Rightarrow> Some (None, g)
      | Some l \<Rightarrow>
          let node = ll_node l; (ok, g) = galloc g; info = zero_bootinfo l
          in if \<not> ok then Some (None, g)
             else do {
               (kernel, g) \<leftarrow> copy_optional_string node ''kernel'' g;
               (case kernel of
                  None \<Rightarrow> bootinfo_fail info g
                | Some k \<Rightarrow> do {
                    (initramfs, g) \<leftarrow> copy_optional_string_list node ''initramfs'' g;
                    (case initramfs of
                       None \<Rightarrow> bootinfo_fail info g
                     | Some is \<Rightarrow> do {
                         (bootargs, g) \<leftarrow> copy_optional_string_list node ''bootargs'' g;
                         (case bootargs of
                            None \<Rightarrow> bootinfo_fail info g
                          | Some as \<Rightarrow> do {
                              ((ok, ovls), g) \<leftarrow> each_path_node overlay_step node ''overlays'' ((True, []), g);
                              (let info = info\<lparr>li_kernel := k, li_initramfs := is, li_bootargs := as, li_dtoverlay := ovls\<rparr> in
                               if \<not> ok then bootinfo_fail info g
                               else do {
                                 (devicetree, g) \<leftarrow> copy_optional_string node ''devicetree'' g;
                                 (case devicetree of
                                    None \<Rightarrow> bootinfo_fail info g
                                  | Some dt \<Rightarrow> Some (Some (info\<lparr>li_devicetree := dt\<rparr>), g))
                               })
                            })
                       })
                  })
             })"

text \<open>The command line of the boot: the one that was edited, or the collected arguments.\<close>

definition linux_load_bootargs :: "'r linux_bootinfo \<Rightarrow> embloader \<Rightarrow> ((efi_status \<times> cstring option) \<times> embloader) option" where
  "linux_load_bootargs info g = do {
     (bootargs, g) \<leftarrow> (case li_bootargs_override info of
                       Some a \<Rightarrow> Some (gstrdup (Some a) g)
                     | None \<Rightarrow> linux_bootinfo_prepare_bootargs (Some info) g);
     Some ((if bootargs = None then EFI_OUT_OF_RESOURCES else EFI_SUCCESS, bootargs), g)
   }"

end
