(* ===== verification/Resolve.thy ===== *)
theory Resolve
  imports Loader
begin

text \<open>
  \<open>src/main/resolve.c\<close>: a path with variables in braces is expanded to the list of the paths with the
  values of the variables. The values of \<open>dtb-id\<close> come from the device tree and are a parameter.
\<close>

section \<open>Replacing one variable\<close>

definition variable_pattern :: "cstring \<Rightarrow> embloader \<Rightarrow> cstring option \<times> embloader" where
  "variable_pattern name g =
     (if length name > SIZE_MAX - 3 then (None, g)
      else let (ok, g) = galloc g in (if ok then Some (CHR ''{'' # name @ ''}'') else None, g))"

text \<open>The occurrences of a pattern, from left to right without overlap, and their replacement.\<close>

lemma strstr_length: "strstr s p = Some r \<Longrightarrow> length p \<le> length r \<and> length r \<le> length s"
  using strstr_Some [of s p r] by auto

lemma strstr_rest: "strstr s p = Some r \<Longrightarrow> p \<noteq> [] \<Longrightarrow> length r - length p < length s"
  using strstr_length [of s p r] by (cases p) auto

function replace_count :: "cstring \<Rightarrow> cstring \<Rightarrow> nat" where
  "replace_count pat scan =
     (case strstr scan pat of
        None \<Rightarrow> 0
      | Some pos \<Rightarrow> if pat = [] then 0 else Suc (replace_count pat (drop (length pat) pos)))"
  by pat_completeness auto
termination
  by (relation "measure (\<lambda>(pat, scan). length scan)") (auto dest: strstr_rest)

function replace_all :: "cstring \<Rightarrow> cstring \<Rightarrow> cstring \<Rightarrow> cstring" where
  "replace_all pat val scan =
     (case strstr scan pat of
        None \<Rightarrow> scan
      | Some pos \<Rightarrow>
          if pat = [] then scan
          else take (length scan - length pos) scan @ val @ replace_all pat val (drop (length pat) pos))"
  by pat_completeness auto
termination
  by (relation "measure (\<lambda>(pat, val, scan). length scan)") (auto dest: strstr_rest)

declare replace_count.simps [simp del] replace_all.simps [simp del]

definition replaced_length :: "cstring \<Rightarrow> cstring \<Rightarrow> cstring \<Rightarrow> nat option" where
  "replaced_length pat val str =
     (let count = replace_count pat str; len = length str in
      if length val \<ge> length pat then
        (let growth = length val - length pat
         in if growth \<noteq> 0 \<and> count > (SIZE_MAX - len) div growth then None else Some (len + count * growth))
      else Some (len - count * (length pat - length val)))"

definition replace_variable ::
  "cstring \<Rightarrow> cstring \<Rightarrow> cstring \<Rightarrow> embloader \<Rightarrow> (cstring option \<times> bool) \<times> embloader" where
  "replace_variable str var val g =
     (let (pattern, g) = variable_pattern var g
      in case pattern of
           None \<Rightarrow> ((None, False), g)
         | Some pat \<Rightarrow>
             if strstr str pat = None then let (r, g) = gstrdup (Some str) g in ((r, False), g)
             else case replaced_length pat val str of
               None \<Rightarrow> ((None, False), g)
             | Some result_len \<Rightarrow>
                 if result_len = SIZE_MAX then ((None, False), g)
                 else let (ok, g) = galloc g
                      in if ok then ((Some (replace_all pat val str), True), g) else ((None, False), g))"

section \<open>The values of the variables\<close>

type_synonym getter = "embloader_loader option \<Rightarrow> embloader \<Rightarrow> ((bool \<times> cstring list) \<times> embloader) option"

text \<open>\<open>list_obj_add_new_strdup\<close>: the copy of the string, then the cell.\<close>

definition add_strdup :: "cstring list \<Rightarrow> cstring \<Rightarrow> embloader \<Rightarrow> (bool \<times> cstring list) \<times> embloader" where
  "add_strdup xs str g =
     (let (dup, g) = galloc g
      in if \<not> dup then ((False, xs), g)
         else let (ok, g) = galloc g in ((ok, if ok then xs @ [str] else xs), g))"

definition ktype_getter :: getter where
  "ktype_getter loader g =
     (case g_ktype g of None \<Rightarrow> Some ((True, []), g) | Some k \<Rightarrow> Some (add_strdup [] k g))"

fun profile_loop :: "cstring list \<Rightarrow> cstring list \<Rightarrow> embloader \<Rightarrow> (bool \<times> cstring list) \<times> embloader" where
  "profile_loop [] xs g = ((True, xs), g)"
| "profile_loop (p # ps) xs g =
     (let ((ok, xs), g) = add_strdup xs p g in if ok then profile_loop ps xs g else ((False, []), g))"

definition profile_getter :: getter where
  "profile_getter loader g = Some (profile_loop (g_profiles g) [] g)"

text \<open>The version of a systemd-boot entry, or of the configuration node.\<close>

definition sdboot_version :: "embloader_loader \<Rightarrow> embloader \<Rightarrow> cstring option" where
  "sdboot_version l g =
     (case (ll_extra l, g_sdboot g) of
        (Some a, Some sd) \<Rightarrow>
          if ll_type l = LOADER_SDBOOT then Option.bind (map_of (sd_loaders sd) a) sl_version else None
      | _ \<Rightarrow> None)"

definition version_getter :: getter where
  "version_getter loader g =
     (case loader of
        None \<Rightarrow> Some ((False, []), g)
      | Some l \<Rightarrow>
          (case sdboot_version l g of
             Some v \<Rightarrow> Some (add_strdup [] v g)
           | None \<Rightarrow> do {
               ((v, _), g) \<leftarrow> on_cs (confignode_path_get_string (ll_node l) (Some ''version'') None) g;
               Some (case v of
                       None \<Rightarrow> ((True, []), g)
                     | Some t \<Rightarrow> let (ok, g) = galloc g in ((ok, if ok then [t] else []), g))
             }))"

type_synonym variable = "cstring \<times> getter \<times> bool"

definition variable_getters :: "getter \<Rightarrow> variable list" where
  "variable_getters dtb_id =
     [(''version'', version_getter, True), (''ktype'', ktype_getter, False),
      (''profile'', profile_getter, False), (''dtb-id'', dtb_id, False)]"

section \<open>Expanding a path\<close>

definition path_contains_variable :: "cstring \<Rightarrow> cstring \<Rightarrow> embloader \<Rightarrow> bool \<times> embloader" where
  "path_contains_variable path name g =
     (let (pattern, g) = variable_pattern name g
      in (case pattern of None \<Rightarrow> False | Some p \<Rightarrow> strstr path p \<noteq> None, g))"

fun path_depends_on_loader :: "variable list \<Rightarrow> cstring \<Rightarrow> embloader \<Rightarrow> bool \<times> embloader" where
  "path_depends_on_loader [] path g = (False, g)"
| "path_depends_on_loader ((name, get, dep) # vars) path g =
     (if dep then
        (let (found, g) = path_contains_variable path name g
         in if found then (True, g) else path_depends_on_loader vars path g)
      else path_depends_on_loader vars path g)"

function (sequential)
  resolve_path_recursive ::
    "embloader_loader option \<Rightarrow> variable list \<Rightarrow> cstring list \<Rightarrow> cstring \<Rightarrow> embloader \<Rightarrow>
     ((bool \<times> cstring list) \<times> embloader) option"
  and resolve_values ::
    "embloader_loader option \<Rightarrow> cstring \<Rightarrow> cstring list \<Rightarrow> variable list \<Rightarrow> cstring list \<Rightarrow> cstring \<Rightarrow> embloader \<Rightarrow>
     ((bool \<times> cstring list) \<times> embloader) option" where
  "resolve_path_recursive loader [] result path g = Some (add_strdup result path g)"
| "resolve_path_recursive loader ((name, get, dep) # vars) result path g = do {
     ((ok, vals), g) \<leftarrow> get loader g;
     (if \<not> ok then Some ((False, result), g)
      else if vals = [] then resolve_path_recursive loader vars result path g
      else resolve_values loader name vals vars result path g)
   }"
| "resolve_values loader name [] vars result path g = Some ((True, result), g)"
| "resolve_values loader name (v # vals) vars result path g =
     (let ((new_path, replaced), g) = replace_variable path name v g
      in case new_path of
           None \<Rightarrow> Some ((False, result), g)
         | Some p \<Rightarrow> do {
             ((ok, result), g) \<leftarrow> resolve_path_recursive loader vars result p g;
             (if \<not> ok \<or> \<not> replaced then Some ((ok, result), g)
              else resolve_values loader name vals vars result path g)
           })"
  by pat_completeness auto
termination
  by (relation "measures [\<lambda>x. case x of Inl (l, vars, r, p, g) \<Rightarrow> length vars
        | Inr (l, n, vals, vars, r, p, g) \<Rightarrow> Suc (length vars) - 1,
      \<lambda>x. case x of Inl (l, vars, r, p, g) \<Rightarrow> 0 | Inr (l, n, vals, vars, r, p, g) \<Rightarrow> Suc (length vals)]") auto

definition embloader_resolve_path ::
  "getter \<Rightarrow> embloader_loader option \<Rightarrow> cstring option \<Rightarrow> embloader \<Rightarrow>
   ((cstring list \<times> bool) \<times> embloader) option" where
  "embloader_resolve_path dtb_id loader path g =
     (case path of
        None \<Rightarrow> Some (([], False), g)
      | Some p \<Rightarrow>
          let (dep, g) = path_depends_on_loader (variable_getters dtb_id) p g
          in do {
            ((ok, result), g) \<leftarrow> resolve_path_recursive loader (variable_getters dtb_id) [] p g;
            Some ((if ok then result else [], dep), g)
          })"

end
