(* ===== verification/Encode.thy ===== *)
theory Encode
  imports Efi CNum
begin

text \<open>
  \<open>src/encode\<close>: conversions between UTF-8 and UTF-16, with transfer rules, invalid-sequence
  handling and bounded destinations. Source and destination are byte lists; a UTF-16 unit is two
  bytes, low byte first. The output of a conversion is what the code leaves in \<open>ctx->out\<close> plus the
  bytes written (\<open>eo_buf\<close>, terminator included); \<open>src_end\<close> and \<open>dst_end\<close> are the pointers these
  counts determine. The two buffers are different objects.
\<close>

unbundle bit_operations_syntax

type_synonym bytes = "8 word list"

section \<open>The context\<close>

datatype encoding = ENC_NONE | ENC_UTF8 | ENC_UTF16

record convert_transfer =
  ct_match :: "bytes option"
  ct_match_size :: nat
  ct_replace :: "bytes option"
  ct_replace_size :: nat

record enc_in =
  ei_src :: encoding
  ei_dst :: encoding
  ei_src_ptr :: "bytes option"
  ei_has_dst :: bool
  ei_dst_size :: nat
  ei_transfers :: "convert_transfer list option"
  ei_allow_invalid :: bool

abbreviation ei_bytes :: "enc_in \<Rightarrow> bytes" where
  "ei_bytes c \<equiv> the (ei_src_ptr c)"

record enc_out =
  eo_src_used :: nat
  eo_dst_wrote :: nat
  eo_have_invalid :: bool
  eo_buf :: bytes

definition enc_out_zero :: enc_out where
  "enc_out_zero = \<lparr>eo_src_used = 0, eo_dst_wrote = 0, eo_have_invalid = False, eo_buf = []\<rparr>"

section \<open>Transfer rules\<close>

text \<open>On success: the new source offset and the bytes appended to the destination.\<close>

fun proc_transfers ::
  "enc_in \<Rightarrow> nat \<Rightarrow> nat \<Rightarrow> convert_transfer list \<Rightarrow> efi_status \<times> nat \<times> bytes" where
  "proc_transfers c s d [] = (EFI_NOT_FOUND, s, [])"
| "proc_transfers c s d (tr # trs) =
     (if ct_match tr = None \<or> ct_match_size tr = 0 then (EFI_INVALID_PARAMETER, s, [])
      else if ct_replace_size tr > 0 \<and> ct_replace tr = None then (EFI_INVALID_PARAMETER, s, [])
      else if ei_src c = ENC_UTF16 \<and> ct_match_size tr mod 2 \<noteq> 0 \<or>
              ei_dst c = ENC_UTF16 \<and> ct_replace_size tr mod 2 \<noteq> 0 then (EFI_INVALID_PARAMETER, s, [])
      else if ct_match_size tr > length (ei_bytes c) - s then proc_transfers c s d trs
      else if take (ct_match_size tr) (drop s (ei_bytes c)) \<noteq> take (ct_match_size tr) (the (ct_match tr))
      then proc_transfers c s d trs
      else if ct_replace_size tr > ei_dst_size c - d then (EFI_OUT_OF_RESOURCES, s, [])
      else (EFI_SUCCESS, s + ct_match_size tr,
            if ct_replace_size tr > 0 then take (ct_replace_size tr) (the (ct_replace tr)) else []))"

definition encode_proc_transfer :: "enc_in \<Rightarrow> nat \<Rightarrow> nat \<Rightarrow> efi_status \<times> nat \<times> bytes" where
  "encode_proc_transfer c s d =
     (if ei_src_ptr c = None \<or> \<not> ei_has_dst c \<or> ei_transfers c = None \<or>
         s > length (ei_bytes c) \<or> d > ei_dst_size c
      then (EFI_INVALID_PARAMETER, s, [])
      else proc_transfers c s d (the (ei_transfers c)))"

text \<open>
  The transfer step of a converter: \<open>None\<close> when no rule matches (or there are none), otherwise stop
  with a status or advance. \<open>unit_src\<close> and \<open>unit_dst\<close> are the unit sizes checked after a match.
\<close>

definition transfer_step ::
  "enc_in \<Rightarrow> nat \<Rightarrow> nat \<Rightarrow> nat \<Rightarrow> nat \<Rightarrow> bytes \<Rightarrow> (efi_status + nat \<times> bytes) option" where
  "transfer_step c cap unit_src unit_dst i out =
     (if ei_transfers c = None then None
      else case encode_proc_transfer (c\<lparr>ei_dst_size := cap\<rparr>) i (length out) of
        (st, si, bs) \<Rightarrow>
          if st = EFI_SUCCESS then
            (if si \<le> i \<or> si mod unit_src \<noteq> 0 \<or> length (out @ bs) mod unit_dst \<noteq> 0
             then Some (Inl EFI_INVALID_PARAMETER)
             else Some (Inr (si, out @ bs)))
          else if st = EFI_NOT_FOUND then None
          else Some (Inl st))"

section \<open>Code points\<close>

definition cont_byte :: "8 word \<Rightarrow> bool" where
  "cont_byte b \<longleftrightarrow> b AND 0xC0 = 0x80"

definition u32 :: "8 word \<Rightarrow> 32 word" where
  "u32 b = ucast b"

text \<open>The code point at the head of the remaining bytes and how many bytes it takes.\<close>

definition utf8_decode :: "bytes \<Rightarrow> (32 word \<times> nat) option" where
  "utf8_decode s =
     (let c = s ! 0; rest = length s; s1 = s ! 1; s2 = s ! 2; s3 = s ! 3 in
      if c < 0x80 then Some (u32 c, 1)
      else if c \<ge> 0xC2 \<and> c \<le> 0xDF \<and> rest \<ge> 2 \<and> cont_byte s1
      then Some (push_bit 6 (u32 (c AND 0x1F)) OR u32 (s1 AND 0x3F), 2)
      else if c \<ge> 0xE0 \<and> c \<le> 0xEF \<and> rest \<ge> 3 \<and> cont_byte s1 \<and> cont_byte s2 \<and>
              (c \<noteq> 0xE0 \<or> s1 \<ge> 0xA0) \<and> (c \<noteq> 0xED \<or> s1 \<le> 0x9F)
      then Some (push_bit 12 (u32 (c AND 0x0F)) OR push_bit 6 (u32 (s1 AND 0x3F)) OR u32 (s2 AND 0x3F), 3)
      else if c \<ge> 0xF0 \<and> c \<le> 0xF4 \<and> rest \<ge> 4 \<and> cont_byte s1 \<and> cont_byte s2 \<and> cont_byte s3 \<and>
              (c \<noteq> 0xF0 \<or> s1 \<ge> 0x90) \<and> (c \<noteq> 0xF4 \<or> s1 \<le> 0x8F)
      then Some (push_bit 18 (u32 (c AND 0x07)) OR push_bit 12 (u32 (s1 AND 0x3F)) OR
                 push_bit 6 (u32 (s2 AND 0x3F)) OR u32 (s3 AND 0x3F), 4)
      else None)"

definition utf16_units :: "32 word \<Rightarrow> 16 word list" where
  "utf16_units cp =
     (if cp > 0xFFFF
      then let x = cp - 0x10000
           in [ucast (0xD800 OR drop_bit 10 x), ucast (0xDC00 OR (x AND 0x3FF))]
      else [ucast cp])"

definition le16 :: "16 word \<Rightarrow> bytes" where
  "le16 w = [ucast w, ucast (drop_bit 8 w)]"

definition le_units :: "16 word list \<Rightarrow> bytes" where
  "le_units ws = concat (map le16 ws)"

definition get16 :: "bytes \<Rightarrow> nat \<Rightarrow> 16 word" where
  "get16 s i = ucast (s ! i) OR push_bit 8 (ucast (s ! Suc i))"

text \<open>The unit at the head is given; \<open>rest\<close> are the remaining bytes, head unit included.\<close>

definition utf16_decode :: "16 word \<Rightarrow> bytes \<Rightarrow> (32 word \<times> nat) option" where
  "utf16_decode wc rest =
     (if wc \<ge> 0xD800 \<and> wc \<le> 0xDBFF then
        (let low = (if length rest \<ge> 4 then get16 rest 2 else 0)
         in if low \<ge> 0xDC00 \<and> low \<le> 0xDFFF
            then Some (0x10000 + push_bit 10 (ucast wc - 0xD800) + (ucast low - 0xDC00), 4)
            else None)
      else if wc \<ge> 0xDC00 \<and> wc \<le> 0xDFFF then None
      else Some (ucast wc, 2))"

definition utf8_bytes :: "32 word \<Rightarrow> bytes" where
  "utf8_bytes cp =
     (if cp < 0x80 then [ucast cp]
      else if cp < 0x800 then [ucast (0xC0 OR drop_bit 6 cp), ucast (0x80 OR (cp AND 0x3F))]
      else if cp < 0x10000 then
        [ucast (0xE0 OR drop_bit 12 cp), ucast (0x80 OR (drop_bit 6 cp AND 0x3F)), ucast (0x80 OR (cp AND 0x3F))]
      else
        [ucast (0xF0 OR drop_bit 18 cp), ucast (0x80 OR (drop_bit 12 cp AND 0x3F)),
         ucast (0x80 OR (drop_bit 6 cp AND 0x3F)), ucast (0x80 OR (cp AND 0x3F))])"

definition QUESTION :: "32 word" where
  "QUESTION = 0x3F"

section \<open>utf8_utf16.c\<close>

text \<open>
  The loops return the status, whether an invalid sequence was seen, the final source offset and
  the bytes written. \<open>cap\<close> is \<open>dst_capacity\<close> in bytes.
\<close>

function utf8_loop ::
  "enc_in \<Rightarrow> nat \<Rightarrow> bool \<Rightarrow> nat \<Rightarrow> bytes \<Rightarrow> efi_status \<times> bool \<times> nat \<times> bytes" where
  "utf8_loop c cap bad i out =
     (if i < length (ei_bytes c) \<and> ei_bytes c ! i \<noteq> 0 then
        (case transfer_step c cap 1 2 i out of
           Some (Inl st) \<Rightarrow> (st, bad, i, out)
         | Some (Inr (i', out')) \<Rightarrow>
             if i' \<le> i then (EFI_INVALID_PARAMETER, bad, i, out) else utf8_loop c cap bad i' out'
         | None \<Rightarrow>
             let d = utf8_decode (drop i (ei_bytes c)); bad' = (bad \<or> d = None) in
             if d = None \<and> \<not> ei_allow_invalid c then (EFI_WARN_UNKNOWN_GLYPH, bad', i, out)
             else let (cp, consumed) = (case d of Some p \<Rightarrow> p | None \<Rightarrow> (QUESTION, 1));
                      us = utf16_units cp
                  in if length us > cap div 2 - length out div 2
                     then (EFI_OUT_OF_RESOURCES, bad', i, out)
                     else utf8_loop c cap bad' (i + consumed) (out @ le_units us))
      else (EFI_SUCCESS, bad, i, out))"
  by pat_completeness auto

termination
proof (relation "measure (\<lambda>(c, cap, bad, i, out). length (ei_bytes c) - i)")
  show "wf (measure (\<lambda>(c :: enc_in, cap :: nat, bad :: bool, i, out :: bytes). length (ei_bytes c) - i))"
    by simp
qed (auto simp: utf8_decode_def Let_def split: if_splits option.splits)

definition encode_utf8_to_utf16_convert :: "enc_in \<Rightarrow> enc_out \<Rightarrow> efi_status \<times> enc_out" where
  "encode_utf8_to_utf16_convert c o0 =
     (if ei_src_ptr c = None \<or> \<not> ei_has_dst c then (EFI_INVALID_PARAMETER, o0)
      else if ei_dst_size c div 2 = 0 then (EFI_OUT_OF_RESOURCES, o0)
      else case utf8_loop c ((ei_dst_size c div 2 - 1) * 2) (eo_have_invalid o0) 0 [] of
        (st, bad, i, out) \<Rightarrow>
          (st, \<lparr>eo_src_used = i, eo_dst_wrote = length out, eo_have_invalid = bad, eo_buf = out @ [0, 0]\<rparr>))"

text \<open>The loop of the other direction also returns whether it stopped at a zero unit.\<close>

function utf16_loop ::
  "enc_in \<Rightarrow> nat \<Rightarrow> bool \<Rightarrow> nat \<Rightarrow> bytes \<Rightarrow> efi_status \<times> bool \<times> bool \<times> nat \<times> bytes" where
  "utf16_loop c cap bad i out =
     (if length (ei_bytes c) - i \<ge> 2 then
        (let wc = get16 (ei_bytes c) i in
         if wc = 0 then (EFI_SUCCESS, True, bad, i, out)
         else case transfer_step c cap 2 1 i out of
           Some (Inl st) \<Rightarrow> (st, False, bad, i, out)
         | Some (Inr (i', out')) \<Rightarrow>
             if i' \<le> i then (EFI_INVALID_PARAMETER, False, bad, i, out) else utf16_loop c cap bad i' out'
         | None \<Rightarrow>
             let d = utf16_decode wc (drop i (ei_bytes c)); bad' = (bad \<or> d = None) in
             if d = None \<and> \<not> ei_allow_invalid c then (EFI_WARN_UNKNOWN_GLYPH, False, bad', i, out)
             else let (cp, consumed) = (case d of Some p \<Rightarrow> p | None \<Rightarrow> (QUESTION, 2));
                      bs = utf8_bytes cp
                  in if length bs > cap - length out
                     then (EFI_OUT_OF_RESOURCES, False, bad', i, out)
                     else utf16_loop c cap bad' (i + consumed) (out @ bs))
      else (EFI_SUCCESS, False, bad, i, out))"
  by pat_completeness auto

termination
proof (relation "measure (\<lambda>(c, cap, bad, i, out). length (ei_bytes c) - i)")
  show "wf (measure (\<lambda>(c :: enc_in, cap :: nat, bad :: bool, i, out :: bytes). length (ei_bytes c) - i))"
    by simp
qed (auto simp: utf16_decode_def Let_def split: if_splits option.splits)

definition encode_utf16_to_utf8_convert :: "enc_in \<Rightarrow> enc_out \<Rightarrow> efi_status \<times> enc_out" where
  "encode_utf16_to_utf8_convert c o0 =
     (if ei_src_ptr c = None \<or> \<not> ei_has_dst c then (EFI_INVALID_PARAMETER, o0)
      else if ei_dst_size c = 0 then (EFI_OUT_OF_RESOURCES, o0)
      else case utf16_loop c (ei_dst_size c - 1) (eo_have_invalid o0) 0 [] of
        (st, terminated, bad, i, out) \<Rightarrow>
          let (st, bad, i, out) =
            (if \<not> terminated \<and> st = EFI_SUCCESS \<and> i < length (ei_bytes c) then
               (if \<not> ei_allow_invalid c then (EFI_WARN_UNKNOWN_GLYPH, True, i, out)
                else if length out \<ge> ei_dst_size c - 1 then (EFI_OUT_OF_RESOURCES, True, i, out)
                else (st, True, length (ei_bytes c), out @ [0x3F]))
             else (st, bad, i, out))
          in (st, \<lparr>eo_src_used = i, eo_dst_wrote = length out, eo_have_invalid = bad, eo_buf = out @ [0]\<rparr>))"

section \<open>encode.c\<close>

function copy_loop :: "enc_in \<Rightarrow> nat \<Rightarrow> bytes \<Rightarrow> efi_status \<times> nat \<times> bytes" where
  "copy_loop c i out =
     (if i < length (ei_bytes c) then
        (case encode_proc_transfer c i (length out) of
           (st, si, bs) \<Rightarrow>
             if st = EFI_NOT_FOUND then
               (if length out \<ge> ei_dst_size c then (EFI_OUT_OF_RESOURCES, i, out)
                else copy_loop c (Suc i) (out @ [ei_bytes c ! i]))
             else if st = EFI_SUCCESS then
               (if si \<le> i then (EFI_SUCCESS, i, out) else copy_loop c si (out @ bs))
             else (st, i, out))
      else (EFI_SUCCESS, i, out))"
  by pat_completeness auto

termination
  by (relation "measure (\<lambda>(c, i, out). length (ei_bytes c) - i)") auto

definition encode_copy_convert :: "enc_in \<Rightarrow> enc_out \<Rightarrow> efi_status \<times> enc_out" where
  "encode_copy_convert c o0 =
     (let (st, i, out) =
        (if ei_transfers c \<noteq> None then copy_loop c 0 []
         else let n = min (length (ei_bytes c)) (ei_dst_size c)
              in (if n < length (ei_bytes c) then EFI_OUT_OF_RESOURCES else EFI_SUCCESS,
                  n, take n (ei_bytes c)))
      in (st, o0\<lparr>eo_src_used := i, eo_dst_wrote := length out, eo_buf := out\<rparr>))"

text \<open>
  The dispatch of \<open>encode_convert\<close>, with the conversion through UTF-8 as an argument; the two
  conversions that function itself starts have UTF-8 on one side and never come back to it.
\<close>

definition encode_dispatch ::
  "(enc_in \<Rightarrow> enc_out \<Rightarrow> efi_status \<times> enc_out) \<Rightarrow> enc_in \<Rightarrow> enc_out \<Rightarrow> efi_status \<times> enc_out" where
  "encode_dispatch center c o0 =
     (if ei_src_ptr c = None \<or> \<not> ei_has_dst c then (EFI_INVALID_PARAMETER, o0)
      else if ei_src c = ENC_NONE \<or> ei_dst c = ENC_NONE then (EFI_INVALID_PARAMETER, o0)
      else let o0 = enc_out_zero in
        if ei_src c = ei_dst c then encode_copy_convert c o0
        else if ei_src c = ENC_UTF8 \<and> ei_dst c = ENC_UTF16 then encode_utf8_to_utf16_convert c o0
        else if ei_src c = ENC_UTF16 \<and> ei_dst c = ENC_UTF8 then encode_utf16_to_utf8_convert c o0
        else if ei_src c \<noteq> ENC_UTF8 \<and> ei_dst c \<noteq> ENC_UTF8 then center c o0
        else (EFI_UNSUPPORTED, o0))"

definition no_center :: "enc_in \<Rightarrow> enc_out \<Rightarrow> efi_status \<times> enc_out" where
  "no_center c o0 = (EFI_UNSUPPORTED, o0)"

definition encode_center_convert :: "bool \<Rightarrow> enc_in \<Rightarrow> enc_out \<Rightarrow> efi_status \<times> enc_out" where
  "encode_center_convert oom c o0 =
     (if ei_transfers c \<noteq> None then (EFI_UNSUPPORTED, o0)
      else if length (ei_bytes c) > (SIZE_MAX - 4) div 4 then (EFI_OUT_OF_RESOURCES, o0)
      else if oom then (EFI_OUT_OF_RESOURCES, o0)
      else
        let (st, so) = encode_dispatch no_center
              (c\<lparr>ei_dst := ENC_UTF8, ei_dst_size := length (ei_bytes c) * 4 + 4\<rparr>) enc_out_zero
        in if st \<noteq> EFI_SUCCESS \<and> st \<noteq> EFI_WARN_UNKNOWN_GLYPH then (st, o0)
           else
             let (st, d) = encode_dispatch no_center
                   (c\<lparr>ei_src := ENC_UTF8, ei_src_ptr := Some (take (eo_dst_wrote so) (eo_buf so))\<rparr>) enc_out_zero
             in (st, d\<lparr>eo_src_used := eo_src_used so,
                       eo_have_invalid := eo_have_invalid so \<or> eo_have_invalid d\<rparr>))"

definition encode_convert :: "bool \<Rightarrow> enc_in \<Rightarrow> enc_out \<Rightarrow> efi_status \<times> enc_out" where
  "encode_convert oom = encode_dispatch (encode_center_convert oom)"

definition encode_lookup :: "cstring option \<Rightarrow> encoding option" where
  "encode_lookup name =
     (case name of
        None \<Rightarrow> None
      | Some n \<Rightarrow>
          if strcasecmp n ''utf-8'' = 0 \<or> strcasecmp n ''utf8'' = 0 then Some ENC_UTF8
          else if strcasecmp n ''utf-16'' = 0 \<or> strcasecmp n ''utf16'' = 0 then Some ENC_UTF16
          else if strcasecmp n ''none'' = 0 then Some ENC_NONE
          else None)"

section \<open>simple.c\<close>

text \<open>
  The strings are the bytes and the units before the terminator; the result is the content of the
  allocated buffer up to its terminator. \<open>oom\<close>: the \<open>malloc\<close> fails.
\<close>

definition units_of :: "bytes \<Rightarrow> 16 word list" where
  "units_of bs = map (\<lambda>i. get16 bs (2 * i)) [0..<length bs div 2]"

definition encode_utf8_to_utf16 :: "bool \<Rightarrow> bytes option \<Rightarrow> 16 word list option" where
  "encode_utf8_to_utf16 oom utf8 =
     (case utf8 of
        None \<Rightarrow> None
      | Some s \<Rightarrow>
          if length s > SIZE_MAX div 2 - 1 \<or> oom then None
          else case encode_convert False
                 \<lparr>ei_src = ENC_UTF8, ei_dst = ENC_UTF16, ei_src_ptr = Some s, ei_has_dst = True,
                  ei_dst_size = (length s + 1) * 2, ei_transfers = None, ei_allow_invalid = True\<rparr> enc_out_zero of
            (st, r) \<Rightarrow> if st \<noteq> EFI_SUCCESS then None
                       else Some (takeWhile (\<lambda>w. w \<noteq> 0) (units_of (eo_buf r))))"

definition encode_utf16_to_utf8 :: "bool \<Rightarrow> 16 word list option \<Rightarrow> bytes option" where
  "encode_utf16_to_utf8 oom utf16 =
     (case utf16 of
        None \<Rightarrow> None
      | Some s \<Rightarrow>
          if length s > (SIZE_MAX - 1) div 3 \<or> oom then None
          else case encode_convert False
                 \<lparr>ei_src = ENC_UTF16, ei_dst = ENC_UTF8, ei_src_ptr = Some (le_units s), ei_has_dst = True,
                  ei_dst_size = length s * 3 + 1, ei_transfers = None, ei_allow_invalid = True\<rparr> enc_out_zero of
            (st, r) \<Rightarrow> if st \<noteq> EFI_SUCCESS then None
                       else Some (takeWhile (\<lambda>b. b \<noteq> 0) (eo_buf r)))"

end
