(* ===== verification/FileUtils.thy ===== *)
theory FileUtils
  imports Loader Encode
begin

text \<open>
  Files, from \<open>src/lib/file-utils.c\<close>: asking for the size, reading in chunks, reading a whole file into memory or
  into pages, and opening by a UTF-8 path. The file protocol of the firmware is a parameter.
\<close>

section \<open>The file protocol\<close>

text \<open>
  An open file: the size of its information and the file size with the statuses of the two \<open>GetInfo\<close> calls, the
  position, the status of \<open>SetPosition\<close>, and the bytes that \<open>Read\<close> returns at a position for a size.
\<close>

record efi_file =
  ef_info_size :: "efi_status \<times> int"
  ef_info :: "efi_status \<times> nat"
  ef_getpos :: "efi_status \<times> int"
  ef_setpos :: "int \<Rightarrow> efi_status"
  ef_read :: "int \<Rightarrow> int \<Rightarrow> efi_status \<times> cstring"

text \<open>\<open>root->Open\<close> for a UTF-16 path, the mode and the attributes.\<close>

type_synonym efi_root = "16 word list \<Rightarrow> nat \<Rightarrow> nat \<Rightarrow> efi_status \<times> efi_file option"

definition SIZE_1MB :: int where
  "SIZE_1MB = 1024 * 1024"

definition SIZE_MAX64 :: int where
  "SIZE_MAX64 = 18446744073709551615"

section \<open>The size\<close>

text \<open>The information of a file; its content stands for the buffer.\<close>

definition efi_file_get_info_by :: "efi_status \<times> int \<Rightarrow> efi_status \<times> 'a \<Rightarrow> embloader \<Rightarrow> (efi_status \<times> 'a option) \<times> embloader" where
  "efi_file_get_info_by first second g =
     (let (status, vinfo_size) = first in
      if status \<noteq> EFI_BUFFER_TOO_SMALL then ((if EFI_ERROR status then status else EFI_INVALID_PARAMETER, None), g)
      else if vinfo_size = 0 then ((EFI_BAD_BUFFER_SIZE, None), g)
      else let (ok, g) = galloc g in
      if \<not> ok then ((EFI_OUT_OF_RESOURCES, None), g)
      else let (status, vinfo) = second
           in ((if EFI_ERROR status then (status, None) else (EFI_SUCCESS, Some vinfo)), g))"

definition efi_file_get_info :: "efi_file \<Rightarrow> embloader \<Rightarrow> (efi_status \<times> nat option) \<times> embloader" where
  "efi_file_get_info f = efi_file_get_info_by (ef_info_size f) (ef_info f)"

definition efi_file_get_size :: "efi_file \<Rightarrow> embloader \<Rightarrow> (efi_status \<times> int) \<times> embloader" where
  "efi_file_get_size f g =
     (let ((status, info), g) = efi_file_get_info f g in
      case info of
        None \<Rightarrow> ((status, 0), g)
      | Some n \<Rightarrow> if int n > SIZE_MAX64 then ((EFI_BAD_BUFFER_SIZE, 0), g) else ((EFI_SUCCESS, int n), g))"

section \<open>Reading in chunks\<close>

text \<open>The bytes so far; the status is that of the last call.\<close>

function chunk_loop :: "efi_file \<Rightarrow> int \<Rightarrow> int \<Rightarrow> efi_status \<Rightarrow> cstring \<Rightarrow> efi_status \<times> cstring" where
  "chunk_loop f offset sz status buffer =
     (let read_pos = int (length buffer) in
      if \<not> read_pos < sz then (status, buffer)
      else let (status, bytes) = ef_read f (offset + read_pos) (min (sz - read_pos) SIZE_1MB) in
      if EFI_ERROR status then (status, buffer)
      else if bytes = [] then (EFI_END_OF_FILE, buffer)
      else if int (length bytes) > sz - read_pos then (EFI_BAD_BUFFER_SIZE, buffer)
      else chunk_loop f offset sz status (buffer @ bytes))"
  by pat_completeness auto
termination
  by (relation "measure (\<lambda>(f, offset, sz, status, buffer). nat (sz - int (length buffer)))") auto

declare chunk_loop.simps [simp del]

definition efi_file_chunked_read :: "efi_file \<Rightarrow> int \<Rightarrow> int \<Rightarrow> efi_status \<times> cstring" where
  "efi_file_chunked_read f offset sz =
     (if sz = 0 then (EFI_SUCCESS, [])
      else let (status, old_pos) = ef_getpos f in
      if EFI_ERROR status then (status, [])
      else let status = ef_setpos f offset in
      if EFI_ERROR status then (status, [])
      else let (status, buffer) = chunk_loop f offset sz status [];
               restore_status = ef_setpos f old_pos
           in if \<not> EFI_ERROR status \<and> EFI_ERROR restore_status then (restore_status, buffer)
              else (status, buffer))"

text \<open>The whole file in a buffer; \<open>None\<close> is no buffer.\<close>

definition efi_file_read_all :: "efi_file \<Rightarrow> embloader \<Rightarrow> (efi_status \<times> cstring option) \<times> embloader" where
  "efi_file_read_all f g =
     (let ((status, file_size), g) = efi_file_get_size f g in
      if EFI_ERROR status then ((status, None), g)
      else if file_size = 0 then
        (let (ok, g) = galloc g in ((if ok then (EFI_SUCCESS, Some []) else (EFI_OUT_OF_RESOURCES, None)), g))
      else if file_size = SIZE_MAX64 then ((EFI_BAD_BUFFER_SIZE, None), g)
      else let (ok, g) = galloc g in
      if \<not> ok then ((EFI_OUT_OF_RESOURCES, None), g)
      else let (status, buffer) = efi_file_chunked_read f 0 file_size
           in ((if EFI_ERROR status then (status, None) else (EFI_SUCCESS, Some buffer)), g))"

section \<open>Opening\<close>

definition SLASH16 :: "16 word" where
  "SLASH16 = 0x2F"

definition BACKSLASH16 :: "16 word" where
  "BACKSLASH16 = 0x5C"

definition efi_open :: "efi_root option \<Rightarrow> cstring \<Rightarrow> nat \<Rightarrow> nat \<Rightarrow> embloader \<Rightarrow> (efi_status \<times> efi_file option) \<times> embloader" where
  "efi_open root path mode attr g =
     (case root of
        None \<Rightarrow> ((EFI_INVALID_PARAMETER, None), g)
      | Some r \<Rightarrow>
          let (ok, g) = galloc g
          in case encode_utf8_to_utf16 (\<not> ok) (Some (map of_char path)) of
               None \<Rightarrow> ((EFI_OUT_OF_RESOURCES, None), g)
             | Some wpath \<Rightarrow> (r (map (\<lambda>w. if w = SLASH16 then BACKSLASH16 else w) wpath) mode attr, g))"

definition EFI_FILE_MODE_READ :: nat where
  "EFI_FILE_MODE_READ = 1"

definition EFI_FILE_DIRECTORY :: nat where
  "EFI_FILE_DIRECTORY = 16"

definition efi_folder_exists :: "efi_root option \<Rightarrow> cstring option \<Rightarrow> embloader \<Rightarrow> bool \<times> embloader" where
  "efi_folder_exists root path g =
     (case path of
        None \<Rightarrow> (False, g)
      | Some p \<Rightarrow>
          let ((status, dir), g) = efi_open root p EFI_FILE_MODE_READ EFI_FILE_DIRECTORY g
          in (\<not> EFI_ERROR status \<and> dir \<noteq> None, g))"

definition efi_file_exists :: "efi_root option \<Rightarrow> cstring option \<Rightarrow> embloader \<Rightarrow> bool \<times> embloader" where
  "efi_file_exists root path g =
     (case path of
        None \<Rightarrow> (False, g)
      | Some p \<Rightarrow>
          let ((status, file), g) = efi_open root p EFI_FILE_MODE_READ 0 g
          in (\<not> EFI_ERROR status \<and> file \<noteq> None, g))"

definition efi_file_open_read_all ::
  "efi_root option \<Rightarrow> cstring \<Rightarrow> embloader \<Rightarrow> (efi_status \<times> cstring option) \<times> embloader" where
  "efi_file_open_read_all root path g =
     (if root = None then ((EFI_INVALID_PARAMETER, None), g)
      else let ((status, f), g) = efi_open root path EFI_FILE_MODE_READ 0 g
           in case f of
                None \<Rightarrow> ((status, None), g)
              | Some file \<Rightarrow> if EFI_ERROR status then ((status, None), g) else efi_file_read_all file g)"

section \<open>Pages\<close>

text \<open>
  The page allocator: the answer to each request, the number of requests, and the pages of the live blocks.
  A block is named by the request it answered. Freeing is \<open>None\<close> unless the block is live and has that many pages.
\<close>

record page_state =
  ps_answer :: "nat \<Rightarrow> efi_status"
  ps_tick :: nat
  ps_live :: "nat \<Rightarrow> int option"

definition alloc_pages :: "int \<Rightarrow> page_state \<Rightarrow> (efi_status \<times> nat) \<times> page_state" where
  "alloc_pages n s =
     (let status = ps_answer s (ps_tick s)
      in ((status, ps_tick s), s\<lparr>ps_tick := ps_tick s + 1,
           ps_live := (if EFI_ERROR status then ps_live s else (ps_live s)(ps_tick s \<mapsto> n))\<rparr>))"

definition free_pages :: "nat \<Rightarrow> int \<Rightarrow> page_state \<Rightarrow> page_state option" where
  "free_pages b n s = (if ps_live s b = Some n then Some (s\<lparr>ps_live := (ps_live s)(b := None)\<rparr>) else None)"

text \<open>A block with the bytes that were put into it.\<close>

record page_buffer =
  pb_block :: nat
  pb_data :: cstring

text \<open>\<open>EFI_SIZE_TO_PAGES\<close>, on sizes below the word size.\<close>

definition size_to_pages_int :: "int \<Rightarrow> int" where
  "size_to_pages_int n = n div 4096 + (if n mod 4096 \<noteq> 0 then 1 else 0)"

definition free_buffer :: "page_buffer \<Rightarrow> page_state \<Rightarrow> page_state option" where
  "free_buffer b = free_pages (pb_block b) (size_to_pages_int (int (length (pb_data b))))"

definition efi_file_read_pages ::
  "efi_file \<Rightarrow> embloader \<times> page_state \<Rightarrow> ((efi_status \<times> page_buffer option) \<times> embloader \<times> page_state) option" where
  "efi_file_read_pages f x =
     (let (g, s) = x; ((status, file_size), g) = efi_file_get_size f g in
      if EFI_ERROR status then Some ((status, None), g, s)
      else if file_size = 0 then Some ((EFI_END_OF_FILE, None), g, s)
      else let n = size_to_pages_int file_size; ((status, block), s) = alloc_pages n s in
      if EFI_ERROR status then Some ((EFI_OUT_OF_RESOURCES, None), g, s)
      else let (status, buffer) = efi_file_chunked_read f 0 file_size in
      if EFI_ERROR status then do { s \<leftarrow> free_pages block n s; Some ((status, None), g, s) }
      else Some ((EFI_SUCCESS, Some \<lparr>pb_block = block, pb_data = buffer\<rparr>), g, s))"

definition efi_file_open_read_pages ::
  "efi_root option \<Rightarrow> cstring \<Rightarrow> embloader \<times> page_state \<Rightarrow>
   ((efi_status \<times> page_buffer option) \<times> embloader \<times> page_state) option" where
  "efi_file_open_read_pages root path x =
     (let (g, s) = x in
      if root = None then Some ((EFI_INVALID_PARAMETER, None), g, s)
      else let ((status, f), g) = efi_open root path EFI_FILE_MODE_READ 0 g
           in case f of
                None \<Rightarrow> Some ((status, None), g, s)
              | Some file \<Rightarrow>
                  if EFI_ERROR status then Some ((status, None), g, s) else efi_file_read_pages file (g, s))"

section \<open>Writing\<close>

text \<open>The calls that change a file, on the state \<open>'w\<close> of the firmware; \<open>Write\<close> returns the number of bytes written.\<close>

record 'w efi_writer =
  ew_setpos :: "int \<Rightarrow> 'w \<Rightarrow> efi_status \<times> 'w"
  ew_write :: "cstring \<Rightarrow> 'w \<Rightarrow> (efi_status \<times> int) \<times> 'w"
  ew_flush :: "'w \<Rightarrow> efi_status \<times> 'w"
  ew_setsize :: "int \<Rightarrow> 'w \<Rightarrow> efi_status \<times> 'w"

definition efi_file_set_size :: "efi_file \<Rightarrow> 'w efi_writer \<Rightarrow> int \<Rightarrow> embloader \<times> 'w \<Rightarrow> efi_status \<times> embloader \<times> 'w" where
  "efi_file_set_size f W sz x =
     (let (g, w) = x; ((status, info), g) = efi_file_get_info f g in
      if EFI_ERROR status then (status, g, w)
      else let (status, w) = ew_setsize W sz w in (status, g, w))"

definition efi_file_write_all :: "'w efi_writer \<Rightarrow> cstring option \<Rightarrow> 'w \<Rightarrow> bool \<times> 'w" where
  "efi_file_write_all W data w =
     (case data of
        None \<Rightarrow> (False, w)
      | Some d \<Rightarrow>
          let (status, w) = ew_setpos W 0 w in
          if EFI_ERROR status then (False, w)
          else let ((status, written), w) = ew_write W d w in
          if EFI_ERROR status \<or> written \<noteq> int (length d) then (False, w)
          else let (status, w) = ew_flush W w in (\<not> EFI_ERROR status, w))"

end
