(* ===== verification/DeviceTree.thy ===== *)
theory DeviceTree
  imports LinuxInfo Resolve FileUtils
begin

text \<open>
  \<open>src/linux/dtbo_params.c\<close> and \<open>devicetree.c\<close>: loading device trees and setting the parameters of an overlay.
  Device trees are values of a type \<open>'t\<close>; the device tree libraries that read and change them are a
  parameter, and so is the volume a tree is read from.
\<close>

section \<open>Parameters\<close>

text \<open>
  The functions of libfdt and libufdt the loader calls. A function that changes a tree also returns it;
  \<open>fo_view\<close> is the tree in the bytes of a file. A property is its bytes, or the error when there is none.
\<close>

record 't fdt_ops =
  fo_check_full :: "cstring \<Rightarrow> int"
  fo_view :: "cstring \<Rightarrow> 't"
  fo_check_header :: "'t \<Rightarrow> int"
  fo_totalsize :: "'t \<Rightarrow> int"
  fo_open_into :: "'t \<Rightarrow> int \<times> 't"
  fo_pack :: "'t \<Rightarrow> int \<times> 't"
  fo_ufdt_apply :: "'t \<Rightarrow> 't \<Rightarrow> 't option"
  fo_overlay_apply :: "'t \<Rightarrow> 't \<Rightarrow> int \<times> 't"
  fo_path_offset :: "'t \<Rightarrow> cstring \<Rightarrow> int"
  fo_by_phandle :: "'t \<Rightarrow> nat \<Rightarrow> int"
  fo_parent_offset :: "'t \<Rightarrow> int \<Rightarrow> int"
  fo_first_subnode :: "'t \<Rightarrow> int \<Rightarrow> int"
  fo_next_subnode :: "'t \<Rightarrow> int \<Rightarrow> int"
  fo_getprop :: "'t \<Rightarrow> int \<Rightarrow> cstring \<Rightarrow> int + cstring"
  fo_setprop :: "'t \<Rightarrow> int \<Rightarrow> cstring \<Rightarrow> cstring \<Rightarrow> int \<times> 't"
  fo_setprop_string :: "'t \<Rightarrow> int \<Rightarrow> cstring \<Rightarrow> cstring \<Rightarrow> int \<times> 't"
  fo_setprop_u32 :: "'t \<Rightarrow> int \<Rightarrow> cstring \<Rightarrow> nat \<Rightarrow> int \<times> 't"
  fo_setprop_u64 :: "'t \<Rightarrow> int \<Rightarrow> cstring \<Rightarrow> nat \<Rightarrow> int \<times> 't"
  fo_appendprop_u32 :: "'t \<Rightarrow> int \<Rightarrow> cstring \<Rightarrow> nat \<Rightarrow> int \<times> 't"
  fo_appendprop_u64 :: "'t \<Rightarrow> int \<Rightarrow> cstring \<Rightarrow> nat \<Rightarrow> int \<times> 't"
  fo_delprop :: "'t \<Rightarrow> int \<Rightarrow> cstring \<Rightarrow> int \<times> 't"
  fo_add_subnode :: "'t \<Rightarrow> int \<Rightarrow> cstring \<Rightarrow> int \<times> 't"
  fo_del_node :: "'t \<Rightarrow> int \<Rightarrow> int \<times> 't"
  fo_stringlist_get :: "'t \<Rightarrow> int \<Rightarrow> cstring \<Rightarrow> int \<Rightarrow> cstring option"

definition SIZE_2MB :: int where
  "SIZE_2MB = 2 * 1024 * 1024"

section \<open>Override specifications\<close>

record override_target =
  ot_phandle :: nat
  ot_property :: cstring
  ot_offset :: nat

text \<open>\<open>fdt32_to_cpu\<close> and \<open>cpu_to_fdt32\<close>: big-endian 32-bit values.\<close>

definition be32 :: "cstring \<Rightarrow> nat" where
  "be32 bs = fold (\<lambda>c acc. acc * 256 + cval c) (take 4 bs) 0"

definition be32_bytes :: "nat \<Rightarrow> cstring" where
  "be32_bytes v = map (\<lambda>k. char_of (v div 256 ^ k mod 256)) [3, 2, 1, 0]"

text \<open>A target names a property and may give an offset after a colon.\<close>

definition target_of :: "cstring \<Rightarrow> (cstring \<times> nat) option" where
  "target_of prop =
     (case strchr prop (CHR '':'') of
        None \<Rightarrow> if prop = [] then None else Some (prop, 0)
      | Some colon \<Rightarrow>
          let name = takeWhile (\<lambda>c. c \<noteq> CHR '':'') prop; r = strtoull 0 (tl colon)
          in if name = [] \<or> sr_end r = tl colon \<or> sr_end r \<noteq> [] \<or> sr_range r \<or> sr_val r > int UINT32_MAX
             then None
             else Some (name, nat (sr_val r)))"

function parse_override_loop ::
  "cstring \<Rightarrow> override_target list \<Rightarrow> embloader \<Rightarrow> override_target list option \<times> embloader" where
  "parse_override_loop pos targets g =
     (if pos = [] then (Some targets, g)
      else if length pos < 4 + 2 then (None, g)
      else let phandle = be32 pos; pos = drop 4 pos in
      if NUL \<notin> set pos \<or> hd pos = NUL then (None, g)
      else let (ok, g) = galloc g in
      if \<not> ok then (None, g)
      else case target_of (takeWhile (\<lambda>c. c \<noteq> NUL) pos) of
             None \<Rightarrow> (None, g)
           | Some (name, offset) \<Rightarrow>
               if int (length targets) = INT_MAX then (None, g)
               else let (ok, g) = galloc g in
               if \<not> ok then (None, g)
               else parse_override_loop (drop 1 (dropWhile (\<lambda>c. c \<noteq> NUL) pos))
                 (targets @ [\<lparr>ot_phandle = phandle, ot_property = name, ot_offset = offset\<rparr>]) g)"
  by pat_completeness auto
termination
proof (relation "measure (\<lambda>(pos, targets, g). length pos)", goal_cases)
  case (2 pos targets g phandle rest)
  have "length (dropWhile (\<lambda>c. c \<noteq> NUL) rest) \<le> length rest" by (rule length_dropWhile_le)
  moreover have "length rest < length pos" using 2 by (cases pos) auto
  ultimately show ?case by simp
qed simp

declare parse_override_loop.simps [simp del]

definition parse_override_spec :: "cstring \<Rightarrow> embloader \<Rightarrow> override_target list option \<times> embloader" where
  "parse_override_spec spec g = (if length spec < 6 then (None, g) else parse_override_loop spec [] g)"

definition parse_override_value :: "cstring \<Rightarrow> nat option" where
  "parse_override_value val =
     (if val = [] \<or> string_is_true (Some val) then Some 1
      else if string_is_false (Some val) then Some 0
      else let r = strtoull 0 val in
      if sr_end r = val \<or> sr_end r \<noteq> [] \<or> sr_range r \<or> sr_val r > int UINT32_MAX then None
      else Some (nat (sr_val r)))"

section \<open>Setting the parameters\<close>

text \<open>One target: whether its property was updated, and the tree.\<close>

definition apply_target ::
  "'t fdt_ops \<Rightarrow> nat \<Rightarrow> override_target \<Rightarrow> 't \<Rightarrow> embloader \<Rightarrow> (bool \<times> 't) \<times> embloader" where
  "apply_target F val t fdt g =
     (let node = fo_by_phandle F fdt (ot_phandle t) in
      if node < 0 then ((False, fdt), g)
      else case fo_getprop F fdt node (ot_property t) of
        Inl _ \<Rightarrow> ((False, fdt), g)
      | Inr prop \<Rightarrow>
          if prop = [] then ((False, fdt), g)
          else if ot_offset t > length prop \<or> length prop - ot_offset t < 4 then ((False, fdt), g)
          else let (ok, g) = galloc g in
          if \<not> ok then ((False, fdt), g)
          else let new_prop = take (ot_offset t) prop @ be32_bytes val @ drop (ot_offset t + 4) prop;
                   (ret, fdt) = fo_setprop F fdt node (ot_property t) new_prop
               in ((\<not> ret < 0, fdt), g))"

fun apply_targets ::
  "'t fdt_ops \<Rightarrow> nat \<Rightarrow> override_target list \<Rightarrow> bool \<Rightarrow> 't \<Rightarrow> embloader \<Rightarrow> (bool \<times> 't) \<times> embloader" where
  "apply_targets F val [] success fdt g = ((success, fdt), g)"
| "apply_targets F val (t # ts) success fdt g =
     (let ((ok, fdt), g) = apply_target F val t fdt g in apply_targets F val ts (success \<and> ok) fdt g)"

definition apply_override_parameter ::
  "'t fdt_ops \<Rightarrow> cstring \<Rightarrow> override_target list \<Rightarrow> 't \<Rightarrow> embloader \<Rightarrow> (bool \<times> 't) \<times> embloader" where
  "apply_override_parameter F param_value targets fdt g =
     (case parse_override_value param_value of
        None \<Rightarrow> ((False, fdt), g)
      | Some v \<Rightarrow> apply_targets F v targets True fdt g)"

text \<open>One parameter of the configuration; the loop goes on after a failure.\<close>

definition override_step ::
  "'t fdt_ops \<Rightarrow> int \<Rightarrow> citer \<Rightarrow> (bool \<times> 't) \<times> embloader \<Rightarrow> (bool \<times> (bool \<times> 't) \<times> embloader) option" where
  "override_step F overrides_node it x =
     (let ((success, fdt), g) = x in do {
        isv \<leftarrow> confignode_is_type (it_node it) TYPE_VALUE (g_cs g);
        key \<leftarrow> confignode_get_key (it_node it) (g_cs g);
        (if \<not> isv then Some (True, x)
         else case key of
           None \<Rightarrow> Some (True, x)
         | Some k \<Rightarrow> do {
             (val, ok) \<leftarrow> confignode_value_get_string (it_node it) None (g_cs g);
             Some (True,
               case val of
                 None \<Rightarrow> ((False, fdt), g)
               | Some v \<Rightarrow>
                   if \<not> ok then ((False, fdt), g)
                   else case fo_getprop F fdt overrides_node k of
                     Inl _ \<Rightarrow> ((False, fdt), g)
                   | Inr spec \<Rightarrow>
                       if length spec < 6 then ((False, fdt), g)
                       else let (targets, g) = parse_override_spec spec g
                            in case targets of
                                 None \<Rightarrow> ((False, fdt), g)
                               | Some ts \<Rightarrow>
                                   if ts = [] then ((False, fdt), g)
                                   else let ((ok, fdt), g) = apply_override_parameter F v ts fdt g
                                        in ((success \<and> ok, fdt), g))
           })
      })"

definition linux_dtbo_write_overrides ::
  "'t fdt_ops \<Rightarrow> 't \<Rightarrow> ptr \<Rightarrow> embloader \<Rightarrow> ((bool \<times> 't) \<times> embloader) option" where
  "linux_dtbo_write_overrides F fdt overrides g =
     (if overrides = None then Some ((False, fdt), g)
      else do {
        empty \<leftarrow> confignode_is_empty overrides (g_cs g);
        (if empty then Some ((True, fdt), g)
         else let node = fo_path_offset F fdt ''/__overrides__'' in
         if node < 0 then Some ((False, fdt), g)
         else each_node (override_step F node) overrides ((True, fdt), g))
      })"

section \<open>devicetree.c\<close>

fun dtb_id_loop :: "ptr \<Rightarrow> cstring list \<Rightarrow> cstring list \<Rightarrow> embloader \<Rightarrow> ((bool \<times> cstring list) \<times> embloader) option" where
  "dtb_id_loop np [] ids g = Some ((True, ids), g)"
| "dtb_id_loop np (profile # ps) ids g = do {
     cp \<leftarrow> confignode_map_get np (Some profile) (g_cs g);
     id_node \<leftarrow> (if cp = None then Some None else confignode_map_get cp (Some ''dtb-id'') (g_cs g));
     isv \<leftarrow> confignode_is_type id_node TYPE_VALUE (g_cs g);
     (if \<not> isv then dtb_id_loop np ps ids g
      else do {
        (val, ok) \<leftarrow> confignode_value_get_string id_node None (g_cs g);
        (case val of
           None \<Rightarrow> Some ((False, []), g)
         | Some i \<Rightarrow>
             if \<not> ok then Some ((False, []), g)
             else let (cell, g) = galloc g
                  in if cell then dtb_id_loop np ps (ids @ [i]) g else Some ((False, []), g))
      })
   }"

definition embloader_dt_get_dtb_id :: getter where
  "embloader_dt_get_dtb_id loader g = do {
     np \<leftarrow> confignode_map_get (g_config g) (Some ''profiles'') (g_cs g);
     (if np = None then Some ((True, []), g) else dtb_id_loop np (g_profiles g) [] g)
   }"

definition embloader_dt_get_default_dtb ::
  "embloader_loader option \<Rightarrow> embloader \<Rightarrow> ((cstring list \<times> bool) \<times> embloader) option" where
  "embloader_dt_get_default_dtb loader g = do {
     (def_dtb, g) \<leftarrow> gget_string (g_config g) ''devicetree.default-dtb'' None g;
     (if def_dtb = None then Some (([], False), g)
      else embloader_resolve_path embloader_dt_get_dtb_id loader def_dtb g)
   }"

definition linux_try_load_dtb ::
  "'t fdt_ops \<Rightarrow> efi_root option \<Rightarrow> cstring \<Rightarrow> bool \<Rightarrow> embloader \<Rightarrow> 't option \<times> embloader" where
  "linux_try_load_dtb F base dtb grow g =
     (if base = None then (None, g)
      else let ((status, fp), g) = efi_open base dtb EFI_FILE_MODE_READ 0 g
      in case fp of
           None \<Rightarrow> (None, g)
         | Some file \<Rightarrow>
             if EFI_ERROR status then (None, g)
             else let ((status, data), g) = efi_file_read_all file g
             in case data of
                  None \<Rightarrow> (None, g)
                | Some bytes \<Rightarrow>
                    if EFI_ERROR status \<or> bytes = [] then (None, g)
                    else if int (length bytes) > SIZE_2MB then (None, g)
                    else if fo_check_full F bytes < 0 then (None, g)
                    else if grow then
                      (let (ok, g) = galloc g in
                       if \<not> ok then (None, g)
                       else let (ret, fdt) = fo_open_into F (fo_view F bytes)
                            in (if ret < 0 then None else Some fdt, g))
                    else (Some (fo_view F bytes), g))"

text \<open>The device tree of the loader (\<open>g_embloader.fdt\<close>) beside its other state.\<close>

record 't dt_state =
  dt_g :: embloader
  dt_fdt :: "'t option"

fun first_dtb :: "'t fdt_ops \<Rightarrow> efi_root option \<Rightarrow> cstring list \<Rightarrow> embloader \<Rightarrow> 't option \<times> embloader" where
  "first_dtb F root [] g = (None, g)"
| "first_dtb F root (dtb # dtbs) g =
     (let (fdt, g) = linux_try_load_dtb F root dtb True g
      in if fdt = None then first_dtb F root dtbs g else (fdt, g))"

text \<open>\<open>root\<close> is the volume of the loader, or of the entry when it has one.\<close>

definition linux_load_default_dtb ::
  "'t fdt_ops \<Rightarrow> efi_root option \<Rightarrow> embloader_loader option \<Rightarrow> 't dt_state \<Rightarrow> ((bool \<times> bool) \<times> 't dt_state) option" where
  "linux_load_default_dtb F root loader d = do {
     ((dtbs, depends), g) \<leftarrow> embloader_dt_get_default_dtb loader (dt_g d);
     (let d = d\<lparr>dt_fdt := (if depends then None else dt_fdt d)\<rparr>;
          (fdt, g) = first_dtb F root (rev dtbs) g
      in Some ((fdt \<noteq> None, depends), d\<lparr>dt_g := g, dt_fdt := (if fdt = None then dt_fdt d else fdt)\<rparr>))
   }"

definition linux_load_devicetree ::
  "'t fdt_ops \<Rightarrow> efi_root linux_bootinfo \<Rightarrow> embloader \<Rightarrow> (efi_status \<times> 't option) \<times> embloader" where
  "linux_load_devicetree F info g =
     (case li_devicetree info of
        None \<Rightarrow> ((EFI_SUCCESS, None), g)
      | Some dt \<Rightarrow>
          let (fdt, g) = linux_try_load_dtb F (li_root info) dt True g
          in ((if fdt = None then EFI_NOT_FOUND else EFI_SUCCESS, fdt), g))"

end
