(* ===== verification/Dtbo.thy ===== *)
theory Dtbo
  imports DeviceTree
begin

text \<open>
  \<open>src/linux/dtbo.c\<close>: applying the overlays of the configuration and of a boot entry to the device tree,
  under the configured policy for failures; and the device tree part of \<open>preboot.c\<close>.
\<close>

section \<open>Policies\<close>

datatype embloader_dtbo_on_error =
  DTBO_ERROR_UNKNOWN | DTBO_ERROR_FAILURE | DTBO_ERROR_IGNORE | DTBO_ERROR_NEEDONE | DTBO_ERROR_REVERT

definition on_error_of :: "cstring option \<Rightarrow> embloader_dtbo_on_error" where
  "on_error_of val =
     (case val of
        None \<Rightarrow> DTBO_ERROR_FAILURE
      | Some v \<Rightarrow>
          if strcasecmp v ''failure'' = 0 then DTBO_ERROR_FAILURE
          else if strcasecmp v ''ignore'' = 0 then DTBO_ERROR_IGNORE
          else if strcasecmp v ''needone'' = 0 then DTBO_ERROR_NEEDONE
          else if strcasecmp v ''revert'' = 0 then DTBO_ERROR_REVERT
          else DTBO_ERROR_FAILURE)"

definition linux_get_dtbo_on_error :: "embloader \<Rightarrow> (embloader_dtbo_on_error \<times> embloader) option" where
  "linux_get_dtbo_on_error g = do {
     (val, g) \<leftarrow> gget_string (g_config g) ''devicetree.dtbo-on-error'' (Some ''ignore'') g;
     Some (on_error_of val, g)
   }"

definition embloader_dt_get_dtbo_dir :: "embloader_loader option \<Rightarrow> embloader \<Rightarrow> (cstring list \<times> embloader) option" where
  "embloader_dt_get_dtbo_dir loader g = do {
     (dir, g) \<leftarrow> gget_string (g_config g) ''devicetree.dtbo-dir'' None g;
     (if dir = None then Some ([], g)
      else do {
        ((dirs, _), g) \<leftarrow> embloader_resolve_path embloader_dt_get_dtb_id loader dir g;
        Some (dirs, g)
      })
   }"

definition dtbo_matches_active_profile :: "ptr \<Rightarrow> embloader \<Rightarrow> (bool \<times> embloader) option" where
  "dtbo_matches_active_profile node g = do {
     (profile_node, g) \<leftarrow> glookup node ''profile'' g;
     (if profile_node = None then Some (True, g)
      else do {
        isv \<leftarrow> confignode_is_type profile_node TYPE_VALUE (g_cs g);
        (if \<not> isv then Some (False, g)
         else do {
           (val, ok) \<leftarrow> confignode_value_get_string profile_node None (g_cs g);
           Some (case val of
                   None \<Rightarrow> False
                 | Some p \<Rightarrow> ok \<and> (p = [] \<or> (\<exists>q \<in> set (g_profiles g). strcmp q p = 0)), g)
         })
      })
   }"

section \<open>One overlay\<close>

definition apply_dtbo_libufdt :: "'t fdt_ops \<Rightarrow> 't \<Rightarrow> 't \<Rightarrow> bool \<times> 't" where
  "apply_dtbo_libufdt F base dtbo =
     (let (ret, base) = fo_pack F base in
      if ret \<noteq> 0 then (False, base)
      else case fo_ufdt_apply F base dtbo of
        None \<Rightarrow> (False, base)
      | Some nfdt \<Rightarrow>
          let new_size = fo_totalsize F nfdt in
          if new_size \<le> 0 \<or> new_size > SIZE_2MB then (False, base)
          else let (ret, base) = fo_open_into F nfdt in (ret = 0, base))"

definition apply_dtbo_libfdt :: "'t fdt_ops \<Rightarrow> 't \<Rightarrow> 't \<Rightarrow> bool \<times> 't" where
  "apply_dtbo_libfdt F base dtbo = (let (ret, base) = fo_overlay_apply F base dtbo in (ret = 0, base))"

text \<open>The overlay is applied to a working copy, which replaces the tree only when all went well.\<close>

definition apply_dtbo_method ::
  "'t fdt_ops \<Rightarrow> 't \<Rightarrow> 't \<Rightarrow> cstring \<Rightarrow> embloader \<Rightarrow> (bool \<times> 't) \<times> embloader" where
  "apply_dtbo_method F base dtbo m g =
     (let (ok, g) = galloc g in
      if \<not> ok then ((False, base), g)
      else let (ret, working) = fo_open_into F base in
      if ret \<noteq> 0 then ((False, base), g)
      else let (result, working) =
             (if strcasecmp m ''libufdt'' = 0 then apply_dtbo_libufdt F working dtbo
              else if strcasecmp m ''libfdt'' = 0 then apply_dtbo_libfdt F working dtbo
              else (False, working));
           result = (result \<and> fo_check_header F working = 0)
      in ((result, if result then working else base), g))"

definition linux_apply_dtbo ::
  "'t fdt_ops \<Rightarrow> 't \<Rightarrow> 't \<Rightarrow> embloader \<Rightarrow> ((bool \<times> 't) \<times> embloader) option" where
  "linux_apply_dtbo F base dtbo g =
     (if fo_check_header F base \<noteq> 0 \<or> fo_check_header F dtbo \<noteq> 0 then Some ((False, base), g)
      else do {
        (method, g) \<leftarrow> gget_string (g_config g) ''devicetree.dtbo-method'' (Some ''libufdt'') g;
        Some (case method of
                None \<Rightarrow> ((False, base), g)
              | Some m \<Rightarrow> apply_dtbo_method F base dtbo m g)
      })"

definition do_load_dtbo ::
  "'t fdt_ops \<Rightarrow> 't \<Rightarrow> efi_root option \<Rightarrow> cstring \<Rightarrow> ptr \<Rightarrow> embloader \<Rightarrow> ((bool \<times> 't) \<times> embloader) option" where
  "do_load_dtbo F fdt base path params g =
     (if base = None then Some ((False, fdt), g)
      else let (dtbo, g) = linux_try_load_dtb F base path False g
      in case dtbo of
           None \<Rightarrow> Some ((False, fdt), g)
         | Some d \<Rightarrow> do {
             ((ok, d), g) \<leftarrow> (if params = None then Some ((True, d), g) else linux_dtbo_write_overrides F d params g);
             (if ok then linux_apply_dtbo F fdt d g else Some ((False, fdt), g))
           })"

text \<open>The first directory with an overlay of the name that can be applied.\<close>

fun dtbo_dir_loop ::
  "'t fdt_ops \<Rightarrow> 't \<Rightarrow> efi_root option \<Rightarrow> cstring \<Rightarrow> ptr \<Rightarrow> cstring list \<Rightarrow> embloader \<Rightarrow> ((bool \<times> 't) \<times> embloader) option" where
  "dtbo_dir_loop F fdt base path params [] g = Some ((False, fdt), g)"
| "dtbo_dir_loop F fdt base path params (dir # dirs) g =
     (let (dtbo_path, g) = gstrdup (Some (dir @ (if endwith (Some dir) (CHR ''/'') then [] else ''/'') @ path @ ''.dtbo'')) g
      in case dtbo_path of
           None \<Rightarrow> dtbo_dir_loop F fdt base path params dirs g
         | Some p \<Rightarrow> do {
             ((ok, fdt), g) \<leftarrow> do_load_dtbo F fdt base p params g;
             (if ok then Some ((True, fdt), g) else dtbo_dir_loop F fdt base path params dirs g)
           })"

definition do_load_dtbo_dirs ::
  "'t fdt_ops \<Rightarrow> 't \<Rightarrow> efi_root option \<Rightarrow> cstring \<Rightarrow> ptr \<Rightarrow> cstring list \<Rightarrow> embloader \<Rightarrow> ((bool \<times> 't) \<times> embloader) option" where
  "do_load_dtbo_dirs F fdt base path params dirs g =
     (if hdc path = CHR ''/'' \<or> hdc path = CHR 0x5C then do_load_dtbo F fdt base path params g
      else dtbo_dir_loop F fdt base path params dirs g)"

definition linux_load_dtbo ::
  "'t fdt_ops \<Rightarrow> efi_root option \<Rightarrow> 't \<Rightarrow> ptr \<Rightarrow> cstring list \<Rightarrow> embloader \<Rightarrow> ((bool \<times> 't) \<times> embloader) option" where
  "linux_load_dtbo F base fdt node dtbo_dir g = do {
     ism \<leftarrow> confignode_is_type node TYPE_MAP (g_cs g);
     dtbo_name \<leftarrow> confignode_get_key node (g_cs g);
     (if \<not> ism \<or> dtbo_name = None then Some ((False, fdt), g)
      else do {
        (enabled, g) \<leftarrow> gget_bool node ''enabled'' True g;
        (if \<not> enabled then Some ((False, fdt), g)
         else do {
           params \<leftarrow> confignode_map_get node (Some ''params'') (g_cs g);
           (path, g) \<leftarrow> gget_string node ''path'' dtbo_name g;
           (case path of
              None \<Rightarrow> Some ((False, fdt), g)
            | Some p \<Rightarrow> do_load_dtbo_dirs F fdt base p params dtbo_dir g)
         })
      })
   }"

section \<open>The overlays of the configuration\<close>

text \<open>The state of the loop: the count (-1 after an abort), whether there was no overlay, and the tree.\<close>

definition dtbos_step ::
  "'t fdt_ops \<Rightarrow> efi_root option \<Rightarrow> cstring list \<Rightarrow> embloader_dtbo_on_error \<Rightarrow> citer \<Rightarrow> (int \<times> bool \<times> 't) \<times> embloader \<Rightarrow>
   (bool \<times> (int \<times> bool \<times> 't) \<times> embloader) option" where
  "dtbos_step F base dtbo_dir on_error it x =
     (let ((count, empty, fdt), g) = x in do {
        (enabled, g) \<leftarrow> gget_bool (it_node it) ''enabled'' True g;
        (if \<not> enabled then Some (True, (count, empty, fdt), g)
         else do {
           (matches, g) \<leftarrow> dtbo_matches_active_profile (it_node it) g;
           (if \<not> matches then Some (True, (count, empty, fdt), g)
            else do {
              ((ok, fdt), g) \<leftarrow> linux_load_dtbo F base fdt (it_node it) dtbo_dir g;
              Some (if ok then (True, (count + 1, False, fdt), g)
                    else if on_error = DTBO_ERROR_FAILURE \<or> on_error = DTBO_ERROR_REVERT
                    then (False, (-1, False, fdt), g)
                    else (True, (count, False, fdt), g))
            })
         })
      })"

definition linux_load_dtbos ::
  "'t fdt_ops \<Rightarrow> embloader_loader option \<Rightarrow> efi_root option \<Rightarrow> 't \<Rightarrow> cstring list \<Rightarrow> embloader_dtbo_on_error \<Rightarrow> embloader \<Rightarrow>
   ((int \<times> 't) \<times> embloader) option" where
  "linux_load_dtbos F loader base fdt alt_dir on_error g = do {
     (dtbo_dir, g) \<leftarrow> embloader_dt_get_dtbo_dir loader g;
     (let (dup, g) = dup_chars alt_dir g;
          dirs = rev (dtbo_dir @ (case dup of None \<Rightarrow> [] | Some x \<Rightarrow> x)) in do {
        ((count, empty, fdt), g) \<leftarrow>
          each_path_node (dtbos_step F base dirs on_error) (g_config g) ''devicetree.overlays'' ((0, True, fdt), g);
        Some ((if \<not> empty \<and> count = 0 \<and> on_error = DTBO_ERROR_NEEDONE then -1 else count, fdt), g)
      })
   }"

section \<open>The overlays of a boot\<close>

text \<open>The firmware's configuration tables: whether one holds a device tree, and the tree.\<close>

type_synonym 't fdt_tables = "(bool \<times> 't option) list"

fun fetch_loop :: "'t fdt_ops \<Rightarrow> 't fdt_tables \<Rightarrow> embloader \<Rightarrow> (efi_status \<times> 't option) \<times> embloader" where
  "fetch_loop F [] g = ((EFI_NOT_FOUND, None), g)"
| "fetch_loop F ((is_fdt, table) # tables) g =
     (case table of
        None \<Rightarrow> fetch_loop F tables g
      | Some t \<Rightarrow>
          if \<not> is_fdt \<or> fo_check_header F t \<noteq> 0 \<or> fo_totalsize F t > SIZE_2MB then fetch_loop F tables g
          else let (ok, g) = galloc g in
          if \<not> ok then ((EFI_OUT_OF_RESOURCES, None), g)
          else let (ret, nfdt) = fo_open_into F t
               in if ret \<noteq> 0 then fetch_loop F tables g else ((EFI_SUCCESS, Some nfdt), g))"

definition embloader_fetch_fdt :: "'t fdt_ops \<Rightarrow> 't fdt_tables \<Rightarrow> 't dt_state \<Rightarrow> efi_status \<times> 't dt_state" where
  "embloader_fetch_fdt F tables d =
     (if dt_fdt d \<noteq> None then (EFI_SUCCESS, d)
      else let ((status, fdt), g) = fetch_loop F tables (dt_g d)
           in (status, d\<lparr>dt_g := g, dt_fdt := fdt\<rparr>))"

text \<open>The tree of the boot, if it has one of its own, is \<open>own\<close>.\<close>

definition prepare_dtoverlay_fdt ::
  "'t fdt_ops \<Rightarrow> 't fdt_tables \<Rightarrow> efi_root option \<Rightarrow> embloader_loader option \<Rightarrow> 't option \<Rightarrow> 't dt_state \<Rightarrow>
   (efi_status \<times> 't dt_state) option" where
  "prepare_dtoverlay_fdt F tables root loader own d =
     (if own \<noteq> None then Some (EFI_SUCCESS, d)
      else do {
        ((ok, depends), d) \<leftarrow> linux_load_default_dtb F root loader d;
        (if ok then Some (EFI_SUCCESS, d)
         else if depends then Some (EFI_NOT_FOUND, d)
         else if dt_fdt d \<noteq> None then Some (EFI_SUCCESS, d)
         else let (status, d) = embloader_fetch_fdt F tables d
              in Some (if status = EFI_NOT_FOUND then EFI_SUCCESS else status, d))
      })"

text \<open>
  The loop over the overlays of the entry. \<open>Inl\<close> is the return after a failure, \<open>Inr\<close> goes on with the
  counts of applied and failed overlays.
\<close>

fun entry_overlays ::
  "'t fdt_ops \<Rightarrow> efi_root option \<Rightarrow> cstring list \<Rightarrow> embloader_dtbo_on_error \<Rightarrow> 't option \<Rightarrow> linux_overlay list \<Rightarrow>
   nat \<Rightarrow> nat \<Rightarrow> 't \<Rightarrow> embloader \<Rightarrow> (((efi_status + nat \<times> nat) \<times> 't) \<times> embloader) option" where
  "entry_overlays F base dirs on_error backup [] napplied nfailed fdt g = Some ((Inr (napplied, nfailed), fdt), g)"
| "entry_overlays F base dirs on_error backup (o1 # os) napplied nfailed fdt g = do {
     ((ok, fdt), g) \<leftarrow> do_load_dtbo_dirs F fdt base (lo_path o1) (lo_params o1) dirs g;
     (if ok then entry_overlays F base dirs on_error backup os (Suc napplied) nfailed fdt g
      else if on_error = DTBO_ERROR_FAILURE then Some ((Inl EFI_LOAD_ERROR, fdt), g)
      else case backup of
        Some b \<Rightarrow> if on_error = DTBO_ERROR_REVERT then Some ((Inr (0, 0), b), g)
                  else entry_overlays F base dirs on_error backup os napplied (Suc nfailed) fdt g
      | None \<Rightarrow> entry_overlays F base dirs on_error backup os napplied (Suc nfailed) fdt g)
   }"

text \<open>All overlays on one tree, with a backup of it under the policy \<open>revert\<close>.\<close>

definition apply_overlays ::
  "'t fdt_ops \<Rightarrow> embloader_loader option \<Rightarrow> efi_root linux_bootinfo \<Rightarrow> embloader_dtbo_on_error \<Rightarrow> 't option \<Rightarrow> 't \<Rightarrow> embloader \<Rightarrow>
   ((efi_status \<times> 't) \<times> embloader) option" where
  "apply_overlays F loader info on_error backup fdt g = do {
     (dtbo_dir, g) \<leftarrow> embloader_dt_get_dtbo_dir loader g;
     ((ret, fdt), g) \<leftarrow> linux_load_dtbos F loader (li_root info) fdt [] on_error g;
     (if ret < 0 \<and> on_error = DTBO_ERROR_FAILURE then Some ((EFI_LOAD_ERROR, fdt), g)
      else if ret < 0 \<and> on_error = DTBO_ERROR_REVERT \<and> backup \<noteq> None then Some ((EFI_SUCCESS, the backup), g)
      else do {
        ((r, fdt), g) \<leftarrow> entry_overlays F (li_root info) dtbo_dir on_error backup (li_dtoverlay info)
          (if ret > 0 then nat ret else 0) (if ret < 0 \<and> on_error = DTBO_ERROR_NEEDONE then 1 else 0) fdt g;
        Some ((case r of
                 Inl status \<Rightarrow> status
               | Inr (napplied, nfailed) \<Rightarrow>
                   if on_error = DTBO_ERROR_NEEDONE \<and> napplied = 0 \<and> nfailed > 0 then EFI_LOAD_ERROR
                   else EFI_SUCCESS, fdt), g)
      })
   }"

text \<open>The same with the backup made, or not.\<close>

definition overlay_tree ::
  "'t fdt_ops \<Rightarrow> embloader_loader option \<Rightarrow> efi_root linux_bootinfo \<Rightarrow> embloader_dtbo_on_error \<Rightarrow> 't \<Rightarrow> embloader \<Rightarrow>
   ((efi_status \<times> 't) \<times> embloader) option" where
  "overlay_tree F loader info on_error fdt g =
     (if on_error \<noteq> DTBO_ERROR_REVERT then apply_overlays F loader info on_error None fdt g
      else if fo_totalsize F fdt \<le> 0 \<or> fo_totalsize F fdt > SIZE_2MB then Some ((EFI_DEVICE_ERROR, fdt), g)
      else let (ok, g) = galloc g
           in if \<not> ok then Some ((EFI_OUT_OF_RESOURCES, fdt), g)
              else apply_overlays F loader info on_error (Some fdt) fdt g)"

text \<open>The tree changed is the entry's own or that of the loader.\<close>

definition linux_load_dtoverlay ::
  "'t fdt_ops \<Rightarrow> 't fdt_tables \<Rightarrow> efi_root option \<Rightarrow> embloader_loader option \<Rightarrow> 't option \<Rightarrow> efi_root linux_bootinfo \<Rightarrow>
   't dt_state \<Rightarrow> ((efi_status \<times> 't option) \<times> 't dt_state) option" where
  "linux_load_dtoverlay F tables root loader own info d = do {
     (on_error, g) \<leftarrow> linux_get_dtbo_on_error (dt_g d);
     (configured, g) \<leftarrow> (if li_dtoverlay info \<noteq> [] then Some (None, g)
                        else glookup (g_config g) ''devicetree.overlays'' g);
     (if li_dtoverlay info = [] \<and> configured = None then Some ((EFI_SUCCESS, own), d\<lparr>dt_g := g\<rparr>)
      else do {
        (status, d) \<leftarrow> prepare_dtoverlay_fdt F tables root loader own (d\<lparr>dt_g := g\<rparr>);
        (if EFI_ERROR status then Some ((status, own), d)
         else case own of
           Some fdt \<Rightarrow> do {
             ((status, fdt), g) \<leftarrow> overlay_tree F loader info on_error fdt (dt_g d);
             Some ((status, Some fdt), d\<lparr>dt_g := g\<rparr>)
           }
         | None \<Rightarrow>
             (case dt_fdt d of
                None \<Rightarrow> Some ((EFI_SUCCESS, None), d)
              | Some fdt \<Rightarrow> do {
                  ((status, fdt), g) \<leftarrow> overlay_tree F loader info on_error fdt (dt_g d);
                  Some ((status, None), d\<lparr>dt_g := g, dt_fdt := Some fdt\<rparr>)
                }))
      })
   }"

end
