(* ===== verification/FileUtilsFacts.thy ===== *)
theory FileUtilsFacts
  imports FileUtils
begin

text \<open>
  Reading a file: short reads do not matter, and a file that ends early is an error. Pages: what a read
  leaves allocated is exactly the buffer it returns.
\<close>

section \<open>Chunks\<close>

lemma file_errors [simp]: "EFI_ERROR EFI_END_OF_FILE" "EFI_ERROR EFI_BAD_BUFFER_SIZE"
  by (simp_all add: EFI_ERROR_def efi_warnings_def)

text \<open>A file with the content \<open>c\<close>: a read returns at least one byte before the end, and nothing behind it.\<close>

definition reads_of :: "efi_file \<Rightarrow> cstring \<Rightarrow> bool" where
  "reads_of f c \<longleftrightarrow> (\<forall>p n. 0 < n \<longrightarrow>
     (if p < length c then \<exists>k. 0 < k \<and> int k \<le> n \<and> ef_read f (int p) n = (EFI_SUCCESS, take k (drop p c))
      else ef_read f (int p) n = (EFI_SUCCESS, [])))"

lemma chunk_loop_reads:
  assumes "reads_of f c" "buffer = take (length buffer) (drop off c)" "length buffer \<le> n" "off + length buffer \<le> length c"
  shows "chunk_loop f (int off) (int n) EFI_SUCCESS buffer =
    (if off + n \<le> length c then (EFI_SUCCESS, take n (drop off c)) else (EFI_END_OF_FILE, drop off c))"
  using assms(2-4)
proof (induction "n - length buffer" arbitrary: buffer rule: less_induct)
  case less
  show ?case
  proof (cases "length buffer = n")
    case True
    then show ?thesis
      using less.prems by (subst chunk_loop.simps) simp
  next
    case False
    let ?p = "off + length buffer" and ?n = "min (int n - int (length buffer)) SIZE_1MB"
    have n: "0 < ?n" using False less.prems(2) by (simp add: SIZE_1MB_def)
    show ?thesis
    proof (cases "?p < length c")
      case True
      then obtain k where k: "0 < k" "int k \<le> ?n" "ef_read f (int ?p) ?n = (EFI_SUCCESS, take k (drop ?p c))"
        using assms(1) [unfolded reads_of_def, THEN spec, THEN spec, THEN mp, OF n, of ?p] by (simp only: if_True) blast
      let ?bytes = "take k (drop ?p c)"
      have ne: "?bytes \<noteq> []" and len: "length buffer + length ?bytes \<le> n" "length buffer < length (buffer @ ?bytes)"
        using k True by auto
      have b: "buffer @ ?bytes = take (length (buffer @ ?bytes)) (drop off c)"
        using less.prems(1) by (metis (no_types) add.commute append_eq_conv_conj drop_drop length_append take_add
            take_drop append_take_drop_id length_take min.idem take_all_iff nat_le_linear)
      have "chunk_loop f (int off) (int n) EFI_SUCCESS buffer =
        chunk_loop f (int off) (int n) EFI_SUCCESS (buffer @ ?bytes)"
        using k ne len(1) False less.prems(2) by (subst chunk_loop.simps) (simp add: Let_def)
      then show ?thesis
        using less.hyps [of "buffer @ ?bytes"] b len True by simp
    next
      case end_of_file: False
      have "ef_read f (int ?p) ?n = (EFI_SUCCESS, [])"
        using assms(1) [unfolded reads_of_def, THEN spec, THEN spec, THEN mp, OF n, of ?p] end_of_file
        by (simp only: if_False)
      then have "chunk_loop f (int off) (int n) EFI_SUCCESS buffer = (EFI_END_OF_FILE, buffer)"
        using False less.prems(2) by (subst chunk_loop.simps) (simp add: Let_def)
      then show ?thesis using end_of_file less.prems False by simp
    qed
  qed
qed

lemma chunked_read_reads:
  assumes "reads_of f c" "ef_getpos f = (EFI_SUCCESS, p)" "\<And>q. ef_setpos f q = EFI_SUCCESS" "off \<le> length c"
  shows "efi_file_chunked_read f (int off) (int n) =
    (if n = 0 then (EFI_SUCCESS, [])
     else if off + n \<le> length c then (EFI_SUCCESS, take n (drop off c)) else (EFI_END_OF_FILE, drop off c))"
  using chunk_loop_reads [OF assms(1), of "[]" off n] assms(2-4)
  by (simp add: efi_file_chunked_read_def Let_def EFI_ERROR_def efi_warnings_def)

text \<open>Whatever the calls answer: without an error, there are as many bytes as asked for.\<close>

lemma chunk_loop_length:
  "chunk_loop f off n status buffer = (status', buffer') \<Longrightarrow> \<not> EFI_ERROR status' \<Longrightarrow> int (length buffer) \<le> n \<Longrightarrow>
   int (length buffer') = n"
proof (induction f off n status buffer arbitrary: status' buffer' rule: chunk_loop.induct)
  case (1 f off n status buffer)
  show ?case
  proof (cases "int (length buffer) < n")
    case False
    then have "chunk_loop f off n status buffer = (status, buffer)"
      unfolding chunk_loop.simps [of f off n status buffer] Let_def by simp
    then show ?thesis using "1.prems" False by simp
  next
    case True
    obtain st bytes where r: "ef_read f (off + int (length buffer)) (min (n - int (length buffer)) SIZE_1MB) = (st, bytes)"
      by (meson prod.exhaust)
    have "chunk_loop f off n status buffer = (if EFI_ERROR st then (st, buffer)
      else if bytes = [] then (EFI_END_OF_FILE, buffer)
      else if int (length bytes) > n - int (length buffer) then (EFI_BAD_BUFFER_SIZE, buffer)
      else chunk_loop f off n st (buffer @ bytes))"
      unfolding chunk_loop.simps [of f off n status buffer] Let_def r using True by simp
    then have u: "(if EFI_ERROR st then (st, buffer)
      else if bytes = [] then (EFI_END_OF_FILE, buffer)
      else if int (length bytes) > n - int (length buffer) then (EFI_BAD_BUFFER_SIZE, buffer)
      else chunk_loop f off n st (buffer @ bytes)) = (status', buffer')"
      using "1.prems"(1) by simp
    have *: "\<not> EFI_ERROR st" "bytes \<noteq> []" "\<not> int (length bytes) > n - int (length buffer)"
      using u "1.prems"(2) by (auto split: if_splits)
    then have r2: "chunk_loop f off n st (buffer @ bytes) = (status', buffer')" using u by simp
    show ?thesis
      using "1.IH" [OF refl _ r [symmetric] refl *(1-3), of status' buffer'] r2 * True "1.prems"(2) by simp
  qed
qed

lemma chunked_read_length:
  "efi_file_chunked_read f off n = (status, buffer) \<Longrightarrow> \<not> EFI_ERROR status \<Longrightarrow> 0 \<le> n \<Longrightarrow> int (length buffer) = n"
  by (auto simp: efi_file_chunked_read_def Let_def split: if_splits prod.splits dest: chunk_loop_length)

section \<open>Whole files\<close>

text \<open>A file that reports its size and can be read.\<close>

definition file_serves :: "efi_file \<Rightarrow> cstring \<Rightarrow> bool" where
  "file_serves f c \<longleftrightarrow> reads_of f c \<and> fst (ef_info_size f) = EFI_BUFFER_TOO_SMALL \<and> snd (ef_info_size f) \<noteq> 0 \<and>
     ef_info f = (EFI_SUCCESS, length c) \<and> fst (ef_getpos f) = EFI_SUCCESS \<and> (\<forall>q. ef_setpos f q = EFI_SUCCESS)"

lemma serves_size:
  assumes "file_serves f c" "int (length c) \<le> SIZE_MAX64" "galloc g = (True, g')"
  shows "efi_file_get_size f g = ((EFI_SUCCESS, int (length c)), g')"
  using assms by (cases "ef_info_size f")
    (simp add: file_serves_def efi_file_get_size_def efi_file_get_info_def efi_file_get_info_by_def Let_def)

lemma serves_chunked: "file_serves f c \<Longrightarrow> efi_file_chunked_read f 0 (int (length c)) = (EFI_SUCCESS, c)"
  using chunked_read_reads [of f c "snd (ef_getpos f)" 0 "length c"]
  by (cases "ef_getpos f") (auto simp: file_serves_def)

lemma read_all_serves:
  assumes "file_serves f c" "int (length c) < SIZE_MAX64" "galloc g = (True, g1)" "galloc g1 = (True, g2)"
  shows "efi_file_read_all f g = ((EFI_SUCCESS, Some c), g2)"
  using serves_size [OF assms(1) _ assms(3)] serves_chunked [OF assms(1)] assms(2,4)
  by (simp add: efi_file_read_all_def Let_def)

section \<open>Pages\<close>

text \<open>The block and the pages of a buffer.\<close>

definition block_of :: "page_buffer \<Rightarrow> nat \<times> int" where
  "block_of b = (pb_block b, size_to_pages_int (int (length (pb_data b))))"

text \<open>The state \<open>s'\<close> has, beside the blocks of \<open>s\<close>, exactly the blocks \<open>bs\<close> with their pages.\<close>

definition pages_hold :: "page_state \<Rightarrow> (nat \<times> int) list \<Rightarrow> page_state \<Rightarrow> bool" where
  "pages_hold s bs s' \<longleftrightarrow> distinct (map fst bs) \<and> ps_tick s \<le> ps_tick s' \<and>
     (\<forall>(b, n) \<in> set bs. ps_live s' b = Some n \<and> ps_live s b = None \<and> b < ps_tick s') \<and>
     (\<forall>k. k \<notin> fst ` set bs \<longrightarrow> ps_live s' k = ps_live s k)"

text \<open>No live block has the name of a later request.\<close>

definition pages_fresh :: "page_state \<Rightarrow> bool" where
  "pages_fresh s \<longleftrightarrow> (\<forall>b. ps_live s b \<noteq> None \<longrightarrow> b < ps_tick s)"

lemma holds_nil [simp]: "pages_hold s [] s" by (simp add: pages_hold_def)

lemma holds_nothing: "pages_hold s [] s' \<Longrightarrow> ps_live s' = ps_live s" by (auto simp: pages_hold_def)

lemma alloc_pages_holds:
  assumes "pages_hold s bs s1" "pages_fresh s" "alloc_pages n s1 = ((status, b), s2)"
  shows "if EFI_ERROR status then pages_hold s bs s2 else pages_hold s (bs @ [(b, n)]) s2"
proof -
  have f: "ps_live s (ps_tick s1) = None"
    using assms(1,2) by (auto simp: pages_hold_def pages_fresh_def)
  have d: "ps_tick s1 \<notin> fst ` set bs" using assms(1) by (auto simp: pages_hold_def)
  show ?thesis
    using assms(1,3) f d by (force simp: pages_hold_def alloc_pages_def Let_def)
qed

lemma free_pages_holds:
  assumes "pages_hold s bs s1" "(b, n) \<in> set bs"
  shows "\<exists>s2. free_pages b n s1 = Some s2 \<and> pages_hold s (remove1 (b, n) bs) s2"
proof -
  have l: "ps_live s1 b = Some n" using assms by (auto simp: pages_hold_def)
  have d: "distinct (map fst bs)" using assms(1) by (simp add: pages_hold_def)
  have r: "set (remove1 (b, n) bs) = set bs - {(b, n)}" "distinct (map fst (remove1 (b, n) bs))"
    using d by (auto simp: set_remove1_eq distinct_map intro: inj_on_diff)
  have u: "(b, m) \<in> set bs \<Longrightarrow> m = n" for m using d assms(2) by (metis eq_key_imp_eq_value)
  have im: "fst ` (set bs - {(b, n)}) = fst ` set bs - {b}"
  proof (intro equalityI subsetI)
    fix k
    assume "k \<in> fst ` set bs - {b}"
    then show "k \<in> fst ` (set bs - {(b, n)})" by force
  qed (use u in force)
  define s2 where "s2 = s1\<lparr>ps_live := (ps_live s1)(b := None)\<rparr>"
  have "ps_live s b = None" using assms by (auto simp: pages_hold_def)
  have h: "\<And>c m. (c, m) \<in> set bs \<Longrightarrow> ps_live s1 c = Some m \<and> ps_live s c = None \<and> c < ps_tick s1"
    "\<And>k. k \<notin> fst ` set bs \<Longrightarrow> ps_live s1 k = ps_live s k" "ps_tick s \<le> ps_tick s1"
    using assms(1) by (auto simp: pages_hold_def)
  have "pages_hold s (remove1 (b, n) bs) s2"
    unfolding pages_hold_def r(1) im
  proof (intro conjI)
    show "\<forall>(c, m) \<in> set bs - {(b, n)}. ps_live s2 c = Some m \<and> ps_live s c = None \<and> c < ps_tick s2"
    proof
      fix x
      assume x: "x \<in> set bs - {(b, n)}"
      obtain c m where cm: "x = (c, m)" by (cases x)
      then have "c \<noteq> b" using x u by blast
      then show "case x of (c, m) \<Rightarrow> ps_live s2 c = Some m \<and> ps_live s c = None \<and> c < ps_tick s2"
        using h(1) [of c m] x cm by (simp add: s2_def)
    qed
    show "\<forall>k. k \<notin> fst ` set bs - {b} \<longrightarrow> ps_live s2 k = ps_live s k"
      using h(2) \<open>ps_live s b = None\<close> by (simp add: s2_def)
  qed (use r(2) h(3) in \<open>simp_all add: s2_def\<close>)
  then show ?thesis using l by (simp add: free_pages_def s2_def)
qed

lemma read_pages_holds:
  assumes "pages_hold s bs s1" "pages_fresh s"
  shows "\<exists>status r g' s2. efi_file_read_pages f (g, s1) = Some ((status, r), g', s2) \<and>
    (case r of None \<Rightarrow> pages_hold s bs s2 | Some b \<Rightarrow> \<not> EFI_ERROR status \<and> pages_hold s (bs @ [block_of b]) s2)"
proof -
  obtain status sz g1 where z: "efi_file_get_size f g = ((status, sz), g1)" by (metis prod.exhaust)
  have pos: "0 \<le> sz"
    using z by (auto simp: efi_file_get_size_def Let_def split: prod.splits option.splits if_splits)
  obtain st b s2 where a: "alloc_pages (size_to_pages_int sz) s1 = ((st, b), s2)" by (metis prod.exhaust)
  note h = alloc_pages_holds [OF assms a]
  obtain st2 buffer where c: "efi_file_chunked_read f 0 sz = (st2, buffer)" by (metis prod.exhaust)
  show ?thesis
  proof (cases "EFI_ERROR status \<or> sz = 0 \<or> EFI_ERROR st")
    case True
    then show ?thesis using z a h assms(1) by (auto simp: efi_file_read_pages_def Let_def)
  next
    case ok: False
    then have held: "pages_hold s (bs @ [(b, size_to_pages_int sz)]) s2" using h by simp
    show ?thesis
    proof (cases "EFI_ERROR st2")
      case True
      have "(b, size_to_pages_int sz) \<notin> set bs" using held by (force simp: pages_hold_def)
      then have rm: "remove1 (b, size_to_pages_int sz) (bs @ [(b, size_to_pages_int sz)]) = bs"
        by (simp add: remove1_append)
      have "(b, size_to_pages_int sz) \<in> set (bs @ [(b, size_to_pages_int sz)])" by simp
      from free_pages_holds [OF held this] show ?thesis
        unfolding rm using True ok z a c by (auto simp: efi_file_read_pages_def Let_def)
    next
      case False
      have "int (length buffer) = sz" using chunked_read_length [OF c False pos] .
      then show ?thesis
        using False ok z a c held by (auto simp: efi_file_read_pages_def Let_def block_of_def)
    qed
  qed
qed

lemma open_read_pages_holds:
  assumes "pages_hold s bs s1" "pages_fresh s"
  shows "\<exists>status r g' s2. efi_file_open_read_pages root path (g, s1) = Some ((status, r), g', s2) \<and>
    (case r of None \<Rightarrow> pages_hold s bs s2 | Some b \<Rightarrow> \<not> EFI_ERROR status \<and> pages_hold s (bs @ [block_of b]) s2)"
proof (cases "root = None")
  case False
  obtain st f g1 where o: "efi_open root path EFI_FILE_MODE_READ 0 g = ((st, f), g1)" by (metis prod.exhaust)
  show ?thesis
  proof (cases f)
    case None
    then show ?thesis using o False assms(1) by (auto simp: efi_file_open_read_pages_def Let_def)
  next
    case (Some fl)
    then show ?thesis
      using o False assms(1) read_pages_holds [OF assms, where f = fl and g = g1]
      by (cases "EFI_ERROR st") (auto simp: efi_file_open_read_pages_def Let_def)
  qed
qed (use assms(1) in \<open>auto simp: efi_file_open_read_pages_def\<close>)

text \<open>The conversion with its bound as an integer, for evaluation.\<close>

lemma encode_utf8_to_utf16_code [code]:
  "encode_utf8_to_utf16 oom utf8 =
     (case utf8 of
        None \<Rightarrow> None
      | Some s \<Rightarrow>
          if int (length s) > 9223372036854775806 \<or> oom then None
          else case encode_convert False
                 \<lparr>ei_src = ENC_UTF8, ei_dst = ENC_UTF16, ei_src_ptr = Some s, ei_has_dst = True,
                  ei_dst_size = (length s + 1) * 2, ei_transfers = None, ei_allow_invalid = True\<rparr> enc_out_zero of
            (st, r) \<Rightarrow> if st \<noteq> EFI_SUCCESS then None
                       else Some (takeWhile (\<lambda>w. w \<noteq> 0) (units_of (eo_buf r))))"
proof -
  have "SIZE_MAX div 2 - 1 < n \<longleftrightarrow> int n > 9223372036854775806" for n
  proof -
    have "SIZE_MAX div 2 - 1 = 9223372036854775806" by (simp add: SIZE_MAX_def)
    then show ?thesis by linarith
  qed
  then show ?thesis unfolding encode_utf8_to_utf16_def by (simp only:)
qed

end
