(* ===== verification/DtboFacts.thy ===== *)
theory DtboFacts
  imports Dtbo FileUtilsFacts
begin

text \<open>
  Overlays: an overlay that fails leaves the tree alone, and what the policies for failures promise about the
  status and the tree.
\<close>

section \<open>Loops over nodes\<close>

text \<open>An invariant \<open>P\<close> of the rounds, and \<open>Q\<close> for the end of the loop.\<close>

lemma each_loop_inv:
  assumes run: "each_loop body it x = Some y" and init: "P x"
    and step: "\<And>it x x'. P x \<Longrightarrow> body it x = Some (True, x') \<Longrightarrow> P x'"
    and stop: "\<And>it x x'. P x \<Longrightarrow> body it x = Some (False, x') \<Longrightarrow> Q x'"
    and fin: "\<And>x. P x \<Longrightarrow> Q x"
  shows "Q y"
proof -
  let ?P = "\<lambda>(body' :: citer \<Rightarrow> 'a \<times> embloader \<Rightarrow> (bool \<times> 'a \<times> embloader) option) (it :: citer) x y.
    body' = body \<longrightarrow> P x \<longrightarrow> Q y"
  have "(case ((body, it), x) of (bi, x) \<Rightarrow> (case bi of (b, it) \<Rightarrow> ?P b it) x) y"
  proof (rule each_loop.raw_induct [of "\<lambda>b it x y. ?P b it x y"], goal_cases)
    case 2
    show ?case using run by simp
  next
    case (1 loop body' it x y)
    show ?case
    proof (intro impI, cases "it_node it = None")
      case True
      then show "P x \<Longrightarrow> Q y" using 1(2) fin by simp
    next
      case False
      assume b: "body' = body" and p: "P x"
      from 1(2) False obtain go x' where s: "body it x = Some (go, x')"
        and r: "(if \<not> go then Some x' else do {
                   (_, it) \<leftarrow> confignode_iter_next it (g_cs (snd x'));
                   loop body' it x'}) = Some y"
        using b by (auto simp: bind_eq_Some_conv)
      show "Q y"
      proof (cases go)
        case True
        then obtain it' where l: "loop body' it' x' = Some y"
          using r by (auto simp: bind_eq_Some_conv)
        have "P x'" using step [OF p] s True by simp
        then show ?thesis using 1(1) [OF l] b by simp
      next
        case False
        then show ?thesis using r stop [OF p, of it x'] s by simp
      qed
    qed
  qed
  then show ?thesis using init by simp
qed

lemma each_path_node_inv:
  assumes "each_path_node body node path (a, g) = Some y" "\<And>g. P (a, g)"
    "\<And>it x x'. P x \<Longrightarrow> body it x = Some (True, x') \<Longrightarrow> P x'"
    "\<And>it x x'. P x \<Longrightarrow> body it x = Some (False, x') \<Longrightarrow> Q x'"
    "\<And>x. P x \<Longrightarrow> Q x"
  shows "Q y"
proof -
  obtain it g' where "each_loop body it (a, g') = Some y"
    using assms(1) by (auto simp: each_path_node_def bind_eq_Some_conv)
  then show ?thesis using each_loop_inv [of body it "(a, g')" y P Q] assms(2-5) by blast
qed

section \<open>One overlay\<close>

text \<open>The trees that come from \<open>t\<close> by applying \<open>n\<close> overlays.\<close>

inductive overlaid :: "'t fdt_ops \<Rightarrow> nat \<Rightarrow> 't \<Rightarrow> 't \<Rightarrow> bool" for F where
  none: "overlaid F 0 t t"
| one: "overlaid F n t t' \<Longrightarrow> linux_apply_dtbo F t' d g = Some ((True, t''), g') \<Longrightarrow> overlaid F (Suc n) t t''"

lemma apply_method_unchanged:
  assumes "apply_dtbo_method F base d m g = ((False, t), g')"
  shows "t = base"
proof -
  obtain ok g2 where a: "galloc g = (ok, g2)" by (meson prod.exhaust)
  obtain ret w where o: "fo_open_into F base = (ret, w)" by (meson prod.exhaust)
  let ?p = "if strcasecmp m ''libufdt'' = 0 then apply_dtbo_libufdt F w d
    else if strcasecmp m ''libfdt'' = 0 then apply_dtbo_libfdt F w d else (False, w)"
  obtain result w' where p: "?p = (result, w')" by (meson prod.exhaust)
  show ?thesis using assms unfolding apply_dtbo_method_def Let_def a o prod.case p
    by (cases ok; cases "ret = 0"; cases "result \<and> fo_check_header F w' = 0") simp_all
qed

lemma apply_dtbo_unchanged: "linux_apply_dtbo F base d g = Some ((False, t), g') \<Longrightarrow> t = base"
  by (auto simp: linux_apply_dtbo_def bind_eq_Some_conv split: if_splits option.splits
      dest: apply_method_unchanged)

text \<open>What a load of one overlay does to the tree.\<close>

definition one_overlay :: "'t fdt_ops \<Rightarrow> 't \<Rightarrow> bool \<Rightarrow> 't \<Rightarrow> bool" where
  "one_overlay F t ok t' = (if ok then \<exists>d g g'. linux_apply_dtbo F t d g = Some ((True, t'), g') else t' = t)"

lemma one_overlay_same [simp]: "one_overlay F t False t" by (simp add: one_overlay_def)

lemma one_overlay_failed: "one_overlay F t False t' \<Longrightarrow> t' = t" by (simp add: one_overlay_def)

lemma one_overlay_applied: "overlaid F n t0 t \<Longrightarrow> one_overlay F t True t' \<Longrightarrow> overlaid F (Suc n) t0 t'"
  by (auto simp: one_overlay_def intro: overlaid.one)

lemma apply_dtbo_one: "linux_apply_dtbo F t d g = Some ((ok, t'), g') \<Longrightarrow> one_overlay F t ok t'"
  by (cases ok) (auto simp: one_overlay_def dest: apply_dtbo_unchanged)

lemma do_load_dtbo_one: "do_load_dtbo F t base path params g = Some ((ok, t'), g') \<Longrightarrow> one_overlay F t ok t'"
  by (auto simp: do_load_dtbo_def Let_def bind_eq_Some_conv
      split: if_splits option.splits prod.splits intro: apply_dtbo_one)

lemma dtbo_dir_loop_one:
  "dtbo_dir_loop F t base path params dirs g = Some ((ok, t'), g') \<Longrightarrow> one_overlay F t ok t'"
proof (induction dirs arbitrary: g)
  case (Cons dir dirs)
  show ?case
  proof (cases "gstrdup (Some (dir @ (if endwith (Some dir) (CHR ''/'') then [] else ''/'') @ path @ ''.dtbo'')) g")
    case (Pair p g1)
    show ?thesis
    proof (cases p)
      case None
      then show ?thesis using Cons Pair by simp
    next
      case (Some q)
      then obtain ok1 t1 g2 where l: "do_load_dtbo F t base q params g1 = Some ((ok1, t1), g2)"
        and r: "(if ok1 then Some ((True, t1), g2) else dtbo_dir_loop F t1 base path params dirs g2) = Some ((ok, t'), g')"
        using Cons.prems Pair by (auto simp: bind_eq_Some_conv)
      from do_load_dtbo_one [OF l] show ?thesis
        using r Cons.IH by (cases ok1) (auto dest: one_overlay_failed)
    qed
  qed
qed simp

lemma do_load_dtbo_dirs_one:
  "do_load_dtbo_dirs F t base path params dirs g = Some ((ok, t'), g') \<Longrightarrow> one_overlay F t ok t'"
  by (auto simp: do_load_dtbo_dirs_def split: if_splits intro: do_load_dtbo_one dtbo_dir_loop_one)

lemma load_dtbo_one: "linux_load_dtbo F base t node dirs g = Some ((ok, t'), g') \<Longrightarrow> one_overlay F t ok t'"
  by (auto simp: linux_load_dtbo_def bind_eq_Some_conv split: if_splits option.splits intro: do_load_dtbo_dirs_one)

section \<open>The overlays of the configuration\<close>

definition dtbos_inv :: "'t fdt_ops \<Rightarrow> 't \<Rightarrow> (int \<times> bool \<times> 't) \<times> embloader \<Rightarrow> bool" where
  "dtbos_inv F t x = (let ((count, empty, t'), g) = x in
     0 \<le> count \<and> (empty \<longrightarrow> count = 0) \<and> overlaid F (nat count) t t')"

definition dtbos_end :: "'t fdt_ops \<Rightarrow> embloader_dtbo_on_error \<Rightarrow> 't \<Rightarrow> (int \<times> bool \<times> 't) \<times> embloader \<Rightarrow> bool" where
  "dtbos_end F on_error t x = (let ((count, empty, t'), g) = x in
     dtbos_inv F t x \<or>
     count = -1 \<and> on_error \<in> {DTBO_ERROR_FAILURE, DTBO_ERROR_REVERT} \<and> (\<exists>n. overlaid F n t t'))"

lemma dtbos_step_inv:
  assumes inv: "dtbos_inv F t x" and run: "dtbos_step F base dirs on_error it x = Some (go, x')"
  shows "if go then dtbos_inv F t x' else dtbos_end F on_error t x'"
proof -
  obtain count empty t1 g where x: "x = ((count, empty, t1), g)" by (metis prod.exhaust)
  have i: "0 \<le> count" "empty \<longrightarrow> count = 0" "overlaid F (nat count) t t1"
    using inv by (auto simp: x dtbos_inv_def)
  have skip: "dtbos_inv F t ((count, empty, t1), h)" for h
    using i by (simp add: dtbos_inv_def)
  have go: "if go then dtbos_inv F t x' else dtbos_end F on_error t x'"
    if l: "linux_load_dtbo F base t1 (it_node it) dirs h = Some ((ok, t2), h')"
      and r: "(go, x') = (if ok then (True, (count + 1, False, t2), h')
        else if on_error = DTBO_ERROR_FAILURE \<or> on_error = DTBO_ERROR_REVERT
        then (False, (-1, False, t2), h') else (True, (count, False, t2), h'))"
    for h ok t2 h'
  proof (cases ok)
    case True
    have "overlaid F (nat (count + 1)) t t2"
      using one_overlay_applied [OF i(3)] load_dtbo_one [OF l] True i(1) by (simp add: nat_add_distrib)
    then show ?thesis using r True i(1) by (simp add: dtbos_inv_def)
  next
    case False
    have "t2 = t1" using load_dtbo_one [OF l] False by (auto dest: one_overlay_failed)
    then show ?thesis
      using r False i by (cases "on_error = DTBO_ERROR_FAILURE \<or> on_error = DTBO_ERROR_REVERT")
        (auto simp: dtbos_inv_def dtbos_end_def)
  qed
  from run show ?thesis
    by (auto simp: x dtbos_step_def bind_eq_Some_conv skip split: if_splits dest: go)
qed

text \<open>
  The count of \<open>linux_load_dtbos\<close>: that many overlays were applied, or it is -1 because one failed
  under a policy that does not allow it, or none was applied and one was needed.
\<close>

lemma load_dtbos_count:
  assumes "linux_load_dtbos F loader base t [] on_error g = Some ((ret, t'), g')"
  shows "if ret < 0
         then ret = -1 \<and> (on_error = DTBO_ERROR_NEEDONE \<and> t' = t \<or>
                on_error \<in> {DTBO_ERROR_FAILURE, DTBO_ERROR_REVERT} \<and> (\<exists>n. overlaid F n t t'))
         else overlaid F (nat ret) t t'"
proof -
  obtain dirs g0 count empty g1 where
    r: "each_path_node (dtbos_step F base dirs on_error) (g_config g0) ''devicetree.overlays'' ((0, True, t), g0)
          = Some ((count, empty, t'), g1)"
    and ret: "ret = (if \<not> empty \<and> count = 0 \<and> on_error = DTBO_ERROR_NEEDONE then -1 else count)"
    using assms by (auto simp: linux_load_dtbos_def bind_eq_Some_conv Let_def split: prod.splits)
  have "dtbos_end F on_error t ((count, empty, t'), g1)"
  proof (rule each_path_node_inv [OF r, where P = "dtbos_inv F t"])
    show "dtbos_inv F t ((0, True, t), g)" for g by (simp add: dtbos_inv_def overlaid.none)
  qed (auto dest: dtbos_step_inv simp: dtbos_end_def split: if_splits)
  then show ?thesis
    using ret by (auto simp: dtbos_end_def dtbos_inv_def elim: overlaid.cases)
qed

section \<open>The overlays of a boot\<close>

lemma overlaid_zero [simp]: "overlaid F 0 t t' \<longleftrightarrow> t' = t"
  by (auto intro: overlaid.none elim: overlaid.cases)

text \<open>The loop over the overlays of the entry, from \<open>a\<close> applied and \<open>f\<close> failed ones.\<close>

lemma entry_overlays_count:
  assumes "entry_overlays F base dirs on_error backup os a f t g = Some ((r, t'), g')" "overlaid F a t0 t"
  shows "case r of
           Inl status \<Rightarrow> status = EFI_LOAD_ERROR \<and> on_error = DTBO_ERROR_FAILURE \<and> (\<exists>n. overlaid F n t0 t')
         | Inr (na, nf) \<Rightarrow>
             na = 0 \<and> nf = 0 \<and> on_error = DTBO_ERROR_REVERT \<and> backup = Some t' \<or>
             overlaid F na t0 t' \<and> na + nf = a + f + length os \<and> a \<le> na \<and> f \<le> nf \<and>
             (on_error = DTBO_ERROR_FAILURE \<or> on_error = DTBO_ERROR_REVERT \<and> backup \<noteq> None \<longrightarrow> nf = f)"
  using assms
proof (induction os arbitrary: a f t g)
  case (Cons x os)
  obtain ok t1 g1 where l: "do_load_dtbo_dirs F t base (lo_path x) (lo_params x) dirs g = Some ((ok, t1), g1)"
    and r: "(if ok then entry_overlays F base dirs on_error backup os (Suc a) f t1 g1
      else if on_error = DTBO_ERROR_FAILURE then Some ((Inl EFI_LOAD_ERROR, t1), g1)
      else case backup of
        Some b \<Rightarrow> if on_error = DTBO_ERROR_REVERT then Some ((Inr (0, 0), b), g1)
                  else entry_overlays F base dirs on_error backup os a (Suc f) t1 g1
      | None \<Rightarrow> entry_overlays F base dirs on_error backup os a (Suc f) t1 g1) = Some ((r, t'), g')"
    using Cons.prems(1) by (auto simp: bind_eq_Some_conv simp del: split_paired_Ex)
  note one = do_load_dtbo_dirs_one [OF l]
  show ?case
  proof (cases ok)
    case True
    from Cons.IH [of "Suc a" f t1 g1] r True one_overlay_applied [OF Cons.prems(2)] one show ?thesis
      by (auto split: sum.splits)
  next
    case False
    with one have t: "t1 = t" by (auto dest: one_overlay_failed)
    show ?thesis
    proof (cases "on_error = DTBO_ERROR_FAILURE \<or> on_error = DTBO_ERROR_REVERT \<and> backup \<noteq> None")
      case True
      then show ?thesis using r False t Cons.prems(2) by (cases backup) (auto split: if_splits)
    next
      case n: False
      then have "entry_overlays F base dirs on_error backup os a (Suc f) t g1 = Some ((r, t'), g')"
        using r False t by (auto split: option.splits)
      from Cons.IH [OF this Cons.prems(2)] n show ?thesis by (auto split: sum.splits)
    qed
  qed
qed auto

text \<open>What each policy promises of the status and of the tree \<open>t'\<close>, with \<open>k\<close> overlays in the entry.\<close>

definition policy_kept ::
  "'t fdt_ops \<Rightarrow> embloader_dtbo_on_error \<Rightarrow> nat \<Rightarrow> 't \<Rightarrow> efi_status \<Rightarrow> 't \<Rightarrow> bool" where
  "policy_kept F on_error k t status t' \<longleftrightarrow>
     (\<exists>n. overlaid F n t t' \<and>
       (on_error = DTBO_ERROR_FAILURE \<longrightarrow> status = EFI_LOAD_ERROR \<or> status = EFI_SUCCESS \<and> k \<le> n) \<and>
       (on_error = DTBO_ERROR_IGNORE \<longrightarrow> status = EFI_SUCCESS) \<and>
       (on_error = DTBO_ERROR_NEEDONE \<longrightarrow>
          status = EFI_LOAD_ERROR \<and> n = 0 \<or> status = EFI_SUCCESS \<and> (0 < n \<or> k = 0)) \<and>
       (on_error = DTBO_ERROR_REVERT \<longrightarrow>
          status \<in> {EFI_SUCCESS, EFI_DEVICE_ERROR, EFI_OUT_OF_RESOURCES} \<and>
          (n = 0 \<or> status = EFI_SUCCESS \<and> k \<le> n)))"

lemma apply_overlays_policy:
  assumes "apply_overlays F loader info on_error (if on_error = DTBO_ERROR_REVERT then Some t else None) t g =
    Some ((status, t'), g')"
  shows "policy_kept F on_error (length (li_dtoverlay info)) t status t'"
proof -
  let ?b = "if on_error = DTBO_ERROR_REVERT then Some t else None"
  obtain dirs g0 ret t1 g1 where
    l: "linux_load_dtbos F loader (li_root info) t [] on_error g0 = Some ((ret, t1), g1)"
    and r: "(if ret < 0 \<and> on_error = DTBO_ERROR_FAILURE then Some ((EFI_LOAD_ERROR, t1), g1)
      else if ret < 0 \<and> on_error = DTBO_ERROR_REVERT \<and> ?b \<noteq> None then Some ((EFI_SUCCESS, the ?b), g1)
      else do {
        ((r, fdt), g) \<leftarrow> entry_overlays F (li_root info) dirs on_error ?b (li_dtoverlay info)
          (if ret > 0 then nat ret else 0) (if ret < 0 \<and> on_error = DTBO_ERROR_NEEDONE then 1 else 0) t1 g1;
        Some ((case r of
                 Inl status \<Rightarrow> status
               | Inr (napplied, nfailed) \<Rightarrow>
                   if on_error = DTBO_ERROR_NEEDONE \<and> napplied = 0 \<and> nfailed > 0 then EFI_LOAD_ERROR
                   else EFI_SUCCESS, fdt), g)
      }) = Some ((status, t'), g')"
    using assms by (auto simp: apply_overlays_def bind_eq_Some_conv simp del: split_paired_Ex)
  note c = load_dtbos_count [OF l]
  show ?thesis
  proof (cases "ret < 0 \<and> on_error \<in> {DTBO_ERROR_FAILURE, DTBO_ERROR_REVERT}")
    case True
    then show ?thesis
      using r c by (auto simp: policy_kept_def split: if_splits intro: exI [of _ 0])
  next
    case False
    let ?a = "if ret > 0 then nat ret else 0" and ?f = "if ret < 0 \<and> on_error = DTBO_ERROR_NEEDONE then 1 else (0 :: nat)"
    obtain r where e: "entry_overlays F (li_root info) dirs on_error ?b (li_dtoverlay info) ?a ?f t1 g1
          = Some ((r, t'), g')"
      and s: "status = (case r of
                 Inl status \<Rightarrow> status
               | Inr (napplied, nfailed) \<Rightarrow>
                   if on_error = DTBO_ERROR_NEEDONE \<and> napplied = 0 \<and> nfailed > 0 then EFI_LOAD_ERROR
                   else EFI_SUCCESS)"
      using r False by (auto simp: bind_eq_Some_conv split: if_splits)
    have a: "overlaid F ?a t t1" using c False by (auto split: if_splits)
    note k = entry_overlays_count [OF e a]
    show ?thesis
    proof (cases r)
      case (Inl st)
      then show ?thesis using k s by (auto simp: policy_kept_def)
    next
      case (Inr p)
      obtain na nf where p: "p = (na, nf)" by (meson prod.exhaust)
      show ?thesis
      proof (cases "on_error = DTBO_ERROR_REVERT \<and> na = 0 \<and> nf = 0 \<and> ?b = Some t'")
        case True
        then show ?thesis using s Inr p by (auto simp: policy_kept_def intro: exI [of _ 0])
      next
        case n: False
        then have q: "overlaid F na t t'" "na + nf = ?a + ?f + length (li_dtoverlay info)" "?f \<le> nf"
          "on_error = DTBO_ERROR_FAILURE \<or> on_error = DTBO_ERROR_REVERT \<longrightarrow> nf = ?f"
          using k Inr p by auto
        have "0 \<le> ret" if "on_error = DTBO_ERROR_FAILURE \<or> on_error = DTBO_ERROR_REVERT" using False that by auto
        then show ?thesis unfolding policy_kept_def
          using q s Inr p by (intro exI [of _ na]) (auto split: if_splits)
      qed
    qed
  qed
qed

lemma overlay_tree_policy:
  assumes "overlay_tree F loader info on_error t g = Some ((status, t'), g')"
  shows "policy_kept F on_error (length (li_dtoverlay info)) t status t'"
proof (cases "on_error = DTBO_ERROR_REVERT")
  case True
  have early: "policy_kept F DTBO_ERROR_REVERT k t st t" if "st \<in> {EFI_DEVICE_ERROR, EFI_OUT_OF_RESOURCES}" for k st
    using that by (auto simp: policy_kept_def intro!: exI [of _ 0])
  obtain ok g1 where a: "galloc g = (ok, g1)" by (meson prod.exhaust)
  then show ?thesis
    using assms True early apply_overlays_policy [of F loader info on_error t g1 status t' g']
    by (auto simp: overlay_tree_def split: if_splits)
next
  case False
  then show ?thesis
    using assms apply_overlays_policy [of F loader info on_error t g status t' g'] by (simp add: overlay_tree_def)
qed

lemma prepare_own: "prepare_dtoverlay_fdt F tables root loader (Some t) d = Some (EFI_SUCCESS, d)"
  by (simp add: prepare_dtoverlay_fdt_def)

lemma load_dtoverlay_policy:
  assumes "linux_load_dtoverlay F tables root loader (Some t) info d = Some ((status, own'), d')"
    and "linux_get_dtbo_on_error (dt_g d) = Some (on_error, g0)"
  obtains t' where "own' = Some t'" "dt_fdt d' = dt_fdt d"
    "policy_kept F on_error (length (li_dtoverlay info)) t status t'"
proof -
  obtain configured g where c: "(if li_dtoverlay info \<noteq> [] then Some (None, g0)
      else glookup (g_config g0) ''devicetree.overlays'' g0) = Some (configured, g)"
    and r: "(if li_dtoverlay info = [] \<and> configured = None then Some ((EFI_SUCCESS, Some t), d\<lparr>dt_g := g\<rparr>)
      else do {
        ((status, fdt), g) \<leftarrow> overlay_tree F loader info on_error t g;
        Some ((status, Some fdt), d\<lparr>dt_g := g\<rparr>)
      }) = Some ((status, own'), d')"
    using assms
    by (auto simp: linux_load_dtoverlay_def prepare_own bind_eq_Some_conv split: if_splits)
  show ?thesis
  proof (cases "li_dtoverlay info = [] \<and> configured = None")
    case True
    have "policy_kept F on_error 0 t EFI_SUCCESS t"
      by (auto simp: policy_kept_def intro!: exI [of _ 0])
    then show ?thesis using that r True by auto
  next
    case False
    then obtain t' g' where "overlay_tree F loader info on_error t g = Some ((status, t'), g')"
      "own' = Some t'" "d' = d\<lparr>dt_g := g'\<rparr>"
      using r by (auto simp: bind_eq_Some_conv)
    then show ?thesis by (intro that [of t']) (auto dest: overlay_tree_policy)
  qed
qed

text \<open>A boot without a tree of its own changes the tree of the loader, in the same way.\<close>

lemma load_dtoverlay_shared_policy:
  assumes "linux_load_dtoverlay F tables root loader None info d = Some ((status, own'), d')"
    and "linux_get_dtbo_on_error (dt_g d) = Some (on_error, g0)"
  shows "own' = None \<and>
    (status = EFI_SUCCESS \<and> dt_fdt d' = dt_fdt d \<or>
     (\<exists>g st d1. prepare_dtoverlay_fdt F tables root loader None (d\<lparr>dt_g := g\<rparr>) = Some (st, d1) \<and>
        (EFI_ERROR st \<and> status = st \<and> d' = d1 \<or>
         \<not> EFI_ERROR st \<and>
         (case dt_fdt d1 of
            None \<Rightarrow> status = EFI_SUCCESS \<and> d' = d1
          | Some t \<Rightarrow> \<exists>t'. dt_fdt d' = Some t' \<and> policy_kept F on_error (length (li_dtoverlay info)) t status t'))))"
proof -
  obtain configured g where c: "(if li_dtoverlay info \<noteq> [] then Some (None, g0)
      else glookup (g_config g0) ''devicetree.overlays'' g0) = Some (configured, g)"
    and r: "(if li_dtoverlay info = [] \<and> configured = None then Some ((EFI_SUCCESS, None), d\<lparr>dt_g := g\<rparr>)
      else do {
        (status, d) \<leftarrow> prepare_dtoverlay_fdt F tables root loader None (d\<lparr>dt_g := g\<rparr>);
        (if EFI_ERROR status then Some ((status, None), d)
         else case dt_fdt d of
                None \<Rightarrow> Some ((EFI_SUCCESS, None), d)
              | Some fdt \<Rightarrow> do {
                  ((status, fdt), g) \<leftarrow> overlay_tree F loader info on_error fdt (dt_g d);
                  Some ((status, None), d\<lparr>dt_g := g, dt_fdt := Some fdt\<rparr>)
                })
      }) = Some ((status, own'), d')"
    using assms unfolding linux_load_dtoverlay_def
    by (auto simp: bind_eq_Some_conv simp del: not_None_eq split: if_splits)
  show ?thesis
  proof (cases "li_dtoverlay info = [] \<and> configured = None")
    case True
    then show ?thesis using r by auto
  next
    case False
    then obtain st d1 where p: "prepare_dtoverlay_fdt F tables root loader None (d\<lparr>dt_g := g\<rparr>) = Some (st, d1)"
      and r': "(if EFI_ERROR st then Some ((st, None), d1)
         else case dt_fdt d1 of
                None \<Rightarrow> Some ((EFI_SUCCESS, None), d1)
              | Some fdt \<Rightarrow> do {
                  ((status, fdt), g) \<leftarrow> overlay_tree F loader info on_error fdt (dt_g d1);
                  Some ((status, None), d1\<lparr>dt_g := g, dt_fdt := Some fdt\<rparr>)
                }) = Some ((status, own'), d')"
      using r by (auto simp: bind_eq_Some_conv)
    show ?thesis
    proof (cases "EFI_ERROR st \<or> dt_fdt d1 = None")
      case True
      then have "own' = None \<and> (EFI_ERROR st \<and> status = st \<and> d' = d1 \<or>
          \<not> EFI_ERROR st \<and> dt_fdt d1 = None \<and> status = EFI_SUCCESS \<and> d' = d1)"
        using r' by (cases "EFI_ERROR st") simp_all
      then show ?thesis using p
        by - (rule conjI, blast, rule disjI2, rule exI [of _ g], rule exI [of _ st], rule exI [of _ d1], auto)
    next
      case ok: False
      then obtain t t' g' where "dt_fdt d1 = Some t" "overlay_tree F loader info on_error t (dt_g d1) = Some ((status, t'), g')"
        "own' = None" "d' = d1\<lparr>dt_g := g', dt_fdt := Some t'\<rparr>"
        using r' by (auto simp: bind_eq_Some_conv)
      then show ?thesis using p ok
        by (auto intro!: exI [of _ g] exI [of _ st] exI [of _ d1] dest: overlay_tree_policy)
    qed
  qed
qed

section \<open>An overlay that fails under the policy \<open>revert\<close>\<close>

text \<open>Trees are lists of the applied overlays; the library refuses an overlay that starts with \<open>x\<close>.\<close>

definition demo_fdt :: "cstring fdt_ops" where
  "demo_fdt = \<lparr>fo_check_full = (\<lambda>_. 0), fo_view = id, fo_check_header = (\<lambda>_. 0), fo_totalsize = (\<lambda>_. 100),
     fo_open_into = (\<lambda>t. (0, t)), fo_pack = (\<lambda>t. (0, t)),
     fo_ufdt_apply = (\<lambda>t d. if hdc d = CHR ''x'' then None else Some (t @ d)), fo_overlay_apply = (\<lambda>t d. (0, t @ d)),
     fo_path_offset = (\<lambda>_ _. 0), fo_by_phandle = (\<lambda>_ _. 0), fo_parent_offset = (\<lambda>_ _. -1),
     fo_first_subnode = (\<lambda>_ _. -1), fo_next_subnode = (\<lambda>_ _. -1), fo_getprop = (\<lambda>_ _ _. Inl (-1)),
     fo_setprop = (\<lambda>t _ _ _. (0, t)), fo_setprop_string = (\<lambda>t _ _ _. (0, t)),
     fo_setprop_u32 = (\<lambda>t _ _ _. (0, t)), fo_setprop_u64 = (\<lambda>t _ _ _. (0, t)),
     fo_appendprop_u32 = (\<lambda>t _ _ _. (0, t)), fo_appendprop_u64 = (\<lambda>t _ _ _. (0, t)),
     fo_delprop = (\<lambda>t _ _. (0, t)), fo_add_subnode = (\<lambda>t _ _. (0, t)), fo_del_node = (\<lambda>t _. (0, t)),
     fo_stringlist_get = (\<lambda>_ _ _ _. None)\<rparr>"

definition demo_dt :: "cstring dt_state" where
  "demo_dt = \<lparr>dt_g = \<lparr>g_cs = \<lparr>nodes = [1 \<mapsto> fresh_node\<lparr>cn_type := TYPE_MAP, cn_items := [2]\<rparr>,
       2 \<mapsto> fresh_node\<lparr>cn_parent := Some 1, cn_key := Some ''devicetree'', cn_type := TYPE_MAP, cn_items := [3]\<rparr>,
       3 \<mapsto> fresh_node\<lparr>cn_parent := Some 2, cn_key := Some ''dtbo-on-error'', cn_type := TYPE_VALUE,
              cn_value := \<lparr>cv_v = VString (Some ''revert''), cv_len = 6\<rparr>\<rparr>],
       cnxt = 4, coom = (\<lambda>_. False), ctick = 0\<rparr>,
     g_next = 5, g_config = Some 1, g_sysinfo = None, g_ktype = None, g_device_name = None, g_profiles = [],
     g_menu = None, g_sdboot = None\<rparr>, dt_fdt = None\<rparr>"

text \<open>A volume where the content of a file is its name.\<close>

definition demo_volume :: efi_root where
  "demo_volume = (\<lambda>wpath mode attr. let c = map (\<lambda>u. char_of (unat u)) (tl wpath) in
     (EFI_SUCCESS, Some \<lparr>ef_info_size = (EFI_BUFFER_TOO_SMALL, 80), ef_info = (EFI_SUCCESS, length c),
        ef_getpos = (EFI_SUCCESS, 0), ef_setpos = (\<lambda>_. EFI_SUCCESS),
        ef_read = (\<lambda>p n. (EFI_SUCCESS, take (nat n) (drop (nat p) c)))\<rparr>))"

definition demo_bootinfo :: "efi_root linux_bootinfo" where
  "demo_bootinfo = (zero_bootinfo zero_loader)\<lparr>li_root := Some demo_volume, li_kernel := Some ''/Image'',
     li_dtoverlay := [\<lparr>lo_path = ''/a'', lo_params = None\<rparr>, \<lparr>lo_path = ''/x'', lo_params = None\<rparr>]\<rparr>"

declare path_lookup.simps [code] each_loop.simps [code]

lemma demo_overlays:
  "map_option (\<lambda>((status, own), d). (status, own))
     (linux_load_dtoverlay demo_fdt [] None None (Some ''base'') demo_bootinfo demo_dt) =
   Some (EFI_SUCCESS, Some ''base'')"
  "map_option fst (linux_get_dtbo_on_error (dt_g demo_dt)) = Some DTBO_ERROR_REVERT"
  by code_simp+

end
