(* ===== verification/EncodeFacts.thy ===== *)
theory EncodeFacts
  imports Encode
begin

text \<open>
  Facts about the converters: every conversion stays inside its buffers; a code point survives
  encoding and decoding in both formats; the simple wrappers always have room and are inverse to
  each other on valid text.
\<close>

section \<open>Bits\<close>

lemma and_masks:
  "x AND 0x3F = take_bit 6 x" "x AND 0x1F = take_bit 5 x" "x AND 0x0F = take_bit 4 x"
  "x AND 0x07 = take_bit 3 x" "x AND 0x3FF = take_bit 10 x" for x :: "'a :: len word"
  by (simp_all add: take_bit_eq_mask mask_eq_exp_minus_1)

lemma unat_low [simp]: "unat (take_bit n x) = unat x mod 2 ^ n" for x :: "'a :: len word"
  by (simp only: unsigned_take_bit_eq) (simp add: take_bit_eq_mod)

lemma unat_high [simp]: "unat (drop_bit n x) = unat x div 2 ^ n" for x :: "'a :: len word"
  by (simp only: unat_drop_bit_eq) (simp add: drop_bit_eq_div)

lemma take_bit_small: "unat x < 2 ^ n \<Longrightarrow> take_bit n x = x" for x :: "'a :: len word"
  by (rule word_unat_eq_iff [THEN iffD2]) simp

lemma byte_or:
  fixes y :: "32 word"
  assumes "k AND y = 0" "unat k + unat y < 256"
  shows "unat (ucast (k OR y) :: 8 word) = unat k + unat y"
proof -
  have "k OR y = k + y" using assms(1) by (simp add: disjunctive_add_eq_or)
  moreover have "unat (k + y) = unat k + unat y" using assms(2) by (simp add: unat_word_ariths)
  ultimately show ?thesis using assms(2) by (simp add: unsigned_ucast_eq take_bit_eq_mod)
qed

lemma disjoint_low: "k AND mask n = 0 \<Longrightarrow> k AND take_bit n x = 0" for x :: "'a :: len word"
  by (metis and.left_commute and_zero_eq take_bit_eq_mask)

text \<open>Lead and continuation bytes.\<close>

lemma small_and:
  fixes y :: "'a :: len word"
  assumes "unat y < 2 ^ n" "k AND mask n = 0"
  shows "k AND y = 0"
  using disjoint_low [OF assms(2), of y] take_bit_small [OF assms(1)] by simp

lemma lead2: "unat y < 32 \<Longrightarrow> unat (ucast (0xC0 OR y :: 32 word) :: 8 word) = 192 + unat y"
  by (subst byte_or) (simp_all add: small_and [of y 5] mask_eq_exp_minus_1)

lemma lead3: "unat y < 16 \<Longrightarrow> unat (ucast (0xE0 OR y :: 32 word) :: 8 word) = 224 + unat y"
  by (subst byte_or) (simp_all add: small_and [of y 4] mask_eq_exp_minus_1)

lemma lead4: "unat y < 8 \<Longrightarrow> unat (ucast (0xF0 OR y :: 32 word) :: 8 word) = 240 + unat y"
  by (subst byte_or) (simp_all add: small_and [of y 3] mask_eq_exp_minus_1)

lemma cont: "unat (ucast (0x80 OR (y AND 0x3F) :: 32 word) :: 8 word) = 128 + unat y mod 64"
proof -
  have "unat (y AND 0x3F) = unat y mod 64" by (simp add: and_masks)
  then show ?thesis
    by (subst byte_or) (simp_all add: small_and [of _ 6] mask_eq_exp_minus_1)
qed

lemma cont_byte_iff: "cont_byte b \<longleftrightarrow> unat b div 64 = 2"
proof -
  have "b AND 0xC0 = push_bit 6 (drop_bit 6 b)"
  proof (rule bit_word_eqI)
    fix n assume "n < LENGTH(8)"
    then have "n \<in> {0, 1, 2, 3, 4, 5, 6, 7}" by auto
    then show "bit (b AND 0xC0) n = bit (push_bit 6 (drop_bit 6 b)) n"
      by (auto simp: bit_and_iff bit_push_bit_iff bit_drop_bit_eq)
  qed
  moreover have "(0x80 :: 8 word) = push_bit 6 2" by simp
  moreover have "push_bit 6 (drop_bit 6 b) = push_bit 6 2 \<longleftrightarrow> drop_bit 6 b = 2"
  proof
    assume "push_bit 6 (drop_bit 6 b) = push_bit 6 (2 :: 8 word)"
    then have "drop_bit 6 (push_bit 6 (drop_bit 6 b)) = drop_bit 6 (push_bit 6 (2 :: 8 word))" by simp
    moreover have "drop_bit 6 (push_bit 6 (drop_bit 6 b)) = drop_bit 6 b"
      by (rule bit_word_eqI) (auto simp: bit_push_bit_iff bit_drop_bit_eq dest: bit_imp_le_length)
    ultimately show "drop_bit 6 b = 2" by simp
  qed simp
  ultimately have "cont_byte b \<longleftrightarrow> drop_bit 6 b = 2" by (simp add: cont_byte_def)
  also have "\<dots> \<longleftrightarrow> unat (drop_bit 6 b) = 2" by (simp add: word_unat_eq_iff)
  finally show ?thesis by simp
qed

lemma cont_byte_cont [simp]: "cont_byte (ucast (0x80 OR (y AND 0x3F) :: 32 word))"
  by (simp add: cont_byte_iff cont)

lemma unat_up: "unat (ucast b :: 32 word) = unat (b :: 8 word)"
  using unsigned_less [of b, where ?'a = nat] by (simp add: unsigned_ucast_eq take_bit_nat_eq_self)

lemma mod_facts:
  "(128 + x mod 64) mod 64 = x mod 64" "x < 32 \<Longrightarrow> (192 + x) mod 32 = x"
  "x < 16 \<Longrightarrow> (224 + x) mod 16 = x" "x < 8 \<Longrightarrow> (240 + x) mod 8 = x" for x :: nat
  by (subst mod_add_eq [symmetric], simp)+

text \<open>The second byte's bounds, from the bounds of the code point.\<close>

lemma second_byte3:
  fixes n :: nat
  assumes "2048 \<le> n" "n < 65536" "\<not> (0xD800 \<le> n \<and> n \<le> 0xDFFF)"
  shows "0 < n div 4096 \<or> 32 \<le> n div 64 mod 64" "n div 4096 = 13 \<longrightarrow> n div 64 mod 64 \<le> 31"
proof -
  have q: "n div 4096 = n div 64 div 64" by (simp add: div_mult2_eq [symmetric])
  have lo: "32 \<le> n div 64" using assms(1) by simp
  have hi: "n div 64 < 864 \<or> 896 \<le> n div 64"
  proof (cases "n < 55296")
    case False
    with assms(3) have "57344 \<le> n" by simp
    then show ?thesis using div_le_mono [of 57344 n 64] by simp
  qed (simp add: less_mult_imp_div_less)
  show "0 < n div 4096 \<or> 32 \<le> n div 64 mod 64" "n div 4096 = 13 \<longrightarrow> n div 64 mod 64 \<le> 31"
    unfolding q using mult_div_mod_eq [of 64 "n div 64"] mod_less_divisor [of 64 "n div 64"] lo hi by linarith+
qed

lemma second_byte4:
  fixes n :: nat
  assumes "65536 \<le> n" "n < 0x110000"
  shows "0 < n div 262144 \<or> 16 \<le> n div 4096 mod 64" "n div 262144 = 4 \<longrightarrow> n div 4096 mod 64 \<le> 15"
proof -
  have q: "n div 262144 = n div 4096 div 64" by (simp add: div_mult2_eq [symmetric])
  have "16 \<le> n div 4096" "n div 4096 < 272" using assms by simp_all
  then show "0 < n div 262144 \<or> 16 \<le> n div 4096 mod 64" "n div 262144 = 4 \<longrightarrow> n div 4096 mod 64 \<le> 15"
    unfolding q using mult_div_mod_eq [of 64 "n div 4096"] by linarith+
qed

lemma payload:
  "u32 (ucast (0x80 OR (y AND 0x3F) :: 32 word) AND 0x3F) = take_bit 6 y"
  by (rule word_unat_eq_iff [THEN iffD2]) (simp add: u32_def and_masks(1) [where 'a = 8] cont unat_up mod_facts)

lemma payload_lead:
  "unat y < 32 \<Longrightarrow> u32 (ucast (0xC0 OR y :: 32 word) AND 0x1F) = y"
  "unat y < 16 \<Longrightarrow> u32 (ucast (0xE0 OR y :: 32 word) AND 0x0F) = y"
  "unat y < 8 \<Longrightarrow> u32 (ucast (0xF0 OR y :: 32 word) AND 0x07) = y"
  by (rule word_unat_eq_iff [THEN iffD2],
      simp add: u32_def and_masks(2-4) [where 'a = 8] lead2 lead3 lead4 unat_up mod_facts)+

lemma glue2: "push_bit 6 (drop_bit 6 x) OR take_bit 6 x = x" for x :: "32 word"
  by (rule bit_word_eqI) (auto simp: bit_or_iff bit_push_bit_iff bit_drop_bit_eq bit_take_bit_iff)

lemma glue3:
  "push_bit 12 (drop_bit 12 x) OR push_bit 6 (take_bit 6 (drop_bit 6 x)) OR take_bit 6 x = x"
  for x :: "32 word"
proof (rule bit_word_eqI)
  fix n assume "n < LENGTH(32)"
  then show "bit (push_bit 12 (drop_bit 12 x) OR push_bit 6 (take_bit 6 (drop_bit 6 x)) OR take_bit 6 x) n = bit x n"
    by (cases "n < 6"; cases "n < 12"; cases "n < 18")
       (auto simp: bit_or_iff bit_push_bit_iff bit_drop_bit_eq bit_take_bit_iff)
qed

lemma glue4:
  "push_bit 18 (drop_bit 18 x) OR push_bit 12 (take_bit 6 (drop_bit 12 x)) OR
     push_bit 6 (take_bit 6 (drop_bit 6 x)) OR take_bit 6 x = x"
  for x :: "32 word"
proof (rule bit_word_eqI)
  fix n assume "n < LENGTH(32)"
  then show "bit (push_bit 18 (drop_bit 18 x) OR push_bit 12 (take_bit 6 (drop_bit 12 x)) OR
     push_bit 6 (take_bit 6 (drop_bit 6 x)) OR take_bit 6 x) n = bit x n"
    by (cases "n < 6"; cases "n < 12"; cases "n < 18")
       (auto simp: bit_or_iff bit_push_bit_iff bit_drop_bit_eq bit_take_bit_iff)
qed

section \<open>Code points\<close>

definition scalar :: "32 word \<Rightarrow> bool" where
  "scalar cp \<longleftrightarrow> cp < 0x110000 \<and> \<not> (0xD800 \<le> cp \<and> cp \<le> 0xDFFF)"

lemma scalar_nat:
  "scalar cp \<longleftrightarrow> unat cp < 0x110000 \<and> \<not> (0xD800 \<le> unat cp \<and> unat cp \<le> 0xDFFF)"
  by (simp add: scalar_def word_less_nat_alt word_le_nat_alt)

lemma byte_cmp:
  "(numeral k :: 8 word) \<le> b \<longleftrightarrow> unat (numeral k :: 8 word) \<le> unat b"
  "b \<le> (numeral k :: 8 word) \<longleftrightarrow> unat b \<le> unat (numeral k :: 8 word)"
  "b < (numeral k :: 8 word) \<longleftrightarrow> unat b < unat (numeral k :: 8 word)"
  "b = (numeral k :: 8 word) \<longleftrightarrow> unat b = unat (numeral k :: 8 word)"
  by (simp_all only: word_le_nat_alt word_less_nat_alt word_unat_eq_iff)

lemma cp_cmp:
  "(numeral k :: 32 word) \<le> b \<longleftrightarrow> unat (numeral k :: 32 word) \<le> unat b"
  "b < (numeral k :: 32 word) \<longleftrightarrow> unat b < unat (numeral k :: 32 word)"
  "(numeral k :: 32 word) < b \<longleftrightarrow> unat (numeral k :: 32 word) < unat b"
  by (simp_all only: word_le_nat_alt word_less_nat_alt word_unat_eq_iff)

lemma utf8_decode_bytes:
  assumes "scalar cp"
  shows "utf8_decode (utf8_bytes cp @ r) = Some (cp, length (utf8_bytes cp))"
proof -
  let ?n = "unat cp"
  have n: "?n < 0x110000" "\<not> (0xD800 \<le> ?n \<and> ?n \<le> 0xDFFF)" using assms by (simp_all add: scalar_nat)
  consider (one) "?n < 128" | (two) "128 \<le> ?n" "?n < 2048" | (three) "2048 \<le> ?n" "?n < 65536"
    | (four) "65536 \<le> ?n" by linarith
  then show ?thesis
  proof cases
    case one
    then have "unat (ucast cp :: 8 word) = ?n" by (simp add: unsigned_ucast_eq take_bit_eq_mod)
    then have "u32 (ucast cp) = cp" by (simp only: u32_def word_unat_eq_iff unat_up)
    with one \<open>unat (ucast cp :: 8 word) = ?n\<close> show ?thesis
      by (simp add: utf8_bytes_def utf8_decode_def cp_cmp byte_cmp)
  next
    case two
    have y: "unat (drop_bit 6 cp) < 32" "2 \<le> unat (drop_bit 6 cp)" using two by simp_all
    show ?thesis
      using two y by (simp add: utf8_bytes_def utf8_decode_def cp_cmp byte_cmp lead2 payload payload_lead glue2 Let_def)
  next
    case three
    have y: "unat (drop_bit 12 cp) < 16" using three by simp
    show ?thesis
      using three y second_byte3 [OF three n(2)]
      by (auto simp add: utf8_bytes_def utf8_decode_def cp_cmp byte_cmp lead3 cont payload payload_lead glue3 Let_def)
  next
    case four
    have y: "unat (drop_bit 18 cp) < 8" "?n div 262144 \<le> 4" using four n by simp_all
    show ?thesis
      using four y second_byte4 [OF four n(1)]
      by (auto simp add: utf8_bytes_def utf8_decode_def cp_cmp byte_cmp lead4 cont payload payload_lead glue4 Let_def)
  qed
qed

section \<open>UTF-16 units\<close>

lemma get16_le16: "get16 (le16 w @ r) 0 = w"
proof (rule bit_word_eqI)
  fix n assume "n < LENGTH(16)"
  then show "bit (get16 (le16 w @ r) 0) n = bit w n"
    by (cases "n < 8")
       (auto simp: get16_def le16_def bit_or_iff bit_push_bit_iff bit_ucast_iff bit_drop_bit_eq dest: bit_imp_le_length)
qed

lemma get16_drop: "i + 2 \<le> length s \<Longrightarrow> get16 s i = get16 (drop i s) 0"
  by (simp add: get16_def)

lemma length_le16 [simp]: "length (le16 w) = 2"
  by (simp add: le16_def)

lemma le_units_simps [simp]:
  "le_units [] = []" "le_units (w # ws) = le16 w @ le_units ws" "le_units (us @ ws) = le_units us @ le_units ws"
  by (simp_all add: le_units_def)

lemma length_le_units [simp]: "length (le_units ws) = 2 * length ws"
  by (induction ws) simp_all

lemma unat_16 [simp]: "unat (ucast w :: 32 word) = unat w" for w :: "16 word"
  using unsigned_less [of w, where ?'a = nat] by (simp add: unsigned_ucast_eq take_bit_nat_eq_self)

lemma unat_to_16: "unat x < 65536 \<Longrightarrow> unat (ucast x :: 16 word) = unat x" for x :: "32 word"
  by (simp add: unsigned_ucast_eq take_bit_nat_eq_self)

lemma surrogate_or:
  fixes y :: "32 word"
  assumes "unat y < 1024"
  shows "unat (ucast (0xD800 OR y) :: 16 word) = 0xD800 + unat y"
    and "unat (ucast (0xDC00 OR y) :: 16 word) = 0xDC00 + unat y"
proof -
  have "0xD800 AND y = 0" "0xDC00 AND y = 0"
    using assms by (simp_all add: small_and [of y 10] mask_eq_exp_minus_1)
  then have "0xD800 OR y = 0xD800 + y" "0xDC00 OR y = 0xDC00 + y"
    by (simp_all add: disjunctive_add_eq_or)
  then have "unat (0xD800 OR y) = 0xD800 + unat y" "unat (0xDC00 OR y) = 0xDC00 + unat y"
    using assms by (simp_all add: unat_word_ariths)
  with assms show "unat (ucast (0xD800 OR y) :: 16 word) = 0xD800 + unat y"
    "unat (ucast (0xDC00 OR y) :: 16 word) = 0xDC00 + unat y"
    by (simp_all add: unat_to_16)
qed

lemma unit_cmp:
  "(numeral k :: 16 word) \<le> b \<longleftrightarrow> unat (numeral k :: 16 word) \<le> unat b"
  "b \<le> (numeral k :: 16 word) \<longleftrightarrow> unat b \<le> unat (numeral k :: 16 word)"
  by (simp_all only: word_le_nat_alt)

lemma hd_pair_decode:
  assumes "0xD800 \<le> unat h" "unat h < 0xD800 + 1024" "0xDC00 \<le> unat l" "unat l < 0xDC00 + 1024"
    and "get16 (le16 h @ le16 l @ r) 2 = l" "0x10000 + push_bit 10 (ucast h - 0xD800) + (ucast l - 0xDC00) = cp"
  shows "utf16_decode (hd [h, l]) (le_units [h, l] @ r) = Some (cp, 2 * length [h, l])"
  using assms by (simp add: utf16_decode_def unit_cmp Let_def)

lemma utf16_decode_units:
  assumes "scalar cp"
  shows "utf16_decode (hd (utf16_units cp)) (le_units (utf16_units cp) @ r) =
     Some (cp, 2 * length (utf16_units cp))"
proof -
  let ?n = "unat cp"
  have n: "?n < 0x110000" "\<not> (0xD800 \<le> ?n \<and> ?n \<le> 0xDFFF)" using assms by (simp_all add: scalar_nat)
  show ?thesis
  proof (cases "?n < 65536")
    case True
    define w :: "16 word" where "w = ucast cp"
    have u: "unat w = ?n" using unat_to_16 [OF True] by (simp add: w_def)
    then have "ucast w = cp" by (simp only: word_unat_eq_iff unat_16)
    moreover have "utf16_units cp = [w]" using True by (simp add: utf16_units_def cp_cmp w_def)
    moreover have "unat w < 0xD800 \<or> 0xDFFF < unat w" using n u by linarith
    ultimately show ?thesis
      by (elim disjE) (simp_all add: utf16_decode_def unit_cmp)
  next
    case False
    let ?x = "cp - 0x10000"
    have x: "unat ?x = ?n - 65536" using False by (subst unat_sub) (simp_all add: word_le_nat_alt)
    have hi: "unat (drop_bit 10 ?x) < 1024" using n x by simp
    have lo: "unat (?x AND 0x3FF) = unat ?x mod 1024" by (simp add: and_masks)
    define h l :: "16 word" where "h = ucast (0xD800 OR drop_bit 10 ?x)" and "l = ucast (0xDC00 OR (?x AND 0x3FF))"
    have h: "unat h = 0xD800 + unat ?x div 1024" using surrogate_or(1) [OF hi] by (simp add: h_def)
    have l: "unat l = 0xDC00 + unat ?x mod 1024" using surrogate_or(2) [of "?x AND 0x3FF"] lo by (simp add: l_def)
    have second: "get16 (le16 h @ le16 l @ r) 2 = l"
      using get16_drop [of 2 "le16 h @ le16 l @ r"] get16_le16 [of l r] by (simp add: le16_def)
    have join: "0x10000 + push_bit 10 (ucast h - 0xD800) + (ucast l - 0xDC00) = cp"
    proof -
      have "unat (ucast h - 0xD800 :: 32 word) = unat ?x div 1024"
        using h by (subst unat_sub) (simp_all add: word_le_nat_alt)
      then have "ucast h - 0xD800 = drop_bit 10 ?x" by (simp add: word_unat_eq_iff)
      moreover have "unat (ucast l - 0xDC00 :: 32 word) = unat ?x mod 1024"
        using l by (subst unat_sub) (simp_all add: word_le_nat_alt)
      then have "ucast l - 0xDC00 = take_bit 10 ?x" by (simp add: word_unat_eq_iff)
      moreover have "push_bit 10 (drop_bit 10 ?x) + take_bit 10 ?x = ?x" by (rule bits_ident)
      ultimately show ?thesis by (simp add: add.assoc)
    qed
    have units: "utf16_units cp = [h, l]"
      using False by (simp add: utf16_units_def cp_cmp Let_def h_def l_def)
    show ?thesis
      unfolding units
    proof (rule hd_pair_decode)
      show "0xD800 \<le> unat h" "unat h < 0xD800 + 1024" "0xDC00 \<le> unat l" "unat l < 0xDC00 + 1024"
        using h l hi by simp_all
    qed (fact second join)+
  qed
qed

section \<open>Staying inside the buffers\<close>

lemma proc_transfers_ok:
  assumes "proc_transfers c s d trs = (EFI_SUCCESS, s', bs)" "s \<le> length (ei_bytes c)" "d \<le> ei_dst_size c"
  shows "s < s' \<and> s' \<le> length (ei_bytes c) \<and> d + length bs \<le> ei_dst_size c"
  using assms by (induction c s d trs rule: proc_transfers.induct) (auto split: if_splits)

lemma transfer_step_ok:
  assumes "transfer_step c cap us ud i out = Some (Inr (i', out'))" "i \<le> length (ei_bytes c)" "length out \<le> cap"
  shows "i < i' \<and> i' \<le> length (ei_bytes c) \<and> length out' \<le> cap \<and> length out' mod ud = 0"
proof -
  obtain st si bs where p: "encode_proc_transfer (c\<lparr>ei_dst_size := cap\<rparr>) i (length out) = (st, si, bs)"
    using prod_cases3 by blast
  from assms(1) p have st: "st = EFI_SUCCESS" "i < si" "i' = si" "out' = out @ bs" "length out' mod ud = 0"
    by (auto simp: transfer_step_def split: if_splits)
  have "proc_transfers (c\<lparr>ei_dst_size := cap\<rparr>) i (length out) (the (ei_transfers c)) = (EFI_SUCCESS, si, bs)"
    using p st(1) by (simp add: encode_proc_transfer_def split: if_splits)
  from proc_transfers_ok [OF this] assms(2,3) st show ?thesis by simp
qed

lemma utf8_decode_len:
  assumes "utf8_decode s = Some (cp, k)" "s \<noteq> []"
  shows "1 \<le> k \<and> k \<le> length s"
  using assms by (auto simp: utf8_decode_def Let_def Suc_le_eq split: if_splits)

lemma utf16_decode_len:
  assumes "utf16_decode wc s = Some (cp, k)" "2 \<le> length s"
  shows "2 \<le> k \<and> k \<le> length s"
  using assms by (auto simp: utf16_decode_def Let_def split: if_splits)

definition utf8_res_ok :: "enc_in \<Rightarrow> nat \<Rightarrow> nat \<Rightarrow> efi_status \<times> bool \<times> nat \<times> bytes \<Rightarrow> bool" where
  "utf8_res_ok c cap i r \<longleftrightarrow>
     (case r of (st, bad, i', out) \<Rightarrow> length out \<le> cap \<and> even (length out) \<and> i \<le> i' \<and> i' \<le> length (ei_bytes c))"

lemma utf8_res_ok_mono: "utf8_res_ok c cap i r \<Longrightarrow> j \<le> i \<Longrightarrow> utf8_res_ok c cap j r"
  by (auto simp: utf8_res_ok_def)

declare utf8_loop.simps [simp del] utf16_loop.simps [simp del]

lemma utf8_loop_stop:
  "\<not> (i < length (ei_bytes c) \<and> ei_bytes c ! i \<noteq> 0) \<Longrightarrow> utf8_loop c cap bad i out = (EFI_SUCCESS, bad, i, out)"
  by (subst utf8_loop.simps) (simp only: if_False)

lemma utf8_loop_plain:
  assumes "i < length (ei_bytes c)" "ei_bytes c ! i \<noteq> 0" "transfer_step c cap 1 2 i out = None"
    and "utf8_decode (drop i (ei_bytes c)) = Some (cp, k)"
    and "length (utf16_units cp) \<le> cap div 2 - length out div 2"
  shows "utf8_loop c cap bad i out = utf8_loop c cap bad (i + k) (out @ le_units (utf16_units cp))"
  using assms by (simp add: utf8_loop.simps [of c cap bad i out] Let_def)

lemma utf8_loop_invalid:
  assumes "i < length (ei_bytes c)" "ei_bytes c ! i \<noteq> 0" "transfer_step c cap 1 2 i out = None"
    and "utf8_decode (drop i (ei_bytes c)) = None" "ei_allow_invalid c"
    and "length (utf16_units QUESTION) \<le> cap div 2 - length out div 2"
  shows "utf8_loop c cap bad i out = utf8_loop c cap True (i + 1) (out @ le_units (utf16_units QUESTION))"
  using assms by (simp add: utf8_loop.simps [of c cap bad i out] Let_def)

lemma utf8_loop_safe:
  assumes "length out \<le> cap" "even (length out)" "even cap" "i \<le> length (ei_bytes c)"
  shows "utf8_res_ok c cap i (utf8_loop c cap bad i out)"
  using assms
proof (induction c cap bad i out rule: utf8_loop.induct)
  case (1 c cap bad i out)
  show ?case
  proof (cases "i < length (ei_bytes c) \<and> ei_bytes c ! i \<noteq> 0")
    case False
    then have "utf8_loop c cap bad i out = (EFI_SUCCESS, bad, i, out)" by (rule utf8_loop_stop)
    with "1.prems" show ?thesis by (simp add: utf8_res_ok_def)
  next
    case go: True
    show ?thesis
    proof (cases "transfer_step c cap 1 2 i out")
      case (Some r)
      show ?thesis
      proof (cases r)
        case (Inl st)
        with go Some "1.prems" show ?thesis by (simp add: utf8_loop.simps [of c] utf8_res_ok_def)
      next
        case (Inr p)
        obtain i' out' where p: "p = (i', out')" by fastforce
        have t: "i < i' \<and> i' \<le> length (ei_bytes c) \<and> length out' \<le> cap \<and> length out' mod 2 = 0"
          using transfer_step_ok [of c cap 1 2 i out i' out'] Some Inr p go "1.prems" by simp
        then have "utf8_res_ok c cap i' (utf8_loop c cap bad i' out')"
          using "1.IH"(2) [OF go Some Inr p [symmetric]] "1.prems" by (simp add: even_iff_mod_2_eq_zero)
        with t go Some Inr p show ?thesis
          by (simp add: utf8_loop.simps [of c cap bad i out] utf8_res_ok_mono)
      qed
    next
      case None
      let ?d = "utf8_decode (drop i (ei_bytes c))"
      obtain cp k where pk: "(case ?d of Some p \<Rightarrow> p | None \<Rightarrow> (QUESTION, 1)) = (cp, k)" by fastforce
      show ?thesis
      proof (cases "?d = None \<and> \<not> ei_allow_invalid c \<or> length (utf16_units cp) > cap div 2 - length out div 2")
        case True
        with go None pk "1.prems" show ?thesis
          by (auto simp: utf8_loop.simps [of c cap bad i out] utf8_res_ok_def Let_def)
      next
        case False
        have k: "1 \<le> k \<and> i + k \<le> length (ei_bytes c)"
          using pk go utf8_decode_len [of "drop i (ei_bytes c)" cp k] by (auto split: option.splits)
        have fit: "length (out @ le_units (utf16_units cp)) \<le> cap" using False "1.prems"(1-3) by (auto elim!: evenE)
        have "utf8_res_ok c cap (i + k)
            (utf8_loop c cap (bad \<or> ?d = None) (i + k) (out @ le_units (utf16_units cp)))"
          using "1.IH"(1) [OF go None refl refl _ refl pk [symmetric] refl] False fit k "1.prems" by auto
        moreover have "utf8_loop c cap bad i out =
            utf8_loop c cap (bad \<or> ?d = None) (i + k) (out @ le_units (utf16_units cp))"
          using False go None pk by (auto simp: utf8_loop.simps [of c cap bad i out] Let_def)
        ultimately show ?thesis by (simp add: utf8_res_ok_mono)
      qed
    qed
  qed
qed

text \<open>The other direction.\<close>

definition utf16_res_ok :: "enc_in \<Rightarrow> nat \<Rightarrow> nat \<Rightarrow> efi_status \<times> bool \<times> bool \<times> nat \<times> bytes \<Rightarrow> bool" where
  "utf16_res_ok c cap i r \<longleftrightarrow>
     (case r of (st, tm, bad, i', out) \<Rightarrow> length out \<le> cap \<and> i \<le> i' \<and> i' \<le> length (ei_bytes c))"

lemma utf16_res_ok_mono: "utf16_res_ok c cap i r \<Longrightarrow> j \<le> i \<Longrightarrow> utf16_res_ok c cap j r"
  by (auto simp: utf16_res_ok_def)

lemma utf16_loop_stop:
  "\<not> 2 \<le> length (ei_bytes c) - i \<Longrightarrow> utf16_loop c cap bad i out = (EFI_SUCCESS, False, bad, i, out)"
  by (subst utf16_loop.simps) (simp only: if_False)

lemma utf16_loop_nul:
  "2 \<le> length (ei_bytes c) - i \<Longrightarrow> get16 (ei_bytes c) i = 0 \<Longrightarrow>
   utf16_loop c cap bad i out = (EFI_SUCCESS, True, bad, i, out)"
  by (subst utf16_loop.simps) (simp add: Let_def)

lemma utf16_loop_plain:
  assumes "2 \<le> length (ei_bytes c) - i" "get16 (ei_bytes c) i \<noteq> 0" "transfer_step c cap 2 1 i out = None"
    and "utf16_decode (get16 (ei_bytes c) i) (drop i (ei_bytes c)) = Some (cp, k)"
    and "length (utf8_bytes cp) \<le> cap - length out"
  shows "utf16_loop c cap bad i out = utf16_loop c cap bad (i + k) (out @ utf8_bytes cp)"
  using assms by (simp add: utf16_loop.simps [of c cap bad i out] Let_def)

lemma utf16_loop_invalid:
  assumes "2 \<le> length (ei_bytes c) - i" "get16 (ei_bytes c) i \<noteq> 0" "transfer_step c cap 2 1 i out = None"
    and "utf16_decode (get16 (ei_bytes c) i) (drop i (ei_bytes c)) = None" "ei_allow_invalid c"
    and "length (utf8_bytes QUESTION) \<le> cap - length out"
  shows "utf16_loop c cap bad i out = utf16_loop c cap True (i + 2) (out @ utf8_bytes QUESTION)"
  using assms by (simp add: utf16_loop.simps [of c cap bad i out] Let_def)

lemma utf16_loop_safe:
  assumes "length out \<le> cap" "i \<le> length (ei_bytes c)"
  shows "utf16_res_ok c cap i (utf16_loop c cap bad i out)"
  using assms
proof (induction c cap bad i out rule: utf16_loop.induct)
  case (1 c cap bad i out)
  show ?case
  proof (cases "2 \<le> length (ei_bytes c) - i")
    case False
    then have "utf16_loop c cap bad i out = (EFI_SUCCESS, False, bad, i, out)" by (rule utf16_loop_stop)
    with "1.prems" show ?thesis by (simp add: utf16_res_ok_def)
  next
    case go: True
    show ?thesis
    proof (cases "get16 (ei_bytes c) i = 0")
      case True
      with go "1.prems" show ?thesis by (simp add: utf16_loop_nul utf16_res_ok_def)
    next
      case wc: False
      show ?thesis
      proof (cases "transfer_step c cap 2 1 i out")
        case (Some r)
        show ?thesis
        proof (cases r)
          case (Inl st)
          with go wc Some "1.prems" show ?thesis
            by (simp add: utf16_loop.simps [of c] utf16_res_ok_def Let_def)
        next
          case (Inr p)
          obtain i' out' where p: "p = (i', out')" by fastforce
          have t: "i < i' \<and> i' \<le> length (ei_bytes c) \<and> length out' \<le> cap"
            using transfer_step_ok [of c cap 2 1 i out i' out'] Some Inr p go "1.prems" by simp
          then have "utf16_res_ok c cap i' (utf16_loop c cap bad i' out')"
            using "1.IH"(2) [OF go refl wc Some Inr p [symmetric]] "1.prems" by simp
          with t go wc Some Inr p show ?thesis
            by (simp add: utf16_loop.simps [of c cap bad i out] utf16_res_ok_mono Let_def)
        qed
      next
        case None
        let ?d = "utf16_decode (get16 (ei_bytes c) i) (drop i (ei_bytes c))"
        obtain cp k where pk: "(case ?d of Some p \<Rightarrow> p | None \<Rightarrow> (QUESTION, 2)) = (cp, k)" by fastforce
        show ?thesis
        proof (cases "?d = None \<and> \<not> ei_allow_invalid c \<or> length (utf8_bytes cp) > cap - length out")
          case True
          with go wc None pk "1.prems" show ?thesis
            by (auto simp: utf16_loop.simps [of c cap bad i out] utf16_res_ok_def Let_def)
        next
          case False
          have k: "2 \<le> k \<and> i + k \<le> length (ei_bytes c)"
            using pk go utf16_decode_len [of _ "drop i (ei_bytes c)" cp k] by (fastforce split: option.splits)
          have fit: "length (out @ utf8_bytes cp) \<le> cap" using False "1.prems"(1,2) by auto
          have "utf16_res_ok c cap (i + k)
              (utf16_loop c cap (bad \<or> ?d = None) (i + k) (out @ utf8_bytes cp))"
            using "1.IH"(1) [OF go refl wc None refl refl _ refl pk [symmetric] refl] False fit k "1.prems" by auto
          moreover have "utf16_loop c cap bad i out =
              utf16_loop c cap (bad \<or> ?d = None) (i + k) (out @ utf8_bytes cp)"
            using False go wc None pk by (auto simp: utf16_loop.simps [of c cap bad i out] Let_def)
          ultimately show ?thesis by (simp add: utf16_res_ok_mono)
        qed
      qed
    qed
  qed
qed

text \<open>What a conversion leaves: everything inside the destination, the terminator included.\<close>

definition conversion_ok :: "enc_in \<Rightarrow> nat \<Rightarrow> enc_out \<Rightarrow> bool" where
  "conversion_ok c unit r \<longleftrightarrow> eo_src_used r \<le> length (ei_bytes c) \<and>
     length (eo_buf r) \<le> ei_dst_size c \<and> eo_dst_wrote r + unit = length (eo_buf r) \<and>
     drop (eo_dst_wrote r) (eo_buf r) = replicate unit 0"

lemma replicate_two: "replicate 2 x = [x, x]"
  by (simp add: numeral_2_eq_2)

lemma utf8_convert_safe:
  assumes "ei_src_ptr c = Some s" "ei_has_dst c" "2 \<le> ei_dst_size c"
    and "encode_utf8_to_utf16_convert c o0 = (st, r)"
  shows "conversion_ok c 2 r \<and> even (eo_dst_wrote r)"
proof -
  let ?cap = "(ei_dst_size c div 2 - 1) * 2"
  obtain st' bad i out where l: "utf8_loop c ?cap (eo_have_invalid o0) 0 [] = (st', bad, i, out)"
    by (metis prod_cases4)
  have "utf8_res_ok c ?cap 0 (st', bad, i, out)"
    unfolding l [symmetric] by (rule utf8_loop_safe) simp_all
  moreover have "r = \<lparr>eo_src_used = i, eo_dst_wrote = length out, eo_have_invalid = bad, eo_buf = out @ [0, 0]\<rparr>"
    using assms(1-3) assms(4) [unfolded encode_utf8_to_utf16_convert_def l] by (auto split: if_splits)
  moreover have "?cap + 2 \<le> ei_dst_size c" using assms(3) by presburger
  ultimately show ?thesis
    using le_trans [of "length out + 2" "?cap + 2" "ei_dst_size c"]
    by (simp add: utf8_res_ok_def conversion_ok_def replicate_two)
qed

lemma utf16_convert_safe:
  assumes "ei_src_ptr c = Some s" "ei_has_dst c" "1 \<le> ei_dst_size c"
    and "encode_utf16_to_utf8_convert c o0 = (st, r)"
  shows "conversion_ok c 1 r"
proof -
  let ?cap = "ei_dst_size c - 1"
  obtain st' tm bad i out where l: "utf16_loop c ?cap (eo_have_invalid o0) 0 [] = (st', tm, bad, i, out)"
    by (metis prod_cases5)
  have ok: "utf16_res_ok c ?cap 0 (st', tm, bad, i, out)"
    unfolding l [symmetric] by (rule utf16_loop_safe) simp_all
  show ?thesis
    using assms l ok
    by (auto simp: encode_utf16_to_utf8_convert_def utf16_res_ok_def conversion_ok_def Let_def split: if_splits)
qed

section \<open>There is always room\<close>

lemma low16:
  "take_bit 16 (u32 c) = u32 c"
  "take_bit 16 (push_bit 6 (u32 (c AND 0x1F)) OR u32 (d AND 0x3F)) = push_bit 6 (u32 (c AND 0x1F)) OR u32 (d AND 0x3F)"
  "take_bit 16 (push_bit 12 (u32 (c AND 0x0F)) OR push_bit 6 (u32 (d AND 0x3F)) OR u32 (e AND 0x3F)) =
     push_bit 12 (u32 (c AND 0x0F)) OR push_bit 6 (u32 (d AND 0x3F)) OR u32 (e AND 0x3F)"
  by (rule bit_word_eqI, auto simp: and_masks u32_def bit_or_iff bit_push_bit_iff bit_take_bit_iff bit_ucast_iff
      dest: bit_imp_le_length)+

lemma units_short: "take_bit 16 cp = cp \<Longrightarrow> length (utf16_units cp) = 1"
proof -
  assume "take_bit 16 cp = cp"
  then have "unat cp = unat cp mod 65536" using unat_low [of 16 cp] by simp
  then have "unat cp < 65536" by (metis mod_less_divisor zero_less_numeral)
  then show ?thesis by (simp add: utf16_units_def cp_cmp)
qed

lemma utf8_decode_units:
  assumes "utf8_decode s = Some (cp, k)"
  shows "length (utf16_units cp) \<le> k"
proof -
  have two: "length (utf16_units cp) \<le> 2" by (simp add: utf16_units_def Let_def)
  from assms two show ?thesis
    using units_short [OF low16(1)] units_short [OF low16(2)] units_short [OF low16(3)]
    by (auto simp: utf8_decode_def Let_def split: if_splits)
qed

lemma utf16_decode_bytes:
  assumes "utf16_decode wc s = Some (cp, k)"
  shows "2 * length (utf8_bytes cp) \<le> 3 * k"
proof -
  have four: "length (utf8_bytes cp) \<le> 4" by (simp add: utf8_bytes_def)
  have "unat (ucast wc :: 32 word) < 65536" using unsigned_less [of wc, where ?'a = nat] by simp
  then have "length (utf8_bytes (ucast wc)) \<le> 3" by (simp add: utf8_bytes_def cp_cmp)
  with assms four show ?thesis
    by (auto simp: utf16_decode_def Let_def split: if_splits)
qed

lemma utf8_loop_room:
  assumes "ei_transfers c = None" "ei_allow_invalid c"
    and "length out + 2 * (length (ei_bytes c) - i) \<le> cap" "even (length out)" "even cap"
  shows "fst (utf8_loop c cap bad i out) = EFI_SUCCESS"
  using assms(3,4)
proof (induction "length (ei_bytes c) - i" arbitrary: i bad out rule: less_induct)
  case less
  have t: "transfer_step c cap 1 2 i out = None" using assms(1) by (simp add: transfer_step_def)
  show ?case
  proof (cases "i < length (ei_bytes c) \<and> ei_bytes c ! i \<noteq> 0")
    case False
    then have "utf8_loop c cap bad i out = (EFI_SUCCESS, bad, i, out)" by (rule utf8_loop_stop)
    then show ?thesis by simp
  next
    case go: True
    have half: "cap div 2 - length out div 2 = (cap - length out) div 2"
      using less.prems assms(5) by (auto elim!: evenE)
    show ?thesis
    proof (cases "utf8_decode (drop i (ei_bytes c))")
      case None
      have one: "length (utf16_units QUESTION) = 1" by (simp add: utf16_units_def QUESTION_def)
      have "2 \<le> cap - length out" using less.prems(1) go by linarith
      then have "length (utf16_units QUESTION) \<le> cap div 2 - length out div 2"
        unfolding half one by linarith
      moreover have "length (ei_bytes c) - (i + 1) < length (ei_bytes c) - i" using go by linarith
      ultimately show ?thesis
        using utf8_loop_invalid [OF _ _ t None assms(2), of bad] go
          less.hyps [of "i + 1" "out @ le_units (utf16_units QUESTION)" True] less.prems one
        by simp
    next
      case (Some p)
      obtain cp k where p: "p = (cp, k)" by fastforce
      have k: "1 \<le> k" "k \<le> length (ei_bytes c) - i" "length (utf16_units cp) \<le> k"
        using utf8_decode_len [of "drop i (ei_bytes c)" cp k] utf8_decode_units [of _ cp k] Some p go by auto
      have "length (utf16_units cp) \<le> cap div 2 - length out div 2"
        unfolding half using less.prems k by simp
      from utf8_loop_plain [OF _ _ t Some [unfolded p] this] go
        less.hyps [of "i + k" "out @ le_units (utf16_units cp)" bad] less.prems k
      show ?thesis by simp
    qed
  qed
qed

lemma utf16_loop_room:
  assumes "ei_transfers c = None" "ei_allow_invalid c"
    and "2 * length out + 3 * (length (ei_bytes c) - i) \<le> 2 * cap"
  shows "case utf16_loop c cap bad i out of (st, tm, bad', i', out') \<Rightarrow> st = EFI_SUCCESS \<and>
     (tm \<or> length (ei_bytes c) - i' < 2) \<and> (even i \<longrightarrow> even i')"
  using assms(3)
proof (induction "length (ei_bytes c) - i" arbitrary: i bad out rule: less_induct)
  case less
  have t: "transfer_step c cap 2 1 i out = None" using assms(1) by (simp add: transfer_step_def)
  show ?case
  proof (cases "2 \<le> length (ei_bytes c) - i \<and> get16 (ei_bytes c) i \<noteq> 0")
    case False
    then show ?thesis
      by (cases "2 \<le> length (ei_bytes c) - i") (simp_all add: utf16_loop_stop utf16_loop_nul)
  next
    case go: True
    show ?thesis
    proof (cases "utf16_decode (get16 (ei_bytes c) i) (drop i (ei_bytes c))")
      case None
      have one: "length (utf8_bytes QUESTION) = 1" by (simp add: utf8_bytes_def QUESTION_def)
      then have "length (utf8_bytes QUESTION) \<le> cap - length out" using less.prems go by linarith
      moreover have "length (ei_bytes c) - (i + 2) < length (ei_bytes c) - i" using go by linarith
      moreover have "2 * length (out @ utf8_bytes QUESTION) + 3 * (length (ei_bytes c) - (i + 2)) \<le> 2 * cap"
      proof -
        obtain k where k: "length (ei_bytes c) - i = 2 + k" using conjunct1 [OF go] le_Suc_ex by metis
        then have "length (ei_bytes c) - (i + 2) = k" by simp
        with k less.prems one show ?thesis by simp
      qed
      ultimately show ?thesis
        using utf16_loop_invalid [OF _ _ t None assms(2), of bad] go less.hyps [of "i + 2" "out @ utf8_bytes QUESTION" True]
        by (auto split: prod.splits)
    next
      case (Some p)
      obtain cp k where p: "p = (cp, k)" by fastforce
      have k: "2 \<le> k" "k \<le> length (ei_bytes c) - i" "2 * length (utf8_bytes cp) \<le> 3 * k"
        using utf16_decode_len [of _ "drop i (ei_bytes c)" cp k] utf16_decode_bytes [of _ _ cp k] Some p go
        by (fastforce)+
      have "even k" using Some p by (auto simp: utf16_decode_def Let_def split: if_splits)
      have "length (utf8_bytes cp) \<le> cap - length out" using less.prems k by simp
      moreover have "length (ei_bytes c) - (i + k) < length (ei_bytes c) - i" using go k by linarith
      moreover have "2 * length (out @ utf8_bytes cp) + 3 * (length (ei_bytes c) - (i + k)) \<le> 2 * cap"
        using less.prems k by simp
      ultimately show ?thesis
        using utf16_loop_plain [OF _ _ t Some [unfolded p], of bad] go less.hyps [of "i + k" "out @ utf8_bytes cp" bad]
          \<open>even k\<close>
        by (auto split: prod.splits)
    qed
  qed
qed

lemma simple_utf8_total: "encode_utf8_to_utf16 oom (Some s) = None \<longleftrightarrow> oom \<or> SIZE_MAX div 2 - 1 < length s"
proof -
  let ?c = "\<lparr>ei_src = ENC_UTF8, ei_dst = ENC_UTF16, ei_src_ptr = Some s, ei_has_dst = True,
      ei_dst_size = (length s + 1) * 2, ei_transfers = None, ei_allow_invalid = True\<rparr>"
  have "fst (utf8_loop ?c (length s * 2) False 0 []) = EFI_SUCCESS"
    by (rule utf8_loop_room) simp_all
  then have "fst (encode_convert False ?c enc_out_zero) = EFI_SUCCESS"
    by (auto simp: encode_convert_def encode_dispatch_def encode_utf8_to_utf16_convert_def enc_out_zero_def split: prod.splits)
  then show ?thesis
    by (auto simp: encode_utf8_to_utf16_def split: prod.splits)
qed

lemma simple_utf16_total: "encode_utf16_to_utf8 oom (Some s) = None \<longleftrightarrow> oom \<or> (SIZE_MAX - 1) div 3 < length s"
proof -
  let ?c = "\<lparr>ei_src = ENC_UTF16, ei_dst = ENC_UTF8, ei_src_ptr = Some (le_units s), ei_has_dst = True,
      ei_dst_size = length s * 3 + 1, ei_transfers = None, ei_allow_invalid = True\<rparr>"
  obtain st tm bad i out where l: "utf16_loop ?c (length s * 3) False 0 [] = (st, tm, bad, i, out)"
    by (metis prod_cases5)
  have st: "st = EFI_SUCCESS" "tm \<or> 2 * length s - i < 2" "even i"
    using utf16_loop_room [of ?c "[]" 0 "length s * 3" False] l by simp_all
  then have "tm \<or> \<not> i < 2 * length s" by (auto elim!: evenE)
  then have "fst (encode_convert False ?c enc_out_zero) = EFI_SUCCESS"
    using l st(1)
    by (auto simp: encode_convert_def encode_dispatch_def encode_utf16_to_utf8_convert_def enc_out_zero_def Let_def)
  then show ?thesis
    by (auto simp: encode_utf16_to_utf8_def split: prod.splits)
qed

section \<open>Valid text\<close>

definition text8 :: "32 word list \<Rightarrow> bytes" where
  "text8 cps = concat (map utf8_bytes cps)"

definition text16 :: "32 word list \<Rightarrow> 16 word list" where
  "text16 cps = concat (map utf16_units cps)"

lemma text_simps [simp]:
  "text8 [] = []" "text8 (cp # cps) = utf8_bytes cp @ text8 cps"
  "text16 [] = []" "text16 (cp # cps) = utf16_units cp @ text16 cps"
  by (simp_all add: text8_def text16_def)

text \<open>The code points of a C string: scalars other than NUL.\<close>

definition ctext :: "32 word list \<Rightarrow> bool" where
  "ctext cps \<longleftrightarrow> (\<forall>cp \<in> set cps. scalar cp \<and> cp \<noteq> 0)"

lemma utf8_bytes_nonzero:
  assumes "scalar cp" "cp \<noteq> 0"
  shows "0 \<notin> set (utf8_bytes cp)"
proof -
  have n: "unat cp < 0x110000" "unat cp \<noteq> 0" using assms by (simp_all add: scalar_nat unat_eq_zero)
  have c: "ucast (0x80 OR (y AND 0x3F) :: 32 word) \<noteq> (0 :: 8 word)" for y
    using cont [of y] by (metis add_is_0 unat_0 zero_neq_numeral)
  have l: "unat y < 32 \<Longrightarrow> ucast (0xC0 OR y :: 32 word) \<noteq> (0 :: 8 word)"
    "unat y < 16 \<Longrightarrow> ucast (0xE0 OR y :: 32 word) \<noteq> (0 :: 8 word)"
    "unat y < 8 \<Longrightarrow> ucast (0xF0 OR y :: 32 word) \<noteq> (0 :: 8 word)" for y
    using lead2 [of y] lead3 [of y] lead4 [of y] by (metis add_is_0 unat_0 zero_neq_numeral)+
  consider (one) "unat cp < 128" | (two) "128 \<le> unat cp" "unat cp < 2048"
    | (three) "2048 \<le> unat cp" "unat cp < 65536" | (four) "65536 \<le> unat cp" by linarith
  then show ?thesis
  proof cases
    case one
    then have "unat (ucast cp :: 8 word) \<noteq> 0" using n by (simp add: unsigned_ucast_eq take_bit_nat_eq_self)
    with one show ?thesis by (auto simp: utf8_bytes_def cp_cmp)
  next
    case two
    then show ?thesis using c l(1) [of "drop_bit 6 cp"] by (auto simp: utf8_bytes_def cp_cmp dest: sym)
  next
    case three
    then show ?thesis using c l(2) [of "drop_bit 12 cp"] by (auto simp: utf8_bytes_def cp_cmp dest: sym)
  next
    case four
    then show ?thesis using c l(3) [of "drop_bit 18 cp"] n by (auto simp: utf8_bytes_def cp_cmp dest: sym)
  qed
qed

lemma utf16_units_nonzero:
  assumes "scalar cp" "cp \<noteq> 0"
  shows "0 \<notin> set (utf16_units cp)"
proof (cases "unat cp < 65536")
  case True
  then have "unat (ucast cp :: 16 word) \<noteq> 0" using assms by (simp add: unat_to_16 unat_eq_zero)
  with True show ?thesis by (auto simp: utf16_units_def cp_cmp)
next
  case False
  let ?x = "cp - 0x10000"
  have x: "unat ?x = unat cp - 65536" using False by (subst unat_sub) (simp_all add: word_le_nat_alt)
  have "unat cp < 65536 + 1024 * 1024" using assms by (simp add: scalar_nat)
  with x False have "unat ?x < 1024 * 1024" by linarith
  then have "unat (drop_bit 10 ?x) < 1024" "unat (?x AND 0x3FF) < 1024"
    using less_mult_imp_div_less [of "unat ?x" 1024 1024] by (simp_all add: and_masks)
  from surrogate_or(1) [OF this(1)] surrogate_or(2) [OF this(2)] False show ?thesis
    by (auto simp: utf16_units_def cp_cmp Let_def dest: sym)
qed

lemma utf8_bytes_ne: "utf8_bytes cp \<noteq> []" "utf16_units cp \<noteq> []"
  by (simp_all add: utf8_bytes_def utf16_units_def Let_def)

lemma utf8_loop_text:
  assumes "ei_transfers c = None" "ei_src_ptr c = Some (pre @ text8 cps)" "ctext cps" "i = length pre"
    and "length out + 2 * length (text16 cps) \<le> cap" "even (length out)" "even cap"
  shows "utf8_loop c cap bad i out = (EFI_SUCCESS, bad, length (pre @ text8 cps), out @ le_units (text16 cps))"
  using assms(2-6)
proof (induction cps arbitrary: pre i out)
  case Nil
  then show ?case by (simp add: utf8_loop_stop)
next
  case (Cons cp cps)
  have cp: "scalar cp" "cp \<noteq> 0" using Cons.prems(2) by (auto simp: ctext_def)
  have d: "utf8_decode (drop i (ei_bytes c)) = Some (cp, length (utf8_bytes cp))"
    using Cons.prems utf8_decode_bytes [OF cp(1)] by simp
  have half: "cap div 2 - length out div 2 = (cap - length out) div 2"
    using Cons.prems assms(7) by (auto elim!: evenE)
  have room: "length (utf16_units cp) \<le> cap div 2 - length out div 2"
    unfolding half using Cons.prems(4) by simp
  have nz: "i < length (ei_bytes c)" "ei_bytes c ! i \<noteq> 0"
    using Cons.prems(1,3) utf8_bytes_ne(1) [of cp] utf8_bytes_nonzero [OF cp]
    by (cases "utf8_bytes cp"; simp add: nth_append)+
  have t: "transfer_step c cap 1 2 i out = None" using assms(1) by (simp add: transfer_step_def)
  have "utf8_loop c cap bad i out =
      utf8_loop c cap bad (i + length (utf8_bytes cp)) (out @ le_units (utf16_units cp))"
    by (rule utf8_loop_plain [OF nz t d room])
  also have "\<dots> = (EFI_SUCCESS, bad, length ((pre @ utf8_bytes cp) @ text8 cps),
      (out @ le_units (utf16_units cp)) @ le_units (text16 cps))"
    using Cons.prems by (intro Cons.IH) (auto simp: ctext_def)
  finally show ?case by simp
qed

lemma utf16_loop_text:
  assumes "ei_transfers c = None" "ei_src_ptr c = Some (pre @ le_units (text16 cps))" "ctext cps" "i = length pre"
    and "length out + length (text8 cps) \<le> cap"
  shows "utf16_loop c cap bad i out =
     (EFI_SUCCESS, False, bad, length (pre @ le_units (text16 cps)), out @ text8 cps)"
  using assms(2-5)
proof (induction cps arbitrary: pre i out)
  case Nil
  then show ?case by (simp add: utf16_loop_stop)
next
  case (Cons cp cps)
  have cp: "scalar cp" "cp \<noteq> 0" using Cons.prems(2) by (auto simp: ctext_def)
  obtain u us where u: "utf16_units cp = u # us" using utf8_bytes_ne(2) [of cp] by (cases "utf16_units cp") auto
  let ?r = "le_units (text16 cps)"
  have src: "drop i (ei_bytes c) = le_units (utf16_units cp) @ ?r" using Cons.prems by simp
  have len: "2 \<le> length (ei_bytes c) - i" using Cons.prems u by simp
  have "get16 (ei_bytes c) i = get16 (drop i (ei_bytes c)) 0" using len by (intro get16_drop) simp
  then have g: "get16 (ei_bytes c) i = u" unfolding src u by (simp add: get16_le16)
  have nz: "get16 (ei_bytes c) i \<noteq> 0" using g u utf16_units_nonzero [OF cp] by auto
  have d: "utf16_decode (get16 (ei_bytes c) i) (drop i (ei_bytes c)) = Some (cp, 2 * length (utf16_units cp))"
    using utf16_decode_units [OF cp(1), of ?r] u g unfolding src by simp
  have room: "length (utf8_bytes cp) \<le> cap - length out" using Cons.prems(4) by simp
  have t: "transfer_step c cap 2 1 i out = None" using assms(1) by (simp add: transfer_step_def)
  have "utf16_loop c cap bad i out =
      utf16_loop c cap bad (i + 2 * length (utf16_units cp)) (out @ utf8_bytes cp)"
    by (rule utf16_loop_plain [OF len nz t d room])
  also have "\<dots> = (EFI_SUCCESS, False, bad, length ((pre @ le_units (utf16_units cp)) @ ?r),
      (out @ utf8_bytes cp) @ text8 cps)"
    using Cons.prems by (intro Cons.IH) (auto simp: ctext_def)
  finally show ?case by simp
qed

section \<open>The simple conversions\<close>

lemma units_of_le16: "units_of (le16 w @ bs) = w # units_of bs"
proof -
  have "map (\<lambda>i. get16 (le16 w @ bs) (2 * i)) [Suc 0..<Suc (length bs div 2)] =
      map (\<lambda>i. get16 bs (2 * i)) [0..<length bs div 2]"
    by (subst map_Suc_upt [symmetric]) (simp add: get16_def le16_def)
  then show ?thesis
    using get16_le16 [of w bs] by (simp add: units_of_def upt_conv_Cons del: upt_Suc)
qed

lemma units_of_le_units: "units_of (le_units ws @ [0, 0]) = ws @ [0]"
proof (induction ws)
  case Nil
  show ?case using units_of_le16 [of 0 "[]"] by (simp add: le16_def units_of_def)
next
  case (Cons w ws)
  then show ?case by (simp add: units_of_le16)
qed

lemma text_lengths: "length (text16 cps) \<le> length (text8 cps)" "length (text8 cps) \<le> 3 * length (text16 cps)"
proof -
  have "length (utf16_units cp) \<le> length (utf8_bytes cp)" "length (utf8_bytes cp) \<le> 3 * length (utf16_units cp)" for cp
    by (auto simp: utf8_bytes_def utf16_units_def Let_def cp_cmp)
  then show "length (text16 cps) \<le> length (text8 cps)" "length (text8 cps) \<le> 3 * length (text16 cps)"
    by (induction cps) (simp_all add: add_mono add_mult_distrib2)
qed

lemma text_nonzero:
  assumes "ctext cps"
  shows "\<forall>b \<in> set (text8 cps). b \<noteq> 0" "\<forall>w \<in> set (text16 cps). w \<noteq> 0"
  using assms utf8_bytes_nonzero utf16_units_nonzero by (auto simp: text8_def text16_def ctext_def)

lemma simple_utf8_text:
  assumes "ctext cps" "length (text8 cps) < SIZE_MAX div 2"
  shows "encode_utf8_to_utf16 False (Some (text8 cps)) = Some (text16 cps)"
proof -
  let ?s = "text8 cps"
  let ?c = "\<lparr>ei_src = ENC_UTF8, ei_dst = ENC_UTF16, ei_src_ptr = Some ?s, ei_has_dst = True,
      ei_dst_size = (length ?s + 1) * 2, ei_transfers = None, ei_allow_invalid = True\<rparr>"
  have "utf8_loop ?c (length ?s * 2) False 0 [] = (EFI_SUCCESS, False, length ?s, le_units (text16 cps))"
    using utf8_loop_text [of ?c "[]" cps 0 "[]" "length ?s * 2" False] assms text_lengths(1) [of cps] by simp
  then have "encode_convert False ?c enc_out_zero = (EFI_SUCCESS, \<lparr>eo_src_used = length ?s,
      eo_dst_wrote = 2 * length (text16 cps), eo_have_invalid = False, eo_buf = le_units (text16 cps) @ [0, 0]\<rparr>)"
    by (simp add: encode_convert_def encode_dispatch_def encode_utf8_to_utf16_convert_def enc_out_zero_def)
  then show ?thesis
    using assms text_nonzero(2) [OF assms(1)]
    by (simp add: encode_utf8_to_utf16_def units_of_le_units takeWhile_append_stop)
qed

lemma simple_utf16_text:
  assumes "ctext cps" "length (text16 cps) \<le> (SIZE_MAX - 1) div 3"
  shows "encode_utf16_to_utf8 False (Some (text16 cps)) = Some (text8 cps)"
proof -
  let ?s = "text16 cps"
  let ?c = "\<lparr>ei_src = ENC_UTF16, ei_dst = ENC_UTF8, ei_src_ptr = Some (le_units ?s), ei_has_dst = True,
      ei_dst_size = length ?s * 3 + 1, ei_transfers = None, ei_allow_invalid = True\<rparr>"
  have "utf16_loop ?c (length ?s * 3) False 0 [] = (EFI_SUCCESS, False, False, 2 * length ?s, text8 cps)"
    using utf16_loop_text [of ?c "[]" cps 0 "[]" "length ?s * 3" False] assms text_lengths(2) [of cps] by simp
  then have "encode_convert False ?c enc_out_zero = (EFI_SUCCESS, \<lparr>eo_src_used = 2 * length ?s,
      eo_dst_wrote = length (text8 cps), eo_have_invalid = False, eo_buf = text8 cps @ [0]\<rparr>)"
    by (simp add: encode_convert_def encode_dispatch_def encode_utf16_to_utf8_convert_def enc_out_zero_def)
  then show ?thesis
    using assms text_nonzero(1) [OF assms(1)]
    by (simp add: encode_utf16_to_utf8_def takeWhile_append_stop)
qed

end
