(* ===== verification/Extlinux.thy ===== *)
theory Extlinux
  imports Menu SdbootTypes
begin

text \<open>
  \<open>src/main/extlinux.c\<close>: the menu of \<open>extlinux.conf\<close>. Its labels become nodes of the configuration and
  its global options settings of the boot menu, unless the configuration sets them itself. The
  files are a parameter.
\<close>

section \<open>State\<close>

record extlinux_label =
  el_label :: cstring
  el_name :: cstring

record extlinux_parser =
  ep_entries :: ptr
  ep_labels :: "extlinux_label list"
  ep_current :: ptr
  ep_current_label :: "cstring option"
  ep_default_label :: "cstring option"
  ep_ontimeout :: "cstring option"
  ep_fdt_dir :: "cstring option"
  ep_menu_title :: "cstring option"
  ep_timeout :: int
  ep_timeout_set :: bool
  ep_prompt_set :: bool
  ep_prompt :: bool

definition zero_parser :: extlinux_parser where
  "zero_parser = \<lparr>ep_entries = None, ep_labels = [], ep_current = None, ep_current_label = None,
     ep_default_label = None, ep_ontimeout = None, ep_fdt_dir = None, ep_menu_title = None,
     ep_timeout = 0, ep_timeout_set = False, ep_prompt_set = False, ep_prompt = False\<rparr>"

type_synonym 'a ext_result = "('a \<times> embloader) option"

definition gclean :: "ptr \<Rightarrow> embloader \<Rightarrow> embloader option" where
  "gclean node g =
     (case node of
        None \<Rightarrow> Some g
      | Some n \<Rightarrow> do { s \<leftarrow> confignode_clean n (g_cs g); Some (g\<lparr>g_cs := s\<rparr>) })"

definition extlinux_parser_clean :: "extlinux_parser \<Rightarrow> embloader \<Rightarrow> embloader option" where
  "extlinux_parser_clean p g = do {
     g \<leftarrow> gclean (ep_entries p) g;
     gclean (ep_current p) g
   }"

section \<open>Strings\<close>

definition extlinux_trim :: "cstring \<Rightarrow> cstring" where
  "extlinux_trim val = rev (dropWhile isspace (rev (dropWhile isspace val)))"

definition extlinux_set_string :: "ptr \<Rightarrow> cstring \<Rightarrow> cstring \<Rightarrow> embloader \<Rightarrow> bool ext_result" where
  "extlinux_set_string node path val g =
     (if node = None then Some (False, g)
      else on_cs (confignode_path_set_string node (Some path) (Some val)) g)"

definition extlinux_keyword_value :: "cstring \<Rightarrow> cstring \<Rightarrow> cstring option" where
  "extlinux_keyword_value val keyword =
     (let n = length keyword in
      if strncasecmp val keyword n \<noteq> 0 then None
      else if drop n val \<noteq> [] \<and> \<not> isspace (hd (drop n val)) then None
      else Some (extlinux_trim (drop n val)))"

definition extlinux_is_absolute_path :: "cstring \<Rightarrow> bool" where
  "extlinux_is_absolute_path path \<longleftrightarrow> hdc path = CHR ''/'' \<or> hdc path = CHR 0x5C"

definition extlinux_join_path :: "cstring \<Rightarrow> cstring \<Rightarrow> embloader \<Rightarrow> cstring option \<times> embloader" where
  "extlinux_join_path directory path g =
     gstrdup (Some (directory @
       (if endwith (Some directory) (CHR ''/'') \<or> endwith (Some directory) (CHR 0x5C) then [] else ''/'') @ path)) g"

definition value_sep :: "char \<Rightarrow> bool" where
  "value_sep c \<longleftrightarrow> isspace c \<or> c = CHR '',''"

lemma value_rest_shorter:
  assumes "dropWhile value_sep cur \<noteq> []"
  shows "length (drop 1 (dropWhile P (dropWhile value_sep cur))) < length cur"
proof -
  have "cur \<noteq> []" using assms by auto
  then have "0 < length cur" by blast
  moreover have "length (dropWhile P (dropWhile value_sep cur)) \<le> length cur"
    using length_dropWhile_le [of P "dropWhile value_sep cur"] length_dropWhile_le [of value_sep cur] by linarith
  ultimately show ?thesis unfolding length_drop by linarith
qed

function append_values_loop :: "ptr \<Rightarrow> cstring \<Rightarrow> cstring \<Rightarrow> bool \<Rightarrow> cstate \<Rightarrow> (bool \<times> cstate) option" where
  "append_values_loop node path cur added s =
     (if dropWhile value_sep cur = [] then Some (added, s)
      else let start = dropWhile value_sep cur;
               token = takeWhile (\<lambda>c. \<not> value_sep c) start;
               rest = drop 1 (dropWhile (\<lambda>c. \<not> value_sep c) start)
           in do {
             (item, s) \<leftarrow> confignode_new_string (Some token) s;
             (case item of
                None \<Rightarrow> Some (False, s)
              | Some i \<Rightarrow> do {
                  (ok, s) \<leftarrow> confignode_path_array_append node (Some path) item s;
                  (if ok then append_values_loop node path rest True s
                   else do { s \<leftarrow> confignode_clean i s; Some (False, s) })
                })
           })"
  by pat_completeness auto
termination
proof (relation "measure (\<lambda>(node, path, cur, added, s). length cur)", goal_cases)
  case (2 node path cur added s x xa xb a xc y x2 aa)
  then show ?case using value_rest_shorter [OF 2(1)] by (cases aa) (simp only: in_measure prod.case)
qed simp

declare append_values_loop.simps [simp del]

definition extlinux_append_values :: "ptr \<Rightarrow> cstring \<Rightarrow> cstring \<Rightarrow> embloader \<Rightarrow> bool ext_result" where
  "extlinux_append_values node path val g =
     (if node = None then Some (False, g)
      else let (ok, g) = galloc g in
        if \<not> ok then Some (False, g)
        else on_cs (append_values_loop node path val False) g)"

section \<open>Labels\<close>

definition extlinux_name_exists :: "extlinux_parser \<Rightarrow> cstring \<Rightarrow> embloader \<Rightarrow> bool" where
  "extlinux_name_exists p name g \<longleftrightarrow>
     embloader_find_loader (Some name) g \<noteq> None \<or> (\<exists>l \<in> set (ep_labels p). strcasecmp (el_name l) name = 0)"

text \<open>\<open>%u\<close> of a 32-bit counter.\<close>

partial_function (option) unique_loop ::
  "extlinux_parser \<Rightarrow> cstring \<Rightarrow> nat \<Rightarrow> embloader \<Rightarrow> (cstring option \<times> embloader) option" where
  "unique_loop p base suffix g =
     (let (name, g) = gstrdup (Some (base @ ''-'' @ nat_dec suffix)) g
      in case name of
           None \<Rightarrow> Some (None, g)
         | Some n \<Rightarrow>
             if extlinux_name_exists p n g then unique_loop p base ((suffix + 1) mod 2 ^ 32) g
             else Some (Some n, g))"

definition drop_current :: "extlinux_parser \<Rightarrow> extlinux_parser" where
  "drop_current p = p\<lparr>ep_current := None, ep_current_label := None\<rparr>"

definition extlinux_finish_label :: "extlinux_parser \<Rightarrow> embloader \<Rightarrow> (bool \<times> extlinux_parser) ext_result" where
  "extlinux_finish_label p g =
     (if ep_current p = None then Some ((True, p), g)
      else case ep_current_label p of
        None \<Rightarrow> Some ((False, p), g)
      | Some label \<Rightarrow> do {
          (kernel, g) \<leftarrow> gget_string (ep_current p) ''kernel'' None g;
          (if kernel = None \<or> kernel = Some []
           then do { g \<leftarrow> gclean (ep_current p) g; Some ((True, drop_current p), g) }
           else let (name, g) = gstrdup (Some (''extlinux-'' @ label)) g
                in case name of
                     None \<Rightarrow> Some ((False, p), g)
                   | Some n \<Rightarrow> do {
                       (name, g) \<leftarrow> (if extlinux_name_exists p n g then unique_loop p n 2 g else Some (Some n, g));
                       (case name of
                          None \<Rightarrow> Some ((False, p), g)
                        | Some n \<Rightarrow>
                            let (ok, g) = galloc g in
                            if \<not> ok then Some ((False, p), g)
                            else let (dup, g) = gstrdup (Some label) g
                            in case dup of
                                 None \<Rightarrow> Some ((False, p), g)
                               | Some l \<Rightarrow> do {
                                   (ok, g) \<leftarrow> on_cs (confignode_map_set (ep_entries p) (Some n) (ep_current p)) g;
                                   (if \<not> ok then Some ((False, p), g)
                                    else let (cell, g) = galloc g; p = drop_current p
                                         in if cell
                                            then Some ((True, p\<lparr>ep_labels := ep_labels p @ [\<lparr>el_label = l, el_name = n\<rparr>]\<rparr>), g)
                                            else Some ((False, p), g))
                                 })
                     })
        })"

definition extlinux_find_name :: "extlinux_parser \<Rightarrow> cstring option \<Rightarrow> cstring option" where
  "extlinux_find_name p label =
     (case label of
        None \<Rightarrow> None
      | Some l \<Rightarrow> map_option el_name (find (\<lambda>i. strcasecmp (el_label i) l = 0) (ep_labels p)))"

section \<open>Lines\<close>

text \<open>Tenths of seconds, rounded up; the value is unchanged when the text is refused.\<close>

definition extlinux_parse_timeout :: "cstring \<Rightarrow> int \<Rightarrow> bool \<times> int" where
  "extlinux_parse_timeout val timeout =
     (if val = [] then (False, timeout)
      else let r = strtoull 10 val in
      if sr_range r \<or> sr_end r \<noteq> [] \<or> sr_val r > int SIZE_MAX - 9 then (False, timeout)
      else let seconds = (sr_val r + 9) div 10
           in (True, if seconds > INT_MAX then INT_MAX else seconds))"

text \<open>The key and the value of a line; \<open>None\<close> is a line without content.\<close>

definition extlinux_split :: "cstring \<Rightarrow> (cstring \<times> cstring) option" where
  "extlinux_split line =
     (let line = extlinux_trim line;
          line = (if take 3 line = [CHR 0xEF, CHR 0xBB, CHR 0xBF] then extlinux_trim (drop 3 line) else line)
      in if line = [] \<or> hd line = CHR ''#'' then None
         else Some (takeWhile (\<lambda>c. \<not> isspace c) line,
                    extlinux_trim (drop 1 (dropWhile (\<lambda>c. \<not> isspace c) line))))"

abbreviation is_key :: "cstring \<Rightarrow> cstring \<Rightarrow> bool" where
  "is_key key w \<equiv> strcasecmp key w = 0"

definition extlinux_label_line :: "extlinux_parser \<Rightarrow> cstring \<Rightarrow> embloader \<Rightarrow> (bool \<times> extlinux_parser) ext_result" where
  "extlinux_label_line p val g =
     (if val = [] then Some ((False, p), g)
      else do {
        ((ok, p), g) \<leftarrow> extlinux_finish_label p g;
        (if \<not> ok then Some ((False, p), g)
         else do {
           (node, g) \<leftarrow> on_cs confignode_new_map g;
           (let p = p\<lparr>ep_current := node\<rparr> in
            if node = None then Some ((False, p), g)
            else let (label, g) = gstrdup (Some val) g; p = p\<lparr>ep_current_label := label\<rparr> in
            if label = None then Some ((False, p), g)
            else do {
              (ok, g) \<leftarrow> extlinux_set_string node ''type'' ''linux'' g;
              (if \<not> ok then Some ((False, p), g)
               else do {
                 (ok, g) \<leftarrow> extlinux_set_string node ''title'' val g;
                 Some ((ok, p), g)
               })
            })
         })
      })"

definition extlinux_menu_line :: "extlinux_parser \<Rightarrow> cstring \<Rightarrow> embloader \<Rightarrow> (bool \<times> extlinux_parser) ext_result" where
  "extlinux_menu_line p val g =
     (case extlinux_keyword_value val ''LABEL'' of
        Some opt \<Rightarrow>
          if ep_current p = None \<or> opt = [] then Some ((False, p), g)
          else do { (ok, g) \<leftarrow> extlinux_set_string (ep_current p) ''title'' opt g; Some ((ok, p), g) }
      | None \<Rightarrow>
          if strcasecmp val ''DEFAULT'' = 0 then
            (if ep_current p = None \<or> ep_current_label p = None then Some ((False, p), g)
             else let (label, g) = gstrdup (ep_current_label p) g
                  in Some ((label \<noteq> None, p\<lparr>ep_default_label := label\<rparr>), g))
          else if strcasecmp val ''HIDDEN'' = 0 then
            Some ((True, p\<lparr>ep_prompt_set := True, ep_prompt := False\<rparr>), g)
          else case extlinux_keyword_value val ''TITLE'' of
            Some opt \<Rightarrow>
              if opt = [] then Some ((True, p\<lparr>ep_menu_title := None\<rparr>), g)
              else let (title, g) = gstrdup (Some opt) g
                   in Some ((title \<noteq> None, p\<lparr>ep_menu_title := title\<rparr>), g)
          | None \<Rightarrow> Some ((True, p), g))"

definition extlinux_entry_line ::
  "extlinux_parser \<Rightarrow> cstring \<Rightarrow> cstring \<Rightarrow> embloader \<Rightarrow> bool ext_result" where
  "extlinux_entry_line p key val g =
     (if is_key key ''LINUX'' \<or> is_key key ''KERNEL'' then
        (if val = [] then Some (False, g) else extlinux_set_string (ep_current p) ''kernel'' val g)
      else if is_key key ''INITRD'' then
        (if val = [] then Some (False, g) else extlinux_append_values (ep_current p) ''initramfs'' val g)
      else if is_key key ''APPEND'' then
        extlinux_set_string (ep_current p) ''bootargs'' (if strcmp val ''-'' = 0 then [] else val) g
      else if is_key key ''FDT'' then
        (if val = [] then Some (False, g)
         else let (path, g) = (case ep_fdt_dir p of
                  Some dir \<Rightarrow> if extlinux_is_absolute_path val then gstrdup (Some val) g
                              else extlinux_join_path dir val g
                | None \<Rightarrow> gstrdup (Some val) g)
              in case path of
                   None \<Rightarrow> Some (False, g)
                 | Some t \<Rightarrow> extlinux_set_string (ep_current p) ''devicetree'' t g)
      else if is_key key ''FDTOVERLAYS'' then
        (if val = [] then Some (False, g) else extlinux_append_values (ep_current p) ''overlays'' val g)
      else Some (True, g))"

definition extlinux_parse_line :: "extlinux_parser \<Rightarrow> cstring \<Rightarrow> embloader \<Rightarrow> (bool \<times> extlinux_parser) ext_result" where
  "extlinux_parse_line p line g =
     (case extlinux_split line of
        None \<Rightarrow> Some ((True, p), g)
      | Some (key, val) \<Rightarrow>
          if is_key key ''LABEL'' then extlinux_label_line p val g
          else if is_key key ''MENU'' then extlinux_menu_line p val g
          else if is_key key ''DEFAULT'' \<or> is_key key ''ONTIMEOUT'' then
            (if val = [] then Some ((False, p), g)
             else let (dup, g) = gstrdup (Some val) g
                  in Some ((dup \<noteq> None, if is_key key ''DEFAULT'' then p\<lparr>ep_default_label := dup\<rparr>
                                         else p\<lparr>ep_ontimeout := dup\<rparr>), g))
          else if is_key key ''TIMEOUT'' then
            (let (ok, t) = extlinux_parse_timeout val (ep_timeout p)
             in Some ((ok, p\<lparr>ep_timeout := t, ep_timeout_set := ok\<rparr>), g))
          else if is_key key ''PROMPT'' then
            (if val = [] \<or> strcmp val ''0'' \<noteq> 0 \<and> strcmp val ''1'' \<noteq> 0 then Some ((False, p), g)
             else Some ((True, p\<lparr>ep_prompt_set := True, ep_prompt := (hd val = CHR ''1'')\<rparr>), g))
          else if is_key key ''FDTDIR'' then
            (if val = [] then Some ((False, p), g)
             else let (dir, g) = gstrdup (Some val) g
                  in if dir = None then Some ((False, p), g) else Some ((True, p\<lparr>ep_fdt_dir := dir\<rparr>), g))
          else if ep_current p = None then Some ((True, p), g)
          else do { (ok, g) \<leftarrow> extlinux_entry_line p key val g; Some ((ok, p), g) })"

text \<open>The content up to its first NUL, line by line; the last label is finished at the end.\<close>

function extlinux_content_loop ::
  "extlinux_parser \<Rightarrow> cstring \<Rightarrow> embloader \<Rightarrow> (bool \<times> extlinux_parser) ext_result" where
  "extlinux_content_loop p content g =
     (if content = [] then Some ((True, p), g)
      else do {
        ((ok, p), g) \<leftarrow> extlinux_parse_line p (takeWhile (\<lambda>c. c \<noteq> LF) content) g;
        (if \<not> ok then Some ((False, p), g)
         else extlinux_content_loop p (drop 1 (dropWhile (\<lambda>c. c \<noteq> LF) content)) g)
      })"
  by pat_completeness auto
termination
proof (relation "measure (\<lambda>(p, content, g). length content)", goal_cases)
  case (2 p content g)
  then show ?case using length_dropWhile_le [of "\<lambda>c. c \<noteq> LF" content] by (cases content) auto
qed simp

declare extlinux_content_loop.simps [simp del]

definition extlinux_parse_content ::
  "extlinux_parser \<Rightarrow> cstring \<Rightarrow> embloader \<Rightarrow> (bool \<times> extlinux_parser) ext_result" where
  "extlinux_parse_content p content g = do {
     ((ok, p), g) \<leftarrow> extlinux_content_loop p (takeWhile (\<lambda>c. c \<noteq> NUL) content) g;
     (if \<not> ok then Some ((False, p), g) else extlinux_finish_label p g)
   }"

section \<open>Publishing\<close>

definition first_name :: "extlinux_parser \<Rightarrow> cstring option" where
  "first_name p = (case ep_labels p of [] \<Rightarrow> None | l # _ \<Rightarrow> Some (el_name l))"

text \<open>The entry booted by default: by label, by the timeout's label, or the first.\<close>

definition extlinux_default :: "extlinux_parser \<Rightarrow> cstring option" where
  "extlinux_default p =
     (case extlinux_find_name p (ep_default_label p) of
        Some n \<Rightarrow> Some n
      | None \<Rightarrow> (case extlinux_find_name p (ep_ontimeout p) of Some n \<Rightarrow> Some n | None \<Rightarrow> first_name p))"

text \<open>A copy of a value the configuration does not set itself: whether to go on, and the copy.\<close>

definition unset_copy :: "cstring \<Rightarrow> cstring option \<Rightarrow> embloader \<Rightarrow> (bool \<times> cstring option) ext_result" where
  "unset_copy path val g =
     (case val of
        None \<Rightarrow> Some ((True, None), g)
      | Some v \<Rightarrow> do {
          (found, g) \<leftarrow> on_cs (confignode_path_lookup (g_config g) (Some path) False) g;
          (if found \<noteq> None then Some ((True, None), g)
           else let (dup, g) = gstrdup (Some v) g in Some ((dup \<noteq> None, dup), g))
        })"

definition upd_menu :: "(embloader_menu \<Rightarrow> embloader_menu) \<Rightarrow> embloader \<Rightarrow> embloader" where
  "upd_menu f g = (case g_menu g of None \<Rightarrow> g | Some m \<Rightarrow> g\<lparr>g_menu := Some (f m)\<rparr>)"

definition extlinux_publish ::
  "(cstring \<Rightarrow> cstring \<Rightarrow> int) \<Rightarrow> bool \<Rightarrow> extlinux_parser \<Rightarrow> embloader \<Rightarrow> (bool \<times> extlinux_parser) ext_result" where
  "extlinux_publish regexp setup p g =
     (if ep_entries p = None then Some ((False, p), g)
      else do {
        ((ok, default_entry), g) \<leftarrow> unset_copy ''menu.default'' (extlinux_default p) g;
        (if \<not> ok then Some ((False, p), g)
         else do {
           ((ok, menu_title), g) \<leftarrow> unset_copy ''menu.title'' (ep_menu_title p) g;
           (if \<not> ok then Some ((False, p), g)
            else do {
              (ok, g) \<leftarrow> on_cs (confignode_path_map_set (g_config g) (Some ''extlinux.entries'') (ep_entries p)) g;
              (if \<not> ok then Some ((False, p), g)
               else do {
                 g \<leftarrow> load_loaders regexp setup ''extlinux.entries'' g;
                 (let g = (if default_entry = None then g
                           else upd_menu (\<lambda>m. m\<lparr>mn_default_entry := default_entry\<rparr>) g) in do {
                    (timeout, g) \<leftarrow> (if ep_timeout_set p
                        then on_cs (confignode_path_lookup (g_config g) (Some ''menu.timeout'') False) g
                        else Some (None, g));
                    (let g = (if ep_timeout_set p \<and> timeout = None
                              then upd_menu (\<lambda>m. m\<lparr>mn_timeout := ep_timeout p\<rparr>) g else g);
                         g = (if ep_prompt_set p
                              then upd_menu (\<lambda>m. m\<lparr>mn_disabled := \<not> ep_prompt p\<rparr>) g else g);
                         g = (if menu_title = None then g
                              else upd_menu (\<lambda>m. m\<lparr>mn_title := menu_title\<rparr>) g)
                     in Some ((True, p\<lparr>ep_entries := None\<rparr>), embloader_sort_menu_loaders g))
                  })
               })
            })
         })
      })"

section \<open>Loading\<close>

text \<open>
  A file as the firmware answers: whether it exists, the status of opening it and whether a file came
  back, its size, and what reading it gives.
\<close>

record ext_file =
  xf_exists :: bool
  xf_open :: "efi_status \<times> bool"
  xf_size :: "efi_status \<times> nat"
  xf_read :: "efi_status \<times> cstring"

definition EXTLINUX_MAX_CONFIG_SIZE :: nat where
  "EXTLINUX_MAX_CONFIG_SIZE = 1024 * 1024"

definition extlinux_read_file :: "ext_file \<Rightarrow> efi_status \<times> cstring" where
  "extlinux_read_file f =
     (let (status, file) = xf_open f in
      if EFI_ERROR status \<or> \<not> file then (status, [])
      else let (status, sz) = xf_size f in
      if EFI_ERROR status then (status, [])
      else if sz > EXTLINUX_MAX_CONFIG_SIZE then (EFI_BAD_BUFFER_SIZE, [])
      else xf_read f)"

definition extlinux_paths :: "cstring list" where
  "extlinux_paths = [''/extlinux/extlinux.conf'', ''/boot/extlinux/extlinux.conf'']"

fun first_readable :: "(cstring \<Rightarrow> ext_file) \<Rightarrow> cstring list \<Rightarrow> efi_status \<times> cstring \<Rightarrow> efi_status \<times> cstring" where
  "first_readable files [] r = r"
| "first_readable files (path # paths) r =
     (if \<not> xf_exists (files path) then first_readable files paths r
      else let r = extlinux_read_file (files path)
           in if \<not> EFI_ERROR (fst r) then r else first_readable files paths r)"

text \<open>\<open>loaded\<close> is the static flag of the function, \<open>root\<close> whether the loader's directory is open.\<close>

definition embloader_extlinux_load_menu ::
  "(cstring \<Rightarrow> cstring \<Rightarrow> int) \<Rightarrow> bool \<Rightarrow> bool \<Rightarrow> (cstring \<Rightarrow> ext_file) \<Rightarrow> bool \<Rightarrow> embloader \<Rightarrow>
   (efi_status \<times> bool) ext_result" where
  "embloader_extlinux_load_menu regexp setup root files loaded g =
     (if \<not> root \<or> g_menu g = None then Some ((EFI_NOT_READY, loaded), g)
      else if loaded then Some ((EFI_ALREADY_STARTED, loaded), g)
      else do {
        (enabled, g) \<leftarrow> gget_bool (g_config g) ''menu.extlinux.enabled'' True g;
        (if \<not> enabled then Some ((EFI_UNSUPPORTED, loaded), g)
         else do {
           (entries, g) \<leftarrow> on_cs confignode_new_map g;
           (if entries = None then Some ((EFI_OUT_OF_RESOURCES, loaded), g)
            else let p = zero_parser\<lparr>ep_entries := entries\<rparr>;
                     (status, buffer) = first_readable files extlinux_paths (EFI_NOT_FOUND, [])
              in do {
                ((status, p), g) \<leftarrow>
                  (if EFI_ERROR status then Some ((status, p), g)
                   else if buffer = [] then Some ((EFI_LOAD_ERROR, p), g)
                   else do {
                     ((ok, p), g) \<leftarrow> extlinux_parse_content p buffer g;
                     (if \<not> ok then Some ((EFI_LOAD_ERROR, p), g)
                      else if ep_labels p = [] then Some ((EFI_NOT_FOUND, p), g)
                      else do {
                        ((ok, p), g) \<leftarrow> extlinux_publish regexp setup p g;
                        Some ((if ok then EFI_SUCCESS else EFI_OUT_OF_RESOURCES, p), g)
                      })
                   });
                g \<leftarrow> extlinux_parser_clean p g;
                Some ((status, loaded \<or> \<not> EFI_ERROR status), g)
              })
         })
      })"

end
