(* ===== verification/ListHeap.thy ===== *)
theory ListHeap
  imports StrUtils
begin

text \<open>
  \<open>src/lib/list.c\<close>: the doubly linked list every subsystem of the loader keeps its data in, on an
  explicit heap. A cell is the C structure; the state holds the cells, the next fresh address,
  \<open>errno\<close>, an allocation oracle (\<open>lh_oom n\<close>: the n-th \<open>malloc\<close> fails) and the log of the data
  handed to the \<open>datafree\<close> callback. A computation is \<open>None\<close> when it would read a cell that
  does not exist or would not return. The data of a cell is \<open>'d option\<close>, with \<open>None\<close> for
  \<open>NULL\<close>.
\<close>

section \<open>State\<close>

record 'd lcell =
  lc_prev :: ptr
  lc_next :: ptr
  lc_data :: "'d option"

record 'd lheap =
  lh_cells :: "addr \<Rightarrow> 'd lcell option"
  lh_nxt :: addr
  lh_errno :: int
  lh_oom :: "nat \<Rightarrow> bool"
  lh_tick :: nat
  lh_freed :: "'d list"

definition ENOENT :: int where "ENOENT = 2"
definition ENOMEM :: int where "ENOMEM = 12"
definition EINVAL :: int where "EINVAL = 22"
definition ELOOP :: int where "ELOOP = 92"
definition EOVERFLOW :: int where "EOVERFLOW = 139"

lemmas errno_defs = ENOENT_def ENOMEM_def EINVAL_def ELOOP_def EOVERFLOW_def

text \<open>\<open>ERET(e)\<close>, \<open>EPRET(e)\<close> and \<open>return -errno\<close>.\<close>

definition set_errno :: "int \<Rightarrow> 'd lheap \<Rightarrow> 'd lheap" where
  "set_errno e h = h\<lparr>lh_errno := e\<rparr>"

definition ERET :: "int \<Rightarrow> 'd lheap \<Rightarrow> (int \<times> 'd lheap) option" where
  "ERET e h = Some (- e, set_errno e h)"

definition EPRET :: "int \<Rightarrow> 'd lheap \<Rightarrow> (ptr \<times> 'd lheap) option" where
  "EPRET e h = Some (None, set_errno e h)"

definition neg_errno :: "'d lheap \<Rightarrow> (int \<times> 'd lheap) option" where
  "neg_errno h = Some (- lh_errno h, h)"

definition cell_at :: "'d lheap \<Rightarrow> addr \<Rightarrow> 'd lcell option" where
  "cell_at h a = lh_cells h a"

definition upd_cell :: "addr \<Rightarrow> ('d lcell \<Rightarrow> 'd lcell) \<Rightarrow> 'd lheap \<Rightarrow> 'd lheap option" where
  "upd_cell a f h =
     (case lh_cells h a of
        None \<Rightarrow> None
      | Some c \<Rightarrow> Some (h\<lparr>lh_cells := (lh_cells h)(a \<mapsto> f c)\<rparr>))"

definition set_prev :: "addr \<Rightarrow> ptr \<Rightarrow> 'd lheap \<Rightarrow> 'd lheap option" where
  "set_prev a v = upd_cell a (\<lambda>c. c\<lparr>lc_prev := v\<rparr>)"

definition set_next :: "addr \<Rightarrow> ptr \<Rightarrow> 'd lheap \<Rightarrow> 'd lheap option" where
  "set_next a v = upd_cell a (\<lambda>c. c\<lparr>lc_next := v\<rparr>)"

text \<open>\<open>if (p) p->prev = v;\<close> and the same for \<open>next\<close>.\<close>

definition set_prev_if :: "ptr \<Rightarrow> ptr \<Rightarrow> 'd lheap \<Rightarrow> 'd lheap option" where
  "set_prev_if p v h = (case p of None \<Rightarrow> Some h | Some a \<Rightarrow> set_prev a v h)"

definition set_next_if :: "ptr \<Rightarrow> ptr \<Rightarrow> 'd lheap \<Rightarrow> 'd lheap option" where
  "set_next_if p v h = (case p of None \<Rightarrow> Some h | Some a \<Rightarrow> set_next a v h)"

section \<open>Creation and ends\<close>

definition list_new :: "'d option \<Rightarrow> 'd lheap \<Rightarrow> (ptr \<times> 'd lheap) option" where
  "list_new data h =
     (let h = set_errno ENOMEM h; t = lh_tick h; h = h\<lparr>lh_tick := Suc t\<rparr>
      in if lh_oom h t then Some (None, h)
         else let a = lh_nxt h;
                  h = (set_errno 0 h)\<lparr>lh_nxt := Suc a,
                        lh_cells := (lh_cells h)(a \<mapsto> \<lparr>lc_prev = None, lc_next = None, lc_data = data\<rparr>)\<rparr>
              in Some (Some a, h))"

partial_function (option) last_loop :: "addr \<Rightarrow> addr \<Rightarrow> 'd lheap \<Rightarrow> (ptr \<times> 'd lheap) option" where
  "last_loop point cur h =
     (if cur = point then EPRET ELOOP h
      else do {
        c \<leftarrow> cell_at h cur;
        (case lc_next c of
           Some n \<Rightarrow> last_loop point n h
         | None \<Rightarrow> Some (Some cur, h))
      })"

definition list_last :: "ptr \<Rightarrow> 'd lheap \<Rightarrow> (ptr \<times> 'd lheap) option" where
  "list_last point h =
     (let h = set_errno 0 h
      in case point of
           None \<Rightarrow> EPRET EINVAL h
         | Some p \<Rightarrow> do {
             c \<leftarrow> cell_at h p;
             (case lc_next c of None \<Rightarrow> Some (Some p, h) | Some n \<Rightarrow> last_loop p n h)
           })"

partial_function (option) first_loop :: "addr \<Rightarrow> addr \<Rightarrow> 'd lheap \<Rightarrow> (ptr \<times> 'd lheap) option" where
  "first_loop point cur h =
     (if cur = point then EPRET ELOOP h
      else do {
        c \<leftarrow> cell_at h cur;
        (case lc_prev c of
           Some n \<Rightarrow> first_loop point n h
         | None \<Rightarrow> Some (Some cur, h))
      })"

definition list_first :: "ptr \<Rightarrow> 'd lheap \<Rightarrow> (ptr \<times> 'd lheap) option" where
  "list_first point h =
     (let h = set_errno 0 h
      in case point of
           None \<Rightarrow> EPRET EINVAL h
         | Some p \<Rightarrow> do {
             c \<leftarrow> cell_at h p;
             (case lc_prev c of None \<Rightarrow> Some (Some p, h) | Some n \<Rightarrow> first_loop p n h)
           })"

definition list_is_alone :: "ptr \<Rightarrow> 'd lheap \<Rightarrow> bool option" where
  "list_is_alone point h =
     (case point of
        None \<Rightarrow> Some False
      | Some p \<Rightarrow> do { c \<leftarrow> cell_at h p; Some (lc_prev c = None \<and> lc_next c = None) })"

section \<open>Insertion\<close>

definition list_add :: "ptr \<Rightarrow> ptr \<Rightarrow> 'd lheap \<Rightarrow> (int \<times> 'd lheap) option" where
  "list_add point new h =
     (let h = set_errno 0 h
      in case (point, new) of
           (Some p, Some n) \<Rightarrow>
             if p = n then ERET ELOOP h
             else do {
               pc \<leftarrow> cell_at h p;
               (case lc_next pc of
                  None \<Rightarrow> do {
                    h \<leftarrow> set_next p (Some n) h;
                    h \<leftarrow> set_prev n (Some p) h;
                    Some (0, set_errno 0 h)
                  }
                | Some _ \<Rightarrow> do {
                    (f, h) \<leftarrow> list_first (Some n) h;
                    (case f of
                       None \<Rightarrow> neg_errno h
                     | Some fa \<Rightarrow> do {
                         (l, h) \<leftarrow> list_last (Some n) h;
                         (case l of
                            None \<Rightarrow> neg_errno h
                          | Some la \<Rightarrow> do {
                              pc \<leftarrow> cell_at h p;
                              pn \<leftarrow> lc_next pc;
                              h \<leftarrow> set_prev pn (Some la) h;
                              pc \<leftarrow> cell_at h p;
                              h \<leftarrow> set_next la (lc_next pc) h;
                              h \<leftarrow> set_next p (Some fa) h;
                              h \<leftarrow> set_prev fa (Some p) h;
                              Some (0, set_errno 0 h)
                            })
                       })
                  })
             }
         | _ \<Rightarrow> ERET EINVAL h)"

definition free_cell :: "addr \<Rightarrow> 'd lheap \<Rightarrow> 'd lheap" where
  "free_cell a h = h\<lparr>lh_cells := (lh_cells h)(a := None)\<rparr>"

definition list_add_new :: "ptr \<Rightarrow> 'd option \<Rightarrow> 'd lheap \<Rightarrow> (int \<times> 'd lheap) option" where
  "list_add_new point data h = do {
     (new, h) \<leftarrow> list_new data h;
     (case new of
        None \<Rightarrow> neg_errno h
      | Some n \<Rightarrow> do {
          (r, h) \<leftarrow> list_add point (Some n) h;
          Some (r, if r < 0 then free_cell n h else h)
        })
   }"

definition list_insert :: "ptr \<Rightarrow> ptr \<Rightarrow> 'd lheap \<Rightarrow> (int \<times> 'd lheap) option" where
  "list_insert point new h =
     (let h = set_errno 0 h
      in case (point, new) of
           (Some p, Some n) \<Rightarrow> do {
             (l, h) \<leftarrow> list_last (Some n) h;
             (case l of
                None \<Rightarrow> neg_errno h
              | Some la \<Rightarrow> do {
                  pc \<leftarrow> cell_at h p;
                  (case lc_prev pc of
                     None \<Rightarrow> do {
                       h \<leftarrow> set_prev p (Some la) h;
                       h \<leftarrow> set_next la (Some p) h;
                       ERET 0 h
                     }
                   | Some _ \<Rightarrow> do {
                       (f, h) \<leftarrow> list_first (Some n) h;
                       (case f of
                          None \<Rightarrow> neg_errno h
                        | Some fa \<Rightarrow> do {
                            pc \<leftarrow> cell_at h p;
                            pp \<leftarrow> lc_prev pc;
                            h \<leftarrow> set_next pp (Some fa) h;
                            pc \<leftarrow> cell_at h p;
                            h \<leftarrow> set_prev fa (lc_prev pc) h;
                            h \<leftarrow> set_prev p (Some la) h;
                            h \<leftarrow> set_next la (Some p) h;
                            ERET 0 h
                          })
                     })
                })
           }
         | _ \<Rightarrow> ERET EINVAL h)"

definition list_insert_new :: "ptr \<Rightarrow> 'd option \<Rightarrow> 'd lheap \<Rightarrow> (int \<times> 'd lheap) option" where
  "list_insert_new point data h = do {
     (new, h) \<leftarrow> list_new data h;
     (case new of
        None \<Rightarrow> neg_errno h
      | Some n \<Rightarrow> do {
          (r, h) \<leftarrow> list_insert point (Some n) h;
          Some (r, if r < 0 then free_cell n h else h)
        })
   }"

definition list_push :: "ptr \<Rightarrow> ptr \<Rightarrow> 'd lheap \<Rightarrow> (int \<times> 'd lheap) option" where
  "list_push point new h = do { (l, h) \<leftarrow> list_last point h; list_add l new h }"

definition list_push_new :: "ptr \<Rightarrow> 'd option \<Rightarrow> 'd lheap \<Rightarrow> (int \<times> 'd lheap) option" where
  "list_push_new point data h = do { (l, h) \<leftarrow> list_last point h; list_add_new l data h }"

definition list_unshift :: "ptr \<Rightarrow> ptr \<Rightarrow> 'd lheap \<Rightarrow> (int \<times> 'd lheap) option" where
  "list_unshift point new h = do { (f, h) \<leftarrow> list_first point h; list_insert f new h }"

definition list_unshift_new :: "ptr \<Rightarrow> 'd option \<Rightarrow> 'd lheap \<Rightarrow> (int \<times> 'd lheap) option" where
  "list_unshift_new point data h = do { (f, h) \<leftarrow> list_first point h; list_insert_new f data h }"

definition list_merge :: "ptr \<Rightarrow> ptr \<Rightarrow> 'd lheap \<Rightarrow> (ptr \<times> 'd lheap) option" where
  "list_merge lst1 lst2 h =
     (if lst1 = None \<or> lst2 = None then EPRET EINVAL h
      else do {
        (l1, h) \<leftarrow> list_last lst1 h;
        (l2, h) \<leftarrow> list_first lst2 h;
        (if l1 = None \<or> l2 = None then Some (None, h)
         else do {
           (r, h) \<leftarrow> list_add l1 l2 h;
           Some (if r \<noteq> 0 then None else lst1, h)
         })
      })"

section \<open>Counting, swapping, removing\<close>

partial_function (option) count_loop :: "addr \<Rightarrow> int \<Rightarrow> 'd lheap \<Rightarrow> (int \<times> 'd lheap) option" where
  "count_loop cur t h =
     (if t = INT_MAX then ERET EOVERFLOW h
      else do {
        c \<leftarrow> cell_at h cur;
        (case lc_next c of Some n \<Rightarrow> count_loop n (t + 1) h | None \<Rightarrow> Some (t + 1, h))
      })"

definition list_count :: "ptr \<Rightarrow> 'd lheap \<Rightarrow> (int \<times> 'd lheap) option" where
  "list_count point h =
     (let h = set_errno 0 h
      in if point = None then ERET EINVAL h
         else do {
           (cur, h) \<leftarrow> list_first point h;
           (case cur of None \<Rightarrow> neg_errno h | Some c \<Rightarrow> count_loop c 0 h)
         })"

definition list_swap_neighbor :: "ptr \<Rightarrow> ptr \<Rightarrow> 'd lheap \<Rightarrow> (int \<times> 'd lheap) option" where
  "list_swap_neighbor p1 p2 h =
     (let h = set_errno 0 h
      in case (p1, p2) of
           (Some a, Some b) \<Rightarrow> do {
             c1 \<leftarrow> cell_at h a;
             h \<leftarrow> set_next_if (lc_prev c1) (Some b) h;
             c2 \<leftarrow> cell_at h b;
             h \<leftarrow> set_prev_if (lc_next c2) (Some a) h;
             c2 \<leftarrow> cell_at h b;
             h \<leftarrow> set_next a (lc_next c2) h;
             c1 \<leftarrow> cell_at h a;
             h \<leftarrow> set_prev b (lc_prev c1) h;
             h \<leftarrow> set_prev a (Some b) h;
             h \<leftarrow> set_next b (Some a) h;
             Some (0, h)
           }
         | _ \<Rightarrow> ERET EINVAL h)"

definition list_swap_prev :: "ptr \<Rightarrow> 'd lheap \<Rightarrow> (int \<times> 'd lheap) option" where
  "list_swap_prev point h =
     (let h = set_errno 0 h
      in case point of
           None \<Rightarrow> ERET EINVAL h
         | Some p \<Rightarrow> do {
             c \<leftarrow> cell_at h p;
             (if lc_prev c = None then ERET ENOENT h else list_swap_neighbor (lc_prev c) point h)
           })"

definition list_swap_next :: "ptr \<Rightarrow> 'd lheap \<Rightarrow> (int \<times> 'd lheap) option" where
  "list_swap_next point h =
     (let h = set_errno 0 h
      in case point of
           None \<Rightarrow> ERET EINVAL h
         | Some p \<Rightarrow> do {
             c \<leftarrow> cell_at h p;
             (if lc_next c = None then ERET ENOENT h else list_swap_neighbor point (lc_next c) h)
           })"

definition list_remove :: "ptr \<Rightarrow> 'd lheap \<Rightarrow> (int \<times> 'd lheap) option" where
  "list_remove point h =
     (let h = set_errno 0 h
      in case point of
           None \<Rightarrow> ERET EINVAL h
         | Some p \<Rightarrow> do {
             c \<leftarrow> cell_at h p;
             (case (lc_prev c, lc_next c) of
                (Some pp, Some pn) \<Rightarrow> do {
                  h \<leftarrow> set_next pp (Some pn) h;
                  c \<leftarrow> cell_at h p;
                  h \<leftarrow> set_prev_if (lc_next c) (lc_prev c) h;
                  h \<leftarrow> set_prev p None h;
                  h \<leftarrow> set_next p None h;
                  Some (0, h)
                }
              | (None, Some pn) \<Rightarrow> do {
                  h \<leftarrow> set_prev pn None h;
                  h \<leftarrow> set_prev p None h;
                  h \<leftarrow> set_next p None h;
                  Some (0, h)
                }
              | (Some pp, None) \<Rightarrow> do {
                  h \<leftarrow> set_next pp None h;
                  h \<leftarrow> set_prev p None h;
                  h \<leftarrow> set_next p None h;
                  Some (0, h)
                }
              | (None, None) \<Rightarrow> ERET ENOENT h)
           })"

section \<open>Freeing\<close>

text \<open>\<open>datafree\<close> is whether a callback is given; a call of it is logged in \<open>lh_freed\<close>.\<close>

definition list_free_item :: "ptr \<Rightarrow> bool \<Rightarrow> 'd lheap \<Rightarrow> (int \<times> 'd lheap) option" where
  "list_free_item point datafree h =
     (let h = set_errno 0 h
      in case point of
           None \<Rightarrow> ERET EINVAL h
         | Some p \<Rightarrow> do {
             c \<leftarrow> cell_at h p;
             h \<leftarrow> set_next_if (lc_prev c) None h;
             c \<leftarrow> cell_at h p;
             h \<leftarrow> set_prev_if (lc_next c) None h;
             c \<leftarrow> cell_at h p;
             let h = (case lc_data c of
                        Some d \<Rightarrow> if datafree then h\<lparr>lh_freed := lh_freed h @ [d]\<rparr> else h
                      | None \<Rightarrow> h);
             Some (0, free_cell p h)
           })"

partial_function (option) free_all_loop :: "addr \<Rightarrow> bool \<Rightarrow> 'd lheap \<Rightarrow> (int \<times> 'd lheap) option" where
  "free_all_loop cur datafree h = do {
     c \<leftarrow> cell_at h cur;
     (r, h) \<leftarrow> list_free_item (Some cur) datafree h;
     (case lc_next c of Some n \<Rightarrow> free_all_loop n datafree h | None \<Rightarrow> Some (0, h))
   }"

definition list_free_all :: "ptr \<Rightarrow> bool \<Rightarrow> 'd lheap \<Rightarrow> (int \<times> 'd lheap) option" where
  "list_free_all point datafree h =
     (let h = set_errno 0 h
      in case point of
           None \<Rightarrow> ERET EINVAL h
         | Some p \<Rightarrow> do {
             (cur, h) \<leftarrow> list_first (Some p) h;
             free_all_loop (case cur of None \<Rightarrow> p | Some c \<Rightarrow> c) datafree h
           })"

partial_function (option) free_all_reverse_loop ::
  "addr \<Rightarrow> bool \<Rightarrow> 'd lheap \<Rightarrow> (int \<times> 'd lheap) option" where
  "free_all_reverse_loop cur datafree h = do {
     c \<leftarrow> cell_at h cur;
     (r, h) \<leftarrow> list_free_item (Some cur) datafree h;
     (case lc_prev c of Some n \<Rightarrow> free_all_reverse_loop n datafree h | None \<Rightarrow> Some (0, h))
   }"

definition list_free_all_reverse :: "ptr \<Rightarrow> bool \<Rightarrow> 'd lheap \<Rightarrow> (int \<times> 'd lheap) option" where
  "list_free_all_reverse point datafree h =
     (let h = set_errno 0 h
      in case point of
           None \<Rightarrow> ERET EINVAL h
         | Some p \<Rightarrow> do {
             (cur, h) \<leftarrow> list_last (Some p) h;
             free_all_reverse_loop (case cur of None \<Rightarrow> p | Some c \<Rightarrow> c) datafree h
           })"

definition list_remove_free :: "ptr \<Rightarrow> bool \<Rightarrow> 'd lheap \<Rightarrow> (int \<times> 'd lheap) option" where
  "list_remove_free point datafree h =
     (if point = None then ERET EINVAL h
      else do {
        alone \<leftarrow> list_is_alone point h;
        (r, h) \<leftarrow> (if alone then Some (0, h) else list_remove point h);
        (if r < 0 then neg_errno h else list_free_item point datafree h)
      })"

partial_function (option) dup_loop ::
  "ptr \<Rightarrow> ptr \<Rightarrow> addr \<Rightarrow> 'd lheap \<Rightarrow> (ptr \<times> 'd lheap) option" where
  "dup_loop x fin r h =
     (case x of
        None \<Rightarrow> Some (Some r, h)
      | Some xa \<Rightarrow>
          if x = fin then Some (Some r, h)
          else do {
            c \<leftarrow> cell_at h xa;
            (e, h) \<leftarrow> list_push_new (Some r) (lc_data c) h;
            (if e < 0 then do {
               (_, h) \<leftarrow> list_free_all (Some r) False h;
               Some (None, h)
             }
             else do { c \<leftarrow> cell_at h xa; dup_loop (lc_next c) fin r h })
          })"

definition list_duplicate :: "ptr \<Rightarrow> ptr \<Rightarrow> 'd lheap \<Rightarrow> (ptr \<times> 'd lheap) option" where
  "list_duplicate lst fin h =
     (if lst = None then EPRET EINVAL h
      else do {
        (x, h) \<leftarrow> list_first lst h;
        (case x of
           None \<Rightarrow> Some (None, h)
         | Some xa \<Rightarrow> do {
             c \<leftarrow> cell_at h xa;
             (r, h) \<leftarrow> list_new (lc_data c) h;
             (case r of
                None \<Rightarrow> Some (None, h)
              | Some ra \<Rightarrow> do { c \<leftarrow> cell_at h xa; dup_loop (lc_next c) fin ra h })
           })
      })"

section \<open>Operations on a list variable\<close>

text \<open>
  The \<open>list_obj\<close> operations take the address of the variable that holds the list; here its value
  goes in and comes out. The callers pass the address of a variable, so the \<open>!lst\<close> guard never
  fires.
\<close>

definition list_obj_add :: "ptr \<Rightarrow> ptr \<Rightarrow> 'd lheap \<Rightarrow> (int \<times> ptr \<times> 'd lheap) option" where
  "list_obj_add lst item h =
     (if item = None then do { (r, h) \<leftarrow> ERET EINVAL h; Some (r, lst, h) }
      else if lst = None then Some (0, item, h)
      else do {
        (r, h) \<leftarrow> list_push lst item h;
        Some (if r \<noteq> 0 then - lh_errno h else 0, lst, h)
      })"

definition list_obj_insert :: "ptr \<Rightarrow> ptr \<Rightarrow> 'd lheap \<Rightarrow> (int \<times> ptr \<times> 'd lheap) option" where
  "list_obj_insert lst item h =
     (if item = None then do { (r, h) \<leftarrow> ERET EINVAL h; Some (r, lst, h) }
      else do {
        (r, lst, h) \<leftarrow> (if lst = None then Some (0, item, h)
                        else do { (r, h) \<leftarrow> list_unshift lst item h; Some (r, lst, h) });
        (if r \<noteq> 0 then Some (- lh_errno h, lst, h)
         else do {
           (l, h) \<leftarrow> list_first lst h;
           Some (0, if l = None then lst else l, h)
         })
      })"

definition list_obj_add_new :: "ptr \<Rightarrow> 'd option \<Rightarrow> 'd lheap \<Rightarrow> (int \<times> ptr \<times> 'd lheap) option" where
  "list_obj_add_new lst data h = do {
     (item, h) \<leftarrow> list_new data h;
     (if item = None then Some (- lh_errno h, lst, h)
      else do {
        (r, lst, h) \<leftarrow> list_obj_add lst item h;
        (if r < 0 then do { (_, h) \<leftarrow> list_free_item item False h; Some (r, lst, h) }
         else Some (r, lst, h))
      })
   }"

definition list_obj_insert_new :: "ptr \<Rightarrow> 'd option \<Rightarrow> 'd lheap \<Rightarrow> (int \<times> ptr \<times> 'd lheap) option" where
  "list_obj_insert_new lst data h = do {
     (item, h) \<leftarrow> list_new data h;
     (if item = None then Some (- lh_errno h, lst, h)
      else do {
        (r, lst, h) \<leftarrow> list_obj_insert lst item h;
        (if r < 0 then do { (_, h) \<leftarrow> list_free_item item False h; Some (r, lst, h) }
         else Some (r, lst, h))
      })
   }"

definition list_obj_replace ::
  "ptr \<Rightarrow> ptr \<Rightarrow> ptr \<Rightarrow> 'd lheap \<Rightarrow> (int \<times> ptr \<times> 'd lheap) option" where
  "list_obj_replace lst old new h =
     (case (old, new) of
        (Some b, Some n) \<Rightarrow> do {
          (_, h) \<leftarrow> list_remove new h;
          let lst = (if lst = old then new else lst);
          c \<leftarrow> cell_at h b;
          h \<leftarrow> set_prev n (lc_prev c) h;
          c \<leftarrow> cell_at h b;
          h \<leftarrow> set_next n (lc_next c) h;
          c \<leftarrow> cell_at h b;
          h \<leftarrow> set_next_if (lc_prev c) new h;
          c \<leftarrow> cell_at h b;
          h \<leftarrow> set_prev_if (lc_next c) new h;
          Some (0, lst, h)
        }
      | _ \<Rightarrow> do { (r, h) \<leftarrow> ERET EINVAL h; Some (r, lst, h) })"

definition list_obj_strip :: "ptr \<Rightarrow> ptr \<Rightarrow> 'd lheap \<Rightarrow> (int \<times> ptr \<times> 'd lheap) option" where
  "list_obj_strip lst item h =
     (case item of
        None \<Rightarrow> do { (r, h) \<leftarrow> ERET EINVAL h; Some (r, lst, h) }
      | Some i \<Rightarrow> do {
          alone \<leftarrow> list_is_alone lst h;
          (if alone then
             (if lst \<noteq> item then Some (-1, lst, h)
              else do { (_, h) \<leftarrow> list_remove item h; Some (0, None, h) })
           else do {
             lst \<leftarrow> (if lst = item then do {
                       c \<leftarrow> cell_at h i;
                       let lst = (if lc_prev c \<noteq> None then lc_prev c else lst);
                       Some (if lc_next c \<noteq> None then lc_next c else lst)
                     } else Some lst);
             (_, h) \<leftarrow> list_remove item h;
             Some (0, lst, h)
           })
        })"

definition list_obj_del :: "ptr \<Rightarrow> ptr \<Rightarrow> bool \<Rightarrow> 'd lheap \<Rightarrow> (int \<times> ptr \<times> 'd lheap) option" where
  "list_obj_del lst item datafree h =
     (if item = None then do { (r, h) \<leftarrow> ERET EINVAL h; Some (r, lst, h) }
      else do {
        (r, lst, h) \<leftarrow> list_obj_strip lst item h;
        (if r \<noteq> 0 then Some (-1, lst, h)
         else do { (_, h) \<leftarrow> list_free_item item datafree h; Some (0, lst, h) })
      })"

partial_function (option) lookup_loop :: "'d option \<Rightarrow> addr \<Rightarrow> 'd lheap \<Rightarrow> ptr option" where
  "lookup_loop data cur h = do {
     c \<leftarrow> cell_at h cur;
     (if lc_data c = data then Some (Some cur)
      else case lc_next c of None \<Rightarrow> Some None | Some n \<Rightarrow> lookup_loop data n h)
   }"

definition list_lookup_data :: "ptr \<Rightarrow> 'd option \<Rightarrow> 'd lheap \<Rightarrow> (ptr \<times> 'd lheap) option" where
  "list_lookup_data lst data h =
     (if lst = None \<or> data = None then EPRET EINVAL h
      else do {
        (cur, h) \<leftarrow> list_first lst h;
        cur \<leftarrow> (case cur of None \<Rightarrow> Some None | Some c \<Rightarrow> lookup_loop data c h);
        (if cur = None then EPRET ENOENT h else Some (cur, h))
      })"

definition list_obj_del_data ::
  "ptr \<Rightarrow> 'd option \<Rightarrow> bool \<Rightarrow> 'd lheap \<Rightarrow> (int \<times> ptr \<times> 'd lheap) option" where
  "list_obj_del_data lst data datafree h = do {
     (item, h) \<leftarrow> list_lookup_data lst data h;
     (if item \<noteq> None then list_obj_del lst item datafree h else Some (- lh_errno h, lst, h))
   }"

section \<open>Sorting, searching, reversing\<close>

text \<open>
  The sorters and comparators of the sources read the data of the cells they get, so they are
  functions of the data. One pass of \<open>list_sort\<close>: after a swap \<open>f\<close> has moved one place to the
  right and the pass goes on behind it.
\<close>

partial_function (option) sort_pass ::
  "('d option \<Rightarrow> 'd option \<Rightarrow> bool) \<Rightarrow> addr \<Rightarrow> bool \<Rightarrow> 'd lheap \<Rightarrow> (bool \<times> 'd lheap) option" where
  "sort_pass sorter f changed h = do {
     c \<leftarrow> cell_at h f;
     (changed, h) \<leftarrow> (case lc_next c of
        None \<Rightarrow> Some (changed, h)
      | Some n \<Rightarrow> do {
          d \<leftarrow> cell_at h n;
          (if \<not> sorter (lc_data c) (lc_data d) then Some (changed, h)
           else do { (_, h) \<leftarrow> list_swap_neighbor (Some f) (Some n) h; Some (True, h) })
        });
     c \<leftarrow> cell_at h f;
     (case lc_next c of None \<Rightarrow> Some (changed, h) | Some n \<Rightarrow> sort_pass sorter n changed h)
   }"

partial_function (option) sort_loop ::
  "('d option \<Rightarrow> 'd option \<Rightarrow> bool) \<Rightarrow> ptr \<Rightarrow> int \<Rightarrow> 'd lheap \<Rightarrow> (int \<times> 'd lheap) option" where
  "sort_loop sorter lst r h = do {
     (f, h) \<leftarrow> list_first lst h;
     (case f of
        None \<Rightarrow> Some (r, h)
      | Some fa \<Rightarrow> do {
          (changed, h) \<leftarrow> sort_pass sorter fa False h;
          (if changed then sort_loop sorter lst (r + 1) h else Some (r + 1, h))
        })
   }"

definition list_sort ::
  "ptr \<Rightarrow> ('d option \<Rightarrow> 'd option \<Rightarrow> bool) \<Rightarrow> 'd lheap \<Rightarrow> (int \<times> 'd lheap) option" where
  "list_sort lst sorter h = (if lst = None then ERET EINVAL h else sort_loop sorter lst 0 h)"

partial_function (option) search_loop ::
  "('d option \<Rightarrow> bool) \<Rightarrow> addr \<Rightarrow> 'd lheap \<Rightarrow> ptr option" where
  "search_loop comparator f h = do {
     c \<leftarrow> cell_at h f;
     (if comparator (lc_data c) then Some (Some f)
      else case lc_next c of None \<Rightarrow> Some None | Some n \<Rightarrow> search_loop comparator n h)
   }"

definition list_search_one :: "ptr \<Rightarrow> ('d option \<Rightarrow> bool) \<Rightarrow> 'd lheap \<Rightarrow> (ptr \<times> 'd lheap) option" where
  "list_search_one lst comparator h =
     (if lst = None then EPRET EINVAL h
      else do {
        (f, h) \<leftarrow> list_first lst h;
        (case f of
           None \<Rightarrow> Some (None, h)
         | Some fa \<Rightarrow> do { r \<leftarrow> search_loop comparator fa h; Some (r, h) })
      })"

definition list_pointer_comparator :: "'d option \<Rightarrow> 'd option \<Rightarrow> bool" where
  "list_pointer_comparator v d \<longleftrightarrow> d = v"

definition list_string_comparator :: "cstring option \<Rightarrow> cstring option \<Rightarrow> bool" where
  "list_string_comparator v d =
     (case (d, v) of (Some str, Some s) \<Rightarrow> strcmp str s = 0 | _ \<Rightarrow> False)"

definition list_string_case_comparator :: "cstring option \<Rightarrow> cstring option \<Rightarrow> bool" where
  "list_string_case_comparator v d =
     (case (d, v) of (Some str, Some s) \<Rightarrow> strcasecmp str s = 0 | _ \<Rightarrow> False)"

text \<open>
  \<open>list_string_sorter\<close>; \<open>char\<close> is unsigned on the Arm targets of the loader, so the characters
  compare as bytes.
\<close>

fun string_above :: "cstring \<Rightarrow> cstring \<Rightarrow> cstring \<Rightarrow> cstring \<Rightarrow> bool" where
  "string_above (c # s1) (d # s2) t1 t2 =
     (if c \<noteq> d then cval c > cval d else string_above s1 s2 t1 t2)"
| "string_above s1 s2 t1 t2 \<longleftrightarrow> length t1 > length t2"

definition list_string_sorter :: "cstring option \<Rightarrow> cstring option \<Rightarrow> bool" where
  "list_string_sorter s1 s2 =
     (case (s1, s2) of
        (Some a, Some b) \<Rightarrow> string_above a b a b
      | _ \<Rightarrow> s1 = None \<and> s2 \<noteq> None)"

definition list_search_string ::
  "ptr \<Rightarrow> cstring option \<Rightarrow> cstring lheap \<Rightarrow> (ptr \<times> cstring lheap) option" where
  "list_search_string lst str h = list_search_one lst (list_string_comparator str) h"

definition list_search_case_string ::
  "ptr \<Rightarrow> cstring option \<Rightarrow> cstring lheap \<Rightarrow> (ptr \<times> cstring lheap) option" where
  "list_search_case_string lst str h = list_search_one lst (list_string_case_comparator str) h"

partial_function (option) reverse_loop :: "addr \<Rightarrow> 'd lheap \<Rightarrow> (int \<times> 'd lheap) option" where
  "reverse_loop l h = do {
     c \<leftarrow> cell_at h l;
     let n = lc_prev c;
     h \<leftarrow> set_prev l (lc_next c) h;
     h \<leftarrow> set_next l n h;
     c \<leftarrow> cell_at h l;
     (case lc_prev c of None \<Rightarrow> Some (0, h) | Some m \<Rightarrow> reverse_loop m h)
   }"

definition list_reverse :: "ptr \<Rightarrow> 'd lheap \<Rightarrow> (int \<times> 'd lheap) option" where
  "list_reverse lst h =
     (if lst = None then ERET EINVAL h
      else do {
        (l, h) \<leftarrow> list_first lst h;
        (case l of None \<Rightarrow> Some (0, h) | Some la \<Rightarrow> reverse_loop la h)
      })"

partial_function (option) append_loop ::
  "addr \<Rightarrow> cstring \<Rightarrow> nat \<Rightarrow> cstring option \<Rightarrow> cstring lheap \<Rightarrow> cstring option" where
  "append_loop l buff len sep h = do {
     c \<leftarrow> cell_at h l;
     let buff = (case lc_data c of
        None \<Rightarrow> buff
      | Some str \<Rightarrow>
          if str = [] then buff
          else strlcat (case sep of Some s \<Rightarrow> if buff \<noteq> [] then strlcat buff s len else buff
                                  | None \<Rightarrow> buff) str len);
     (case lc_next c of None \<Rightarrow> Some buff | Some n \<Rightarrow> append_loop n buff len sep h)
   }"

definition list_string_append ::
  "ptr \<Rightarrow> cstring \<Rightarrow> nat \<Rightarrow> cstring option \<Rightarrow> cstring lheap \<Rightarrow> (cstring option \<times> cstring lheap) option" where
  "list_string_append lst buff len sep h =
     (if lst = None \<or> len = 0 then Some (None, h)
      else do {
        (l, h) \<leftarrow> list_first lst h;
        (case l of
           None \<Rightarrow> Some (Some buff, h)
         | Some la \<Rightarrow> do { b \<leftarrow> append_loop la buff len sep h; Some (Some b, h) })
      })"

text \<open>The size computation: \<open>None\<close> inside is the overflow exit.\<close>

partial_function (option) total_loop ::
  "addr \<Rightarrow> nat \<Rightarrow> nat \<Rightarrow> nat \<Rightarrow> cstring lheap \<Rightarrow> (nat \<times> nat) option option" where
  "total_loop p count sep_len total_len h = do {
     c \<leftarrow> cell_at h p;
     let r = (case lc_data c of
        None \<Rightarrow> Some (count, total_len)
      | Some str \<Rightarrow>
          if str = [] then Some (count, total_len)
          else if length str > SIZE_MAX - total_len \<or>
                  0 < count \<and> sep_len > SIZE_MAX - total_len - length str then None
          else Some (Suc count, total_len + length str + (if 0 < count then sep_len else 0)));
     (case r of
        None \<Rightarrow> Some None
      | Some (count, total_len) \<Rightarrow>
          (case lc_next c of
             None \<Rightarrow> Some (Some (count, total_len))
           | Some n \<Rightarrow> total_loop n count sep_len total_len h))
   }"

definition list_to_string ::
  "ptr \<Rightarrow> cstring option \<Rightarrow> cstring lheap \<Rightarrow> (cstring option \<times> cstring lheap) option" where
  "list_to_string lst sep h =
     (case (lst, sep) of
        (Some _, Some s) \<Rightarrow> do {
          (p, h) \<leftarrow> list_first lst h;
          r \<leftarrow> (case p of None \<Rightarrow> Some (Some (0, 1)) | Some pa \<Rightarrow> total_loop pa 0 (length s) 1 h);
          (case r of
             None \<Rightarrow> Some (None, h)
           | Some (count, total_len) \<Rightarrow>
               if count = 0 then Some (None, h)
               else let t = lh_tick h; h = h\<lparr>lh_tick := Suc t\<rparr>
                    in if lh_oom h t then Some (None, h)
                       else list_string_append lst [] total_len sep h)
        }
      | _ \<Rightarrow> Some (None, h))"

end
