(* ===== verification/ListFacts.thy ===== *)
theory ListFacts
  imports ListHeap "HOL-Library.Multiset"
begin

text \<open>
  What the list operations do to the abstract list. \<open>dlist C xs\<close> says that the cells \<open>C\<close> hold a
  complete, acyclic, doubly linked list whose cells, in order, have the addresses and data \<open>xs\<close>.
  Each operation is shown to be the corresponding operation on \<open>xs\<close>, to return, and to leave
  every cell outside the list alone.
\<close>

section \<open>Segments\<close>

type_synonym 'd alist = "(addr \<times> 'd option) list"

definition hdo :: "ptr \<Rightarrow> 'd alist \<Rightarrow> ptr" where
  "hdo q xs = (case xs of [] \<Rightarrow> q | x # _ \<Rightarrow> Some (fst x))"

definition lasto :: "ptr \<Rightarrow> 'd alist \<Rightarrow> ptr" where
  "lasto p xs = (if xs = [] then p else Some (fst (last xs)))"

lemma hdo_simps [simp]: "hdo q [] = q" "hdo q (x # xs) = Some (fst x)"
  by (simp_all add: hdo_def)

lemma lasto_simps [simp]: "lasto p [] = p" "lasto p (xs @ [x]) = Some (fst x)" "lasto p [x] = Some (fst x)"
  by (simp_all add: lasto_def)

lemma lasto_Cons [simp]: "lasto p (x # xs) = lasto (Some (fst x)) xs"
  by (simp add: lasto_def)

lemma hdo_append: "hdo q (xs @ ys) = hdo (hdo q ys) xs"
  by (cases xs) auto

lemma lasto_append: "lasto p (xs @ ys) = lasto (lasto p xs) ys"
  by (simp add: lasto_def)

fun dseg :: "(addr \<Rightarrow> 'd lcell option) \<Rightarrow> ptr \<Rightarrow> 'd alist \<Rightarrow> ptr \<Rightarrow> bool" where
  "dseg C p [] q = True"
| "dseg C p (x # xs) q \<longleftrightarrow>
     C (fst x) = Some \<lparr>lc_prev = p, lc_next = hdo q xs, lc_data = snd x\<rparr> \<and> dseg C (Some (fst x)) xs q"

definition dlist :: "(addr \<Rightarrow> 'd lcell option) \<Rightarrow> 'd alist \<Rightarrow> bool" where
  "dlist C xs \<longleftrightarrow> xs \<noteq> [] \<and> distinct (map fst xs) \<and> dseg C None xs None"

abbreviation addrs :: "'d alist \<Rightarrow> addr set" where
  "addrs xs \<equiv> fst ` set xs"

lemma dseg_append:
  "dseg C p (xs @ ys) q \<longleftrightarrow> dseg C p xs (hdo q ys) \<and> dseg C (lasto p xs) ys q"
  by (induction xs arbitrary: p) (auto simp: hdo_append)

lemma dseg_cong: "(\<And>a. a \<in> addrs xs \<Longrightarrow> C a = D a) \<Longrightarrow> dseg C p xs q = dseg D p xs q"
  by (induction xs arbitrary: p) auto

lemma dseg_frame [simp]: "a \<notin> addrs xs \<Longrightarrow> dseg (C(a := v)) p xs q = dseg C p xs q"
  by (rule dseg_cong) auto

lemma dseg_cell: "dseg C p xs q \<Longrightarrow> a \<in> addrs xs \<Longrightarrow> \<exists>c. C a = Some c"
  by (induction xs arbitrary: p) auto

text \<open>Reading a cell in the middle.\<close>

lemma dseg_mid:
  "dseg C p (us @ x # vs) q \<Longrightarrow>
   C (fst x) = Some \<lparr>lc_prev = lasto p us, lc_next = hdo q vs, lc_data = snd x\<rparr>"
  by (simp add: dseg_append)

text \<open>Relinking either end of a segment.\<close>

lemma dseg_relink_last:
  assumes "dseg C p (us @ [x]) q" "fst x \<notin> addrs us"
  shows "dseg (C(fst x \<mapsto> \<lparr>lc_prev = lasto p us, lc_next = q', lc_data = snd x\<rparr>)) p (us @ [x]) q'"
  using assms by (simp add: dseg_append)

lemma dseg_relink_first:
  assumes "dseg C p (x # vs) q" "fst x \<notin> addrs vs"
  shows "dseg (C(fst x \<mapsto> \<lparr>lc_prev = p', lc_next = hdo q vs, lc_data = snd x\<rparr>)) p' (x # vs) q"
  using assms by simp

lemma split_addr: "a \<in> addrs xs \<Longrightarrow> \<exists>us x vs. xs = us @ x # vs \<and> fst x = a"
  by (metis imageE split_list)

section \<open>The elementary steps\<close>

lemmas heap_defs = cell_at_def set_errno_def ERET_def EPRET_def neg_errno_def

lemma set_errno_simps [simp]:
  "lh_cells (set_errno e h) = lh_cells h" "lh_nxt (set_errno e h) = lh_nxt h"
  "lh_oom (set_errno e h) = lh_oom h" "lh_tick (set_errno e h) = lh_tick h"
  "lh_freed (set_errno e h) = lh_freed h" "lh_errno (set_errno e h) = e"
  by (simp_all add: set_errno_def)

lemma set_prev_eq:
  "lh_cells h a = Some c \<Longrightarrow>
   set_prev a v h = Some (h\<lparr>lh_cells := (lh_cells h)(a \<mapsto> c\<lparr>lc_prev := v\<rparr>)\<rparr>)"
  by (simp add: set_prev_def upd_cell_def)

lemma set_next_eq:
  "lh_cells h a = Some c \<Longrightarrow>
   set_next a v h = Some (h\<lparr>lh_cells := (lh_cells h)(a \<mapsto> c\<lparr>lc_next := v\<rparr>)\<rparr>)"
  by (simp add: set_next_def upd_cell_def)

lemmas link_eqs = set_prev_eq set_next_eq set_prev_if_def set_next_if_def

lemma first_loop_seg:
  assumes "dseg (lh_cells h) None (us @ [x]) q" "p \<notin> addrs (us @ [x])"
  shows "first_loop p (fst x) h = Some (hdo None (us @ [x]), h)"
  using assms
proof (induction us arbitrary: x q rule: rev_induct)
  case Nil
  then show ?case by (subst first_loop.simps) (auto simp: cell_at_def)
next
  case (snoc y us)
  then have "first_loop p (fst y) h = Some (hdo None (us @ [y]), h)"
    by (intro snoc.IH) (auto simp: dseg_append)
  moreover have "lh_cells h (fst x) = Some \<lparr>lc_prev = Some (fst y), lc_next = q, lc_data = snd x\<rparr>"
    using snoc.prems(1) by (simp add: dseg_append)
  ultimately show ?case
    using snoc.prems(2) by (subst first_loop.simps) (auto simp: cell_at_def hdo_append)
qed

lemma last_loop_seg:
  assumes "dseg (lh_cells h) r (x # vs) None" "p \<notin> addrs (x # vs)"
  shows "last_loop p (fst x) h = Some (lasto None (x # vs), h)"
  using assms
proof (induction vs arbitrary: x r)
  case Nil
  then show ?case by (subst last_loop.simps) (auto simp: cell_at_def)
next
  case (Cons y vs)
  then have "last_loop p (fst y) h = Some (lasto None (y # vs), h)"
    by (intro Cons.IH) auto
  then show ?case
    using Cons.prems by (subst last_loop.simps) (auto simp: cell_at_def)
qed

lemma list_first_dlist:
  assumes "dlist (lh_cells h) xs" "a \<in> addrs xs"
  shows "list_first (Some a) h = Some (Some (fst (hd xs)), set_errno 0 h)"
proof -
  obtain us x vs where xs: "xs = us @ x # vs" "fst x = a"
    using split_addr [OF assms(2)] by blast
  from assms(1) have d: "distinct (map fst xs)" "dseg (lh_cells h) None xs None"
    by (auto simp: dlist_def)
  have c: "lh_cells h a = Some \<lparr>lc_prev = lasto None us, lc_next = hdo None vs, lc_data = snd x\<rparr>"
    using d(2) xs dseg_mid by fastforce
  show ?thesis
  proof (cases us rule: rev_cases)
    case Nil
    with c xs show ?thesis by (simp add: list_first_def heap_defs)
  next
    case (snoc ys y)
    have "first_loop a (fst y) (set_errno 0 h) = Some (hdo None (ys @ [y]), set_errno 0 h)"
      using d xs snoc by (intro first_loop_seg [where q = "Some a"]) (auto simp: dseg_append heap_defs)
    moreover have "hdo None (ys @ [y]) = Some (fst (hd xs))"
      using xs snoc by (cases ys) auto
    ultimately show ?thesis using c snoc by (simp add: list_first_def heap_defs)
  qed
qed

lemma list_ends_errno [simp]:
  "list_first p (h\<lparr>lh_errno := e\<rparr>) = list_first p h"
  "list_last p (h\<lparr>lh_errno := e\<rparr>) = list_last p h"
  "list_first p (set_errno e h) = list_first p h"
  "list_last p (set_errno e h) = list_last p h"
  by (simp_all add: list_first_def list_last_def set_errno_def cong: option.case_cong)

lemma list_last_dlist:
  assumes "dlist (lh_cells h) xs" "a \<in> addrs xs"
  shows "list_last (Some a) h = Some (Some (fst (last xs)), set_errno 0 h)"
proof -
  obtain us x vs where xs: "xs = us @ x # vs" "fst x = a"
    using split_addr [OF assms(2)] by blast
  from assms(1) have d: "distinct (map fst xs)" "dseg (lh_cells h) None xs None"
    by (auto simp: dlist_def)
  have c: "lh_cells h a = Some \<lparr>lc_prev = lasto None us, lc_next = hdo None vs, lc_data = snd x\<rparr>"
    using d(2) xs dseg_mid by fastforce
  show ?thesis
  proof (cases vs)
    case Nil
    with c xs show ?thesis by (simp add: list_last_def heap_defs)
  next
    case (Cons y ys)
    have "last_loop a (fst y) (set_errno 0 h) = Some (lasto None (y # ys), set_errno 0 h)"
      using d xs Cons by (intro last_loop_seg [where r = "Some a"]) (auto simp: dseg_append heap_defs)
    moreover have "lasto None (y # ys) = Some (fst (last xs))"
      using xs Cons by (simp add: lasto_def)
    ultimately show ?thesis using c Cons by (simp add: list_last_def heap_defs)
  qed
qed

section \<open>Insertion\<close>

text \<open>What an operation that only relinks the cells \<open>A\<close> leaves alone.\<close>

definition links_only :: "addr set \<Rightarrow> 'd lheap \<Rightarrow> 'd lheap \<Rightarrow> bool" where
  "links_only A h h' \<longleftrightarrow>
     (\<forall>a. a \<notin> A \<longrightarrow> lh_cells h' a = lh_cells h a) \<and> lh_nxt h' = lh_nxt h \<and>
     lh_oom h' = lh_oom h \<and> lh_tick h' = lh_tick h \<and> lh_freed h' = lh_freed h"

lemma dlist_distinct: "dlist C xs \<Longrightarrow> distinct (map fst xs)"
  by (simp add: dlist_def)

lemma dlist_ne: "dlist C xs \<Longrightarrow> xs \<noteq> []"
  by (simp add: dlist_def)

lemma dlist_ends:
  assumes "dlist C ys"
  shows "(\<exists>y. ys = [y]) \<or> (\<exists>y ms z. ys = y # ms @ [z])"
proof -
  from assms have "ys \<noteq> []" by (simp add: dlist_def)
  then obtain y t where "ys = y # t" by (cases ys) auto
  then show ?thesis by (cases t rule: rev_cases) auto
qed

lemma list_add_at_end:
  assumes "dlist (lh_cells h) (us @ [x])" "dlist (lh_cells h) (y # ys)"
    and "addrs (us @ [x]) \<inter> addrs (y # ys) = {}"
  obtains h' where "list_add (Some (fst x)) (Some (fst y)) h = Some (0, h')"
    "dlist (lh_cells h') (us @ x # y # ys)" "links_only {fst x, fst y} h h'"
proof
  let ?C = "lh_cells h"
  let ?h = "set_errno 0 (h\<lparr>lh_cells := ?C
        (fst x \<mapsto> \<lparr>lc_prev = lasto None us, lc_next = Some (fst y), lc_data = snd x\<rparr>,
         fst y \<mapsto> \<lparr>lc_prev = Some (fst x), lc_next = hdo None ys, lc_data = snd y\<rparr>)\<rparr>)"
  have c: "?C (fst x) = Some \<lparr>lc_prev = lasto None us, lc_next = None, lc_data = snd x\<rparr>"
    "?C (fst y) = Some \<lparr>lc_prev = None, lc_next = hdo None ys, lc_data = snd y\<rparr>"
    using assms(1,2) by (auto simp: dlist_def dseg_append image_Un)
  have ne: "fst x \<noteq> fst y" using assms(3) by auto
  show "list_add (Some (fst x)) (Some (fst y)) h = Some (0, ?h)"
    using c ne by (simp add: list_add_def heap_defs link_eqs)
  show "dlist (lh_cells ?h) (us @ x # y # ys)"
    using assms ne by (auto simp: dlist_def dseg_append heap_defs image_Un)
  show "links_only {fst x, fst y} h ?h"
    by (simp add: links_only_def heap_defs)
qed

lemma list_add_in_middle:
  assumes "dlist (lh_cells h) (us @ x # v # vs)" "dlist (lh_cells h) ys" "n \<in> addrs ys"
    and "addrs (us @ x # v # vs) \<inter> addrs ys = {}"
  obtains h' where "list_add (Some (fst x)) (Some n) h = Some (0, h')"
    "dlist (lh_cells h') (us @ x # ys @ v # vs)"
    "links_only ({fst x, fst v} \<union> addrs ys) h h'"
proof -
  let ?C = "lh_cells h"
  have c: "?C (fst x) = Some \<lparr>lc_prev = lasto None us, lc_next = Some (fst v), lc_data = snd x\<rparr>"
    "?C (fst v) = Some \<lparr>lc_prev = Some (fst x), lc_next = hdo None vs, lc_data = snd v\<rparr>"
    using assms(1) by (auto simp: dlist_def dseg_append image_Un)
  have ne: "fst x \<noteq> n" "fst x \<noteq> fst v" using assms(1,3,4) by (auto simp: dlist_def)
  note ends = list_first_dlist [OF assms(2,3)] list_last_dlist [OF assms(2,3)]
  from dlist_ends [OF assms(2)] show thesis
  proof (elim disjE exE)
    fix y assume y: "ys = [y]"
    let ?D = "?C(fst v \<mapsto> \<lparr>lc_prev = Some (fst y), lc_next = hdo None vs, lc_data = snd v\<rparr>,
         fst y \<mapsto> \<lparr>lc_prev = Some (fst x), lc_next = Some (fst v), lc_data = snd y\<rparr>,
         fst x \<mapsto> \<lparr>lc_prev = lasto None us, lc_next = Some (fst y), lc_data = snd x\<rparr>)"
    have z: "fst y \<noteq> fst v" "fst y \<noteq> fst x" using assms(4) y by auto
    have cy: "?C (fst y) = Some \<lparr>lc_prev = None, lc_next = None, lc_data = snd y\<rparr>"
      using assms(2) y by (auto simp: dlist_def)
    show thesis
    proof (rule that [of "h\<lparr>lh_cells := ?D, lh_errno := 0\<rparr>"])
      show "list_add (Some (fst x)) (Some n) h = Some (0, h\<lparr>lh_cells := ?D, lh_errno := 0\<rparr>)"
        using c cy ne z ends y by (simp add: list_add_def heap_defs link_eqs fun_upd_twist)
      show "dlist (lh_cells (h\<lparr>lh_cells := ?D, lh_errno := 0\<rparr>)) (us @ x # ys @ v # vs)"
        using assms ne z y by (auto simp: dlist_def dseg_append image_Un)
    qed (use y in \<open>auto simp: links_only_def\<close>)
  next
    fix y ms w assume y: "ys = y # ms @ [w]"
    let ?D = "?C(fst v \<mapsto> \<lparr>lc_prev = Some (fst w), lc_next = hdo None vs, lc_data = snd v\<rparr>,
         fst w \<mapsto> \<lparr>lc_prev = lasto (Some (fst y)) ms, lc_next = Some (fst v), lc_data = snd w\<rparr>,
         fst x \<mapsto> \<lparr>lc_prev = lasto None us, lc_next = Some (fst y), lc_data = snd x\<rparr>,
         fst y \<mapsto> \<lparr>lc_prev = Some (fst x), lc_next = hdo (Some (fst w)) ms, lc_data = snd y\<rparr>)"
    have z: "fst y \<noteq> fst v" "fst y \<noteq> fst x" "fst w \<noteq> fst v" "fst w \<noteq> fst x" "fst y \<noteq> fst w"
      using assms(2,4) y by (auto simp: dlist_def)
    have cy: "?C (fst y) = Some \<lparr>lc_prev = None, lc_next = hdo (Some (fst w)) ms, lc_data = snd y\<rparr>"
      "?C (fst w) = Some \<lparr>lc_prev = lasto (Some (fst y)) ms, lc_next = None, lc_data = snd w\<rparr>"
      using assms(2) y by (auto simp: dlist_def dseg_append hdo_append lasto_append image_Un)
    show thesis
    proof (rule that [of "h\<lparr>lh_cells := ?D, lh_errno := 0\<rparr>"])
      show "list_add (Some (fst x)) (Some n) h = Some (0, h\<lparr>lh_cells := ?D, lh_errno := 0\<rparr>)"
        using c cy ne z ends y by (simp add: list_add_def heap_defs link_eqs)
      have m: "fst y \<notin> addrs us \<union> addrs vs \<union> addrs ms" "fst w \<notin> addrs us \<union> addrs vs \<union> addrs ms"
        "fst x \<notin> addrs us \<union> addrs vs \<union> addrs ms" "fst v \<notin> addrs us \<union> addrs vs \<union> addrs ms"
        using assms(1,2,4) y by (auto simp: dlist_def)
      have "distinct (map fst (us @ x # ys @ v # vs))"
        using dlist_distinct [OF assms(1)] dlist_distinct [OF assms(2)] assms(4)
        by (simp add: disjoint_iff image_Un) blast
      moreover have "dseg ?D None (us @ x # ys @ v # vs) None"
        using assms(1,2) m ne(2) z y
        by (simp add: dlist_def dseg_append hdo_append lasto_append)
      ultimately show "dlist (lh_cells (h\<lparr>lh_cells := ?D, lh_errno := 0\<rparr>)) (us @ x # ys @ v # vs)"
        by (simp add: dlist_def)
    qed (use y in \<open>auto simp: links_only_def\<close>)
  qed
qed

lemma list_insert_at_head:
  assumes "dlist (lh_cells h) (x # vs)" "dlist (lh_cells h) ys" "n \<in> addrs ys"
    and "addrs (x # vs) \<inter> addrs ys = {}"
  obtains h' where "list_insert (Some (fst x)) (Some n) h = Some (0, h')"
    "dlist (lh_cells h') (ys @ x # vs)" "links_only ({fst x} \<union> addrs ys) h h'"
proof -
  let ?C = "lh_cells h"
  obtain ms w where y: "ys = ms @ [w]"
    using dlist_ne [OF assms(2)] by (cases ys rule: rev_cases) auto
  have c: "?C (fst x) = Some \<lparr>lc_prev = None, lc_next = hdo None vs, lc_data = snd x\<rparr>"
    "?C (fst w) = Some \<lparr>lc_prev = lasto None ms, lc_next = None, lc_data = snd w\<rparr>"
    using assms(1,2) y by (auto simp: dlist_def dseg_append)
  have ne: "fst x \<noteq> fst w" using assms(4) y by auto
  let ?D = "?C(fst x \<mapsto> \<lparr>lc_prev = Some (fst w), lc_next = hdo None vs, lc_data = snd x\<rparr>,
         fst w \<mapsto> \<lparr>lc_prev = lasto None ms, lc_next = Some (fst x), lc_data = snd w\<rparr>)"
  note last = list_last_dlist [OF assms(2,3)]
  show thesis
  proof (rule that [of "h\<lparr>lh_cells := ?D, lh_errno := 0\<rparr>"])
    show "list_insert (Some (fst x)) (Some n) h = Some (0, h\<lparr>lh_cells := ?D, lh_errno := 0\<rparr>)"
      using c ne last y by (simp add: list_insert_def heap_defs link_eqs)
    have "distinct (map fst (ys @ x # vs))"
      using dlist_distinct [OF assms(1)] dlist_distinct [OF assms(2)] assms(4) by auto
    moreover have "dseg ?D None (ys @ x # vs) None"
      using assms ne y by (auto simp: dlist_def dseg_append)
    ultimately show "dlist (lh_cells (h\<lparr>lh_cells := ?D, lh_errno := 0\<rparr>)) (ys @ x # vs)"
      by (simp add: dlist_def)
  qed (use y in \<open>auto simp: links_only_def\<close>)
qed

section \<open>Swapping neighbours\<close>

lemma list_swap_dlist:
  assumes "dlist (lh_cells h) (us @ a # b # vs)"
  obtains h' where "list_swap_neighbor (Some (fst a)) (Some (fst b)) h = Some (0, h')"
    "dlist (lh_cells h') (us @ b # a # vs)" "links_only (addrs (us @ a # b # vs)) h h'"
proof -
  let ?C = "lh_cells h"
  have d: "distinct (map fst (us @ a # b # vs))" "dseg ?C None (us @ a # b # vs) None"
    using assms by (auto simp: dlist_def)
  have c: "?C (fst a) = Some \<lparr>lc_prev = lasto None us, lc_next = Some (fst b), lc_data = snd a\<rparr>"
    "?C (fst b) = Some \<lparr>lc_prev = Some (fst a), lc_next = hdo None vs, lc_data = snd b\<rparr>"
    using d(2) by (auto simp: dseg_append)
  let ?U = "if us = [] then ?C else ?C(fst (last us) \<mapsto> \<lparr>lc_prev = lasto None (butlast us), lc_next = Some (fst b), lc_data = snd (last us)\<rparr>)"
  let ?V = "if vs = [] then ?U else
      ?U(fst (hd vs) \<mapsto> \<lparr>lc_prev = Some (fst a), lc_next = hdo None (tl vs), lc_data = snd (hd vs)\<rparr>)"
  let ?D = "?V(fst a \<mapsto> \<lparr>lc_prev = Some (fst b), lc_next = hdo None vs, lc_data = snd a\<rparr>,
      fst b \<mapsto> \<lparr>lc_prev = lasto None us, lc_next = Some (fst a), lc_data = snd b\<rparr>)"
  have ne: "fst a \<noteq> fst b" using d(1) by auto
  have U: "dseg ?U None us (Some (fst b))"
    using d by (cases us rule: rev_cases) (auto simp: dseg_append)
  have V: "dseg ?V (Some (fst a)) vs None" "dseg ?V None us (Some (fst b))"
    using d U by (cases vs; cases us rule: rev_cases; auto simp: dseg_append image_Un)+
  show thesis
  proof (rule that [of "h\<lparr>lh_cells := ?D, lh_errno := 0\<rparr>"])
    show "list_swap_neighbor (Some (fst a)) (Some (fst b)) h = Some (0, h\<lparr>lh_cells := ?D, lh_errno := 0\<rparr>)"
    proof (cases us rule: rev_cases)
      case Nil
      with c ne d show ?thesis
        by (cases vs) (auto simp: list_swap_neighbor_def heap_defs link_eqs fun_upd_twist)
    next
      case (snoc ws u)
      with c ne d show ?thesis
        by (cases vs; cases ws)
          (auto simp: list_swap_neighbor_def heap_defs link_eqs dseg_append fun_upd_twist)
    qed
    have "dseg ?D None (us @ b # a # vs) None"
      using V ne d(1) by (simp add: dseg_append)
    then show "dlist (lh_cells (h\<lparr>lh_cells := ?D, lh_errno := 0\<rparr>)) (us @ b # a # vs)"
      using d(1) by (auto simp: dlist_def)
    show "links_only (addrs (us @ a # b # vs)) h (h\<lparr>lh_cells := ?D, lh_errno := 0\<rparr>)"
      by (auto simp: links_only_def)
  qed
qed

section \<open>Sorting\<close>

text \<open>One pass on the abstract list, and the number of inversions it removes.\<close>

fun pass_list :: "('d option \<Rightarrow> 'd option \<Rightarrow> bool) \<Rightarrow> 'd alist \<Rightarrow> bool \<times> 'd alist" where
  "pass_list s (x # y # zs) =
     (if s (snd x) (snd y) then (True, y # x # snd (pass_list s zs))
      else (fst (pass_list s (y # zs)), x # snd (pass_list s (y # zs))))"
| "pass_list s xs = (False, xs)"

lemma links_only_trans: "links_only A h h' \<Longrightarrow> links_only A h' h'' \<Longrightarrow> links_only A h h''"
  by (simp add: links_only_def)

lemma links_only_mono: "links_only A h h' \<Longrightarrow> A \<subseteq> B \<Longrightarrow> links_only B h h'"
  by (auto simp: links_only_def)

lemma links_only_refl [simp]: "links_only A h h"
  by (simp add: links_only_def)

lemma pass_list_mset: "mset (snd (pass_list s xs)) = mset xs"
  by (induction s xs rule: pass_list.induct) auto

lemma pass_list_set: "set (snd (pass_list s xs)) = set xs"
  using pass_list_mset mset_eq_setD by blast

lemma dlist_cell:
  "dlist (lh_cells h) (us @ x # vs) \<Longrightarrow>
   cell_at h (fst x) = Some \<lparr>lc_prev = lasto None us, lc_next = hdo None vs, lc_data = snd x\<rparr>"
  by (auto simp: dlist_def dseg_append cell_at_def)

lemma sort_pass_dlist:
  assumes "dlist (lh_cells h) (us @ x # vs)"
  shows "\<exists>h'. sort_pass s (fst x) ch h = Some (ch \<or> fst (pass_list s (x # vs)), h') \<and>
     dlist (lh_cells h') (us @ snd (pass_list s (x # vs))) \<and> links_only (addrs (us @ x # vs)) h h'"
  using assms
proof (induction "length vs" arbitrary: us x vs ch h rule: less_induct)
  case less
  show ?case
  proof (cases vs)
    case Nil
    with dlist_cell [OF less.prems] less.prems show ?thesis
      by (subst sort_pass.simps) simp
  next
    case (Cons y zs)
    have c: "cell_at h (fst x) = Some \<lparr>lc_prev = lasto None us, lc_next = Some (fst y), lc_data = snd x\<rparr>"
      "cell_at h (fst y) = Some \<lparr>lc_prev = Some (fst x), lc_next = hdo None zs, lc_data = snd y\<rparr>"
      using dlist_cell [of h us x vs] dlist_cell [of h "us @ [x]" y zs] less.prems Cons by simp_all
    show ?thesis
    proof (cases "s (snd x) (snd y)")
      case False
      from less.hyps [where vs = zs and us = "us @ [x]" and x = y and h = h and ch = ch] less.prems Cons
      obtain h' where h': "sort_pass s (fst y) ch h = Some (ch \<or> fst (pass_list s vs), h')"
        "dlist (lh_cells h') ((us @ [x]) @ snd (pass_list s vs))"
        "links_only (addrs ((us @ [x]) @ vs)) h h'" by auto
      with False Cons c show ?thesis by (subst sort_pass.simps) simp
    next
      case True
      from less.prems Cons obtain h1 where h1:
        "list_swap_neighbor (Some (fst x)) (Some (fst y)) h = Some (0, h1)"
        "dlist (lh_cells h1) (us @ y # x # zs)" "links_only (addrs (us @ x # vs)) h h1"
        by (metis list_swap_dlist)
      have c1: "cell_at h1 (fst x) = Some \<lparr>lc_prev = Some (fst y), lc_next = hdo None zs, lc_data = snd x\<rparr>"
        using dlist_cell [of h1 "us @ [y]" x zs] h1(2) by simp
      have step: "sort_pass s (fst x) ch h =
          (case hdo None zs of None \<Rightarrow> Some (True, h1) | Some n \<Rightarrow> sort_pass s n True h1)"
        using c h1(1) c1 True by (subst sort_pass.simps) simp
      show ?thesis
      proof (cases zs)
        case Nil
        with step h1 True Cons show ?thesis by auto
      next
        case (Cons z ws)
        from less.hyps [where vs = ws and us = "us @ [y, x]" and x = z and h = h1 and ch = True] h1(2) Cons \<open>vs = y # zs\<close>
        obtain h' where h': "sort_pass s (fst z) True h1 = Some (True, h')"
          "dlist (lh_cells h') ((us @ [y, x]) @ snd (pass_list s zs))"
          "links_only (addrs ((us @ [y, x]) @ zs)) h1 h'" by auto
        have "links_only (addrs (us @ x # vs)) h1 h'"
          by (rule links_only_mono [OF h'(3)]) (use \<open>vs = y # zs\<close> in auto)
        from links_only_trans [OF h1(3) this] have "links_only (addrs (us @ x # vs)) h h'" .
        moreover have "pass_list s (x # vs) = (True, y # x # snd (pass_list s zs))"
          using True \<open>vs = y # zs\<close> by simp
        moreover have "sort_pass s (fst x) ch h = Some (True, h')"
          using step h'(1) Cons by simp
        moreover have "dlist (lh_cells h') (us @ y # x # snd (pass_list s zs))"
          using h'(2) by simp
        ultimately show ?thesis by (intro exI [of _ h']) simp
      qed
    qed
  qed
qed

fun inversions :: "('x \<Rightarrow> 'k::linorder) \<Rightarrow> 'x list \<Rightarrow> nat" where
  "inversions f [] = 0"
| "inversions f (x # xs) = length (filter (\<lambda>y. f y < f x) xs) + inversions f xs"

lemma length_filter_mset: "mset xs = mset ys \<Longrightarrow> length (filter P xs) = length (filter P ys)"
  by (metis mset_filter size_mset)

abbreviation key_sorter :: "('d option \<Rightarrow> 'k::linorder) \<Rightarrow> 'd option \<Rightarrow> 'd option \<Rightarrow> bool" where
  "key_sorter key x y \<equiv> key y < key x"

lemma pass_inversions:
  fixes key :: "'d option \<Rightarrow> 'k::linorder"
  shows "inversions (key \<circ> snd) (snd (pass_list (key_sorter key) xs))
     + (if fst (pass_list (key_sorter key) xs) then 1 else 0) \<le> inversions (key \<circ> snd) xs"
proof (induction xs rule: induct_list012)
  case (3 x y zs)
  have m: "length (filter P (snd (pass_list (key_sorter key) ws))) = length (filter P ws)"
    for P and ws :: "'d alist"
    by (rule length_filter_mset [OF pass_list_mset])
  show ?case
  proof (cases "key (snd y) < key (snd x)")
    case True
    then have n: "\<not> key (snd x) < key (snd y)" by simp
    show ?thesis using True n 3 m by (simp add: m)
  next
    case False
    show ?thesis using False 3 m by (simp add: m del: filter.simps)
  qed
qed auto

lemma pass_unchanged:
  "\<not> fst (pass_list s xs) \<Longrightarrow> snd (pass_list s xs) = xs"
  by (induction s xs rule: pass_list.induct) (auto split: if_splits)

lemma pass_unchanged_sorted:
  fixes key :: "'d option \<Rightarrow> 'k::linorder"
  shows "\<not> fst (pass_list (key_sorter key) xs) \<Longrightarrow> sorted (map (key \<circ> snd) xs)"
proof (induction xs rule: induct_list012)
  case (3 x y zs)
  then have "key (snd x) \<le> key (snd y)" "\<not> fst (pass_list (key_sorter key) (y # zs))"
    by (auto split: if_splits simp: not_less)
  with 3 show ?case by (auto intro: order_trans)
qed auto

lemma pass_stable:
  fixes key :: "'d option \<Rightarrow> 'k::linorder"
  shows "filter (\<lambda>x. key (snd x) = k) (snd (pass_list (key_sorter key) xs)) = filter (\<lambda>x. key (snd x) = k) xs"
  by (induction xs rule: induct_list012) auto

text \<open>\<open>list_sort\<close> with a sorter that orders by a key is the stable sort by that key.\<close>

lemma sort_loop_dlist:
  fixes key :: "'d option \<Rightarrow> 'k::linorder"
  assumes "dlist (lh_cells h) xs" "a \<in> addrs xs"
  shows "\<exists>r' h'. sort_loop (key_sorter key) (Some a) r h = Some (r', h') \<and>
     dlist (lh_cells h') (sort_key (key \<circ> snd) xs) \<and> links_only (addrs xs) h h'"
  using assms
proof (induction "inversions (key \<circ> snd) xs" arbitrary: xs r h rule: less_induct)
  case less
  let ?s = "key_sorter key" and ?h = "set_errno 0 h"
  obtain x vs where xs: "xs = x # vs" using dlist_ne [OF less.prems(1)] by (cases xs) auto
  have "dlist (lh_cells ?h) ([] @ x # vs)" using less.prems xs by (simp add: set_errno_def)
  from sort_pass_dlist [OF this, of ?s False] xs obtain h1 where h1:
    "sort_pass ?s (fst x) False ?h = Some (fst (pass_list ?s xs), h1)"
    "dlist (lh_cells h1) (snd (pass_list ?s xs))" "links_only (addrs xs) ?h h1" by auto
  then have l: "links_only (addrs xs) h h1" by (simp add: links_only_def set_errno_def)
  have st: "sort_loop ?s (Some a) r h = (if fst (pass_list ?s xs)
      then sort_loop ?s (Some a) (r + 1) h1 else Some (r + 1, h1))"
    using list_first_dlist [OF less.prems] xs h1(1) by (subst sort_loop.simps) simp
  show ?case
  proof (cases "fst (pass_list ?s xs)")
    case False
    with pass_unchanged_sorted [OF False] have "sort_key (key \<circ> snd) xs = xs"
      by (simp add: sorted_sort_id sort_key_id_if_sorted)
    with st False h1 l pass_unchanged [OF False] show ?thesis by auto
  next
    case True
    let ?ys = "snd (pass_list ?s xs)"
    have "inversions (key \<circ> snd) ?ys < inversions (key \<circ> snd) xs"
      using pass_inversions [of key xs] True by auto
    have "a \<in> addrs ?ys" using less.prems(2) by (simp add: pass_list_set)
    from less.hyps [OF \<open>inversions (key \<circ> snd) ?ys < _\<close> h1(2) this, of "r + 1"]
    obtain r' h' where h': "sort_loop ?s (Some a) (r + 1) h1 = Some (r', h')"
      "dlist (lh_cells h') (sort_key (key \<circ> snd) ?ys)" "links_only (addrs xs) h1 h'"
      by (simp only: pass_list_set) blast
    have "sort_key (key \<circ> snd) xs = sort_key (key \<circ> snd) ?ys"
    proof (rule properties_for_sort_key)
      show "mset (sort_key (key \<circ> snd) ?ys) = mset xs" by (simp add: pass_list_mset)
      fix k assume "k \<in> set (sort_key (key \<circ> snd) ?ys)"
      show "filter (\<lambda>x. (key \<circ> snd) k = (key \<circ> snd) x) (sort_key (key \<circ> snd) ?ys) =
        filter (\<lambda>x. (key \<circ> snd) k = (key \<circ> snd) x) xs"
        using pass_stable [of key "key (snd k)" xs] sort_key_stable [of "key \<circ> snd" "key (snd k)" ?ys]
        by (simp add: eq_commute [of "key (snd k)"])
    qed simp
    with h' st True links_only_trans [OF l h'(3)] show ?thesis by auto
  qed
qed

section \<open>Removing and freeing\<close>

lemma list_remove_dlist:
  assumes "dlist (lh_cells h) (us @ x # vs)" "us @ vs \<noteq> []"
  obtains h' where "list_remove (Some (fst x)) h = Some (0, h')"
    "dlist (lh_cells h') (us @ vs)" "dlist (lh_cells h') [x]"
    "links_only (addrs (us @ x # vs)) h h'"
proof -
  let ?C = "lh_cells h"
  have d: "distinct (map fst (us @ x # vs))" "dseg ?C None (us @ x # vs) None"
    using assms by (auto simp: dlist_def)
  have c: "?C (fst x) = Some \<lparr>lc_prev = lasto None us, lc_next = hdo None vs, lc_data = snd x\<rparr>"
    using d(2) by (auto simp: dseg_append)
  let ?U = "if us = [] then ?C else ?C(
      fst (last us) \<mapsto> \<lparr>lc_prev = lasto None (butlast us), lc_next = hdo None vs, lc_data = snd (last us)\<rparr>)"
  let ?V = "if vs = [] then ?U else ?U(
      fst (hd vs) \<mapsto> \<lparr>lc_prev = lasto None us, lc_next = hdo None (tl vs), lc_data = snd (hd vs)\<rparr>)"
  let ?D = "?V(fst x \<mapsto> \<lparr>lc_prev = None, lc_next = None, lc_data = snd x\<rparr>)"
  have U: "dseg ?U None us (hdo None vs)"
    using d by (cases us rule: rev_cases) (auto simp: dseg_append)
  have V: "dseg ?V (lasto None us) vs None" "dseg ?V None us (hdo None vs)"
    using d U by (cases vs; cases us rule: rev_cases; auto simp: dseg_append image_Un)+
  show thesis
  proof (rule that [of "h\<lparr>lh_cells := ?D, lh_errno := 0\<rparr>"])
    show "list_remove (Some (fst x)) h = Some (0, h\<lparr>lh_cells := ?D, lh_errno := 0\<rparr>)"
    proof (cases us rule: rev_cases)
      case Nil
      with c d assms(2) show ?thesis
        by (cases vs) (auto simp: list_remove_def heap_defs link_eqs fun_upd_twist)
    next
      case (snoc ws u)
      with c d show ?thesis
        by (cases vs; cases ws)
          (auto simp: list_remove_def heap_defs link_eqs dseg_append fun_upd_twist)
    qed
    have "dseg ?D None (us @ vs) None"
      using V d(1) by (simp add: dseg_append)
    then show "dlist (lh_cells (h\<lparr>lh_cells := ?D, lh_errno := 0\<rparr>)) (us @ vs)"
      using d(1) assms(2) by (auto simp: dlist_def)
    show "dlist (lh_cells (h\<lparr>lh_cells := ?D, lh_errno := 0\<rparr>)) [x]"
      by (simp add: dlist_def)
    show "links_only (addrs (us @ x # vs)) h (h\<lparr>lh_cells := ?D, lh_errno := 0\<rparr>)"
      by (auto simp: links_only_def)
  qed
qed

text \<open>\<open>list_free_all\<close> releases every cell of the list once and hands every datum to the callback.\<close>

definition some_data :: "'d alist \<Rightarrow> 'd list" where
  "some_data xs = concat (map (\<lambda>x. case snd x of None \<Rightarrow> [] | Some d \<Rightarrow> [d]) xs)"

lemma free_all_loop_dseg:
  assumes "dseg (lh_cells h) None (x # xs) None" "distinct (map fst (x # xs))"
  shows "\<exists>h'. free_all_loop (fst x) df h = Some (0, h') \<and>
     lh_cells h' = (\<lambda>a. if a \<in> addrs (x # xs) then None else lh_cells h a) \<and>
     lh_freed h' = lh_freed h @ (if df then some_data (x # xs) else []) \<and> lh_nxt h' = lh_nxt h"
  using assms
proof (induction xs arbitrary: x h)
  case Nil
  then show ?case
    by (subst free_all_loop.simps)
      (auto simp: list_free_item_def heap_defs link_eqs free_cell_def some_data_def split: option.splits)
next
  case (Cons y xs)
  let ?h = "h\<lparr>lh_cells := (lh_cells h)(fst y \<mapsto> \<lparr>lc_prev = None, lc_next = hdo None xs, lc_data = snd y\<rparr>,
      fst x := None), lh_errno := 0,
      lh_freed := lh_freed h @ (if df then some_data [x] else [])\<rparr>"
  have item: "list_free_item (Some (fst x)) df h = Some (0, ?h)"
    using Cons.prems
    by (auto simp: list_free_item_def heap_defs link_eqs free_cell_def some_data_def fun_eq_iff
        split: option.splits)
  have "dseg (lh_cells ?h) None (y # xs) None"
    using Cons.prems by auto
  from Cons.IH [OF this] Cons.prems obtain h' where h':
    "free_all_loop (fst y) df ?h = Some (0, h')"
    "lh_cells h' = (\<lambda>a. if a \<in> addrs (y # xs) then None else lh_cells ?h a)"
    "lh_freed h' = lh_freed ?h @ (if df then some_data (y # xs) else [])" "lh_nxt h' = lh_nxt h" by auto
  have "free_all_loop (fst x) df h = Some (0, h')"
    using Cons.prems item h'(1) by (subst free_all_loop.simps) (simp add: cell_at_def)
  moreover have "lh_cells h' = (\<lambda>a. if a \<in> addrs (x # y # xs) then None else lh_cells h a)"
    using h'(2) by (auto simp: fun_eq_iff)
  moreover have "lh_freed h' = lh_freed h @ (if df then some_data (x # y # xs) else [])"
    using h'(3) by (simp add: some_data_def)
  ultimately show ?case using h'(4) by blast
qed

lemma list_free_all_dlist:
  assumes "dlist (lh_cells h) xs" "a \<in> addrs xs"
  shows "\<exists>h'. list_free_all (Some a) df h = Some (0, h') \<and>
     lh_cells h' = (\<lambda>a. if a \<in> addrs xs then None else lh_cells h a) \<and>
     lh_freed h' = lh_freed h @ (if df then some_data xs else []) \<and> lh_nxt h' = lh_nxt h"
proof -
  obtain x vs where xs: "xs = x # vs" using dlist_ne [OF assms(1)] by (cases xs) auto
  with assms(1) have "dseg (lh_cells (set_errno 0 h)) None (x # vs) None" "distinct (map fst (x # vs))"
    by (auto simp: dlist_def set_errno_def)
  from free_all_loop_dseg [OF this, of df, unfolded set_errno_simps] show ?thesis
    using list_first_dlist [OF assms] xs by (auto simp: list_free_all_def)
qed

section \<open>Reading a list\<close>

lemma count_loop_dlist:
  assumes "dlist (lh_cells h) (us @ x # vs)" "t + int (length vs) < INT_MAX"
  shows "count_loop (fst x) t h = Some (t + int (length (x # vs)), h)"
  using assms
proof (induction vs arbitrary: us x t)
  case Nil
  with dlist_cell [OF Nil(1)] show ?case by (subst count_loop.simps) simp
next
  case (Cons y vs)
  from Cons.IH [of "us @ [x]" y "t + 1"] Cons.prems
  have "count_loop (fst y) (t + 1) h = Some (t + 1 + int (length (y # vs)), h)" by simp
  with dlist_cell [OF Cons.prems(1)] Cons.prems(2) show ?case by (subst count_loop.simps) simp
qed

lemma list_count_dlist:
  assumes "dlist (lh_cells h) xs" "a \<in> addrs xs" "int (length xs) \<le> INT_MAX"
  shows "list_count (Some a) h = Some (int (length xs), set_errno 0 h)"
proof -
  obtain x vs where xs: "xs = x # vs" using dlist_ne [OF assms(1)] by (cases xs) auto
  have "dlist (lh_cells (set_errno 0 h)) ([] @ x # vs)" using assms(1) xs by (simp add: set_errno_def)
  from count_loop_dlist [OF this, of 0] assms(3) xs list_first_dlist [OF assms(1,2)] show ?thesis
    by (simp add: list_count_def set_errno_def)
qed

lemma search_loop_dlist:
  assumes "dlist (lh_cells h) (us @ x # vs)"
  shows "search_loop p (fst x) h = Some (map_option fst (find (\<lambda>y. p (snd y)) (x # vs)))"
  using assms
proof (induction vs arbitrary: us x)
  case Nil
  with dlist_cell [OF Nil] show ?case by (subst search_loop.simps) simp
next
  case (Cons y vs)
  from Cons.IH [of "us @ [x]" y] Cons.prems
  have "search_loop p (fst y) h = Some (map_option fst (find (\<lambda>y. p (snd y)) (y # vs)))" by simp
  with dlist_cell [OF Cons.prems] show ?case by (subst search_loop.simps) simp
qed

lemma list_search_one_dlist:
  assumes "dlist (lh_cells h) xs" "a \<in> addrs xs"
  shows "list_search_one (Some a) p h =
     Some (map_option fst (find (\<lambda>y. p (snd y)) xs), set_errno 0 h)"
proof -
  obtain x vs where xs: "xs = x # vs" using dlist_ne [OF assms(1)] by (cases xs) auto
  have "dlist (lh_cells (set_errno 0 h)) ([] @ x # vs)" using assms(1) xs by (simp add: set_errno_def)
  from search_loop_dlist [OF this] xs list_first_dlist [OF assms] show ?thesis
    by (simp add: list_search_one_def set_errno_def)
qed

section \<open>Reversing\<close>

lemma reverse_loop_dseg:
  assumes "dseg (lh_cells h) p (x # xs) None" "distinct (map fst (x # xs))"
  shows "\<exists>h'. reverse_loop (fst x) h = Some (0, h') \<and>
     dseg (lh_cells h') None (rev (x # xs)) p \<and> links_only (addrs (x # xs)) h h'"
  using assms
proof (induction xs arbitrary: x p h)
  case Nil
  then show ?case
    by (subst reverse_loop.simps) (auto simp: cell_at_def link_eqs links_only_def Let_def)
next
  case (Cons y xs)
  let ?h = "h\<lparr>lh_cells := (lh_cells h)
      (fst x \<mapsto> \<lparr>lc_prev = Some (fst y), lc_next = p, lc_data = snd x\<rparr>)\<rparr>"
  have "dseg (lh_cells ?h) (Some (fst x)) (y # xs) None"
    using Cons.prems by auto
  from Cons.IH [OF this] Cons.prems obtain h' where h': "reverse_loop (fst y) ?h = Some (0, h')"
    "dseg (lh_cells h') None (rev (y # xs)) (Some (fst x))" "links_only (addrs (y # xs)) ?h h'"
    by auto
  have "reverse_loop (fst x) h = Some (0, h')"
    using Cons.prems h'(1) by (subst reverse_loop.simps) (simp add: cell_at_def link_eqs Let_def)
  moreover have "lh_cells h' (fst x) = Some \<lparr>lc_prev = Some (fst y), lc_next = p, lc_data = snd x\<rparr>"
    using h'(3) Cons.prems(2) by (auto simp: links_only_def)
  then have "dseg (lh_cells h') None (rev (x # y # xs)) p"
    using h'(2) by (simp add: dseg_append)
  moreover have "links_only (addrs (x # y # xs)) h h'"
    using h'(3) by (auto simp: links_only_def)
  ultimately show ?case by blast
qed

lemma list_reverse_dlist:
  assumes "dlist (lh_cells h) xs" "a \<in> addrs xs"
  shows "\<exists>h'. list_reverse (Some a) h = Some (0, h') \<and> dlist (lh_cells h') (rev xs) \<and>
     links_only (addrs xs) h h'"
proof -
  obtain x vs where xs: "xs = x # vs" using dlist_ne [OF assms(1)] by (cases xs) auto
  with assms(1) have "dseg (lh_cells (set_errno 0 h)) None (x # vs) None" "distinct (map fst (x # vs))"
    by (auto simp: dlist_def set_errno_def)
  from reverse_loop_dseg [OF this] obtain h' where h': "reverse_loop (fst x) (set_errno 0 h) = Some (0, h')"
    "dseg (lh_cells h') None (rev (x # vs)) None" "links_only (addrs (x # vs)) (set_errno 0 h) h'"
    by blast
  then show ?thesis
    using list_first_dlist [OF assms] xs assms(1)
    by (auto simp: list_reverse_def dlist_def links_only_def simp flip: rev_map)
qed

end
