(* ===== verification/ListObj.thy ===== *)
theory ListObj
  imports ListFacts
begin

text \<open>
  The list variable as the other components use it. \<open>obj_list\<close> is the contract a client of
  \<open>list_obj_add_new\<close> and \<open>list_free_all\<close> relies on: adding either appends the datum or fails
  and keeps the list; freeing succeeds. The shell-like splitter of \<open>str-utils.c\<close> is verified
  against that contract, and the contract is then discharged by the heap model.
\<close>

section \<open>Representation\<close>

definition wf_heap :: "'d lheap \<Rightarrow> bool" where
  "wf_heap h \<longleftrightarrow> (\<forall>a \<ge> lh_nxt h. lh_cells h a = None)"

definition list_rep :: "'d lheap \<Rightarrow> ptr \<Rightarrow> 'd option list \<Rightarrow> bool" where
  "list_rep h lst ds \<longleftrightarrow> wf_heap h \<and>
     (case lst of
        None \<Rightarrow> ds = []
      | Some a \<Rightarrow> \<exists>xs. dlist (lh_cells h) xs \<and> a \<in> addrs xs \<and> map snd xs = ds)"

lemma dlist_below: "dlist (lh_cells h) xs \<Longrightarrow> wf_heap h \<Longrightarrow> a \<in> addrs xs \<Longrightarrow> a < lh_nxt h"
  using dseg_cell [of "lh_cells h" None xs None a]
  by (force simp: dlist_def wf_heap_def not_le [symmetric])

lemma dlist_frame:
  "(\<And>a. a \<in> addrs xs \<Longrightarrow> lh_cells h' a = lh_cells h a) \<Longrightarrow> dlist (lh_cells h) xs \<Longrightarrow>
   dlist (lh_cells h') xs"
  using dseg_cong [of xs "lh_cells h'" "lh_cells h"] by (auto simp: dlist_def)

lemma wf_heap_links:
  "wf_heap h \<Longrightarrow> links_only A h h' \<Longrightarrow> (\<And>a. a \<in> A \<Longrightarrow> a < lh_nxt h) \<Longrightarrow> wf_heap h'"
  by (metis leD links_only_def wf_heap_def)

lemma list_new_cases:
  fixes h :: "'d lheap"
  obtains (oom) "lh_oom h (lh_tick h)"
    "list_new d h = Some (None, h\<lparr>lh_errno := ENOMEM, lh_tick := Suc (lh_tick h)\<rparr>)"
  | (ok) "\<not> lh_oom h (lh_tick h)"
    "list_new d h = Some (Some (lh_nxt h), h\<lparr>lh_errno := 0, lh_tick := Suc (lh_tick h),
       lh_nxt := Suc (lh_nxt h),
       lh_cells := (lh_cells h)(lh_nxt h \<mapsto> \<lparr>lc_prev = None, lc_next = None, lc_data = d\<rparr>)\<rparr>)"
  by (cases "lh_oom h (lh_tick h)") (simp_all add: list_new_def set_errno_def Let_def)

section \<open>Adding to a list variable\<close>

lemma list_obj_add_new_rep:
  assumes "list_rep h lst ds"
  shows "\<exists>r lst' h'. list_obj_add_new lst d h = Some (r, lst', h') \<and>
     (r = 0 \<and> list_rep h' lst' (ds @ [d]) \<or> r < 0 \<and> lst' = lst \<and> list_rep h' lst ds)"
proof (cases rule: list_new_cases [where h = h and d = d])
  case oom
  with assms show ?thesis
    by (auto simp: list_obj_add_new_def list_rep_def wf_heap_def ENOMEM_def split: option.splits)
next
  case ok
  let ?n = "lh_nxt h"
  let ?h = "h\<lparr>lh_errno := 0, lh_tick := Suc (lh_tick h), lh_nxt := Suc ?n,
       lh_cells := (lh_cells h)(?n \<mapsto> \<lparr>lc_prev = None, lc_next = None, lc_data = d\<rparr>)\<rparr>"
  have wf: "wf_heap h" "wf_heap ?h" using assms by (auto simp: list_rep_def wf_heap_def)
  have new: "dlist (lh_cells ?h) [(?n, d)]" by (simp add: dlist_def)
  show ?thesis
  proof (cases lst)
    case None
    have "list_rep ?h (Some ?n) (ds @ [d])"
      using wf new assms None by (auto simp: list_rep_def intro!: exI [of _ "[(?n, d)]"])
    with ok None show ?thesis
      by (auto simp: list_obj_add_new_def list_obj_add_def)
  next
    case (Some a)
    with assms obtain xs where xs: "dlist (lh_cells h) xs" "a \<in> addrs xs" "map snd xs = ds"
      by (auto simp: list_rep_def)
    have below: "b \<in> addrs xs \<Longrightarrow> b < ?n" for b by (rule dlist_below [OF xs(1) wf(1)])
    have x1: "dlist (lh_cells ?h) xs"
    proof (rule dlist_frame [OF _ xs(1)])
      fix b assume "b \<in> addrs xs"
      then show "lh_cells ?h b = lh_cells h b" using below [of b] by simp
    qed
    obtain us x where us: "xs = us @ [x]"
      using dlist_ne [OF xs(1)] by (cases xs rule: rev_cases) auto
    have l: "list_last (Some a) ?h = Some (Some (fst x), set_errno 0 ?h)"
      using list_last_dlist [OF x1 xs(2)] us by simp
    have "addrs (us @ [x]) \<inter> addrs [(?n, d)] = {}" using below us by auto
    then obtain h' where h': "list_add (Some (fst x)) (Some ?n) (set_errno 0 ?h) = Some (0, h')"
      "dlist (lh_cells h') (us @ x # [(?n, d)])" "links_only {fst x, ?n} (set_errno 0 ?h) h'"
      using list_add_at_end [of "set_errno 0 ?h" us x "(?n, d)" "[]"] x1 us new by auto
    have "fst x < ?n" using below us by auto
    then have "wf_heap h'"
      by (intro wf_heap_links [OF _ h'(3)]) (use wf in \<open>auto simp: wf_heap_def\<close>)
    then have "list_rep h' (Some a) (ds @ [d])"
      using h'(2) xs us by (auto simp: list_rep_def intro!: exI [of _ "us @ [x, (?n, d)]"])
    with ok Some l h'(1) show ?thesis
      by (auto simp: list_obj_add_new_def list_obj_add_def list_push_def)
  qed
qed

lemma list_free_all_rep:
  assumes "list_rep h (Some a) ds"
  shows "\<exists>h'. list_free_all (Some a) df h = Some (0, h') \<and> list_rep h' None []"
proof -
  obtain xs where xs: "dlist (lh_cells h) xs" "a \<in> addrs xs" "wf_heap h"
    using assms by (auto simp: list_rep_def)
  from list_free_all_dlist [OF xs(1,2), of df] xs(3) show ?thesis
    by (auto simp: list_rep_def wf_heap_def)
qed

section \<open>The contract and the splitter\<close>

locale obj_list =
  fixes rep :: "'h \<Rightarrow> ptr \<Rightarrow> cstring option list \<Rightarrow> bool"
    and add_new :: "ptr \<Rightarrow> cstring option \<Rightarrow> 'h \<Rightarrow> (int \<times> ptr \<times> 'h) option"
    and free_all :: "ptr \<Rightarrow> 'h \<Rightarrow> (int \<times> 'h) option"
  assumes add_new_law: "rep h lst ds \<Longrightarrow> \<exists>r lst' h'. add_new lst d h = Some (r, lst', h') \<and>
      (r = 0 \<and> rep h' lst' (ds @ [d]) \<or> r < 0 \<and> lst' = lst \<and> rep h' lst ds)"
    and null_law: "rep h None ds \<Longrightarrow> ds = []"
    and free_all_law: "rep h (Some a) ds \<Longrightarrow> \<exists>h'. free_all (Some a) h = Some (0, h') \<and> rep h' None []"

text \<open>
  \<open>string_to_list_by_space\<close> on the heap, as in the source: an item is duplicated and added when
  it has at least one character, and a failure frees the list built so far. The duplicate of the
  item and the list cell are one allocation step of \<open>add_new\<close> here.
\<close>

definition split_fail :: "(ptr \<Rightarrow> 'h \<Rightarrow> (int \<times> 'h) option) \<Rightarrow> ptr \<Rightarrow> 'h \<Rightarrow> (ptr \<times> 'h) option" where
  "split_fail free_all lst h =
     (if lst = None then Some (None, h) else do { (_, h) \<leftarrow> free_all lst h; Some (None, h) })"

fun split_loop_h ::
  "(ptr \<Rightarrow> cstring option \<Rightarrow> 'h \<Rightarrow> (int \<times> ptr \<times> 'h) option) \<Rightarrow>
   (ptr \<Rightarrow> 'h \<Rightarrow> (int \<times> 'h) option) \<Rightarrow>
   cstring \<Rightarrow> cstring \<Rightarrow> bool \<Rightarrow> bool \<Rightarrow> bool \<Rightarrow> ptr \<Rightarrow> 'h \<Rightarrow> (ptr \<times> 'h) option" where
  "split_loop_h add_new free_all [] cur sq dq esc lst h =
     (if cur \<noteq> [] then do {
        (r, lst, h) \<leftarrow> add_new lst (Some cur) h;
        (if r < 0 then split_fail free_all lst h else Some (lst, h))
      }
      else Some (lst, h))"
| "split_loop_h add_new free_all (c # p) cur sq dq esc lst h =
     (if esc then split_loop_h add_new free_all p (cur @ [c]) sq dq False lst h
      else if c = CHR 0x5C \<and> \<not> sq then split_loop_h add_new free_all p cur sq dq True lst h
      else if c = CHR 0x27 \<and> \<not> dq then split_loop_h add_new free_all p cur (\<not> sq) dq esc lst h
      else if c = CHR 0x22 \<and> \<not> sq then split_loop_h add_new free_all p cur sq (\<not> dq) esc lst h
      else if isspace c \<and> \<not> sq \<and> \<not> dq then
        (if cur \<noteq> [] then do {
           (r, lst, h) \<leftarrow> add_new lst (Some cur) h;
           (if r < 0 then split_fail free_all lst h
            else split_loop_h add_new free_all (dropWhile isspace p) [] sq dq esc lst h)
         }
         else split_loop_h add_new free_all (dropWhile isspace p) cur sq dq esc lst h)
      else split_loop_h add_new free_all p (cur @ [c]) sq dq esc lst h)"

context obj_list
begin

lemma split_fail_rep:
  assumes "rep h lst ds"
  shows "\<exists>h'. split_fail free_all lst h = Some (None, h') \<and> rep h' None []"
proof (cases lst)
  case None
  with assms null_law [of h ds] show ?thesis by (simp add: split_fail_def)
next
  case (Some a)
  with free_all_law [of h a ds] assms show ?thesis by (auto simp: split_fail_def)
qed

lemma add_item [consumes 1]:
  assumes "rep h lst ds"
  obtains (ok) lst' h' where "add_new lst d h = Some (0, lst', h')" "rep h' lst' (ds @ [d])"
  | (fail) r h' h'' where "add_new lst d h = Some (r, lst, h')" "r < 0"
      "split_fail free_all lst h' = Some (None, h'')" "rep h'' None []"
  using add_new_law [OF assms, of d] split_fail_rep by blast

text \<open>The splitter returns, with the list of the items or with \<open>NULL\<close> and nothing leaked.\<close>

lemma split_loop_rep:
  assumes "rep h lst (map Some acc)"
  shows "\<exists>lst' h'. split_loop_h add_new free_all p cur sq dq esc lst h = Some (lst', h') \<and>
     (rep h' lst' (map Some (split_loop p cur sq dq esc acc)) \<or> lst' = None \<and> rep h' None [])"
  using assms
proof (induction p cur sq dq esc acc arbitrary: lst h rule: split_loop.induct)
  case (1 cur sq dq esc acc)
  show ?case
  proof (cases "cur = []")
    case True
    with 1 show ?thesis by auto
  next
    case False
    with 1 show ?thesis
      by (cases rule: add_item [OF 1, of "Some cur"]) auto
  qed
next
  case (2 c p cur sq dq esc acc)
  show ?case
  proof (cases "\<not> esc \<and> \<not> (c = CHR 0x5C \<and> \<not> sq) \<and> \<not> (c = CHR 0x27 \<and> \<not> dq) \<and>
      \<not> (c = CHR 0x22 \<and> \<not> sq) \<and> isspace c \<and> \<not> sq \<and> \<not> dq \<and> cur \<noteq> []")
    case True
    from "2.prems" show ?thesis
    proof (cases rule: add_item [where d = "Some cur"])
      case (ok lst' h')
      have "rep h' lst' (map Some (if cur \<noteq> [] then acc @ [cur] else acc))"
        using ok True by simp
      from "2.IH"(5) [OF _ _ _ _ _ this] True ok show ?thesis by auto
    next
      case (fail r h' h'')
      with True show ?thesis by auto
    qed
  next
    case False
    with 2 show ?thesis by (cases "cur = []") auto
  qed
qed

end

definition free_all_def_data :: "ptr \<Rightarrow> 'd lheap \<Rightarrow> (int \<times> 'd lheap) option" where
  "free_all_def_data lst h = list_free_all lst True h"

interpretation heap_list: obj_list list_rep list_obj_add_new free_all_def_data
proof
  show "\<exists>r lst' h'. list_obj_add_new lst d h = Some (r, lst', h') \<and>
      (r = 0 \<and> list_rep h' lst' (ds @ [d]) \<or> r < 0 \<and> lst' = lst \<and> list_rep h' lst ds)"
    if "list_rep h lst ds" for h :: "cstring lheap" and lst ds d
    by (rule list_obj_add_new_rep [OF that])
  show "ds = []" if "list_rep h None ds" for h :: "cstring lheap" and ds
    using that by (simp add: list_rep_def)
  show "\<exists>h'. free_all_def_data (Some a) h = Some (0, h') \<and> list_rep h' None []"
    if "list_rep h (Some a) ds" for h :: "cstring lheap" and a ds
    using list_free_all_rep [OF that, of True] by (simp add: free_all_def_data_def)
qed

definition string_to_list_heap ::
  "cstring option \<Rightarrow> cstring lheap \<Rightarrow> (ptr \<times> cstring lheap) option" where
  "string_to_list_heap str h =
     (case str of
        None \<Rightarrow> Some (None, h)
      | Some s \<Rightarrow>
          let t = lh_tick h; h = h\<lparr>lh_tick := Suc t\<rparr>
          in if lh_oom h t then Some (None, h)
             else split_loop_h list_obj_add_new free_all_def_data s [] False False False None h)"

end
