(* ===== verification/SdbootMenu.thy ===== *)
theory SdbootMenu
  imports Menu ListObj
begin

text \<open>
  \<open>src/sdboot/menu.c\<close>: the entries read from the disk become menu entries, ordered behind a priority
  offset, with the automatic entries after them. Everything is built aside and published only when
  no allocation failed. The devices and their file systems are parameters.
\<close>

section \<open>Automatic entries\<close>

definition sdboot_boot_add_auto_item ::
  "entry list \<Rightarrow> cstring \<Rightarrow> cstring \<Rightarrow> embloader_loader_type \<Rightarrow> cstring option \<Rightarrow> int \<Rightarrow> embloader \<Rightarrow>
   ((efi_status \<times> entry list) \<times> embloader) option" where
  "sdboot_boot_add_auto_item loaders name title ty mode priority g =
     (let (ok, g) = galloc g in
      if \<not> ok then Some ((EFI_OUT_OF_RESOURCES, loaders), g)
      else let (nm, g) = gstrdup (Some name) g; (tt, g) = gstrdup (Some title) g;
               l = zero_loader\<lparr>ll_name := nm, ll_title := tt, ll_type := ty, ll_priority := priority\<rparr>
      in if nm = None \<or> tt = None then Some ((EFI_OUT_OF_RESOURCES, loaders), g)
      else do {
        (node, ok, g) \<leftarrow> (case mode of
            None \<Rightarrow> Some (None, True, g)
          | Some m \<Rightarrow> do {
              (n, g) \<leftarrow> on_cs confignode_new_map g;
              (if n = None then Some (None, False, g)
               else do {
                 (ok, g) \<leftarrow> on_cs (confignode_path_set_string n (Some ''mode'') (Some m)) g;
                 Some (n, ok, g)
               })
            });
        (let (cell, g) = (if ok then galloc g else (False, g))
         in if cell then Some ((EFI_SUCCESS, loaders @ [(g_next g, l\<lparr>ll_node := node\<rparr>)]), g\<lparr>g_next := Suc (g_next g)\<rparr>)
            else do {
              g \<leftarrow> (case node of
                      None \<Rightarrow> Some g
                    | Some n \<Rightarrow> do { s \<leftarrow> confignode_clean n (g_cs g); Some (g\<lparr>g_cs := s\<rparr>) });
              Some ((EFI_OUT_OF_RESOURCES, loaders), g)
            })
      })"

text \<open>Which automatic entries are still wanted after a list of entries.\<close>

type_synonym auto_flags = "bool \<times> bool \<times> bool"

fun sdboot_boot_find_auto_items :: "entry list \<Rightarrow> auto_flags \<Rightarrow> embloader \<Rightarrow> (auto_flags \<times> embloader) option" where
  "sdboot_boot_find_auto_items [] flags g = Some (flags, g)"
| "sdboot_boot_find_auto_items (e # es) (firmware, reboot, poweroff) g =
     (let firmware = (firmware \<and> ll_type (snd e) \<noteq> LOADER_EFISETUP) in do {
        (isr, g) \<leftarrow> (if reboot then embloader_loader_is_reboot (snd e) g else Some (False, g));
        (isp, g) \<leftarrow> (if poweroff then embloader_loader_is_shutdown (snd e) g else Some (False, g));
        sdboot_boot_find_auto_items es (firmware, reboot \<and> \<not> isr, poweroff \<and> \<not> isp) g
      })"

definition next_offset :: "int \<Rightarrow> int" where
  "next_offset offset = (if offset < INT64_MAX then offset + 1 else offset)"

text \<open>One automatic entry, if wanted; an error ends the sequence.\<close>

definition auto_step ::
  "bool \<Rightarrow> cstring \<Rightarrow> cstring \<Rightarrow> embloader_loader_type \<Rightarrow> cstring option \<Rightarrow>
   (efi_status \<times> entry list \<times> int) \<times> embloader \<Rightarrow> ((efi_status \<times> entry list \<times> int) \<times> embloader) option" where
  "auto_step wanted name title ty mode x =
     (let ((status, loaders, offset), g) = x in
      if EFI_ERROR status \<or> \<not> wanted then Some x
      else do {
        ((status, loaders), g) \<leftarrow> sdboot_boot_add_auto_item loaders name title ty mode offset g;
        Some ((status, loaders, if EFI_ERROR status then offset else next_offset offset), g)
      })"

definition sdboot_boot_add_auto_items ::
  "bool \<Rightarrow> entry list \<Rightarrow> int \<Rightarrow> embloader \<Rightarrow> ((efi_status \<times> entry list) \<times> embloader) option" where
  "sdboot_boot_add_auto_items setup loaders offset g =
     (case (g_menu g, g_sdboot g) of
        (Some m, Some sd) \<Rightarrow> do {
          (flags, g) \<leftarrow> sdboot_boot_find_auto_items (mn_loaders m)
             (sm_auto_firmware (sd_menu sd) \<and> setup, sm_auto_reboot (sd_menu sd), sm_auto_poweroff (sd_menu sd)) g;
          ((firmware, reboot, poweroff), g) \<leftarrow> sdboot_boot_find_auto_items loaders flags g;
          x \<leftarrow> auto_step firmware ''sdboot-auto-firmware'' ''Reboot Into Firmware Interface''
                 LOADER_EFISETUP None ((EFI_SUCCESS, loaders, offset), g);
          x \<leftarrow> auto_step poweroff ''sdboot-auto-shutdown'' ''Shut Down The System''
                 LOADER_REBOOT (Some ''shutdown'') x;
          ((status, loaders, _), g) \<leftarrow> auto_step reboot ''sdboot-auto-reboot'' ''Reboot The System''
                 LOADER_REBOOT (Some ''reboot'') x;
          Some ((status, loaders), g)
        }
      | _ \<Rightarrow> Some ((EFI_NOT_READY, loaders), g))"

section \<open>Order\<close>

text \<open>A sort key that is set and not empty.\<close>

definition has_sort_key :: "sdboot_boot_loader \<Rightarrow> bool" where
  "has_sort_key l \<longleftrightarrow> (case sl_sort_key l of None \<Rightarrow> False | Some k \<Rightarrow> k \<noteq> [])"

definition opt_compare :: "(cstring \<Rightarrow> cstring \<Rightarrow> int) \<Rightarrow> cstring option \<Rightarrow> cstring option \<Rightarrow> int" where
  "opt_compare f a b = (case (a, b) of (Some x, Some y) \<Rightarrow> f x y | _ \<Rightarrow> 0)"

definition vercmp_back :: "cstring \<Rightarrow> cstring \<Rightarrow> int" where
  "vercmp_back a b = vercmp (Some b) (Some a)"

definition compare_boot_loaders :: "sdboot_boot_loader \<Rightarrow> sdboot_boot_loader \<Rightarrow> int" where
  "compare_boot_loaders a b =
     (if has_sort_key a \<and> \<not> has_sort_key b then -1
      else if \<not> has_sort_key a \<and> has_sort_key b then 1
      else let keys = (if has_sort_key a then opt_compare strcmp (sl_sort_key a) (sl_sort_key b) else 0);
               ids = (if has_sort_key a then opt_compare strcmp (sl_machine_id a) (sl_machine_id b) else 0);
               vers = (if has_sort_key a then opt_compare vercmp_back (sl_version a) (sl_version b) else 0)
           in if keys \<noteq> 0 then keys
              else if ids \<noteq> 0 then ids
              else if vers \<noteq> 0 then vers
              else opt_compare vercmp_back (sl_name a) (sl_name b))"

text \<open>The systemd-boot entry behind a menu entry.\<close>

definition boot_of :: "sdboot_menu \<Rightarrow> embloader_loader \<Rightarrow> sdboot_boot_loader option" where
  "boot_of sd l = Option.bind (ll_extra l) (map_of (sd_loaders sd))"

definition sdboot_compare_entries :: "sdboot_menu \<Rightarrow> embloader_loader \<Rightarrow> embloader_loader \<Rightarrow> int" where
  "sdboot_compare_entries sd a b =
     (if ll_type a \<noteq> LOADER_SDBOOT \<or> ll_type b \<noteq> LOADER_SDBOOT then 0
      else case (boot_of sd a, boot_of sd b) of
        (Some x, Some y) \<Rightarrow> compare_boot_loaders x y
      | _ \<Rightarrow> 0)"

text \<open>A priority record: the entry and its priority. Each is a copy and a list cell.\<close>

fun sdboot_items_collect ::
  "entry list \<Rightarrow> (entry \<times> int) list \<Rightarrow> embloader \<Rightarrow> (efi_status \<times> (entry \<times> int) list) \<times> embloader" where
  "sdboot_items_collect [] items g = ((EFI_SUCCESS, items), g)"
| "sdboot_items_collect (e # es) items g =
     (if ll_type (snd e) \<noteq> LOADER_SDBOOT then sdboot_items_collect es items g
      else let (dup, g) = galloc g in
      if \<not> dup then ((EFI_OUT_OF_RESOURCES, items), g)
      else let (cell, g) = galloc g in
      if \<not> cell then ((EFI_OUT_OF_RESOURCES, items), g)
      else sdboot_items_collect es (items @ [(e, 0)]) g)"

text \<open>
  The priority of the record at a position: the offset plus the number of other records the entry
  sorts behind, saturated.
\<close>

definition bump :: "int \<Rightarrow> int" where
  "bump p = (if p < INT64_MAX then p + 1 else p)"

definition item_priority :: "sdboot_menu \<Rightarrow> int \<Rightarrow> entry list \<Rightarrow> nat \<Rightarrow> int" where
  "item_priority sd offset items i =
     fold (\<lambda>j p. if j \<noteq> i \<and> sdboot_compare_entries sd (snd (items ! i)) (snd (items ! j)) > 0 then bump p else p)
       [0..<length items] offset"

definition auto_offset :: "int list \<Rightarrow> int" where
  "auto_offset ps = fold (\<lambda>p off. if p \<ge> off then bump p else off) ps 0"

definition sdboot_items_prepare ::
  "entry list \<Rightarrow> embloader \<Rightarrow> ((efi_status \<times> (entry \<times> int) list \<times> int) \<times> embloader) option" where
  "sdboot_items_prepare pending g = do {
     m \<leftarrow> g_menu g;
     sd \<leftarrow> g_sdboot g;
     (let ((status, items), g) = sdboot_items_collect (mn_loaders m) [] g in
      if EFI_ERROR status then Some ((status, [], 0), g)
      else let ((status, items), g) = sdboot_items_collect pending items g in
      if EFI_ERROR status then Some ((status, [], 0), g)
      else do {
        (offset, g) \<leftarrow> gget_int (g_config g) ''menu.sdboot.priority-offset'' 100 g;
        (let es = map fst items; ps = map (item_priority sd offset es) [0..<length es]
         in Some ((EFI_SUCCESS, zip es ps, auto_offset ps), g))
      })
   }"

section \<open>Publishing\<close>

definition set_priority :: "(entry \<times> int) list \<Rightarrow> entry \<Rightarrow> entry" where
  "set_priority ps e =
     (case map_of (map (\<lambda>(x, p). (fst x, p)) ps) (fst e) of
        None \<Rightarrow> e
      | Some p \<Rightarrow> (fst e, (snd e)\<lparr>ll_priority := p\<rparr>))"

text \<open>The back pointer of the systemd-boot entries to the menu entries made of them.\<close>

definition link_item :: "entry \<Rightarrow> (addr \<times> sdboot_boot_loader) list \<Rightarrow> (addr \<times> sdboot_boot_loader) list" where
  "link_item e bs =
     (if ll_type (snd e) = LOADER_SDBOOT
      then map (\<lambda>(a, b). (a, if ll_extra (snd e) = Some a then b\<lparr>sl_item := Some (fst e)\<rparr> else b)) bs else bs)"

definition sdboot_items_publish :: "entry list \<Rightarrow> (entry \<times> int) list \<Rightarrow> embloader \<Rightarrow> embloader" where
  "sdboot_items_publish pending ps g =
     (case (g_menu g, g_sdboot g) of
        (Some m, Some sd) \<Rightarrow>
          g\<lparr>g_menu := Some (m\<lparr>mn_loaders := map (set_priority ps) (mn_loaders m @ pending)\<rparr>),
            g_sdboot := Some (sd\<lparr>sd_loaders := fold link_item pending (sd_loaders sd)\<rparr>)\<rparr>
      | _ \<Rightarrow> g)"

text \<open>The menu entry of one systemd-boot entry; the result says whether to go on.\<close>

definition menu_loader_compare :: "addr \<Rightarrow> entry \<Rightarrow> bool" where
  "menu_loader_compare m el \<longleftrightarrow> ll_type (snd el) = LOADER_SDBOOT \<and> ll_extra (snd el) = Some m"

definition sdboot_new_item ::
  "bool \<Rightarrow> addr \<times> sdboot_boot_loader \<Rightarrow> entry list \<Rightarrow> embloader \<Rightarrow> (bool \<times> entry list) \<times> embloader" where
  "sdboot_new_item editor item pending g =
     (let (ok, g) = galloc g in
      if \<not> ok then ((False, pending), g)
      else let (name, g) = gstrdup (sl_name (snd item)) g;
               (title, g) = gstrdup (sl_title (snd item)) g;
               (version, g) = gstrdup (sl_version (snd item)) g
      in if sl_name (snd item) \<noteq> None \<and> name = None \<or> sl_title (snd item) \<noteq> None \<and> title = None \<or>
            sl_version (snd item) \<noteq> None \<and> version = None
         then ((False, pending), g)
         else let (args, ok, g) =
                (if sl_options (snd item) = [] then (None, True, g)
                 else let joined = strings_to_string '' '' (sl_options (snd item));
                          (args, g) = gstrdup joined g
                      in (args, args \<noteq> None, g))
              in if \<not> ok then ((False, pending), g)
                 else let (cell, g) = galloc g
                      in if \<not> cell then ((False, pending), g)
                         else ((True, pending @ [(g_next g, zero_loader\<lparr>ll_name := name, ll_title := title,
                                 ll_version := version, ll_type := LOADER_SDBOOT, ll_complete := True,
                                 ll_editor := editor, ll_extra := Some (fst item), ll_bootargs := args\<rparr>)]),
                               g\<lparr>g_next := Suc (g_next g)\<rparr>))"

fun sdboot_new_items ::
  "bool \<Rightarrow> entry list \<Rightarrow> (addr \<times> sdboot_boot_loader) list \<Rightarrow> entry list \<Rightarrow> embloader \<Rightarrow>
   (bool \<times> entry list) \<times> embloader" where
  "sdboot_new_items editor present [] pending g = ((True, pending), g)"
| "sdboot_new_items editor present (item # items) pending g =
     (if list_ex (menu_loader_compare (fst item)) present \<or> list_ex (menu_loader_compare (fst item)) pending
      then sdboot_new_items editor present items pending g
      else let ((ok, pending), g) = sdboot_new_item editor item pending g
           in if ok then sdboot_new_items editor present items pending g else ((False, pending), g))"

text \<open>The error exit frees the pending entries with their nodes.\<close>

fun sdboot_drop_pending :: "entry list \<Rightarrow> embloader \<Rightarrow> embloader option" where
  "sdboot_drop_pending [] g = Some g"
| "sdboot_drop_pending (e # es) g =
     (case ll_node (snd e) of
        None \<Rightarrow> sdboot_drop_pending es g
      | Some n \<Rightarrow> do { s \<leftarrow> confignode_clean n (g_cs g); sdboot_drop_pending es (g\<lparr>g_cs := s\<rparr>) })"

definition sdboot_boot_add_items :: "bool \<Rightarrow> embloader \<Rightarrow> (efi_status \<times> embloader) option" where
  "sdboot_boot_add_items setup g =
     (case (g_menu g, g_sdboot g) of
        (Some m, Some sd) \<Rightarrow>
          (let ((ok, pending), g) =
             sdboot_new_items (sm_editor (sd_menu sd)) (mn_loaders m) (sd_loaders sd) [] g
           in if \<not> ok then do { g \<leftarrow> sdboot_drop_pending pending g; Some (EFI_OUT_OF_RESOURCES, g) }
              else do {
                ((status, priorities, offset), g) \<leftarrow> sdboot_items_prepare pending g;
                (if EFI_ERROR status
                 then do { g \<leftarrow> sdboot_drop_pending pending g; Some (EFI_OUT_OF_RESOURCES, g) }
                 else do {
                   ((status, pending), g) \<leftarrow> sdboot_boot_add_auto_items setup pending offset g;
                   (if EFI_ERROR status
                    then do { g \<leftarrow> sdboot_drop_pending pending g; Some (EFI_OUT_OF_RESOURCES, g) }
                    else Some (EFI_SUCCESS, embloader_sort_menu_loaders (sdboot_items_publish pending priorities g)))
                 })
              })
      | _ \<Rightarrow> Some (EFI_NOT_READY, g))"

end
