(* ===== verification/SdbootFile.thy ===== *)
theory SdbootFile
  imports SdbootMenu Encode
begin

text \<open>
  \<open>src/sdboot/file.c\<close> and the device search of \<open>src/sdboot/menu.c\<close>. What the firmware answers is a
  parameter: a device offers its files, the volume an entry keeps open, and a directory read with
  the protocol of \<open>EFI_FILE_PROTOCOL.Read\<close>, whose driver state is of type \<open>'d\<close>.
\<close>

section \<open>Devices\<close>

record file_info =
  fi_units :: "16 word list"
  fi_directory :: bool

type_synonym 'd dir_read = "'d \<Rightarrow> nat \<Rightarrow> (efi_status \<times> nat \<times> file_info) \<times> 'd"

record 'd sd_device =
  dv_files :: filesys
  dv_volume :: "efi_status \<times> nat option"
  dv_folder :: "efi_status \<times> 'd option"
  dv_read :: "'d dir_read"
  dv_entries :: filesys

text \<open>The buffer is zeroed before each read, so the units behind the name are zero.\<close>

definition fi_unit :: "file_info \<Rightarrow> nat \<Rightarrow> 16 word" where
  "fi_unit info i = (if i < length (fi_units info) then fi_units info ! i else 0)"

definition sdboot_file_info_name_is_valid :: "file_info \<Rightarrow> nat \<Rightarrow> bool" where
  "sdboot_file_info_name_is_valid info sz =
     (let offset = 80 in
      if sz < offset + 2 then False
      else let bytes = sz - offset in
      if bytes mod 2 \<noteq> 0 then False
      else \<exists>i \<in> set [0..<bytes div 2]. fi_unit info i = 0)"

section \<open>One file\<close>

text \<open>The name of an entry: the last component without the suffix \<open>.conf\<close>.\<close>

definition entry_name :: "cstring \<Rightarrow> cstring" where
  "entry_name fname =
     (let name = (case strrchr fname (CHR ''/'') of
                    Some p \<Rightarrow> tl p
                  | None \<Rightarrow> (case strrchr fname (CHR 0x5C) of Some p \<Rightarrow> tl p | None \<Rightarrow> fname))
      in if endwithsi (Some name) (length name) (Some ''.conf'') then take (length name - 5) name else name)"

definition entry_loader ::
  "embloader_arch \<Rightarrow> 'd sd_device \<Rightarrow> nat \<Rightarrow> cstring \<Rightarrow> embloader \<Rightarrow>
   (efi_status + sdboot_boot_loader) \<times> embloader" where
  "entry_loader arch dev handle fname g =
     (let (ok, g) = galloc g in
      if \<not> ok then (Inl EFI_OUT_OF_RESOURCES, g)
      else let (name, g) = gstrdup (Some (entry_name fname)) g in
      if name = None then (Inl EFI_OUT_OF_RESOURCES, g)
      else let (status, root) = dv_volume dev in
      if EFI_ERROR status then (Inl status, g)
      else if root = None then (Inl EFI_LOAD_ERROR, g)
      else (Inr ((sdboot_boot_loader_init arch)\<lparr>sl_name := name, sl_root_handle := handle,
              sl_root := root, sl_root_owned := True\<rparr>), g))"

definition on_parse ::
  "cstring \<Rightarrow> cstring option \<Rightarrow> sdboot_target \<Rightarrow> embloader \<Rightarrow> (efi_status \<times> sdboot_target) \<times> embloader" where
  "on_parse fname content target g =
     (let (status, target, s) = sdboot_boot_parse_content (Some fname) content target (g_cs g)
      in ((status, target), g\<lparr>g_cs := s\<rparr>))"

definition sdboot_boot_load_file ::
  "embloader_arch \<Rightarrow> 'd sd_device \<Rightarrow> filesys \<Rightarrow> nat \<Rightarrow> sdboot_menu \<Rightarrow> cstring \<Rightarrow> bool \<Rightarrow> embloader \<Rightarrow>
   (efi_status \<times> sdboot_menu) \<times> embloader" where
  "sdboot_boot_load_file arch dev files handle menu fname is_entry g =
     (let (opened, got, content) = files fname in
      if EFI_ERROR opened then ((opened, menu), g)
      else if EFI_ERROR got then ((got, menu), g)
      else if \<not> is_entry then
        (let ((status, target), g) = on_parse fname content (Some (sd_menu menu), None) g
         in if EFI_ERROR status then ((status, menu), g)
            else ((EFI_SUCCESS, case fst target of None \<Rightarrow> menu | Some m \<Rightarrow> menu\<lparr>sd_menu := m\<rparr>), g))
      else let (loader, g) = entry_loader arch dev handle fname g
           in case loader of
                Inl status \<Rightarrow> ((status, menu), g)
              | Inr l \<Rightarrow>
                  let ((status, target), g) = on_parse fname content (None, Some l) g in
                  if EFI_ERROR status then ((status, menu), g)
                  else if \<not> sdboot_boot_loader_check (snd target) then ((EFI_LOAD_ERROR, menu), g)
                  else case snd target of
                    None \<Rightarrow> ((EFI_LOAD_ERROR, menu), g)
                  | Some l \<Rightarrow>
                      if sl_arch l \<noteq> arch then ((EFI_SUCCESS, menu), g)
                      else let (cell, g) = galloc g
                           in if \<not> cell then ((EFI_OUT_OF_RESOURCES, menu), g)
                              else ((EFI_SUCCESS, menu\<lparr>sd_loaders := sd_loaders menu @ [(g_next g, l)]\<rparr>),
                                    g\<lparr>g_next := Suc (g_next g)\<rparr>))"

section \<open>The folder of entries\<close>

definition name_text :: "8 word list \<Rightarrow> cstring" where
  "name_text bs = map (\<lambda>b. char_of (unat b)) bs"

text \<open>
  What the loop does with one directory entry: skip it, load it, or stop with an error. The names
  of the entries the loop looks at end at a zero unit.
\<close>

definition folder_entry ::
  "embloader_arch \<Rightarrow> 'd sd_device \<Rightarrow> nat \<Rightarrow> file_info \<Rightarrow> sdboot_menu \<Rightarrow> embloader \<Rightarrow>
   (efi_status \<times> bool \<times> sdboot_menu) \<times> embloader" where
  "folder_entry arch dev handle info pending g =
     (if fi_unit info 0 = 0 \<or> fi_unit info 0 = 0x2E then ((EFI_SUCCESS, False, pending), g)
      else if fi_directory info then ((EFI_SUCCESS, False, pending), g)
      else let (ok, g) = galloc g
           in case encode_utf16_to_utf8 (\<not> ok) (Some (takeWhile (\<lambda>u. u \<noteq> 0) (fi_units info))) of
                None \<Rightarrow> ((EFI_OUT_OF_RESOURCES, False, pending), g)
              | Some bs \<Rightarrow>
                  let fname = name_text bs in
                  if \<not> endwithsi (Some fname) (length fname) (Some ''.conf'') then ((EFI_SUCCESS, False, pending), g)
                  else let ((status, pending), g) =
                         sdboot_boot_load_file arch dev (dv_entries dev) handle pending fname True g in
                  if \<not> EFI_ERROR status then ((EFI_SUCCESS, True, pending), g)
                  else if status \<noteq> EFI_LOAD_ERROR \<and> status \<noteq> EFI_NOT_FOUND then ((status, False, pending), g)
                  else ((EFI_SUCCESS, False, pending), g))"

text \<open>The loop over the directory: the failure, whether a file was loaded, and the pending menu.\<close>

partial_function (option) folder_loop ::
  "embloader_arch \<Rightarrow> 'd sd_device \<Rightarrow> nat \<Rightarrow> 'd \<Rightarrow> nat \<Rightarrow> bool \<Rightarrow> sdboot_menu \<Rightarrow> embloader \<Rightarrow>
   ((efi_status \<times> bool \<times> sdboot_menu) \<times> embloader) option" where
  "folder_loop arch dev handle d infosz have_success pending g =
     (let ((status, ps, info), d) = dv_read dev d infosz in
      if status = EFI_NOT_FOUND then Some ((EFI_SUCCESS, have_success, pending), g)
      else if status = EFI_BUFFER_TOO_SMALL then
        (if ps \<le> infosz then Some ((EFI_DEVICE_ERROR, have_success, pending), g)
         else let (ok, g) = galloc g
              in if ok then folder_loop arch dev handle d ps have_success pending g
                 else Some ((EFI_OUT_OF_RESOURCES, have_success, pending), g))
      else if EFI_ERROR status then Some ((status, have_success, pending), g)
      else if ps = 0 then Some ((EFI_SUCCESS, have_success, pending), g)
      else if ps > infosz \<or> \<not> sdboot_file_info_name_is_valid info ps
      then Some ((EFI_DEVICE_ERROR, have_success, pending), g)
      else let ((failure, loaded, pending), g) = folder_entry arch dev handle info pending g
           in if EFI_ERROR failure then Some ((failure, have_success, pending), g)
              else folder_loop arch dev handle d infosz (have_success \<or> loaded) pending g)"

definition sdboot_boot_load_entries_folder ::
  "embloader_arch \<Rightarrow> 'd sd_device \<Rightarrow> nat \<Rightarrow> sdboot_menu \<Rightarrow> embloader \<Rightarrow>
   ((efi_status \<times> sdboot_menu) \<times> embloader) option" where
  "sdboot_boot_load_entries_folder arch dev handle menu g =
     (let (status, fp) = dv_folder dev in
      if EFI_ERROR status then Some ((status, menu), g)
      else case fp of
        None \<Rightarrow> Some ((EFI_DEVICE_ERROR, menu), g)
      | Some d \<Rightarrow> do {
          ((failure, have_success, pending), g) \<leftarrow> folder_loop arch dev handle d 0 False sdboot_menu_init g;
          Some (if EFI_ERROR failure then ((failure, menu), g)
                else if \<not> have_success then ((EFI_NOT_FOUND, menu), g)
                else ((EFI_SUCCESS, menu\<lparr>sd_loaders := sd_loaders menu @ sd_loaders pending\<rparr>), g))
        })"

section \<open>The root of a device\<close>

text \<open>The first entry of the boot menu with a property that may read the configuration.\<close>

fun find_entry ::
  "(embloader_loader \<Rightarrow> embloader \<Rightarrow> (bool \<times> embloader) option) \<Rightarrow> entry list \<Rightarrow> embloader \<Rightarrow>
   (entry option \<times> embloader) option" where
  "find_entry P [] g = Some (None, g)"
| "find_entry P (e # es) g = do {
     (found, g) \<leftarrow> P (snd e) g;
     (if found then Some (Some e, g) else find_entry P es g)
   }"

definition menu_entries :: "embloader \<Rightarrow> entry list" where
  "menu_entries g = (case g_menu g of None \<Rightarrow> [] | Some m \<Rightarrow> mn_loaders m)"

definition find_efisetup :: "embloader \<Rightarrow> (entry option \<times> embloader) option" where
  "find_efisetup g = find_entry (\<lambda>l g. Some (ll_type l = LOADER_EFISETUP, g)) (menu_entries g) g"

definition find_reboot :: "embloader \<Rightarrow> (entry option \<times> embloader) option" where
  "find_reboot g = find_entry embloader_loader_is_reboot (menu_entries g) g"

definition find_shutdown :: "embloader \<Rightarrow> (entry option \<times> embloader) option" where
  "find_shutdown g = find_entry embloader_loader_is_shutdown (menu_entries g) g"

definition auto_name :: "entry option \<Rightarrow> cstring \<Rightarrow> cstring option" where
  "auto_name e name = (case e of None \<Rightarrow> Some name | Some l \<Rightarrow> ll_name (snd l))"

text \<open>The name of the default entry: the automatic entries stand for entries of the menu.\<close>

definition default_name :: "cstring \<Rightarrow> embloader \<Rightarrow> (cstring option \<times> embloader) option" where
  "default_name ent g =
     (if strcasecmp ent ''auto-firmware'' = 0 then
        do { (l, g) \<leftarrow> find_efisetup g; Some (auto_name l ''sdboot-auto-firmware'', g) }
      else if strcasecmp ent ''auto-reboot'' = 0 then
        do { (l, g) \<leftarrow> find_reboot g; Some (auto_name l ''sdboot-auto-reboot'', g) }
      else if strcasecmp ent ''auto-poweroff'' = 0 then
        do { (l, g) \<leftarrow> find_shutdown g; Some (auto_name l ''sdboot-auto-shutdown'', g) }
      else Some (None, g))"

definition on_menu :: "(embloader_menu \<Rightarrow> embloader_menu) \<Rightarrow> embloader \<Rightarrow> embloader option" where
  "on_menu f g = map_option (\<lambda>m. g\<lparr>g_menu := Some (f m)\<rparr>) (g_menu g)"

text \<open>The settings of \<open>loader.conf\<close> that the configuration does not set itself.\<close>

definition apply_sdboot_menu :: "sdboot_boot_menu \<Rightarrow> embloader \<Rightarrow> (efi_status \<times> embloader) option" where
  "apply_sdboot_menu bm g = do {
     (timeout, g) \<leftarrow> on_cs (confignode_path_lookup (g_config g) (Some ''menu.timeout'') False) g;
     g \<leftarrow> (if timeout = None
           then on_menu (\<lambda>m. m\<lparr>mn_timeout := sm_timeout bm, mn_disabled := sm_disabled bm\<rparr>) g else Some g);
     (case sm_default_entry bm of
        None \<Rightarrow> Some (EFI_SUCCESS, g)
      | Some ent \<Rightarrow> do {
          (def, g) \<leftarrow> on_cs (confignode_path_lookup (g_config g) (Some ''menu.default'') False) g;
          (if def \<noteq> None then Some (EFI_SUCCESS, g)
           else do {
             (newent, g) \<leftarrow> default_name ent g;
             (let (replacement, g) = gstrdup (Some (case newent of None \<Rightarrow> ent | Some n \<Rightarrow> n)) g
              in case replacement of
                   None \<Rightarrow> Some (EFI_OUT_OF_RESOURCES, g)
                 | Some r \<Rightarrow> do { g \<leftarrow> on_menu (\<lambda>m. m\<lparr>mn_default_entry := Some r\<rparr>) g; Some (EFI_SUCCESS, g) })
           })
        })
   }"

definition set_sdboot :: "sdboot_menu \<Rightarrow> embloader \<Rightarrow> embloader" where
  "set_sdboot sd g = g\<lparr>g_sdboot := Some sd\<rparr>"

definition sdboot_boot_load_root ::
  "embloader_arch \<Rightarrow> 'd sd_device \<Rightarrow> nat \<Rightarrow> embloader \<Rightarrow> (efi_status \<times> embloader) option" where
  "sdboot_boot_load_root arch dev handle g = do {
     menu \<leftarrow> g_sdboot g;
     (let ((status, menu), g) =
        sdboot_boot_load_file arch dev (dv_files dev) handle menu ''/loader/loader.conf'' False g;
          g = set_sdboot menu g
      in if EFI_ERROR status \<and> status \<noteq> EFI_NOT_FOUND then Some (status, g)
         else do {
           ((status, menu), g) \<leftarrow> sdboot_boot_load_entries_folder arch dev handle menu g;
           (let g = set_sdboot menu g
            in if EFI_ERROR status \<and> status \<noteq> EFI_NOT_FOUND then Some (status, g)
               else apply_sdboot_menu (sd_menu menu) g)
         })
   }"

section \<open>The search over the devices\<close>

text \<open>
  The firmware as this search sees it: the device the loader was started from, the devices with
  a file system, which of them have a folder \<open>/loader\<close> (\<open>sdboot_check_fs\<close>), and the firmware setup.
\<close>

record 'd sd_firmware =
  fw_loaded_image :: "nat option"
  fw_prev :: nat
  fw_handles :: "efi_status \<times> nat list"
  fw_check_fs :: "nat \<Rightarrow> bool"
  fw_device :: "nat \<Rightarrow> 'd sd_device"
  fw_setup :: bool

text \<open>One device: \<open>Inl\<close> is the error exit, \<open>Inr\<close> whether it had a configuration.\<close>

definition try_device ::
  "embloader_arch \<Rightarrow> 'd sd_firmware \<Rightarrow> nat \<Rightarrow> embloader \<Rightarrow> ((efi_status + bool) \<times> embloader) option" where
  "try_device arch fw handle g =
     (if \<not> fw_check_fs fw handle then Some (Inr False, g)
      else do {
        (status, g) \<leftarrow> sdboot_boot_load_root arch (fw_device fw handle) handle g;
        Some (if EFI_ERROR status then Inl status else Inr True, g)
      })"

text \<open>The devices in turn; the first success ends the search unless several are wanted.\<close>

fun try_devices ::
  "embloader_arch \<Rightarrow> 'd sd_firmware \<Rightarrow> bool \<Rightarrow> nat list \<Rightarrow> bool \<Rightarrow> embloader \<Rightarrow>
   ((efi_status + bool) \<times> embloader) option" where
  "try_devices arch fw multiple [] have_success g = Some (Inr have_success, g)"
| "try_devices arch fw multiple (h # hs) have_success g = do {
     (r, g) \<leftarrow> try_device arch fw h g;
     (case r of
        Inl status \<Rightarrow> Some (Inl status, g)
      | Inr ok \<Rightarrow> if ok \<and> \<not> multiple then Some (Inr True, g)
                  else try_devices arch fw multiple hs (have_success \<or> ok) g)
   }"

text \<open>The scanned devices that were not attempted before.\<close>

fun new_handles :: "nat list \<Rightarrow> nat list \<Rightarrow> nat list" where
  "new_handles seen [] = []"
| "new_handles seen (h # hs) =
     (if h \<in> set seen then new_handles seen hs else h # new_handles (seen @ [h]) hs)"

definition known_handles :: "'d sd_firmware \<Rightarrow> nat list" where
  "known_handles fw =
     (case fw_loaded_image fw of
        None \<Rightarrow> [fw_prev fw]
      | Some cur \<Rightarrow> if fw_prev fw \<noteq> cur then [cur, fw_prev fw] else [cur])"

definition sdboot_boot_load_menu ::
  "embloader_arch \<Rightarrow> 'd sd_firmware \<Rightarrow> embloader \<Rightarrow> (efi_status \<times> embloader) option" where
  "sdboot_boot_load_menu arch fw g = do {
     (enabled, g) \<leftarrow> gget_bool (g_config g) ''menu.sdboot.enabled'' True g;
     (if \<not> enabled then Some (EFI_UNSUPPORTED, g)
      else
        let (ok, g) = (case g_sdboot g of
              Some sd \<Rightarrow> (True, g)
            | None \<Rightarrow> let (m, s) = sdboot_menu_new (g_cs g); g = g\<lparr>g_cs := s\<rparr>
                      in case m of None \<Rightarrow> (False, g) | Some sd \<Rightarrow> (True, set_sdboot sd g))
        in if \<not> ok then Some (EFI_OUT_OF_RESOURCES, g)
           else do {
             (multiple, g) \<leftarrow> gget_bool (g_config g) ''menu.sdboot.multi-partitions'' False g;
             (r, g) \<leftarrow> try_devices arch fw multiple (known_handles fw) False g;
             (case r of
                Inl status \<Rightarrow> Some (status, g)
              | Inr have_success \<Rightarrow>
                  if have_success \<and> \<not> multiple then sdboot_boot_add_items (fw_setup fw) g
                  else let (status, handles) = fw_handles fw in
                  if EFI_ERROR status \<and> status \<noteq> EFI_NOT_FOUND then Some (status, g)
                  else do {
                    (r, g) \<leftarrow> try_devices arch fw multiple
                        (if EFI_ERROR status then [] else new_handles (known_handles fw) handles) have_success g;
                    (case r of
                       Inl status \<Rightarrow> Some (status, g)
                     | Inr have_success \<Rightarrow>
                         if have_success then sdboot_boot_add_items (fw_setup fw) g else Some (EFI_NOT_FOUND, g))
                  })
           })
   }"

end
