(* ===== verification/SdbootFacts.thy ===== *)
theory SdbootFacts
  imports Sdboot
begin

text \<open>
  What a systemd-boot configuration file means: the settings of its lines, and the entry or the
  menu these settings denote. A text field holds the last value given for its key, a list field all
  the words given for it in order, and keys are matched without case.
\<close>

section \<open>Matching a slice against a word\<close>

lemma strcmp_same_length: "length s = length t \<Longrightarrow> strcmp s t = 0 \<longleftrightarrow> s = t"
  by (induction s t rule: strcmp.induct) auto

lemma is_case_word_iff: "map tolower w = w \<Longrightarrow> is_case_word str w \<longleftrightarrow> map tolower str = w"
proof -
  assume w: "map tolower w = w"
  show ?thesis
  proof (cases "length str = length w")
    case True
    then have "strncasecmp str w (length w) = 0 \<longleftrightarrow> map tolower str = map tolower w"
      using strcmp_same_length [of "map tolower str" "map tolower w"]
      by (simp add: strncasecmp_def strncmp_take)
    with w True show ?thesis by (simp add: str_case_match_def)
  next
    case False
    then have "map tolower str \<noteq> w" by (metis length_map)
    with False show ?thesis by (simp add: str_case_match_def)
  qed
qed

lemma is_word_iff: "is_word str w \<longleftrightarrow> str = w"
proof -
  have "length str = length w \<Longrightarrow> strncmp str w (length str) = 0 \<longleftrightarrow> str = w"
    by (simp add: strncmp_take strcmp_same_length)
  then show ?thesis by (auto simp: str_match_def)
qed

lemma tolower_words:
  "map tolower ''default'' = ''default''" "map tolower ''timeout'' = ''timeout''"
  "map tolower ''console-mode'' = ''console-mode''" "map tolower ''editor'' = ''editor''"
  "map tolower ''auto-entries'' = ''auto-entries''" "map tolower ''auto-firmware'' = ''auto-firmware''"
  "map tolower ''auto-reboot'' = ''auto-reboot''" "map tolower ''auto-poweroff'' = ''auto-poweroff''"
  "map tolower ''beep'' = ''beep''" "map tolower ''secureboot-enroll'' = ''secureboot-enroll''"
  "map tolower ''reboot-for-bitlocker'' = ''reboot-for-bitlocker''" "map tolower ''title'' = ''title''"
  "map tolower ''version'' = ''version''" "map tolower ''machine-id'' = ''machine-id''"
  "map tolower ''sort-key'' = ''sort-key''" "map tolower ''linux'' = ''linux''"
  "map tolower ''initrd'' = ''initrd''" "map tolower ''efi'' = ''efi''"
  "map tolower ''options'' = ''options''" "map tolower ''devicetree'' = ''devicetree''"
  "map tolower ''devicetree-overlay'' = ''devicetree-overlay''"
  "map tolower ''architecture'' = ''architecture''"
  "map tolower ''menu-force'' = ''menu-force''" "map tolower ''menu-hidden'' = ''menu-hidden''"
  "map tolower ''menu-disabled'' = ''menu-disabled''"
  by (simp_all add: tolower_def isupper_def cval_def)

lemmas key_iff = tolower_words [THEN is_case_word_iff]

section \<open>Lines\<close>

definition plain_key :: "cstring \<Rightarrow> bool" where
  "plain_key key \<longleftrightarrow> key \<noteq> [] \<and> hd key \<noteq> CHR ''#'' \<and> (\<forall>c \<in> set key. \<not> isspace c)"

definition plain_value :: "cstring \<Rightarrow> bool" where
  "plain_value val \<longleftrightarrow> val \<noteq> [] \<and> \<not> isspace (hd val) \<and> \<not> isspace (last val) \<and> CHR ''#'' \<notin> set val"

definition blank :: "cstring \<Rightarrow> bool" where
  "blank w \<longleftrightarrow> (\<forall>c \<in> set w. isspace c)"

lemma blank_simps [simp]: "blank []" "blank (c # w) \<longleftrightarrow> isspace c \<and> blank w" "blank (v @ w) \<longleftrightarrow> blank v \<and> blank w"
  "blank (rev w) \<longleftrightarrow> blank w" "blank (takeWhile isspace xs)"
  by (auto simp: blank_def dest: set_takeWhileD)

lemma dropWhile_blank: "blank w \<Longrightarrow> dropWhile isspace (w @ xs) = dropWhile isspace xs"
  by (simp add: blank_def)

lemma rtrim_split:
  obtains w where "xs = rev (dropWhile isspace (rev xs)) @ w" "blank w"
  by (rule that [of "rev (takeWhile isspace (rev xs))"])
    (simp_all flip: rev_append)

lemma rtrim_last: "xs \<noteq> [] \<Longrightarrow> \<not> isspace (last xs) \<Longrightarrow> rev (dropWhile isspace (rev xs)) = xs"
  by (cases xs rule: rev_cases) auto

lemma rtrim_blank: "blank w \<Longrightarrow> rev (dropWhile isspace (rev (xs @ w))) = rev (dropWhile isspace (rev xs))"
  by (simp add: dropWhile_blank)

lemma not_isspace_hash [simp]: "\<not> isspace (CHR ''#'')"
  by (simp add: isspace_def cval_def)

text \<open>The scanner is exactly the line format: blanks, a key, blanks, a value, blanks, a comment.\<close>

lemma split_line_shape:
  assumes "plain_key key" "plain_value val" "blank w1" "blank w2" "w2 \<noteq> []" "blank w3"
    and "cm = [] \<or> hd cm = CHR ''#''"
  shows "sdboot_split_line (w1 @ key @ w2 @ val @ w3 @ cm) = Some (Some (key, val))"
proof -
  have k: "key \<noteq> []" "\<forall>c \<in> set key. \<not> isspace c" "\<not> isspace (hd key)" "hd key \<noteq> CHR ''#''"
    and v: "val \<noteq> []" "\<not> isspace (hd val)" "\<not> isspace (last val)" "CHR ''#'' \<notin> set val"
    using assms(1,2) by (auto simp: plain_key_def plain_value_def)
  obtain tail w where tail: "w3 @ cm = tail @ w" "blank w"
    "tail = [] \<or> \<not> isspace (last tail) \<and> (\<exists>w' r. tail = w' @ CHR ''#'' # r \<and> blank w')"
  proof (cases cm)
    case Nil
    with assms(6) that [of "[]" w3] show ?thesis by simp
  next
    case (Cons c r)
    with assms(7) have c: "c = CHR ''#''" by simp
    define t where "t = rev (dropWhile isspace (rev cm))"
    obtain w where w: "cm = t @ w" "blank w" unfolding t_def by (rule rtrim_split)
    have ne: "t \<noteq> []"
    proof
      assume "t = []"
      then have "blank cm" using w by simp
      with Cons c show False by simp
    qed
    then have l: "\<not> isspace (last t)"
      unfolding t_def by (metis hd_dropWhile last_rev rev_is_Nil_conv)
    obtain r' where t: "t = CHR ''#'' # r'" using ne w(1) Cons c by (cases t) auto
    show ?thesis
    proof (intro that [of "w3 @ t" w] disjI2 conjI)
      show "w3 @ cm = (w3 @ t) @ w" by (simp only: w(1) append.assoc)
      show "\<not> isspace (last (w3 @ t))" using l ne by simp
      show "\<exists>w' r. w3 @ t = w' @ CHR ''#'' # r \<and> blank w'" using t assms(6) by blast
    qed (rule w(2))
  qed
  let ?line = "key @ w2 @ val @ tail"
  have "?line \<noteq> []" "\<not> isspace (last ?line)" using k v tail(3) by auto
  then have r: "rev (dropWhile isspace (rev (w1 @ ?line @ w))) = w1 @ ?line"
    using rtrim_blank [OF tail(2), of "w1 @ ?line"] rtrim_last [of "w1 @ ?line"] k by simp
  have l: "dropWhile isspace (w1 @ ?line) = ?line"
    using k assms(3) by (cases key) (simp_all add: dropWhile_blank)
  have hd2: "\<exists>c r. w2 = c # r \<and> isspace c" using assms(4,5) by (cases w2) auto
  have tk: "takeWhile (\<lambda>c. \<not> isspace c) ?line = key" "dropWhile (\<lambda>c. \<not> isspace c) ?line = w2 @ val @ tail"
    using k(2) hd2 by (auto simp: takeWhile_append_stop dropWhile_append_stop)
  have dv: "dropWhile isspace (w2 @ val @ tail) = val @ tail"
    using assms(4) v by (cases val) (simp_all add: dropWhile_blank)
  have cut: "rev (dropWhile isspace (rev (takeWhile (\<lambda>c. c \<noteq> CHR ''#'') (val @ tail)))) = val"
  proof (cases "tail = []")
    case True
    have tw: "takeWhile (\<lambda>c. c \<noteq> CHR ''#'') val = val" using v(4) by (intro takeWhile_all) auto
    show ?thesis unfolding True append_Nil2 tw by (rule rtrim_last [OF v(1,3)])
  next
    case False
    then obtain w' r where t: "tail = w' @ CHR ''#'' # r" "blank w'" using tail(3) by auto
    then have h: "CHR ''#'' \<notin> set w'" by (auto simp: blank_def)
    have "takeWhile (\<lambda>c. c \<noteq> CHR ''#'') ((val @ w') @ CHR ''#'' # r) = val @ w'"
      by (rule takeWhile_append_stop) (use v(4) h in auto)
    then have "takeWhile (\<lambda>c. c \<noteq> CHR ''#'') (val @ tail) = val @ w'" by (simp add: t(1))
    then show ?thesis using rtrim_blank [OF t(2), of val] rtrim_last [OF v(1,3)] by presburger
  qed
  have e: "w1 @ key @ w2 @ val @ w3 @ cm = w1 @ ?line @ w" using tail(1) by simp
  show ?thesis
    unfolding sdboot_split_line_def Let_def e r l tk dv cut
    using k v by auto
qed

lemma split_line_parts:
  assumes "sdboot_split_line text = Some (Some (key, val))"
  shows "plain_key key \<and> plain_value val \<and> (\<exists>w1 w2 w3 cm. text = w1 @ key @ w2 @ val @ w3 @ cm \<and>
     blank w1 \<and> blank w2 \<and> w2 \<noteq> [] \<and> blank w3 \<and> (cm = [] \<or> hd cm = CHR ''#'' \<or> blank cm))"
proof -
  define u where "u = rev (dropWhile isspace (rev text))"
  define line where "line = dropWhile isspace u"
  define sep where "sep = dropWhile (\<lambda>c. \<not> isspace c) line"
  define v0 where "v0 = dropWhile isspace sep"
  define v1 where "v1 = takeWhile (\<lambda>c. c \<noteq> CHR ''#'') v0"
  have d: "line \<noteq> []" "hd line \<noteq> CHR ''#''" "sep \<noteq> []" "v0 \<noteq> []"
    "key = takeWhile (\<lambda>c. \<not> isspace c) line" "key \<noteq> []" "val = rev (dropWhile isspace (rev v1))" "val \<noteq> []"
  proof -
    have "sdboot_split_line text = (if line = [] \<or> hd line = CHR ''#'' then Some None
        else if sep = [] then None else if v0 = [] then None
        else if takeWhile (\<lambda>c. \<not> isspace c) line = [] \<or> rev (dropWhile isspace (rev v1)) = [] then None
        else Some (Some (takeWhile (\<lambda>c. \<not> isspace c) line, rev (dropWhile isspace (rev v1)))))"
      by (simp only: sdboot_split_line_def Let_def u_def line_def sep_def v0_def v1_def)
    with assms show "line \<noteq> []" "hd line \<noteq> CHR ''#''" "sep \<noteq> []" "v0 \<noteq> []"
      "key = takeWhile (\<lambda>c. \<not> isspace c) line" "key \<noteq> []" "val = rev (dropWhile isspace (rev v1))" "val \<noteq> []"
      by (auto simp del: rev_is_Nil_conv dropWhile_eq_Nil_conv split: if_splits)
  qed
  obtain w where w: "text = u @ w" "blank w" unfolding u_def by (rule rtrim_split)
  have lk: "line = key @ sep" unfolding d(5) sep_def by simp
  obtain w2 where w2: "sep = w2 @ v0" "blank w2" by (rule that [of "takeWhile isspace sep"]) (simp_all add: v0_def)
  have w1: "u = takeWhile isspace u @ line" unfolding line_def by simp
  obtain w3 where w3: "v1 = val @ w3" "blank w3" unfolding d(7) by (rule rtrim_split)
  have v0: "v0 = v1 @ dropWhile (\<lambda>c. c \<noteq> CHR ''#'') v0" unfolding v1_def by simp
  let ?cm = "dropWhile (\<lambda>c. c \<noteq> CHR ''#'') v0"
  have cm: "?cm = [] \<or> hd ?cm = CHR ''#''" using hd_dropWhile [of "\<lambda>c. c \<noteq> CHR ''#''" v0] by auto
  have pk: "plain_key key"
  proof -
    have "hd key = hd line" using lk d(6) by simp
    moreover have "\<forall>c \<in> set key. \<not> isspace c" unfolding d(5) by (blast dest: set_takeWhileD)
    ultimately show ?thesis using d(2,6) by (simp add: plain_key_def)
  qed
  have hs: "isspace (hd sep)" using hd_dropWhile [of "\<lambda>c. \<not> isspace c" line] d(3) by (simp add: sep_def)
  have hv: "\<not> isspace (hd v0)" using hd_dropWhile [of isspace sep] d(4) by (simp add: v0_def)
  have w2n: "w2 \<noteq> []" using hs hv w2 d(3) by auto
  have "hd val = hd v0" using v0 w3 d(8) by (metis hd_append2 append_is_Nil_conv)
  moreover have "\<not> isspace (last val)" unfolding d(7) using d(7,8)
    by (metis hd_dropWhile last_rev rev_is_Nil_conv)
  moreover have "set val \<subseteq> set v1" using w3 by auto
  moreover have "CHR ''#'' \<notin> set v1" unfolding v1_def by (blast dest: set_takeWhileD)
  ultimately have pv: "plain_value val"
    using hv d(8) unfolding plain_value_def by (metis subsetD)
  have "text = takeWhile isspace u @ key @ w2 @ val @ w3 @ (?cm @ w)"
  proof -
    have "v0 = val @ w3 @ ?cm" using v0 unfolding w3(1) append.assoc .
    then have "line = key @ w2 @ val @ w3 @ ?cm" using lk w2(1) by simp
    then have "u = takeWhile isspace u @ key @ w2 @ val @ w3 @ ?cm" using w1 by simp
    then have "u @ w = (takeWhile isspace u @ key @ w2 @ val @ w3 @ ?cm) @ w" by (rule arg_cong)
    then show ?thesis unfolding append.assoc w(1) .
  qed
  moreover have "?cm @ w = [] \<or> hd (?cm @ w) = CHR ''#'' \<or> blank (?cm @ w)"
    using cm w(2) hd_append2 [of ?cm w] by (metis append_Nil)
  ultimately have "\<exists>w1 w2 w3 cm. text = w1 @ key @ w2 @ val @ w3 @ cm \<and>
     blank w1 \<and> blank w2 \<and> w2 \<noteq> [] \<and> blank w3 \<and> (cm = [] \<or> hd cm = CHR ''#'' \<or> blank cm)"
    using w2 w2n w3(2) blank_simps(5) [of u] by blast
  with pk pv show ?thesis by blast
qed


section \<open>The settings of a file\<close>

function content_lines :: "cstring \<Rightarrow> cstring list" where
  "content_lines content =
     (if content = [] then []
      else takeWhile (\<lambda>c. c \<noteq> LF) content # content_lines (tl (dropWhile (\<lambda>c. c \<noteq> LF) content)))"
  by pat_completeness auto
termination
  by (relation "measure length") (simp_all add: next_content)

declare content_lines.simps [simp del]

definition line_settings :: "cstring \<Rightarrow> (cstring \<times> cstring) list" where
  "line_settings line = (case sdboot_split_line line of Some (Some kv) \<Rightarrow> [kv] | _ \<Rightarrow> [])"

definition settings :: "cstring \<Rightarrow> (cstring \<times> cstring) list" where
  "settings content = concat (map line_settings (content_lines content))"

text \<open>The values given for a key, in order.\<close>

definition values_of :: "cstring \<Rightarrow> (cstring \<times> cstring) list \<Rightarrow> cstring list" where
  "values_of w kvs = map snd (filter (\<lambda>kv. map tolower (fst kv) = w) kvs)"

definition last_text :: "cstring option \<Rightarrow> cstring list \<Rightarrow> cstring option" where
  "last_text old vs = (if vs = [] then old else Some (text_of (last vs)))"

definition all_words :: "cstring list \<Rightarrow> cstring list" where
  "all_words vs = concat (map (\<lambda>v. map text_of (tokens v)) vs)"

definition last_bool :: "bool \<Rightarrow> cstring list \<Rightarrow> bool" where
  "last_bool old vs = fold (\<lambda>v b. snd (sdboot_parse_bool v b)) vs old"

lemma values_of_simps [simp]:
  "values_of w [] = []"
  "values_of w (kvs @ kvs') = values_of w kvs @ values_of w kvs'"
  by (simp_all add: values_of_def)

lemma values_of_one: "values_of w [(k, v)] = (if map tolower k = w then [v] else [])"
  by (simp add: values_of_def)

lemma last_text_append [simp]: "last_text old (vs @ ws) = last_text (last_text old vs) ws"
  by (simp add: last_text_def)

lemma last_text_simps [simp]: "last_text old [] = old" "last_text old [v] = Some (text_of v)"
  by (simp_all add: last_text_def)

lemma all_words_simps [simp]:
  "all_words [] = []" "all_words [v] = map text_of (tokens v)"
  "all_words (vs @ ws) = all_words vs @ all_words ws"
  by (simp_all add: all_words_def)

lemma last_bool_simps [simp]:
  "last_bool b [] = b" "last_bool b [v] = snd (sdboot_parse_bool v b)"
  "last_bool b (vs @ ws) = last_bool (last_bool b vs) ws"
  by (simp_all add: last_bool_def)

section \<open>The entry of a file\<close>

definition last_arch :: "embloader_arch \<Rightarrow> cstring list \<Rightarrow> embloader_arch" where
  "last_arch old vs = fold (\<lambda>v a. snd (sdboot_parse_arch v a)) vs old"

lemma last_arch_simps [simp]:
  "last_arch b [] = b" "last_arch b [v] = snd (sdboot_parse_arch v b)"
  "last_arch b (vs @ ws) = last_arch (last_arch b vs) ws"
  by (simp_all add: last_arch_def)

definition entry_of :: "sdboot_boot_loader \<Rightarrow> (cstring \<times> cstring) list \<Rightarrow> sdboot_boot_loader" where
  "entry_of l kvs = l\<lparr>
     sl_title := last_text (sl_title l) (values_of ''title'' kvs),
     sl_version := last_text (sl_version l) (values_of ''version'' kvs),
     sl_machine_id := last_text (sl_machine_id l) (values_of ''machine-id'' kvs),
     sl_sort_key := last_text (sl_sort_key l) (values_of ''sort-key'' kvs),
     sl_kernel := last_text (sl_kernel l) (values_of ''linux'' kvs),
     sl_efi := last_text (sl_efi l) (values_of ''efi'' kvs),
     sl_initramfs := sl_initramfs l @ all_words (values_of ''initrd'' kvs),
     sl_options := sl_options l @ all_words (values_of ''options'' kvs),
     sl_devicetree := last_text (sl_devicetree l) (values_of ''devicetree'' kvs),
     sl_dtoverlay := sl_dtoverlay l @ all_words (values_of ''devicetree-overlay'' kvs),
     sl_arch := last_arch (sl_arch l) (values_of ''architecture'' kvs)\<rparr>"

lemma entry_of_Nil [simp]: "entry_of l [] = l"
  by (simp add: entry_of_def)

lemma entry_of_append: "entry_of l (kvs @ kvs') = entry_of (entry_of l kvs) kvs'"
  by (simp add: entry_of_def)


text \<open>The outcome of one step: refused memory after a failed allocation, or the new value.\<close>

definition step_ok ::
  "sdboot_parse_status \<Rightarrow> cstate \<Rightarrow> cstate \<Rightarrow> bool \<Rightarrow> bool" where
  "step_ok st s s' good \<longleftrightarrow> coom s' = coom s \<and> ctick s \<le> ctick s' \<and>
     (if st = SDBOOT_PARSE_OUT_OF_RESOURCES then \<exists>n. ctick s \<le> n \<and> n < ctick s' \<and> coom s n else good)"

lemma parse_string_step:
  assumes "sdboot_parse_string_status val old s = (st, v, s')" "val \<noteq> []"
  shows "step_ok st s s' (st = SDBOOT_PARSE_SUCCESS \<and> v = last_text old [val])"
  using assms by (auto simp: sdboot_parse_string_status_def strndup_def alloc_def step_ok_def Let_def split: if_splits)


lemma token_loop_step:
  assumes "token_loop str vs s = (r, s')"
  shows "coom s' = coom s \<and> ctick s \<le> ctick s' \<and>
     (case r of None \<Rightarrow> \<exists>n. ctick s \<le> n \<and> n < ctick s' \<and> coom s n
      | Some ws \<Rightarrow> ws = vs @ map text_of (tokens str))"
  using assms
proof (induction str arbitrary: vs s rule: tokens.induct)
  case (1 str)
  show ?case
  proof (cases "dropWhile isspace str")
    case Nil
    have "tokens str = []" by (simp only: tokens.simps [of str] Nil list.case)
    moreover have "token_loop str vs s = (Some vs, s)" by (simp only: token_loop.simps [of str] Nil) simp
    ultimately show ?thesis using 1 by auto
  next
    case (Cons c r)
    define t where "t = takeWhile (\<lambda>c. \<not> isspace c) (c # r)"
    define u where "u = dropWhile (\<lambda>c. \<not> isspace c) (c # r)"
    have l: "token_loop str vs s =
        (case list_obj_add_new_strndup vs t s of
           (ok, vs, s) \<Rightarrow> if ok then token_loop u vs s else (None, s))"
      by (simp only: token_loop.simps [of str] Let_def Cons list.simps if_False t_def u_def)
    have t: "tokens str = t # tokens u" by (simp only: tokens.simps [of str] Cons list.case t_def u_def)
    note IH = "1.IH" [OF Cons, folded u_def]
    show ?thesis
    proof (cases "coom s (ctick s) \<or> coom s (Suc (ctick s))")
      case True
      with 1(2) l show ?thesis
        by (cases "coom s (ctick s)")
          (auto simp: list_obj_add_new_strndup_def strndup_def alloc_def Let_def
            intro: exI [of _ "ctick s"] exI [of _ "Suc (ctick s)"])
    next
      case False
      then have "token_loop u (vs @ [text_of t]) (s\<lparr>ctick := Suc (Suc (ctick s))\<rparr>) = (r', s')"
        if "r' = fst (token_loop str vs s)" for r'
        using that 1(2) l by (simp add: list_obj_add_new_strndup_def strndup_def alloc_def Let_def)
      from IH [OF this] 1(2) t show ?thesis by (auto split: option.splits) (meson Suc_leD)
    qed
  qed
qed

lemma tokens_Nil_iff: "tokens str = [] \<longleftrightarrow> blank str"
proof (cases "dropWhile isspace str")
  case Nil
  then have "tokens str = []" by (simp only: tokens.simps [of str] list.case)
  with Nil show ?thesis by (simp add: blank_def)
next
  case (Cons c r)
  then have "tokens str \<noteq> []" by (simp only: tokens.simps [of str] list.case) simp
  moreover have "\<not> blank str" using Cons by (metis blank_def dropWhile_eq_Nil_conv list.distinct(1))
  ultimately show ?thesis by simp
qed

lemma parse_list_step:
  assumes "sdboot_parse_string_list_status val old s = (st, v, s')" "val \<noteq> []" "\<not> blank val"
  shows "step_ok st s s' (st = SDBOOT_PARSE_SUCCESS \<and> v = old @ all_words [val])"
proof -
  obtain r where r: "token_loop val [] s = (r, s')"
    using assms(1,2) by (auto simp: sdboot_parse_string_list_status_def Let_def split: prod.splits option.splits if_splits)
  from token_loop_step [OF r] assms r tokens_Nil_iff [of val] show ?thesis
    by (auto simp: sdboot_parse_string_list_status_def step_ok_def split: option.splits if_splits)
qed


lemma plain_value_not_blank: "plain_value val \<Longrightarrow> val \<noteq> [] \<and> \<not> blank val"
  by (auto simp: plain_value_def blank_def)

lemma put_string_step:
  assumes "put_string val get put l s = (st, l', s')" "val \<noteq> []"
    and "put (last_text (get l) [val]) = e"
  shows "step_ok st s s' (l' = e)"
proof -
  obtain v where v: "sdboot_parse_string_status val (get l) s = (st, v, s')" "l' = put v"
    using assms(1) by (auto simp: put_string_def split: prod.splits)
  from parse_string_step [OF v(1) assms(2)] v(2) assms(3) show ?thesis
    by (auto simp: step_ok_def split: if_splits)
qed

lemma put_list_step:
  assumes "put_list val get put l s = (st, l', s')" "val \<noteq> []" "\<not> blank val"
    and "put (get l @ all_words [val]) = e"
  shows "step_ok st s s' (l' = e)"
proof -
  obtain v where v: "sdboot_parse_string_list_status val (get l) s = (st, v, s')" "l' = put v"
    using assms(1) by (auto simp: put_list_def split: prod.splits)
  from parse_list_step [OF v(1) assms(2,3)] v(2) assms(4) show ?thesis
    by (auto simp: step_ok_def split: if_splits)
qed

lemma step_ok_here: "good \<Longrightarrow> st \<noteq> SDBOOT_PARSE_OUT_OF_RESOURCES \<Longrightarrow> step_ok st s s good"
  by (simp add: step_ok_def)

lemma loader_one_step:
  assumes "sdboot_boot_parse_loader_one l key val s = (st, l', s')" "val \<noteq> []" "\<not> blank val"
  shows "step_ok st s s' (l' = entry_of l [(key, val)])"
proof -
  define k where "k = map tolower key"
  note one = assms(1) [unfolded sdboot_boot_parse_loader_one_def key_iff, folded k_def]
  note e = entry_of_def [of l "[(key, val)]", unfolded values_of_one, folded k_def]
  show ?thesis
  proof (cases "k \<in> {''title'', ''version'', ''machine-id'', ''sort-key'', ''linux'', ''initrd'', ''efi'',
         ''options'', ''devicetree'', ''devicetree-overlay'', ''architecture''}")
    case True
    then show ?thesis
    proof (elim insertE emptyE)
    assume 1: "k = ''title''"
    with one have "put_string val sl_title (\<lambda>v. l\<lparr>sl_title := v\<rparr>) l s = (st, l', s')" by simp
    then show ?thesis by (rule put_string_step [OF _ assms(2)]) (simp_all add: e 1)
  next
    assume 2: "k = ''version''"
    with one have "put_string val sl_version (\<lambda>v. l\<lparr>sl_version := v\<rparr>) l s = (st, l', s')" by simp
    then show ?thesis by (rule put_string_step [OF _ assms(2)]) (simp_all add: e 2)
  next
    assume 3: "k = ''machine-id''"
    with one have "put_string val sl_machine_id (\<lambda>v. l\<lparr>sl_machine_id := v\<rparr>) l s = (st, l', s')" by simp
    then show ?thesis by (rule put_string_step [OF _ assms(2)]) (simp_all add: e 3)
  next
    assume 4: "k = ''sort-key''"
    with one have "put_string val sl_sort_key (\<lambda>v. l\<lparr>sl_sort_key := v\<rparr>) l s = (st, l', s')" by simp
    then show ?thesis by (rule put_string_step [OF _ assms(2)]) (simp_all add: e 4)
  next
    assume 5: "k = ''linux''"
    with one have "put_string val sl_kernel (\<lambda>v. l\<lparr>sl_kernel := v\<rparr>) l s = (st, l', s')" by simp
    then show ?thesis by (rule put_string_step [OF _ assms(2)]) (simp_all add: e 5)
  next
    assume 6: "k = ''initrd''"
    with one have "put_list val sl_initramfs (\<lambda>v. l\<lparr>sl_initramfs := v\<rparr>) l s = (st, l', s')" by simp
    then show ?thesis by (rule put_list_step [OF _ assms(2,3)]) (simp_all add: e 6)
  next
    assume 7: "k = ''efi''"
    with one have "put_string val sl_efi (\<lambda>v. l\<lparr>sl_efi := v\<rparr>) l s = (st, l', s')" by simp
    then show ?thesis by (rule put_string_step [OF _ assms(2)]) (simp_all add: e 7)
  next
    assume 8: "k = ''options''"
    with one have "put_list val sl_options (\<lambda>v. l\<lparr>sl_options := v\<rparr>) l s = (st, l', s')" by simp
    then show ?thesis by (rule put_list_step [OF _ assms(2,3)]) (simp_all add: e 8)
  next
    assume 9: "k = ''devicetree''"
    with one have "put_string val sl_devicetree (\<lambda>v. l\<lparr>sl_devicetree := v\<rparr>) l s = (st, l', s')" by simp
    then show ?thesis by (rule put_string_step [OF _ assms(2)]) (simp_all add: e 9)
  next
    assume 10: "k = ''devicetree-overlay''"
    with one have "put_list val sl_dtoverlay (\<lambda>v. l\<lparr>sl_dtoverlay := v\<rparr>) l s = (st, l', s')" by simp
    then show ?thesis by (rule put_list_step [OF _ assms(2,3)]) (simp_all add: e 10)
  next
    assume 11: "k = ''architecture''"
    obtain ok v where v: "sdboot_parse_arch val (sl_arch l) = (ok, v)" by (cases "sdboot_parse_arch val (sl_arch l)")
    with one 11 have r: "st = ok_or_invalid ok" "l' = l\<lparr>sl_arch := v\<rparr>" "s' = s" by simp_all
    have "entry_of l [(key, val)] = l'" by (simp add: e 11 v r(2))
    with r show ?thesis by (auto intro!: step_ok_here simp: ok_or_invalid_def)
    qed
  next
    case False
    with one have r: "st = SDBOOT_PARSE_SUCCESS" "l' = l" "s' = s" by simp_all
    have "entry_of l [(key, val)] = l" using False by (simp add: e)
    with r show ?thesis by (auto intro!: step_ok_here)
  qed
qed


lemma line_settings_valid:
  assumes "(key, val) \<in> set (line_settings line)"
  shows "plain_key key" "plain_value val"
proof -
  have "sdboot_split_line line = Some (Some (key, val))"
    using assms by (auto simp: line_settings_def split: option.splits)
  then show "plain_key key" "plain_value val" using split_line_parts by blast+
qed

text \<open>A line for a target: the scanner and one key dispatch, for either kind of target.\<close>

lemma line_step:
  assumes one: "\<And>x key val s st x' s'. op x key val s = (st, x', s') \<Longrightarrow> val \<noteq> [] \<Longrightarrow> \<not> blank val \<Longrightarrow>
      step_ok st s s' (x' = put x [(key, val)])"
    and put: "put x [] = x"
    and line: "sdboot_boot_parse_line (Some line) (mk x) s = (if line = [] then (SDBOOT_PARSE_SUCCESS, mk x, s)
      else case sdboot_split_line line of
        None \<Rightarrow> (SDBOOT_PARSE_INVALID, mk x, s)
      | Some None \<Rightarrow> (SDBOOT_PARSE_SUCCESS, mk x, s)
      | Some (Some (key, val)) \<Rightarrow> let (st, x, s) = op x key val s in (st, mk x, s))"
    and run: "sdboot_boot_parse_line (Some line) (mk x) s = (st, tgt, s')"
  shows "step_ok st s s' (tgt = mk (put x (line_settings line)))"
proof (cases "line = []")
  case True
  have "line_settings [] = []" by (simp add: line_settings_def sdboot_split_line_def)
  with run line put True show ?thesis by (auto intro: step_ok_here)
next
  case False
  show ?thesis
  proof (cases "\<exists>key val. sdboot_split_line line = Some (Some (key, val))")
    case True
    then obtain key val where kv: "sdboot_split_line line = Some (Some (key, val))" by blast
    then have ls: "line_settings line = [(key, val)]" by (simp add: line_settings_def)
    then have v: "val \<noteq> []" "\<not> blank val"
      using line_settings_valid [of key val line] plain_value_not_blank by simp_all
    obtain x' where x': "op x key val s = (st, x', s')" "tgt = mk x'"
      using run line False kv by (auto split: prod.splits)
    show ?thesis using one [OF x'(1) v] x'(2) ls by (simp add: step_ok_def)
  next
    case none: False
    then have "line_settings line = []" by (auto simp: line_settings_def split: option.splits)
    with run line put False none show ?thesis
      by (cases "sdboot_split_line line") (auto intro: step_ok_here split: option.splits)
  qed
qed

lemma loader_line_step:
  assumes "sdboot_boot_parse_line (Some line) (None, Some l) s = (st, tgt, s')"
  shows "step_ok st s s' (tgt = (None, Some (entry_of l (line_settings line))))"
proof (rule line_step [where mk = "\<lambda>l. (None, Some l)" and put = entry_of, OF loader_one_step entry_of_Nil _ assms])
  show "sdboot_boot_parse_line (Some line) (None, Some l) s = (if line = [] then (SDBOOT_PARSE_SUCCESS, (None, Some l), s)
      else case sdboot_split_line line of
        None \<Rightarrow> (SDBOOT_PARSE_INVALID, (None, Some l), s)
      | Some None \<Rightarrow> (SDBOOT_PARSE_SUCCESS, (None, Some l), s)
      | Some (Some (key, val)) \<Rightarrow> let (st, l, s) = sdboot_boot_parse_loader_one l key val s in (st, (None, Some l), s))"
    by (simp add: sdboot_boot_parse_line_def)
qed

text \<open>
  A whole file, for a target whose one-line step applies \<open>put\<close> to the settings of the line: the
  target the file denotes, or an allocation failed.
\<close>

lemma content_loop_settings:
  assumes step: "\<And>line x s st tgt s'. sdboot_boot_parse_line (Some line) (mk x) s = (st, tgt, s') \<Longrightarrow>
      step_ok st s s' (tgt = mk (put x (line_settings line)))"
    and put: "\<And>x. put x [] = x" "\<And>x a b. put x (a @ b) = put (put x a) b"
    and run: "content_loop content have (mk x) s = (status, tgt, s')"
  shows "coom s' = coom s \<and> ctick s \<le> ctick s' \<and>
     (if status = EFI_OUT_OF_RESOURCES then \<exists>n. ctick s \<le> n \<and> n < ctick s' \<and> coom s n
      else tgt = mk (put x (settings content)) \<and> (status = EFI_SUCCESS \<or> status = EFI_LOAD_ERROR))"
  using run
proof (induction content arbitrary: x "have" s rule: content_lines.induct)
  case (1 content)
  define line where "line = takeWhile (\<lambda>c. c \<noteq> LF) content"
  define rest where "rest = tl (dropWhile (\<lambda>c. c \<noteq> LF) content)"
  show ?case
  proof (cases "content = []")
    case True
    with 1(2) show ?thesis
      by (auto simp: content_loop.simps [of "[]"] settings_def content_lines.simps [of "[]"] put(1) split: if_splits)
  next
    case False
    obtain st t1 s1 where l: "sdboot_boot_parse_line (Some line) (mk x) s = (st, t1, s1)"
      by (cases "sdboot_boot_parse_line (Some line) (mk x) s") auto
    note st = step [OF l]
    have set: "settings content = line_settings line @ settings rest"
      using False by (simp add: settings_def content_lines.simps [of content] line_def rest_def)
    have run: "(if st = SDBOOT_PARSE_OUT_OF_RESOURCES then (EFI_OUT_OF_RESOURCES, t1, s1)
        else content_loop rest (have \<or> st \<noteq> SDBOOT_PARSE_INVALID) t1 s1) = (status, tgt, s')"
      using 1(2) False l unfolding content_loop.simps [of content] line_def [symmetric] rest_def [symmetric] Let_def
      by simp
    show ?thesis
    proof (cases "st = SDBOOT_PARSE_OUT_OF_RESOURCES")
      case True
      with run st show ?thesis by (auto simp: step_ok_def)
    next
      case ok: False
      with st have t1: "t1 = mk (put x (line_settings line))" "coom s1 = coom s" "ctick s \<le> ctick s1"
        by (auto simp: step_ok_def)
      have "content_loop rest (have \<or> st \<noteq> SDBOOT_PARSE_INVALID) (mk (put x (line_settings line))) s1 = (status, tgt, s')"
        using run ok t1 by simp
      from "1.IH" [OF False, folded rest_def, OF this] t1 show ?thesis
        unfolding set put(2) by auto (meson le_trans)
    qed
  qed
qed

lemma loader_content:
  assumes "sdboot_boot_parse_content_into content (None, Some l) s = (status, tgt, s')"
  shows "coom s' = coom s \<and> ctick s \<le> ctick s' \<and>
     (if status = EFI_OUT_OF_RESOURCES then \<exists>n. ctick s \<le> n \<and> n < ctick s' \<and> coom s n
      else tgt = (None, Some (entry_of l (settings content))) \<and> (status = EFI_SUCCESS \<or> status = EFI_LOAD_ERROR))"
  using content_loop_settings [of "\<lambda>l. (None, Some l)" entry_of content False l s status tgt s',
      OF loader_line_step entry_of_Nil entry_of_append assms [unfolded sdboot_boot_parse_content_into_def]] .

section \<open>The menu of a file\<close>

text \<open>The timeout as the code computes it: a negative number is rejected but already stored.\<close>

definition timeout_number :: "cstring \<Rightarrow> int option" where
  "timeout_number val =
     (let r = strtoll 0 (text_of val)
      in if text_of val = val \<and> sr_end r = [] \<and> \<not> sr_range r \<and> INT_MIN \<le> sr_val r \<and> sr_val r \<le> INT_MAX
         then Some (sr_val r) else None)"

definition timeout_step :: "cstring \<Rightarrow> int \<times> bool \<Rightarrow> int \<times> bool" where
  "timeout_step val old =
     (let w = map tolower val in
      if w = ''menu-force'' then (-1, False)
      else if w = ''menu-hidden'' then (0, False)
      else if w = ''menu-disabled'' then (0, True)
      else case timeout_number val of
        None \<Rightarrow> old
      | Some n \<Rightarrow> if n < 0 then (n, snd old) else (n, False))"

definition last_timeout :: "int \<times> bool \<Rightarrow> cstring list \<Rightarrow> int \<times> bool" where
  "last_timeout old vs = fold timeout_step vs old"

definition last_mode :: "sdboot_console_mode \<Rightarrow> cstring list \<Rightarrow> sdboot_console_mode" where
  "last_mode old vs = fold (\<lambda>v a. snd (sdboot_parse_console_mode v a)) vs old"

definition last_enroll :: "sdboot_secureboot_enroll \<Rightarrow> cstring list \<Rightarrow> sdboot_secureboot_enroll" where
  "last_enroll old vs = fold (\<lambda>v a. snd (sdboot_parse_secureboot_enroll v a)) vs old"

lemma last_menu_simps [simp]:
  "last_timeout p [] = p" "last_timeout p [v] = timeout_step v p"
  "last_timeout p (vs @ ws) = last_timeout (last_timeout p vs) ws"
  "last_mode m [] = m" "last_mode m [v] = snd (sdboot_parse_console_mode v m)"
  "last_mode m (vs @ ws) = last_mode (last_mode m vs) ws"
  "last_enroll e [] = e" "last_enroll e [v] = snd (sdboot_parse_secureboot_enroll v e)"
  "last_enroll e (vs @ ws) = last_enroll (last_enroll e vs) ws"
  by (simp_all add: last_timeout_def last_mode_def last_enroll_def)

definition menu_of :: "sdboot_boot_menu \<Rightarrow> (cstring \<times> cstring) list \<Rightarrow> sdboot_boot_menu" where
  "menu_of m kvs = m\<lparr>
     sm_default_entry := last_text (sm_default_entry m) (values_of ''default'' kvs),
     sm_timeout := fst (last_timeout (sm_timeout m, sm_disabled m) (values_of ''timeout'' kvs)),
     sm_disabled := snd (last_timeout (sm_timeout m, sm_disabled m) (values_of ''timeout'' kvs)),
     sm_console_mode := last_mode (sm_console_mode m) (values_of ''console-mode'' kvs),
     sm_editor := last_bool (sm_editor m) (values_of ''editor'' kvs),
     sm_auto_entries := last_bool (sm_auto_entries m) (values_of ''auto-entries'' kvs),
     sm_auto_firmware := last_bool (sm_auto_firmware m) (values_of ''auto-firmware'' kvs),
     sm_auto_reboot := last_bool (sm_auto_reboot m) (values_of ''auto-reboot'' kvs),
     sm_auto_poweroff := last_bool (sm_auto_poweroff m) (values_of ''auto-poweroff'' kvs),
     sm_beep := last_bool (sm_beep m) (values_of ''beep'' kvs),
     sm_secureboot_enroll := last_enroll (sm_secureboot_enroll m) (values_of ''secureboot-enroll'' kvs),
     sm_reboot_for_bitlocker := last_bool (sm_reboot_for_bitlocker m) (values_of ''reboot-for-bitlocker'' kvs)\<rparr>"

lemma menu_of_Nil [simp]: "menu_of m [] = m"
  by (simp add: menu_of_def)

lemma menu_of_append: "menu_of m (kvs @ kvs') = menu_of (menu_of m kvs) kvs'"
  by (simp add: menu_of_def)


lemma text_of_length: "length (text_of val) = length val \<longleftrightarrow> text_of val = val"
  unfolding text_of_def by (metis order_refl take_all takeWhile_eq_take)

lemma parse_timeout_step:
  assumes "sdboot_parse_timeout_status val (sm_timeout m) s = (st, v, s')" "val \<noteq> []"
  shows "step_ok st s s' ((v, if st = SDBOOT_PARSE_SUCCESS then is_case_word val ''menu-disabled'' else sm_disabled m)
     = timeout_step val (sm_timeout m, sm_disabled m))"
proof -
  define w where "w = map tolower val"
  note p = assms(1) [unfolded sdboot_parse_timeout_status_def key_iff, folded w_def]
  note ts = timeout_step_def [of val "(sm_timeout m, sm_disabled m)", folded w_def, unfolded Let_def]
  show ?thesis
  proof (cases "w \<in> {''menu-force'', ''menu-hidden'', ''menu-disabled''}")
    case True
    with p show ?thesis unfolding ts key_iff w_def [symmetric] by (auto intro!: step_ok_here)
  next
    case False
    obtain st1 v1 s1 where i: "sdboot_parse_int_status val (sm_timeout m) s = (st1, v1, s1)"
      by (cases "sdboot_parse_int_status val (sm_timeout m) s") auto
    then have r: "st = (if st1 = SDBOOT_PARSE_SUCCESS \<and> v1 < 0 then SDBOOT_PARSE_INVALID else st1)" "v = v1" "s' = s1"
      using p False by (auto split: if_splits)
    have w: "\<not> is_case_word val ''menu-disabled''" using False by (simp add: key_iff w_def)
    have st1: "step_ok st1 s s1 (st1 = (if timeout_number val = None then SDBOOT_PARSE_INVALID else SDBOOT_PARSE_SUCCESS)
        \<and> v1 = (case timeout_number val of None \<Rightarrow> sm_timeout m | Some n \<Rightarrow> n))"
      using i assms(2) by (auto simp: sdboot_parse_int_status_def strndup_def alloc_def Let_def
          timeout_number_def text_of_length step_ok_def split: if_splits)
    have "timeout_step val (sm_timeout m, sm_disabled m) = (case timeout_number val of
        None \<Rightarrow> (sm_timeout m, sm_disabled m)
      | Some n \<Rightarrow> if n < 0 then (n, sm_disabled m) else (n, False))"
      using False by (auto simp: ts split: option.splits)
    with st1 r w show ?thesis by (auto simp: step_ok_def split: option.splits if_splits)
  qed
qed

lemma menu_one_step:
  assumes "sdboot_boot_parse_menu_one m key val s = (st, m', s')" "val \<noteq> []"
  shows "step_ok st s s' (m' = menu_of m [(key, val)])"
proof -
  define k where "k = map tolower key"
  note one = assms(1) [unfolded sdboot_boot_parse_menu_one_def key_iff(1-11), folded k_def]
  note e = menu_of_def [of m "[(key, val)]", unfolded values_of_one, folded k_def]
  show ?thesis
  proof (cases "k \<in> {''default'', ''timeout'', ''console-mode'', ''editor'', ''auto-entries'', ''auto-firmware'',
         ''auto-reboot'', ''auto-poweroff'', ''beep'', ''secureboot-enroll'', ''reboot-for-bitlocker''}")
    case True
    then show ?thesis
    proof (elim insertE emptyE)
      assume k: "k = ''default''"
      obtain v where v: "sdboot_parse_string_status val (sm_default_entry m) s = (st, v, s')"
        "m' = m\<lparr>sm_default_entry := v\<rparr>"
        using one k by (auto split: prod.splits)
      from parse_string_step [OF v(1) assms(2)] v(2) show ?thesis
        by (auto simp: step_ok_def e k split: if_splits)
    next
      assume k: "k = ''timeout''"
      obtain v where v: "sdboot_parse_timeout_status val (sm_timeout m) s = (st, v, s')"
        "m' = m\<lparr>sm_timeout := v, sm_disabled :=
           if st = SDBOOT_PARSE_SUCCESS then is_case_word val ''menu-disabled'' else sm_disabled m\<rparr>"
        using one k by (cases "sdboot_parse_timeout_status val (sm_timeout m) s") (auto simp: Let_def split: if_splits)
      have "m' = menu_of m [(key, val)]"
        if "(v, if st = SDBOOT_PARSE_SUCCESS then is_case_word val ''menu-disabled'' else sm_disabled m)
          = timeout_step val (sm_timeout m, sm_disabled m)" (is "(v, ?d) = ?t")
      proof -
        have "fst ?t = v" "snd ?t = ?d" unfolding that [symmetric] by (rule prod.sel)+
        then show ?thesis unfolding v(2) e k by simp
      qed
      with parse_timeout_step [OF v(1) assms(2)] show ?thesis by (auto simp: step_ok_def split: if_splits)
    next
      assume k: "k = ''console-mode''"
      obtain ok v where v: "sdboot_parse_console_mode val (sm_console_mode m) = (ok, v)" by (cases "sdboot_parse_console_mode val (sm_console_mode m)")
      with one k have r: "st = ok_or_invalid ok" "m' = m\<lparr>sm_console_mode := v\<rparr>" "s' = s" by simp_all
      have "menu_of m [(key, val)] = m'" by (simp add: e k v r(2))
      with r show ?thesis by (auto intro!: step_ok_here simp: ok_or_invalid_def)
    next
      assume k: "k = ''editor''"
      obtain ok v where v: "sdboot_parse_bool val (sm_editor m) = (ok, v)" by (cases "sdboot_parse_bool val (sm_editor m)")
      with one k have r: "st = ok_or_invalid ok" "m' = m\<lparr>sm_editor := v\<rparr>" "s' = s" by simp_all
      have "menu_of m [(key, val)] = m'" by (simp add: e k v r(2))
      with r show ?thesis by (auto intro!: step_ok_here simp: ok_or_invalid_def)
    next
      assume k: "k = ''auto-entries''"
      obtain ok v where v: "sdboot_parse_bool val (sm_auto_entries m) = (ok, v)" by (cases "sdboot_parse_bool val (sm_auto_entries m)")
      with one k have r: "st = ok_or_invalid ok" "m' = m\<lparr>sm_auto_entries := v\<rparr>" "s' = s" by simp_all
      have "menu_of m [(key, val)] = m'" by (simp add: e k v r(2))
      with r show ?thesis by (auto intro!: step_ok_here simp: ok_or_invalid_def)
    next
      assume k: "k = ''auto-firmware''"
      obtain ok v where v: "sdboot_parse_bool val (sm_auto_firmware m) = (ok, v)" by (cases "sdboot_parse_bool val (sm_auto_firmware m)")
      with one k have r: "st = ok_or_invalid ok" "m' = m\<lparr>sm_auto_firmware := v\<rparr>" "s' = s" by simp_all
      have "menu_of m [(key, val)] = m'" by (simp add: e k v r(2))
      with r show ?thesis by (auto intro!: step_ok_here simp: ok_or_invalid_def)
    next
      assume k: "k = ''auto-reboot''"
      obtain ok v where v: "sdboot_parse_bool val (sm_auto_reboot m) = (ok, v)" by (cases "sdboot_parse_bool val (sm_auto_reboot m)")
      with one k have r: "st = ok_or_invalid ok" "m' = m\<lparr>sm_auto_reboot := v\<rparr>" "s' = s" by simp_all
      have "menu_of m [(key, val)] = m'" by (simp add: e k v r(2))
      with r show ?thesis by (auto intro!: step_ok_here simp: ok_or_invalid_def)
    next
      assume k: "k = ''auto-poweroff''"
      obtain ok v where v: "sdboot_parse_bool val (sm_auto_poweroff m) = (ok, v)" by (cases "sdboot_parse_bool val (sm_auto_poweroff m)")
      with one k have r: "st = ok_or_invalid ok" "m' = m\<lparr>sm_auto_poweroff := v\<rparr>" "s' = s" by simp_all
      have "menu_of m [(key, val)] = m'" by (simp add: e k v r(2))
      with r show ?thesis by (auto intro!: step_ok_here simp: ok_or_invalid_def)
    next
      assume k: "k = ''beep''"
      obtain ok v where v: "sdboot_parse_bool val (sm_beep m) = (ok, v)" by (cases "sdboot_parse_bool val (sm_beep m)")
      with one k have r: "st = ok_or_invalid ok" "m' = m\<lparr>sm_beep := v\<rparr>" "s' = s" by simp_all
      have "menu_of m [(key, val)] = m'" by (simp add: e k v r(2))
      with r show ?thesis by (auto intro!: step_ok_here simp: ok_or_invalid_def)
    next
      assume k: "k = ''secureboot-enroll''"
      obtain ok v where v: "sdboot_parse_secureboot_enroll val (sm_secureboot_enroll m) = (ok, v)" by (cases "sdboot_parse_secureboot_enroll val (sm_secureboot_enroll m)")
      with one k have r: "st = ok_or_invalid ok" "m' = m\<lparr>sm_secureboot_enroll := v\<rparr>" "s' = s" by simp_all
      have "menu_of m [(key, val)] = m'" by (simp add: e k v r(2))
      with r show ?thesis by (auto intro!: step_ok_here simp: ok_or_invalid_def)
    next
      assume k: "k = ''reboot-for-bitlocker''"
      obtain ok v where v: "sdboot_parse_bool val (sm_reboot_for_bitlocker m) = (ok, v)" by (cases "sdboot_parse_bool val (sm_reboot_for_bitlocker m)")
      with one k have r: "st = ok_or_invalid ok" "m' = m\<lparr>sm_reboot_for_bitlocker := v\<rparr>" "s' = s" by simp_all
      have "menu_of m [(key, val)] = m'" by (simp add: e k v r(2))
      with r show ?thesis by (auto intro!: step_ok_here simp: ok_or_invalid_def)
    qed
  next
    case False
    with one have r: "st = SDBOOT_PARSE_SUCCESS" "m' = m" "s' = s" by simp_all
    have "menu_of m [(key, val)] = m" using False by (simp add: e)
    with r show ?thesis by (auto intro!: step_ok_here)
  qed
qed


lemma menu_line_step:
  assumes "sdboot_boot_parse_line (Some line) (Some m, None) s = (st, tgt, s')"
  shows "step_ok st s s' (tgt = (Some (menu_of m (line_settings line)), None))"
proof (rule line_step [where mk = "\<lambda>m. (Some m, None)" and put = menu_of, OF menu_one_step menu_of_Nil _ assms])
  show "sdboot_boot_parse_line (Some line) (Some m, None) s = (if line = [] then (SDBOOT_PARSE_SUCCESS, (Some m, None), s)
      else case sdboot_split_line line of
        None \<Rightarrow> (SDBOOT_PARSE_INVALID, (Some m, None), s)
      | Some None \<Rightarrow> (SDBOOT_PARSE_SUCCESS, (Some m, None), s)
      | Some (Some (key, val)) \<Rightarrow> let (st, m, s) = sdboot_boot_parse_menu_one m key val s in (st, (Some m, None), s))"
    by (simp add: sdboot_boot_parse_line_def)
qed

lemma menu_content:
  assumes "sdboot_boot_parse_content_into content (Some m, None) s = (status, tgt, s')"
  shows "coom s' = coom s \<and> ctick s \<le> ctick s' \<and>
     (if status = EFI_OUT_OF_RESOURCES then \<exists>n. ctick s \<le> n \<and> n < ctick s' \<and> coom s n
      else tgt = (Some (menu_of m (settings content)), None) \<and> (status = EFI_SUCCESS \<or> status = EFI_LOAD_ERROR))"
  using content_loop_settings [of "\<lambda>m. (Some m, None)" menu_of content False m s status tgt s',
      OF menu_line_step menu_of_Nil menu_of_append assms [unfolded sdboot_boot_parse_content_into_def]] .

section \<open>Whole files\<close>

lemma EFI_ERROR_load [simp]: "EFI_ERROR EFI_LOAD_ERROR"
  by (simp add: EFI_ERROR_def efi_warnings_def)

lemma loader_file:
  "case sdboot_boot_parse_content (Some fname) (Some content) (None, Some l) s of (status, tgt, s') \<Rightarrow>
     if status = EFI_OUT_OF_RESOURCES then \<exists>n. ctick s \<le> n \<and> n < ctick s' \<and> coom s n
     else (status = EFI_SUCCESS \<or> status = EFI_LOAD_ERROR) \<and> tgt = (None, Some (entry_of l (settings content)))"
proof (cases "content = []")
  case True
  then show ?thesis by (simp add: sdboot_boot_parse_content_def settings_def content_lines.simps)
next
  case False
  obtain status tgt s' where r: "sdboot_boot_parse_content_into content (None, Some l) s = (status, tgt, s')"
    by (cases "sdboot_boot_parse_content_into content (None, Some l) s") auto
  from loader_content [OF r] r False show ?thesis
    by (auto simp: sdboot_boot_parse_content_def split: if_splits)
qed

text \<open>The menu is replaced as a whole or not touched.\<close>

lemma menu_file:
  "case sdboot_boot_parse_content (Some fname) (Some content) (Some m, None) s of (status, tgt, s') \<Rightarrow>
     (status = EFI_SUCCESS \<and> tgt = (Some (menu_of m (settings content)), None)) \<or>
     (status = EFI_LOAD_ERROR \<and> tgt = (Some m, None)) \<or>
     (status = EFI_OUT_OF_RESOURCES \<and> tgt = (Some m, None) \<and> (\<exists>n. ctick s \<le> n \<and> n < ctick s' \<and> coom s n))"
proof (cases "content = []")
  case True
  then show ?thesis by (simp add: sdboot_boot_parse_content_def)
next
  case False
  obtain ok s0 where a: "(if sm_default_entry m = None then (True, s) else alloc s) = (ok, s0)"
    by (cases "if sm_default_entry m = None then (True, s) else alloc s")
  then have s0: "coom s0 = coom s" "ctick s \<le> ctick s0" "\<not> ok \<Longrightarrow> coom s (ctick s) \<and> ctick s < ctick s0"
    by (auto simp: alloc_def split: if_splits)
  obtain status tgt s' where r: "sdboot_boot_parse_content_into content (Some m, None) s0 = (status, tgt, s')"
    by (cases "sdboot_boot_parse_content_into content (Some m, None) s0") auto
  have e: "sdboot_boot_parse_content (Some fname) (Some content) (Some m, None) s =
      (if \<not> ok then (EFI_OUT_OF_RESOURCES, (Some m, None), s0)
       else if EFI_ERROR status then (status, (Some m, None), s') else (EFI_SUCCESS, tgt, s'))"
    using False a r by (simp add: sdboot_boot_parse_content_def)
  have "\<exists>n. ctick s \<le> n \<and> n < ctick s' \<and> coom s n" if "\<exists>n. ctick s0 \<le> n \<and> n < ctick s' \<and> coom s0 n"
    using that s0 by (metis le_trans)
  with menu_content [OF r] s0 show ?thesis unfolding e by (auto split: if_splits)
qed

section \<open>Types of the stored values\<close>

definition opt_cstr :: "cstring option \<Rightarrow> bool" where
  "opt_cstr x = (case x of None \<Rightarrow> True | Some t \<Rightarrow> cstr t)"

definition loader_typed :: "sdboot_boot_loader \<Rightarrow> bool" where
  "loader_typed l \<longleftrightarrow> opt_cstr (sl_name l) \<and> opt_cstr (sl_title l) \<and> opt_cstr (sl_version l) \<and>
     opt_cstr (sl_machine_id l) \<and> opt_cstr (sl_sort_key l) \<and> opt_cstr (sl_kernel l) \<and>
     opt_cstr (sl_efi l) \<and> opt_cstr (sl_devicetree l) \<and> list_all cstr (sl_initramfs l) \<and>
     list_all cstr (sl_options l) \<and> list_all cstr (sl_dtoverlay l)"

definition menu_typed :: "sdboot_boot_menu \<Rightarrow> bool" where
  "menu_typed m \<longleftrightarrow> opt_cstr (sm_default_entry m) \<and>
     INT_MIN \<le> sm_timeout m \<and> sm_timeout m \<le> INT_MAX"

lemma cstr_text_of [simp]: "cstr (text_of v)"
  by (auto simp: cstr_def text_of_def dest: set_takeWhileD)

lemma last_text_cstr: "opt_cstr old \<Longrightarrow> opt_cstr (last_text old vs)"
  by (simp add: last_text_def opt_cstr_def)

lemma all_words_cstr: "list_all cstr ws \<Longrightarrow> list_all cstr (ws @ all_words vs)"
  by (auto simp: all_words_def list_all_iff)

lemma loader_typed_entry: "loader_typed l \<Longrightarrow> loader_typed (entry_of l kvs)"
  by (simp add: loader_typed_def entry_of_def last_text_cstr all_words_cstr del: list_all_append)

lemma timeout_step_range:
  "INT_MIN \<le> fst old \<and> fst old \<le> INT_MAX \<Longrightarrow>
   INT_MIN \<le> fst (timeout_step v old) \<and> fst (timeout_step v old) \<le> INT_MAX"
  by (auto simp: timeout_step_def Let_def timeout_number_def INT_MIN_def INT_MAX_def split: option.splits if_splits)

lemma last_timeout_range:
  "INT_MIN \<le> fst old \<and> fst old \<le> INT_MAX \<Longrightarrow>
   INT_MIN \<le> fst (last_timeout old vs) \<and> fst (last_timeout old vs) \<le> INT_MAX"
  unfolding last_timeout_def by (induction vs arbitrary: old) (simp_all add: timeout_step_range)

lemma menu_typed_menu_of:
  assumes "menu_typed m" shows "menu_typed (menu_of m kvs)"
proof -
  have "INT_MIN \<le> sm_timeout m \<and> sm_timeout m \<le> INT_MAX" "opt_cstr (sm_default_entry m)"
    using assms by (simp_all add: menu_typed_def)
  with last_timeout_range [of "(sm_timeout m, sm_disabled m)"] last_text_cstr [of "sm_default_entry m"]
  show ?thesis unfolding menu_typed_def menu_of_def by simp
qed

section \<open>Numbers as timeouts\<close>

lemma nat_dec_lead: "0 < n \<Longrightarrow> hd (nat_dec n) \<noteq> CHR ''0''"
proof (induction n rule: nat_dec.induct)
  case (1 n)
  show ?case
  proof (cases "n < 10")
    case True
    have "cval (digit_char n) \<noteq> 48" using True 1(2) by simp
    moreover have "cval (CHR ''0'') = 48" by (simp add: cval_def)
    ultimately have "digit_char n \<noteq> CHR ''0''" by metis
    with True show ?thesis by (simp add: nat_dec.simps [of n])
  next
    case False
    then have "0 < n div 10" by simp
    with 1(1) False show ?thesis by (simp add: nat_dec.simps [of n] hd_append)
  qed
qed

lemma scan_base_0_dec: "0 < n \<Longrightarrow> scan_base 0 (nat_dec n) = (10, nat_dec n)"
  using nat_dec_lead [of n] nat_dec_not_Nil [of n]
  by (cases "(0::nat, nat_dec n)" rule: scan_base.cases) auto

lemma strtoll_0_int_dec:
  assumes "INT_MIN \<le> v" "v \<le> INT_MAX" "v \<noteq> 0"
  shows "strtoll 0 (int_dec v) = \<lparr>sr_val = v, sr_end = [], sr_range = False\<rparr>"
proof -
  have dec: "takeWhile (\<lambda>c. dval c < 10) (nat_dec n) = nat_dec n" "dropWhile (\<lambda>c. dval c < 10) (nat_dec n) = []" for n
    using takeWhile_nat_dec [of "[]" n] by simp_all
  have "strto_scan 0 (int_dec v) = Some (v < 0, nat \<bar>v\<bar>, [])"
  proof (cases "v < 0")
    case True
    have "scan_sign (dropWhile isspace (CHR ''-'' # nat_dec (nat (- v)))) = (True, nat_dec (nat (- v)))"
      by (simp add: isspace_def cval_def)
    with True scan_base_0_dec [of "nat (- v)"] show ?thesis
      by (simp add: int_dec_def strto_scan_def dec nat_dec_value)
  next
    case False
    obtain c cs where c: "nat_dec (nat v) = c # cs" "isdigit c" by (rule nat_dec_Cons)
    then have "scan_sign (dropWhile isspace (nat_dec (nat v))) = (False, nat_dec (nat v))"
      by (simp only: dropWhile_isspace_digit scan_sign_digit)
    with False assms(3) scan_base_0_dec [of "nat v"] show ?thesis
      by (simp add: int_dec_def strto_scan_def dec nat_dec_value)
  qed
  with assms show ?thesis
    by (simp add: strtoll_def strto_clamp_def Let_def c_limits)
qed

lemma int_dec_plain:
  assumes "c \<in> set (int_dec v)"
  shows "isdigit c \<or> c = CHR ''-''"
  using assms nat_dec_digits by (auto simp: int_dec_def split: if_splits)

lemma text_of_int_dec [simp]: "text_of (int_dec v) = int_dec v"
proof -
  have "c \<noteq> NUL" if "c \<in> set (int_dec v)" for c
    using int_dec_plain [OF that] by (auto simp: isdigit_def)
  then show ?thesis unfolding text_of_def by (rule takeWhile_all)
qed

lemma int_dec_ne [simp]: "int_dec v \<noteq> []"
  by (simp add: int_dec_def)

lemma plain_value_int_dec: "plain_value (int_dec v)"
proof -
  have "\<not> isspace c \<and> c \<noteq> CHR ''#''" if "c \<in> set (int_dec v)" for c
    using int_dec_plain [OF that] by (auto simp: isdigit_def isspace_def cval_def)
  then show ?thesis unfolding plain_value_def by (metis hd_in_set int_dec_ne last_in_set)
qed

lemma timeout_number_int_dec:
  "INT_MIN \<le> v \<Longrightarrow> v \<le> INT_MAX \<Longrightarrow> v \<noteq> 0 \<Longrightarrow> timeout_number (int_dec v) = Some v"
  by (simp add: timeout_number_def strtoll_0_int_dec)

lemma negative_timeout_line:
  assumes "INT_MIN \<le> v" "v < 0" "\<not> coom s (ctick s)"
  shows "sdboot_boot_parse_line (Some (''timeout '' @ int_dec v)) (Some m, None) s =
     (SDBOOT_PARSE_INVALID, (Some (m\<lparr>sm_timeout := v\<rparr>), None), s\<lparr>ctick := Suc (ctick s)\<rparr>)"
proof -
  have k: "plain_key ''timeout''"
    by (simp add: plain_key_def isspace_def cval_def)
  have l: "sdboot_split_line (''timeout '' @ int_dec v) = Some (Some (''timeout'', int_dec v))"
    using split_line_shape [OF k plain_value_int_dec, of "[]" "'' ''" "[]" "[]" v]
    by (simp add: isspace_def cval_def)
  have hd: "hd (int_dec v) = CHR ''-''" using assms(2) by (simp add: int_dec_def)
  have w: "\<not> is_case_word (int_dec v) ''menu-force''" "\<not> is_case_word (int_dec v) ''menu-hidden''"
    "\<not> is_case_word (int_dec v) ''menu-disabled''"
  proof -
    have "hd (map tolower (int_dec v)) = CHR ''-''" using hd by (simp add: hd_map tolower_def isupper_def cval_def)
    then show "\<not> is_case_word (int_dec v) ''menu-force''" "\<not> is_case_word (int_dec v) ''menu-hidden''"
      "\<not> is_case_word (int_dec v) ''menu-disabled''" unfolding key_iff by auto
  qed
  have t: "sdboot_parse_timeout_status (int_dec v) (sm_timeout m) s = (SDBOOT_PARSE_INVALID, v, s\<lparr>ctick := Suc (ctick s)\<rparr>)"
    using assms w strtoll_0_int_dec [of v]
    by (simp add: sdboot_parse_timeout_status_def sdboot_parse_int_status_def strndup_def alloc_def c_limits)
  have o: "sdboot_boot_parse_menu_one m ''timeout'' (int_dec v) s =
      (SDBOOT_PARSE_INVALID, m\<lparr>sm_timeout := v\<rparr>, s\<lparr>ctick := Suc (ctick s)\<rparr>)"
    unfolding sdboot_boot_parse_menu_one_def key_iff(1-11) tolower_words t by simp
  show ?thesis using l o by (simp add: sdboot_boot_parse_line_def)
qed

end
