(* ===== verification/SdbootFolder.thy ===== *)
theory SdbootFolder
  imports SdbootFile SdbootFacts "HOL-Library.Sublist"
begin

text \<open>
  Loading the folder of entries: what holds of the entries that are kept, that the loop over a
  directory ends, and that every kept entry comes from a file of the directory, in its order.
\<close>

section \<open>The kept entries\<close>

definition entry_ok :: "embloader_arch \<Rightarrow> sdboot_boot_loader \<Rightarrow> bool" where
  "entry_ok arch l \<longleftrightarrow> sdboot_boot_loader_check (Some l) \<and> sl_arch l = arch \<and> loader_typed l"

text \<open>Addresses of entries are distinct and were given out before \<open>hi\<close>, none before \<open>lo\<close>.\<close>

definition sd_ok :: "embloader_arch \<Rightarrow> addr \<Rightarrow> addr \<Rightarrow> sdboot_menu \<Rightarrow> bool" where
  "sd_ok arch lo hi sd \<longleftrightarrow> menu_typed (sd_menu sd) \<and> distinct (map fst (sd_loaders sd)) \<and>
     (\<forall>(a, l) \<in> set (sd_loaders sd). lo \<le> a \<and> a < hi \<and> entry_ok arch l)"

lemma sd_ok_mono: "sd_ok arch lo hi sd \<Longrightarrow> hi \<le> hi' \<Longrightarrow> sd_ok arch lo hi' sd"
  by (auto simp: sd_ok_def)

lemma sd_ok_add:
  assumes "sd_ok arch lo hi sd" "lo \<le> hi" "entry_ok arch l"
  shows "sd_ok arch lo (Suc hi) (sd\<lparr>sd_loaders := sd_loaders sd @ [(hi, l)]\<rparr>)"
proof -
  have "hi \<notin> fst ` set (sd_loaders sd)" using assms(1) by (auto simp: sd_ok_def)
  with assms show ?thesis by (auto simp: sd_ok_def)
qed

lemma sd_ok_append:
  assumes "sd_ok arch lo mid sd" "sd_ok arch mid hi p" "lo \<le> mid" "mid \<le> hi"
  shows "sd_ok arch lo hi (sd\<lparr>sd_loaders := sd_loaders sd @ sd_loaders p\<rparr>)"
proof -
  have "fst ` set (sd_loaders sd) \<inter> fst ` set (sd_loaders p) = {}"
    using assms(1,2) by (fastforce simp: sd_ok_def)
  with assms show ?thesis by (fastforce simp: sd_ok_def)
qed

lemma sd_ok_init [simp]: "sd_ok arch lo hi sdboot_menu_init"
  by (simp add: sd_ok_def sdboot_menu_init_def sdboot_boot_menu_init_def zero_boot_menu_def menu_typed_def
      opt_cstr_def INT_MIN_def INT_MAX_def)

section \<open>One entry file\<close>

definition file_entry :: "embloader_arch \<Rightarrow> 'd sd_device \<Rightarrow> nat \<Rightarrow> cstring \<Rightarrow> cstring \<Rightarrow> sdboot_boot_loader" where
  "file_entry arch dev handle fname content =
     entry_of ((sdboot_boot_loader_init arch)\<lparr>sl_name := Some (entry_name fname), sl_root_handle := handle,
        sl_root := snd (dv_volume dev), sl_root_owned := True\<rparr>) (settings content)"

text \<open>The state moves on: the heap of the configuration and the addresses, no other field.\<close>

definition moved :: "embloader \<Rightarrow> embloader \<Rightarrow> bool" where
  "moved g g' \<longleftrightarrow> g_next g \<le> g_next g' \<and> g_config g' = g_config g \<and> g_sysinfo g' = g_sysinfo g \<and>
     g_ktype g' = g_ktype g \<and> g_device_name g' = g_device_name g \<and> g_profiles g' = g_profiles g \<and>
     g_menu g' = g_menu g \<and> g_sdboot g' = g_sdboot g"

lemma moved_refl [simp]: "moved g g" "moved g (g\<lparr>g_cs := s\<rparr>)" "moved g (g\<lparr>g_next := Suc (g_next g)\<rparr>)"
  by (simp_all add: moved_def)

lemma moved_trans [trans]: "moved g g' \<Longrightarrow> moved g' g'' \<Longrightarrow> moved g g''"
  by (simp add: moved_def)

lemma moved_next: "moved g g' \<Longrightarrow> g_next g \<le> g_next g'"
  by (simp add: moved_def)

lemma galloc_moved: "galloc g = (ok, g') \<Longrightarrow> moved g g' \<and> g_next g' = g_next g"
  by (auto simp: galloc_def alloc_def)

lemma gstrdup_moved: "gstrdup x g = (y, g') \<Longrightarrow> moved g g' \<and> g_next g' = g_next g \<and> (y = None \<or> y = x)"
  by (auto simp: gstrdup_def dest: galloc_moved split: option.splits prod.splits if_splits)

lemma strrchr_suffix: "strrchr s c = Some p \<Longrightarrow> p \<noteq> [] \<and> (\<exists>w. s = w @ p)"
proof (induction s arbitrary: p)
  case (Cons x s)
  then show ?case
  proof (cases "strrchr s c")
    case (Some r)
    with Cons obtain w where "s = w @ p" "p \<noteq> []" by auto
    then show ?thesis by (auto intro: exI [of _ "x # w"])
  qed (auto split: if_splits)
qed simp

lemma entry_name_cstr: "cstr fname \<Longrightarrow> cstr (entry_name fname)"
proof -
  assume c: "cstr fname"
  have tl: "cstr (tl p)" if "strrchr fname x = Some p" for x p
    using strrchr_suffix [OF that] c by (cases p) (auto simp: cstr_def)
  have "cstr (take n w)" if "cstr w" for n w using that by (auto simp: cstr_def dest: in_set_takeD)
  with c tl show ?thesis by (auto simp: entry_name_def Let_def split: option.splits)
qed

lemma entry_loader_result:
  assumes "entry_loader arch dev handle fname g = (r, g')"
  shows "moved g g' \<and> g_next g' = g_next g \<and>
     (r = Inr l \<longrightarrow> l = (sdboot_boot_loader_init arch)\<lparr>sl_name := Some (entry_name fname), sl_root_handle := handle,
        sl_root := snd (dv_volume dev), sl_root_owned := True\<rparr>) \<and> (\<forall>st. r = Inl st \<longrightarrow> EFI_ERROR st)"
  using assms
  by (auto simp: entry_loader_def Let_def EFI_ERROR_def efi_warnings_def dest!: galloc_moved gstrdup_moved intro: moved_trans
      split: prod.splits if_splits)

lemma on_parse_moved: "on_parse fname content target g = (r, g') \<Longrightarrow> moved g g' \<and> g_next g' = g_next g"
  by (auto simp: on_parse_def split: prod.splits)

lemma EFI_errors [simp]: "\<not> EFI_ERROR EFI_SUCCESS" "EFI_ERROR EFI_LOAD_ERROR" "EFI_ERROR EFI_OUT_OF_RESOURCES"
  "EFI_ERROR EFI_INVALID_PARAMETER" "EFI_ERROR EFI_DEVICE_ERROR" "EFI_ERROR EFI_NOT_FOUND"
  by (simp_all add: EFI_ERROR_def efi_warnings_def)

text \<open>The menu file: the menu is what the file says, or as it was.\<close>

lemma load_menu_file:
  assumes "sdboot_boot_load_file arch dev files handle menu fname False g = ((st, menu'), g')"
    and "sd_ok arch lo hi menu"
  shows "moved g g' \<and> g_next g' = g_next g \<and> sd_ok arch lo hi menu' \<and> sd_loaders menu' = sd_loaders menu"
proof -
  obtain opened got content where f: "files fname = (opened, got, content)" by (cases "files fname")
  show ?thesis
  proof (cases "EFI_ERROR opened \<or> EFI_ERROR got \<or> content = None")
    case True
    with assms f show ?thesis
      by (auto simp: sdboot_boot_load_file_def on_parse_def sdboot_boot_parse_content_def split: if_splits)
  next
    case False
    then obtain c where c: "content = Some c" by blast
    obtain status tgt s where p: "sdboot_boot_parse_content (Some fname) (Some c) (Some (sd_menu menu), None) (g_cs g) = (status, tgt, s)"
      by (cases "sdboot_boot_parse_content (Some fname) (Some c) (Some (sd_menu menu), None) (g_cs g)") auto
    have t: "menu_typed (menu_of (sd_menu menu) (settings c))"
      using assms(2) menu_typed_menu_of by (simp add: sd_ok_def)
    have "(st, menu') = (if EFI_ERROR status then (status, menu)
        else (EFI_SUCCESS, case fst tgt of None \<Rightarrow> menu | Some m \<Rightarrow> menu\<lparr>sd_menu := m\<rparr>)) \<and> g' = g\<lparr>g_cs := s\<rparr>"
      using assms(1) f False c p by (auto simp: sdboot_boot_load_file_def on_parse_def split: if_splits)
    moreover have "EFI_ERROR status \<or> tgt = (Some (menu_of (sd_menu menu) (settings c)), None)"
      using menu_file [where fname = fname and content = c and m = "sd_menu menu" and s = "g_cs g"] unfolding p
      by auto
    ultimately show ?thesis using assms(2) t by (auto simp: sd_ok_def split: if_splits)
  qed
qed

text \<open>An entry file: one entry more, the one the file denotes, or the menu as it was.\<close>

lemma load_entry_file:
  assumes "sdboot_boot_load_file arch dev files handle menu fname True g = ((st, menu'), g')"
    and "cstr fname" "sd_ok arch lo (g_next g) menu" "lo \<le> g_next g"
  shows "moved g g' \<and> sd_ok arch lo (g_next g') menu' \<and>
     (menu' = menu \<or> \<not> EFI_ERROR st \<and> (\<exists>a content. snd (snd (files fname)) = Some content \<and>
        entry_ok arch (file_entry arch dev handle fname content) \<and>
        menu' = menu\<lparr>sd_loaders := sd_loaders menu @ [(a, file_entry arch dev handle fname content)]\<rparr>))"
proof -
  obtain opened got content where f: "files fname = (opened, got, content)" by (cases "files fname")
  obtain r g1 where e: "entry_loader arch dev handle fname g = (r, g1)" by (cases "entry_loader arch dev handle fname g")
  from entry_loader_result [OF e] have m1: "moved g g1" "g_next g1 = g_next g" by auto
  note ok1 = sd_ok_mono [OF assms(3), of "g_next g1"]
  show ?thesis
  proof (cases "EFI_ERROR opened \<or> EFI_ERROR got \<or> isl r")
    case True
    with assms f e m1 show ?thesis by (auto simp: sdboot_boot_load_file_def split: sum.splits if_splits)
  next
    case False
    then obtain l where l: "r = Inr l" by (cases r) auto
    obtain status tgt g2 where p: "on_parse fname content (None, Some l) g1 = ((status, tgt), g2)"
      by (cases "on_parse fname content (None, Some l) g1") auto
    note m2 = on_parse_moved [OF p]
    have m12: "moved g g2" "g_next g2 = g_next g" using m1 m2 by (auto intro: moved_trans)
    obtain cell g3 where c: "galloc g2 = (cell, g3)" by (cases "galloc g2")
    note m3 = galloc_moved [OF c]
    have m13: "moved g g3" "g_next g3 = g_next g" using m12 m3 by (auto intro: moved_trans)
    have "sdboot_boot_load_file arch dev files handle menu fname True g =
       (if EFI_ERROR status then ((status, menu), g2)
        else if \<not> sdboot_boot_loader_check (snd tgt) then ((EFI_LOAD_ERROR, menu), g2)
        else case snd tgt of None \<Rightarrow> ((EFI_LOAD_ERROR, menu), g2)
          | Some l \<Rightarrow> if sl_arch l \<noteq> arch then ((EFI_SUCCESS, menu), g2)
              else if \<not> cell then ((EFI_OUT_OF_RESOURCES, menu), g3)
              else ((EFI_SUCCESS, menu\<lparr>sd_loaders := sd_loaders menu @ [(g_next g3, l)]\<rparr>),
                    g3\<lparr>g_next := Suc (g_next g3)\<rparr>))"
      using f False l e p c by (cases "snd tgt") (simp_all add: sdboot_boot_load_file_def)
    note run = this [unfolded assms(1)]
    show ?thesis
    proof (cases "\<not> EFI_ERROR status \<and> (\<exists>l. snd tgt = Some l \<and> sdboot_boot_loader_check (Some l) \<and> sl_arch l = arch \<and> cell)")
      case False
      with run assms(3) m12 m13 show ?thesis by (auto split: option.splits if_splits)
    next
      case True
      then obtain l' where l': "snd tgt = Some l'" "sdboot_boot_loader_check (Some l')" "sl_arch l' = arch" "cell"
        "\<not> EFI_ERROR status" by blast
      have cs: "\<exists>cs. content = Some cs"
        using p l'(5) by (cases content) (auto simp: on_parse_def sdboot_boot_parse_content_def)
      then obtain cs where cs: "content = Some cs" by blast
      have "tgt = (None, Some (entry_of l (settings cs)))"
        using loader_file [where fname = fname and content = cs and l = l and s = "g_cs g1"] p cs l'(5) by (auto simp: on_parse_def split: prod.splits if_splits)
      with l' entry_loader_result [OF e, of l] l have "l' = file_entry arch dev handle fname cs"
        by (simp add: file_entry_def)
      note l'' = l'(1-4) [unfolded this]
      have base: "loader_typed l"
        using entry_loader_result [OF e, of l] l entry_name_cstr [OF assms(2)]
        by (simp add: loader_typed_def opt_cstr_def sdboot_boot_loader_init_def zero_boot_loader_def)
      then have ok: "entry_ok arch (file_entry arch dev handle fname cs)"
        using l'' loader_typed_entry [OF base] entry_loader_result [OF e, of l] l by (simp add: entry_ok_def file_entry_def)
      have "st = EFI_SUCCESS" "menu' = menu\<lparr>sd_loaders := sd_loaders menu @ [(g_next g, file_entry arch dev handle fname cs)]\<rparr>"
        "g' = g3\<lparr>g_next := Suc (g_next g3)\<rparr>"
        using run l'(5) l'' m13 by auto
      with ok cs f m13 sd_ok_add [OF assms(3,4) ok] moved_trans [OF m13(1) moved_refl(3)]
      show ?thesis by auto
    qed
  qed
qed

section \<open>The loop over a directory\<close>

text \<open>
  The protocol of \<open>EFI_FILE_PROTOCOL.Read\<close> on a directory: while entries are left, a buffer that is
  too small is refused with the size needed and the position stays, a large enough one receives the
  next entry; at the end the size is zero.
\<close>

fun serves :: "'d dir_read \<Rightarrow> 'd \<Rightarrow> file_info list \<Rightarrow> bool" where
  "serves rd d [] \<longleftrightarrow> (\<forall>n. \<exists>i d'. rd d n = ((EFI_SUCCESS, 0, i), d'))"
| "serves rd d (x # xs) \<longleftrightarrow> (\<exists>need d'. sdboot_file_info_name_is_valid x need \<and> serves rd d' xs \<and>
     (\<forall>n. if n < need then \<exists>i. rd d n = ((EFI_BUFFER_TOO_SMALL, need, i), d)
          else rd d n = ((EFI_SUCCESS, need, x), d')))"

text \<open>The entry a directory entry gives.\<close>

definition yields :: "embloader_arch \<Rightarrow> 'd sd_device \<Rightarrow> nat \<Rightarrow> file_info \<Rightarrow> sdboot_boot_loader \<Rightarrow> bool" where
  "yields arch dev handle info l \<longleftrightarrow> (\<exists>bs content.
     encode_utf16_to_utf8 False (Some (takeWhile (\<lambda>u. u \<noteq> 0) (fi_units info))) = Some bs \<and>
     \<not> fi_directory info \<and> fi_unit info 0 \<noteq> 0x2E \<and>
     endwithsi (Some (name_text bs)) (length (name_text bs)) (Some ''.conf'') \<and>
     snd (snd (dv_entries dev (name_text bs))) = Some content \<and>
     l = file_entry arch dev handle (name_text bs) content \<and> entry_ok arch l)"

lemma name_text_cstr: "encode_utf16_to_utf8 oom (Some us) = Some bs \<Longrightarrow> cstr (name_text bs)"
proof -
  assume "encode_utf16_to_utf8 oom (Some us) = Some bs"
  then obtain cs where "bs = takeWhile (\<lambda>b. b \<noteq> 0) cs"
    by (auto simp: encode_utf16_to_utf8_def split: prod.splits if_splits)
  then have nz: "b \<noteq> 0" if "b \<in> set bs" for b using that by (auto dest: set_takeWhileD)
  have "char_of (unat b) \<noteq> NUL" if "b \<noteq> 0" for b :: "8 word"
  proof
    assume "char_of (unat b) = NUL"
    then have "of_char (char_of (unat b) :: char) = (0 :: nat)" by simp
    then have "unat b mod 256 = 0" by simp
    moreover have "unat b < 256" using unsigned_less [of b] by simp
    ultimately show False using that by (simp add: unat_eq_0)
  qed
  with nz show ?thesis unfolding cstr_def name_text_def by (metis (no_types, lifting) imageE set_map)
qed

lemma folder_entry_step:
  assumes "folder_entry arch dev handle info p g = ((st, loaded, p'), g')"
    and "sd_ok arch lo (g_next g) p" "lo \<le> g_next g"
  shows "moved g g' \<and> sd_ok arch lo (g_next g') p' \<and> (p' = p \<or> (\<exists>a l. yields arch dev handle info l \<and>
     p' = p\<lparr>sd_loaders := sd_loaders p @ [(a, l)]\<rparr>))"
proof (cases "fi_unit info 0 = 0 \<or> fi_unit info 0 = 0x2E \<or> fi_directory info")
  case True
  with assms show ?thesis by (auto simp: folder_entry_def split: if_splits)
next
  case False
  obtain ok g1 where a: "galloc g = (ok, g1)" by (cases "galloc g")
  note m1 = galloc_moved [OF a]
  show ?thesis
  proof (cases "encode_utf16_to_utf8 (\<not> ok) (Some (takeWhile (\<lambda>u. u \<noteq> 0) (fi_units info)))")
    case None
    with assms False a m1 show ?thesis by (auto simp: folder_entry_def)
  next
    case (Some bs)
    then have ok: "ok" by (auto simp: encode_utf16_to_utf8_def split: if_splits)
    show ?thesis
    proof (cases "endwithsi (Some (name_text bs)) (length (name_text bs)) (Some ''.conf'')")
      case False
      with assms \<open>\<not> (_ \<or> _)\<close> a m1 Some show ?thesis by (auto simp: folder_entry_def)
    next
      case True
      obtain st1 p1 g2 where f: "sdboot_boot_load_file arch dev (dv_entries dev) handle p (name_text bs) True g1 = ((st1, p1), g2)"
        by (cases "sdboot_boot_load_file arch dev (dv_entries dev) handle p (name_text bs) True g1") auto
      have o: "sd_ok arch lo (g_next g1) p" "lo \<le> g_next g1" using assms(2,3) m1 by simp_all
      note r = load_entry_file [OF f name_text_cstr [OF Some] o]
      have "p' = p1" "g' = g2"
        using assms(1) False a Some True f by (auto simp: folder_entry_def split: if_splits)
      moreover have "moved g g2" using r m1 by (auto intro: moved_trans)
      ultimately show ?thesis using r True False Some ok by (auto simp: yields_def)
    qed
  qed
qed

lemma folder_loop_serves:
  assumes "serves (dv_read dev) d infos" "sd_ok arch lo (g_next g) p" "lo \<le> g_next g"
  shows "\<exists>st have' p' g'. folder_loop arch dev handle d n have p g = Some ((st, have', p'), g') \<and>
     moved g g' \<and> sd_ok arch lo (g_next g') p' \<and>
     (\<exists>used new. subseq used infos \<and> list_all2 (yields arch dev handle) used (map snd new) \<and>
        p' = p\<lparr>sd_loaders := sd_loaders p @ new\<rparr>)"
  using assms
proof (induction infos arbitrary: d n "have" p g)
  case Nil
  from Nil.prems(1) have "\<exists>i d'. dv_read dev d n = ((EFI_SUCCESS, 0, i), d')" by simp
  then have "folder_loop arch dev handle d n have p g = Some ((EFI_SUCCESS, have, p), g)"
    by (subst folder_loop.simps) auto
  moreover have "p = p\<lparr>sd_loaders := sd_loaders p @ []\<rparr>" by simp
  ultimately show ?case using Nil by (metis list.rel_inject(1) list.simps(8) list_all2_Nil list_emb_Nil moved_refl(1))
next
  case (Cons x infos)
  then obtain need d' where v: "sdboot_file_info_name_is_valid x need" "serves (dv_read dev) d' infos"
    "\<And>n. if n < need then \<exists>i. dv_read dev d n = ((EFI_BUFFER_TOO_SMALL, need, i), d)
          else dv_read dev d n = ((EFI_SUCCESS, need, x), d')" by auto
  have nz: "need \<noteq> 0" using v(1) by (auto simp: sdboot_file_info_name_is_valid_def split: if_splits)
  let ?goal = "\<lambda>g0 n g. \<exists>st have' p' g'. folder_loop arch dev handle d n have p g = Some ((st, have', p'), g') \<and>
     moved g0 g' \<and> sd_ok arch lo (g_next g') p' \<and>
     (\<exists>used new. subseq used (x # infos) \<and> list_all2 (yields arch dev handle) used (map snd new) \<and>
        p' = p\<lparr>sd_loaders := sd_loaders p @ new\<rparr>)"
  have big: "?goal g n g" if n: "\<not> n < need" and o: "sd_ok arch lo (g_next g) p" "lo \<le> g_next g" for n g
  proof -
    have rd: "dv_read dev d n = ((EFI_SUCCESS, need, x), d')" using v(3) [of n] n by simp
    obtain st loaded p1 g1 where e: "folder_entry arch dev handle x p g = ((st, loaded, p1), g1)"
      by (cases "folder_entry arch dev handle x p g") auto
    note s = folder_entry_step [OF e o]
    then obtain one used1 where one: "p1 = p\<lparr>sd_loaders := sd_loaders p @ one\<rparr>"
      "list_all2 (yields arch dev handle) used1 (map snd one)" "used1 = [] \<or> used1 = [x]"
    proof (elim conjE disjE exE)
      assume "p1 = p"
      then show thesis by (intro that [of "[]" "[]"]) simp_all
    next
      fix a l assume "yields arch dev handle x l" "p1 = p\<lparr>sd_loaders := sd_loaders p @ [(a, l)]\<rparr>"
      then show thesis by (intro that [of "[(a, l)]" "[x]"]) simp_all
    qed
    show ?thesis
    proof (cases "EFI_ERROR st")
      case True
      then have "folder_loop arch dev handle d n have p g = Some ((st, have, p1), g1)"
        using rd n nz v(1) e by (subst folder_loop.simps) simp
      moreover have "subseq used1 (x # infos)" using one(3) by auto
      ultimately show ?thesis using s one by blast
    next
      case False
      have run: "folder_loop arch dev handle d n have p g = folder_loop arch dev handle d' n (have \<or> loaded) p1 g1"
        using rd n nz v(1) e False by (subst folder_loop.simps) simp
      have "lo \<le> g_next g1" using s o moved_next [of g g1] by simp
      from Cons.IH [OF v(2) _ this, of p1 n "have \<or> loaded"] s obtain st' have' p' g' used new where
        r: "folder_loop arch dev handle d' n (have \<or> loaded) p1 g1 = Some ((st', have', p'), g')" "moved g1 g'"
        "sd_ok arch lo (g_next g') p'" "subseq used infos" "list_all2 (yields arch dev handle) used (map snd new)"
        "p' = p1\<lparr>sd_loaders := sd_loaders p1 @ new\<rparr>" by blast
      have "p' = p\<lparr>sd_loaders := sd_loaders p @ (one @ new)\<rparr>" using r(6) one(1) by simp
      moreover have "subseq (used1 @ used) (x # infos)" using one(3) r(4) by auto
      moreover have "list_all2 (yields arch dev handle) (used1 @ used) (map snd (one @ new))"
        using one(2) r(5) by (simp add: list_all2_appendI)
      ultimately have ex: "\<exists>used new. subseq used (x # infos) \<and> list_all2 (yields arch dev handle) used (map snd new) \<and>
          p' = p\<lparr>sd_loaders := sd_loaders p @ new\<rparr>" by blast
      have "moved g g'" using s r(2) by (blast intro: moved_trans)
      with ex r(1,3) show ?thesis unfolding run by blast
    qed
  qed
  show ?case
  proof (cases "n < need")
    case False
    from big [OF this Cons.prems(2,3)] show ?thesis .
  next
    case True
    then obtain i where rd: "dv_read dev d n = ((EFI_BUFFER_TOO_SMALL, need, i), d)" using v(3) [of n] by auto
    obtain ok g1 where a: "galloc g = (ok, g1)" by (cases "galloc g")
    note m1 = galloc_moved [OF a]
    show ?thesis
    proof (cases ok)
      case ok: False
      then have "folder_loop arch dev handle d n have p g = Some ((EFI_OUT_OF_RESOURCES, have, p), g1)"
        using rd True a by (subst folder_loop.simps) simp
      moreover have "p = p\<lparr>sd_loaders := sd_loaders p @ []\<rparr>" by simp
      moreover have "subseq [] (x # infos)" "list_all2 (yields arch dev handle) [] (map snd [])" by simp_all
      ultimately show ?thesis using m1 Cons.prems(2) by metis
    next
      case ok: True
      then have run: "folder_loop arch dev handle d n have p g = folder_loop arch dev handle d need have p g1"
        using rd True a by (subst folder_loop.simps) simp
      have o: "sd_ok arch lo (g_next g1) p" "lo \<le> g_next g1" using Cons.prems m1 by simp_all
      from big [of need, OF _ o] m1 show ?thesis unfolding run by (meson less_irrefl moved_trans)
    qed
  qed
qed

section \<open>The folder and the root of a device\<close>

lemma entries_folder_serves:
  assumes "dv_folder dev = (EFI_SUCCESS, Some d)" "serves (dv_read dev) d infos"
    and "sd_ok arch lo (g_next g) menu" "lo \<le> g_next g"
  shows "\<exists>st menu' g'. sdboot_boot_load_entries_folder arch dev handle menu g = Some ((st, menu'), g') \<and>
     moved g g' \<and> sd_ok arch lo (g_next g') menu' \<and>
     (if EFI_ERROR st then menu' = menu
      else \<exists>used new. subseq used infos \<and> list_all2 (yields arch dev handle) used (map snd new) \<and>
        menu' = menu\<lparr>sd_loaders := sd_loaders menu @ new\<rparr>)"
proof -
  from folder_loop_serves [OF assms(2) sd_ok_init order_refl, where g = g and arch = arch and handle = handle and n = 0] obtain st hs p' g' used new where
    r: "folder_loop arch dev handle d 0 False sdboot_menu_init g = Some ((st, hs, p'), g')" "moved g g'"
    "sd_ok arch (g_next g) (g_next g') p'" "subseq used infos" "list_all2 (yields arch dev handle) used (map snd new)"
    "p' = sdboot_menu_init\<lparr>sd_loaders := sd_loaders sdboot_menu_init @ new\<rparr>" by blast
  let ?menu = "menu\<lparr>sd_loaders := sd_loaders menu @ sd_loaders p'\<rparr>"
  have run: "sdboot_boot_load_entries_folder arch dev handle menu g =
      Some (if EFI_ERROR st then ((st, menu), g') else if \<not> hs then ((EFI_NOT_FOUND, menu), g')
            else ((EFI_SUCCESS, ?menu), g'))"
    using assms(1) r(1) by (simp add: sdboot_boot_load_entries_folder_def)
  have new: "sd_loaders p' = new" using r(6) by (simp add: sdboot_menu_init_def)
  have n: "g_next g \<le> g_next g'" by (rule moved_next [OF r(2)])
  have "sd_ok arch lo (g_next g') ?menu" by (rule sd_ok_append [OF assms(3) r(3) assms(4) n])
  moreover have "sd_ok arch lo (g_next g') menu" by (rule sd_ok_mono [OF assms(3) n])
  ultimately show ?thesis unfolding run using r(2,4,5) new by auto
qed

end
