(* ===== verification/MenuFacts.thy ===== *)
theory MenuFacts
  imports Menu ConfigReads ConfigLookup
begin

text \<open>
  The fallback after a failed boot. Without rescue entries it walks down the menu and ends; with a
  rescue entry in front of its entry it never ends.
\<close>

section \<open>Reading a flag of the configuration\<close>

definition good_config :: "embloader \<Rightarrow> atree \<Rightarrow> bool" where
  "good_config g t \<longleftrightarrow> g_config g = Some (at_addr t) \<and> holds (nodes (g_cs g)) None t \<and> twf t \<and> no_oom (g_cs g)"

lemma good_config_reads:
  "good_config g t \<Longrightarrow> reads_only (g_cs g) s \<Longrightarrow> good_config (g\<lparr>g_cs := s\<rparr>) t"
  using reads_only_nodes [of "g_cs g" s] by (simp add: good_config_def no_oom_def)

lemma get_bool_total: "twf t \<Longrightarrow> holds (nodes s) par t \<Longrightarrow> \<exists>r. confignode_value_get_bool (Some (at_addr t)) def s = Some r"
  by (cases t) (auto simp: confignode_value_get_bool_def node_at_def)

lemma kid_ok: "k \<in> set (at_kids t) \<Longrightarrow> holds N par t \<Longrightarrow> twf t \<Longrightarrow> holds N (Some (at_addr t)) k \<and> twf k"
  by (cases t) auto

lemma tree_at_sub:
  "tree_at t cs = Some u \<Longrightarrow> holds N par t \<Longrightarrow> twf t \<Longrightarrow> \<exists>p. holds N p u \<and> twf u"
proof (induction t cs arbitrary: par u rule: tree_at.induct)
  case (2 t k cs)
  then obtain d where d: "find (\<lambda>d. at_key d = Some k) (at_kids t) = Some d" "tree_at d cs = Some u" "cn_type (at_node t) = TYPE_MAP"
    by (auto split: if_splits option.splits)
  then have "d \<in> set (at_kids t)" by (auto simp: find_Some_iff)
  from kid_ok [OF this "2.prems"(2,3)] "2.IH" [OF d(3,1,2)] show ?case by blast
next
  case (3 t i cs)
  then have d: "cn_type (at_node t) = TYPE_ARRAY \<and> i < length (at_kids t)" "tree_at (at_kids t ! i) cs = Some u"
    by (auto split: if_splits)
  then have "at_kids t ! i \<in> set (at_kids t)" by simp
  from kid_ok [OF this "3.prems"(2,3)] "3.IH" [OF d] show ?case by blast
qed auto

text \<open>The value of a flag: what the node at the path says, or the default.\<close>

definition flag_at :: "atree \<Rightarrow> pcomp list \<Rightarrow> bool \<Rightarrow> cstate \<Rightarrow> bool" where
  "flag_at t cs def s =
     (case tree_at t cs of
        None \<Rightarrow> def
      | Some u \<Rightarrow> fst (the (confignode_value_get_bool (Some (at_addr u)) def s)))"

lemma gget_bool_tree:
  assumes "good_config g t" "\<forall>c \<in> set cs. good_comp c"
  shows "\<exists>s r. gget_bool (g_config g) (path_text cs) def g = Some (r, g\<lparr>g_cs := s\<rparr>) \<and> reads_only (g_cs g) s \<and>
     r = flag_at t cs def (g_cs g)"
proof -
  have t: "g_config g = Some (at_addr t)" "holds (nodes (g_cs g)) None t" "twf t" "no_oom (g_cs g)"
    using assms(1) by (simp_all add: good_config_def)
  obtain s where s: "confignode_path_lookup (Some (at_addr t)) (Some (path_text cs)) False (g_cs g) =
      Some (map_option at_addr (tree_at t cs), s)"
    using path_lookup_tree [OF t(2,3) assms(2) t(4)] by (auto simp: confignode_path_lookup_def)
  note ro = confignode_path_lookup_reads [OF s]
  show ?thesis
  proof (cases "tree_at t cs")
    case None
    with s ro t(1) show ?thesis
      by (auto simp: gget_bool_def on_cs_def confignode_path_get_bool_def flag_at_def)
  next
    case (Some u)
    from tree_at_sub [OF Some t(2,3)] obtain p where u: "holds (nodes (g_cs g)) p u" "twf u" by blast
    have n: "nodes s = nodes (g_cs g)" using reads_only_nodes [OF ro] by simp
    obtain r where r: "confignode_value_get_bool (Some (at_addr u)) def (g_cs g) = Some r"
      using get_bool_total [OF u(2,1)] by blast
    have "confignode_value_get_bool (Some (at_addr u)) def s = Some r"
      using r n by (simp add: confignode_value_get_bool_def node_at_def)
    with s ro t(1) Some r show ?thesis
      by (cases r) (auto simp: gget_bool_def on_cs_def confignode_path_get_bool_def flag_at_def)
  qed
qed

section \<open>The next entry\<close>

definition rescue_name :: "cstring \<Rightarrow> bool" where
  "rescue_name n \<longleftrightarrow> (\<exists>p. map tolower n = p @ ''-rescue'')"

definition no_rescue :: "entry list \<Rightarrow> bool" where
  "no_rescue es \<longleftrightarrow> (\<forall>e \<in> set es. \<forall>n. ll_name (snd e) = Some n \<longrightarrow> \<not> rescue_name n)"

definition menu_cstrings :: "entry list \<Rightarrow> bool" where
  "menu_cstrings es \<longleftrightarrow> (\<forall>e \<in> set es. \<forall>n. ll_name (snd e) = Some n \<longrightarrow> cstr n)"

text \<open>What lies behind the entry with an address.\<close>

definition behind :: "addr \<Rightarrow> entry list \<Rightarrow> entry list" where
  "behind a es = tl (dropWhile (\<lambda>e. fst e \<noteq> a) es)"

lemma next_complete_found: "next_complete a True es = find (\<lambda>e. ll_complete (snd e)) es"
  by (induction es) auto

lemma next_complete_behind: "next_complete a False es = find (\<lambda>e. ll_complete (snd e)) (behind a es)"
  by (induction es) (auto simp: next_complete_found behind_def)

lemma behind_shorter:
  assumes "distinct (map fst es)" "find P (behind a es) = Some e"
  shows "length (behind (fst e) es) < length (behind a es)"
proof -
  obtain us x vs where es: "es = us @ x # vs" "\<forall>u \<in> set us. fst u \<noteq> a" "fst x = a" "behind a es = vs"
  proof (cases "dropWhile (\<lambda>e. fst e \<noteq> a) es")
    case Nil
    with assms(2) show ?thesis by (simp add: behind_def)
  next
    case (Cons x vs)
    show ?thesis
    proof (rule that [of "takeWhile (\<lambda>e. fst e \<noteq> a) es" x vs])
      show "es = takeWhile (\<lambda>e. fst e \<noteq> a) es @ x # vs"
        using takeWhile_dropWhile_id [of "\<lambda>e. fst e \<noteq> a" es] Cons by simp
      show "\<forall>u \<in> set (takeWhile (\<lambda>e. fst e \<noteq> a) es). fst u \<noteq> a" by (blast dest: set_takeWhileD)
      show "fst x = a" using hd_dropWhile_not [OF Cons] by simp
      show "behind a es = vs" by (simp add: behind_def Cons)
    qed
  qed
  obtain ws zs where vs: "vs = ws @ e # zs" using assms(2) es(4) by (auto simp: find_Some_iff in_set_conv_decomp)
    (metis id_take_nth_drop)
  have "distinct (map fst ((us @ x # ws) @ e # zs))" using assms(1) es(1) vs by simp
  then have dj: "set (map fst (us @ x # ws)) \<inter> set (map fst (e # zs)) = {}"
    unfolding map_append distinct_append by blast
  have "\<forall>y \<in> set (us @ x # ws). fst y \<noteq> fst e"
  proof (intro ballI notI)
    fix y assume "y \<in> set (us @ x # ws)" "fst y = fst e"
    then have "fst e \<in> set (map fst (us @ x # ws))" by (metis image_eqI set_map)
    moreover have "fst e \<in> set (map fst (e # zs))" by simp
    ultimately show False using dj by blast
  qed
  then have "dropWhile (\<lambda>y. fst y \<noteq> fst e) ((us @ x # ws) @ e # zs) = e # zs"
    by (intro dropWhile_append_stop) blast+
  then have d: "dropWhile (\<lambda>y. fst y \<noteq> fst e) (us @ x # ws @ e # zs) = e # zs" by simp
  show ?thesis unfolding es(4) unfolding es(1) vs behind_def d by simp
qed

lemma behind_subset: "set (behind a es) \<subseteq> set es"
proof -
  have "set (tl xs) \<subseteq> set xs" for xs :: "entry list" by (cases xs) auto
  then show ?thesis using set_dropWhileD unfolding behind_def by (metis subsetD subsetI)
qed

lemma endwiths_Some:
  "endwiths (Some s) (Some e) \<longleftrightarrow> e = [] \<or> length e \<le> length s \<and> strncmp (drop (length s - length e) s) e (length e) = 0"
  by (auto simp: endwiths_def)

lemma no_rescue_find:
  assumes "no_rescue es" "menu_cstrings es" "g_menu g = Some m" "mn_loaders m = es" "cstr n"
  shows "embloader_find_loader (Some (n @ ''-rescue'')) g = None"
proof -
  have c: "cstr (n @ ''-rescue'')" using assms(5) by (simp add: cstr_def)
  have low: "map tolower ''-rescue'' = ''-rescue''"
    by (simp add: tolower_def isupper_def cval_def)
  have "strcasecmp (n @ ''-rescue'') k \<noteq> 0" if "e \<in> set es" "ll_name (snd e) = Some k" for e k
  proof
    assume "strcasecmp (n @ ''-rescue'') k = 0"
    moreover have "cstr k" using assms(2) that by (auto simp: menu_cstrings_def)
    ultimately have "map tolower (n @ ''-rescue'') = map tolower k" using strcasecmp_0_iff c by blast
    then have "map tolower k = map tolower n @ ''-rescue''" unfolding map_append low by (rule sym)
    then have "rescue_name k" unfolding rescue_name_def by blast
    with assms(1) that show False by (auto simp: no_rescue_def)
  qed
  then show ?thesis
    unfolding embloader_find_loader_def assms(3) option.case prod.case find_None_iff assms(4)
    by (auto split: option.split)
qed


section \<open>The fallback\<close>

definition try_next_path :: "pcomp list" where
  "try_next_path = [PKey ''menu'', PKey ''try-next-on-failure'']"

lemma try_next_text: "path_text try_next_path = ''menu.try-next-on-failure''"
  by (simp add: try_next_path_def path_text_def)

lemma try_next_good: "\<forall>c \<in> set try_next_path. good_comp c"
  by (simp add: try_next_path_def good_comp_def)

lemma gstrdup_cs: "\<exists>r s. gstrdup str g = (r, g\<lparr>g_cs := s\<rparr>) \<and> reads_only (g_cs g) s \<and> (no_oom (g_cs g) \<longrightarrow> r = str)"
proof (cases str)
  case None
  then show ?thesis by (auto simp: gstrdup_def intro!: exI [of _ "g_cs g"])
next
  case (Some t)
  obtain ok s where a: "alloc (g_cs g) = (ok, s)" by (cases "alloc (g_cs g)")
  have "no_oom (g_cs g) \<longrightarrow> ok" using a by (auto simp: alloc_def no_oom_def)
  with Some a alloc_reads [OF a] show ?thesis
    by (auto simp: gstrdup_def galloc_def intro!: exI [of _ s])
qed

text \<open>The handlers of the environment return and only allocate.\<close>

definition tidy_env :: "'w menu_env \<Rightarrow> bool" where
  "tidy_env env \<longleftrightarrow> (\<forall>e g w. \<exists>st s w'. env_boot env e (g, w) = Some (st, g\<lparr>g_cs := s\<rparr>, w') \<and> reads_only (g_cs g) s)"

lemma next_loader:
  assumes "good_config g t" "g_menu g = Some m" "no_rescue (mn_loaders m)" "menu_cstrings (mn_loaders m)"
    and "\<forall>n. ll_name (snd e) = Some n \<longrightarrow> cstr n"
  shows "\<exists>s. reads_only (g_cs g) s \<and> embloader_get_next_loader e g =
     Some (if flag_at t try_next_path False (g_cs g)
           then find (\<lambda>e. ll_complete (snd e)) (behind (fst e) (mn_loaders m)) else None, g\<lparr>g_cs := s\<rparr>)"
proof -
  define r where "r = (case ll_name (snd e) of
       None \<Rightarrow> (None, g)
     | Some n \<Rightarrow>
         if endwiths (Some n) (Some ''-rescue'') then (None, g)
         else let (nname, g) = gstrdup (Some (n @ ''-rescue'')) g in (embloader_find_loader nname g, g))"
  have "\<exists>s. r = (None, g\<lparr>g_cs := s\<rparr>) \<and> reads_only (g_cs g) s"
  proof (cases "ll_name (snd e)")
    case None
    then show ?thesis by (auto simp: r_def intro!: exI [of _ "g_cs g"])
  next
    case (Some n)
    obtain s nn where s: "gstrdup (Some (n @ ''-rescue'')) g = (nn, g\<lparr>g_cs := s\<rparr>)" "reads_only (g_cs g) s"
      "nn = Some (n @ ''-rescue'')"
      using gstrdup_cs [of "Some (n @ ''-rescue'')" g] assms(1) by (auto simp: good_config_def)
    have "embloader_find_loader nn (g\<lparr>g_cs := s\<rparr>) = None"
      unfolding s(3) by (rule no_rescue_find [of "mn_loaders m" _ m]) (use assms Some in auto)
    then show ?thesis
    proof (cases "endwiths (Some n) (Some ''-rescue'')")
      case True
      with Some show ?thesis by (auto simp: r_def intro!: exI [of _ "g_cs g"])
    next
      case False
      with Some s have "r = (None, g\<lparr>g_cs := s\<rparr>)"
        using \<open>embloader_find_loader nn (g\<lparr>g_cs := s\<rparr>) = None\<close> by (simp add: r_def)
      with s(2) show ?thesis by blast
    qed
  qed
  then obtain s1 where s1: "r = (None, g\<lparr>g_cs := s1\<rparr>)" "reads_only (g_cs g) s1" by blast
  let ?g = "g\<lparr>g_cs := s1\<rparr>"
  have gc: "good_config ?g t" by (rule good_config_reads [OF assms(1) s1(2)])
  from gget_bool_tree [OF gc try_next_good, of False] obtain s2 where s2:
    "gget_bool (g_config g) ''menu.try-next-on-failure'' False ?g =
       Some (flag_at t try_next_path False s1, g\<lparr>g_cs := s2\<rparr>)" "reads_only s1 s2"
    by (auto simp: try_next_text)
  have fl: "flag_at t try_next_path False s1 = flag_at t try_next_path False (g_cs g)"
    using reads_only_nodes [OF s1(2)]
    by (simp add: flag_at_def confignode_value_get_bool_def node_at_def cong: option.case_cong)
  have "embloader_get_next_loader e g = do {
      (try_next, g) \<leftarrow> gget_bool (g_config ?g) ''menu.try-next-on-failure'' False ?g;
      Some (if try_next then next_complete (fst e) False (mn_loaders m) else None, g) }"
    unfolding embloader_get_next_loader_def assms(2) r_def [symmetric] s1(1) by simp
  then show ?thesis
    using s2 reads_only_trans [OF s1(2) s2(2)] by (auto simp: fl next_complete_behind)
qed

lemma try_boot_returns:
  assumes "tidy_env env" "good_config g t" "g_menu g = Some m" "no_rescue (mn_loaders m)"
    and "menu_cstrings (mn_loaders m)" "distinct (map fst (mn_loaders m))"
    and "\<forall>n. ll_name (snd e) = Some n \<longrightarrow> cstr n"
  shows "\<exists>st s w'. embloader_try_boot env e flags (g, w) = Some (st, g\<lparr>g_cs := s\<rparr>, w')"
  using assms(2,3,7)
proof (induction "length (behind (fst e) (mn_loaders m))" arbitrary: e g w rule: less_induct)
  case (less e g w)
  obtain st s1 w1 where b: "env_boot env e (g, env_selected env e w) = Some (st, g\<lparr>g_cs := s1\<rparr>, w1)" "reads_only (g_cs g) s1"
    using assms(1) unfolding tidy_env_def by blast
  let ?g = "g\<lparr>g_cs := s1\<rparr>"
  have gc: "good_config ?g t" by (rule good_config_reads [OF less.prems(1) b(2)])
  have gm: "g_menu ?g = Some m" using less.prems(2) by simp
  from next_loader [OF gc gm assms(4,5) less.prems(3)] obtain s2 nxt where n:
    "embloader_get_next_loader e ?g = Some (nxt, g\<lparr>g_cs := s2\<rparr>)" "reads_only s1 s2"
    "nxt = None \<or> nxt = find (\<lambda>e. ll_complete (snd e)) (behind (fst e) (mn_loaders m))"
    by (auto split: if_splits)
  show ?case
  proof (cases "EFI_ERROR st \<and> fl_autoboot flags \<and> nxt \<noteq> None")
    case False
    with b(1) n(1) show ?thesis by (subst embloader_try_boot.simps) (auto split: option.splits)
  next
    case True
    then obtain l where l1: "nxt = Some l" by blast
    from n(3) have "find (\<lambda>e. ll_complete (snd e)) (behind (fst e) (mn_loaders m)) = Some l"
      unfolding l1 by (elim disjE) simp_all
    note l = l1 this
    have "l \<in> set (behind (fst e) (mn_loaders m))" using l(2) unfolding find_Some_iff by (metis nth_mem)
    then have "l \<in> set (mn_loaders m)" using behind_subset by blast
    then have nm: "\<forall>n. ll_name (snd l) = Some n \<longrightarrow> cstr n" using assms(5) by (auto simp: menu_cstrings_def)
    let ?g2 = "g\<lparr>g_cs := s2\<rparr>"
    have gc2: "good_config ?g2 t" using good_config_reads [OF gc, of s2] n(2) by simp
    from less.hyps [OF behind_shorter [OF assms(6) l(2)] gc2 _ nm, of w1] less.prems(2)
    obtain st' s' w' where "embloader_try_boot env l flags (?g2, w1) = Some (st', g\<lparr>g_cs := s'\<rparr>, w')" by auto
    with b(1) n(1) True l(1) show ?thesis by (subst embloader_try_boot.simps) auto
  qed
qed


section \<open>A fallback that does not end\<close>

text \<open>Two entries, the rescue entry first, and a configuration that asks for the next entry.\<close>

definition loop_entry :: "cstring \<Rightarrow> embloader_loader" where
  "loop_entry name = zero_loader\<lparr>ll_name := Some name, ll_title := Some name, ll_type := LOADER_LINUX,
     ll_complete := True\<rparr>"

definition loop_menu :: embloader_menu where
  "loop_menu = zero_menu\<lparr>mn_loaders := [(8, loop_entry ''A-rescue''), (9, loop_entry ''A'')]\<rparr>"

definition loop_node :: "ptr \<Rightarrow> cstring option \<Rightarrow> ntype \<Rightarrow> addr list \<Rightarrow> cnode" where
  "loop_node p k ty is = \<lparr>cn_parent = p, cn_key = k, cn_index = -1, cn_type = ty, cn_items = is,
     cn_value = \<lparr>cv_v = VBool True, cv_len = 1\<rparr>\<rparr>"

definition loop_tree :: atree where
  "loop_tree = AT 1 (loop_node None None TYPE_MAP [2])
     [AT 2 (loop_node (Some 1) (Some ''menu'') TYPE_MAP [3])
        [AT 3 (loop_node (Some 2) (Some ''try-next-on-failure'') TYPE_VALUE []) []]]"

definition loop_state :: embloader where
  "loop_state = \<lparr>g_cs = \<lparr>nodes = map_of [(1, loop_node None None TYPE_MAP [2]),
       (2, loop_node (Some 1) (Some ''menu'') TYPE_MAP [3]),
       (3, loop_node (Some 2) (Some ''try-next-on-failure'') TYPE_VALUE [])],
       cnxt = 4, coom = (\<lambda>_. False), ctick = 0\<rparr>, g_next = 10, g_config = Some 1, g_sysinfo = None,
     g_ktype = None, g_device_name = None, g_profiles = [], g_menu = Some loop_menu, g_sdboot = None\<rparr>"

lemma loop_config: "good_config loop_state loop_tree"
  by (simp add: good_config_def loop_state_def loop_tree_def loop_node_def kids_ok_def no_oom_def)

lemma loop_flag: "reads_only (g_cs loop_state) s \<Longrightarrow> flag_at loop_tree try_next_path False s"
  using reads_only_nodes [of "g_cs loop_state" s]
  by (simp add: flag_at_def try_next_path_def loop_tree_def loop_node_def confignode_value_get_bool_def
      node_at_def loop_state_def)

lemma loop_next:
  assumes "reads_only (g_cs loop_state) s" "e \<in> set (mn_loaders loop_menu)"
  shows "\<exists>s' e'. reads_only (g_cs loop_state) s' \<and> e' \<in> set (mn_loaders loop_menu) \<and>
    embloader_get_next_loader e (loop_state\<lparr>g_cs := s\<rparr>) = Some (Some e', loop_state\<lparr>g_cs := s'\<rparr>)"
proof -
  let ?g = "loop_state\<lparr>g_cs := s\<rparr>"
  have gc: "good_config ?g loop_tree" by (rule good_config_reads [OF loop_config assms(1)])
  have m: "g_menu h = Some loop_menu \<Longrightarrow> embloader_find_loader (Some ''A-rescue'') h = Some (8, loop_entry ''A-rescue'')" for h
    by (simp add: embloader_find_loader_def loop_menu_def loop_entry_def)
  consider "e = (8, loop_entry ''A-rescue'')" | "e = (9, loop_entry ''A'')"
    using assms(2) by (auto simp: loop_menu_def)
  then show ?thesis
  proof cases
    case 1
    from gget_bool_tree [OF gc try_next_good, of False] obtain s2 where s2:
      "gget_bool (g_config ?g) ''menu.try-next-on-failure'' False ?g = Some (True, loop_state\<lparr>g_cs := s2\<rparr>)" "reads_only s s2"
      using loop_flag [OF assms(1)] by (auto simp: try_next_text)
    have "endwiths (Some ''A-rescue'') (Some ''-rescue'')" by (simp add: endwiths_Some)
    with 1 s2 have "embloader_get_next_loader e ?g = Some (Some (9, loop_entry ''A''), loop_state\<lparr>g_cs := s2\<rparr>)"
      by (simp add: embloader_get_next_loader_def loop_state_def loop_menu_def loop_entry_def zero_loader_def)
    moreover have "(9, loop_entry ''A'') \<in> set (mn_loaders loop_menu)" by (simp add: loop_menu_def)
    ultimately show ?thesis using reads_only_trans [OF assms(1) s2(2)] by blast
  next
    case 2
    obtain s2 where s2: "gstrdup (Some ''A-rescue'') ?g = (Some ''A-rescue'', loop_state\<lparr>g_cs := s2\<rparr>)" "reads_only s s2"
      using gstrdup_cs [of "Some ''A-rescue''" ?g] gc by (auto simp: good_config_def)
    have "\<not> endwiths (Some ''A'') (Some ''-rescue'')" by (simp add: endwiths_Some)
    moreover have "embloader_find_loader (Some ''A-rescue'') (loop_state\<lparr>g_cs := s2\<rparr>) = Some (8, loop_entry ''A-rescue'')"
      by (rule m) (simp add: loop_state_def)
    ultimately have "embloader_get_next_loader e ?g = Some (Some (8, loop_entry ''A-rescue''), loop_state\<lparr>g_cs := s2\<rparr>)"
      using 2 s2(1) by (simp add: embloader_get_next_loader_def loop_entry_def zero_loader_def loop_state_def)
    moreover have "(8, loop_entry ''A-rescue'') \<in> set (mn_loaders loop_menu)" by (simp add: loop_menu_def)
    ultimately show ?thesis using reads_only_trans [OF assms(1) s2(2)] by blast
  qed
qed

text \<open>Handlers that fail and change nothing.\<close>

definition failing_env :: "'w menu_env \<Rightarrow> bool" where
  "failing_env env \<longleftrightarrow> (\<forall>e x. env_boot env e x = Some (EFI_LOAD_ERROR, x))"

lemma try_boot_never_returns:
  assumes "failing_env env" "e \<in> set (mn_loaders loop_menu)" "reads_only (g_cs loop_state) s" "fl_autoboot flags"
  shows "embloader_try_boot env e flags (loop_state\<lparr>g_cs := s\<rparr>, w) = None"
proof (rule ccontr)
  have err: "EFI_ERROR EFI_LOAD_ERROR" by (simp add: EFI_ERROR_def efi_warnings_def)
  assume "embloader_try_boot env e flags (loop_state\<lparr>g_cs := s\<rparr>, w) \<noteq> None"
  then obtain y where y: "embloader_try_boot env e flags (loop_state\<lparr>g_cs := s\<rparr>, w) = Some y" by blast
  let ?P = "\<lambda>env e flags x y. \<not> (failing_env env \<and> fl_autoboot flags \<and> e \<in> set (mn_loaders loop_menu) \<and>
      (\<exists>s w. x = (loop_state\<lparr>g_cs := s\<rparr>, w) \<and> reads_only (g_cs loop_state) s))"
  have "?P env e flags (loop_state\<lparr>g_cs := s\<rparr>, w) y"
  proof (rule embloader_try_boot.raw_induct [of ?P "(((env, e), flags), (loop_state\<lparr>g_cs := s\<rparr>, w))" y,
        unfolded prod.case, OF _ y], goal_cases)
    case (1 f env e flags x y)
    show ?case
    proof
      assume a: "failing_env env \<and> fl_autoboot flags \<and> e \<in> set (mn_loaders loop_menu) \<and>
          (\<exists>s w. x = (loop_state\<lparr>g_cs := s\<rparr>, w) \<and> reads_only (g_cs loop_state) s)"
      then obtain s w where x: "x = (loop_state\<lparr>g_cs := s\<rparr>, w)" "reads_only (g_cs loop_state) s" by blast
      from loop_next [OF x(2), of e] a obtain s' e' where n: "reads_only (g_cs loop_state) s'" "e' \<in> set (mn_loaders loop_menu)"
        "embloader_get_next_loader e (loop_state\<lparr>g_cs := s\<rparr>) = Some (Some e', loop_state\<lparr>g_cs := s'\<rparr>)" by blast
      have "f env e' flags (loop_state\<lparr>g_cs := s'\<rparr>, env_selected env e w) = Some y"
      proof -
        have "env_boot env e (loop_state\<lparr>g_cs := s\<rparr>, env_selected env e w) =
            Some (EFI_LOAD_ERROR, loop_state\<lparr>g_cs := s\<rparr>, env_selected env e w)"
          using a unfolding failing_env_def by blast
        with 1(2) a n(3) err show ?thesis by (simp add: x(1))
      qed
      from 1(1) [OF this] a n show False by blast
    qed
  qed
  with assms show False by blast
qed

end
