(* ===== verification/SdbootItems.thy ===== *)
theory SdbootItems
  imports SdbootFolder MenuFacts
begin

text \<open>
  Turning systemd-boot entries into menu entries: nothing is published when an allocation fails,
  otherwise every systemd-boot entry is in the menu exactly once, and the priorities follow the
  order of the entries where that order is an order.
\<close>

section \<open>Publishing\<close>

definition kept :: "embloader \<Rightarrow> embloader \<Rightarrow> bool" where
  "kept g g' \<longleftrightarrow> g_menu g' = g_menu g \<and> g_sdboot g' = g_sdboot g"

named_theorems keeps

lemma kept_simps [simp]: "kept g g" "kept g (g\<lparr>g_cs := s\<rparr>)" "kept g (g\<lparr>g_next := n\<rparr>)"
  by (simp_all add: kept_def)

lemma kept_trans [trans]: "kept g g' \<Longrightarrow> kept g' g'' \<Longrightarrow> kept g g''"
  by (simp add: kept_def)

lemma on_cs_kept [keeps]: "on_cs f g = Some (r, g') \<Longrightarrow> kept g g'"
  by (auto simp: on_cs_def bind_eq_Some_conv)

lemma galloc_kept [keeps]: "galloc g = (ok, g') \<Longrightarrow> kept g g'"
  by (auto simp: galloc_def split: prod.splits)

lemma gstrdup_kept [keeps]: "gstrdup x g = (y, g') \<Longrightarrow> kept g g'"
  by (auto simp: gstrdup_def dest: keeps split: option.splits prod.splits)

text \<open>Only allocations happened.\<close>

definition calm :: "embloader \<Rightarrow> embloader \<Rightarrow> bool" where
  "calm g g' \<longleftrightarrow> kept g g' \<and> g_config g' = g_config g \<and> reads_only (g_cs g) (g_cs g')"

named_theorems calms

lemma calm_simps [simp]: "calm g g" "calm g (g\<lparr>g_next := n\<rparr>)"
  by (simp_all add: calm_def)

lemma calm_trans [trans]: "calm g g' \<Longrightarrow> calm g' g'' \<Longrightarrow> calm g g''"
  by (auto simp: calm_def intro: kept_trans reads_only_trans)

lemma calm_kept: "calm g g' \<Longrightarrow> kept g g'"
  by (simp add: calm_def)

lemma galloc_calm [calms]: "galloc g = (ok, g') \<Longrightarrow> calm g g'"
  by (auto simp: galloc_def calm_def dest: alloc_reads split: prod.splits)

lemma gstrdup_calm [calms]: "gstrdup x g = (y, g') \<Longrightarrow> calm g g'"
  by (auto simp: gstrdup_def dest: calms split: option.splits prod.splits)

lemma calm_config: "good_config g t \<Longrightarrow> calm g g' \<Longrightarrow> good_config g' t"
  using reads_only_nodes [of "g_cs g" "g_cs g'"] by (simp add: good_config_def calm_def no_oom_def)

text \<open>The systemd-boot entries a list of menu entries stands for.\<close>

definition extra_of :: "entry \<Rightarrow> addr option" where
  "extra_of e = (if ll_type (snd e) = LOADER_SDBOOT then ll_extra (snd e) else None)"

definition extras :: "entry list \<Rightarrow> addr list" where
  "extras es = List.map_filter extra_of es"

lemma extras_simps [simp]: "extras [] = []" "extras (e # es) = (case extra_of e of None \<Rightarrow> [] | Some a \<Rightarrow> [a]) @ extras es"
  "extras (es @ es') = extras es @ extras es'"
  by (auto simp: extras_def map_filter_def split: option.splits)

lemma set_extras: "set (extras es) = {a. \<exists>e \<in> set es. extra_of e = Some a}"
  by (induction es) (auto split: option.splits)

lemma menu_loader_compare_iff: "menu_loader_compare a e \<longleftrightarrow> extra_of e = Some a"
  by (auto simp: menu_loader_compare_def extra_of_def)

lemma present_iff: "list_ex (menu_loader_compare a) es \<longleftrightarrow> a \<in> set (extras es)"
  by (auto simp: list_ex_iff menu_loader_compare_iff set_extras)

lemma new_item_result:
  assumes "sdboot_new_item editor item pending g = ((ok, pending'), g')"
  shows "calm g g' \<and> (if ok then \<exists>e. pending' = pending @ [e] \<and> extra_of e = Some (fst item) \<and>
      ll_name (snd e) = sl_name (snd item) \<and> ll_complete (snd e) \<and> ll_node (snd e) = None else pending' = pending)"
proof -
  obtain ok1 g1 where a: "galloc g = (ok1, g1)" by (cases "galloc g")
  obtain nm g2 where b: "gstrdup (sl_name (snd item)) g1 = (nm, g2)" by fastforce
  obtain tt g3 where c: "gstrdup (sl_title (snd item)) g2 = (tt, g3)" by fastforce
  obtain vs g4 where d: "gstrdup (sl_version (snd item)) g3 = (vs, g4)" by fastforce
  define opts where "opts = (if sl_options (snd item) = [] then (None, True, g4)
      else let joined = strings_to_string '' '' (sl_options (snd item)); (args, g) = gstrdup joined g4
           in (args, args \<noteq> None, g))"
  obtain args ok2 g5 where e: "opts = (args, ok2, g5)" by (cases opts)
  obtain cell g6 where f: "galloc g5 = (cell, g6)" by (cases "galloc g5")
  have "calm g4 g5"
    using e by (auto simp: opts_def Let_def dest: calms split: if_splits prod.splits)
  then have k: "calm g g1" "calm g g4" "calm g g5" "calm g g6"
    using a b c d f by (meson calms calm_trans)+
  have nm: "nm = None \<or> nm = sl_name (snd item)" using gstrdup_moved [OF b] by simp
  define en where "en = (g_next g6, zero_loader\<lparr>ll_name := nm, ll_title := tt, ll_version := vs,
     ll_type := LOADER_SDBOOT, ll_complete := True, ll_editor := editor, ll_extra := Some (fst item),
     ll_bootargs := args\<rparr>)"
  have en: "extra_of en = Some (fst item)" "ll_name (snd en) = nm" "ll_complete (snd en)" "ll_node (snd en) = None"
    by (simp_all add: en_def extra_of_def zero_loader_def)
  have "sdboot_new_item editor item pending g =
    (if \<not> ok1 then ((False, pending), g1)
     else if sl_name (snd item) \<noteq> None \<and> nm = None \<or> sl_title (snd item) \<noteq> None \<and> tt = None \<or>
             sl_version (snd item) \<noteq> None \<and> vs = None then ((False, pending), g4)
     else if \<not> ok2 then ((False, pending), g5)
     else if \<not> cell then ((False, pending), g6)
     else ((True, pending @ [en]), g6\<lparr>g_next := Suc (g_next g6)\<rparr>))"
    unfolding sdboot_new_item_def a b c d prod.case Let_def opts_def [unfolded Let_def, symmetric] e f en_def by simp
  note run = this [unfolded assms]
  show ?thesis
  proof (cases ok)
    case False
    with run k show ?thesis by (auto split: if_splits)
  next
    case True
    with run have r: "pending' = pending @ [en]" "g' = g6\<lparr>g_next := Suc (g_next g6)\<rparr>"
      "\<not> (sl_name (snd item) \<noteq> None \<and> nm = None)" by (auto split: if_splits)
    have "calm g g'" using k(4) r(2) by (auto intro: calm_trans)
    moreover have "ll_name (snd en) = sl_name (snd item)" using nm r(3) en(2) by auto
    ultimately show ?thesis using True r(1) en by auto
  qed
qed

lemma new_items_result:
  assumes "sdboot_new_items editor present items pending g = ((ok, pending'), g')"
  shows "calm g g' \<and> (\<exists>new. pending' = pending @ new \<and> set (extras new) \<subseteq> fst ` set items \<and>
      (distinct (extras pending) \<and> set (extras present) \<inter> set (extras pending) = {} \<longrightarrow>
        distinct (extras pending') \<and> set (extras present) \<inter> set (extras pending') = {}) \<and>
      (\<forall>e \<in> set new. extra_of e \<noteq> None \<and> ll_complete (snd e) \<and> ll_node (snd e) = None) \<and>
      (ok \<longrightarrow> fst ` set items \<subseteq> set (extras present) \<union> set (extras pending')))"
  using assms
proof (induction items arbitrary: pending g)
  case (Cons item items)
  show ?case
  proof (cases "fst item \<in> set (extras present) \<union> set (extras pending)")
    case True
    then have "sdboot_new_items editor present items pending g = ((ok, pending'), g')"
      using Cons.prems by (auto simp: present_iff)
    from Cons.IH [OF this] True show ?thesis by auto
  next
    case False
    obtain ok1 p1 g1 where n: "sdboot_new_item editor item pending g = ((ok1, p1), g1)"
      by (cases "sdboot_new_item editor item pending g") auto
    note r = new_item_result [OF n]
    have run: "(if ok1 then sdboot_new_items editor present items p1 g1 else ((False, p1), g1)) = ((ok, pending'), g')"
      using Cons.prems False n by (simp add: present_iff)
    show ?thesis
    proof (cases ok1)
      case False
      with run r show ?thesis by auto
    next
      case True
      with r obtain e where e: "p1 = pending @ [e]" "extra_of e = Some (fst item)" "ll_complete (snd e)" "ll_node (snd e) = None" "calm g g1" by auto
      have "sdboot_new_items editor present items p1 g1 = ((ok, pending'), g')" using run True by simp
      from Cons.IH [OF this] obtain new where new: "calm g1 g'" "pending' = p1 @ new" "set (extras new) \<subseteq> fst ` set items"
        "distinct (extras p1) \<and> set (extras present) \<inter> set (extras p1) = {} \<longrightarrow>
          distinct (extras pending') \<and> set (extras present) \<inter> set (extras pending') = {}"
        "\<forall>e \<in> set new. extra_of e \<noteq> None \<and> ll_complete (snd e) \<and> ll_node (snd e) = None"
        "ok \<longrightarrow> fst ` set items \<subseteq> set (extras present) \<union> set (extras pending')" by blast
      have "calm g g'" by (rule calm_trans [OF e(5) new(1)])
      moreover have "pending' = pending @ (e # new)" using e(1) new(2) by simp
      moreover have "distinct (extras p1) \<and> set (extras present) \<inter> set (extras p1) = {}"
        if "distinct (extras pending) \<and> set (extras present) \<inter> set (extras pending) = {}"
        using that e(1,2) False by auto
      moreover have "fst item \<in> set (extras pending')" using e(1,2) new(2) by simp
      moreover have "set (extras (e # new)) \<subseteq> fst ` set (item # items)" using new(3) e(2) by auto
      moreover have "\<forall>x \<in> set (e # new). extra_of x \<noteq> None \<and> ll_complete (snd x) \<and> ll_node (snd x) = None" using new(5) e(2-4) by simp
      moreover have "ok \<longrightarrow> fst ` set (item # items) \<subseteq> set (extras present) \<union> set (extras pending')"
        using new(6) \<open>fst item \<in> set (extras pending')\<close> by auto
      ultimately show ?thesis using new(4) by blast
    qed
  qed
qed auto

lemma items_collect_result:
  assumes "sdboot_items_collect es items g = ((st, items'), g')"
  shows "calm g g' \<and> (EFI_ERROR st \<or> items' = items @ map (\<lambda>e. (e, 0)) (filter (\<lambda>e. ll_type (snd e) = LOADER_SDBOOT) es))"
  using assms
proof (induction es arbitrary: items g)
  case (Cons e es)
  obtain ok1 g1 where a: "galloc g = (ok1, g1)" by (cases "galloc g")
  obtain ok2 g2 where b: "galloc g1 = (ok2, g2)" by (cases "galloc g1")
  have k: "calm g g1" "calm g g2" using a b by (meson calms calm_trans)+
  show ?case
  proof (cases "ll_type (snd e) = LOADER_SDBOOT \<and> ok1 \<and> ok2")
    case True
    then have "sdboot_items_collect es (items @ [(e, 0)]) g2 = ((st, items'), g')"
      using Cons.prems a b by simp
    from Cons.IH [OF this] True k(2) show ?thesis by (auto intro: calm_trans)
  next
    case False
    with Cons.prems Cons.IH [of items g] a b k show ?thesis by (auto split: if_splits)
  qed
qed simp

lemma reboot_mode_kept: "reboot_mode ms l g = Some (r, g') \<Longrightarrow> kept g g'"
  by (auto simp: reboot_mode_def bind_eq_Some_conv dest: keeps split: if_splits option.splits)

lemma is_reboot_kept [keeps]: "embloader_loader_is_reboot l g = Some (r, g') \<Longrightarrow> kept g g'"
  by (auto simp: embloader_loader_is_reboot_def intro: reboot_mode_kept)

lemma is_shutdown_kept [keeps]: "embloader_loader_is_shutdown l g = Some (r, g') \<Longrightarrow> kept g g'"
  by (auto simp: embloader_loader_is_shutdown_def intro: reboot_mode_kept)

lemma find_auto_kept [keeps]: "sdboot_boot_find_auto_items es flags g = Some (r, g') \<Longrightarrow> kept g g'"
proof (induction es arbitrary: flags g)
  case (Cons e es)
  obtain firmware reboot poweroff where f: "flags = (firmware, reboot, poweroff)" by (cases flags)
  from Cons.prems obtain isr g1 isp g2 where r:
    "(if reboot then embloader_loader_is_reboot (snd e) g else Some (False, g)) = Some (isr, g1)"
    "(if poweroff then embloader_loader_is_shutdown (snd e) g1 else Some (False, g1)) = Some (isp, g2)"
    "sdboot_boot_find_auto_items es (firmware \<and> ll_type (snd e) \<noteq> LOADER_EFISETUP, reboot \<and> \<not> isr, poweroff \<and> \<not> isp) g2 =
      Some (r, g')"
    unfolding f by (auto simp: bind_eq_Some_conv Let_def)
  have "kept g g1" "kept g1 g2" using r(1,2) by (auto dest: keeps split: if_splits)
  with Cons.IH [OF r(3)] show ?case by (blast intro: kept_trans)
qed auto

lemma gget_int_kept [keeps]: "gget_int node path def g = Some (r, g') \<Longrightarrow> kept g g'"
  by (auto simp: gget_int_def bind_eq_Some_conv dest: keeps)

lemma items_prepare_result:
  assumes "sdboot_items_prepare pending g = Some ((st, ps, off), g')"
  shows "kept g g' \<and> (EFI_ERROR st \<or> (\<exists>m sd offset. g_menu g = Some m \<and> g_sdboot g = Some sd \<and>
     (let es = filter (\<lambda>e. ll_type (snd e) = LOADER_SDBOOT) (mn_loaders m @ pending)
      in ps = zip es (map (item_priority sd offset es) [0..<length es]))))"
proof -
  from assms obtain m sd where m: "g_menu g = Some m" "g_sdboot g = Some sd"
    by (auto simp: sdboot_items_prepare_def bind_eq_Some_conv)
  obtain st1 it1 g1 where a: "sdboot_items_collect (mn_loaders m) [] g = ((st1, it1), g1)"
    by (cases "sdboot_items_collect (mn_loaders m) [] g") auto
  obtain st2 it2 g2 where b: "sdboot_items_collect pending it1 g1 = ((st2, it2), g2)"
    by (cases "sdboot_items_collect pending it1 g1") auto
  note ra = items_collect_result [OF a] and rb = items_collect_result [OF b]
  have k: "kept g g1" "kept g g2" using ra rb by (auto dest!: calm_kept intro: kept_trans)
  show ?thesis
  proof (cases "EFI_ERROR st1 \<or> EFI_ERROR st2")
    case True
    with assms m a b k show ?thesis by (auto simp: sdboot_items_prepare_def split: if_splits)
  next
    case False
    with ra rb have it: "map fst it2 = filter (\<lambda>e. ll_type (snd e) = LOADER_SDBOOT) (mn_loaders m @ pending)"
      by (simp add: comp_def)
    from assms m a b False obtain offset g3 where c: "gget_int (g_config g2) ''menu.sdboot.priority-offset'' 100 g2 = Some (offset, g3)"
      "ps = zip (map fst it2) (map (item_priority sd offset (map fst it2)) [0..<length (map fst it2)])" "g' = g3"
      by (auto simp: sdboot_items_prepare_def bind_eq_Some_conv Let_def)
    have "kept g g'" using k(2) gget_int_kept [OF c(1)] c(3) by (auto intro: kept_trans)
    with m c(2) show ?thesis unfolding it Let_def by blast
  qed
qed

lemma auto_item_result:
  assumes "sdboot_boot_add_auto_item es name title ty mode prio g = Some ((st, es'), g')" "ty \<noteq> LOADER_SDBOOT"
  shows "kept g g' \<and> (\<exists>new. es' = es @ new \<and> extras new = [] \<and> (\<forall>e \<in> set new. ll_name (snd e) = Some name))"
proof -
  obtain ok1 g1 where a: "galloc g = (ok1, g1)" by (cases "galloc g")
  obtain nm g2 where b: "gstrdup (Some name) g1 = (nm, g2)" by fastforce
  obtain tt g3 where c: "gstrdup (Some title) g2 = (tt, g3)" by fastforce
  have k: "kept g g1" "kept g g3" using a b c by (meson keeps kept_trans)+
  define l where "l = zero_loader\<lparr>ll_name := nm, ll_title := tt, ll_type := ty, ll_priority := prio\<rparr>"
  define mk where "mk = (case mode of
            None \<Rightarrow> Some (None, True, g3)
          | Some m \<Rightarrow> do {
              (n, g) \<leftarrow> on_cs confignode_new_map g3;
              (if n = None then Some (None, False, g)
               else do {
                 (ok, g) \<leftarrow> on_cs (confignode_path_set_string n (Some ''mode'') (Some m)) g;
                 Some (n, ok, g)
               })
            })"
  have nm: "nm = None \<or> nm = Some name" using gstrdup_moved [OF b] by simp
  show ?thesis
  proof (cases "\<not> ok1 \<or> nm = None \<or> tt = None")
    case True
    with assms(1) a b c k show ?thesis
      by (auto simp: sdboot_boot_add_auto_item_def split: if_splits)
  next
    case False
    with assms(1) a b c obtain node ok4 g4 where d: "mk = Some (node, ok4, g4)"
      and run: "(let (cell, g) = (if ok4 then galloc g4 else (False, g4))
         in if cell then Some ((EFI_SUCCESS, es @ [(g_next g, l\<lparr>ll_node := node\<rparr>)]), g\<lparr>g_next := Suc (g_next g)\<rparr>)
            else do {
              g \<leftarrow> (case node of
                      None \<Rightarrow> Some g
                    | Some n \<Rightarrow> do { s \<leftarrow> confignode_clean n (g_cs g); Some (g\<lparr>g_cs := s\<rparr>) });
              Some ((EFI_OUT_OF_RESOURCES, es), g)
            }) = Some ((st, es'), g')"
      unfolding sdboot_boot_add_auto_item_def a b c prod.case Let_def mk_def l_def
      by (auto simp: bind_eq_Some_conv)
    have "kept g3 g4" using d unfolding mk_def
      by (auto simp: bind_eq_Some_conv dest: keeps intro: kept_trans split: option.splits if_splits)
    with k(2) have k4: "kept g g4" by (rule kept_trans)
    obtain cell g5 where e: "(if ok4 then galloc g4 else (False, g4)) = (cell, g5)" by fastforce
    have "kept g4 g5" using e by (auto dest: keeps split: if_splits)
    with k4 have k5: "kept g g5" by (rule kept_trans)
    show ?thesis
    proof (cases cell)
      case True
      with run e have r: "es' = es @ [(g_next g5, l\<lparr>ll_node := node\<rparr>)]" "g' = g5\<lparr>g_next := Suc (g_next g5)\<rparr>" by auto
      have "kept g g'" using k5 r(2) by (simp add: kept_def)
      moreover have "extras [(g_next g5, l\<lparr>ll_node := node\<rparr>)] = []" using assms(2) by (simp add: extra_of_def l_def)
      moreover have "ll_name (l\<lparr>ll_node := node\<rparr>) = Some name" using False nm by (auto simp: l_def)
      ultimately show ?thesis using r(1) by auto
    next
      case False
      with run e k5 show ?thesis by (auto simp: bind_eq_Some_conv kept_def split: option.splits)
    qed
  qed
qed

lemma auto_step_result:
  assumes "auto_step wanted name title ty mode ((st, es, off), g) = Some ((st', es', off'), g')" "ty \<noteq> LOADER_SDBOOT"
  shows "kept g g' \<and> (\<exists>new. es' = es @ new \<and> extras new = [])"
  using assms auto_item_result [OF _ assms(2)]
  by (auto simp: auto_step_def bind_eq_Some_conv split: if_splits intro: exI [of _ "[]"])
    (blast, meson)

lemma auto_items_result:
  assumes "sdboot_boot_add_auto_items setup es off g = Some ((st, es'), g')"
  shows "kept g g' \<and> (\<exists>new. es' = es @ new \<and> extras new = [])"
proof (cases "g_menu g = None \<or> g_sdboot g = None")
  case True
  with assms show ?thesis by (auto simp: sdboot_boot_add_auto_items_def split: option.splits)
next
  case False
  then obtain m sd where m: "g_menu g = Some m" "g_sdboot g = Some sd" by auto
  from assms m obtain flags g1 fw rb po g2 st3 es3 off3 g3 st4 es4 off4 g4 off5 where r:
    "sdboot_boot_find_auto_items (mn_loaders m)
       (sm_auto_firmware (sd_menu sd) \<and> setup, sm_auto_reboot (sd_menu sd), sm_auto_poweroff (sd_menu sd)) g = Some (flags, g1)"
    "sdboot_boot_find_auto_items es flags g1 = Some ((fw, rb, po), g2)"
    "auto_step fw ''sdboot-auto-firmware'' ''Reboot Into Firmware Interface''
       LOADER_EFISETUP None ((EFI_SUCCESS, es, off), g2) = Some ((st3, es3, off3), g3)"
    "auto_step po ''sdboot-auto-shutdown'' ''Shut Down The System'' LOADER_REBOOT (Some ''shutdown'')
       ((st3, es3, off3), g3) = Some ((st4, es4, off4), g4)"
    "auto_step rb ''sdboot-auto-reboot'' ''Reboot The System'' LOADER_REBOOT (Some ''reboot'')
       ((st4, es4, off4), g4) = Some ((st, es', off5), g')"
    unfolding sdboot_boot_add_auto_items_def by (auto simp: bind_eq_Some_conv)
  have "kept g g2" using r(1,2) by (meson keeps kept_trans)
  moreover from auto_step_result [OF r(3)] obtain n3 where "kept g2 g3" "es3 = es @ n3" "extras n3 = []" by auto
  moreover from auto_step_result [OF r(4)] obtain n4 where "kept g3 g4" "es4 = es3 @ n4" "extras n4 = []" by auto
  moreover from auto_step_result [OF r(5)] obtain n5 where "kept g4 g'" "es' = es4 @ n5" "extras n5 = []" by auto
  ultimately show ?thesis by (auto intro: kept_trans intro!: exI [of _ "n3 @ n4 @ n5"])
qed

lemma drop_pending_kept: "sdboot_drop_pending es g = Some g' \<Longrightarrow> kept g g'"
  by (induction es g rule: sdboot_drop_pending.induct)
    (auto simp: bind_eq_Some_conv kept_def split: option.splits)

text \<open>Setting priorities and sorting change no entry otherwise.\<close>

lemma set_priority_fields [simp]:
  "fst (set_priority ps e) = fst e" "ll_name (snd (set_priority ps e)) = ll_name (snd e)"
  "extra_of (set_priority ps e) = extra_of e"
  by (auto simp: set_priority_def extra_of_def split: option.splits)

lemma extras_set_priority [simp]: "extras (map (set_priority ps) es) = extras es"
  by (induction es) simp_all

lemma mset_extras_cong: "mset es = mset es' \<Longrightarrow> mset (extras es) = mset (extras es')"
proof -
  have "mset (extras es) = mset (map (the \<circ> extra_of) (filter (\<lambda>e. extra_of e \<noteq> None) es))" for es
    by (induction es) auto
  moreover assume "mset es = mset es'"
  ultimately show ?thesis by (metis mset_filter mset_map)
qed

text \<open>A menu entry without its priority.\<close>

definition same_item :: "entry \<Rightarrow> entry \<Rightarrow> bool" where
  "same_item e e' \<longleftrightarrow> fst e' = fst e \<and> (\<exists>p. snd e' = (snd e)\<lparr>ll_priority := p\<rparr>)"

lemma same_item_set_priority: "same_item e (set_priority ps e)"
  by (auto simp: same_item_def set_priority_def split: option.splits intro: exI [of _ "ll_priority (snd e)"])

lemma add_items_result:
  assumes "sdboot_boot_add_items setup g = Some (st, g')" "g_menu g = Some m" "g_sdboot g = Some sd"
    and "distinct (extras (mn_loaders m))"
  shows "if EFI_ERROR st then kept g g'
     else \<exists>es. g_menu g' = Some (m\<lparr>mn_loaders := es\<rparr>) \<and> sorted (map (\<lambda>e. ll_priority (snd e)) es) \<and>
       distinct (extras es) \<and> set (extras es) = set (extras (mn_loaders m)) \<union> fst ` set (sd_loaders sd) \<and>
       (\<forall>e \<in> set (mn_loaders m). \<exists>e' \<in> set es. same_item e e')"
proof -
  obtain ok p1 g1 where a: "sdboot_new_items (sm_editor (sd_menu sd)) (mn_loaders m) (sd_loaders sd) [] g = ((ok, p1), g1)"
    by (cases "sdboot_new_items (sm_editor (sd_menu sd)) (mn_loaders m) (sd_loaders sd) [] g") auto
  from new_items_result [OF a] have a': "kept g g1" "set (extras p1) \<subseteq> fst ` set (sd_loaders sd)"
    "distinct (extras p1)" "set (extras (mn_loaders m)) \<inter> set (extras p1) = {}"
    "ok \<longrightarrow> fst ` set (sd_loaders sd) \<subseteq> set (extras (mn_loaders m)) \<union> set (extras p1)"
    by (auto dest: calm_kept)
  have drop: "kept h g'" if "do { g \<leftarrow> sdboot_drop_pending es h; Some (EFI_OUT_OF_RESOURCES, g) } = Some (st, g')" for es h
    using that by (auto simp: bind_eq_Some_conv dest: drop_pending_kept)
  have oom: "EFI_ERROR st" if "do { g \<leftarrow> sdboot_drop_pending es h; Some (EFI_OUT_OF_RESOURCES, g) } = Some (st, g')" for es h
    using that by (auto simp: bind_eq_Some_conv)
  note run = assms(1) [unfolded sdboot_boot_add_items_def assms(2,3) option.case prod.case a Let_def]
  show ?thesis
  proof (cases ok)
    case False
    then have r: "do { g \<leftarrow> sdboot_drop_pending p1 g1; Some (EFI_OUT_OF_RESOURCES, g) } = Some (st, g')" using run by simp
    from oom [OF r] kept_trans [OF a'(1) drop [OF r]] show ?thesis by simp
  next
    case ok: True
    from run ok obtain st2 ps off g2 where b: "sdboot_items_prepare p1 g1 = Some ((st2, ps, off), g2)"
      by (auto simp: bind_eq_Some_conv)
    have k2: "kept g g2" using a'(1) items_prepare_result [OF b] by (auto intro: kept_trans)
    show ?thesis
    proof (cases "EFI_ERROR st2")
      case True
      with run ok b have r: "do { g \<leftarrow> sdboot_drop_pending p1 g2; Some (EFI_OUT_OF_RESOURCES, g) } = Some (st, g')" by simp
      from oom [OF r] kept_trans [OF k2 drop [OF r]] show ?thesis by simp
    next
      case False
      with run ok b obtain st3 p3 g3 where c: "sdboot_boot_add_auto_items setup p1 off g2 = Some ((st3, p3), g3)"
        and run2: "(if EFI_ERROR st3 then do { g \<leftarrow> sdboot_drop_pending p3 g3; Some (EFI_OUT_OF_RESOURCES, g) }
            else Some (EFI_SUCCESS, embloader_sort_menu_loaders (sdboot_items_publish p3 ps g3))) = Some (st, g')"
        by (auto simp: bind_eq_Some_conv)
      from auto_items_result [OF c] obtain new where p3: "p3 = p1 @ new" "extras new = []" and k3: "kept g g3"
        using k2 by (auto intro: kept_trans)
      show ?thesis
      proof (cases "EFI_ERROR st3")
        case True
        with run2 have r: "do { g \<leftarrow> sdboot_drop_pending p3 g3; Some (EFI_OUT_OF_RESOURCES, g) } = Some (st, g')" by simp
        from oom [OF r] kept_trans [OF k3 drop [OF r]] show ?thesis by simp
      next
        case False
        have m3: "g_menu g3 = Some m" "g_sdboot g3 = Some sd" using k3 assms(2,3) by (simp_all add: kept_def)
        let ?all = "map (set_priority ps) (mn_loaders m @ p3)"
        let ?es = "sort_key (\<lambda>e. ll_priority (snd e)) ?all"
        from run2 False have st: "st = EFI_SUCCESS" "g_menu g' = Some (m\<lparr>mn_loaders := ?es\<rparr>)"
          using m3 by (auto simp: embloader_sort_menu_loaders_def sdboot_items_publish_def)
        have ex: "mset (extras ?es) = mset (extras (mn_loaders m) @ extras p1)"
          using mset_extras_cong [of ?es ?all] p3 by (simp add: extras_set_priority [of ps "mn_loaders m @ p3", simplified])
        have "distinct (extras ?es)"
          using a'(3,4) assms(4) ex by (metis distinct_append mset_eq_imp_distinct_iff)
        moreover have "set (extras ?es) = set (extras (mn_loaders m)) \<union> fst ` set (sd_loaders sd)"
          using a'(2,5) ok mset_eq_setD [OF ex] by auto
        moreover have "\<forall>e \<in> set (mn_loaders m). \<exists>e' \<in> set ?es. same_item e e'"
          using same_item_set_priority by auto
        ultimately show ?thesis using st by auto
      qed
    qed
  qed
qed

text \<open>Without automatic entries it always returns.\<close>

definition no_auto :: "sdboot_menu \<Rightarrow> bool" where
  "no_auto sd \<longleftrightarrow> \<not> sm_auto_firmware (sd_menu sd) \<and> \<not> sm_auto_reboot (sd_menu sd) \<and> \<not> sm_auto_poweroff (sd_menu sd)"

lemma find_auto_none: "sdboot_boot_find_auto_items es (False, False, False) g = Some ((False, False, False), g)"
  by (induction es) (simp_all add: Let_def)

lemma auto_items_none:
  assumes "g_menu g = Some m" "g_sdboot g = Some sd" "no_auto sd"
  shows "sdboot_boot_add_auto_items setup es off g = Some ((EFI_SUCCESS, es), g)"
  using assms find_auto_none by (simp add: sdboot_boot_add_auto_items_def no_auto_def auto_step_def)

lemma drop_pending_returns: "\<forall>e \<in> set es. ll_node (snd e) = None \<Longrightarrow> sdboot_drop_pending es g = Some g"
  by (induction es) auto

definition offset_path :: "pcomp list" where
  "offset_path = [PKey ''menu'', PKey ''sdboot'', PKey ''priority-offset'']"

lemma gget_int_returns:
  assumes "good_config g t" "\<forall>c \<in> set cs. good_comp c"
  shows "\<exists>r s. gget_int (g_config g) (path_text cs) def g = Some (r, g\<lparr>g_cs := s\<rparr>)"
proof -
  have t: "g_config g = Some (at_addr t)" "holds (nodes (g_cs g)) None t" "twf t" "no_oom (g_cs g)"
    using assms(1) by (simp_all add: good_config_def)
  obtain s where s: "confignode_path_lookup (Some (at_addr t)) (Some (path_text cs)) False (g_cs g) =
      Some (map_option at_addr (tree_at t cs), s)"
    using path_lookup_tree [OF t(2,3) assms(2) t(4)] by (auto simp: confignode_path_lookup_def)
  show ?thesis
  proof (cases "tree_at t cs")
    case None
    with s t(1) show ?thesis by (auto simp: gget_int_def on_cs_def confignode_path_get_int_def)
  next
    case (Some u)
    from tree_at_sub [OF Some t(2,3)] obtain p where u: "holds (nodes (g_cs g)) p u" "twf u" by blast
    have "nodes s = nodes (g_cs g)" using reads_only_nodes [OF confignode_path_lookup_reads [OF s]] by simp
    with u have "\<exists>r. confignode_value_get_int (Some (at_addr u)) def s = Some r"
      by (cases u) (auto simp: confignode_value_get_int_def node_at_def)
    with s t(1) Some show ?thesis by (auto simp: gget_int_def on_cs_def confignode_path_get_int_def)
  qed
qed

lemma add_items_returns:
  assumes "good_config g t" "g_menu g = Some m" "g_sdboot g = Some sd" "no_auto sd"
  shows "\<exists>st g'. sdboot_boot_add_items setup g = Some (st, g')"
proof -
  obtain ok p1 g1 where a: "sdboot_new_items (sm_editor (sd_menu sd)) (mn_loaders m) (sd_loaders sd) [] g = ((ok, p1), g1)"
    by (cases "sdboot_new_items (sm_editor (sd_menu sd)) (mn_loaders m) (sd_loaders sd) [] g") auto
  from new_items_result [OF a] have c1: "calm g g1" and nn: "\<forall>e \<in> set p1. ll_node (snd e) = None" by auto
  have m1: "g_menu g1 = Some m" "g_sdboot g1 = Some sd" using c1 assms(2,3) by (simp_all add: calm_def kept_def)
  obtain st2 it2 g2 where b: "sdboot_items_collect (mn_loaders m) [] g1 = ((st2, it2), g2)"
    by (cases "sdboot_items_collect (mn_loaders m) [] g1") auto
  obtain st3 it3 g3 where c: "sdboot_items_collect p1 it2 g2 = ((st3, it3), g3)"
    by (cases "sdboot_items_collect p1 it2 g2") auto
  have "calm g g3" using c1 items_collect_result [OF b] items_collect_result [OF c] by (auto intro: calm_trans)
  from calm_config [OF assms(1) this] have gc: "good_config g3 t" .
  have "\<forall>c \<in> set offset_path. good_comp c" "path_text offset_path = ''menu.sdboot.priority-offset''"
    by (simp_all add: offset_path_def good_comp_def path_text_def)
  from gget_int_returns [OF gc this(1)] this(2) obtain r s where
    "gget_int (g_config g3) ''menu.sdboot.priority-offset'' 100 g3 = Some (r, g3\<lparr>g_cs := s\<rparr>)" by metis
  then have "\<exists>st ps off g4. sdboot_items_prepare p1 g1 = Some ((st, ps, off), g4)"
    using m1 b c by (auto simp: sdboot_items_prepare_def Let_def)
  then obtain st4 ps off g4 where d: "sdboot_items_prepare p1 g1 = Some ((st4, ps, off), g4)" by blast
  have "kept g g4" using items_prepare_result [OF d] calm_kept [OF c1] by (auto intro: kept_trans)
  with assms(2,3) have "g_menu g4 = Some m" "g_sdboot g4 = Some sd" by (simp_all add: kept_def)
  from auto_items_none [OF this assms(4)] show ?thesis
    using assms(2,3) a d drop_pending_returns [OF nn] by (auto simp: sdboot_boot_add_items_def)
qed

end
