(* ===== verification/ExtlinuxFacts.thy ===== *)
theory ExtlinuxFacts
  imports Extlinux SdbootItems
begin

text \<open>
  The names of the entries \<open>extlinux.conf\<close> adds clash with no other entry, and its timeout fits.
\<close>

section \<open>The timeout\<close>

lemma parse_timeout_range:
  assumes "0 \<le> t" "t \<le> INT_MAX"
  shows "0 \<le> snd (extlinux_parse_timeout val t) \<and> snd (extlinux_parse_timeout val t) \<le> INT_MAX"
proof -
  have v: "0 \<le> sr_val (strtoull 10 val)"
    by (simp add: strtoull_def split: option.splits prod.splits)
  have m: "0 \<le> INT_MAX" by (simp add: INT_MAX_def)
  show ?thesis
  proof (cases "val = [] \<or> sr_range (strtoull 10 val) \<or> sr_end (strtoull 10 val) \<noteq> [] \<or>
      sr_val (strtoull 10 val) > int SIZE_MAX - 9")
    case True
    then have "extlinux_parse_timeout val t = (False, t)" by (auto simp: extlinux_parse_timeout_def)
    with assms show ?thesis by simp
  next
    case False
    define d where "d = (sr_val (strtoull 10 val) + 9) div 10"
    have "0 \<le> d" using v by (simp add: d_def)
    moreover have "extlinux_parse_timeout val t = (True, if d > INT_MAX then INT_MAX else d)"
      using False by (simp add: extlinux_parse_timeout_def d_def Let_def)
    ultimately show ?thesis using m by simp
  qed
qed

lemma strtoull_int_dec:
  assumes "nat \<bar>v\<bar> \<le> SIZE_MAX"
  shows "strtoull 10 (int_dec v) = \<lparr>sr_val = v mod (int SIZE_MAX + 1), sr_end = [], sr_range = False\<rparr>"
  using strto_scan_int_dec [of "[]" v] assms by (simp add: strtoull_def)

text \<open>
  A number of tenths is rounded up to seconds. A negative number is taken modulo \<open>2 ^ 64\<close>, so that
  all but the last nine of them give a timeout.
\<close>

lemma parse_timeout_int_dec:
  "extlinux_parse_timeout (int_dec v) t =
     (if 0 \<le> v \<and> v \<le> 2 ^ 64 - 10 then (True, min INT_MAX ((v + 9) div 10))
      else if - (2 ^ 64) < v \<and> v \<le> -10 then (True, min INT_MAX ((v + 2 ^ 64 + 9) div 10))
      else (False, t))"
proof -
  have S: "int SIZE_MAX = 2 ^ 64 - 1" by (simp add: SIZE_MAX_def)
  have ne: "int_dec v \<noteq> []" by (simp add: int_dec_def)
  have scan: "strto_scan 10 (int_dec v) = Some (v < 0, nat \<bar>v\<bar>, [])"
    using strto_scan_int_dec [of "[]" v] by simp
  consider "\<bar>v\<bar> \<ge> 2 ^ 64" | "0 \<le> v" "v < 2 ^ 64" | "v < 0" "- (2 ^ 64) < v" by linarith
  then show ?thesis
  proof cases
    case 1
    then have "SIZE_MAX < nat \<bar>v\<bar>" by (simp add: SIZE_MAX_def)
    then have "extlinux_parse_timeout (int_dec v) t = (False, t)"
      by (simp add: extlinux_parse_timeout_def strtoull_def scan)
    with 1 show ?thesis by auto
  next
    case 2
    then have "nat \<bar>v\<bar> \<le> SIZE_MAX" by (simp add: SIZE_MAX_def)
    moreover have "v mod (int SIZE_MAX + 1) = v" using 2 S by simp
    ultimately have "extlinux_parse_timeout (int_dec v) t =
        (if v > int SIZE_MAX - 9 then (False, t) else (True, min INT_MAX ((v + 9) div 10)))"
      using ne by (simp add: extlinux_parse_timeout_def strtoull_int_dec Let_def min_def)
    with 2 S show ?thesis by auto
  next
    case 3
    then have "nat \<bar>v\<bar> \<le> SIZE_MAX" by (simp add: SIZE_MAX_def nat_le_iff)
    moreover have "(v + (int SIZE_MAX + 1)) mod (int SIZE_MAX + 1) = v + (int SIZE_MAX + 1)"
      using 3 S by (intro mod_pos_pos_trivial) simp_all
    then have "v mod (int SIZE_MAX + 1) = v + 2 ^ 64" unfolding S by (simp only: mod_add_self2)
    ultimately have "extlinux_parse_timeout (int_dec v) t =
        (if v + 2 ^ 64 > int SIZE_MAX - 9 then (False, t) else (True, min INT_MAX ((v + 2 ^ 64 + 9) div 10)))"
      using ne by (simp add: extlinux_parse_timeout_def strtoull_int_dec Let_def min_def)
    with 3 S show ?thesis by auto
  qed
qed

section \<open>Names\<close>

text \<open>The names of the labels are different without regard to case, and no entry of the menu has one.\<close>

definition names_ok :: "extlinux_parser \<Rightarrow> embloader \<Rightarrow> bool" where
  "names_ok p g \<longleftrightarrow> (\<forall>l \<in> set (ep_labels p). embloader_find_loader (Some (el_name l)) g = None) \<and>
     sorted_wrt (\<lambda>a b. strcasecmp (el_name a) (el_name b) \<noteq> 0) (ep_labels p)"

lemma find_loader_kept: "kept g g' \<Longrightarrow> embloader_find_loader n g' = embloader_find_loader n g"
  by (simp add: embloader_find_loader_def kept_def split: option.splits)

lemma names_ok_kept: "kept g g' \<Longrightarrow> ep_labels p' = ep_labels p \<Longrightarrow> names_ok p' g' \<longleftrightarrow> names_ok p g"
  by (simp add: names_ok_def find_loader_kept)

lemma name_exists_kept: "kept g g' \<Longrightarrow> extlinux_name_exists p n g' \<longleftrightarrow> extlinux_name_exists p n g"
  by (simp add: extlinux_name_exists_def find_loader_kept)

lemma gget_string_kept [keeps]: "gget_string node path def g = Some (r, g') \<Longrightarrow> kept g g'"
  by (auto simp: gget_string_def bind_eq_Some_conv dest: keeps)

lemma gclean_kept [keeps]: "gclean n g = Some g' \<Longrightarrow> kept g g'"
  by (auto simp: gclean_def bind_eq_Some_conv kept_def split: option.splits)

lemma set_string_kept [keeps]: "extlinux_set_string node path val g = Some (ok, g') \<Longrightarrow> kept g g'"
  by (auto simp: extlinux_set_string_def dest: keeps split: if_splits)

lemma append_values_kept [keeps]:
  assumes "extlinux_append_values node path val g = Some (ok, g')" shows "kept g g'"
proof (cases "node = None")
  case True
  with assms show ?thesis by (simp add: extlinux_append_values_def)
next
  case False
  obtain b g1 where a: "galloc g = (b, g1)" by (cases "galloc g")
  with assms False have "\<not> b \<and> g' = g1 \<or> on_cs (append_values_loop node path val False) g1 = Some (ok, g')"
    by (auto simp: extlinux_append_values_def split: if_splits)
  with galloc_kept [OF a] show ?thesis by (auto dest: on_cs_kept intro: kept_trans)
qed

lemma unique_loop_free:
  assumes "unique_loop p base n g = Some (r, g')"
  shows "kept g g' \<and> (\<forall>m. r = Some m \<longrightarrow> \<not> extlinux_name_exists p m g)"
proof -
  let ?P = "\<lambda>p base n g y. kept g (snd y) \<and> (\<forall>m. fst y = Some m \<longrightarrow> \<not> extlinux_name_exists p m g)"
  have "?P p base n g (r, g')"
  proof (rule unique_loop.raw_induct [of ?P p base n g "(r, g')", OF _ assms], goal_cases)
    case (1 f p base n g y)
    obtain r1 g1 where d: "gstrdup (Some (base @ ''-'' @ nat_dec n)) g = (r1, g1)" by fastforce
    note k = gstrdup_kept [OF d]
    consider "r1 = None" | m where "r1 = Some m" "extlinux_name_exists p m g1"
      | m where "r1 = Some m" "\<not> extlinux_name_exists p m g1" by (cases r1) blast+
    then show ?case
    proof cases
      case 1
      with \<open>_ = Some y\<close> d k show ?thesis by (auto simp: Let_def)
    next
      case 2
      with \<open>_ = Some y\<close> d have "f p base ((n + 1) mod 2 ^ 32) g1 = Some y" by (simp add: Let_def)
      from \<open>\<And>p base n g y. f p base n g = Some y \<Longrightarrow> _ p base n g y\<close> [OF this] k
      show ?thesis by (auto intro: kept_trans simp: name_exists_kept)
    next
      case 3
      with \<open>_ = Some y\<close> d k show ?thesis by (auto simp: Let_def name_exists_kept)
    qed
  qed
  then show ?thesis by simp
qed

text \<open>A step of the parser leaves the menu alone and keeps the names apart.\<close>

definition names_step :: "extlinux_parser \<Rightarrow> embloader \<Rightarrow> extlinux_parser \<Rightarrow> embloader \<Rightarrow> bool" where
  "names_step p g p' g' \<longleftrightarrow> kept g g' \<and> (names_ok p g \<longrightarrow> names_ok p' g')"

lemma names_step_trans [trans]:
  "names_step p g p1 g1 \<Longrightarrow> names_step p1 g1 p2 g2 \<Longrightarrow> names_step p g p2 g2"
  by (auto simp: names_step_def intro: kept_trans)

lemma names_step_same: "kept g g' \<Longrightarrow> ep_labels p' = ep_labels p \<Longrightarrow> names_step p g p' g'"
  by (simp add: names_step_def names_ok_kept)

lemma names_step_new:
  assumes "kept g g'" "\<not> extlinux_name_exists p n g" "ep_labels p' = ep_labels p @ [\<lparr>el_label = l, el_name = n\<rparr>]"
  shows "names_step p g p' g'"
  using assms
  by (cases "embloader_find_loader (Some n) g")
     (auto simp: names_step_def names_ok_def extlinux_name_exists_def find_loader_kept sorted_wrt_append)

lemma drop_current_labels [simp]: "ep_labels (drop_current p) = ep_labels p"
  by (simp add: drop_current_def)

lemma free_name:
  assumes "(if extlinux_name_exists p n g then unique_loop p n 2 g else Some (Some n, g)) = Some (r, g')"
  shows "kept g g' \<and> (\<forall>m. r = Some m \<longrightarrow> \<not> extlinux_name_exists p m g)"
  using assms unique_loop_free [of p n 2 g r g'] by (auto split: if_splits)

lemma finish_label_names:
  assumes "extlinux_finish_label p g = Some ((ok, p'), g')"
  shows "names_step p g p' g'"
proof (cases "ep_current p")
  case None
  with assms show ?thesis by (auto simp: extlinux_finish_label_def intro: names_step_same)
next
  case (Some c)
  show ?thesis
  proof (cases "ep_current_label p")
    case None
    with assms Some show ?thesis by (auto simp: extlinux_finish_label_def intro: names_step_same)
  next
    case (Some label)
    with assms \<open>ep_current p = Some c\<close> obtain kernel g1 where
      k: "gget_string (Some c) ''kernel'' None g = Some (kernel, g1)"
      by (auto simp: extlinux_finish_label_def bind_eq_Some_conv)
    note k1 = gget_string_kept [OF k]
    show ?thesis
    proof (cases "kernel = None \<or> kernel = Some []")
      case True
      with assms Some \<open>ep_current p = Some c\<close> k obtain g2 where "gclean (Some c) g1 = Some g2" "p' = drop_current p" "g' = g2"
        by (auto simp: extlinux_finish_label_def bind_eq_Some_conv)
      with k1 show ?thesis by (auto intro!: names_step_same dest: keeps intro: kept_trans)
    next
      case False
      obtain r2 g2 where d: "gstrdup (Some (''extlinux-'' @ label)) g1 = (r2, g2)" by fastforce
      note k2 = kept_trans [OF k1 gstrdup_kept [OF d]]
      show ?thesis
      proof (cases r2)
        case None
        with assms Some \<open>ep_current p = Some c\<close> k False d have "p' = p" "g' = g2"
          by (auto simp: extlinux_finish_label_def bind_eq_Some_conv)
        with k2 show ?thesis by (simp add: names_step_same)
      next
        case (Some n)
        with assms \<open>ep_current p = Some c\<close> \<open>ep_current_label p = Some label\<close> k False d obtain r3 g3 where
          u: "(if extlinux_name_exists p n g2 then unique_loop p n 2 g2 else Some (Some n, g2)) = Some (r3, g3)"
          by (auto simp: extlinux_finish_label_def bind_eq_Some_conv)
        have k3: "kept g g3" and free: "\<And>m. r3 = Some m \<Longrightarrow> \<not> extlinux_name_exists p m g"
          using free_name [OF u] k2 by (auto intro: kept_trans simp: name_exists_kept [OF k2])
        have rest: "(case r3 of
              None \<Rightarrow> Some ((False, p), g3)
            | Some n \<Rightarrow>
                let (ok, g) = galloc g3 in
                if \<not> ok then Some ((False, p), g)
                else let (dup, g) = gstrdup (Some label) g
                in case dup of
                     None \<Rightarrow> Some ((False, p), g)
                   | Some l \<Rightarrow> do {
                       (ok, g) \<leftarrow> on_cs (confignode_map_set (ep_entries p) (Some n) (ep_current p)) g;
                       (if \<not> ok then Some ((False, p), g)
                        else let (cell, g) = galloc g; p = drop_current p
                             in if cell
                                then Some ((True, p\<lparr>ep_labels := ep_labels p @ [\<lparr>el_label = l, el_name = n\<rparr>]\<rparr>), g)
                                else Some ((False, p), g))
                     }) = Some ((ok, p'), g')"
          using assms \<open>ep_current p = Some c\<close> \<open>ep_current_label p = Some label\<close> k False d Some u
          by (simp add: extlinux_finish_label_def)
        show ?thesis
        proof (cases r3)
          case None
          with rest k3 show ?thesis by (simp add: names_step_same)
        next
          case (Some m)
          obtain b4 g4 where a4: "galloc g3 = (b4, g4)" by fastforce
          obtain r5 g5 where a5: "gstrdup (Some label) g4 = (r5, g5)" by fastforce
          have k4: "kept g g4" "kept g g5" using k3 galloc_kept [OF a4] gstrdup_kept [OF a5] by (meson kept_trans)+
          show ?thesis
          proof (cases "b4 \<and> r5 \<noteq> None")
            case False
            with rest Some a4 a5 k4 show ?thesis by (auto intro: names_step_same split: if_splits)
          next
            case True
            then obtain l where l: "r5 = Some l" by auto
            with True rest Some a4 a5 obtain b6 g6 where
              m: "on_cs (confignode_map_set (ep_entries p) (Some m) (ep_current p)) g5 = Some (b6, g6)"
              by (auto simp: bind_eq_Some_conv)
            obtain b7 g7 where a7: "galloc g6 = (b7, g7)" by fastforce
            have k6: "kept g g6" "kept g g7" using k4 on_cs_kept [OF m] galloc_kept [OF a7] by (meson kept_trans)+
            from True l rest Some a4 a5 m a7 k6 free [OF Some] show ?thesis
              by (auto simp: Let_def intro: names_step_same names_step_new split: if_splits)
          qed
        qed
      qed
    qed
  qed
qed

lemma label_line_names:
  assumes "extlinux_label_line p val g = Some ((ok, p'), g')"
  shows "names_step p g p' g'"
proof (cases "val = []")
  case True
  with assms show ?thesis by (auto simp: extlinux_label_line_def intro: names_step_same)
next
  case False
  with assms obtain b p1 g1 where f: "extlinux_finish_label p g = Some ((b, p1), g1)"
    by (auto simp: extlinux_label_line_def bind_eq_Some_conv)
  have "names_step p1 g1 p' g'"
  proof (cases b)
    case False
    with assms f \<open>val \<noteq> []\<close> show ?thesis by (auto simp: extlinux_label_line_def intro: names_step_same)
  next
    case True
    with assms f False obtain node g2 where m: "on_cs confignode_new_map g1 = Some (node, g2)"
      by (auto simp: extlinux_label_line_def bind_eq_Some_conv)
    obtain d g3 where s: "gstrdup (Some val) g2 = (d, g3)" by fastforce
    have k: "kept g1 g2" "kept g1 g3" using on_cs_kept [OF m] gstrdup_kept [OF s] by (meson kept_trans)+
    show ?thesis
    proof (cases "node = None \<or> d = None")
      case True
      with assms f \<open>b\<close> False m s k show ?thesis
        by (auto simp: extlinux_label_line_def Let_def intro!: names_step_same split: if_splits)
    next
      case False
      with assms f \<open>b\<close> \<open>val \<noteq> []\<close> m s obtain b4 g4 where
        t: "extlinux_set_string node ''type'' ''linux'' g3 = Some (b4, g4)"
        by (auto simp: extlinux_label_line_def bind_eq_Some_conv Let_def)
      have "kept g4 g'" "ep_labels p' = ep_labels p1"
        using assms f \<open>b\<close> \<open>val \<noteq> []\<close> m s False t
        by (auto simp: extlinux_label_line_def bind_eq_Some_conv Let_def dest: keeps split: if_splits)
      moreover have "kept g1 g4" using k set_string_kept [OF t] by (meson kept_trans)
      ultimately show ?thesis by (meson kept_trans names_step_same)
    qed
  qed
  with finish_label_names [OF f] show ?thesis by (rule names_step_trans)
qed

lemma menu_line_names:
  assumes "extlinux_menu_line p val g = Some ((ok, p'), g')"
  shows "names_step p g p' g'"
proof (rule names_step_same)
  show "kept g g'" using assms
    by (auto simp: extlinux_menu_line_def bind_eq_Some_conv dest: keeps split: option.splits if_splits prod.splits)
  show "ep_labels p' = ep_labels p" using assms
    by (auto simp: extlinux_menu_line_def bind_eq_Some_conv split: option.splits if_splits prod.splits)
qed

lemma entry_line_kept [keeps]: "extlinux_entry_line p key val g = Some (ok, g') \<Longrightarrow> kept g g'"
  unfolding extlinux_entry_line_def extlinux_join_path_def
  by (elim if_result) (auto dest: keeps split: option.splits if_splits prod.splits intro: kept_trans)

lemma other_line_names:
  assumes "extlinux_parse_line p line g = Some ((ok, p'), g')" "extlinux_split line = Some (key, val)"
    "\<not> is_key key ''LABEL''" "\<not> is_key key ''MENU''"
  shows "kept g g' \<and> ep_labels p' = ep_labels p"
proof (cases "is_key key ''DEFAULT'' \<or> is_key key ''ONTIMEOUT''")
  case True
  with assms show ?thesis
    by (auto simp: extlinux_parse_line_def Let_def dest: keeps split: if_splits prod.splits)
next
  case False
  show ?thesis
    using assms(1) unfolding extlinux_parse_line_def assms(2) option.case prod.case if_not_P [OF assms(3)]
      if_not_P [OF assms(4)] if_not_P [OF False]
    by (elim if_result) (auto simp: Let_def bind_eq_Some_conv dest: keeps split: if_splits prod.splits)
qed

lemma parse_line_names:
  assumes "extlinux_parse_line p line g = Some ((ok, p'), g')"
  shows "names_step p g p' g'"
proof (cases "extlinux_split line")
  case None
  with assms show ?thesis by (auto simp: extlinux_parse_line_def intro: names_step_same)
next
  case (Some kv)
  obtain key val where kv: "extlinux_split line = Some (key, val)" using Some by (cases kv) simp
  consider "is_key key ''LABEL''" | "\<not> is_key key ''LABEL''" "is_key key ''MENU''"
    | "\<not> is_key key ''LABEL''" "\<not> is_key key ''MENU''" by blast
  then show ?thesis
  proof cases
    case 1
    with assms kv show ?thesis by (auto simp: extlinux_parse_line_def intro: label_line_names)
  next
    case 2
    with assms kv show ?thesis by (auto simp: extlinux_parse_line_def intro: menu_line_names)
  next
    case 3
    from other_line_names [OF assms kv 3] show ?thesis by (simp add: names_step_same)
  qed
qed

lemma content_loop_names:
  "extlinux_content_loop p content g = Some ((ok, p'), g') \<Longrightarrow> names_step p g p' g'"
proof (induction p content g rule: extlinux_content_loop.induct)
  case (1 p content g)
  show ?case
  proof (cases "content = []")
    case True
    with "1.prems" show ?thesis by (auto simp: extlinux_content_loop.simps intro: names_step_same)
  next
    case False
    let ?line = "takeWhile (\<lambda>c. c \<noteq> LF) content"
    from False "1.prems" obtain b p1 g1 where l: "extlinux_parse_line p ?line g = Some ((b, p1), g1)"
      by (auto simp: extlinux_content_loop.simps [of p content g] bind_eq_Some_conv)
    note s = parse_line_names [OF l]
    show ?thesis
    proof (cases b)
      case True
      with False "1.prems" l
      have "extlinux_content_loop p1 (drop 1 (dropWhile (\<lambda>c. c \<noteq> LF) content)) g1 = Some ((ok, p'), g')"
        by (simp add: extlinux_content_loop.simps [of p content g])
      from "1.IH" [OF False l _ _ _ this] True have "names_step p1 g1 p' g'" by simp
      with s show ?thesis by (rule names_step_trans)
    next
      case b: False
      with False "1.prems" l s show ?thesis by (simp add: extlinux_content_loop.simps [of p content g])
    qed
  qed
qed

lemma parse_content_names:
  assumes "extlinux_parse_content p content g = Some ((ok, p'), g')"
  shows "names_step p g p' g'"
proof -
  from assms obtain b p1 g1 where
    l: "extlinux_content_loop p (takeWhile (\<lambda>c. c \<noteq> NUL) content) g = Some ((b, p1), g1)"
    by (auto simp: extlinux_parse_content_def bind_eq_Some_conv)
  note s = content_loop_names [OF l]
  show ?thesis
  proof (cases b)
    case True
    with assms l have "extlinux_finish_label p1 g1 = Some ((ok, p'), g')" by (simp add: extlinux_parse_content_def)
    from s finish_label_names [OF this] show ?thesis by (rule names_step_trans)
  next
    case False
    with assms l s show ?thesis by (simp add: extlinux_parse_content_def)
  qed
qed

section \<open>A label whose name is in use\<close>

definition ext_demo_parser :: extlinux_parser where
  "ext_demo_parser = zero_parser\<lparr>ep_entries := Some 1, ep_current := Some 2, ep_current_label := Some ''a''\<rparr>"

definition ext_demo_state :: embloader where
  "ext_demo_state = \<lparr>g_cs = \<lparr>nodes = [1 \<mapsto> fresh_node\<lparr>cn_type := TYPE_MAP\<rparr>,
       2 \<mapsto> fresh_node\<lparr>cn_type := TYPE_MAP, cn_items := [3]\<rparr>,
       3 \<mapsto> fresh_node\<lparr>cn_parent := Some 2, cn_key := Some ''kernel'', cn_type := TYPE_VALUE,
              cn_value := \<lparr>cv_v = VString (Some ''/k''), cv_len = 2\<rparr>\<rparr>],
       cnxt = 4, coom = (\<lambda>_. False), ctick = 0\<rparr>,
     g_next = 5, g_config = Some 1, g_sysinfo = None, g_ktype = None, g_device_name = None, g_profiles = [],
     g_menu = Some (zero_menu\<lparr>mn_loaders := [(9, zero_loader\<lparr>ll_name := Some ''EXTLINUX-A''\<rparr>)]\<rparr>), g_sdboot = None\<rparr>"

declare confignode_clean.simps [code] path_lookup.simps [code] unique_loop.simps [code]

lemma ext_demo_labels:
  "map_option (\<lambda>((ok, p), g). (ok, ep_labels p))
     (extlinux_parse_content ext_demo_parser ''MENU HIDDEN'' ext_demo_state) =
   Some (True, [\<lparr>el_label = ''a'', el_name = ''extlinux-a-2''\<rparr>])"
  by code_simp

end
