(* ===== verification/FdtUtils.thy ===== *)
theory FdtUtils
  imports DeviceTree
begin

text \<open>
  \<open>src/lib/fdt.c\<close> and \<open>src/linux/fdt.c\<close>: reading numbers, registers and ranges from the properties of a device
  tree, and the properties that tell the kernel about its command line, initramfs and memory. A read behind the
  end of a property has no result.
\<close>

section \<open>Error codes of libfdt\<close>

definition FDT_ERR_NOTFOUND :: int where
  "FDT_ERR_NOTFOUND = 1"

definition FDT_ERR_BADOFFSET :: int where
  "FDT_ERR_BADOFFSET = 4"

definition FDT_ERR_BADVALUE :: int where
  "FDT_ERR_BADVALUE = 15"

section \<open>Numbers in properties\<close>

text \<open>The big-endian number in bytes, and the \<open>n\<close> bytes at an offset when they are in the property.\<close>

definition be_bytes :: "cstring \<Rightarrow> nat" where
  "be_bytes bs = foldl (\<lambda>acc c. acc * 256 + cval c) 0 bs"

definition prop_bytes :: "cstring \<Rightarrow> int \<Rightarrow> nat \<Rightarrow> cstring option" where
  "prop_bytes prop off n =
     (if 0 \<le> off \<and> off + int n \<le> int (length prop) then Some (take n (drop (nat off) prop)) else None)"

text \<open>The status and the value of the element \<open>idx\<close>, for elements of \<open>w\<close> bytes; \<open>None\<close> is a read out of bounds.\<close>

definition getprop_checked ::
  "'t fdt_ops \<Rightarrow> nat \<Rightarrow> 't \<Rightarrow> int \<Rightarrow> cstring \<Rightarrow> int \<Rightarrow> (int \<times> nat) option" where
  "getprop_checked F w fdt off name idx =
     (case fo_getprop F fdt off name of
        Inl err \<Rightarrow> Some (err, 0)
      | Inr prop \<Rightarrow>
          if length prop mod w \<noteq> 0 then Some (- FDT_ERR_BADVALUE, 0)
          else if idx < 0 \<or> idx \<ge> int (length prop div w) then Some (- FDT_ERR_BADOFFSET, 0)
          else do { bs \<leftarrow> prop_bytes prop (idx * int w) w; Some (0, be_bytes bs) })"

definition fdt_getprop_u8 :: "'t fdt_ops \<Rightarrow> 't \<Rightarrow> int \<Rightarrow> cstring \<Rightarrow> int \<Rightarrow> (int \<times> nat) option" where
  "fdt_getprop_u8 F = getprop_checked F 1"

definition fdt_getprop_u16 :: "'t fdt_ops \<Rightarrow> 't \<Rightarrow> int \<Rightarrow> cstring \<Rightarrow> int \<Rightarrow> (int \<times> nat) option" where
  "fdt_getprop_u16 F = getprop_checked F 2"

definition fdt_getprop_u32 :: "'t fdt_ops \<Rightarrow> 't \<Rightarrow> int \<Rightarrow> cstring \<Rightarrow> int \<Rightarrow> (int \<times> nat) option" where
  "fdt_getprop_u32 F = getprop_checked F 4"

definition fdt_getprop_u64 :: "'t fdt_ops \<Rightarrow> 't \<Rightarrow> int \<Rightarrow> cstring \<Rightarrow> int \<Rightarrow> (int \<times> nat) option" where
  "fdt_getprop_u64 F = getprop_checked F 8"

text \<open>The loader runs on 64-bit machines.\<close>

definition fdt_getprop_un :: "'t fdt_ops \<Rightarrow> 't \<Rightarrow> int \<Rightarrow> cstring \<Rightarrow> int \<Rightarrow> (int \<times> nat) option" where
  "fdt_getprop_un = fdt_getprop_u64"

section \<open>Cells\<close>

text \<open>A 32-bit value as a signed number.\<close>

definition int32_of :: "nat \<Rightarrow> int" where
  "int32_of v = (if v < 2147483648 then int v else int v - 4294967296)"

text \<open>The property of the node or of the nearest node above that has it.\<close>

partial_function (option) cells_loop :: "'t fdt_ops \<Rightarrow> 't \<Rightarrow> cstring \<Rightarrow> int \<Rightarrow> (int + cstring) option" where
  "cells_loop F fdt name parent =
     (let prop = fo_getprop F fdt parent name; parent = fo_parent_offset F fdt parent
      in case prop of
           Inr p \<Rightarrow> Some (Inr p)
         | Inl err \<Rightarrow> if parent \<ge> 0 then cells_loop F fdt name parent else Some (Inl err))"

definition get_cells :: "'t fdt_ops \<Rightarrow> 't \<Rightarrow> cstring \<Rightarrow> int \<Rightarrow> int option" where
  "get_cells F fdt name off = do {
     prop \<leftarrow> cells_loop F fdt name off;
     Some (case prop of
             Inr p \<Rightarrow> if length p = 4 then int32_of (be_bytes p) else -1
           | Inl err \<Rightarrow> if err < 0 then err else -1)
   }"

definition fdt_get_address_cells :: "'t fdt_ops \<Rightarrow> 't \<Rightarrow> int \<Rightarrow> int option" where
  "fdt_get_address_cells F fdt off = get_cells F fdt ''#address-cells'' off"

definition fdt_get_size_cells :: "'t fdt_ops \<Rightarrow> 't \<Rightarrow> int \<Rightarrow> int option" where
  "fdt_get_size_cells F fdt off = get_cells F fdt ''#size-cells'' off"

definition cells_of :: "'t fdt_ops \<Rightarrow> 't \<Rightarrow> int \<Rightarrow> bool \<Rightarrow> int option" where
  "cells_of F fdt off is_size =
     (let p = (if off = 0 then 0 else fo_parent_offset F fdt off)
      in if is_size then fdt_get_size_cells F fdt p else fdt_get_address_cells F fdt p)"

definition fdt_getprop_uc ::
  "'t fdt_ops \<Rightarrow> 't \<Rightarrow> int \<Rightarrow> cstring \<Rightarrow> int \<Rightarrow> bool \<Rightarrow> (int \<times> nat) option" where
  "fdt_getprop_uc F fdt off name idx is_size = do {
     cells \<leftarrow> cells_of F fdt off is_size;
     (if cells = 1 then do {
        (ret, val) \<leftarrow> fdt_getprop_u32 F fdt off name idx;
        Some (ret, if ret = 0 then val else 0)
      }
      else if cells = 2 then fdt_getprop_u64 F fdt off name idx
      else Some (- FDT_ERR_BADVALUE, 0))
   }"

definition fdt_setprop_uc ::
  "'t fdt_ops \<Rightarrow> 't \<Rightarrow> int \<Rightarrow> cstring \<Rightarrow> nat \<Rightarrow> bool \<Rightarrow> (int \<times> 't) option" where
  "fdt_setprop_uc F fdt off name val is_size = do {
     cells \<leftarrow> cells_of F fdt off is_size;
     Some (if cells = 1 \<and> int val \<le> 4294967295 then fo_setprop_u32 F fdt off name val
           else if cells = 2 then fo_setprop_u64 F fdt off name val
           else (- FDT_ERR_BADVALUE, fdt))
   }"

definition fdt_appendprop_uc ::
  "'t fdt_ops \<Rightarrow> 't \<Rightarrow> int \<Rightarrow> cstring \<Rightarrow> nat \<Rightarrow> bool \<Rightarrow> (int \<times> 't) option" where
  "fdt_appendprop_uc F fdt off name val is_size = do {
     cells \<leftarrow> cells_of F fdt off is_size;
     Some (if cells = 1 \<and> int val \<le> 4294967295 then fo_appendprop_u32 F fdt off name val
           else if cells = 2 then fo_appendprop_u64 F fdt off name val
           else (- FDT_ERR_BADVALUE, fdt))
   }"

section \<open>Registers and ranges\<close>

definition fdt_apply_cells :: "int \<Rightarrow> cstring \<Rightarrow> int \<Rightarrow> (bool \<times> nat) option" where
  "fdt_apply_cells cell prop off =
     (if cell = 0 then Some (True, 0)
      else if cell = 1 then do { bs \<leftarrow> prop_bytes prop off 4; Some (True, be_bytes bs) }
      else if cell = 2 then do { bs \<leftarrow> prop_bytes prop off 8; Some (True, be_bytes bs) }
      else Some (False, 0))"

definition fdt_valid_cells :: "int \<Rightarrow> bool" where
  "fdt_valid_cells cells \<longleftrightarrow> 0 \<le> cells \<and> cells \<le> 2"

text \<open>One entry of \<open>reg\<close>: whether there is one, its base and its size.\<close>

definition fdt_get_reg :: "'t fdt_ops \<Rightarrow> 't \<Rightarrow> int \<Rightarrow> int \<Rightarrow> (bool \<times> nat \<times> nat) option" where
  "fdt_get_reg F fdt off index =
     (if off < 0 \<or> index < 0 then Some (False, 0, 0)
      else let parent = fo_parent_offset F fdt off in
      if parent < 0 then Some (False, 0, 0)
      else do {
        ac \<leftarrow> fdt_get_address_cells F fdt parent;
        sc \<leftarrow> fdt_get_size_cells F fdt parent;
        (if \<not> fdt_valid_cells ac \<or> \<not> fdt_valid_cells sc then Some (False, 0, 0)
         else let cells = ac + sc; item = cells * 4 in
         if cells = 0 then Some (False, 0, 0)
         else case fo_getprop F fdt off ''reg'' of
           Inl _ \<Rightarrow> Some (False, 0, 0)
         | Inr prop \<Rightarrow>
             let len = int (length prop) in
             if len < item \<or> len mod item \<noteq> 0 then Some (False, 0, 0)
             else if index \<ge> len div item then Some (False, 0, 0)
             else let cursor = index * item in do {
               (ok, base) \<leftarrow> fdt_apply_cells ac prop cursor;
               (if \<not> ok then Some (False, 0, 0)
                else do {
                  (ok, sz) \<leftarrow> fdt_apply_cells sc prop (cursor + ac * 4);
                  Some (ok, base, sz)
                })
             })
      })"

text \<open>One entry of \<open>ranges\<close>: the base, the target and the size.\<close>

definition fdt_get_ranges :: "'t fdt_ops \<Rightarrow> 't \<Rightarrow> int \<Rightarrow> int \<Rightarrow> (bool \<times> nat \<times> nat \<times> nat) option" where
  "fdt_get_ranges F fdt off index =
     (if off < 0 \<or> index < 0 then Some (False, 0, 0, 0)
      else let parent = fo_parent_offset F fdt off in
      if parent < 0 then Some (False, 0, 0, 0)
      else do {
        ac \<leftarrow> fdt_get_address_cells F fdt off;
        sc \<leftarrow> fdt_get_size_cells F fdt off;
        pc \<leftarrow> fdt_get_address_cells F fdt parent;
        (if \<not> fdt_valid_cells ac \<or> \<not> fdt_valid_cells sc \<or> \<not> fdt_valid_cells pc then Some (False, 0, 0, 0)
         else let cells = ac + pc + sc; item = cells * 4 in
         if cells = 0 then Some (False, 0, 0, 0)
         else case fo_getprop F fdt off ''ranges'' of
           Inl _ \<Rightarrow> Some (False, 0, 0, 0)
         | Inr prop \<Rightarrow>
             let len = int (length prop) in
             if len < item \<or> len mod item \<noteq> 0 then Some (False, 0, 0, 0)
             else if index \<ge> len div item then Some (False, 0, 0, 0)
             else let cursor = index * item in do {
               (ok, base) \<leftarrow> fdt_apply_cells ac prop cursor;
               (if \<not> ok then Some (False, 0, 0, 0)
                else do {
                  (ok, target) \<leftarrow> fdt_apply_cells pc prop (cursor + ac * 4);
                  (if \<not> ok then Some (False, base, 0, 0)
                   else do {
                     (ok, sz) \<leftarrow> fdt_apply_cells sc prop (cursor + ac * 4 + pc * 4);
                     Some (ok, base, target, sz)
                   })
                })
             })
      })"

definition fdt_get_memory :: "'t fdt_ops \<Rightarrow> 't \<Rightarrow> int \<Rightarrow> (bool \<times> nat \<times> nat) option" where
  "fdt_get_memory F fdt index =
     (let mem = fo_path_offset F fdt ''/memory''
      in if mem < 0 then Some (False, 0, 0) else fdt_get_reg F fdt mem index)"

text \<open>The initramfs that an earlier loader left: its address and its size.\<close>

definition fdt_get_initrd :: "'t fdt_ops \<Rightarrow> 't \<Rightarrow> (nat \<times> nat) option option" where
  "fdt_get_initrd F fdt =
     (let node = fo_path_offset F fdt ''/chosen'' in
      if node < 0 then Some None
      else do {
        cells \<leftarrow> fdt_get_address_cells F fdt node;
        (if cells \<noteq> 1 \<and> cells \<noteq> 2 then Some None
         else case (fo_getprop F fdt node ''linux,initrd-start'', fo_getprop F fdt node ''linux,initrd-end'') of
           (Inr s, Inr e) \<Rightarrow>
             if int (length s) \<noteq> cells * 4 then Some None
             else do {
               (ok, start) \<leftarrow> fdt_apply_cells cells s 0;
               (if \<not> ok \<or> int (length e) \<noteq> cells * 4 then Some None
                else do {
                  (ok, fin) \<leftarrow> fdt_apply_cells cells e 0;
                  Some (if \<not> ok \<or> fin \<le> start then None else Some (start, fin - start))
                })
             }
         | _ \<Rightarrow> Some None)
      })"

definition fdt_is_enabled :: "'t fdt_ops \<Rightarrow> 't \<Rightarrow> int \<Rightarrow> bool" where
  "fdt_is_enabled F fdt off =
     (if off < 0 then False
      else case fo_stringlist_get F fdt off ''status'' 0 of
             None \<Rightarrow> True
           | Some str \<Rightarrow>
               let buffer = take (min 63 (length str)) str
               in strcasecmp buffer ''ok'' = 0 \<or> strcasecmp buffer ''okay'' = 0)"

section \<open>Telling the kernel\<close>

definition find_chosen_node :: "'t fdt_ops \<Rightarrow> 't \<Rightarrow> int \<times> 't" where
  "find_chosen_node F fdt =
     (let node = fo_path_offset F fdt ''/chosen''
      in if node = - FDT_ERR_NOTFOUND then fo_add_subnode F fdt 0 ''chosen'' else (node, fdt))"

definition linux_fdt_fill_bootargs :: "'t fdt_ops \<Rightarrow> 't \<Rightarrow> cstring option \<Rightarrow> int \<times> 't" where
  "linux_fdt_fill_bootargs F fdt bootargs =
     (case bootargs of
        None \<Rightarrow> (- FDT_ERR_BADVALUE, fdt)
      | Some a \<Rightarrow>
          let (node, fdt) = find_chosen_node F fdt
          in if node < 0 then (node, fdt) else fo_setprop_string F fdt node ''bootargs'' a)"

text \<open>Without an initramfs the properties of an earlier one are removed.\<close>

definition linux_fdt_fill_initrd :: "'t fdt_ops \<Rightarrow> 't \<Rightarrow> nat option \<Rightarrow> nat \<Rightarrow> (int \<times> 't) option" where
  "linux_fdt_fill_initrd F fdt addr sz =
     (if addr = None \<or> sz = 0 then
        let node = fo_path_offset F fdt ''/chosen'' in
        if node = - FDT_ERR_NOTFOUND then Some (0, fdt)
        else if node < 0 then Some (node, fdt)
        else let (ret, fdt) = fo_delprop F fdt node ''linux,initrd-start'' in
        if ret \<noteq> 0 \<and> ret \<noteq> - FDT_ERR_NOTFOUND then Some (ret, fdt)
        else let (ret, fdt) = fo_delprop F fdt node ''linux,initrd-end''
             in Some (if ret = - FDT_ERR_NOTFOUND then 0 else ret, fdt)
      else let start = the addr in
      if int sz > 18446744073709551615 - int start then Some (- FDT_ERR_BADVALUE, fdt)
      else let (node, fdt) = find_chosen_node F fdt in
      if node < 0 then Some (node, fdt)
      else do {
        (ret, fdt) \<leftarrow> fdt_setprop_uc F fdt node ''linux,initrd-start'' start False;
        (if ret \<noteq> 0 then Some (ret, fdt)
         else fdt_setprop_uc F fdt node ''linux,initrd-end'' (start + sz) False)
      })"

text \<open>The first node of memory among the subnodes from \<open>node\<close> on, or the error at their end.\<close>

partial_function (option) memory_node_loop :: "'t fdt_ops \<Rightarrow> 't \<Rightarrow> int \<Rightarrow> int option" where
  "memory_node_loop F fdt node =
     (if node < 0 then Some node
      else if fo_getprop F fdt node ''device_type'' = Inr (''memory'' @ [NUL]) then Some node
      else memory_node_loop F fdt (fo_next_subnode F fdt node))"

partial_function (option) delete_memory_nodes :: "'t fdt_ops \<Rightarrow> 't \<Rightarrow> (int \<times> 't) option" where
  "delete_memory_nodes F fdt = do {
     node \<leftarrow> memory_node_loop F fdt (fo_first_subnode F fdt 0);
     (if node = - FDT_ERR_NOTFOUND then Some (0, fdt)
      else if node < 0 then Some (node, fdt)
      else let (ret, fdt) = fo_del_node F fdt node
           in if ret \<noteq> 0 then Some (ret, fdt) else delete_memory_nodes F fdt)
   }"

text \<open>Lower-case hexadecimal digits, as \<open>%llx\<close> prints them.\<close>

fun hex_digits :: "nat \<Rightarrow> cstring" where
  "hex_digits n = (if n < 16 then [''0123456789abcdef'' ! n] else hex_digits (n div 16) @ [''0123456789abcdef'' ! (n mod 16)])"

declare hex_digits.simps [simp del]

fun append_regions :: "'t fdt_ops \<Rightarrow> int \<Rightarrow> (nat \<times> nat) list \<Rightarrow> 't \<Rightarrow> (int \<times> 't) option" where
  "append_regions F node [] fdt = Some (0, fdt)"
| "append_regions F node ((address, sz) # rest) fdt = do {
     (ret, fdt) \<leftarrow> fdt_appendprop_uc F fdt node ''reg'' address False;
     (if ret \<noteq> 0 then Some (ret, fdt)
      else do {
        (ret, fdt) \<leftarrow> fdt_appendprop_uc F fdt node ''reg'' sz True;
        (if ret \<noteq> 0 then Some (ret, fdt) else append_regions F node rest fdt)
      })
   }"

definition linux_fdt_fill_memory :: "'t fdt_ops \<Rightarrow> 't \<Rightarrow> (nat \<times> nat) list \<Rightarrow> (int \<times> 't) option" where
  "linux_fdt_fill_memory F fdt memory =
     (if memory = [] then Some (- FDT_ERR_BADVALUE, fdt)
      else do {
        (ret, fdt) \<leftarrow> delete_memory_nodes F fdt;
        (if ret \<noteq> 0 then Some (ret, fdt)
         else let (node, fdt) = fo_add_subnode F fdt 0 (''memory@'' @ hex_digits (fst (hd memory))) in
         if node < 0 then Some (node, fdt)
         else let (ret, fdt) = fo_setprop_string F fdt node ''device_type'' ''memory'' in do {
           (ret, fdt) \<leftarrow> (if ret \<noteq> 0 then Some (ret, fdt) else append_regions F node memory fdt);
           Some (if ret = 0 then (0, fdt) else (ret, snd (fo_del_node F fdt node)))
         })
      })"

end
