(* ===== verification/FdtUtilsFacts.thy ===== *)
theory FdtUtilsFacts
  imports FdtUtils
begin

text \<open>
  Reading properties: on a tree whose nodes come after their parents, the readers of registers, ranges and the
  initramfs return, and read only inside the properties.
\<close>

text \<open>A parent starts before its children.\<close>

definition parents_first :: "'t fdt_ops \<Rightarrow> 't \<Rightarrow> bool" where
  "parents_first F fdt \<longleftrightarrow> (\<forall>off. 0 \<le> fo_parent_offset F fdt off \<longrightarrow> fo_parent_offset F fdt off < off)"

lemma cells_loop_returns:
  assumes "parents_first F fdt"
  shows "\<exists>r. cells_loop F fdt name off = Some r"
proof (induction "nat off" arbitrary: off rule: less_induct)
  case less
  let ?p = "fo_parent_offset F fdt off"
  show ?case
  proof (cases "fo_getprop F fdt off name")
    case (Inl err)
    show ?thesis
    proof (cases "0 \<le> ?p")
      case True
      then have "nat ?p < nat off" using assms by (auto simp: parents_first_def)
      from less [OF this] show ?thesis using Inl True by (subst cells_loop.simps) (simp add: Let_def)
    next
      case False
      then show ?thesis using Inl by (subst cells_loop.simps) (simp add: Let_def)
    qed
  next
    case (Inr p)
    then show ?thesis by (subst cells_loop.simps) (simp add: Let_def)
  qed
qed

lemma get_cells_returns: "parents_first F fdt \<Longrightarrow> \<exists>c. get_cells F fdt name off = Some c"
  using cells_loop_returns [of F fdt name off] by (auto simp: get_cells_def)

lemma address_cells_returns: "parents_first F fdt \<Longrightarrow> \<exists>c. fdt_get_address_cells F fdt off = Some c"
  by (simp add: fdt_get_address_cells_def get_cells_returns)

lemma size_cells_returns: "parents_first F fdt \<Longrightarrow> \<exists>c. fdt_get_size_cells F fdt off = Some c"
  by (simp add: fdt_get_size_cells_def get_cells_returns)

lemma prop_bytes_some:
  "0 \<le> off \<Longrightarrow> off + int n \<le> int (length p) \<Longrightarrow> prop_bytes p off n = Some (take n (drop (nat off) p))"
  by (simp add: prop_bytes_def)

lemma apply_cells_some:
  assumes "fdt_valid_cells c" "0 \<le> off" "off + c * 4 \<le> int (length p)"
  shows "\<exists>v. fdt_apply_cells c p off = Some (True, v)"
proof -
  have "c = 0 \<or> c = 1 \<or> c = 2" using assms(1) unfolding fdt_valid_cells_def by presburger
  then consider "c = 0" | "c = 1" | "c = 2" by blast
  then show ?thesis using assms by cases (simp_all add: fdt_apply_cells_def prop_bytes_some)
qed

text \<open>The entry \<open>i\<close> of a property of whole entries lies inside it.\<close>

lemma entry_inside:
  assumes "0 < item" "len mod item = 0" "0 \<le> i" "i < len div item"
  shows "0 \<le> i * item" "i * item + item \<le> (len :: int)"
proof -
  have "(i + 1) * item \<le> len div item * item" using assms by (intro mult_right_mono) auto
  also have "\<dots> = len" using assms(2) by (simp add: mod_eq_0_iff_dvd)
  finally show "i * item + item \<le> len" by (simp add: algebra_simps)
  show "0 \<le> i * item" using assms by simp
qed

lemma getprop_checked_safe: "0 < w \<Longrightarrow> getprop_checked F w fdt off name idx \<noteq> None"
proof (cases "fo_getprop F fdt off name")
  case (Inr p)
  assume w: "0 < w"
  show ?thesis
  proof (cases "length p mod w = 0 \<and> 0 \<le> idx \<and> idx < int (length p div w)")
    case True
    have "int (length p) mod int w = 0" using True by (simp add: zmod_int [symmetric])
    moreover have "idx < int (length p) div int w" using True by (simp add: zdiv_int)
    ultimately have "0 \<le> idx * int w" "idx * int w + int w \<le> int (length p)"
      using entry_inside [of "int w" "int (length p)" idx] w True by simp_all
    then show ?thesis using Inr True by (simp add: getprop_checked_def prop_bytes_some)
  next
    case False
    then show ?thesis using Inr by (auto simp: getprop_checked_def)
  qed
qed (simp add: getprop_checked_def)

lemma get_reg_safe:
  assumes "parents_first F fdt"
  shows "fdt_get_reg F fdt off index \<noteq> None"
proof (cases "off < 0 \<or> index < 0 \<or> fo_parent_offset F fdt off < 0")
  case True
  then show ?thesis by (auto simp: fdt_get_reg_def Let_def)
next
  case False
  let ?p = "fo_parent_offset F fdt off"
  obtain ac sc where c: "fdt_get_address_cells F fdt ?p = Some ac" "fdt_get_size_cells F fdt ?p = Some sc"
    using address_cells_returns [OF assms, of ?p] size_cells_returns [OF assms, of ?p] by auto
  show ?thesis
  proof (cases "fdt_valid_cells ac \<and> fdt_valid_cells sc \<and> ac + sc \<noteq> 0")
    case no: False
    then show ?thesis using False c by (auto simp: fdt_get_reg_def Let_def)
  next
    case v: True
    show ?thesis
    proof (cases "fo_getprop F fdt off ''reg''")
      case (Inl e)
      then show ?thesis using False c v by (simp add: fdt_get_reg_def Let_def)
    next
      case (Inr p)
      let ?len = "int (length p)" and ?item = "(ac + sc) * 4"
      show ?thesis
      proof (cases "?len < ?item \<or> ?len mod ?item \<noteq> 0 \<or> index \<ge> ?len div ?item")
        case True
        then show ?thesis using False c v Inr by (auto simp: fdt_get_reg_def Let_def)
      next
        case n: False
        have pos: "0 < ?item" "0 \<le> ac" "0 \<le> sc" using v by (auto simp: fdt_valid_cells_def)
        have i: "0 \<le> index * ?item" "index * ?item + ?item \<le> ?len"
          using entry_inside [OF pos(1), of ?len index] n False by simp_all
        obtain b where b: "fdt_apply_cells ac p (index * ?item) = Some (True, b)"
          using apply_cells_some [of ac "index * ?item" p] i v pos by (auto simp: algebra_simps)
        obtain z where z: "fdt_apply_cells sc p (index * ?item + ac * 4) = Some (True, z)"
          using apply_cells_some [of sc "index * ?item + ac * 4" p] i v pos by (auto simp: algebra_simps)
        show ?thesis using False c v Inr n b z by (simp add: fdt_get_reg_def Let_def)
      qed
    qed
  qed
qed

lemma get_ranges_safe:
  assumes "parents_first F fdt"
  shows "fdt_get_ranges F fdt off index \<noteq> None"
proof (cases "off < 0 \<or> index < 0 \<or> fo_parent_offset F fdt off < 0")
  case True
  then show ?thesis by (auto simp: fdt_get_ranges_def Let_def)
next
  case False
  let ?p = "fo_parent_offset F fdt off"
  obtain ac sc pc where c: "fdt_get_address_cells F fdt off = Some ac" "fdt_get_size_cells F fdt off = Some sc"
    "fdt_get_address_cells F fdt ?p = Some pc"
    using address_cells_returns [OF assms, of ?p] size_cells_returns [OF assms, of off]
      address_cells_returns [OF assms, of off] by auto
  show ?thesis
  proof (cases "fdt_valid_cells ac \<and> fdt_valid_cells sc \<and> fdt_valid_cells pc \<and> ac + pc + sc \<noteq> 0")
    case no: False
    then show ?thesis using False c by (auto simp: fdt_get_ranges_def Let_def)
  next
    case v: True
    show ?thesis
    proof (cases "fo_getprop F fdt off ''ranges''")
      case (Inl e)
      then show ?thesis using False c v by (simp add: fdt_get_ranges_def Let_def)
    next
      case (Inr p)
      let ?len = "int (length p)" and ?item = "(ac + pc + sc) * 4"
      show ?thesis
      proof (cases "?len < ?item \<or> ?len mod ?item \<noteq> 0 \<or> index \<ge> ?len div ?item")
        case True
        then show ?thesis using False c v Inr by (auto simp: fdt_get_ranges_def Let_def)
      next
        case n: False
        have pos: "0 < ?item" "0 \<le> ac" "0 \<le> sc" "0 \<le> pc" using v by (auto simp: fdt_valid_cells_def)
        have i: "0 \<le> index * ?item" "index * ?item + ?item \<le> ?len"
          using entry_inside [OF pos(1), of ?len index] n False by simp_all
        obtain b where b: "fdt_apply_cells ac p (index * ?item) = Some (True, b)"
          using apply_cells_some [of ac "index * ?item" p] i v pos by (auto simp: algebra_simps)
        obtain t where t: "fdt_apply_cells pc p (index * ?item + ac * 4) = Some (True, t)"
          using apply_cells_some [of pc "index * ?item + ac * 4" p] i v pos by (auto simp: algebra_simps)
        obtain z where z: "fdt_apply_cells sc p (index * ?item + ac * 4 + pc * 4) = Some (True, z)"
          using apply_cells_some [of sc "index * ?item + ac * 4 + pc * 4" p] i v pos by (auto simp: algebra_simps)
        show ?thesis using False c v Inr n b t z by (simp add: fdt_get_ranges_def Let_def)
      qed
    qed
  qed
qed

lemma get_initrd_safe:
  assumes "parents_first F fdt"
  shows "fdt_get_initrd F fdt \<noteq> None"
proof (cases "fo_path_offset F fdt ''/chosen'' < 0")
  case True
  then show ?thesis by (simp add: fdt_get_initrd_def)
next
  case False
  let ?n = "fo_path_offset F fdt ''/chosen''"
  obtain c where c: "fdt_get_address_cells F fdt ?n = Some c" using address_cells_returns [OF assms] by blast
  show ?thesis
  proof (cases "c = 1 \<or> c = 2")
    case True
    then have v: "fdt_valid_cells c" by (auto simp: fdt_valid_cells_def)
    have r: "\<exists>w. fdt_apply_cells c p 0 = Some (True, w)" if "int (length p) = c * 4" for p
      using apply_cells_some [OF v, of 0 p] that by simp
    show ?thesis
    proof (cases "(fo_getprop F fdt ?n ''linux,initrd-start'', fo_getprop F fdt ?n ''linux,initrd-end'')")
      case (Pair a b)
      then show ?thesis
        using False c True r [of "projr a"] r [of "projr b"]
        by (cases a; cases b; cases "int (length (projr a)) = c * 4"; cases "int (length (projr b)) = c * 4")
          (auto simp: fdt_get_initrd_def Let_def)
    qed
  qed (use False c in \<open>auto simp: fdt_get_initrd_def\<close>)
qed

text \<open>The readers of one number.\<close>

lemma getprop_uc_safe:
  assumes "parents_first F fdt"
  shows "fdt_getprop_uc F fdt off name idx is_size \<noteq> None"
proof -
  have "\<exists>c. cells_of F fdt off is_size = Some c"
    using address_cells_returns [OF assms] size_cells_returns [OF assms] by (cases is_size) (simp_all add: cells_of_def Let_def)
  then obtain c where c: "cells_of F fdt off is_size = Some c" by blast
  obtain r where r: "fdt_getprop_u32 F fdt off name idx = Some r"
    using getprop_checked_safe [of 4 F fdt off name idx] by (auto simp: fdt_getprop_u32_def)
  obtain q where q: "fdt_getprop_u64 F fdt off name idx = Some q"
    using getprop_checked_safe [of 8 F fdt off name idx] by (auto simp: fdt_getprop_u64_def)
  show ?thesis using c r q by (cases r) (simp add: fdt_getprop_uc_def)
qed

text \<open>The element at an index, when a property of whole elements has one.\<close>

lemma getprop_checked_element:
  assumes "fo_getprop F fdt off name = Inr p" "0 < w" "length p mod w = 0" "i < length p div w"
  shows "getprop_checked F w fdt off name (int i) = Some (0, be_bytes (take w (drop (i * w) p)))"
proof -
  have "int i * int w + int w \<le> int (length p)"
    using entry_inside(2) [of "int w" "int (length p)" "int i"] assms by (simp add: zmod_int [symmetric] zdiv_int [symmetric])
  then have "prop_bytes p (int i * int w) w = Some (take w (drop (i * w) p))"
    by (simp add: prop_bytes_def nat_mult_distrib)
  then show ?thesis using assms by (simp add: getprop_checked_def)
qed

end
