(* ===== verification/LinuxFiles.thy ===== *)
theory LinuxFiles
  imports LinuxInfo FileUtils
begin

text \<open>
  \<open>src/linux/kernel.c\<close> and \<open>initramfs.c\<close>: the kernel and the initramfs in pages, and the protocol through which
  the kernel asks for the initramfs. The page allocator keeps the live blocks, so that a block freed twice or
  with another number of pages has no result.
\<close>

section \<open>The data of a boot\<close>

text \<open>\<open>struct linux_data\<close>, with the device tree in a type \<open>'t\<close>.\<close>

record 't linux_data =
  ld_kernel :: "page_buffer option"
  ld_kernel_size :: int
  ld_initramfs :: "page_buffer option"
  ld_initramfs_size :: int
  ld_fdt :: "'t option"
  ld_bootargs :: "cstring option"
  ld_loader :: embloader_loader

definition zero_data :: "embloader_loader \<Rightarrow> 't linux_data" where
  "zero_data loader = \<lparr>ld_kernel = None, ld_kernel_size = 0, ld_initramfs = None, ld_initramfs_size = 0,
     ld_fdt = None, ld_bootargs = None, ld_loader = loader\<rparr>"

type_synonym files_state = "embloader \<times> page_state"

text \<open>\<open>len\<close> after a read: 0 when there is no buffer.\<close>

definition buffer_size :: "page_buffer option \<Rightarrow> int" where
  "buffer_size b = (case b of None \<Rightarrow> 0 | Some b \<Rightarrow> int (length (pb_data b)))"

section \<open>The kernel\<close>

definition linux_load_kernel ::
  "efi_root linux_bootinfo \<Rightarrow> 't linux_data \<Rightarrow> files_state \<Rightarrow> ((efi_status \<times> 't linux_data) \<times> files_state) option" where
  "linux_load_kernel info data x =
     (case li_kernel info of
        None \<Rightarrow> Some ((EFI_INVALID_PARAMETER, data), x)
      | Some path \<Rightarrow> do {
          ((status, ptr), x) \<leftarrow> efi_file_open_read_pages (li_root info) path x;
          Some (if EFI_ERROR status then ((status, data), x)
                else ((EFI_SUCCESS, data\<lparr>ld_kernel := ptr, ld_kernel_size := buffer_size ptr\<rparr>), x))
        })"

section \<open>The initramfs\<close>

text \<open>
  The files read so far and their total_len size. \<open>Inl\<close> is the way to \<open>fail\<close>: the status and the buffer that is not
  in the list yet.
\<close>

fun read_files ::
  "efi_root option \<Rightarrow> cstring list \<Rightarrow> page_buffer option list \<Rightarrow> int \<Rightarrow> files_state \<Rightarrow>
   (((efi_status \<times> page_buffer option) option \<times> page_buffer option list \<times> int) \<times> files_state) option" where
  "read_files root [] files total_len x = Some ((None, files, total_len), x)"
| "read_files root (name # names) files total_len x = do {
     ((status, ptr), g, s) \<leftarrow> efi_file_open_read_pages root name x;
     (if EFI_ERROR status then Some ((Some (status, ptr), files, total_len), g, s)
      else let len = buffer_size ptr; (copy, g) = gstrdup (Some name) g in
      if copy = None then Some ((Some (EFI_OUT_OF_RESOURCES, ptr), files, total_len), g, s)
      else if len > SIZE_MAX64 - total_len then Some ((Some (EFI_BAD_BUFFER_SIZE, ptr), files, total_len), g, s)
      else let (item, g) = galloc g; (cell, g) = (if item then galloc g else (False, g)) in
      if \<not> cell then Some ((Some (EFI_OUT_OF_RESOURCES, ptr), files, total_len), g, s)
      else read_files root names (files @ [ptr]) (total_len + len) (g, s))
   }"

definition free_optional :: "page_buffer option \<Rightarrow> page_state \<Rightarrow> page_state option" where
  "free_optional b s = (case b of None \<Rightarrow> Some s | Some b \<Rightarrow> free_buffer b s)"

fun free_files :: "page_buffer option list \<Rightarrow> page_state \<Rightarrow> page_state option" where
  "free_files [] s = Some s"
| "free_files (f # fs) s = do { s \<leftarrow> free_optional f s; free_files fs s }"

text \<open>The loop that puts the files behind each other; \<open>None\<close> is the overflow error.\<close>

fun join_files :: "page_buffer option list \<Rightarrow> int \<Rightarrow> cstring \<Rightarrow> cstring option" where
  "join_files [] total_len pages = Some pages"
| "join_files (f # fs) total_len pages =
     (case f of
        None \<Rightarrow> join_files fs total_len pages
      | Some b \<Rightarrow>
          if pb_data b = [] then join_files fs total_len pages
          else if int (length pages) > total_len \<or> int (length (pb_data b)) > total_len - int (length pages) then None
          else join_files fs total_len (pages @ pb_data b))"

definition linux_load_initramfs ::
  "efi_root linux_bootinfo \<Rightarrow> 't linux_data \<Rightarrow> files_state \<Rightarrow> ((efi_status \<times> 't linux_data) \<times> files_state) option" where
  "linux_load_initramfs info data x = do {
     ((failure, files, total_len), g, s) \<leftarrow> read_files (li_root info) (li_initramfs info) [] 0 x;
     (case failure of
        Some (status, ptr) \<Rightarrow> do {
          s \<leftarrow> free_optional ptr s;
          s \<leftarrow> free_files files s;
          Some ((status, data), g, s)
        }
      | None \<Rightarrow>
          if files = [] then Some ((EFI_SUCCESS, data), g, s)
          else if total_len > SIZE_MAX64 - 4096 + 1 then do {
            s \<leftarrow> free_files files s; Some ((EFI_BAD_BUFFER_SIZE, data), g, s) }
          else let page_count = size_to_pages_int total_len; ((status, block), s) = alloc_pages page_count s in
          if EFI_ERROR status then do { s \<leftarrow> free_files files s; Some ((status, data), g, s) }
          else case join_files files total_len [] of
            None \<Rightarrow> do {
              s \<leftarrow> free_pages block page_count s;
              s \<leftarrow> free_files files s;
              Some ((EFI_BAD_BUFFER_SIZE, data), g, s)
            }
          | Some pages \<Rightarrow> do {
              s \<leftarrow> free_files files s;
              Some ((EFI_SUCCESS, data\<lparr>ld_initramfs := Some \<lparr>pb_block = block, pb_data = pages\<rparr>,
                ld_initramfs_size := total_len\<rparr>), g, s)
            })
   }"

section \<open>Freeing the data\<close>

definition ALIGN_VALUE :: "int \<Rightarrow> int \<Rightarrow> int" where
  "ALIGN_VALUE v a = (v + a - 1) div a * a"

definition linux_data_clean :: "'t linux_data \<Rightarrow> page_state \<Rightarrow> page_state option" where
  "linux_data_clean data s = do {
     s \<leftarrow> (case ld_kernel data of
             None \<Rightarrow> Some s
           | Some b \<Rightarrow> free_pages (pb_block b) (size_to_pages_int (ld_kernel_size data)) s);
     (case ld_initramfs data of
        None \<Rightarrow> Some s
      | Some b \<Rightarrow> free_pages (pb_block b) (size_to_pages_int (ALIGN_VALUE (ld_initramfs_size data) 4096)) s)
   }"

section \<open>The initramfs protocol\<close>

text \<open>\<open>struct initrd_loader\<close>; the address is the buffer.\<close>

record initrd_loader =
  il_address :: "page_buffer option"
  il_length :: int

text \<open>
  The call of the kernel: whether there are a path and a size, the policy, the size of the buffer and whether
  there is one. The result is the status, the size after the call and the bytes written.
\<close>

definition initrd_load_file ::
  "initrd_loader \<Rightarrow> bool \<Rightarrow> bool \<Rightarrow> int option \<Rightarrow> bool \<Rightarrow> efi_status \<times> int option \<times> cstring" where
  "initrd_load_file loader path policy sz buffer =
     (case sz of
        None \<Rightarrow> (EFI_INVALID_PARAMETER, None, [])
      | Some n \<Rightarrow>
          if \<not> path then (EFI_INVALID_PARAMETER, sz, [])
          else if policy then (EFI_UNSUPPORTED, sz, [])
          else if il_length loader = 0 \<or> il_address loader = None then (EFI_NOT_FOUND, sz, [])
          else if \<not> buffer \<or> n < il_length loader then (EFI_BUFFER_TOO_SMALL, Some (il_length loader), [])
          else (EFI_SUCCESS, Some (il_length loader), pb_data (the (il_address loader))))"

text \<open>
  The protocols of the firmware: whether the device path of the initramfs can be located, and the installation
  and removal of the loader, on a state \<open>'w\<close>; a handle is a number.
\<close>

record 'w initrd_services =
  is_locate :: "'w \<Rightarrow> efi_status"
  is_install :: "initrd_loader \<Rightarrow> 'w \<Rightarrow> (efi_status \<times> nat option) \<times> 'w"
  is_handle :: "nat \<Rightarrow> 'w \<Rightarrow> efi_status"
  is_uninstall :: "nat \<Rightarrow> 'w \<Rightarrow> efi_status \<times> 'w"

definition linux_initramfs_register ::
  "'w initrd_services \<Rightarrow> page_buffer option \<Rightarrow> int \<Rightarrow> embloader \<times> 'w \<Rightarrow> (efi_status \<times> nat option) \<times> embloader \<times> 'w" where
  "linux_initramfs_register I buffer sz x =
     (let (g, w) = x in
      if buffer = None \<or> sz = 0 then ((EFI_INVALID_PARAMETER, None), g, w)
      else let status = is_locate I w in
      if \<not> EFI_ERROR status then ((EFI_ALREADY_STARTED, None), g, w)
      else if status \<noteq> EFI_NOT_FOUND then ((status, None), g, w)
      else let (ok, g) = galloc g in
      if \<not> ok then ((EFI_OUT_OF_RESOURCES, None), g, w)
      else let (r, w) = is_install I \<lparr>il_address = buffer, il_length = sz\<rparr> w in (r, g, w))"

definition linux_initramfs_unregister :: "'w initrd_services \<Rightarrow> nat option \<Rightarrow> 'w \<Rightarrow> efi_status \<times> 'w" where
  "linux_initramfs_unregister I hand w =
     (case hand of
        None \<Rightarrow> (EFI_SUCCESS, w)
      | Some h \<Rightarrow>
          if EFI_ERROR (is_handle I h w) then (is_handle I h w, w)
          else let (status, w) = is_uninstall I h w in ((if EFI_ERROR status then status else EFI_SUCCESS), w))"

end
