(* ===== verification/LinuxMemory.thy ===== *)
theory LinuxMemory
  imports Efi "HOL-Library.Word"
begin

text \<open>
  The memory of the kernel, from \<open>src/linux/aarch64.c\<close>: the memory map handed to the kernel, the base address
  of an image that cannot be placed anywhere, and the layout of the image. Addresses and sizes are 64-bit words.
\<close>

unbundle bit_operations_syntax

section \<open>Memory descriptors\<close>

record efi_memory_descriptor =
  md_type :: efi_memory_type
  md_start :: "64 word"
  md_pages :: "64 word"
  md_attribute :: "64 word"

record linux_memory =
  lm_address :: "64 word"
  lm_size :: "64 word"

definition MAX_UINT64 :: "64 word" where
  "MAX_UINT64 = 0xFFFFFFFFFFFFFFFF"

definition EFI_PAGE_SIZE :: "64 word" where
  "EFI_PAGE_SIZE = 4096"

definition EFI_MEMORY_RUNTIME :: "64 word" where
  "EFI_MEMORY_RUNTIME = 0x8000000000000000"

definition EFI_PAGES_TO_SIZE :: "64 word \<Rightarrow> 64 word" where
  "EFI_PAGES_TO_SIZE pages = push_bit 12 pages"

definition EFI_SIZE_TO_PAGES :: "64 word \<Rightarrow> 64 word" where
  "EFI_SIZE_TO_PAGES n = drop_bit 12 n + (if n AND 0xFFF \<noteq> 0 then 1 else 0)"

section \<open>The memory map\<close>

definition include_memory_descriptor :: "efi_memory_descriptor \<Rightarrow> bool" where
  "include_memory_descriptor d =
     (if md_pages d = 0 then False
      else if md_attribute d AND EFI_MEMORY_RUNTIME \<noteq> 0 then False
      else case md_type d of
             EfiLoaderCode \<Rightarrow> True
           | EfiLoaderData \<Rightarrow> True
           | EfiBootServicesCode \<Rightarrow> True
           | EfiBootServicesData \<Rightarrow> True
           | EfiConventionalMemory \<Rightarrow> True
           | _ \<Rightarrow> False)"

text \<open>Whether the pages of a descriptor leave the address space.\<close>

definition beyond_space :: "efi_memory_descriptor \<Rightarrow> bool" where
  "beyond_space d \<longleftrightarrow> md_pages d > MAX_UINT64 div EFI_PAGE_SIZE \<or>
     md_start d > MAX_UINT64 - md_pages d * EFI_PAGE_SIZE"

text \<open>The array grows at its end; a descriptor that starts where the last one ends is joined to it.\<close>

definition add_region :: "linux_memory list \<Rightarrow> 64 word \<Rightarrow> 64 word \<Rightarrow> linux_memory list" where
  "add_region memory start fin =
     (if memory \<noteq> [] \<and> lm_address (last memory) + lm_size (last memory) = start
      then butlast memory @ [(last memory)\<lparr>lm_size := fin - lm_address (last memory)\<rparr>]
      else memory @ [\<lparr>lm_address = start, lm_size = fin - start\<rparr>])"

fun collect_regions :: "efi_memory_descriptor list \<Rightarrow> linux_memory list \<Rightarrow> linux_memory list option" where
  "collect_regions [] memory = Some memory"
| "collect_regions (d # ds) memory =
     (if \<not> include_memory_descriptor d then collect_regions ds memory
      else if beyond_space d then None
      else let fin = md_start d + md_pages d * EFI_PAGE_SIZE
           in collect_regions ds (add_region memory (md_start d) fin))"

text \<open>The insertion sort; the sorted part is reversed, as the inner loop walks it from its end.\<close>

fun insert_region :: "linux_memory \<Rightarrow> linux_memory list \<Rightarrow> linux_memory list" where
  "insert_region current [] = [current]"
| "insert_region current (x # xs) =
     (if lm_address x > lm_address current then x # insert_region current xs else current # x # xs)"

definition sort_regions :: "linux_memory list \<Rightarrow> linux_memory list" where
  "sort_regions memory = rev (fold insert_region memory [])"

text \<open>The regions from the one at \<open>merged\<close> on.\<close>

fun merge_regions :: "linux_memory \<Rightarrow> linux_memory list \<Rightarrow> linux_memory list" where
  "merge_regions merged [] = [merged]"
| "merge_regions merged (x # xs) =
     (let merged_end = lm_address merged + lm_size merged;
          current_end = lm_address x + lm_size x
      in if merged_end \<ge> lm_address x
         then merge_regions (if current_end > merged_end then merged\<lparr>lm_size := current_end - lm_address merged\<rparr> else merged) xs
         else merged # merge_regions x xs)"

text \<open>The map of the firmware as the regions of the kernel; \<open>alloc_ok\<close> is the answer of the pool allocator.\<close>

definition memory_regions :: "bool \<Rightarrow> efi_memory_descriptor list \<Rightarrow> efi_status \<times> linux_memory list" where
  "memory_regions alloc_ok ds =
     (if filter include_memory_descriptor ds = [] then (EFI_NOT_FOUND, [])
      else if \<not> alloc_ok then (EFI_OUT_OF_RESOURCES, [])
      else case collect_regions ds [] of
             None \<Rightarrow> (EFI_COMPROMISED_DATA, [])
           | Some memory \<Rightarrow>
               (EFI_SUCCESS, case sort_regions memory of [] \<Rightarrow> [] | x # xs \<Rightarrow> merge_regions x xs))"

section \<open>Calls of the firmware\<close>

text \<open>
  What a \<open>GetMemoryMap\<close> call returns for a buffer of a size: the status, the size of the map, the size of a
  descriptor, the key and the descriptors.
\<close>

record memory_map =
  mm_status :: efi_status
  mm_size :: "64 word"
  mm_descriptor_size :: "64 word"
  mm_key :: nat
  mm_descriptors :: "efi_memory_descriptor list"

text \<open>The memory services on the state \<open>'w\<close> of the firmware; an allocation is its address.\<close>

record 'w memory_services =
  ms_get_map :: "64 word \<Rightarrow> 'w \<Rightarrow> memory_map \<times> 'w"
  ms_pool :: "64 word \<Rightarrow> 'w \<Rightarrow> bool \<times> 'w"
  ms_free_pool :: "'w \<Rightarrow> 'w"
  ms_pages_at :: "64 word \<Rightarrow> 64 word \<Rightarrow> 'w \<Rightarrow> efi_status \<times> 'w"
  ms_aligned_pages :: "64 word \<Rightarrow> 'w \<Rightarrow> 64 word option \<times> 'w"
  ms_free_pages :: "64 word \<Rightarrow> 64 word \<Rightarrow> 'w \<Rightarrow> 'w"
  ms_exit :: "nat \<Rightarrow> 'w \<Rightarrow> efi_status \<times> 'w"

text \<open>
  The loop that reads the map into a buffer that is large enough. \<open>have\<close> says whether there is a buffer; the
  result is the status and the descriptors, with the buffer when there is one.
\<close>

partial_function (option) map_loop ::
  "'w memory_services \<Rightarrow> 64 word \<Rightarrow> bool \<Rightarrow> 'w \<Rightarrow> ((efi_status \<times> bool \<times> efi_memory_descriptor list) \<times> 'w) option" where
  "map_loop M capacity have w =
     (let (m, w) = ms_get_map M capacity w in
      if mm_status m \<noteq> EFI_BUFFER_TOO_SMALL then Some ((mm_status m, have, mm_descriptors m), w)
      else let w = (if have then ms_free_pool M w else w);
               capacity = mm_size m + 2 * mm_descriptor_size m;
               (ok, w) = ms_pool M capacity w
           in if ok then map_loop M capacity True w else Some ((EFI_OUT_OF_RESOURCES, False, []), w))"

definition load_memory_map :: "'w memory_services \<Rightarrow> 'w \<Rightarrow> ((efi_status \<times> linux_memory list) \<times> 'w) option" where
  "load_memory_map M w = do {
     ((status, have, ds), w) \<leftarrow> map_loop M 0 False w;
     (if EFI_ERROR status then Some ((status, []), if have then ms_free_pool M w else w)
      else let found = length (filter include_memory_descriptor ds);
               (ok, w) = (if found = 0 then (True, w) else ms_pool M (of_nat found * 16) w);
               (status, memory) = memory_regions ok ds;
               w = ms_free_pool M w
           in Some ((status, memory), if status = EFI_COMPROMISED_DATA then ms_free_pool M w else w))
   }"

section \<open>The base of an image that cannot be placed anywhere\<close>

definition ARM64_IMAGE_ALIGNMENT :: "64 word" where
  "ARM64_IMAGE_ALIGNMENT = 0x200000"

definition candidate_step :: "64 word \<Rightarrow> efi_memory_descriptor \<Rightarrow> 64 word \<Rightarrow> 64 word" where
  "candidate_step allocation_size d candidate =
     (if md_type d \<noteq> EfiConventionalMemory \<or> md_pages d > MAX_UINT64 div EFI_PAGE_SIZE then candidate
      else if md_start d > MAX_UINT64 - md_pages d * EFI_PAGE_SIZE then candidate
      else let fin = md_start d + md_pages d * EFI_PAGE_SIZE in
      if md_start d > MAX_UINT64 - (ARM64_IMAGE_ALIGNMENT - 1) then candidate
      else let start = (md_start d + ARM64_IMAGE_ALIGNMENT - 1) AND NOT (ARM64_IMAGE_ALIGNMENT - 1)
           in if start < candidate \<and> start \<le> fin \<and> allocation_size \<le> fin - start then start else candidate)"

definition legacy_candidate :: "64 word \<Rightarrow> efi_memory_descriptor list \<Rightarrow> 64 word" where
  "legacy_candidate pages ds = fold (candidate_step (EFI_PAGES_TO_SIZE pages)) ds MAX_UINT64"

definition allocate_legacy_kernel_pages ::
  "'w memory_services \<Rightarrow> 64 word \<Rightarrow> 'w \<Rightarrow> ((efi_status \<times> 64 word option) \<times> 'w) option" where
  "allocate_legacy_kernel_pages M pages w =
     (if pages = 0 then Some ((EFI_INVALID_PARAMETER, None), w)
      else do {
        ((status, have, ds), w) \<leftarrow> map_loop M 0 False w;
        (if EFI_ERROR status then Some ((status, None), if have then ms_free_pool M w else w)
         else let candidate = legacy_candidate pages ds; w = ms_free_pool M w in
         if candidate = MAX_UINT64 then Some ((EFI_OUT_OF_RESOURCES, None), w)
         else let (status, w) = ms_pages_at M pages candidate w
              in Some ((status, if EFI_ERROR status then None else Some candidate), w))
      })"

section \<open>The layout of the image\<close>

text \<open>The fields of the header that the loader reads.\<close>

record arm64_image_header =
  ih_text_offset :: "64 word"
  ih_image_size :: "64 word"
  ih_flags :: "64 word"
  ih_magic :: "32 word"

text \<open>Little-endian values in the bytes of the image.\<close>

definition le_bytes :: "nat \<Rightarrow> nat \<Rightarrow> char list \<Rightarrow> nat" where
  "le_bytes off n bs = foldr (\<lambda>c acc. of_char c + 256 * acc) (take n (drop off bs)) 0"

definition image_header :: "char list \<Rightarrow> arm64_image_header" where
  "image_header bs = \<lparr>ih_text_offset = of_nat (le_bytes 8 8 bs), ih_image_size = of_nat (le_bytes 16 8 bs),
     ih_flags = of_nat (le_bytes 24 8 bs), ih_magic = of_nat (le_bytes 56 4 bs)\<rparr>"

definition ARM64_IMAGE_MAGIC :: "32 word" where
  "ARM64_IMAGE_MAGIC = 0x644d5241"

text \<open>The image at its address, with its memory: the bytes and zeros up to the footprint.\<close>

record arm64_image =
  ai_allocation :: "64 word"
  ai_kernel :: "64 word"
  ai_pages :: "64 word"
  ai_size :: "64 word"
  ai_aligned :: bool

text \<open>The pages an image of \<open>kernel_size\<close> bytes needs with its header, and its footprint.\<close>

definition image_pages :: "64 word \<Rightarrow> arm64_image_header \<Rightarrow> efi_status \<times> 64 word \<times> 64 word" where
  "image_pages kernel_size h =
     (let footprint = max kernel_size (ih_image_size h) in
      if ih_text_offset h > MAX_UINT64 - footprint then (EFI_BAD_BUFFER_SIZE, 0, 0)
      else let allocation_size = ih_text_offset h + footprint in
      if allocation_size > MAX_UINT64 - EFI_PAGE_SIZE + 1 then (EFI_BAD_BUFFER_SIZE, 0, 0)
      else (EFI_SUCCESS, EFI_SIZE_TO_PAGES allocation_size, footprint))"

definition prepare_kernel ::
  "'w memory_services \<Rightarrow> char list \<Rightarrow> 'w \<Rightarrow> ((efi_status \<times> arm64_image option) \<times> 'w) option" where
  "prepare_kernel M img w =
     (if length img < 64 then Some ((EFI_LOAD_ERROR, None), w)
      else let h = image_header img in
      if ih_magic h \<noteq> ARM64_IMAGE_MAGIC then Some ((EFI_LOAD_ERROR, None), w)
      else let (status, pages, footprint) = image_pages (of_nat (length img)) h in
      if EFI_ERROR status then Some ((status, None), w)
      else do {
        ((status, allocation), w) \<leftarrow>
          (if ih_flags h AND 8 \<noteq> 0
           then let (a, w) = ms_aligned_pages M pages w
                in Some ((if a = None then EFI_OUT_OF_RESOURCES else EFI_SUCCESS, a), w)
           else allocate_legacy_kernel_pages M pages w);
        Some (case allocation of
                None \<Rightarrow> ((status, None), w)
              | Some a \<Rightarrow> ((EFI_SUCCESS, Some \<lparr>ai_allocation = a, ai_kernel = a + ih_text_offset h,
                  ai_pages = pages, ai_size = footprint, ai_aligned = (ih_flags h AND 8 \<noteq> 0)\<rparr>), w))
      })"

text \<open>The bytes of the footprint after the image has been copied.\<close>

definition image_bytes :: "64 word \<Rightarrow> char list \<Rightarrow> char list" where
  "image_bytes footprint img = img @ replicate (unat footprint - length img) (CHR 0x00)"

section \<open>Leaving the boot services\<close>

text \<open>At most four attempts; the status is that of the last call.\<close>

fun exit_loop :: "'w memory_services \<Rightarrow> nat \<Rightarrow> 64 word \<Rightarrow> bool \<Rightarrow> efi_status \<Rightarrow> 'w \<Rightarrow> efi_status \<times> 'w" where
  "exit_loop M 0 capacity have status w = (status, if have then ms_free_pool M w else w)"
| "exit_loop M (Suc attempts) capacity have status w =
     (let (m, w) = ms_get_map M capacity w; status = mm_status m in
      if status = EFI_BUFFER_TOO_SMALL then
        (let w = (if have then ms_free_pool M w else w);
             capacity = mm_size m + 8 * mm_descriptor_size m;
             (ok, w) = ms_pool M capacity w
         in if \<not> ok then (EFI_OUT_OF_RESOURCES, w) else exit_loop M attempts capacity True status w)
      else if EFI_ERROR status then (status, if have then ms_free_pool M w else w)
      else let (status, w) = ms_exit M (mm_key m) w in
      if \<not> EFI_ERROR status then (EFI_SUCCESS, w)
      else if status \<noteq> EFI_INVALID_PARAMETER then (status, if have then ms_free_pool M w else w)
      else exit_loop M attempts capacity have status w)"

definition linux_exit_boot_services :: "'w memory_services \<Rightarrow> 'w \<Rightarrow> efi_status \<times> 'w" where
  "linux_exit_boot_services M w = exit_loop M 4 0 False EFI_SUCCESS w"

end
