(* ===== verification/LinuxBoot.thy ===== *)
theory LinuxBoot
  imports Dtbo LinuxFiles FdtUtils LinuxMemory
begin

text \<open>
  Booting: \<open>src/linux/load.c\<close> puts the data of a boot together, \<open>preboot.c\<close> installs the device tree, \<open>boot.c\<close> and
  \<open>efi.c\<close> start the kernel as an EFI program and \<open>aarch64.c\<close> jumps to it.
\<close>

section \<open>State and services\<close>

text \<open>
  The configuration and the loader's tree, the pages, the block of the installed tree, and the state \<open>'w\<close> of the
  firmware.
\<close>

record ('t, 'w) linux_state =
  bs_dt :: "'t dt_state"
  bs_pages :: page_state
  bs_installed :: "nat option"
  bs_world :: 'w

text \<open>
  The fixup protocol (the status of finding it, whether it is valid, and its call for a tree and a size), the
  configuration table, the start of an EFI program (the range of its bytes and its arguments) and the address of a
  block.
\<close>

record ('t, 'w) boot_services =
  bo_locate_fixup :: "efi_status \<times> bool"
  bo_fixup :: "'t \<Rightarrow> int \<Rightarrow> 'w \<Rightarrow> (efi_status \<times> int \<times> 't) \<times> 'w"
  bo_install :: "nat \<Rightarrow> 't \<Rightarrow> 'w \<Rightarrow> efi_status \<times> 'w"
  bo_start :: "nat \<Rightarrow> nat \<Rightarrow> cstring \<Rightarrow> cstring option \<Rightarrow> 'w \<Rightarrow> efi_status \<times> 'w"
  bo_address :: "nat \<Rightarrow> nat"
  bo_fdt :: "'t fdt_ops"
  bo_tables :: "'t fdt_tables"

section \<open>load.c\<close>

definition load_fail ::
  "'t linux_data \<Rightarrow> ('t, 'w) linux_state \<Rightarrow> ('t linux_data option \<times> ('t, 'w) linux_state) option" where
  "load_fail data b = do {
     s \<leftarrow> linux_data_clean data (bs_pages b);
     Some (None, b\<lparr>bs_pages := s\<rparr>)
   }"

text \<open>A step on the files and pages, and a step on the configuration, of the state.\<close>

definition on_files ::
  "(files_state \<Rightarrow> ('a \<times> files_state) option) \<Rightarrow> ('t, 'w) linux_state \<Rightarrow> ('a \<times> ('t, 'w) linux_state) option" where
  "on_files f b = do {
     (r, g, s) \<leftarrow> f (dt_g (bs_dt b), bs_pages b);
     Some (r, b\<lparr>bs_dt := (bs_dt b)\<lparr>dt_g := g\<rparr>, bs_pages := s\<rparr>)
   }"

definition on_config ::
  "(embloader \<Rightarrow> ('a \<times> embloader) option) \<Rightarrow> ('t, 'w) linux_state \<Rightarrow> ('a \<times> ('t, 'w) linux_state) option" where
  "on_config f b = do {
     (r, g) \<leftarrow> f (dt_g (bs_dt b));
     Some (r, b\<lparr>bs_dt := (bs_dt b)\<lparr>dt_g := g\<rparr>\<rparr>)
   }"

text \<open>The last steps, after the kernel and the initramfs: the arguments, the tree and its overlays.\<close>

definition load_config_data ::
  "('t, 'w) boot_services \<Rightarrow> efi_root option \<Rightarrow> efi_root linux_bootinfo \<Rightarrow> 't linux_data \<Rightarrow> ('t, 'w) linux_state \<Rightarrow>
   ('t linux_data option \<times> ('t, 'w) linux_state) option" where
  "load_config_data S root info data b = do {
     ((status, bootargs), b) \<leftarrow> on_config (linux_load_bootargs info) b;
     (let data = data\<lparr>ld_bootargs := bootargs\<rparr> in
      if EFI_ERROR status then load_fail data b
      else do {
        ((status, fdt), b) \<leftarrow> on_config (\<lambda>g. Some (linux_load_devicetree (bo_fdt S) info g)) b;
        (let data = data\<lparr>ld_fdt := fdt\<rparr> in
         if EFI_ERROR status then load_fail data b
         else do {
           ((status, fdt), d) \<leftarrow> linux_load_dtoverlay (bo_fdt S) (bo_tables S) root (Some (ld_loader data)) (ld_fdt data)
             info (bs_dt b);
           (let data = data\<lparr>ld_fdt := fdt\<rparr>; b = b\<lparr>bs_dt := d\<rparr> in
            if \<not> EFI_ERROR status then Some (Some data, b)
            else do {
              (skip, b) \<leftarrow> on_config (\<lambda>g. gget_bool (g_config g) ''devicetree.skip-overlays-error'' True g) b;
              (if skip then Some (Some data, b) else load_fail data b)
            })
         })
      })
   }"

definition load_files ::
  "('t, 'w) boot_services \<Rightarrow> efi_root option \<Rightarrow> efi_root linux_bootinfo \<Rightarrow> ('t, 'w) linux_state \<Rightarrow>
   ('t linux_data option \<times> ('t, 'w) linux_state) option" where
  "load_files S root info b = do {
     ((status, data), b) \<leftarrow> on_files (linux_load_kernel info (zero_data (li_loader info))) b;
     (if EFI_ERROR status then load_fail data b
      else do {
        ((status, data), b) \<leftarrow> on_files (linux_load_initramfs info data) b;
        (if EFI_ERROR status then load_fail data b else load_config_data S root info data b)
      })
   }"

definition linux_data_load ::
  "('t, 'w) boot_services \<Rightarrow> efi_root option \<Rightarrow> efi_root linux_bootinfo \<Rightarrow> ('t, 'w) linux_state \<Rightarrow>
   ('t linux_data option \<times> ('t, 'w) linux_state) option" where
  "linux_data_load S root info b =
     (if li_root info = None \<or> li_kernel info = None then Some (None, b)
      else do {
        ((_, depends), b) \<leftarrow> on_config (embloader_dt_get_default_dtb (Some (li_loader info))) b;
        (ok, b) \<leftarrow> on_config (\<lambda>g. Some (galloc g)) (if depends then b\<lparr>bs_dt := (bs_dt b)\<lparr>dt_fdt := None\<rparr>\<rparr> else b);
        (if ok then load_files S root info b else Some (None, b))
      })"

section \<open>preboot.c\<close>

text \<open>The tree in the buffer of the fixup; the result is the status and the tree of the caller.\<close>

definition efi_dtfixup ::
  "('t, 'w) boot_services \<Rightarrow> 't \<Rightarrow> ('t, 'w) linux_state \<Rightarrow> (efi_status \<times> 't) \<times> ('t, 'w) linux_state" where
  "efi_dtfixup S tree b =
     (let F = bo_fdt S; (status, valid) = bo_locate_fixup S in
      if EFI_ERROR status then ((if status = EFI_NOT_FOUND then EFI_SUCCESS else status, tree), b)
      else if \<not> valid then ((EFI_PROTOCOL_ERROR, tree), b)
      else let (ok, g) = galloc (dt_g (bs_dt b)); b = b\<lparr>bs_dt := (bs_dt b)\<lparr>dt_g := g\<rparr>\<rparr> in
      if \<not> ok then ((EFI_OUT_OF_RESOURCES, tree), b)
      else let (ret, buff) = fo_open_into F tree in
      if ret \<noteq> 0 then ((EFI_DEVICE_ERROR, tree), b)
      else let (ret, buff) = fo_pack F buff in
      if ret \<noteq> 0 then ((EFI_DEVICE_ERROR, tree), b)
      else let ((status, sz, buff), w) = bo_fixup S buff 0 (bs_world b); b = b\<lparr>bs_world := w\<rparr> in
      if status \<noteq> EFI_BUFFER_TOO_SMALL then ((if EFI_ERROR status then status else EFI_PROTOCOL_ERROR, tree), b)
      else if sz > SIZE_2MB then ((EFI_BAD_BUFFER_SIZE, tree), b)
      else let ((status, sz, buff), w) = bo_fixup S buff sz (bs_world b); b = b\<lparr>bs_world := w\<rparr> in
      if EFI_ERROR status then ((status, tree), b)
      else if fo_check_header F buff \<noteq> 0 then ((EFI_DEVICE_ERROR, tree), b)
      else let (ret, tree) = fo_open_into F buff
           in ((if ret \<noteq> 0 then EFI_DEVICE_ERROR else status, tree), b))"

text \<open>\<open>EFI_SIZE_TO_PAGES(SIZE_2MB)\<close>\<close>

definition FDT_PAGES :: int where
  "FDT_PAGES = 512"

definition install_fail ::
  "nat \<Rightarrow> efi_status \<Rightarrow> ('t, 'w) linux_state \<Rightarrow> (efi_status \<times> ('t, 'w) linux_state) option" where
  "install_fail block status b = do {
     s \<leftarrow> free_pages block FDT_PAGES (bs_pages b);
     Some (status, b\<lparr>bs_pages := s\<rparr>)
   }"

text \<open>The copied tree, after the fixup, in the table; the block of the previous tree is freed.\<close>

definition install_copy ::
  "('t, 'w) boot_services \<Rightarrow> nat \<Rightarrow> 't \<Rightarrow> ('t, 'w) linux_state \<Rightarrow> (efi_status \<times> ('t, 'w) linux_state) option" where
  "install_copy S block nfdt b =
     (let (ret, nfdt) = fo_pack (bo_fdt S) nfdt in
      if ret \<noteq> 0 then install_fail block EFI_DEVICE_ERROR b
      else let (status, w) = bo_install S block nfdt (bs_world b); b = b\<lparr>bs_world := w\<rparr> in
      if EFI_ERROR status then install_fail block status b
      else do {
        s \<leftarrow> (case bs_installed b of None \<Rightarrow> Some (bs_pages b) | Some p \<Rightarrow> free_pages p FDT_PAGES (bs_pages b));
        Some (EFI_SUCCESS, b\<lparr>bs_pages := s, bs_installed := Some block\<rparr>)
      })"

definition linux_install_fdt ::
  "('t, 'w) boot_services \<Rightarrow> 't option \<Rightarrow> ('t, 'w) linux_state \<Rightarrow> (efi_status \<times> ('t, 'w) linux_state) option" where
  "linux_install_fdt S fdt b =
     (case fdt of
        None \<Rightarrow> Some (EFI_INVALID_PARAMETER, b)
      | Some tree \<Rightarrow>
          if fo_check_header (bo_fdt S) tree < 0 then Some (EFI_INVALID_PARAMETER, b)
          else let sz = fo_totalsize (bo_fdt S) tree in
          if sz \<le> 0 \<or> sz > SIZE_2MB then Some (EFI_INVALID_PARAMETER, b)
          else let ((status, block), s) = alloc_pages FDT_PAGES (bs_pages b); b = b\<lparr>bs_pages := s\<rparr> in
          if EFI_ERROR status then Some (EFI_OUT_OF_RESOURCES, b)
          else do {
            (fixup, b) \<leftarrow> on_config (\<lambda>g. gget_bool (g_config g) ''efi.dtfixup'' True g) b;
            (let ((status, nfdt), b) = (if fixup then efi_dtfixup S tree b else ((EFI_SUCCESS, tree), b))
             in if EFI_ERROR status then install_fail block status b else install_copy S block nfdt b)
          })"

text \<open>The overlays of the configuration on the loader's tree, undone or refused when they fail.\<close>

definition prepare_overlays ::
  "('t, 'w) boot_services \<Rightarrow> efi_root option \<Rightarrow> embloader_loader option \<Rightarrow> 't \<Rightarrow> embloader_dtbo_on_error \<Rightarrow> 't option \<Rightarrow>
   ('t, 'w) linux_state \<Rightarrow> (efi_status \<times> ('t, 'w) linux_state) option" where
  "prepare_overlays S root loader fdt on_error backup b = do {
     ((ret, fdt), b) \<leftarrow> on_config (linux_load_dtbos (bo_fdt S) loader root fdt [] on_error) b;
     (if ret < 0 \<and> \<not> (on_error = DTBO_ERROR_REVERT \<and> backup \<noteq> None)
      then Some (EFI_LOAD_ERROR, b\<lparr>bs_dt := (bs_dt b)\<lparr>dt_fdt := Some fdt\<rparr>\<rparr>)
      else let fdt = (if ret < 0 then backup else Some fdt); b = b\<lparr>bs_dt := (bs_dt b)\<lparr>dt_fdt := fdt\<rparr>\<rparr>
           in linux_install_fdt S fdt b)
   }"

definition embloader_prepare_boot ::
  "('t, 'w) boot_services \<Rightarrow> efi_root option \<Rightarrow> embloader_loader option \<Rightarrow> ('t, 'w) linux_state \<Rightarrow>
   (efi_status \<times> ('t, 'w) linux_state) option" where
  "embloader_prepare_boot S root loader b = do {
     ((ok, depends), d) \<leftarrow> linux_load_default_dtb (bo_fdt S) root loader (bs_dt b);
     (if \<not> ok \<and> depends then Some (EFI_NOT_FOUND, b\<lparr>bs_dt := d\<rparr>)
      else let (_, d) = (if dt_fdt d = None then embloader_fetch_fdt (bo_fdt S) (bo_tables S) d else (EFI_SUCCESS, d));
               b = b\<lparr>bs_dt := d\<rparr> in
      case dt_fdt d of
        None \<Rightarrow> Some (EFI_LOAD_ERROR, b)
      | Some fdt \<Rightarrow> do {
          (on_error, b) \<leftarrow> on_config linux_get_dtbo_on_error b;
          (if on_error \<noteq> DTBO_ERROR_REVERT then prepare_overlays S root loader fdt on_error None b
           else let sz = fo_totalsize (bo_fdt S) fdt in
           if sz \<le> 0 \<or> sz > SIZE_2MB then Some (EFI_DEVICE_ERROR, b)
           else let (ok, g) = galloc (dt_g (bs_dt b)); b = b\<lparr>bs_dt := (bs_dt b)\<lparr>dt_g := g\<rparr>\<rparr> in
           if \<not> ok then Some (EFI_OUT_OF_RESOURCES, b)
           else prepare_overlays S root loader fdt on_error (Some fdt) b)
        })
   }"

section \<open>boot.c and efi.c\<close>

definition linux_boot_efi ::
  "('t, 'w) boot_services \<Rightarrow> page_buffer option \<Rightarrow> int \<Rightarrow> cstring option \<Rightarrow> 'w \<Rightarrow> efi_status \<times> 'w" where
  "linux_boot_efi S img len cmdline w =
     (case img of
        None \<Rightarrow> (EFI_INVALID_PARAMETER, w)
      | Some i \<Rightarrow>
          if len = 0 then (EFI_INVALID_PARAMETER, w)
          else let start = bo_address S (pb_block i) in
          if len - 1 > SIZE_MAX64 - int start then (EFI_BAD_BUFFER_SIZE, w)
          else bo_start S start (nat (int start + len - 1)) (pb_data i) cmdline w)"

text \<open>The status and the data, whose initramfs is forgotten when its protocol could not be removed.\<close>

definition linux_boot_use_efi ::
  "('t, 'w) boot_services \<Rightarrow> 'w initrd_services \<Rightarrow> efi_root option \<Rightarrow> 't linux_data \<Rightarrow> ('t, 'w) linux_state \<Rightarrow>
   ((efi_status \<times> 't linux_data) \<times> ('t, 'w) linux_state) option" where
  "linux_boot_use_efi S I root data b = do {
     (failed, b) \<leftarrow>
       (if ld_fdt data \<noteq> None \<or> dt_fdt (bs_dt b) \<noteq> None then do {
          (status, b) \<leftarrow> linux_install_fdt S (if ld_fdt data \<noteq> None then ld_fdt data else dt_fdt (bs_dt b)) b;
          Some (if EFI_ERROR status then Some status else None, b)
        }
        else do { (_, b) \<leftarrow> embloader_prepare_boot S root (Some (ld_loader data)) b; Some (None, b) });
     (case failed of
        Some status \<Rightarrow> Some ((status, data), b)
      | None \<Rightarrow>
          let ((status, hand), g, w) =
            (if ld_initramfs data \<noteq> None \<and> ld_initramfs_size data > 0
             then linux_initramfs_register I (ld_initramfs data) (ld_initramfs_size data) (dt_g (bs_dt b), bs_world b)
             else ((EFI_SUCCESS, None), dt_g (bs_dt b), bs_world b));
              b = b\<lparr>bs_dt := (bs_dt b)\<lparr>dt_g := g\<rparr>, bs_world := w\<rparr> in
          if EFI_ERROR status then Some ((status, data), b)
          else let (status, w) = linux_boot_efi S (ld_kernel data) (ld_kernel_size data) (ld_bootargs data) (bs_world b);
                   (unregister_status, w) = linux_initramfs_unregister I hand w;
                   data = (if hand \<noteq> None \<and> EFI_ERROR unregister_status
                           then data\<lparr>ld_initramfs := None, ld_initramfs_size := 0\<rparr> else data)
               in Some ((if EFI_ERROR status then status else unregister_status, data), b\<lparr>bs_world := w\<rparr>))
   }"

section \<open>The jump of aarch64.c\<close>

text \<open>The code returns, or the kernel runs: with its image, the tree and the initramfs whose caches were written.\<close>

datatype 't boot_outcome =
  Returned efi_status
| Running arm64_image "64 word" 't "nat option"

definition invoke_boot ::
  "'w memory_services \<Rightarrow> ('w \<Rightarrow> 'w) option \<Rightarrow> arm64_image \<Rightarrow> 64 word \<Rightarrow> 't \<Rightarrow> nat option \<Rightarrow> 'w \<Rightarrow> 't boot_outcome \<times> 'w" where
  "invoke_boot M before_handoff img fdt_address fdt initrd w =
     (let w = (case before_handoff of None \<Rightarrow> w | Some h \<Rightarrow> h w);
          (status, w) = linux_exit_boot_services M w
      in if EFI_ERROR status then (Returned status, w) else (Running img fdt_address fdt initrd, w))"

text \<open>The tree for the kernel: the arguments, the initramfs and the memory. The status, the tree and whether the map is kept.\<close>

definition prepare_tree ::
  "('t, 'w) boot_services \<Rightarrow> 'w memory_services \<Rightarrow> 't linux_data \<Rightarrow> 't \<Rightarrow> 'w \<Rightarrow> ((efi_status \<times> 't \<times> bool) \<times> 'w) option" where
  "prepare_tree S M data source w =
     (let F = bo_fdt S; (ret, fdt) = fo_open_into F source in
      if ret \<noteq> 0 then Some ((EFI_LOAD_ERROR, fdt, False), w)
      else let (ret, fdt) = (if ld_bootargs data = None then (0, fdt) else linux_fdt_fill_bootargs F fdt (ld_bootargs data)) in
      if ret \<noteq> 0 then Some ((EFI_LOAD_ERROR, fdt, False), w)
      else do {
        (ret, fdt) \<leftarrow> linux_fdt_fill_initrd F fdt (map_option (\<lambda>b. bo_address S (pb_block b)) (ld_initramfs data))
          (nat (ld_initramfs_size data));
        (if ret \<noteq> 0 then Some ((EFI_LOAD_ERROR, fdt, False), w)
         else do {
           ((status, memory), w) \<leftarrow> load_memory_map M w;
           (if EFI_ERROR status then Some ((status, fdt, False), w)
            else do {
              (ret, fdt) \<leftarrow> linux_fdt_fill_memory F fdt (map (\<lambda>r. (unat (lm_address r), unat (lm_size r))) memory);
              (if ret \<noteq> 0 then Some ((EFI_LOAD_ERROR, fdt, True), w)
               else let (ret, fdt) = fo_pack F fdt
                    in Some ((if ret \<noteq> 0 then EFI_LOAD_ERROR else EFI_SUCCESS, fdt, True), w))
            })
         })
      })"

text \<open>\<open>done\<close>: what has been allocated is freed; an image at address 0 counts as none.\<close>

definition free_boot ::
  "'w memory_services \<Rightarrow> bool \<Rightarrow> 64 word option \<Rightarrow> arm64_image option \<Rightarrow> 'w \<Rightarrow> 'w" where
  "free_boot M memory fdt img w =
     (let w = (if memory then ms_free_pool M w else w);
          w = (case fdt of None \<Rightarrow> w | Some a \<Rightarrow> ms_free_pages M a (EFI_SIZE_TO_PAGES 0x200000) w)
      in case img of
           None \<Rightarrow> w
         | Some i \<Rightarrow> if ai_allocation i = 0 then w else ms_free_pages M (ai_allocation i) (ai_pages i) w)"

definition linux_boot_use_aarch64 ::
  "('t, 'w) boot_services \<Rightarrow> 'w memory_services \<Rightarrow> ('w \<Rightarrow> 'w) option \<Rightarrow> efi_root option \<Rightarrow> 't linux_data \<Rightarrow>
   ('t, 'w) linux_state \<Rightarrow> ('t boot_outcome \<times> ('t, 'w) linux_state) option" where
  "linux_boot_use_aarch64 S M before_handoff root data b = do {
     (status, b) \<leftarrow>
       (if ld_fdt data = None \<and> dt_fdt (bs_dt b) = None then embloader_prepare_boot S root (Some (ld_loader data)) b
        else Some (EFI_SUCCESS, b));
     (if EFI_ERROR status then Some (Returned status, b)
      else case (if ld_fdt data \<noteq> None then ld_fdt data else dt_fdt (bs_dt b)) of
        None \<Rightarrow> Some (Returned EFI_LOAD_ERROR, b)
      | Some source \<Rightarrow>
          if fo_check_header (bo_fdt S) source \<noteq> 0 then Some (Returned EFI_LOAD_ERROR, b)
          else do {
            ((status, img), w) \<leftarrow> (case ld_kernel data of
               None \<Rightarrow> Some ((EFI_LOAD_ERROR, None), bs_world b)
             | Some k \<Rightarrow> prepare_kernel M (pb_data k) (bs_world b));
            (case img of
               None \<Rightarrow> Some (Returned status, b\<lparr>bs_world := w\<rparr>)
             | Some i \<Rightarrow>
                 let (address, w) = ms_aligned_pages M (EFI_SIZE_TO_PAGES 0x200000) w in
                 (case address of
                    None \<Rightarrow> Some (Returned EFI_OUT_OF_RESOURCES, b\<lparr>bs_world := free_boot M False None (Some i) w\<rparr>)
                  | Some a \<Rightarrow> do {
                      ((status, fdt, memory), w) \<leftarrow> prepare_tree S M data source w;
                      (if EFI_ERROR status
                       then Some (Returned status, b\<lparr>bs_world := free_boot M memory (Some a) (Some i) w\<rparr>)
                       else let (outcome, w) = invoke_boot M before_handoff i a fdt
                              (if ld_initramfs_size data = 0 then None
                               else map_option (\<lambda>b. bo_address S (pb_block b)) (ld_initramfs data)) w
                            in Some (outcome, b\<lparr>bs_world :=
                                 (case outcome of Returned _ \<Rightarrow> free_boot M memory (Some a) (Some i) w | _ \<Rightarrow> w)\<rparr>))
                    }))
          })
   }"

end
