(* ===== verification/LinuxFilesFacts.thy ===== *)
theory LinuxFilesFacts
  imports LinuxFiles FileUtilsFacts "HOL-Library.Multiset"
begin

text \<open>
  Loading the kernel and the initramfs: every block is freed once and with its number of pages, a failure leaves
  nothing allocated, and the initramfs is its files one behind the other.
\<close>

section \<open>Freeing the files\<close>

definition some_buffers :: "page_buffer option list \<Rightarrow> page_buffer list" where
  "some_buffers fs = concat (map (case_option [] (\<lambda>b. [b])) fs)"

lemma some_buffers_simps [simp]:
  "some_buffers [] = []" "some_buffers (f # fs) = (case f of None \<Rightarrow> [] | Some b \<Rightarrow> [b]) @ some_buffers fs"
  "some_buffers (fs @ fs') = some_buffers fs @ some_buffers fs'"
  by (simp_all add: some_buffers_def)

definition total_size :: "page_buffer option list \<Rightarrow> int" where
  "total_size fs = (\<Sum>b \<leftarrow> some_buffers fs. int (length (pb_data b)))"

lemma total_size_simps [simp]:
  "total_size [] = 0" "total_size (f # fs) = buffer_size f + total_size fs"
  "total_size (fs @ fs') = total_size fs + total_size fs'"
  by (auto simp: total_size_def buffer_size_def split: option.splits)

lemma total_size_nonneg: "0 \<le> total_size fs"
  by (induction fs) (auto simp: buffer_size_def split: option.splits)

text \<open>Freeing a block of the multiset \<open>bs\<close> leaves the others.\<close>

definition holds_mset :: "page_state \<Rightarrow> (nat \<times> int) multiset \<Rightarrow> page_state \<Rightarrow> bool" where
  "holds_mset s M s' \<longleftrightarrow> (\<exists>bs. mset bs = M \<and> pages_hold s bs s')"

lemma holds_mset_free:
  assumes "holds_mset s (add_mset (b, n) M) s1"
  shows "\<exists>s2. free_pages b n s1 = Some s2 \<and> holds_mset s M s2"
proof -
  obtain bs where bs: "mset bs = add_mset (b, n) M" "pages_hold s bs s1"
    using assms by (auto simp: holds_mset_def)
  then have "(b, n) \<in> set bs" by (metis set_mset_mset union_single_eq_member)
  from free_pages_holds [OF bs(2) this] show ?thesis
    using bs(1) by (auto simp: holds_mset_def intro!: exI [of _ "remove1 (b, n) bs"])
qed

lemma holds_mset_empty: "holds_mset s {#} s' \<Longrightarrow> pages_hold s [] s'"
  by (auto simp: holds_mset_def)

lemma holds_mset_one: "holds_mset s {#e#} s' \<Longrightarrow> pages_hold s [e] s'"
  by (auto simp: holds_mset_def)

lemma free_files_holds:
  assumes "holds_mset s (mset (map block_of (some_buffers fs)) + M) s1"
  shows "\<exists>s2. free_files fs s1 = Some s2 \<and> holds_mset s M s2"
  using assms
proof (induction fs arbitrary: s1)
  case (Cons f fs)
  show ?case
  proof (cases f)
    case None
    then show ?thesis using Cons by (simp add: free_optional_def)
  next
    case (Some b)
    then have "holds_mset s (add_mset (block_of b) (mset (map block_of (some_buffers fs)) + M)) s1"
      using Cons.prems by simp
    then obtain s2 where "free_buffer b s1 = Some s2" "holds_mset s (mset (map block_of (some_buffers fs)) + M) s2"
      using holds_mset_free by (fastforce simp: block_of_def free_buffer_def)
    then show ?thesis using Cons.IH Some by (simp add: free_optional_def)
  qed
qed simp

section \<open>Reading the files\<close>

lemma read_files_holds:
  assumes "pages_hold s (map block_of (some_buffers files)) s1" "pages_fresh s" "total_len = total_size files"
  shows "\<exists>failure files' total_len' g' s2. read_files root names files total_len (g, s1) = Some ((failure, files', total_len'), g', s2) \<and>
    (case failure of
       None \<Rightarrow> pages_hold s (map block_of (some_buffers files')) s2 \<and> total_len' = total_size files'
     | Some (status, ptr) \<Rightarrow> pages_hold s (map block_of (some_buffers (files' @ [ptr]))) s2)"
  using assms(1,3)
proof (induction names arbitrary: files total_len g s1)
  case (Cons name names)
  obtain status ptr g1 s2 where r: "efi_file_open_read_pages root name (g, s1) = Some ((status, ptr), g1, s2)"
    and h: "case ptr of None \<Rightarrow> pages_hold s (map block_of (some_buffers files)) s2
      | Some b \<Rightarrow> \<not> EFI_ERROR status \<and> pages_hold s (map block_of (some_buffers files) @ [block_of b]) s2"
    using open_read_pages_holds [OF Cons.prems(1) assms(2), of root name g] by blast
  have held: "pages_hold s (map block_of (some_buffers (files @ [ptr]))) s2"
    using h by (cases ptr) auto
  obtain copy g2 where c: "gstrdup (Some name) g1 = (copy, g2)" by (metis prod.exhaust)
  obtain item g3 where i: "galloc g2 = (item, g3)" by (metis prod.exhaust)
  obtain cell g4 where l: "(if item then galloc g3 else (False, g3)) = (cell, g4)" by (metis prod.exhaust)
  have step: "read_files root (name # names) files total_len (g, s1) =
    (if EFI_ERROR status then Some ((Some (status, ptr), files, total_len), g1, s2)
     else if copy = None then Some ((Some (EFI_OUT_OF_RESOURCES, ptr), files, total_len), g2, s2)
     else if buffer_size ptr > SIZE_MAX64 - total_len then Some ((Some (EFI_BAD_BUFFER_SIZE, ptr), files, total_len), g2, s2)
     else if \<not> cell then Some ((Some (EFI_OUT_OF_RESOURCES, ptr), files, total_len), g4, s2)
     else read_files root names (files @ [ptr]) (total_len + buffer_size ptr) (g4, s2))"
    by (simp add: r c i l Let_def)
  show ?case
  proof (cases "EFI_ERROR status \<or> copy = None \<or> buffer_size ptr > SIZE_MAX64 - total_len \<or> \<not> cell")
    case True
    then have "\<exists>st gx. read_files root (name # names) files total_len (g, s1) =
        Some ((Some (st, ptr), files, total_len), gx, s2)"
      unfolding step by (cases "EFI_ERROR status"; cases "copy = None";
        cases "buffer_size ptr > SIZE_MAX64 - total_len"; cases cell) simp_all
    then obtain st gx where eq: "read_files root (name # names) files total_len (g, s1) =
        Some ((Some (st, ptr), files, total_len), gx, s2)" by blast
    show ?thesis unfolding eq using held by simp
  next
    case False
    then have eq: "read_files root (name # names) files total_len (g, s1) =
      read_files root names (files @ [ptr]) (total_len + buffer_size ptr) (g4, s2)"
      unfolding step by (cases copy) simp_all
    show ?thesis
      unfolding eq by (rule Cons.IH [OF held]) (simp add: Cons.prems(2))
  qed
qed simp

lemma join_files_all:
  "total_len = int (length pages) + total_size fs \<Longrightarrow>
   join_files fs total_len pages = Some (pages @ concat (map pb_data (some_buffers fs)))"
proof (induction fs arbitrary: pages)
  case (Cons f fs)
  show ?case
  proof (cases f)
    case None
    then show ?thesis using Cons by (simp add: buffer_size_def)
  next
    case (Some b)
    have n: "0 \<le> total_size fs" by (rule total_size_nonneg)
    show ?thesis using Some Cons.prems Cons.IH [of "pages @ pb_data b"] Cons.IH [of pages] n
      by (cases "pb_data b = []") (auto simp: buffer_size_def)
  qed
qed simp

lemma concat_size: "int (length (concat (map pb_data (some_buffers fs)))) = total_size fs"
  by (induction fs) (auto simp: buffer_size_def split: option.splits)

section \<open>The initramfs\<close>

lemma initramfs_holds:
  assumes "pages_fresh s"
  shows "\<exists>status data' g' s'. linux_load_initramfs info data (g, s) = Some ((status, data'), g', s') \<and>
    (data' = data \<and> pages_hold s [] s' \<or>
     (\<exists>b. status = EFI_SUCCESS \<and> pages_hold s [block_of b] s' \<and>
        data' = data\<lparr>ld_initramfs := Some b, ld_initramfs_size := int (length (pb_data b))\<rparr>))"
proof -
  obtain failure files total_len g1 s1 where
    r: "read_files (li_root info) (li_initramfs info) [] 0 (g, s) = Some ((failure, files, total_len), g1, s1)"
    and h: "case failure of
       None \<Rightarrow> pages_hold s (map block_of (some_buffers files)) s1 \<and> total_len = total_size files
     | Some (status, ptr) \<Rightarrow> pages_hold s (map block_of (some_buffers (files @ [ptr]))) s1"
    using read_files_holds [of s "[]" s 0 "li_root info" "li_initramfs info" g] assms by auto
  show ?thesis
  proof (cases failure)
    case (Some e)
    obtain status ptr where e: "e = (status, ptr)" by (cases e)
    have held: "holds_mset s (mset (map block_of (some_buffers (ptr # files))) + {#}) s1"
      using h Some e by (auto simp: holds_mset_def intro!: exI [of _ "map block_of (some_buffers (files @ [ptr]))"])
    from free_files_holds [OF this] obtain s2 where f: "free_files (ptr # files) s1 = Some s2" "pages_hold s [] s2"
      using holds_mset_empty by blast
    then obtain sm where "free_optional ptr s1 = Some sm" "free_files files sm = Some s2"
      by (auto simp: bind_eq_Some_conv)
    then show ?thesis using r Some e f(2) by (simp add: linux_load_initramfs_def)
  next
    case None
    then have held: "pages_hold s (map block_of (some_buffers files)) s1" and t: "total_len = total_size files"
      using h by auto
    then have heldm: "holds_mset s (mset (map block_of (some_buffers files)) + {#}) s1"
      by (auto simp: holds_mset_def intro!: exI [of _ "map block_of (some_buffers files)"])
    obtain status block s2 where a: "alloc_pages (size_to_pages_int total_len) s1 = ((status, block), s2)"
      by (metis prod.exhaust)
    note ah = alloc_pages_holds [OF held assms a]
    show ?thesis
    proof (cases "files = [] \<or> total_len > SIZE_MAX64 - 4096 + 1 \<or> EFI_ERROR status")
      case True
      then consider "files = []" | "files \<noteq> []" "total_len > SIZE_MAX64 - 4096 + 1"
        | "files \<noteq> []" "\<not> total_len > SIZE_MAX64 - 4096 + 1" "EFI_ERROR status" by blast
      then show ?thesis
      proof cases
        case 1
        then show ?thesis using r None held by (simp add: linux_load_initramfs_def)
      next
        case 2
        then show ?thesis
          using r None free_files_holds [OF heldm] by (auto simp: linux_load_initramfs_def dest!: holds_mset_empty)
      next
        case 3
        then have "holds_mset s (mset (map block_of (some_buffers files)) + {#}) s2"
          using ah by (auto simp: holds_mset_def intro!: exI [of _ "map block_of (some_buffers files)"])
        from free_files_holds [OF this] show ?thesis
          using r None 3 a by (auto simp: linux_load_initramfs_def Let_def dest!: holds_mset_empty)
      qed
    next
      case False
      let ?b = "\<lparr>pb_block = block, pb_data = concat (map pb_data (some_buffers files))\<rparr>"
      have e: "block_of ?b = (block, size_to_pages_int total_len)"
        by (simp add: block_of_def concat_size t)
      have "holds_mset s (mset (map block_of (some_buffers files)) + {#block_of ?b#}) s2"
        using ah False unfolding e by (auto simp: holds_mset_def intro!: exI [of _ "map block_of (some_buffers files) @ [(block, size_to_pages_int total_len)]"])
      from free_files_holds [OF this] obtain s3 where f: "free_files files s2 = Some s3" "pages_hold s [block_of ?b] s3"
        using holds_mset_one by blast
      have j: "join_files files total_len [] = Some (pb_data ?b)"
        using join_files_all [of total_len "[]" files] t by simp
      have "linux_load_initramfs info data (g, s) =
        Some ((EFI_SUCCESS, data\<lparr>ld_initramfs := Some ?b, ld_initramfs_size := int (length (pb_data ?b))\<rparr>), g1, s3)"
        using r None False a f(1) j t by (simp add: linux_load_initramfs_def Let_def concat_size)
      then show ?thesis using f(2) by blast
    qed
  qed
qed

end
