(* ===== verification/LinuxBootFacts.thy ===== *)
theory LinuxBootFacts
  imports LinuxBoot LinuxFilesFacts
begin

text \<open>
  The pages of a boot: loading the data leaves exactly its pages allocated, or nothing when it fails, and freeing
  the data gives them back; installing a tree keeps one block for it.
\<close>

section \<open>The pages of the data\<close>

definition data_entries :: "'t linux_data \<Rightarrow> (nat \<times> int) list" where
  "data_entries data =
     (case ld_kernel data of None \<Rightarrow> [] | Some k \<Rightarrow> [(pb_block k, size_to_pages_int (ld_kernel_size data))]) @
     (case ld_initramfs data of None \<Rightarrow> [] | Some i \<Rightarrow> [(pb_block i, size_to_pages_int (ld_initramfs_size data))])"

lemma size_to_pages_align: "size_to_pages_int (ALIGN_VALUE n 4096) = size_to_pages_int n"
proof -
  define q where "q = n div 4096"
  define r where "r = n mod 4096"
  have n: "n = 4096 * q + r" "0 \<le> r" "r < 4096" by (simp_all add: q_def r_def)
  have "(n + 4095) div 4096 = q + (if r \<noteq> 0 then 1 else 0)"
    using n int_div_pos_eq [of "n + 4095" 4096 q "r + 4095"] int_div_pos_eq [of "n + 4095" 4096 "q + 1" "r - 1"]
    by (cases "r = 0") auto
  then show ?thesis by (simp add: ALIGN_VALUE_def size_to_pages_int_def q_def r_def)
qed

lemma holds_trans:
  assumes "pages_hold s bs s1" "pages_hold s1 cs s2"
  shows "pages_hold s (bs @ cs) s2"
proof -
  have bs: "\<And>k n. (k, n) \<in> set bs \<Longrightarrow> ps_live s1 k = Some n \<and> ps_live s k = None \<and> k < ps_tick s1"
    "\<And>k. k \<notin> fst ` set bs \<Longrightarrow> ps_live s1 k = ps_live s k" "distinct (map fst bs)" "ps_tick s \<le> ps_tick s1"
    using assms(1) by (auto simp: pages_hold_def)
  have cs: "\<And>k n. (k, n) \<in> set cs \<Longrightarrow> ps_live s2 k = Some n \<and> ps_live s1 k = None \<and> k < ps_tick s2"
    "\<And>k. k \<notin> fst ` set cs \<Longrightarrow> ps_live s2 k = ps_live s1 k" "distinct (map fst cs)" "ps_tick s1 \<le> ps_tick s2"
    using assms(2) by (auto simp: pages_hold_def)
  have b: "k \<notin> fst ` set cs" if "(k, n) \<in> set bs" for k n using bs(1) [OF that] cs(1) by fastforce
  have c: "k \<notin> fst ` set bs" if "(k, n) \<in> set cs" for k n using cs(1) [OF that] bs(1) by fastforce
  have "ps_live s2 k = Some n \<and> ps_live s k = None \<and> k < ps_tick s2" if "(k, n) \<in> set (bs @ cs)" for k n
  proof (cases "(k, n) \<in> set bs")
    case True
    then show ?thesis using bs(1) [OF True] cs(2) [OF b [OF True]] cs(4) by simp
  next
    case False
    then have "(k, n) \<in> set cs" using that by simp
    then show ?thesis using cs(1) bs(2) [OF c] by metis
  qed
  moreover have "distinct (map fst (bs @ cs))" using bs(3) cs(3) b by (auto simp: image_iff) force
  moreover have "ps_live s2 k = ps_live s k" if "k \<notin> fst ` set (bs @ cs)" for k
    using that bs(2) [of k] cs(2) [of k] by (simp add: image_Un)
  ultimately show ?thesis using bs(4) cs(4) by (auto simp: pages_hold_def)
qed

lemma holds_fresh: "pages_hold s bs s1 \<Longrightarrow> pages_fresh s \<Longrightarrow> pages_fresh s1"
  unfolding pages_fresh_def pages_hold_def by (smt (verit) case_prodD image_iff less_le_trans prod.collapse)

lemma clean_frees:
  assumes "pages_hold s (data_entries data) s1"
  shows "\<exists>s2. linux_data_clean data s1 = Some s2 \<and> ps_live s2 = ps_live s"
proof -
  have m: "holds_mset s (mset (data_entries data)) s1" using assms by (auto simp: holds_mset_def)
  show ?thesis
  proof (cases "ld_kernel data")
    case None
    then show ?thesis
      using m by (cases "ld_initramfs data")
        (auto simp: linux_data_clean_def data_entries_def size_to_pages_align dest!: holds_mset_free holds_mset_empty holds_nothing)
  next
    case (Some k)
    let ?rest = "case ld_initramfs data of None \<Rightarrow> [] | Some i \<Rightarrow> [(pb_block i, size_to_pages_int (ld_initramfs_size data))]"
    have "holds_mset s (add_mset (pb_block k, size_to_pages_int (ld_kernel_size data)) (mset ?rest)) s1"
      using m Some by (simp add: data_entries_def)
    then obtain s2 where s2: "free_pages (pb_block k) (size_to_pages_int (ld_kernel_size data)) s1 = Some s2"
      "holds_mset s (mset ?rest) s2" using holds_mset_free by blast
    then show ?thesis
      using Some by (cases "ld_initramfs data")
        (auto simp: linux_data_clean_def size_to_pages_align dest!: holds_mset_free holds_mset_empty holds_nothing)
  qed
qed

text \<open>A result of the load, from the pages \<open>s\<close>: no data and the same pages, or data with its pages.\<close>

definition load_result :: "page_state \<Rightarrow> 't linux_data option \<times> ('t, 'w) linux_state \<Rightarrow> bool" where
  "load_result s r \<longleftrightarrow> (case fst r of
     None \<Rightarrow> ps_live (bs_pages (snd r)) = ps_live s
   | Some data \<Rightarrow> pages_hold s (data_entries data) (bs_pages (snd r)))"

lemma load_fail_result:
  "pages_hold s (data_entries data) (bs_pages b) \<Longrightarrow> load_fail data b = Some r \<Longrightarrow> load_result s r"
  using clean_frees [of s data "bs_pages b"] by (auto simp: load_fail_def load_result_def)

lemma on_config_pages: "on_config f b = Some (r, b') \<Longrightarrow> bs_pages b' = bs_pages b"
  by (auto simp: on_config_def bind_eq_Some_conv)

lemma data_entries_config [simp]:
  "data_entries (data\<lparr>ld_bootargs := x\<rparr>) = data_entries data" "data_entries (data\<lparr>ld_fdt := y\<rparr>) = data_entries data"
  by (simp_all add: data_entries_def split: option.split)

lemma load_config_result:
  assumes "pages_hold s (data_entries data) (bs_pages b)" "load_config_data S root info data b = Some r"
  shows "load_result s r"
proof -
  obtain status bootargs b1 where c1: "on_config (linux_load_bootargs info) b = Some ((status, bootargs), b1)"
    and r1: "(if EFI_ERROR status then load_fail (data\<lparr>ld_bootargs := bootargs\<rparr>) b1
      else do {
        ((status, fdt), b) \<leftarrow> on_config (\<lambda>g. Some (linux_load_devicetree (bo_fdt S) info g)) b1;
        (let data = data\<lparr>ld_bootargs := bootargs, ld_fdt := fdt\<rparr> in
         if EFI_ERROR status then load_fail data b
         else do {
           ((status, fdt), d) \<leftarrow> linux_load_dtoverlay (bo_fdt S) (bo_tables S) root (Some (ld_loader data)) (ld_fdt data)
             info (bs_dt b);
           (let data = data\<lparr>ld_fdt := fdt\<rparr>; b = b\<lparr>bs_dt := d\<rparr> in
            if \<not> EFI_ERROR status then Some (Some data, b)
            else do {
              (skip, b) \<leftarrow> on_config (\<lambda>g. gget_bool (g_config g) ''devicetree.skip-overlays-error'' True g) b;
              (if skip then Some (Some data, b) else load_fail data b)
            })
         })
      }) = Some r"
    using assms(2) unfolding load_config_data_def Let_def by (auto simp: bind_eq_Some_conv)
  have p1: "pages_hold s (data_entries data) (bs_pages b1)" using on_config_pages [OF c1] assms(1) by simp
  show ?thesis
  proof (cases "EFI_ERROR status")
    case True
    then show ?thesis using r1 p1 load_fail_result [of s "data\<lparr>ld_bootargs := bootargs\<rparr>" b1 r] by simp
  next
    case False
    then obtain status2 fdt b2 where
      c2: "on_config (\<lambda>g. Some (linux_load_devicetree (bo_fdt S) info g)) b1 = Some ((status2, fdt), b2)"
      and r2: "(let data = data\<lparr>ld_bootargs := bootargs, ld_fdt := fdt\<rparr> in
         if EFI_ERROR status2 then load_fail data b2
         else do {
           ((status, fdt), d) \<leftarrow> linux_load_dtoverlay (bo_fdt S) (bo_tables S) root (Some (ld_loader data)) (ld_fdt data)
             info (bs_dt b2);
           (let data = data\<lparr>ld_fdt := fdt\<rparr>; b = b2\<lparr>bs_dt := d\<rparr> in
            if \<not> EFI_ERROR status then Some (Some data, b)
            else do {
              (skip, b) \<leftarrow> on_config (\<lambda>g. gget_bool (g_config g) ''devicetree.skip-overlays-error'' True g) b;
              (if skip then Some (Some data, b) else load_fail data b)
            })
         }) = Some r"
      using r1 by (auto simp: bind_eq_Some_conv)
    have p2: "pages_hold s (data_entries data) (bs_pages b2)" using on_config_pages [OF c2] p1 by simp
    let ?data = "data\<lparr>ld_bootargs := bootargs, ld_fdt := fdt\<rparr>"
    show ?thesis
    proof (cases "EFI_ERROR status2")
      case True
      then show ?thesis using r2 p2 load_fail_result [of s ?data b2 r] by (simp add: Let_def)
    next
      case False
      then obtain status3 fdt3 d where
        r3: "(if \<not> EFI_ERROR status3 then Some (Some (?data\<lparr>ld_fdt := fdt3\<rparr>), b2\<lparr>bs_dt := d\<rparr>)
            else do {
              (skip, b) \<leftarrow> on_config (\<lambda>g. gget_bool (g_config g) ''devicetree.skip-overlays-error'' True g) (b2\<lparr>bs_dt := d\<rparr>);
              (if skip then Some (Some (?data\<lparr>ld_fdt := fdt3\<rparr>), b) else load_fail (?data\<lparr>ld_fdt := fdt3\<rparr>) b)
            }) = Some r"
        using r2 by (auto simp: bind_eq_Some_conv Let_def)
      show ?thesis
      proof (cases "EFI_ERROR status3")
        case True
        then obtain skip b4 where "on_config (\<lambda>g. gget_bool (g_config g) ''devicetree.skip-overlays-error'' True g) (b2\<lparr>bs_dt := d\<rparr>) = Some (skip, b4)"
          and r4: "(if skip then Some (Some (?data\<lparr>ld_fdt := fdt3\<rparr>), b4) else load_fail (?data\<lparr>ld_fdt := fdt3\<rparr>) b4) = Some r"
          using r3 by (auto simp: bind_eq_Some_conv)
        then have "pages_hold s (data_entries (?data\<lparr>ld_fdt := fdt3\<rparr>)) (bs_pages b4)"
          using on_config_pages p2 by fastforce
        then show ?thesis
          using r4 load_fail_result [of s "?data\<lparr>ld_fdt := fdt3\<rparr>" b4 r] by (cases skip) (auto simp: load_result_def)
      next
        case False
        then show ?thesis using r3 p2 by (auto simp: load_result_def)
      qed
    qed
  qed
qed

lemma load_kernel_entries:
  assumes "linux_load_kernel info (zero_data l) (g, s) = Some ((status, data), g', s')" "pages_fresh s"
  shows "pages_hold s (data_entries data) s' \<and> ld_initramfs data = None"
proof (cases "li_kernel info")
  case None
  then show ?thesis using assms by (auto simp: linux_load_kernel_def data_entries_def zero_data_def)
next
  case (Some path)
  obtain st r g1 s1 where o: "efi_file_open_read_pages (li_root info) path (g, s) = Some ((st, r), g1, s1)"
    and h: "case r of None \<Rightarrow> pages_hold s [] s1 | Some b \<Rightarrow> \<not> EFI_ERROR st \<and> pages_hold s ([] @ [block_of b]) s1"
    using open_read_pages_holds [OF holds_nil assms(2), of "li_root info" path g] by blast
  have "EFI_ERROR st \<Longrightarrow> r = None" using h by (cases r) auto
  then show ?thesis
    using assms(1) Some o h
    by (cases r) (auto simp: linux_load_kernel_def data_entries_def zero_data_def block_of_def buffer_size_def
        split: if_splits)
qed

lemma load_initramfs_entries:
  assumes "linux_load_initramfs info data (g, s1) = Some ((status, data'), g', s2)" "pages_hold s (data_entries data) s1"
    "pages_fresh s" "ld_initramfs data = None"
  shows "pages_hold s (data_entries data') s2"
proof -
  from initramfs_holds [OF holds_fresh [OF assms(2,3)], of info data g] assms(1)
  consider "data' = data" "pages_hold s1 [] s2"
    | b where "pages_hold s1 [block_of b] s2" "data' = data\<lparr>ld_initramfs := Some b, ld_initramfs_size := int (length (pb_data b))\<rparr>"
    by auto
  then show ?thesis
  proof cases
    case 1
    then show ?thesis using holds_trans [OF assms(2) 1(2)] by simp
  next
    case (2 b)
    have "data_entries data' = data_entries data @ [block_of b]"
      using 2(2) assms(4) by (simp add: data_entries_def block_of_def split: option.split)
    then show ?thesis using holds_trans [OF assms(2) 2(1)] by simp
  qed
qed

lemma load_files_result:
  assumes "load_files S root info b = Some r" "pages_fresh (bs_pages b)"
  shows "load_result (bs_pages b) r"
proof -
  obtain status data g2 s2 where
    k: "linux_load_kernel info (zero_data (li_loader info)) (dt_g (bs_dt b), bs_pages b) = Some ((status, data), g2, s2)"
    and r2: "(if EFI_ERROR status then load_fail data (b\<lparr>bs_dt := (bs_dt b)\<lparr>dt_g := g2\<rparr>, bs_pages := s2\<rparr>)
          else do {
            ((status, data), b) \<leftarrow> on_files (linux_load_initramfs info data) (b\<lparr>bs_dt := (bs_dt b)\<lparr>dt_g := g2\<rparr>, bs_pages := s2\<rparr>);
            (if EFI_ERROR status then load_fail data b else load_config_data S root info data b)
          }) = Some r"
    using assms(1) by (auto simp: load_files_def on_files_def bind_eq_Some_conv)
  note h = load_kernel_entries [OF k assms(2)]
  show ?thesis
  proof (cases "EFI_ERROR status")
    case True
    then have "load_fail data (b\<lparr>bs_dt := (bs_dt b)\<lparr>dt_g := g2\<rparr>, bs_pages := s2\<rparr>) = Some r" using r2 by simp
    then show ?thesis using h load_fail_result [of "bs_pages b" data "b\<lparr>bs_dt := (bs_dt b)\<lparr>dt_g := g2\<rparr>, bs_pages := s2\<rparr>" r] by simp
  next
    case False
    then obtain status3 data3 g3 s3 where
      i: "linux_load_initramfs info data (g2, s2) = Some ((status3, data3), g3, s3)"
      and r3': "(if EFI_ERROR status3 then load_fail data3 (b\<lparr>bs_dt := (bs_dt b)\<lparr>dt_g := g3\<rparr>, bs_pages := s3\<rparr>)
        else load_config_data S root info data3 (b\<lparr>bs_dt := (bs_dt b)\<lparr>dt_g := g3\<rparr>, bs_pages := s3\<rparr>)) = Some r"
      using r2 by (auto simp: on_files_def bind_eq_Some_conv)
    define b3 where "b3 = b\<lparr>bs_dt := (bs_dt b)\<lparr>dt_g := g3\<rparr>, bs_pages := s3\<rparr>"
    note r3 = r3' [folded b3_def]
    have "pages_hold (bs_pages b) (data_entries data3) (bs_pages b3)"
      using load_initramfs_entries [OF i] h assms(2) by (simp add: b3_def)
    then show ?thesis
      using r3 load_fail_result [of "bs_pages b" data3 b3 r] load_config_result [of "bs_pages b" data3 b3 S root info r]
      by (cases "EFI_ERROR status3") simp_all
  qed
qed

lemma data_load_result:
  assumes "linux_data_load S root info b = Some r" "pages_fresh (bs_pages b)"
  shows "load_result (bs_pages b) r"
proof (cases "li_root info = None \<or> li_kernel info = None")
  case True
  then show ?thesis using assms(1) by (auto simp: linux_data_load_def load_result_def)
next
  case False
  then obtain depends x b1 ok b2 where
    c: "on_config (embloader_dt_get_default_dtb (Some (li_loader info))) b = Some ((x, depends), b1)"
    "on_config (\<lambda>g. Some (galloc g)) (if depends then b1\<lparr>bs_dt := (bs_dt b1)\<lparr>dt_fdt := None\<rparr>\<rparr> else b1) = Some (ok, b2)"
    and r: "(if ok then load_files S root info b2 else Some (None, b2)) = Some r"
    using assms(1) by (auto simp: linux_data_load_def bind_eq_Some_conv)
  have p: "bs_pages b2 = bs_pages b"
    using on_config_pages [OF c(1)] on_config_pages [OF c(2)] by (cases depends) simp_all
  show ?thesis
    using r load_files_result [of S root info b2 r] assms(2) p by (cases ok) (auto simp: load_result_def)
qed

section \<open>The installed tree\<close>

text \<open>Beside the blocks of \<open>base\<close>, the only live block is that of the installed tree.\<close>

definition installed_only :: "(nat \<Rightarrow> int option) \<Rightarrow> ('t, 'w) linux_state \<Rightarrow> bool" where
  "installed_only base b \<longleftrightarrow> pages_fresh (bs_pages b) \<and>
     (case bs_installed b of
        None \<Rightarrow> ps_live (bs_pages b) = base
      | Some k \<Rightarrow> base k = None \<and> ps_live (bs_pages b) = base(k \<mapsto> FDT_PAGES))"

lemma dtfixup_pages:
  "bs_pages (snd (efi_dtfixup S t b)) = bs_pages b \<and> bs_installed (snd (efi_dtfixup S t b)) = bs_installed b"
  by (simp add: efi_dtfixup_def Let_def case_prod_beta)

lemma install_fail_pages:
  "install_fail k status b = Some (st, b') \<Longrightarrow> st = status \<and> bs_installed b' = bs_installed b \<and>
     ps_live (bs_pages b') = (ps_live (bs_pages b))(k := None) \<and> ps_tick (bs_pages b') = ps_tick (bs_pages b)"
  by (auto simp: install_fail_def free_pages_def bind_eq_Some_conv split: if_splits)

text \<open>The state after the allocation of the block \<open>k\<close>, before it is freed or becomes the installed one.\<close>

definition installing :: "(nat \<Rightarrow> int option) \<Rightarrow> nat \<Rightarrow> ('t, 'w) linux_state \<Rightarrow> bool" where
  "installing base k b \<longleftrightarrow> k < ps_tick (bs_pages b) \<and> base k = None \<and> bs_installed b \<noteq> Some k \<and> pages_fresh (bs_pages b) \<and>
     (case bs_installed b of
        None \<Rightarrow> ps_live (bs_pages b) = base(k \<mapsto> FDT_PAGES)
      | Some p \<Rightarrow> base p = None \<and> ps_live (bs_pages b) = base(p \<mapsto> FDT_PAGES, k \<mapsto> FDT_PAGES))"

lemma installing_alloc:
  assumes "installed_only base b" "alloc_pages FDT_PAGES (bs_pages b) = ((status, k), s)" "\<not> EFI_ERROR status"
  shows "installing base k (b\<lparr>bs_pages := s\<rparr>)"
proof -
  have k: "k = ps_tick (bs_pages b)" "s = (bs_pages b)\<lparr>ps_tick := ps_tick (bs_pages b) + 1,
      ps_live := (ps_live (bs_pages b))(k \<mapsto> FDT_PAGES)\<rparr>"
    using assms(2,3) by (auto simp: alloc_pages_def Let_def)
  have new: "ps_live (bs_pages b) k = None"
    using assms(1) k(1) by (auto simp: installed_only_def pages_fresh_def)
  have "pages_fresh s" using assms(1) k by (auto simp: installed_only_def pages_fresh_def less_Suc_eq)
  then show ?thesis
    using assms(1) new k by (cases "bs_installed b") (auto simp: installing_def installed_only_def split: if_splits)
qed

lemma installing_fail:
  assumes "installing base k b" "install_fail k status b = Some (st, b')"
  shows "st = status \<and> installed_only base b' \<and> bs_installed b' = bs_installed b"
proof -
  note f = install_fail_pages [OF assms(2)]
  have "pages_fresh (bs_pages b')" using f assms(1) by (auto simp: installing_def pages_fresh_def)
  then show ?thesis
    using f assms(1) by (cases "bs_installed b") (auto simp: installing_def installed_only_def fun_upd_twist)
qed

lemma install_copy_installed:
  assumes "installing base k b" "install_copy S k t b = Some (status, b')"
  shows "installed_only base b' \<and> (if EFI_ERROR status then bs_installed b' = bs_installed b else bs_installed b' = Some k)"
proof -
  obtain ret t2 where p: "fo_pack (bo_fdt S) t = (ret, t2)" by (metis prod.exhaust)
  obtain st w where i: "bo_install S k t2 (bs_world b) = (st, w)" by (metis prod.exhaust)
  have w: "installing base k (b\<lparr>bs_world := w\<rparr>)"
    using assms(1) by (cases "bs_installed b") (simp_all add: installing_def)
  show ?thesis
  proof (cases "ret \<noteq> 0")
    case True
    then show ?thesis
      using assms p installing_fail [of base k b EFI_DEVICE_ERROR status b']
      by (auto simp: install_copy_def EFI_ERROR_def efi_warnings_def)
  next
    case ret: False
    show ?thesis
    proof (cases "EFI_ERROR st")
      case True
      then have "install_fail k st (b\<lparr>bs_world := w\<rparr>) = Some (status, b')"
        using assms(2) p i ret by (simp add: install_copy_def Let_def)
      from installing_fail [OF w this] True show ?thesis by simp
    next
      case False
      then obtain s where s: "(case bs_installed b of None \<Rightarrow> Some (bs_pages b) | Some p \<Rightarrow> free_pages p FDT_PAGES (bs_pages b)) = Some s"
        and r: "status = EFI_SUCCESS" "b' = b\<lparr>bs_world := w, bs_pages := s, bs_installed := Some k\<rparr>"
        using assms(2) p i ret False
        by (cases "bs_installed b") (auto simp: install_copy_def Let_def bind_eq_Some_conv)
      have "ps_live s = base(k \<mapsto> FDT_PAGES) \<and> base k = None"
        using s assms(1) by (cases "bs_installed b")
          (auto simp: installing_def free_pages_def fun_upd_twist split: if_splits)
      moreover have "ps_tick s = ps_tick (bs_pages b)" "\<And>x. ps_live s x \<noteq> None \<Longrightarrow> ps_live (bs_pages b) x \<noteq> None"
        using s by (cases "bs_installed b"; auto simp: free_pages_def split: if_splits)+
      then have "pages_fresh s" using assms(1) by (simp add: installing_def pages_fresh_def)
      ultimately show ?thesis using r by (simp add: installed_only_def)
    qed
  qed
qed

lemma install_fdt_installed:
  assumes "linux_install_fdt S fdt b = Some (status, b')" "installed_only base b"
  shows "installed_only base b' \<and> (if EFI_ERROR status then bs_installed b' = bs_installed b else bs_installed b' \<noteq> None)"
proof (cases "fdt = None \<or> fo_check_header (bo_fdt S) (the fdt) < 0 \<or> fo_totalsize (bo_fdt S) (the fdt) \<le> 0 \<or>
    fo_totalsize (bo_fdt S) (the fdt) > SIZE_2MB")
  case True
  then have "status = EFI_INVALID_PARAMETER \<and> b' = b"
    using assms(1) unfolding linux_install_fdt_def Let_def
    by (cases fdt; cases "fo_check_header (bo_fdt S) (the fdt) < 0"; cases "fo_totalsize (bo_fdt S) (the fdt) \<le> 0") simp_all
  then show ?thesis using assms(2) by simp
next
  case False
  then obtain tree where t: "fdt = Some tree" by auto
  obtain st k s where a: "alloc_pages FDT_PAGES (bs_pages b) = ((st, k), s)" by (metis prod.exhaust)
  show ?thesis
  proof (cases "EFI_ERROR st")
    case True
    then have "status = EFI_OUT_OF_RESOURCES \<and> b' = b\<lparr>bs_pages := s\<rparr>"
      using assms(1) False t a by (simp add: linux_install_fdt_def Let_def)
    moreover have "ps_live s = ps_live (bs_pages b)" "ps_tick (bs_pages b) \<le> ps_tick s"
      using a True by (auto simp: alloc_pages_def Let_def)
    ultimately show ?thesis
      using assms(2) by (force simp: installed_only_def pages_fresh_def split: option.splits)
  next
    case ok: False
    then obtain fixup b1 where c: "on_config (\<lambda>g. gget_bool (g_config g) ''efi.dtfixup'' True g) (b\<lparr>bs_pages := s\<rparr>) = Some (fixup, b1)"
      and r: "(let ((status, copied), b) = (if fixup then efi_dtfixup S tree b1 else ((EFI_SUCCESS, tree), b1))
             in if EFI_ERROR status then install_fail k status b else install_copy S k copied b) = Some (status, b')"
      using assms(1) False t a by (auto simp: linux_install_fdt_def Let_def bind_eq_Some_conv)
    obtain st2 t2 b2 where f: "(if fixup then efi_dtfixup S tree b1 else ((EFI_SUCCESS, tree), b1)) = ((st2, t2), b2)"
      by (metis prod.exhaust)
    have "bs_pages b2 = bs_pages b1 \<and> bs_installed b2 = bs_installed b1"
      using f dtfixup_pages [of S tree b1] by (cases fixup) auto
    moreover have "bs_pages b1 = s \<and> bs_installed b1 = bs_installed b"
      using c by (auto simp: on_config_def bind_eq_Some_conv)
    ultimately have "installing base k b2"
      using installing_alloc [OF assms(2) a ok] by (cases "bs_installed b") (simp_all add: installing_def)
    note i = installing_fail [OF this] install_copy_installed [OF this]
    have same: "bs_installed b2 = bs_installed b"
      using \<open>bs_pages b2 = bs_pages b1 \<and> bs_installed b2 = bs_installed b1\<close> \<open>bs_pages b1 = s \<and> bs_installed b1 = bs_installed b\<close>
      by simp
    show ?thesis
      using r i same unfolding f by (cases "EFI_ERROR st2") (fastforce split: if_splits)+
  qed
qed

lemma installed_only_cong:
  "bs_pages b' = bs_pages b \<Longrightarrow> bs_installed b' = bs_installed b \<Longrightarrow> installed_only base b' = installed_only base b"
  by (cases "bs_installed b") (simp_all add: installed_only_def)

lemma on_config_installed: "on_config f b = Some (r, b') \<Longrightarrow> installed_only base b' = installed_only base b"
  by (rule installed_only_cong) (auto simp: on_config_def bind_eq_Some_conv)

lemma dt_installed [simp]: "installed_only base (b\<lparr>bs_dt := d\<rparr>) = installed_only base b"
  by (rule installed_only_cong) simp_all

lemma prepare_overlays_installed:
  assumes "prepare_overlays S root loader fdt on_error backup b = Some (status, b')" "installed_only base b"
  shows "installed_only base b'"
proof -
  obtain ret t b1 where
    c: "on_config (linux_load_dtbos (bo_fdt S) loader root fdt [] on_error) b = Some ((ret, t), b1)"
    and r: "(if ret < 0 \<and> \<not> (on_error = DTBO_ERROR_REVERT \<and> backup \<noteq> None)
      then Some (EFI_LOAD_ERROR, b1\<lparr>bs_dt := (bs_dt b1)\<lparr>dt_fdt := Some t\<rparr>\<rparr>)
      else let fdt = (if ret < 0 then backup else Some t); b = b1\<lparr>bs_dt := (bs_dt b1)\<lparr>dt_fdt := fdt\<rparr>\<rparr>
           in linux_install_fdt S fdt b) = Some (status, b')"
    using assms(1) by (auto simp: prepare_overlays_def bind_eq_Some_conv)
  have "installed_only base b1" using on_config_installed [OF c] assms(2) by simp
  then show ?thesis
    using r unfolding Let_def by (elim if_result) (auto dest: install_fdt_installed [where base = base])
qed

lemma prepare_boot_installed:
  assumes "embloader_prepare_boot S root loader b = Some (status, b')" "installed_only base b"
  shows "installed_only base b'"
proof -
  obtain ok depends d where l: "linux_load_default_dtb (bo_fdt S) root loader (bs_dt b) = Some ((ok, depends), d)"
    using assms(1) by (auto simp: embloader_prepare_boot_def bind_eq_Some_conv)
  obtain st d2 where f: "(if dt_fdt d = None then embloader_fetch_fdt (bo_fdt S) (bo_tables S) d else (EFI_SUCCESS, d)) = (st, d2)"
    by (metis prod.exhaust)
  note unfolded = assms(1) [unfolded embloader_prepare_boot_def l Let_def f Option.bind.simps prod.case]
  show ?thesis
  proof (cases "\<not> ok \<and> depends \<or> dt_fdt d2 = None")
    case True
    then have "b' = b\<lparr>bs_dt := d\<rparr> \<or> b' = b\<lparr>bs_dt := d2\<rparr>"
      using unfolded by (cases "\<not> ok \<and> depends") auto
    then show ?thesis using assms(2) by auto
  next
    case False
    then obtain fdt where t: "dt_fdt d2 = Some fdt" by auto
    obtain on_error b1 where c: "on_config linux_get_dtbo_on_error (b\<lparr>bs_dt := d2\<rparr>) = Some (on_error, b1)"
      and r: "(if on_error \<noteq> DTBO_ERROR_REVERT then prepare_overlays S root loader fdt on_error None b1
           else if fo_totalsize (bo_fdt S) fdt \<le> 0 \<or> fo_totalsize (bo_fdt S) fdt > SIZE_2MB then Some (EFI_DEVICE_ERROR, b1)
           else case galloc (dt_g (bs_dt b1)) of (ok, g) \<Rightarrow>
             if \<not> ok then Some (EFI_OUT_OF_RESOURCES, b1\<lparr>bs_dt := (bs_dt b1)\<lparr>dt_g := g\<rparr>\<rparr>)
             else prepare_overlays S root loader fdt on_error (Some fdt) (b1\<lparr>bs_dt := (bs_dt b1)\<lparr>dt_g := g\<rparr>\<rparr>)) = Some (status, b')"
      using unfolded False t by (auto simp: bind_eq_Some_conv)
    have i: "installed_only base b1" using on_config_installed [OF c, of base] assms(2) by simp
    obtain ok2 g where a: "galloc (dt_g (bs_dt b1)) = (ok2, g)" by (metis prod.exhaust)
    show ?thesis
      using r i unfolding a prod.case
      by (elim if_result) (auto dest: prepare_overlays_installed [where base = base])
  qed
qed

text \<open>Installation returns whenever the setting for the fixup can be read.\<close>

lemma install_fail_returns: "installing base k b \<Longrightarrow> \<exists>b'. install_fail k status b = Some (status, b')"
  by (cases "bs_installed b") (auto simp: install_fail_def free_pages_def installing_def)

lemma install_copy_returns:
  assumes "installing base k b"
  shows "\<exists>status b'. install_copy S k t b = Some (status, b')"
proof -
  obtain ret t2 where p: "fo_pack (bo_fdt S) t = (ret, t2)" by (metis prod.exhaust)
  obtain st w where i: "bo_install S k t2 (bs_world b) = (st, w)" by (metis prod.exhaust)
  have w: "installing base k (b\<lparr>bs_world := w\<rparr>)"
    using assms(1) by (cases "bs_installed b") (simp_all add: installing_def)
  obtain b1 b2 where f: "install_fail k EFI_DEVICE_ERROR b = Some (EFI_DEVICE_ERROR, b1)"
    "install_fail k st (b\<lparr>bs_world := w\<rparr>) = Some (st, b2)"
    using install_fail_returns [OF assms] install_fail_returns [OF w] by blast
  show ?thesis
  proof (cases "ret = 0 \<and> \<not> EFI_ERROR st")
    case True
    then show ?thesis using p i assms
      by (cases "bs_installed b") (simp_all add: install_copy_def free_pages_def installing_def)
  next
    case False
    then show ?thesis using p i f by (cases "ret = 0") (simp_all add: install_copy_def)
  qed
qed

lemma install_fdt_returns:
  assumes "installed_only base b"
    and "gget_bool (g_config (dt_g (bs_dt b))) ''efi.dtfixup'' True (dt_g (bs_dt b)) = Some (v, g)"
  shows "\<exists>status b'. linux_install_fdt S fdt b = Some (status, b')"
proof (cases fdt)
  case (Some tree)
  obtain st k s where a: "alloc_pages FDT_PAGES (bs_pages b) = ((st, k), s)" by (metis prod.exhaust)
  obtain st2 t2 b2 where f: "(if v then efi_dtfixup S tree (b\<lparr>bs_pages := s, bs_dt := (bs_dt b)\<lparr>dt_g := g\<rparr>\<rparr>)
      else ((EFI_SUCCESS, tree), b\<lparr>bs_pages := s, bs_dt := (bs_dt b)\<lparr>dt_g := g\<rparr>\<rparr>)) = ((st2, t2), b2)"
    by (metis prod.exhaust)
  have same: "bs_pages b2 = s \<and> bs_installed b2 = bs_installed b"
    using f dtfixup_pages [of S tree "b\<lparr>bs_pages := s, bs_dt := (bs_dt b)\<lparr>dt_g := g\<rparr>\<rparr>"] by (cases v) auto
  show ?thesis
  proof (cases "EFI_ERROR st")
    case True
    then show ?thesis using Some a by (simp add: linux_install_fdt_def Let_def)
  next
    case False
    from installing_alloc [OF assms(1) a this] same have "installing base k b2"
      by (cases "bs_installed b") (simp_all add: installing_def)
    from install_fail_returns [OF this, of st2] install_copy_returns [OF this, of S t2]
    show ?thesis using Some a f assms(2) False
      by (cases "EFI_ERROR st2") (auto simp: linux_install_fdt_def Let_def on_config_def)
  qed
qed (simp add: linux_install_fdt_def)

text \<open>The kernel and the initramfs are always loaded or refused.\<close>

lemma load_kernel_returns:
  assumes "pages_fresh s"
  shows "linux_load_kernel info data (g, s) \<noteq> None"
proof (cases "li_kernel info")
  case (Some path)
  then show ?thesis
    using open_read_pages_holds [OF holds_nil assms, of "li_root info" path g] by (auto simp: linux_load_kernel_def)
qed (simp add: linux_load_kernel_def)

end
