(* ===== verification/LinuxMemoryFacts.thy ===== *)
theory LinuxMemoryFacts
  imports LinuxMemory
begin

text \<open>
  The memory map: the regions for the kernel are sorted and apart and cover exactly the usable pages of the
  firmware's map. The base of an image: the lowest aligned address where it fits. The image fits its pages.
\<close>

section \<open>Addresses as numbers\<close>

definition region_end :: "linux_memory \<Rightarrow> nat" where
  "region_end r = unat (lm_address r) + unat (lm_size r)"

definition in_region :: "nat \<Rightarrow> linux_memory \<Rightarrow> bool" where
  "in_region x r \<longleftrightarrow> unat (lm_address r) \<le> x \<and> x < region_end r"

definition descriptor_end :: "efi_memory_descriptor \<Rightarrow> nat" where
  "descriptor_end d = unat (md_start d) + unat (md_pages d) * 4096"

definition in_descriptor :: "nat \<Rightarrow> efi_memory_descriptor \<Rightarrow> bool" where
  "in_descriptor x d \<longleftrightarrow> unat (md_start d) \<le> x \<and> x < descriptor_end d"

definition in_regions :: "nat \<Rightarrow> linux_memory list \<Rightarrow> bool" where
  "in_regions x rs \<longleftrightarrow> (\<exists>r \<in> set rs. in_region x r)"

lemma in_regions_simps [simp]:
  "\<not> in_regions x []" "in_regions x (r # rs) \<longleftrightarrow> in_region x r \<or> in_regions x rs"
  "in_regions x (rs @ rs') \<longleftrightarrow> in_regions x rs \<or> in_regions x rs'"
  by (auto simp: in_regions_def)

definition valid_region :: "linux_memory \<Rightarrow> bool" where
  "valid_region r \<longleftrightarrow> region_end r < 2 ^ 64 \<and> 0 < unat (lm_size r)"

lemma max_unat [simp]: "unat MAX_UINT64 = 2 ^ 64 - 1"
  by (simp add: MAX_UINT64_def)

lemma page_unat [simp]: "unat EFI_PAGE_SIZE = 4096"
  by (simp add: EFI_PAGE_SIZE_def)

lemma le_max [simp]: "w \<le> MAX_UINT64"
  using unsigned_less [of w, where 'a = nat] by (simp add: word_le_nat_alt)

lemma unat_add_exact: "unat (a :: 64 word) + unat b < 2 ^ 64 \<Longrightarrow> unat (a + b) = unat a + unat b"
  using unat_add_lem [of a b] by simp

lemma unat_sub_exact: "b \<le> (a :: 64 word) \<Longrightarrow> unat (a - b) = unat a - unat b"
  by (rule unat_sub)

lemma valid_end: "valid_region r \<Longrightarrow> unat (lm_address r + lm_size r) = region_end r"
  by (simp add: valid_region_def region_end_def unat_add_exact)

lemma beyond_space_iff: "beyond_space d \<longleftrightarrow> \<not> descriptor_end d < 2 ^ 64"
proof (cases "md_pages d > MAX_UINT64 div EFI_PAGE_SIZE")
  case True
  then have "\<not> unat (md_pages d) \<le> (2 ^ 64 - 1) div 4096"
    by (simp add: word_less_nat_alt unat_div)
  then show ?thesis using True by (simp add: beyond_space_def descriptor_end_def)
next
  case False
  then have p: "unat (md_pages d) \<le> (2 ^ 64 - 1) div 4096"
    by (simp add: word_less_nat_alt unat_div not_less)
  have m: "unat (md_pages d * EFI_PAGE_SIZE) = unat (md_pages d) * 4096"
    using unat_mult_lem [of "md_pages d" EFI_PAGE_SIZE] p by simp
  have "md_start d > MAX_UINT64 - md_pages d * EFI_PAGE_SIZE \<longleftrightarrow> \<not> descriptor_end d < 2 ^ 64"
    using m p by (simp add: word_less_nat_alt unat_sub_exact descriptor_end_def) linarith
  then show ?thesis using False by (simp add: beyond_space_def)
qed

lemma descriptor_words:
  assumes "\<not> beyond_space d"
  shows "unat (md_pages d * EFI_PAGE_SIZE) = unat (md_pages d) * 4096"
    "unat (md_start d + md_pages d * EFI_PAGE_SIZE) = descriptor_end d"
proof -
  have e: "descriptor_end d < 2 ^ 64" using assms by (simp add: beyond_space_iff)
  then show m: "unat (md_pages d * EFI_PAGE_SIZE) = unat (md_pages d) * 4096"
    using unat_mult_lem [of "md_pages d" EFI_PAGE_SIZE] by (simp add: descriptor_end_def)
  show "unat (md_start d + md_pages d * EFI_PAGE_SIZE) = descriptor_end d"
    using e m unat_add_exact [of "md_start d" "md_pages d * EFI_PAGE_SIZE"] by (simp add: descriptor_end_def)
qed

section \<open>Collecting the regions\<close>

lemma region_between:
  assumes "unat a < unat b"
  shows "valid_region \<lparr>lm_address = a, lm_size = b - a\<rparr>"
    "in_region x \<lparr>lm_address = a, lm_size = b - a\<rparr> \<longleftrightarrow> unat a \<le> x \<and> x < unat b"
proof -
  have "unat (b - a) = unat b - unat a" using assms by (simp add: word_le_nat_alt unat_sub_exact)
  moreover have "unat b < 2 ^ 64" using unsigned_less [of b, where 'a = nat] by simp
  ultimately show "valid_region \<lparr>lm_address = a, lm_size = b - a\<rparr>"
    "in_region x \<lparr>lm_address = a, lm_size = b - a\<rparr> \<longleftrightarrow> unat a \<le> x \<and> x < unat b"
    using assms by (simp_all add: valid_region_def region_end_def in_region_def)
qed

lemma add_region_cover:
  assumes "\<forall>r \<in> set memory. valid_region r" "unat start < unat fin"
  shows "(\<forall>r \<in> set (add_region memory start fin). valid_region r) \<and>
    (in_regions x (add_region memory start fin) \<longleftrightarrow> in_regions x memory \<or> unat start \<le> x \<and> x < unat fin)"
proof (cases "memory \<noteq> [] \<and> lm_address (last memory) + lm_size (last memory) = start")
  case False
  then show ?thesis
    using assms region_between [OF assms(2)] by (auto simp: add_region_def)
next
  case True
  define l where "l = last memory"
  have m: "memory = butlast memory @ [l]" using True by (simp add: l_def)
  have v: "valid_region l" using assms(1) True by (simp add: l_def)
  have s: "region_end l = unat start" using valid_end [OF v] True by (simp add: l_def)
  then have from_l: "unat (lm_address l) \<le> unat start" by (simp add: region_end_def)
  then have "unat (lm_address l) < unat fin"
    using assms(2) by simp
  note b = region_between [OF this]
  have add: "add_region memory start fin = butlast memory @ [l\<lparr>lm_size := fin - lm_address l\<rparr>]"
    using True by (simp add: add_region_def l_def)
  have l: "l\<lparr>lm_size := fin - lm_address l\<rparr> = \<lparr>lm_address = lm_address l, lm_size = fin - lm_address l\<rparr>"
    by simp
  have "in_region x \<lparr>lm_address = lm_address l, lm_size = fin - lm_address l\<rparr> \<longleftrightarrow>
    in_region x l \<or> unat start \<le> x \<and> x < unat fin"
    unfolding b(2) in_region_def [of x l] s using assms(2) from_l by linarith
  moreover have "in_regions x (butlast memory @ [l]) \<longleftrightarrow> in_regions x (butlast memory) \<or> in_region x l"
    by simp
  ultimately have "in_regions x (add_region memory start fin) \<longleftrightarrow>
    in_regions x memory \<or> unat start \<le> x \<and> x < unat fin"
    unfolding add l m [symmetric] by simp
  moreover have "\<forall>r \<in> set (add_region memory start fin). valid_region r"
    unfolding add l using b(1) in_set_butlastD [of _ memory] assms(1) by auto
  ultimately show ?thesis by simp
qed

lemma included_pages: "include_memory_descriptor d \<Longrightarrow> 0 < unat (md_pages d)"
  by (auto simp: include_memory_descriptor_def unat_gt_0 split: if_splits)

lemma collect_regions_None:
  "collect_regions ds memory = None \<longleftrightarrow> (\<exists>d \<in> set ds. include_memory_descriptor d \<and> beyond_space d)"
  by (induction ds arbitrary: memory) (auto simp: Let_def)

lemma collect_regions_cover:
  assumes "collect_regions ds memory = Some rs" "\<forall>r \<in> set memory. valid_region r"
  shows "(\<forall>r \<in> set rs. valid_region r) \<and>
    (in_regions x rs \<longleftrightarrow> in_regions x memory \<or> (\<exists>d \<in> set ds. include_memory_descriptor d \<and> in_descriptor x d))"
  using assms
proof (induction ds arbitrary: memory)
  case (Cons d ds)
  show ?case
  proof (cases "include_memory_descriptor d")
    case False
    then show ?thesis using Cons by simp
  next
    case True
    define fin where "fin = md_start d + md_pages d * EFI_PAGE_SIZE"
    have b: "\<not> beyond_space d" and r: "collect_regions ds (add_region memory (md_start d) fin) = Some rs"
      using Cons.prems(1) True by (auto simp: fin_def Let_def split: if_splits)
    have f: "unat fin = descriptor_end d" using descriptor_words(2) [OF b] by (simp add: fin_def)
    then have "unat (md_start d) < unat fin" using included_pages [OF True] by (simp add: descriptor_end_def)
    note a = add_region_cover [OF Cons.prems(2) this]
    from Cons.IH [OF r] a show ?thesis using True f by (auto simp: in_descriptor_def)
  qed
qed simp

lemma collect_regions_empty:
  "collect_regions ds memory = Some rs \<Longrightarrow> rs = [] \<Longrightarrow> memory = [] \<and> (\<forall>d \<in> set ds. \<not> include_memory_descriptor d)"
proof (induction ds arbitrary: memory)
  case (Cons d ds)
  have "add_region memory s f \<noteq> []" for s f by (simp add: add_region_def)
  then show ?case using Cons by (auto simp: Let_def split: if_splits)
qed simp

section \<open>Sorting and merging\<close>

lemma insert_region_set [simp]: "set (insert_region c xs) = insert c (set xs)"
  by (induction xs) auto

lemma insert_region_sorted:
  "sorted_wrt (\<lambda>x y. lm_address y \<le> lm_address x) xs \<Longrightarrow>
   sorted_wrt (\<lambda>x y. lm_address y \<le> lm_address x) (insert_region c xs)"
  by (induction xs) (auto simp: not_less)

lemma sort_regions_set [simp]: "set (sort_regions xs) = set xs"
proof -
  have "set (fold insert_region xs acc) = set xs \<union> set acc" for acc
    by (induction xs arbitrary: acc) auto
  then show ?thesis by (simp add: sort_regions_def)
qed

lemma sort_regions_sorted: "sorted_wrt (\<lambda>x y. lm_address x \<le> lm_address y) (sort_regions xs)"
proof -
  have "sorted_wrt (\<lambda>x y. lm_address y \<le> lm_address x) acc \<Longrightarrow>
    sorted_wrt (\<lambda>x y. lm_address y \<le> lm_address x) (fold insert_region xs acc)" for acc
    by (induction xs arbitrary: acc) (auto simp: insert_region_sorted)
  then show ?thesis by (simp add: sort_regions_def sorted_wrt_rev)
qed

lemma merge_first: "merge_regions m xs \<noteq> [] \<and> lm_address (hd (merge_regions m xs)) = lm_address m"
  by (induction m xs rule: merge_regions.induct) (auto simp: Let_def)

definition regions_apart :: "linux_memory list \<Rightarrow> bool" where
  "regions_apart = sorted_wrt (\<lambda>r r'. region_end r < unat (lm_address r'))"

lemma apart_cons:
  assumes "regions_apart rs" "\<forall>r \<in> set rs. valid_region r" "rs \<noteq> []" "region_end m < unat (lm_address (hd rs))"
  shows "regions_apart (m # rs)"
proof -
  have "region_end m < unat (lm_address r)" if "r \<in> set rs" for r
  proof (cases rs)
    case (Cons h t)
    then have "r = h \<or> region_end h < unat (lm_address r)"
      using that assms(1) by (auto simp: regions_apart_def)
    then show ?thesis using assms(4) Cons by (auto simp: region_end_def)
  qed (use assms(3) in simp)
  then show ?thesis using assms(1) by (simp add: regions_apart_def)
qed

lemma merge_regions_cover:
  assumes "sorted_wrt (\<lambda>x y. lm_address x \<le> lm_address y) (m # xs)" "\<forall>r \<in> set (m # xs). valid_region r"
  shows "(\<forall>r \<in> set (merge_regions m xs). valid_region r) \<and> regions_apart (merge_regions m xs) \<and>
    (in_regions x (merge_regions m xs) \<longleftrightarrow> in_regions x (m # xs))"
  using assms
proof (induction m xs rule: merge_regions.induct)
  case (1 m)
  then show ?case by (simp add: regions_apart_def)
next
  case (2 m y ys)
  have v: "valid_region m" "valid_region y" and le: "lm_address m \<le> lm_address y"
    using "2.prems" by simp_all
  note e = valid_end [OF v(1)] valid_end [OF v(2)]
  show ?case
  proof (cases "lm_address m + lm_size m \<ge> lm_address y")
    case False
    have "sorted_wrt (\<lambda>x y. lm_address x \<le> lm_address y) (y # ys)" "\<forall>r \<in> set (y # ys). valid_region r"
      using "2.prems" by simp_all
    note ih = "2.IH"(2) [OF refl refl False this]
    have "region_end m < unat (lm_address (hd (merge_regions y ys)))"
      using False merge_first [of y ys] e by (simp add: word_le_nat_alt)
    then have "regions_apart (m # merge_regions y ys)"
      using ih merge_first [of y ys] by (intro apart_cons) auto
    then show ?thesis using False ih v by (simp add: Let_def)
  next
    case True
    define m' where "m' = (if lm_address y + lm_size y > lm_address m + lm_size m
      then m\<lparr>lm_size := lm_address y + lm_size y - lm_address m\<rparr> else m)"
    have m': "valid_region m' \<and> lm_address m' = lm_address m \<and>
      (in_region x m' \<longleftrightarrow> in_region x m \<or> in_region x y)"
    proof (cases "lm_address y + lm_size y > lm_address m + lm_size m")
      case gt: True
      have "unat (lm_address m) < unat (lm_address y + lm_size y)"
        using gt e by (simp add: word_less_nat_alt region_end_def)
      note b = region_between [OF this]
      have eq: "m' = \<lparr>lm_address = lm_address m, lm_size = lm_address y + lm_size y - lm_address m\<rparr>"
        using gt by (simp add: m'_def)
      show ?thesis unfolding eq b(2)
        using b(1) True gt le e by (auto simp: in_region_def word_less_nat_alt word_le_nat_alt)
    next
      case ngt: False
      then have "m' = m" by (simp add: m'_def)
      then show ?thesis
        using ngt True le e v by (auto simp: in_region_def word_less_nat_alt word_le_nat_alt)
    qed
    have "sorted_wrt (\<lambda>x y. lm_address x \<le> lm_address y) (m' # ys)" "\<forall>r \<in> set (m' # ys). valid_region r"
      using "2.prems" m' by auto
    note ih = "2.IH"(1) [OF refl refl True, folded m'_def, OF this]
    then show ?thesis using True m' by (auto simp: Let_def m'_def)
  qed
qed

section \<open>The regions of a map\<close>

lemma memory_regions_status:
  "fst (memory_regions ok ds) = EFI_SUCCESS \<longleftrightarrow>
     ok \<and> (\<exists>d \<in> set ds. include_memory_descriptor d) \<and>
     (\<forall>d \<in> set ds. include_memory_descriptor d \<longrightarrow> descriptor_end d < 2 ^ 64)"
  using collect_regions_None [of ds "[]"]
  by (auto simp: memory_regions_def filter_empty_conv beyond_space_iff split: option.splits)

lemma memory_regions_exact:
  assumes "memory_regions ok ds = (EFI_SUCCESS, rs)"
  shows "rs \<noteq> []" "\<forall>r \<in> set rs. valid_region r" "regions_apart rs"
    "in_regions x rs \<longleftrightarrow> (\<exists>d \<in> set ds. include_memory_descriptor d \<and> in_descriptor x d)"
proof -
  obtain memory where c: "collect_regions ds [] = Some memory"
    and rs: "rs = (case sort_regions memory of [] \<Rightarrow> [] | x # xs \<Rightarrow> merge_regions x xs)"
    and some: "\<not> (\<forall>d \<in> set ds. \<not> include_memory_descriptor d)"
    using assms by (auto simp: memory_regions_def filter_empty_conv split: if_splits option.splits)
  have "memory \<noteq> []" using collect_regions_empty [OF c] some by blast
  then have "set (sort_regions memory) \<noteq> {}" by simp
  then obtain m xs where s: "sort_regions memory = m # xs" by (cases "sort_regions memory") auto
  have cov: "(\<forall>r \<in> set memory. valid_region r) \<and>
    (in_regions x memory \<longleftrightarrow> (\<exists>d \<in> set ds. include_memory_descriptor d \<and> in_descriptor x d))" for x
    using collect_regions_cover [OF c, of x] by simp
  have "set (m # xs) = set memory" using sort_regions_set [of memory] s by simp
  then have same: "in_regions x (m # xs) \<longleftrightarrow> in_regions x memory" and v: "\<forall>r \<in> set (m # xs). valid_region r" for x
    using cov by (auto simp: in_regions_def simp del: in_regions_simps)
  have "sorted_wrt (\<lambda>x y. lm_address x \<le> lm_address y) (m # xs)"
    using sort_regions_sorted [of memory] s by simp
  from merge_regions_cover [OF this v, of x] same [of x] cov [of x] merge_first [of m xs]
  show "rs \<noteq> []" "\<forall>r \<in> set rs. valid_region r" "regions_apart rs"
    "in_regions x rs \<longleftrightarrow> (\<exists>d \<in> set ds. include_memory_descriptor d \<and> in_descriptor x d)"
    by (simp_all add: rs s del: in_regions_simps)
qed

section \<open>The base of an image\<close>

lemma align_down: "unat ((w :: 64 word) AND NOT 0x1FFFFF) = unat w div 0x200000 * 0x200000"
proof -
  have "w AND NOT 0x1FFFFF = w AND NOT (mask 21)" by (simp add: mask_eq_exp_minus_1)
  also have "\<dots> = push_bit 21 (drop_bit 21 w)" by (simp add: bit_eq_iff bit_simps) auto
  also have "\<dots> = w - take_bit 21 w" using bits_ident [of 21 w] by (simp add: algebra_simps)
  finally have "unat (w AND NOT 0x1FFFFF) = unat (w - take_bit 21 w)" by simp
  also have t: "unat (take_bit 21 w) = unat w mod 0x200000"
    by (simp only: unsigned_take_bit_eq) (simp add: take_bit_eq_mod)
  then have "take_bit 21 w \<le> w" by (simp add: word_le_nat_alt)
  then have "unat (w - take_bit 21 w) = unat w - unat w mod 0x200000" by (simp add: unat_sub_exact t)
  finally show ?thesis by (simp add: minus_mod_eq_div_mult)
qed

text \<open>An aligned base \<open>a\<close> for \<open>n\<close> bytes in a descriptor of free memory.\<close>

definition base_fits :: "nat \<Rightarrow> efi_memory_descriptor \<Rightarrow> nat \<Rightarrow> bool" where
  "base_fits n d a \<longleftrightarrow> md_type d = EfiConventionalMemory \<and> descriptor_end d < 2 ^ 64 \<and>
     0x200000 dvd a \<and> unat (md_start d) \<le> a \<and> a + n \<le> descriptor_end d"

text \<open>The first aligned address of a descriptor.\<close>

definition first_base :: "efi_memory_descriptor \<Rightarrow> nat" where
  "first_base d = (unat (md_start d) + 0x1FFFFF) div 0x200000 * 0x200000"

lemma first_base_le: "0x200000 dvd a \<Longrightarrow> unat (md_start d) \<le> a \<Longrightarrow> first_base d \<le> a"
  by (auto simp: first_base_def elim!: dvdE)

lemma first_base_ge: "unat (md_start d) \<le> first_base d" "0x200000 dvd first_base d"
  by (simp_all add: first_base_def)

lemma candidate_step_cases:
  "candidate_step n d c =
     (if base_fits (unat n) d (first_base d) \<and> first_base d < unat c then of_nat (first_base d) else c)"
proof (cases "md_type d = EfiConventionalMemory \<and> \<not> beyond_space d")
  case False
  show ?thesis
  proof (cases "md_type d = EfiConventionalMemory")
    case t: True
    then have b: "beyond_space d" using False by simp
    then have "candidate_step n d c = c" by (auto simp: candidate_step_def beyond_space_def)
    then show ?thesis using b by (simp add: base_fits_def beyond_space_iff)
  qed (simp add: candidate_step_def base_fits_def)
next
  case True
  have e: "descriptor_end d < 2 ^ 64" using True by (simp add: beyond_space_iff)
  define fin where "fin = md_start d + md_pages d * EFI_PAGE_SIZE"
  have f: "unat fin = descriptor_end d" using descriptor_words(2) True by (simp add: fin_def)
  have lim: "md_start d > MAX_UINT64 - (ARM64_IMAGE_ALIGNMENT - 1) \<longleftrightarrow> unat (md_start d) > 2 ^ 64 - 0x200000"
    by (simp add: word_less_nat_alt MAX_UINT64_def ARM64_IMAGE_ALIGNMENT_def)
  have step: "candidate_step n d c =
    (if md_start d > MAX_UINT64 - (ARM64_IMAGE_ALIGNMENT - 1) then c
     else let start = (md_start d + ARM64_IMAGE_ALIGNMENT - 1) AND NOT (ARM64_IMAGE_ALIGNMENT - 1)
          in if start < c \<and> start \<le> fin \<and> n \<le> fin - start then start else c)"
    using True by (auto simp: candidate_step_def beyond_space_def fin_def Let_def)
  show ?thesis
  proof (cases "unat (md_start d) > 2 ^ 64 - 0x200000")
    case big: True
    have "2 ^ 64 \<le> first_base d"
      using big by (simp add: first_base_def)
    then have "\<not> base_fits (unat n) d (first_base d)" using e by (simp add: base_fits_def)
    then show ?thesis using big lim step by simp
  next
    case small: False
    define start where "start = (md_start d + ARM64_IMAGE_ALIGNMENT - 1) AND NOT (ARM64_IMAGE_ALIGNMENT - 1)"
    have "unat (md_start d + 0x1FFFFF) = unat (md_start d) + 0x1FFFFF"
      using small unat_add_exact [of "md_start d" "0x1FFFFF"] by simp
    moreover have "start = (md_start d + 0x1FFFFF) AND NOT 0x1FFFFF"
      by (simp add: start_def ARM64_IMAGE_ALIGNMENT_def algebra_simps)
    ultimately have s: "unat start = first_base d"
      by (simp only: align_down first_base_def)
    have "start \<le> fin \<and> n \<le> fin - start \<longleftrightarrow> base_fits (unat n) d (first_base d)"
      using s f e True first_base_ge [of d]
      by (auto simp: base_fits_def word_le_nat_alt unat_sub_exact)
    moreover have "start < c \<longleftrightarrow> first_base d < unat c" using s by (simp add: word_less_nat_alt)
    moreover have "of_nat (first_base d) = start" using s by (simp flip: s)
    ultimately show ?thesis using small lim step by (auto simp: Let_def start_def [symmetric])
  qed
qed

lemma candidate_step_least:
  shows "unat (candidate_step n d c) \<le> unat c"
    "candidate_step n d c = c \<or> base_fits (unat n) d (unat (candidate_step n d c))"
    "base_fits (unat n) d a \<Longrightarrow> unat (candidate_step n d c) \<le> a"
proof -
  have u: "unat (of_nat (first_base d) :: 64 word) = first_base d" if "base_fits (unat n) d (first_base d)"
    using that by (simp add: of_nat_inverse base_fits_def)
  show "unat (candidate_step n d c) \<le> unat c"
    "candidate_step n d c = c \<or> base_fits (unat n) d (unat (candidate_step n d c))"
    using u by (auto simp: candidate_step_cases)
  assume a: "base_fits (unat n) d a"
  then have le: "first_base d \<le> a" using first_base_le by (simp add: base_fits_def)
  then have "base_fits (unat n) d (first_base d)"
    using a first_base_ge [of d] by (simp add: base_fits_def)
  then show "unat (candidate_step n d c) \<le> a" using le u by (simp add: candidate_step_cases)
qed

lemma legacy_candidate_least:
  "(legacy_candidate pages ds = MAX_UINT64 \<or>
    (\<exists>d \<in> set ds. base_fits (unat (EFI_PAGES_TO_SIZE pages)) d (unat (legacy_candidate pages ds)))) \<and>
   (\<forall>d \<in> set ds. \<forall>a. base_fits (unat (EFI_PAGES_TO_SIZE pages)) d a \<longrightarrow> unat (legacy_candidate pages ds) \<le> a)"
proof -
  let ?n = "EFI_PAGES_TO_SIZE pages"
  have "let r = fold (candidate_step ?n) ds c in
      unat r \<le> unat c \<and> (r = c \<or> (\<exists>d \<in> set ds. base_fits (unat ?n) d (unat r))) \<and>
      (\<forall>d \<in> set ds. \<forall>a. base_fits (unat ?n) d a \<longrightarrow> unat r \<le> a)" for c
  proof (induction ds arbitrary: c)
    case (Cons d ds)
    note s = candidate_step_least(1,2) [of ?n d c] candidate_step_least(3) [of ?n d _ c]
    show ?case using Cons.IH [of "candidate_step ?n d c"] s
      by (auto simp: Let_def intro: order_trans)
  qed simp
  from this [of MAX_UINT64] show ?thesis by (simp add: legacy_candidate_def Let_def)
qed

section \<open>The layout of the image\<close>

lemma div_round_up: "((m :: nat) + 4095) div 4096 = m div 4096 + (if m mod 4096 \<noteq> 0 then 1 else 0)"
proof -
  define q where "q = m div 4096"
  define r where "r = m mod 4096"
  have m: "m = 4096 * q + r" "r < 4096" by (simp_all add: q_def r_def)
  have "(m + 4095) div 4096 = q + (if r \<noteq> 0 then 1 else 0)"
    using m by (intro div_nat_eqI) (auto split: if_splits)
  then show ?thesis by (simp add: q_def r_def)
qed

lemma size_to_pages: "unat (EFI_SIZE_TO_PAGES n) = (unat n + 4095) div 4096"
proof -
  have r: "unat (n AND 0xFFF) = unat n mod 4096"
  proof -
    have "n AND 0xFFF = take_bit 12 n" by (simp add: take_bit_eq_mask mask_eq_exp_minus_1)
    moreover have "unat (take_bit 12 n) = unat n mod 4096"
      by (simp only: unsigned_take_bit_eq) (simp add: take_bit_eq_mod)
    ultimately show ?thesis by simp
  qed
  have q: "unat (drop_bit 12 n) = unat n div 4096"
    using unsigned_less [of n, where 'a = nat]
    by (simp only: unsigned_drop_bit_eq) (simp add: take_bit_eq_mod drop_bit_eq_div)
  have "unat n < 2 ^ 64" using unsigned_less [of n, where 'a = nat] by simp
  then have "unat n div 4096 + 1 < 2 ^ 64" by simp
  moreover have "n AND 0xFFF \<noteq> 0 \<longleftrightarrow> unat n mod 4096 \<noteq> 0" using r by (metis unat_eq_0)
  moreover have "(unat n + 4095) div 4096 = unat n div 4096 + (if unat n mod 4096 \<noteq> 0 then 1 else 0)"
    by (rule div_round_up)
  ultimately show ?thesis
    using q unat_add_exact [of "drop_bit 12 n" 1]
    unfolding EFI_SIZE_TO_PAGES_def by (cases "unat n mod 4096 = 0") simp_all
qed

lemma image_pages_fit:
  assumes "image_pages n h = (EFI_SUCCESS, pages, footprint)"
  shows "unat footprint = max (unat n) (unat (ih_image_size h))"
    "unat (ih_text_offset h) + unat footprint \<le> unat pages * 4096"
    "unat pages * 4096 < unat (ih_text_offset h) + unat footprint + 4096" "unat pages * 4096 < 2 ^ 64"
proof -
  have f: "footprint = max n (ih_image_size h)" and c: "\<not> ih_text_offset h > MAX_UINT64 - footprint"
    and l: "\<not> ih_text_offset h + footprint > MAX_UINT64 - EFI_PAGE_SIZE + 1"
    and p: "pages = EFI_SIZE_TO_PAGES (ih_text_offset h + footprint)"
    using assms by (auto simp: image_pages_def Let_def split: if_splits)
  show "unat footprint = max (unat n) (unat (ih_image_size h))"
    by (simp add: f max_def word_le_nat_alt)
  have "unat (ih_text_offset h) + unat footprint < 2 ^ 64"
    using c unsigned_less [of footprint, where 'a = nat] by (simp add: word_less_nat_alt unat_sub_exact)
  then have u: "unat (ih_text_offset h + footprint) = unat (ih_text_offset h) + unat footprint"
    by (rule unat_add_exact)
  have "unat (ih_text_offset h) + unat footprint \<le> 2 ^ 64 - 4096"
    using l by (simp add: word_less_nat_alt u MAX_UINT64_def EFI_PAGE_SIZE_def)
  then show "unat (ih_text_offset h) + unat footprint \<le> unat pages * 4096"
    "unat pages * 4096 < unat (ih_text_offset h) + unat footprint + 4096" "unat pages * 4096 < 2 ^ 64"
    by (auto simp: p size_to_pages u)
qed

lemma pages_to_size: "unat n * 4096 < 2 ^ 64 \<Longrightarrow> unat (EFI_PAGES_TO_SIZE n) = unat n * 4096"
  using unat_mult_lem [of n 4096] by (simp add: EFI_PAGES_TO_SIZE_def push_bit_eq_mult)

lemma legacy_pages_fit:
  assumes "allocate_legacy_kernel_pages M pages w = Some ((status, Some a), w')" "unat pages * 4096 < 2 ^ 64"
  shows "unat a + unat pages * 4096 < 2 ^ 64 \<and> 0x200000 dvd unat a"
proof -
  obtain ds where a: "a = legacy_candidate pages ds" "a \<noteq> MAX_UINT64"
    using assms(1) by (auto simp: allocate_legacy_kernel_pages_def bind_eq_Some_conv Let_def
        split: if_splits prod.splits)
  then obtain d where "base_fits (unat (EFI_PAGES_TO_SIZE pages)) d (unat a)"
    using legacy_candidate_least [of pages ds] by auto
  then show ?thesis using pages_to_size [OF assms(2)] by (simp add: base_fits_def)
qed

text \<open>What a successful run of \<open>prepare_kernel\<close> has computed and where its pages come from.\<close>

lemma prepare_kernel_pages:
  assumes "prepare_kernel M img w = Some ((status, Some ai), w')"
  obtains v where "image_pages (of_nat (length img)) (image_header img) = (EFI_SUCCESS, ai_pages ai, ai_size ai)"
    "ai_kernel ai = ai_allocation ai + ih_text_offset (image_header img)"
    "(\<exists>v'. ms_aligned_pages M (ai_pages ai) v = (Some (ai_allocation ai), v')) \<or>
     (\<exists>st v'. allocate_legacy_kernel_pages M (ai_pages ai) v = Some ((st, Some (ai_allocation ai)), v'))"
proof -
  obtain st pages footprint where p: "image_pages (of_nat (length img)) (image_header img) = (st, pages, footprint)"
    by (metis prod.exhaust)
  have ok: "\<not> EFI_ERROR st"
    using assms p by (auto simp: prepare_kernel_def Let_def split: if_splits)
  moreover have "st \<in> {EFI_SUCCESS, EFI_BAD_BUFFER_SIZE}"
    using p by (auto simp: image_pages_def Let_def split: if_splits)
  ultimately have st: "st = EFI_SUCCESS" by (auto simp: EFI_ERROR_def efi_warnings_def)
  obtain al where "al = (if ih_flags (image_header img) AND 8 \<noteq> 0
      then let (a, w) = ms_aligned_pages M pages w
           in Some ((if a = None then EFI_OUT_OF_RESOURCES else EFI_SUCCESS, a), w)
      else allocate_legacy_kernel_pages M pages w)" by simp
  note al = this
  then have "al \<bind> (\<lambda>((status, allocation), w).
        Some (case allocation of
                None \<Rightarrow> ((status, None), w)
              | Some a \<Rightarrow> ((EFI_SUCCESS, Some \<lparr>ai_allocation = a, ai_kernel = a + ih_text_offset (image_header img),
                  ai_pages = pages, ai_size = footprint, ai_aligned = (ih_flags (image_header img) AND 8 \<noteq> 0)\<rparr>), w)))
      = Some ((status, Some ai), w')"
    using assms p ok st by (simp add: prepare_kernel_def Let_def split: if_splits)
  then obtain st' a v' where a: "al = Some ((st', Some a), v')"
    and ai: "ai_allocation ai = a" "ai_kernel ai = a + ih_text_offset (image_header img)" "ai_pages ai = pages"
      "ai_size ai = footprint"
    by (auto simp: bind_eq_Some_conv split: option.splits)
  show ?thesis
  proof (rule that)
    show "image_pages (of_nat (length img)) (image_header img) = (EFI_SUCCESS, ai_pages ai, ai_size ai)"
      using p st ai by simp
    show "ai_kernel ai = ai_allocation ai + ih_text_offset (image_header img)" using ai by simp
    show "(\<exists>v'. ms_aligned_pages M (ai_pages ai) w = (Some (ai_allocation ai), v')) \<or>
     (\<exists>st v'. allocate_legacy_kernel_pages M (ai_pages ai) w = Some ((st, Some (ai_allocation ai)), v'))"
    proof (cases "ih_flags (image_header img) AND 8 \<noteq> 0")
      case True
      then have "ms_aligned_pages M pages w = (Some a, v')" using al a by (simp split: prod.splits)
      then show ?thesis using ai by blast
    next
      case False
      then have "allocate_legacy_kernel_pages M pages w = Some ((st', Some a), v')" using al a by simp
      then show ?thesis using ai by blast
    qed
  qed
qed

text \<open>
  The bytes cleared and copied lie in the pages allocated, when aligned allocations lie in the address space.
\<close>

lemma prepare_kernel_fits:
  assumes run: "prepare_kernel M img w = Some ((status, Some ai), w')" and len: "length img < 2 ^ 64"
    and alloc: "\<And>n w a w'. ms_aligned_pages M n w = (Some a, w') \<Longrightarrow> unat a + unat n * 4096 \<le> 2 ^ 64"
  shows "unat (ai_allocation ai) \<le> unat (ai_kernel ai) \<and>
    unat (ai_kernel ai) + unat (ai_size ai) \<le> unat (ai_allocation ai) + unat (ai_pages ai) * 4096 \<and>
    length img \<le> unat (ai_size ai)"
proof -
  let ?off = "ih_text_offset (image_header img)"
  obtain v where p: "image_pages (of_nat (length img)) (image_header img) = (EFI_SUCCESS, ai_pages ai, ai_size ai)"
    and k: "ai_kernel ai = ai_allocation ai + ?off"
    and a: "(\<exists>v'. ms_aligned_pages M (ai_pages ai) v = (Some (ai_allocation ai), v')) \<or>
     (\<exists>st v'. allocate_legacy_kernel_pages M (ai_pages ai) v = Some ((st, Some (ai_allocation ai)), v'))"
    using prepare_kernel_pages [OF run] .
  note f = image_pages_fit [OF p]
  have fin: "unat (ai_allocation ai) + unat (ai_pages ai) * 4096 \<le> 2 ^ 64"
    using a
  proof
    assume "\<exists>v'. ms_aligned_pages M (ai_pages ai) v = (Some (ai_allocation ai), v')"
    then show ?thesis using alloc by blast
  next
    assume "\<exists>st v'. allocate_legacy_kernel_pages M (ai_pages ai) v = Some ((st, Some (ai_allocation ai)), v')"
    then obtain st v' where "allocate_legacy_kernel_pages M (ai_pages ai) v = Some ((st, Some (ai_allocation ai)), v')"
      by blast
    from legacy_pages_fit [OF this f(4)] show ?thesis by simp
  qed
  have n: "unat (of_nat (length img) :: 64 word) = length img" using len by (simp add: of_nat_inverse)
  have pos: "0 < unat (ai_size ai)"
    using run f(1) n by (cases "length img < 64") (auto simp: prepare_kernel_def)
  have "unat (ai_kernel ai) = unat (ai_allocation ai) + unat ?off"
    unfolding k using f(2) fin pos by (intro unat_add_exact) linarith
  then show ?thesis using f(1,2) n by simp
qed

text \<open>The map that is handed on, from the descriptors of the last \<open>GetMemoryMap\<close>.\<close>

lemma memory_regions_cases:
  "memory_regions ok ds = (EFI_NOT_FOUND, []) \<and> (\<forall>d \<in> set ds. \<not> include_memory_descriptor d) \<or>
   memory_regions ok ds = (EFI_OUT_OF_RESOURCES, []) \<and> \<not> ok \<or>
   memory_regions ok ds = (EFI_COMPROMISED_DATA, []) \<and>
     (\<exists>d \<in> set ds. include_memory_descriptor d \<and> \<not> descriptor_end d < 2 ^ 64) \<or>
   fst (memory_regions ok ds) = EFI_SUCCESS"
  using collect_regions_None [of ds "[]"]
  by (cases "collect_regions ds []") (auto simp: memory_regions_def beyond_space_iff filter_empty_conv)

lemma load_memory_map_exact:
  assumes "map_loop M 0 False w = Some ((st, have, ds), w1)" "\<not> EFI_ERROR st"
    and "load_memory_map M w = Some ((status, rs), w')"
  shows "status = EFI_SUCCESS \<and> rs \<noteq> [] \<and> (\<forall>r \<in> set rs. valid_region r) \<and> regions_apart rs \<and>
      (\<forall>x. in_regions x rs \<longleftrightarrow> (\<exists>d \<in> set ds. include_memory_descriptor d \<and> in_descriptor x d)) \<or>
    status = EFI_NOT_FOUND \<and> rs = [] \<and> (\<forall>d \<in> set ds. \<not> include_memory_descriptor d) \<or>
    status = EFI_OUT_OF_RESOURCES \<and> rs = [] \<or>
    status = EFI_COMPROMISED_DATA \<and> rs = [] \<and>
      (\<exists>d \<in> set ds. include_memory_descriptor d \<and> \<not> descriptor_end d < 2 ^ 64)"
proof -
  obtain ok where m: "memory_regions ok ds = (status, rs)"
    using assms by (auto simp: load_memory_map_def Let_def split: prod.splits)
  show ?thesis
  proof (cases "status = EFI_SUCCESS")
    case True
    then show ?thesis using memory_regions_exact [of ok ds rs] m by auto
  next
    case False
    then show ?thesis using memory_regions_cases [of ok ds] m by auto
  qed
qed

end
