(* ===== verification/LinuxSamples.thy ===== *)
theory LinuxSamples
  imports LinuxBootFacts DtboFacts FdtUtilsFacts LinuxMemoryFacts
begin

text \<open>
  Concrete boots for the witnesses: an allocator that runs dry, services that hold the demonstration tree, an
  initramfs of two files, and memory maps.
\<close>

definition demo_services :: "(cstring, unit) boot_services" where
  "demo_services = \<lparr>bo_locate_fixup = (EFI_NOT_FOUND, False), bo_fixup = (\<lambda>t n w. ((EFI_SUCCESS, n, t), w)),
     bo_install = (\<lambda>_ _ w. (EFI_SUCCESS, w)), bo_start = (\<lambda>_ _ _ _ w. (EFI_SUCCESS, w)),
     bo_address = (\<lambda>k. 4096 * (k + 1)), bo_fdt = demo_fdt, bo_tables = []\<rparr>"

text \<open>An allocator that fails at the third request, and a loader with an installed tree in block 7.\<close>

definition demo_pages :: page_state where
  "demo_pages = \<lparr>ps_answer = (\<lambda>n. if n = 10 then EFI_OUT_OF_RESOURCES else EFI_SUCCESS), ps_tick = 8,
     ps_live = [7 \<mapsto> FDT_PAGES]\<rparr>"

definition demo_boot :: "(cstring, unit) linux_state" where
  "demo_boot = \<lparr>bs_dt = demo_dt, bs_pages = demo_pages, bs_installed = Some 7, bs_world = ()\<rparr>"

definition demo_linux :: "efi_root linux_bootinfo" where
  "demo_linux = (zero_bootinfo zero_loader)\<lparr>li_root := Some demo_volume, li_kernel := Some ''/K'',
     li_initramfs := [''/i'', ''/j'']\<rparr>"

lemma demo_initramfs_fails: "map_option (\<lambda>(r, x). r) (linux_load_initramfs demo_linux (zero_data zero_loader :: cstring linux_data) (dt_g demo_dt, demo_pages)) = Some (EFI_OUT_OF_RESOURCES, zero_data zero_loader)"
  by code_simp
lemma demo_installs: "map_option fst (linux_install_fdt demo_services (Some ''base'') demo_boot) = Some EFI_SUCCESS"
  by code_simp
lemma demo_loads: "map_option (\<lambda>(r, b). (map_option (\<lambda>d. (map_option pb_data (ld_initramfs d))) r))
   (linux_data_load demo_services None demo_linux (demo_boot\<lparr>bs_pages := demo_pages\<lparr>ps_answer := (\<lambda>_. EFI_SUCCESS)\<rparr>\<rparr>)) = Some (Some (Some ''ij''))"
  by code_simp
section \<open>Memory\<close>

definition demo_map :: "efi_memory_descriptor list" where
  "demo_map =
     [\<lparr>md_type = EfiConventionalMemory, md_start = 0x300000, md_pages = 512, md_attribute = 0\<rparr>,
      \<lparr>md_type = EfiLoaderData, md_start = 0x100000, md_pages = 512, md_attribute = 0\<rparr>]"

text \<open>The first call says how large the map is; pages are at a fixed address.\<close>

definition demo_map_services :: "unit memory_services" where
  "demo_map_services = \<lparr>ms_get_map = (\<lambda>capacity w. (\<lparr>mm_status = (if capacity < 80 then EFI_BUFFER_TOO_SMALL else EFI_SUCCESS),
       mm_size = 80, mm_descriptor_size = 40, mm_key = 1, mm_descriptors = demo_map\<rparr>, w)),
     ms_pool = (\<lambda>_ w. (True, w)), ms_free_pool = id, ms_pages_at = (\<lambda>_ _ w. (EFI_SUCCESS, w)),
     ms_aligned_pages = (\<lambda>n w. (if n \<le> 512 then Some 0x800000 else None, w)), ms_free_pages = (\<lambda>_ _ w. w),
     ms_exit = (\<lambda>_ w. (EFI_SUCCESS, w))\<rparr>"

declare map_loop.simps [code]

lemma demo_map_read: "map_loop demo_map_services 0 False () = Some ((EFI_SUCCESS, True, demo_map), ())"
  by code_simp

lemma demo_map_loaded:
  "load_memory_map demo_map_services () = Some ((EFI_SUCCESS, [\<lparr>lm_address = 0x100000, lm_size = 0x400000\<rparr>]), ())"
  by code_simp

lemma demo_base: "legacy_candidate 256 demo_map = 0x400000"
  by code_simp

text \<open>An image of 64 bytes that has to lie at the lowest base.\<close>

definition demo_image :: "char list" where
  "demo_image = replicate 56 (CHR 0x00) @ ''ARMd'' @ replicate 4 (CHR 0x00)"

lemma demo_image_length: "length demo_image = 64"
  by code_simp

lemma demo_bytes: "take 4 (drop 56 demo_image) = ''ARMd''" "take 8 (drop 8 demo_image) = replicate 8 (CHR 0x00)"
  "take 8 (drop 16 demo_image) = replicate 8 (CHR 0x00)" "take 8 (drop 24 demo_image) = replicate 8 (CHR 0x00)"
  by code_simp+

lemma zero_bytes [simp]: "((*) 256 ^^ n) 0 = (0 :: nat)"
  by (induction n) simp_all

lemma demo_header:
  "image_header demo_image = \<lparr>ih_text_offset = 0, ih_image_size = 0, ih_flags = 0, ih_magic = ARM64_IMAGE_MAGIC\<rparr>"
  by (simp add: image_header_def le_bytes_def demo_bytes ARM64_IMAGE_MAGIC_def)

lemma demo_legacy: "allocate_legacy_kernel_pages demo_map_services 1 () = Some ((EFI_SUCCESS, Some 0x400000), ())"
  by code_simp

lemma demo_pages_needed:
  "image_pages 64 \<lparr>ih_text_offset = 0, ih_image_size = 0, ih_flags = 0, ih_magic = ARM64_IMAGE_MAGIC\<rparr> = (EFI_SUCCESS, 1, 64)"
  by (simp add: image_pages_def MAX_UINT64_def EFI_PAGE_SIZE_def EFI_SIZE_TO_PAGES_def)

lemma demo_prepared:
  "prepare_kernel demo_map_services demo_image () =
   Some ((EFI_SUCCESS, Some \<lparr>ai_allocation = 0x400000, ai_kernel = 0x400000, ai_pages = 1, ai_size = 64, ai_aligned = False\<rparr>), ())"
  by (simp add: prepare_kernel_def demo_header demo_image_length demo_legacy demo_pages_needed EFI_ERROR_def efi_warnings_def)

section \<open>A file\<close>

text \<open>A file that returns at most two bytes at a time.\<close>

definition slow_file :: efi_file where
  "slow_file = \<lparr>ef_info_size = (EFI_BUFFER_TOO_SMALL, 80), ef_info = (EFI_SUCCESS, 5), ef_getpos = (EFI_SUCCESS, 0),
     ef_setpos = (\<lambda>_. EFI_SUCCESS),
     ef_read = (\<lambda>p n. (EFI_SUCCESS, take (nat (min n 2)) (drop (nat p) ''hello'')))\<rparr>"

lemma slow_reads: "reads_of slow_file ''hello''"
proof (unfold reads_of_def, intro allI impI)
  fix p :: nat and n :: int assume n: "0 < n"
  show "if p < length ''hello''
     then \<exists>k>0. int k \<le> n \<and> ef_read slow_file (int p) n = (EFI_SUCCESS, take k (drop p ''hello''))
     else ef_read slow_file (int p) n = (EFI_SUCCESS, [])"
    using n by (auto simp: slow_file_def intro!: exI [of _ "nat (min n 2)"])
qed

end
