(* ===== verification/ListText.thy ===== *)
theory ListText
  imports ListObj
begin

text \<open>
  The two directions between lists and text: \<open>list_to_string\<close> joins the non-empty strings of a list
  with a separator, exactly as \<open>strings_to_string\<close> does on a plain list, and the splitter reads
  back what was joined with a blank.
\<close>

section \<open>Joining a heap list\<close>

definition words_of :: "cstring alist \<Rightarrow> cstring list" where
  "words_of xs = filter (\<lambda>w. w \<noteq> []) (some_data xs)"

lemma words_of_Cons:
  "words_of (x # xs) = (case snd x of None \<Rightarrow> words_of xs
     | Some w \<Rightarrow> if w = [] then words_of xs else w # words_of xs)"
  by (simp add: words_of_def some_data_def split: option.split)

lemma words_of_Nil [simp]: "words_of [] = []"
  by (simp add: words_of_def some_data_def)

fun join_len :: "nat \<Rightarrow> nat \<Rightarrow> cstring list \<Rightarrow> nat" where
  "join_len sl n [] = 0"
| "join_len sl n (w # ws) = length w + (if 0 < n then sl else 0) + join_len sl (Suc n) ws"

lemma total_loop_dseg:
  assumes "dseg (lh_cells h) p (x # xs) None" "t0 \<le> SIZE_MAX"
  shows "total_loop (fst x) n0 sl t0 h =
     (let t = t0 + join_len sl n0 (words_of (x # xs))
      in Some (if t > SIZE_MAX then None else Some (n0 + length (words_of (x # xs)), t)))"
  using assms
proof (induction xs arbitrary: p x n0 t0)
  case Nil
  then show ?case
    by (subst total_loop.simps) (auto simp: words_of_Cons cell_at_def Let_def split: option.split)
next
  case (Cons y ys)
  have c: "lh_cells h (fst x) = Some \<lparr>lc_prev = p, lc_next = Some (fst y), lc_data = snd x\<rparr>"
    and seg: "dseg (lh_cells h) (Some (fst x)) (y # ys) None" using Cons.prems by simp_all
  show ?case
  proof (cases "snd x = None \<or> snd x = Some []")
    case True
    with Cons.IH [OF seg Cons.prems(2)] c show ?thesis
      by (subst total_loop.simps) (auto simp: words_of_Cons [of x] cell_at_def Let_def)
  next
    case False
    then obtain w where w: "snd x = Some w" "w \<noteq> []" by auto
    let ?t = "t0 + length w + (if 0 < n0 then sl else 0)"
    show ?thesis
    proof (cases "?t > SIZE_MAX")
      case True
      then have "length w > SIZE_MAX - t0 \<or> 0 < n0 \<and> sl > SIZE_MAX - t0 - length w"
        using Cons.prems(2) by (auto split: if_splits)
      with True w c show ?thesis
        by (subst total_loop.simps) (auto simp: words_of_Cons [of x] cell_at_def Let_def)
    next
      case f: False
      then have "\<not> (length w > SIZE_MAX - t0 \<or> 0 < n0 \<and> sl > SIZE_MAX - t0 - length w)"
        by (auto split: if_splits)
      with f w c Cons.IH [OF seg, of ?t "Suc n0"] show ?thesis
        by (subst total_loop.simps) (auto simp: words_of_Cons [of x] cell_at_def Let_def add.assoc)
    qed
  qed
qed

fun join_on :: "cstring \<Rightarrow> cstring \<Rightarrow> cstring list \<Rightarrow> cstring" where
  "join_on sep b [] = b"
| "join_on sep b (w # ws) = join_on sep ((if b \<noteq> [] then b @ sep else b) @ w) ws"

lemma join_on_length: "length b \<le> length (join_on sep b ws)"
proof (induction ws arbitrary: b)
  case (Cons w ws)
  show ?case using Cons [of "(if b \<noteq> [] then b @ sep else b) @ w"] by (auto split: if_splits)
qed simp

lemma append_loop_dseg:
  assumes "dseg (lh_cells h) p (x # xs) None" "length (join_on sep buff (words_of (x # xs))) < len"
  shows "append_loop (fst x) buff len (Some sep) h = Some (join_on sep buff (words_of (x # xs)))"
  using assms
proof (induction xs arbitrary: p x buff)
  case Nil
  have "length ((if buff \<noteq> [] then buff @ sep else buff) @ w) < len" if "snd x = Some w" "w \<noteq> []" for w
    using Nil.prems that by (simp add: words_of_Cons)
  with Nil show ?case
    by (subst append_loop.simps)
       (auto simp: words_of_Cons cell_at_def strlcat_fits split: option.split)
next
  case (Cons y ys)
  have c: "lh_cells h (fst x) = Some \<lparr>lc_prev = p, lc_next = Some (fst y), lc_data = snd x\<rparr>"
    and seg: "dseg (lh_cells h) (Some (fst x)) (y # ys) None" using Cons.prems by simp_all
  show ?case
  proof (cases "snd x = None \<or> snd x = Some []")
    case True
    with Cons.IH [OF seg] Cons.prems(2) c show ?thesis
      by (subst append_loop.simps) (auto simp: words_of_Cons [of x] cell_at_def)
  next
    case False
    then obtain w where w: "snd x = Some w" "w \<noteq> []" by auto
    let ?b = "(if buff \<noteq> [] then buff @ sep else buff) @ w"
    have l: "length (join_on sep ?b (words_of (y # ys))) < len"
      using Cons.prems(2) w by (simp add: words_of_Cons [of x] cong: if_cong)
    then have "length ?b < len" using join_on_length [of ?b sep "words_of (y # ys)"] by linarith
    with w c Cons.IH [OF seg l] show ?thesis
      by (subst append_loop.simps)
         (auto simp: words_of_Cons [of x] cell_at_def strlcat_fits split: if_splits)
  qed
qed

lemma join_on_ne: "b \<noteq> [] \<Longrightarrow> join_on sep b ws = b @ concat (map (\<lambda>w. sep @ w) ws)"
  by (induction ws arbitrary: b) auto

lemma join_sep_Cons: "join_sep sep (w # ws) = w @ concat (map (\<lambda>w. sep @ w) ws)"
  by (induction ws arbitrary: w) auto

lemma join_on_sep: "\<forall>w \<in> set ws. w \<noteq> [] \<Longrightarrow> join_on sep [] ws = join_sep sep ws"
  by (cases ws) (auto simp: join_on_ne join_sep_Cons)

lemma join_len_Suc: "0 < n \<Longrightarrow> join_len sl n ws = length (concat (map (\<lambda>w. replicate sl CHR ''.'' @ w) ws))"
  by (induction ws arbitrary: n) auto

lemma join_len_eq: "join_len (length sep) 0 ws = length (join_sep sep ws)"
  by (cases ws) (auto simp: join_len_Suc join_sep_Cons length_concat o_def)

lemma words_ne: "\<forall>w \<in> set (words_of xs). w \<noteq> []"
  by (simp add: words_of_def)

text \<open>
  \<open>list_to_string\<close> is the plain join; the only other outcome is \<open>NULL\<close> after a failed allocation.
\<close>

lemma list_to_string_dlist:
  assumes "dlist (lh_cells h) xs" "a \<in> addrs xs"
  shows "\<exists>h'. list_to_string (Some a) (Some sep) h =
       Some (if lh_oom h (lh_tick h) then None else strings_to_string sep (some_data xs), h') \<and>
     lh_cells h' = lh_cells h"
proof -
  obtain x ys where xs: "xs = x # ys" using dlist_ne [OF assms(1)] by (cases xs) auto
  have seg: "dseg (lh_cells h) None (x # ys) None" using assms(1) xs by (simp add: dlist_def)
  have first: "list_first (Some a) h = Some (Some (fst x), set_errno 0 h)"
    using list_first_dlist [OF assms] xs by simp
  let ?h = "set_errno 0 h" and ?ws = "words_of xs"
  have tot: "total_loop (fst x) 0 (length sep) 1 ?h =
      Some (if 1 + length (join_sep sep ?ws) > SIZE_MAX then None
            else Some (length ?ws, 1 + length (join_sep sep ?ws)))"
    using total_loop_dseg [of ?h None x ys 1 0 "length sep"] seg xs
    by (simp add: join_len_eq Let_def SIZE_MAX_def)
  have s2s: "strings_to_string sep (some_data xs) =
      (if ?ws = [] \<or> length (join_sep sep ?ws) \<ge> SIZE_MAX then None else Some (join_sep sep ?ws))"
    by (simp add: strings_to_string_def words_of_def Let_def)
  show ?thesis
  proof (cases "?ws = [] \<or> length (join_sep sep ?ws) \<ge> SIZE_MAX \<or> lh_oom h (lh_tick h)")
    case True
    with first tot s2s show ?thesis
      by (auto simp: list_to_string_def Let_def set_errno_def)
  next
    case False
    let ?h2 = "?h\<lparr>lh_tick := Suc (lh_tick ?h)\<rparr>"
    have d2: "dlist (lh_cells ?h2) xs" using assms(1) by simp
    have "append_loop (fst x) [] (1 + length (join_sep sep ?ws)) (Some sep) (set_errno 0 ?h2) =
        Some (join_sep sep ?ws)"
      using append_loop_dseg [of "set_errno 0 ?h2" None x ys sep "[]" "1 + length (join_sep sep ?ws)"] seg xs
      by (simp add: join_on_sep words_ne)
    moreover have "list_first (Some a) ?h2 = Some (Some (fst x), set_errno 0 ?h2)"
      using list_first_dlist [OF d2 assms(2)] xs by simp
    ultimately have "list_string_append (Some a) [] (1 + length (join_sep sep ?ws)) (Some sep) ?h2 =
        Some (Some (join_sep sep ?ws), set_errno 0 ?h2)"
      by (simp add: list_string_append_def)
    with False first tot s2s show ?thesis
      by (simp add: list_to_string_def Let_def)
  qed
qed

section \<open>Splitting what was joined\<close>

text \<open>A word the splitter leaves alone.\<close>

definition plain_char :: "char \<Rightarrow> bool" where
  "plain_char c \<longleftrightarrow> \<not> isspace c \<and> c \<noteq> CHR 0x5C \<and> c \<noteq> CHR 0x27 \<and> c \<noteq> CHR 0x22"

lemma split_loop_plain:
  "\<forall>c \<in> set w. plain_char c \<Longrightarrow>
   split_loop (w @ r) cur False False False acc = split_loop r (cur @ w) False False False acc"
  by (induction w arbitrary: cur) (simp_all add: plain_char_def)

text \<open>Any word can be written with a backslash before each character.\<close>

definition escape_word :: "cstring \<Rightarrow> cstring" where
  "escape_word w = concat (map (\<lambda>c. [CHR 0x5C, c]) w)"

lemma split_loop_escaped:
  "split_loop (escape_word w @ r) cur False False False acc = split_loop r (cur @ w) False False False acc"
  by (induction w arbitrary: cur) (simp_all add: escape_word_def)

lemma isspace_blank [simp]: "isspace CHR '' ''"
  by (simp add: isspace_def cval_def)

lemma isspace_specials [simp]:
  "\<not> isspace CHR 0x5C" "\<not> isspace CHR 0x27" "\<not> isspace CHR 0x22"
  by (simp_all add: isspace_def cval_def)

text \<open>\<open>q w\<close> is a way of writing the word \<open>w\<close>: the splitter reads it back and it starts with no blank.\<close>

definition writes :: "(cstring \<Rightarrow> cstring) \<Rightarrow> cstring \<Rightarrow> bool" where
  "writes q w \<longleftrightarrow> q w \<noteq> [] \<and> \<not> isspace (hd (q w)) \<and>
     (\<forall>r cur acc. split_loop (q w @ r) cur False False False acc =
        split_loop r (cur @ w) False False False acc)"

lemma writes_escape: "w \<noteq> [] \<Longrightarrow> writes escape_word w"
  by (auto simp: writes_def split_loop_escaped) (cases w, simp_all add: escape_word_def)+

lemma writes_plain: "w \<noteq> [] \<Longrightarrow> \<forall>c \<in> set w. plain_char c \<Longrightarrow> writes (\<lambda>w. w) w"
  by (auto simp: writes_def split_loop_plain) (cases w, simp_all add: plain_char_def)

lemma split_loop_joined:
  assumes "\<forall>w \<in> set ws. writes q w \<and> w \<noteq> []"
  shows "split_loop (join_sep '' '' (map q ws)) [] False False False acc = acc @ ws"
  using assms
proof (induction ws arbitrary: acc rule: induct_list012)
  case 1
  show ?case by simp
next
  case (2 w)
  then have "writes q w" by simp
  then have "\<forall>r cur acc. split_loop (q w @ r) cur False False False acc =
      split_loop r (cur @ w) False False False acc"
    by (simp add: writes_def)
  from this [rule_format, of "[]" "[]" acc] 2 show ?case by simp
next
  case (3 w v ws)
  let ?j = "join_sep '' '' (map q (v # ws))"
  have "?j \<noteq> [] \<and> \<not> isspace (hd ?j)"
    using 3 by (simp add: join_sep_Cons writes_def)
  then have d: "dropWhile isspace ?j = ?j" by (cases ?j) auto
  have "join_sep '' '' (map q (w # v # ws)) = q w @ CHR '' '' # ?j" by simp
  moreover have "split_loop (q w @ CHR '' '' # ?j) [] False False False acc =
      split_loop (CHR '' '' # ?j) w False False False acc"
    using 3 by (simp add: writes_def)
  moreover have "split_loop (CHR '' '' # ?j) w False False False acc =
      split_loop ?j [] False False False (acc @ [w])"
    using 3 d by simp
  moreover have "split_loop ?j [] False False False (acc @ [w]) = (acc @ [w]) @ v # ws"
    using 3 by (intro "3.IH"(2)) simp
  ultimately show ?case by simp
qed

lemma string_to_list_by_space_escaped:
  assumes "\<forall>w \<in> set ws. w \<noteq> []"
  shows "string_to_list_by_space (Some (join_sep '' '' (map escape_word ws))) = ws"
  using split_loop_joined [of ws escape_word "[]"] assms
  by (simp add: string_to_list_by_space_def writes_escape)

lemma string_to_list_by_space_plain:
  assumes "\<forall>w \<in> set ws. w \<noteq> [] \<and> (\<forall>c \<in> set w. plain_char c)"
  shows "string_to_list_by_space (Some (join_sep '' '' ws)) = ws"
  using split_loop_joined [of ws "\<lambda>w. w" "[]"] assms
  by (simp add: string_to_list_by_space_def writes_plain)

end
