(* ===== verification/Log.thy ===== *)
theory Log
  imports Loader
begin

text \<open>
  The log, from \<open>src/log\<close>: items (\<open>base.c\<close>), the store with its size limit and the delivery of items to backends
  (\<open>store.c\<close>), printing (\<open>print.c\<close>) and backends (\<open>backend.c\<close>). What a kind of backend does is a record of
  functions, as in the code, on a state \<open>'w\<close>.
\<close>

section \<open>Items\<close>

datatype log_level = LOG_DEBUG | LOG_INFO | LOG_WARNING | LOG_ERROR

definition log_level_str :: "log_level \<Rightarrow> cstring" where
  "log_level_str level =
     (case level of LOG_DEBUG \<Rightarrow> ''DEBUG'' | LOG_INFO \<Rightarrow> ''INFO'' | LOG_WARNING \<Rightarrow> ''WARNING'' | LOG_ERROR \<Rightarrow> ''ERROR'')"

definition log_level_from_str :: "cstring option \<Rightarrow> log_level option" where
  "log_level_from_str str =
     (case str of
        None \<Rightarrow> None
      | Some s \<Rightarrow>
          if strcasecmp s ''debug'' = 0 then Some LOG_DEBUG
          else if strcasecmp s ''dbg'' = 0 then Some LOG_DEBUG
          else if strcasecmp s ''info'' = 0 then Some LOG_INFO
          else if strcasecmp s ''warn'' = 0 then Some LOG_WARNING
          else if strcasecmp s ''warning'' = 0 then Some LOG_WARNING
          else if strcasecmp s ''err'' = 0 then Some LOG_ERROR
          else if strcasecmp s ''error'' = 0 then Some LOG_ERROR
          else if strcmp s ''0'' = 0 then Some LOG_DEBUG
          else if strcmp s ''1'' = 0 then Some LOG_INFO
          else if strcmp s ''2'' = 0 then Some LOG_WARNING
          else if strcmp s ''3'' = 0 then Some LOG_ERROR
          else None)"

text \<open>The time of the firmware, as far as it is printed.\<close>

record efi_time =
  et_year :: nat
  et_month :: nat
  et_day :: nat
  et_hour :: nat
  et_minute :: nat
  et_second :: nat
  et_nanosecond :: nat

text \<open>Backends are named by numbers; \<open>lg_backends\<close> are those that have got the item.\<close>

record log_item =
  lg_level :: log_level
  lg_time :: efi_time
  lg_flushed :: bool
  lg_backends :: "nat list"
  lg_size :: int
  lg_lineno :: int
  lg_tag :: "cstring option"
  lg_file :: "cstring option"
  lg_function :: "cstring option"
  lg_content :: cstring

text \<open>\<open>sizeof(log_item)\<close> on a 64-bit machine.\<close>

definition LOG_ITEM_SIZE :: int where
  "LOG_ITEM_SIZE = 72"

definition SIZE_MOD :: int where
  "SIZE_MOD = 18446744073709551616"

definition opt_len :: "cstring option \<Rightarrow> int" where
  "opt_len s = (case s of None \<Rightarrow> 0 | Some t \<Rightarrow> int (length t))"

text \<open>The sum of the sizes, or \<open>None\<close> when it exceeds \<open>SIZE_MAX\<close>.\<close>

fun add_sizes :: "int list \<Rightarrow> int \<Rightarrow> int option" where
  "add_sizes [] total_len = Some total_len"
| "add_sizes (n # ns) total_len = (if n > SIZE_MOD - 1 - total_len then None else add_sizes ns (total_len + n))"

definition log_item_create ::
  "log_level \<Rightarrow> cstring option \<Rightarrow> cstring option \<Rightarrow> cstring option \<Rightarrow> int \<Rightarrow> cstring option \<Rightarrow> efi_time \<Rightarrow> embloader \<Rightarrow>
   log_item option \<times> embloader" where
  "log_item_create level tag file func lineno content now g =
     (case content of
        None \<Rightarrow> (None, g)
      | Some c \<Rightarrow>
          (case add_sizes [opt_len tag, opt_len file, opt_len func, opt_len (Some c), 4] LOG_ITEM_SIZE of
             None \<Rightarrow> (None, g)
           | Some total_len \<Rightarrow>
               if total_len \<ge> 0xFFFFFFFF then (None, g)
               else let (ok, g) = galloc g in
               if \<not> ok then (None, g)
               else (Some \<lparr>lg_level = level, lg_time = now, lg_flushed = False, lg_backends = [], lg_size = total_len,
                       lg_lineno = lineno, lg_tag = tag, lg_file = file, lg_function = func, lg_content = c\<rparr>, g)))"

section \<open>Backends\<close>

record log_backend =
  lb_id :: nat
  lb_name :: cstring
  lb_config :: ptr

text \<open>
  The functions of a kind of backend; the context of a backend is a part of \<open>'w\<close>. A missing \<open>init\<close> or \<open>deinit\<close> is \<open>None\<close>.
\<close>

type_synonym 'w backend_op = "log_backend \<Rightarrow> embloader \<times> 'w \<Rightarrow> (int \<times> embloader \<times> 'w) option"

record 'w log_backend_base =
  bb_name :: cstring
  bb_init :: "'w backend_op option"
  bb_deinit :: "'w backend_op option"
  bb_write :: "log_item \<Rightarrow> 'w backend_op"
  bb_ctx_size :: nat

text \<open>The items in order, the backends in order, the limit and the size of the store, and the next number.\<close>

record 'w log_state =
  ls_items :: "log_item list"
  ls_backends :: "(log_backend \<times> 'w log_backend_base) list"
  ls_limit :: int
  ls_cur :: int
  ls_next :: nat
  ls_g :: embloader
  ls_world :: 'w

definition log_alloc :: "'w log_state \<Rightarrow> bool \<times> 'w log_state" where
  "log_alloc s = (let (ok, g) = galloc (ls_g s) in (ok, s\<lparr>ls_g := g\<rparr>))"

text \<open>A call of a backend.\<close>

definition on_backend ::
  "(embloader \<times> 'w \<Rightarrow> (int \<times> embloader \<times> 'w) option) \<Rightarrow> 'w log_state \<Rightarrow> (int \<times> 'w log_state) option" where
  "on_backend f s = do {
     (ret, g, w) \<leftarrow> f (ls_g s, ls_world s);
     Some (ret, s\<lparr>ls_g := g, ls_world := w\<rparr>)
   }"

definition log_backend_write ::
  "log_backend \<times> 'w log_backend_base \<Rightarrow> log_item \<Rightarrow> 'w log_state \<Rightarrow> (int \<times> 'w log_state) option" where
  "log_backend_write b item = on_backend (bb_write (snd b) item (fst b))"

definition log_backend_init :: "log_backend \<times> 'w log_backend_base \<Rightarrow> 'w log_state \<Rightarrow> (int \<times> 'w log_state) option" where
  "log_backend_init b s = (case bb_init (snd b) of None \<Rightarrow> Some (0, s) | Some f \<Rightarrow> on_backend (f (fst b)) s)"

definition log_backend_deinit :: "log_backend \<times> 'w log_backend_base \<Rightarrow> 'w log_state \<Rightarrow> (int \<times> 'w log_state) option" where
  "log_backend_deinit b s = (case bb_deinit (snd b) of None \<Rightarrow> Some (0, s) | Some f \<Rightarrow> on_backend (f (fst b)) s)"

section \<open>The store\<close>

definition log_item_was_flushed_to :: "log_item \<Rightarrow> nat \<Rightarrow> bool" where
  "log_item_was_flushed_to item b \<longleftrightarrow> b \<in> set (lg_backends item)"

definition log_item_is_fully_flushed :: "(log_backend \<times> 'w log_backend_base) list \<Rightarrow> log_item \<Rightarrow> bool" where
  "log_item_is_fully_flushed bs item \<longleftrightarrow> bs \<noteq> [] \<and> (\<forall>b \<in> set bs. log_item_was_flushed_to item (lb_id (fst b)))"

text \<open>The item comes back with its backends; an item that could not be written is not marked.\<close>

definition log_item_write_to ::
  "log_backend \<times> 'w log_backend_base \<Rightarrow> bool \<Rightarrow> log_item \<Rightarrow> 'w log_state \<Rightarrow> ((int \<times> log_item) \<times> 'w log_state) option" where
  "log_item_write_to b force item s =
     (let k = lb_id (fst b); marked = log_item_was_flushed_to item k in
      if marked \<and> \<not> force then Some ((0, item), s)
      else let (ok, s) = (if marked then (True, s) else log_alloc s) in
      if \<not> ok then Some ((-1, item), s)
      else let item = (if marked then item else item\<lparr>lg_backends := lg_backends item @ [k]\<rparr>) in do {
        (ret, s) \<leftarrow> log_backend_write b item s;
        Some ((ret, if ret < 0 \<and> \<not> marked then item\<lparr>lg_backends := remove1 k (lg_backends item)\<rparr> else item), s)
      })"

definition log_item_invalidate_flush_state :: "'w log_state \<Rightarrow> 'w log_state" where
  "log_item_invalidate_flush_state s = s\<lparr>ls_items := map (\<lambda>i. i\<lparr>lg_flushed := False\<rparr>) (ls_items s)\<rparr>"

definition log_item_forget_backend :: "nat \<Rightarrow> 'w log_state \<Rightarrow> 'w log_state" where
  "log_item_forget_backend k s = s\<lparr>ls_items :=
     map (\<lambda>i. let i = i\<lparr>lg_backends := remove1 k (lg_backends i)\<rparr>
              in i\<lparr>lg_flushed := log_item_is_fully_flushed (ls_backends s) i\<rparr>) (ls_items s)\<rparr>"

text \<open>The oldest items go while the store is too large.\<close>

fun evict :: "int \<Rightarrow> log_item list \<Rightarrow> int \<Rightarrow> log_item list \<times> int" where
  "evict limit [] cur = ([], cur)"
| "evict limit (i # is) cur =
     (if cur > limit then evict limit is ((cur - lg_size i) mod SIZE_MOD) else (i # is, cur))"

definition log_size_limit_check :: "'w log_state \<Rightarrow> 'w log_state" where
  "log_size_limit_check s =
     (let (is, cur) = evict (ls_limit s) (ls_items s) (ls_cur s) in s\<lparr>ls_items := is, ls_cur := cur\<rparr>)"

definition log_append :: "log_item \<Rightarrow> 'w log_state \<Rightarrow> bool \<times> 'w log_state" where
  "log_append item s =
     (let s = log_size_limit_check s in
      if lg_size item \<ge> ls_limit s then (False, s)
      else let item = item\<lparr>lg_flushed := False\<rparr>; (ok, s) = log_alloc s in
      if \<not> ok then (False, s)
      else (True, log_size_limit_check
             (s\<lparr>ls_items := ls_items s @ [item], ls_cur := (ls_cur s + lg_size item) mod SIZE_MOD\<rparr>)))"

text \<open>The items to one backend, until a write fails.\<close>

fun write_items ::
  "log_backend \<times> 'w log_backend_base \<Rightarrow> bool \<Rightarrow> log_item list \<Rightarrow> 'w log_state \<Rightarrow> (log_item list \<times> 'w log_state) option" where
  "write_items b force [] s = Some ([], s)"
| "write_items b force (i # is) s = do {
     ((ret, i), s) \<leftarrow> log_item_write_to b force i s;
     (if ret < 0 then Some (i # is, s)
      else do { (is, s) \<leftarrow> write_items b force is s; Some (i # is, s) })
   }"

fun write_backends ::
  "(log_backend \<times> 'w log_backend_base) list \<Rightarrow> bool \<Rightarrow> log_item list \<Rightarrow> 'w log_state \<Rightarrow> (log_item list \<times> 'w log_state) option" where
  "write_backends [] force is s = Some (is, s)"
| "write_backends (b # bs) force is s = do {
     (is, s) \<leftarrow> write_items b force is s;
     write_backends bs force is s
   }"

definition set_flushed :: "(log_backend \<times> 'w log_backend_base) list \<Rightarrow> log_item \<Rightarrow> log_item" where
  "set_flushed bs i = i\<lparr>lg_flushed := log_item_is_fully_flushed bs i\<rparr>"

text \<open>The size of the store, added up again.\<close>

definition recount :: "'w log_state \<Rightarrow> 'w log_state" where
  "recount s = s\<lparr>ls_cur := foldl (\<lambda>cur i. (cur + lg_size i) mod SIZE_MOD) 0 (ls_items s)\<rparr>"

definition log_flush_all :: "bool \<Rightarrow> 'w log_state \<Rightarrow> 'w log_state option" where
  "log_flush_all force s =
     (let s = recount s in do {
        (is, s) \<leftarrow> write_backends (ls_backends s) force (ls_items s) s;
        Some (s\<lparr>ls_items := map (set_flushed (ls_backends s)) is\<rparr>)
      })"

text \<open>The items behind the last one that all backends have.\<close>

definition unflushed :: "log_item list \<Rightarrow> log_item list" where
  "unflushed is = rev (takeWhile (\<lambda>i. \<not> lg_flushed i) (rev is))"

definition log_flush_fast :: "'w log_state \<Rightarrow> 'w log_state option" where
  "log_flush_fast s =
     (let suffix = unflushed (ls_items s); n = length (ls_items s) - length suffix in
      if suffix = [] then Some s
      else do {
        (is, s) \<leftarrow> write_backends (ls_backends s) False suffix s;
        Some (s\<lparr>ls_items := take n (ls_items s) @ map (set_flushed (ls_backends s)) is\<rparr>)
      })"

text \<open>One item: the result of the write, and the item with its marks.\<close>

definition log_flush_one_to ::
  "log_backend \<times> 'w log_backend_base \<Rightarrow> bool \<Rightarrow> log_item \<Rightarrow> 'w log_state \<Rightarrow> ((int \<times> log_item) \<times> 'w log_state) option" where
  "log_flush_one_to b force item s = do {
     ((ret, item), s) \<leftarrow> log_item_write_to b force item s;
     Some ((ret, set_flushed (ls_backends s) item), s)
   }"

fun flush_items ::
  "log_backend \<times> 'w log_backend_base \<Rightarrow> bool \<Rightarrow> log_item list \<Rightarrow> 'w log_state \<Rightarrow> (log_item list \<times> 'w log_state) option" where
  "flush_items b force [] s = Some ([], s)"
| "flush_items b force (i # is) s = do {
     ((ret, i), s) \<leftarrow> log_flush_one_to b force i s;
     (if ret < 0 then Some (i # is, s)
      else do { (is, s) \<leftarrow> flush_items b force is s; Some (i # is, s) })
   }"

definition log_flush_to :: "log_backend \<times> 'w log_backend_base \<Rightarrow> bool \<Rightarrow> 'w log_state \<Rightarrow> 'w log_state option" where
  "log_flush_to b force s =
     (let s = recount s in do {
        (is, s) \<leftarrow> flush_items b force (ls_items s) s;
        Some (s\<lparr>ls_items := is\<rparr>)
      })"

section \<open>Printing\<close>

definition log_base_print ::
  "log_level \<Rightarrow> cstring option \<Rightarrow> cstring option \<Rightarrow> cstring option \<Rightarrow> int \<Rightarrow> cstring option \<Rightarrow> efi_time \<Rightarrow> 'w log_state \<Rightarrow>
   'w log_state option" where
  "log_base_print level tag file func lineno content now s =
     (if content = None then Some s
      else let (item, g) = log_item_create level tag file func lineno content now (ls_g s); s = s\<lparr>ls_g := g\<rparr>
      in case item of
           None \<Rightarrow> Some s
         | Some i \<Rightarrow>
             let (ok, s) = log_append i s
             in if ok then log_flush_fast s else Some s)"

text \<open>\<open>log_base_vprintf\<close> and \<open>log_base_printf\<close>, for the text that \<open>vasprintf\<close> makes.\<close>

definition log_base_vprintf ::
  "log_level \<Rightarrow> cstring option \<Rightarrow> cstring option \<Rightarrow> cstring option \<Rightarrow> int \<Rightarrow> cstring option \<Rightarrow> efi_time \<Rightarrow> 'w log_state \<Rightarrow>
   'w log_state option" where
  "log_base_vprintf level tag file func lineno text now s =
     (if text = None then Some s
      else let (ok, s) = log_alloc s
           in if ok then log_base_print level tag file func lineno text now s else Some s)"

section \<open>Creating and destroying backends\<close>

definition log_backend_destroy :: "log_backend \<times> 'w log_backend_base \<Rightarrow> 'w log_state \<Rightarrow> 'w log_state option" where
  "log_backend_destroy b s =
     (let k = lb_id (fst b);
          s = s\<lparr>ls_backends := filter (\<lambda>b. lb_id (fst b) \<noteq> k) (ls_backends s)\<rparr>;
          s = log_item_forget_backend k s
      in do { (_, s) \<leftarrow> log_backend_deinit b s; Some s })"

definition create_fail ::
  "log_backend \<times> 'w log_backend_base \<Rightarrow> 'w log_state \<Rightarrow> (log_backend option \<times> 'w log_state) option" where
  "create_fail b s = do { s \<leftarrow> log_backend_destroy b s; Some (None, s) }"

text \<open>
  The end of the creation: the backend is in the list, gets the items, and its creation is logged. The file and the
  time of that message are parameters.
\<close>

definition announce_backend ::
  "cstring \<Rightarrow> efi_time \<Rightarrow> log_backend \<times> 'w log_backend_base \<Rightarrow> 'w log_state \<Rightarrow> (log_backend option \<times> 'w log_state) option" where
  "announce_backend here now b s =
     (let s = log_item_invalidate_flush_state (s\<lparr>ls_backends := ls_backends s @ [b]\<rparr>) in do {
        s \<leftarrow> log_flush_to b False s;
        s \<leftarrow> log_base_vprintf LOG_INFO (Some ''log_backend_create'') (Some here) (Some ''log_backend_create'') 102
          (Some (''log backend '' @ lb_name (fst b) @ '' created from '' @ bb_name (snd b))) now s;
        Some (Some (fst b), s)
      })"

definition start_backend ::
  "cstring \<Rightarrow> efi_time \<Rightarrow> log_backend \<times> 'w log_backend_base \<Rightarrow> 'w log_state \<Rightarrow> (log_backend option \<times> 'w log_state) option" where
  "start_backend here now b s = do {
     (ret, s) \<leftarrow> log_backend_init b s;
     (if ret < 0 then create_fail b s
      else let (ok, s) = log_alloc s
           in if \<not> ok then create_fail b s else announce_backend here now b s)
   }"

text \<open>The result is the backend; a new one has a number of its own.\<close>

definition log_backend_create ::
  "cstring \<Rightarrow> efi_time \<Rightarrow> 'w log_backend_base \<Rightarrow> cstring option \<Rightarrow> ptr \<Rightarrow> 'w log_state \<Rightarrow>
   (log_backend option \<times> 'w log_state) option" where
  "log_backend_create here now base name config s =
     (let (ok, s) = log_alloc s in
      if \<not> ok then Some (None, s)
      else let k = ls_next s; s = s\<lparr>ls_next := Suc k\<rparr>;
               auto = bb_name base @ ''-'' @ int_dec (int (length (ls_backends s)) + 1);
               b = (\<lparr>lb_id = k, lb_name = (case name of None \<Rightarrow> auto | Some n \<Rightarrow> n), lb_config = config\<rparr>, base);
               (ok, s) = log_alloc s in
      if \<not> ok then create_fail b s
      else let (ok, s) = (if bb_ctx_size base > 0 then log_alloc s else (True, s))
           in if \<not> ok then create_fail b s else start_backend here now b s)"

definition log_backend_base_find :: "'w log_backend_base list \<Rightarrow> cstring \<Rightarrow> 'w log_backend_base option" where
  "log_backend_base_find bases name = find (\<lambda>b. strcasecmp (bb_name b) name = 0) bases"

definition on_log_config :: "(embloader \<Rightarrow> ('a \<times> embloader) option) \<Rightarrow> 'w log_state \<Rightarrow> ('a \<times> 'w log_state) option" where
  "on_log_config f s = do { (r, g) \<leftarrow> f (ls_g s); Some (r, s\<lparr>ls_g := g\<rparr>) }"

end
