(* ===== verification/LogFacts.thy ===== *)
theory LogFacts
  imports Log
begin

text \<open>
  The store of the log: its size is accounted for and kept below the limit, every backend has got a prefix of the
  items, and the fast flush does what the full one does.
\<close>

section \<open>The invariant\<close>

abbreviation marked :: "nat \<Rightarrow> log_item \<Rightarrow> bool" where
  "marked k i \<equiv> k \<in> set (lg_backends i)"

definition total_log :: "log_item list \<Rightarrow> int" where
  "total_log is = (\<Sum>i \<leftarrow> is. lg_size i)"

lemma total_log_simps [simp]:
  "total_log [] = 0" "total_log (i # is) = lg_size i + total_log is" "total_log (xs @ ys) = total_log xs + total_log ys"
  by (simp_all add: total_log_def)

text \<open>The items a backend has got come before those it has not.\<close>

definition in_order :: "nat \<Rightarrow> log_item list \<Rightarrow> bool" where
  "in_order k = sorted_wrt (\<lambda>i j. marked k j \<longrightarrow> marked k i)"

lemma in_order_simps [simp]:
  "in_order k []" "in_order k (i # is) \<longleftrightarrow> (\<forall>j \<in> set is. marked k j \<longrightarrow> marked k i) \<and> in_order k is"
  by (simp_all add: in_order_def)

lemma in_order_append:
  "in_order k (xs @ ys) \<longleftrightarrow> in_order k xs \<and> in_order k ys \<and> (\<forall>x \<in> set xs. \<forall>y \<in> set ys. marked k y \<longrightarrow> marked k x)"
  by (simp add: in_order_def sorted_wrt_append)

abbreviation backend_ids :: "(log_backend \<times> 'w log_backend_base) list \<Rightarrow> nat list" where
  "backend_ids bs \<equiv> map (\<lambda>b. lb_id (fst b)) bs"

definition item_ok :: "nat \<Rightarrow> log_item \<Rightarrow> bool" where
  "item_ok n i \<longleftrightarrow> 0 \<le> lg_size i \<and> lg_size i < 2 ^ 32 \<and> distinct (lg_backends i) \<and> (\<forall>k \<in> set (lg_backends i). k < n)"

definition log_inv :: "'w log_state \<Rightarrow> bool" where
  "log_inv s \<longleftrightarrow>
     (\<forall>i \<in> set (ls_items s). item_ok (ls_next s) i) \<and>
     ls_cur s = total_log (ls_items s) \<and> ls_cur s < SIZE_MOD \<and> 0 \<le> ls_limit s \<and> ls_limit s < 2 ^ 63 \<and>
     distinct (backend_ids (ls_backends s)) \<and> (\<forall>k \<in> set (backend_ids (ls_backends s)). k < ls_next s) \<and>
     (\<forall>k. in_order k (ls_items s)) \<and>
     (\<forall>i \<in> set (ls_items s). lg_flushed i = log_item_is_fully_flushed (ls_backends s) i)"

lemma total_nonneg: "\<forall>i \<in> set is. item_ok n i \<Longrightarrow> 0 \<le> total_log is"
  by (induction "is") (auto simp: item_ok_def)

section \<open>The size of the store\<close>

text \<open>Eviction takes the fewest of the oldest items that are enough.\<close>

lemma evict_total:
  assumes "\<forall>i \<in> set is. item_ok n i" "total_log is < SIZE_MOD"
  shows "\<exists>xs. is = xs @ fst (evict limit is (total_log is)) \<and>
    snd (evict limit is (total_log is)) = total_log (fst (evict limit is (total_log is))) \<and>
    (0 \<le> limit \<longrightarrow> total_log (fst (evict limit is (total_log is))) \<le> limit) \<and>
    (xs \<noteq> [] \<longrightarrow> limit < total_log (last xs # fst (evict limit is (total_log is))))"
  using assms
proof (induction "is")
  case Nil
  then show ?case by simp
next
  case (Cons i "is")
  have n: "0 \<le> lg_size i" "0 \<le> total_log is" using Cons.prems(1) total_nonneg [of "is" n] by (auto simp: item_ok_def)
  show ?case
  proof (cases "total_log (i # is) > limit")
    case False
    then show ?thesis by simp
  next
    case True
    have e: "evict limit (i # is) (total_log (i # is)) = evict limit is (total_log is)"
      using True n Cons.prems(2) by (simp add: SIZE_MOD_def)
    obtain xs where xs: "is = xs @ fst (evict limit is (total_log is))"
      "snd (evict limit is (total_log is)) = total_log (fst (evict limit is (total_log is)))"
      "0 \<le> limit \<longrightarrow> total_log (fst (evict limit is (total_log is))) \<le> limit"
      "xs \<noteq> [] \<longrightarrow> limit < total_log (last xs # fst (evict limit is (total_log is)))"
      using Cons n by auto
    show ?thesis
    proof (intro exI [of _ "i # xs"] conjI)
      show "i # is = (i # xs) @ fst (evict limit (i # is) (total_log (i # is)))"
        unfolding e using xs(1) by simp
      show "i # xs \<noteq> [] \<longrightarrow> limit < total_log (last (i # xs) # fst (evict limit (i # is) (total_log (i # is))))"
        unfolding e using xs(1,4) True by (cases "xs = []") auto
    qed (use xs e in simp_all)
  qed
qed

definition evicted :: "int \<Rightarrow> log_item list \<Rightarrow> log_item list \<Rightarrow> bool" where
  "evicted limit is is' \<longleftrightarrow> (\<exists>xs. is = xs @ is' \<and> total_log is' \<le> limit \<and> (xs \<noteq> [] \<longrightarrow> limit < total_log (last xs # is')))"

lemma limit_check:
  assumes "\<forall>i \<in> set (ls_items s). item_ok n i" "ls_cur s = total_log (ls_items s)" "ls_cur s < SIZE_MOD" "0 \<le> ls_limit s"
  obtains is' where "log_size_limit_check s = s\<lparr>ls_items := is', ls_cur := total_log is'\<rparr>" "evicted (ls_limit s) (ls_items s) is'"
proof -
  have "total_log (ls_items s) < SIZE_MOD" using assms by simp
  from evict_total [OF assms(1) this, of "ls_limit s"] obtain is' where
    "evict (ls_limit s) (ls_items s) (total_log (ls_items s)) = (is', total_log is')" "evicted (ls_limit s) (ls_items s) is'"
    using assms(4) by (auto simp: evicted_def prod_eq_iff)
  with that show ?thesis by (simp add: log_size_limit_check_def assms(2))
qed

lemma evicted_items:
  assumes "evicted limit is is'"
  shows "set is' \<subseteq> set is" "in_order k is \<Longrightarrow> in_order k is'" "total_log is' \<le> limit"
  using assms by (auto simp: evicted_def in_order_append)

lemma log_alloc_frame: "\<exists>ok g. log_alloc s = (ok, s\<lparr>ls_g := g\<rparr>)"
  by (cases "galloc (ls_g s)") (auto simp: log_alloc_def)

text \<open>Other items under the same backends.\<close>

lemma log_inv_items:
  assumes "log_inv s" "\<forall>i \<in> set is. item_ok (ls_next s) i" "total_log is < SIZE_MOD" "\<And>k. in_order k is"
    "\<forall>i \<in> set is. lg_flushed i = log_item_is_fully_flushed (ls_backends s) i"
  shows "log_inv (s\<lparr>ls_items := is, ls_cur := total_log is\<rparr>)"
  using assms by (simp add: log_inv_def)

lemma log_inv_g [simp]: "log_inv (s\<lparr>ls_g := g\<rparr>) = log_inv s" "log_inv (s\<lparr>ls_world := w\<rparr>) = log_inv s"
  by (simp_all add: log_inv_def)

lemma log_inv_evicted:
  assumes "log_inv s" "evicted limit (ls_items s) is" "limit \<le> ls_limit s"
  shows "log_inv (s\<lparr>ls_items := is, ls_cur := total_log is\<rparr>)"
  using assms evicted_items [OF assms(2)] by (intro log_inv_items) (auto simp: log_inv_def SIZE_MOD_def)

text \<open>Appending keeps the accounts; the store then holds at most the limit, and the new item at its end.\<close>

lemma append_accounts:
  assumes inv: "log_inv s" and item: "item_ok (ls_next s) item" "lg_backends item = []"
    and run: "log_append item s = (ok, s')"
  shows "\<exists>is g. s' = s\<lparr>ls_items := is, ls_cur := total_log is, ls_g := g\<rparr> \<and> log_inv s' \<and> total_log is \<le> ls_limit s \<and>
    (if ok then \<exists>is1. evicted (ls_limit s) (ls_items s) is1 \<and> evicted (ls_limit s) (is1 @ [item\<lparr>lg_flushed := False\<rparr>]) is \<and>
               is \<noteq> [] \<and> last is = item\<lparr>lg_flushed := False\<rparr>
     else evicted (ls_limit s) (ls_items s) is)"
proof -
  note i = inv [unfolded log_inv_def]
  from limit_check [of s "ls_next s"] i obtain is1 where c: "log_size_limit_check s = s\<lparr>ls_items := is1, ls_cur := total_log is1\<rparr>"
    and e1: "evicted (ls_limit s) (ls_items s) is1" by blast
  let ?s1 = "s\<lparr>ls_items := is1, ls_cur := total_log is1\<rparr>"
  have inv1: "log_inv ?s1" by (rule log_inv_evicted [OF inv e1]) simp
  have ok1: "\<forall>i \<in> set is1. item_ok (ls_next s) i" using inv1 by (simp add: log_inv_def)
  have t1: "0 \<le> total_log is1" "total_log is1 \<le> ls_limit s" using total_nonneg [OF ok1] evicted_items(3) [OF e1] by simp_all
  obtain aok g where a: "log_alloc ?s1 = (aok, ?s1\<lparr>ls_g := g\<rparr>)" using log_alloc_frame by metis
  let ?new = "item\<lparr>lg_flushed := False\<rparr>" and ?is = "is1 @ [item\<lparr>lg_flushed := False\<rparr>]"
  consider (big) "lg_size item \<ge> ls_limit s" | (oom) "lg_size item < ls_limit s" "\<not> aok" | (fine) "lg_size item < ls_limit s" aok
    by linarith
  then show ?thesis
  proof cases
    case big
    then have r: "\<not> ok" "s' = ?s1" using run c by (auto simp: log_append_def Let_def)
    have "?s1 = ?s1\<lparr>ls_g := ls_g s\<rparr>" by simp
    with r have "\<not> ok" "s' = ?s1\<lparr>ls_g := ls_g s\<rparr>" by metis+
    then show ?thesis using inv1 e1 t1 by (intro exI [of _ is1] exI [of _ "ls_g s"]) simp
  next
    case oom
    then have "\<not> ok" "s' = ?s1\<lparr>ls_g := g\<rparr>" using run c a by (auto simp: log_append_def Let_def)
    then show ?thesis using inv1 e1 t1 by (intro exI [of _ is1] exI [of _ g]) simp
  next
    case fine
    have b2: "total_log ?is < SIZE_MOD" "(total_log is1 + lg_size item) mod SIZE_MOD = total_log ?is"
      using t1 i item(1) by (simp_all add: item_ok_def SIZE_MOD_def)
    let ?s2 = "?s1\<lparr>ls_g := g, ls_items := ?is, ls_cur := total_log ?is\<rparr>"
    have s': ok "s' = log_size_limit_check ?s2"
      using run c a fine b2(2) by (simp_all add: log_append_def Let_def)
    have ok2: "\<forall>i \<in> set ?is. item_ok (ls_next s) i" using ok1 item by (auto simp: item_ok_def)
    have inv2: "log_inv ?s2"
    proof (rule log_inv_items)
      show "log_inv (?s1\<lparr>ls_g := g\<rparr>)" using inv1 by simp
      show "in_order k ?is" for k
        using inv1 item(2) by (simp add: log_inv_def in_order_append)
      show "\<forall>i \<in> set ?is. lg_flushed i = log_item_is_fully_flushed (ls_backends (?s1\<lparr>ls_g := g\<rparr>)) i"
        using inv1 item(2) by (cases "ls_backends s")
          (auto simp: log_inv_def log_item_is_fully_flushed_def log_item_was_flushed_to_def)
    qed (use ok2 b2 in simp_all)
    from limit_check [of ?s2 "ls_next s"] inv2 obtain is2 where
      c2: "s' = ?s2\<lparr>ls_items := is2, ls_cur := total_log is2\<rparr>" and e2: "evicted (ls_limit s) ?is is2"
      unfolding s'(2) by (auto simp: log_inv_def)
    have "is2 \<noteq> []"
    proof
      assume "is2 = []"
      with e2 have "ls_limit s < total_log [?new]" by (auto simp: evicted_def)
      then show False using fine(1) by simp
    qed
    moreover from this have "last is2 = ?new" using e2 by (auto simp: evicted_def) (metis last_appendR last_snoc)
    moreover have "log_inv s'" unfolding c2 using log_inv_evicted [OF inv2, of "ls_limit s" is2] e2 by simp
    ultimately show ?thesis
      using s'(1) c2 e1 e2 evicted_items(3) [OF e2] by (intro exI [of _ is2] exI [of _ g]) auto
  qed
qed

section \<open>Delivery\<close>

text \<open>A delivery changes only the marks of one backend in the items, and the world.\<close>

definition redelivered :: "nat \<Rightarrow> log_item \<Rightarrow> log_item \<Rightarrow> bool" where
  "redelivered k i i' \<longleftrightarrow> (\<exists>ks. i' = i\<lparr>lg_backends := ks\<rparr> \<and> (distinct (lg_backends i) \<longrightarrow> distinct ks) \<and>
     (\<forall>k'. k' \<noteq> k \<longrightarrow> k' \<in> set ks \<longleftrightarrow> marked k' i))"

lemma redelivered_same [simp]: "redelivered k i i"
  by (auto simp: redelivered_def intro!: exI [of _ "lg_backends i"])

lemma redelivered_mark: "\<not> marked k i \<Longrightarrow> redelivered k i (i\<lparr>lg_backends := lg_backends i @ [k]\<rparr>)"
  by (auto simp: redelivered_def intro!: exI [of _ "lg_backends i @ [k]"])

definition world_only :: "'w log_state \<Rightarrow> 'w log_state \<Rightarrow> bool" where
  "world_only s s' \<longleftrightarrow> (\<exists>g w. s' = s\<lparr>ls_g := g, ls_world := w\<rparr>)"

lemma world_only_refl [simp]: "world_only s s"
  by (auto simp: world_only_def intro!: exI [of _ "ls_g s"] exI [of _ "ls_world s"])

lemma world_only_trans: "world_only s s1 \<Longrightarrow> world_only s1 s2 \<Longrightarrow> world_only s s2"
  unfolding world_only_def by (elim exE) (simp, blast)

lemma world_only_parts:
  "world_only s s' \<Longrightarrow> ls_items s' = ls_items s \<and> ls_backends s' = ls_backends s \<and> ls_limit s' = ls_limit s \<and>
     ls_cur s' = ls_cur s \<and> ls_next s' = ls_next s \<and> log_inv s' = log_inv s"
  by (auto simp: world_only_def)

lemma log_alloc_world: "log_alloc s = (ok, s') \<Longrightarrow> world_only s s'"
  by (cases "galloc (ls_g s)") (auto simp: log_alloc_def world_only_def intro!: exI [of _ "ls_world s"])

lemma on_backend_world: "on_backend f s = Some (r, s') \<Longrightarrow> world_only s s'"
  by (auto simp: on_backend_def world_only_def bind_eq_Some_conv)

lemma write_to_result:
  assumes "log_item_write_to b force i s = Some ((ret, i'), s')"
  shows "redelivered (lb_id (fst b)) i i' \<and> world_only s s' \<and>
    (if ret < 0 then marked (lb_id (fst b)) i' = marked (lb_id (fst b)) i else marked (lb_id (fst b)) i')"
proof (cases "marked (lb_id (fst b)) i")
  case True
  then show ?thesis
    using assms
    by (auto simp: log_item_write_to_def log_item_was_flushed_to_def Let_def log_backend_write_def bind_eq_Some_conv
        split: if_splits dest: on_backend_world)
next
  case False
  obtain ok s1 where a: "log_alloc s = (ok, s1)" by (metis prod.exhaust)
  show ?thesis
    using assms False a log_alloc_world [OF a]
    by (auto simp: log_item_write_to_def log_item_was_flushed_to_def Let_def log_backend_write_def bind_eq_Some_conv
        remove1_append redelivered_mark split: if_splits dest!: on_backend_world intro: world_only_trans)
qed

definition redelivered_all :: "nat \<Rightarrow> log_item list \<Rightarrow> log_item list \<Rightarrow> bool" where
  "redelivered_all k = list_all2 (redelivered k)"

lemma redelivered_other: "redelivered k i i' \<Longrightarrow> k' \<noteq> k \<Longrightarrow> marked k' i' = marked k' i"
  by (auto simp: redelivered_def)

lemma redelivered_all_marks: "redelivered_all k is is' \<Longrightarrow> k' \<noteq> k \<Longrightarrow> map (marked k') is' = map (marked k') is"
  unfolding redelivered_all_def by (induction rule: list_all2_induct) (auto simp: redelivered_other)

lemma in_order_map: "in_order k is = sorted_wrt (\<lambda>x y. y \<longrightarrow> x) (map (marked k) is)"
  by (simp add: in_order_def sorted_wrt_map)

lemma redelivered_all_order:
  assumes "redelivered_all k is is'" "k' \<noteq> k"
  shows "in_order k' is' = in_order k' is"
  unfolding in_order_map redelivered_all_marks [OF assms] ..

lemma write_items_result:
  assumes "write_items b force is s = Some (is', s')" "in_order (lb_id (fst b)) is"
  shows "redelivered_all (lb_id (fst b)) is is' \<and> in_order (lb_id (fst b)) is' \<and> world_only s s'"
  using assms
proof (induction "is" arbitrary: s is')
  case Nil
  then show ?case by (simp add: redelivered_all_def)
next
  case (Cons i "is")
  let ?k = "lb_id (fst b)"
  obtain ret i' s1 where w: "log_item_write_to b force i s = Some ((ret, i'), s1)"
    and r: "(if ret < 0 then Some (i' # is, s1) else do { (is, s) \<leftarrow> write_items b force is s1; Some (i' # is, s) }) = Some (is', s')"
    using Cons.prems(1) by (auto simp: bind_eq_Some_conv)
  note x = write_to_result [OF w]
  show ?case
  proof (cases "ret < 0")
    case True
    then show ?thesis using r x Cons.prems(2)
      by (auto simp: redelivered_all_def list_all2_same)
  next
    case False
    then obtain is1 where "write_items b force is s1 = Some (is1, s')" "is' = i' # is1"
      using r by (auto simp: bind_eq_Some_conv)
    with Cons.IH [OF this(1)] Cons.prems(2) x False show ?thesis
      by (auto simp: redelivered_all_def intro: world_only_trans)
  qed
qed

text \<open>The items after a delivery to any of the backends.\<close>

definition like_item :: "nat \<Rightarrow> log_item \<Rightarrow> log_item \<Rightarrow> bool" where
  "like_item n i i' \<longleftrightarrow> (item_ok n i \<longrightarrow> item_ok n i') \<and> lg_size i' = lg_size i \<and> lg_flushed i' = lg_flushed i"

definition delivered :: "nat \<Rightarrow> log_item list \<Rightarrow> log_item list \<Rightarrow> bool" where
  "delivered n is is' \<longleftrightarrow> list_all2 (like_item n) is is' \<and> ((\<forall>k. in_order k is) \<longrightarrow> (\<forall>k. in_order k is'))"

lemma like_item_trans: "like_item n i i1 \<Longrightarrow> like_item n i1 i2 \<Longrightarrow> like_item n i i2"
  by (simp add: like_item_def)

lemma delivered_refl [simp]: "delivered n is is"
  by (simp add: delivered_def list_all2_same like_item_def)

lemma delivered_trans: "delivered n is is1 \<Longrightarrow> delivered n is1 is2 \<Longrightarrow> delivered n is is2"
  unfolding delivered_def using list_all2_trans [of "like_item n" "like_item n" "like_item n" "is" is1 is2]
  by (auto intro: like_item_trans)

lemma redelivered_ok: "redelivered k i i' \<Longrightarrow> k < n \<Longrightarrow> item_ok n i \<Longrightarrow> item_ok n i'"
  unfolding redelivered_def item_ok_def by (elim exE conjE) (simp, metis)

lemma redelivered_like: "redelivered k i i' \<Longrightarrow> k < n \<Longrightarrow> like_item n i i'"
  using redelivered_ok [of k i i' n] by (auto simp: like_item_def redelivered_def)

lemma write_items_delivered:
  assumes "write_items b force is s = Some (is', s')" "\<forall>k. in_order k is" "lb_id (fst b) < n"
  shows "delivered n is is' \<and> world_only s s'"
proof -
  let ?k = "lb_id (fst b)"
  have r: "redelivered_all ?k is is'" "in_order ?k is'" "world_only s s'"
    using write_items_result [OF assms(1)] assms(2) by simp_all
  have "in_order k is'" for k
    using r(2) redelivered_all_order [OF r(1), of k] assms(2) by (cases "k = ?k") simp_all
  moreover have "list_all2 (like_item n) is is'"
    using r(1) unfolding redelivered_all_def
    by (rule list_all2_mono) (auto intro: redelivered_like assms(3))
  ultimately show ?thesis using r(3) by (simp add: delivered_def)
qed

lemma write_backends_delivered:
  assumes "write_backends bs force is s = Some (is', s')" "\<forall>k. in_order k is" "\<forall>k \<in> set (backend_ids bs). k < n"
  shows "delivered n is is' \<and> world_only s s'"
  using assms
proof (induction bs arbitrary: "is" s)
  case (Cons b bs)
  then obtain is1 s1 where w: "write_items b force is s = Some (is1, s1)" "write_backends bs force is1 s1 = Some (is', s')"
    by (auto simp: bind_eq_Some_conv)
  from write_items_delivered [OF w(1) Cons.prems(2), of n] Cons.prems(3)
  have d: "delivered n is is1" "world_only s s1" by simp_all
  then have "\<forall>k. in_order k is1" using Cons.prems(2) by (simp add: delivered_def)
  from Cons.IH [OF w(2) this] Cons.prems(3) d show ?case by (auto intro: delivered_trans world_only_trans)
qed simp

section \<open>The flushes\<close>

lemma recount_total:
  assumes "\<forall>i \<in> set is. item_ok n i" "0 \<le> c" "c + total_log is < SIZE_MOD"
  shows "foldl (\<lambda>cur i. (cur + lg_size i) mod SIZE_MOD) c is = c + total_log is"
  using assms
proof (induction "is" arbitrary: c)
  case (Cons i "is")
  have "0 \<le> total_log is" using total_nonneg [of "is" n] Cons.prems(1) by simp
  then have "(c + lg_size i) mod SIZE_MOD = c + lg_size i" "0 \<le> c + lg_size i"
    using Cons.prems by (simp_all add: item_ok_def SIZE_MOD_def)
  then show ?case using Cons by simp
qed simp

lemma recount_same: "log_inv s \<Longrightarrow> recount s = s"
  using recount_total [of "ls_items s" "ls_next s" 0] by (simp add: log_inv_def recount_def)

lemma set_flushed_parts [simp]:
  "lg_flushed (set_flushed bs i) = log_item_is_fully_flushed bs i" "lg_backends (set_flushed bs i) = lg_backends i" "lg_size (set_flushed bs i) = lg_size i"
  "item_ok n (set_flushed bs i) = item_ok n i"
  "log_item_is_fully_flushed bs' (set_flushed bs i) = log_item_is_fully_flushed bs' i"
  by (simp_all add: set_flushed_def item_ok_def log_item_is_fully_flushed_def log_item_was_flushed_to_def)

lemma in_order_set_flushed [simp]: "in_order k (map (set_flushed bs) is) = in_order k is"
  by (simp add: in_order_map comp_def)

lemma total_set_flushed [simp]: "total_log (map (set_flushed bs) is) = total_log is"
  by (simp add: total_log_def comp_def)

lemma delivered_total: "delivered n is is' \<Longrightarrow> total_log is' = total_log is"
proof -
  assume "delivered n is is'"
  then have "list_all2 (like_item n) is is'" by (simp add: delivered_def)
  then show ?thesis by (induction rule: list_all2_induct) (auto simp: like_item_def)
qed

lemma delivered_ok: "delivered n is is' \<Longrightarrow> \<forall>i \<in> set is. item_ok n i \<Longrightarrow> \<forall>i \<in> set is'. item_ok n i"
  by (auto simp: delivered_def like_item_def list_all2_conv_all_nth all_set_conv_all_nth)

lemma flush_all_inv:
  assumes "log_flush_all force s = Some s'" "log_inv s"
  shows "log_inv s' \<and> ls_limit s' = ls_limit s \<and> ls_cur s' = ls_cur s \<and> ls_next s' = ls_next s \<and> ls_backends s' = ls_backends s"
proof -
  obtain "is" s1 where w: "write_backends (ls_backends s) force (ls_items s) s = Some (is, s1)"
    and s': "s' = s1\<lparr>ls_items := map (set_flushed (ls_backends s1)) is\<rparr>"
    using assms by (auto simp: log_flush_all_def recount_same bind_eq_Some_conv)
  have d: "delivered (ls_next s) (ls_items s) is" "world_only s s1"
    using write_backends_delivered [OF w, of "ls_next s"] assms(2) by (simp_all add: log_inv_def)
  note p = world_only_parts [OF d(2)]
  have "log_inv s1" using p assms(2) by simp
  then have "log_inv (s1\<lparr>ls_items := map (set_flushed (ls_backends s1)) is, ls_cur := total_log (map (set_flushed (ls_backends s1)) is)\<rparr>)"
    using d(1) delivered_total [OF d(1)] delivered_ok [OF d(1)] assms(2) p
    by (intro log_inv_items) (auto simp: log_inv_def delivered_def)
  then show ?thesis using s' p delivered_total [OF d(1)] assms(2) by (simp add: log_inv_def)
qed

subsection \<open>The fast flush\<close>

text \<open>Items that a backend has got are passed over.\<close>

lemma write_items_skip:
  assumes "\<forall>i \<in> set xs. marked (lb_id (fst b)) i"
  shows "write_items b False (xs @ ys) s = map_option (\<lambda>(is, s). (xs @ is, s)) (write_items b False ys s)"
  using assms
proof (induction xs)
  case Nil
  then show ?case by (cases "write_items b False ys s") auto
next
  case (Cons x xs)
  then have "log_item_write_to b False x s = Some ((0, x), s)"
    by (simp add: log_item_write_to_def log_item_was_flushed_to_def)
  then show ?case using Cons by (cases "write_items b False ys s") auto
qed

lemma write_backends_skip:
  assumes "\<forall>b \<in> set bs. \<forall>i \<in> set xs. marked (lb_id (fst b)) i"
  shows "write_backends bs False (xs @ ys) s = map_option (\<lambda>(is, s). (xs @ is, s)) (write_backends bs False ys s)"
  using assms
proof (induction bs arbitrary: ys s)
  case (Cons b bs)
  then show ?case
    by (cases "write_items b False ys s") (auto simp: write_items_skip)
qed simp

lemma write_backends_nil: "write_backends bs force [] s = Some ([], s)"
  by (induction bs) simp_all

lemma unflushed_split:
  obtains xs where "is = xs @ unflushed is" "xs \<noteq> [] \<Longrightarrow> lg_flushed (last xs)"
proof -
  have "rev is = takeWhile (\<lambda>i. \<not> lg_flushed i) (rev is) @ dropWhile (\<lambda>i. \<not> lg_flushed i) (rev is)" by simp
  then have "is = rev (dropWhile (\<lambda>i. \<not> lg_flushed i) (rev is)) @ unflushed is"
    unfolding unflushed_def rev_append [symmetric] by (metis rev_rev_ident)
  moreover have "lg_flushed (last (rev (dropWhile (\<lambda>i. \<not> lg_flushed i) (rev is))))"
    if "rev (dropWhile (\<lambda>i. \<not> lg_flushed i) (rev is)) \<noteq> []"
    using that hd_dropWhile [of "\<lambda>i. \<not> lg_flushed i" "rev is"] by (simp add: last_rev)
  ultimately show ?thesis using that by blast
qed

text \<open>Everything before the unflushed items has been delivered to all backends.\<close>

lemma before_unflushed:
  assumes "log_inv s" "ls_items s = xs @ ys" "xs \<noteq> [] \<Longrightarrow> lg_flushed (last xs)" "i \<in> set xs" "b \<in> set (ls_backends s)"
  shows "marked (lb_id (fst b)) i"
proof -
  let ?k = "lb_id (fst b)"
  obtain zs z where z: "xs = zs @ [z]" using assms(4) by (cases xs rule: rev_cases) auto
  then have "z \<in> set (ls_items s)" "lg_flushed z" using assms(2,3) by auto
  then have "marked ?k z"
    using assms(1,5) by (auto simp: log_inv_def log_item_is_fully_flushed_def log_item_was_flushed_to_def)
  moreover have "in_order ?k (zs @ [z])" using assms(1,2) z by (simp add: log_inv_def in_order_append)
  ultimately show ?thesis using assms(4) z by (auto simp: in_order_append)
qed

lemma flush_fast_all:
  assumes "log_inv s"
  shows "log_flush_fast s = log_flush_all False s"
proof -
  obtain xs where xs: "ls_items s = xs @ unflushed (ls_items s)" "xs \<noteq> [] \<Longrightarrow> lg_flushed (last xs)"
    using unflushed_split by blast
  let ?ys = "unflushed (ls_items s)"
  have m: "\<forall>b \<in> set (ls_backends s). \<forall>i \<in> set xs. marked (lb_id (fst b)) i"
    using before_unflushed [OF assms xs] by blast
  have sf: "map (set_flushed (ls_backends s)) xs = xs"
  proof (rule map_idI)
    fix i assume "i \<in> set xs"
    then have "i \<in> set (ls_items s)" by (subst xs(1)) simp
    then show "set_flushed (ls_backends s) i = i"
      using assms by (simp add: log_inv_def set_flushed_def)
  qed
  have w: "write_backends (ls_backends s) False (ls_items s) s =
      map_option (\<lambda>(is, s). (xs @ is, s)) (write_backends (ls_backends s) False ?ys s)"
    by (subst xs(1)) (rule write_backends_skip [OF m])
  have n: "take (length (ls_items s) - length ?ys) (ls_items s) = xs"
    using xs(1) by (metis append_eq_conv_conj diff_add_inverse2 length_append)
  show ?thesis
  proof (cases "?ys = []")
    case True
    have "write_backends (ls_backends s) False xs s = Some (xs, s)"
      using write_backends_skip [OF m, of "[]"] write_backends_nil [of "ls_backends s"] by simp
    then show ?thesis using True xs(1) sf recount_same [OF assms]
      by (simp add: log_flush_fast_def log_flush_all_def)
  next
    case False
    show ?thesis
    proof (cases "write_backends (ls_backends s) False ?ys s")
      case None
      then show ?thesis using False w recount_same [OF assms]
        by (simp add: log_flush_fast_def log_flush_all_def)
    next
      case (Some r)
      obtain "is" s1 where r: "r = (is, s1)" by (cases r)
      have "in_order k ?ys" for k using assms xs(1) by (metis in_order_append log_inv_def)
      then have "world_only s s1"
        using write_backends_delivered [of "ls_backends s" False ?ys s "is" s1 "ls_next s"] Some r assms by (simp add: log_inv_def)
      note p = world_only_parts [OF this]
      show ?thesis using False w Some r recount_same [OF assms] sf n p
        by (simp add: log_flush_fast_def log_flush_all_def)
    qed
  qed
qed

section \<open>Printing and backends keep the invariant\<close>

lemma add_sizes_mono: "add_sizes ns c = Some t \<Longrightarrow> \<forall>n \<in> set ns. 0 \<le> n \<Longrightarrow> c \<le> t"
  by (induction ns arbitrary: c) (fastforce split: if_splits)+

lemma item_create_ok:
  assumes "log_item_create level tag file func lineno content now g = (Some i, g')"
  shows "item_ok n i \<and> lg_backends i = [] \<and> content = Some (lg_content i)"
  using assms add_sizes_mono [of "[opt_len tag, opt_len file, opt_len func, opt_len content, 4]" LOG_ITEM_SIZE]
  by (auto simp: log_item_create_def item_ok_def opt_len_def LOG_ITEM_SIZE_def Let_def
      simp del: add_sizes.simps split: option.splits if_splits prod.splits)

lemma print_inv:
  assumes "log_base_print level tag file func lineno content now s = Some s'" "log_inv s"
  shows "log_inv s' \<and> ls_limit s' = ls_limit s \<and> ls_backends s' = ls_backends s"
proof (cases "content = None")
  case True
  then show ?thesis using assms by (simp add: log_base_print_def)
next
  case False
  obtain item g where c: "log_item_create level tag file func lineno content now (ls_g s) = (item, g)" by (metis prod.exhaust)
  show ?thesis
  proof (cases item)
    case None
    then show ?thesis using assms False c by (auto simp: log_base_print_def Let_def)
  next
    case (Some i)
    obtain ok s1 where a: "log_append i (s\<lparr>ls_g := g\<rparr>) = (ok, s1)" by (metis prod.exhaust)
    note i = item_create_ok [OF c [unfolded Some]]
    have "log_inv (s\<lparr>ls_g := g\<rparr>)" using assms(2) by simp
    from append_accounts [OF this _ _ a] i have s1: "log_inv s1" "ls_limit s1 = ls_limit s" "ls_backends s1 = ls_backends s"
      by auto
    show ?thesis
    proof (cases ok)
      case True
      then have "log_flush_all False s1 = Some s'"
        using assms(1) False c Some a flush_fast_all [OF s1(1)] by (simp add: log_base_print_def Let_def)
      from flush_all_inv [OF this s1(1)] s1 show ?thesis by simp
    next
      case False
      then show ?thesis using assms(1) \<open>content \<noteq> None\<close> c Some a s1 by (simp add: log_base_print_def Let_def)
    qed
  qed
qed

lemma vprintf_inv:
  assumes "log_base_vprintf level tag file func lineno content now s = Some s'" "log_inv s"
  shows "log_inv s' \<and> ls_limit s' = ls_limit s \<and> ls_backends s' = ls_backends s"
proof -
  obtain ok g where a: "log_alloc s = (ok, s\<lparr>ls_g := g\<rparr>)" using log_alloc_frame by metis
  show ?thesis
    using assms a print_inv [where s = "s\<lparr>ls_g := g\<rparr>" and s' = s']
    by (auto simp: log_base_vprintf_def Let_def split: if_splits)
qed

subsection \<open>Removing a backend\<close>

lemma forget_inv:
  assumes "log_inv s"
  shows "log_inv (log_item_forget_backend k (s\<lparr>ls_backends := filter (\<lambda>b. lb_id (fst b) \<noteq> k) (ls_backends s)\<rparr>))"
    (is "log_inv ?s'")
proof -
  let ?bs = "filter (\<lambda>b. lb_id (fst b) \<noteq> k) (ls_backends s)"
  let ?f = "\<lambda>i. let i = i\<lparr>lg_backends := remove1 k (lg_backends i)\<rparr> in i\<lparr>lg_flushed := log_item_is_fully_flushed ?bs i\<rparr>"
  have items: "ls_items ?s' = map ?f (ls_items s)" by (simp add: log_item_forget_backend_def)
  have ok: "item_ok n i \<Longrightarrow> item_ok n (?f i)" for i n
    by (auto simp: item_ok_def Let_def dest: set_remove1_subset [THEN subsetD])
  have m: "marked k' (?f i) \<longleftrightarrow> k' \<noteq> k \<and> marked k' i" if "i \<in> set (ls_items s)" for i k'
    using assms that by (auto simp: log_inv_def item_ok_def Let_def set_remove1_eq)
  have o: "in_order k' (map ?f (ls_items s))" for k'
  proof (cases "k' = k")
    case True
    have "map (marked k' \<circ> ?f) (ls_items s) = map (\<lambda>_. False) (ls_items s)" using m True by (intro map_cong) auto
    then show ?thesis unfolding in_order_map map_map by (simp add: sorted_wrt_map sorted_wrt_iff_nth_less)
  next
    case False
    have e: "map (marked k' \<circ> ?f) (ls_items s) = map (marked k') (ls_items s)" using m False by (intro map_cong) auto
    have "in_order k' (ls_items s)" using assms by (simp add: log_inv_def)
    then show ?thesis unfolding in_order_map map_map e .
  qed
  have t: "total_log (map ?f (ls_items s)) = total_log (ls_items s)"
    by (simp add: total_log_def comp_def Let_def)
  have fl: "lg_flushed (?f i) = log_item_is_fully_flushed ?bs (?f i)" for i
    by (simp add: Let_def log_item_is_fully_flushed_def log_item_was_flushed_to_def)
  have "distinct (backend_ids ?bs)" using assms by (auto simp: log_inv_def distinct_map_filter)
  then show ?thesis
    using assms ok o t fl by (auto simp: log_inv_def log_item_forget_backend_def simp del: map_map)
qed

lemma deinit_world: "log_backend_deinit b s = Some (r, s') \<Longrightarrow> world_only s s'"
  by (auto simp: log_backend_deinit_def split: option.splits dest: on_backend_world)

lemma init_world: "log_backend_init b s = Some (r, s') \<Longrightarrow> world_only s s'"
  by (auto simp: log_backend_init_def split: option.splits dest: on_backend_world)

lemma destroy_inv:
  assumes "log_backend_destroy b s = Some s'" "log_inv s"
  shows "log_inv s' \<and> lb_id (fst b) \<notin> set (backend_ids (ls_backends s'))"
proof -
  let ?k = "lb_id (fst b)"
  let ?s = "log_item_forget_backend ?k (s\<lparr>ls_backends := filter (\<lambda>b. lb_id (fst b) \<noteq> ?k) (ls_backends s)\<rparr>)"
  have "world_only ?s s'" using assms(1) by (auto simp: log_backend_destroy_def Let_def bind_eq_Some_conv dest: deinit_world)
  note p = world_only_parts [OF this]
  then show ?thesis using forget_inv [OF assms(2), of ?k] by (auto simp: log_item_forget_backend_def)
qed

subsection \<open>Adding a backend\<close>

lemma flush_items_write:
  assumes "flush_items b force is s = Some (is', s')"
  shows "\<exists>us vs zs. is = us @ zs \<and> write_items b force is s = Some (vs @ zs, s') \<and>
    is' = map (set_flushed (ls_backends s)) vs @ zs \<and> length us = length vs"
  using assms
proof (induction "is" arbitrary: s is')
  case Nil
  then show ?case by simp
next
  case (Cons i "is")
  obtain ret i' s1 where w: "log_item_write_to b force i s = Some ((ret, i'), s1)"
    and r: "(if ret < 0 then Some (set_flushed (ls_backends s1) i' # is, s1)
      else do { (is, s) \<leftarrow> flush_items b force is s1; Some (set_flushed (ls_backends s1) i' # is, s) }) = Some (is', s')"
    using Cons.prems by (auto simp: log_flush_one_to_def bind_eq_Some_conv)
  have bs: "ls_backends s1 = ls_backends s" using write_to_result [OF w] world_only_parts by blast
  show ?case
  proof (cases "ret < 0")
    case True
    then show ?thesis using r w bs
      by (intro exI [of _ "[i]"] exI [of _ "[i']"] exI [of _ "is"]) auto
  next
    case False
    then obtain is1 where f: "flush_items b force is s1 = Some (is1, s')" "is' = set_flushed (ls_backends s1) i' # is1"
      using r by (auto simp: bind_eq_Some_conv)
    from Cons.IH [OF f(1)] obtain us vs zs where "is = us @ zs" "write_items b force is s1 = Some (vs @ zs, s')"
      "is1 = map (set_flushed (ls_backends s1)) vs @ zs" "length us = length vs" by blast
    then show ?thesis using w False f(2) bs
      by (intro exI [of _ "i # us"] exI [of _ "i' # vs"] exI [of _ zs]) auto
  qed
qed

lemma flush_to_inv:
  assumes "log_flush_to b force s = Some s'" "log_inv s" "lb_id (fst b) < ls_next s"
  shows "log_inv s' \<and> ls_backends s' = ls_backends s \<and> ls_limit s' = ls_limit s \<and> ls_next s' = ls_next s"
proof -
  obtain is1 s1 where f: "flush_items b force (ls_items s) s = Some (is1, s1)" and s': "s' = s1\<lparr>ls_items := is1\<rparr>"
    using assms(1,2) by (auto simp: log_flush_to_def recount_same bind_eq_Some_conv)
  obtain us vs zs where x: "ls_items s = us @ zs" "write_items b force (ls_items s) s = Some (vs @ zs, s1)"
    "is1 = map (set_flushed (ls_backends s)) vs @ zs"
    using flush_items_write [OF f] by blast
  have d: "delivered (ls_next s) (ls_items s) (vs @ zs)" "world_only s s1"
    using write_items_delivered [OF x(2), of "ls_next s"] assms(2,3) by (simp_all add: log_inv_def)
  note p = world_only_parts [OF d(2)]
  have t: "total_log is1 = total_log (ls_items s)" using delivered_total [OF d(1)] x(3) by simp
  have "log_inv (s1\<lparr>ls_items := is1, ls_cur := total_log is1\<rparr>)"
  proof (rule log_inv_items)
    show "log_inv s1" using p assms(2) by simp
    show "\<forall>i \<in> set is1. item_ok (ls_next s1) i"
      using delivered_ok [OF d(1)] assms(2) p x(3) by (auto simp: log_inv_def)
    show "total_log is1 < SIZE_MOD" using t assms(2) by (simp add: log_inv_def)
    show "in_order k is1" for k
      using d(1) assms(2) x(3) by (auto simp: log_inv_def delivered_def in_order_append)
    show "\<forall>i \<in> set is1. lg_flushed i = log_item_is_fully_flushed (ls_backends s1) i"
      using assms(2) x(1,3) p by (auto simp: log_inv_def)
  qed
  moreover have "ls_cur s1 = total_log is1" using t p assms(2) by (simp add: log_inv_def)
  ultimately show ?thesis using s' p by (metis log_state.surjective log_state.update_convs(1) log_state.update_convs(4) log_state.select_convs)
qed

lemma add_backend_inv:
  assumes "log_inv s" "lb_id (fst b) < ls_next s" "lb_id (fst b) \<notin> set (backend_ids (ls_backends s))"
    "\<forall>i \<in> set (ls_items s). \<not> marked (lb_id (fst b)) i"
  shows "log_inv (log_item_invalidate_flush_state (s\<lparr>ls_backends := ls_backends s @ [b]\<rparr>))"
proof -
  have "in_order k (map (\<lambda>i. i\<lparr>lg_flushed := False\<rparr>) (ls_items s))" for k
    using assms(1) by (simp add: in_order_map comp_def log_inv_def)
  moreover have "total_log (map (\<lambda>i. i\<lparr>lg_flushed := False\<rparr>) (ls_items s)) = total_log (ls_items s)"
    by (simp add: total_log_def comp_def)
  ultimately show ?thesis
    using assms
    by (auto simp: log_inv_def log_item_invalidate_flush_state_def item_ok_def log_item_is_fully_flushed_def log_item_was_flushed_to_def)
qed

text \<open>A number that is taken and not used yet.\<close>

definition fresh_backend :: "nat \<Rightarrow> 'w log_state \<Rightarrow> bool" where
  "fresh_backend k s \<longleftrightarrow> log_inv s \<and> k < ls_next s \<and> k \<notin> set (backend_ids (ls_backends s)) \<and>
     (\<forall>i \<in> set (ls_items s). \<not> marked k i)"

lemma fresh_backend_world: "world_only s s' \<Longrightarrow> fresh_backend k s \<Longrightarrow> fresh_backend k s'"
  using world_only_parts [of s s'] by (simp add: fresh_backend_def)

lemma fresh_backend_next: "log_inv s \<Longrightarrow> fresh_backend (ls_next s) (s\<lparr>ls_g := g, ls_next := Suc (ls_next s)\<rparr>)"
  by (fastforce simp: fresh_backend_def log_inv_def item_ok_def less_Suc_eq)

lemma create_fail_inv: "create_fail b s = Some (r, s') \<Longrightarrow> log_inv s \<Longrightarrow> log_inv s'"
  using destroy_inv [of b s] by (auto simp: create_fail_def bind_eq_Some_conv)

lemma announce_inv:
  assumes "announce_backend here now b s = Some (r, s')" "fresh_backend (lb_id (fst b)) s"
  shows "log_inv s'"
proof -
  let ?s = "log_item_invalidate_flush_state (s\<lparr>ls_backends := ls_backends s @ [b]\<rparr>)"
  obtain s1 where f: "log_flush_to b False ?s = Some s1"
    and v: "\<exists>text. log_base_vprintf LOG_INFO (Some ''log_backend_create'') (Some here) (Some ''log_backend_create'') 102 text now s1 = Some s'"
    using assms(1) by (auto simp: announce_backend_def bind_eq_Some_conv)
  have "log_inv ?s" using assms(2) by (intro add_backend_inv) (auto simp: fresh_backend_def)
  moreover have "lb_id (fst b) < ls_next ?s"
    using assms(2) by (simp add: fresh_backend_def log_item_invalidate_flush_state_def)
  ultimately have "log_inv s1" using flush_to_inv [OF f] by blast
  then show ?thesis using v vprintf_inv by blast
qed

lemma start_inv:
  assumes "start_backend here now b s = Some (r, s')" "fresh_backend (lb_id (fst b)) s"
  shows "log_inv s'"
proof -
  obtain ret s1 where i: "log_backend_init b s = Some (ret, s1)"
    and r: "(if ret < 0 then create_fail b s1
      else let (ok, s) = log_alloc s1
           in if \<not> ok then create_fail b s else announce_backend here now b s) = Some (r, s')"
    using assms(1) by (auto simp: start_backend_def bind_eq_Some_conv)
  obtain ok s2 where a: "log_alloc s1 = (ok, s2)" by (metis prod.exhaust)
  note f1 = fresh_backend_world [OF init_world [OF i] assms(2)]
  note f2 = fresh_backend_world [OF log_alloc_world [OF a] f1]
  show ?thesis using r a create_fail_inv [of b _ r s'] announce_inv [OF _ f2] f1 f2
    by (auto simp: fresh_backend_def split: if_splits)
qed

lemma create_inv:
  assumes "log_backend_create here now base name config s = Some (r, s')" "log_inv s"
  shows "log_inv s'"
proof -
  obtain ok1 g1 where a1: "log_alloc s = (ok1, s\<lparr>ls_g := g1\<rparr>)" using log_alloc_frame by metis
  show ?thesis
  proof (cases ok1)
    case False
    then show ?thesis using assms a1 by (auto simp: log_backend_create_def)
  next
    case True
    let ?s1 = "s\<lparr>ls_g := g1, ls_next := Suc (ls_next s)\<rparr>"
    let ?b = "(\<lparr>lb_id = ls_next s, lb_name = (case name of None \<Rightarrow> bb_name base @ ''-'' @ int_dec (int (length (ls_backends s)) + 1)
      | Some n \<Rightarrow> n), lb_config = config\<rparr>, base)"
    obtain ok2 s2 where a2: "log_alloc ?s1 = (ok2, s2)" by (metis prod.exhaust)
    obtain ok3 s3 where a3: "(if bb_ctx_size base > 0 then log_alloc s2 else (True, s2)) = (ok3, s3)" by (metis prod.exhaust)
    have r: "(if \<not> ok2 then create_fail ?b s2
        else if \<not> ok3 then create_fail ?b s3 else start_backend here now ?b s3) = Some (r, s')"
      using assms(1) a1 True a2 a3
      by (cases "bb_ctx_size base > 0"; cases ok2; cases ok3) (simp_all add: log_backend_create_def Let_def cong: option.case_cong)
    have f1: "fresh_backend (lb_id (fst ?b)) ?s1" using fresh_backend_next [OF assms(2)] by simp
    have f2: "fresh_backend (lb_id (fst ?b)) s2" by (rule fresh_backend_world [OF log_alloc_world [OF a2] f1])
    have f3: "fresh_backend (lb_id (fst ?b)) s3"
      using a3 f2 fresh_backend_world [OF log_alloc_world, of s2 ok3 s3] by (auto split: if_splits)
    show ?thesis
    proof (cases "ok2 \<and> ok3")
      case True
      then show ?thesis using r start_inv [OF _ f3] by simp
    next
      case False
      then have "create_fail ?b (if ok2 then s3 else s2) = Some (r, s')" using r by (auto split: if_splits)
      then show ?thesis using f2 f3 by (auto simp: fresh_backend_def dest: create_fail_inv split: if_splits)
    qed
  qed
qed

end
