(* ===== verification/LogText.thy ===== *)
theory LogText
  imports Log FileUtils
begin

text \<open>
  What the backends of the log do, from \<open>src/log\<close>: the text of an item (\<open>format.c\<close>), the filter (\<open>filter.c\<close>), the
  backends that write to a descriptor and to a file (\<open>backends/stdio.c\<close>, \<open>backends/file.c\<close>), and the backends of the
  configuration (\<open>backend.c\<close>, \<open>base.c\<close>).
\<close>

section \<open>format.c\<close>

definition DEFAULT_LOG_FORMAT :: cstring where
  "DEFAULT_LOG_FORMAT = ''[%l] %t: %m''"

text \<open>Where a formatter takes its value from: the offset and the width of the field are the function that reads it.\<close>

datatype log_format_specifier =
  LOG_FMT_STRING "log_item \<Rightarrow> cstring option"
| LOG_FMT_UINT "log_item \<Rightarrow> nat"
| LOG_FMT_SINT "log_item \<Rightarrow> int"
| LOG_FMT_LOG_LEVEL "log_item \<Rightarrow> log_level"

definition default_formatters :: "(char \<times> log_format_specifier) list" where
  "default_formatters =
     [(CHR ''%'', LOG_FMT_STRING (\<lambda>_. Some ''%'')),
      (CHR ''l'', LOG_FMT_LOG_LEVEL lg_level),
      (CHR ''t'', LOG_FMT_STRING lg_tag),
      (CHR ''f'', LOG_FMT_STRING lg_file),
      (CHR ''F'', LOG_FMT_STRING lg_function),
      (CHR ''L'', LOG_FMT_SINT lg_lineno),
      (CHR ''m'', LOG_FMT_STRING (\<lambda>i. Some (lg_content i))),
      (CHR ''Y'', LOG_FMT_UINT (\<lambda>i. et_year (lg_time i))),
      (CHR ''M'', LOG_FMT_UINT (\<lambda>i. et_month (lg_time i))),
      (CHR ''D'', LOG_FMT_UINT (\<lambda>i. et_day (lg_time i))),
      (CHR ''h'', LOG_FMT_UINT (\<lambda>i. et_hour (lg_time i))),
      (CHR ''i'', LOG_FMT_UINT (\<lambda>i. et_minute (lg_time i))),
      (CHR ''s'', LOG_FMT_UINT (\<lambda>i. et_second (lg_time i))),
      (CHR ''S'', LOG_FMT_UINT (\<lambda>i. et_nanosecond (lg_time i)))]"

definition resolve_specifier :: "log_format_specifier \<Rightarrow> log_item \<Rightarrow> cstring" where
  "resolve_specifier fmt item =
     (case fmt of
        LOG_FMT_STRING f \<Rightarrow> (case f item of None \<Rightarrow> ''(null)'' | Some v \<Rightarrow> v)
      | LOG_FMT_UINT f \<Rightarrow> nat_dec (f item)
      | LOG_FMT_SINT f \<Rightarrow> int_dec (f item)
      | LOG_FMT_LOG_LEVEL f \<Rightarrow> log_level_str (f item))"

definition apply_specifier :: "log_item \<Rightarrow> char \<Rightarrow> cstring option" where
  "apply_specifier item spec = map_option (\<lambda>f. resolve_specifier f item) (map_of default_formatters spec)"

text \<open>The result so far, without its terminator, and the capacity of its buffer.\<close>

record format_buffer =
  fb_text :: cstring
  fb_cap :: int

partial_function (option) grow_cap :: "int \<Rightarrow> int \<Rightarrow> int option" where
  "grow_cap required new_cap =
     (if \<not> new_cap < required then Some new_cap
      else if new_cap > (SIZE_MOD - 1) div 2 then Some required
      else grow_cap required (new_cap * 2))"

definition append_value ::
  "format_buffer \<Rightarrow> cstring \<Rightarrow> embloader \<Rightarrow> ((bool \<times> format_buffer) \<times> embloader) option" where
  "append_value b val g =
     (let len = int (length (fb_text b)); value_len = int (length val) in
      if value_len \<ge> SIZE_MOD - 1 - len then Some ((False, b), g)
      else let required = len + value_len + 1 in
      if required > fb_cap b then do {
        new_cap \<leftarrow> grow_cap required (fb_cap b);
        let (ok, g) = galloc g in
        Some (if ok then ((True, \<lparr>fb_text = fb_text b @ val, fb_cap = new_cap\<rparr>), g) else ((False, b), g))
      }
      else Some ((True, b\<lparr>fb_text := fb_text b @ val\<rparr>), g))"

text \<open>The loop over the format.\<close>

fun format_loop :: "log_item \<Rightarrow> cstring \<Rightarrow> format_buffer \<Rightarrow> embloader \<Rightarrow> ((bool \<times> format_buffer) \<times> embloader) option" where
  "format_loop item [] b g = Some ((True, b), g)"
| "format_loop item [c] b g = append_value b [c] g"
| "format_loop item (c # d # p) b g =
     (if c = CHR ''%'' then do {
        ((ok, b), g) \<leftarrow> append_value b (case apply_specifier item d of None \<Rightarrow> [CHR ''%'', d] | Some v \<Rightarrow> v) g;
        (if ok then format_loop item p b g else Some ((False, b), g))
      }
      else do {
        ((ok, b), g) \<leftarrow> append_value b [c] g;
        (if ok then format_loop item (d # p) b g else Some ((False, b), g))
      })"

definition log_line_end :: "int \<Rightarrow> cstring" where
  "log_line_end crlf = (if crlf > 1 then [CHR 0x0D, CHR 0x0A] else [CHR 0x0A])"

definition log_formatter :: "log_item \<Rightarrow> cstring option \<Rightarrow> int \<Rightarrow> embloader \<Rightarrow> (cstring option \<times> embloader) option" where
  "log_formatter item format crlf g =
     (let fmt = (case format of None \<Rightarrow> DEFAULT_LOG_FORMAT | Some f \<Rightarrow> f); (ok, g) = galloc g in
      if \<not> ok then Some (None, g)
      else do {
        ((ok, b), g) \<leftarrow> format_loop item fmt \<lparr>fb_text = [], fb_cap = 256\<rparr> g;
        (if \<not> ok then Some (None, g)
         else if crlf > 0 then do {
           ((ok, b), g) \<leftarrow> append_value b (log_line_end crlf) g;
           Some (if ok then Some (fb_text b) else None, g)
         }
         else Some (Some (fb_text b), g))
      })"

section \<open>filter.c\<close>

definition confignode_path_get_log_level ::
  "ptr \<Rightarrow> cstring \<Rightarrow> log_level \<Rightarrow> cstate \<Rightarrow> ((log_level \<times> bool) \<times> cstate) option" where
  "confignode_path_get_log_level node path def s =
     (if node = None then Some ((def, False), s)
      else do {
        ((str, vok), s) \<leftarrow> confignode_path_get_string node (Some path) None s;
        Some (if str = None then (def, False)
              else (case log_level_from_str str of None \<Rightarrow> def | Some l \<Rightarrow> l, vok), s)
      })"

text \<open>
  \<open>log_check_regex_filter\<close> for a node, and its loop over the elements of an array. The regular expressions of the
  bundled library are the parameter \<open>regexp\<close>: a pattern, a string, and the result.
\<close>

partial_function (option) regex_walk ::
  "(cstring \<Rightarrow> cstring \<Rightarrow> int) \<Rightarrow> cstring \<Rightarrow> ptr + citer \<Rightarrow> cstate \<Rightarrow> bool option" where
  "regex_walk regexp val x s =
     (case x of
        Inl config \<Rightarrow> do {
          isarr \<leftarrow> confignode_is_type config TYPE_ARRAY s;
          (if isarr then do {
             it \<leftarrow> confignode_iter_start_ret config s;
             regex_walk regexp val (Inr it) s
           }
           else do {
             isval \<leftarrow> confignode_is_type config TYPE_VALUE s;
             (if \<not> isval then Some True
              else do {
                (pattern, _) \<leftarrow> confignode_value_get_string config None s;
                Some (case pattern of None \<Rightarrow> True | Some p \<Rightarrow> regexp p val \<noteq> 1)
              })
           })
        }
      | Inr it \<Rightarrow>
          if it_node it = None then Some True
          else do {
            pass \<leftarrow> regex_walk regexp val (Inl (it_node it)) s;
            (if \<not> pass then Some False
             else do {
               (_, it) \<leftarrow> confignode_iter_next it s;
               regex_walk regexp val (Inr it) s
             })
          })"

definition log_check_regex_filter ::
  "(cstring \<Rightarrow> cstring \<Rightarrow> int) \<Rightarrow> cstring option \<Rightarrow> ptr \<Rightarrow> cstate \<Rightarrow> bool option" where
  "log_check_regex_filter regexp val config s =
     (case val of None \<Rightarrow> Some True | Some v \<Rightarrow> regex_walk regexp v (Inl config) s)"

definition log_check_regex_filter_path ::
  "(cstring \<Rightarrow> cstring \<Rightarrow> int) \<Rightarrow> cstring option \<Rightarrow> ptr \<Rightarrow> cstring \<Rightarrow> cstate \<Rightarrow> (bool \<times> cstate) option" where
  "log_check_regex_filter_path regexp val config path s = do {
     (n, s) \<leftarrow> confignode_path_lookup config (Some path) False s;
     (if n = None then Some (True, s)
      else do { pass \<leftarrow> log_check_regex_filter regexp val n s; Some (pass, s) })
   }"

text \<open>The place of an item as the filter \<open>line\<close> sees it: \<open>snprintf\<close> into a buffer of 1023 bytes.\<close>

definition item_line :: "log_item \<Rightarrow> cstring" where
  "item_line item = take 1022 ((case lg_file item of None \<Rightarrow> ''(null)'' | Some f \<Rightarrow> f) @ '':'' @ int_dec (lg_lineno item))"

fun level_rank :: "log_level \<Rightarrow> nat" where
  "level_rank LOG_DEBUG = 0"
| "level_rank LOG_INFO = 1"
| "level_rank LOG_WARNING = 2"
| "level_rank LOG_ERROR = 3"

text \<open>The filters of the fields in their order, until one rejects the item.\<close>

fun field_filters ::
  "(cstring \<Rightarrow> cstring \<Rightarrow> int) \<Rightarrow> ptr \<Rightarrow> (cstring option \<times> cstring) list \<Rightarrow> cstate \<Rightarrow> (bool \<times> cstate) option" where
  "field_filters regexp config [] s = Some (True, s)"
| "field_filters regexp config ((val, path) # fs) s = do {
     (pass, s) \<leftarrow> log_check_regex_filter_path regexp val config path s;
     (if pass then field_filters regexp config fs s else Some (False, s))
   }"

definition line_filter :: "(cstring \<Rightarrow> cstring \<Rightarrow> int) \<Rightarrow> log_item \<Rightarrow> ptr \<Rightarrow> cstate \<Rightarrow> (bool \<times> cstate) option" where
  "line_filter regexp item config s = do {
     (n, s) \<leftarrow> confignode_path_lookup config (Some ''line'') False s;
     (if n = None then Some (True, s)
      else do {
        (n, s) \<leftarrow> confignode_path_lookup config (Some ''line'') False s;
        pass \<leftarrow> log_check_regex_filter regexp (Some (item_line item)) n s;
        Some (pass, s)
      })
   }"

definition log_check_filter :: "(cstring \<Rightarrow> cstring \<Rightarrow> int) \<Rightarrow> log_item \<Rightarrow> ptr \<Rightarrow> cstate \<Rightarrow> (bool \<times> cstate) option" where
  "log_check_filter regexp item config s =
     (if config = None then Some (True, s)
      else do {
        ((level, ok), s) \<leftarrow> confignode_path_get_log_level config ''min-level'' LOG_DEBUG s;
        (if ok \<and> level_rank level > level_rank (lg_level item) then Some (False, s)
         else do {
           ((level, ok), s) \<leftarrow> confignode_path_get_log_level config ''max-level'' LOG_ERROR s;
           (if ok \<and> level_rank level < level_rank (lg_level item) then Some (False, s)
            else do {
              (pass, s) \<leftarrow> field_filters regexp config
                [(lg_tag item, ''tag''), (lg_file item, ''file''), (lg_function item, ''function''),
                 (Some (lg_content item), ''content'')] s;
              (if \<not> pass then Some (False, s) else line_filter regexp item config s)
            })
         })
      })"

section \<open>backends/stdio.c\<close>

text \<open>\<open>write(fd, buffer, size)\<close> is the parameter \<open>wr\<close>; its result is the number of bytes written, or negative.\<close>

function log_stdio_write_all :: "(int \<Rightarrow> cstring \<Rightarrow> 'w \<Rightarrow> int \<times> 'w) \<Rightarrow> int \<Rightarrow> cstring \<Rightarrow> 'w \<Rightarrow> int \<times> 'w" where
  "log_stdio_write_all wr fd buffer w =
     (if fd < 0 then (-1, w)
      else if buffer = [] then (0, w)
      else let (written, w) = wr fd buffer w in
      if written \<le> 0 \<or> written > int (length buffer) then (-1, w)
      else log_stdio_write_all wr fd (drop (nat written) buffer) w)"
  by pat_completeness auto

termination by (relation "measure (\<lambda>(wr, fd, buffer, w). length buffer)") auto

declare log_stdio_write_all.simps [simp del]

definition log_stdio_writer ::
  "(cstring \<Rightarrow> cstring \<Rightarrow> int) \<Rightarrow> (int \<Rightarrow> cstring \<Rightarrow> 'w \<Rightarrow> int \<times> 'w) \<Rightarrow> log_item \<Rightarrow> 'w backend_op" where
  "log_stdio_writer regexp wr item backend x =
     (let (g, w) = x in do {
        (pass, g) \<leftarrow> on_cs (log_check_filter regexp item (lb_config backend)) g;
        (if \<not> pass then Some (0, g, w)
         else do {
           ((format, _), g) \<leftarrow> on_cs (confignode_path_get_string (lb_config backend) (Some ''format'') None) g;
           ((output, _), g) \<leftarrow> on_cs (confignode_path_get_string (lb_config backend) (Some ''output'') None) g;
           (formatted, g) \<leftarrow> log_formatter item format 1 g;
           let fd = (case output of
                       None \<Rightarrow> 1
                     | Some o1 \<Rightarrow> if strcasecmp o1 ''stdout'' = 0 then 1 else if strcasecmp o1 ''stderr'' = 0 then 2 else -1);
           Some (case formatted of
                   None \<Rightarrow> (-1, g, w)
                 | Some text \<Rightarrow>
                     if fd > 0 then let (ret, w) = log_stdio_write_all wr fd text w in (ret, g, w) else (-1, g, w))
         })
      })"

definition log_backend_stdio ::
  "(cstring \<Rightarrow> cstring \<Rightarrow> int) \<Rightarrow> (int \<Rightarrow> cstring \<Rightarrow> 'w \<Rightarrow> int \<times> 'w) \<Rightarrow> 'w log_backend_base" where
  "log_backend_stdio regexp wr =
     \<lparr>bb_name = ''stdio'', bb_init = None, bb_deinit = None, bb_write = log_stdio_writer regexp wr, bb_ctx_size = 0\<rparr>"

end
