(* ===== verification/LogStart.thy ===== *)
theory LogStart
  imports LogText
begin

text \<open>
  The backend that writes to a file (\<open>backends/file.c\<close>), and how the log starts: the backends of the configuration
  (\<open>backend.c\<close>) and \<open>log_init\<close> (\<open>base.c\<close>). The messages that opening the file prints are not modelled; those of the
  start are.
\<close>

section \<open>backends/file.c\<close>

text \<open>The context of a backend; \<open>lc_file\<close> is whether it has an open file.\<close>

record log_file_ctx =
  lc_file :: bool
  lc_truncate :: bool
  lc_encode :: encoding

text \<open>The contexts of the backends, by number, and the state \<open>'w\<close> of the firmware.\<close>

record 'w log_world =
  lw_ctx :: "nat \<Rightarrow> log_file_ctx"
  lw_io :: 'w

text \<open>
  The firmware: \<open>write\<close> to a descriptor, the directory of the loader, the calls that change the opened file and its
  \<open>Close\<close>.
\<close>

record 'w log_services =
  sv_write :: "int \<Rightarrow> cstring \<Rightarrow> 'w \<Rightarrow> int \<times> 'w"
  sv_dir :: "efi_root option"
  sv_file :: "'w efi_writer"
  sv_close :: "'w \<Rightarrow> efi_status \<times> 'w"

definition LOG_FILE_MODE :: nat where
  "LOG_FILE_MODE = 1 + 2 + 0x8000000000000000"

definition log_file_write_all :: "'w efi_writer \<Rightarrow> cstring \<Rightarrow> 'w \<Rightarrow> int \<times> 'w" where
  "log_file_write_all W buffer w =
     (if buffer = [] then (0, w)
      else let ((status, written), w) = ew_write W buffer w
           in (if EFI_ERROR status \<or> written \<noteq> int (length buffer) then -1 else 0, w))"

text \<open>The status of preparing the opened file: emptied, or positioned at its end.\<close>

definition prepare_log_file ::
  "'w log_services \<Rightarrow> efi_file \<Rightarrow> bool \<Rightarrow> embloader \<times> 'w \<Rightarrow> efi_status \<times> embloader \<times> 'w" where
  "prepare_log_file S f trunc x =
     (if trunc then
        let (status, g, w) = efi_file_set_size f (sv_file S) 0 x in
        if EFI_ERROR status then (status, g, w)
        else let (status, w) = ew_setpos (sv_file S) 0 w in (status, g, w)
      else let (g, w) = x; (status, w) = ew_setpos (sv_file S) SIZE_MAX64 w in (status, g, w))"

definition set_ctx :: "nat \<Rightarrow> log_file_ctx \<Rightarrow> 'w log_world \<Rightarrow> 'w log_world" where
  "set_ctx k ctx w = w\<lparr>lw_ctx := (lw_ctx w)(k := ctx)\<rparr>"

definition fail_file :: "'w log_services \<Rightarrow> efi_file option \<Rightarrow> embloader \<times> 'w log_world \<Rightarrow> int \<times> embloader \<times> 'w log_world" where
  "fail_file S f x = (let (g, w) = x in (-1, g, if f = None then w else w\<lparr>lw_io := snd (sv_close S (lw_io w))\<rparr>))"

text \<open>Opening and preparing the file. An \<open>Open\<close> that succeeds without a file would be a call through \<open>NULL\<close>: \<open>None\<close>.\<close>

definition log_file_open ::
  "'w log_services \<Rightarrow> nat \<Rightarrow> log_file_ctx \<Rightarrow> cstring \<Rightarrow> embloader \<times> 'w log_world \<Rightarrow> (int \<times> embloader \<times> 'w log_world) option" where
  "log_file_open S k ctx path x =
     (let (g, w) = x; ((status, f), g) = efi_open (sv_dir S) path LOG_FILE_MODE 0 g; w = set_ctx k ctx w in
      if EFI_ERROR status then Some (fail_file S f (g, w))
      else (case f of
              None \<Rightarrow> None
            | Some file \<Rightarrow>
                let (status, g, io) = prepare_log_file S file (lc_truncate ctx) (g, lw_io w); w = w\<lparr>lw_io := io\<rparr> in
                if EFI_ERROR status then Some (fail_file S f (g, w))
                else Some (0, g, set_ctx k (ctx\<lparr>lc_file := True\<rparr>) w)))"

text \<open>The context is zeroed when the backend is created.\<close>

definition zero_ctx :: log_file_ctx where
  "zero_ctx = \<lparr>lc_file = False, lc_truncate = False, lc_encode = ENC_NONE\<rparr>"

definition log_file_init :: "'w log_services \<Rightarrow> 'w log_world backend_op" where
  "log_file_init S backend x =
     (let (g, w) = x; k = lb_id backend; config = lb_config backend; w = set_ctx k zero_ctx w in
      if sv_dir S = None then Some (-1, g, w)
      else do {
        ((path, _), g) \<leftarrow> on_cs (confignode_path_get_string config (Some ''path'') None) g;
        (case path of
           None \<Rightarrow> Some (-1, g, w)
         | Some p \<Rightarrow> do {
             ((name, _), g) \<leftarrow> on_cs (confignode_path_get_string config (Some ''encode'') None) g;
             (case (if name = None then Some ENC_UTF8 else encode_lookup name) of
                None \<Rightarrow> Some (-1, g, set_ctx k (zero_ctx\<lparr>lc_encode := ENC_UTF8\<rparr>) w)
              | Some enc \<Rightarrow> do {
                  ((trunc, _), g) \<leftarrow> on_cs (confignode_path_get_bool config (Some ''truncate'') False) g;
                  log_file_open S k (zero_ctx\<lparr>lc_encode := enc, lc_truncate := trunc\<rparr>) p (g, w)
                })
           })
      })"

definition log_file_deinit :: "'w log_services \<Rightarrow> 'w log_world backend_op" where
  "log_file_deinit S backend x =
     (let (g, w) = x; k = lb_id backend; ctx = lw_ctx w k;
          (status, io) = (if lc_file ctx then sv_close S (lw_io w) else (EFI_SUCCESS, lw_io w))
      in Some (if EFI_ERROR status then -1 else 0, g,
           set_ctx k (ctx\<lparr>lc_file := False\<rparr>) (w\<lparr>lw_io := io\<rparr>)))"

text \<open>The conversion of the text, through a buffer of 256 bytes.\<close>

definition log_enc_in :: "encoding \<Rightarrow> bytes \<Rightarrow> enc_in" where
  "log_enc_in enc src = \<lparr>ei_src = ENC_UTF8, ei_dst = enc, ei_src_ptr = Some src, ei_has_dst = True, ei_dst_size = 256,
     ei_transfers = None, ei_allow_invalid = False\<rparr>"

definition bytes_text :: "bytes \<Rightarrow> cstring" where
  "bytes_text bs = map (\<lambda>b. char_of (unat b)) bs"

function file_convert_loop :: "'w efi_writer \<Rightarrow> encoding \<Rightarrow> bytes \<Rightarrow> 'w \<Rightarrow> int \<times> 'w" where
  "file_convert_loop W enc src w =
     (if src = [] then (0, w)
      else let (st, out) = encode_convert False (log_enc_in enc src) enc_out_zero; used = eo_src_used out; wrote = eo_dst_wrote out in
      if used = 0 \<or> wrote = 0 \<or> used > length src \<or> wrote > 256 then (-1, w)
      else if st = EFI_SUCCESS \<and> used \<noteq> length src \<or> st = EFI_OUT_OF_RESOURCES \<and> used = length src \<or>
              st \<noteq> EFI_SUCCESS \<and> st \<noteq> EFI_OUT_OF_RESOURCES then (-1, w)
      else let (ret, w) = log_file_write_all W (bytes_text (take wrote (eo_buf out))) w in
      if ret < 0 then (-1, w) else file_convert_loop W enc (drop used src) w)"
  by pat_completeness auto

termination by (relation "measure (\<lambda>(W, enc, src, w). length src)") auto

declare file_convert_loop.simps [simp del]

definition log_file_writer :: "(cstring \<Rightarrow> cstring \<Rightarrow> int) \<Rightarrow> 'w log_services \<Rightarrow> log_item \<Rightarrow> 'w log_world backend_op" where
  "log_file_writer regexp S item backend x =
     (let (g, w) = x; ctx = lw_ctx w (lb_id backend) in do {
        (pass, g) \<leftarrow> on_cs (log_check_filter regexp item (lb_config backend)) g;
        (if \<not> pass then Some (0, g, w)
         else do {
           ((format, _), g) \<leftarrow> on_cs (confignode_path_get_string (lb_config backend) (Some ''format'') None) g;
           (formatted, g) \<leftarrow> log_formatter item format 1 g;
           Some (case formatted of
                   None \<Rightarrow> (-1, g, w)
                 | Some text \<Rightarrow>
                     if \<not> lc_file ctx then (-1, g, w)
                     else let (ret, io) =
                            (if lc_encode ctx \<noteq> ENC_NONE \<and> lc_encode ctx \<noteq> ENC_UTF8
                             then file_convert_loop (sv_file S) (lc_encode ctx) (map of_char text) (lw_io w)
                             else log_file_write_all (sv_file S) text (lw_io w)) in
                     if ret < 0 then (-1, g, w\<lparr>lw_io := io\<rparr>)
                     else let (st, io) = ew_flush (sv_file S) io
                          in (if EFI_ERROR st then -1 else 0, g, w\<lparr>lw_io := io\<rparr>))
         })
      })"

text \<open>The size of the context only decides whether there is one.\<close>

definition log_backend_file :: "(cstring \<Rightarrow> cstring \<Rightarrow> int) \<Rightarrow> 'w log_services \<Rightarrow> 'w log_world log_backend_base" where
  "log_backend_file regexp S =
     \<lparr>bb_name = ''file'', bb_init = Some (log_file_init S), bb_deinit = Some (log_file_deinit S),
      bb_write = log_file_writer regexp S, bb_ctx_size = 16\<rparr>"

definition stdio_write :: "'w log_services \<Rightarrow> int \<Rightarrow> cstring \<Rightarrow> 'w log_world \<Rightarrow> int \<times> 'w log_world" where
  "stdio_write S fd buffer w = (let (n, io) = sv_write S fd buffer (lw_io w) in (n, w\<lparr>lw_io := io\<rparr>))"

definition log_backend_bases :: "(cstring \<Rightarrow> cstring \<Rightarrow> int) \<Rightarrow> 'w log_services \<Rightarrow> 'w log_world log_backend_base list" where
  "log_backend_bases regexp S = [log_backend_stdio regexp (stdio_write S), log_backend_file regexp S]"

section \<open>The backends of the configuration\<close>

definition log_backend_create_from ::
  "'w log_backend_base list \<Rightarrow> cstring \<Rightarrow> efi_time \<Rightarrow> ptr \<Rightarrow> 'w log_state \<Rightarrow> (log_backend option \<times> 'w log_state) option" where
  "log_backend_create_from bases here now config s =
     (if config = None then Some (None, s)
      else do {
        ismap \<leftarrow> confignode_is_type config TYPE_MAP (g_cs (ls_g s));
        (if \<not> ismap then Some (None, s)
         else do {
           ((type, _), s) \<leftarrow> on_log_config (on_cs (confignode_path_get_string config (Some ''backend'') None)) s;
           (case type of
              None \<Rightarrow> Some (None, s)
            | Some t \<Rightarrow>
                (case log_backend_base_find bases t of
                   None \<Rightarrow> Some (None, s)
                 | Some base \<Rightarrow> do {
                     ((name, _), s) \<leftarrow> on_log_config (on_cs (confignode_path_get_string config (Some ''name'') None)) s;
                     log_backend_create here now base name config s
                   }))
         })
      })"

text \<open>\<open>log_warning\<close> and \<open>log_info\<close>: the tag is the function.\<close>

definition log_say ::
  "log_level \<Rightarrow> cstring \<Rightarrow> cstring \<Rightarrow> int \<Rightarrow> cstring \<Rightarrow> efi_time \<Rightarrow> 'w log_state \<Rightarrow> 'w log_state option" where
  "log_say level func here lineno text now = log_base_vprintf level (Some func) (Some here) (Some func) lineno (Some text) now"

partial_function (option) create_backends ::
  "'w log_backend_base list \<Rightarrow> cstring \<Rightarrow> efi_time \<Rightarrow> citer \<Rightarrow> 'w log_state \<Rightarrow> 'w log_state option" where
  "create_backends bases here now it s =
     (if it_node it = None then Some s
      else do {
        (b, s) \<leftarrow> log_backend_create_from bases here now (it_node it) s;
        s \<leftarrow> (if b \<noteq> None then Some s
              else log_say LOG_WARNING ''log_backends_init'' here 180
                (''failed to create log backend from config at index '' @ int_dec (it_index it)) now s);
        (_, it) \<leftarrow> confignode_iter_next it (g_cs (ls_g s));
        create_backends bases here now it s
      })"

definition log_backends_init ::
  "'w log_backend_base list \<Rightarrow> cstring \<Rightarrow> efi_time \<Rightarrow> ptr \<Rightarrow> 'w log_state \<Rightarrow> 'w log_state option" where
  "log_backends_init bases here now config s =
     (if config = None then Some s
      else do {
        isarr \<leftarrow> confignode_is_type config TYPE_ARRAY (g_cs (ls_g s));
        s \<leftarrow> (if isarr then do {
                it \<leftarrow> confignode_iter_start_ret config (g_cs (ls_g s));
                create_backends bases here now it s
              } else Some s);
        ismap \<leftarrow> confignode_is_type config TYPE_MAP (g_cs (ls_g s));
        (if ismap then do {
           (b, s) \<leftarrow> log_backend_create_from bases here now config s;
           (if b \<noteq> None then Some s
            else log_say LOG_WARNING ''log_backends_init'' here 183 ''failed to create log backend from config'' now s)
         } else Some s)
      })"

text \<open>The limit of the configuration is a \<open>int64_t\<close>.\<close>

definition set_size_limit :: "cstring \<Rightarrow> efi_time \<Rightarrow> int \<times> bool \<Rightarrow> 'w log_state \<Rightarrow> 'w log_state option" where
  "set_size_limit here now r s =
     (let (configured_limit, limit_ok) = r in
      if limit_ok \<and> configured_limit \<ge> 0 \<and> configured_limit \<le> SIZE_MOD - 1 then Some (s\<lparr>ls_limit := configured_limit\<rparr>)
      else if limit_ok then log_say LOG_WARNING ''log_init'' here 134 ''invalid log size limit, using default'' now s
      else Some s)"

text \<open>The two files of the messages are \<open>here\<close> and \<open>there\<close>; the first base is the standard one.\<close>

definition log_init ::
  "'w log_backend_base list \<Rightarrow> cstring \<Rightarrow> cstring \<Rightarrow> efi_time \<Rightarrow> 'w log_state \<Rightarrow> 'w log_state option" where
  "log_init bases here there now s =
     (let r = g_config (ls_g s) in do {
        ((defaults, _), s) \<leftarrow> on_log_config (on_cs (confignode_path_get_bool r (Some ''log.defaults'') True)) s;
        s \<leftarrow> (if defaults then do { (_, s) \<leftarrow> log_backend_create here now (hd bases) None None s; Some s } else Some s);
        (backends, s) \<leftarrow> on_log_config (on_cs (confignode_path_lookup r (Some ''log.backends'') False)) s;
        s \<leftarrow> (if backends = None then Some s else log_backends_init bases here now backends s);
        (limit, s) \<leftarrow> on_log_config (on_cs (confignode_path_get_int r (Some ''log.size-limit'') (ls_limit s))) s;
        s \<leftarrow> set_size_limit there now limit s;
        log_say LOG_INFO ''log_init'' there 135 ''log system initialized'' now s
      })"

end
