(* ===== verification/LogTextFacts.thy ===== *)
theory LogTextFacts
  imports LogStart LogFacts ConfigLookup ConfigReads
begin

text \<open>
  The text of an item is the expansion of the format, in a buffer that is never overrun; the filter is what the
  configuration says; and a writer that succeeds has written all of its text, in order.
\<close>

section \<open>The text of an item\<close>

definition spec_text :: "log_item \<Rightarrow> char \<Rightarrow> cstring" where
  "spec_text item d = (case apply_specifier item d of None \<Rightarrow> [CHR ''%'', d] | Some v \<Rightarrow> v)"

fun expand :: "log_item \<Rightarrow> cstring \<Rightarrow> cstring" where
  "expand item [] = []"
| "expand item [c] = [c]"
| "expand item (c # d # p) = (if c = CHR ''%'' then spec_text item d @ expand item p else c # expand item (d # p))"

text \<open>The text and its terminator fit.\<close>

definition fits :: "format_buffer \<Rightarrow> bool" where
  "fits b \<longleftrightarrow> int (length (fb_text b)) < fb_cap b \<and> fb_cap b < SIZE_MOD"

lemma grow_cap_enough:
  assumes "0 < c" "c < SIZE_MOD" "0 < required" "required < SIZE_MOD"
  shows "\<exists>n. grow_cap required c = Some n \<and> required \<le> n \<and> n < SIZE_MOD"
  using assms
proof (induction "nat (required - c)" arbitrary: c rule: less_induct)
  case less
  show ?case
  proof (cases "c < required \<and> \<not> c > (SIZE_MOD - 1) div 2")
    case False
    then show ?thesis using less.prems by (subst grow_cap.simps) auto
  next
    case True
    have "\<exists>n. grow_cap required (c * 2) = Some n \<and> required \<le> n \<and> n < SIZE_MOD"
      by (rule less.hyps) (use True less.prems in \<open>auto simp: SIZE_MOD_def\<close>)
    then show ?thesis using True by (subst grow_cap.simps) simp
  qed
qed

lemma append_value_fits:
  assumes "fits b"
  obtains ok b' g' where "append_value b val g = Some ((ok, b'), g')" "fits b'"
    "fb_text b' = (if ok then fb_text b @ val else fb_text b)"
    "no_oom (g_cs g) \<Longrightarrow> int (length (fb_text b @ val)) < SIZE_MOD - 1 \<Longrightarrow> ok" "no_oom (g_cs g) \<Longrightarrow> no_oom (g_cs g')"
proof -
  let ?len = "int (length (fb_text b))" and ?n = "int (length val)"
  show thesis
  proof (cases "?n < SIZE_MOD - 1 - ?len \<and> ?len + ?n + 1 > fb_cap b")
    case False
    then show thesis
      using assms that [of "?n < SIZE_MOD - 1 - ?len" "if ?n < SIZE_MOD - 1 - ?len then b\<lparr>fb_text := fb_text b @ val\<rparr> else b" g]
      by (auto simp: append_value_def fits_def)
  next
    case True
    obtain n where n: "grow_cap (?len + ?n + 1) (fb_cap b) = Some n" "?len + ?n + 1 \<le> n" "n < SIZE_MOD"
      using grow_cap_enough [of "fb_cap b" "?len + ?n + 1"] assms True by (auto simp: fits_def)
    obtain ok g' where g: "galloc g = (ok, g')" by (metis prod.exhaust)
    have "ok" "no_oom (g_cs g')" if "no_oom (g_cs g)"
      using that alloc_ok [OF that] no_oom_tick [OF that] g by (auto simp: galloc_def)
    with True n g assms show thesis
      using that [of ok "if ok then \<lparr>fb_text = fb_text b @ val, fb_cap = n\<rparr> else b" g']
      by (auto simp: append_value_def fits_def)
  qed
qed

lemma format_loop_fits:
  assumes "fits b"
  shows "\<exists>ok b' g'. format_loop item p b g = Some ((ok, b'), g') \<and> fits b' \<and>
    (ok \<longrightarrow> fb_text b' = fb_text b @ expand item p) \<and>
    (no_oom (g_cs g) \<longrightarrow> no_oom (g_cs g') \<and> (int (length (fb_text b @ expand item p)) < SIZE_MOD - 1 \<longrightarrow> ok))"
  using assms
proof (induction "length p" arbitrary: p b g rule: less_induct)
  case less
  consider "p = []" | c where "p = [c]" | c d q where "p = c # d # q" by (cases p rule: remdups_adj.cases) auto
  then show ?case
  proof cases
    case 1
    then show ?thesis using less.prems by (intro exI [of _ True]) simp
  next
    case 2
    show ?thesis by (rule append_value_fits [OF less.prems, of "[c]" g]) (auto simp: 2)
  next
    case (3 c d p')
    define v where "v = (if c = CHR ''%'' then spec_text item d else [c])"
    obtain ok b1 g1 where a: "append_value b v g = Some ((ok, b1), g1)" "fits b1"
      "fb_text b1 = (if ok then fb_text b @ v else fb_text b)"
      "no_oom (g_cs g) \<Longrightarrow> int (length (fb_text b @ v)) < SIZE_MOD - 1 \<Longrightarrow> ok" "no_oom (g_cs g) \<Longrightarrow> no_oom (g_cs g1)"
      using append_value_fits [OF less.prems, of v g] by blast
    define q where "q = (if c = CHR ''%'' then p' else d # p')"
    have e: "expand item p = v @ expand item q" using 3 by (simp add: v_def q_def)
    have l: "format_loop item p b g = (if ok then format_loop item q b1 g1 else Some ((False, b1), g1))"
      using a(1) 3 by (auto simp: v_def q_def spec_text_def)
    have "length q < length p" using 3 by (simp add: q_def)
    from less.hyps [OF this a(2), of g1] obtain ok2 b2 g2 where r: "format_loop item q b1 g1 = Some ((ok2, b2), g2)" "fits b2"
      "ok2 \<longrightarrow> fb_text b2 = fb_text b1 @ expand item q"
      "no_oom (g_cs g1) \<longrightarrow> no_oom (g_cs g2) \<and> (int (length (fb_text b1 @ expand item q)) < SIZE_MOD - 1 \<longrightarrow> ok2)"
      by blast
    show ?thesis
    proof (cases ok)
      case True
      with r a(3,4,5) e l show ?thesis by simp
    next
      case False
      with a(2,4,5) e l show ?thesis by (intro exI [of _ False] exI [of _ b1] exI [of _ g1]) auto
    qed
  qed
qed

definition log_text :: "log_item \<Rightarrow> cstring option \<Rightarrow> int \<Rightarrow> cstring" where
  "log_text item format crlf =
     expand item (case format of None \<Rightarrow> ''[%l] %t: %m'' | Some f \<Rightarrow> f) @ (if crlf > 0 then log_line_end crlf else [])"

lemma log_formatter_text:
  shows "\<exists>r g'. log_formatter item format crlf g = Some (r, g') \<and> (r = None \<or> r = Some (log_text item format crlf)) \<and>
    (no_oom (g_cs g) \<and> int (length (log_text item format crlf)) < SIZE_MOD - 1 \<longrightarrow> r = Some (log_text item format crlf))"
proof -
  let ?f = "case format of None \<Rightarrow> DEFAULT_LOG_FORMAT | Some f \<Rightarrow> f" and ?b = "\<lparr>fb_text = [], fb_cap = 256\<rparr>"
  obtain ok g1 where g: "galloc g = (ok, g1)" by (metis prod.exhaust)
  have n: "no_oom (g_cs g) \<Longrightarrow> ok \<and> no_oom (g_cs g1)"
    using alloc_ok [of "g_cs g"] no_oom_tick [of "g_cs g"] g by (auto simp: galloc_def)
  obtain ok2 b2 g2 where l: "format_loop item ?f ?b g1 = Some ((ok2, b2), g2)" "fits b2"
    "ok2 \<longrightarrow> fb_text b2 = expand item ?f"
    "no_oom (g_cs g1) \<longrightarrow> no_oom (g_cs g2) \<and> (int (length (expand item ?f)) < SIZE_MOD - 1 \<longrightarrow> ok2)"
    using format_loop_fits [of ?b item ?f g1] by (auto simp: fits_def SIZE_MOD_def)
  obtain ok3 b3 g3 where e: "append_value b2 (log_line_end crlf) g2 = Some ((ok3, b3), g3)" "fits b3"
    "fb_text b3 = (if ok3 then fb_text b2 @ log_line_end crlf else fb_text b2)"
    "no_oom (g_cs g2) \<Longrightarrow> int (length (fb_text b2 @ log_line_end crlf)) < SIZE_MOD - 1 \<Longrightarrow> ok3"
    using append_value_fits [OF l(2)] by metis
  have t: "log_text item format crlf = expand item ?f @ (if crlf > 0 then log_line_end crlf else [])"
    by (simp add: log_text_def DEFAULT_LOG_FORMAT_def split: option.splits)
  show ?thesis using g n l e
    by (cases ok; cases ok2; cases ok3; cases "crlf > 0") (auto simp: log_formatter_def t)
qed

section \<open>The filter\<close>

definition node_text :: "atree \<Rightarrow> cstring option" where
  "node_text t = (if cn_type (at_node t) \<noteq> TYPE_VALUE then None
     else case cv_v (cn_value (at_node t)) of
            VString x \<Rightarrow> x
          | VInt i \<Rightarrow> Some (int_dec i)
          | VFloat f \<Rightarrow> Some (dbl_print_f f)
          | VBool b \<Rightarrow> Some (if b then ''true'' else ''false''))"

lemma get_string_tree:
  assumes "holds (nodes s) par t"
  shows "\<exists>ok. confignode_value_get_string (Some (at_addr t)) None s = Some (node_text t, ok) \<and> (node_text t \<noteq> None \<longrightarrow> ok)"
  using holds_root [OF assms]
  by (auto simp: confignode_value_get_string_def node_at_def node_text_def split: vdata.splits option.splits)

text \<open>The patterns of a filter: its text, or those of its elements.\<close>

fun patterns :: "atree \<Rightarrow> cstring list" where
  "patterns (AT a n ks) =
     (if cn_type n = TYPE_ARRAY then concat (map patterns ks)
      else (case node_text (AT a n ks) of None \<Rightarrow> [] | Some p \<Rightarrow> [p]))"

lemma iter_next_kid:
  assumes "nodes s a = Some n" "cn_items n = map at_addr ks" "\<forall>k \<in> set ks. holds (nodes s) (Some a) k" "it_root it = Some a"
    and "i = (case it_cur it of None \<Rightarrow> 0 | Some j \<Rightarrow> Suc j)"
  shows "\<exists>more it'. confignode_iter_next it s = Some (more, it') \<and>
    it_node it' = (if i < length ks then Some (at_addr (ks ! i)) else None) \<and>
    (i < length ks \<longrightarrow> it_root it' = Some a \<and> it_cur it' = Some i)"
proof (cases "i < length ks")
  case True
  then have "nodes s (at_addr (ks ! i)) = Some (at_node (ks ! i))"
    using holds_root [of "nodes s" "Some a" "ks ! i"] assms(3) by simp
  with True assms show ?thesis by (auto simp: confignode_iter_next_def node_at_def Let_def)
next
  case False
  with assms show ?thesis by (auto simp: confignode_iter_next_def node_at_def Let_def iter_end_def)
qed

lemma regex_walk_tree:
  assumes "holds (nodes s) par t"
  shows "regex_walk regexp v (Inl (Some (at_addr t))) s = Some (\<forall>p \<in> set (patterns t). regexp p v \<noteq> 1)"
  using assms
proof (induction t arbitrary: par)
  case (AT a n ks)
  note h = AT.prems
  have t: "confignode_is_type (Some a) ty s = Some (cn_type n = ty)" for ty
    using h by (simp add: confignode_is_type_def node_at_def)
  have loop: "regex_walk regexp v (Inr it) s = Some (\<forall>p \<in> set (concat (map patterns (drop i ks))). regexp p v \<noteq> 1)"
    if "it_node it = (if i < length ks then Some (at_addr (ks ! i)) else None)"
      "i < length ks \<longrightarrow> it_root it = Some a \<and> it_cur it = Some i" for it i
    using that
  proof (induction "length ks - i" arbitrary: i it)
    case 0
    then show ?case by (subst regex_walk.simps) simp
  next
    case (Suc m)
    then have i: "i < length ks" "it_root it = Some a" "it_cur it = Some i" "it_node it = Some (at_addr (ks ! i))" by auto
    obtain more it' where nx: "confignode_iter_next it s = Some (more, it')"
      "it_node it' = (if Suc i < length ks then Some (at_addr (ks ! Suc i)) else None)"
      "Suc i < length ks \<longrightarrow> it_root it' = Some a \<and> it_cur it' = Some (Suc i)"
      using iter_next_kid [of s a n ks it "Suc i"] h i by auto
    have k: "regex_walk regexp v (Inl (Some (at_addr (ks ! i)))) s = Some (\<forall>p \<in> set (patterns (ks ! i)). regexp p v \<noteq> 1)"
      by (rule AT.IH [of "ks ! i" "Some a"]) (use h i(1) in auto)
    have r: "regex_walk regexp v (Inr it') s = Some (\<forall>p \<in> set (concat (map patterns (drop (Suc i) ks))). regexp p v \<noteq> 1)"
      using Suc.hyps(1) [of "Suc i" it'] Suc.hyps(2) nx(2,3) by simp
    have "drop i ks = ks ! i # drop (Suc i) ks" using i(1) by (simp add: Cons_nth_drop_Suc)
    then show ?case by (subst regex_walk.simps) (simp add: i(4) k nx(1) r ball_Un)
  qed
  show ?case
  proof (cases "cn_type n = TYPE_ARRAY")
    case True
    let ?it = "zero_iter\<lparr>it_root := Some a, it_cur := None, it_node := None, it_index := -1, it_name := None\<rparr>"
    obtain more it where nx: "confignode_iter_next ?it s = Some (more, it)"
      "it_node it = (if 0 < length ks then Some (at_addr (ks ! 0)) else None)"
      "0 < length ks \<longrightarrow> it_root it = Some a \<and> it_cur it = Some 0"
      using iter_next_kid [of s a n ks ?it 0] h by auto
    have "confignode_iter_start_ret (Some a) s = Some it"
      using nx(1) True h by (simp add: confignode_iter_start_ret_def confignode_iter_start_def node_at_def)
    moreover note loop [of it 0] nx(2,3)
    ultimately show ?thesis using True by (subst regex_walk.simps) (simp add: t)
  next
    case False
    obtain ok where "confignode_value_get_string (Some a) None s = Some (node_text (AT a n ks), ok)"
      using get_string_tree [OF h] by auto
    with False show ?thesis
      by (subst regex_walk.simps) (auto simp: t node_text_def split: option.splits)
  qed
qed

text \<open>What the configuration of a backend says of an item.\<close>

definition entry_at :: "atree \<Rightarrow> cstring \<Rightarrow> atree option" where
  "entry_at t k = tree_at t [PKey k]"

definition level_at :: "atree \<Rightarrow> cstring \<Rightarrow> log_level option" where
  "level_at t k = (case entry_at t k of None \<Rightarrow> None | Some u \<Rightarrow> log_level_from_str (node_text u))"

definition patterns_at :: "atree \<Rightarrow> cstring \<Rightarrow> cstring list" where
  "patterns_at t k = (case entry_at t k of None \<Rightarrow> [] | Some u \<Rightarrow> patterns u)"

definition rejects :: "(cstring \<Rightarrow> cstring \<Rightarrow> int) \<Rightarrow> atree \<Rightarrow> cstring option \<times> cstring \<Rightarrow> bool" where
  "rejects regexp t f \<longleftrightarrow> (\<exists>v. fst f = Some v \<and> (\<exists>p \<in> set (patterns_at t (snd f)). regexp p v = 1))"

definition filtered_fields :: "log_item \<Rightarrow> (cstring option \<times> cstring) list" where
  "filtered_fields item =
     [(lg_tag item, ''tag''), (lg_file item, ''file''), (lg_function item, ''function''),
      (Some (lg_content item), ''content'')]"

definition wanted :: "(cstring \<Rightarrow> cstring \<Rightarrow> int) \<Rightarrow> atree \<Rightarrow> log_item \<Rightarrow> bool" where
  "wanted regexp t item \<longleftrightarrow>
     (\<forall>l. level_at t ''min-level'' = Some l \<longrightarrow> level_rank l \<le> level_rank (lg_level item)) \<and>
     (\<forall>l. level_at t ''max-level'' = Some l \<longrightarrow> level_rank (lg_level item) \<le> level_rank l) \<and>
     (\<forall>f \<in> set (filtered_fields item @ [(Some (item_line item), ''line'')]). \<not> rejects regexp t f)"

definition logs :: "cstring list" where
  "logs = [''min-level'', ''max-level'', ''tag'', ''file'', ''function'', ''content'', ''line'']"

lemma entry_lookup:
  assumes "holds (nodes s) par t" "twf t" "no_oom s" "k \<in> set logs"
  obtains s' where "confignode_path_lookup (Some (at_addr t)) (Some k) False s = Some (map_option at_addr (entry_at t k), s')"
    "reads_only s s'"
proof -
  have "good_comp (PKey k)" using assms(4) by (auto simp: logs_def good_comp_def)
  then obtain s' where "path_lookup (at_addr t) k False s = Some (map_option at_addr (entry_at t k), s')"
    using path_lookup_tree [OF assms(1,2) _ assms(3), of "[PKey k]"] by (auto simp del: tree_at.simps simp: entry_at_def)
  then have "confignode_path_lookup (Some (at_addr t)) (Some k) False s = Some (map_option at_addr (entry_at t k), s')"
    by (simp add: confignode_path_lookup_def)
  with that confignode_path_lookup_reads [OF this] show thesis by blast
qed

lemma entry_holds: "holds N par t \<Longrightarrow> entry_at t k = Some u \<Longrightarrow> \<exists>p. holds N p u"
  by (cases t) (auto simp: entry_at_def find_Some_iff split: if_splits option.splits)

lemma reads_kept: "reads_only s s' \<Longrightarrow> nodes s' = nodes s" "reads_only s s' \<Longrightarrow> no_oom s \<Longrightarrow> no_oom s'"
  by (auto simp: reads_only_def no_oom_def)

lemma level_read:
  assumes "holds (nodes s) par t" "twf t" "no_oom s" "k \<in> set logs"
  obtains l ok s' where "confignode_path_get_log_level (Some (at_addr t)) k def s = Some ((l, ok), s')" "reads_only s s'"
    "case level_at t k of None \<Rightarrow> l = def | Some l' \<Rightarrow> ok \<and> l = l'"
proof -
  obtain s1 where s1: "confignode_path_lookup (Some (at_addr t)) (Some k) False s = Some (map_option at_addr (entry_at t k), s1)"
    "reads_only s s1"
    using entry_lookup [OF assms] by blast
  show thesis
  proof (cases "entry_at t k")
    case None
    with s1 that [of "def" False s1] show thesis
      by (simp add: confignode_path_get_log_level_def confignode_path_get_string_def level_at_def)
  next
    case (Some u)
    obtain par' where "holds (nodes s1) par' u" using entry_holds [OF assms(1) Some] reads_kept(1) [OF s1(2)] by auto
    from get_string_tree [OF this] obtain ok where
      "confignode_value_get_string (Some (at_addr u)) None s1 = Some (node_text u, ok)" "node_text u \<noteq> None \<longrightarrow> ok"
      by blast
    with s1 Some have r: "confignode_path_get_log_level (Some (at_addr t)) k def s =
        Some (if node_text u = None then (def, False)
              else (case log_level_from_str (node_text u) of None \<Rightarrow> def | Some l \<Rightarrow> l, ok), s1)"
      by (simp add: confignode_path_get_log_level_def confignode_path_get_string_def)
    have none: "log_level_from_str None = None" by (simp add: log_level_from_str_def)
    show thesis
    proof (cases "node_text u")
      case None
      with r s1(2) \<open>entry_at t k = Some u\<close> that [of "def" False s1] show thesis by (simp add: level_at_def none)
    next
      case (Some str)
      with r s1(2) \<open>entry_at t k = Some u\<close> \<open>node_text u \<noteq> None \<longrightarrow> ok\<close> that show thesis
        by (simp add: level_at_def split: option.splits)
    qed
  qed
qed

lemma regex_filter_tree:
  assumes "holds (nodes s) par u"
  shows "log_check_regex_filter regexp val (Some (at_addr u)) s =
    Some (\<not> (\<exists>v. val = Some v \<and> (\<exists>p \<in> set (patterns u). regexp p v = 1)))"
  using regex_walk_tree [OF assms, of regexp] by (auto simp: log_check_regex_filter_def split: option.splits)

lemma field_filter_tree:
  assumes "holds (nodes s) par t" "twf t" "no_oom s" "k \<in> set logs"
  obtains s' where "log_check_regex_filter_path regexp val (Some (at_addr t)) k s = Some (\<not> rejects regexp t (val, k), s')"
    "reads_only s s'"
proof -
  obtain s1 where s1: "confignode_path_lookup (Some (at_addr t)) (Some k) False s = Some (map_option at_addr (entry_at t k), s1)"
    "reads_only s s1"
    using entry_lookup [OF assms] by blast
  show thesis
  proof (cases "entry_at t k")
    case None
    with s1 that show thesis by (simp add: log_check_regex_filter_path_def rejects_def patterns_at_def)
  next
    case (Some u)
    obtain par' where "holds (nodes s1) par' u" using entry_holds [OF assms(1) Some] reads_kept(1) [OF s1(2)] by auto
    from regex_filter_tree [OF this] s1 Some that show thesis
      by (simp add: log_check_regex_filter_path_def rejects_def patterns_at_def)
  qed
qed

lemma field_filters_tree:
  assumes "holds (nodes s) par t" "twf t" "no_oom s" "snd ` set fs \<subseteq> set logs"
  obtains s' where "field_filters regexp (Some (at_addr t)) fs s = Some (\<forall>f \<in> set fs. \<not> rejects regexp t f, s')" "reads_only s s'"
proof -
  have "\<exists>s'. field_filters regexp (Some (at_addr t)) fs s = Some (\<forall>f \<in> set fs. \<not> rejects regexp t f, s') \<and> reads_only s s'"
    using assms
  proof (induction fs arbitrary: s)
    case Nil
    then show ?case by simp
  next
    case (Cons f fs)
    obtain val k where f: "f = (val, k)" by (cases f)
    obtain s1 where s1: "log_check_regex_filter_path regexp val (Some (at_addr t)) k s = Some (\<not> rejects regexp t f, s1)"
      "reads_only s s1"
      using field_filter_tree [OF Cons.prems(1-3), of k] Cons.prems(4) f by auto
    obtain s2 where s2: "field_filters regexp (Some (at_addr t)) fs s1 = Some (\<forall>f \<in> set fs. \<not> rejects regexp t f, s2)"
      "reads_only s1 s2"
      using Cons.IH [of s1] Cons.prems reads_kept [OF s1(2)] by auto
    show ?case using s1 s2 reads_only_trans [OF s1(2) s2(2)] f by auto
  qed
  with that show thesis by blast
qed

lemma line_filter_tree:
  assumes "holds (nodes s) par t" "twf t" "no_oom s"
  obtains s' where "line_filter regexp item (Some (at_addr t)) s = Some (\<not> rejects regexp t (Some (item_line item), ''line''), s')"
proof -
  have k: "''line'' \<in> set logs" by (simp add: logs_def)
  obtain s1 where s1: "confignode_path_lookup (Some (at_addr t)) (Some ''line'') False s = Some (map_option at_addr (entry_at t ''line''), s1)"
    "reads_only s s1"
    using entry_lookup [OF assms k] by blast
  note h = reads_kept [OF s1(2)]
  have h1: "holds (nodes s1) par t" "no_oom s1" using h assms by auto
  obtain s2 where s2: "confignode_path_lookup (Some (at_addr t)) (Some ''line'') False s1 = Some (map_option at_addr (entry_at t ''line''), s2)"
    "reads_only s1 s2"
    using entry_lookup [OF h1(1) assms(2) h1(2) k] by blast
  show thesis
  proof (cases "entry_at t ''line''")
    case None
    with s1 that show thesis by (simp add: line_filter_def rejects_def patterns_at_def)
  next
    case (Some u)
    obtain par' where "holds (nodes s2) par' u" using entry_holds [OF h1(1) Some] reads_kept(1) [OF s2(2)] by auto
    from regex_filter_tree [OF this] s1(1) s2(1) Some that show thesis
      by (simp add: line_filter_def rejects_def patterns_at_def)
  qed
qed

lemma log_check_filter_tree:
  assumes "holds (nodes s) par t" "twf t" "no_oom s"
  shows "\<exists>s'. log_check_filter regexp item (Some (at_addr t)) s = Some (wanted regexp t item, s')"
proof -
  have ranks: "level_rank l \<le> 3" for l by (cases l) simp_all
  obtain l1 ok1 s1 where a: "confignode_path_get_log_level (Some (at_addr t)) ''min-level'' LOG_DEBUG s = Some ((l1, ok1), s1)"
    "reads_only s s1" "case level_at t ''min-level'' of None \<Rightarrow> l1 = LOG_DEBUG | Some l' \<Rightarrow> ok1 \<and> l1 = l'"
    using level_read [OF assms, of "''min-level''" LOG_DEBUG] by (simp add: logs_def) blast
  have h1: "holds (nodes s1) par t" "no_oom s1" using reads_kept [OF a(2)] assms by auto
  obtain l2 ok2 s2 where b: "confignode_path_get_log_level (Some (at_addr t)) ''max-level'' LOG_ERROR s1 = Some ((l2, ok2), s2)"
    "reads_only s1 s2" "case level_at t ''max-level'' of None \<Rightarrow> l2 = LOG_ERROR | Some l' \<Rightarrow> ok2 \<and> l2 = l'"
    using level_read [OF h1(1) assms(2) h1(2), of "''max-level''" LOG_ERROR] by (simp add: logs_def) blast
  have h2: "holds (nodes s2) par t" "no_oom s2" using reads_kept [OF b(2)] h1 by auto
  have fs: "snd ` set (filtered_fields item) \<subseteq> set logs" by (simp add: filtered_fields_def logs_def)
  obtain s3 where c: "field_filters regexp (Some (at_addr t)) (filtered_fields item) s2 =
      Some (\<forall>f \<in> set (filtered_fields item). \<not> rejects regexp t f, s3)" "reads_only s2 s3"
    using field_filters_tree [OF h2(1) assms(2) h2(2) fs] by blast
  have h3: "holds (nodes s3) par t" "no_oom s3" using reads_kept [OF c(2)] h2 by auto
  obtain s4 where d: "line_filter regexp item (Some (at_addr t)) s3 = Some (\<not> rejects regexp t (Some (item_line item), ''line''), s4)"
    using line_filter_tree [OF h3(1) assms(2) h3(2)] by blast
  have "ok1 \<and> level_rank l1 > level_rank (lg_level item) \<longleftrightarrow>
      \<not> (\<forall>l. level_at t ''min-level'' = Some l \<longrightarrow> level_rank l \<le> level_rank (lg_level item))"
    using a(3) by (auto split: option.splits)
  moreover have "ok2 \<and> level_rank l2 < level_rank (lg_level item) \<longleftrightarrow>
      \<not> (\<forall>l. level_at t ''max-level'' = Some l \<longrightarrow> level_rank (lg_level item) \<le> level_rank l)"
    using b(3) ranks [of "lg_level item"] by (auto split: option.splits)
  moreover note c(1) [unfolded filtered_fields_def]
  ultimately show ?thesis using a(1) b(1) d
    by (auto simp: log_check_filter_def wanted_def filtered_fields_def)
qed

end
