(* ===== verification/LogStartFacts.thy ===== *)
theory LogStartFacts
  imports LogTextFacts
begin

text \<open>
  Logging only reads the configuration, whatever it delivers and whatever backends it creates, and a log that has
  started is in order.
\<close>

section \<open>Backends that only read\<close>

definition greads :: "embloader \<Rightarrow> embloader \<Rightarrow> bool" where
  "greads g g' \<longleftrightarrow> reads_only (g_cs g) (g_cs g') \<and> g_config g' = g_config g"

lemma greads_refl [simp, intro]: "greads g g"
  by (simp add: greads_def)

lemma greads_trans [trans]: "greads g g1 \<Longrightarrow> greads g1 g2 \<Longrightarrow> greads g g2"
  by (auto simp: greads_def intro: reads_only_trans)

definition quiet_op :: "'w backend_op \<Rightarrow> bool" where
  "quiet_op f \<longleftrightarrow> (\<forall>b g w r g' w'. f b (g, w) = Some (r, g', w') \<longrightarrow> greads g g')"

definition quiet_base :: "'w log_backend_base \<Rightarrow> bool" where
  "quiet_base base \<longleftrightarrow> (\<forall>f. bb_init base = Some f \<longrightarrow> quiet_op f) \<and> (\<forall>f. bb_deinit base = Some f \<longrightarrow> quiet_op f) \<and>
     (\<forall>i. quiet_op (bb_write base i))"

definition all_quiet :: "'w log_state \<Rightarrow> bool" where
  "all_quiet s \<longleftrightarrow> (\<forall>b \<in> set (ls_backends s). quiet_base (snd b))"

definition undisturbed :: "'w log_state \<Rightarrow> 'w log_state \<Rightarrow> bool" where
  "undisturbed s s' \<longleftrightarrow> (all_quiet s \<longrightarrow> all_quiet s') \<and> greads (ls_g s) (ls_g s')"

named_theorems undisturbed_steps "steps of the log that only read the configuration"

lemma undisturbed_refl [simp, intro]: "undisturbed s s"
  by (simp add: undisturbed_def)

lemma undisturbed_trans [trans]: "undisturbed s s1 \<Longrightarrow> undisturbed s1 s2 \<Longrightarrow> undisturbed s s2"
  by (auto simp: undisturbed_def intro: greads_trans)

lemma undisturbed_quiet: "undisturbed s s' \<Longrightarrow> all_quiet s \<Longrightarrow> all_quiet s'"
  by (simp add: undisturbed_def)

text \<open>Changing the items and the counts does not count.\<close>

lemma undisturbed_parts [simp]:
  "undisturbed s (s'\<lparr>ls_items := is\<rparr>) = undisturbed s s'" "undisturbed s (s'\<lparr>ls_cur := c\<rparr>) = undisturbed s s'" "undisturbed s (s'\<lparr>ls_next := n\<rparr>) = undisturbed s s'"
  "undisturbed s (s'\<lparr>ls_limit := l\<rparr>) = undisturbed s s'" "undisturbed (s\<lparr>ls_items := is\<rparr>) s' = undisturbed s s'" "undisturbed (s\<lparr>ls_cur := c\<rparr>) s' = undisturbed s s'"
  "undisturbed (s\<lparr>ls_next := n\<rparr>) s' = undisturbed s s'"
  by (simp_all add: undisturbed_def all_quiet_def)

lemma galloc_greads: "galloc g = (ok, g') \<Longrightarrow> greads g g'"
  by (auto simp: galloc_def greads_def dest: alloc_reads split: prod.splits)

lemma alloc_undisturbed [undisturbed_steps]: "log_alloc s = (ok, s') \<Longrightarrow> undisturbed s s'"
  by (cases "galloc (ls_g s)") (auto simp: log_alloc_def undisturbed_def all_quiet_def dest: galloc_greads)

lemma on_backend_undisturbed:
  "on_backend (f b) s = Some (r, s') \<Longrightarrow> quiet_op f \<Longrightarrow> undisturbed s s'"
  unfolding on_backend_def quiet_op_def undisturbed_def all_quiet_def by (fastforce simp: bind_eq_Some_conv)

lemma deinit_undisturbed: "log_backend_deinit b s = Some (r, s') \<Longrightarrow> quiet_base (snd b) \<Longrightarrow> undisturbed s s'"
  by (auto simp: log_backend_deinit_def quiet_base_def split: option.splits dest: on_backend_undisturbed)

lemma init_undisturbed: "log_backend_init b s = Some (r, s') \<Longrightarrow> quiet_base (snd b) \<Longrightarrow> undisturbed s s'"
  by (auto simp: log_backend_init_def quiet_base_def split: option.splits dest: on_backend_undisturbed)

lemma write_to_undisturbed:
  assumes "log_item_write_to b force i s = Some ((ret, i'), s')" "quiet_base (snd b)"
  shows "undisturbed s s'"
proof -
  have w: "log_backend_write b i s = Some (r, s') \<Longrightarrow> undisturbed s s'" for i r s
    using assms(2) on_backend_undisturbed [of "bb_write (snd b) i"] by (simp add: log_backend_write_def quiet_base_def)
  obtain ok s1 where a: "log_alloc s = (ok, s1)" by (metis prod.exhaust)
  show ?thesis using assms(1) a w alloc_undisturbed [OF a]
    by (auto simp: log_item_write_to_def Let_def bind_eq_Some_conv split: if_splits intro: undisturbed_trans)
qed

lemma write_items_undisturbed:
  "write_items b force is s = Some (is', s') \<Longrightarrow> quiet_base (snd b) \<Longrightarrow> undisturbed s s'"
proof (induction "is" arbitrary: s is')
  case (Cons i "is")
  then show ?case
    by (auto simp: bind_eq_Some_conv split: if_splits dest!: write_to_undisturbed Cons.IH intro: undisturbed_trans)
qed simp

lemma write_backends_undisturbed:
  "write_backends bs force is s = Some (is', s') \<Longrightarrow> \<forall>b \<in> set bs. quiet_base (snd b) \<Longrightarrow> undisturbed s s'"
proof (induction bs arbitrary: s "is")
  case (Cons b bs)
  then show ?case by (auto simp: bind_eq_Some_conv dest!: write_items_undisturbed Cons.IH intro: undisturbed_trans)
qed simp

lemma flush_items_undisturbed:
  "flush_items b force is s = Some (is', s') \<Longrightarrow> quiet_base (snd b) \<Longrightarrow> undisturbed s s'"
  using flush_items_write [of b force "is" s is' s'] write_items_undisturbed [of b force "is" s _ s'] by blast

lemma limit_check_undisturbed [simp]:
  "undisturbed s (log_size_limit_check s') = undisturbed s s'" "undisturbed (log_size_limit_check s) s' = undisturbed s s'"
  by (simp_all add: log_size_limit_check_def split: prod.splits)

lemma append_undisturbed [undisturbed_steps]: "log_append i s = (ok, s') \<Longrightarrow> undisturbed s s'"
  by (auto simp: log_append_def Let_def split: if_splits prod.splits dest!: alloc_undisturbed)

lemma recount_undisturbed [simp]: "undisturbed (recount s) s' = undisturbed s s'" "ls_backends (recount s) = ls_backends s"
  by (simp_all add: recount_def)

lemma flush_fast_undisturbed: "log_flush_fast s = Some s' \<Longrightarrow> all_quiet s \<Longrightarrow> undisturbed s s'"
  by (auto simp: log_flush_fast_def Let_def all_quiet_def bind_eq_Some_conv split: if_splits dest!: write_backends_undisturbed)

lemma flush_to_undisturbed: "log_flush_to b force s = Some s' \<Longrightarrow> quiet_base (snd b) \<Longrightarrow> undisturbed s s'"
  by (auto simp: log_flush_to_def Let_def bind_eq_Some_conv dest!: flush_items_undisturbed)

lemma item_create_greads: "log_item_create level tag file func lineno content now g = (i, g') \<Longrightarrow> greads g g'"
  by (auto simp: log_item_create_def Let_def split: option.splits if_splits prod.splits dest: galloc_greads)

lemma print_undisturbed:
  assumes "log_base_print level tag file func lineno content now s = Some s'" "all_quiet s"
  shows "undisturbed s s'"
proof (cases "content = None")
  case True
  with assms(1) show ?thesis by (simp add: log_base_print_def)
next
  case False
  obtain item g where c: "log_item_create level tag file func lineno content now (ls_g s) = (item, g)" by (metis prod.exhaust)
  have s1: "undisturbed s (s\<lparr>ls_g := g\<rparr>)" using item_create_greads [OF c] by (simp add: undisturbed_def all_quiet_def)
  show ?thesis
  proof (cases item)
    case None
    with assms(1) False c s1 show ?thesis by (simp add: log_base_print_def)
  next
    case (Some i)
    obtain ok s2 where a: "log_append i (s\<lparr>ls_g := g\<rparr>) = (ok, s2)" by (metis prod.exhaust)
    note s2 = undisturbed_trans [OF s1 append_undisturbed [OF a]]
    from assms(1) False c a Some have "(if ok then log_flush_fast s2 else Some s2) = Some s'"
      by (simp add: log_base_print_def)
    with s2 undisturbed_quiet [OF s2 assms(2)] show ?thesis
      by (auto split: if_splits dest!: flush_fast_undisturbed intro: undisturbed_trans)
  qed
qed

lemma vprintf_undisturbed:
  assumes "log_base_vprintf level tag file func lineno content now s = Some s'" "all_quiet s"
  shows "undisturbed s s'"
proof -
  obtain ok s1 where a: "log_alloc s = (ok, s1)" by (metis prod.exhaust)
  note s1 = alloc_undisturbed [OF a]
  from assms(1) a show ?thesis
    using s1 print_undisturbed [OF _ undisturbed_quiet [OF s1 assms(2)]]
    by (auto simp: log_base_vprintf_def split: if_splits intro: undisturbed_trans)
qed

lemma forget_undisturbed: "undisturbed s (log_item_forget_backend k (s\<lparr>ls_backends := filter P (ls_backends s)\<rparr>))"
  by (auto simp: log_item_forget_backend_def undisturbed_def all_quiet_def)

lemma destroy_undisturbed: "log_backend_destroy b s = Some s' \<Longrightarrow> quiet_base (snd b) \<Longrightarrow> undisturbed s s'"
  by (auto simp: log_backend_destroy_def Let_def bind_eq_Some_conv dest!: deinit_undisturbed intro: undisturbed_trans [OF forget_undisturbed])

lemma create_fail_undisturbed: "create_fail b s = Some (r, s') \<Longrightarrow> quiet_base (snd b) \<Longrightarrow> undisturbed s s'"
  by (auto simp: create_fail_def bind_eq_Some_conv dest: destroy_undisturbed)

lemma announce_undisturbed:
  assumes "announce_backend here now b s = Some (r, s')" "quiet_base (snd b)" "all_quiet s"
  shows "undisturbed s s'"
proof -
  let ?s = "log_item_invalidate_flush_state (s\<lparr>ls_backends := ls_backends s @ [b]\<rparr>)"
  have c: "undisturbed s ?s" using assms(2,3) by (auto simp: log_item_invalidate_flush_state_def undisturbed_def all_quiet_def)
  obtain s1 where f: "log_flush_to b False ?s = Some s1"
    and v: "\<exists>text. log_base_vprintf LOG_INFO (Some ''log_backend_create'') (Some here) (Some ''log_backend_create'') 102 text now s1 = Some s'"
    using assms(1) by (auto simp: announce_backend_def bind_eq_Some_conv)
  note s1 = undisturbed_trans [OF c flush_to_undisturbed [OF f assms(2)]]
  with v vprintf_undisturbed undisturbed_quiet [OF s1 assms(3)] show ?thesis by (blast intro: undisturbed_trans)
qed

lemma start_undisturbed:
  assumes "start_backend here now b s = Some (r, s')" "quiet_base (snd b)" "all_quiet s"
  shows "undisturbed s s'"
proof -
  obtain ret s1 where i: "log_backend_init b s = Some (ret, s1)"
    and r: "(if ret < 0 then create_fail b s1
      else let (ok, s) = log_alloc s1
           in if \<not> ok then create_fail b s else announce_backend here now b s) = Some (r, s')"
    using assms(1) by (auto simp: start_backend_def bind_eq_Some_conv)
  obtain ok s2 where a: "log_alloc s1 = (ok, s2)" by (metis prod.exhaust)
  note c1 = init_undisturbed [OF i assms(2)]
  note c2 = undisturbed_trans [OF c1 alloc_undisturbed [OF a]]
  show ?thesis using r a assms(2) c1 c2 undisturbed_quiet [OF c2 assms(3)]
    by (auto split: if_splits dest!: create_fail_undisturbed announce_undisturbed intro: undisturbed_trans)
qed

lemma create_undisturbed:
  assumes "log_backend_create here now base name config s = Some (r, s')" "quiet_base base" "all_quiet s"
  shows "undisturbed s s'"
proof -
  obtain ok1 s1 where a1: "log_alloc s = (ok1, s1)" by (metis prod.exhaust)
  let ?s1 = "s1\<lparr>ls_next := Suc (ls_next s1)\<rparr>"
  define b where "b = (\<lparr>lb_id = ls_next s1, lb_name = (case name of None \<Rightarrow> bb_name base @ ''-'' @ int_dec (int (length (ls_backends s1)) + 1)
      | Some n \<Rightarrow> n), lb_config = config\<rparr>, base)"
  obtain ok2 s2 where a2: "log_alloc ?s1 = (ok2, s2)" by (metis prod.exhaust)
  obtain ok3 s3 where a3: "log_alloc s2 = (ok3, s3)" by (metis prod.exhaust)
  have q: "quiet_base (snd b)" using assms(2) by (simp add: b_def)
  have c1: "undisturbed s s1" by (rule alloc_undisturbed [OF a1])
  then have c2: "undisturbed s s2" using alloc_undisturbed [OF a2] by (auto intro: undisturbed_trans)
  then have c3: "undisturbed s s3" using alloc_undisturbed [OF a3] by (auto intro: undisturbed_trans)
  have f: "create_fail b x = Some (r, s') \<Longrightarrow> undisturbed s x \<Longrightarrow> undisturbed s s'" for x
    using create_fail_undisturbed [OF _ q] by (blast intro: undisturbed_trans)
  have st: "start_backend here now b x = Some (r, s') \<Longrightarrow> undisturbed s x \<Longrightarrow> undisturbed s s'" for x
    using start_undisturbed [OF _ q] undisturbed_quiet [OF _ assms(3)] by (blast intro: undisturbed_trans)
  show ?thesis
  proof (cases ok1)
    case False
    with assms(1) a1 c1 show ?thesis by (auto simp: log_backend_create_def)
  next
    case True
    then have "(if \<not> ok2 then create_fail b s2 else if bb_ctx_size base > 0 \<and> \<not> ok3 then create_fail b s3
        else start_backend here now b (if bb_ctx_size base > 0 then s3 else s2)) = Some (r, s')"
      using assms(1) a1 a2 a3 unfolding b_def
      by (cases "bb_ctx_size base > 0"; cases ok2; cases ok3) (simp_all add: log_backend_create_def Let_def cong: option.case_cong)
    then show ?thesis using f [OF _ c2] f [OF _ c3] st [OF _ c2] st [OF _ c3] by (auto split: if_splits)
  qed
qed

section \<open>The backends of the code\<close>

lemma on_cs_greads:
  assumes "on_cs f g = Some (r, g')" "\<And>r s'. f (g_cs g) = Some (r, s') \<Longrightarrow> reads_only (g_cs g) s'"
  shows "greads g g'"
  using assms by (auto simp: on_cs_def greads_def bind_eq_Some_conv)

lemma on_cs_string: "on_cs (confignode_path_get_string n p d) g = Some (r, g') \<Longrightarrow> greads g g'"
  by (erule on_cs_greads) (auto dest: reads)

lemma on_cs_bool: "on_cs (confignode_path_get_bool n p d) g = Some (r, g') \<Longrightarrow> greads g g'"
  by (erule on_cs_greads) (auto dest: reads)

lemma on_cs_int: "on_cs (confignode_path_get_int n p d) g = Some (r, g') \<Longrightarrow> greads g g'"
  by (erule on_cs_greads) (auto dest: reads)

lemma on_cs_lookup: "on_cs (confignode_path_lookup n p False) g = Some (r, g') \<Longrightarrow> greads g g'"
  by (erule on_cs_greads) (auto dest: reads)

lemma append_value_greads: "append_value b v g = Some (r, g') \<Longrightarrow> greads g g'"
  by (cases "galloc g") (auto simp: append_value_def Let_def bind_eq_Some_conv split: if_splits dest: galloc_greads)

lemma format_loop_greads: "format_loop item p b g = Some (r, g') \<Longrightarrow> greads g g'"
proof (induction "length p" arbitrary: p b g rule: less_induct)
  case less
  consider "p = []" | c where "p = [c]" | c d q where "p = c # d # q" by (cases p rule: remdups_adj.cases) auto
  then show ?case
  proof cases
    case (3 c d q)
    define q' where "q' = (if c = CHR ''%'' then q else d # q)"
    obtain v ok b1 g1 where a: "append_value b v g = Some ((ok, b1), g1)"
      "(if ok then format_loop item q' b1 g1 else Some ((False, b1), g1)) = Some (r, g')"
      using less.prems by (auto simp: 3 q'_def bind_eq_Some_conv split: if_splits)
    have "length q' < length p" by (simp add: 3 q'_def)
    from less.hyps [OF this, of b1 g1] a append_value_greads [OF a(1)] show ?thesis
      by (auto split: if_splits intro: greads_trans)
  qed (use less.prems in \<open>auto dest: append_value_greads\<close>)
qed

lemma log_formatter_greads: "log_formatter item format crlf g = Some (r, g') \<Longrightarrow> greads g g'"
  by (auto simp: log_formatter_def Let_def bind_eq_Some_conv split: if_splits prod.splits
      dest!: galloc_greads format_loop_greads append_value_greads intro: greads_trans)

lemma level_reads: "confignode_path_get_log_level n k d s = Some (r, s') \<Longrightarrow> reads_only s s'"
  by (auto simp: confignode_path_get_log_level_def bind_eq_Some_conv split: if_splits dest: reads)

lemma filter_path_reads: "log_check_regex_filter_path regexp v n k s = Some (r, s') \<Longrightarrow> reads_only s s'"
  by (auto simp: log_check_regex_filter_path_def bind_eq_Some_conv split: if_splits dest: reads)

lemma field_filters_reads: "field_filters regexp n fs s = Some (r, s') \<Longrightarrow> reads_only s s'"
proof (induction fs arbitrary: s)
  case (Cons f fs)
  then show ?case
    by (cases f) (auto simp: bind_eq_Some_conv split: if_splits dest!: filter_path_reads Cons.IH intro: reads_only_trans)
qed simp

lemma line_filter_reads: "line_filter regexp item n s = Some (r, s') \<Longrightarrow> reads_only s s'"
  by (auto simp: line_filter_def bind_eq_Some_conv split: if_splits dest!: confignode_path_lookup_reads intro: reads_only_trans)

lemma check_filter_reads:
  assumes "log_check_filter regexp item n s = Some (r, s')" shows "reads_only s s'"
proof (cases n)
  case (Some a)
  obtain l1 ok1 s1 where 1: "confignode_path_get_log_level n ''min-level'' LOG_DEBUG s = Some ((l1, ok1), s1)"
    using assms Some by (auto simp: log_check_filter_def bind_eq_Some_conv)
  note r1 = level_reads [OF 1]
  show ?thesis
  proof (cases "ok1 \<and> level_rank l1 > level_rank (lg_level item)")
    case True
    with assms Some 1 r1 show ?thesis by (simp add: log_check_filter_def)
  next
    case False
    with assms Some 1 obtain l2 ok2 s2 where 2: "confignode_path_get_log_level n ''max-level'' LOG_ERROR s1 = Some ((l2, ok2), s2)"
      by (auto simp: log_check_filter_def bind_eq_Some_conv)
    note r2 = reads_only_trans [OF r1 level_reads [OF 2]]
    show ?thesis using assms Some 1 2 False r2
      by (auto simp: log_check_filter_def bind_eq_Some_conv simp del: field_filters.simps split: if_splits
          dest!: field_filters_reads line_filter_reads intro: reads_only_trans)
  qed
qed (use assms in \<open>simp add: log_check_filter_def\<close>)

lemma on_cs_filter: "on_cs (log_check_filter regexp item n) g = Some (r, g') \<Longrightarrow> greads g g'"
  by (erule on_cs_greads) (rule check_filter_reads)

lemmas log_reads = on_cs_string on_cs_bool on_cs_int on_cs_lookup on_cs_filter log_formatter_greads galloc_greads

lemma file_writer_quiet: "quiet_op (log_file_writer regexp S item)"
  unfolding quiet_op_def
proof (intro allI impI)
  fix b g w r g' w'
  assume "log_file_writer regexp S item b (g, w) = Some (r, g', w')"
  note d = this [unfolded log_file_writer_def Let_def prod.case]
  from d obtain pass g1 where 1: "on_cs (log_check_filter regexp item (lb_config b)) g = Some (pass, g1)"
    by (auto simp: bind_eq_Some_conv)
  show "greads g g'"
  proof (cases pass)
    case False
    with d 1 on_cs_filter [OF 1] show ?thesis by simp
  next
    case True
    with d 1 obtain format ok g2 body g3 where
      2: "on_cs (confignode_path_get_string (lb_config b) (Some ''format'') None) g1 = Some ((format, ok), g2)"
      and 3: "log_formatter item format 1 g2 = Some (body, g3)"
      by (auto simp: bind_eq_Some_conv)
    have "g' = g3" using d True 1 2 3 by (auto simp: Let_def split: option.splits if_splits prod.splits)
    with on_cs_filter [OF 1] on_cs_string [OF 2] log_formatter_greads [OF 3] show ?thesis
      by (blast intro: greads_trans)
  qed
qed

lemma stdio_writer_quiet: "quiet_op (log_stdio_writer regexp wr item)"
  unfolding quiet_op_def
proof (intro allI impI)
  fix b g w r g' w'
  assume "log_stdio_writer regexp wr item b (g, w) = Some (r, g', w')"
  note d = this [unfolded log_stdio_writer_def Let_def prod.case]
  from d obtain pass g1 where 1: "on_cs (log_check_filter regexp item (lb_config b)) g = Some (pass, g1)"
    by (auto simp: bind_eq_Some_conv)
  show "greads g g'"
  proof (cases pass)
    case False
    with d 1 on_cs_filter [OF 1] show ?thesis by simp
  next
    case True
    with d 1 obtain format ok g2 out ok3 g3 body g4 where
      2: "on_cs (confignode_path_get_string (lb_config b) (Some ''format'') None) g1 = Some ((format, ok), g2)"
      and 3: "on_cs (confignode_path_get_string (lb_config b) (Some ''output'') None) g2 = Some ((out, ok3), g3)"
      and 4: "log_formatter item format 1 g3 = Some (body, g4)"
      by (auto simp: bind_eq_Some_conv)
    have "g' = g4" using d True 1 2 3 4 by (auto split: option.splits if_splits prod.splits)
    with on_cs_filter [OF 1] on_cs_string [OF 2] on_cs_string [OF 3] log_formatter_greads [OF 4] show ?thesis
      by (blast intro: greads_trans)
  qed
qed

lemma stdio_quiet: "quiet_base (log_backend_stdio regexp wr)"
  using stdio_writer_quiet [of regexp wr] by (simp add: quiet_base_def log_backend_stdio_def)

lemma efi_open_greads: "efi_open root path mode attr g = (r, g') \<Longrightarrow> greads g g'"
  by (auto simp: efi_open_def Let_def split: option.splits prod.splits dest: galloc_greads)

lemma set_size_greads: "efi_file_set_size f W n (g, w) = (st, g', w') \<Longrightarrow> greads g g'"
  by (auto simp: efi_file_set_size_def efi_file_get_info_def efi_file_get_info_by_def Let_def split: if_splits prod.splits
      dest: galloc_greads)

lemma prepare_greads: "prepare_log_file S f trunc (g, w) = (st, g', w') \<Longrightarrow> greads g g'"
  by (auto simp: prepare_log_file_def split: if_splits prod.splits dest: set_size_greads)

lemma file_open_greads:
  assumes "log_file_open S k ctx path (g, w) = Some (r, g', w')" shows "greads g g'"
proof -
  obtain status f g1 where o: "efi_open (sv_dir S) path LOG_FILE_MODE 0 g = ((status, f), g1)" by (metis prod.exhaust)
  note g1 = efi_open_greads [OF o]
  show ?thesis
  proof (cases "EFI_ERROR status")
    case True
    with assms o g1 show ?thesis by (auto simp: log_file_open_def fail_file_def Let_def)
  next
    case False
    then obtain fl where f: "f = Some fl" using assms o by (cases f) (auto simp: log_file_open_def)
    obtain st g2 io where p: "prepare_log_file S fl (lc_truncate ctx) (g1, lw_io (set_ctx k ctx w)) = (st, g2, io)"
      by (metis prod.exhaust)
    show ?thesis using assms o f False p greads_trans [OF g1 prepare_greads [OF p]]
      by (cases "EFI_ERROR st") (auto simp: log_file_open_def fail_file_def Let_def)
  qed
qed

lemma file_init_quiet: "quiet_op (log_file_init S)"
  unfolding quiet_op_def
proof (intro allI impI)
  fix b g w r g' w'
  assume d: "log_file_init S b (g, w) = Some (r, g', w')"
  show "greads g g'"
  proof (cases "sv_dir S = None")
    case True
    with d show ?thesis by (simp add: log_file_init_def Let_def)
  next
    case False
    with d obtain path ok1 g1 where 1: "on_cs (confignode_path_get_string (lb_config b) (Some ''path'') None) g = Some ((path, ok1), g1)"
      by (auto simp: log_file_init_def Let_def bind_eq_Some_conv)
    note g1 = on_cs_string [OF 1]
    show ?thesis
    proof (cases path)
      case None
      with d False 1 g1 show ?thesis by (simp add: log_file_init_def Let_def)
    next
      case (Some p)
      with d False 1 obtain nm ok2 g2 where 2: "on_cs (confignode_path_get_string (lb_config b) (Some ''encode'') None) g1 = Some ((nm, ok2), g2)"
        by (auto simp: log_file_init_def Let_def bind_eq_Some_conv)
      note g2 = greads_trans [OF g1 on_cs_string [OF 2]]
      show ?thesis
      proof (cases "if nm = None then Some ENC_UTF8 else encode_lookup nm")
        case None
        with d False 1 Some 2 g2 show ?thesis by (simp add: log_file_init_def Let_def)
      next
        case (Some enc)
        with d False 1 \<open>path = Some p\<close> 2 obtain trunc ok3 g3 ctx w3 where
          3: "on_cs (confignode_path_get_bool (lb_config b) (Some ''truncate'') False) g2 = Some ((trunc, ok3), g3)"
          and 4: "log_file_open S (lb_id b) ctx p (g3, w3) = Some (r, g', w')"
          by (auto simp: log_file_init_def Let_def bind_eq_Some_conv)
        show ?thesis using g2 on_cs_bool [OF 3] file_open_greads [OF 4] by (blast intro: greads_trans)
      qed
    qed
  qed
qed

lemma file_quiet: "quiet_base (log_backend_file regexp S)"
  using file_writer_quiet [of regexp S] file_init_quiet [of S]
  by (auto simp: quiet_base_def log_backend_file_def quiet_op_def log_file_deinit_def Let_def split: prod.splits)

section \<open>The start\<close>

definition good :: "'w log_state \<Rightarrow> 'w log_state \<Rightarrow> bool" where
  "good s0 s \<longleftrightarrow> log_inv s \<and> all_quiet s \<and> undisturbed s0 s"

lemma good_undisturbed: "good s0 s \<Longrightarrow> undisturbed s s' \<Longrightarrow> log_inv s' \<Longrightarrow> good s0 s'"
  by (auto simp: good_def intro: undisturbed_trans undisturbed_quiet)

lemma good_config:
  assumes "on_log_config f s = Some (r, s')" "\<And>r g'. f (ls_g s) = Some (r, g') \<Longrightarrow> greads (ls_g s) g'" "good s0 s"
  shows "good s0 s'"
proof -
  obtain g' where "f (ls_g s) = Some (r, g')" "s' = s\<lparr>ls_g := g'\<rparr>"
    using assms(1) by (auto simp: on_log_config_def bind_eq_Some_conv)
  with assms(2,3) have "undisturbed s s'" "log_inv s'" by (auto simp: undisturbed_def all_quiet_def good_def log_inv_def)
  with good_undisturbed [OF assms(3)] show ?thesis by blast
qed

lemma good_reads:
  "on_log_config (on_cs (confignode_path_get_string n p sd)) s = Some (x1, s') \<Longrightarrow> good s0 s \<Longrightarrow> good s0 s'"
  "on_log_config (on_cs (confignode_path_get_bool n p bd)) s = Some (x2, s') \<Longrightarrow> good s0 s \<Longrightarrow> good s0 s'"
  "on_log_config (on_cs (confignode_path_get_int n p k)) s = Some (x3, s') \<Longrightarrow> good s0 s \<Longrightarrow> good s0 s'"
  "on_log_config (on_cs (confignode_path_lookup n p False)) s = Some (x4, s') \<Longrightarrow> good s0 s \<Longrightarrow> good s0 s'"
  by (erule good_config; assumption?; erule on_cs_string on_cs_bool on_cs_int on_cs_lookup)+

lemma good_say: "log_say level func here lineno message now s = Some s' \<Longrightarrow> good s0 s \<Longrightarrow> good s0 s'"
  unfolding log_say_def using vprintf_undisturbed vprintf_inv by (metis good_def good_undisturbed)

lemma good_create: "log_backend_create here now base name config s = Some (r, s') \<Longrightarrow> quiet_base base \<Longrightarrow> good s0 s \<Longrightarrow> good s0 s'"
  using create_undisturbed create_inv by (metis good_def good_undisturbed)

lemma find_base: "log_backend_base_find bases t = Some base \<Longrightarrow> base \<in> set bases"
  by (auto simp: log_backend_base_find_def find_Some_iff)

lemma good_create_from:
  assumes "log_backend_create_from bases here now config s = Some (r, s')" "\<forall>base \<in> set bases. quiet_base base" "good s0 s"
  shows "good s0 s'"
proof (cases "config = None \<or> confignode_is_type config TYPE_MAP (g_cs (ls_g s)) = Some False")
  case True
  with assms(1,3) show ?thesis by (elim disjE) (auto simp: log_backend_create_from_def split: if_splits)
next
  case False
  with assms(1) obtain ty ok s1 where
    1: "on_log_config (on_cs (confignode_path_get_string config (Some ''backend'') None)) s = Some ((ty, ok), s1)"
    and r: "(case ty of None \<Rightarrow> Some (None, s1) | Some t \<Rightarrow> (case log_backend_base_find bases t of None \<Rightarrow> Some (None, s1)
      | Some base \<Rightarrow> do {
          ((name, _), s) \<leftarrow> on_log_config (on_cs (confignode_path_get_string config (Some ''name'') None)) s1;
          log_backend_create here now base name config s })) = Some (r, s')"
    by (auto simp: log_backend_create_from_def bind_eq_Some_conv split: if_splits)
  have s1: "good s0 s1" by (rule good_reads(1) [OF 1 assms(3)])
  consider "s' = s1" | base nm s2 ok2 where "base \<in> set bases"
      "on_log_config (on_cs (confignode_path_get_string config (Some ''name'') None)) s1 = Some ((nm, ok2), s2)"
      "log_backend_create here now base nm config s2 = Some (r, s')"
    using r by (cases ty) (auto simp: bind_eq_Some_conv split: option.splits dest: find_base)
  then show ?thesis
  proof cases
    case 2
    with assms(2) good_create [OF 2(3) _ good_reads(1) [OF 2(2) s1]] show ?thesis by blast
  qed (use s1 in simp)
qed

lemma good_create_backends:
  assumes "create_backends bases here now it s = Some s'" "\<forall>base \<in> set bases. quiet_base base" "good s0 s"
  shows "good s0 s'"
proof -
  have "(\<forall>base \<in> set bases. quiet_base base) \<longrightarrow> good s0 s \<longrightarrow> good s0 s'"
  proof (rule create_backends.raw_induct [OF _ assms(1), where P = "\<lambda>bases here now it s s'. (\<forall>base \<in> set bases. quiet_base base) \<longrightarrow> good s0 s \<longrightarrow> good s0 s'"],
      goal_cases)
    case (1 f bases here now it s y)
    show ?case
    proof (intro impI)
      assume q: "\<forall>base \<in> set bases. quiet_base base" and g: "good s0 s"
      show "good s0 y"
      proof (cases "it_node it = None")
        case True
        with 1 g show ?thesis by simp
      next
        case False
        with 1(2) obtain b s1 s2 it2 where a: "log_backend_create_from bases here now (it_node it) s = Some (b, s1)"
          "(if b \<noteq> None then Some s1 else log_say LOG_WARNING ''log_backends_init'' here 180
              (''failed to create log backend from config at index '' @ int_dec (it_index it)) now s1) = Some s2"
          "f bases here now it2 s2 = Some y"
          by (auto simp: bind_eq_Some_conv)
        have "good s0 s1" using good_create_from [OF a(1) q g] .
        then have "good s0 s2" using a(2) good_say by (cases b) auto
        with 1(1) [OF a(3)] q show ?thesis by blast
      qed
    qed
  qed
  with assms(2,3) show ?thesis by blast
qed

lemma good_backends_init:
  assumes "log_backends_init bases here now config s = Some s'" "\<forall>base \<in> set bases. quiet_base base" "good s0 s"
  shows "good s0 s'"
proof (cases config)
  case (Some a)
  with assms(1) obtain isarr s1 ismap where
    1: "(if isarr then do {
                it \<leftarrow> confignode_iter_start_ret config (g_cs (ls_g s));
                create_backends bases here now it s
              } else Some s) = Some s1"
    and 2: "(if ismap then do {
           (b, s) \<leftarrow> log_backend_create_from bases here now config s1;
           (if b \<noteq> None then Some s
            else log_say LOG_WARNING ''log_backends_init'' here 183 ''failed to create log backend from config'' now s)
         } else Some s1) = Some s'"
    unfolding log_backends_init_def by (auto simp: bind_eq_Some_conv simp del: bind.simps)
  have s1: "good s0 s1" using 1 good_create_backends assms(2,3) by (auto simp: bind_eq_Some_conv split: if_splits)
  show ?thesis
  proof (cases ismap)
    case True
    with 2 obtain b s2 where b: "log_backend_create_from bases here now config s1 = Some (b, s2)"
      "(if b \<noteq> None then Some s2
            else log_say LOG_WARNING ''log_backends_init'' here 183 ''failed to create log backend from config'' now s2) = Some s'"
      by (auto simp: bind_eq_Some_conv)
    with good_create_from [OF b(1) assms(2) s1] good_say show ?thesis by (cases b) auto
  qed (use 2 s1 in simp)
qed (use assms in \<open>simp add: log_backends_init_def\<close>)

text \<open>The integers of the configuration are 64-bit integers.\<close>

definition int64_config :: "cstate \<Rightarrow> bool" where
  "int64_config s \<longleftrightarrow> (\<forall>a n i. nodes s a = Some n \<longrightarrow> cv_v (cn_value n) = VInt i \<longrightarrow> i \<le> INT64_MAX)"

lemma get_int_bound:
  assumes "confignode_path_get_int node path def s = Some ((v, ok), s')" "int64_config s" "def \<le> INT64_MAX"
  shows "v \<le> INT64_MAX"
proof -
  obtain n s1 where l: "confignode_path_lookup node path False s = Some (n, s1)"
    "n = None \<longrightarrow> v = def" "n \<noteq> None \<longrightarrow> confignode_value_get_int n def s1 = Some (v, ok)"
    using assms(1) by (auto simp: confignode_path_get_int_def bind_eq_Some_conv split: if_splits)
  have i: "int64_config s1" using assms(2) reads_only_nodes [OF confignode_path_lookup_reads [OF l(1)]]
    by (simp add: int64_config_def)
  show ?thesis
  proof (cases n)
    case (Some a)
    then obtain c where c: "nodes s1 a = Some c" using l(3) by (auto simp: confignode_value_get_int_def node_at_def bind_eq_Some_conv)
    have b: "sr_val (strtoll 10 t) \<le> INT64_MAX" for t using strtoll_bounds [of 10 t] by simp
    show ?thesis using l(3) c Some assms(3) i b
      by (auto simp: confignode_value_get_int_def node_at_def int64_config_def Let_def INT64_MAX_def
          split: if_splits vdata.splits option.splits)
  qed (use l(2) assms(3) in simp)
qed

lemma good_limit:
  assumes "set_size_limit here now (v, ok) s = Some s'" "v \<le> INT64_MAX" "good s0 s"
  shows "good s0 s'"
proof (cases "ok \<and> v \<ge> 0 \<and> v \<le> SIZE_MOD - 1")
  case True
  with assms(1) have s': "s' = s\<lparr>ls_limit := v\<rparr>" by (auto simp: set_size_limit_def)
  have "undisturbed s s'" by (simp add: s')
  moreover have "log_inv s'" using assms(2,3) True by (auto simp: s' good_def log_inv_def INT64_MAX_def)
  ultimately show ?thesis using good_undisturbed [OF assms(3)] by blast
next
  case False
  with assms(1,3) good_say show ?thesis by (auto simp: set_size_limit_def split: if_splits)
qed

lemma log_init_good:
  assumes "log_init bases here there now s = Some s'" "bases \<noteq> []" "\<forall>base \<in> set bases. quiet_base base"
    "log_inv s" "all_quiet s" "int64_config (g_cs (ls_g s))"
  shows "good s s'"
proof -
  let ?r = "g_config (ls_g s)"
  obtain d ok1 s1 s2 bs s3 s4 l ok2 s5 s6 where
    1: "on_log_config (on_cs (confignode_path_get_bool ?r (Some ''log.defaults'') True)) s = Some ((d, ok1), s1)"
    and 2: "(if d then do { (_, s) \<leftarrow> log_backend_create here now (hd bases) None None s1; Some s } else Some s1) = Some s2"
    and 3: "on_log_config (on_cs (confignode_path_lookup ?r (Some ''log.backends'') False)) s2 = Some (bs, s3)"
    and 4: "(if bs = None then Some s3 else log_backends_init bases here now bs s3) = Some s4"
    and 5: "on_log_config (on_cs (confignode_path_get_int ?r (Some ''log.size-limit'') (ls_limit s4))) s4 = Some ((l, ok2), s5)"
    and 6: "set_size_limit there now (l, ok2) s5 = Some s6"
    and 7: "log_say LOG_INFO ''log_init'' there 135 ''log system initialized'' now s6 = Some s'"
    using assms(1) by (auto simp: log_init_def Let_def bind_eq_Some_conv simp del: bind.simps)
  have "good s s" using assms by (simp add: good_def)
  from good_reads(2) [OF 1 this] have g1: "good s s1" .
  have q: "quiet_base (hd bases)" using assms(2,3) by simp
  have g2: "good s s2" using 2 g1 good_create [OF _ q] by (auto simp: bind_eq_Some_conv split: if_splits)
  from good_reads(4) [OF 3 g2] have g3: "good s s3" .
  have g4: "good s s4" using 4 g3 good_backends_init [OF _ assms(3)] by (auto split: if_splits)
  from good_reads(3) [OF 5 g4] have g5: "good s s5" .
  have "int64_config (g_cs (ls_g s4))" using g4 assms(6) reads_only_nodes
    by (fastforce simp: good_def undisturbed_def greads_def int64_config_def)
  moreover have "ls_limit s4 \<le> INT64_MAX" using g4 by (simp add: good_def log_inv_def INT64_MAX_def)
  ultimately have "l \<le> INT64_MAX" using 5 get_int_bound
    by (fastforce simp: on_log_config_def on_cs_def bind_eq_Some_conv)
  from good_limit [OF 6 this g5] show ?thesis by (rule good_say [OF 7])
qed

end
