(* ===== verification/LogWrites.thy ===== *)
theory LogWrites
  imports LogStart EncodeFacts
begin

text \<open>
  What the writers of the log put out: a message is written whole and in order, however few bytes a call takes, and a
  file in UTF-16 gets exactly the UTF-16 form of the text, although it is converted through a small buffer.
\<close>

declare utf8_loop.simps [simp del] utf16_loop.simps [simp del]

section \<open>A descriptor\<close>

text \<open>A call that takes \<open>n\<close> bytes has put out the first \<open>n\<close> bytes of the buffer.\<close>

definition takes_prefix :: "(int \<Rightarrow> cstring \<Rightarrow> 'w \<Rightarrow> int \<times> 'w) \<Rightarrow> (int \<Rightarrow> 'w \<Rightarrow> cstring) \<Rightarrow> bool" where
  "takes_prefix wr sink \<longleftrightarrow> (\<forall>fd buffer w n w'. wr fd buffer w = (n, w') \<longrightarrow> sink fd w' = sink fd w @ take (nat n) buffer)"

lemma stdio_write_all_sink:
  assumes "log_stdio_write_all wr fd buffer w = (ret, w')" "takes_prefix wr sink"
  shows "\<exists>k. sink fd w' = sink fd w @ take k buffer \<and> (ret = 0 \<longrightarrow> k = length buffer) \<and> (ret = 0 \<or> ret = -1)"
  using assms
proof (induction "length buffer" arbitrary: buffer w rule: less_induct)
  case less
  note d = less.prems(1) [unfolded log_stdio_write_all.simps [of wr fd buffer w]]
  consider "fd < 0" | "\<not> fd < 0" "buffer = []" | "\<not> fd < 0" "buffer \<noteq> []" by blast
  then show ?case
  proof cases
    case 3
    obtain n w1 where n: "wr fd buffer w = (n, w1)" by (metis prod.exhaust)
    have s: "sink fd w1 = sink fd w @ take (nat n) buffer" using n less.prems(2) by (auto simp: takes_prefix_def)
    show ?thesis
    proof (cases "n \<le> 0 \<or> n > int (length buffer)")
      case True
      with d 3 n s show ?thesis by auto
    next
      case False
      with d 3 n have r: "log_stdio_write_all wr fd (drop (nat n) buffer) w1 = (ret, w')" by auto
      have "length (drop (nat n) buffer) < length buffer" using 3 False by simp
      from less.hyps [OF this r less.prems(2)] obtain k where
        k: "sink fd w' = sink fd w1 @ take k (drop (nat n) buffer)" "ret = 0 \<longrightarrow> k = length (drop (nat n) buffer)" "ret = 0 \<or> ret = -1"
        by blast
      have "take (nat n) buffer @ take k (drop (nat n) buffer) = take (nat n + k) buffer" by (simp add: take_add)
      with k s False show ?thesis by (intro exI [of _ "nat n + k"]) auto
    qed
  qed (use d in \<open>auto intro: exI [of _ 0]\<close>)
qed

section \<open>A file in UTF-16\<close>

lemma utf8_loop_full:
  assumes "i < length (ei_bytes c)" "ei_bytes c ! i \<noteq> 0" "transfer_step c cap 1 2 i out = None"
    and "utf8_decode (drop i (ei_bytes c)) = Some (cp, k)"
    and "\<not> length (utf16_units cp) \<le> cap div 2 - length out div 2"
  shows "utf8_loop c cap bad i out = (EFI_OUT_OF_RESOURCES, bad, i, out)"
  using assms by (simp add: utf8_loop.simps [of c cap bad i out] Let_def)

lemma utf16_units_short: "length (utf16_units cp) \<le> 2"
  by (simp add: utf16_units_def Let_def)

text \<open>A chunk: the code points that fit, and the room that was left was too little for the next.\<close>

lemma utf8_loop_chunk:
  assumes "ei_transfers c = None" "ei_src_ptr c = Some (pre @ text8 cps)" "ctext cps" "i = length pre"
    and "length out \<le> cap" "even (length out)" "even cap"
  shows "\<exists>as bs. cps = as @ bs \<and>
     utf8_loop c cap bad i out =
       (if bs = [] then EFI_SUCCESS else EFI_OUT_OF_RESOURCES, bad, i + length (text8 as), out @ le_units (text16 as)) \<and>
     length out + 2 * length (text16 as) \<le> cap \<and>
     (bs \<noteq> [] \<longrightarrow> cap < length out + 2 * length (text16 as) + 4)"
  using assms(2-6)
proof (induction cps arbitrary: pre i out)
  case Nil
  then show ?case by (simp add: utf8_loop_stop)
next
  case (Cons cp cps)
  have cp: "scalar cp" "cp \<noteq> 0" using Cons.prems(2) by (auto simp: ctext_def)
  have d: "utf8_decode (drop i (ei_bytes c)) = Some (cp, length (utf8_bytes cp))"
    using Cons.prems utf8_decode_bytes [OF cp(1)] by simp
  have half: "cap div 2 - length out div 2 = (cap - length out) div 2"
    using Cons.prems assms(7) by (auto elim!: evenE)
  have nz: "i < length (ei_bytes c)" "ei_bytes c ! i \<noteq> 0"
    using Cons.prems(1,3) utf8_bytes_ne(1) [of cp] utf8_bytes_nonzero [OF cp]
    by (cases "utf8_bytes cp"; simp add: nth_append)+
  have t: "transfer_step c cap 1 2 i out = None" using assms(1) by (simp add: transfer_step_def)
  show ?case
  proof (cases "length (utf16_units cp) \<le> cap div 2 - length out div 2")
    case False
    then have f: "cap < length out + 4" using utf16_units_short [of cp] unfolding half by linarith
    with utf8_loop_full [OF nz t d False] Cons.prems(4) show ?thesis
      by (intro exI [of _ "[]"] exI [of _ "cp # cps"]) simp
  next
    case True
    have e: "utf8_loop c cap bad i out =
        utf8_loop c cap bad (i + length (utf8_bytes cp)) (out @ le_units (utf16_units cp))"
      by (rule utf8_loop_plain [OF nz t d True])
    have "length (out @ le_units (utf16_units cp)) \<le> cap" using True half Cons.prems(4) by auto
    from Cons.IH [of "pre @ utf8_bytes cp" "i + length (utf8_bytes cp)", OF _ _ _ this] Cons.prems
    obtain as bs where "cps = as @ bs"
      "utf8_loop c cap bad (i + length (utf8_bytes cp)) (out @ le_units (utf16_units cp)) =
       (if bs = [] then EFI_SUCCESS else EFI_OUT_OF_RESOURCES, bad, i + length (utf8_bytes cp) + length (text8 as),
        (out @ le_units (utf16_units cp)) @ le_units (text16 as))"
      "length (out @ le_units (utf16_units cp)) + 2 * length (text16 as) \<le> cap"
      "bs \<noteq> [] \<longrightarrow> cap < length (out @ le_units (utf16_units cp)) + 2 * length (text16 as) + 4"
      by (auto simp: ctext_def)
    with e show ?thesis by (intro exI [of _ "cp # as"] exI [of _ bs]) auto
  qed
qed

text \<open>A \<open>Write\<close> that succeeds with all bytes has put them out.\<close>

definition writes_out :: "'w efi_writer \<Rightarrow> ('w \<Rightarrow> cstring) \<Rightarrow> bool" where
  "writes_out W sink \<longleftrightarrow>
     (\<forall>buffer w st w'. ew_write W buffer w = ((st, int (length buffer)), w') \<longrightarrow> \<not> EFI_ERROR st \<longrightarrow> sink w' = sink w @ buffer)"

lemma file_write_all_sink:
  assumes "log_file_write_all W buffer w = (ret, w')" "writes_out W sink"
  shows "ret = 0 \<and> sink w' = sink w @ buffer \<or> ret = -1"
  using assms by (auto simp: log_file_write_all_def writes_out_def split: if_splits prod.splits)

lemma bytes_text_simps [simp]: "bytes_text [] = []" "bytes_text (xs @ ys) = bytes_text xs @ bytes_text ys"
  by (simp_all add: bytes_text_def)

lemma file_convert_chunk:
  assumes "ctext cps" "cps \<noteq> []"
  obtains as bs where "cps = as @ bs" "as \<noteq> []" "2 * length (text16 as) \<le> 254"
    "encode_convert False (log_enc_in ENC_UTF16 (text8 cps)) enc_out_zero =
       (if bs = [] then EFI_SUCCESS else EFI_OUT_OF_RESOURCES,
        \<lparr>eo_src_used = length (text8 as), eo_dst_wrote = 2 * length (text16 as), eo_have_invalid = False,
         eo_buf = le_units (text16 as) @ [0, 0]\<rparr>)"
proof -
  let ?c = "log_enc_in ENC_UTF16 (text8 cps)"
  obtain as bs where a: "cps = as @ bs"
    "utf8_loop ?c 254 False 0 [] =
       (if bs = [] then EFI_SUCCESS else EFI_OUT_OF_RESOURCES, False, 0 + length (text8 as), [] @ le_units (text16 as))"
    "length ([] :: bytes) + 2 * length (text16 as) \<le> 254" "bs \<noteq> [] \<longrightarrow> 254 < length ([] :: bytes) + 2 * length (text16 as) + 4"
    using utf8_loop_chunk [of ?c "[]" cps 0 "[]" 254 False] assms(1) by (auto simp: log_enc_in_def)
  have "as \<noteq> []" using a(1,4) assms(2) by auto
  with a that show thesis
    by (simp add: encode_convert_def encode_dispatch_def encode_utf8_to_utf16_convert_def log_enc_in_def enc_out_zero_def)
qed

lemma text8_append: "text8 (xs @ ys) = text8 xs @ text8 ys" "text16 (xs @ ys) = text16 xs @ text16 ys"
  by (simp_all add: text8_def text16_def)

lemma text8_ne: "xs \<noteq> [] \<Longrightarrow> text8 xs \<noteq> [] \<and> text16 xs \<noteq> []"
  using utf8_bytes_ne by (cases xs) auto

lemma file_convert_sink:
  assumes "file_convert_loop W ENC_UTF16 (text8 cps) w = (ret, w')" "ctext cps" "writes_out W sink"
  shows "ret = 0 \<and> sink w' = sink w @ bytes_text (le_units (text16 cps)) \<or> ret = -1"
  using assms
proof (induction "length cps" arbitrary: cps w rule: less_induct)
  case less
  show ?case
  proof (cases "cps = []")
    case True
    with less.prems show ?thesis by (simp add: file_convert_loop.simps bytes_text_def)
  next
    case False
    obtain as bs where a: "cps = as @ bs" "as \<noteq> []" "2 * length (text16 as) \<le> 254"
      "encode_convert False (log_enc_in ENC_UTF16 (text8 cps)) enc_out_zero =
       (if bs = [] then EFI_SUCCESS else EFI_OUT_OF_RESOURCES,
        \<lparr>eo_src_used = length (text8 as), eo_dst_wrote = 2 * length (text16 as), eo_have_invalid = False,
         eo_buf = le_units (text16 as) @ [0, 0]\<rparr>)"
      using file_convert_chunk [OF less.prems(2) False] by blast
    have ne: "text8 cps \<noteq> []" "text8 as \<noteq> []" "text16 as \<noteq> []" using text8_ne a(2) False by auto
    have b: "bs \<noteq> [] \<Longrightarrow> text8 bs \<noteq> []" using text8_ne by blast
    obtain r1 w1 where wr: "log_file_write_all W (bytes_text (le_units (text16 as))) w = (r1, w1)" by (metis prod.exhaust)
    have t: "length (text8 cps) = length (text8 as) + length (text8 bs)" "drop (length (text8 as)) (text8 cps) = text8 bs"
      by (simp_all add: a(1) text8_append)
    have step: "file_convert_loop W ENC_UTF16 (text8 cps) w = (if r1 < 0 then (-1, w1) else file_convert_loop W ENC_UTF16 (text8 bs) w1)"
      by (subst file_convert_loop.simps) (use ne a(3) b wr in \<open>auto simp: a(4) t\<close>)
    show ?thesis
    proof (cases "r1 < 0")
      case True
      with step less.prems(1) show ?thesis by simp
    next
      case False
      with file_write_all_sink [OF wr less.prems(3)] have s1: "sink w1 = sink w @ bytes_text (le_units (text16 as))" by simp
      have "length bs < length cps" "ctext bs" using a(1,2) less.prems(2) by (auto simp: ctext_def)
      from less.hyps [OF this(1) _ this(2) less.prems(3), of w1] step False less.prems(1) s1 show ?thesis
        by (auto simp: a(1) text8_append)
    qed
  qed
qed

end
