(* ===== verification/Samples.thy ===== *)
theory Samples
  imports ListObj ConfigMerge ConfigLookup EncodeFacts ConfFacts
begin

text \<open>
  Concrete inputs the witnesses of the properties share: a list of three strings on the heap and a
  state holding the two configurations \<open>{a: 1, list: [x]}\<close> and \<open>{list: [y], b: true}\<close>.
\<close>

section \<open>A list\<close>

definition demo_cells :: "(addr \<times> cstring option) list" where
  "demo_cells = [(1, Some ''b''), (2, Some ''c''), (3, Some ''a'')]"

definition demo_heap :: "cstring lheap" where
  "demo_heap =
     \<lparr>lh_cells = map_of [(1, \<lparr>lc_prev = None, lc_next = Some 2, lc_data = Some ''b''\<rparr>),
        (2, \<lparr>lc_prev = Some 1, lc_next = Some 3, lc_data = Some ''c''\<rparr>),
        (3, \<lparr>lc_prev = Some 2, lc_next = None, lc_data = Some ''a''\<rparr>)],
      lh_nxt = 4, lh_errno = 0, lh_oom = (\<lambda>_. False), lh_tick = 0, lh_freed = []\<rparr>"

lemma demo_dlist: "dlist (lh_cells demo_heap) demo_cells"
  by (simp add: dlist_def demo_heap_def demo_cells_def)

lemma demo_addrs: "2 \<in> addrs demo_cells"
  by (simp add: demo_cells_def)

lemma demo_wf_heap: "wf_heap demo_heap"
  by (auto simp: wf_heap_def demo_heap_def)

lemma demo_rep: "list_rep demo_heap (Some 2) (map snd demo_cells)"
  using demo_dlist demo_addrs demo_wf_heap by (auto simp: list_rep_def)

definition empty_heap :: "cstring lheap" where
  "empty_heap =
     \<lparr>lh_cells = (\<lambda>_. None), lh_nxt = 1, lh_errno = 0, lh_oom = (\<lambda>_. False), lh_tick = 0, lh_freed = []\<rparr>"

lemma empty_rep: "list_rep empty_heap None []"
  by (simp add: list_rep_def wf_heap_def empty_heap_def)

section \<open>Two configurations\<close>

definition demo_node :: "ptr \<Rightarrow> cstring option \<Rightarrow> int \<Rightarrow> ntype \<Rightarrow> addr list \<Rightarrow> vdata \<Rightarrow> cnode" where
  "demo_node p k i ty is v =
     \<lparr>cn_parent = p, cn_key = k, cn_index = i, cn_type = ty, cn_items = is,
      cn_value = \<lparr>cv_v = v, cv_len = 1\<rparr>\<rparr>"

definition demo_x :: atree where
  "demo_x = AT 4 (demo_node (Some 3) None 0 TYPE_VALUE [] (VString (Some ''x''))) []"

definition demo_tree :: atree where
  "demo_tree = AT 1 (demo_node None None (-1) TYPE_MAP [2, 3] (VString None))
     [AT 2 (demo_node (Some 1) (Some ''a'') (-1) TYPE_VALUE [] (VInt 1)) [],
      AT 3 (demo_node (Some 1) (Some ''list'') (-1) TYPE_ARRAY [4] (VString None)) [demo_x]]"

definition demo_over :: atree where
  "demo_over = AT 10 (demo_node None None (-1) TYPE_MAP [11, 12] (VString None))
     [AT 11 (demo_node (Some 10) (Some ''list'') (-1) TYPE_ARRAY [13] (VString None))
        [AT 13 (demo_node (Some 11) None 0 TYPE_VALUE [] (VString (Some ''y''))) []],
      AT 12 (demo_node (Some 10) (Some ''b'') (-1) TYPE_VALUE [] (VBool True)) []]"

fun tree_nodes :: "atree \<Rightarrow> (addr \<times> cnode) list" where
  "tree_nodes (AT a n ks) = (a, n) # concat (map tree_nodes ks)"

definition demo_state :: cstate where
  "demo_state = \<lparr>nodes = map_of (tree_nodes demo_tree @ tree_nodes demo_over), cnxt = 20,
     coom = (\<lambda>_. False), ctick = 0\<rparr>"

lemmas demo_defs = demo_node_def demo_x_def demo_tree_def demo_over_def demo_state_def

lemma demo_holds:
  "holds (nodes demo_state) None demo_tree" "holds (nodes demo_state) None demo_over"
  by (simp_all add: demo_defs)

lemma demo_twf: "twf demo_tree" "twf demo_over"
  by (simp_all add: demo_defs kids_ok_def)

lemma demo_distinct:
  "distinct (taddrs demo_tree)" "set (taddrs demo_over) \<inter> set (taddrs demo_tree) = {}"
  by (simp_all add: demo_defs)

lemma demo_addr: "at_addr demo_tree = 1" "at_addr demo_over = 10" "at_addr demo_x = 4"
  by (simp_all add: demo_defs)

lemma demo_wf_state: "wf_state demo_state"
  by (auto simp: wf_state_def demo_defs)

lemma demo_no_oom: "no_oom demo_state"
  by (simp add: no_oom_def demo_state_def)

lemmas demo_config = demo_holds demo_twf demo_distinct demo_wf_state demo_no_oom

definition demo_path :: "pcomp list" where
  "demo_path = [PKey ''list'', PIdx 0]"

lemma demo_path_good: "\<forall>c \<in> set demo_path. good_comp c"
  by (simp add: demo_path_def good_comp_def)

lemma demo_path_len: "length (path_text demo_path) < 64"
  by (simp add: demo_path_def path_text_def int_dec_def nat_dec.simps)

definition demo_missing :: "pcomp list" where
  "demo_missing = [PKey ''list'', PIdx 7]"

lemma demo_missing_good: "\<forall>c \<in> set demo_missing. good_comp c"
  by (simp add: demo_missing_def good_comp_def SIZE_MAX_def)

lemma demo_missing_at: "tree_at demo_tree demo_missing = None"
  by (simp add: demo_missing_def demo_defs)

lemma demo_path_at: "tree_at demo_tree demo_path = Some demo_x"
  by (simp add: demo_path_def demo_defs)

section \<open>A conversion\<close>

definition demo_conv :: enc_in where
  "demo_conv = \<lparr>ei_src = ENC_UTF8, ei_dst = ENC_UTF16, ei_src_ptr = Some [0x41, 0x42, 0x43], ei_has_dst = True,
     ei_dst_size = 5, ei_transfers = None, ei_allow_invalid = False\<rparr>"

section \<open>The text of a configuration\<close>

definition demo_over_leaves :: "(cstring \<times> cvalue) list" where
  "demo_over_leaves = [(''list[0]'', \<lparr>cv_v = VString (Some ''y''), cv_len = 1\<rparr>), (''b'', \<lparr>cv_v = VBool True, cv_len = 1\<rparr>)]"

definition demo_text :: cstring where
  "demo_text = ''list[0] = '' @ [CHR 0x22] @ ''y'' @ [CHR 0x22, LF] @ ''b = true'' @ [LF]"

lemma demo_over_map: "cn_type (at_node demo_over) = TYPE_MAP"
  by (simp add: demo_defs)

lemma demo_leaves: "tleaves [] (erase demo_over) = Some demo_over_leaves"
proof -
  have "erase demo_over = CMap [(''list'', CArr [CVal \<lparr>cv_v = VString (Some ''y''), cv_len = 1\<rparr>]),
      (''b'', CVal \<lparr>cv_v = VBool True, cv_len = 1\<rparr>)]"
    by (simp add: demo_defs)
  moreover have "tleaves [] (CMap [(''list'', CArr [CVal \<lparr>cv_v = VString (Some ''y''), cv_len = 1\<rparr>]),
      (''b'', CVal \<lparr>cv_v = VBool True, cv_len = 1\<rparr>)]) = Some demo_over_leaves" by code_simp
  ultimately show ?thesis by simp
qed

lemma demo_exact: "\<forall>l \<in> set demo_over_leaves. exact_value (snd l)"
  by (simp add: demo_over_leaves_def exact_value_def line_end_def)

lemma demo_lines: "concat (map leaf_line demo_over_leaves) = demo_text"
  by (simp add: demo_over_leaves_def demo_text_def leaf_line_def leaf_text_def value_text_def conf_value_pieces_def)

lemma demo_text_length: "length demo_text < SIZE_MAX"
  by (simp add: demo_text_def SIZE_MAX_def)

end
