(* ===== verification/LogSamples.thy ===== *)
theory LogSamples
  imports LogStartFacts LogWrites Samples
begin

text \<open>
  A log for the witnesses: a configuration with a limit of 400 bytes and a backend of an unknown kind, a filter, and a
  system that takes five bytes a time.
\<close>

definition log_tree :: atree where
  "log_tree = AT 1 (demo_node None None (-1) TYPE_MAP [2] (VString None))
     [AT 2 (demo_node (Some 1) (Some ''log'') (-1) TYPE_MAP [3, 4, 6] (VString None))
        [AT 3 (demo_node (Some 2) (Some ''size-limit'') (-1) TYPE_VALUE [] (VInt 400)) [],
         AT 4 (demo_node (Some 2) (Some ''backends'') (-1) TYPE_MAP [5] (VString None))
           [AT 5 (demo_node (Some 4) (Some ''backend'') (-1) TYPE_VALUE [] (VString (Some ''syslog''))) []],
         AT 6 (demo_node (Some 2) (Some ''defaults'') (-1) TYPE_VALUE [] (VBool False)) []]]"

definition filter_tree :: atree where
  "filter_tree = AT 10 (demo_node None None (-1) TYPE_MAP [11, 12] (VString None))
     [AT 11 (demo_node (Some 10) (Some ''min-level'') (-1) TYPE_VALUE [] (VString (Some ''info''))) [],
      AT 12 (demo_node (Some 10) (Some ''tag'') (-1) TYPE_ARRAY [13] (VString None))
        [AT 13 (demo_node (Some 12) None 0 TYPE_VALUE [] (VString (Some ''noise''))) []]]"

definition log_config :: cstate where
  "log_config = \<lparr>nodes = map_of (tree_nodes log_tree @ tree_nodes filter_tree), cnxt = 20, coom = (\<lambda>_. False), ctick = 0\<rparr>"

lemmas log_config_defs = log_config_def log_tree_def filter_tree_def demo_node_def

lemma filter_config: "holds (nodes log_config) None filter_tree" "twf filter_tree" "no_oom log_config"
  by (simp_all add: log_config_defs kids_ok_def cstr_def no_oom_def)

lemma log_int64: "int64_config log_config"
  by (auto simp: int64_config_def log_config_defs INT64_MAX_def split: if_splits)

definition demo_time :: efi_time where
  "demo_time = \<lparr>et_year = 2025, et_month = 1, et_day = 2, et_hour = 3, et_minute = 4, et_second = 5, et_nanosecond = 6\<rparr>"

definition demo_item :: log_item where
  "demo_item = \<lparr>lg_level = LOG_WARNING, lg_time = demo_time, lg_flushed = False, lg_backends = [], lg_size = 90,
     lg_lineno = 7, lg_tag = Some ''noise'', lg_file = None, lg_function = None, lg_content = ''hello''\<rparr>"

text \<open>A pattern matches itself.\<close>

definition same_text :: "cstring \<Rightarrow> cstring \<Rightarrow> int" where
  "same_text p s = (if p = s then 1 else 0)"

lemma item_unwanted: "\<not> wanted same_text filter_tree demo_item"
  by (simp add: wanted_def filtered_fields_def rejects_def patterns_at_def entry_at_def filter_tree_def demo_node_def
      demo_item_def node_text_def same_text_def)

definition five_bytes :: "int \<Rightarrow> cstring \<Rightarrow> cstring \<Rightarrow> int \<times> cstring" where
  "five_bytes fd buffer w = (min 5 (int (length buffer)), w @ take 5 buffer)"

definition file_sink :: "cstring efi_writer" where
  "file_sink = \<lparr>ew_setpos = (\<lambda>_ w. (EFI_SUCCESS, w)), ew_write = (\<lambda>b w. ((EFI_SUCCESS, int (length b)), w @ b)),
     ew_flush = (\<lambda>w. (EFI_SUCCESS, w)), ew_setsize = (\<lambda>_ w. (EFI_SUCCESS, []))\<rparr>"

lemma file_sink: "writes_out file_sink id"
  by (simp add: writes_out_def file_sink_def)

definition log_sample_services :: "cstring log_services" where
  "log_sample_services = \<lparr>sv_write = five_bytes, sv_dir = None, sv_file = file_sink, sv_close = (\<lambda>w. (EFI_SUCCESS, w))\<rparr>"

definition log_bases :: "cstring log_world log_backend_base list" where
  "log_bases = log_backend_bases same_text log_sample_services"

definition empty_log :: "cstring log_world log_state" where
  "empty_log = \<lparr>ls_items = [], ls_backends = [], ls_limit = 1048576, ls_cur = 0, ls_next = 0,
     ls_g = \<lparr>g_cs = log_config, g_next = 100, g_config = Some 1, g_sysinfo = None, g_ktype = None, g_device_name = None,
       g_profiles = [], g_menu = None, g_sdboot = None\<rparr>,
     ls_world = \<lparr>lw_ctx = (\<lambda>_. zero_ctx), lw_io = []\<rparr>\<rparr>"

lemma empty_log: "log_inv empty_log" "all_quiet empty_log" "int64_config (g_cs (ls_g empty_log))"
  using log_int64 by (simp_all add: log_inv_def all_quiet_def empty_log_def SIZE_MOD_def)

declare path_lookup.simps [code] grow_cap.simps [code] regex_walk.simps [code] create_backends.simps [code]

definition started_log :: "cstring log_world log_state" where
  "started_log = the (log_init log_bases ''backend.c'' ''base.c'' demo_time empty_log)"

lemma started_log: "log_init log_bases ''backend.c'' ''base.c'' demo_time empty_log = Some started_log"
proof -
  have "log_init log_bases ''backend.c'' ''base.c'' demo_time empty_log \<noteq> None" by code_simp
  then show ?thesis by (auto simp: started_log_def)
qed

text \<open>A log with a backend that has not got the item.\<close>

definition waiting_log :: "cstring log_world log_state" where
  "waiting_log = empty_log\<lparr>ls_items := [demo_item], ls_cur := 90, ls_next := 1,
     ls_backends := [(\<lparr>lb_id = 0, lb_name = ''stdio-1'', lb_config = Some 10\<rparr>, hd log_bases)]\<rparr>"

lemma demo_item_ok: "item_ok (ls_next (waiting_log\<lparr>ls_limit := n\<rparr>)) demo_item"
  by (simp add: item_ok_def demo_item_def)

lemma waiting_log: "log_inv waiting_log" "log_inv (waiting_log\<lparr>ls_limit := 150\<rparr>)"
  by (simp_all add: log_inv_def waiting_log_def empty_log_def item_ok_def demo_item_def SIZE_MOD_def
      log_item_is_fully_flushed_def log_item_was_flushed_to_def)

end
