(* ===== verification/PathUtil.thy ===== *)
theory PathUtil
  imports CNum
begin

text \<open>
  \<open>src/lib/path.c\<close>: normalising and joining paths into a bounded buffer, and the last component and
  the directory of a path. The buffer's content is the text up to its NUL; a \<open>NULL\<close> buffer is
  \<open>None\<close>. In the loop of \<open>path_resolve\<close>, \<open>out\<close> is what has been written (so \<open>len\<close> is its length),
  \<open>room\<close> is \<open>size\<close> and \<open>cur\<close> is the rest of the path.
\<close>

section \<open>Operations\<close>

definition is_sep :: "char \<Rightarrow> bool" where
  "is_sep c \<longleftrightarrow> c = CHR ''/'' \<or> c = CHR 0x5C"

text \<open>The two loops that take the last component off again.\<close>

definition path_up :: "char \<Rightarrow> cstring \<Rightarrow> cstring" where
  "path_up sep out =
     (if out = [] then []
      else rev (dropWhile (\<lambda>c. c \<noteq> sep) (rev (if last out = sep then butlast out else out))))"

definition at_start :: "cstring \<Rightarrow> bool" where
  "at_start out \<longleftrightarrow> out = [] \<or> is_sep (last out)"

definition at_end :: "cstring \<Rightarrow> bool" where
  "at_end cur \<longleftrightarrow> cur = [] \<or> is_sep (hd cur)"

function path_loop :: "char \<Rightarrow> cstring \<Rightarrow> nat \<Rightarrow> cstring \<Rightarrow> cstring" where
  "path_loop sep out room [] = out"
| "path_loop sep out room (c # cs) =
     (if room = 0 then out
      else if is_sep c then
        (if out \<noteq> [] \<and> last out \<noteq> sep then path_loop sep (out @ [sep]) (room - 1) cs
         else path_loop sep out room cs)
      else if c = CHR ''.'' \<and> at_start out \<and> at_end cs then
        path_loop sep out room (tl cs)
      else if c = CHR ''.'' \<and> at_start out \<and> cs \<noteq> [] \<and> hd cs = CHR ''.'' \<and> at_end (tl cs) then
        path_loop sep (path_up sep out) (room + (length out - length (path_up sep out))) (tl (tl cs))
      else path_loop sep (out @ [c]) (room - 1) cs)"
  by pat_completeness auto
termination
  by (relation "measure (\<lambda>(sep, out, room, cur). length cur)") auto

definition path_resolve ::
  "cstring option \<Rightarrow> nat \<Rightarrow> char \<Rightarrow> cstring option \<Rightarrow> nat \<times> cstring option" where
  "path_resolve buff sz sep path =
     (case (buff, path) of
        (Some b, Some p) \<Rightarrow>
          if sz = 0 then (0, buff)
          else let out = path_loop (if sep = NUL then CHR ''/'' else sep) [] (sz - 1) p
               in (length out, Some out)
      | _ \<Rightarrow> (0, buff))"

text \<open>\<open>oom\<close>: whether the one \<open>malloc\<close> fails.\<close>

definition path_merge ::
  "bool \<Rightarrow> cstring option \<Rightarrow> nat \<Rightarrow> char \<Rightarrow> cstring option \<Rightarrow> cstring option \<Rightarrow> nat \<times> cstring option" where
  "path_merge oom buff sz sep path1 path2 =
     (if buff = None \<or> sz = 0 then (0, buff)
      else case (path1, path2) of
        (None, None) \<Rightarrow> (0, Some [])
      | (Some p1, None) \<Rightarrow> path_resolve (Some []) sz sep path1
      | (None, Some p2) \<Rightarrow> path_resolve (Some []) sz sep path2
      | (Some p1, Some p2) \<Rightarrow>
          if length p1 > SIZE_MAX - length p2 - 2 \<or> oom then (0, Some [])
          else path_resolve (Some []) sz sep (Some (p1 @ CHR ''/'' # p2)))"

definition strip_seps :: "cstring \<Rightarrow> cstring" where
  "strip_seps p = rev (dropWhile is_sep (rev p))"

fun base_start :: "cstring \<Rightarrow> cstring \<Rightarrow> cstring" where
  "base_start start [] = start"
| "base_start start (c # p) = base_start (if is_sep c then p else start) p"

definition path_basename :: "cstring option \<Rightarrow> nat \<Rightarrow> cstring option \<Rightarrow> cstring option" where
  "path_basename buff sz path =
     (case (buff, path) of
        (Some b, Some p) \<Rightarrow>
          if sz = 0 then None
          else Some (take (sz - 1) (base_start (strip_seps p) (strip_seps p)))
      | _ \<Rightarrow> None)"

definition path_dirname :: "cstring option \<Rightarrow> nat \<Rightarrow> cstring option \<Rightarrow> cstring option" where
  "path_dirname buff sz path =
     (case (buff, path) of
        (Some b, Some p) \<Rightarrow>
          if sz = 0 then None
          else Some (take (sz - 1) (rev (dropWhile (\<lambda>c. \<not> is_sep c) (rev (strip_seps p)))))
      | _ \<Rightarrow> None)"

section \<open>Normal form\<close>

text \<open>
  The components of a path, what each does to the stack of directories, and the text of the
  result: every component but a final ordinary one is followed by the separator.
\<close>

function components :: "cstring \<Rightarrow> cstring list" where
  "components p =
     (case dropWhile (\<lambda>c. \<not> is_sep c) p of
        [] \<Rightarrow> [p]
      | _ # r \<Rightarrow> takeWhile (\<lambda>c. \<not> is_sep c) p # components r)"
  by pat_completeness auto
termination
  by (relation "measure length") (auto dest: length_dropWhile_tl)

declare components.simps [simp del]

definition ordinary :: "cstring \<Rightarrow> bool" where
  "ordinary c \<longleftrightarrow> c \<noteq> [] \<and> c \<noteq> ''.'' \<and> c \<noteq> ''..''"

definition enter :: "cstring list \<Rightarrow> cstring \<Rightarrow> cstring list" where
  "enter st c = (if ordinary c then st @ [c] else if c = ''..'' then butlast st else st)"

definition dirs :: "char \<Rightarrow> cstring list \<Rightarrow> cstring" where
  "dirs sep st = concat (map (\<lambda>c. c @ [sep]) st)"

fun resolve_to :: "char \<Rightarrow> cstring list \<Rightarrow> cstring list \<Rightarrow> cstring" where
  "resolve_to sep st [] = dirs sep st"
| "resolve_to sep st [c] = (if ordinary c then dirs sep st @ c else dirs sep (enter st c))"
| "resolve_to sep st (c # d # cs) = resolve_to sep (enter st c) (d # cs)"

definition good_name :: "cstring \<Rightarrow> bool" where
  "good_name c \<longleftrightarrow> ordinary c \<and> (\<forall>x \<in> set c. \<not> is_sep x)"

lemma components_ne [simp]: "components p \<noteq> []"
  by (subst components.simps) (simp split: list.split)

lemma components_good: "c \<in> set (components p) \<Longrightarrow> \<forall>x \<in> set c. \<not> is_sep x"
proof (induction p rule: components.induct)
  case (1 p)
  show ?case
  proof (cases "dropWhile (\<lambda>c. \<not> is_sep c) p")
    case Nil
    with 1 show ?thesis by (subst (asm) components.simps) (simp add: dropWhile_eq_Nil_conv)
  next
    case (Cons s r)
    with 1 show ?thesis
      by (subst (asm) (2) components.simps) (auto dest: set_takeWhileD)
  qed
qed

lemma dirs_simps [simp]: "dirs sep [] = []" "dirs sep (st @ [c]) = dirs sep st @ c @ [sep]"
  by (simp_all add: dirs_def)

lemma dirs_last: "st \<noteq> [] \<Longrightarrow> dirs sep st \<noteq> [] \<and> last (dirs sep st) = sep"
  by (cases st rule: rev_cases) auto

lemma at_start_dirs: "is_sep sep \<Longrightarrow> at_start (dirs sep st)"
  using dirs_last [of st sep] by (cases "st = []") (auto simp: at_start_def)

lemma path_up_dirs:
  assumes "\<forall>c \<in> set st. good_name c" "is_sep sep"
  shows "path_up sep (dirs sep st) = dirs sep (butlast st)"
proof (cases st rule: rev_cases)
  case (snoc ys y)
  have y: "\<forall>x \<in> set y. x \<noteq> sep" using assms snoc by (auto simp: good_name_def)
  have "dirs sep ys = [] \<or> last (dirs sep ys) = sep" using dirs_last [of ys sep] by (cases "ys = []") auto
  then have "dropWhile (\<lambda>c. c \<noteq> sep) (rev (dirs sep ys)) = rev (dirs sep ys)"
    by (cases "dirs sep ys" rule: rev_cases) auto
  moreover have "dropWhile (\<lambda>c. c \<noteq> sep) (rev y @ rev (dirs sep ys)) = dropWhile (\<lambda>c. c \<noteq> sep) (rev (dirs sep ys))"
    using y by (intro dropWhile_append2) simp
  ultimately have "rev (dropWhile (\<lambda>c. c \<noteq> sep) (rev y @ rev (dirs sep ys))) = dirs sep ys"
    by (metis rev_rev_ident)
  with snoc show ?thesis by (simp add: path_up_def butlast_append)
qed (simp add: path_up_def)

text \<open>An ordinary component is copied.\<close>

lemma not_dot_step:
  assumes "ordinary (c # w)" "\<forall>x \<in> set (c # w). \<not> is_sep x" "at_end r"
  shows "\<not> (c = CHR ''.'' \<and> at_end (w @ r)) \<and>
     \<not> (c = CHR ''.'' \<and> w @ r \<noteq> [] \<and> hd (w @ r) = CHR ''.'' \<and> at_end (tl (w @ r)))"
proof (cases w)
  case Nil
  then show ?thesis using assms by (cases r) (auto simp: ordinary_def at_end_def is_sep_def)
next
  case (Cons d v)
  then show ?thesis using assms by (cases v; cases r) (auto simp: ordinary_def at_end_def)
qed

lemma path_loop_rest:
  assumes "\<not> at_start out" "\<forall>x \<in> set w. \<not> is_sep x" "length w \<le> room"
  shows "path_loop sep out room (w @ r) = path_loop sep (out @ w) (room - length w) r"
  using assms
proof (induction w arbitrary: out room)
  case (Cons c w)
  then have "path_loop sep out room ((c # w) @ r) = path_loop sep (out @ [c]) (room - 1) (w @ r)"
    by simp
  moreover have "\<not> at_start (out @ [c])" using Cons.prems by (simp add: at_start_def)
  ultimately show ?case using Cons by simp
qed simp

lemma path_loop_word:
  assumes "ordinary w" "\<forall>x \<in> set w. \<not> is_sep x" "at_end r" "length w \<le> room"
  shows "path_loop sep out room (w @ r) = path_loop sep (out @ w) (room - length w) r"
proof (cases w)
  case (Cons c v)
  have "path_loop sep out room (w @ r) = path_loop sep (out @ [c]) (room - 1) (v @ r)"
    using not_dot_step [of c v r] assms Cons by auto
  moreover have "path_loop sep (out @ [c]) (room - 1) (v @ r) =
      path_loop sep ((out @ [c]) @ v) (room - 1 - length v) r"
    using assms Cons by (intro path_loop_rest) (auto simp: at_start_def)
  ultimately show ?thesis using Cons by simp
qed (use assms in \<open>simp add: ordinary_def\<close>)

lemma path_loop_resolve:
  assumes "is_sep sep" "\<forall>c \<in> set st. good_name c" "length p \<le> room"
  shows "path_loop sep (dirs sep st) room p = resolve_to sep st (components p)"
  using assms
proof (induction p arbitrary: st room rule: components.induct)
  case (1 p)
  let ?w = "takeWhile (\<lambda>c. \<not> is_sep c) p" and ?r = "dropWhile (\<lambda>c. \<not> is_sep c) p"
  have p: "p = ?w @ ?r" by simp
  have w: "\<forall>x \<in> set ?w. \<not> is_sep x" by (auto dest: set_takeWhileD)
  have ae: "at_end ?r" by (metis at_end_def hd_dropWhile)
  have start: "at_start (dirs sep st)" by (rule at_start_dirs [OF "1.prems"(1)])
  have len: "length ?w + length ?r \<le> room" using "1.prems"(3) p by (metis length_append)
  have good: "\<forall>c \<in> set (enter st ?w). good_name c"
    using "1.prems"(2) w by (auto simp: enter_def good_name_def dest: in_set_butlastD)
  text \<open>One component, up to and including its separator.\<close>
  have step: "\<exists>room' \<ge> length r. path_loop sep (dirs sep st) room p = path_loop sep (dirs sep (enter st ?w)) room' r"
    if r: "?r = s # r" for s r
  proof -
    have s: "is_sep s" using ae r by (simp add: at_end_def)
    have room: "0 < room" using len r by simp
    consider (word) "ordinary ?w" | (empty) "?w = []" | (dot) "?w = ''.''" | (dots) "?w = ''..''"
      by (auto simp: ordinary_def)
    then show ?thesis
    proof cases
      case word
      then have "path_loop sep (dirs sep st) room p = path_loop sep (dirs sep st @ ?w) (room - length ?w) ?r"
        using path_loop_word [OF word w ae] len p by (metis add_leD1)
      also have "\<dots> = path_loop sep (dirs sep st @ ?w @ [sep]) (room - length ?w - 1) r"
        using word w len r s "1.prems"(1) last_in_set [of ?w]
        by (auto simp: ordinary_def simp del: takeWhile_eq_Nil_iff)
      finally show ?thesis using word len r by (intro exI [of _ "room - length ?w - 1"]) (auto simp: enter_def)
    next
      case empty
      then have "p = s # r" using p r by (metis append_Nil)
      with s room have "path_loop sep (dirs sep st) room p = path_loop sep (dirs sep st) room r"
        using dirs_last [of st sep] by (cases "st = []") auto
      with empty len r show ?thesis by (intro exI [of _ room]) (auto simp: enter_def ordinary_def)
    next
      case dot
      then have "p = CHR ''.'' # s # r" using p r by (metis append_Cons append_Nil)
      with s room start have "path_loop sep (dirs sep st) room p = path_loop sep (dirs sep st) room r"
        by (simp add: at_end_def is_sep_def)
      with dot len r show ?thesis by (intro exI [of _ room]) (auto simp: enter_def ordinary_def)
    next
      case dots
      then have "p = CHR ''.'' # CHR ''.'' # s # r" using p r by (metis append_Cons append_Nil)
      with s room start have "path_loop sep (dirs sep st) room p =
          path_loop sep (path_up sep (dirs sep st)) (room + (length (dirs sep st) - length (path_up sep (dirs sep st)))) r"
        by (simp add: at_end_def is_sep_def)
      with dots len r path_up_dirs [OF "1.prems"(2,1)] show ?thesis
        by (intro exI [of _ "room + (length (dirs sep st) - length (path_up sep (dirs sep st)))"])
           (auto simp: enter_def ordinary_def)
    qed
  qed
  show ?case
  proof (cases ?r)
    case (Cons s r)
    obtain room' where room': "length r \<le> room'"
      "path_loop sep (dirs sep st) room p = path_loop sep (dirs sep (enter st ?w)) room' r"
      using step [OF Cons] by blast
    with "1.IH" [OF Cons "1.prems"(1) good, of room']
    have e: "path_loop sep (dirs sep st) room p = resolve_to sep (enter st ?w) (components r)" by simp
    obtain d ds where d: "components r = d # ds" using components_ne by (cases "components r") auto
    have "components p = ?w # components r" using Cons by (subst components.simps) simp
    with e d show ?thesis by simp
  next
    case Nil
    then have pw: "?w = p" using p by simp
    have comp: "components p = [p]" unfolding components.simps [of p] Nil by simp
    consider (word) "ordinary p" | (empty) "p = []" | (dot) "p = ''.''" | (dots) "p = ''..''"
      by (auto simp: ordinary_def)
    then show ?thesis
    proof cases
      case word
      then show ?thesis
        using path_loop_word [of p "[]" room sep "dirs sep st"] w "1.prems"(3) comp
        unfolding pw by (simp add: at_end_def)
    next
      case empty
      with comp show ?thesis by (simp add: enter_def ordinary_def)
    next
      case dot
      with comp start "1.prems"(3) show ?thesis
        by (simp add: enter_def ordinary_def at_end_def is_sep_def)
    next
      case dots
      with comp start "1.prems"(3) path_up_dirs [OF "1.prems"(2,1)] show ?thesis
        by (simp add: enter_def ordinary_def at_end_def is_sep_def)
    qed
  qed
qed

lemma path_resolve_normal:
  assumes "is_sep sep" "length p < sz"
  shows "path_resolve (Some b) sz sep (Some p) =
     (let q = resolve_to sep [] (components p) in (length q, Some q))"
proof -
  have "sep \<noteq> NUL" using assms(1) by (auto simp: is_sep_def)
  with path_loop_resolve [of sep "[]" p "sz - 1"] assms show ?thesis
    by (simp add: path_resolve_def Let_def)
qed

section \<open>What the result looks like\<close>

text \<open>
  Whatever the size: the result fits with its NUL, starts with no separator, has no two in a row
  and contains only the separator asked for.
\<close>

definition path_shape :: "char \<Rightarrow> cstring \<Rightarrow> bool" where
  "path_shape sep out \<longleftrightarrow> (\<forall>c \<in> set out. is_sep c \<longrightarrow> c = sep) \<and>
     (out \<noteq> [] \<longrightarrow> hd out \<noteq> sep) \<and> (\<forall>u v. out \<noteq> u @ sep # sep # v)"

lemma path_shape_Nil [simp]: "path_shape sep []"
  by (simp add: path_shape_def)

lemma path_shape_snoc_char: "path_shape sep out \<Longrightarrow> \<not> is_sep c \<Longrightarrow> is_sep sep \<Longrightarrow> path_shape sep (out @ [c])"
proof -
  assume a: "path_shape sep out" "\<not> is_sep c" "is_sep sep"
  have "out @ [c] \<noteq> u @ sep # sep # v" for u v
  proof (cases v rule: rev_cases)
    case Nil
    with a show ?thesis by (auto dest: arg_cong [of _ _ last])
  next
    case (snoc w x)
    with a(1) show ?thesis by (auto simp: path_shape_def simp flip: append_Cons append_assoc)
  qed
  with a show ?thesis by (auto simp: path_shape_def hd_append)
qed

lemma path_shape_snoc_sep:
  "path_shape sep out \<Longrightarrow> out \<noteq> [] \<Longrightarrow> last out \<noteq> sep \<Longrightarrow> path_shape sep (out @ [sep])"
proof -
  assume a: "path_shape sep out" "out \<noteq> []" "last out \<noteq> sep"
  have "out @ [sep] \<noteq> u @ sep # sep # v" for u v
  proof (cases v rule: rev_cases)
    case Nil
    have "out \<noteq> u @ [sep]" using a(3) by auto
    then show ?thesis using Nil by (metis append_Cons append_assoc butlast_snoc append_Nil)
  next
    case (snoc w x)
    with a(1) show ?thesis by (auto simp: path_shape_def simp flip: append_Cons append_assoc)
  qed
  with a show ?thesis by (auto simp: path_shape_def hd_append)
qed

lemma path_shape_prefix:
  assumes "path_shape sep (u @ v)"
  shows "path_shape sep u"
proof -
  have "u \<noteq> x @ sep # sep # y" for x y
    using assms by (auto simp: path_shape_def dest: spec [of _ x])
  with assms show ?thesis by (cases "u = []") (auto simp: path_shape_def)
qed

lemma rev_dropWhile_split: "xs = rev (dropWhile P (rev xs)) @ rev (takeWhile P (rev xs))"
  by (metis rev_append rev_rev_ident takeWhile_dropWhile_id)

lemma path_up_prefix: "\<exists>v. out = path_up sep out @ v"
proof (cases "out = []")
  case False
  let ?o = "if last out = sep then butlast out else out"
  have "\<exists>v. out = ?o @ v" using False by (metis append_Nil2 append_butlast_last_id)
  moreover have "?o = path_up sep out @ rev (takeWhile (\<lambda>c. c \<noteq> sep) (rev ?o))"
    using rev_dropWhile_split [of ?o "\<lambda>c. c \<noteq> sep"] False by (simp add: path_up_def)
  ultimately show ?thesis by (metis append_assoc)
qed (simp add: path_up_def)

lemma path_loop_shape:
  assumes "path_shape sep out" "is_sep sep"
  shows "path_shape sep (path_loop sep out room cur) \<and>
     length (path_loop sep out room cur) \<le> length out + room"
  using assms
proof (induction sep out room cur rule: path_loop.induct)
  case (2 sep out room c cs)
  obtain v where v: "out = path_up sep out @ v" using path_up_prefix by blast
  have up: "path_shape sep (path_up sep out)" using "2.prems"(1) v path_shape_prefix by metis
  have len: "length (path_up sep out) \<le> length out" by (metis v length_append le_add1)
  show ?case
  proof (cases "room = 0")
    case True
    with 2 show ?thesis by simp
  next
    case r: False
    show ?thesis
    proof (cases "is_sep c")
      case True
      with r 2 path_shape_snoc_sep [OF "2.prems"(1)] show ?thesis
        by (cases "out \<noteq> [] \<and> last out \<noteq> sep") auto
    next
      case s: False
      consider (dot) "c = CHR ''.'' \<and> at_start out \<and> at_end cs"
        | (dots) "\<not> (c = CHR ''.'' \<and> at_start out \<and> at_end cs)"
            "c = CHR ''.'' \<and> at_start out \<and> cs \<noteq> [] \<and> hd cs = CHR ''.'' \<and> at_end (tl cs)"
        | (char) "\<not> (c = CHR ''.'' \<and> at_start out \<and> at_end cs)"
            "\<not> (c = CHR ''.'' \<and> at_start out \<and> cs \<noteq> [] \<and> hd cs = CHR ''.'' \<and> at_end (tl cs))"
        by blast
      then show ?thesis
      proof cases
        case dot
        with 2 r s show ?thesis by simp
      next
        case dots
        from "2.IH"(4) [OF r s dots up "2.prems"(2)] len r s dots show ?thesis by simp
      next
        case char
        from "2.IH"(5) [OF r s char path_shape_snoc_char [OF "2.prems"(1) s "2.prems"(2)] "2.prems"(2)]
        have "length (path_loop sep (out @ [c]) (room - 1) cs) \<le> length out + room"
          "path_shape sep (path_loop sep (out @ [c]) (room - 1) cs)" using r by auto
        moreover have "path_loop sep out room (c # cs) = path_loop sep (out @ [c]) (room - 1) cs"
          using r s char by auto
        ultimately show ?thesis by simp
      qed
    qed
  qed
qed simp

lemma path_resolve_shape:
  assumes "is_sep sep" "0 < sz"
  shows "\<exists>q. path_resolve (Some b) sz sep (Some p) = (length q, Some q) \<and> length q < sz \<and> path_shape sep q"
proof -
  have "sep \<noteq> NUL" using assms(1) by (auto simp: is_sep_def)
  with path_loop_shape [of sep "[]" "sz - 1" p] assms show ?thesis
    by (auto simp: path_resolve_def Let_def)
qed

section \<open>Resolving again\<close>

lemma enter_good:
  "\<forall>c \<in> set st. good_name c \<Longrightarrow> \<forall>x \<in> set c. \<not> is_sep x \<Longrightarrow> \<forall>c \<in> set (enter st c). good_name c"
  by (auto simp: enter_def good_name_def dest: in_set_butlastD)

text \<open>A normal path: directories, then at most one final name.\<close>

lemma resolve_to_form:
  assumes "\<forall>c \<in> set st. good_name c" "\<forall>c \<in> set cs. \<forall>x \<in> set c. \<not> is_sep x" "cs \<noteq> []"
  shows "\<exists>ds f. resolve_to sep st cs = dirs sep ds @ f \<and> (\<forall>c \<in> set ds. good_name c) \<and> (f = [] \<or> good_name f)"
  using assms
proof (induction sep st cs rule: resolve_to.induct)
  case (2 sep st c)
  show ?case
  proof (cases "ordinary c")
    case True
    with 2 show ?thesis by (auto simp: good_name_def)
  next
    case False
    with enter_good [of st c] 2 show ?thesis
      by (intro exI [of _ "enter st c"] exI [of _ "[]"]) simp
  qed
next
  case (3 sep st c d cs)
  with enter_good [of st c] show ?case by simp
qed simp

lemma components_word:
  "\<forall>x \<in> set c. \<not> is_sep x \<Longrightarrow> is_sep s \<Longrightarrow> components (c @ s # r) = c # components r"
  by (subst components.simps) (simp add: dropWhile_append2 takeWhile_append2)

lemma components_last: "\<forall>x \<in> set c. \<not> is_sep x \<Longrightarrow> components c = [c]"
  by (simp add: components.simps [of c] dropWhile_eq_Nil_conv [THEN iffD2] cong: list.case_cong)

lemma components_dirs:
  assumes "\<forall>c \<in> set ds. good_name c" "is_sep sep" "f = [] \<or> good_name f"
  shows "components (dirs sep ds @ f) = ds @ [f]"
  using assms
proof (induction ds)
  case Nil
  then show ?case by (auto simp: good_name_def intro!: components_last)
next
  case (Cons d ds)
  have "dirs sep (d # ds) @ f = d @ sep # dirs sep ds @ f" by (simp add: dirs_def)
  with Cons show ?case by (simp add: components_word good_name_def)
qed

lemma resolve_to_dirs:
  assumes "\<forall>c \<in> set ds. good_name c" "f = [] \<or> good_name f"
  shows "resolve_to sep st (ds @ [f]) = dirs sep (st @ ds) @ f"
  using assms
proof (induction ds arbitrary: st)
  case Nil
  then show ?case by (auto simp: good_name_def enter_def ordinary_def)
next
  case (Cons d ds)
  then obtain e es where e: "ds @ [f] = e # es" by (cases "ds @ [f]") auto
  have "resolve_to sep st ((d # ds) @ [f]) = resolve_to sep (enter st d) (ds @ [f])" using e by simp
  also have "enter st d = st @ [d]" using Cons.prems by (simp add: enter_def good_name_def)
  finally show ?case using Cons by simp
qed

lemma resolve_to_idem:
  assumes "is_sep sep" "\<forall>x \<in> set cs. \<forall>c \<in> set x. \<not> is_sep c" "cs \<noteq> []"
  shows "resolve_to sep [] (components (resolve_to sep [] cs)) = resolve_to sep [] cs"
proof -
  obtain ds f where f: "resolve_to sep [] cs = dirs sep ds @ f" "\<forall>c \<in> set ds. good_name c"
    "f = [] \<or> good_name f"
    using resolve_to_form [of "[]" cs sep] assms(2,3) by auto
  with components_dirs [OF f(2) assms(1) f(3)] resolve_to_dirs [OF f(2,3), of sep "[]"] show ?thesis
    by simp
qed

section \<open>Directory and last component\<close>

lemma base_start_word: "\<forall>x \<in> set w. \<not> is_sep x \<Longrightarrow> base_start s w = s"
  by (induction w) auto

lemma base_start_after: "\<forall>x \<in> set w. \<not> is_sep x \<Longrightarrow> is_sep c \<Longrightarrow> base_start s (u @ c # w) = w"
  by (induction u arbitrary: s) (auto simp: base_start_word)

text \<open>The directory, the last component and the trailing separators make up the path.\<close>

lemma dirname_basename:
  assumes "length p < sz"
  shows "\<exists>d b w. path_dirname (Some x) sz (Some p) = Some d \<and> path_basename (Some y) sz (Some p) = Some b \<and>
     p = d @ b @ w \<and> (\<forall>c \<in> set w. is_sep c) \<and> (\<forall>c \<in> set b. \<not> is_sep c) \<and> (d = [] \<or> is_sep (last d))"
proof -
  let ?s = "strip_seps p" and ?w = "rev (takeWhile is_sep (rev p))"
  let ?d = "rev (dropWhile (\<lambda>c. \<not> is_sep c) (rev ?s))" and ?b = "rev (takeWhile (\<lambda>c. \<not> is_sep c) (rev ?s))"
  have p: "p = ?s @ ?w" by (metis strip_seps_def rev_append rev_rev_ident takeWhile_dropWhile_id)
  have s: "?s = ?d @ ?b" by (metis rev_append rev_rev_ident takeWhile_dropWhile_id)
  have b: "\<forall>c \<in> set ?b. \<not> is_sep c" and w: "\<forall>c \<in> set ?w. is_sep c" by (auto dest: set_takeWhileD)
  have d: "?d = [] \<or> is_sep (last ?d)" by (metis hd_dropWhile last_rev rev_is_Nil_conv)
  have base: "base_start ?s ?s = ?b"
  proof (cases ?d rule: rev_cases)
    case Nil
    with s have sb: "?s = ?b" by (metis append_Nil)
    have "base_start ?s ?b = ?s" using b by (rule base_start_word)
    with sb show ?thesis by metis
  next
    case (snoc u c)
    with s have sb: "?s = u @ c # ?b" by (metis append.assoc append_Cons append_Nil)
    have "is_sep c" using d snoc by (metis last_snoc snoc_eq_iff_butlast)
    with b have "base_start ?s (u @ c # ?b) = ?b" by (rule base_start_after)
    with sb show ?thesis by metis
  qed
  have len: "length ?s \<le> sz - 1" "length ?d \<le> sz - 1" "length ?b \<le> sz - 1"
    using assms length_dropWhile_le [of is_sep "rev p"] length_dropWhile_le [of "\<lambda>c. \<not> is_sep c" "rev ?s"]
      length_takeWhile_le [of "\<lambda>c. \<not> is_sep c" "rev ?s"] by (simp_all add: strip_seps_def)
  have "path_dirname (Some x) sz (Some p) = Some ?d" "path_basename (Some y) sz (Some p) = Some ?b"
    using assms len base by (simp_all add: path_dirname_def path_basename_def)
  moreover have "p = ?d @ ?b @ ?w" by (metis p s append.assoc)
  ultimately show ?thesis using b w d by blast
qed

end
