(* ===== verification/SdbootOrder.thy ===== *)
theory SdbootOrder
  imports SdbootItems
begin

text \<open>
  The order of systemd-boot entries. The priority of an entry counts the entries it sorts behind;
  that follows the comparison when the comparison is an order, which it is on entries that set the
  same fields, and is not in general.
\<close>

section \<open>Comparison functions\<close>

text \<open>The contract of a C comparison function: antisymmetric in sign, and transitive.\<close>

locale comparison =
  fixes c :: "'a \<Rightarrow> 'a \<Rightarrow> int" and S :: "'a set"
  assumes anti: "x \<in> S \<Longrightarrow> y \<in> S \<Longrightarrow> sgn (c y x) = - sgn (c x y)"
    and le_trans: "x \<in> S \<Longrightarrow> y \<in> S \<Longrightarrow> z \<in> S \<Longrightarrow> c x y \<le> 0 \<Longrightarrow> c y z \<le> 0 \<Longrightarrow> c x z \<le> 0"
begin

lemma flip: "x \<in> S \<Longrightarrow> y \<in> S \<Longrightarrow> c y x < 0 \<longleftrightarrow> 0 < c x y"
  "x \<in> S \<Longrightarrow> y \<in> S \<Longrightarrow> c y x = 0 \<longleftrightarrow> c x y = 0" "x \<in> S \<Longrightarrow> y \<in> S \<Longrightarrow> 0 < c y x \<longleftrightarrow> c x y < 0"
  "x \<in> S \<Longrightarrow> y \<in> S \<Longrightarrow> c y x \<le> 0 \<longleftrightarrow> 0 \<le> c x y"
  using anti [of x y] by (auto simp: sgn_if split: if_splits)

lemma same: "x \<in> S \<Longrightarrow> c x x = 0"
  using anti [of x x] by (simp add: sgn_if split: if_splits)

lemma less_le_trans:
  assumes "x \<in> S" "y \<in> S" "z \<in> S" "c x y < 0" "c y z \<le> 0" shows "c x z < 0"
proof (rule ccontr)
  assume "\<not> c x z < 0"
  then have "c z x \<le> 0" using flip(4) [of x z] assms by simp
  from le_trans [OF assms(2,3,1,5) this] show False using flip(4) [of x y] assms by simp
qed

text \<open>The elements one element sorts behind.\<close>

definition behind_of :: "'a list \<Rightarrow> nat \<Rightarrow> nat set" where
  "behind_of xs i = {j. j < length xs \<and> j \<noteq> i \<and> 0 < c (xs ! i) (xs ! j)}"

lemma behind_of_iff: "set xs \<subseteq> S \<Longrightarrow> i < length xs \<Longrightarrow> behind_of xs i = {j. j < length xs \<and> c (xs ! j) (xs ! i) < 0}"
  using same by (auto simp: behind_of_def flip(1) subset_code(1) dest: nth_mem)

lemma rank_less:
  assumes "set xs \<subseteq> S" "i < length xs" "j < length xs" "c (xs ! i) (xs ! j) < 0"
  shows "card (behind_of xs i) < card (behind_of xs j)"
proof (rule psubset_card_mono)
  note b = behind_of_iff [OF assms(1)]
  have S: "xs ! k \<in> S" if "k < length xs" for k using assms(1) that by auto
  show "finite (behind_of xs j)" unfolding b [OF assms(3)] by simp
  have "behind_of xs i \<subseteq> behind_of xs j" unfolding b [OF assms(2)] b [OF assms(3)]
    using less_le_trans [OF S S S _ less_imp_le [OF assms(4)]] assms(2,3) by blast
  moreover have "i \<in> behind_of xs j" "i \<notin> behind_of xs i"
    unfolding b [OF assms(2)] b [OF assms(3)] using assms same S by auto
  ultimately show "behind_of xs i \<subset> behind_of xs j" by blast
qed

lemma rank_eq:
  assumes "set xs \<subseteq> S" "i < length xs" "j < length xs" "c (xs ! i) (xs ! j) = 0"
  shows "card (behind_of xs i) = card (behind_of xs j)"
proof -
  note b = behind_of_iff [OF assms(1)]
  have S: "xs ! k \<in> S" if "k < length xs" for k using assms(1) that by auto
  have "c (xs ! j) (xs ! i) = 0" using flip(2) [of "xs ! i" "xs ! j"] S assms by simp
  then have "behind_of xs i = behind_of xs j" unfolding b [OF assms(2)] b [OF assms(3)]
    using less_le_trans [OF S S S] assms(2-4) by (metis (no_types, lifting) order_refl)
  then show ?thesis by simp
qed

lemma rank_iff:
  assumes "set xs \<subseteq> S" "i < length xs" "j < length xs"
  shows "card (behind_of xs i) < card (behind_of xs j) \<longleftrightarrow> c (xs ! i) (xs ! j) < 0"
    and "card (behind_of xs i) = card (behind_of xs j) \<longleftrightarrow> c (xs ! i) (xs ! j) = 0"
proof -
  have "xs ! i \<in> S" "xs ! j \<in> S" using assms by auto
  then have "c (xs ! i) (xs ! j) < 0 \<or> c (xs ! i) (xs ! j) = 0 \<or> c (xs ! j) (xs ! i) < 0"
    using flip(1) [of "xs ! i" "xs ! j"] by linarith
  moreover have "c (xs ! j) (xs ! i) < 0 \<Longrightarrow> 0 < c (xs ! i) (xs ! j)"
    using flip(1) \<open>xs ! i \<in> S\<close> \<open>xs ! j \<in> S\<close> by blast
  ultimately show "card (behind_of xs i) < card (behind_of xs j) \<longleftrightarrow> c (xs ! i) (xs ! j) < 0"
    "card (behind_of xs i) = card (behind_of xs j) \<longleftrightarrow> c (xs ! i) (xs ! j) = 0"
    using rank_less [OF assms] rank_less [OF assms(1,3,2)] rank_eq [OF assms] by force+
qed

end

text \<open>A comparison by keys, a lexicographic one, and one on fields that are all set or all unset.\<close>

lemma comparison_key:
  fixes k :: "'a \<Rightarrow> 'k :: linorder"
  assumes "\<And>x y. x \<in> S \<Longrightarrow> y \<in> S \<Longrightarrow> sgn (c x y) = cmp3 (k x) (k y)"
  shows "comparison c S"
proof
  show "sgn (c y x) = - sgn (c x y)" if "x \<in> S" "y \<in> S" for x y using that by (auto simp: assms cmp3_def)
  have le: "c x y \<le> 0 \<longleftrightarrow> k x \<le> k y" if "x \<in> S" "y \<in> S" for x y
    using assms [of x y] that by (auto simp: cmp3_def sgn_if split: if_splits)
  show "c x z \<le> 0" if "x \<in> S" "y \<in> S" "z \<in> S" "c x y \<le> 0" "c y z \<le> 0" for x y z
    using that by (simp add: le)
qed

lemma comparison_flip: "comparison c S \<Longrightarrow> comparison (\<lambda>x y. c y x) S"
  unfolding comparison_def by (metis minus_minus)

lemma comparison_subset: "comparison c S \<Longrightarrow> T \<subseteq> S \<Longrightarrow> comparison c T"
  unfolding comparison_def by blast

lemma comparison_lex:
  assumes "comparison c S" "comparison d S"
  shows "comparison (\<lambda>x y. if c x y \<noteq> 0 then c x y else d x y) S"
proof
  fix x y assume "x \<in> S" "y \<in> S"
  with comparison.anti [OF assms(1), of x y] comparison.anti [OF assms(2), of x y]
    comparison.flip(2) [OF assms(1), of x y]
  show "sgn (if c y x \<noteq> 0 then c y x else d y x) = - sgn (if c x y \<noteq> 0 then c x y else d x y)" by simp
next
  fix x y z assume S: "x \<in> S" "y \<in> S" "z \<in> S"
    and le: "(if c x y \<noteq> 0 then c x y else d x y) \<le> 0" "(if c y z \<noteq> 0 then c y z else d y z) \<le> 0"
  have "c x y \<le> 0" "c y z \<le> 0" using le by (auto split: if_splits)
  note t = this comparison.le_trans [OF assms(1) S this]
  have "d x y \<le> 0" "d y z \<le> 0" if "c x z = 0"
  proof -
    have "\<not> c x y < 0" using comparison.less_le_trans [OF assms(1) S _ t(2)] that by auto
    moreover have "\<not> c y z < 0"
    proof
      assume l: "c y z < 0"
      have "c z x = 0" using comparison.flip(2) [OF assms(1) S(1,3)] that by simp
      then have "c y x < 0" using comparison.less_le_trans [OF assms(1) S(2,3,1) l] by simp
      then show False using comparison.flip(1) [OF assms(1) S(1,2)] t(1) by simp
    qed
    ultimately show "d x y \<le> 0" "d y z \<le> 0" using le t by auto
  qed
  with t comparison.le_trans [OF assms(2) S] show "(if c x z \<noteq> 0 then c x z else d x z) \<le> 0" by auto
qed

lemma comparison_opt:
  assumes "comparison f T" "\<forall>x \<in> S. case get x of None \<Rightarrow> True | Some v \<Rightarrow> v \<in> T"
    and "(\<forall>x \<in> S. get x \<noteq> None) \<or> (\<forall>x \<in> S. get x = None)"
  shows "comparison (\<lambda>x y. opt_compare f (get x) (get y)) S"
  using assms(3)
proof
  assume set: "\<forall>x \<in> S. get x \<noteq> None"
  have T: "the (get x) \<in> T" if "x \<in> S" for x using assms(2) set that by (auto split: option.splits)
  have e: "opt_compare f (get x) (get y) = f (the (get x)) (the (get y))" if "x \<in> S" "y \<in> S" for x y
    using set that by (auto simp: opt_compare_def split: option.splits)
  show ?thesis
  proof
    show "sgn (opt_compare f (get y) (get x)) = - sgn (opt_compare f (get x) (get y))" if "x \<in> S" "y \<in> S" for x y
      unfolding e [OF that] e [OF that(2,1)] by (rule comparison.anti [OF assms(1) T [OF that(1)] T [OF that(2)]])
    show "opt_compare f (get x) (get z) \<le> 0" if "x \<in> S" "y \<in> S" "z \<in> S"
      "opt_compare f (get x) (get y) \<le> 0" "opt_compare f (get y) (get z) \<le> 0" for x y z
      using that comparison.le_trans [OF assms(1) T T T, of x y z] by (simp add: e)
  qed
next
  assume "\<forall>x \<in> S. get x = None"
  then show ?thesis by unfold_locales (simp_all add: opt_compare_def)
qed

section \<open>The code's comparisons\<close>

lemma strcmp_key: "cstr s \<Longrightarrow> cstr t \<Longrightarrow> sgn (strcmp s t) = cmp3 (map cval s) (map cval t)"
proof (induction s t rule: strcmp.induct)
  case (4 c s d t)
  show ?case
  proof (cases "c = d")
    case True
    with 4 show ?thesis by (simp add: cmp3_Cons cstr_def)
  next
    case False
    then have "cval c \<noteq> cval d" by simp
    with False show ?thesis by (auto simp: cmp3_Cons sgn_if cmp3_def)
  qed
qed (auto simp: cmp3_def sgn_if cstr_def intro!: cval_pos)

interpretation version_order: comparison "\<lambda>s t. vercmp (Some s) (Some t)" UNIV
  by (rule comparison_key [OF vercmp_key])

interpretation newest_first: comparison vercmp_back UNIV
  using comparison_flip [OF version_order.comparison_axioms] by (simp add: vercmp_back_def [abs_def])

interpretation byte_order: comparison strcmp "Collect cstr"
  by (rule comparison_key [OF strcmp_key]) simp_all

section \<open>Entries that set the same fields\<close>

definition all_or_none :: "('a \<Rightarrow> 'b option) \<Rightarrow> 'a set \<Rightarrow> bool" where
  "all_or_none get S \<longleftrightarrow> (\<forall>x \<in> S. get x \<noteq> None) \<or> (\<forall>x \<in> S. get x = None)"

definition uniform :: "sdboot_boot_loader set \<Rightarrow> bool" where
  "uniform S \<longleftrightarrow> (\<forall>l \<in> S. loader_typed l \<and> sl_name l \<noteq> None) \<and>
     (let keyed = {l \<in> S. has_sort_key l} in all_or_none sl_machine_id keyed \<and> all_or_none sl_version keyed)"

definition compare_keyed :: "sdboot_boot_loader \<Rightarrow> sdboot_boot_loader \<Rightarrow> int" where
  "compare_keyed a b =
     (let keys = opt_compare strcmp (sl_sort_key a) (sl_sort_key b);
          ids = opt_compare strcmp (sl_machine_id a) (sl_machine_id b);
          vers = opt_compare vercmp_back (sl_version a) (sl_version b)
      in if keys \<noteq> 0 then keys else if ids \<noteq> 0 then ids else if vers \<noteq> 0 then vers
         else opt_compare vercmp_back (sl_name a) (sl_name b))"

lemma compare_cases:
  "compare_boot_loaders a b =
     (if has_sort_key a then if has_sort_key b then compare_keyed a b else -1
      else if has_sort_key b then 1 else opt_compare vercmp_back (sl_name a) (sl_name b))"
  by (simp add: compare_boot_loaders_def compare_keyed_def Let_def)

lemma compare_uniform:
  assumes "uniform S"
  shows "comparison compare_boot_loaders S"
proof -
  let ?K = "{l \<in> S. has_sort_key l}" and ?N = "{l \<in> S. \<not> has_sort_key l}"
  have name: "all_or_none sl_name ?K" "all_or_none sl_name ?N" and ids: "all_or_none sl_machine_id ?K"
    and vers: "all_or_none sl_version ?K" and keys: "all_or_none sl_sort_key ?K"
    using assms by (auto simp: uniform_def all_or_none_def has_sort_key_def Let_def split: option.splits)
  have lt: "case sl_sort_key l of None \<Rightarrow> True | Some v \<Rightarrow> cstr v"
    "case sl_machine_id l of None \<Rightarrow> True | Some v \<Rightarrow> cstr v" if "l \<in> S" for l
  proof -
    have "loader_typed l" using assms that by (simp add: uniform_def)
    then show "case sl_sort_key l of None \<Rightarrow> True | Some v \<Rightarrow> cstr v"
      "case sl_machine_id l of None \<Rightarrow> True | Some v \<Rightarrow> cstr v"
      unfolding loader_typed_def opt_cstr_def by blast+
  qed
  have typed: "\<forall>x \<in> ?K. case sl_sort_key x of None \<Rightarrow> True | Some v \<Rightarrow> v \<in> Collect cstr"
    "\<forall>x \<in> ?K. case sl_machine_id x of None \<Rightarrow> True | Some v \<Rightarrow> v \<in> Collect cstr"
    unfolding mem_Collect_eq using lt by blast+
  have any: "\<forall>x \<in> A. case get x of None \<Rightarrow> True | Some v \<Rightarrow> v \<in> UNIV" for A and get :: "sdboot_boot_loader \<Rightarrow> cstring option"
    by (simp split: option.splits)
  note str = comparison_opt [OF byte_order.comparison_axioms]
  note ver = comparison_opt [OF newest_first.comparison_axioms any]
  have K: "comparison compare_keyed ?K"
    using comparison_lex [OF str [OF typed(1) keys [unfolded all_or_none_def]]
      comparison_lex [OF str [OF typed(2) ids [unfolded all_or_none_def]]
        comparison_lex [OF ver [OF vers [unfolded all_or_none_def]] ver [OF name(1) [unfolded all_or_none_def]]]]]
    by (simp add: compare_keyed_def [abs_def] Let_def)
  have N: "comparison (\<lambda>x y. opt_compare vercmp_back (sl_name x) (sl_name y)) ?N"
    by (rule ver [OF name(2) [unfolded all_or_none_def]])
  show ?thesis
  proof
    show "sgn (compare_boot_loaders y x) = - sgn (compare_boot_loaders x y)" if "x \<in> S" "y \<in> S" for x y
      using that comparison.anti [OF K, of x y] comparison.anti [OF N, of x y] by (simp add: compare_cases)
    show "compare_boot_loaders x z \<le> 0" if "x \<in> S" "y \<in> S" "z \<in> S"
      "compare_boot_loaders x y \<le> 0" "compare_boot_loaders y z \<le> 0" for x y z
      using that comparison.le_trans [OF K, of x y z] comparison.le_trans [OF N, of x y z]
      by (auto simp: compare_cases split: if_splits)
  qed
qed

section \<open>Priorities\<close>

text \<open>Without saturation the priority is the offset plus the number of entries it sorts behind.\<close>

lemma fold_bump:
  assumes "p + int (length js) \<le> INT64_MAX"
  shows "fold (\<lambda>j p. if P j then bump p else p) js p = p + int (length (filter P js))"
  using assms
proof (induction js arbitrary: p)
  case (Cons j js)
  from Cons.prems have "bump p = p + 1" by (simp add: bump_def)
  with Cons show ?case by simp
qed simp

definition entry_cmp :: "sdboot_menu \<Rightarrow> entry \<Rightarrow> entry \<Rightarrow> int" where
  "entry_cmp sd a b = sdboot_compare_entries sd (snd a) (snd b)"

lemma item_priority_rank:
  assumes "offset + int (length es) \<le> INT64_MAX" "comparison (entry_cmp sd) S"
  shows "item_priority sd offset es i = offset + int (card (comparison.behind_of (entry_cmp sd) es i))"
proof -
  let ?P = "\<lambda>j. j \<noteq> i \<and> 0 < entry_cmp sd (es ! i) (es ! j)"
  have "card (comparison.behind_of (entry_cmp sd) es i) = length (filter ?P [0..<length es])"
    using distinct_card [of "filter ?P [0..<length es]"]
    by (simp add: comparison.behind_of_def [OF assms(2)] conj_commute)
  with fold_bump [of offset "[0..<length es]" ?P] assms(1) show ?thesis
    by (simp add: item_priority_def entry_cmp_def)
qed

text \<open>The systemd-boot entries of a list of menu entries.\<close>

definition booted :: "sdboot_menu \<Rightarrow> entry list \<Rightarrow> bool" where
  "booted sd es \<longleftrightarrow> (\<forall>e \<in> set es. ll_type (snd e) = LOADER_SDBOOT \<and> boot_of sd (snd e) \<noteq> None)"

lemma entry_comparison:
  assumes "booted sd es" "uniform {l. \<exists>e \<in> set es. boot_of sd (snd e) = Some l}"
  shows "comparison (entry_cmp sd) (set es)"
proof -
  let ?b = "\<lambda>e. the (boot_of sd (snd e))" and ?S = "{l. \<exists>e \<in> set es. boot_of sd (snd e) = Some l}"
  have m: "?b x \<in> ?S" if "x \<in> set es" for x
    using assms(1) that by (auto simp: booted_def)
  have e: "entry_cmp sd x y = compare_boot_loaders (?b x) (?b y)" if "x \<in> set es" "y \<in> set es" for x y
    using assms(1) that
    by (cases "boot_of sd (snd x)"; cases "boot_of sd (snd y)";
        auto simp: entry_cmp_def sdboot_compare_entries_def booted_def)+
  note C = compare_uniform [OF assms(2)]
  show ?thesis
  proof
    show "sgn (entry_cmp sd y x) = - sgn (entry_cmp sd x y)" if "x \<in> set es" "y \<in> set es" for x y
      unfolding e [OF that] e [OF that(2,1)] by (rule comparison.anti [OF C m [OF that(1)] m [OF that(2)]])
    show "entry_cmp sd x z \<le> 0" if "x \<in> set es" "y \<in> set es" "z \<in> set es"
      "entry_cmp sd x y \<le> 0" "entry_cmp sd y z \<le> 0" for x y z
      using that comparison.le_trans [OF C m m m, of x y z] by (simp add: e)
  qed
qed

lemma priority_follows_order:
  assumes "booted sd es" "uniform {l. \<exists>e \<in> set es. boot_of sd (snd e) = Some l}"
    and "offset + int (length es) \<le> INT64_MAX" "i < length es" "j < length es"
  shows "(item_priority sd offset es i < item_priority sd offset es j \<longleftrightarrow>
      sdboot_compare_entries sd (snd (es ! i)) (snd (es ! j)) < 0) \<and>
    (item_priority sd offset es i = item_priority sd offset es j \<longleftrightarrow>
      sdboot_compare_entries sd (snd (es ! i)) (snd (es ! j)) = 0)"
proof -
  note C = entry_comparison [OF assms(1,2)]
  from comparison.rank_iff [OF C subset_refl assms(4,5)]
  show ?thesis unfolding item_priority_rank [OF assms(3) C] by (simp add: entry_cmp_def)
qed

section \<open>Entries that do not\<close>

text \<open>Three entries with one sort key; the second has no machine id.\<close>

definition cycle_loader :: "cstring \<Rightarrow> cstring option \<Rightarrow> cstring \<Rightarrow> sdboot_boot_loader" where
  "cycle_loader name mid ver = zero_boot_loader\<lparr>sl_name := Some name, sl_kernel := Some ''/linux'',
     sl_sort_key := Some ''k'', sl_machine_id := mid, sl_version := Some ver\<rparr>"

definition cycle_menu :: sdboot_menu where
  "cycle_menu = sdboot_menu_init\<lparr>sd_loaders := [(1, cycle_loader ''a'' (Some ''2'') ''3''),
     (2, cycle_loader ''b'' None ''2''), (3, cycle_loader ''c'' (Some ''1'') ''1'')]\<rparr>"

definition cycle_items :: "entry list" where
  "cycle_items = map (\<lambda>a. (10 + a, zero_loader\<lparr>ll_type := LOADER_SDBOOT, ll_extra := Some a\<rparr>)) [1, 2, 3]"

lemma cycle_compare:
  "sdboot_compare_entries cycle_menu (snd (cycle_items ! 0)) (snd (cycle_items ! 1)) < 0"
  "sdboot_compare_entries cycle_menu (snd (cycle_items ! 1)) (snd (cycle_items ! 2)) < 0"
  "sdboot_compare_entries cycle_menu (snd (cycle_items ! 2)) (snd (cycle_items ! 0)) < 0"
  by code_simp+

lemma cycle_priorities: "map (item_priority cycle_menu 100 cycle_items) [0..<3] = [101, 101, 101]"
  by code_simp

end
