(* ===== verification/SdbootTyped.thy ===== *)
theory SdbootTyped
  imports SdbootFacts
begin

text \<open>
  The strings the parser stores are C strings and its numbers fit their type, also when an
  allocation fails in the middle of a file.
\<close>

definition target_typed :: "sdboot_target \<Rightarrow> bool" where
  "target_typed tgt \<longleftrightarrow> (case fst tgt of None \<Rightarrow> True | Some m \<Rightarrow> menu_typed m) \<and>
     (case snd tgt of None \<Rightarrow> True | Some l \<Rightarrow> loader_typed l)"

lemma parse_string_typed:
  "sdboot_parse_string_status val old s = (st, v, s') \<Longrightarrow> opt_cstr old \<Longrightarrow> opt_cstr v"
  by (auto simp: sdboot_parse_string_status_def strndup_def opt_cstr_def Let_def alloc_def split: if_splits prod.splits)

lemma token_loop_typed:
  "token_loop str vs s = (Some ws, s') \<Longrightarrow> list_all cstr vs \<Longrightarrow> list_all cstr ws"
  using token_loop_step [of str vs s "Some ws" s'] by (auto simp: list_all_iff)

lemma parse_list_typed:
  "sdboot_parse_string_list_status val old s = (st, v, s') \<Longrightarrow> list_all cstr old \<Longrightarrow> list_all cstr v"
  by (auto simp: sdboot_parse_string_list_status_def Let_def split: if_splits prod.splits option.splits
      dest!: token_loop_typed [of _ "[]"])

lemma put_string_typed:
  "put_string val get put l s = (st, l', s') \<Longrightarrow> opt_cstr (get l) \<Longrightarrow> (\<And>v. opt_cstr v \<Longrightarrow> P (put v)) \<Longrightarrow> P l'"
  by (auto simp: put_string_def dest!: parse_string_typed split: prod.splits)

lemma put_list_typed:
  "put_list val get put l s = (st, l', s') \<Longrightarrow> list_all cstr (get l) \<Longrightarrow> (\<And>v. list_all cstr v \<Longrightarrow> P (put v)) \<Longrightarrow> P l'"
  by (auto simp: put_list_def dest!: parse_list_typed split: prod.splits)

lemma loader_one_typed:
  assumes "sdboot_boot_parse_loader_one l key val s = (st, l', s')" "loader_typed l"
  shows "loader_typed l'"
proof -
  have t: "opt_cstr (sl_title l)" "opt_cstr (sl_version l)" "opt_cstr (sl_machine_id l)" "opt_cstr (sl_sort_key l)"
    "opt_cstr (sl_kernel l)" "opt_cstr (sl_efi l)" "opt_cstr (sl_devicetree l)" "list_all cstr (sl_initramfs l)"
    "list_all cstr (sl_options l)" "list_all cstr (sl_dtoverlay l)"
    using assms(2) by (simp_all add: loader_typed_def)
  have p: "opt_cstr v \<Longrightarrow> loader_typed (l\<lparr>sl_title := v\<rparr>)" "opt_cstr v \<Longrightarrow> loader_typed (l\<lparr>sl_version := v\<rparr>)"
    "opt_cstr v \<Longrightarrow> loader_typed (l\<lparr>sl_machine_id := v\<rparr>)" "opt_cstr v \<Longrightarrow> loader_typed (l\<lparr>sl_sort_key := v\<rparr>)"
    "opt_cstr v \<Longrightarrow> loader_typed (l\<lparr>sl_kernel := v\<rparr>)" "opt_cstr v \<Longrightarrow> loader_typed (l\<lparr>sl_efi := v\<rparr>)"
    "opt_cstr v \<Longrightarrow> loader_typed (l\<lparr>sl_devicetree := v\<rparr>)" "list_all cstr w \<Longrightarrow> loader_typed (l\<lparr>sl_initramfs := w\<rparr>)"
    "list_all cstr w \<Longrightarrow> loader_typed (l\<lparr>sl_options := w\<rparr>)" "list_all cstr w \<Longrightarrow> loader_typed (l\<lparr>sl_dtoverlay := w\<rparr>)"
    "loader_typed (l\<lparr>sl_arch := a\<rparr>)" for v w a
    using assms(2) by (simp_all add: loader_typed_def)
  note put = put_string_typed [where P = loader_typed] put_list_typed [where P = loader_typed]
  from assms(1) show ?thesis
    unfolding sdboot_boot_parse_loader_one_def
    apply (elim if_result)
    apply (rule put(1), assumption, rule t, erule p | rule put(2), assumption, rule t, erule p)+
    using assms(2) p(11) by (auto split: prod.splits)
qed

lemma parse_line_typed:
  assumes "sdboot_boot_parse_line line (None, Some l) s = (st, tgt, s')" "loader_typed l"
  shows "\<exists>l'. tgt = (None, Some l') \<and> loader_typed l'"
  using assms loader_one_typed
  by (auto simp: sdboot_boot_parse_line_def split: option.splits if_splits prod.splits)

lemma content_loop_typed:
  assumes "content_loop content have_success (None, Some l) s = (st, tgt, s')" "loader_typed l"
  shows "\<exists>l'. tgt = (None, Some l') \<and> loader_typed l'"
  using assms
proof (induction content arbitrary: l have_success s rule: content_lines.induct)
  case (1 content)
  define line where "line = takeWhile (\<lambda>c. c \<noteq> LF) content"
  define rest where "rest = tl (dropWhile (\<lambda>c. c \<noteq> LF) content)"
  show ?case
  proof (cases "content = []")
    case True
    with "1.prems" show ?thesis by (auto simp: content_loop.simps)
  next
    case False
    obtain st1 t1 s1 where l: "sdboot_boot_parse_line (Some line) (None, Some l) s = (st1, t1, s1)"
      by (cases "sdboot_boot_parse_line (Some line) (None, Some l) s") auto
    from parse_line_typed [OF l "1.prems"(2)] obtain l1 where l1: "t1 = (None, Some l1)" "loader_typed l1" by blast
    have run: "(if st1 = SDBOOT_PARSE_OUT_OF_RESOURCES then (EFI_OUT_OF_RESOURCES, t1, s1)
        else content_loop rest (have_success \<or> st1 \<noteq> SDBOOT_PARSE_INVALID) t1 s1) = (st, tgt, s')"
      using "1.prems"(1) False l
      unfolding content_loop.simps [of content] line_def [symmetric] rest_def [symmetric] Let_def by simp
    show ?thesis
    proof (cases "st1 = SDBOOT_PARSE_OUT_OF_RESOURCES")
      case True
      with run l1 show ?thesis by auto
    next
      case ok: False
      with run l1(1) have "content_loop rest (have_success \<or> st1 \<noteq> SDBOOT_PARSE_INVALID) (None, Some l1) s1 = (st, tgt, s')"
        by simp
      from "1.IH" [OF False, folded rest_def, OF this l1(2)] show ?thesis .
    qed
  qed
qed

lemma parse_content_typed:
  assumes "sdboot_boot_parse_content fname content tgt s = (st, tgt', s')" "target_typed tgt"
  shows "target_typed tgt'"
proof (cases "fname = None \<or> content = None \<or> content = Some []")
  case True
  with assms show ?thesis by (auto simp: sdboot_boot_parse_content_def split: if_splits)
next
  case False
  then obtain f c where fc: "fname = Some f" "content = Some c" "c \<noteq> []" by auto
  consider "\<exists>l. tgt = (None, Some l)" | "\<exists>m. tgt = (Some m, None)" | "tgt = (None, None) \<or> (\<exists>m l. tgt = (Some m, Some l))"
    by (cases tgt; cases "fst tgt"; cases "snd tgt") auto
  then show ?thesis
  proof cases
    case 1
    then obtain l where l: "tgt = (None, Some l)" by blast
    with assms fc have "content_loop c False (None, Some l) s = (st, tgt', s')" "loader_typed l"
      by (simp_all add: sdboot_boot_parse_content_def sdboot_boot_parse_content_into_def target_typed_def)
    from content_loop_typed [OF this] show ?thesis by (auto simp: target_typed_def)
  next
    case 2
    then obtain m where m: "tgt = (Some m, None)" by blast
    have "tgt' = (Some m, None) \<or> tgt' = (Some (menu_of m (settings c)), None)"
      using menu_file [where fname = f and content = c and m = m and s = s] assms(1) unfolding fc m by auto
    with assms(2) m menu_typed_menu_of show ?thesis by (auto simp: target_typed_def)
  next
    case 3
    with assms fc show ?thesis by (auto simp: sdboot_boot_parse_content_def)
  qed
qed

end
