(* ===== verification/SdbootSamples.thy ===== *)
theory SdbootSamples
  imports SdbootOrder SdbootTyped Samples
begin

text \<open>
  Concrete inputs for the properties of the boot menu: a directory kept as a list, a device with one
  entry file, and a state with a menu and two systemd-boot entries.
\<close>

section \<open>A directory that is a list\<close>

definition info_size :: "file_info \<Rightarrow> nat" where
  "info_size info = 80 + 2 * (length (fi_units info) + 1)"

definition no_info :: file_info where
  "no_info = \<lparr>fi_units = [], fi_directory = False\<rparr>"

fun list_read :: "file_info list dir_read" where
  "list_read [] n = ((EFI_SUCCESS, 0, no_info), [])"
| "list_read (x # xs) n =
     (if n < info_size x then ((EFI_BUFFER_TOO_SMALL, info_size x, no_info), x # xs)
      else ((EFI_SUCCESS, info_size x, x), xs))"

lemma info_size_valid: "sdboot_file_info_name_is_valid info (info_size info)"
proof -
  have n: "(info_size info - 80) div 2 = length (fi_units info) + 1" "(info_size info - 80) mod 2 = 0" "82 \<le> info_size info"
    by (simp_all add: info_size_def)
  have "fi_unit info (length (fi_units info)) = 0" by (simp add: fi_unit_def)
  then have "\<exists>i \<in> set [0..<length (fi_units info) + 1]. fi_unit info i = 0"
    by (intro bexI [of _ "length (fi_units info)"]) simp_all
  with n show ?thesis by (simp only: sdboot_file_info_name_is_valid_def Let_def) simp
qed

lemma list_read_serves: "serves list_read infos infos"
  by (induction infos) (auto intro: info_size_valid)

definition demo_info :: file_info where
  "demo_info = \<lparr>fi_units = map (\<lambda>c. of_nat (cval c)) ''a.conf'', fi_directory = False\<rparr>"

definition demo_files :: filesys where
  "demo_files = (\<lambda>_. (EFI_SUCCESS, EFI_SUCCESS, Some ''linux /vmlinuz''))"

definition demo_device :: "file_info list sd_device" where
  "demo_device = \<lparr>dv_files = demo_files, dv_volume = (EFI_SUCCESS, Some 7),
     dv_folder = (EFI_SUCCESS, Some [demo_info, no_info]), dv_read = list_read, dv_entries = demo_files\<rparr>"

lemma demo_name_cstr: "NUL \<notin> set ''a.conf''"
  by simp

section \<open>A state with two entries\<close>

definition demo_loader :: "cstring \<Rightarrow> sdboot_boot_loader" where
  "demo_loader name = (sdboot_boot_loader_init ARCH_X86_64)\<lparr>sl_name := Some name, sl_kernel := Some ''/linux'',
     sl_sort_key := Some ''linux'', sl_machine_id := Some ''m'', sl_version := Some name\<rparr>"

lemma demo_loader_fields [simp]:
  "sl_name (demo_loader name) = Some name" "sl_sort_key (demo_loader name) = Some ''linux''"
  "sl_machine_id (demo_loader name) = Some ''m''" "sl_version (demo_loader name) = Some name"
  "has_sort_key (demo_loader name)" "sl_arch (demo_loader name) = ARCH_X86_64"
  "cstr name \<Longrightarrow> loader_typed (demo_loader name)" "sdboot_boot_loader_check (Some (demo_loader name))"
  by (simp_all add: demo_loader_def sdboot_boot_loader_init_def zero_boot_loader_def has_sort_key_def
      loader_typed_def opt_cstr_def cstr_def sdboot_boot_loader_check_def)

definition demo_menu :: sdboot_menu where
  "demo_menu = \<lparr>sd_menu = zero_boot_menu, sd_loaders = [(1, demo_loader ''a-1''), (2, demo_loader ''a-2'')]\<rparr>"

definition boot_state :: embloader where
  "boot_state = loop_state\<lparr>g_menu := Some zero_menu, g_sdboot := Some demo_menu\<rparr>"

lemma boot_config: "good_config boot_state loop_tree"
  using loop_config by (simp add: boot_state_def good_config_def)

lemma boot_menu: "g_menu boot_state = Some zero_menu" "g_sdboot boot_state = Some demo_menu" "no_auto demo_menu"
  by (simp_all add: boot_state_def demo_menu_def no_auto_def zero_boot_menu_def)

lemma demo_menu_ok: "sd_ok ARCH_X86_64 0 (g_next boot_state) demo_menu"
  by (simp add: sd_ok_def demo_menu_def boot_state_def loop_state_def zero_boot_menu_def entry_ok_def
      menu_typed_def opt_cstr_def cstr_def INT_MIN_def INT_MAX_def)

definition demo_items :: "entry list" where
  "demo_items = map (\<lambda>a. (10 + a, zero_loader\<lparr>ll_type := LOADER_SDBOOT, ll_extra := Some a\<rparr>)) [1, 2]"

lemma demo_booted: "booted demo_menu demo_items"
  by (simp add: booted_def demo_items_def boot_of_def demo_menu_def)

lemma demo_uniform: "uniform {l. \<exists>e \<in> set demo_items. boot_of demo_menu (snd e) = Some l}"
proof -
  have e: "{l. \<exists>e \<in> set demo_items. boot_of demo_menu (snd e) = Some l} = {demo_loader ''a-1'', demo_loader ''a-2''}"
    by (auto simp: demo_items_def boot_of_def demo_menu_def)
  show ?thesis unfolding e uniform_def Let_def all_or_none_def
    by (intro conjI disjI1) (auto simp: cstr_def)
qed

section \<open>Handlers\<close>

text \<open>Every boot fails, and the environment is not affected.\<close>

definition broken_env :: "unit menu_env" where
  "broken_env = \<lparr>env_front = (\<lambda>_ x. ((EFI_UNSUPPORTED, None, \<lparr>fl_autoboot = True, fl_userselect = False, fl_edited = False\<rparr>), x)),
     env_boot = (\<lambda>_ x. Some (EFI_LOAD_ERROR, x)), env_selected = (\<lambda>_ w. w), env_before = id,
     env_read_key = (\<lambda>w. (EFI_SUCCESS, w)), env_stall = id, env_wait_key = id, env_prepare = (\<lambda>x. (EFI_SUCCESS, x))\<rparr>"

lemma broken_env: "failing_env broken_env" "tidy_env broken_env"
  proof -
  show "failing_env broken_env" by (simp add: failing_env_def broken_env_def)
  have "\<exists>st s w'. env_boot broken_env e (g, w) = Some (st, g\<lparr>g_cs := s\<rparr>, w') \<and> reads_only (g_cs g) s" for e g w
    by (intro exI [of _ EFI_LOAD_ERROR] exI [of _ "g_cs g"]) (simp add: broken_env_def)
  then show "tidy_env broken_env" by (simp add: tidy_env_def)
qed

definition plain_menu :: embloader_menu where
  "plain_menu = zero_menu\<lparr>mn_loaders := [(8, loop_entry ''A''), (9, loop_entry ''B'')]\<rparr>"

definition plain_state :: embloader where
  "plain_state = loop_state\<lparr>g_menu := Some plain_menu\<rparr>"

lemma plain_state:
  "good_config plain_state loop_tree" "g_menu plain_state = Some plain_menu" "no_rescue (mn_loaders plain_menu)"
  "menu_cstrings (mn_loaders plain_menu)" "distinct (map fst (mn_loaders plain_menu))"
  "\<forall>n. ll_name (loop_entry ''A'') = Some n \<longrightarrow> cstr n"
proof -
  show "good_config plain_state loop_tree" using loop_config by (simp add: plain_state_def good_config_def)
  show "g_menu plain_state = Some plain_menu" by (simp add: plain_state_def)
  show "no_rescue (mn_loaders plain_menu)"
    by (auto simp: no_rescue_def plain_menu_def rescue_name_def loop_entry_def dest!: arg_cong [of _ _ length])
  show "menu_cstrings (mn_loaders plain_menu)" "distinct (map fst (mn_loaders plain_menu))"
    "\<forall>n. ll_name (loop_entry ''A'') = Some n \<longrightarrow> cstr n"
    by (simp_all add: menu_cstrings_def plain_menu_def loop_entry_def cstr_def)
qed

end
