(* ===== verification/Variables.thy ===== *)
theory Variables
  imports Loader Encode
begin

unbundle bit_operations_syntax

text \<open>
  The variables of the firmware, from \<open>src/lib/variables.c\<close>: setting and getting raw values, strings in both encodings
  and little-endian numbers. \<open>GetVariable\<close> and \<open>SetVariable\<close> are parameters. The vendor, the name and the place for
  the result are never \<open>NULL\<close>; a formatted text is the result of \<open>vasprintf\<close>.
\<close>

section \<open>The services\<close>

text \<open>
  A vendor is a number. Getting a variable into a buffer of a size gives the status, the size and the bytes that were
  put into the buffer; setting takes the attributes and the bytes.
\<close>

record 'w efi_variables =
  ev_get :: "nat \<Rightarrow> 16 word list \<Rightarrow> int \<Rightarrow> 'w \<Rightarrow> efi_status \<times> int \<times> bytes"
  ev_set :: "nat \<Rightarrow> 16 word list \<Rightarrow> 32 word \<Rightarrow> bytes \<Rightarrow> 'w \<Rightarrow> efi_status \<times> 'w"

type_synonym 'w var_io = "embloader \<times> 'w"

definition EFI_VARIABLE_NON_VOLATILE :: "32 word" where
  "EFI_VARIABLE_NON_VOLATILE = 1"

definition EFI_VARIABLE_BOOTSERVICE_ACCESS :: "32 word" where
  "EFI_VARIABLE_BOOTSERVICE_ACCESS = 2"

definition EFI_VARIABLE_RUNTIME_ACCESS :: "32 word" where
  "EFI_VARIABLE_RUNTIME_ACCESS = 4"

text \<open>The conversions of \<open>encode/simple.c\<close> on C strings, with their allocation.\<close>

definition to_utf16 :: "cstring \<Rightarrow> 'w var_io \<Rightarrow> 16 word list option \<times> 'w var_io" where
  "to_utf16 s x = (let (g, w) = x; (ok, g) = galloc g in (encode_utf8_to_utf16 (\<not> ok) (Some (map of_char s)), g, w))"

definition to_utf8 :: "16 word list \<Rightarrow> 'w var_io \<Rightarrow> cstring option \<times> 'w var_io" where
  "to_utf8 s x =
     (let (g, w) = x; (ok, g) = galloc g
      in (map_option (map (\<lambda>b. char_of (unat b))) (encode_utf16_to_utf8 (\<not> ok) (Some s)), g, w))"

section \<open>Setting\<close>

definition efivar_set_raw ::
  "'w efi_variables \<Rightarrow> nat \<Rightarrow> cstring \<Rightarrow> bytes \<Rightarrow> 32 word \<Rightarrow> 'w var_io \<Rightarrow> efi_status \<times> 'w var_io" where
  "efivar_set_raw V vendor name buf flags x =
     (let flags = flags OR EFI_VARIABLE_BOOTSERVICE_ACCESS OR EFI_VARIABLE_RUNTIME_ACCESS; (wname, g, w) = to_utf16 name x
      in case wname of
           None \<Rightarrow> (EFI_OUT_OF_RESOURCES, g, w)
         | Some n \<Rightarrow> let (status, w) = ev_set V vendor n flags buf w in (status, g, w))"

definition efivar_set_str16 ::
  "'w efi_variables \<Rightarrow> nat \<Rightarrow> cstring \<Rightarrow> 16 word list option \<Rightarrow> 32 word \<Rightarrow> 'w var_io \<Rightarrow> efi_status \<times> 'w var_io" where
  "efivar_set_str16 V vendor name val =
     efivar_set_raw V vendor name (case val of None \<Rightarrow> [] | Some v \<Rightarrow> le_units (v @ [0]))"

definition efivar_set_str8 ::
  "'w efi_variables \<Rightarrow> nat \<Rightarrow> cstring \<Rightarrow> cstring option \<Rightarrow> 32 word \<Rightarrow> 'w var_io \<Rightarrow> efi_status \<times> 'w var_io" where
  "efivar_set_str8 V vendor name val =
     efivar_set_raw V vendor name (case val of None \<Rightarrow> [] | Some v \<Rightarrow> map of_char v @ [0])"

definition efivar_set_str16_from_str8 ::
  "'w efi_variables \<Rightarrow> nat \<Rightarrow> cstring \<Rightarrow> cstring option \<Rightarrow> 32 word \<Rightarrow> 'w var_io \<Rightarrow> efi_status \<times> 'w var_io" where
  "efivar_set_str16_from_str8 V vendor name val flags x =
     (case val of
        None \<Rightarrow> efivar_set_str16 V vendor name None flags x
      | Some v \<Rightarrow>
          let (wvalue, x) = to_utf16 v x
          in if wvalue = None then (EFI_OUT_OF_RESOURCES, x) else efivar_set_str16 V vendor name wvalue flags x)"

definition efivar_set_str8_from_str16 ::
  "'w efi_variables \<Rightarrow> nat \<Rightarrow> cstring \<Rightarrow> 16 word list option \<Rightarrow> 32 word \<Rightarrow> 'w var_io \<Rightarrow> efi_status \<times> 'w var_io" where
  "efivar_set_str8_from_str16 V vendor name val flags x =
     (case val of
        None \<Rightarrow> efivar_set_str8 V vendor name None flags x
      | Some v \<Rightarrow>
          let (svalue, x) = to_utf8 v x
          in if svalue = None then (EFI_OUT_OF_RESOURCES, x) else efivar_set_str8 V vendor name svalue flags x)"

text \<open>\<open>efivar_set_fmt8\<close> and \<open>efivar_set_fmt16\<close> are these two.\<close>

definition efivar_set_vfmt8 ::
  "'w efi_variables \<Rightarrow> nat \<Rightarrow> cstring \<Rightarrow> 32 word \<Rightarrow> cstring \<Rightarrow> 'w var_io \<Rightarrow> efi_status \<times> 'w var_io" where
  "efivar_set_vfmt8 V vendor name flags buf x =
     (let (g, w) = x; (ok, g) = galloc g
      in if \<not> ok then (EFI_OUT_OF_RESOURCES, g, w) else efivar_set_str8 V vendor name (Some buf) flags (g, w))"

definition efivar_set_vfmt16 ::
  "'w efi_variables \<Rightarrow> nat \<Rightarrow> cstring \<Rightarrow> 32 word \<Rightarrow> cstring \<Rightarrow> 'w var_io \<Rightarrow> efi_status \<times> 'w var_io" where
  "efivar_set_vfmt16 V vendor name flags buf x =
     (let (g, w) = x; (ok, g) = galloc g
      in if \<not> ok then (EFI_OUT_OF_RESOURCES, g, w) else efivar_set_str16_from_str8 V vendor name (Some buf) flags (g, w))"

definition num_bytes :: "nat \<Rightarrow> 64 word \<Rightarrow> bytes" where
  "num_bytes n v = map (\<lambda>k. ucast (drop_bit (8 * k) v)) [0..<n]"

definition efivar_set_uint32_le ::
  "'w efi_variables \<Rightarrow> nat \<Rightarrow> cstring \<Rightarrow> 32 word \<Rightarrow> 32 word \<Rightarrow> 'w var_io \<Rightarrow> efi_status \<times> 'w var_io" where
  "efivar_set_uint32_le V vendor name val = efivar_set_raw V vendor name (num_bytes 4 (ucast val))"

definition efivar_set_uint64_le ::
  "'w efi_variables \<Rightarrow> nat \<Rightarrow> cstring \<Rightarrow> 64 word \<Rightarrow> 32 word \<Rightarrow> 'w var_io \<Rightarrow> efi_status \<times> 'w var_io" where
  "efivar_set_uint64_le V vendor name val = efivar_set_raw V vendor name (num_bytes 8 val)"

section \<open>Getting\<close>

text \<open>
  The status, and on success the buffer with the size of its value. The buffer was filled with zeros and has two bytes
  more than the first call asked for.
\<close>

definition efivar_get_raw ::
  "'w efi_variables \<Rightarrow> nat \<Rightarrow> cstring \<Rightarrow> 'w var_io \<Rightarrow> (efi_status \<times> (bytes \<times> int) option) \<times> 'w var_io" where
  "efivar_get_raw V vendor name x =
     (let (wname, g, w) = to_utf16 name x in
      case wname of
        None \<Rightarrow> ((EFI_OUT_OF_RESOURCES, None), g, w)
      | Some n \<Rightarrow>
          let (status, sz, _) = ev_get V vendor n 0 w in
          if status \<noteq> EFI_BUFFER_TOO_SMALL then ((if \<not> EFI_ERROR status then EFI_BAD_BUFFER_SIZE else status, None), g, w)
          else if sz > 18446744073709551615 - 2 then ((EFI_OUT_OF_RESOURCES, None), g, w)
          else let (ok, g) = galloc g in
          if \<not> ok then ((EFI_OUT_OF_RESOURCES, None), g, w)
          else let (status, sz2, data) = ev_get V vendor n sz w in
          if EFI_ERROR status then ((status, None), g, w)
          else ((status, Some (data @ replicate (nat sz + 2 - length data) 0, sz2)), g, w))"

text \<open>The string a buffer starts with.\<close>

definition wide_string :: "bytes \<Rightarrow> 16 word list" where
  "wide_string buf = takeWhile (\<lambda>u. u \<noteq> 0) (units_of buf)"

definition narrow_string :: "bytes \<Rightarrow> cstring" where
  "narrow_string buf = map (\<lambda>b. char_of (unat b)) (takeWhile (\<lambda>b. b \<noteq> 0) buf)"

definition efivar_get_str16 ::
  "'w efi_variables \<Rightarrow> nat \<Rightarrow> cstring \<Rightarrow> 'w var_io \<Rightarrow> (efi_status \<times> 16 word list option) \<times> 'w var_io" where
  "efivar_get_str16 V vendor name x =
     (let ((status, r), x) = efivar_get_raw V vendor name x in
      case r of
        None \<Rightarrow> ((status, None), x)
      | Some (buf, sz) \<Rightarrow>
          if sz mod 2 \<noteq> 0 then ((EFI_INVALID_PARAMETER, None), x) else ((EFI_SUCCESS, Some (wide_string buf)), x))"

definition efivar_get_str8 ::
  "'w efi_variables \<Rightarrow> nat \<Rightarrow> cstring \<Rightarrow> 'w var_io \<Rightarrow> (efi_status \<times> cstring option) \<times> 'w var_io" where
  "efivar_get_str8 V vendor name x =
     (let ((status, r), x) = efivar_get_raw V vendor name x in
      case r of
        None \<Rightarrow> ((status, None), x)
      | Some (buf, sz) \<Rightarrow> ((EFI_SUCCESS, Some (narrow_string buf)), x))"

definition efivar_get_str16_to_str8 ::
  "'w efi_variables \<Rightarrow> nat \<Rightarrow> cstring \<Rightarrow> 'w var_io \<Rightarrow> (efi_status \<times> cstring option) \<times> 'w var_io" where
  "efivar_get_str16_to_str8 V vendor name x =
     (let ((status, r), x) = efivar_get_str16 V vendor name x in
      case r of
        None \<Rightarrow> ((status, None), x)
      | Some wbuf \<Rightarrow>
          let (buf, x) = to_utf8 wbuf x
          in (if buf = None then (EFI_OUT_OF_RESOURCES, None) else (EFI_SUCCESS, buf), x))"

definition efivar_get_str8_to_str16 ::
  "'w efi_variables \<Rightarrow> nat \<Rightarrow> cstring \<Rightarrow> 'w var_io \<Rightarrow> (efi_status \<times> 16 word list option) \<times> 'w var_io" where
  "efivar_get_str8_to_str16 V vendor name x =
     (let ((status, r), x) = efivar_get_str8 V vendor name x in
      case r of
        None \<Rightarrow> ((status, None), x)
      | Some buf \<Rightarrow>
          let (wbuf, x) = to_utf16 buf x
          in (if wbuf = None then (EFI_OUT_OF_RESOURCES, None) else (EFI_SUCCESS, wbuf), x))"

text \<open>The whole string must be an unsigned number in C notation.\<close>

definition parse_uint64 :: "cstring \<Rightarrow> efi_status \<times> int option" where
  "parse_uint64 buf =
     (let r = strtoull 0 buf in
      if buf = [] \<or> isspace (hdc buf) \<or> hdc buf = CHR ''-'' \<or> sr_end r = buf \<or> sr_end r \<noteq> [] \<or> sr_range r
      then (EFI_INVALID_PARAMETER, None) else (EFI_SUCCESS, Some (sr_val r)))"

definition efivar_get_str16_to_uint64 ::
  "'w efi_variables \<Rightarrow> nat \<Rightarrow> cstring \<Rightarrow> 'w var_io \<Rightarrow> (efi_status \<times> int option) \<times> 'w var_io" where
  "efivar_get_str16_to_uint64 V vendor name x =
     (let ((status, r), x) = efivar_get_str16_to_str8 V vendor name x
      in (case r of None \<Rightarrow> (status, None) | Some buf \<Rightarrow> parse_uint64 buf, x))"

definition efivar_get_str8_to_uint64 ::
  "'w efi_variables \<Rightarrow> nat \<Rightarrow> cstring \<Rightarrow> 'w var_io \<Rightarrow> (efi_status \<times> int option) \<times> 'w var_io" where
  "efivar_get_str8_to_uint64 V vendor name x =
     (let ((status, r), x) = efivar_get_str8 V vendor name x
      in (case r of None \<Rightarrow> (status, None) | Some buf \<Rightarrow> parse_uint64 buf, x))"

fun from_le :: "bytes \<Rightarrow> 64 word" where
  "from_le [] = 0"
| "from_le (b # bs) = ucast b OR push_bit 8 (from_le bs)"

definition efivar_get_uint32_le ::
  "'w efi_variables \<Rightarrow> nat \<Rightarrow> cstring \<Rightarrow> 'w var_io \<Rightarrow> (efi_status \<times> 32 word option) \<times> 'w var_io" where
  "efivar_get_uint32_le V vendor name x =
     (let ((status, r), x) = efivar_get_raw V vendor name x in
      case r of
        None \<Rightarrow> ((status, None), x)
      | Some (buf, sz) \<Rightarrow>
          if sz \<noteq> 4 then ((EFI_BUFFER_TOO_SMALL, None), x) else ((EFI_SUCCESS, Some (ucast (from_le (take 4 buf)))), x))"

definition efivar_get_uint64_le ::
  "'w efi_variables \<Rightarrow> nat \<Rightarrow> cstring \<Rightarrow> 'w var_io \<Rightarrow> (efi_status \<times> 64 word option) \<times> 'w var_io" where
  "efivar_get_uint64_le V vendor name x =
     (let ((status, r), x) = efivar_get_raw V vendor name x in
      case r of
        None \<Rightarrow> ((status, None), x)
      | Some (buf, sz) \<Rightarrow>
          if sz \<noteq> 8 then ((EFI_BUFFER_TOO_SMALL, None), x) else ((EFI_SUCCESS, Some (from_le (take 8 buf))), x))"

definition efivar_unset ::
  "'w efi_variables \<Rightarrow> nat \<Rightarrow> cstring \<Rightarrow> 32 word \<Rightarrow> 'w var_io \<Rightarrow> efi_status \<times> 'w var_io" where
  "efivar_unset V vendor name flags x =
     (let ((status, _), x) = efivar_get_raw V vendor name x
      in if \<not> EFI_ERROR status then efivar_set_raw V vendor name [] flags x else (status, x))"

end
