(* ===== verification/SdbootVars.thy ===== *)
theory SdbootVars
  imports Variables
begin

text \<open>
  The boot loader interface, from \<open>src/sdboot/variables.c\<close>: what the loader tells the system in variables of the
  firmware, and the timeouts and out the system asks for in them. \<open>fnmatch\<close> with the flag for case and the
  firmware are parameters; the vendor is \<open>gLoaderGuid\<close>.
\<close>

section \<open>State\<close>

definition gLoaderGuid :: nat where
  "gLoaderGuid = 0"

text \<open>The static variables of the file, beside the loader and the firmware.\<close>

record 'w sd_state =
  sv_last_booted :: "cstring option"
  sv_oneshot :: "addr option"
  sv_save_last :: bool
  sv_ready :: bool
  sv_g :: embloader
  sv_w :: 'w

definition on_vars :: "('w var_io \<Rightarrow> 'a \<times> 'w var_io) \<Rightarrow> 'w sd_state \<Rightarrow> 'a \<times> 'w sd_state" where
  "on_vars f s = (let (r, g, w) = f (sv_g s, sv_w s) in (r, s\<lparr>sv_g := g, sv_w := w\<rparr>))"

definition sd_alloc :: "'w sd_state \<Rightarrow> bool \<times> 'w sd_state" where
  "sd_alloc s = (let (ok, g) = galloc (sv_g s) in (ok, s\<lparr>sv_g := g\<rparr>))"

definition sdboot_record_error :: "efi_status \<Rightarrow> efi_status \<Rightarrow> efi_status" where
  "sdboot_record_error result status = (if \<not> EFI_ERROR result \<and> EFI_ERROR status then status else result)"

abbreviation loader_get :: "'w efi_variables \<Rightarrow> cstring \<Rightarrow> 'w var_io \<Rightarrow> (efi_status \<times> cstring option) \<times> 'w var_io" where
  "loader_get V \<equiv> efivar_get_str16_to_str8 V gLoaderGuid"

section \<open>What the loader says of itself\<close>

text \<open>A node of a device path: its length and kind, the kind of its signature, and the signature as it is printed.\<close>

record dp_node =
  dn_length :: nat
  dn_type :: nat
  dn_subtype :: nat
  dn_signature :: nat
  dn_guid :: cstring

fun sdboot_get_partition_uuid :: "dp_node list \<Rightarrow> cstring option" where
  "sdboot_get_partition_uuid [] = None"
| "sdboot_get_partition_uuid (n # ns) =
     (if dn_length n < 4 then None
      else if dn_type n = 4 \<and> dn_subtype n = 1 \<and> dn_length n \<ge> 42 \<and> dn_signature n = 2 then Some (dn_guid n)
      else sdboot_get_partition_uuid ns)"

text \<open>
  The loaded image, when the firmware gives one: the path of its device, and the text of its file, when it has them;
  the system table; the time when the loader started and the time now.
\<close>

record system_info =
  si_device :: "dp_node list option"
  si_file :: "cstring option option"
  si_vendor :: "16 word list option"
  si_firmware_revision :: nat
  si_uefi_revision :: nat
  si_start_time :: nat
  si_ticks :: nat
  si_version :: "16 word list"

definition sdboot_set_time :: "'w efi_variables \<Rightarrow> nat \<Rightarrow> cstring \<Rightarrow> nat \<Rightarrow> 'w var_io \<Rightarrow> efi_status \<times> 'w var_io" where
  "sdboot_set_time V ticks name usec x =
     (let usec = (if usec = 0 then ticks else usec) in
      if usec = 0 then (EFI_SUCCESS, x) else efivar_set_vfmt16 V gLoaderGuid name 0 (nat_dec usec) x)"

definition sdboot_variable_is_missing :: "'w efi_variables \<Rightarrow> cstring \<Rightarrow> 'w var_io \<Rightarrow> bool \<times> 'w var_io" where
  "sdboot_variable_is_missing V name x = (let ((status, _), x) = efivar_get_raw V gLoaderGuid name x in (EFI_ERROR status, x))"

text \<open>\<open>"%u.%02u"\<close>.\<close>

definition revision_text :: "nat \<Rightarrow> cstring" where
  "revision_text r =
     nat_dec (r div 65536) @ ''.'' @ (if r mod 65536 < 10 then ''0'' else []) @ nat_dec (r mod 65536)"

text \<open>A variable that is set only when it is missing; the value is made after that is known, or nothing is done.\<close>

definition export_missing ::
  "'w efi_variables \<Rightarrow> bool \<Rightarrow> cstring \<Rightarrow> ('w var_io \<Rightarrow> efi_status \<times> 'w var_io) \<Rightarrow> efi_status \<times> 'w var_io \<Rightarrow>
   efi_status \<times> 'w var_io" where
  "export_missing V has name act r =
     (let (result, x) = r in
      if \<not> has then (result, x)
      else let (missing, x) = sdboot_variable_is_missing V name x in
      if \<not> missing then (result, x)
      else let (status, x) = act x in (sdboot_record_error result status, x))"

definition sdboot_export_common_variables :: "'w efi_variables \<Rightarrow> system_info \<Rightarrow> 'w var_io \<Rightarrow> efi_status \<times> 'w var_io" where
  "sdboot_export_common_variables V I x =
     (let set = (\<lambda>name v. case v of None \<Rightarrow> Pair EFI_SUCCESS | Some t \<Rightarrow> efivar_set_str16_from_str8 V gLoaderGuid name (Some t) 0);
          r = (EFI_SUCCESS, x);
          r = export_missing V (si_device I \<noteq> None) ''LoaderDevicePartUUID''
                (set ''LoaderDevicePartUUID'' (sdboot_get_partition_uuid (the (si_device I)))) r;
          r = export_missing V (si_file I \<noteq> None) ''LoaderImageIdentifier'' (set ''LoaderImageIdentifier'' (the (si_file I))) r;
          r = export_missing V (si_vendor I \<noteq> None) ''LoaderFirmwareInfo''
                (\<lambda>x. let (vendor, x) = to_utf8 (the (si_vendor I)) x
                     in case vendor of
                          None \<Rightarrow> (EFI_OUT_OF_RESOURCES, x)
                        | Some t \<Rightarrow> efivar_set_vfmt16 V gLoaderGuid ''LoaderFirmwareInfo'' 0
                                      (t @ '' '' @ revision_text (si_firmware_revision I)) x) r
      in export_missing V True ''LoaderFirmwareType''
           (efivar_set_vfmt16 V gLoaderGuid ''LoaderFirmwareType'' 0 (''UEFI '' @ revision_text (si_uefi_revision I))) r)"

definition loader_features :: "64 word" where
  "loader_features =
     push_bit 0 1 OR push_bit 1 1 OR push_bit 2 1 OR push_bit 3 1 OR push_bit 8 1 OR push_bit 9 1 OR push_bit 10 1 OR
     push_bit 13 1"

definition sdboot_init_loader_variables :: "'w efi_variables \<Rightarrow> system_info \<Rightarrow> 'w var_io \<Rightarrow> efi_status \<times> 'w var_io" where
  "sdboot_init_loader_variables V I x =
     (let (result, x) = sdboot_export_common_variables V I x;
          (record1, x) = sdboot_set_time V (si_ticks I) ''LoaderTimeInitUSec'' (si_start_time I) x;
          result = sdboot_record_error result record1;
          (record2, x) = efivar_set_str16 V gLoaderGuid ''LoaderInfo'' (Some (si_version I)) 0 x;
          result = sdboot_record_error result record2;
          (record3, x) = efivar_set_uint64_le V gLoaderGuid ''LoaderFeatures'' loader_features 0 x
      in (sdboot_record_error result record3, x))"

section \<open>What the system asks for\<close>

text \<open>The text of a timeout: the timeout and whether the menu is disabled.\<close>

definition parse_timeout :: "cstring \<Rightarrow> (int \<times> bool) option" where
  "parse_timeout val =
     (if strcasecmp val ''menu-force'' = 0 then Some (-1, False)
      else if strcasecmp val ''menu-hidden'' = 0 \<or> strcasecmp val ''menu-disabled'' = 0
      then Some (0, strcasecmp val ''menu-disabled'' = 0)
      else if val = [] \<or> (\<exists>c \<in> set val. cval c < 48 \<or> 57 < cval c) then None
      else let r = strtoull 10 val in
      if sr_range r \<or> sr_end r \<noteq> [] then None
      else Some (if sr_val r \<ge> 4294967295 then -1 else if sr_val r > INT_MAX then INT_MAX else sr_val r, False))"

definition sdboot_var_get_timeout ::
  "'w efi_variables \<Rightarrow> cstring \<Rightarrow> 'w var_io \<Rightarrow> (efi_status \<times> (int \<times> bool) option) \<times> 'w var_io" where
  "sdboot_var_get_timeout V name x =
     (let ((status, val), x) = loader_get V name x in
      case val of
        None \<Rightarrow> ((status, None), x)
      | Some t \<Rightarrow> (case parse_timeout t of None \<Rightarrow> ((EFI_INVALID_PARAMETER, None), x) | Some r \<Rightarrow> ((EFI_SUCCESS, Some r), x)))"

definition sdboot_loader_is_bootable :: "embloader_loader \<Rightarrow> bool" where
  "sdboot_loader_is_bootable l \<longleftrightarrow> ll_type l \<in> {LOADER_EFI, LOADER_LINUX_EFI, LOADER_LINUX, LOADER_SDBOOT}"

text \<open>The identifier of an entry with a name, and its allocation.\<close>

definition entry_id :: "embloader_loader \<Rightarrow> cstring \<Rightarrow> cstring" where
  "entry_id l name =
     (if ll_type l = LOADER_SDBOOT then name @ ''.conf''
      else if ll_type l = LOADER_EFISETUP \<and> strcmp name ''sdboot-auto-firmware'' = 0 then ''auto-reboot-to-firmware-setup''
      else if ll_type l = LOADER_REBOOT \<and> strcmp name ''sdboot-auto-shutdown'' = 0 then ''auto-poweroff''
      else if ll_type l = LOADER_REBOOT \<and> strcmp name ''sdboot-auto-reboot'' = 0 then ''auto-reboot''
      else name)"

definition sdboot_loader_entry_id :: "embloader_loader \<Rightarrow> 'w sd_state \<Rightarrow> cstring option \<times> 'w sd_state" where
  "sdboot_loader_entry_id l s =
     (case ll_name l of
        None \<Rightarrow> (None, s)
      | Some name \<Rightarrow> let (ok, s) = sd_alloc s in (if ok then Some (entry_id l name) else None, s))"

text \<open>The first entry that matches; \<open>fnm\<close> is \<open>fnmatch\<close> of a pattern and a string.\<close>

fun find_loop ::
  "(cstring \<Rightarrow> cstring \<Rightarrow> int) \<Rightarrow> cstring \<Rightarrow> bool \<Rightarrow> entry list \<Rightarrow> 'w sd_state \<Rightarrow> (efi_status \<times> entry option) \<times> 'w sd_state" where
  "find_loop fnm pattern allow [] s = ((EFI_SUCCESS, None), s)"
| "find_loop fnm pattern allow (e # es) s =
     (case ll_name (snd e) of
        None \<Rightarrow> find_loop fnm pattern allow es s
      | Some name \<Rightarrow>
          if allow \<and> fnm pattern name = 0 then ((EFI_SUCCESS, Some e), s)
          else let (eid, s) = sdboot_loader_entry_id (snd e) s
               in case eid of
                    None \<Rightarrow> ((EFI_OUT_OF_RESOURCES, None), s)
                  | Some i \<Rightarrow> if fnm pattern i = 0 then ((EFI_SUCCESS, Some e), s) else find_loop fnm pattern allow es s)"

definition sdboot_find_loader ::
  "(cstring \<Rightarrow> cstring \<Rightarrow> int) \<Rightarrow> cstring option \<Rightarrow> bool \<Rightarrow> 'w sd_state \<Rightarrow> (efi_status \<times> entry option) \<times> 'w sd_state" where
  "sdboot_find_loader fnm pattern allow s =
     (case pattern of
        None \<Rightarrow> ((EFI_SUCCESS, None), s)
      | Some p \<Rightarrow> (case g_menu (sv_g s) of None \<Rightarrow> ((EFI_NOT_READY, None), s) | Some m \<Rightarrow> find_loop fnm p allow (mn_loaders m) s))"

section \<open>The list of entries\<close>

text \<open>Whether an entry in front has the identifier; \<open>None\<close> when an allocation fails.\<close>

fun seen_loop :: "cstring \<Rightarrow> entry list \<Rightarrow> 'w sd_state \<Rightarrow> bool option \<times> 'w sd_state" where
  "seen_loop eid [] s = (Some False, s)"
| "seen_loop eid (e # es) s =
     (if ll_name (snd e) = None then seen_loop eid es s
      else let (i, s) = sdboot_loader_entry_id (snd e) s
           in case i of
                None \<Rightarrow> (None, s)
              | Some i \<Rightarrow> if strcasecmp eid i = 0 then (Some True, s) else seen_loop eid es s)"

definition sdboot_entry_id_seen_before :: "entry list \<Rightarrow> cstring \<Rightarrow> 'w sd_state \<Rightarrow> bool option \<times> 'w sd_state" where
  "sdboot_entry_id_seen_before before eid s = seen_loop eid before s"

text \<open>The bytes so far; \<open>None\<close> is the error exit.\<close>

fun export_loop :: "entry list \<Rightarrow> entry list \<Rightarrow> bytes \<Rightarrow> 'w sd_state \<Rightarrow> bytes option \<times> 'w sd_state" where
  "export_loop before [] out s = (Some out, s)"
| "export_loop before (e # es) out s =
     (if ll_name (snd e) = None then export_loop (before @ [e]) es out s
      else let (eid, s) = sdboot_loader_entry_id (snd e) s in
      case eid of
        None \<Rightarrow> (None, s)
      | Some i \<Rightarrow>
          let (duplicate, s) = sdboot_entry_id_seen_before before i s in
          case duplicate of
            None \<Rightarrow> (None, s)
          | Some True \<Rightarrow> export_loop (before @ [e]) es out s
          | Some False \<Rightarrow>
              let (wid, s) = on_vars (to_utf16 i) s in
              case wid of
                None \<Rightarrow> (None, s)
              | Some u \<Rightarrow>
                  let id_bytes = le_units (u @ [0]) in
                  if int (length id_bytes) > 18446744073709551615 - int (length out) then (None, s)
                  else let (ok, s) = sd_alloc s
                       in if ok then export_loop (before @ [e]) es (out @ id_bytes) s else (None, s))"

definition sdboot_export_entries :: "'w efi_variables \<Rightarrow> 'w sd_state \<Rightarrow> efi_status \<times> 'w sd_state" where
  "sdboot_export_entries V s =
     (case g_menu (sv_g s) of
        None \<Rightarrow> (EFI_NOT_READY, s)
      | Some m \<Rightarrow>
          let (out, s) = export_loop [] (mn_loaders m) [] s in
          case out of
            None \<Rightarrow> (EFI_OUT_OF_RESOURCES, s)
          | Some es \<Rightarrow>
              if es \<noteq> [] then on_vars (efivar_set_raw V gLoaderGuid ''LoaderEntries'' es 0) s
              else let (status, s) = on_vars (efivar_unset V gLoaderGuid ''LoaderEntries'' 0) s
                   in (if status = EFI_NOT_FOUND then EFI_SUCCESS else status, s))"

section \<open>Preparing the menu\<close>

definition sd_on_menu :: "(embloader_menu \<Rightarrow> embloader_menu) \<Rightarrow> 'w sd_state \<Rightarrow> 'w sd_state" where
  "sd_on_menu f s = s\<lparr>sv_g := (sv_g s)\<lparr>g_menu := map_option f (g_menu (sv_g s))\<rparr>\<rparr>"

text \<open>An error other than \<open>EFI_NOT_FOUND\<close> is recorded.\<close>

definition record_unless_missing :: "efi_status \<Rightarrow> efi_status \<Rightarrow> efi_status" where
  "record_unless_missing result status = (if status \<noteq> EFI_NOT_FOUND then sdboot_record_error result status else result)"

text \<open>A variable is consumed.\<close>

definition unset_once :: "'w efi_variables \<Rightarrow> cstring \<Rightarrow> efi_status \<times> 'w sd_state \<Rightarrow> efi_status \<times> 'w sd_state" where
  "unset_once V name r =
     (let (result, s) = r; (status, s) = on_vars (efivar_unset V gLoaderGuid name EFI_VARIABLE_NON_VOLATILE) s
      in (record_unless_missing result status, s))"

definition config_timeout :: "'w efi_variables \<Rightarrow> efi_status \<times> 'w sd_state \<Rightarrow> efi_status \<times> 'w sd_state" where
  "config_timeout V r =
     (let (result, s) = r; ((status, v), s) = on_vars (sdboot_var_get_timeout V ''LoaderConfigTimeout'') s in
      case v of
        Some (timeout, disabled) \<Rightarrow> (result, sd_on_menu (\<lambda>m. m\<lparr>mn_timeout := timeout, mn_disabled := disabled\<rparr>) s)
      | None \<Rightarrow> (record_unless_missing result status, s))"

definition oneshot_timeout :: "'w efi_variables \<Rightarrow> efi_status \<times> 'w sd_state \<Rightarrow> efi_status \<times> 'w sd_state" where
  "oneshot_timeout V r =
     (let (result, s) = r; ((status, v), s) = on_vars (sdboot_var_get_timeout V ''LoaderConfigTimeoutOneShot'') s in
      case v of
        Some (timeout, _) \<Rightarrow>
          unset_once V ''LoaderConfigTimeoutOneShot''
            (result, sd_on_menu (\<lambda>m. m\<lparr>mn_timeout := (if timeout \<le> 0 then -1 else timeout), mn_disabled := False\<rparr>) s)
      | None \<Rightarrow> (record_unless_missing result status, s))"

text \<open>An entry that is asked for in a variable, and the one that is consumed by asking.\<close>

definition read_entry :: "'w efi_variables \<Rightarrow> cstring \<Rightarrow> efi_status \<times> 'w sd_state \<Rightarrow> cstring option \<times> efi_status \<times> 'w sd_state" where
  "read_entry V name r =
     (let (result, s) = r; ((status, v), s) = on_vars (loader_get V name) s
      in (v, if v \<noteq> None then result else record_unless_missing result status, s))"

definition oneshot_entry :: "'w efi_variables \<Rightarrow> efi_status \<times> 'w sd_state \<Rightarrow> cstring option \<times> efi_status \<times> 'w sd_state" where
  "oneshot_entry V r =
     (let (v, r) = read_entry V ''LoaderEntryOneShot'' r
      in if v = None then (v, r) else (v, unset_once V ''LoaderEntryOneShot'' r))"

definition is_saved :: "cstring option \<Rightarrow> bool" where
  "is_saved v = (case v of None \<Rightarrow> False | Some t \<Rightarrow> strcasecmp t ''@saved'' = 0)"

text \<open>A search that is made only when nothing was found so far.\<close>

definition try_find ::
  "(cstring \<Rightarrow> cstring \<Rightarrow> int) \<Rightarrow> bool \<Rightarrow> cstring option \<Rightarrow> bool \<Rightarrow> (efi_status \<times> entry option) \<times> 'w sd_state \<Rightarrow>
   (efi_status \<times> entry option) \<times> 'w sd_state" where
  "try_find fnm asked pattern allow r =
     (let ((status, selected), s) = r in
      if EFI_ERROR status \<or> selected \<noteq> None \<or> \<not> asked then r else sdboot_find_loader fnm pattern allow s)"

text \<open>The entry to select, and whether it is the one-shot one.\<close>

definition select_entry ::
  "(cstring \<Rightarrow> cstring \<Rightarrow> int) \<Rightarrow> cstring option \<Rightarrow> cstring option \<Rightarrow> cstring option \<Rightarrow> cstring option \<Rightarrow> 'w sd_state \<Rightarrow>
   (efi_status \<times> entry option \<times> bool) \<times> 'w sd_state" where
  "select_entry fnm oneshot entry_default recent menu_default s =
     (let ((st1, sel1), s) = try_find fnm (oneshot \<noteq> None) oneshot False ((EFI_SUCCESS, None), s);
          r = try_find fnm (entry_default \<noteq> None) (if is_saved entry_default then recent else entry_default) False ((st1, sel1), s);
          ((st, sel), s) = try_find fnm (menu_default \<noteq> None) (if is_saved menu_default then recent else menu_default)
                             (\<not> is_saved menu_default) r
      in ((st, sel, sel1 \<noteq> None), s))"

text \<open>The selection takes effect; the result says whether it is ready.\<close>

definition take_selected :: "efi_status \<times> entry option \<times> bool \<Rightarrow> efi_status \<times> 'w sd_state \<Rightarrow> bool \<times> efi_status \<times> 'w sd_state" where
  "take_selected sel r =
     (let (status, selected, oneshot) = sel; (result, s) = r in
      if EFI_ERROR status then (False, sdboot_record_error result status, s)
      else (case selected of
              None \<Rightarrow> (True, result, s)
            | Some e \<Rightarrow>
                let (ok, s) = sd_alloc s in
                if \<not> ok then (False, sdboot_record_error result EFI_OUT_OF_RESOURCES, s)
                else let s = sd_on_menu (\<lambda>m. m\<lparr>mn_default_entry := ll_name (snd e)\<rparr>) s
                     in (True, result, if oneshot then s\<lparr>sv_oneshot := Some (fst e)\<rparr> else s)))"

definition sdboot_init_menu_variables ::
  "'w efi_variables \<Rightarrow> (cstring \<Rightarrow> cstring \<Rightarrow> int) \<Rightarrow> 'w sd_state \<Rightarrow> efi_status \<times> 'w sd_state" where
  "sdboot_init_menu_variables V fnm s =
     (case g_menu (sv_g s) of
        None \<Rightarrow> (EFI_NOT_READY, s)
      | Some m \<Rightarrow>
          let s = s\<lparr>sv_last_booted := None, sv_oneshot := None, sv_save_last := False, sv_ready := False\<rparr>;
              r = oneshot_timeout V (config_timeout V (EFI_SUCCESS, s));
              (oneshot, r) = oneshot_entry V r;
              (entry_default, r) = read_entry V ''LoaderEntryDefault'' r;
              menu_default = mn_default_entry m;
              (recent, result, s) = (if is_saved menu_default \<or> is_saved entry_default
                                   then read_entry V ''LoaderEntryLastBooted'' r else (None, r));
              (sel, s) = select_entry fnm oneshot entry_default recent menu_default s;
              (ready, result, s) = take_selected sel (result, s);
              s = s\<lparr>sv_save_last := is_saved entry_default \<or> entry_default = None \<and> is_saved menu_default\<rparr>;
              s = (if ready then s\<lparr>sv_last_booted := recent, sv_ready := True\<rparr> else s);
              (status, s) = sdboot_export_entries V s
          in (sdboot_record_error result status, s))"

section \<open>What the loader does\<close>

definition sdboot_set_menu_time :: "'w efi_variables \<Rightarrow> nat \<Rightarrow> 'w var_io \<Rightarrow> efi_status \<times> 'w var_io" where
  "sdboot_set_menu_time V ticks = sdboot_set_time V ticks ''LoaderTimeMenuUSec'' 0"

definition sdboot_set_exec_time :: "'w efi_variables \<Rightarrow> nat \<Rightarrow> 'w var_io \<Rightarrow> efi_status \<times> 'w var_io" where
  "sdboot_set_exec_time V ticks = sdboot_set_time V ticks ''LoaderTimeExecUSec'' 0"

text \<open>Forgetting and saving the entry that was booted last.\<close>

definition forget_last :: "'w efi_variables \<Rightarrow> efi_status \<times> 'w sd_state \<Rightarrow> efi_status \<times> 'w sd_state" where
  "forget_last V r =
     (let (result, s) = r;
          (status, s) = on_vars (efivar_unset V gLoaderGuid ''LoaderEntryLastBooted'' EFI_VARIABLE_NON_VOLATILE) s;
          status = (if status = EFI_NOT_FOUND then EFI_SUCCESS else status);
          s = (if \<not> EFI_ERROR status then s\<lparr>sv_last_booted := None\<rparr> else s)
      in (sdboot_record_error result status, s))"

definition save_last :: "'w efi_variables \<Rightarrow> cstring \<Rightarrow> efi_status \<times> 'w sd_state \<Rightarrow> efi_status \<times> 'w sd_state" where
  "save_last V eid r =
     (let (result, s) = r in
      if (case sv_last_booted s of None \<Rightarrow> False | Some t \<Rightarrow> strcasecmp t eid = 0) then r
      else let (ok, s) = sd_alloc s in
      if \<not> ok then (sdboot_record_error result EFI_OUT_OF_RESOURCES, s)
      else let (status, s) = on_vars (efivar_set_str16_from_str8 V gLoaderGuid ''LoaderEntryLastBooted'' (Some eid)
                               EFI_VARIABLE_NON_VOLATILE) s;
               s = (if \<not> EFI_ERROR status then s\<lparr>sv_last_booted := Some eid\<rparr> else s)
           in (sdboot_record_error result status, s))"

definition sdboot_set_selected_entry :: "'w efi_variables \<Rightarrow> entry \<Rightarrow> 'w sd_state \<Rightarrow> efi_status \<times> 'w sd_state" where
  "sdboot_set_selected_entry V e s =
     (if ll_name (snd e) = None then (EFI_INVALID_PARAMETER, s)
      else let oneshot = (sv_oneshot s = Some (fst e)); s = (if oneshot then s\<lparr>sv_oneshot := None\<rparr> else s) in
      if \<not> sdboot_loader_is_bootable (snd e) then (EFI_SUCCESS, s)
      else let (eid, s) = sdboot_loader_entry_id (snd e) s in
      case eid of
        None \<Rightarrow> (EFI_OUT_OF_RESOURCES, s)
      | Some i \<Rightarrow>
          let r = on_vars (efivar_set_str16_from_str8 V gLoaderGuid ''LoaderEntrySelected'' (Some i) 0) s in
          if \<not> sv_ready (snd r) \<or> oneshot then r
          else if \<not> sv_save_last (snd r) then forget_last V r
          else save_last V i r)"

end
