(* ===== verification/VariablesFacts.thy ===== *)
theory VariablesFacts
  imports Variables EncodeFacts ConfigLookup
begin

text \<open>
  What was set is read back: the contract of the store of the firmware (\<open>stores\<close>), and round trips of strings and
  numbers through it.
\<close>

section \<open>Names\<close>

definition wide :: "cstring \<Rightarrow> 16 word list" where
  "wide s = the (encode_utf8_to_utf16 False (Some (map of_char s)))"

definition short :: "cstring \<Rightarrow> bool" where
  "short s \<longleftrightarrow> length s < SIZE_MAX div 2"

lemma galloc_ok: "galloc g = (ok, g') \<Longrightarrow> no_oom (g_cs g) \<Longrightarrow> ok \<and> no_oom (g_cs g')"
  using alloc_ok [of "g_cs g"] no_oom_tick [of "g_cs g"] by (auto simp: galloc_def)

lemma wide_encoded: "encode_utf8_to_utf16 oom (Some (map of_char s)) = Some u \<Longrightarrow> u = wide s"
  by (cases oom) (simp_all add: wide_def encode_utf8_to_utf16_def split: if_splits)

lemma to_utf16_result:
  assumes "to_utf16 s (g, w) = (u, g', w')"
  shows "w' = w \<and> (u = None \<or> u = Some (wide s)) \<and> (no_oom (g_cs g) \<and> short s \<longrightarrow> u = Some (wide s) \<and> no_oom (g_cs g'))"
proof -
  obtain ok g1 where a: "galloc g = (ok, g1)" by (metis prod.exhaust)
  note n = galloc_ok [OF a]
  have s: "no_oom (g_cs g) \<Longrightarrow> short s \<Longrightarrow> encode_utf8_to_utf16 (\<not> ok) (Some (map of_char s)) \<noteq> None"
    using n simple_utf8_total [of "\<not> ok" "map of_char s"] by (simp add: short_def)
  show ?thesis using assms a s n wide_encoded [of "\<not> ok" s] by (cases u) (auto simp: to_utf16_def)
qed

text \<open>ASCII text is converted character by character.\<close>

definition ascii :: "cstring \<Rightarrow> bool" where
  "ascii s \<longleftrightarrow> (\<forall>c \<in> set s. 0 < cval c \<and> cval c < 128)"

lemma of_char_cval: "(of_char c :: 'a :: len word) = of_nat (cval c)"
  by (simp add: cval_def of_nat_of_char)

lemma ascii_point:
  assumes "0 < n" "n < 128"
  shows "utf8_bytes (of_nat n) = [of_nat n]" "utf16_units (of_nat n) = [of_nat n]" "scalar (of_nat n)" "(of_nat n :: 32 word) \<noteq> 0"
proof -
  have u: "unat (of_nat n :: 32 word) = n" using assms by (simp add: unat_of_nat)
  have 8: "(ucast (of_nat n :: 32 word) :: 8 word) = of_nat n"
    by (rule word_unat_eq_iff [THEN iffD2]) (use assms u in \<open>simp add: unsigned_ucast_eq take_bit_nat_eq_self unat_of_nat\<close>)
  have 16: "(ucast (of_nat n :: 32 word) :: 16 word) = of_nat n"
    by (rule word_unat_eq_iff [THEN iffD2]) (use assms u in \<open>simp add: unsigned_ucast_eq take_bit_nat_eq_self unat_of_nat\<close>)
  show "utf8_bytes (of_nat n) = [of_nat n]" using assms by (simp add: utf8_bytes_def cp_cmp u 8)
  show "utf16_units (of_nat n) = [of_nat n]" using assms by (simp add: utf16_units_def cp_cmp u 16)
  show "scalar (of_nat n)" using assms by (simp add: scalar_nat u)
  show "(of_nat n :: 32 word) \<noteq> 0" using assms u by (metis less_irrefl unat_0)
qed

lemma ascii_text:
  assumes "ascii s"
  shows "text8 (map (\<lambda>c. of_nat (cval c)) s) = map of_char s" "text16 (map (\<lambda>c. of_nat (cval c)) s) = map (\<lambda>c. of_nat (cval c)) s"
    "ctext (map (\<lambda>c. of_nat (cval c)) s)"
  using assms by (induction s) (auto simp: ascii_def ascii_point of_char_cval ctext_def)

lemma wide_ascii: "ascii s \<Longrightarrow> short s \<Longrightarrow> wide s = map (\<lambda>c. of_nat (cval c)) s"
  using simple_utf8_text [OF ascii_text(3), of s] by (simp add: wide_def ascii_text short_def)

lemma ascii_inj:
  assumes "ascii s" "ascii t" "map (\<lambda>c. of_nat (cval c) :: 16 word) s = map (\<lambda>c. of_nat (cval c)) t"
  shows "s = t"
  using assms
proof (induction s arbitrary: t)
  case (Cons c s)
  then obtain d t' where t: "t = d # t'" by (cases t) auto
  have "unat (of_nat (cval c) :: 16 word) = unat (of_nat (cval d) :: 16 word)" using Cons.prems(3) t by simp
  then have "cval c = cval d" using Cons.prems(1,2) t by (simp add: ascii_def unat_of_nat)
  then have "c = d" by (metis char_of_cval)
  with Cons t show ?case by (auto simp: ascii_def)
qed simp

lemma wide_eq: "ascii s \<Longrightarrow> ascii t \<Longrightarrow> short s \<Longrightarrow> short t \<Longrightarrow> wide s = wide t \<longleftrightarrow> s = t"
  using ascii_inj by (auto simp: wide_ascii)

section \<open>The store\<close>

text \<open>
  The contract of \<open>GetVariable\<close> and \<open>SetVariable\<close>: \<open>st\<close> is the variables in a state of the firmware. Setting no bytes
  deletes; \<open>EFI_NOT_FOUND\<close> is only returned for a variable that does not exist.
\<close>

definition stores :: "'w efi_variables \<Rightarrow> ('w \<Rightarrow> nat \<times> 16 word list \<Rightarrow> bytes option) \<Rightarrow> bool" where
  "stores V st \<longleftrightarrow>
     (\<forall>v n sz w. ev_get V v n sz w =
        (case st w (v, n) of
           None \<Rightarrow> (EFI_NOT_FOUND, 0, [])
         | Some d \<Rightarrow> if sz < int (length d) then (EFI_BUFFER_TOO_SMALL, int (length d), []) else (EFI_SUCCESS, int (length d), d))) \<and>
     (\<forall>v n fl d w status w'. ev_set V v n fl d w = (status, w') \<longrightarrow>
        st w' = (if EFI_ERROR status then st w else (st w)((v, n) := if d = [] then None else Some d)) \<and>
        (status = EFI_NOT_FOUND \<longrightarrow> st w (v, n) = None)) \<and>
     (\<forall>w k d. st w k = Some d \<longrightarrow> d \<noteq> [] \<and> int (length d) < 2 ^ 63)"

lemma set_raw_result:
  assumes "efivar_set_raw V vendor name buf flags (g, w) = (status, g', w')" "stores V st"
  shows "st w' = (if EFI_ERROR status then st w else (st w)((vendor, wide name) := if buf = [] then None else Some buf)) \<and>
    (status = EFI_NOT_FOUND \<longrightarrow> st w (vendor, wide name) = None) \<and>
    (no_oom (g_cs g) \<and> short name \<longrightarrow> no_oom (g_cs g'))"
proof -
  obtain u g1 w1 where e: "to_utf16 name (g, w) = (u, g1, w1)" by (metis prod.exhaust)
  note r = to_utf16_result [OF e]
  show ?thesis
  proof (cases u)
    case None
    with assms e r show ?thesis by (auto simp: efivar_set_raw_def)
  next
    case (Some n)
    with assms e r show ?thesis by (auto simp: efivar_set_raw_def stores_def split: prod.splits)
  qed
qed

text \<open>A variable that is read is there, and one that is reported missing is missing.\<close>

lemma get_raw_result:
  assumes "efivar_get_raw V vendor name (g, w) = ((status, r), g', w')" "stores V st"
  shows "w' = w \<and> (status = EFI_NOT_FOUND \<longrightarrow> st w (vendor, wide name) = None) \<and>
    (r = None \<longleftrightarrow> EFI_ERROR status) \<and>
    (\<forall>b. r = Some b \<longrightarrow> status = EFI_SUCCESS \<and> (\<exists>d. st w (vendor, wide name) = Some d \<and> b = (d @ [0, 0], int (length d)))) \<and>
    (no_oom (g_cs g) \<and> short name \<longrightarrow> no_oom (g_cs g') \<and>
       (case st w (vendor, wide name) of None \<Rightarrow> status = EFI_NOT_FOUND | Some d \<Rightarrow> r = Some (d @ [0, 0], int (length d))))"
proof -
  obtain u g1 w1 where e: "to_utf16 name (g, w) = (u, g1, w1)" by (metis prod.exhaust)
  note t = to_utf16_result [OF e]
  obtain ok g2 where a: "galloc g1 = (ok, g2)" by (metis prod.exhaust)
  show ?thesis
  proof (cases u)
    case None
    with assms e t show ?thesis by (auto simp: efivar_get_raw_def)
  next
    case (Some n)
    with t have n: "u = Some (wide name)" "w1 = w" by auto
    show ?thesis
    proof (cases "st w (vendor, wide name)")
      case None
      then have "ev_get V vendor (wide name) 0 w = (EFI_NOT_FOUND, 0, [])" using assms(2) by (simp add: stores_def)
      with assms(1) e n t None show ?thesis by (auto simp: efivar_get_raw_def)
    next
      case (Some d)
      then have d: "d \<noteq> []" "int (length d) < 2 ^ 63" using assms(2) by (auto simp: stores_def)
      have "ev_get V vendor (wide name) 0 w = (EFI_BUFFER_TOO_SMALL, int (length d), [])"
        "ev_get V vendor (wide name) (int (length d)) w = (EFI_SUCCESS, int (length d), d)"
        using assms(2) Some d by (simp_all add: stores_def)
      moreover have "replicate 2 (0 :: 8 word) = [0, 0]" by (simp add: numeral_2_eq_2)
      ultimately have "((status, r), g', w') = ((if ok then (EFI_SUCCESS, Some (d @ [0, 0], int (length d))) else (EFI_OUT_OF_RESOURCES, None)), g2, w)"
        using assms(1) e n a d by (auto simp: efivar_get_raw_def)
      with Some t n galloc_ok [OF a] show ?thesis by (auto split: if_splits)
    qed
  qed
qed

lemma get_raw_stored:
  assumes "stores V st" "no_oom (g_cs g)" "short name" "st w (vendor, wide name) = Some d"
  shows "\<exists>g'. efivar_get_raw V vendor name (g, w) = ((EFI_SUCCESS, Some (d @ [0, 0], int (length d))), g', w) \<and> no_oom (g_cs g')"
proof -
  obtain status r g' w' where e: "efivar_get_raw V vendor name (g, w) = ((status, r), g', w')" by (metis prod.exhaust)
  note R = get_raw_result [OF e assms(1)]
  from R assms(2,3) have "no_oom (g_cs g')" "w' = w"
    "case st w (vendor, wide name) of None \<Rightarrow> status = EFI_NOT_FOUND | Some d \<Rightarrow> r = Some (d @ [0, 0], int (length d))"
    by blast+
  with assms(4) have r: "r = Some (d @ [0, 0], int (length d))" "no_oom (g_cs g')" "w' = w" by simp_all
  then have "status = EFI_SUCCESS" using R by blast
  with e r show ?thesis by simp
qed

section \<open>Round trips\<close>

lemma to_utf8_result:
  assumes "to_utf8 s (g, w) = (u, g', w')"
  shows "w' = w \<and> (no_oom (g_cs g) \<longrightarrow> no_oom (g_cs g') \<and> u = map_option (map (\<lambda>b. char_of (unat b))) (encode_utf16_to_utf8 False (Some s)))"
proof -
  obtain ok g1 where a: "galloc g = (ok, g1)" by (metis prod.exhaust)
  with assms galloc_ok [OF a] show ?thesis by (auto simp: to_utf8_def)
qed

lemma wide_string_stored: "\<forall>u \<in> set us. u \<noteq> 0 \<Longrightarrow> wide_string (le_units (us @ [0]) @ [0, 0]) = us"
proof -
  assume z: "\<forall>u \<in> set us. u \<noteq> 0"
  have "units_of (le_units (us @ [0]) @ [0, 0]) = us @ [0] @ units_of [0, 0]"
    by (induction us) (simp_all add: units_of_le16)
  with z show ?thesis by (simp add: wide_string_def takeWhile_append_stop)
qed

text \<open>The text of a variable, as the UTF-8 it was set from.\<close>

definition utf8_text :: "32 word list \<Rightarrow> cstring" where
  "utf8_text cps = map (\<lambda>b. char_of (unat b)) (text8 cps)"

lemma of_char_byte: "of_char (char_of (unat b) :: char) = (b :: 8 word)"
  using unsigned_less [of b, where ?'a = nat] by (simp add: of_char_cval)

lemma wide_utf8_text:
  assumes "ctext cps" "length (text8 cps) < SIZE_MAX div 2"
  shows "wide (utf8_text cps) = text16 cps" "short (utf8_text cps)"
  using simple_utf8_text [OF assms] assms(2) by (simp_all add: wide_def utf8_text_def comp_def of_char_byte short_def)

lemma str16_roundtrip:
  assumes "stores V st" "no_oom (g_cs g)" "short name" "ctext cps" "3 * length (text8 cps) < SIZE_MAX div 2"
    and set: "efivar_set_str16_from_str8 V vendor name (Some (utf8_text cps)) flags (g, w) = (status, g1, w1)" "\<not> EFI_ERROR status"
  shows "\<exists>g2. efivar_get_str16_to_str8 V vendor name (g1, w1) = ((EFI_SUCCESS, Some (utf8_text cps)), g2, w1)"
proof -
  have len: "length (text8 cps) < SIZE_MAX div 2" using assms(5) by simp
  note u = wide_utf8_text [OF assms(4) len]
  obtain v g0 w0 where e: "to_utf16 (utf8_text cps) (g, w) = (v, g0, w0)" by (metis prod.exhaust)
  from to_utf16_result [OF e] u assms(2) have e': "v = Some (text16 cps)" "w0 = w" "no_oom (g_cs g0)" by auto
  have s: "efivar_set_raw V vendor name (le_units (text16 cps @ [0])) flags (g0, w) = (status, g1, w1)"
    using set(1) e e' by (simp add: efivar_set_str16_from_str8_def efivar_set_str16_def)
  from set_raw_result [OF s assms(1)] set(2) e'(3) assms(3)
  have st: "st w1 (vendor, wide name) = Some (le_units (text16 cps @ [0]))" "no_oom (g_cs g1)"
    by (auto simp: le16_def)
  from get_raw_stored [OF assms(1) st(2) assms(3) st(1)] obtain g2 where
    gr: "efivar_get_raw V vendor name (g1, w1) =
      ((EFI_SUCCESS, Some (le_units (text16 cps @ [0]) @ [0, 0], 2 * int (length (text16 cps) + 1))), g2, w1)" "no_oom (g_cs g2)"
    by auto
  have w: "wide_string (le_units (text16 cps @ [0]) @ [0, 0]) = text16 cps"
    by (rule wide_string_stored) (use text_nonzero(2) [OF assms(4)] in simp)
  have h: "efivar_get_str16 V vendor name (g1, w1) = ((EFI_SUCCESS, Some (text16 cps)), g2, w1)"
    using gr w by (simp add: efivar_get_str16_def)
  obtain b g3 w3 where c: "to_utf8 (text16 cps) (g2, w1) = (b, g3, w3)" by (metis prod.exhaust)
  have "length (text16 cps) \<le> (SIZE_MAX - 1) div 3" using text_lengths(1) [of cps] assms(5) by (simp add: SIZE_MAX_def)
  from to_utf8_result [OF c] gr(2) simple_utf16_text [OF assms(4) this] have "b = Some (utf8_text cps)" "w3 = w1"
    by (simp_all add: utf8_text_def)
  with h c show ?thesis by (simp add: efivar_get_str16_to_str8_def)
qed

lemma bit_from_le: "bit (from_le bs) i \<longleftrightarrow> i < 64 \<and> i div 8 < length bs \<and> bit (bs ! (i div 8)) (i mod 8)"
proof (induction bs arbitrary: i)
  case (Cons b bs)
  show ?case
  proof (cases "i < 8")
    case True
    then show ?thesis by (simp add: bit_or_iff bit_ucast_iff bit_push_bit_iff)
  next
    case False
    then obtain j where j: "i = j + 8" by (metis add.commute le_Suc_ex not_less)
    have d: "(j + 8) div 8 = Suc (j div 8)" "(j + 8) mod 8 = j mod 8" by simp_all
    have "\<not> bit b i" using False by (auto dest: bit_imp_le_length)
    then show ?thesis using Cons.IH [of j] by (auto simp: j d bit_or_iff bit_ucast_iff bit_push_bit_iff)
  qed
qed simp

lemma from_num_bytes: "from_le (num_bytes n v) = take_bit (8 * n) v"
proof (rule bit_word_eqI)
  fix i :: nat assume "i < LENGTH(64)"
  then have "i < 64" by simp
  moreover have "8 * (i div 8) + i mod 8 = i" by simp
  moreover have "i div 8 < n \<longleftrightarrow> i < 8 * n" by auto
  ultimately show "bit (from_le (num_bytes n v)) i = bit (take_bit (8 * n) v) i"
    by (auto simp: bit_from_le num_bytes_def bit_take_bit_iff bit_ucast_iff bit_drop_bit_eq add.commute)
qed

lemma length_num_bytes [simp]: "length (num_bytes n v) = n"
  by (simp add: num_bytes_def)

lemma raw_roundtrip:
  assumes "stores V st" "no_oom (g_cs g)" "short name" "buf \<noteq> []"
    and set: "efivar_set_raw V vendor name buf flags (g, w) = (status, g1, w1)" "\<not> EFI_ERROR status"
  shows "\<exists>g2. efivar_get_raw V vendor name (g1, w1) = ((EFI_SUCCESS, Some (buf @ [0, 0], int (length buf))), g2, w1)"
proof -
  from set_raw_result [OF set(1) assms(1)] set(2) assms(2,3,4)
  have st: "st w1 (vendor, wide name) = Some buf" "no_oom (g_cs g1)" by auto
  from get_raw_stored [OF assms(1) st(2) assms(3) st(1)] show ?thesis by blast
qed

lemma uint64_roundtrip:
  assumes "stores V st" "no_oom (g_cs g)" "short name"
    and set: "efivar_set_uint64_le V vendor name v flags (g, w) = (status, g1, w1)" "\<not> EFI_ERROR status"
  shows "\<exists>g2. efivar_get_uint64_le V vendor name (g1, w1) = ((EFI_SUCCESS, Some v), g2, w1)"
proof -
  have ne: "num_bytes 8 v \<noteq> []" by (metis length_num_bytes list.size(3) zero_neq_numeral)
  from raw_roundtrip [OF assms(1-3) ne set(1) [unfolded efivar_set_uint64_le_def] set(2)] obtain g2 where
    "efivar_get_raw V vendor name (g1, w1) = ((EFI_SUCCESS, Some (num_bytes 8 v @ [0, 0], 8)), g2, w1)" by auto
  moreover have "take_bit 64 v = v" by (simp add: take_bit_word_eq_self)
  ultimately show ?thesis by (simp add: efivar_get_uint64_le_def from_num_bytes)
qed

lemma uint32_roundtrip:
  assumes "stores V st" "no_oom (g_cs g)" "short name"
    and set: "efivar_set_uint32_le V vendor name v flags (g, w) = (status, g1, w1)" "\<not> EFI_ERROR status"
  shows "\<exists>g2. efivar_get_uint32_le V vendor name (g1, w1) = ((EFI_SUCCESS, Some v), g2, w1)"
proof -
  let ?v = "ucast v :: 64 word"
  have ne: "num_bytes 4 ?v \<noteq> []" by (metis length_num_bytes list.size(3) zero_neq_numeral)
  from raw_roundtrip [OF assms(1-3) ne set(1) [unfolded efivar_set_uint32_le_def] set(2)] obtain g2 where
    "efivar_get_raw V vendor name (g1, w1) = ((EFI_SUCCESS, Some (num_bytes 4 ?v @ [0, 0], 4)), g2, w1)" by auto
  moreover have "(ucast (take_bit 32 ?v) :: 32 word) = v"
    by (rule bit_word_eqI) (auto simp: bit_ucast_iff bit_take_bit_iff)
  ultimately show ?thesis by (simp add: efivar_get_uint32_le_def from_num_bytes)
qed

end
