(* ===== verification/SdbootVarsFacts.thy ===== *)
theory SdbootVarsFacts
  imports SdbootVars VariablesFacts ExtlinuxFacts
begin

text \<open>
  The boot loader interface: the timeouts of the system, which entry is selected, the list of entries, and that a
  request for one boot is consumed.
\<close>

section \<open>Timeouts\<close>

lemma parse_timeout_bounds: "parse_timeout val = Some (t, d) \<Longrightarrow> -1 \<le> t \<and> t \<le> INT_MAX \<and> (d \<longrightarrow> t = 0)"
  using strtoull_bounds [of 10 val] by (auto simp: parse_timeout_def Let_def INT_MAX_def split: if_splits)

lemma not_a_word:
  assumes "\<forall>c \<in> set s. isdigit c" "word \<in> {''menu-force'', ''menu-hidden'', ''menu-disabled''}"
  shows "strcasecmp s word \<noteq> 0"
proof
  assume "strcasecmp s word = 0"
  moreover have "cstr s" using assms(1) by (auto simp: cstr_def isdigit_def cval_def)
  moreover have "cstr word" using assms(2) by (auto simp: cstr_def)
  ultimately have m: "map tolower s = map tolower word" by (simp add: strcasecmp_0_iff)
  then obtain c r where s: "s = c # r" "tolower c = tolower (CHR ''m'')" using assms(2) by (cases s) auto
  then have "isdigit c" using assms(1) by simp
  then have "tolower c = c" by (auto simp: tolower_def isdigit_def isupper_def cval_def)
  with s \<open>isdigit c\<close> show False by (auto simp: tolower_def isupper_def isdigit_def cval_def)
qed

lemma parse_timeout_number:
  "parse_timeout (nat_dec n) =
     (if n > SIZE_MAX then None else Some (if n \<ge> 4294967295 then -1 else min (int n) INT_MAX, False))"
proof -
  have d: "\<forall>c \<in> set (nat_dec n). isdigit c" using nat_dec_digits by blast
  have w: "strcasecmp (nat_dec n) ''menu-force'' \<noteq> 0" "strcasecmp (nat_dec n) ''menu-hidden'' \<noteq> 0"
    "strcasecmp (nat_dec n) ''menu-disabled'' \<noteq> 0"
    by (rule not_a_word [OF d], simp)+
  have digits: "\<not> (\<exists>c \<in> set (nat_dec n). cval c < 48 \<or> 57 < cval c)" using d by (auto simp: isdigit_def)
  have i: "nat_dec n = int_dec (int n)" by (simp add: int_dec_def)
  show ?thesis
  proof (cases "n > SIZE_MAX")
    case True
    then have "sr_range (strtoull 10 (nat_dec n))"
      unfolding i using strto_scan_int_dec [of "[]" "int n"] by (simp add: strtoull_def)
    with True show ?thesis by (simp add: parse_timeout_def w digits)
  next
    case False
    then have r: "strtoull 10 (nat_dec n) = \<lparr>sr_val = int n, sr_end = [], sr_range = False\<rparr>"
      unfolding i using strtoull_int_dec [of "int n"] by simp
    show ?thesis using False by (simp add: parse_timeout_def w digits r INT_MAX_def)
  qed
qed

section \<open>Allocations\<close>

text \<open>Only the allocation counter changes.\<close>

definition ticked :: "'w sd_state \<Rightarrow> 'w sd_state \<Rightarrow> bool" where
  "ticked s s' \<longleftrightarrow> (\<exists>cs. s' = s\<lparr>sv_g := (sv_g s)\<lparr>g_cs := cs\<rparr>\<rparr> \<and> no_oom cs)"

abbreviation calm_memory :: "'w sd_state \<Rightarrow> bool" where
  "calm_memory s \<equiv> no_oom (g_cs (sv_g s))"

lemma ticked_refl [intro]: "calm_memory s \<Longrightarrow> ticked s s"
  by (auto simp: ticked_def intro: exI [of _ "g_cs (sv_g s)"])

lemma ticked_trans [trans]: "ticked s s1 \<Longrightarrow> ticked s1 s2 \<Longrightarrow> ticked s s2"
  by (auto simp: ticked_def)

lemma ticked_calm: "ticked s s' \<Longrightarrow> calm_memory s'"
  by (auto simp: ticked_def)

lemma ticked_same: "ticked s s' \<Longrightarrow> g_menu (sv_g s') = g_menu (sv_g s) \<and> sv_w s' = sv_w s"
  by (auto simp: ticked_def)

lemma galloc_cs: "galloc g = (ok, g') \<Longrightarrow> g' = g\<lparr>g_cs := g_cs g'\<rparr>"
  by (auto simp: galloc_def split: prod.splits)

lemma sd_alloc_ok: "calm_memory s \<Longrightarrow> \<exists>s'. sd_alloc s = (True, s') \<and> ticked s s'"
proof -
  assume c: "calm_memory s"
  obtain ok g where a: "galloc (sv_g s) = (ok, g)" by (metis prod.exhaust)
  from galloc_ok [OF a c] galloc_cs [OF a] show ?thesis
    by (intro exI [of _ "s\<lparr>sv_g := g\<rparr>"]) (auto simp: sd_alloc_def a ticked_def intro!: exI [of _ "g_cs g"])
qed

lemma to_utf16_ok:
  assumes "calm_memory s" "short t"
  shows "\<exists>s'. on_vars (to_utf16 t) s = (Some (wide t), s') \<and> ticked s s'"
proof -
  obtain u g w where e: "to_utf16 t (sv_g s, sv_w s) = (u, g, w)" by (metis prod.exhaust)
  have "g = (sv_g s)\<lparr>g_cs := g_cs g\<rparr>" using e galloc_cs by (auto simp: to_utf16_def split: prod.splits)
  with to_utf16_result [OF e] assms e show ?thesis
    by (intro exI [of _ "s\<lparr>sv_g := g, sv_w := w\<rparr>"]) (auto simp: on_vars_def ticked_def intro!: exI [of _ "g_cs g"])
qed

lemma entry_id_ok: "calm_memory s \<Longrightarrow> ll_name l = Some n \<Longrightarrow> \<exists>s'. sdboot_loader_entry_id l s = (Some (entry_id l n), s') \<and> ticked s s'"
  using sd_alloc_ok [of s] by (auto simp: sdboot_loader_entry_id_def)

section \<open>Which entry is selected\<close>

text \<open>An entry matches by its identifier, and in the configuration also by its name.\<close>

definition hit :: "(cstring \<Rightarrow> cstring \<Rightarrow> int) \<Rightarrow> cstring \<Rightarrow> bool \<Rightarrow> entry \<Rightarrow> bool" where
  "hit fnm p allow e \<longleftrightarrow>
     (\<exists>n. ll_name (snd e) = Some n \<and> (allow \<and> fnm p n = 0 \<or> fnm p (entry_id (snd e) n) = 0))"

definition pick :: "(cstring \<Rightarrow> cstring \<Rightarrow> int) \<Rightarrow> cstring option \<Rightarrow> bool \<Rightarrow> entry list \<Rightarrow> entry option" where
  "pick fnm pattern allow es = (case pattern of None \<Rightarrow> None | Some p \<Rightarrow> find (hit fnm p allow) es)"

lemma find_loop_hit:
  assumes "calm_memory s"
  shows "\<exists>s'. find_loop fnm p allow es s = ((EFI_SUCCESS, find (hit fnm p allow) es), s') \<and> ticked s s'"
  using assms
proof (induction es arbitrary: s)
  case (Cons e es)
  show ?case
  proof (cases "ll_name (snd e)")
    case None
    with Cons show ?thesis by (auto simp: hit_def)
  next
    case (Some n)
    show ?thesis
    proof (cases "allow \<and> fnm p n = 0")
      case True
      with Some Cons.prems show ?thesis by (auto simp: hit_def)
    next
      case False
      obtain s1 where s1: "sdboot_loader_entry_id (snd e) s = (Some (entry_id (snd e) n), s1)" "ticked s s1"
        using entry_id_ok [OF Cons.prems Some] by blast
      from Cons.IH [OF ticked_calm [OF s1(2)]] obtain s2 where
        "find_loop fnm p allow es s1 = ((EFI_SUCCESS, find (hit fnm p allow) es), s2)" "ticked s1 s2" by blast
      moreover have "hit fnm p allow e = (fnm p (entry_id (snd e) n) = 0)" using Some False by (auto simp: hit_def)
      ultimately show ?thesis using s1 Some False ticked_trans [OF s1(2)] by auto
    qed
  qed
qed auto

lemma find_loader_pick:
  assumes "calm_memory s" "g_menu (sv_g s) = Some m"
  shows "\<exists>s'. sdboot_find_loader fnm pattern allow s = ((EFI_SUCCESS, pick fnm pattern allow (mn_loaders m)), s') \<and> ticked s s'"
  using find_loop_hit [OF assms(1)] assms by (cases pattern) (auto simp: sdboot_find_loader_def pick_def)

lemma try_find_pick:
  assumes "calm_memory s" "g_menu (sv_g s) = Some m" "asked \<or> pattern = None"
  shows "\<exists>s'. try_find fnm asked pattern allow ((EFI_SUCCESS, sel), s) =
    ((EFI_SUCCESS, case sel of None \<Rightarrow> pick fnm pattern allow (mn_loaders m) | Some e \<Rightarrow> Some e), s') \<and> ticked s s'"
  using find_loader_pick [OF assms(1,2), of fnm pattern allow] assms
  by (cases sel; cases asked) (auto simp: try_find_def pick_def)

text \<open>The one-shot entry goes before the default of the system, and that before the default of the configuration.\<close>

definition choice :: "(cstring \<Rightarrow> cstring \<Rightarrow> int) \<Rightarrow> cstring option \<Rightarrow> cstring option \<Rightarrow> cstring option \<Rightarrow> cstring option \<Rightarrow> entry list \<Rightarrow> entry option" where
  "choice fnm oneshot entry_default recent menu_default es =
     (case pick fnm oneshot False es of Some e \<Rightarrow> Some e
      | None \<Rightarrow>
          (case pick fnm (if is_saved entry_default then recent else entry_default) False es of Some e \<Rightarrow> Some e
           | None \<Rightarrow> pick fnm (if is_saved menu_default then recent else menu_default) (\<not> is_saved menu_default) es))"

lemma select_entry_choice:
  assumes "calm_memory s" "g_menu (sv_g s) = Some m"
  shows "\<exists>s'. select_entry fnm oneshot entry_default recent menu_default s =
    ((EFI_SUCCESS, choice fnm oneshot entry_default recent menu_default (mn_loaders m), pick fnm oneshot False (mn_loaders m) \<noteq> None), s') \<and>
    ticked s s'"
proof -
  let ?es = "mn_loaders m"
  have asked: "v \<noteq> None \<or> (if is_saved v then recent else v) = None" for v by (cases v) (simp_all add: is_saved_def)
  obtain s1 where s1: "try_find fnm (oneshot \<noteq> None) oneshot False ((EFI_SUCCESS, None), s) = ((EFI_SUCCESS, pick fnm oneshot False ?es), s1)"
    "ticked s s1"
    using try_find_pick [OF assms, of "oneshot \<noteq> None" oneshot fnm False None] by auto
  note m1 = ticked_calm [OF s1(2)] ticked_same [OF s1(2)]
  obtain s2 where s2: "try_find fnm (entry_default \<noteq> None) (if is_saved entry_default then recent else entry_default) False
      ((EFI_SUCCESS, pick fnm oneshot False ?es), s1) =
      ((EFI_SUCCESS, case pick fnm oneshot False ?es of None \<Rightarrow> pick fnm (if is_saved entry_default then recent else entry_default) False ?es
         | Some e \<Rightarrow> Some e), s2)" "ticked s1 s2"
    using try_find_pick [OF m1(1) _ asked [of entry_default], where fnm = fnm and m = m and allow = False and sel = "pick fnm oneshot False ?es"] m1(2) assms(2) by auto
  note m2 = ticked_calm [OF s2(2)] ticked_same [OF s2(2)]
  define sel where "sel = (case pick fnm oneshot False ?es of None \<Rightarrow> pick fnm (if is_saved entry_default then recent else entry_default) False ?es
         | Some e \<Rightarrow> Some e)"
  obtain s3 where s3: "try_find fnm (menu_default \<noteq> None) (if is_saved menu_default then recent else menu_default) (\<not> is_saved menu_default)
      ((EFI_SUCCESS, sel), s2) =
      ((EFI_SUCCESS, case sel of None \<Rightarrow> pick fnm (if is_saved menu_default then recent else menu_default) (\<not> is_saved menu_default) ?es
         | Some e \<Rightarrow> Some e), s3)" "ticked s2 s3"
    using try_find_pick [OF m2(1) _ asked [of menu_default], where fnm = fnm and m = m and allow = "\<not> is_saved menu_default" and sel = sel] m1(2) m2(2) assms(2) by auto
  have t: "ticked s s3" using s1(2) s2(2) s3(2) by (blast intro: ticked_trans)
  have c: "choice fnm oneshot entry_default recent menu_default ?es =
      (case sel of None \<Rightarrow> pick fnm (if is_saved menu_default then recent else menu_default) (\<not> is_saved menu_default) ?es | Some e \<Rightarrow> Some e)"
    by (simp add: choice_def sel_def split: option.split)
  show ?thesis using s1(1) s2(1) [folded sel_def] s3(1) t by (simp add: select_entry_def c)
qed

section \<open>The list of entries\<close>

definition seen :: "entry list \<Rightarrow> cstring \<Rightarrow> bool" where
  "seen before i \<longleftrightarrow> (\<exists>b \<in> set before. \<exists>n. ll_name (snd b) = Some n \<and> strcasecmp i (entry_id (snd b) n) = 0)"

text \<open>The identifiers in the order of the menu, each once.\<close>

fun first_ids :: "entry list \<Rightarrow> entry list \<Rightarrow> cstring list" where
  "first_ids before [] = []"
| "first_ids before (e # es) =
     (case ll_name (snd e) of
        None \<Rightarrow> first_ids (before @ [e]) es
      | Some n \<Rightarrow>
          if seen before (entry_id (snd e) n) then first_ids (before @ [e]) es
          else entry_id (snd e) n # first_ids (before @ [e]) es)"

definition id_bytes :: "cstring \<Rightarrow> bytes" where
  "id_bytes i = le_units (wide i @ [0])"

definition ids_bytes :: "cstring list \<Rightarrow> bytes" where
  "ids_bytes ids = concat (map id_bytes ids)"

definition short_ids :: "entry list \<Rightarrow> bool" where
  "short_ids es \<longleftrightarrow> (\<forall>e \<in> set es. \<forall>n. ll_name (snd e) = Some n \<longrightarrow> short (entry_id (snd e) n))"

lemma seen_loop_ok:
  assumes "calm_memory s"
  shows "\<exists>s'. seen_loop i es s = (Some (seen es i), s') \<and> ticked s s'"
  using assms
proof (induction es arbitrary: s)
  case (Cons e es)
  show ?case
  proof (cases "ll_name (snd e)")
    case None
    with Cons show ?thesis by (auto simp: seen_def)
  next
    case (Some n)
    obtain s1 where s1: "sdboot_loader_entry_id (snd e) s = (Some (entry_id (snd e) n), s1)" "ticked s s1"
      using entry_id_ok [OF Cons.prems Some] by blast
    from Cons.IH [OF ticked_calm [OF s1(2)]] obtain s2 where s2: "seen_loop i es s1 = (Some (seen es i), s2)" "ticked s1 s2"
      by blast
    have "seen (e # es) i \<longleftrightarrow> strcasecmp i (entry_id (snd e) n) = 0 \<or> seen es i" using Some by (auto simp: seen_def)
    with s1 s2 Some ticked_trans [OF s1(2) s2(2)] show ?thesis by auto
  qed
qed (auto simp: seen_def)

lemma export_loop_ids:
  assumes "calm_memory s" "short_ids es" "int (length (out @ ids_bytes (first_ids before es))) \<le> 18446744073709551615"
  shows "\<exists>s'. export_loop before es out s = (Some (out @ ids_bytes (first_ids before es)), s') \<and> ticked s s'"
  using assms
proof (induction es arbitrary: before out s)
  case Nil
  then show ?case by (auto simp: ids_bytes_def)
next
  case (Cons e es)
  have sh: "short_ids es" using Cons.prems(2) by (simp add: short_ids_def)
  show ?case
  proof (cases "ll_name (snd e)")
    case None
    with Cons.IH [OF Cons.prems(1) sh, of out "before @ [e]"] Cons.prems(3) show ?thesis by simp
  next
    case (Some n)
    let ?i = "entry_id (snd e) n"
    obtain s1 where s1: "sdboot_loader_entry_id (snd e) s = (Some ?i, s1)" "ticked s s1"
      using entry_id_ok [OF Cons.prems(1) Some] by blast
    obtain s2 where s2: "sdboot_entry_id_seen_before before ?i s1 = (Some (seen before ?i), s2)" "ticked s s2"
      using seen_loop_ok [OF ticked_calm [OF s1(2)], of ?i before] ticked_trans [OF s1(2)]
      by (auto simp: sdboot_entry_id_seen_before_def)
    show ?thesis
    proof (cases "seen before ?i")
      case True
      have f: "first_ids before (e # es) = first_ids (before @ [e]) es" using Some True by simp
      from Cons.IH [OF ticked_calm [OF s2(2)] sh, of out "before @ [e]"] Cons.prems(3) f obtain s3 where
        "export_loop (before @ [e]) es out s2 = (Some (out @ ids_bytes (first_ids (before @ [e]) es)), s3)" "ticked s2 s3" by auto
      with s1(1) s2 Some True ticked_trans [OF s2(2)] f show ?thesis by auto
    next
      case False
      have f: "first_ids before (e # es) = ?i # first_ids (before @ [e]) es" using Some False by simp
      have e: "out @ ids_bytes (?i # first_ids (before @ [e]) es) = (out @ id_bytes ?i) @ ids_bytes (first_ids (before @ [e]) es)"
        by (simp add: ids_bytes_def)
      have "short ?i" using Cons.prems(2) Some by (simp add: short_ids_def)
      from to_utf16_ok [OF ticked_calm [OF s2(2)] this] obtain s3 where
        s3: "on_vars (to_utf16 ?i) s2 = (Some (wide ?i), s3)" "ticked s s3" using ticked_trans [OF s2(2)] by blast
      obtain s4 where s4: "sd_alloc s3 = (True, s4)" "ticked s s4"
        using sd_alloc_ok [OF ticked_calm [OF s3(2)]] ticked_trans [OF s3(2)] by blast
      have room: "int (length (id_bytes ?i)) \<le> 18446744073709551615 - int (length out)"
        using Cons.prems(3) unfolding f e by simp
      from Cons.IH [OF ticked_calm [OF s4(2)] sh, of "out @ id_bytes ?i" "before @ [e]"] Cons.prems(3) obtain s5 where
        s5: "export_loop (before @ [e]) es (out @ id_bytes ?i) s4 =
          (Some ((out @ id_bytes ?i) @ ids_bytes (first_ids (before @ [e]) es)), s5)" "ticked s4 s5"
        unfolding f e by auto
      have l: "export_loop before (e # es) out s = export_loop (before @ [e]) es (out @ id_bytes ?i) s4"
        using s1(1) s2(1) s3(1) s4(1) Some False room by (simp add: id_bytes_def)
      show ?thesis unfolding l f e using s5 ticked_trans [OF s4(2) s5(2)] by auto
    qed
  qed
qed

text \<open>No two identifiers in the list are equal but for case, and every entry's is in it but for case.\<close>

lemma seen_append: "seen (xs @ ys) i \<longleftrightarrow> seen xs i \<or> seen ys i"
  by (auto simp: seen_def)

lemma first_ids_unseen: "i \<in> set (first_ids before es) \<Longrightarrow> \<not> seen before i"
  by (induction before es rule: first_ids.induct) (auto simp: seen_append split: option.splits if_splits)

lemma first_ids_once: "sorted_wrt (\<lambda>i j. strcasecmp j i \<noteq> 0) (first_ids before es)"
proof (induction before es rule: first_ids.induct)
  case (2 before e es)
  show ?case
  proof (cases "ll_name (snd e)")
    case (Some n)
    have "strcasecmp j (entry_id (snd e) n) \<noteq> 0" if "j \<in> set (first_ids (before @ [e]) es)" for j
      using first_ids_unseen [OF that] Some by (auto simp: seen_def)
    with 2 Some show ?thesis by auto
  qed (use 2 in simp)
qed simp

text \<open>The list is a selection of the identifiers of the entries that have names.\<close>

definition named_entries :: "entry list \<Rightarrow> entry list" where
  "named_entries es = [e \<leftarrow> es. ll_name (snd e) \<noteq> None]"

lemma first_ids_subseq: "subseq (first_ids before es) (map (\<lambda>e. entry_id (snd e) (the (ll_name (snd e)))) (named_entries es))"
  by (induction before es rule: first_ids.induct) (auto simp: named_entries_def split: option.splits)

definition text_ids :: "entry list \<Rightarrow> bool" where
  "text_ids es \<longleftrightarrow> (\<forall>e \<in> set es. \<forall>n. ll_name (snd e) = Some n \<longrightarrow> cstr (entry_id (snd e) n))"

lemma same_id_trans:
  assumes "cstr i" "cstr j" "cstr k" "strcasecmp i j = 0" "strcasecmp j k = 0"
  shows "strcasecmp i k = 0"
  using assms by (simp add: strcasecmp_0_iff)

lemma first_ids_all:
  assumes "e \<in> set es" "ll_name (snd e) = Some n" "text_ids es" "text_ids before"
  shows "seen before (entry_id (snd e) n) \<or> (\<exists>i \<in> set (first_ids before es). strcasecmp (entry_id (snd e) n) i = 0)"
  using assms
proof (induction before es rule: first_ids.induct)
  case (2 before d es)
  let ?i = "entry_id (snd e) n"
  have c: "text_ids es" "text_ids (before @ [d])" "cstr ?i" using 2 by (auto simp: text_ids_def)
  show ?case
  proof (cases "ll_name (snd d)")
    case None
    then have "e \<in> set es" using 2 by auto
    with 2(1) [OF None this] None 2 c show ?thesis by (auto simp: seen_append) (auto simp: seen_def)
  next
    case (Some m)
    let ?j = "entry_id (snd d) m"
    have j: "cstr ?j" using 2 Some by (auto simp: text_ids_def)
    show ?thesis
    proof (cases "e = d")
      case True
      with 2 Some show ?thesis by auto
    next
      case False
      then have "e \<in> set es" using 2 by simp
      then have IH: "seen (before @ [d]) ?i \<or> (\<exists>i \<in> set (first_ids (before @ [d]) es). strcasecmp ?i i = 0)"
        using 2(2,3) Some 2(5) c by blast
      have "seen before ?i" if s: "seen before ?j" "strcasecmp ?i ?j = 0"
      proof -
        obtain b k where b: "b \<in> set before" "ll_name (snd b) = Some k" "strcasecmp ?j (entry_id (snd b) k) = 0"
          using s(1) by (auto simp: seen_def)
        then have "cstr (entry_id (snd b) k)" using 2 by (auto simp: text_ids_def)
        from same_id_trans [OF c(3) j this s(2) b(3)] b show ?thesis by (auto simp: seen_def)
      qed
      moreover have "seen (before @ [d]) ?i \<longleftrightarrow> seen before ?i \<or> strcasecmp ?i ?j = 0" using Some by (auto simp: seen_def)
      ultimately show ?thesis using IH Some by auto
    qed
  qed
qed simp

section \<open>Requests for one boot\<close>

definition oneshots :: "cstring list" where
  "oneshots = [''LoaderConfigTimeoutOneShot'', ''LoaderEntryOneShot'']"

definition absent :: "('w \<Rightarrow> nat \<times> 16 word list \<Rightarrow> bytes option) \<Rightarrow> cstring \<Rightarrow> 'w \<Rightarrow> bool" where
  "absent st name w \<longleftrightarrow> st w (gLoaderGuid, wide name) = None"

definition loader_key :: "cstring \<Rightarrow> nat \<times> 16 word list" where
  "loader_key name = (gLoaderGuid, wide name)"

text \<open>An error stays, what is absent stays absent, and only the requests may change.\<close>

definition keeps_absent :: "('w \<Rightarrow> nat \<times> 16 word list \<Rightarrow> bytes option) \<Rightarrow> efi_status \<times> 'w sd_state \<Rightarrow> efi_status \<times> 'w sd_state \<Rightarrow> bool" where
  "keeps_absent st r r' \<longleftrightarrow> (EFI_ERROR (fst r) \<longrightarrow> EFI_ERROR (fst r')) \<and>
     (\<forall>name \<in> set oneshots. absent st name (sv_w (snd r)) \<longrightarrow> absent st name (sv_w (snd r'))) \<and>
     (\<forall>k. k \<notin> loader_key ` set oneshots \<longrightarrow> st (sv_w (snd r')) k = st (sv_w (snd r)) k)"

lemma keeps_absent_refl [simp, intro]: "keeps_absent st r r"
  by (simp add: keeps_absent_def)

lemma keeps_absent_trans [trans]: "keeps_absent st r r1 \<Longrightarrow> keeps_absent st r1 r2 \<Longrightarrow> keeps_absent st r r2"
  by (auto simp: keeps_absent_def)

lemma keeps_absent_frame: "sv_w s' = sv_w s \<Longrightarrow> (EFI_ERROR result \<Longrightarrow> EFI_ERROR result') \<Longrightarrow> keeps_absent st (result, s) (result', s')"
  by (simp add: keeps_absent_def)

lemma record_error_mono [simp]: "EFI_ERROR result \<Longrightarrow> sdboot_record_error result status = result"
  by (simp add: sdboot_record_error_def)

lemma record_missing_mono [simp]: "EFI_ERROR result \<Longrightarrow> record_unless_missing result status = result"
  by (simp add: record_unless_missing_def)

lemma record_missing_error: "\<not> EFI_ERROR (record_unless_missing result status) \<Longrightarrow> EFI_ERROR status \<Longrightarrow> status = EFI_NOT_FOUND"
  by (auto simp: record_unless_missing_def sdboot_record_error_def split: if_splits)

lemma unset_result:
  assumes "efivar_unset V vendor name flags (g, w) = (status, g', w')" "stores V st"
  shows "(\<not> EFI_ERROR status \<or> status = EFI_NOT_FOUND \<longrightarrow> st w' (vendor, wide name) = None) \<and>
    (\<forall>k. st w k = None \<longrightarrow> st w' k = None) \<and> (\<forall>k. k \<noteq> (vendor, wide name) \<longrightarrow> st w' k = st w k)"
proof -
  obtain status1 r g1 w1 where gr: "efivar_get_raw V vendor name (g, w) = ((status1, r), g1, w1)" by (metis prod.exhaust)
  note R = get_raw_result [OF gr assms(2)]
  show ?thesis
  proof (cases "EFI_ERROR status1")
    case True
    with assms(1) gr R show ?thesis by (auto simp: efivar_unset_def)
  next
    case False
    have w1: "w1 = w" using R by blast
    from assms(1) gr False have s: "efivar_set_raw V vendor name [] flags (g1, w) = (status, g', w')"
      by (simp add: efivar_unset_def w1)
    note S = set_raw_result [OF s assms(2)]
    then have "st w' = (if EFI_ERROR status then st w else (st w)((vendor, wide name) := None))"
      "status = EFI_NOT_FOUND \<longrightarrow> st w (vendor, wide name) = None" by auto
    then show ?thesis by (auto split: if_splits)
  qed
qed

lemma get_text_result:
  assumes "efivar_get_str16_to_str8 V vendor name (g, w) = ((status, v), g', w')" "stores V st"
  shows "w' = w \<and> (status = EFI_NOT_FOUND \<longrightarrow> st w (vendor, wide name) = None) \<and> (v = None \<longleftrightarrow> EFI_ERROR status)"
proof -
  obtain status1 r g1 w1 where gr: "efivar_get_raw V vendor name (g, w) = ((status1, r), g1, w1)" by (metis prod.exhaust)
  note R = get_raw_result [OF gr assms(2)]
  have w1: "w1 = w" using R by blast
  have e: "EFI_ERROR EFI_INVALID_PARAMETER" by (simp add: EFI_ERROR_def efi_warnings_def)
  show ?thesis
  proof (cases r)
    case None
    then have "EFI_ERROR status1" "status1 = EFI_NOT_FOUND \<longrightarrow> st w (vendor, wide name) = None" using R by blast+
    with assms(1) gr None w1 show ?thesis by (auto simp: efivar_get_str16_to_str8_def efivar_get_str16_def)
  next
    case (Some b)
    obtain buf sz where b: "b = (buf, sz)" by (cases b)
    obtain u g2 w2 where t: "to_utf8 (wide_string buf) (g1, w) = (u, g2, w2)" by (metis prod.exhaust)
    from to_utf8_result [OF t] have "w2 = w" by simp
    with assms(1) gr Some b w1 t e show ?thesis
      by (auto simp: efivar_get_str16_to_str8_def efivar_get_str16_def split: if_splits)
  qed
qed

lemma get_timeout_result:
  assumes "sdboot_var_get_timeout V name (g, w) = ((status, v), g', w')" "stores V st"
  shows "w' = w \<and> (status = EFI_NOT_FOUND \<longrightarrow> absent st name w) \<and> (v = None \<longrightarrow> EFI_ERROR status)"
proof -
  obtain status1 t g1 w1 where gt: "loader_get V name (g, w) = ((status1, t), g1, w1)" by (metis prod.exhaust)
  note R = get_text_result [OF gt assms(2)]
  have e: "EFI_ERROR EFI_INVALID_PARAMETER" by (simp add: EFI_ERROR_def efi_warnings_def)
  show ?thesis
  proof (cases t)
    case None
    with assms(1) gt R show ?thesis by (auto simp: sdboot_var_get_timeout_def absent_def)
  next
    case (Some a)
    have "w' = w1 \<and> status \<noteq> EFI_NOT_FOUND \<and> (v = None \<longrightarrow> status = EFI_INVALID_PARAMETER)"
    proof (cases "parse_timeout a")
      case (Some td)
      then have "sdboot_var_get_timeout V name (g, w) = ((EFI_SUCCESS, Some td), g1, w1)"
        using \<open>t = Some a\<close> gt by (simp add: sdboot_var_get_timeout_def)
      with assms(1) show ?thesis by auto
    qed (use \<open>t = Some a\<close> assms(1) gt in \<open>auto simp: sdboot_var_get_timeout_def\<close>)
    then show ?thesis using e R by auto
  qed
qed

lemma on_vars_parts:
  assumes "on_vars f s = (r, s')"
  obtains g w where "f (sv_g s, sv_w s) = (r, g, w)" "s' = s\<lparr>sv_g := g, sv_w := w\<rparr>"
  using assms by (auto simp: on_vars_def split: prod.splits)

lemma on_menu_same [simp]: "sv_w (sd_on_menu f s) = sv_w s"
  by (simp add: sd_on_menu_def)

lemma unset_once_result:
  assumes "unset_once V name (result, s) = r'" "stores V st" "name \<in> set oneshots"
  shows "keeps_absent st (result, s) r' \<and> (\<not> EFI_ERROR (fst r') \<longrightarrow> absent st name (sv_w (snd r')))"
proof -
  obtain status s1 where u: "on_vars (efivar_unset V gLoaderGuid name EFI_VARIABLE_NON_VOLATILE) s = (status, s1)" by (metis prod.exhaust)
  then obtain g w where e: "efivar_unset V gLoaderGuid name EFI_VARIABLE_NON_VOLATILE (sv_g s, sv_w s) = (status, g, w)"
    "s1 = s\<lparr>sv_g := g, sv_w := w\<rparr>" by (rule on_vars_parts)
  have r': "r' = (record_unless_missing result status, s1)" using assms(1) u by (simp add: unset_once_def)
  note U = unset_result [OF e(1) assms(2)]
  have "st w k = st (sv_w s) k" if "k \<notin> loader_key ` set oneshots" for k
  proof -
    have "k \<noteq> (gLoaderGuid, wide name)" using that assms(3) by (auto simp: loader_key_def)
    with U show ?thesis by blast
  qed
  moreover have "\<not> EFI_ERROR status \<or> status = EFI_NOT_FOUND \<longrightarrow> absent st name w" using U by (simp add: absent_def)
  moreover have "absent st n (sv_w s) \<longrightarrow> absent st n w" for n using U by (simp add: absent_def)
  ultimately show ?thesis using record_missing_error [of result status] by (auto simp: r' e(2) keeps_absent_def)
qed

lemma config_timeout_keeps:
  assumes "stores V st" shows "keeps_absent st r (config_timeout V r)"
proof -
  obtain result s where r: "r = (result, s)" by (cases r)
  obtain status v s1 where u: "on_vars (sdboot_var_get_timeout V ''LoaderConfigTimeout'') s = ((status, v), s1)" by (metis prod.exhaust)
  then obtain g w where e: "sdboot_var_get_timeout V ''LoaderConfigTimeout'' (sv_g s, sv_w s) = ((status, v), g, w)"
    "s1 = s\<lparr>sv_g := g, sv_w := w\<rparr>" by (rule on_vars_parts)
  have "sv_w s1 = sv_w s" using get_timeout_result [OF e(1) assms] e(2) by simp
  then show ?thesis using u
    by (auto simp: config_timeout_def r split: option.splits intro!: keeps_absent_frame)
qed

lemma oneshot_timeout_result:
  assumes "stores V st"
  shows "keeps_absent st r (oneshot_timeout V r) \<and>
    (\<not> EFI_ERROR (fst (oneshot_timeout V r)) \<longrightarrow> absent st ''LoaderConfigTimeoutOneShot'' (sv_w (snd (oneshot_timeout V r))))"
proof -
  let ?n = "''LoaderConfigTimeoutOneShot''"
  obtain result s where r: "r = (result, s)" by (cases r)
  obtain status v s1 where u: "on_vars (sdboot_var_get_timeout V ?n) s = ((status, v), s1)" by (metis prod.exhaust)
  then obtain g w where e: "sdboot_var_get_timeout V ?n (sv_g s, sv_w s) = ((status, v), g, w)"
    "s1 = s\<lparr>sv_g := g, sv_w := w\<rparr>" by (rule on_vars_parts)
  note R = get_timeout_result [OF e(1) assms]
  have w: "sv_w s1 = sv_w s" using R e(2) by simp
  show ?thesis
  proof (cases v)
    case None
    then have "oneshot_timeout V r = (record_unless_missing result status, s1)" using u by (simp add: oneshot_timeout_def r)
    then show ?thesis using R w None record_missing_error [of result status]
      by (auto simp: r absent_def intro!: keeps_absent_frame)
  next
    case (Some td)
    obtain t d where td: "td = (t, d)" by (cases td)
    let ?s = "sd_on_menu (\<lambda>m. m\<lparr>mn_timeout := (if t \<le> 0 then -1 else t), mn_disabled := False\<rparr>) s1"
    have o: "oneshot_timeout V r = unset_once V ?n (result, ?s)" using u Some td by (simp add: oneshot_timeout_def r)
    have "keeps_absent st r (result, ?s)" unfolding r by (rule keeps_absent_frame) (simp_all add: w)
    moreover have "?n \<in> set oneshots" by (simp add: oneshots_def)
    ultimately show ?thesis using unset_once_result [OF o [symmetric] assms] by (blast intro: keeps_absent_trans)
  qed
qed

lemma read_entry_result:
  assumes "read_entry V name r = (v, r')" "stores V st"
  shows "keeps_absent st r r' \<and> (v = None \<longrightarrow> \<not> EFI_ERROR (fst r') \<longrightarrow> absent st name (sv_w (snd r')))"
proof -
  obtain result s where r: "r = (result, s)" by (cases r)
  obtain status v1 s1 where u: "on_vars (loader_get V name) s = ((status, v1), s1)" by (metis prod.exhaust)
  then obtain g w where e: "loader_get V name (sv_g s, sv_w s) = ((status, v1), g, w)"
    "s1 = s\<lparr>sv_g := g, sv_w := w\<rparr>" by (rule on_vars_parts)
  note R = get_text_result [OF e(1) assms(2)]
  have r': "v1 = v" "r' = (if v \<noteq> None then result else record_unless_missing result status, s1)"
    using assms(1) u by (auto simp: read_entry_def r)
  have w: "sv_w s1 = sv_w s" using R e(2) by simp
  show ?thesis using R w r' record_missing_error [of result status]
    by (auto simp: r absent_def intro!: keeps_absent_frame)
qed

lemma oneshot_entry_result:
  assumes "oneshot_entry V r = (v, r')" "stores V st"
  shows "keeps_absent st r r' \<and> (\<not> EFI_ERROR (fst r') \<longrightarrow> absent st ''LoaderEntryOneShot'' (sv_w (snd r')))"
proof -
  obtain v1 result1 s1 where u: "read_entry V ''LoaderEntryOneShot'' r = (v1, result1, s1)" by (metis prod.exhaust)
  note R = read_entry_result [OF u assms(2)]
  show ?thesis
  proof (cases v1)
    case None
    with assms(1) u R show ?thesis by (auto simp: oneshot_entry_def)
  next
    case (Some t)
    then have "unset_once V ''LoaderEntryOneShot'' (result1, s1) = r'" using assms(1) u by (simp add: oneshot_entry_def)
    note U = unset_once_result [OF this assms(2)]
    have "''LoaderEntryOneShot'' \<in> set oneshots" by (simp add: oneshots_def)
    then show ?thesis using U R by (blast intro: keeps_absent_trans)
  qed
qed

text \<open>Searching and taking the entry do not touch the variables.\<close>

lemma sd_alloc_same: "sd_alloc s = (ok, s') \<Longrightarrow> sv_w s' = sv_w s"
  by (auto simp: sd_alloc_def split: prod.splits)

lemma entry_id_same: "sdboot_loader_entry_id l s = (i, s') \<Longrightarrow> sv_w s' = sv_w s"
  by (auto simp: sdboot_loader_entry_id_def dest: sd_alloc_same split: option.splits prod.splits)

lemma find_loop_same: "find_loop fnm p allow es s = (r, s') \<Longrightarrow> sv_w s' = sv_w s"
  by (induction es arbitrary: s) (auto split: option.splits prod.splits if_splits dest!: entry_id_same)

lemma try_find_same: "try_find fnm asked p allow (r, s) = (r', s') \<Longrightarrow> sv_w s' = sv_w s"
  by (auto simp: try_find_def sdboot_find_loader_def split: option.splits prod.splits if_splits dest: find_loop_same)

lemma select_entry_same: "select_entry fnm o1 d1 r1 m1 s = (r, s') \<Longrightarrow> sv_w s' = sv_w s"
proof -
  assume r: "select_entry fnm o1 d1 r1 m1 s = (r, s')"
  obtain x1 s1 where s1: "try_find fnm (o1 \<noteq> None) o1 False ((EFI_SUCCESS, None), s) = (x1, s1)" by (metis prod.exhaust)
  obtain x2 s2 where s2: "try_find fnm (d1 \<noteq> None) (if is_saved d1 then r1 else d1) False (x1, s1) = (x2, s2)" by (metis prod.exhaust)
  obtain x3 s3 where s3: "try_find fnm (m1 \<noteq> None) (if is_saved m1 then r1 else m1) (\<not> is_saved m1) (x2, s2) = (x3, s3)"
    by (metis prod.exhaust)
  have "s' = s3" using r s1 s2 s3 by (cases x1; cases x3) (simp add: select_entry_def)
  with try_find_same [OF s1] try_find_same [OF s2] try_find_same [OF s3] show ?thesis by simp
qed

lemma take_selected_same:
  "take_selected sel (result, s) = (ready, result', s') \<Longrightarrow> sv_w s' = sv_w s \<and> (EFI_ERROR result \<longrightarrow> EFI_ERROR result')"
  by (auto simp: take_selected_def Let_def split: option.splits prod.splits if_splits dest!: sd_alloc_same)

lemma to_utf16_same: "on_vars (to_utf16 i) s = (u, s') \<Longrightarrow> sv_w s' = sv_w s"
  by (auto simp: on_vars_def dest: to_utf16_result split: prod.splits)

lemma seen_loop_same: "seen_loop i es s = (b, s') \<Longrightarrow> sv_w s' = sv_w s"
  by (induction es arbitrary: s) (auto split: option.splits prod.splits if_splits dest!: entry_id_same)

lemma export_loop_same: "export_loop before es out s = (r, s') \<Longrightarrow> sv_w s' = sv_w s"
proof (induction es arbitrary: before out s)
  case (Cons e es)
  show ?case
    using Cons.prems
    by (auto simp: Let_def sdboot_entry_id_seen_before_def split: option.splits prod.splits if_splits bool.splits
        dest!: Cons.IH entry_id_same seen_loop_same to_utf16_same sd_alloc_same)
qed simp

text \<open>The names of the variables are different.\<close>

lemma oneshots_apart:
  "name \<in> set oneshots \<Longrightarrow> loader_key name \<noteq> loader_key ''LoaderEntries'' \<and> loader_key name \<noteq> loader_key ''LoaderEntrySelected''"
  by (auto simp: oneshots_def loader_key_def wide_eq ascii_def cval_def short_def SIZE_MAX_def)

lemma export_entries_keeps:
  assumes "sdboot_export_entries V s = (status, s')" "stores V st" "k \<noteq> loader_key ''LoaderEntries''"
  shows "st (sv_w s') k = st (sv_w s) k"
proof (cases "g_menu (sv_g s)")
  case None
  with assms show ?thesis by (simp add: sdboot_export_entries_def)
next
  case (Some m)
  obtain out s1 where l: "export_loop [] (mn_loaders m) [] s = (out, s1)" by (metis prod.exhaust)
  have w: "sv_w s1 = sv_w s" by (rule export_loop_same [OF l])
  show ?thesis
  proof (cases out)
    case None
    with assms l w Some show ?thesis by (auto simp: sdboot_export_entries_def)
  next
    case out: (Some es)
    show ?thesis
    proof (cases "es = []")
      case False
      obtain r s2 where u: "on_vars (efivar_set_raw V gLoaderGuid ''LoaderEntries'' es 0) s1 = (r, s2)" by (metis prod.exhaust)
      then obtain g w2 where e: "efivar_set_raw V gLoaderGuid ''LoaderEntries'' es 0 (sv_g s1, sv_w s1) = (r, g, w2)"
        "s2 = s1\<lparr>sv_g := g, sv_w := w2\<rparr>" by (rule on_vars_parts)
      have "s' = s2" using assms(1) Some l out False u by (simp add: sdboot_export_entries_def)
      with set_raw_result [OF e(1) assms(2)] e(2) w assms(3) show ?thesis by (auto simp: loader_key_def)
    next
      case True
      obtain r s2 where u: "on_vars (efivar_unset V gLoaderGuid ''LoaderEntries'' 0) s1 = (r, s2)" by (metis prod.exhaust)
      then obtain g w2 where e: "efivar_unset V gLoaderGuid ''LoaderEntries'' 0 (sv_g s1, sv_w s1) = (r, g, w2)"
        "s2 = s1\<lparr>sv_g := g, sv_w := w2\<rparr>" by (rule on_vars_parts)
      have "s' = s2" using assms(1) Some l out True u by (simp add: sdboot_export_entries_def)
      moreover have "st w2 k = st (sv_w s1) k" using unset_result [OF e(1) assms(2)] assms(3) unfolding loader_key_def by blast
      ultimately show ?thesis by (simp add: e(2) w)
    qed
  qed
qed

text \<open>When nothing went wrong, no request for one boot is left; only the requests and the list of entries change.\<close>

lemma requests_consumed:
  assumes "sdboot_init_menu_variables V fnm s = (result, s')" "stores V st" "g_menu (sv_g s) \<noteq> None"
  shows "\<not> EFI_ERROR result \<longrightarrow> (\<forall>name \<in> set oneshots. absent st name (sv_w s'))"
    "k \<notin> loader_key ` set (''LoaderEntries'' # oneshots) \<Longrightarrow> st (sv_w s') k = st (sv_w s) k"
proof -
  obtain m where m: "g_menu (sv_g s) = Some m" using assms(3) by blast
  define s0 where "s0 = s\<lparr>sv_last_booted := None, sv_oneshot := None, sv_save_last := False, sv_ready := False\<rparr>"
  define r1 where "r1 = oneshot_timeout V (config_timeout V (EFI_SUCCESS, s0))"
  obtain o2 r2 where r2: "oneshot_entry V r1 = (o2, r2)" by (metis prod.exhaust)
  obtain d3 r3 where r3: "read_entry V ''LoaderEntryDefault'' r2 = (d3, r3)" by (metis prod.exhaust)
  obtain l4 x4 s4 where r4: "(if is_saved (mn_default_entry m) \<or> is_saved d3 then read_entry V ''LoaderEntryLastBooted'' r3
    else (None, r3)) = (l4, x4, s4)" by (metis prod.exhaust)
  obtain sel s5 where r5: "select_entry fnm o2 d3 l4 (mn_default_entry m) s4 = (sel, s5)" by (metis prod.exhaust)
  obtain ready x6 s6 where r6: "take_selected sel (x4, s5) = (ready, x6, s6)" by (metis prod.exhaust)
  define s7 where "s7 = s6\<lparr>sv_save_last := is_saved d3 \<or> d3 = None \<and> is_saved (mn_default_entry m)\<rparr>"
  define s8 where "s8 = (if ready then s7\<lparr>sv_last_booted := l4, sv_ready := True\<rparr> else s7)"
  obtain st9 s9 where r9: "sdboot_export_entries V s8 = (st9, s9)" by (metis prod.exhaust)
  have fin: "result = sdboot_record_error x6 st9" "s' = s9"
    using assms(1)
    unfolding sdboot_init_menu_variables_def m option.case Let_def s0_def [symmetric] r1_def [symmetric] r2 prod.case r3 r4 r5 r6
      s7_def [symmetric] s8_def [symmetric] r9
    by simp_all
  have k2: "keeps_absent st r1 r2" "\<not> EFI_ERROR (fst r2) \<longrightarrow> absent st ''LoaderEntryOneShot'' (sv_w (snd r2))"
    using oneshot_entry_result [OF r2 assms(2)] by blast+
  have k3: "keeps_absent st r2 r3" using read_entry_result [OF r3 assms(2)] by blast
  have k4: "keeps_absent st r3 (x4, s4)" using r4 read_entry_result [OF _ assms(2)] by (auto split: if_splits)
  have "sv_w s8 = sv_w s4" "EFI_ERROR x4 \<longrightarrow> EFI_ERROR x6"
    using select_entry_same [OF r5] take_selected_same [OF r6] by (simp_all add: s8_def s7_def)
  then have k8: "keeps_absent st (x4, s4) (x6, s8)" by (auto simp: keeps_absent_def)
  have k: "keeps_absent st r2 (x6, s8)" using k3 k4 k8 by (blast intro: keeps_absent_trans)
  have k1: "keeps_absent st (EFI_SUCCESS, s0) r1"
    using config_timeout_keeps [OF assms(2), of "(EFI_SUCCESS, s0)"] oneshot_timeout_result [OF assms(2), of "config_timeout V (EFI_SUCCESS, s0)"]
    unfolding r1_def by (blast intro: keeps_absent_trans)
  note X = export_entries_keeps [OF r9 assms(2)]
  show "\<not> EFI_ERROR result \<longrightarrow> (\<forall>name \<in> set oneshots. absent st name (sv_w s'))"
  proof (intro impI ballI)
    fix name assume e: "\<not> EFI_ERROR result" and n: "name \<in> set oneshots"
    have ok: "\<not> EFI_ERROR x6" using e fin by auto
    then have ok2: "\<not> EFI_ERROR (fst r2)" using k by (auto simp: keeps_absent_def)
    then have ok1: "\<not> EFI_ERROR (fst r1)" using k2(1) by (auto simp: keeps_absent_def)
    then have "absent st ''LoaderConfigTimeoutOneShot'' (sv_w (snd r1))"
      using oneshot_timeout_result [OF assms(2), of "config_timeout V (EFI_SUCCESS, s0)"] by (simp add: r1_def)
    then have "absent st ''LoaderConfigTimeoutOneShot'' (sv_w (snd r2))"
      using k2(1) by (auto simp: keeps_absent_def oneshots_def)
    then have "absent st name (sv_w (snd r2))" using k2(2) ok2 n by (auto simp: oneshots_def)
    then have "absent st name (sv_w s8)" using k n by (auto simp: keeps_absent_def)
    then show "absent st name (sv_w s')" using X [of "loader_key name"] oneshots_apart [OF n] fin by (simp add: absent_def loader_key_def)
  qed
  have all: "keeps_absent st (EFI_SUCCESS, s0) (x6, s8)" using k1 k2(1) k by (blast intro: keeps_absent_trans)
  have w0: "sv_w s0 = sv_w s" by (simp add: s0_def)
  show "st (sv_w s') k = st (sv_w s) k" if "k \<notin> loader_key ` set (''LoaderEntries'' # oneshots)"
  proof -
    have "st (sv_w s8) k = st (sv_w s0) k" using all that unfolding keeps_absent_def snd_conv list.set by blast
    then show ?thesis using X [of k] that fin w0 by auto
  qed
qed

section \<open>What the system reads\<close>

text \<open>The list in the firmware, or none when no entry has an identifier.\<close>

lemma ids_bytes_empty: "ids_bytes ids = [] \<longleftrightarrow> ids = []"
  by (cases ids) (simp_all add: ids_bytes_def id_bytes_def le16_def)

lemma export_stores:
  assumes "sdboot_export_entries V s = (status, s')" "stores V st" "calm_memory s" "g_menu (sv_g s) = Some m"
    and "short_ids (mn_loaders m)" "int (length (ids_bytes (first_ids [] (mn_loaders m)))) \<le> 18446744073709551615"
    and "\<not> EFI_ERROR status"
  shows "st (sv_w s') (gLoaderGuid, wide ''LoaderEntries'') =
    (if first_ids [] (mn_loaders m) = [] then None else Some (ids_bytes (first_ids [] (mn_loaders m))))"
proof -
  let ?ids = "first_ids [] (mn_loaders m)"
  obtain s1 where l: "export_loop [] (mn_loaders m) [] s = (Some (ids_bytes ?ids), s1)"
    using export_loop_ids [OF assms(3,5), of "[]" "[]"] assms(6) by auto
  show ?thesis
  proof (cases "?ids = []")
    case False
    obtain r s2 where u: "on_vars (efivar_set_raw V gLoaderGuid ''LoaderEntries'' (ids_bytes ?ids) 0) s1 = (r, s2)" by (metis prod.exhaust)
    then obtain g w2 where e: "efivar_set_raw V gLoaderGuid ''LoaderEntries'' (ids_bytes ?ids) 0 (sv_g s1, sv_w s1) = (r, g, w2)"
      "s2 = s1\<lparr>sv_g := g, sv_w := w2\<rparr>" by (rule on_vars_parts)
    have "status = r" "s' = s2" using assms(1,4) l False u by (simp_all add: sdboot_export_entries_def ids_bytes_empty)
    with set_raw_result [OF e(1) assms(2)] e(2) assms(7) False show ?thesis by (simp add: ids_bytes_empty)
  next
    case True
    obtain r s2 where u: "on_vars (efivar_unset V gLoaderGuid ''LoaderEntries'' 0) s1 = (r, s2)" by (metis prod.exhaust)
    then obtain g w2 where e: "efivar_unset V gLoaderGuid ''LoaderEntries'' 0 (sv_g s1, sv_w s1) = (r, g, w2)"
      "s2 = s1\<lparr>sv_g := g, sv_w := w2\<rparr>" by (rule on_vars_parts)
    have "status = (if r = EFI_NOT_FOUND then EFI_SUCCESS else r)" "s' = s2"
      using assms(1,4) l True u by (auto simp: sdboot_export_entries_def ids_bytes_empty)
    with unset_result [OF e(1) assms(2)] e(2) assms(7) True show ?thesis by (auto split: if_splits)
  qed
qed

section \<open>Booting an entry\<close>

lemma set_text_result:
  assumes "efivar_set_str16_from_str8 V vendor name (Some t) flags (g, w) = (status, g', w')" "stores V st"
  shows "st w' = (if EFI_ERROR status then st w else (st w)((vendor, wide name) := Some (id_bytes t)))"
proof -
  obtain u g1 w1 where e: "to_utf16 t (g, w) = (u, g1, w1)" by (metis prod.exhaust)
  note r = to_utf16_result [OF e]
  show ?thesis
  proof (cases u)
    case None
    with assms(1) e r show ?thesis by (auto simp: efivar_set_str16_from_str8_def EFI_ERROR_def efi_warnings_def)
  next
    case (Some n)
    with r have n: "n = wide t" "w1 = w" by auto
    have s: "efivar_set_raw V vendor name (id_bytes t) flags (g1, w) = (status, g', w')"
      using assms(1) e Some n by (simp add: efivar_set_str16_from_str8_def efivar_set_str16_def id_bytes_def)
    have "id_bytes t \<noteq> []" by (simp add: id_bytes_def le16_def)
    with set_raw_result [OF s assms(2)] show ?thesis by simp
  qed
qed

text \<open>The entry of a request for one boot is announced, but the entry that was booted last stays what it was.\<close>

lemma oneshot_not_saved:
  assumes "sdboot_set_selected_entry V e s = (result, s')" "stores V st" "sv_oneshot s = Some (fst e)"
  shows "(k \<noteq> loader_key ''LoaderEntrySelected'' \<longrightarrow> st (sv_w s') k = st (sv_w s) k) \<and> sv_last_booted s' = sv_last_booted s"
proof -
  let ?s = "s\<lparr>sv_oneshot := None\<rparr>"
  obtain eid s1 where i: "sdboot_loader_entry_id (snd e) ?s = (eid, s1)" by (metis prod.exhaust)
  have s1: "sv_w s1 = sv_w s" "sv_last_booted s1 = sv_last_booted s"
    using entry_id_same [OF i] i by (auto simp: sdboot_loader_entry_id_def sd_alloc_def split: option.splits prod.splits)
  show ?thesis
  proof (cases "ll_name (snd e) = None \<or> \<not> sdboot_loader_is_bootable (snd e) \<or> eid = None")
    case True
    with assms(1,3) i s1 show ?thesis by (auto simp: sdboot_set_selected_entry_def Let_def split: if_splits)
  next
    case False
    then obtain n name where n: "eid = Some n" "ll_name (snd e) = Some name" by auto
    obtain r s2 where u: "on_vars (efivar_set_str16_from_str8 V gLoaderGuid ''LoaderEntrySelected'' (Some n) 0) s1 = (r, s2)"
      by (metis prod.exhaust)
    then obtain g w2 where e2: "efivar_set_str16_from_str8 V gLoaderGuid ''LoaderEntrySelected'' (Some n) 0 (sv_g s1, sv_w s1) = (r, g, w2)"
      "s2 = s1\<lparr>sv_g := g, sv_w := w2\<rparr>" by (rule on_vars_parts)
    have "s' = s2" using assms(1,3) i False n u by (simp add: sdboot_set_selected_entry_def Let_def)
    with set_text_result [OF e2(1) assms(2)] e2(2) s1 show ?thesis by (auto simp: loader_key_def)
  qed
qed

end
