(* ===== verification/SdbootVarsSpec.thy ===== *)
theory SdbootVarsSpec
  imports SdbootVarsFacts
begin

text \<open>
  What the variables of the system mean for the menu: the timeout and the entry that are asked for, as a function of
  the texts in the store, and that \<open>sdboot_init_menu_variables\<close> computes it when the memory suffices.
\<close>

section \<open>Only the allocation counter and the firmware change\<close>

definition uncounted :: "embloader \<Rightarrow> embloader \<Rightarrow> bool" where
  "uncounted g g' \<longleftrightarrow> g'\<lparr>g_cs := g_cs g\<rparr> = g"

lemma uncounted_trans: "uncounted g h \<Longrightarrow> uncounted h i \<Longrightarrow> uncounted g i"
  by (cases g; cases h; cases i) (simp add: uncounted_def)

lemma uncounted_menu: "uncounted g g' \<Longrightarrow> g_menu g' = g_menu g"
  by (cases g; cases g') (simp add: uncounted_def)

definition calmly :: "embloader \<Rightarrow> embloader \<Rightarrow> bool" where
  "calmly g g' \<longleftrightarrow> uncounted g g' \<and> (no_oom (g_cs g) \<longrightarrow> no_oom (g_cs g'))"

lemma calmly_refl [simp, intro]: "calmly g g"
  by (simp add: calmly_def uncounted_def)

lemma calmly_trans [trans]: "calmly g h \<Longrightarrow> calmly h i \<Longrightarrow> calmly g i"
  using uncounted_trans unfolding calmly_def by blast

lemma galloc_calmly: "galloc g = (ok, g') \<Longrightarrow> calmly g g'"
  using galloc_ok [of g ok g'] by (auto simp: calmly_def uncounted_def galloc_def split: prod.splits)

lemma to_utf16_calmly: "to_utf16 t (g, w) = (u, g', w') \<Longrightarrow> calmly g g'"
  by (auto simp: to_utf16_def dest: galloc_calmly split: prod.splits)

lemma to_utf8_calmly: "to_utf8 t (g, w) = (u, g', w') \<Longrightarrow> calmly g g'"
  by (auto simp: to_utf8_def dest: galloc_calmly split: prod.splits)

lemma set_raw_calmly: "efivar_set_raw V vendor name buf flags (g, w) = (r, g', w') \<Longrightarrow> calmly g g'"
  by (auto simp: efivar_set_raw_def dest: to_utf16_calmly split: prod.splits option.splits)

lemma get_raw_calmly: "efivar_get_raw V vendor name (g, w) = (r, g', w') \<Longrightarrow> calmly g g'"
  by (auto simp: efivar_get_raw_def Let_def dest!: to_utf16_calmly galloc_calmly intro: calmly_trans
      split: prod.splits option.splits if_splits)

lemma unset_calmly: "efivar_unset V vendor name flags (g, w) = (r, g', w') \<Longrightarrow> calmly g g'"
  by (auto simp: efivar_unset_def dest!: get_raw_calmly set_raw_calmly intro: calmly_trans split: prod.splits if_splits)

lemma get_text_calmly: "efivar_get_str16_to_str8 V vendor name (g, w) = (r, g', w') \<Longrightarrow> calmly g g'"
  by (auto simp: efivar_get_str16_to_str8_def efivar_get_str16_def dest!: get_raw_calmly to_utf8_calmly intro: calmly_trans
      split: prod.splits option.splits if_splits)

lemma get_timeout_calmly: "sdboot_var_get_timeout V name (g, w) = (r, g', w') \<Longrightarrow> calmly g g'"
  by (auto simp: sdboot_var_get_timeout_def dest!: get_text_calmly split: prod.splits option.splits)

text \<open>In a state: the menu changes by a function, the choices that were made and the loader stay.\<close>

definition menu_step :: "(embloader_menu \<Rightarrow> embloader_menu) \<Rightarrow> 'w sd_state \<Rightarrow> 'w sd_state \<Rightarrow> bool" where
  "menu_step f s s' \<longleftrightarrow> g_menu (sv_g s') = map_option f (g_menu (sv_g s)) \<and> sv_oneshot s' = sv_oneshot s \<and>
    sv_last_booted s' = sv_last_booted s \<and> sv_save_last s' = sv_save_last s \<and> sv_ready s' = sv_ready s \<and>
    (calm_memory s \<longrightarrow> calm_memory s')"

abbreviation keeps_menu :: "'w sd_state \<Rightarrow> 'w sd_state \<Rightarrow> bool" where
  "keeps_menu \<equiv> menu_step (\<lambda>m. m)"

lemma keeps_menu_refl [simp, intro]: "keeps_menu s s"
  by (simp add: menu_step_def option.map_ident)

lemma menu_step_trans: "menu_step f s s1 \<Longrightarrow> menu_step h s1 s2 \<Longrightarrow> menu_step (h \<circ> f) s s2"
  by (simp add: menu_step_def option.map_comp)

lemma keeps_menu_trans [trans]: "keeps_menu s s1 \<Longrightarrow> keeps_menu s1 s2 \<Longrightarrow> keeps_menu s s2"
  using menu_step_trans [of "\<lambda>m. m" s s1 "\<lambda>m. m" s2] by (simp add: comp_def)

lemma keeps_menu_then: "keeps_menu s s1 \<Longrightarrow> menu_step f s1 s2 \<Longrightarrow> menu_step f s s2"
  using menu_step_trans [of "\<lambda>m. m" s s1 f s2] by (simp add: comp_def)

lemma then_keeps_menu: "menu_step f s s1 \<Longrightarrow> keeps_menu s1 s2 \<Longrightarrow> menu_step f s s2"
  using menu_step_trans [of f s s1 "\<lambda>m. m" s2] by (simp add: comp_def)

lemma menu_step_calm: "menu_step f s s' \<Longrightarrow> calm_memory s \<Longrightarrow> calm_memory s'"
  by (simp add: menu_step_def)

lemma on_menu_step [simp]: "menu_step f s (sd_on_menu f s)"
  by (simp add: menu_step_def sd_on_menu_def)

lemma ticked_keeps_menu: "ticked s s' \<Longrightarrow> keeps_menu s s'"
  by (auto simp: ticked_def menu_step_def option.map_ident)

lemma on_vars_keeps_menu:
  assumes "on_vars f s = (r, s')" and "\<And>g w r g' w'. f (g, w) = (r, g', w') \<Longrightarrow> calmly g g'"
  shows "keeps_menu s s'"
proof -
  obtain g w where e: "f (sv_g s, sv_w s) = (r, g, w)" "s' = s\<lparr>sv_g := g, sv_w := w\<rparr>" by (rule on_vars_parts [OF assms(1)])
  from assms(2) [OF e(1)] show ?thesis by (simp add: e(2) menu_step_def calmly_def uncounted_menu option.map_ident)
qed

lemma set_raw_keeps_menu: "on_vars (efivar_set_raw V vendor name buf flags) s = (r, s') \<Longrightarrow> keeps_menu s s'"
  by (erule on_vars_keeps_menu) (rule set_raw_calmly)

lemma unset_keeps_menu: "on_vars (efivar_unset V vendor name flags) s = (r, s') \<Longrightarrow> keeps_menu s s'"
  by (erule on_vars_keeps_menu) (rule unset_calmly)

lemma to_utf16_keeps_menu: "on_vars (to_utf16 t) s = (r, s') \<Longrightarrow> keeps_menu s s'"
  by (erule on_vars_keeps_menu) (rule to_utf16_calmly)

lemma sd_alloc_keeps_menu: "sd_alloc s = (ok, s') \<Longrightarrow> keeps_menu s s'"
  by (auto simp: sd_alloc_def menu_step_def calmly_def uncounted_menu option.map_ident dest!: galloc_calmly split: prod.splits)

lemma entry_id_keeps_menu: "sdboot_loader_entry_id l s = (i, s') \<Longrightarrow> keeps_menu s s'"
  by (auto simp: sdboot_loader_entry_id_def dest: sd_alloc_keeps_menu split: option.splits prod.splits)

lemma seen_loop_keeps_menu: "seen_loop i es s = (b, s') \<Longrightarrow> keeps_menu s s'"
  by (induction es arbitrary: s) (auto split: option.splits prod.splits if_splits dest!: entry_id_keeps_menu intro: keeps_menu_trans)

lemma export_loop_keeps_menu: "export_loop before es out s = (r, s') \<Longrightarrow> keeps_menu s s'"
proof (induction es arbitrary: before out s)
  case (Cons e es)
  show ?case
    using Cons.prems
    by (auto simp: Let_def sdboot_entry_id_seen_before_def split: option.splits prod.splits if_splits bool.splits
        dest!: Cons.IH entry_id_keeps_menu seen_loop_keeps_menu sd_alloc_keeps_menu to_utf16_keeps_menu
        intro: keeps_menu_trans) (blast intro: keeps_menu_trans)
qed simp

lemma export_entries_keeps_menu: "sdboot_export_entries V s = (status, s') \<Longrightarrow> keeps_menu s s'"
  by (auto simp: sdboot_export_entries_def split: option.splits prod.splits if_splits
      dest!: export_loop_keeps_menu set_raw_keeps_menu unset_keeps_menu intro: keeps_menu_trans)

section \<open>The texts of the system\<close>

text \<open>The text of a variable; a value of an odd size is not one.\<close>

definition system_text :: "(nat \<times> 16 word list \<Rightarrow> bytes option) \<Rightarrow> cstring \<Rightarrow> cstring option" where
  "system_text vars name =
     (case vars (loader_key name) of
        None \<Rightarrow> None
      | Some d \<Rightarrow>
          if odd (length d) then None
          else map_option (map (\<lambda>b. char_of (unat b))) (encode_utf16_to_utf8 False (Some (takeWhile (\<lambda>u. u \<noteq> 0) (units_of d)))))"

lemma units_of_even: "even (length d) \<Longrightarrow> units_of (d @ [0, 0]) = units_of d @ [0]"
  by (auto simp: units_of_def nth_append get16_def intro!: nth_equalityI elim!: evenE)

lemma wide_string_even: "even (length d) \<Longrightarrow> wide_string (d @ [0, 0]) = takeWhile (\<lambda>u. u \<noteq> 0) (units_of d)"
proof -
  have "takeWhile (\<lambda>u. u \<noteq> 0) (us @ [0]) = takeWhile (\<lambda>u. u \<noteq> 0) us" for us :: "16 word list"
    by (induction us) simp_all
  then show "even (length d) \<Longrightarrow> ?thesis" by (simp add: wide_string_def units_of_even)
qed

lemma loader_get_text:
  assumes "stores V st" "no_oom (g_cs g)" "short name"
  shows "\<exists>status g'. loader_get V name (g, w) = ((status, system_text (st w) name), g', w) \<and> calmly g g'"
proof -
  obtain status r g1 w1 where e: "efivar_get_raw V gLoaderGuid name (g, w) = ((status, r), g1, w1)" by (metis prod.exhaust)
  note R = get_raw_result [OF e assms(1)]
  have calm: "no_oom (g_cs g1)" "w1 = w" and n: "r = None \<longleftrightarrow> EFI_ERROR status"
    and c: "case st w (gLoaderGuid, wide name) of None \<Rightarrow> status = EFI_NOT_FOUND | Some d \<Rightarrow> r = Some (d @ [0, 0], int (length d))"
    using R assms(2,3) by blast+
  show ?thesis
  proof (cases "st w (gLoaderGuid, wide name)")
    case None
    then have "r = None" using n c by (simp add: EFI_ERROR_def efi_warnings_def)
    with e calm None get_raw_calmly [OF e] show ?thesis
      by (simp add: efivar_get_str16_to_str8_def efivar_get_str16_def system_text_def loader_key_def)
  next
    case (Some d)
    then have r: "r = Some (d @ [0, 0], int (length d))" using c by simp
    obtain u g2 w2 where t: "to_utf8 (wide_string (d @ [0, 0])) (g1, w) = (u, g2, w2)" by (metis prod.exhaust)
    from to_utf8_result [OF t] calm have u: "w2 = w"
      "u = map_option (map (\<lambda>b. char_of (unat b))) (encode_utf16_to_utf8 False (Some (wide_string (d @ [0, 0]))))" by auto
    have "calmly g g2" using get_raw_calmly [OF e] to_utf8_calmly [OF t] by (rule calmly_trans)
    moreover have "odd (length d) \<longleftrightarrow> int (length d) mod 2 \<noteq> 0" by presburger
    ultimately show ?thesis using e r calm t u Some get_raw_calmly [OF e] wide_string_even [of d]
      by (auto simp: efivar_get_str16_to_str8_def efivar_get_str16_def system_text_def loader_key_def)
  qed
qed

definition system_timeout :: "(nat \<times> 16 word list \<Rightarrow> bytes option) \<Rightarrow> cstring \<Rightarrow> (int \<times> bool) option" where
  "system_timeout vars name = Option.bind (system_text vars name) parse_timeout"

lemma get_timeout_text:
  assumes "stores V st" "no_oom (g_cs g)" "short name"
  shows "\<exists>status g'. sdboot_var_get_timeout V name (g, w) = ((status, system_timeout (st w) name), g', w) \<and> calmly g g'"
proof -
  obtain status g' where e: "loader_get V name (g, w) = ((status, system_text (st w) name), g', w)" "calmly g g'"
    using loader_get_text [OF assms] by blast
  show ?thesis
  proof (cases "system_text (st w) name")
    case None
    with e show ?thesis by (simp add: sdboot_var_get_timeout_def system_timeout_def)
  next
    case (Some t)
    with e show ?thesis by (cases "parse_timeout t") (simp_all add: sdboot_var_get_timeout_def system_timeout_def)
  qed
qed

text \<open>The text that was set.\<close>

lemma units_of_units: "units_of (le_units us) = us"
proof (induction us)
  case Nil
  show ?case by (simp add: units_of_def)
next
  case (Cons u us)
  then show ?case by (simp add: units_of_le16)
qed

lemma system_text_set:
  assumes "vars (loader_key name) = Some (id_bytes (utf8_text cps))" "ctext cps" "3 * length (text8 cps) < SIZE_MAX div 2"
  shows "system_text vars name = Some (utf8_text cps)"
proof -
  have len: "length (text8 cps) < SIZE_MAX div 2" "length (text16 cps) \<le> (SIZE_MAX - 1) div 3"
    using assms(3) text_lengths(1) [of cps] by (simp_all add: SIZE_MAX_def)
  have "even (length (id_bytes t))" for t by (simp add: id_bytes_def)
  moreover have "units_of (id_bytes (utf8_text cps)) = text16 cps @ [0]"
    unfolding id_bytes_def wide_utf8_text [OF assms(2) len(1)] by (rule units_of_units)
  moreover have "takeWhile (\<lambda>u. u \<noteq> 0) (text16 cps @ [0]) = text16 cps"
    using text_nonzero(2) [OF assms(2)] by (simp add: takeWhile_append)
  ultimately show ?thesis using assms(1) simple_utf16_text [OF assms(2) len(2)] by (simp add: system_text_def utf8_text_def)
qed

lemma system_text_ascii:
  assumes "vars (loader_key name) = Some (id_bytes t)" "ascii t" "3 * length t < SIZE_MAX div 2"
  shows "system_text vars name = Some t"
proof -
  let ?cps = "map (\<lambda>c. of_nat (cval c)) t :: 32 word list"
  note a = ascii_text [OF assms(2)]
  have "char_of (unat (of_char c :: 8 word)) = c" for c :: char
    using cval_less [of c] by (simp add: of_char_cval unat_of_nat cval_def)
  then have "utf8_text ?cps = t" by (simp add: utf8_text_def a comp_def)
  moreover have "3 * length (text8 ?cps) < SIZE_MAX div 2" using assms(3) by (simp add: a)
  ultimately show ?thesis using system_text_set [of vars name ?cps] assms(1) a(3) by simp
qed

text \<open>The same on the state of the file.\<close>

lemma on_vars_read:
  assumes "\<exists>status g'. f (sv_g s, sv_w s) = ((status, v), g', sv_w s) \<and> calmly (sv_g s) g'"
  obtains status s' where "on_vars f s = ((status, v), s')" "keeps_menu s s'" "sv_w s' = sv_w s"
  using assms by (auto simp: on_vars_def menu_step_def calmly_def uncounted_menu option.map_ident)

section \<open>The steps of the preparation\<close>

definition loader_names :: "cstring list" where
  "loader_names = [''LoaderConfigTimeout'', ''LoaderConfigTimeoutOneShot'', ''LoaderEntryOneShot'', ''LoaderEntryDefault'',
     ''LoaderEntryLastBooted'', ''LoaderEntries'', ''LoaderEntrySelected'']"

lemma loader_names_plain: "name \<in> set loader_names \<Longrightarrow> ascii name \<and> short name"
  by (auto simp: loader_names_def ascii_def cval_def short_def SIZE_MAX_def)

lemma loader_key_eq: "n \<in> set loader_names \<Longrightarrow> m \<in> set loader_names \<Longrightarrow> loader_key n = loader_key m \<longleftrightarrow> n = m"
  using loader_names_plain wide_eq by (auto simp: loader_key_def)

lemma unset_once_step:
  assumes "unset_once V name (result, s) = (result', s')" "stores V st"
  shows "keeps_menu s s' \<and> (\<forall>k. k \<noteq> loader_key name \<longrightarrow> st (sv_w s') k = st (sv_w s) k)"
proof -
  obtain status s1 where u: "on_vars (efivar_unset V gLoaderGuid name EFI_VARIABLE_NON_VOLATILE) s = (status, s1)" by (metis prod.exhaust)
  obtain g w where e: "efivar_unset V gLoaderGuid name EFI_VARIABLE_NON_VOLATILE (sv_g s, sv_w s) = (status, g, w)"
    "s1 = s\<lparr>sv_g := g, sv_w := w\<rparr>" by (rule on_vars_parts [OF u])
  have "s' = s1" using assms(1) u by (simp add: unset_once_def)
  moreover have "keeps_menu s s1" by (rule unset_keeps_menu [OF u])
  moreover have "k \<noteq> loader_key name \<longrightarrow> st w k = st (sv_w s) k" for k
    using unset_result [OF e(1) assms(2)] unfolding loader_key_def by blast
  ultimately show ?thesis by (simp add: e(2))
qed

definition with_timeout :: "(int \<times> bool) option \<Rightarrow> embloader_menu \<Rightarrow> embloader_menu" where
  "with_timeout v m = (case v of None \<Rightarrow> m | Some (t, d) \<Rightarrow> m\<lparr>mn_timeout := t, mn_disabled := d\<rparr>)"

definition with_oneshot :: "(int \<times> bool) option \<Rightarrow> embloader_menu \<Rightarrow> embloader_menu" where
  "with_oneshot v m = (case v of None \<Rightarrow> m | Some (t, d) \<Rightarrow> m\<lparr>mn_timeout := (if t \<le> 0 then -1 else t), mn_disabled := False\<rparr>)"

lemma config_timeout_step:
  assumes "stores V st" "calm_memory s"
  shows "\<exists>result' s'. config_timeout V (result, s) = (result', s') \<and>
    menu_step (with_timeout (system_timeout (st (sv_w s)) ''LoaderConfigTimeout'')) s s' \<and> sv_w s' = sv_w s"
proof -
  let ?n = "''LoaderConfigTimeout''"
  let ?v = "system_timeout (st (sv_w s)) ?n"
  have n: "short ?n" using loader_names_plain [of ?n] by (simp add: loader_names_def)
  obtain status s1 where u: "on_vars (sdboot_var_get_timeout V ?n) s = ((status, ?v), s1)" "keeps_menu s s1" "sv_w s1 = sv_w s"
    by (rule on_vars_read) (rule get_timeout_text [OF assms n])
  show ?thesis
  proof (cases ?v)
    case None
    then have "with_timeout ?v = (\<lambda>m. m)" by (auto simp: with_timeout_def)
    with u None show ?thesis by (simp add: config_timeout_def)
  next
    case (Some td)
    obtain t d where td: "td = (t, d)" by (cases td)
    have f: "with_timeout ?v = (\<lambda>m. m\<lparr>mn_timeout := t, mn_disabled := d\<rparr>)" using Some td by (auto simp: with_timeout_def)
    have "config_timeout V (result, s) = (result, sd_on_menu (with_timeout ?v) s1)"
      using u(1) Some td f by (simp add: config_timeout_def)
    with u(3) keeps_menu_then [OF u(2) on_menu_step] show ?thesis by auto
  qed
qed

lemma oneshot_timeout_step:
  assumes "stores V st" "calm_memory s"
  shows "\<exists>result' s'. oneshot_timeout V (result, s) = (result', s') \<and>
    menu_step (with_oneshot (system_timeout (st (sv_w s)) ''LoaderConfigTimeoutOneShot'')) s s' \<and>
    (\<forall>k. k \<noteq> loader_key ''LoaderConfigTimeoutOneShot'' \<longrightarrow> st (sv_w s') k = st (sv_w s) k)"
proof -
  let ?n = "''LoaderConfigTimeoutOneShot''"
  let ?v = "system_timeout (st (sv_w s)) ?n"
  have n: "short ?n" using loader_names_plain [of ?n] by (simp add: loader_names_def)
  obtain status s1 where u: "on_vars (sdboot_var_get_timeout V ?n) s = ((status, ?v), s1)" "keeps_menu s s1" "sv_w s1 = sv_w s"
    by (rule on_vars_read) (rule get_timeout_text [OF assms n])
  show ?thesis
  proof (cases ?v)
    case None
    then have "with_oneshot ?v = (\<lambda>m. m)" by (auto simp: with_oneshot_def)
    with u None show ?thesis by (simp add: oneshot_timeout_def)
  next
    case (Some td)
    obtain t d where td: "td = (t, d)" by (cases td)
    have f: "with_oneshot ?v = (\<lambda>m. m\<lparr>mn_timeout := (if t \<le> 0 then -1 else t), mn_disabled := False\<rparr>)"
      using Some td by (auto simp: with_oneshot_def)
    obtain result' s2 where c: "unset_once V ?n (result, sd_on_menu (with_oneshot ?v) s1) = (result', s2)" by (metis prod.exhaust)
    have "oneshot_timeout V (result, s) = (result', s2)" using u(1) Some td c f by (simp add: oneshot_timeout_def)
    moreover have "menu_step (with_oneshot ?v) s s2"
      using then_keeps_menu [OF keeps_menu_then [OF u(2) on_menu_step]] unset_once_step [OF c assms(1)] by blast
    ultimately show ?thesis using unset_once_step [OF c assms(1)] u(3) by auto
  qed
qed

lemma read_entry_step:
  assumes "stores V st" "calm_memory s" "name \<in> set loader_names"
  shows "\<exists>result' s'. read_entry V name (result, s) = (system_text (st (sv_w s)) name, result', s') \<and> keeps_menu s s' \<and> sv_w s' = sv_w s"
proof -
  have n: "short name" using loader_names_plain [OF assms(3)] by simp
  obtain status s1 where u: "on_vars (loader_get V name) s = ((status, system_text (st (sv_w s)) name), s1)" "keeps_menu s s1"
    "sv_w s1 = sv_w s"
    by (rule on_vars_read) (rule loader_get_text [OF assms(1,2) n])
  then show ?thesis by (simp add: read_entry_def)
qed

lemma oneshot_entry_step:
  assumes "stores V st" "calm_memory s"
  shows "\<exists>result' s'. oneshot_entry V (result, s) = (system_text (st (sv_w s)) ''LoaderEntryOneShot'', result', s') \<and> keeps_menu s s' \<and>
    (\<forall>k. k \<noteq> loader_key ''LoaderEntryOneShot'' \<longrightarrow> st (sv_w s') k = st (sv_w s) k)"
proof -
  let ?n = "''LoaderEntryOneShot''"
  have n: "?n \<in> set loader_names" by (simp add: loader_names_def)
  obtain result1 s1 where u: "read_entry V ?n (result, s) = (system_text (st (sv_w s)) ?n, result1, s1)" "keeps_menu s s1" "sv_w s1 = sv_w s"
    using read_entry_step [OF assms n] by blast
  show ?thesis
  proof (cases "system_text (st (sv_w s)) ?n")
    case None
    with u show ?thesis by (simp add: oneshot_entry_def)
  next
    case (Some t)
    obtain result2 s2 where c: "unset_once V ?n (result1, s1) = (result2, s2)" by (metis prod.exhaust)
    have "oneshot_entry V (result, s) = (system_text (st (sv_w s)) ?n, result2, s2)"
      using u(1) Some c by (simp add: oneshot_entry_def)
    with unset_once_step [OF c assms(1)] keeps_menu_trans [OF u(2)] u(3) show ?thesis by auto
  qed
qed

definition with_entry :: "entry option \<Rightarrow> embloader_menu \<Rightarrow> embloader_menu" where
  "with_entry e m = (case e of None \<Rightarrow> m | Some e \<Rightarrow> m\<lparr>mn_default_entry := ll_name (snd e)\<rparr>)"

lemma take_selected_step:
  assumes "calm_memory s"
  shows "\<exists>s'. take_selected (EFI_SUCCESS, e, one) (result, s) = (True, result, s') \<and>
    g_menu (sv_g s') = map_option (with_entry e) (g_menu (sv_g s)) \<and> sv_w s' = sv_w s \<and> calm_memory s' \<and>
    sv_oneshot s' = (if one \<and> e \<noteq> None then Some (fst (the e)) else sv_oneshot s)"
proof (cases e)
  case None
  have "with_entry None = (\<lambda>m. m)" by (auto simp: with_entry_def)
  with None assms show ?thesis by (simp add: take_selected_def EFI_ERROR_def option.map_ident)
next
  case (Some d)
  obtain s1 where s1: "sd_alloc s = (True, s1)" "ticked s s1" using sd_alloc_ok [OF assms] by blast
  have f: "with_entry e = (\<lambda>m. m\<lparr>mn_default_entry := ll_name (snd d)\<rparr>)" using Some by (auto simp: with_entry_def)
  let ?s = "sd_on_menu (with_entry e) s1"
  have "take_selected (EFI_SUCCESS, e, one) (result, s) = (True, result, if one then ?s\<lparr>sv_oneshot := Some (fst d)\<rparr> else ?s)"
    using Some s1(1) f by (simp add: take_selected_def EFI_ERROR_def)
  with s1(2) Some show ?thesis by (auto simp: ticked_def sd_on_menu_def)
qed

section \<open>What the system asks for\<close>

text \<open>The settings that are asked for: the menu with them, the entry that is asked for once, and what is remembered.\<close>

definition system_default :: "(nat \<times> 16 word list \<Rightarrow> bytes option) \<Rightarrow> cstring option" where
  "system_default vars = system_text vars ''LoaderEntryDefault''"

definition system_recent :: "(nat \<times> 16 word list \<Rightarrow> bytes option) \<Rightarrow> embloader_menu \<Rightarrow> cstring option" where
  "system_recent vars m =
     (if is_saved (mn_default_entry m) \<or> is_saved (system_default vars) then system_text vars ''LoaderEntryLastBooted'' else None)"

definition system_choice ::
  "(cstring \<Rightarrow> cstring \<Rightarrow> int) \<Rightarrow> (nat \<times> 16 word list \<Rightarrow> bytes option) \<Rightarrow> embloader_menu \<Rightarrow> entry option" where
  "system_choice fnm vars m =
     choice fnm (system_text vars ''LoaderEntryOneShot'') (system_default vars) (system_recent vars m) (mn_default_entry m) (mn_loaders m)"

definition system_once ::
  "(cstring \<Rightarrow> cstring \<Rightarrow> int) \<Rightarrow> (nat \<times> 16 word list \<Rightarrow> bytes option) \<Rightarrow> embloader_menu \<Rightarrow> entry option" where
  "system_once fnm vars m = pick fnm (system_text vars ''LoaderEntryOneShot'') False (mn_loaders m)"

definition system_menu ::
  "(cstring \<Rightarrow> cstring \<Rightarrow> int) \<Rightarrow> (nat \<times> 16 word list \<Rightarrow> bytes option) \<Rightarrow> embloader_menu \<Rightarrow> embloader_menu" where
  "system_menu fnm vars m =
     with_entry (system_choice fnm vars m)
       (with_oneshot (system_timeout vars ''LoaderConfigTimeoutOneShot'') (with_timeout (system_timeout vars ''LoaderConfigTimeout'') m))"

lemma with_timeouts_same [simp]:
  "mn_loaders (with_timeout v m) = mn_loaders m" "mn_default_entry (with_timeout v m) = mn_default_entry m"
  "mn_loaders (with_oneshot v m) = mn_loaders m" "mn_default_entry (with_oneshot v m) = mn_default_entry m"
  by (simp_all add: with_timeout_def with_oneshot_def split: option.splits)

lemma system_text_cong: "vars (loader_key name) = vars' (loader_key name) \<Longrightarrow> system_text vars name = system_text vars' name"
  by (simp add: system_text_def)

lemma choice_once: "pick fnm oneshot False es = Some e \<Longrightarrow> choice fnm oneshot d r md es = Some e"
  by (simp add: choice_def)

lemma init_menu_system:
  assumes "sdboot_init_menu_variables V fnm s = (result, s')" "stores V st" "calm_memory s" "g_menu (sv_g s) = Some m"
  shows "g_menu (sv_g s') = Some (system_menu fnm (st (sv_w s)) m) \<and>
    sv_oneshot s' = map_option fst (system_once fnm (st (sv_w s)) m) \<and>
    sv_last_booted s' = system_recent (st (sv_w s)) m \<and> sv_ready s' \<and>
    (sv_save_last s' \<longleftrightarrow> (case system_default (st (sv_w s)) of None \<Rightarrow> is_saved (mn_default_entry m) | d \<Rightarrow> is_saved d))"
proof -
  let ?v = "st (sv_w s)"
  let ?once = "system_text ?v ''LoaderEntryOneShot''" and ?dflt = "system_default ?v" and ?recent = "system_recent ?v m"
  let ?md = "mn_default_entry m" and ?es = "mn_loaders m"
  define m2 where
    "m2 = with_oneshot (system_timeout ?v ''LoaderConfigTimeoutOneShot'') (with_timeout (system_timeout ?v ''LoaderConfigTimeout'') m)"
  define s0 where "s0 = s\<lparr>sv_last_booted := None, sv_oneshot := None, sv_save_last := False, sv_ready := False\<rparr>"
  have s0: "calm_memory s0" "sv_w s0 = sv_w s" "g_menu (sv_g s0) = Some m" "sv_oneshot s0 = None"
    using assms(3,4) by (simp_all add: s0_def)
  obtain x1 s1 where s1: "config_timeout V (EFI_SUCCESS, s0) = (x1, s1)"
    "menu_step (with_timeout (system_timeout ?v ''LoaderConfigTimeout'')) s0 s1" "sv_w s1 = sv_w s"
    using config_timeout_step [OF assms(2) s0(1), of EFI_SUCCESS] s0(2) by auto
  obtain x2 s2 where s2: "oneshot_timeout V (x1, s1) = (x2, s2)"
    "menu_step (with_oneshot (system_timeout ?v ''LoaderConfigTimeoutOneShot'')) s1 s2"
    "\<And>k. k \<noteq> loader_key ''LoaderConfigTimeoutOneShot'' \<Longrightarrow> st (sv_w s2) k = ?v k"
    using oneshot_timeout_step [OF assms(2) menu_step_calm [OF s1(2) s0(1)], of x1] s1(3) by auto
  have c2: "calm_memory s2" using menu_step_calm [OF s2(2)] menu_step_calm [OF s1(2) s0(1)] by simp
  have t2: "system_text (st (sv_w s2)) n = system_text ?v n" if "n \<in> set loader_names" "n \<noteq> ''LoaderConfigTimeoutOneShot''" for n
    by (rule system_text_cong, rule s2(3)) (use that loader_key_eq [of n "''LoaderConfigTimeoutOneShot''"] in \<open>simp add: loader_names_def\<close>)
  obtain x3 s3 where s3: "oneshot_entry V (x2, s2) = (?once, x3, s3)" "keeps_menu s2 s3"
    "\<And>k. k \<noteq> loader_key ''LoaderEntryOneShot'' \<Longrightarrow> st (sv_w s3) k = st (sv_w s2) k"
    using oneshot_entry_step [OF assms(2) c2, of x2] t2 [of "''LoaderEntryOneShot''"] by (auto simp: loader_names_def)
  have c3: "calm_memory s3" by (rule menu_step_calm [OF s3(2) c2])
  have t3: "system_text (st (sv_w s3)) n = system_text ?v n"
    if "n \<in> set loader_names" "n \<noteq> ''LoaderConfigTimeoutOneShot''" "n \<noteq> ''LoaderEntryOneShot''" for n
  proof -
    have "loader_key n \<noteq> loader_key ''LoaderEntryOneShot''"
      using that loader_key_eq [of n "''LoaderEntryOneShot''"] by (simp add: loader_names_def)
    from system_text_cong [of "st (sv_w s3)" n "st (sv_w s2)", OF s3(3) [OF this]] t2 [OF that(1,2)] show ?thesis by simp
  qed
  obtain x4 s4 where s4: "read_entry V ''LoaderEntryDefault'' (x3, s3) = (?dflt, x4, s4)" "keeps_menu s3 s4" "sv_w s4 = sv_w s3"
    using read_entry_step [OF assms(2) c3, of "''LoaderEntryDefault''" x3] t3 [of "''LoaderEntryDefault''"]
    by (auto simp: loader_names_def system_default_def)
  have c4: "calm_memory s4" by (rule menu_step_calm [OF s4(2) c3])
  obtain x5 s5 where s5: "(if is_saved ?md \<or> is_saved ?dflt then read_entry V ''LoaderEntryLastBooted'' (x4, s4) else (None, (x4, s4))) =
      (?recent, x5, s5)" "keeps_menu s4 s5"
    using read_entry_step [OF assms(2) c4, of "''LoaderEntryLastBooted''" x4] t3 [of "''LoaderEntryLastBooted''"] s4(3)
    by (cases "is_saved ?md \<or> is_saved ?dflt") (auto simp: loader_names_def system_recent_def)
  have c5: "calm_memory s5" by (rule menu_step_calm [OF s5(2) c4])
  have st5: "menu_step (\<lambda>m. m) s2 s5" using s3(2) s4(2) s5(2) by (blast intro: keeps_menu_trans)
  then have m5: "g_menu (sv_g s5) = Some m2" "sv_oneshot s5 = None"
    using s1(2) s2(2) s0 by (simp_all add: menu_step_def m2_def)
  have l2: "mn_loaders m2 = ?es" by (simp add: m2_def)
  obtain s6 where s6: "select_entry fnm ?once ?dflt ?recent ?md s5 =
      ((EFI_SUCCESS, system_choice fnm ?v m, system_once fnm ?v m \<noteq> None), s6)" "ticked s5 s6"
    using select_entry_choice [OF c5 m5(1), of fnm ?once ?dflt ?recent ?md] by (auto simp: l2 system_choice_def system_once_def)
  have c6: "calm_memory s6" by (rule ticked_calm [OF s6(2)])
  have m6: "g_menu (sv_g s6) = Some m2" "sv_oneshot s6 = None" using ticked_keeps_menu [OF s6(2)] m5 by (simp_all add: menu_step_def)
  obtain s7 where s7: "take_selected (EFI_SUCCESS, system_choice fnm ?v m, system_once fnm ?v m \<noteq> None) (x5, s6) = (True, x5, s7)"
    "g_menu (sv_g s7) = Some (with_entry (system_choice fnm ?v m) m2)"
    "sv_oneshot s7 = (if system_once fnm ?v m \<noteq> None \<and> system_choice fnm ?v m \<noteq> None then Some (fst (the (system_choice fnm ?v m))) else None)"
    using take_selected_step [OF c6, of "system_choice fnm ?v m" "system_once fnm ?v m \<noteq> None" x5] m6 by auto
  have o7: "sv_oneshot s7 = map_option fst (system_once fnm ?v m)"
    using s7(3) choice_once [of fnm ?once ?es _ ?dflt ?recent ?md]
    by (cases "system_once fnm ?v m") (auto simp: system_once_def system_choice_def)
  define s8 where
    "s8 = s7\<lparr>sv_save_last := is_saved ?dflt \<or> ?dflt = None \<and> is_saved ?md, sv_last_booted := ?recent, sv_ready := True\<rparr>"
  obtain x9 s9 where s9: "sdboot_export_entries V s8 = (x9, s9)" by (metis prod.exhaust)
  have "s' = s9"
    using assms(1)
    unfolding sdboot_init_menu_variables_def assms(4) option.case Let_def s0_def [symmetric] s1(1) s2(1) s3(1) prod.case s4(1) s5(1) s6(1)
      s7(1) if_True s8_def [symmetric] s9
    by simp
  then have e: "keeps_menu s8 s'" using export_entries_keeps_menu [OF s9] by simp
  have "is_saved None = False" by (simp add: is_saved_def)
  then show ?thesis using e s7(2) o7
    by (simp add: menu_step_def s8_def m2_def system_menu_def option.map_ident split: option.splits)
qed

section \<open>Inputs of the witnesses\<close>

text \<open>
  Firmware variables for the witnesses: a store that is a map, and a system that asks for one boot of one of two
  entries.
\<close>

type_synonym var_map = "nat \<times> 16 word list \<Rightarrow> bytes option"

definition visible :: "var_map \<Rightarrow> var_map" where
  "visible w k = (case w k of None \<Rightarrow> None | Some d \<Rightarrow> if d \<noteq> [] \<and> int (length d) < 2 ^ 63 then Some d else None)"

definition map_vars :: "var_map efi_variables" where
  "map_vars = \<lparr>ev_get = (\<lambda>v n sz w.
       case visible w (v, n) of
         None \<Rightarrow> (EFI_NOT_FOUND, 0, [])
       | Some d \<Rightarrow> if sz < int (length d) then (EFI_BUFFER_TOO_SMALL, int (length d), []) else (EFI_SUCCESS, int (length d), d)),
     ev_set = (\<lambda>v n fl d w.
       if int (length d) < 2 ^ 63 then (EFI_SUCCESS, w((v, n) := if d = [] then None else Some d)) else (EFI_OUT_OF_RESOURCES, w))\<rparr>"

lemma visible_set [simp]:
  "visible (w(k := None)) = (visible w)(k := None)"
  "d \<noteq> [] \<Longrightarrow> length d < 9223372036854775808 \<Longrightarrow> visible (w(k \<mapsto> d)) = (visible w)(k \<mapsto> d)"
  by (auto simp: visible_def)

lemma map_vars: "stores map_vars visible"
proof -
  have "\<forall>v n fl d w status w'. ev_set map_vars v n fl d w = (status, w') \<longrightarrow>
      visible w' = (if EFI_ERROR status then visible w else (visible w)((v, n) := if d = [] then None else Some d)) \<and>
      (status = EFI_NOT_FOUND \<longrightarrow> visible w (v, n) = None)"
    by (auto simp: map_vars_def EFI_ERROR_def efi_warnings_def)
  moreover have "\<forall>w k d. visible w k = Some d \<longrightarrow> d \<noteq> [] \<and> int (length d) < 2 ^ 63"
    by (auto simp: visible_def split: option.splits if_splits)
  moreover have "\<forall>v n sz w. ev_get map_vars v n sz w =
      (case visible w (v, n) of
         None \<Rightarrow> (EFI_NOT_FOUND, 0, [])
       | Some d \<Rightarrow> if sz < int (length d) then (EFI_BUFFER_TOO_SMALL, int (length d), []) else (EFI_SUCCESS, int (length d), d))"
    by (simp add: map_vars_def)
  ultimately show ?thesis unfolding stores_def by blast
qed

definition var_loader :: embloader where
  "var_loader = \<lparr>g_cs = \<lparr>nodes = Map.empty, cnxt = 1, coom = (\<lambda>_. False), ctick = 0\<rparr>, g_next = 1, g_config = None, g_sysinfo = None,
     g_ktype = None, g_device_name = None, g_profiles = [],
     g_menu = Some (zero_menu\<lparr>mn_default_entry := Some ''windows'', mn_loaders :=
       [(1, zero_loader\<lparr>ll_name := Some ''arch'', ll_type := LOADER_SDBOOT\<rparr>),
        (2, zero_loader\<lparr>ll_name := Some ''windows'', ll_type := LOADER_EFI\<rparr>),
        (3, zero_loader\<lparr>ll_name := Some ''Windows'', ll_type := LOADER_EFI\<rparr>)]\<rparr>), g_sdboot = None\<rparr>"

definition var_menu :: embloader_menu where
  "var_menu = the (g_menu var_loader)"

definition asking_vars :: var_map where
  "asking_vars = Map.empty (loader_key ''LoaderEntryOneShot'' \<mapsto> id_bytes ''arch.conf'',
     loader_key ''LoaderConfigTimeout'' \<mapsto> id_bytes ''menu-disabled'')"

definition asking :: "var_map sd_state" where
  "asking = \<lparr>sv_last_booted = None, sv_oneshot = None, sv_save_last = False, sv_ready = False, sv_g = var_loader, sv_w = asking_vars\<rparr>"

definition same_name :: "cstring \<Rightarrow> cstring \<Rightarrow> int" where
  "same_name p s = (if p = s then 0 else 1)"

lemma var_loader: "no_oom (g_cs var_loader)" "g_menu var_loader = Some var_menu"
  by (simp_all add: var_loader_def var_menu_def no_oom_def)

lemma asking: "calm_memory asking" "g_menu (sv_g asking) = Some var_menu" "sv_w asking = asking_vars"
  by (simp_all add: asking_def var_loader)

lemma asking_visible: "visible asking_vars = asking_vars"
  by (auto simp: visible_def asking_vars_def id_bytes_def le16_def wide_ascii ascii_def cval_def short_def SIZE_MAX_def split: option.splits)

lemma asking_texts:
  "system_text asking_vars ''LoaderEntryOneShot'' = Some ''arch.conf''"
  "system_text asking_vars ''LoaderConfigTimeout'' = Some ''menu-disabled''"
  "name \<in> {''LoaderConfigTimeoutOneShot'', ''LoaderEntryDefault'', ''LoaderEntryLastBooted''} \<Longrightarrow> system_text asking_vars name = None"
proof -
  have k: "loader_key ''LoaderEntryOneShot'' \<noteq> loader_key ''LoaderConfigTimeout''"
    by (simp add: loader_key_eq loader_names_def)
  show "system_text asking_vars ''LoaderEntryOneShot'' = Some ''arch.conf''"
    by (rule system_text_ascii) (simp_all add: asking_vars_def k ascii_def cval_def SIZE_MAX_def)
  show "system_text asking_vars ''LoaderConfigTimeout'' = Some ''menu-disabled''"
    by (rule system_text_ascii) (simp_all add: asking_vars_def ascii_def cval_def SIZE_MAX_def)
  assume n: "name \<in> {''LoaderConfigTimeoutOneShot'', ''LoaderEntryDefault'', ''LoaderEntryLastBooted''}"
  then have "loader_key name \<noteq> loader_key ''LoaderEntryOneShot''" "loader_key name \<noteq> loader_key ''LoaderConfigTimeout''"
    by (auto simp: loader_key_eq loader_names_def)
  then show "system_text asking_vars name = None" by (simp add: system_text_def asking_vars_def)
qed

lemma var_loaders: "mn_loaders var_menu =
   [(1, zero_loader\<lparr>ll_name := Some ''arch'', ll_type := LOADER_SDBOOT\<rparr>),
    (2, zero_loader\<lparr>ll_name := Some ''windows'', ll_type := LOADER_EFI\<rparr>),
    (3, zero_loader\<lparr>ll_name := Some ''Windows'', ll_type := LOADER_EFI\<rparr>)]"
  by (simp add: var_menu_def var_loader_def)

lemma asking_length: "int (length (ids_bytes (first_ids [] (mn_loaders var_menu)))) \<le> 54"
proof -
  have w: "length (wide t) = length t" if "ascii t" "short t" for t using that by (simp add: wide_ascii)
  show ?thesis
    by (simp add: var_loaders entry_id_def zero_loader_def ids_bytes_def id_bytes_def w ascii_def cval_def short_def SIZE_MAX_def)
qed

lemma asking_ids:
  "short_ids (mn_loaders var_menu)" "int (length (ids_bytes (first_ids [] (mn_loaders var_menu)))) \<le> 18446744073709551615"
  "text_ids (mn_loaders var_menu)"
  using asking_length
  by (simp_all add: var_loaders short_ids_def text_ids_def entry_id_def short_def SIZE_MAX_def cstr_def zero_loader_def)

lemma asking_once: "system_once same_name asking_vars var_menu = Some (hd (mn_loaders var_menu))"
  by (simp add: system_once_def asking_texts pick_def var_menu_def var_loader_def hit_def same_name_def entry_id_def zero_loader_def)

lemma asking_menu:
  "mn_default_entry (system_menu same_name asking_vars var_menu) = Some ''arch''"
  "mn_timeout (system_menu same_name asking_vars var_menu) = 0"
  "mn_disabled (system_menu same_name asking_vars var_menu)"
proof -
  have c: "system_choice same_name asking_vars var_menu = Some (hd (mn_loaders var_menu))"
    using asking_once choice_once unfolding system_once_def system_choice_def by blast
  have t: "system_timeout asking_vars ''LoaderConfigTimeoutOneShot'' = None" "system_timeout asking_vars ''LoaderConfigTimeout'' = Some (0, True)"
    by (simp_all add: system_timeout_def asking_texts parse_timeout_def strcasecmp_0_iff cstr_def tolower_def isupper_def cval_def char_of_def)
  show "mn_default_entry (system_menu same_name asking_vars var_menu) = Some ''arch''"
    "mn_timeout (system_menu same_name asking_vars var_menu) = 0" "mn_disabled (system_menu same_name asking_vars var_menu)"
    by (simp_all add: system_menu_def c t with_entry_def with_timeout_def with_oneshot_def var_loaders zero_loader_def)
qed

lemma asking_export: "\<exists>status s'. sdboot_export_entries map_vars asking = (status, s') \<and> \<not> EFI_ERROR status"
proof -
  let ?ids = "first_ids [] (mn_loaders var_menu)" and ?n = "''LoaderEntries''"
  have i: "?ids \<noteq> []" by (simp add: var_menu_def var_loader_def zero_loader_def seen_def)
  obtain s1 where l: "export_loop [] (mn_loaders var_menu) [] asking = (Some (ids_bytes ?ids), s1)" "ticked asking s1"
    using export_loop_ids [OF asking(1) asking_ids(1), of "[]" "[]"] asking_ids(2) by auto
  obtain u s2 where t: "to_utf16 ?n (sv_g s1, sv_w s1) = (u, s2)" by (metis prod.exhaust)
  obtain g w where s2: "s2 = (g, w)" by (cases s2)
  have n: "short ?n" by (simp add: short_def SIZE_MAX_def)
  from to_utf16_result [OF t [unfolded s2]] ticked_calm [OF l(2)] n have u: "u = Some (wide ?n)" by blast
  have len: "length (ids_bytes ?ids) < 9223372036854775808" using asking_length by simp
  have "on_vars (efivar_set_raw map_vars gLoaderGuid ?n (ids_bytes ?ids) 0) s1 =
      (EFI_SUCCESS, s1\<lparr>sv_g := g, sv_w := w((gLoaderGuid, wide ?n) \<mapsto> ids_bytes ?ids)\<rparr>)"
    using t s2 u len i by (simp add: on_vars_def efivar_set_raw_def map_vars_def ids_bytes_empty)
  then have "sdboot_export_entries map_vars asking = (EFI_SUCCESS, s1\<lparr>sv_g := g, sv_w := w((gLoaderGuid, wide ?n) \<mapsto> ids_bytes ?ids)\<rparr>)"
    using l(1) i asking(2) by (simp add: sdboot_export_entries_def ids_bytes_empty)
  then show ?thesis by (auto simp: EFI_ERROR_def)
qed

end
