(* ===== verification/Smbios.thy ===== *)
theory Smbios
  imports ConfigValue StrUtils
begin

text \<open>
  \<open>src/smbios/base.c\<close> and \<open>config.c\<close>: finding the SMBIOS table, walking its records, and storing what they
  hold in the configuration. The memory the firmware maps, its list of configuration tables, and the
  layout of the tables (declared in the SMBIOS headers, outside the repository) are parameters; the
  four-byte header of a record is the one of the SMBIOS standard.
\<close>

section \<open>The firmware's side\<close>

text \<open>Bytes by address; \<open>None\<close> is memory that must not be read.\<close>

type_synonym memory = "addr \<Rightarrow> char option"

record smbios2_entry =
  e2_AnchorString :: cstring
  e2_EntryPointLength :: nat
  e2_MajorVersion :: nat
  e2_MinorVersion :: nat
  e2_IntermediateAnchorString :: cstring
  e2_TableLength :: nat
  e2_TableAddress :: nat
  e2_raw :: cstring

record smbios3_entry =
  e3_AnchorString :: cstring
  e3_EntryPointLength :: nat
  e3_MajorVersion :: nat
  e3_MinorVersion :: nat
  e3_TableMaximumSize :: nat
  e3_TableAddress :: nat
  e3_raw :: cstring

text \<open>
  The configuration tables are pairs of an identifier and an address; \<open>se_entry2\<close> and \<open>se_entry3\<close> read
  an entry point there. \<open>se_field\<close> is the field of a packed structure in the given bytes, \<open>se_offset\<close> and
  \<open>se_sizeof\<close> are the C operators, \<open>se_checksum\<close> and \<open>se_guid_text\<close> the library's checksum and printed
  identifier.
\<close>

record smbios_env =
  se_mem :: memory
  se_tables :: "(cstring \<times> addr) list"
  se_guid2 :: cstring
  se_guid3 :: cstring
  se_anchor2 :: cstring
  se_anchor3 :: cstring
  se_entry2 :: "addr \<Rightarrow> smbios2_entry"
  se_entry3 :: "addr \<Rightarrow> smbios3_entry"
  se_sizeof :: "cstring \<Rightarrow> nat"
  se_offset :: "cstring \<Rightarrow> cstring \<Rightarrow> nat"
  se_field :: "cstring \<Rightarrow> cstring \<Rightarrow> cstring \<Rightarrow> int"
  se_checksum :: "cstring \<Rightarrow> nat"
  se_guid_text :: "cstring \<Rightarrow> cstring"

text \<open>A pointer to a record: \<open>NULL\<close>, an address in the table, or the padded copy of a record.\<close>

datatype sm_ptr = SmNil | SmAt addr | SmCopy cstring

record embloader_smbios =
  sm_major :: nat
  sm_minor :: nat
  sm_version :: nat
  sm_config_error :: bool
  sm_smbios2 :: bool
  sm_smbios3 :: bool
  sm_table_start :: nat
  sm_table_end :: nat
  sm_active_record :: sm_ptr
  sm_active_copy :: sm_ptr

definition zero_smbios :: embloader_smbios where
  "zero_smbios = \<lparr>sm_major = 0, sm_minor = 0, sm_version = 0, sm_config_error = False, sm_smbios2 = False,
     sm_smbios3 = False, sm_table_start = 0, sm_table_end = 0, sm_active_record = SmNil, sm_active_copy = SmNil\<rparr>"

definition SMBIOS_VER :: "nat \<Rightarrow> nat \<Rightarrow> nat" where
  "SMBIOS_VER major minor = major * 65536 + minor"

section \<open>Entry points\<close>

definition check_smbios2 :: "smbios_env \<Rightarrow> smbios2_entry \<Rightarrow> bool" where
  "check_smbios2 E e =
     (let len = e2_EntryPointLength e; xs = se_offset E ''SMBIOS_TABLE_ENTRY_POINT'' ''IntermediateAnchorString'' in
      if e2_AnchorString e \<noteq> se_anchor2 E then False
      else if len \<noteq> 0x1E \<and> len \<noteq> se_sizeof E ''SMBIOS_TABLE_ENTRY_POINT'' then False
      else if e2_MajorVersion e < 2 then False
      else if e2_IntermediateAnchorString e \<noteq> ''_DMI_'' then False
      else if se_checksum E (take len (e2_raw e)) \<noteq> 0 then False
      else if se_checksum E (take (len - xs) (drop xs (e2_raw e))) \<noteq> 0 then False
      else True)"

definition check_smbios3 :: "smbios_env \<Rightarrow> smbios3_entry \<Rightarrow> bool" where
  "check_smbios3 E e =
     (let len = e3_EntryPointLength e in
      if e3_AnchorString e \<noteq> se_anchor3 E then False
      else if len \<noteq> se_sizeof E ''SMBIOS_TABLE_3_0_ENTRY_POINT'' then False
      else if e3_MajorVersion e < 3 then False
      else if se_checksum E (take len (e3_raw e)) \<noteq> 0 then False
      else True)"

text \<open>\<open>sizeof(SMBIOS_STRUCTURE)\<close>\<close>

definition sm_header :: nat where
  "sm_header = 4"

definition smbios_set_range :: "nat \<Rightarrow> nat \<Rightarrow> embloader_smbios \<Rightarrow> bool \<times> embloader_smbios" where
  "smbios_set_range address sz ctx =
     (if address = 0 \<or> sz < sm_header \<or> address > SIZE_MAX \<or> sz > SIZE_MAX - address then (False, ctx)
      else (True, ctx\<lparr>sm_table_start := address, sm_table_end := address + sz\<rparr>))"

text \<open>The last table with the identifier.\<close>

definition find_table :: "cstring \<Rightarrow> (cstring \<times> addr) list \<Rightarrow> addr" where
  "find_table guid tables = fold (\<lambda>(g, t) acc. if g = guid then t else acc) tables 0"

definition use_smbios2 :: "smbios_env \<Rightarrow> addr \<Rightarrow> embloader_smbios \<Rightarrow> embloader_smbios" where
  "use_smbios2 E a ctx =
     (let e = se_entry2 E a in
      if a \<noteq> 0 \<and> check_smbios2 E e then
        (let (ok, ctx) = smbios_set_range (e2_TableAddress e) (e2_TableLength e) ctx
         in if ok then ctx\<lparr>sm_smbios2 := True, sm_major := e2_MajorVersion e, sm_minor := e2_MinorVersion e\<rparr> else ctx)
      else ctx)"

definition use_smbios3 :: "smbios_env \<Rightarrow> addr \<Rightarrow> embloader_smbios \<Rightarrow> embloader_smbios" where
  "use_smbios3 E a ctx =
     (let e = se_entry3 E a in
      if a \<noteq> 0 \<and> check_smbios3 E e then
        (let (ok, ctx) = smbios_set_range (e3_TableAddress e) (e3_TableMaximumSize e) ctx
         in if ok then ctx\<lparr>sm_smbios3 := True, sm_major := e3_MajorVersion e, sm_minor := e3_MinorVersion e\<rparr> else ctx)
      else ctx)"

definition embloader_init_info_smbios :: "smbios_env \<Rightarrow> embloader_smbios \<Rightarrow> embloader_smbios" where
  "embloader_init_info_smbios E ctx =
     (let ctx = zero_smbios\<lparr>sm_config_error := sm_config_error ctx\<rparr>;
          ctx = use_smbios2 E (find_table (se_guid2 E) (se_tables E)) ctx;
          ctx = use_smbios3 E (find_table (se_guid3 E) (se_tables E)) ctx
      in ctx\<lparr>sm_version := SMBIOS_VER (sm_major ctx) (sm_minor ctx)\<rparr>)"

section \<open>Records\<close>

definition smbios_get_range :: "embloader_smbios \<Rightarrow> (nat \<times> nat) option" where
  "smbios_get_range ctx =
     (let start = sm_table_start ctx; fin = sm_table_end ctx in
      if start = 0 \<or> start \<ge> fin \<or> fin - start < sm_header then None else Some (start, fin))"

text \<open>The bytes of a stretch of memory, and the first NUL in it.\<close>

fun rd_bytes :: "memory \<Rightarrow> addr \<Rightarrow> nat \<Rightarrow> cstring option" where
  "rd_bytes m a 0 = Some []"
| "rd_bytes m a (Suc n) = do { c \<leftarrow> m a; r \<leftarrow> rd_bytes m (Suc a) n; Some (c # r) }"

fun memchr0 :: "memory \<Rightarrow> addr \<Rightarrow> nat \<Rightarrow> addr option option" where
  "memchr0 m a 0 = Some None"
| "memchr0 m a (Suc n) = do { c \<leftarrow> m a; if c = NUL then Some (Some a) else memchr0 m (Suc a) n }"

definition rd_u8 :: "memory \<Rightarrow> addr \<Rightarrow> nat option" where
  "rd_u8 m a = map_option cval (m a)"

definition hdr_type :: "memory \<Rightarrow> addr \<Rightarrow> nat option" where
  "hdr_type m a = rd_u8 m a"

definition hdr_length :: "memory \<Rightarrow> addr \<Rightarrow> nat option" where
  "hdr_length m a = rd_u8 m (a + 1)"

definition hdr_handle :: "memory \<Rightarrow> addr \<Rightarrow> nat option" where
  "hdr_handle m a = do { lo \<leftarrow> rd_u8 m (a + 2); hi \<leftarrow> rd_u8 m (a + 3); Some (lo + 256 * hi) }"

lemma memchr0_range: "memchr0 m a n = Some (Some b) \<Longrightarrow> a \<le> b \<and> b < a + n"
  by (induction m a n rule: memchr0.induct) (fastforce simp: bind_eq_Some_conv split: if_splits)+

text \<open>Behind the strings of a record: the address after the double NUL, \<open>Some None\<close> without one.\<close>

function strings_end :: "memory \<Rightarrow> addr \<Rightarrow> addr \<Rightarrow> addr option option" where
  "strings_end m str fin =
     (if str < fin then do {
        nul \<leftarrow> memchr0 m str (fin - str);
        (case nul of
           None \<Rightarrow> Some None
         | Some z \<Rightarrow>
             if z \<ge> fin - 1 then Some None
             else do { c \<leftarrow> m (z + 1); if c = NUL then Some (Some (z + 2)) else strings_end m (z + 1) fin })
      }
      else Some None)"
  by pat_completeness auto
termination
proof (relation "measure (\<lambda>(m, str, fin). fin - str)", goal_cases)
  case (2 m str fin nul z c)
  then show ?case using memchr0_range [of m str "fin - str" z] by auto
qed simp

declare strings_end.simps [simp del]

definition smbios_structure_end :: "memory \<Rightarrow> embloader_smbios \<Rightarrow> addr \<Rightarrow> addr option option" where
  "smbios_structure_end m ctx raw =
     (if raw = 0 then Some None
      else case smbios_get_range ctx of
        None \<Rightarrow> Some None
      | Some (start, fin) \<Rightarrow>
          if raw < start \<or> raw \<ge> fin then Some None
          else if fin - raw < sm_header then Some None
          else do {
            len \<leftarrow> hdr_length m raw;
            (if len < sm_header \<or> len > fin - raw then Some None
             else strings_end m (raw + len) fin)
          })"

text \<open>The record after the given one; the first one after \<open>NULL\<close>.\<close>

definition smbios_walk :: "memory \<Rightarrow> embloader_smbios \<Rightarrow> addr \<Rightarrow> addr option option" where
  "smbios_walk m ctx p =
     (case smbios_get_range ctx of
        None \<Rightarrow> Some None
      | Some (start, fin) \<Rightarrow> do {
          raw \<leftarrow> (if p = 0 then Some (Some start)
                 else do {
                   nxt \<leftarrow> smbios_structure_end m ctx p;
                   (case nxt of
                      None \<Rightarrow> Some None
                    | Some r \<Rightarrow> do {
                        ty \<leftarrow> hdr_type m p;
                        (if ty = 127 \<or> r \<ge> fin then Some None else Some (Some r))
                      })
                 });
          (case raw of
             None \<Rightarrow> Some None
           | Some r \<Rightarrow> do {
               last \<leftarrow> smbios_structure_end m ctx r;
               Some (if last = None then None else Some r)
             })
        })"

lemma strings_end_range: "strings_end m str fin = Some (Some r) \<Longrightarrow> str + 2 \<le> r \<and> r \<le> fin"
proof (induction m str fin rule: strings_end.induct)
  case (1 m str fin)
  from "1.prems" obtain z c where z: "str < fin" "memchr0 m str (fin - str) = Some (Some z)" "z < fin - 1"
      "m (z + 1) = Some c" "(if c = NUL then Some (Some (z + 2)) else strings_end m (z + 1) fin) = Some (Some r)"
    by (subst (asm) strings_end.simps) (auto simp: bind_eq_Some_conv split: if_splits option.splits)
  from memchr0_range [OF z(2)] z(1) have "str \<le> z" "z < fin" by auto
  with z "1.IH" [of _ z c] show ?case by (fastforce split: if_splits)
qed

lemma structure_end_range:
  assumes "smbios_structure_end m ctx raw = Some (Some r)"
  shows "0 < raw \<and> sm_table_start ctx \<le> raw \<and> raw + 6 \<le> r \<and> r \<le> sm_table_end ctx"
proof -
  from assms have raw: "raw \<noteq> 0" by (cases "raw = 0") (simp_all add: smbios_structure_end_def)
  from assms raw obtain start fin where g: "smbios_get_range ctx = Some (start, fin)"
    by (auto simp: smbios_structure_end_def split: option.splits)
  then have b: "start = sm_table_start ctx" "fin = sm_table_end ctx"
    by (auto simp: smbios_get_range_def Let_def split: if_splits)
  from assms raw g obtain len where "\<not> raw < start" "\<not> len < sm_header" "strings_end m (raw + len) fin = Some (Some r)"
    by (auto simp: smbios_structure_end_def bind_eq_Some_conv split: if_splits)
  with strings_end_range [of m "raw + len" fin r] raw b show ?thesis by (simp add: sm_header_def)
qed

lemma walk_range:
  assumes "smbios_walk m ctx p = Some (Some q)"
  shows "p < q \<and> 0 < q \<and> q < sm_table_end ctx"
proof -
  from assms obtain start fin where g: "smbios_get_range ctx = Some (start, fin)"
    by (auto simp: smbios_walk_def split: option.splits)
  then have b: "start = sm_table_start ctx" "fin = sm_table_end ctx" "0 < start"
    by (auto simp: smbios_get_range_def Let_def split: if_splits)
  from assms g obtain e where e: "smbios_structure_end m ctx q = Some (Some e)"
    and c: "p = 0 \<and> q = start \<or> (\<exists>ty. smbios_structure_end m ctx p = Some (Some q) \<and> hdr_type m p = Some ty \<and> q < fin)"
    by (auto simp: smbios_walk_def bind_eq_Some_conv split: if_splits option.splits)
  from structure_end_range [OF e] structure_end_range [of m ctx p q] c b show ?thesis by auto
qed

text \<open>The search for a record of a type after the record with a handle (\<open>0xFFFF\<close>: from the start).\<close>

function by_type_loop :: "memory \<Rightarrow> embloader_smbios \<Rightarrow> nat \<Rightarrow> nat \<Rightarrow> bool \<Rightarrow> addr \<Rightarrow> addr option option" where
  "by_type_loop m ctx ty handle past p = do {
     q \<leftarrow> smbios_walk m ctx p;
     (case q of
        None \<Rightarrow> Some None
      | Some r \<Rightarrow>
          if \<not> past then do {
            h \<leftarrow> hdr_handle m r;
            by_type_loop m ctx ty handle (h = handle) r
          }
          else do {
            t \<leftarrow> hdr_type m r;
            (if t = ty then Some (Some r) else by_type_loop m ctx ty handle past r)
          })
   }"
  by pat_completeness auto
termination
  by (relation "measure (\<lambda>(m, ctx, ty, handle, past, p). sm_table_end ctx - p)")
    (auto dest!: walk_range intro!: diff_less_mono2)

declare by_type_loop.simps [simp del]

definition embloader_get_smbios_by_type :: "memory \<Rightarrow> embloader_smbios \<Rightarrow> nat \<Rightarrow> nat \<Rightarrow> addr option option" where
  "embloader_get_smbios_by_type m ctx ty handle = by_type_loop m ctx ty handle (handle = 0xFFFF) 0"

function by_handle_loop :: "memory \<Rightarrow> embloader_smbios \<Rightarrow> nat \<Rightarrow> addr \<Rightarrow> addr option option" where
  "by_handle_loop m ctx handle p = do {
     q \<leftarrow> smbios_walk m ctx p;
     (case q of
        None \<Rightarrow> Some None
      | Some r \<Rightarrow> do {
          h \<leftarrow> hdr_handle m r;
          (if h = handle then Some (Some r) else by_handle_loop m ctx handle r)
        })
   }"
  by pat_completeness auto
termination
  by (relation "measure (\<lambda>(m, ctx, handle, p). sm_table_end ctx - p)")
    (auto dest!: walk_range intro!: diff_less_mono2)

declare by_handle_loop.simps [simp del]

definition embloader_get_smbios_by_handle :: "memory \<Rightarrow> embloader_smbios \<Rightarrow> nat \<Rightarrow> addr option option" where
  "embloader_get_smbios_by_handle m ctx handle = by_handle_loop m ctx handle 0"

section \<open>Strings\<close>

function string_loop :: "memory \<Rightarrow> addr \<Rightarrow> addr \<Rightarrow> nat \<Rightarrow> nat \<Rightarrow> cstring option option" where
  "string_loop m str fin cur i =
     (if \<not> str < fin then Some None
      else do {
        c \<leftarrow> m str;
        (if c = NUL then Some None
         else do {
           nul \<leftarrow> memchr0 m str (fin - str);
           (case nul of
              None \<Rightarrow> Some None
            | Some z \<Rightarrow>
                if cur = i then map_option Some (rd_bytes m str (z - str))
                else string_loop m (z + 1) fin (cur + 1) i)
         })
      })"
  by pat_completeness auto
termination
proof (relation "measure (\<lambda>(m, str, fin, cur, i). fin - str)", goal_cases)
  case (2 m str fin cur i c nul z)
  then show ?case using memchr0_range [of m str "fin - str" z] by auto
qed simp

declare string_loop.simps [simp del]

definition embloader_get_smbios_string ::
  "memory \<Rightarrow> embloader_smbios \<Rightarrow> sm_ptr \<Rightarrow> nat \<Rightarrow> cstring option option" where
  "embloader_get_smbios_string m ctx p i =
     (let p = (if p = sm_active_copy ctx then sm_active_record ctx else p) in
      if i = 0 then Some None
      else case p of
        SmAt raw \<Rightarrow> do {
          fin \<leftarrow> smbios_structure_end m ctx raw;
          (case fin of
             None \<Rightarrow> Some None
           | Some e \<Rightarrow> do {
               ty \<leftarrow> hdr_type m raw;
               (if ty = 127 then Some None
                else do { len \<leftarrow> hdr_length m raw; string_loop m (raw + len) e 1 i })
             })
        }
      | _ \<Rightarrow> Some None)"

text \<open>
  The text of a buffer of \<open>sz\<close> bytes and whether it was filled; names the vendor left open are not
  taken.
\<close>

definition embloader_load_smbios_string ::
  "memory \<Rightarrow> embloader_smbios \<Rightarrow> sm_ptr \<Rightarrow> nat \<Rightarrow> nat \<Rightarrow> (bool \<times> cstring) option" where
  "embloader_load_smbios_string m ctx p i sz =
     (if sz = 0 then Some (False, [])
      else do {
        v \<leftarrow> embloader_get_smbios_string m ctx p i;
        (case v of
           None \<Rightarrow> Some (False, [])
         | Some t \<Rightarrow>
             if t = [] \<or> strcasestr t ''unknown'' \<or> strcasestr t ''to be filled by'' then Some (False, [])
             else Some (True, trim (take (sz - 1) t)))
      })"

end
