(* ===== verification/SmbiosTable.thy ===== *)
theory SmbiosTable
  imports Smbios
begin

text \<open>
  \<open>src/smbios/config.c\<close> and the end of \<open>base.c\<close>: the guarded writes of the SMBIOS loaders, and the loop
  that turns every record of a type into a map of the configuration. After the first failed write
  \<open>sm_config_error\<close> is set and nothing more is written.
\<close>

section \<open>Guarded writes\<close>

record smbios_state =
  ss_ctx :: embloader_smbios
  ss_cs :: cstate

type_synonym 'a sm_result = "('a \<times> smbios_state) option"

definition embloader_smbios_config_result :: "embloader_smbios \<Rightarrow> bool \<Rightarrow> embloader_smbios" where
  "embloader_smbios_config_result ctx ok = (if ok then ctx else ctx\<lparr>sm_config_error := True\<rparr>)"

text \<open>A write that is skipped after an error, and recorded when it fails.\<close>

definition sm_guarded :: "(cstate \<Rightarrow> (bool \<times> cstate) option) \<Rightarrow> smbios_state \<Rightarrow> bool sm_result" where
  "sm_guarded f st =
     (if sm_config_error (ss_ctx st) then Some (False, st)
      else do {
        (ok, s) \<leftarrow> f (ss_cs st);
        Some (ok, st\<lparr>ss_cs := s, ss_ctx := embloader_smbios_config_result (ss_ctx st) ok\<rparr>)
      })"

definition embloader_smbios_config_set_int :: "ptr \<Rightarrow> cstring \<Rightarrow> int \<Rightarrow> smbios_state \<Rightarrow> bool sm_result" where
  "embloader_smbios_config_set_int node path val = sm_guarded (confignode_path_set_int node (Some path) val)"

definition embloader_smbios_config_set_string :: "ptr \<Rightarrow> cstring \<Rightarrow> cstring \<Rightarrow> smbios_state \<Rightarrow> bool sm_result" where
  "embloader_smbios_config_set_string node path val =
     sm_guarded (confignode_path_set_string node (Some path) (Some val))"

definition embloader_smbios_config_set_bool :: "ptr \<Rightarrow> cstring \<Rightarrow> bool \<Rightarrow> smbios_state \<Rightarrow> bool sm_result" where
  "embloader_smbios_config_set_bool node path val = sm_guarded (confignode_path_set_bool node (Some path) val)"

text \<open>\<open>txt\<close> is the formatted text, which is allocated first.\<close>

definition embloader_smbios_config_set_string_fmt ::
  "ptr \<Rightarrow> cstring \<Rightarrow> cstring \<Rightarrow> smbios_state \<Rightarrow> bool sm_result" where
  "embloader_smbios_config_set_string_fmt node path txt =
     sm_guarded (\<lambda>s. let (ok, s) = alloc s
                     in if ok then confignode_path_set_string node (Some path) (Some txt) s else Some (False, s))"

text \<open>Hanging a new node into the tree; when that fails the node is freed.\<close>

definition sm_hang :: "(cstate \<Rightarrow> (bool \<times> cstate) option) \<Rightarrow> ptr \<Rightarrow> smbios_state \<Rightarrow> bool sm_result" where
  "sm_hang f sub st = do {
     (ok, s) \<leftarrow> (if \<not> sm_config_error (ss_ctx st) \<and> sub \<noteq> None then f (ss_cs st) else Some (False, ss_cs st));
     (if ok then Some (True, st\<lparr>ss_cs := s\<rparr>)
      else do {
        s \<leftarrow> (case sub of None \<Rightarrow> Some s | Some n \<Rightarrow> confignode_clean n s);
        Some (False, st\<lparr>ss_cs := s, ss_ctx := (ss_ctx st)\<lparr>sm_config_error := True\<rparr>\<rparr>)
      })
   }"

definition embloader_smbios_config_attach :: "ptr \<Rightarrow> cstring \<Rightarrow> ptr \<Rightarrow> smbios_state \<Rightarrow> bool sm_result" where
  "embloader_smbios_config_attach node path sub = sm_hang (confignode_path_map_set node (Some path) sub) sub"

definition embloader_smbios_config_append :: "ptr \<Rightarrow> ptr \<Rightarrow> smbios_state \<Rightarrow> bool sm_result" where
  "embloader_smbios_config_append array sub = sm_hang (confignode_array_append array sub) sub"

definition embloader_smbios_set_config_string ::
  "memory \<Rightarrow> sm_ptr \<Rightarrow> ptr \<Rightarrow> cstring \<Rightarrow> nat \<Rightarrow> smbios_state \<Rightarrow> bool sm_result" where
  "embloader_smbios_set_config_string m p node path i st =
     (if sm_config_error (ss_ctx st) then Some (False, st)
      else do {
        (_, buff) \<leftarrow> embloader_load_smbios_string m (ss_ctx st) p i 256;
        embloader_smbios_config_set_string node path buff st
      })"

text \<open>
  The identifier at an offset of the copied record, when it lies inside the record; \<open>print\<close> is the
  library's \<open>%g\<close>.
\<close>

definition embloader_smbios_set_config_guid ::
  "(cstring \<Rightarrow> cstring) \<Rightarrow> cstring \<Rightarrow> ptr \<Rightarrow> cstring \<Rightarrow> nat \<Rightarrow> smbios_state \<Rightarrow> bool sm_result" where
  "embloader_smbios_set_config_guid print copy node path offset st =
     (let len = cval (copy ! 1) in
      if sm_config_error (ss_ctx st) then Some (False, st)
      else if offset > len \<or> len - offset < 16 then Some (False, st)
      else embloader_smbios_config_set_string node path (take 255 (print (take 16 (drop offset copy)))) st)"

section \<open>Sequences of writes\<close>

type_synonym sm_op = "smbios_state \<Rightarrow> smbios_state option"

fun sm_run :: "sm_op list \<Rightarrow> sm_op" where
  "sm_run [] st = Some st"
| "sm_run (f # fs) st = do { st \<leftarrow> f st; sm_run fs st }"

abbreviation sm_void :: "(smbios_state \<Rightarrow> bool sm_result) \<Rightarrow> sm_op" where
  "sm_void f \<equiv> \<lambda>st. map_option snd (f st)"

text \<open>The conversion of an unsigned 64-bit value to \<open>int64_t\<close>.\<close>

definition to_int64 :: "int \<Rightarrow> int" where
  "to_int64 v = (v + 2 ^ 63) mod 2 ^ 64 - 2 ^ 63"

definition set_int :: "ptr \<Rightarrow> cstring \<Rightarrow> int \<Rightarrow> sm_op" where
  "set_int node path v = sm_void (embloader_smbios_config_set_int node path (to_int64 v))"

definition set_bool :: "ptr \<Rightarrow> cstring \<Rightarrow> int \<Rightarrow> sm_op" where
  "set_bool node path v = sm_void (embloader_smbios_config_set_bool node path (v \<noteq> 0))"

definition set_text :: "ptr \<Rightarrow> cstring \<Rightarrow> cstring \<Rightarrow> sm_op" where
  "set_text node path v = sm_void (embloader_smbios_config_set_string node path v)"

definition set_name :: "smbios_env \<Rightarrow> cstring \<Rightarrow> ptr \<Rightarrow> cstring \<Rightarrow> int \<Rightarrow> sm_op" where
  "set_name E copy node path i =
     sm_void (embloader_smbios_set_config_string (se_mem E) (SmCopy copy) node path (nat i))"

text \<open>A new map or array under a path, and a new map at the end of an array, with what is written next.\<close>

definition with_map :: "ptr \<Rightarrow> cstring \<Rightarrow> (ptr \<Rightarrow> sm_op list) \<Rightarrow> sm_op" where
  "with_map node path f st = do {
     (n, s) \<leftarrow> confignode_new_map (ss_cs st);
     (_, st) \<leftarrow> embloader_smbios_config_attach node path n (st\<lparr>ss_cs := s\<rparr>);
     sm_run (f n) st
   }"

definition with_array :: "ptr \<Rightarrow> cstring \<Rightarrow> (ptr \<Rightarrow> sm_op list) \<Rightarrow> sm_op" where
  "with_array node path f st = do {
     (n, s) \<leftarrow> confignode_new_array (ss_cs st);
     (_, st) \<leftarrow> embloader_smbios_config_attach node path n (st\<lparr>ss_cs := s\<rparr>);
     sm_run (f n) st
   }"

definition with_item :: "ptr \<Rightarrow> (ptr \<Rightarrow> sm_op list) \<Rightarrow> sm_op" where
  "with_item array f st = do {
     (n, s) \<leftarrow> confignode_new_map (ss_cs st);
     (_, st) \<leftarrow> embloader_smbios_config_append array n (st\<lparr>ss_cs := s\<rparr>);
     sm_run (f n) st
   }"

text \<open>Fields that exist from a version of the standard on.\<close>

definition if_ver :: "nat \<Rightarrow> nat \<Rightarrow> bool \<Rightarrow> sm_op list \<Rightarrow> sm_op list \<Rightarrow> sm_op" where
  "if_ver major minor cond ops other st =
     (if sm_version (ss_ctx st) \<ge> SMBIOS_VER major minor \<and> cond then sm_run ops st else sm_run other st)"

definition from_ver :: "nat \<Rightarrow> nat \<Rightarrow> sm_op list \<Rightarrow> sm_op" where
  "from_ver major minor ops = if_ver major minor True ops []"

section \<open>All records of a type\<close>

type_synonym sm_loader = "smbios_env \<Rightarrow> ptr \<Rightarrow> cstring \<Rightarrow> sm_op"

text \<open>The first unused name with a number, and the next number.\<close>

partial_function (option) free_name_loop ::
  "ptr \<Rightarrow> cstring \<Rightarrow> int \<Rightarrow> cstate \<Rightarrow> ((cstring \<times> int) \<times> cstate) option" where
  "free_name_loop root name i s =
     (let buff = take 63 (name @ int_dec i) in do {
        (found, s) \<leftarrow> confignode_path_lookup root (Some buff) False s;
        (if found = None then Some ((buff, i + 1), s) else free_name_loop root name (i + 1) s)
      })"

definition sm_pad :: "cstring \<Rightarrow> cstring" where
  "sm_pad raw = raw @ replicate (256 - length raw) NUL"

text \<open>What \<open>load\<close> stores from a padded copy of the record, unless an error came before.\<close>

definition load_formatted :: "smbios_env \<Rightarrow> sm_loader \<Rightarrow> addr \<Rightarrow> nat \<Rightarrow> ptr \<Rightarrow> sm_op" where
  "load_formatted E load rec len node st =
     (if sm_config_error (ss_ctx st) then Some st
      else do {
        raw \<leftarrow> rd_bytes (se_mem E) rec len;
        (let copy = sm_pad raw in do {
           st \<leftarrow> load E node copy
             (st\<lparr>ss_ctx := (ss_ctx st)\<lparr>sm_active_record := SmAt rec, sm_active_copy := SmCopy copy\<rparr>\<rparr>);
           Some (st\<lparr>ss_ctx := (ss_ctx st)\<lparr>sm_active_record := SmNil, sm_active_copy := SmNil\<rparr>\<rparr>)
         })
      })"

text \<open>One record: its header and its fields, in the map \<open>node\<close>.\<close>

definition load_record :: "smbios_env \<Rightarrow> sm_loader \<Rightarrow> addr \<Rightarrow> ptr \<Rightarrow> sm_op" where
  "load_record E load rec node st = do {
     ty \<leftarrow> hdr_type (se_mem E) rec;
     len \<leftarrow> hdr_length (se_mem E) rec;
     handle \<leftarrow> hdr_handle (se_mem E) rec;
     st \<leftarrow> with_map node ''header'' (\<lambda>hm. [
       set_int hm ''type'' (int ty),
       set_int hm ''length'' (int len),
       set_int hm ''handle'' (int handle)]) st;
     load_formatted E load rec len node st
   }"

partial_function (option) load_table_loop ::
  "smbios_env \<Rightarrow> ptr \<Rightarrow> nat \<Rightarrow> cstring \<Rightarrow> sm_loader \<Rightarrow> nat \<Rightarrow> int \<Rightarrow> smbios_state \<Rightarrow> bool sm_result" where
  "load_table_loop E root ty name load handle i st = do {
     rec \<leftarrow> embloader_get_smbios_by_type (se_mem E) (ss_ctx st) ty handle;
     (case rec of
        None \<Rightarrow> Some (True, st)
      | Some r \<Rightarrow> do {
          (node, s) \<leftarrow> confignode_new_map (ss_cs st);
          (let st = st\<lparr>ss_ctx := (ss_ctx st)\<lparr>sm_config_error := False\<rparr>, ss_cs := s\<rparr> in
           if node = None then Some (False, st)
           else do {
             ((buff, i), s) \<leftarrow> free_name_loop root name i (ss_cs st);
             st \<leftarrow> load_record E load r node (st\<lparr>ss_cs := s\<rparr>);
             (if sm_config_error (ss_ctx st)
              then do { s \<leftarrow> confignode_clean (the node) (ss_cs st); Some (False, st\<lparr>ss_cs := s\<rparr>) }
              else do {
                (ok, st) \<leftarrow> embloader_smbios_config_attach root buff node st;
                (if \<not> ok then Some (False, st)
                 else do {
                   h \<leftarrow> hdr_handle (se_mem E) r;
                   load_table_loop E root ty name load h i st
                 })
              })
           })
        })
   }"

definition embloader_smbios_load_table ::
  "smbios_env \<Rightarrow> ptr \<Rightarrow> nat \<Rightarrow> cstring \<Rightarrow> sm_loader \<Rightarrow> smbios_state \<Rightarrow> bool sm_result" where
  "embloader_smbios_load_table E root ty name load st =
     (if root = None then Some (False, st) else load_table_loop E root ty name load 0xFFFF 0 st)"

end
