(* ===== verification/SmbiosFacts.thy ===== *)
theory SmbiosFacts
  imports SmbiosTable
begin

text \<open>
  Walking the SMBIOS table reads only the table, whatever bytes it holds, and finds its records in
  order; the loop over the records of a type visits each of them once if their handles differ.
\<close>

section \<open>Reads stay inside the table\<close>

definition mapped :: "memory \<Rightarrow> addr \<Rightarrow> addr \<Rightarrow> bool" where
  "mapped m a b \<longleftrightarrow> (\<forall>x. a \<le> x \<and> x < b \<longrightarrow> m x \<noteq> None)"

lemma mapped_at: "mapped m a b \<Longrightarrow> a \<le> x \<Longrightarrow> x < b \<Longrightarrow> \<exists>c. m x = Some c"
  by (auto simp: mapped_def)

lemma mapped_u8: "mapped m a b \<Longrightarrow> a \<le> x \<Longrightarrow> x < b \<Longrightarrow> \<exists>v. rd_u8 m x = Some v"
  by (auto simp: rd_u8_def dest: mapped_at)

lemma memchr0_total: "mapped m a b \<Longrightarrow> a \<le> x \<Longrightarrow> x + n \<le> b \<Longrightarrow> \<exists>r. memchr0 m x n = Some r"
proof (induction n arbitrary: x)
  case (Suc n)
  then obtain c where "m x = Some c" using mapped_at [of m a b x] by auto
  with Suc.IH [of "Suc x"] Suc.prems show ?case by auto
qed simp

lemma rd_bytes_total: "mapped m a b \<Longrightarrow> a \<le> x \<Longrightarrow> x + n \<le> b \<Longrightarrow> \<exists>r. rd_bytes m x n = Some r"
proof (induction n arbitrary: x)
  case (Suc n)
  then obtain c where "m x = Some c" using mapped_at [of m a b x] by auto
  with Suc.IH [of "Suc x"] Suc.prems show ?case by auto
qed simp

lemma strings_end_total: "mapped m a fin \<Longrightarrow> a \<le> str \<Longrightarrow> \<exists>r. strings_end m str fin = Some r"
proof (induction m str fin rule: strings_end.induct)
  case (1 m str fin)
  show ?case
  proof (cases "str < fin")
    case False
    then show ?thesis by (simp add: strings_end.simps)
  next
    case True
    from memchr0_total [OF "1.prems", of "fin - str"] True obtain nul where n: "memchr0 m str (fin - str) = Some nul" by auto
    show ?thesis
    proof (cases nul)
      case None
      with True n show ?thesis by (simp add: strings_end.simps [of m str fin])
    next
      case (Some z)
      with memchr0_range [of m str "fin - str" z] n True have z: "str \<le> z" "z < fin" by auto
      show ?thesis
      proof (cases "z \<ge> fin - 1")
        case True
        with \<open>str < fin\<close> n Some show ?thesis by (simp add: strings_end.simps [of m str fin])
      next
        case False
        then have "z + 1 < fin" using z by linarith
        then obtain c where c: "m (z + 1) = Some c" using mapped_at [OF "1.prems"(1), of "z + 1"] z "1.prems"(2) by auto
        have "c \<noteq> NUL \<Longrightarrow> \<exists>r. strings_end m (z + 1) fin = Some r"
          using "1.IH" [OF True n Some False c] "1.prems" z by simp
        with True n Some False c show ?thesis by (cases "c = NUL") (simp_all add: strings_end.simps [of m str fin])
      qed
    qed
  qed
qed

text \<open>The table of the context is mapped.\<close>

abbreviation table_mapped :: "memory \<Rightarrow> embloader_smbios \<Rightarrow> bool" where
  "table_mapped m ctx \<equiv> mapped m (sm_table_start ctx) (sm_table_end ctx)"

lemma get_range: "smbios_get_range ctx = Some (start, fin) \<Longrightarrow>
    start = sm_table_start ctx \<and> fin = sm_table_end ctx \<and> 0 < start \<and> start < fin"
  by (auto simp: smbios_get_range_def Let_def split: if_splits)

lemma structure_end_total:
  assumes "table_mapped m ctx" shows "\<exists>r. smbios_structure_end m ctx raw = Some r"
proof (cases "smbios_get_range ctx")
  case None
  then show ?thesis by (simp add: smbios_structure_end_def)
next
  case (Some sf)
  obtain start fin where sf: "sf = (start, fin)" by fastforce
  note g = get_range [OF Some [unfolded sf]]
  show ?thesis
  proof (cases "raw = 0 \<or> raw < start \<or> raw \<ge> fin \<or> fin - raw < sm_header")
    case True
    with Some sf show ?thesis by (auto simp: smbios_structure_end_def)
  next
    case False
    then have "sm_table_start ctx \<le> raw + 1" "raw + 1 < sm_table_end ctx" using g by (auto simp: sm_header_def)
    with mapped_u8 [OF assms] obtain len where len: "hdr_length m raw = Some len" unfolding hdr_length_def by blast
    have "mapped m start fin" using assms g by simp
    from strings_end_total [OF this, of "raw + len"] False obtain r where "strings_end m (raw + len) fin = Some r" by auto
    with Some sf False len show ?thesis by (simp add: smbios_structure_end_def)
  qed
qed

lemma header_total:
  assumes "table_mapped m ctx" "smbios_structure_end m ctx raw = Some (Some r)"
  shows "(\<exists>t. hdr_type m raw = Some t) \<and> (\<exists>l. hdr_length m raw = Some l) \<and> (\<exists>h. hdr_handle m raw = Some h)"
proof -
  note r = structure_end_range [OF assms(2)]
  obtain a b c d where "rd_u8 m raw = Some a" "rd_u8 m (raw + 1) = Some b" "rd_u8 m (raw + 2) = Some c" "rd_u8 m (raw + 3) = Some d"
    using mapped_u8 [OF assms(1), of raw] mapped_u8 [OF assms(1), of "raw + 1"] mapped_u8 [OF assms(1), of "raw + 2"]
      mapped_u8 [OF assms(1), of "raw + 3"] r by auto
  then show ?thesis by (simp add: hdr_type_def hdr_length_def hdr_handle_def)
qed

lemma walk_record: "smbios_walk m ctx p = Some (Some q) \<Longrightarrow> \<exists>e. smbios_structure_end m ctx q = Some (Some e)"
  by (auto simp: smbios_walk_def bind_eq_Some_conv split: option.splits if_splits prod.splits)

lemma walk_total:
  assumes "table_mapped m ctx" shows "\<exists>r. smbios_walk m ctx p = Some r"
proof (cases "smbios_get_range ctx")
  case None
  then show ?thesis by (simp add: smbios_walk_def)
next
  case (Some sf)
  obtain start fin where sf: "sf = (start, fin)" by fastforce
  have e: "\<exists>r. smbios_structure_end m ctx a = Some r" for a by (rule structure_end_total [OF assms])
  have "\<exists>raw. (if p = 0 then Some (Some start)
                 else do {
                   nxt \<leftarrow> smbios_structure_end m ctx p;
                   (case nxt of
                      None \<Rightarrow> Some None
                    | Some r \<Rightarrow> do {
                        ty \<leftarrow> hdr_type m p;
                        (if ty = 127 \<or> r \<ge> fin then Some None else Some (Some r))
                      })
                 }) = Some raw"
  proof (cases "p = 0")
    case False
    obtain nxt where n: "smbios_structure_end m ctx p = Some nxt" using e by blast
    show ?thesis
    proof (cases nxt)
      case (Some r)
      with header_total [OF assms, of p r] n False show ?thesis by auto
    qed (simp add: n False)
  qed simp
  then obtain raw where "smbios_walk m ctx p = (case raw of None \<Rightarrow> Some None
      | Some r \<Rightarrow> do { last \<leftarrow> smbios_structure_end m ctx r; Some (if last = None then None else Some r) })"
    using Some sf by (auto simp: smbios_walk_def)
  with e show ?thesis by (cases raw) (auto, metis bind.bind_lunit)
qed

lemma string_loop_total: "mapped m a fin \<Longrightarrow> a \<le> str \<Longrightarrow> \<exists>r. string_loop m str fin cur i = Some r"
proof (induction m str fin cur i rule: string_loop.induct)
  case (1 m str fin cur i)
  show ?case
  proof (cases "str < fin")
    case False
    then show ?thesis by (simp add: string_loop.simps)
  next
    case True
    obtain c where c: "m str = Some c" using mapped_at [OF "1.prems"(1), of str] "1.prems"(2) True by auto
    from memchr0_total [OF "1.prems", of "fin - str"] True obtain nul where n: "memchr0 m str (fin - str) = Some nul" by auto
    show ?thesis
    proof (cases nul)
      case None
      with True n c show ?thesis by (simp add: string_loop.simps [of m str fin])
    next
      case (Some z)
      with memchr0_range [of m str "fin - str" z] n True have z: "str \<le> z" "z < fin" by auto
      obtain bs where b: "rd_bytes m str (z - str) = Some bs" using rd_bytes_total [OF "1.prems", of "z - str"] z by auto
      have "c \<noteq> NUL \<Longrightarrow> cur \<noteq> i \<Longrightarrow> \<exists>r. string_loop m (z + 1) fin (cur + 1) i = Some r"
        using "1.IH" [OF _ c _ n Some] True "1.prems" z by simp
      with True n Some c b show ?thesis
        by (cases "c = NUL"; cases "cur = i") (simp_all add: string_loop.simps [of m str fin])
    qed
  qed
qed

lemma get_string_total:
  assumes "table_mapped m ctx"
  shows "\<exists>r. embloader_get_smbios_string m ctx p i = Some r"
proof -
  have "\<exists>r. (case p of SmAt raw \<Rightarrow> do {
          fin \<leftarrow> smbios_structure_end m ctx raw;
          (case fin of
             None \<Rightarrow> Some None
           | Some e \<Rightarrow> do {
               ty \<leftarrow> hdr_type m raw;
               (if ty = 127 then Some None
                else do { len \<leftarrow> hdr_length m raw; string_loop m (raw + len) e 1 i })
             })
        } | _ \<Rightarrow> Some None) = Some r" for p
  proof (cases p)
    case (SmAt raw)
    obtain fin where f: "smbios_structure_end m ctx raw = Some fin" using structure_end_total [OF assms] by blast
    show ?thesis
    proof (cases fin)
      case (Some e)
      from header_total [OF assms f [unfolded Some]] obtain t l where h: "hdr_type m raw = Some t" "hdr_length m raw = Some l" by blast
      note r = structure_end_range [OF f [unfolded Some]]
      have "mapped m (sm_table_start ctx) e" using assms r by (auto simp: mapped_def)
      from string_loop_total [OF this, of "raw + l" 1 i] r obtain s where "string_loop m (raw + l) e 1 i = Some s" by auto
      with SmAt f Some h show ?thesis by auto
    qed (simp add: SmAt f)
  qed simp_all
  then show ?thesis by (auto simp: embloader_get_smbios_string_def Let_def)
qed

section \<open>The records of the table\<close>

function records :: "memory \<Rightarrow> embloader_smbios \<Rightarrow> addr \<Rightarrow> addr list" where
  "records m ctx p =
     (case smbios_walk m ctx p of Some (Some r) \<Rightarrow> r # records m ctx r | _ \<Rightarrow> [])"
  by pat_completeness auto
termination
  by (relation "measure (\<lambda>(m, ctx, p). sm_table_end ctx - p)") (auto dest!: walk_range intro!: diff_less_mono2)

declare records.simps [simp del]

definition type_at :: "memory \<Rightarrow> addr \<Rightarrow> nat" where
  "type_at m a = the (hdr_type m a)"

definition handle_at :: "memory \<Rightarrow> addr \<Rightarrow> nat" where
  "handle_at m a = the (hdr_handle m a)"

lemma walk_header:
  assumes "table_mapped m ctx" "smbios_walk m ctx p = Some (Some q)"
  shows "hdr_type m q = Some (type_at m q) \<and> hdr_handle m q = Some (handle_at m q)"
  using header_total [OF assms(1)] walk_record [OF assms(2)] by (auto simp: type_at_def handle_at_def)

lemma walk_cases:
  assumes "table_mapped m ctx"
  obtains (last) "smbios_walk m ctx p = Some None" "records m ctx p = []"
    | (rec) r where "smbios_walk m ctx p = Some (Some r)" "records m ctx p = r # records m ctx r"
      "hdr_type m r = Some (type_at m r)" "hdr_handle m r = Some (handle_at m r)"
proof -
  obtain q where q: "smbios_walk m ctx p = Some q" using walk_total [OF assms] by blast
  show ?thesis
  proof (cases q)
    case None
    with q show ?thesis by (intro last) (simp_all add: records.simps [of m ctx p])
  next
    case (Some r)
    with q walk_header [OF assms, of p r] show ?thesis by (intro rec [of r]) (simp_all add: records.simps [of m ctx p])
  qed
qed

lemma by_type_past:
  "table_mapped m ctx \<Longrightarrow>
     by_type_loop m ctx ty handle True p = Some (find (\<lambda>r. type_at m r = ty) (records m ctx p))"
proof (induction m ctx p rule: records.induct)
  case (1 m ctx p)
  from "1.prems" show ?case
  proof (cases rule: walk_cases [of m ctx p])
    case last
    then show ?thesis by (simp add: by_type_loop.simps)
  next
    case (rec r)
    with "1.IH" [OF rec(1) refl "1.prems"] show ?thesis by (simp add: by_type_loop.simps [of m ctx ty handle True p])
  qed
qed

text \<open>The records behind the first one with the handle.\<close>

fun after_handle :: "(addr \<Rightarrow> nat) \<Rightarrow> nat \<Rightarrow> addr list \<Rightarrow> addr list" where
  "after_handle f handle [] = []"
| "after_handle f handle (r # rs) = (if f r = handle then rs else after_handle f handle rs)"

lemma by_type_after:
  "table_mapped m ctx \<Longrightarrow>
     by_type_loop m ctx ty handle False p =
       Some (find (\<lambda>r. type_at m r = ty) (after_handle (handle_at m) handle (records m ctx p)))"
proof (induction m ctx p rule: records.induct)
  case (1 m ctx p)
  from "1.prems" show ?case
  proof (cases rule: walk_cases [of m ctx p])
    case last
    then show ?thesis by (simp add: by_type_loop.simps)
  next
    case (rec r)
    with "1.IH" [OF rec(1) refl "1.prems"] by_type_past [OF "1.prems", of ty handle r] show ?thesis
      by (simp add: by_type_loop.simps [of m ctx ty handle False p])
  qed
qed

lemma get_by_type:
  assumes "table_mapped m ctx"
  shows "embloader_get_smbios_by_type m ctx ty handle =
     Some (find (\<lambda>r. type_at m r = ty)
       (if handle = 0xFFFF then records m ctx 0 else after_handle (handle_at m) handle (records m ctx 0)))"
  using by_type_past [OF assms] by_type_after [OF assms] by (simp add: embloader_get_smbios_by_type_def)

lemma get_by_handle:
  "table_mapped m ctx \<Longrightarrow> by_handle_loop m ctx handle p = Some (find (\<lambda>r. handle_at m r = handle) (records m ctx p))"
proof (induction m ctx p rule: records.induct)
  case (1 m ctx p)
  from "1.prems" show ?case
  proof (cases rule: walk_cases [of m ctx p])
    case last
    then show ?thesis by (simp add: by_handle_loop.simps)
  next
    case (rec r)
    with "1.IH" [OF rec(1) refl "1.prems"] show ?thesis by (simp add: by_handle_loop.simps [of m ctx handle p])
  qed
qed

lemma records_complete: "r \<in> set (records m ctx p) \<Longrightarrow> \<exists>e. smbios_structure_end m ctx r = Some (Some e)"
proof (induction m ctx p rule: records.induct)
  case (1 m ctx p)
  from "1.prems" have "r \<in> set (case smbios_walk m ctx p of Some (Some r) \<Rightarrow> r # records m ctx r | _ \<Rightarrow> [])"
    by (simp add: records.simps [of m ctx p])
  then obtain q where q: "smbios_walk m ctx p = Some (Some q)" "r = q \<or> r \<in> set (records m ctx q)"
    by (cases "smbios_walk m ctx p") (auto split: option.splits)
  with walk_record [OF q(1)] "1.IH" [OF q(1) refl] show ?case by auto
qed

lemma record_inside:
  assumes "table_mapped m ctx" "r \<in> set (records m ctx p)"
  shows "sm_table_start ctx \<le> r \<and> (\<exists>len e. hdr_length m r = Some len \<and> 4 \<le> len \<and>
     smbios_structure_end m ctx r = Some (Some e) \<and> r + len + 2 \<le> e \<and> e \<le> sm_table_end ctx)"
proof -
  obtain e where e: "smbios_structure_end m ctx r = Some (Some e)" using records_complete [OF assms(2)] by blast
  obtain len where len: "hdr_length m r = Some len" using header_total [OF assms(1) e] by blast
  have "4 \<le> len \<and> r + len + 2 \<le> e"
    using e len strings_end_range [of m "r + len" _ e]
    by (auto simp: smbios_structure_end_def sm_header_def split: if_splits option.splits)
  with e len structure_end_range [OF e] show ?thesis by blast
qed

lemma after_handle_subset: "set (after_handle f h rs) \<subseteq> set rs"
  by (induction rs) auto

lemma find_in_set: "r \<in> set_option (find P xs) \<Longrightarrow> r \<in> set xs"
  by (auto simp: find_Some_iff)

lemma lookups_safe:
  assumes "table_mapped m ctx"
  shows "\<exists>a b. embloader_get_smbios_by_type m ctx ty handle = Some a \<and>
     embloader_get_smbios_by_handle m ctx handle = Some b \<and>
     (\<forall>r \<in> set_option a \<union> set_option b. sm_table_start ctx \<le> r \<and>
        (\<exists>len e. hdr_length m r = Some len \<and> 4 \<le> len \<and> smbios_structure_end m ctx r = Some (Some e) \<and>
           r + len + 2 \<le> e \<and> e \<le> sm_table_end ctx))"
proof -
  obtain a where a: "embloader_get_smbios_by_type m ctx ty handle = Some a" "set_option a \<subseteq> set (records m ctx 0)"
    using get_by_type [OF assms, of ty handle] after_handle_subset [of "handle_at m" handle "records m ctx 0"]
    by (auto dest!: find_in_set split: if_splits)
  obtain b where b: "embloader_get_smbios_by_handle m ctx handle = Some b" "set_option b \<subseteq> set (records m ctx 0)"
    using get_by_handle [OF assms, of handle 0] by (auto simp: embloader_get_smbios_by_handle_def dest!: find_in_set)
  from a b record_inside [OF assms, of _ 0] show ?thesis by blast
qed

section \<open>Each record once\<close>

text \<open>
  The records the loop of \<open>embloader_smbios_load_table\<close> visits: each one is found from the handle of the one
  before it.
\<close>

inductive visits :: "memory \<Rightarrow> embloader_smbios \<Rightarrow> nat \<Rightarrow> nat \<Rightarrow> addr list \<Rightarrow> bool" for m ctx ty where
  stop: "embloader_get_smbios_by_type m ctx ty handle = Some None \<Longrightarrow> visits m ctx ty handle []"
| step: "embloader_get_smbios_by_type m ctx ty handle = Some (Some r) \<Longrightarrow> hdr_handle m r = Some h \<Longrightarrow>
    visits m ctx ty h rs \<Longrightarrow> visits m ctx ty handle (r # rs)"

lemma after_handle_split:
  "f r \<notin> f ` set xs \<Longrightarrow> after_handle f (f r) (xs @ r # ys) = ys"
  by (induction xs) auto

lemma find_split:
  "find P xs = (case filter P xs of [] \<Rightarrow> None | x # _ \<Rightarrow> Some x)"
  by (induction xs) auto

lemma filter_Cons_split:
  "filter P xs = y # ys \<Longrightarrow> \<exists>as bs. xs = as @ y # bs \<and> filter P bs = ys \<and> filter P as = []"
  by (induction xs) (fastforce split: if_splits intro: exI [of _ "_ # _"])+

lemma records_header: "table_mapped m ctx \<Longrightarrow> r \<in> set (records m ctx p) \<Longrightarrow> hdr_handle m r = Some (handle_at m r)"
proof (induction m ctx p rule: records.induct)
  case (1 m ctx p)
  from "1.prems"(1) show ?case
  proof (cases rule: walk_cases [of m ctx p])
    case last
    with "1.prems"(2) show ?thesis by simp
  next
    case (rec q)
    with "1.IH" [OF rec(1) refl "1.prems"(1)] "1.prems"(2) show ?thesis by auto
  qed
qed

text \<open>
  What the loop relies on: the handle of a record of the type is not the reserved one, and no record
  before it has it.
\<close>

definition first_handles :: "memory \<Rightarrow> embloader_smbios \<Rightarrow> nat \<Rightarrow> bool" where
  "first_handles m ctx ty \<longleftrightarrow>
     (\<forall>us r ys. records m ctx 0 = us @ r # ys \<longrightarrow> type_at m r = ty \<longrightarrow>
        handle_at m r \<noteq> 0xFFFF \<and> handle_at m r \<notin> handle_at m ` set us)"

abbreviation behind :: "memory \<Rightarrow> embloader_smbios \<Rightarrow> nat \<Rightarrow> addr list" where
  "behind m ctx handle \<equiv>
     (if handle = 0xFFFF then records m ctx 0 else after_handle (handle_at m) handle (records m ctx 0))"

lemma visits_from:
  assumes t: "table_mapped m ctx" and f: "first_handles m ctx ty" and eq: "records m ctx 0 = pre @ rest"
    and h: "behind m ctx handle = rest"
  shows "visits m ctx ty handle (filter (\<lambda>r. type_at m r = ty) rest)"
  using eq h
proof (induction "filter (\<lambda>r. type_at m r = ty) rest" arbitrary: pre rest handle)
  case Nil
  have "find (\<lambda>r. type_at m r = ty) rest = None" unfolding find_split Nil(1) [symmetric] by simp
  with Nil(3) get_by_type [OF t, of ty handle] have "embloader_get_smbios_by_type m ctx ty handle = Some None" by simp
  then show ?case unfolding Nil(1) [symmetric] by (rule visits.stop)
next
  case (Cons r rs)
  have "find (\<lambda>r. type_at m r = ty) rest = Some r" unfolding find_split Cons(2) [symmetric] by simp
  with Cons(4) get_by_type [OF t, of ty handle] have g: "embloader_get_smbios_by_type m ctx ty handle = Some (Some r)"
    by simp
  from filter_Cons_split [OF Cons(2) [symmetric]] obtain as bs where ab: "rest = as @ r # bs"
    "filter (\<lambda>r. type_at m r = ty) bs = rs" by blast
  have eq: "records m ctx 0 = (pre @ as) @ r # bs" using Cons(3) ab by simp
  have "r \<in> set (filter (\<lambda>r. type_at m r = ty) rest)" unfolding Cons(2) [symmetric] by simp
  then have "type_at m r = ty" by simp
  with f eq have n: "handle_at m r \<noteq> 0xFFFF" "handle_at m r \<notin> handle_at m ` set (pre @ as)"
    unfolding first_handles_def by blast+
  have "behind m ctx (handle_at m r) = bs" using n after_handle_split [OF n(2)] eq by simp
  moreover have "records m ctx 0 = (pre @ as @ [r]) @ bs" using eq by simp
  ultimately have "visits m ctx ty (handle_at m r) (filter (\<lambda>r. type_at m r = ty) bs)"
    using Cons(1) [of bs "pre @ as @ [r]" "handle_at m r"] ab(2) by simp
  moreover have "hdr_handle m r = Some (handle_at m r)" by (rule records_header [OF t, of r 0]) (simp add: eq)
  ultimately have "visits m ctx ty handle (r # rs)" using g ab(2) by (blast intro: visits.step)
  then show ?case unfolding Cons(2) [symmetric] .
qed

lemma after_handle_reaches:
  "h \<in> f ` set us \<Longrightarrow> \<exists>xs. after_handle f h (us @ r # ys) = xs @ r # ys \<and> set xs \<subseteq> set us"
  by (induction us) auto

lemma find_reaches:
  "P r \<Longrightarrow> \<exists>q. find P (xs @ r # ys) = Some q \<and> (q = r \<or> q \<in> set xs)"
  by (induction xs) auto

text \<open>A handle that comes back: from a record before the second use one always reaches that use again.\<close>

lemma visits_stuck:
  assumes v: "visits m ctx ty handle rs" and t: "table_mapped m ctx" and eq: "records m ctx 0 = us @ r # ys"
    and ty: "type_at m r = ty" and again: "handle_at m r = 0xFFFF \<or> handle_at m r \<in> handle_at m ` set us"
  shows "handle \<noteq> 0xFFFF \<and> handle \<notin> handle_at m ` set us"
  using v
proof (induction handle rs rule: visits.induct)
  have reach: "\<exists>q. embloader_get_smbios_by_type m ctx ty handle = Some (Some q) \<and> (q = r \<or> q \<in> set us)"
    if h: "handle = 0xFFFF \<or> handle \<in> handle_at m ` set us" for handle
  proof -
    obtain xs where "behind m ctx handle = xs @ r # ys" "set xs \<subseteq> set us"
      using h eq after_handle_reaches [of handle "handle_at m" us r ys] by (cases "handle = 0xFFFF") auto
    with find_reaches [of "\<lambda>r. type_at m r = ty" r xs ys] ty get_by_type [OF t, of ty handle] show ?thesis by auto
  qed
  {
    case (stop handle)
    show ?case
    proof (rule ccontr)
      assume "\<not> ?thesis"
      then have "handle = 0xFFFF \<or> handle \<in> handle_at m ` set us" by blast
      from reach [OF this] stop show False by auto
    qed
  next
    case (step handle q h rs)
    show ?case
    proof (rule ccontr)
      assume "\<not> ?thesis"
      then have "handle = 0xFFFF \<or> handle \<in> handle_at m ` set us" by blast
      from reach [OF this] step(1) have q: "q = r \<or> q \<in> set us" by auto
      have "q \<in> set (records m ctx 0)" using q eq by auto
      with records_header [OF t] step(2) have "h = handle_at m q" by fastforce
      with q again have "h = 0xFFFF \<or> h \<in> handle_at m ` set us" by auto
      with step.IH show False by simp
    qed
  }
qed

lemma visits_fun: "visits m ctx ty handle rs \<Longrightarrow> visits m ctx ty handle rs' \<Longrightarrow> rs' = rs"
proof (induction handle rs arbitrary: rs' rule: visits.induct)
  case (stop handle)
  from stop(2) stop(1) show ?case by cases simp_all
next
  case (step handle r h rs)
  from step(5) step(1,2,4) show ?case by cases auto
qed

lemma visits_iff:
  assumes "table_mapped m ctx"
  shows "visits m ctx ty 0xFFFF rs \<longleftrightarrow>
     first_handles m ctx ty \<and> rs = filter (\<lambda>r. type_at m r = ty) (records m ctx 0)"
proof
  assume v: "visits m ctx ty 0xFFFF rs"
  have f: "first_handles m ctx ty" unfolding first_handles_def using visits_stuck [OF v assms] by blast
  have "visits m ctx ty 0xFFFF (filter (\<lambda>r. type_at m r = ty) (records m ctx 0))"
    by (rule visits_from [OF assms f, where pre = "[]"]) simp_all
  from visits_fun [OF this v] f
  show "first_handles m ctx ty \<and> rs = filter (\<lambda>r. type_at m r = ty) (records m ctx 0)" by simp
next
  assume a: "first_handles m ctx ty \<and> rs = filter (\<lambda>r. type_at m r = ty) (records m ctx 0)"
  have "visits m ctx ty 0xFFFF (filter (\<lambda>r. type_at m r = ty) (records m ctx 0))"
    by (rule visits_from [OF assms, where pre = "[]"]) (use a in simp_all)
  with a show "visits m ctx ty 0xFFFF rs" by simp
qed

section \<open>The loop makes these visits\<close>

text \<open>Loaders do not move the table.\<close>

definition same_table :: "embloader_smbios \<Rightarrow> embloader_smbios \<Rightarrow> bool" where
  "same_table c c' \<longleftrightarrow> sm_table_start c' = sm_table_start c \<and> sm_table_end c' = sm_table_end c"

definition steady :: "sm_op \<Rightarrow> bool" where
  "steady f \<longleftrightarrow> (\<forall>st st'. f st = Some st' \<longrightarrow> same_table (ss_ctx st) (ss_ctx st'))"

named_theorems steady

lemma same_table_refl [simp]: "same_table c c"
  by (simp add: same_table_def)

lemma same_table_trans [trans]: "same_table a b \<Longrightarrow> same_table b c \<Longrightarrow> same_table a c"
  by (simp add: same_table_def)

lemma same_table_upd [simp]:
  "same_table c (c'\<lparr>sm_config_error := b\<rparr>) = same_table c c'"
  "same_table c (c'\<lparr>sm_active_record := p\<rparr>) = same_table c c'"
  "same_table c (c'\<lparr>sm_active_copy := p\<rparr>) = same_table c c'"
  "same_table (c\<lparr>sm_config_error := b\<rparr>) c' = same_table c c'"
  "same_table (c\<lparr>sm_active_record := p\<rparr>) c' = same_table c c'"
  "same_table (c\<lparr>sm_active_copy := p\<rparr>) c' = same_table c c'"
  "same_table c (embloader_smbios_config_result c' b) = same_table c c'"
  by (simp_all add: same_table_def embloader_smbios_config_result_def)

lemma steadyI: "(\<And>st st'. f st = Some st' \<Longrightarrow> same_table (ss_ctx st) (ss_ctx st')) \<Longrightarrow> steady f"
  by (simp add: steady_def)

lemma steadyD: "f st = Some st' \<Longrightarrow> steady f \<Longrightarrow> same_table (ss_ctx st) (ss_ctx st')"
  by (simp add: steady_def)

lemma guarded_table: "sm_guarded f st = Some (ok, st') \<Longrightarrow> same_table (ss_ctx st) (ss_ctx st')"
  by (auto simp: sm_guarded_def bind_eq_Some_conv split: if_splits)

lemma hang_table: "sm_hang f sub st = Some (ok, st') \<Longrightarrow> same_table (ss_ctx st) (ss_ctx st')"
  by (auto simp: sm_hang_def bind_eq_Some_conv split: if_splits)

lemma steady_run [steady]: "(\<And>f. f \<in> set fs \<Longrightarrow> steady f) \<Longrightarrow> steady (sm_run fs)"
proof (induction fs)
  case (Cons f fs)
  show ?case
  proof (rule steadyI)
    fix st st' assume "sm_run (f # fs) st = Some st'"
    then obtain st1 where r: "f st = Some st1" "sm_run fs st1 = Some st'" by (auto simp: bind_eq_Some_conv)
    from steadyD [of f st st1] steadyD [of "sm_run fs" st1 st'] r Cons show "same_table (ss_ctx st) (ss_ctx st')"
      by (meson list.set_intros same_table_trans)
  qed
qed (simp add: steady_def)

lemma steady_void: "(\<And>st r. f st = Some r \<Longrightarrow> same_table (ss_ctx st) (ss_ctx (snd r))) \<Longrightarrow> steady (sm_void f)"
  by (auto simp: steady_def)

lemma steady_sets [steady]:
  "steady (set_int n p v)" "steady (set_bool n p v)" "steady (set_text n p t)" "steady (set_name E c n p v)"
  unfolding set_int_def set_bool_def set_text_def set_name_def embloader_smbios_config_set_int_def
      embloader_smbios_config_set_bool_def embloader_smbios_config_set_string_def
      embloader_smbios_set_config_string_def
  by (rule steady_void, auto simp: bind_eq_Some_conv dest: guarded_table split: if_splits)+

lemma steady_new:
  assumes "\<And>n f. f \<in> set (fs n) \<Longrightarrow> steady f" and "\<And>n st ok st'. hang n st = Some (ok, st') \<Longrightarrow> same_table (ss_ctx st) (ss_ctx st')"
  shows "steady (\<lambda>st. do { (n, s) \<leftarrow> new (ss_cs st); (_, st) \<leftarrow> hang n (st\<lparr>ss_cs := s\<rparr>); sm_run (fs n) st })"
proof (rule steadyI)
  fix st st' assume "do { (n, s) \<leftarrow> new (ss_cs st); (_, st) \<leftarrow> hang n (st\<lparr>ss_cs := s\<rparr>); sm_run (fs n) st } = Some st'"
  then obtain n s ok st1 where r: "hang n (st\<lparr>ss_cs := s\<rparr>) = Some (ok, st1)" "sm_run (fs n) st1 = Some st'"
    by (auto simp: bind_eq_Some_conv)
  from assms(2) [OF r(1)] steadyD [OF r(2) steady_run [OF assms(1)]] show "same_table (ss_ctx st) (ss_ctx st')"
    by (simp add: same_table_def)
qed

lemma steady_with [steady]:
  assumes "\<And>n f. f \<in> set (fs n) \<Longrightarrow> steady f"
  shows "steady (with_map n p fs)" "steady (with_array n p fs)" "steady (with_item n fs)"
  unfolding with_map_def with_array_def with_item_def embloader_smbios_config_attach_def embloader_smbios_config_append_def
  by (rule steady_new [OF assms hang_table], assumption+)+

lemma steady_ver [steady]:
  assumes "\<And>f. f \<in> set a \<Longrightarrow> steady f" "\<And>f. f \<in> set b \<Longrightarrow> steady f"
  shows "steady (if_ver i j c a b)"
proof -
  have "steady (sm_run a)" "steady (sm_run b)" using assms by (simp_all add: steady_run)
  then show ?thesis unfolding if_ver_def steady_def by (simp split: if_splits)
qed

lemma steady_formatted [steady]:
  assumes "\<And>E m c. steady (load E m c)"
  shows "steady (load_formatted E load r len node)"
proof (rule steadyI)
  fix st st' assume a: "load_formatted E load r len node st = Some st'"
  show "same_table (ss_ctx st) (ss_ctx st')"
  proof (cases "sm_config_error (ss_ctx st)")
    case False
    from a obtain copy st3 where c: "load E node copy
        (st\<lparr>ss_ctx := (ss_ctx st)\<lparr>sm_active_record := SmAt r, sm_active_copy := SmCopy copy\<rparr>\<rparr>) = Some st3"
      "Some (st3\<lparr>ss_ctx := (ss_ctx st3)\<lparr>sm_active_record := SmNil, sm_active_copy := SmNil\<rparr>\<rparr>) = Some st'"
      unfolding load_formatted_def if_not_P [OF False] Let_def bind_eq_Some_conv by (elim exE conjE)
    have "steady (load E node copy)" by (rule assms)
    with c(1) have "same_table (ss_ctx st) (ss_ctx st3)" unfolding steady_def by fastforce
    with c(2) show ?thesis by auto
  qed (use a in \<open>simp add: load_formatted_def\<close>)
qed

lemma steady_record [steady]:
  assumes "\<And>E m c. steady (load E m c)"
  shows "steady (load_record E load r node)"
proof (rule steadyI)
  fix st st' assume "load_record E load r node st = Some st'"
  then obtain ty len h st1 where
      a: "with_map node ''header'' (\<lambda>hm. [set_int hm ''type'' ty, set_int hm ''length'' (int len), set_int hm ''handle'' h]) st = Some st1"
    and b: "load_formatted E load r len node st1 = Some st'"
    unfolding load_record_def bind_eq_Some_conv by (elim exE conjE) blast
  have "steady (with_map node ''header'' (\<lambda>hm. [set_int hm ''type'' ty, set_int hm ''length'' (int len), set_int hm ''handle'' h]))"
    by (auto intro!: steady)
  with a have "same_table (ss_ctx st) (ss_ctx st1)" unfolding steady_def by blast
  also have "same_table (ss_ctx st1) (ss_ctx st')" 
    using b steady_formatted [of load, OF assms] unfolding steady_def by blast
  finally show "same_table (ss_ctx st) (ss_ctx st')" .
qed

lemma range_table: "same_table c c' \<Longrightarrow> smbios_get_range c' = smbios_get_range c"
  by (simp add: same_table_def smbios_get_range_def)

lemma structure_end_table: "same_table c c' \<Longrightarrow> smbios_structure_end m c' p = smbios_structure_end m c p"
  by (simp add: smbios_structure_end_def range_table)

lemma walk_table:
  assumes "same_table c c'" shows "smbios_walk m c' p = smbios_walk m c p"
  unfolding smbios_walk_def range_table [OF assms] structure_end_table [OF assms] by (rule refl)

lemma by_type_loop_table: "same_table c c' \<Longrightarrow> by_type_loop m c' ty h past p = by_type_loop m c ty h past p"
proof (induction m c ty h past p rule: by_type_loop.induct)
  case (1 m c ty h past p)
  show ?case
  proof (cases "smbios_walk m c p")
    case None
    with walk_table [OF "1.prems"] show ?thesis by (simp add: by_type_loop.simps)
  next
    case (Some q)
    show ?thesis
    proof (cases q)
      case None
      with Some walk_table [OF "1.prems"] show ?thesis by (simp add: by_type_loop.simps)
    next
      case r: (Some r)
      have "\<not> past \<Longrightarrow> by_type_loop m c' ty h b r = by_type_loop m c ty h b r" if "hdr_handle m r = Some hd" "b = (hd = h)" for b hd
        using "1.IH"(1) [OF Some r _ that(1) "1.prems"] that(2) by simp
      moreover have "past \<Longrightarrow> by_type_loop m c' ty h past r = by_type_loop m c ty h past r"
        if "hdr_type m r = Some t" "t \<noteq> ty" for t
        using "1.IH"(2) [OF Some r _ that "1.prems"] by simp
      ultimately show ?thesis using Some r walk_table [OF "1.prems", of m p]
        by (cases past; cases "hdr_handle m r"; cases "hdr_type m r")
          (simp_all add: by_type_loop.simps [of m _ ty h _ p])
    qed
  qed
qed

lemma by_type_table:
  "same_table c c' \<Longrightarrow> embloader_get_smbios_by_type m c' ty h = embloader_get_smbios_by_type m c ty h"
  by (simp add: embloader_get_smbios_by_type_def by_type_loop_table)

lemma visits_table:
  assumes "same_table c c'" shows "visits m c' ty h rs \<longleftrightarrow> visits m c ty h rs"
proof -
  have "visits m a ty h rs \<Longrightarrow> same_table a b \<Longrightarrow> visits m b ty h rs" for a b
    by (induction h rs rule: visits.induct) (auto intro: visits.intros simp: by_type_table)
  moreover have "same_table c' c" using assms by (simp add: same_table_def)
  ultimately show ?thesis using assms by blast
qed

lemma attach_table:
  "embloader_smbios_config_attach n p sub st = Some (ok, st') \<Longrightarrow> same_table (ss_ctx st) (ss_ctx st')"
  by (simp add: embloader_smbios_config_attach_def hang_table)

text \<open>When the loop is done with a type it has made the visits, so that a handle used twice keeps it going.\<close>

lemma load_table_loop_visits:
  assumes r: "load_table_loop E root ty name load handle i st = Some (ok, st')"
    and s: "\<And>E m c. steady (load E m c)"
  shows "ok \<longrightarrow> (\<exists>rs. visits (se_mem E) (ss_ctx st) ty handle rs)"
proof -
  let ?P = "\<lambda>E root ty name load handle i st y. (\<forall>E m c. steady (load E m c)) \<longrightarrow> fst y \<longrightarrow>
      (\<exists>rs. visits (se_mem E) (ss_ctx st) ty handle rs)"
  have "?P E root ty name load handle i st (ok, st')"
  proof (rule load_table_loop.raw_induct [of ?P E root ty name load handle i st "(ok, st')", OF _ r], goal_cases)
    case (1 f E root ty name load handle i st y)
    show ?case
    proof (intro impI)
      assume s: "\<forall>E m c. steady (load E m c)" and ok: "fst y"
      from 1(2) obtain rec where g: "embloader_get_smbios_by_type (se_mem E) (ss_ctx st) ty handle = Some rec"
        by (auto simp: bind_eq_Some_conv)
      show "\<exists>rs. visits (se_mem E) (ss_ctx st) ty handle rs"
      proof (cases rec)
        case None
        with g show ?thesis by (auto intro: visits.stop)
      next
        case (Some r)
        obtain node s where m: "confignode_new_map (ss_cs st) = Some (node, s)"
          using 1(2) g Some by (auto simp: bind_eq_Some_conv)
        define st1 where "st1 = st\<lparr>ss_ctx := (ss_ctx st)\<lparr>sm_config_error := False\<rparr>, ss_cs := s\<rparr>"
        have t1: "same_table (ss_ctx st) (ss_ctx st1)" by (simp add: st1_def)
        from 1(2) g Some m ok have n: "node \<noteq> None" by (cases node) (auto simp: Let_def)
        from 1(2) g Some m n obtain buff j s2 where b: "free_name_loop root name i (ss_cs st1) = Some ((buff, j), s2)"
          by (auto simp: st1_def bind_eq_Some_conv)
        from 1(2) g Some m n b obtain st2 where l: "load_record E load r node (st1\<lparr>ss_cs := s2\<rparr>) = Some st2"
          by (auto simp: st1_def bind_eq_Some_conv)
        from 1(2) g Some m n b l ok have e: "\<not> sm_config_error (ss_ctx st2)"
          by (auto simp: st1_def bind_eq_Some_conv)
        from 1(2) g Some m n b l e obtain ok3 st3 where a: "embloader_smbios_config_attach root buff node st2 = Some (ok3, st3)"
          by (auto simp: st1_def bind_eq_Some_conv)
        from 1(2) g Some m n b l e a ok have k: ok3
          by (auto simp: st1_def bind_eq_Some_conv split: if_splits)
        from 1(2) g Some m n b l e a k obtain h where h: "hdr_handle (se_mem E) r = Some h"
            "f E root ty name load h j st3 = Some y"
          by (auto simp: st1_def bind_eq_Some_conv)
        have "steady (load_record E load r node)" using s by (simp add: steady_record)
        with l have "same_table (ss_ctx st1) (ss_ctx st2)" unfolding steady_def by fastforce
        with t1 attach_table [OF a] have t3: "same_table (ss_ctx st) (ss_ctx st3)" by (meson same_table_trans)
        from 1(1) [OF h(2)] s ok obtain rs where "visits (se_mem E) (ss_ctx st3) ty h rs" by blast
        with t3 have "visits (se_mem E) (ss_ctx st) ty h rs" by (simp add: visits_table)
        with g Some h(1) show ?thesis by (blast intro: visits.step)
      qed
    qed
  qed
  with assms show ?thesis by simp
qed

text \<open>A table with a handle used twice is never reported as loaded.\<close>

lemma load_table_handles:
  assumes "table_mapped (se_mem E) (ss_ctx st)" "\<And>E m c. steady (load E m c)"
    and "embloader_smbios_load_table E root ty name load st = Some (True, st')"
  shows "first_handles (se_mem E) (ss_ctx st) ty"
proof -
  have "load_table_loop E root ty name load 0xFFFF 0 st = Some (True, st')"
    using assms(3) by (auto simp: embloader_smbios_load_table_def split: if_splits)
  with load_table_loop_visits [OF this assms(2)] visits_iff [OF assms(1)] show ?thesis by blast
qed

end
