(* ===== verification/SmbiosTypes.thy ===== *)
theory SmbiosTypes
  imports SmbiosTable Loader
begin

unbundle bit_operations_syntax

text \<open>
  \<open>src/smbios/types/type*.c\<close>, \<open>types.c\<close> and \<open>load.c\<close>: what every type of record stores in the configuration, as
  sequences of guarded writes. \<open>t\<close> reads a field of the packed structure by the name the C code uses.
\<close>

section \<open>Fields\<close>

text \<open>Bytes of the copied record where a field starts, one byte of it, and \<open>memcpy\<close> into an integer.\<close>

definition bytes_at :: "smbios_env \<Rightarrow> cstring \<Rightarrow> cstring \<Rightarrow> cstring \<Rightarrow> nat \<Rightarrow> cstring" where
  "bytes_at E copy struct field n = take n (drop (se_offset E struct field) copy)"

definition byte_at :: "smbios_env \<Rightarrow> cstring \<Rightarrow> cstring \<Rightarrow> cstring \<Rightarrow> int" where
  "byte_at E copy struct field = int (cval (copy ! se_offset E struct field))"

definition le_value :: "cstring \<Rightarrow> int" where
  "le_value bs = foldr (\<lambda>c acc. int (cval c) + 256 * acc) bs 0"

definition copy_length :: "cstring \<Rightarrow> nat" where
  "copy_length copy = cval (copy ! 1)"

text \<open>A name from an array, guarded by its length, and from a \<open>switch\<close>.\<close>

definition named :: "cstring list \<Rightarrow> int \<Rightarrow> cstring" where
  "named names v = (if v < int (length names) then names ! nat v else ''unknown'')"

definition name_of :: "(int \<times> cstring) list \<Rightarrow> cstring \<Rightarrow> int \<Rightarrow> cstring" where
  "name_of names other v = (case map_of names v of Some n \<Rightarrow> n | None \<Rightarrow> other)"

text \<open>\<open>%02x\<close> of a byte.\<close>

definition hex2 :: "int \<Rightarrow> cstring" where
  "hex2 v = [''0123456789abcdef'' ! nat (v div 16 mod 16), ''0123456789abcdef'' ! nat (v mod 16)]"

definition set_fmt :: "ptr \<Rightarrow> cstring \<Rightarrow> cstring \<Rightarrow> sm_op" where
  "set_fmt node path txt = sm_void (embloader_smbios_config_set_string_fmt node path txt)"

definition set_guid :: "smbios_env \<Rightarrow> cstring \<Rightarrow> ptr \<Rightarrow> cstring \<Rightarrow> nat \<Rightarrow> sm_op" where
  "set_guid E copy node path offset = sm_void (embloader_smbios_set_config_guid (se_guid_text E) copy node path offset)"

section \<open>Records\<close>

subsection \<open>Type 0\<close>

definition smbios_load_type0 :: sm_loader where
  "smbios_load_type0 E m copy =
     (let t = se_field E ''SMBIOS_TABLE_TYPE0'' copy;
          ce = se_field E ''MISC_BIOS_CHARACTERISTICS_EXTENSION''
            (bytes_at E copy ''SMBIOS_TABLE_TYPE0'' ''BIOSCharacteristicsExtensionBytes'' (se_sizeof E ''MISC_BIOS_CHARACTERISTICS_EXTENSION'')) in sm_run [
       set_name E copy m ''vendor'' (t ''Vendor''),
       set_name E copy m ''version'' (t ''BiosVersion''),
       set_name E copy m ''release_date'' (t ''BiosReleaseDate''),
       set_int m ''segment'' (t ''BiosSegment''),
       set_int m ''size'' (t ''BiosSize''),
       set_int m ''major'' (t ''SystemBiosMajorRelease''),
       set_int m ''minor'' (t ''SystemBiosMinorRelease''),
       set_int m ''ec_major'' (t ''EmbeddedControllerFirmwareMajorRelease''),
       set_int m ''ec_minor'' (t ''EmbeddedControllerFirmwareMinorRelease''),
       with_map m ''characteristics'' (\<lambda>cm. [
         set_bool cm ''bios_characteristics_not_supported'' (t ''BiosCharacteristics.BiosCharacteristicsNotSupported''),
         set_bool cm ''isa_is_supported'' (t ''BiosCharacteristics.IsaIsSupported''),
         set_bool cm ''mca_is_supported'' (t ''BiosCharacteristics.McaIsSupported''),
         set_bool cm ''eisa_is_supported'' (t ''BiosCharacteristics.EisaIsSupported''),
         set_bool cm ''pci_is_supported'' (t ''BiosCharacteristics.PciIsSupported''),
         set_bool cm ''pcmcia_is_supported'' (t ''BiosCharacteristics.PcmciaIsSupported''),
         set_bool cm ''plug_and_play_is_supported'' (t ''BiosCharacteristics.PlugAndPlayIsSupported''),
         set_bool cm ''apm_is_supported'' (t ''BiosCharacteristics.ApmIsSupported''),
         set_bool cm ''bios_is_upgradable'' (t ''BiosCharacteristics.BiosIsUpgradable''),
         set_bool cm ''bios_shadowing_allowed'' (t ''BiosCharacteristics.BiosShadowingAllowed''),
         set_bool cm ''vl_vesa_is_supported'' (t ''BiosCharacteristics.VlVesaIsSupported''),
         set_bool cm ''escd_support_is_available'' (t ''BiosCharacteristics.EscdSupportIsAvailable''),
         set_bool cm ''boot_from_cd_is_supported'' (t ''BiosCharacteristics.BootFromCdIsSupported''),
         set_bool cm ''selectable_boot_is_supported'' (t ''BiosCharacteristics.SelectableBootIsSupported''),
         set_bool cm ''rom_bios_is_socketed'' (t ''BiosCharacteristics.RomBiosIsSocketed''),
         set_bool cm ''boot_from_pcmcia_is_supported'' (t ''BiosCharacteristics.BootFromPcmciaIsSupported''),
         set_bool cm ''edd_specification_is_supported'' (t ''BiosCharacteristics.EDDSpecificationIsSupported''),
         set_bool cm ''japanese_nec_floppy_is_supported'' (t ''BiosCharacteristics.JapaneseNecFloppyIsSupported''),
         set_bool cm ''japanese_toshiba_floppy_is_supported'' (t ''BiosCharacteristics.JapaneseToshibaFloppyIsSupported''),
         set_bool cm ''floppy525_360_is_supported'' (t ''BiosCharacteristics.Floppy525_360IsSupported''),
         set_bool cm ''floppy525_12_is_supported'' (t ''BiosCharacteristics.Floppy525_12IsSupported''),
         set_bool cm ''floppy35_720_is_supported'' (t ''BiosCharacteristics.Floppy35_720IsSupported''),
         set_bool cm ''floppy35_288_is_supported'' (t ''BiosCharacteristics.Floppy35_288IsSupported''),
         set_bool cm ''print_screen_is_supported'' (t ''BiosCharacteristics.PrintScreenIsSupported''),
         set_bool cm ''keyboard8042_is_supported'' (t ''BiosCharacteristics.Keyboard8042IsSupported''),
         set_bool cm ''serial_is_supported'' (t ''BiosCharacteristics.SerialIsSupported''),
         set_bool cm ''printer_is_supported'' (t ''BiosCharacteristics.PrinterIsSupported''),
         set_bool cm ''cga_mono_is_supported'' (t ''BiosCharacteristics.CgaMonoIsSupported''),
         set_bool cm ''nec_pc98'' (t ''BiosCharacteristics.NecPc98''),
         set_bool cm ''acpi_is_supported'' (ce ''BiosReserved.AcpiIsSupported''),
         set_bool cm ''usb_legacy_is_supported'' (ce ''BiosReserved.UsbLegacyIsSupported''),
         set_bool cm ''agp_is_supported'' (ce ''BiosReserved.AgpIsSupported''),
         set_bool cm ''i2o_boot_is_supported'' (ce ''BiosReserved.I2OBootIsSupported''),
         set_bool cm ''ls120_boot_is_supported'' (ce ''BiosReserved.Ls120BootIsSupported''),
         set_bool cm ''atapi_zip_drive_boot_is_supported'' (ce ''BiosReserved.AtapiZipDriveBootIsSupported''),
         set_bool cm ''boot1394_is_supported'' (ce ''BiosReserved.Boot1394IsSupported''),
         set_bool cm ''smart_battery_is_supported'' (ce ''BiosReserved.SmartBatteryIsSupported''),
         set_bool cm ''bios_boot_spec_is_supported'' (ce ''SystemReserved.BiosBootSpecIsSupported''),
         set_bool cm ''function_key_network_boot_is_supported'' (ce ''SystemReserved.FunctionKeyNetworkBootIsSupported''),
         set_bool cm ''target_content_distribution_enabled'' (ce ''SystemReserved.TargetContentDistributionEnabled''),
         set_bool cm ''uefi_specification_supported'' (ce ''SystemReserved.UefiSpecificationSupported''),
         set_bool cm ''virtual_machine_supported'' (ce ''SystemReserved.VirtualMachineSupported''),
         set_bool cm ''manufacturing_mode_supported'' (ce ''SystemReserved.ManufacturingModeSupported''),
         set_bool cm ''manufacturing_mode_enabled'' (ce ''SystemReserved.ManufacturingModeEnabled'')])])"

subsection \<open>Type 1\<close>

definition smbios_load_type1 :: sm_loader where
  "smbios_load_type1 E m copy =
     (let t = se_field E ''SMBIOS_TABLE_TYPE1'' copy in sm_run [
       set_name E copy m ''manufacturer'' (t ''Manufacturer''),
       set_name E copy m ''product_name'' (t ''ProductName''),
       set_name E copy m ''version'' (t ''Version''),
       set_name E copy m ''serial_number'' (t ''SerialNumber''),
       set_guid E copy m ''uuid'' (se_offset E ''SMBIOS_TABLE_TYPE1'' ''Uuid''),
       set_bool m ''wake_up_type'' (t ''WakeUpType''),
       set_name E copy m ''sku_number'' (t ''SKUNumber''),
       set_name E copy m ''family'' (t ''Family'')])"

subsection \<open>Type 2\<close>

definition baseboard_type :: "cstring list" where
  "baseboard_type = [
     ''null'', ''unknown'', ''other'', ''server_blade'', ''connectivity_switch'',
     ''system_management_module'', ''processor_module'', ''io_module'', ''memory_module'',
     ''daughter_board'', ''mother_board'', ''processor_memory_module'', ''processor_io_module'',
     ''interconnect_board'']"

definition smbios_load_type2 :: sm_loader where
  "smbios_load_type2 E m copy =
     (let t = se_field E ''SMBIOS_TABLE_TYPE2'' copy in sm_run [
       set_name E copy m ''manufacturer'' (t ''Manufacturer''),
       set_name E copy m ''product'' (t ''ProductName''),
       set_name E copy m ''version'' (t ''Version''),
       set_name E copy m ''serial_number'' (t ''SerialNumber''),
       set_name E copy m ''asset_tag'' (t ''AssetTag''),
       set_bool m ''motherboard'' (t ''FeatureFlag.Motherboard''),
       set_bool m ''requires_daughter_card'' (t ''FeatureFlag.RequiresDaughterCard''),
       set_bool m ''removable'' (t ''FeatureFlag.Removable''),
       set_bool m ''replaceable'' (t ''FeatureFlag.Replaceable''),
       set_bool m ''hot_swappable'' (t ''FeatureFlag.HotSwappable''),
       set_name E copy m ''location_in_chassis'' (t ''LocationInChassis''),
       set_int m ''chassis_handle'' (t ''ChassisHandle''),
       set_text m ''board_type'' (if t ''BoardType'' < 0xd then baseboard_type ! nat (t ''BoardType'') else ''unknown'')])"

subsection \<open>Type 3\<close>

definition chassis_type :: "cstring list" where
  "chassis_type = [
     ''null'', ''type_other'', ''type_unknown'', ''type_desk_top'', ''type_low_profile_desktop'',
     ''type_pizza_box'', ''type_mini_tower'', ''type_tower'', ''type_portable'', ''type_lap_top'',
     ''type_notebook'', ''type_hand_held'', ''type_docking_station'', ''type_all_in_one'',
     ''type_sub_notebook'', ''type_space_saving'', ''type_lunch_box'', ''type_main_server_chassis'',
     ''type_expansion_chassis'', ''type_sub_chassis'', ''type_bus_expansion_chassis'',
     ''type_peripheral_chassis'', ''type_raid_chassis'', ''type_rack_mount_chassis'',
     ''type_sealed_case_pc'', ''multi_system_chassis'', ''compact_pci'', ''advanced_tca'', ''blade'',
     ''blade_enclosure'', ''tablet'', ''convertible'', ''detachable'', ''io_t_gateway'',
     ''embedded_pc'', ''mini_pc'', ''stick_pc'']"

definition chassis_state :: "cstring list" where
  "chassis_state = [
     ''other'', ''unknown'', ''safe'', ''warning'', ''critical'', ''non-recoverable'']"

definition chassis_security_state :: "cstring list" where
  "chassis_security_state = [
     ''other'', ''unknown'', ''none'', ''external_interface_locked_out'',
     ''external_interface_locked_enabled'']"

definition chassis_state_to_string :: "int \<Rightarrow> cstring" where
  "chassis_state_to_string state =
     (if state < 1 \<or> state > int (length chassis_state) then ''unknown'' else chassis_state ! nat (state - 1))"

definition smbios_load_type3 :: sm_loader where
  "smbios_load_type3 E m copy =
     (let t = se_field E ''SMBIOS_TABLE_TYPE3'' copy in sm_run [
       set_name E copy m ''manufacturer'' (t ''Manufacturer''),
       set_text m ''type'' (named chassis_type (t ''Type'' AND 0x7F)),
       set_bool m ''lock_present'' (t ''Type'' AND 0x80),
       set_name E copy m ''version'' (t ''Version''),
       set_name E copy m ''serial_number'' (t ''SerialNumber''),
       set_name E copy m ''asset_tag'' (t ''AssetTag''),
       set_text m ''bootup_state'' (chassis_state_to_string (t ''BootupState'')),
       set_text m ''power_supply_state'' (chassis_state_to_string (t ''PowerSupplyState'')),
       set_text m ''thermal_state'' (chassis_state_to_string (t ''ThermalState'')),
       set_text m ''security_status'' (if 1 \<le> t ''SecurityStatus'' \<and> t ''SecurityStatus'' \<le> 5 then chassis_security_state ! nat (t ''SecurityStatus'' - 1) else ''unknown''),
       set_int m ''height'' (t ''Height'')])"

subsection \<open>Type 4\<close>

definition processor_type_to_string :: "int \<Rightarrow> cstring" where
  "processor_type_to_string v = name_of [
     (1, ''other''), (2, ''unknown''), (3, ''central_processor''), (4, ''math_processor''),
     (5, ''dsp_processor''), (6, ''video_processor'')]
     (''reserved'') v"

definition processor_family_to_string :: "int \<Rightarrow> cstring" where
  "processor_family_to_string v = name_of [
     (1, ''other''), (2, ''unknown''), (3, ''8086''), (4, ''80286''), (5, ''intel386''),
     (6, ''intel486''), (7, ''8087''), (8, ''80287''), (9, ''80387''), (10, ''80487''),
     (11, ''pentium''), (12, ''pentium_pro''), (13, ''pentium_ii''), (14, ''pentium_mmx''),
     (15, ''celeron''), (16, ''pentium_ii_xeon''), (17, ''pentium_iii''), (18, ''m1''), (19, ''m2''),
     (20, ''intel_celeron_m''), (21, ''intel_pentium4_ht''), (22, ''intel''), (24, ''amd_duron''),
     (25, ''k5''), (26, ''k6''), (27, ''k6_2''), (28, ''k6_3''), (29, ''amd_athlon''),
     (30, ''amd29000''), (31, ''k6_2_plus''), (32, ''power_pc''), (33, ''power_pc601''),
     (34, ''power_pc603''), (35, ''power_pc603_plus''), (36, ''power_pc604''), (37, ''power_pc620''),
     (38, ''power_p_cx704''), (39, ''power_pc750''), (40, ''intel_core_duo''),
     (41, ''intel_core_duo_mobile''), (42, ''intel_core_solo_mobile''), (43, ''intel_atom''),
     (44, ''intel_core_m''), (45, ''intel_corem3''), (46, ''intel_corem5''), (47, ''intel_corem7''),
     (48, ''alpha''), (49, ''alpha21064''), (50, ''alpha21066''), (51, ''alpha21164''),
     (52, ''alpha21164pc''), (53, ''alpha21164a''), (54, ''alpha21264''), (55, ''alpha21364''),
     (56, ''amd_turion_ii_ultra_dual_core_mobile_m''), (57, ''amd_turion_ii_dual_core_mobile_m''),
     (58, ''amd_athlon_ii_dual_core_m''), (59, ''amd_opteron6100_series''),
     (60, ''amd_opteron4100_series''), (61, ''amd_opteron6200_series''),
     (62, ''amd_opteron4200_series''), (63, ''amd_fx_series''), (64, ''mips''), (65, ''mipsr4000''),
     (66, ''mipsr4200''), (67, ''mipsr4400''), (68, ''mipsr4600''), (69, ''mipsr10000''),
     (70, ''amd_c_series''), (71, ''amd_e_series''), (72, ''amd_a_series''), (73, ''amd_g_series''),
     (74, ''amd_z_series''), (75, ''amd_r_series''), (76, ''amd_opteron4300''),
     (77, ''amd_opteron6300''), (78, ''amd_opteron3300''), (79, ''amd_fire_pro_series''),
     (80, ''sparc''), (81, ''super_sparc''), (82, ''micro_sparc_ii''), (83, ''micro_sparc_i_iep''),
     (84, ''ultra_sparc''), (85, ''ultra_sparc_ii''), (86, ''ultra_sparc_iii''),
     (87, ''ultra_sparc_iii''), (88, ''ultra_sparc_ii_ii''), (96, ''68040''), (97, ''68xxx''),
     (98, ''68000''), (99, ''68010''), (100, ''68020''), (101, ''68030''),
     (102, ''amd_athlon_x4_quad_core''), (103, ''amd_opteron_x1000_series''),
     (104, ''amd_opteron_x2000_series''), (105, ''amd_opteron_a_series''),
     (106, ''amd_opteron_x3000_series''), (107, ''amd_zen''), (112, ''hobbit''),
     (120, ''crusoe_tm5000''), (121, ''crusoe_tm3000''), (122, ''efficeon_tm8000''), (128, ''weitek''),
     (130, ''itanium''), (131, ''amd_athlon64''), (132, ''amd_opteron''), (133, ''amd_sempron''),
     (134, ''amd_turion64_mobile''), (135, ''dual_core_amd_opteron''),
     (136, ''amd_athlon64x2_dual_core''), (137, ''amd_turion64x2_mobile''),
     (138, ''quad_core_amd_opteron''), (139, ''third_generation_amd_opteron''),
     (140, ''amd_phenom_fx_quad_core''), (141, ''amd_phenom_x4_quad_core''),
     (142, ''amd_phenom_x2_dual_core''), (143, ''amd_athlon_x2_dual_core''), (144, ''parisc''),
     (145, ''pa_risc8500''), (146, ''pa_risc8000''), (147, ''pa_risc7300lc''), (148, ''pa_risc7200''),
     (149, ''pa_risc7100lc''), (150, ''pa_risc7100''), (160, ''v30''),
     (161, ''quad_core_intel_xeon3200_series''), (162, ''dual_core_intel_xeon3000_series''),
     (163, ''quad_core_intel_xeon5300_series''), (164, ''dual_core_intel_xeon5100_series''),
     (165, ''dual_core_intel_xeon5000_series''), (166, ''dual_core_intel_xeon_lv''),
     (167, ''dual_core_intel_xeon_ulv''), (168, ''dual_core_intel_xeon7100_series''),
     (169, ''quad_core_intel_xeon5400_series''), (170, ''quad_core_intel_xeon''),
     (171, ''dual_core_intel_xeon5200_series''), (172, ''dual_core_intel_xeon7200_series''),
     (173, ''quad_core_intel_xeon7300_series''), (174, ''quad_core_intel_xeon7400_series''),
     (175, ''multi_core_intel_xeon7400_series''), (176, ''pentium_iii_xeon''),
     (177, ''pentium_iii_speed_step''), (178, ''pentium4''), (179, ''intel_xeon''), (180, ''as400''),
     (181, ''intel_xeon_mp''), (182, ''amd_athlon_xp''), (183, ''amd_athlon_mp''),
     (184, ''intel_itanium2''), (185, ''intel_pentium_m''), (186, ''intel_celeron_d''),
     (187, ''intel_pentium_d''), (188, ''intel_pentium_ex''), (189, ''intel_core_solo''),
     (190, ''reserved''), (191, ''intel_core2''), (192, ''intel_core2_solo''),
     (193, ''intel_core2_extreme''), (194, ''intel_core2_quad''),
     (195, ''intel_core2_extreme_mobile''), (196, ''intel_core2_duo_mobile''),
     (197, ''intel_core2_solo_mobile''), (198, ''intel_core_i7''), (199, ''dual_core_intel_celeron''),
     (200, ''ibm390''), (201, ''g4''), (202, ''g5''), (203, ''g6''), (204, ''z_architecture''),
     (205, ''intel_core_i5''), (206, ''intel_core_i3''), (207, ''intel_core_i9''),
     (208, ''intel_xeon_d''), (210, ''via_c7m''), (211, ''via_c7d''), (212, ''via_c7''),
     (213, ''via_eden''), (214, ''multi_core_intel_xeon''), (215, ''dual_core_intel_xeon3_series''),
     (216, ''quad_core_intel_xeon3_series''), (217, ''via_nano''),
     (218, ''dual_core_intel_xeon5_series''), (219, ''quad_core_intel_xeon5_series''),
     (221, ''dual_core_intel_xeon7_series''), (222, ''quad_core_intel_xeon7_series''),
     (223, ''multi_core_intel_xeon7_series''), (224, ''multi_core_intel_xeon3400_series''),
     (228, ''amd_opteron3000_series''), (229, ''amd_sempron_ii''),
     (230, ''embedded_amd_opteron_quad_core''), (231, ''amd_phenom_triple_core''),
     (232, ''amd_turion_ultra_dual_core_mobile''), (233, ''amd_turion_dual_core_mobile''),
     (234, ''amd_athlon_dual_core''), (235, ''amd_sempron_si''), (236, ''amd_phenom_ii''),
     (237, ''amd_athlon_ii''), (238, ''six_core_amd_opteron''), (239, ''amd_sempron_m''),
     (250, ''i860''), (251, ''i960'')]
     (''reserved'') v"

definition processor_family2_to_string :: "int \<Rightarrow> cstring" where
  "processor_family2_to_string v = name_of [
     (256, ''armv7''), (257, ''armv8''), (258, ''armv9''), (260, ''sh3''), (261, ''sh4''),
     (280, ''arm''), (281, ''strongarm''), (300, ''6x86''), (301, ''media_gx''), (302, ''mii''),
     (320, ''win_chip''), (350, ''dsp''), (500, ''video_processor''), (512, ''riscv_rv32''),
     (513, ''riscv_rv64''), (514, ''riscv_rv128''), (600, ''loongarch''), (601, ''loongson1''),
     (602, ''loongson2''), (603, ''loongson3''), (604, ''loongson2k''), (605, ''loongson3a''),
     (606, ''loongson3b''), (607, ''loongson3c''), (608, ''loongson3d''), (609, ''loongson3e''),
     (610, ''dual_core_loongson2k''), (620, ''quad_core_loongson3a''),
     (621, ''multi_core_loongson3a''), (622, ''quad_core_loongson3b''),
     (623, ''multi_core_loongson3b''), (624, ''multi_core_loongson3c''),
     (625, ''multi_core_loongson3d''), (768, ''intel_core3''), (769, ''intel_core5''),
     (770, ''intel_core7''), (771, ''intel_core9''), (772, ''intel_core_ultra3''),
     (773, ''intel_core_ultra5''), (774, ''intel_core_ultra7''), (775, ''intel_core_ultra9'')]
     (processor_family_to_string (v AND 0xFF)) v"

definition processor_upgrade_to_string :: "int \<Rightarrow> cstring" where
  "processor_upgrade_to_string v = name_of [
     (1, ''other''), (2, ''unknown''), (3, ''daughter_board''), (4, ''zif_socket''),
     (5, ''piggy_back''), (6, ''none''), (7, ''lif_socket''), (8, ''slot1''), (9, ''slot2''),
     (10, ''370_pin_socket''), (11, ''SlotA''), (12, ''SlotM''), (13, ''Socket423''),
     (14, ''SocketA''), (15, ''Socket478''), (16, ''Socket754''), (17, ''Socket940''),
     (18, ''Socket939''), (19, ''mPGA604''), (20, ''LGA771''), (21, ''LGA775''), (22, ''S1''),
     (23, ''AM2''), (24, ''F1207''), (25, ''LGA1366''), (26, ''G34''), (27, ''AM3''), (28, ''C32''),
     (29, ''LGA1156''), (30, ''LGA1567''), (31, ''PGA988A''), (32, ''BGA1288''), (33, ''rPGA988B''),
     (34, ''BGA1023''), (35, ''BGA1224''), (36, ''LGA1155''), (37, ''LGA1356''), (38, ''LGA2011''),
     (39, ''FS1''), (40, ''FS2''), (41, ''FM1''), (42, ''FM2''), (43, ''LGA2011_3''),
     (44, ''LGA1356_3''), (45, ''LGA1150''), (46, ''BGA1168''), (47, ''BGA1234''), (48, ''BGA1364''),
     (49, ''AM4''), (50, ''LGA1151''), (51, ''BGA1356''), (52, ''BGA1440''), (53, ''BGA1515''),
     (54, ''LGA3647_1''), (55, ''SP3''), (56, ''SP3r2''), (57, ''LGA2066''), (58, ''BGA1392''),
     (59, ''BGA1510''), (60, ''BGA1528''), (61, ''LGA4189''), (62, ''LGA1200''), (63, ''LGA4677''),
     (64, ''LGA1700''), (65, ''BGA1744''), (66, ''BGA1781''), (67, ''BGA1211''), (68, ''BGA2422''),
     (69, ''LGA1211''), (70, ''LGA2422''), (71, ''LGA5773''), (72, ''BGA5773''), (73, ''AM5''),
     (74, ''SP5''), (75, ''SP6''), (76, ''BGA883''), (77, ''BGA1190''), (78, ''BGA4129''),
     (79, ''LGA4710''), (80, ''LGA7529''), (81, ''BGA1964''), (82, ''BGA1792''), (83, ''BGA2049''),
     (84, ''BGA2551''), (85, ''LGA1851''), (86, ''BGA2114''), (87, ''BGA2833'')]
     (''invalid'') v"

definition set_processor_feature_flags :: "ptr \<Rightarrow> (cstring \<Rightarrow> int) \<Rightarrow> sm_op" where
  "set_processor_feature_flags m f = with_map m ''features'' (\<lambda>fm. [
     set_bool fm ''fpu'' (f ''ProcessorFpu''),
     set_bool fm ''vme'' (f ''ProcessorVme''),
     set_bool fm ''de'' (f ''ProcessorDe''),
     set_bool fm ''pse'' (f ''ProcessorPse''),
     set_bool fm ''tsc'' (f ''ProcessorTsc''),
     set_bool fm ''msr'' (f ''ProcessorMsr''),
     set_bool fm ''pae'' (f ''ProcessorPae''),
     set_bool fm ''mce'' (f ''ProcessorMce''),
     set_bool fm ''cx8'' (f ''ProcessorCx8''),
     set_bool fm ''apic'' (f ''ProcessorApic'')])"

definition set_processor_characteristics :: "ptr \<Rightarrow> (cstring \<Rightarrow> int) \<Rightarrow> sm_op" where
  "set_processor_characteristics m f = with_map m ''characteristics'' (\<lambda>cm. [
     set_bool cm ''unknown'' (f ''ProcessorUnknown''),
     set_bool cm ''64bit_capable'' (f ''Processor64BitCapable''),
     set_bool cm ''multi_core'' (f ''ProcessorMultiCore''),
     set_bool cm ''hardware_thread'' (f ''ProcessorHardwareThread''),
     set_bool cm ''execute_protection'' (f ''ProcessorExecuteProtection''),
     set_bool cm ''enhanced_virtualization'' (f ''ProcessorEnhancedVirtualization''),
     set_bool cm ''power_performance_ctrl'' (f ''ProcessorPowerPerformanceCtrl''),
     set_bool cm ''128bit_capable'' (f ''Processor128BitCapable''),
     set_bool cm ''arm64_soc_id'' (f ''ProcessorArm64SocId'')])"

definition smbios_load_type4 :: sm_loader where
  "smbios_load_type4 E m copy =
     (let t = se_field E ''SMBIOS_TABLE_TYPE4'' copy in sm_run [
       set_name E copy m ''socket'' (t ''Socket''),
       set_name E copy m ''manufacturer'' (t ''ProcessorManufacturer''),
       set_name E copy m ''version'' (t ''ProcessorVersion''),
       set_name E copy m ''serial_number'' (t ''SerialNumber''),
       set_name E copy m ''asset_tag'' (t ''AssetTag''),
       set_name E copy m ''part_number'' (t ''PartNumber''),
       set_text m ''type'' (processor_type_to_string (t ''ProcessorType'')),
       if_ver 2 6 (t ''ProcessorFamily'' = 0xfe) [
         set_text m ''family'' (processor_family2_to_string (t ''ProcessorFamily2''))] [
         set_text m ''family'' (processor_family_to_string (t ''ProcessorFamily''))],
       set_int m ''external_clock'' (t ''ExternalClock''),
       set_int m ''max_speed'' (t ''MaxSpeed''),
       set_int m ''current_speed'' (t ''CurrentSpeed''),
       set_int m ''status'' (t ''Status''),
       set_text m ''processor_upgrade'' (processor_upgrade_to_string (t ''ProcessorUpgrade'')),
       set_int m ''l1_cache_handle'' (t ''L1CacheHandle''),
       set_int m ''l2_cache_handle'' (t ''L2CacheHandle''),
       set_int m ''l3_cache_handle'' (t ''L3CacheHandle''),
       from_ver 2 5 [
         set_int m ''core_count'' (t ''CoreCount''),
         set_int m ''enabled_core_count'' (t ''EnabledCoreCount''),
         set_int m ''thread_count'' (t ''ThreadCount''),
         set_processor_characteristics m
        (se_field E ''PROCESSOR_CHARACTERISTIC_FLAGS''
          (bytes_at E copy ''SMBIOS_TABLE_TYPE4'' ''ProcessorCharacteristics'' (se_sizeof E ''PROCESSOR_CHARACTERISTIC_FLAGS'')))],
       set_processor_feature_flags m
        (se_field E ''PROCESSOR_FEATURE_FLAGS''
          (bytes_at E copy ''SMBIOS_TABLE_TYPE4'' ''ProcessorId.FeatureFlags'' (se_sizeof E ''PROCESSOR_FEATURE_FLAGS''))),
       if_ver 3 0 (True) [
         set_int m ''core_count'' (if t ''CoreCount'' = 0xFF then t ''CoreCount2'' else t ''CoreCount''),
         set_int m ''enabled_core_count'' (if t ''EnabledCoreCount'' = 0xFF then t ''EnabledCoreCount2'' else t ''EnabledCoreCount''),
         set_int m ''thread_count'' (if t ''ThreadCount'' = 0xFF then t ''ThreadCount2'' else t ''ThreadCount'')] [
         set_int m ''core_count'' (t ''CoreCount''),
         set_int m ''enabled_core_count'' (t ''EnabledCoreCount''),
         set_int m ''thread_count'' (t ''ThreadCount'')],
       from_ver 3 6 [
         set_int m ''thread_enabled'' (t ''ThreadEnabled'')],
       from_ver 3 8 [
         set_name E copy m ''socket_type'' (t ''SocketType'')]])"

subsection \<open>Type 5\<close>

definition memory_error_detect_method :: "cstring list" where
  "memory_error_detect_method = [
     ''other'', ''unknown'', ''none'', ''parity'', ''single_bit_ecc'', ''multi_bit_ecc'', ''crc'']"

definition memory_support_interleave_type :: "cstring list" where
  "memory_support_interleave_type = [
     ''other'', ''unknown'', ''none'', ''interleave_2_way'', ''interleave_4_way'', ''interleave_8_way'']"

definition smbios_load_type5 :: sm_loader where
  "smbios_load_type5 E m copy =
     (let t = se_field E ''SMBIOS_TABLE_TYPE5'' copy in sm_run [
       set_text m ''error_detect_method'' (named memory_error_detect_method (t ''ErrDetectMethod'')),
       set_text m ''support_interleave'' (named memory_support_interleave_type (t ''SupportInterleave'')),
       set_text m ''current_interleave'' (named memory_support_interleave_type (t ''CurrentInterleave'')),
       set_int m ''max_memory_module_size'' (t ''MaxMemoryModuleSize''),
       set_int m ''support_memory_type'' (t ''SupportMemoryType''),
       set_int m ''memory_module_voltage'' (t ''MemoryModuleVoltage''),
       set_int m ''associated_memory_slot_num'' (t ''AssociatedMemorySlotNum'')])"

subsection \<open>Type 6\<close>

definition smbios_load_type6 :: sm_loader where
  "smbios_load_type6 E m copy =
     (let t = se_field E ''SMBIOS_TABLE_TYPE6'' copy in sm_run [
       set_int m ''error_status'' (t ''ErrorStatus''),
       set_int m ''current_speed'' (t ''CurrentSpeed'')])"

subsection \<open>Type 7\<close>

definition cache_error_type :: "cstring list" where
  "cache_error_type = [
     ''null'', ''other'', ''unknown'', ''none'', ''parity'', ''single_bit_ecc'', ''multi_bit_ecc'']"

definition cache_type :: "cstring list" where
  "cache_type = [
     ''null'', ''other'', ''unknown'', ''instruction'', ''data'', ''unified'']"

definition cache_associativity :: "cstring list" where
  "cache_associativity = [
     ''null'', ''other'', ''unknown'', ''direct_mapped'', ''2_way'', ''4_way'', ''fully'', ''8_way'',
     ''16_way'', ''12_way'', ''24_way'', ''32_way'', ''48_way'', ''64_way'', ''20_way'']"

definition smbios_load_type7 :: sm_loader where
  "smbios_load_type7 E m copy =
     (let t = se_field E ''SMBIOS_TABLE_TYPE7'' copy in sm_run [
       set_name E copy m ''socket_designation'' (t ''SocketDesignation''),
       set_int m ''cache_configuration'' (t ''CacheConfiguration''),
       if_ver 3 1 (t ''MaximumCacheSize'' = 0xFFFF) [
         set_int m ''maximum_cache_size'' (t ''MaximumCacheSize2'')] [
         set_int m ''maximum_cache_size'' (t ''MaximumCacheSize'')],
       if_ver 3 1 (t ''InstalledSize'' = 0xFFFF) [
         set_int m ''installed_size'' (t ''InstalledSize2'')] [
         set_int m ''installed_size'' (t ''InstalledSize'')],
       set_bool m ''sram_supported.other'' (t ''SupportedSRAMType.Other''),
       set_bool m ''sram_supported.unknown'' (t ''SupportedSRAMType.Unknown''),
       set_bool m ''sram_supported.non_burst'' (t ''SupportedSRAMType.NonBurst''),
       set_bool m ''sram_supported.burst'' (t ''SupportedSRAMType.Burst''),
       set_bool m ''sram_supported.pipeline_burst'' (t ''SupportedSRAMType.PipelineBurst''),
       set_bool m ''sram_supported.synchronous'' (t ''SupportedSRAMType.Synchronous''),
       set_bool m ''sram_supported.asynchronous'' (t ''SupportedSRAMType.Asynchronous''),
       set_bool m ''sram_current.other'' (t ''CurrentSRAMType.Other''),
       set_bool m ''sram_current.unknown'' (t ''CurrentSRAMType.Unknown''),
       set_bool m ''sram_current.non_burst'' (t ''CurrentSRAMType.NonBurst''),
       set_bool m ''sram_current.burst'' (t ''CurrentSRAMType.Burst''),
       set_bool m ''sram_current.pipeline_burst'' (t ''CurrentSRAMType.PipelineBurst''),
       set_bool m ''sram_current.synchronous'' (t ''CurrentSRAMType.Synchronous''),
       set_bool m ''sram_current.asynchronous'' (t ''CurrentSRAMType.Asynchronous''),
       set_int m ''cache_speed'' (t ''CacheSpeed''),
       set_text m ''error_correction_type'' (named cache_error_type (t ''ErrorCorrectionType'')),
       set_text m ''system_cache_type'' (named cache_type (t ''SystemCacheType'')),
       set_text m ''associativity'' (named cache_associativity (t ''Associativity''))])"

subsection \<open>Type 8\<close>

definition port_connector_type_to_string :: "int \<Rightarrow> cstring" where
  "port_connector_type_to_string v = name_of [
     (0, ''none''), (1, ''centronics''), (2, ''mini_centronics''), (3, ''proprietary''),
     (4, ''db25_male''), (5, ''db25_female''), (6, ''db15_male''), (7, ''db15_female''),
     (8, ''db9_male''), (9, ''db9_female''), (10, ''rj11''), (11, ''rj45''), (12, ''50pin_mini_scsi''),
     (13, ''mini_din''), (14, ''micro_din''), (15, ''ps2''), (16, ''infrared''), (17, ''hp_hil''),
     (18, ''usb''), (19, ''ssa_scsi''), (20, ''circular_din8_male''), (21, ''circular_din8_female''),
     (22, ''onboard_ide''), (23, ''onboard_floppy''), (24, ''9pin_dual_inline''),
     (25, ''25pin_dual_inline''), (26, ''50pin_dual_inline''), (27, ''68pin_dual_inline''),
     (28, ''onboard_sound_input''), (29, ''mini_centronics_type14''), (30, ''mini_centronics_type26''),
     (31, ''headphone_mini_jack''), (32, ''bnc''), (33, ''1394''), (34, ''sas_sata''),
     (35, ''usb_type_c''), (255, ''other'')]
     (''unknown'') v"

definition port_type_to_string :: "int \<Rightarrow> cstring" where
  "port_type_to_string v = name_of [
     (0, ''none''), (1, ''parallel_xt_at_compatible''), (2, ''parallel_port_ps2''),
     (3, ''parallel_port_ecp''), (4, ''parallel_port_epp''), (5, ''parallel_port_ecp_epp''),
     (6, ''serial_xt_at_compatible''), (7, ''serial_16450_compatible''),
     (8, ''serial_16550_compatible''), (9, ''serial_16550a_compatible''), (10, ''scsi''),
     (11, ''midi''), (12, ''joy_stick''), (13, ''keyboard''), (14, ''mouse''), (15, ''ssa_scsi''),
     (16, ''usb''), (17, ''firewire''), (18, ''pcmcia_type_i''), (19, ''pcmcia_type_ii''),
     (20, ''pcmcia_type_iii''), (21, ''cardbus''), (22, ''access_bus_port''), (23, ''scsi_ii''),
     (24, ''scsi_wide''), (25, ''pc98''), (26, ''pc98_hireso''), (27, ''pch98''), (28, ''video_port''),
     (29, ''audio_port''), (30, ''modem_port''), (31, ''network_port''), (32, ''sata''), (33, ''sas''),
     (34, ''mfdp''), (35, ''thunderbolt''), (255, ''other'')]
     (''unknown'') v"

definition smbios_load_type8 :: sm_loader where
  "smbios_load_type8 E m copy =
     (let t = se_field E ''SMBIOS_TABLE_TYPE8'' copy in sm_run [
       set_name E copy m ''internal_reference_designator'' (t ''InternalReferenceDesignator''),
       set_text m ''internal_connector_type'' (port_connector_type_to_string (t ''InternalConnectorType'')),
       set_name E copy m ''external_reference_designator'' (t ''ExternalReferenceDesignator''),
       set_text m ''external_connector_type'' (port_connector_type_to_string (t ''ExternalConnectorType'')),
       set_text m ''port_type'' (port_type_to_string (t ''PortType''))])"

subsection \<open>Type 9\<close>

definition slot_type_to_string :: "int \<Rightarrow> cstring" where
  "slot_type_to_string v = name_of [
     (1, ''other''), (2, ''unknown''), (3, ''isa''), (4, ''mca''), (5, ''eisa''), (6, ''pci''),
     (7, ''pcmcia''), (8, ''vl_vesa''), (9, ''proprietary''), (10, ''processor_card_slot''),
     (11, ''proprietary_memory_card_slot''), (12, ''io_riser_card_slot''), (13, ''nubus''),
     (14, ''pci_66mhz_capable''), (15, ''agp''), (16, ''agp_2x''), (17, ''agp_4x''), (18, ''pci_x''),
     (19, ''agp_8x''), (165, ''pci_express''), (166, ''pci_express_x1''), (167, ''pci_express_x2''),
     (168, ''pci_express_x4''), (169, ''pci_express_x8''), (170, ''pci_express_x16''),
     (171, ''pci_express_gen2''), (172, ''pci_express_gen2_x1''), (173, ''pci_express_gen2_x2''),
     (174, ''pci_express_gen2_x4''), (175, ''pci_express_gen2_x8''), (176, ''pci_express_gen2_x16''),
     (177, ''pci_express_gen3''), (178, ''pci_express_gen3_x1''), (179, ''pci_express_gen3_x2''),
     (180, ''pci_express_gen3_x4''), (181, ''pci_express_gen3_x8''), (182, ''pci_express_gen3_x16''),
     (184, ''pci_express_gen4''), (185, ''pci_express_gen4_x1''), (186, ''pci_express_gen4_x2''),
     (187, ''pci_express_gen4_x4''), (188, ''pci_express_gen4_x8''), (189, ''pci_express_gen4_x16''),
     (190, ''pci_express_gen5''), (191, ''pci_express_gen5_x1''), (192, ''pci_express_gen5_x2''),
     (193, ''pci_express_gen5_x4''), (194, ''pci_express_gen5_x8''), (195, ''pci_express_gen5_x16'')]
     (''unknown'') v"

definition slot_usage_to_string :: "int \<Rightarrow> cstring" where
  "slot_usage_to_string v = name_of [
     (1, ''other''), (2, ''unknown''), (3, ''available''), (4, ''in_use''), (5, ''unavailable'')]
     (''unknown'') v"

definition slot_length_to_string :: "int \<Rightarrow> cstring" where
  "slot_length_to_string v = name_of [
     (1, ''other''), (2, ''unknown''), (3, ''short''), (4, ''long'')]
     (''unknown'') v"

definition smbios_load_type9 :: sm_loader where
  "smbios_load_type9 E m copy =
     (let t = se_field E ''SMBIOS_TABLE_TYPE9'' copy;
          offset = se_offset E ''SMBIOS_TABLE_TYPE9'' ''PeerGroups''; sz = se_sizeof E ''MISC_SLOT_PEER_GROUP''
      in sm_run [
       set_name E copy m ''slot_designation'' (t ''SlotDesignation''),
       set_text m ''slot_type'' (slot_type_to_string (t ''SlotType'')),
       set_int m ''slot_data_bus_width'' (t ''SlotDataBusWidth''),
       set_text m ''current_usage'' (slot_usage_to_string (t ''CurrentUsage'')),
       set_text m ''slot_length'' (slot_length_to_string (t ''SlotLength'')),
       set_int m ''slot_id'' (t ''SlotID''),
       with_map m ''characteristics'' (\<lambda>cm. [
         set_bool cm ''characteristics_unknown'' (t ''SlotCharacteristics1.CharacteristicsUnknown''),
         set_bool cm ''provides_50_volts'' (t ''SlotCharacteristics1.Provides50Volts''),
         set_bool cm ''provides_33_volts'' (t ''SlotCharacteristics1.Provides33Volts''),
         set_bool cm ''shared_slot'' (t ''SlotCharacteristics1.SharedSlot''),
         set_bool cm ''pc_card_16_supported'' (t ''SlotCharacteristics1.PcCard16Supported''),
         set_bool cm ''cardbus_supported'' (t ''SlotCharacteristics1.CardBusSupported''),
         set_bool cm ''zoom_video_supported'' (t ''SlotCharacteristics1.ZoomVideoSupported''),
         set_bool cm ''modem_ring_resume_supported'' (t ''SlotCharacteristics1.ModemRingResumeSupported''),
         set_bool cm ''pme_signal_supported'' (t ''SlotCharacteristics2.PmeSignalSupported''),
         set_bool cm ''hot_plug_devices_supported'' (t ''SlotCharacteristics2.HotPlugDevicesSupported''),
         set_bool cm ''smbus_signal_supported'' (t ''SlotCharacteristics2.SmbusSignalSupported''),
         set_bool cm ''bifurcation_supported'' (t ''SlotCharacteristics2.BifurcationSupported''),
         set_bool cm ''async_surprise_removal'' (t ''SlotCharacteristics2.AsyncSurpriseRemoval''),
         set_bool cm ''flexbus_slot_cxl10_capable'' (t ''SlotCharacteristics2.FlexbusSlotCxl10Capable''),
         set_bool cm ''flexbus_slot_cxl20_capable'' (t ''SlotCharacteristics2.FlexbusSlotCxl20Capable''),
         from_ver 3 7 [
           set_bool cm ''flexbus_slot_cxl30_capable'' (t ''SlotCharacteristics2.FlexbusSlotCxl30Capable'')],
         from_ver 2 6 [
           set_int m ''segment_group_num'' (t ''SegmentGroupNum''),
           set_int m ''bus_num'' (t ''BusNum''),
           set_int m ''dev_func_num'' (t ''DevFuncNum'')],
         from_ver 3 2 [
           set_int m ''data_bus_width'' (t ''DataBusWidth''),
           set_int m ''peer_grouping_count'' (t ''PeerGroupingCount''),
           with_array m ''peer_groups'' (\<lambda>peer_array.
             map (\<lambda>i. let g = se_field E ''MISC_SLOT_PEER_GROUP'' (take sz (drop (offset + i * sz) copy)) in
               with_item peer_array (\<lambda>peer. [
                 set_int peer ''segment_group_num'' (g ''SegmentGroupNum''),
                 set_int peer ''bus_num'' (g ''BusNum''),
                 set_int peer ''dev_func_num'' (g ''DevFuncNum''),
                 set_int peer ''data_bus_width'' (g ''DataBusWidth'')]))
               [0..<min ((copy_length copy - offset) div sz) (nat (t ''PeerGroupingCount''))])]])])"

subsection \<open>Type 10\<close>

definition smbios_load_type10 :: sm_loader where
  "smbios_load_type10 E m copy =
     (let offset = se_offset E ''SMBIOS_TABLE_TYPE10'' ''Device''; sz = se_sizeof E ''DEVICE_STRUCT'';
          n = (copy_length copy - offset) div sz
      in sm_run [
       set_int m ''device_count'' (int n),
       with_array m ''devices'' (\<lambda>device_array.
         map (\<lambda>i. let e = se_field E ''DEVICE_STRUCT'' (take sz (drop (offset + i * sz) copy)) in
           with_item device_array (\<lambda>device. [
             set_int device ''type'' (e ''DeviceType'' AND 0x7F),
             set_bool device ''enabled'' (e ''DeviceType'' AND 0x80),
             set_name E copy device ''description'' (e ''DescriptionString'')])) [0..<n])])"

subsection \<open>Type 11\<close>

definition smbios_load_type11 :: sm_loader where
  "smbios_load_type11 E m copy =
     (let t = se_field E ''SMBIOS_TABLE_TYPE11'' copy in sm_run [
       set_int m ''count'' (t ''StringCount'')])"

subsection \<open>Type 12\<close>

definition smbios_load_type12 :: sm_loader where
  "smbios_load_type12 E m copy =
     (let t = se_field E ''SMBIOS_TABLE_TYPE12'' copy in sm_run [
       set_int m ''count'' (t ''StringCount'')])"

subsection \<open>Type 13\<close>

definition smbios_load_type13 :: sm_loader where
  "smbios_load_type13 E m copy =
     (let t = se_field E ''SMBIOS_TABLE_TYPE13'' copy in sm_run [
       set_int m ''installable_languages'' (t ''InstallableLanguages''),
       set_int m ''flags'' (t ''Flags''),
       set_name E copy m ''current_languages'' (t ''CurrentLanguages'')])"

subsection \<open>Type 14\<close>

definition smbios_load_type14 :: sm_loader where
  "smbios_load_type14 E m copy =
     (let t = se_field E ''SMBIOS_TABLE_TYPE14'' copy;
          offset = se_offset E ''SMBIOS_TABLE_TYPE14'' ''Group''; sz = se_sizeof E ''GROUP_STRUCT'';
          n = (copy_length copy - offset) div sz
      in sm_run [
       set_name E copy m ''name'' (t ''GroupName''),
       set_int m ''count'' (int n),
       with_array m ''items'' (\<lambda>p.
         map (\<lambda>i. let e = se_field E ''GROUP_STRUCT'' (take sz (drop (offset + i * sz) copy)) in
           with_item p (\<lambda>v. [
             set_int v ''type'' (e ''ItemType''),
             set_int v ''handle'' (e ''ItemHandle'')])) [0..<n])])"

subsection \<open>Type 15\<close>

definition smbios_load_type15 :: sm_loader where
  "smbios_load_type15 E m copy =
     (let t = se_field E ''SMBIOS_TABLE_TYPE15'' copy;
          offset = se_offset E ''SMBIOS_TABLE_TYPE15'' ''EventLogTypeDescriptors'';
          sz = se_sizeof E ''EVENT_LOG_TYPE'';
          item_size = nat (t ''LengthOfLogTypeDescriptor'');
          n = min (if item_size \<ge> sz then (copy_length copy - offset) div item_size else 0)
                (nat (t ''NumberOfSupportedLogTypeDescriptors''))
      in sm_run [
       set_int m ''log_area_length'' (t ''LogAreaLength''),
       set_int m ''log_header_start_offset'' (t ''LogHeaderStartOffset''),
       set_int m ''log_data_start_offset'' (t ''LogDataStartOffset''),
       set_int m ''access_method'' (t ''AccessMethod''),
       set_int m ''log_status'' (t ''LogStatus''),
       set_int m ''log_change_token'' (t ''LogChangeToken''),
       set_int m ''access_method_address'' (t ''AccessMethodAddress''),
       set_int m ''log_header_format'' (t ''LogHeaderFormat''),
       set_int m ''number_of_supported_log_type_descriptors'' (t ''NumberOfSupportedLogTypeDescriptors''),
       set_int m ''length_of_log_type_descriptor'' (t ''LengthOfLogTypeDescriptor''),
       with_array m ''event_log_type_descriptors'' (\<lambda>descriptors_array.
         map (\<lambda>i. let e = se_field E ''EVENT_LOG_TYPE'' (take sz (drop (offset + i * item_size) copy)) in
           with_item descriptors_array (\<lambda>descriptor. [
             set_int descriptor ''log_type'' (e ''LogType''),
             set_int descriptor ''data_format_type'' (e ''DataFormatType'')])) [0..<n])])"

subsection \<open>Type 16\<close>

definition memory_array_location :: "cstring list" where
  "memory_array_location = [
     ''null'', ''other'', ''unknown'', ''system_board'', ''isa_addon_card'', ''eisa_addon_card'',
     ''pci_addon_card'', ''mca_addon_card'', ''pcmcia_addon_card'', ''proprietary_addon_card'',
     ''nubus'']"

definition memory_array_use :: "cstring list" where
  "memory_array_use = [
     ''null'', ''other'', ''unknown'', ''system_memory'', ''video_memory'', ''flash_memory'',
     ''non_volatile_ram'', ''cache_memory'']"

definition memory_error_correction :: "cstring list" where
  "memory_error_correction = [
     ''null'', ''other'', ''unknown'', ''none'', ''parity'', ''single_bit_ecc'', ''multi_bit_ecc'',
     ''crc'']"

definition smbios_load_type16 :: sm_loader where
  "smbios_load_type16 E m copy =
     (let t = se_field E ''SMBIOS_TABLE_TYPE16'' copy in sm_run [
       set_text m ''location'' (named memory_array_location (t ''Location'')),
       set_text m ''use'' (named memory_array_use (t ''Use'')),
       set_text m ''memory_error_correction'' (named memory_error_correction (t ''MemoryErrorCorrection'')),
       if_ver 2 7 (t ''MaximumCapacity'' = 0x80000000) [
         set_int m ''maximum_capacity'' (t ''ExtendedMaximumCapacity'')] [
         set_int m ''maximum_capacity'' (t ''MaximumCapacity'')],
       set_int m ''memory_error_information_handle'' (t ''MemoryErrorInformationHandle''),
       set_int m ''number_of_memory_devices'' (t ''NumberOfMemoryDevices'')])"

subsection \<open>Type 17\<close>

definition memory_form_factor :: "cstring list" where
  "memory_form_factor = [
     ''null'', ''other'', ''unknown'', ''simm'', ''sip'', ''chip'', ''dip'', ''zip'',
     ''proprietary_card'', ''dimm'', ''tsop'', ''row_of_chips'', ''rimm'', ''sodimm'', ''srimm'',
     ''fb_dimm'', ''die'', ''camm'']"

definition memory_device_type :: "cstring list" where
  "memory_device_type = [
     ''null'', ''other'', ''unknown'', ''dram'', ''edram'', ''vram'', ''sram'', ''ram'', ''rom'',
     ''flash'', ''eeprom'', ''feprom'', ''eprom'', ''cdram'', ''3dram'', ''sdram'', ''sgram'',
     ''rdram'', ''ddr'', ''ddr2'', ''ddr2_fb_dimm'', ''reserved1'', ''reserved2'', ''reserved3'',
     ''ddr3'', ''fbd2'', ''ddr4'', ''lpddr'', ''lpddr2'', ''lpddr3'', ''lpddr4'',
     ''logical_non_volatile_device'', ''hbm'', ''hbm2'', ''ddr5'', ''lpddr5'', ''hbm3'']"

definition memory_technology :: "cstring list" where
  "memory_technology = [
     ''null'', ''other'', ''unknown'', ''dram'', ''nvdimm_n'', ''nvdimm_f'', ''nvdimm_p'',
     ''intel_optane_persistent_memory'']"

definition smbios_load_type17 :: sm_loader where
  "smbios_load_type17 E m copy =
     (let t = se_field E ''SMBIOS_TABLE_TYPE17'' copy in sm_run [
       set_int m ''memory_array_handle'' (t ''MemoryArrayHandle''),
       set_int m ''memory_error_information_handle'' (t ''MemoryErrorInformationHandle''),
       set_int m ''total_width'' (t ''TotalWidth''),
       set_int m ''data_width'' (t ''DataWidth''),
       if_ver 2 7 (t ''Size'' = 0x7FFF) [
         set_int m ''size'' (t ''ExtendedSize'')] [
         set_int m ''size'' (t ''Size'')],
       set_text m ''form_factor'' (named memory_form_factor (t ''FormFactor'')),
       set_int m ''device_set'' (t ''DeviceSet''),
       set_name E copy m ''device_locator'' (t ''DeviceLocator''),
       set_name E copy m ''bank_locator'' (t ''BankLocator''),
       set_text m ''memory_type'' (named memory_device_type (t ''MemoryType'')),
       set_bool m ''type_detail.other'' (t ''TypeDetail.Other''),
       set_bool m ''type_detail.unknown'' (t ''TypeDetail.Unknown''),
       set_bool m ''type_detail.fast_paged'' (t ''TypeDetail.FastPaged''),
       set_bool m ''type_detail.static_column'' (t ''TypeDetail.StaticColumn''),
       set_bool m ''type_detail.pseudo_static'' (t ''TypeDetail.PseudoStatic''),
       set_bool m ''type_detail.rambus'' (t ''TypeDetail.Rambus''),
       set_bool m ''type_detail.synchronous'' (t ''TypeDetail.Synchronous''),
       set_bool m ''type_detail.cmos'' (t ''TypeDetail.Cmos''),
       set_bool m ''type_detail.edo'' (t ''TypeDetail.Edo''),
       set_bool m ''type_detail.window_dram'' (t ''TypeDetail.WindowDram''),
       set_bool m ''type_detail.cache_dram'' (t ''TypeDetail.CacheDram''),
       set_bool m ''type_detail.nonvolatile'' (t ''TypeDetail.Nonvolatile''),
       set_bool m ''type_detail.registered'' (t ''TypeDetail.Registered''),
       set_bool m ''type_detail.unbuffered'' (t ''TypeDetail.Unbuffered''),
       set_bool m ''type_detail.lr_dimm'' (t ''TypeDetail.LrDimm''),
       set_int m ''speed'' (t ''Speed''),
       set_name E copy m ''manufacturer'' (t ''Manufacturer''),
       set_name E copy m ''serial_number'' (t ''SerialNumber''),
       set_name E copy m ''asset_tag'' (t ''AssetTag''),
       set_name E copy m ''part_number'' (t ''PartNumber''),
       from_ver 2 6 [
         set_int m ''attributes'' (t ''Attributes'')],
       from_ver 2 7 [
         set_int m ''configured_memory_clock_speed'' (t ''ConfiguredMemoryClockSpeed'')],
       from_ver 2 8 [
         set_int m ''minimum_voltage'' (t ''MinimumVoltage''),
         set_int m ''maximum_voltage'' (t ''MaximumVoltage''),
         set_int m ''configured_voltage'' (t ''ConfiguredVoltage'')],
       from_ver 3 2 [
         set_text m ''memory_technology'' (named memory_technology (t ''MemoryTechnology'')),
         set_bool m ''operating_mode_other'' (t ''MemoryOperatingModeCapability.Bits.Other''),
         set_bool m ''operating_mode_unknown'' (t ''MemoryOperatingModeCapability.Bits.Unknown''),
         set_bool m ''operating_mode_volatile_memory'' (t ''MemoryOperatingModeCapability.Bits.VolatileMemory''),
         set_bool m ''operating_mode_byte_accessible_persistent_memory'' (t ''MemoryOperatingModeCapability.Bits.ByteAccessiblePersistentMemory''),
         set_bool m ''operating_mode_block_accessible_persistent_memory'' (t ''MemoryOperatingModeCapability.Bits.BlockAccessiblePersistentMemory''),
         set_name E copy m ''firmware_version'' (t ''FirmwareVersion''),
         set_int m ''module_manufacturer_id'' (t ''ModuleManufacturerID''),
         set_int m ''module_product_id'' (t ''ModuleProductID''),
         set_int m ''memory_subsystem_controller_manufacturer_id'' (t ''MemorySubsystemControllerManufacturerID''),
         set_int m ''memory_subsystem_controller_product_id'' (t ''MemorySubsystemControllerProductID''),
         set_int m ''non_volatile_size'' (t ''NonVolatileSize''),
         set_int m ''volatile_size'' (t ''VolatileSize''),
         set_int m ''cache_size'' (t ''CacheSize''),
         set_int m ''logical_size'' (t ''LogicalSize'')],
       from_ver 3 3 [
         set_int m ''extended_speed'' (t ''ExtendedSpeed''),
         set_int m ''extended_configured_memory_speed'' (t ''ExtendedConfiguredMemorySpeed'')],
       from_ver 3 7 [
         set_int m ''pmic0_manufacturer_id'' (t ''Pmic0ManufacturerID''),
         set_int m ''pmic0_revision_number'' (t ''Pmic0RevisionNumber''),
         set_int m ''rcd_manufacturer_id'' (t ''RcdManufacturerID''),
         set_int m ''rcd_revision_number'' (t ''RcdRevisionNumber'')]])"

subsection \<open>Type 18\<close>

definition smbios_load_type18 :: sm_loader where
  "smbios_load_type18 E m copy =
     (let t = se_field E ''SMBIOS_TABLE_TYPE18'' copy in sm_run [
       set_int m ''error_type'' (t ''ErrorType''),
       set_int m ''error_granularity'' (t ''ErrorGranularity''),
       set_int m ''error_operation'' (t ''ErrorOperation''),
       set_int m ''vendor_syndrome'' (t ''VendorSyndrome''),
       set_int m ''memory_array_error_address'' (t ''MemoryArrayErrorAddress''),
       set_int m ''device_error_address'' (t ''DeviceErrorAddress''),
       set_int m ''error_resolution'' (t ''ErrorResolution'')])"

subsection \<open>Type 19\<close>

definition smbios_load_type19 :: sm_loader where
  "smbios_load_type19 E m copy =
     (let t = se_field E ''SMBIOS_TABLE_TYPE19'' copy in sm_run [
       set_int m ''starting_address'' (t ''StartingAddress''),
       set_int m ''ending_address'' (t ''EndingAddress''),
       set_int m ''memory_array_handle'' (t ''MemoryArrayHandle''),
       set_int m ''partition_width'' (t ''PartitionWidth''),
       from_ver 2 7 [
         set_int m ''extended_starting_address'' (t ''ExtendedStartingAddress''),
         set_int m ''extended_ending_address'' (t ''ExtendedEndingAddress'')]])"

subsection \<open>Type 20\<close>

definition smbios_load_type20 :: sm_loader where
  "smbios_load_type20 E m copy =
     (let t = se_field E ''SMBIOS_TABLE_TYPE20'' copy in sm_run [
       set_int m ''starting_address'' (t ''StartingAddress''),
       set_int m ''ending_address'' (t ''EndingAddress''),
       set_int m ''memory_device_handle'' (t ''MemoryDeviceHandle''),
       set_int m ''memory_array_mapped_address_handle'' (t ''MemoryArrayMappedAddressHandle''),
       set_int m ''partition_row_position'' (t ''PartitionRowPosition''),
       set_int m ''interleave_position'' (t ''InterleavePosition''),
       set_int m ''interleaved_data_depth'' (t ''InterleavedDataDepth''),
       from_ver 2 7 [
         set_int m ''extended_starting_address'' (t ''ExtendedStartingAddress''),
         set_int m ''extended_ending_address'' (t ''ExtendedEndingAddress'')]])"

subsection \<open>Type 21\<close>

definition smbios_load_type21 :: sm_loader where
  "smbios_load_type21 E m copy =
     (let t = se_field E ''SMBIOS_TABLE_TYPE21'' copy in sm_run [
       set_int m ''type'' (t ''Type''),
       set_int m ''interface'' (t ''Interface''),
       set_int m ''number_of_buttons'' (t ''NumberOfButtons'')])"

subsection \<open>Type 22\<close>

definition smbios_load_type22 :: sm_loader where
  "smbios_load_type22 E m copy =
     (let t = se_field E ''SMBIOS_TABLE_TYPE22'' copy in sm_run [
       set_name E copy m ''location'' (t ''Location''),
       set_name E copy m ''manufacturer'' (t ''Manufacturer''),
       set_name E copy m ''manufacturer_date'' (t ''ManufactureDate''),
       set_name E copy m ''serial_number'' (t ''SerialNumber''),
       set_name E copy m ''device_name'' (t ''DeviceName''),
       set_int m ''device_chemistry'' (t ''DeviceChemistry''),
       set_int m ''device_capacity'' (t ''DeviceCapacity''),
       set_int m ''design_voltage'' (t ''DesignVoltage''),
       set_name E copy m ''sbds_version_number'' (t ''SBDSVersionNumber''),
       set_int m ''maximum_error_in_battery_data'' (t ''MaximumErrorInBatteryData''),
       from_ver 2 2 [
         set_int m ''sbds_serial_number'' (t ''SBDSSerialNumber''),
         set_int m ''sbds_manufacture_date'' (t ''SBDSManufactureDate''),
         set_name E copy m ''sbds_device_chemistry'' (t ''SBDSDeviceChemistry''),
         set_int m ''design_capacity_multiplier'' (t ''DesignCapacityMultiplier''),
         set_int m ''oem_specific'' (t ''OEMSpecific'')]])"

subsection \<open>Type 23\<close>

definition smbios_load_type23 :: sm_loader where
  "smbios_load_type23 E m copy =
     (let t = se_field E ''SMBIOS_TABLE_TYPE23'' copy in sm_run [
       set_int m ''capabilities'' (t ''Capabilities''),
       set_int m ''reset_count'' (t ''ResetCount''),
       set_int m ''reset_limit'' (t ''ResetLimit''),
       set_int m ''timer_interval'' (t ''TimerInterval''),
       set_int m ''timeout'' (t ''Timeout'')])"

subsection \<open>Type 24\<close>

definition smbios_load_type24 :: sm_loader where
  "smbios_load_type24 E m copy =
     (let t = se_field E ''SMBIOS_TABLE_TYPE24'' copy in sm_run [
       set_int m ''hardware_security_settings'' (t ''HardwareSecuritySettings'')])"

subsection \<open>Type 25\<close>

definition smbios_load_type25 :: sm_loader where
  "smbios_load_type25 E m copy =
     (let t = se_field E ''SMBIOS_TABLE_TYPE25'' copy in sm_run [
       set_int m ''next_scheduled_power_on_month'' (t ''NextScheduledPowerOnMonth''),
       set_int m ''next_scheduled_power_on_day_of_month'' (t ''NextScheduledPowerOnDayOfMonth''),
       set_int m ''next_scheduled_power_on_hour'' (t ''NextScheduledPowerOnHour''),
       set_int m ''next_scheduled_power_on_minute'' (t ''NextScheduledPowerOnMinute''),
       set_int m ''next_scheduled_power_on_second'' (t ''NextScheduledPowerOnSecond'')])"

subsection \<open>Type 26\<close>

definition smbios_load_type26 :: sm_loader where
  "smbios_load_type26 E m copy =
     (let t = se_field E ''SMBIOS_TABLE_TYPE26'' copy in sm_run [
       set_name E copy m ''description'' (t ''Description''),
       set_int m ''voltage_probe_site'' (t ''LocationAndStatus.VoltageProbeSite''),
       set_int m ''voltage_probe_status'' (t ''LocationAndStatus.VoltageProbeStatus''),
       set_int m ''maximum_value'' (t ''MaximumValue''),
       set_int m ''minimum_value'' (t ''MinimumValue''),
       set_int m ''resolution'' (t ''Resolution''),
       set_int m ''tolerance'' (t ''Tolerance''),
       set_int m ''accuracy'' (t ''Accuracy''),
       set_int m ''oem_defined'' (t ''OEMDefined''),
       from_ver 2 7 [
         set_int m ''nominal_value'' (t ''NominalValue'')]])"

subsection \<open>Type 27\<close>

definition smbios_load_type27 :: sm_loader where
  "smbios_load_type27 E m copy =
     (let t = se_field E ''SMBIOS_TABLE_TYPE27'' copy in sm_run [
       set_int m ''temperature_probe_handle'' (t ''TemperatureProbeHandle''),
       set_int m ''device_type_and_status'' (byte_at E copy ''SMBIOS_TABLE_TYPE27'' ''DeviceTypeAndStatus''),
       set_int m ''cooling_unit_group'' (t ''CoolingUnitGroup''),
       set_int m ''oem_defined'' (t ''OEMDefined''),
       set_int m ''nominal_speed'' (t ''NominalSpeed''),
       set_name E copy m ''description'' (t ''Description'')])"

subsection \<open>Type 28\<close>

definition smbios_load_type28 :: sm_loader where
  "smbios_load_type28 E m copy =
     (let t = se_field E ''SMBIOS_TABLE_TYPE28'' copy in sm_run [
       set_name E copy m ''description'' (t ''Description''),
       set_int m ''location_and_status'' (byte_at E copy ''SMBIOS_TABLE_TYPE28'' ''LocationAndStatus''),
       set_int m ''maximum_value'' (t ''MaximumValue''),
       set_int m ''minimum_value'' (t ''MinimumValue''),
       set_int m ''resolution'' (t ''Resolution''),
       set_int m ''tolerance'' (t ''Tolerance''),
       set_int m ''accuracy'' (t ''Accuracy''),
       set_int m ''oem_defined'' (t ''OEMDefined''),
       from_ver 2 7 [
         set_int m ''nominal_value'' (t ''NominalValue'')]])"

subsection \<open>Type 29\<close>

definition smbios_load_type29 :: sm_loader where
  "smbios_load_type29 E m copy =
     (let t = se_field E ''SMBIOS_TABLE_TYPE29'' copy in sm_run [
       set_name E copy m ''description'' (t ''Description''),
       set_int m ''probe_site'' (t ''LocationAndStatus.ElectricalCurrentProbeSite''),
       set_int m ''probe_status'' (t ''LocationAndStatus.ElectricalCurrentProbeStatus''),
       set_int m ''maximum_value'' (t ''MaximumValue''),
       set_int m ''minimum_value'' (t ''MinimumValue''),
       set_int m ''resolution'' (t ''Resolution''),
       set_int m ''tolerance'' (t ''Tolerance''),
       set_int m ''accuracy'' (t ''Accuracy''),
       set_int m ''oem_defined'' (t ''OEMDefined''),
       set_int m ''nominal_value'' (t ''NominalValue'')])"

subsection \<open>Type 30\<close>

definition smbios_load_type30 :: sm_loader where
  "smbios_load_type30 E m copy =
     (let t = se_field E ''SMBIOS_TABLE_TYPE30'' copy in sm_run [
       set_name E copy m ''manufacturer_name'' (t ''ManufacturerName''),
       set_int m ''connections'' (t ''Connections'')])"

subsection \<open>Type 31\<close>

definition smbios_load_type31 :: sm_loader where
  "smbios_load_type31 E m copy =
     (let t = se_field E ''SMBIOS_TABLE_TYPE31'' copy in sm_run [
       set_int m ''checksum'' (t ''Checksum''),
       set_int m ''bis_entry16'' (t ''BisEntry16''),
       set_int m ''bis_entry32'' (t ''BisEntry32'')])"

subsection \<open>Type 32\<close>

definition smbios_load_type32 :: sm_loader where
  "smbios_load_type32 E m copy =
     (let t = se_field E ''SMBIOS_TABLE_TYPE32'' copy in sm_run [
       set_int m ''boot_status'' (byte_at E copy ''SMBIOS_TABLE_TYPE32'' ''BootStatus'')])"

subsection \<open>Type 33\<close>

definition smbios_load_type33 :: sm_loader where
  "smbios_load_type33 E m copy =
     (let t = se_field E ''SMBIOS_TABLE_TYPE33'' copy in sm_run [
       set_int m ''error_type'' (t ''ErrorType''),
       set_int m ''error_granularity'' (t ''ErrorGranularity''),
       set_int m ''error_operation'' (t ''ErrorOperation''),
       set_int m ''vendor_syndrome'' (t ''VendorSyndrome''),
       set_int m ''memory_array_error_address'' (t ''MemoryArrayErrorAddress''),
       set_int m ''device_error_address'' (t ''DeviceErrorAddress''),
       set_int m ''error_resolution'' (t ''ErrorResolution'')])"

subsection \<open>Type 34\<close>

definition smbios_load_type34 :: sm_loader where
  "smbios_load_type34 E m copy =
     (let t = se_field E ''SMBIOS_TABLE_TYPE34'' copy in sm_run [
       set_name E copy m ''description'' (t ''Description''),
       set_int m ''type'' (t ''Type''),
       set_int m ''address'' (t ''Address''),
       set_int m ''address_type'' (t ''AddressType'')])"

subsection \<open>Type 35\<close>

definition smbios_load_type35 :: sm_loader where
  "smbios_load_type35 E m copy =
     (let t = se_field E ''SMBIOS_TABLE_TYPE35'' copy in sm_run [
       set_name E copy m ''description'' (t ''Description''),
       set_int m ''management_device_handle'' (t ''ManagementDeviceHandle''),
       set_int m ''component_handle'' (t ''ComponentHandle''),
       set_int m ''threshold_handle'' (t ''ThresholdHandle'')])"

subsection \<open>Type 36\<close>

definition smbios_load_type36 :: sm_loader where
  "smbios_load_type36 E m copy =
     (let t = se_field E ''SMBIOS_TABLE_TYPE36'' copy in sm_run [
       set_int m ''lower_threshold_non_critical'' (t ''LowerThresholdNonCritical''),
       set_int m ''upper_threshold_non_critical'' (t ''UpperThresholdNonCritical''),
       set_int m ''lower_threshold_critical'' (t ''LowerThresholdCritical''),
       set_int m ''upper_threshold_critical'' (t ''UpperThresholdCritical''),
       set_int m ''lower_threshold_non_recoverable'' (t ''LowerThresholdNonRecoverable''),
       set_int m ''upper_threshold_non_recoverable'' (t ''UpperThresholdNonRecoverable'')])"

subsection \<open>Type 37\<close>

definition smbios_load_type37 :: sm_loader where
  "smbios_load_type37 E m copy =
     (let t = se_field E ''SMBIOS_TABLE_TYPE37'' copy in sm_run [
       set_int m ''channel_type'' (t ''ChannelType''),
       set_int m ''maximum_channel_load'' (t ''MaximumChannelLoad''),
       set_int m ''memory_device_count'' (t ''MemoryDeviceCount'')])"

subsection \<open>Type 38\<close>

definition smbios_load_type38 :: sm_loader where
  "smbios_load_type38 E m copy =
     (let t = se_field E ''SMBIOS_TABLE_TYPE38'' copy in sm_run [
       set_int m ''interface_type'' (t ''InterfaceType''),
       set_int m ''ipmi_specification_revision'' (t ''IPMISpecificationRevision''),
       set_int m ''i2c_slave_address'' (t ''I2CSlaveAddress''),
       set_int m ''nv_storage_device_address'' (t ''NVStorageDeviceAddress''),
       set_int m ''base_address'' (t ''BaseAddress''),
       set_int m ''base_address_modifier'' (t ''BaseAddressModifier_InterruptInfo''),
       set_int m ''interrupt_number'' (t ''InterruptNumber'')])"

subsection \<open>Type 39\<close>

definition smbios_load_type39 :: sm_loader where
  "smbios_load_type39 E m copy =
     (let t = se_field E ''SMBIOS_TABLE_TYPE39'' copy in sm_run [
       set_int m ''power_unit_group'' (t ''PowerUnitGroup''),
       set_name E copy m ''location'' (t ''Location''),
       set_name E copy m ''device_name'' (t ''DeviceName''),
       set_name E copy m ''manufacturer'' (t ''Manufacturer''),
       set_name E copy m ''serial_number'' (t ''SerialNumber''),
       set_name E copy m ''asset_tag_number'' (t ''AssetTagNumber''),
       set_name E copy m ''model_part_number'' (t ''ModelPartNumber''),
       set_name E copy m ''revision_level'' (t ''RevisionLevel''),
       set_int m ''max_power_capacity'' (t ''MaxPowerCapacity''),
       set_int m ''power_supply_characteristics'' (le_value (bytes_at E copy ''SMBIOS_TABLE_TYPE39'' ''PowerSupplyCharacteristics'' 2)),
       set_int m ''input_voltage_probe_handle'' (t ''InputVoltageProbeHandle''),
       set_int m ''cooling_device_handle'' (t ''CoolingDeviceHandle''),
       set_int m ''input_current_probe_handle'' (t ''InputCurrentProbeHandle'')])"

subsection \<open>Type 40\<close>

definition smbios_load_type40 :: sm_loader where
  "smbios_load_type40 E m copy =
     (let t = se_field E ''SMBIOS_TABLE_TYPE40'' copy in sm_run [
       set_int m ''number_of_additional_information_entries'' (t ''NumberOfAdditionalInformationEntries'')])"

subsection \<open>Type 41\<close>

definition smbios_load_type41 :: sm_loader where
  "smbios_load_type41 E m copy =
     (let t = se_field E ''SMBIOS_TABLE_TYPE41'' copy in sm_run [
       set_name E copy m ''reference_designation'' (t ''ReferenceDesignation''),
       set_int m ''device_type'' (t ''DeviceType'' AND 0x7F),
       set_bool m ''device_status'' (t ''DeviceType'' AND 0x80),
       set_int m ''device_type_instance'' (t ''DeviceTypeInstance''),
       set_int m ''segment_group_num'' (t ''SegmentGroupNum''),
       set_int m ''bus_num'' (t ''BusNum''),
       set_int m ''device_function_num'' (t ''DevFuncNum'')])"

subsection \<open>Type 42\<close>

definition smbios_load_type42 :: sm_loader where
  "smbios_load_type42 E m copy =
     (let t = se_field E ''SMBIOS_TABLE_TYPE42'' copy in sm_run [
       set_int m ''interface_type'' (t ''InterfaceType'')])"

subsection \<open>Type 43\<close>

definition smbios_load_type43 :: sm_loader where
  "smbios_load_type43 E m copy =
     (let t = se_field E ''SMBIOS_TABLE_TYPE43'' copy in sm_run [
       set_fmt m ''vendor_id'' 
         (hex2 (t ''VendorID[0]'') @ hex2 (t ''VendorID[1]'') @ hex2 (t ''VendorID[2]'') @ hex2 (t ''VendorID[3]'')),
       set_int m ''major_spec_version'' (t ''MajorSpecVersion''),
       set_int m ''minor_spec_version'' (t ''MinorSpecVersion''),
       set_int m ''firmware_version1'' (t ''FirmwareVersion1''),
       set_int m ''firmware_version2'' (t ''FirmwareVersion2''),
       set_name E copy m ''description'' (t ''Description''),
       set_int m ''characteristics'' (le_value (bytes_at E copy ''SMBIOS_TABLE_TYPE43'' ''Characteristics'' 8)),
       set_int m ''oem_defined'' (t ''OemDefined'')])"

subsection \<open>Type 44\<close>

definition smbios_load_type44 :: sm_loader where
  "smbios_load_type44 E m copy =
     (let t = se_field E ''SMBIOS_TABLE_TYPE44'' copy in sm_run [
       set_int m ''ref_handle'' (t ''RefHandle''),
       set_int m ''processor.length'' (t ''ProcessorSpecificBlock.Length''),
       set_int m ''processor.arch_type'' (t ''ProcessorSpecificBlock.ProcessorArchType'')])"

subsection \<open>Type 45\<close>

definition smbios_load_type45 :: sm_loader where
  "smbios_load_type45 E m copy =
     (let t = se_field E ''SMBIOS_TABLE_TYPE45'' copy in sm_run [
       set_name E copy m ''firmware.component_name'' (t ''FirmwareComponentName''),
       set_name E copy m ''firmware.version'' (t ''FirmwareVersion''),
       set_int m ''firmware.version_format'' (t ''FirmwareVersionFormat''),
       set_name E copy m ''firmware.id'' (t ''FirmwareId''),
       set_int m ''firmware.id_format'' (t ''FirmwareIdFormat''),
       set_name E copy m ''release_date'' (t ''ReleaseDate''),
       set_name E copy m ''manufacturer'' (t ''Manufacturer''),
       set_name E copy m ''lowest_supported_version'' (t ''LowestSupportedVersion''),
       set_int m ''image_size'' (t ''ImageSize''),
       set_int m ''state'' (t ''State''),
       set_int m ''associated_component_count'' (t ''AssociatedComponentCount'')])"

subsection \<open>Type 46\<close>

definition smbios_load_type46 :: sm_loader where
  "smbios_load_type46 E m copy =
     (let t = se_field E ''SMBIOS_TABLE_TYPE46'' copy in sm_run [
       set_int m ''string_property_id'' (t ''StringPropertyId''),
       set_name E copy m ''string_property_value'' (t ''StringPropertyValue''),
       set_int m ''parent_handle'' (t ''ParentHandle'')])"

section \<open>Loading\<close>

definition smbios_table_loads :: "(nat \<times> cstring \<times> sm_loader) list" where
  "smbios_table_loads = [
     (0, ''bios'', smbios_load_type0), (1, ''system'', smbios_load_type1),
     (2, ''board'', smbios_load_type2), (3, ''chassis'', smbios_load_type3),
     (4, ''cpu'', smbios_load_type4), (5, ''mem_ctrl'', smbios_load_type5),
     (6, ''mem_mod'', smbios_load_type6), (7, ''cache'', smbios_load_type7),
     (8, ''port'', smbios_load_type8), (9, ''slot'', smbios_load_type9),
     (10, ''onboard'', smbios_load_type10), (11, ''oem'', smbios_load_type11),
     (12, ''sysconf'', smbios_load_type12), (13, ''language'', smbios_load_type13),
     (14, ''associations'', smbios_load_type14), (15, ''event_log'', smbios_load_type15),
     (16, ''phy_mem_array'', smbios_load_type16), (17, ''mem_dev'', smbios_load_type17),
     (18, ''mem_err'', smbios_load_type18), (19, ''mem_map'', smbios_load_type19),
     (20, ''mem_dev_map'', smbios_load_type20), (21, ''pointing'', smbios_load_type21),
     (22, ''battery'', smbios_load_type22), (23, ''sysreset'', smbios_load_type23),
     (24, ''hwsecurity'', smbios_load_type24), (25, ''power_control'', smbios_load_type25),
     (26, ''voltage_probe'', smbios_load_type26), (27, ''cooling'', smbios_load_type27),
     (28, ''temp_probe'', smbios_load_type28), (29, ''curr_probe'', smbios_load_type29),
     (30, ''remote_access'', smbios_load_type30), (31, ''bis'', smbios_load_type31),
     (32, ''boot_info'', smbios_load_type32), (33, ''mem64_err'', smbios_load_type33),
     (34, ''mgmt_dev'', smbios_load_type34), (35, ''mgmt_dev_comp'', smbios_load_type35),
     (36, ''mgmt_dev_threshold'', smbios_load_type36), (37, ''mem_channel'', smbios_load_type37),
     (38, ''ipmi_dev'', smbios_load_type38), (39, ''power_supply'', smbios_load_type39),
     (40, ''additional'', smbios_load_type40), (41, ''onboard_ext'', smbios_load_type41),
     (42, ''mgmt_ctrl_host'', smbios_load_type42), (43, ''cpu_additional'', smbios_load_type43),
     (44, ''tpm_dev'', smbios_load_type44), (45, ''firmware'', smbios_load_type45),
     (46, ''prop_id'', smbios_load_type46)]"

fun load_tables :: "smbios_env \<Rightarrow> ptr \<Rightarrow> (nat \<times> cstring \<times> sm_loader) list \<Rightarrow> smbios_state \<Rightarrow> bool sm_result" where
  "load_tables E root [] st = Some (True, st)"
| "load_tables E root ((ty, name, load) # rest) st = do {
     (ok, st) \<leftarrow> embloader_smbios_load_table E root ty name load st;
     (if ok then load_tables E root rest st else Some (False, st))
   }"

text \<open>The tables of the firmware become \<open>smbios\<close> in the system information, or nothing does.\<close>

definition embloader_load_smbios :: "smbios_env \<Rightarrow> embloader \<Rightarrow> (bool \<times> embloader) option" where
  "embloader_load_smbios E g =
     (let ctx = embloader_init_info_smbios E zero_smbios in
      if \<not> sm_smbios2 ctx \<and> \<not> sm_smbios3 ctx then Some (False, g)
      else do {
        (root, s) \<leftarrow> confignode_new_map (g_cs g);
        (case root of
           None \<Rightarrow> Some (False, g\<lparr>g_cs := s\<rparr>)
         | Some r \<Rightarrow> do {
             st \<leftarrow> sm_run [
               set_int root ''major'' (int (sm_major ctx)),
               set_int root ''minor'' (int (sm_minor ctx)),
               set_fmt root ''version'' (nat_dec (sm_major ctx) @ ''.'' @ nat_dec (sm_minor ctx))]
               \<lparr>ss_ctx = ctx, ss_cs = s\<rparr>;
             (ok, st) \<leftarrow> (if sm_config_error (ss_ctx st) then Some (False, st)
                         else load_tables E root smbios_table_loads st);
             (ok, s) \<leftarrow> (if ok then confignode_map_set (g_sysinfo g) (Some ''smbios'') root (ss_cs st)
                        else Some (False, ss_cs st));
             (if ok then Some (True, g\<lparr>g_cs := s\<rparr>)
              else do { s \<leftarrow> confignode_clean r s; Some (False, g\<lparr>g_cs := s\<rparr>) })
           })
      })"

end
