(* ===== verification/SmbiosLoaders.thy ===== *)
theory SmbiosLoaders
  imports SmbiosTypes SmbiosFacts
begin

text \<open>
  The loaders of all record types leave the table alone, so that the results on the loop over the
  records hold for each of them; and a small table as an example.
\<close>

section \<open>Loaders\<close>

lemma list_all_map: "(\<And>x. P (g x)) \<Longrightarrow> list_all P (map g xs)"
  by (simp add: list_all_iff)

lemma steady_lists:
  "list_all steady fs \<Longrightarrow> steady (sm_run fs)"
  "(\<And>n. list_all steady (gs n)) \<Longrightarrow> steady (with_map n p gs)"
  "(\<And>n. list_all steady (gs n)) \<Longrightarrow> steady (with_array n p gs)"
  "(\<And>n. list_all steady (gs n)) \<Longrightarrow> steady (with_item n gs)"
  "list_all steady fs \<Longrightarrow> list_all steady hs \<Longrightarrow> steady (if_ver i j c fs hs)"
  "list_all steady fs \<Longrightarrow> steady (from_ver i j fs)"
  unfolding list_all_iff from_ver_def by (auto intro: steady)

lemma steady_texts:
  "steady (set_fmt n p t)" "steady (set_guid E c n p off)"
  unfolding set_fmt_def set_guid_def embloader_smbios_config_set_string_fmt_def
    embloader_smbios_set_config_guid_def embloader_smbios_config_set_string_def
  by (rule steady_void; auto simp: Let_def dest: guarded_table split: if_splits)+

lemmas steady_simps = steady_lists steady_sets steady_texts list_all_map

lemma steady_flags: "steady (set_processor_feature_flags n f)" "steady (set_processor_characteristics n f)"
  by (simp_all add: set_processor_feature_flags_def set_processor_characteristics_def steady_simps)

lemmas steady_all = steady_simps steady_flags

lemma steady_type0: "steady (smbios_load_type0 E m c)"
  by (simp add: smbios_load_type0_def Let_def steady_all)

lemma steady_type1: "steady (smbios_load_type1 E m c)"
  by (simp add: smbios_load_type1_def Let_def steady_all)

lemma steady_type2: "steady (smbios_load_type2 E m c)"
  by (simp add: smbios_load_type2_def Let_def steady_all)

lemma steady_type3: "steady (smbios_load_type3 E m c)"
  by (simp add: smbios_load_type3_def Let_def steady_all)

lemma steady_type4: "steady (smbios_load_type4 E m c)"
  by (simp add: smbios_load_type4_def Let_def steady_all)

lemma steady_type5: "steady (smbios_load_type5 E m c)"
  by (simp add: smbios_load_type5_def Let_def steady_all)

lemma steady_type6: "steady (smbios_load_type6 E m c)"
  by (simp add: smbios_load_type6_def Let_def steady_all)

lemma steady_type7: "steady (smbios_load_type7 E m c)"
  by (simp add: smbios_load_type7_def Let_def steady_all)

lemma steady_type8: "steady (smbios_load_type8 E m c)"
  by (simp add: smbios_load_type8_def Let_def steady_all)

lemma steady_type9: "steady (smbios_load_type9 E m c)"
  by (simp add: smbios_load_type9_def Let_def steady_all)

lemma steady_type10: "steady (smbios_load_type10 E m c)"
  by (simp add: smbios_load_type10_def Let_def steady_all)

lemma steady_type11: "steady (smbios_load_type11 E m c)"
  by (simp add: smbios_load_type11_def Let_def steady_all)

lemma steady_type12: "steady (smbios_load_type12 E m c)"
  by (simp add: smbios_load_type12_def Let_def steady_all)

lemma steady_type13: "steady (smbios_load_type13 E m c)"
  by (simp add: smbios_load_type13_def Let_def steady_all)

lemma steady_type14: "steady (smbios_load_type14 E m c)"
  by (simp add: smbios_load_type14_def Let_def steady_all)

lemma steady_type15: "steady (smbios_load_type15 E m c)"
  by (simp add: smbios_load_type15_def Let_def steady_all)

lemma steady_type16: "steady (smbios_load_type16 E m c)"
  by (simp add: smbios_load_type16_def Let_def steady_all)

lemma steady_type17: "steady (smbios_load_type17 E m c)"
  by (simp add: smbios_load_type17_def Let_def steady_all)

lemma steady_type18: "steady (smbios_load_type18 E m c)"
  by (simp add: smbios_load_type18_def Let_def steady_all)

lemma steady_type19: "steady (smbios_load_type19 E m c)"
  by (simp add: smbios_load_type19_def Let_def steady_all)

lemma steady_type20: "steady (smbios_load_type20 E m c)"
  by (simp add: smbios_load_type20_def Let_def steady_all)

lemma steady_type21: "steady (smbios_load_type21 E m c)"
  by (simp add: smbios_load_type21_def Let_def steady_all)

lemma steady_type22: "steady (smbios_load_type22 E m c)"
  by (simp add: smbios_load_type22_def Let_def steady_all)

lemma steady_type23: "steady (smbios_load_type23 E m c)"
  by (simp add: smbios_load_type23_def Let_def steady_all)

lemma steady_type24: "steady (smbios_load_type24 E m c)"
  by (simp add: smbios_load_type24_def Let_def steady_all)

lemma steady_type25: "steady (smbios_load_type25 E m c)"
  by (simp add: smbios_load_type25_def Let_def steady_all)

lemma steady_type26: "steady (smbios_load_type26 E m c)"
  by (simp add: smbios_load_type26_def Let_def steady_all)

lemma steady_type27: "steady (smbios_load_type27 E m c)"
  by (simp add: smbios_load_type27_def Let_def steady_all)

lemma steady_type28: "steady (smbios_load_type28 E m c)"
  by (simp add: smbios_load_type28_def Let_def steady_all)

lemma steady_type29: "steady (smbios_load_type29 E m c)"
  by (simp add: smbios_load_type29_def Let_def steady_all)

lemma steady_type30: "steady (smbios_load_type30 E m c)"
  by (simp add: smbios_load_type30_def Let_def steady_all)

lemma steady_type31: "steady (smbios_load_type31 E m c)"
  by (simp add: smbios_load_type31_def Let_def steady_all)

lemma steady_type32: "steady (smbios_load_type32 E m c)"
  by (simp add: smbios_load_type32_def Let_def steady_all)

lemma steady_type33: "steady (smbios_load_type33 E m c)"
  by (simp add: smbios_load_type33_def Let_def steady_all)

lemma steady_type34: "steady (smbios_load_type34 E m c)"
  by (simp add: smbios_load_type34_def Let_def steady_all)

lemma steady_type35: "steady (smbios_load_type35 E m c)"
  by (simp add: smbios_load_type35_def Let_def steady_all)

lemma steady_type36: "steady (smbios_load_type36 E m c)"
  by (simp add: smbios_load_type36_def Let_def steady_all)

lemma steady_type37: "steady (smbios_load_type37 E m c)"
  by (simp add: smbios_load_type37_def Let_def steady_all)

lemma steady_type38: "steady (smbios_load_type38 E m c)"
  by (simp add: smbios_load_type38_def Let_def steady_all)

lemma steady_type39: "steady (smbios_load_type39 E m c)"
  by (simp add: smbios_load_type39_def Let_def steady_all)

lemma steady_type40: "steady (smbios_load_type40 E m c)"
  by (simp add: smbios_load_type40_def Let_def steady_all)

lemma steady_type41: "steady (smbios_load_type41 E m c)"
  by (simp add: smbios_load_type41_def Let_def steady_all)

lemma steady_type42: "steady (smbios_load_type42 E m c)"
  by (simp add: smbios_load_type42_def Let_def steady_all)

lemma steady_type43: "steady (smbios_load_type43 E m c)"
  by (simp add: smbios_load_type43_def Let_def steady_all)

lemma steady_type44: "steady (smbios_load_type44 E m c)"
  by (simp add: smbios_load_type44_def Let_def steady_all)

lemma steady_type45: "steady (smbios_load_type45 E m c)"
  by (simp add: smbios_load_type45_def Let_def steady_all)

lemma steady_type46: "steady (smbios_load_type46 E m c)"
  by (simp add: smbios_load_type46_def Let_def steady_all)

lemmas steady_types =
  steady_type0 steady_type1 steady_type2 steady_type3 steady_type4 steady_type5
  steady_type6 steady_type7 steady_type8 steady_type9 steady_type10 steady_type11
  steady_type12 steady_type13 steady_type14 steady_type15 steady_type16 steady_type17
  steady_type18 steady_type19 steady_type20 steady_type21 steady_type22 steady_type23
  steady_type24 steady_type25 steady_type26 steady_type27 steady_type28 steady_type29
  steady_type30 steady_type31 steady_type32 steady_type33 steady_type34 steady_type35
  steady_type36 steady_type37 steady_type38 steady_type39 steady_type40 steady_type41
  steady_type42 steady_type43 steady_type44 steady_type45 steady_type46

lemma steady_loaders:
  assumes "(ty, name, load) \<in> set smbios_table_loads"
  shows "steady (load E m c)"
proof -
  have "list_all (\<lambda>(ty, name, load). \<forall>E m c. steady (load E m c)) smbios_table_loads"
    by (simp add: smbios_table_loads_def steady_types)
  with assms show ?thesis by (auto simp: list_all_iff)
qed

lemma repeated_handle:
  assumes "table_mapped (se_mem E) (ss_ctx st)" "(ty, name, load) \<in> set smbios_table_loads"
    and "embloader_smbios_load_table E root ty name load st = Some (True, st')"
  shows "first_handles (se_mem E) (ss_ctx st) ty"
  by (rule load_table_handles [OF assms(1) steady_loaders [OF assms(2)] assms(3)])

section \<open>A table of three records\<close>

text \<open>A BIOS record with a string, a record of a type of its own, and the end of the table.\<close>

definition demo_table :: cstring where
  "demo_table = [CHR 0x00, CHR 0x05, CHR 0x01, CHR 0x00, CHR 0x01, CHR ''A'', NUL, NUL,
     CHR 0x00, CHR 0x04, CHR 0x02, CHR 0x00, NUL, NUL,
     CHR 0x7F, CHR 0x04, CHR 0x03, CHR 0x00, NUL, NUL]"

definition demo_memory :: memory where
  "demo_memory a = (if 16 \<le> a \<and> a < 36 then Some (demo_table ! (a - 16)) else None)"

definition demo_ctx :: embloader_smbios where
  "demo_ctx = zero_smbios\<lparr>sm_table_start := 16, sm_table_end := 36\<rparr>"

lemma demo_mapped: "table_mapped demo_memory demo_ctx"
  by (simp add: mapped_def demo_memory_def demo_ctx_def)

lemma demo_records: "records demo_memory demo_ctx 0 = [16, 24, 30]"
  by code_simp

lemma demo_handles: "first_handles demo_memory demo_ctx 0"
proof -
  have "map (handle_at demo_memory) [16, 24, 30] = [1, 2, 3]" by code_simp
  then show ?thesis unfolding first_handles_def demo_records
    by (auto simp: Cons_eq_append_conv)
qed

lemma demo_types: "filter (\<lambda>r. type_at demo_memory r = 0) [16, 24, 30] = [16, 24]"
  by code_simp

end
