(* ===== verification/Supplement.thy ===== *)
theory Supplement
  imports CLib
    CNum
    Conf
    ConfFacts
    Config
    ConfigCopy
    ConfigFile
    ConfigLookup
    ConfigMerge
    ConfigPath
    ConfigReads
    ConfigTree
    ConfigValue
    Crc32
    Dbl
    DblPrint
    DeviceTree
    Dtbo
    DtboFacts
    Efi
    Encode
    EncodeFacts
    Extlinux
    ExtlinuxFacts
    FdtUtils
    FdtUtilsFacts
    FileUtils
    FileUtilsFacts
    LinuxBoot
    LinuxBootFacts
    LinuxFiles
    LinuxFilesFacts
    LinuxInfo
    LinuxMemory
    LinuxMemoryFacts
    LinuxSamples
    ListFacts
    ListHeap
    ListObj
    ListText
    Loader
    Log
    LogFacts
    LogSamples
    LogStart
    LogStartFacts
    LogText
    LogTextFacts
    LogWrites
    Menu
    MenuFacts
    Overlays
    PathUtil
    Prelude
    Resolve
    Samples
    Sdboot
    SdbootFacts
    SdbootFile
    SdbootFolder
    SdbootItems
    SdbootMenu
    SdbootOrder
    SdbootSamples
    SdbootTyped
    SdbootTypes
    SdbootVars
    SdbootVarsFacts
    SdbootVarsSpec
    Smbios
    SmbiosFacts
    SmbiosLoaders
    SmbiosTable
    SmbiosTypes
    StrUtils
    Variables
    VariablesFacts
    Vercmp
begin

text \<open>
  Further properties of strings, lists, paths, encodings, configurations and entries.
\<close>

text \<open>
  Without \<open>create\<close>, looking a path up in a well-formed tree returns exactly the node the walk
  along the components reaches and \<open>NULL\<close> when a key is missing, an index is out of range or a
  node on the way is of the wrong type; no node changes.
\<close>

theorem config_lookup_tree:
  assumes "holds (nodes s) par t" "twf t" "\<forall>c \<in> set cs. good_comp c" "no_oom s"
  shows "\<exists>s'. confignode_path_lookup (Some (at_addr t)) (Some (path_text cs)) False s =
     Some (map_option at_addr (tree_at t cs), s') \<and> nodes s' = nodes s"
  using path_lookup_tree [OF assms] by (simp add: confignode_path_lookup_def)

lemma config_lookup_tree_witness:
  "\<exists>s'. confignode_path_lookup (Some 1) (Some (path_text demo_missing)) False demo_state =
     Some (None, s') \<and> nodes s' = nodes demo_state"
  using config_lookup_tree [OF demo_holds(1) demo_twf(1) demo_missing_good demo_no_oom] demo_missing_at
  by (simp add: demo_addr)

text \<open>
  \<open>list_free_all\<close> started from any cell of a list frees all its cells and no other, and calls
  the data callback on each non-\<open>NULL\<close> datum exactly once, from the first cell to the last.
\<close>

theorem list_free_exact:
  assumes "dlist (lh_cells h) xs" "a \<in> addrs xs"
  shows "\<exists>h'. list_free_all (Some a) df h = Some (0, h') \<and>
     lh_cells h' = (\<lambda>a. if a \<in> addrs xs then None else lh_cells h a) \<and>
     lh_freed h' = lh_freed h @ (if df then some_data xs else []) \<and> lh_nxt h' = lh_nxt h"
  by (rule list_free_all_dlist [OF assms])

lemma list_free_exact_witness:
  "\<exists>h'. list_free_all (Some 2) True demo_heap = Some (0, h') \<and> lh_freed h' = [''b'', ''c'', ''a'']"
  using list_free_exact [OF demo_dlist demo_addrs, of True]
  by (auto simp: demo_cells_def demo_heap_def some_data_def)

text \<open>
  Whatever cell of the list the caller's pointer is at (or \<open>NULL\<close> for the empty list),
  \<open>list_obj_add_new\<close> returns 0 and the pointer then stands for the list with the datum appended, or
  it returns an error and the pointer still stands for the old list.
\<close>

theorem list_add_new_rep:
  assumes "list_rep h lst ds"
  shows "\<exists>r lst' h'. list_obj_add_new lst d h = Some (r, lst', h') \<and>
     (r = 0 \<and> list_rep h' lst' (ds @ [d]) \<or> r < 0 \<and> lst' = lst \<and> list_rep h' lst ds)"
  by (rule list_obj_add_new_rep [OF assms])

lemma list_add_new_rep_witness:
  "\<exists>r lst' h'. list_obj_add_new (Some 2) (Some ''d'') demo_heap = Some (r, lst', h') \<and>
     (r = 0 \<and> list_rep h' lst' (map snd demo_cells @ [Some ''d'']) \<or>
      r < 0 \<and> lst' = Some 2 \<and> list_rep h' (Some 2) (map snd demo_cells))"
  by (rule list_add_new_rep [OF demo_rep])

text \<open>
  \<open>string_to_list_by_space\<close> always returns: the list it builds with \<open>list_obj_add_new\<close> holds
  the items of the string in order, or the result is \<open>NULL\<close> (after an allocation failed, or when
  the string has no item).
\<close>

theorem splitter_heap:
  assumes "list_rep h None []"
  shows "\<exists>lst h'. string_to_list_heap (Some str) h = Some (lst, h') \<and>
     (list_rep h' lst (map Some (string_to_list_by_space (Some str))) \<or> lst = None \<and> list_rep h' None [])"
proof -
  have tick: "list_rep (h\<lparr>lh_tick := Suc (lh_tick h)\<rparr>) None (map Some [])"
    using assms by (simp add: list_rep_def wf_heap_def)
  show ?thesis
    using heap_list.split_loop_rep [OF tick, of str "[]" False False False] tick
    by (auto simp: string_to_list_heap_def string_to_list_by_space_def Let_def)
qed

lemma splitter_heap_witness:
  "\<exists>lst h'. string_to_list_heap (Some ''a b'') empty_heap = Some (lst, h') \<and>
     (list_rep h' lst (map Some (string_to_list_by_space (Some ''a b''))) \<or> lst = None \<and> list_rep h' None [])"
  by (rule splitter_heap [OF empty_rep])

text \<open>
  Any list of non-empty words, each written with a backslash before every character and joined
  by single blanks, is split back into exactly those words.
\<close>

theorem splitter_roundtrip:
  assumes "\<forall>w \<in> set ws. w \<noteq> []"
  shows "string_to_list_by_space (Some (join_sep '' '' (map escape_word ws))) = ws"
  by (rule string_to_list_by_space_escaped [OF assms])

lemma splitter_roundtrip_witness:
  "string_to_list_by_space (Some (join_sep '' '' (map escape_word [''a b'', [CHR 0x22]]))) = [''a b'', [CHR 0x22]]"
  by (rule splitter_roundtrip) simp

text \<open>
  \<open>list_to_string\<close> on a list of the heap returns the non-empty strings joined by the separator;
  it returns \<open>NULL\<close> when there is none, when the text with its NUL would not fit a \<open>size_t\<close>, or when the
  allocation fails. The computed size is always enough: nothing is cut.
\<close>

theorem list_to_string_join:
  assumes "dlist (lh_cells h) xs" "a \<in> addrs xs"
  shows "\<exists>h'. list_to_string (Some a) (Some sep) h =
       Some (if lh_oom h (lh_tick h) then None else strings_to_string sep (some_data xs), h') \<and>
     lh_cells h' = lh_cells h"
  by (rule list_to_string_dlist [OF assms])

lemma list_to_string_join_witness:
  "\<exists>h'. list_to_string (Some 2) (Some '', '') demo_heap = Some (Some ''b, c, a'', h')"
  using list_to_string_join [OF demo_dlist demo_addrs, of "'', ''"]
  by (auto simp: demo_heap_def demo_cells_def some_data_def strings_to_string_def SIZE_MAX_def)

text \<open>
  A string is true exactly when its lower-case form is one of the eight true words, false exactly
  when it is one of the seven false words, and never both.
\<close>

theorem boolean_words:
  assumes "cstr s"
  shows "string_is_true (Some s) = (map tolower s \<in> set true_words) \<and>
     string_is_false (Some s) = (map tolower s \<in> set false_words) \<and>
     \<not> (string_is_true (Some s) \<and> string_is_false (Some s))"
  using assms true_false_words_disjoint by (auto simp: string_is_true_iff string_is_false_iff)

lemma boolean_words_witness:
  "string_is_true (Some ''yes'') \<and> \<not> string_is_false (Some ''yes'')"
  using boolean_words [of "''yes''"] by (simp add: true_words_def false_words_def tolower_def isupper_def cval_def)

text \<open>
  With a buffer larger than the path, the result is the path's components taken in order on a
  stack (an empty component or a dot does nothing, two dots pop, a name is pushed), written with the
  wanted separator behind every directory; the returned length is the length of that text.
\<close>

theorem path_resolve_normal_form:
  assumes "is_sep sep" "length p < sz"
  shows "path_resolve (Some b) sz sep (Some p) =
     (let q = resolve_to sep [] (components p) in (length q, Some q))"
  by (rule path_resolve_normal [OF assms])

lemma path_resolve_normal_form_witness:
  "path_resolve (Some []) 32 CHR ''/'' (Some ''/a/./b/../c'') = (3, Some ''a/c'')"
  using path_resolve_normal_form [of "CHR ''/''" "''/a/./b/../c''" 32 "[]"]
  by (simp add: is_sep_def components.simps enter_def ordinary_def dirs_def)

text \<open>
  Resolving the result of a resolution again, with room enough both times, gives the same text.
\<close>

theorem path_resolve_idempotent:
  assumes "is_sep sep" "length p < sz" "path_resolve (Some b) sz sep (Some p) = (n, Some q)" "length q < sz'"
  shows "path_resolve (Some b') sz' sep (Some q) = (n, Some q)"
proof -
  have q: "q = resolve_to sep [] (components p)" "n = length q"
    using path_resolve_normal [OF assms(1,2), of b] assms(3) by (simp_all add: Let_def)
  have "resolve_to sep [] (components q) = q"
    unfolding q(1) by (rule resolve_to_idem [OF assms(1)]) (auto dest: components_good)
  with path_resolve_normal [OF assms(1,4), of b'] q(2) show ?thesis by (simp add: Let_def)
qed

lemma path_resolve_idempotent_witness:
  "path_resolve (Some []) 8 CHR ''/'' (Some ''a/c'') = (3, Some ''a/c'')"
proof (rule path_resolve_idempotent [of _ "''/a/./b/../c''" 32 "[]"])
  show "path_resolve (Some []) 32 CHR ''/'' (Some ''/a/./b/../c'') = (3, Some ''a/c'')"
    by (simp add: path_resolve_def is_sep_def at_end_def at_start_def path_up_def Let_def)
qed (simp_all add: is_sep_def)

text \<open>
  For every path and every buffer of at least one byte the result and its NUL fit the buffer, the
  returned length is the length of the text, and the text starts with no separator, has no two
  separators in a row and uses only the separator asked for.
\<close>

theorem path_resolve_bounds:
  assumes "is_sep sep" "0 < sz"
  shows "\<exists>q. path_resolve (Some b) sz sep (Some p) = (length q, Some q) \<and> length q < sz \<and> path_shape sep q"
  by (rule path_resolve_shape [OF assms])

lemma path_resolve_bounds_witness:
  "\<exists>q. path_resolve (Some []) 4 CHR ''/'' (Some ''//abc//def'') = (length q, Some q) \<and> length q < 4 \<and>
     path_shape CHR ''/'' q"
  by (rule path_resolve_bounds) (simp_all add: is_sep_def)

text \<open>
  With large enough buffers the directory and the last component of a path are consecutive pieces
  of it, followed only by separators; the last component contains no separator and the directory
  is empty or ends with one.
\<close>

theorem dirname_basename_split:
  assumes "length p < sz"
  shows "\<exists>d b w. path_dirname (Some x) sz (Some p) = Some d \<and> path_basename (Some y) sz (Some p) = Some b \<and>
     p = d @ b @ w \<and> (\<forall>c \<in> set w. is_sep c) \<and> (\<forall>c \<in> set b. \<not> is_sep c) \<and> (d = [] \<or> is_sep (last d))"
  by (rule dirname_basename [OF assms])

lemma dirname_basename_split_witness:
  "\<exists>d b w. path_dirname (Some []) 16 (Some ''/boot/vmlinuz/'') = Some d \<and>
     path_basename (Some []) 16 (Some ''/boot/vmlinuz/'') = Some b \<and> ''/boot/vmlinuz/'' = d @ b @ w \<and>
     (\<forall>c \<in> set w. is_sep c) \<and> (\<forall>c \<in> set b. \<not> is_sep c) \<and> (d = [] \<or> is_sep (last d))"
  by (rule dirname_basename_split) simp

text \<open>
  For every byte sequence \<open>s_crc32\<close> computes the reflected CRC-32 with polynomial \<open>0xEDB88320\<close>,
  defined one bit at a time: in particular all 256 entries of the table are right.
\<close>

theorem crc32_reference: "s_crc32 buffer = crc32_ref buffer"
  by (rule s_crc32_eq)

text \<open>
  Whatever the source bytes and the transfer rules, and whether or not the conversion succeeds, the
  converter consumes no more than the source, writes whole units, and what it wrote plus the
  terminator fits the destination and ends with it.
\<close>

theorem encode_utf8_bounds:
  assumes "ei_src_ptr c = Some s" "ei_has_dst c" "2 \<le> ei_dst_size c"
    and "encode_utf8_to_utf16_convert c o0 = (st, r)"
  shows "conversion_ok c 2 r \<and> even (eo_dst_wrote r)"
  by (rule utf8_convert_safe [OF assms])

lemma encode_utf8_bounds_witness:
  "conversion_ok demo_conv 2 (snd (encode_utf8_to_utf16_convert demo_conv enc_out_zero)) \<and>
     even (eo_dst_wrote (snd (encode_utf8_to_utf16_convert demo_conv enc_out_zero)))"
  by (rule encode_utf8_bounds [of demo_conv "[0x41, 0x42, 0x43]" enc_out_zero
        "fst (encode_utf8_to_utf16_convert demo_conv enc_out_zero)"])
     (simp_all add: demo_conv_def)

text \<open>
  For every sequence of Unicode scalar values other than NUL, converting its UTF-8 encoding gives its
  UTF-16 encoding, and converting that gives the UTF-8 encoding back, surrogate pairs included.
\<close>

theorem encode_roundtrip:
  assumes "ctext cps" "length (text8 cps) < SIZE_MAX div 3"
  shows "encode_utf8_to_utf16 False (Some (text8 cps)) = Some (text16 cps) \<and>
     encode_utf16_to_utf8 False (Some (text16 cps)) = Some (text8 cps)"
  using simple_utf8_text [OF assms(1)] simple_utf16_text [OF assms(1)] assms(2) text_lengths(1) [of cps]
  by (simp_all add: SIZE_MAX_def)

lemma encode_roundtrip_witness:
  "encode_utf16_to_utf8 False (Some (text16 [0x41, 0x20AC, 0x1F600])) = Some (text8 [0x41, 0x20AC, 0x1F600])"
  by (rule encode_roundtrip [THEN conjunct2])
     (simp_all add: ctext_def scalar_def utf8_bytes_def SIZE_MAX_def)

text \<open>
  On any input bytes or units, valid or not, the buffers the simple conversions allocate are large
  enough: the only reasons for \<open>NULL\<close> are a failed allocation and a length whose buffer size would
  not fit a \<open>size_t\<close>.
\<close>

theorem encode_always_fits:
  "(encode_utf8_to_utf16 oom (Some s) = None) = (oom \<or> SIZE_MAX div 2 - 1 < length s) \<and>
   (encode_utf16_to_utf8 oom (Some ws) = None) = (oom \<or> (SIZE_MAX - 1) div 3 < length ws)"
  using simple_utf8_total [of oom s] simple_utf16_total [of oom ws] by simp

text \<open>
  On a well-formed configuration, with no automatic entries wanted, adding the systemd-boot entries to
  the menu returns: no lookup on the way is stuck and no loop runs on.
\<close>

theorem sdboot_items_returns:
  assumes "good_config g t" "g_menu g = Some m" "g_sdboot g = Some sd" "no_auto sd"
  shows "\<exists>st g'. sdboot_boot_add_items setup g = Some (st, g')"
  by (rule add_items_returns [OF assms])

lemma sdboot_items_returns_witness: "\<exists>st g'. sdboot_boot_add_items False boot_state = Some (st, g')"
  by (rule sdboot_items_returns [OF boot_config boot_menu])

text \<open>
  On a well-formed configuration, with memory left and a text that fits, saving returns the lines of its
  leaves with their paths, or \<open>NULL\<close> when the format cannot express it: an empty array or inner map, a
  null, a key with a separator or a text with a line end. No node changes.
\<close>

theorem conf_save_lines:
  assumes "holds (nodes s) None t" "twf t" "no_oom s" "cn_type (at_node t) = TYPE_MAP"
    and "\<forall>ls. tleaves [] (erase t) = Some ls \<longrightarrow> length (concat (map leaf_line ls)) < SIZE_MAX"
  shows "\<exists>s'. configfile_conf_save_string (Some (at_addr t)) s =
     Some (map_option (\<lambda>ls. concat (map leaf_line ls)) (tleaves [] (erase t)), s') \<and> nodes s' = nodes s"
  by (rule save_string_lines [OF assms])

lemma conf_save_lines_witness:
  "\<exists>s'. configfile_conf_save_string (Some 10) demo_state = Some (Some demo_text, s')"
  using conf_save_lines [OF demo_holds(2) demo_twf(2) demo_no_oom demo_over_map] demo_leaves demo_lines
  by (auto simp: demo_addr demo_text_length)

end
