(* ===== verification/Spec2Isabelle.thy ===== *)
theory Spec2Isabelle
  imports CLib
    CNum
    Conf
    ConfFacts
    Config
    ConfigCopy
    ConfigFile
    ConfigLookup
    ConfigMerge
    ConfigPath
    ConfigReads
    ConfigTree
    ConfigValue
    Crc32
    Dbl
    DblPrint
    DeviceTree
    Dtbo
    DtboFacts
    Efi
    Encode
    EncodeFacts
    Extlinux
    ExtlinuxFacts
    FdtUtils
    FdtUtilsFacts
    FileUtils
    FileUtilsFacts
    LinuxBoot
    LinuxBootFacts
    LinuxFiles
    LinuxFilesFacts
    LinuxInfo
    LinuxMemory
    LinuxMemoryFacts
    LinuxSamples
    ListFacts
    ListHeap
    ListObj
    ListText
    Loader
    Log
    LogFacts
    LogSamples
    LogStart
    LogStartFacts
    LogText
    LogTextFacts
    LogWrites
    Menu
    MenuFacts
    Overlays
    PathUtil
    Prelude
    Resolve
    Samples
    Sdboot
    SdbootFacts
    SdbootFile
    SdbootFolder
    SdbootItems
    SdbootMenu
    SdbootOrder
    SdbootSamples
    SdbootTyped
    SdbootTypes
    SdbootVars
    SdbootVarsFacts
    SdbootVarsSpec
    Smbios
    SmbiosFacts
    SmbiosLoaders
    SmbiosTable
    SmbiosTypes
    StrUtils
    Supplement
    Variables
    VariablesFacts
    Vercmp
begin

text \<open>
  A model of embloader, a UEFI boot loader written in C (\<open>src/embloader\<close>), and the theorems that
  make its core correct. The loader reads its configuration from files of several formats into one
  tree of nodes, matches the hardware against it, builds a boot menu from the tree and from the
  systemd-boot files it finds on the disks, and boots the entry that is chosen, falling back to others
  when that fails. The model covers the code from the strings and lists up to the fallback, and the way of a
  Linux kernel from its files to the jump; what the firmware, the external parsers and libraries and the boot
  handlers do is a parameter.

  \<^bold>\<open>How the code is modelled.\<close> A C string is a list of characters (\<open>cstring\<close>), a pointer to it or \<open>NULL\<close>
  is an \<open>option\<close>. Linked lists and configuration nodes live on explicit heaps (\<open>lheap\<close>, \<open>cstate\<close>): maps from
  addresses to records, with the next free address and an allocation oracle, a function from the
  number of the allocation to whether it fails, so that every out-of-memory path is a branch. A
  function that may touch a freed node or not end is an \<open>option\<close>, and \<open>None\<close> is that case; that it is not \<open>None\<close> is
  proved where it is claimed. UEFI status codes are a datatype (\<open>efi_status\<close>). Integers are \<open>int\<close> with the limits
  of their C type (\<open>INT_MAX\<close>, \<open>INT64_MAX\<close>, \<open>SIZE_MAX\<close>) where the code checks them, bytes and code units are \<open>8 word\<close>
  and \<open>16 word\<close>, doubles are their 64 bits. The messages that the code sends to the log are left out, except those
  of the log itself. Loops that the code bounds are
  recursions with a measure, the others \<open>partial_function\<close>; no fuel is used anywhere.

  \<^bold>\<open>Foundations.\<close>
  \<^item> \<open>Prelude\<close>, \<open>CLib\<close>, \<open>CNum\<close>: types, monadic loops over heaps, the C library functions the code calls, the
    integer parsers and printers.
  \<^item> \<open>StrUtils\<close>, \<open>Vercmp\<close> (\<open>lib/str-utils.c\<close>): word tests, trimming, the shell-like splitter; the version order,
    proved to be the comparison of token keys.
  \<^item> \<open>ListHeap\<close>, \<open>ListFacts\<close>, \<open>ListObj\<close>, \<open>ListText\<close> (\<open>lib/list.c\<close>, \<open>include/list.h\<close>): every list operation on the heap; their
    effect on the abstract list (\<open>dlist\<close>, \<open>list_rep\<close>), the stable sort, exact freeing; the contract \<open>obj_list\<close>
    of a list variable, interpreted on the heap operations, from which the splitter on the heap is
    proved to refine the pure one; joining and splitting.
  \<^item> \<open>PathUtil\<close> (\<open>lib/path.c\<close>), \<open>Crc32\<close> (\<open>lib/crc32.c\<close>), \<open>Efi\<close> (\<open>lib/string.c\<close>), \<open>Dbl\<close>, \<open>DblPrint\<close> (doubles and \<open>printf\<close>), \<open>Encode\<close>, \<open>EncodeFacts\<close>
    (\<open>encode/\<close>): normal forms of paths, the CRC against its polynomial, the converters between UTF-8 and
    UTF-16, their bounds and round trip.

  \<^bold>\<open>Configuration\<close> (\<open>src/configfile\<close>).
  \<^item> \<open>Config\<close> (\<open>node.c\<close>, \<open>map.c\<close>, \<open>array.c\<close>, \<open>merge.c\<close>), \<open>ConfigPath\<close> (\<open>path.c\<close>), \<open>ConfigValue\<close> (\<open>value.c\<close>, \<open>iter.c\<close>, \<open>wrapper.c\<close>): the operations.
  \<^item> \<open>ConfigTree\<close>, \<open>ConfigCopy\<close>, \<open>ConfigMerge\<close>, \<open>ConfigLookup\<close>, \<open>ConfigReads\<close>: the tree in the heap (\<open>holds\<close>, \<open>twf\<close>, \<open>erase\<close>); cleaning frees
    exactly a tree, copying gives a fresh equal tree or nothing, merging is \<open>tmerge\<close> or nothing, lookup
    is the walk in the tree, reading changes only the allocation counter.
  \<^item> \<open>Conf\<close>, \<open>ConfFacts\<close> (\<open>conf.c\<close>): the key = value format; saving prints the leaves, loading what was saved
    performs their assignments.
  \<^item> \<open>ConfigFile\<close> (\<open>file.c\<close>, \<open>main/config.c\<close>, \<open>main/cmdline.c\<close>), \<open>Overlays\<close> (\<open>main/dtbo.c\<close>): the files the loader reads and
    how they are merged. The JSON and YAML parsers are parameters.

  \<^bold>\<open>Loader and menu.\<close>
  \<^item> \<open>Loader\<close> (\<open>include/embloader.h\<close>, \<open>include/bootmenu.h\<close>, \<open>main/match.c\<close>, \<open>main/device.c\<close>, \<open>loader/loader.c\<close>, \<open>loader/type/reboot.c\<close>):
    the global state, hardware matching, entries. \<open>Resolve\<close> (\<open>main/resolve.c\<close>): variables in paths.
  \<^item> \<open>Menu\<close>, \<open>MenuFacts\<close> (\<open>menu/menu.c\<close>): the entries of the configuration, the choice and the fallback; the
    fallback ends without rescue entries and may not end with one.
  \<^item> \<open>Extlinux\<close>, \<open>ExtlinuxFacts\<close> (\<open>main/extlinux.c\<close>): the parser of \<open>extlinux.conf\<close> and its publication; the names of
    its entries clash with nothing, its timeout is exact, also where it wraps.

  \<^bold>\<open>SMBIOS\<close> (\<open>src/smbios\<close>).
  \<^item> \<open>Smbios\<close> (\<open>base.c\<close>): entry points and the walk over the table in a memory of which only mapped bytes may be
    read. \<open>SmbiosTable\<close> (\<open>config.c\<close>, the end of \<open>base.c\<close>): guarded writes and the loop over the records of a type.
    \<open>SmbiosTypes\<close> (\<open>types/*.c\<close>, \<open>types.c\<close>, \<open>load.c\<close>): what each type of record stores.
  \<^item> \<open>SmbiosFacts\<close>, \<open>SmbiosLoaders\<close>: no read leaves the table, whatever it holds; the records (\<open>records\<close>) are found in
    order, and the loop (\<open>visits\<close>) ends exactly when no handle comes back.

  \<^bold>\<open>systemd-boot\<close> (\<open>src/sdboot\<close>).
  \<^item> \<open>SdbootTypes\<close> (\<open>types.c\<close>), \<open>Sdboot\<close> (\<open>base.c\<close>, \<open>parser.c\<close>), \<open>SdbootFacts\<close>, \<open>SdbootTyped\<close>: the line format, what a file denotes
    (\<open>settings\<close>, \<open>entry_of\<close>, \<open>menu_of\<close>) and that parsing computes it, transactionally for the menu.
  \<^item> \<open>SdbootFile\<close> (\<open>file.c\<close> and the device search of \<open>menu.c\<close>), \<open>SdbootFolder\<close>: loading files and folders; the loop over a
    directory ends on every directory that follows the firmware's protocol (\<open>serves\<close>).
  \<^item> \<open>SdbootMenu\<close> (\<open>menu.c\<close>), \<open>SdbootItems\<close>, \<open>SdbootOrder\<close>: menu entries from systemd-boot entries; all or nothing, each once; the
    locale \<open>comparison\<close> is the contract of a C comparison function, interpreted on the version and byte
    orders, and shows when priorities follow the order.
  \<^item> \<open>Samples\<close>, \<open>SdbootSamples\<close>: the concrete inputs of the witnesses.

  \<^bold>\<open>Linux\<close> (\<open>src/linux\<close>).
  \<^item> \<open>FileUtils\<close>, \<open>FileUtilsFacts\<close> (\<open>lib/file-utils.c\<close>): files read in chunks, into memory or into pages. The page
    allocator is a ledger of live blocks (\<open>page_state\<close>): freeing a block that is not live, or with another
    number of pages, has no result; \<open>pages_hold\<close> says which blocks are live beside those of before.
  \<^item> \<open>LinuxInfo\<close> (\<open>bootargs.c\<close>, \<open>bootinfo.c\<close>), \<open>LinuxFiles\<close>, \<open>LinuxFilesFacts\<close> (\<open>kernel.c\<close>, \<open>initramfs.c\<close>): what an entry asks for, and its
    files, all freed when one of them fails.
  \<^item> \<open>DeviceTree\<close> (\<open>dtbo_params.c\<close>, \<open>devicetree.c\<close>), \<open>Dtbo\<close>, \<open>DtboFacts\<close> (\<open>dtbo.c\<close>, \<open>embloader_fetch_fdt\<close>): trees, the parameters of
    overlays and the overlays under the policy for failures (\<open>policy_kept\<close>); a tree is a number of successful
    applications (\<open>overlaid\<close>) away from the one before. The tree libraries are the record \<open>fdt_ops\<close>.
  \<^item> \<open>FdtUtils\<close>, \<open>FdtUtilsFacts\<close> (\<open>lib/fdt.c\<close>, \<open>linux/fdt.c\<close>): properties as bytes, of which no read leaves the end.
  \<^item> \<open>LinuxMemory\<close>, \<open>LinuxMemoryFacts\<close> (\<open>aarch64.c\<close>): the memory map and the place of the image, on 64-bit words.
  \<^item> \<open>LinuxBoot\<close>, \<open>LinuxBootFacts\<close> (\<open>load.c\<close>, \<open>preboot.c\<close>, \<open>boot.c\<close>, \<open>efi.c\<close>, the rest of \<open>aarch64.c\<close>): the composition; loading balances its
    pages, and of the trees that were installed only the last one keeps its block (\<open>installed_only\<close>).
  \<^item> \<open>LinuxSamples\<close>: the concrete inputs of the witnesses. \<open>Supplement\<close>: further properties of the foundations.

  \<^bold>\<open>The log\<close> (\<open>src/log\<close>).
  \<^item> \<open>Log\<close> (\<open>base.c\<close>, \<open>store.c\<close>, \<open>print.c\<close>, \<open>backend.c\<close>): items, the store with its limit, delivery to backends. A kind of
    backend is a record of functions on a state; a backend is named by a number. \<open>LogFacts\<close>: the invariant \<open>log_inv\<close>
    (the accounts, a prefix of the items for every backend, the marks), kept by every operation; the fast flush.
  \<^item> \<open>LogText\<close> (\<open>format.c\<close>, \<open>filter.c\<close>, \<open>backends/stdio.c\<close>), \<open>LogStart\<close> (\<open>backends/file.c\<close>, the rest of \<open>backend.c\<close>, \<open>log_init\<close>).
    \<open>LogTextFacts\<close>: the text is \<open>expand\<close> of the format in a buffer that \<open>fits\<close>, the filter is \<open>wanted\<close>. \<open>LogWrites\<close>: what is
    written. \<open>LogStartFacts\<close>: logging only reads the configuration (\<open>undisturbed\<close>). \<open>LogSamples\<close>: inputs of the witnesses.

  \<^bold>\<open>Firmware variables.\<close>
  \<^item> \<open>Variables\<close> (\<open>lib/variables.c\<close>), \<open>VariablesFacts\<close>: setting, getting and deleting; what was set is read back in a store that keeps
    its contract (\<open>stores\<close>: deleting by setting nothing, sizes that are told, errors that change nothing).
  \<^item> \<open>SdbootVars\<close> (\<open>sdboot/variables.c\<close>), \<open>SdbootVarsFacts\<close>: the boot loader interface; the list of entries, requests for one boot and that no
    other variable changes, with failing allocations too. \<open>SdbootVarsSpec\<close>: what the variables mean for the menu (\<open>system_menu\<close>,
    \<open>system_choice\<close>), as functions of the texts in the store, computed by the preparation of the menu, and the inputs
    of the witnesses.

  \<^bold>\<open>Parameters.\<close> The file systems (\<open>filesys\<close>, \<open>sd_device\<close>, \<open>sd_firmware\<close>), the JSON and YAML parsers, regular
  expressions, the device-tree identifiers, the front ends, boot handlers and keyboard (\<open>menu_env\<close>), and the
  memory, configuration tables and packed structures of SMBIOS (\<open>smbios_env\<close>), the volumes (\<open>efi_root\<close>), the device
  tree libraries (\<open>fdt_ops\<close>) and the services of the firmware for memory, protocols and programs
  (\<open>memory_services\<close>, \<open>initrd_services\<close>, \<open>boot_services\<close>, \<open>log_services\<close>, \<open>efi_variables\<close>) are arguments of the
  definitions. Theorems about them name what they need: \<open>serves\<close> is the documented
  protocol of reading a directory, \<open>mapped\<close> says that the table of the firmware may be read, \<open>tidy_env\<close> and \<open>failing_env\<close> describe boot handlers that come back,
  \<open>reads_of\<close> is the documented behaviour of reading a file, \<open>parents_first\<close> that of the offsets of a tree, and \<open>writes_out\<close> that of writing to a file.
  An image or buffer is never at address 0.

  \<^bold>\<open>Not modelled.\<close> Drawing and key handling of the menus, the vendored and generated code, the wrappers of
  JSON and YAML, and access to the devices of the firmware: they are input and output around the code above. So
  are the messages that opening a log file prints.
  The component list of the manifest names their files.
\<close>

section \<open>Properties\<close>

text \<open>
  C1. \<open>vercmp\<close> orders versions by their keys: a list of one key per token, where a tilde is below the
  end of the version, the end below a word and a word below a number, numbers compare by value and
  words byte by byte. The order is total, antisymmetric up to equal keys and transitive.
\<close>

theorem vercmp_total_order:
  "sgn (vercmp (Some s) (Some t)) = cmp3 (ver_key s) (ver_key t)"
  by (rule vercmp_key)

text \<open>
  C2. Merging a tree into another always returns. When it reports success the target node holds
  the recursive merge of the two configurations (entries of maps merged by key, arrays appended,
  other values replaced), its addresses are old ones of the target or new ones, every node dropped
  from it has been freed and no node outside it was touched. When it reports failure the heap is
  exactly as before, and an allocation did fail.
\<close>

theorem config_merge_tree:
  assumes "wf_state s"
    and "holds (nodes s) par t" "twf t" "distinct (taddrs t)"
    and "holds (nodes s) q u" "twf u" "set (taddrs u) \<inter> set (taddrs t) = {}"
  shows "\<exists>ok s'. confignode_merge (Some (at_addr t)) (Some (at_addr u)) s = Some (ok, s') \<and> progress s s' \<and>
     (if ok then \<exists>t'. grown par s t s' t' \<and> erase t' = tmerge (erase t) (erase u)
      else nodes s' = nodes s \<and> failed s s')"
  by (rule confignode_merge_tree [OF assms])

lemma config_merge_tree_witness:
  "\<exists>ok s'. confignode_merge (Some 1) (Some 10) demo_state = Some (ok, s') \<and> progress demo_state s' \<and>
     (if ok then \<exists>t'. grown None demo_state demo_tree s' t' \<and> erase t' = tmerge (erase demo_tree) (erase demo_over)
      else nodes s' = nodes demo_state \<and> failed demo_state s')"
  using config_merge_tree [OF demo_wf_state demo_holds(1) demo_twf(1) demo_distinct(1)
      demo_holds(2) demo_twf(2) demo_distinct(2)]
  by (simp add: demo_addr)

text \<open>
  C3. Copying a well-formed tree always returns: either a tree with the same configuration made of
  freshly allocated nodes only, with every other node unchanged, or \<open>NULL\<close>, and then every node
  allocated on the way was freed again and an allocation did fail.
\<close>

theorem config_copy_tree:
  assumes "wf_state s" "holds (nodes s) par t" "twf t"
  shows "\<exists>r s'. confignode_copy (at_addr t) s = Some (r, s') \<and> copied s (erase t) r s'"
  by (rule confignode_copy_tree [OF assms])

lemma config_copy_tree_witness:
  "\<exists>r s'. confignode_copy 1 demo_state = Some (r, s') \<and> copied demo_state (erase demo_tree) r s'"
  using config_copy_tree [OF demo_wf_state demo_holds(1) demo_twf(1)]
  by (simp add: demo_addr)

text \<open>
  C4. For a node of a well-formed tree reached by keys without separators and by indices, the
  path that is printed into a large enough buffer is valid, and looking it up from the root
  returns that node and changes no node.
\<close>

theorem config_path_roundtrip:
  assumes "holds (nodes s) None t" "twf t" "\<forall>c \<in> set cs. good_comp c" "no_oom s"
    and "tree_at t cs = Some u" "length (path_text cs) < sz"
  shows "\<exists>p s'. confignode_path_get (Some (at_addr u)) sz s = Some (Some p) \<and> path_valid p \<and>
     confignode_path_lookup (Some (at_addr t)) (Some p) False s = Some (Some (at_addr u), s') \<and>
     nodes s' = nodes s"
  using path_lookup_tree [OF assms(1-4)] path_get_tree [OF assms(1,2,5,3,6)] assms(3,5)
  by (auto simp: confignode_path_lookup_def path_valid_text)

lemma config_path_roundtrip_witness:
  "\<exists>p s'. confignode_path_get (Some 4) 64 demo_state = Some (Some p) \<and> path_valid p \<and>
     confignode_path_lookup (Some 1) (Some p) False demo_state = Some (Some 4, s') \<and>
     nodes s' = nodes demo_state"
  using config_path_roundtrip [OF demo_holds(1) demo_twf(1) demo_path_good demo_no_oom demo_path_at, of 64] demo_path_len
  by (simp add: demo_addr)

text \<open>
  C5. Cleaning the root of a tree returns and frees every node of the tree once, and nothing else.
\<close>

theorem config_clean_exact:
  assumes "holds (nodes s) None t" "distinct (taddrs t)"
  shows "confignode_clean (at_addr t) s =
     Some (s\<lparr>nodes := \<lambda>x. if x \<in> set (taddrs t) then None else nodes s x\<rparr>)"
  by (rule clean_root [OF assms])

lemma config_clean_exact_witness:
  "\<exists>s'. confignode_clean 1 demo_state = Some s' \<and> nodes s' 4 = None \<and> nodes s' 10 = nodes demo_state 10"
  using config_clean_exact [OF demo_holds(1) demo_distinct(1)]
  by (simp add: demo_tree_def demo_x_def)

text \<open>
  C6. With a sorter that compares a key, \<open>list_sort\<close> started from any cell of a list returns and
  leaves the same cells linked in the order of the stable sort by the key; no other cell changes.
\<close>

theorem list_sort_stable:
  fixes key :: "'d option \<Rightarrow> 'k::linorder"
  assumes "dlist (lh_cells h) xs" "a \<in> addrs xs"
  shows "\<exists>r h'. list_sort (Some a) (\<lambda>x y. key y < key x) h = Some (r, h') \<and>
     dlist (lh_cells h') (sort_key (key \<circ> snd) xs) \<and> links_only (addrs xs) h h'"
  using sort_loop_dlist [OF assms, of key 0] by (simp add: list_sort_def)

lemma list_sort_stable_witness:
  "\<exists>r h'. list_sort (Some 2) (\<lambda>x y. cval (hd (the y)) < cval (hd (the x))) demo_heap = Some (r, h') \<and>
     dlist (lh_cells h') (sort_key ((\<lambda>x. cval (hd (the x))) \<circ> snd) demo_cells) \<and> links_only (addrs demo_cells) demo_heap h'"
  by (rule list_sort_stable [OF demo_dlist demo_addrs, of "\<lambda>x. cval (hd (the x))"])

text \<open>
  C7. A line made of blanks, a key, blanks, a value, blanks and an optional comment is split into exactly
  that key and that value: the key has no blank and does not start a comment, the value has no
  comment character and no blank at its ends.
\<close>

theorem sdboot_line_format:
  assumes "plain_key key" "plain_value val" "blank w1" "blank w2" "w2 \<noteq> []" "blank w3"
    and "cm = [] \<or> hd cm = CHR ''#''"
  shows "sdboot_split_line (w1 @ key @ w2 @ val @ w3 @ cm) = Some (Some (key, val))"
  by (rule split_line_shape [OF assms])

lemma sdboot_line_format_witness:
  "sdboot_split_line ''  options root=/dev/sda quiet # kernel'' = Some (Some (''options'', ''root=/dev/sda quiet''))"
  using sdboot_line_format [of "''options''" "''root=/dev/sda quiet''" "''  ''" "'' ''" "'' ''" "''# kernel''"]
  by (simp add: plain_key_def plain_value_def isspace_def cval_def)

text \<open>
  C8. Parsing the text of an entry file into a loader either runs out of memory (an allocation failed
  on the way), or leaves in the loader exactly what the settings of the file denote, line by line:
  the last value of a text key, all words of a list key in order, keys without regard to case, other
  lines without effect.
\<close>

theorem sdboot_entry_file:
  "case sdboot_boot_parse_content (Some fname) (Some content) (None, Some l) s of (status, tgt, s') \<Rightarrow>
     if status = EFI_OUT_OF_RESOURCES then \<exists>n. ctick s \<le> n \<and> n < ctick s' \<and> coom s n
     else (status = EFI_SUCCESS \<or> status = EFI_LOAD_ERROR) \<and> tgt = (None, Some (entry_of l (settings content)))"
  by (rule loader_file)

text \<open>
  C9. Parsing the text of a menu file succeeds and the menu is what the settings of the file denote,
  or it fails and the caller's menu is exactly the old one; an out-of-memory result means that an
  allocation did fail.
\<close>

theorem sdboot_menu_file:
  "case sdboot_boot_parse_content (Some fname) (Some content) (Some m, None) s of (status, tgt, s') \<Rightarrow>
     (status = EFI_SUCCESS \<and> tgt = (Some (menu_of m (settings content)), None)) \<or>
     (status = EFI_LOAD_ERROR \<and> tgt = (Some m, None)) \<or>
     (status = EFI_OUT_OF_RESOURCES \<and> tgt = (Some m, None) \<and> (\<exists>n. ctick s \<le> n \<and> n < ctick s' \<and> coom s n))"
  by (rule menu_file)

text \<open>
  C10. Parsing any text into a well-typed target leaves a well-typed target: all stored strings are C
  strings (no NUL inside) and the timeout fits an \<open>int\<close>, whatever the text is and whichever allocation
  fails.
\<close>

theorem sdboot_types:
  assumes "sdboot_boot_parse_content fname content tgt s = (st, tgt', s')" "target_typed tgt"
  shows "target_typed tgt'"
  by (rule parse_content_typed [OF assms])

lemma sdboot_types_witness:
  "target_typed (fst (snd (sdboot_boot_parse_content (Some ''loader.conf'') (Some ''timeout 5'') (Some zero_boot_menu, None) demo_state)))"
proof (rule sdboot_types)
  show "sdboot_boot_parse_content (Some ''loader.conf'') (Some ''timeout 5'') (Some zero_boot_menu, None) demo_state =
     (fst (sdboot_boot_parse_content (Some ''loader.conf'') (Some ''timeout 5'') (Some zero_boot_menu, None) demo_state),
      fst (snd (sdboot_boot_parse_content (Some ''loader.conf'') (Some ''timeout 5'') (Some zero_boot_menu, None) demo_state)),
      snd (snd (sdboot_boot_parse_content (Some ''loader.conf'') (Some ''timeout 5'') (Some zero_boot_menu, None) demo_state)))"
    by simp
  show "target_typed (Some zero_boot_menu, None)"
    by (simp add: target_typed_def menu_typed_def zero_boot_menu_def opt_cstr_def INT_MIN_def INT_MAX_def)
qed

text \<open>
  C11. The line \<open>timeout v\<close> with a negative \<open>int\<close> value is reported as invalid, and yet the timeout of the
  menu is \<open>v\<close> afterwards: the output is written before the check.
\<close>

theorem sdboot_negative_timeout:
  assumes "INT_MIN \<le> v" "v < 0" "\<not> coom s (ctick s)"
  shows "sdboot_boot_parse_line (Some (''timeout '' @ int_dec v)) (Some m, None) s =
     (SDBOOT_PARSE_INVALID, (Some (m\<lparr>sm_timeout := v\<rparr>), None), s\<lparr>ctick := Suc (ctick s)\<rparr>)"
  by (rule negative_timeout_line [OF assms])

lemma sdboot_negative_timeout_witness:
  "\<exists>s'. sdboot_boot_parse_line (Some ''timeout -5'') (Some sdboot_boot_menu_init, None) demo_state =
     (SDBOOT_PARSE_INVALID, (Some (sdboot_boot_menu_init\<lparr>sm_timeout := -5\<rparr>), None), s')"
proof -
  have "int_dec (-5) = ''-5''" by code_simp
  moreover have "INT_MIN \<le> -5" "\<not> coom demo_state (ctick demo_state)"
    using demo_no_oom by (simp_all add: INT_MIN_def no_oom_def)
  ultimately show ?thesis using sdboot_negative_timeout [of "-5" demo_state sdboot_boot_menu_init] by auto
qed

text \<open>
  C12. On a directory that serves finitely many entries by the protocol of \<open>EFI_FILE_PROTOCOL.Read\<close>, reading
  the folder returns, whatever the allocations do. On an error the menu is untouched; otherwise the
  entries added come from files of the directory, in its order, each being what its file denotes,
  and the menu is well formed: distinct entries, each typed, bootable and of the machine's
  architecture.
\<close>

theorem sdboot_folder_returns:
  assumes "dv_folder dev = (EFI_SUCCESS, Some d)" "serves (dv_read dev) d infos"
    and "sd_ok arch lo (g_next g) menu" "lo \<le> g_next g"
  shows "\<exists>st menu' g'. sdboot_boot_load_entries_folder arch dev handle menu g = Some ((st, menu'), g') \<and>
     moved g g' \<and> sd_ok arch lo (g_next g') menu' \<and>
     (if EFI_ERROR st then menu' = menu
      else \<exists>used new. subseq used infos \<and> list_all2 (yields arch dev handle) used (map snd new) \<and>
        menu' = menu\<lparr>sd_loaders := sd_loaders menu @ new\<rparr>)"
  by (rule entries_folder_serves [OF assms])

lemma sdboot_folder_returns_witness:
  "\<exists>st menu' g'. sdboot_boot_load_entries_folder ARCH_X86_64 demo_device 3 demo_menu boot_state = Some ((st, menu'), g') \<and>
     sd_ok ARCH_X86_64 0 (g_next g') menu'"
proof -
  have "dv_folder demo_device = (EFI_SUCCESS, Some [demo_info, no_info])"
    "serves (dv_read demo_device) [demo_info, no_info] [demo_info, no_info]"
    by (simp_all add: demo_device_def list_read_serves del: serves.simps)
  from sdboot_folder_returns [OF this demo_menu_ok] show ?thesis by blast
qed

text \<open>
  C13. Loading one file into a well-formed systemd-boot menu, as a menu file or as an entry, keeps it well
  formed: its entries have distinct addresses, C strings only, a name and exactly one of kernel and EFI
  program, and the architecture of the machine. A menu file changes no entry.
\<close>

theorem sdboot_menu_invariant:
  assumes "sdboot_boot_load_file arch dev files handle menu fname is_entry g = ((st, menu'), g')"
    and "cstr fname" "sd_ok arch lo (g_next g) menu" "lo \<le> g_next g"
  shows "sd_ok arch lo (g_next g') menu' \<and> (\<not> is_entry \<longrightarrow> sd_loaders menu' = sd_loaders menu)"
proof (cases is_entry)
  case True
  with load_entry_file [of arch dev files handle menu fname g st menu' g'] assms show ?thesis by simp
next
  case False
  with load_menu_file [of arch dev files handle menu fname g st menu' g'] assms show ?thesis by simp
qed

lemma sdboot_menu_invariant_witness:
  "sd_ok ARCH_X86_64 0 (g_next (snd (sdboot_boot_load_file ARCH_X86_64 demo_device demo_files 3 demo_menu ''a.conf'' True boot_state)))
     (snd (fst (sdboot_boot_load_file ARCH_X86_64 demo_device demo_files 3 demo_menu ''a.conf'' True boot_state)))"
  using sdboot_menu_invariant [OF _ _ demo_menu_ok, of demo_device demo_files 3 "''a.conf''" True]
  by (metis cstr_def demo_name_cstr prod.collapse zero_le)

text \<open>
  C14. Adding the systemd-boot entries to the boot menu either fails and leaves both menus as they were, or
  the menu is sorted by priority, stands for every systemd-boot entry exactly once, old or new, and
  still holds every old menu entry with at most its priority changed.
\<close>

theorem sdboot_items_once:
  assumes "sdboot_boot_add_items setup g = Some (st, g')" "g_menu g = Some m" "g_sdboot g = Some sd"
    and "distinct (extras (mn_loaders m))"
  shows "if EFI_ERROR st then g_menu g' = g_menu g \<and> g_sdboot g' = g_sdboot g
     else \<exists>es. g_menu g' = Some (m\<lparr>mn_loaders := es\<rparr>) \<and> sorted (map (\<lambda>e. ll_priority (snd e)) es) \<and>
       distinct (extras es) \<and> set (extras es) = set (extras (mn_loaders m)) \<union> fst ` set (sd_loaders sd) \<and>
       (\<forall>e \<in> set (mn_loaders m). \<exists>e' \<in> set es. same_item e e')"
  using add_items_result [OF assms] unfolding kept_def .

lemma sdboot_items_once_witness:
  "\<exists>st g'. sdboot_boot_add_items True boot_state = Some (st, g') \<and>
     (if EFI_ERROR st then g_menu g' = Some zero_menu
      else \<exists>es. g_menu g' = Some (zero_menu\<lparr>mn_loaders := es\<rparr>) \<and> distinct (extras es) \<and> set (extras es) = {1, 2})"
proof -
  obtain st g' where r: "sdboot_boot_add_items True boot_state = Some (st, g')"
    using add_items_returns [OF boot_config boot_menu] by blast
  have "extras (mn_loaders zero_menu) = []" "fst ` set (sd_loaders demo_menu) = {1, 2}"
    by (simp_all add: zero_menu_def demo_menu_def)
  with sdboot_items_once [OF r boot_menu(1,2)] r boot_menu(1) show ?thesis by auto
qed

text \<open>
  C15. For systemd-boot entries that have a name and, among those with a sort key, all or none set a machine
  id and all or none a version, the assigned priorities order the entries exactly as the comparison
  does, equal ones included, as long as the priorities do not saturate.
\<close>

theorem sdboot_priority_order:
  assumes "booted sd es" "uniform {l. \<exists>e \<in> set es. boot_of sd (snd e) = Some l}"
    and "offset + int (length es) \<le> INT64_MAX" "i < length es" "j < length es"
  shows "(item_priority sd offset es i < item_priority sd offset es j \<longleftrightarrow>
      sdboot_compare_entries sd (snd (es ! i)) (snd (es ! j)) < 0) \<and>
    (item_priority sd offset es i = item_priority sd offset es j \<longleftrightarrow>
      sdboot_compare_entries sd (snd (es ! i)) (snd (es ! j)) = 0)"
  by (rule priority_follows_order [OF assms])

lemma sdboot_priority_order_witness:
  "item_priority demo_menu 100 demo_items 1 < item_priority demo_menu 100 demo_items 0"
proof -
  have "sdboot_compare_entries demo_menu (snd (demo_items ! 1)) (snd (demo_items ! 0)) < 0" by code_simp
  moreover have "(100::int) + int (length demo_items) \<le> INT64_MAX" "1 < length demo_items" "0 < length demo_items"
    by (simp_all add: demo_items_def INT64_MAX_def)
  ultimately show ?thesis using sdboot_priority_order [OF demo_booted demo_uniform, of 100 1 0] by blast
qed


text \<open>
  C17. When no entry of the menu is named like a rescue entry and the boot handlers return, booting an
  entry with fallback to the next complete entries returns: each fallback moves down the menu. Only the
  allocation counter of the configuration has changed.
\<close>

theorem menu_fallback_returns:
  assumes "tidy_env env" "good_config g t" "g_menu g = Some m" "no_rescue (mn_loaders m)"
    and "menu_cstrings (mn_loaders m)" "distinct (map fst (mn_loaders m))"
    and "\<forall>n. ll_name (snd e) = Some n \<longrightarrow> cstr n"
  shows "\<exists>st s w'. embloader_try_boot env e flags (g, w) = Some (st, g\<lparr>g_cs := s\<rparr>, w')"
  by (rule try_boot_returns [OF assms])

lemma menu_fallback_returns_witness:
  "\<exists>st s w'. embloader_try_boot broken_env (8, loop_entry ''A'') (no_flags\<lparr>fl_autoboot := True\<rparr>) (plain_state, ()) =
     Some (st, plain_state\<lparr>g_cs := s\<rparr>, w')"
  by (rule menu_fallback_returns [OF broken_env(2) plain_state(1-5)]) (simp add: plain_state(6))

text \<open>
  C18. With the entries \<open>A-rescue\<close> and \<open>A\<close> in this order, \<open>menu.try-next-on-failure\<close> set and handlers that
  fail, an automatic boot never returns: \<open>A\<close> falls back to its rescue entry and the rescue entry to the
  next entry, which is \<open>A\<close>.
\<close>

theorem menu_fallback_loops:
  assumes "failing_env env" "e \<in> set (mn_loaders loop_menu)" "reads_only (g_cs loop_state) s" "fl_autoboot flags"
  shows "embloader_try_boot env e flags (loop_state\<lparr>g_cs := s\<rparr>, w) = None"
  by (rule try_boot_never_returns [OF assms])

lemma menu_fallback_loops_witness:
  "embloader_try_boot broken_env (9, loop_entry ''A'') (no_flags\<lparr>fl_autoboot := True\<rparr>)
     (loop_state\<lparr>g_cs := g_cs loop_state\<rparr>, ()) = None"
  by (rule menu_fallback_loops [OF broken_env(1) _ reads_only_refl]) (simp_all add: loop_menu_def)

text \<open>
  C19. When a configuration without doubles can be saved, parsing the text into any map performs exactly the
  assignments of its leaves, path by path and value by value, in the order they were printed: no line
  is split, joined, skipped or read as another value.
\<close>

theorem conf_save_load:
  assumes "holds (nodes s) None t" "twf t" "no_oom s" "cn_type (at_node t) = TYPE_MAP"
    and "tleaves [] (erase t) = Some ls" "\<forall>l \<in> set ls. exact_value (snd l)"
    and "length (concat (map leaf_line ls)) < SIZE_MAX"
  shows "\<exists>txt s'. configfile_conf_save_string (Some (at_addr t)) s = Some (Some txt, s') \<and> nodes s' = nodes s \<and>
     (\<forall>r s0. conf_load_loop (Some r) txt s0 = replay (Some r) ls s0)"
  by (rule save_load [OF assms])

lemma conf_save_load_witness:
  "\<exists>txt s'. configfile_conf_save_string (Some 10) demo_state = Some (Some txt, s') \<and>
     conf_load_loop (Some 1) txt demo_state = replay (Some 1) demo_over_leaves demo_state"
  using conf_save_load [OF demo_holds(2) demo_twf(2) demo_no_oom demo_over_map demo_leaves demo_exact] demo_lines
  by (auto simp: demo_addr demo_text_length)

text \<open>
  C20. A timeout of extlinux.conf is a number of tenths of seconds. From zero up to \<open>2 ^ 64 - 10\<close> it is
  rounded up to seconds and cut off at the largest \<open>int\<close>; larger numbers are refused without
  changing the timeout. A negative number is not refused: it is read modulo \<open>2 ^ 64\<close>, so that -10
  becomes the longest timeout; only the last nine negative numbers are.
\<close>

theorem extlinux_timeout:
  "extlinux_parse_timeout (int_dec v) t =
     (if 0 \<le> v \<and> v \<le> 2 ^ 64 - 10 then (True, min INT_MAX ((v + 9) div 10))
      else if - (2 ^ 64) < v \<and> v \<le> -10 then (True, min INT_MAX ((v + 2 ^ 64 + 9) div 10))
      else (False, t))"
  by (rule parse_timeout_int_dec)

text \<open>
  C21. However the file repeats its labels and whatever entries the menu already has, the names under which
  extlinux.conf adds its labels differ without regard to case, no entry of the menu has one of them, and the menu is
  not touched while parsing, also when parsing fails half way or memory runs out.
\<close>

theorem extlinux_names:
  assumes "extlinux_parse_content p content g = Some ((ok, p'), g')" "ep_labels p = []"
  shows "g_menu g' = g_menu g \<and>
     (\<forall>l \<in> set (ep_labels p'). embloader_find_loader (Some (el_name l)) g' = None) \<and>
     sorted_wrt (\<lambda>a b. strcasecmp (el_name a) (el_name b) \<noteq> 0) (ep_labels p')"
  using parse_content_names [OF assms(1)] assms(2) by (auto simp: names_step_def names_ok_def kept_def)

lemma extlinux_names_witness:
  "\<exists>ok p' g'. extlinux_parse_content ext_demo_parser ''MENU HIDDEN'' ext_demo_state = Some ((ok, p'), g') \<and>
     ep_labels p' = [\<lparr>el_label = ''a'', el_name = ''extlinux-a-2''\<rparr>] \<and>
     embloader_find_loader (Some ''extlinux-a-2'') g' = None"
proof -
  obtain ok p' g' where r: "extlinux_parse_content ext_demo_parser ''MENU HIDDEN'' ext_demo_state = Some ((ok, p'), g')"
    "ep_labels p' = [\<lparr>el_label = ''a'', el_name = ''extlinux-a-2''\<rparr>]"
    using ext_demo_labels by (cases "extlinux_parse_content ext_demo_parser ''MENU HIDDEN'' ext_demo_state") auto
  have "ep_labels ext_demo_parser = []" by (simp add: ext_demo_parser_def zero_parser_def)
  from extlinux_names [OF r(1) this] r show ?thesis by simp
qed

text \<open>
  C22. Whatever bytes the table of the firmware holds, looking for a record by type or by handle and reading a
  string of a record come to an end and touch no byte outside the table; a record that is found lies
  inside the table with its header, its fields and the double NUL behind its strings.
\<close>

theorem smbios_safe:
  assumes "mapped m (sm_table_start ctx) (sm_table_end ctx)"
  shows "\<exists>a b s. embloader_get_smbios_by_type m ctx ty handle = Some a \<and>
     embloader_get_smbios_by_handle m ctx handle = Some b \<and>
     embloader_get_smbios_string m ctx p i = Some s \<and>
     (\<forall>r \<in> set_option a \<union> set_option b. sm_table_start ctx \<le> r \<and>
        (\<exists>len e. hdr_length m r = Some len \<and> 4 \<le> len \<and> smbios_structure_end m ctx r = Some (Some e) \<and>
           r + len + 2 \<le> e \<and> e \<le> sm_table_end ctx))"
  using lookups_safe [OF assms, of ty handle] get_string_total [OF assms, of p i] by blast

lemma smbios_safe_witness:
  "\<exists>s. embloader_get_smbios_string demo_memory demo_ctx (SmAt 16) 1 = Some s"
  using smbios_safe [OF demo_mapped, of 0 1 "SmAt 16" 1] by blast







text \<open>
  C26. If the only pages beside the caller's are those of the tree that is installed, then installing another tree
  returns with the same situation: on success for the new tree, whose block replaces the old
  one, and on any failure for the old tree, the new block being freed.
\<close>

theorem fdt_installed_only:
  assumes "installed_only base b"
    and "gget_bool (g_config (dt_g (bs_dt b))) ''efi.dtfixup'' True (dt_g (bs_dt b)) = Some (v, g)"
  shows "\<exists>status b'. linux_install_fdt S fdt b = Some (status, b') \<and> installed_only base b' \<and>
    (if EFI_ERROR status then bs_installed b' = bs_installed b else bs_installed b' \<noteq> None)"
  using install_fdt_returns [OF assms, of S fdt] install_fdt_installed [OF _ assms(1)] by blast

lemma fdt_installed_only_witness:
  "\<exists>b'. linux_install_fdt demo_services (Some ''base'') demo_boot = Some (EFI_SUCCESS, b') \<and>
     installed_only (\<lambda>_. None) b'"
proof -
  have i: "installed_only (\<lambda>_. None) demo_boot"
    by (simp add: installed_only_def demo_boot_def demo_pages_def pages_fresh_def)
  have "gget_bool (g_config (dt_g (bs_dt demo_boot))) ''efi.dtfixup'' True (dt_g (bs_dt demo_boot)) \<noteq> None"
    by code_simp
  then obtain v g where "gget_bool (g_config (dt_g (bs_dt demo_boot))) ''efi.dtfixup'' True (dt_g (bs_dt demo_boot)) = Some (v, g)"
    by auto
  from fdt_installed_only [OF i this, of demo_services "Some ''base''"] demo_installs show ?thesis by auto
qed

text \<open>
  C27. When the firmware has given its descriptors, \<open>load_memory_map\<close> succeeds with regions that are not empty and do
  not wrap, that are sorted with a gap between any two of them, and that cover exactly the addresses of
  the usable descriptors; or it fails because there is no such descriptor, one leaves the address space,
  or memory has run out.
\<close>

theorem memory_map_exact:
  assumes "map_loop M 0 False w = Some ((st, have, ds), w1)" "\<not> EFI_ERROR st"
    and "load_memory_map M w = Some ((status, rs), w')"
  shows "status = EFI_SUCCESS \<and> rs \<noteq> [] \<and> (\<forall>r \<in> set rs. valid_region r) \<and> regions_apart rs \<and>
      (\<forall>x. in_regions x rs \<longleftrightarrow> (\<exists>d \<in> set ds. include_memory_descriptor d \<and> in_descriptor x d)) \<or>
    status = EFI_NOT_FOUND \<and> rs = [] \<and> (\<forall>d \<in> set ds. \<not> include_memory_descriptor d) \<or>
    status = EFI_OUT_OF_RESOURCES \<and> rs = [] \<or>
    status = EFI_COMPROMISED_DATA \<and> rs = [] \<and>
      (\<exists>d \<in> set ds. include_memory_descriptor d \<and> \<not> descriptor_end d < 2 ^ 64)"
  by (rule load_memory_map_exact [OF assms])

lemma memory_map_exact_witness:
  "in_regions 0x2FFFFF [\<lparr>lm_address = 0x100000, lm_size = 0x400000\<rparr>] =
   (\<exists>d \<in> set demo_map. include_memory_descriptor d \<and> in_descriptor 0x2FFFFF d)"
  using memory_map_exact [OF demo_map_read _ demo_map_loaded] by (simp add: EFI_ERROR_def efi_warnings_def)



text \<open>
  C29. On a tree whose nodes come after their parents, the readers of numbers, registers, ranges and the initramfs return,
  and every read lies inside the property, whatever the properties hold and whatever index is asked for.
\<close>

theorem fdt_reads_safe:
  assumes "parents_first F fdt"
  shows "fdt_getprop_u8 F fdt off name i \<noteq> None \<and> fdt_getprop_u16 F fdt off name i \<noteq> None \<and>
    fdt_getprop_u32 F fdt off name i \<noteq> None \<and> fdt_getprop_u64 F fdt off name i \<noteq> None \<and>
    fdt_getprop_uc F fdt off name i is_size \<noteq> None \<and> fdt_get_reg F fdt off i \<noteq> None \<and>
    fdt_get_ranges F fdt off i \<noteq> None \<and> fdt_get_initrd F fdt \<noteq> None"
  using get_reg_safe [OF assms, of off i] get_ranges_safe [OF assms, of off i] get_initrd_safe [OF assms]
    getprop_uc_safe [OF assms, of off name i is_size]
  by (simp add: getprop_checked_safe fdt_getprop_u8_def fdt_getprop_u16_def fdt_getprop_u32_def fdt_getprop_u64_def)

lemma fdt_reads_safe_witness:
  "parents_first demo_fdt ''base'' \<and> fdt_getprop_u32 demo_fdt ''base'' 0 ''reg'' 7 \<noteq> None"
proof -
  have p: "parents_first demo_fdt ''base''" by (simp add: parents_first_def demo_fdt_def)
  from fdt_reads_safe [OF p, of 0 "''reg''" 7] p show ?thesis by simp
qed

text \<open>
  C30. From a file whose reads return some of the bytes at the position, as many as they like, the chunked read gives
  exactly the bytes that were asked for, or reports the end of the file when there are not enough of them.
  Whatever the file does, a read that succeeds has the size asked for.
\<close>

theorem chunked_read_exact:
  assumes "reads_of f c" "ef_getpos f = (EFI_SUCCESS, p)" "\<And>q. ef_setpos f q = EFI_SUCCESS" "off \<le> length c"
  shows "efi_file_chunked_read f (int off) (int n) =
      (if n = 0 then (EFI_SUCCESS, [])
       else if off + n \<le> length c then (EFI_SUCCESS, take n (drop off c)) else (EFI_END_OF_FILE, drop off c)) \<and>
    (\<forall>f' off' status buffer. efi_file_chunked_read f' off' (int n) = (status, buffer) \<and> \<not> EFI_ERROR status \<longrightarrow>
      length buffer = n)"
  using chunked_read_reads [OF assms] chunked_read_length [of _ _ "int n"] by auto

lemma chunked_read_exact_witness:
  "efi_file_chunked_read slow_file 1 3 = (EFI_SUCCESS, ''ell'')"
proof -
  from chunked_read_exact [OF slow_reads, of 0 1 3] show ?thesis by (simp add: slow_file_def eval_nat_numeral)
qed

text \<open>
  C31. The log knows its size: after appending an item the size is the sum of the sizes of the items, it has not wrapped
  around and is at most the limit, and the rest of the invariant holds. Of the items only the oldest were dropped, and
  no more than the limit demanded; an item that was accepted is the last one.
\<close>

theorem log_accounting:
  assumes "log_inv s" "item_ok (ls_next s) item" "lg_backends item = []" "log_append item s = (ok, s')"
  shows "log_inv s' \<and> ls_cur s' = total_log (ls_items s') \<and> ls_cur s' \<le> ls_limit s' \<and> ls_limit s' = ls_limit s \<and>
    (if ok
     then \<exists>is. evicted (ls_limit s) (ls_items s) is \<and>
            evicted (ls_limit s) (is @ [item\<lparr>lg_flushed := False\<rparr>]) (ls_items s') \<and>
            ls_items s' \<noteq> [] \<and> last (ls_items s') = item\<lparr>lg_flushed := False\<rparr>
     else evicted (ls_limit s) (ls_items s) (ls_items s'))"
  using append_accounts [OF assms] by auto

lemma log_accounting_witness:
  "ls_cur (snd (log_append demo_item (waiting_log\<lparr>ls_limit := 150\<rparr>))) \<le> 150"
proof -
  obtain ok s' where a: "log_append demo_item (waiting_log\<lparr>ls_limit := 150\<rparr>) = (ok, s')" by (metis prod.exhaust)
  have b: "lg_backends demo_item = []" by (simp add: demo_item_def)
  from log_accounting [OF waiting_log(2) demo_item_ok b a] show ?thesis by (simp add: a)
qed

text \<open>
  C32. The fast flush looks only at the items behind the last one that every backend has got. In a log in order it has the
  same effect as flushing all items to all backends: the same calls in the same order, the same items and marks.
\<close>

theorem log_fast_is_full:
  assumes "log_inv s"
  shows "log_flush_fast s = log_flush_all False s"
  by (rule flush_fast_all [OF assms])

lemma log_fast_is_full_witness:
  "log_flush_fast waiting_log = log_flush_all False waiting_log"
  by (rule log_fast_is_full [OF waiting_log(1)])



text \<open>
  C34. With a well-formed configuration the filter of a backend returns, and lets an item through exactly when its level is
  between the two levels that are configured (one that is missing or not a level does not count) and no pattern,
  alone or in nested lists, matches the field it is for; a field the item does not have is not matched.
\<close>

theorem log_filter_exact:
  assumes "holds (nodes s) par t" "twf t" "no_oom s"
  shows "\<exists>s'. log_check_filter regexp item (Some (at_addr t)) s = Some (wanted regexp t item, s')"
  by (rule log_check_filter_tree [OF assms])

lemma log_filter_exact_witness:
  "\<exists>s'. log_check_filter same_text demo_item (Some 10) log_config = Some (False, s')"
  using log_filter_exact [OF filter_config, of same_text demo_item] item_unwanted by (simp add: filter_tree_def)

text \<open>
  C35. The text of an item is the format with every specifier replaced by its field, followed by the end of the line; it is
  missing only when an allocation fails. The buffer it is built in is never overrun: it grows before text is added,
  and growing it always ends.
\<close>

theorem log_text_exact:
  "(\<exists>r g'. log_formatter item format crlf g = Some (r, g') \<and> (r = None \<or> r = Some (log_text item format crlf)) \<and>
     (no_oom (g_cs g) \<and> int (length (log_text item format crlf)) < SIZE_MOD - 1 \<longrightarrow> r = Some (log_text item format crlf))) \<and>
   (fits b \<longrightarrow> (\<exists>ok b' g'. append_value b val g = Some ((ok, b'), g') \<and> fits b' \<and>
     fb_text b' = (if ok then fb_text b @ val else fb_text b)))"
proof (intro conjI impI)
  assume "fits b"
  then show "\<exists>ok b' g'. append_value b val g = Some ((ok, b'), g') \<and> fits b' \<and> fb_text b' = (if ok then fb_text b @ val else fb_text b)"
    by (rule append_value_fits [of b val g]) blast
qed (rule log_formatter_text)

lemma log_text_exact_witness:
  "\<exists>g'. log_formatter demo_item None 1 (ls_g empty_log) = Some (Some (''[WARNING] noise: hello'' @ [CHR 0x0A]), g')"
proof -
  have t: "log_text demo_item None 1 = ''[WARNING] noise: hello'' @ [CHR 0x0A]" by code_simp
  have n: "no_oom (g_cs (ls_g empty_log))" using filter_config(3) by (simp add: empty_log_def)
  from log_text_exact [of demo_item None 1 "ls_g empty_log"] n show ?thesis by (simp add: t SIZE_MOD_def)
qed



text \<open>
  C37. A text that was set in a variable, in UTF-16, is read back as the same UTF-8 text, and a number of 32 or 64 bits is read
  back as the same number, in any store that keeps what was set and when the memory suffices.
\<close>

theorem efivar_roundtrip:
  assumes "stores V st" "no_oom (g_cs g)" "short name" "ctext cps" "3 * length (text8 cps) < SIZE_MAX div 2" "\<not> EFI_ERROR status"
  shows "(efivar_set_str16_from_str8 V vendor name (Some (utf8_text cps)) flags (g, w) = (status, g1, w1) \<longrightarrow>
        fst (efivar_get_str16_to_str8 V vendor name (g1, w1)) = (EFI_SUCCESS, Some (utf8_text cps))) \<and>
      (efivar_set_uint64_le V vendor name v64 flags (g, w) = (status, g1, w1) \<longrightarrow>
        fst (efivar_get_uint64_le V vendor name (g1, w1)) = (EFI_SUCCESS, Some v64)) \<and>
      (efivar_set_uint32_le V vendor name v32 flags (g, w) = (status, g1, w1) \<longrightarrow>
        fst (efivar_get_uint32_le V vendor name (g1, w1)) = (EFI_SUCCESS, Some v32))"
  using str16_roundtrip [OF assms(1-5) _ assms(6)] uint64_roundtrip [OF assms(1-3) _ assms(6)] uint32_roundtrip [OF assms(1-3) _ assms(6)]
  by (intro conjI impI) fastforce+

lemma efivar_roundtrip_witness:
  "\<exists>g1 w1. efivar_set_uint64_le map_vars gLoaderGuid ''LoaderFeatures'' 9991 0 (var_loader, asking_vars) = (EFI_SUCCESS, g1, w1) \<and>
    fst (efivar_get_uint64_le map_vars gLoaderGuid ''LoaderFeatures'' (g1, w1)) = (EFI_SUCCESS, Some 9991)"
proof -
  let ?n = "''LoaderFeatures''"
  have n: "short ?n" by (simp add: short_def SIZE_MAX_def)
  obtain status g1 w1 where e: "efivar_set_uint64_le map_vars gLoaderGuid ?n 9991 0 (var_loader, asking_vars) = (status, g1, w1)"
    by (metis prod.exhaust)
  obtain u g0 w0 where t: "to_utf16 ?n (var_loader, asking_vars) = (u, g0, w0)" by (metis prod.exhaust)
  from to_utf16_result [OF t] n var_loader(1) have "u = Some (wide ?n)" by blast
  with e t have s: "status = EFI_SUCCESS"
    by (simp add: efivar_set_uint64_le_def efivar_set_raw_def map_vars_def split: prod.splits)
  have "\<not> EFI_ERROR EFI_SUCCESS" by (simp add: EFI_ERROR_def)
  from efivar_roundtrip [OF map_vars var_loader(1) n _ _ this, of "[]"] e s show ?thesis by (auto simp: ctext_def SIZE_MAX_def)
qed

text \<open>
  C38. When the export of the entries succeeds and the memory suffices, the variable with the entries holds the identifiers of
  the entries of the menu in their order, each followed by a terminator, or does not exist when there are none. No two
  of them are equal but for case, and every entry with a name has its identifier among them but for case.
\<close>

theorem loader_entries_exact:
  assumes "sdboot_export_entries V s = (status, s')" "stores V st" "calm_memory s" "g_menu (sv_g s) = Some m"
    and "short_ids (mn_loaders m)" "int (length (ids_bytes (first_ids [] (mn_loaders m)))) \<le> 18446744073709551615"
    and "text_ids (mn_loaders m)" "\<not> EFI_ERROR status"
  shows "\<exists>ids. st (sv_w s') (loader_key ''LoaderEntries'') = (if ids = [] then None else Some (ids_bytes ids)) \<and>
    sorted_wrt (\<lambda>i j. strcasecmp j i \<noteq> 0) ids \<and>
    subseq ids (map (\<lambda>e. entry_id (snd e) (the (ll_name (snd e)))) (named_entries (mn_loaders m))) \<and>
    (\<forall>e \<in> set (named_entries (mn_loaders m)). \<exists>i \<in> set ids. strcasecmp (entry_id (snd e) (the (ll_name (snd e)))) i = 0)"
proof (intro exI conjI ballI)
  let ?ids = "first_ids [] (mn_loaders m)"
  show "st (sv_w s') (loader_key ''LoaderEntries'') = (if ?ids = [] then None else Some (ids_bytes ?ids))"
    using export_stores [OF assms(1-6,8)] by (simp add: loader_key_def)
  show "sorted_wrt (\<lambda>i j. strcasecmp j i \<noteq> 0) ?ids" by (rule first_ids_once)
  show "subseq ?ids (map (\<lambda>e. entry_id (snd e) (the (ll_name (snd e)))) (named_entries (mn_loaders m)))" by (rule first_ids_subseq)
  fix e assume "e \<in> set (named_entries (mn_loaders m))"
  then obtain n where "e \<in> set (mn_loaders m)" "ll_name (snd e) = Some n" by (auto simp: named_entries_def)
  with first_ids_all [of e "mn_loaders m" n "[]"] assms(7)
  show "\<exists>i \<in> set ?ids. strcasecmp (entry_id (snd e) (the (ll_name (snd e)))) i = 0" by (auto simp: text_ids_def seen_def)
qed

lemma loader_entries_exact_witness:
  "\<exists>status s'. sdboot_export_entries map_vars asking = (status, s') \<and> \<not> EFI_ERROR status \<and>
    visible (sv_w s') (loader_key ''LoaderEntries'') \<noteq> None"
proof -
  obtain status s' where e: "sdboot_export_entries map_vars asking = (status, s')" "\<not> EFI_ERROR status"
    using asking_export by blast
  from loader_entries_exact [OF e(1) map_vars asking(1,2) asking_ids(1,2,3) e(2)] obtain ids where
    ids: "visible (sv_w s') (loader_key ''LoaderEntries'') = (if ids = [] then None else Some (ids_bytes ids))"
    "\<forall>e \<in> set (named_entries (mn_loaders var_menu)). \<exists>i \<in> set ids. strcasecmp (entry_id (snd e) (the (ll_name (snd e)))) i = 0"
    by blast
  have "named_entries (mn_loaders var_menu) \<noteq> []" by (simp add: named_entries_def var_menu_def var_loader_def)
  with ids have "ids \<noteq> []" by (cases "named_entries (mn_loaders var_menu)") auto
  with ids(1) e show ?thesis by auto
qed

text \<open>
  C39. Preparing the menu and booting the entry that was asked for once: unless an error was reported, both requests for one
  boot are gone from the firmware. Whatever happens, also when memory runs out, no other variable changes but the list
  of entries and the entry that was selected: the entry that was booted last stays what it was.
\<close>

theorem oneshot_consumed:
  assumes "stores V st" "g_menu (sv_g s) \<noteq> None"
    "sdboot_init_menu_variables V fnm s = (r1, s1)" "sv_oneshot s1 = Some (fst e)" "sdboot_set_selected_entry V e s1 = (r2, s2)"
  shows "(EFI_ERROR r1 \<or> (\<forall>name \<in> {''LoaderConfigTimeoutOneShot'', ''LoaderEntryOneShot''}. st (sv_w s2) (loader_key name) = None)) \<and>
    {k. st (sv_w s2) k \<noteq> st (sv_w s) k} \<subseteq>
      loader_key ` {''LoaderConfigTimeoutOneShot'', ''LoaderEntryOneShot'', ''LoaderEntries'', ''LoaderEntrySelected''} \<and>
    sv_last_booted s2 = sv_last_booted s1"
proof -
  have o: "set oneshots = {''LoaderConfigTimeoutOneShot'', ''LoaderEntryOneShot''}" by (simp add: oneshots_def)
  note R = requests_consumed [OF assms(3,1,2)]
  note K = oneshot_not_saved [OF assms(5,1,4)]
  have "st (sv_w s2) k = st (sv_w s) k"
    if "k \<notin> loader_key ` {''LoaderConfigTimeoutOneShot'', ''LoaderEntryOneShot'', ''LoaderEntries'', ''LoaderEntrySelected''}" for k
    using R(2) [of k] K [of k] that by (simp add: o)
  moreover have "EFI_ERROR r1 \<or> (\<forall>name \<in> set oneshots. st (sv_w s2) (loader_key name) = None)"
    using R(1) K oneshots_apart by (auto simp: absent_def loader_key_def)
  ultimately show ?thesis using K unfolding o by blast
qed

lemma oneshot_consumed_witness:
  "\<exists>r s1 r2 s2. sdboot_init_menu_variables map_vars same_name asking = (r, s1) \<and> sdboot_set_selected_entry map_vars (hd (mn_loaders var_menu)) s1 = (r2, s2) \<and>
    visible (sv_w s2) (loader_key ''LoaderEntryLastBooted'') = None"
proof -
  let ?e = "hd (mn_loaders var_menu)" and ?k = "loader_key ''LoaderEntryLastBooted''"
  obtain r s1 where i: "sdboot_init_menu_variables map_vars same_name asking = (r, s1)" by (metis prod.exhaust)
  obtain r2 s2 where b: "sdboot_set_selected_entry map_vars ?e s1 = (r2, s2)" by (metis prod.exhaust)
  have m: "g_menu (sv_g asking) \<noteq> None" using asking(2) by simp
  have o: "sv_oneshot s1 = Some (fst ?e)"
    using init_menu_system [OF i map_vars asking(1,2)] by (simp add: asking(3) asking_visible asking_once)
  from oneshot_consumed [OF map_vars m i o b] have S:
    "{k. visible (sv_w s2) k \<noteq> visible (sv_w asking) k} \<subseteq>
      loader_key ` {''LoaderConfigTimeoutOneShot'', ''LoaderEntryOneShot'', ''LoaderEntries'', ''LoaderEntrySelected''}" by blast
  have K: "?k \<notin> loader_key ` {''LoaderConfigTimeoutOneShot'', ''LoaderEntryOneShot'', ''LoaderEntries'', ''LoaderEntrySelected''}"
    by (auto simp: loader_key_eq loader_names_def)
  have "visible (sv_w asking) ?k = None"
    by (simp add: asking(3) asking_visible) (simp add: asking_vars_def loader_key_eq loader_names_def)
  then have "visible (sv_w s2) ?k = None" using contra_subsetD [OF S K] by simp
  with i b show ?thesis by blast
qed

text \<open>
  C40. Preparing the menu, when the memory suffices, gives it the timeout the variables ask for, where a request for one boot
  goes before the setting and enables the menu, and as its default the first entry that matches the request for one boot, or else the
  default of the system, or else that of the configuration, where @saved stands for the entry that was booted last. It
  keeps the entry of the request, what was booted last, and whether to save the entry that is booted.
\<close>

theorem system_menu_exact:
  assumes "sdboot_init_menu_variables V fnm s = (result, s')" "stores V st" "calm_memory s" "g_menu (sv_g s) = Some m"
  shows "g_menu (sv_g s') = Some (system_menu fnm (st (sv_w s)) m) \<and>
    sv_oneshot s' = map_option fst (system_once fnm (st (sv_w s)) m) \<and>
    sv_last_booted s' = system_recent (st (sv_w s)) m \<and> sv_ready s' \<and>
    (sv_save_last s' \<longleftrightarrow> (case system_default (st (sv_w s)) of None \<Rightarrow> is_saved (mn_default_entry m) | d \<Rightarrow> is_saved d))"
  by (rule init_menu_system [OF assms])

lemma system_menu_exact_witness:
  "\<exists>m. g_menu (sv_g (snd (sdboot_init_menu_variables map_vars same_name asking))) = Some m \<and>
    mn_default_entry m = Some ''arch'' \<and> mn_timeout m = 0 \<and> mn_disabled m"
proof -
  obtain result s' where i: "sdboot_init_menu_variables map_vars same_name asking = (result, s')" by (metis prod.exhaust)
  from system_menu_exact [OF i map_vars asking(1,2)] have
    "g_menu (sv_g s') = Some (system_menu same_name asking_vars var_menu)" by (simp add: asking(3) asking_visible)
  with i asking_menu show ?thesis by simp
qed

end
